(* ===== verification/Prelude.thy ===== *)
theory Prelude
  imports Main "HOL-Library.Word" "HOL-Library.Monad_Syntax" "HOL-Library.Code_Target_Nat"
begin

text \<open>
  Shared material of the development: the collections of rewrite rules the component proofs
  draw on, the Go map as an association list behind an interface, and the invariant
  principle for systems that run a sequence of operations.
\<close>

named_theorems go_simps \<open>unfolding of the small Go library functions\<close>
named_theorems inv_intros \<open>an operation keeps the invariant of its component\<close>
named_theorems frame_simps \<open>what an operation leaves unchanged\<close>

section \<open>Results of fallible Go functions\<close>

text \<open>A Go function returning \<open>(value, error)\<close> is a sum: \<open>Inl\<close> the error, \<open>Inr\<close> the value.\<close>

type_synonym ('e, 'a) result = "'e + 'a"

definition result_bind :: "('e, 'a) result \<Rightarrow> ('a \<Rightarrow> ('e, 'b) result) \<Rightarrow> ('e, 'b) result" where
  "result_bind r f = (case r of Inl e \<Rightarrow> Inl e | Inr x \<Rightarrow> f x)"

lemma result_bind_simps [simp]:
  "result_bind (Inl e) f = Inl e"
  "result_bind (Inr x) f = f x"
  by (simp_all add: result_bind_def)

lemma result_bind_Inr_conv:
  "result_bind r f = Inr y \<longleftrightarrow> (\<exists>x. r = Inr x \<and> f x = Inr y)"
  by (cases r) simp_all

definition is_ok :: "('e, 'a) result \<Rightarrow> bool" where
  "is_ok r = (case r of Inl _ \<Rightarrow> False | Inr _ \<Rightarrow> True)"

lemma is_ok_simps [simp]: "\<not> is_ok (Inl e)" "is_ok (Inr x)"
  by (simp_all add: is_ok_def)

section \<open>Go maps\<close>

text \<open>
  A Go \<open>map[K]V\<close> is an association list with distinct keys. \<open>range\<close> over the map visits
  the entries in list order; Go leaves the order open, and the list fixes one of the
  permitted orders. \<open>len(m)\<close> is the length of the list.
\<close>

type_synonym ('k, 'v) gomap = "('k \<times> 'v) list"

definition gm_ok :: "('k, 'v) gomap \<Rightarrow> bool" where
  "gm_ok m \<longleftrightarrow> distinct (map fst m)"

fun gm_put :: "'k \<Rightarrow> 'v \<Rightarrow> ('k, 'v) gomap \<Rightarrow> ('k, 'v) gomap" where
  "gm_put k v [] = [(k, v)]"
| "gm_put k v ((a, b) # m) = (if a = k then (k, v) # m else (a, b) # gm_put k v m)"

definition gm_del :: "'k \<Rightarrow> ('k, 'v) gomap \<Rightarrow> ('k, 'v) gomap" where
  "gm_del k m = filter (\<lambda>e. fst e \<noteq> k) m"

lemma gm_put_keys: "set (map fst (gm_put k v m)) = insert k (set (map fst m))"
  by (induction m rule: gm_put.induct) auto

lemma gm_put_ok: "gm_ok m \<Longrightarrow> gm_ok (gm_put k v m)"
proof (induction k v m rule: gm_put.induct)
  case (1 k v)
  then show ?case by (simp add: gm_ok_def)
next
  case (2 k v a b m)
  then show ?case
    using gm_put_keys [of k v m] by (auto simp: gm_ok_def)
qed

lemma gm_del_ok: "gm_ok m \<Longrightarrow> gm_ok (gm_del k m)"
  by (simp add: gm_ok_def gm_del_def distinct_map_filter)

lemma gm_put_lookup: "map_of (gm_put k v m) = (map_of m)(k \<mapsto> v)"
  by (induction m rule: gm_put.induct) (auto simp: fun_eq_iff)

lemma gm_del_lookup: "map_of (gm_del k m) = (map_of m)(k := None)"
  by (induction m) (auto simp: gm_del_def fun_eq_iff)

lemma gm_put_new: "map_of m k = None \<Longrightarrow> gm_put k v m = m @ [(k, v)]"
  by (induction m rule: gm_put.induct) (auto split: if_splits)

lemma gm_put_length:
  "length (gm_put k v m) = (if k \<in> set (map fst m) then length m else Suc (length m))"
  by (induction m rule: gm_put.induct) auto

lemma gm_del_length: "gm_ok m \<Longrightarrow> map_of m k \<noteq> None \<Longrightarrow> Suc (length (gm_del k m)) = length m"
proof (induction m)
  case Nil
  then show ?case by simp
next
  case (Cons e m)
  have keep: "gm_del k m = m" if "k \<notin> fst ` set m"
    using that by (force simp: gm_del_def filter_id_conv)
  from Cons keep show ?case
    by (cases e) (auto simp: gm_ok_def gm_del_def split: if_splits)
qed

lemma gm_del_keys: "set (map fst (gm_del k m)) = set (map fst m) - {k}"
  by (auto simp: gm_del_def)

lemma gm_lookup_in: "map_of m k = Some v \<Longrightarrow> (k, v) \<in> set m"
  by (rule map_of_SomeD)

lemma gm_in_lookup: "gm_ok m \<Longrightarrow> (k, v) \<in> set m \<Longrightarrow> map_of m k = Some v"
  by (simp add: gm_ok_def map_of_is_SomeI)

text \<open>The contract a client of a Go map relies on, and that the association list keeps it.\<close>

locale finite_map =
  fixes empty :: "'m"
    and get :: "'m \<Rightarrow> 'k \<Rightarrow> 'v option"
    and put :: "'k \<Rightarrow> 'v \<Rightarrow> 'm \<Rightarrow> 'm"
    and del :: "'k \<Rightarrow> 'm \<Rightarrow> 'm"
    and size_of :: "'m \<Rightarrow> nat"
    and ok :: "'m \<Rightarrow> bool"
  assumes ok_empty: "ok empty"
    and ok_put: "ok m \<Longrightarrow> ok (put k v m)"
    and ok_del: "ok m \<Longrightarrow> ok (del k m)"
    and get_empty: "get empty k = None"
    and get_put: "get (put k v m) = (get m)(k := Some v)"
    and get_del: "get (del k m) = (get m)(k := None)"
    and size_of_get: "ok m \<Longrightarrow> size_of m = card {k. get m k \<noteq> None}"
    and finite_get: "finite {k. get m k \<noteq> None}"
begin

lemma size_of_put_new:
  assumes "ok m" and "get m k = None"
  shows "size_of (put k v m) = Suc (size_of m)"
proof -
  have "{j. get (put k v m) j \<noteq> None} = insert k {j. get m j \<noteq> None}"
    by (auto simp: get_put)
  then show ?thesis
    using assms finite_get [of m] ok_put by (simp add: size_of_get)
qed

lemma size_of_del_old:
  assumes "ok m" and "get m k \<noteq> None"
  shows "Suc (size_of (del k m)) = size_of m"
proof -
  have eq: "{j. get (del k m) j \<noteq> None} = {j. get m j \<noteq> None} - {k}"
    by (auto simp: get_del)
  have "Suc (card ({j. get m j \<noteq> None} - {k})) = card {j. get m j \<noteq> None}"
    by (rule card_Suc_Diff1 [OF finite_get]) (use assms(2) in simp)
  then show ?thesis
    using assms(1) eq by (simp add: ok_del size_of_get)
qed

lemma size_of_zero: "ok m \<Longrightarrow> size_of m = 0 \<longleftrightarrow> (\<forall>k. get m k = None)"
  using finite_get [of m] by (auto simp: size_of_get)

end

lemma gm_length_card:
  assumes "gm_ok m"
  shows "length m = card {k. map_of m k \<noteq> None}"
proof -
  have "{k. map_of m k \<noteq> None} = set (map fst m)"
    by (force simp: map_of_eq_None_iff)
  then show ?thesis
    using assms by (metis gm_ok_def distinct_card length_map)
qed

interpretation gm: finite_map "[]" map_of gm_put gm_del length gm_ok
proof unfold_locales
  show "gm_ok []" by (simp add: gm_ok_def)
  fix m :: "('a, 'b) gomap" and k :: 'a
  have "{k. map_of m k \<noteq> None} = dom (map_of m)"
    by (simp add: dom_def)
  then show "finite {k. map_of m k \<noteq> None}"
    by (simp add: finite_dom_map_of)
qed (simp_all add: gm_put_ok gm_del_ok gm_put_lookup gm_del_lookup gm_length_card)

section \<open>Systems that run operations\<close>

text \<open>
  A component is a start state and a set of steps. What holds at the start and is kept by
  every step holds after every run; a component proves the two laws once and gets the rest.
\<close>

locale invariant_system =
  fixes start :: "'s \<Rightarrow> bool"
    and step :: "'s \<Rightarrow> 's \<Rightarrow> bool"
    and good :: "'s \<Rightarrow> bool"
  assumes start_good: "start s \<Longrightarrow> good s"
    and step_good: "good s \<Longrightarrow> step s t \<Longrightarrow> good t"
begin

inductive reach :: "'s \<Rightarrow> bool" where
  reach_start: "start s \<Longrightarrow> reach s"
| reach_step: "reach s \<Longrightarrow> step s t \<Longrightarrow> reach t"

lemma reach_good: "reach s \<Longrightarrow> good s"
  by (induction rule: reach.induct) (auto intro: start_good step_good)

lemma steps_good: "step\<^sup>*\<^sup>* s t \<Longrightarrow> good s \<Longrightarrow> good t"
  by (induction rule: rtranclp_induct) (auto intro: step_good)

end

section \<open>Lists\<close>

lemma remove1_map_filter:
  "distinct xs \<Longrightarrow> remove1 x xs = filter (\<lambda>y. y \<noteq> x) xs"
  by (auto simp: distinct_remove1_removeAll removeAll_filter_not_eq intro: filter_cong)

lemma filter_fst_gm_del: "filter (\<lambda>k. k \<noteq> x) (map fst m) = map fst (gm_del x m)"
  by (induction m) (auto simp: gm_del_def)

end
