(* ===== verification/Go_Bytes.thy ===== *)
theory Go_Bytes
  imports Prelude
begin

text \<open>
  Byte slices. Indexing and slicing give \<open>None\<close> where Go panics, so a model that reads a
  slice has type \<open>(error + result) option\<close> and "never panics" is a theorem about it. Also
  the fixed-width readers and writers of \<open>encoding/binary\<close> and the scanning-loop interface
  the image parsers share.
\<close>

unbundle bit_operations_syntax

type_synonym byte = "8 word"
type_synonym bytes = "byte list"
type_synonym u64 = "64 word"

text \<open>A Go computation: \<open>None\<close> a run-time panic, else an error or a value.\<close>

type_synonym ('e, 'a) go = "('e + 'a) option"

definition idx :: "bytes \<Rightarrow> nat \<Rightarrow> byte option" where
  "idx xs i = (if i < length xs then Some (xs ! i) else None)"

definition gslice :: "bytes \<Rightarrow> nat \<Rightarrow> nat \<Rightarrow> bytes option" where
  "gslice xs i j = (if i \<le> j \<and> j \<le> length xs then Some (take (j - i) (drop i xs)) else None)"

fun le_nat :: "bytes \<Rightarrow> nat" where
  "le_nat [] = 0"
| "le_nat (b # bs) = unat b + 256 * le_nat bs"

definition be_nat :: "bytes \<Rightarrow> nat" where
  "be_nat bs = le_nat (rev bs)"

text \<open>The little-endian or big-endian unsigned value of \<open>n\<close> bytes at an offset.\<close>

definition le_at :: "nat \<Rightarrow> bytes \<Rightarrow> nat \<Rightarrow> nat option" where
  "le_at n xs i = map_option le_nat (gslice xs i (i + n))"

definition be_at :: "nat \<Rightarrow> bytes \<Rightarrow> nat \<Rightarrow> nat option" where
  "be_at n xs i = map_option be_nat (gslice xs i (i + n))"

text \<open>\<open>binary.LittleEndian.PutUint32\<close>: the four bytes of a 32-bit value.\<close>

definition put_le32 :: "32 word \<Rightarrow> bytes" where
  "put_le32 w = [ucast w, ucast (drop_bit 8 w), ucast (drop_bit 16 w), ucast (drop_bit 24 w)]"

text \<open>\<open>copy(dst[off:], src)\<close> into a slice long enough.\<close>

definition copy_at :: "bytes \<Rightarrow> nat \<Rightarrow> bytes \<Rightarrow> bytes option" where
  "copy_at dst off src =
    (if off + length src \<le> length dst
     then Some (take off dst @ src @ drop (off + length src) dst) else None)"

definition ascii_bytes :: "string \<Rightarrow> bytes" where
  "ascii_bytes s = map (\<lambda>c. word_of_nat (of_char c)) s"

definition MaxInt64 :: int where
  "MaxInt64 = 2 ^ 63 - 1"

lemma idx_Some [simp]: "i < length xs \<Longrightarrow> idx xs i = Some (xs ! i)"
  by (simp add: idx_def)

lemma idx_None_iff [simp]: "idx xs i = None \<longleftrightarrow> length xs \<le> i"
  by (simp add: idx_def)

lemma gslice_Some [simp]:
  "i \<le> j \<Longrightarrow> j \<le> length xs \<Longrightarrow> gslice xs i j = Some (take (j - i) (drop i xs))"
  by (simp add: gslice_def)

lemma gslice_length: "gslice xs i j = Some ys \<Longrightarrow> length ys = j - i"
  by (auto simp: gslice_def split: if_splits)

lemma le_nat_bound: "le_nat bs < 256 ^ length bs"
proof (induction bs)
  case (Cons b bs)
  have "unat b < 256" using unsigned_less [of b] by simp
  with Cons show ?case by simp
qed simp

lemma be_nat_bound: "be_nat bs < 256 ^ length bs"
  using le_nat_bound [of "rev bs"] by (simp add: be_nat_def)

lemma le_at_Some: "i + n \<le> length xs \<Longrightarrow> \<exists>v. le_at n xs i = Some v \<and> v < 256 ^ n"
  using le_nat_bound [of "take n (drop i xs)"] by (simp add: le_at_def)

lemma be_at_Some: "i + n \<le> length xs \<Longrightarrow> \<exists>v. be_at n xs i = Some v \<and> v < 256 ^ n"
  using be_nat_bound [of "take n (drop i xs)"] by (simp add: be_at_def)

lemma le_at_bound: "le_at n xs i = Some v \<Longrightarrow> v < 256 ^ n"
  using le_nat_bound by (fastforce simp: le_at_def dest: gslice_length)

lemma be_at_bound: "be_at n xs i = Some v \<Longrightarrow> v < 256 ^ n"
  using be_nat_bound by (fastforce simp: be_at_def dest: gslice_length)

lemma le_at_None_iff [simp]: "le_at n xs i = None \<longleftrightarrow> length xs < i + n"
  by (auto simp: le_at_def gslice_def)

lemma be_at_None_iff [simp]: "be_at n xs i = None \<longleftrightarrow> length xs < i + n"
  by (auto simp: be_at_def gslice_def)

section \<open>Absence of panics\<close>

text \<open>A computation that does not panic, with the rules that push the claim inwards.\<close>

definition go_safe :: "'a option \<Rightarrow> bool" where
  "go_safe m \<longleftrightarrow> m \<noteq> None"

lemma go_safe_simps [simp]:
  "go_safe (Some x)"
  "\<not> go_safe None"
  "go_safe (idx xs i) \<longleftrightarrow> i < length xs"
  "go_safe (le_at n xs i) \<longleftrightarrow> i + n \<le> length xs"
  "go_safe (be_at n xs i) \<longleftrightarrow> i + n \<le> length xs"
  "go_safe (gslice xs i j) \<longleftrightarrow> i \<le> j \<and> j \<le> length xs"
  "go_safe (map_option f m) \<longleftrightarrow> go_safe m"
  by (auto simp: go_safe_def not_less gslice_def simp del: not_None_eq)

lemma go_safe_bind: "go_safe (Option.bind m f) \<longleftrightarrow> go_safe m \<and> (\<forall>x. m = Some x \<longrightarrow> go_safe (f x))"
  by (cases m) simp_all

lemma go_safe_case:
  "go_safe (case m of None \<Rightarrow> None | Some (Inl e) \<Rightarrow> Some (Inl e) | Some (Inr x) \<Rightarrow> f x)
     \<longleftrightarrow> go_safe m \<and> (\<forall>x. m = Some (Inr x) \<longrightarrow> go_safe (f x))"
  by (auto simp: go_safe_def split: option.splits sum.splits)

text \<open>
  Sequencing: \<open>if err != nil { return err }\<close>, the same with the error wrapped, and an early
  return under a condition.
\<close>

definition go_bind :: "('e, 'a) go \<Rightarrow> ('a \<Rightarrow> ('e, 'b) go) \<Rightarrow> ('e, 'b) go" where
  "go_bind m f = (case m of None \<Rightarrow> None | Some (Inl e) \<Rightarrow> Some (Inl e) | Some (Inr x) \<Rightarrow> f x)"

definition go_wrap :: "('e \<Rightarrow> 'f) \<Rightarrow> ('e, 'a) go \<Rightarrow> ('f, 'a) go" where
  "go_wrap w m = map_option (map_sum w id) m"

definition go_guard :: "bool \<Rightarrow> 'e \<Rightarrow> ('e, 'a) go \<Rightarrow> ('e, 'a) go" where
  "go_guard bad e rest = (if bad then Some (Inl e) else rest)"

lemma go_bind_simps [simp]:
  "go_bind None f = None" "go_bind (Some (Inl e)) f = Some (Inl e)" "go_bind (Some (Inr x)) f = f x"
  by (simp_all add: go_bind_def)

lemma go_bind_Inr: "go_bind m f = Some (Inr y) \<longleftrightarrow> (\<exists>x. m = Some (Inr x) \<and> f x = Some (Inr y))"
  by (auto simp: go_bind_def split: option.splits sum.splits)

lemma go_wrap_Inr: "go_wrap w m = Some (Inr y) \<longleftrightarrow> m = Some (Inr y)"
proof (cases m)
  case (Some r)
  then show ?thesis by (cases r) (simp_all add: go_wrap_def)
qed (simp add: go_wrap_def)

lemma go_guard_Inr: "go_guard b e m = Some (Inr y) \<longleftrightarrow> \<not> b \<and> m = Some (Inr y)"
  by (simp add: go_guard_def)

lemmas go_success = go_bind_Inr go_wrap_Inr go_guard_Inr

lemma go_safe_seq:
  "go_safe (go_bind m f) \<longleftrightarrow> go_safe m \<and> (\<forall>x. m = Some (Inr x) \<longrightarrow> go_safe (f x))"
  "go_safe (go_wrap w m) \<longleftrightarrow> go_safe m"
  "go_safe (go_guard b e n) \<longleftrightarrow> b \<or> go_safe n"
  by (auto simp: go_safe_def go_bind_def go_wrap_def go_guard_def split: option.splits sum.splits)

text \<open>A loop that collects one value per element and stops at the first error or panic.\<close>

fun go_map :: "('a \<Rightarrow> ('e, 'b) go) \<Rightarrow> 'a list \<Rightarrow> ('e, 'b list) go" where
  "go_map f [] = Some (Inr [])"
| "go_map f (x # xs) =
    (case f x of
       None \<Rightarrow> None
     | Some (Inl e) \<Rightarrow> Some (Inl e)
     | Some (Inr y) \<Rightarrow>
         (case go_map f xs of
            None \<Rightarrow> None
          | Some (Inl e) \<Rightarrow> Some (Inl e)
          | Some (Inr ys) \<Rightarrow> Some (Inr (y # ys))))"

lemma go_map_all: "\<forall>x \<in> set xs. f x = Some (Inr (g x)) \<Longrightarrow> go_map f xs = Some (Inr (map g xs))"
  by (induction xs) simp_all

section \<open>Scanning loops\<close>

text \<open>
  The shape of the byte scanners: while input remains, a step fails, returns a result or
  moves on to a new state; after the loop a last computation decides. A client states what
  its step keeps and gets that the loop neither panics nor returns a bad result.
\<close>

locale scanner =
  fixes more :: "'s \<Rightarrow> bool"
    and step :: "'s \<Rightarrow> ('e, 's + 'r) go"
    and fin :: "'s \<Rightarrow> ('e, 'r) go"
    and loop :: "'s \<Rightarrow> ('e, 'r) go"
    and left :: "'s \<Rightarrow> nat"
    and good :: "'s \<Rightarrow> bool"
    and post :: "'r \<Rightarrow> bool"
  assumes loop_unfold: "loop s =
      (if more s then
         (case step s of
            None \<Rightarrow> None
          | Some (Inl e) \<Rightarrow> Some (Inl e)
          | Some (Inr (Inl t)) \<Rightarrow> loop t
          | Some (Inr (Inr r)) \<Rightarrow> Some (Inr r))
       else fin s)"
    and step_left: "more s \<Longrightarrow> step s = Some (Inr (Inl t)) \<Longrightarrow> left t < left s"
    and step_safe: "good s \<Longrightarrow> more s \<Longrightarrow> go_safe (step s)"
    and step_good: "good s \<Longrightarrow> more s \<Longrightarrow> step s = Some (Inr (Inl t)) \<Longrightarrow> good t"
    and step_post: "good s \<Longrightarrow> more s \<Longrightarrow> step s = Some (Inr (Inr r)) \<Longrightarrow> post r"
    and fin_safe: "good s \<Longrightarrow> \<not> more s \<Longrightarrow> go_safe (fin s)"
    and fin_post: "good s \<Longrightarrow> \<not> more s \<Longrightarrow> fin s = Some (Inr r) \<Longrightarrow> post r"
begin

lemma loop_safe: "good s \<Longrightarrow> go_safe (loop s)"
proof (induction "left s" arbitrary: s rule: less_induct)
  case less
  show ?case
  proof (cases "more s")
    case True
    have "go_safe (step s)" using less.prems True by (rule step_safe)
    moreover have "go_safe (loop t)" if "step s = Some (Inr (Inl t))" for t
      using less.hyps step_left [OF True that] step_good [OF less.prems True that] by blast
    ultimately show ?thesis
      by (subst loop_unfold) (auto simp: True go_safe_def split: option.splits sum.splits)
  next
    case False
    then show ?thesis using fin_safe less.prems by (subst loop_unfold) simp
  qed
qed

lemma loop_post: "good s \<Longrightarrow> loop s = Some (Inr r) \<Longrightarrow> post r"
proof (induction "left s" arbitrary: s rule: less_induct)
  case less
  show ?case
  proof (cases "more s")
    case True
    have "post r" if "step s = Some (Inr (Inl t))" "loop t = Some (Inr r)" for t
      using less.hyps step_left [OF True that(1)] step_good [OF less.prems(1) True that(1)] that(2) by blast
    moreover have "post r" if "step s = Some (Inr (Inr r))"
      using step_post [OF less.prems(1) True that] .
    ultimately show ?thesis
      using less.prems(2) by (subst (asm) loop_unfold) (auto simp: True split: option.splits sum.splits)
  next
    case False
    then show ?thesis
      using fin_post [OF less.prems(1) False] less.prems(2) by (subst (asm) loop_unfold) simp
  qed
qed

end

end
