(* ===== verification/Go_Text.thy ===== *)
theory Go_Text
  imports Prelude
begin

text \<open>
  Go strings. A Go string is a sequence of bytes, here a \<open>string\<close> (a list of 8-bit
  characters). Ranging over a string decodes UTF-8 as \<open>utf8.DecodeRune\<close> does: a byte
  that starts no valid sequence gives U+FFFD and is one byte wide. Holds the decoder, the
  encoder, their round trip, and the functions of package \<open>strings\<close> the program uses.
\<close>

section \<open>Bytes and runes\<close>

type_synonym rune = nat

abbreviation byte_of :: "char \<Rightarrow> nat" where
  "byte_of c \<equiv> of_char c"

definition RuneError :: rune where
  "RuneError = 0xFFFD"

definition is_cont :: "char \<Rightarrow> bool" where
  "is_cont c \<longleftrightarrow> 0x80 \<le> byte_of c \<and> byte_of c \<le> 0xBF"

definition valid_rune :: "rune \<Rightarrow> bool" where
  "valid_rune r \<longleftrightarrow> r < 0xD800 \<or> (0xE000 \<le> r \<and> r \<le> 0x10FFFF)"

fun decode_rune :: "string \<Rightarrow> rune \<times> nat" where
  "decode_rune [] = (RuneError, 0)"
| "decode_rune (c0 # cs) =
    (let b0 = byte_of c0 in
     if b0 < 0x80 then (b0, 1)
     else if b0 < 0xC2 then (RuneError, 1)
     else if b0 < 0xE0 then
       (case cs of
          c1 # _ \<Rightarrow> if is_cont c1 then ((b0 - 0xC0) * 64 + (byte_of c1 - 0x80), 2) else (RuneError, 1)
        | _ \<Rightarrow> (RuneError, 1))
     else if b0 < 0xF0 then
       (case cs of
          c1 # c2 # _ \<Rightarrow>
            if is_cont c1 \<and> is_cont c2
               \<and> (b0 = 0xE0 \<longrightarrow> 0xA0 \<le> byte_of c1) \<and> (b0 = 0xED \<longrightarrow> byte_of c1 \<le> 0x9F)
            then ((b0 - 0xE0) * 4096 + (byte_of c1 - 0x80) * 64 + (byte_of c2 - 0x80), 3)
            else (RuneError, 1)
        | _ \<Rightarrow> (RuneError, 1))
     else if b0 < 0xF5 then
       (case cs of
          c1 # c2 # c3 # _ \<Rightarrow>
            if is_cont c1 \<and> is_cont c2 \<and> is_cont c3
               \<and> (b0 = 0xF0 \<longrightarrow> 0x90 \<le> byte_of c1) \<and> (b0 = 0xF4 \<longrightarrow> byte_of c1 \<le> 0x8F)
            then ((b0 - 0xF0) * 262144 + (byte_of c1 - 0x80) * 4096
                  + (byte_of c2 - 0x80) * 64 + (byte_of c3 - 0x80), 4)
            else (RuneError, 1)
        | _ \<Rightarrow> (RuneError, 1))
     else (RuneError, 1))"

definition encode_rune :: "rune \<Rightarrow> string" where
  "encode_rune r0 =
    (let r = (if valid_rune r0 then r0 else RuneError) in
     if r < 0x80 then [char_of r]
     else if r < 0x800 then [char_of (0xC0 + r div 64), char_of (0x80 + r mod 64)]
     else if r < 0x10000 then
       [char_of (0xE0 + r div 4096), char_of (0x80 + (r div 64) mod 64), char_of (0x80 + r mod 64)]
     else
       [char_of (0xF0 + r div 262144), char_of (0x80 + (r div 4096) mod 64),
        char_of (0x80 + (r div 64) mod 64), char_of (0x80 + r mod 64)])"

definition utf8 :: "rune list \<Rightarrow> string" where
  "utf8 rs = concat (map encode_rune rs)"

lemma byte_of_char_of [simp]: "n < 256 \<Longrightarrow> byte_of (char_of n) = n"
  by simp

lemma decode_rune_size:
  "s \<noteq> [] \<Longrightarrow> 1 \<le> snd (decode_rune s) \<and> snd (decode_rune s) \<le> length s"
  by (cases s) (auto simp: Let_def split: list.splits)

text \<open>Ranging over a string: each rune with the bytes it was decoded from.\<close>

function runes :: "string \<Rightarrow> (rune \<times> string) list" where
  "runes [] = []"
| "runes (c # cs) =
    (let d = decode_rune (c # cs)
     in (fst d, take (snd d) (c # cs)) # runes (drop (snd d) (c # cs)))"
  by pat_completeness auto
termination
proof (relation "measure length")
  fix c :: char and cs :: string and d :: "rune \<times> nat"
  assume "d = decode_rune (c # cs)"
  then have "1 \<le> snd d" using decode_rune_size [of "c # cs"] by simp
  then show "(drop (snd d) (c # cs), c # cs) \<in> measure length" by simp
qed simp

declare runes.simps(2) [simp del] decode_rune.simps(2) [simp del]

lemma decode_rune_ascii: "byte_of c < 0x80 \<Longrightarrow> decode_rune (c # s) = (byte_of c, 1)"
  by (simp add: decode_rune.simps(2))

lemma runes_concat: "concat (map snd (runes s)) = s"
proof (induction s rule: runes.induct)
  case (2 c cs)
  then show ?case by (simp add: runes.simps(2) Let_def)
qed simp

definition is_ascii :: "string \<Rightarrow> bool" where
  "is_ascii s \<longleftrightarrow> (\<forall>c \<in> set s. byte_of c < 0x80)"

lemma runes_ascii: "is_ascii s \<Longrightarrow> runes s = map (\<lambda>c. (byte_of c, [c])) s"
  by (induction s) (auto simp: runes.simps(2) Let_def is_ascii_def decode_rune_ascii)

lemma runes_cons_ascii:
  "byte_of c < 0x80 \<Longrightarrow> runes (c # s) = (byte_of c, [c]) # runes s"
  by (simp add: runes.simps(2) Let_def decode_rune_ascii)

section \<open>The encoder and the decoder agree\<close>

lemma decode_two:
  assumes "2 \<le> h" and "h < 32" and "l < 64"
  shows "decode_rune (char_of (0xC0 + h) # char_of (0x80 + l) # s) = (h * 64 + l, 2)"
proof -
  have "byte_of (char_of (0xC0 + h)) = 0xC0 + h" "byte_of (char_of (0x80 + l)) = 0x80 + l"
    using assms by (simp_all only: of_char_of) simp_all
  then show ?thesis
    using assms by (simp add: decode_rune.simps(2) is_cont_def)
qed

lemma decode_three:
  assumes "h < 16" and "m < 64" and "l < 64"
    and "h = 0 \<Longrightarrow> 32 \<le> m" and "h = 13 \<Longrightarrow> m \<le> 31"
  shows "decode_rune (char_of (0xE0 + h) # char_of (0x80 + m) # char_of (0x80 + l) # s)
    = (h * 4096 + m * 64 + l, 3)"
proof -
  have "byte_of (char_of (0xE0 + h)) = 0xE0 + h" "byte_of (char_of (0x80 + m)) = 0x80 + m"
    "byte_of (char_of (0x80 + l)) = 0x80 + l"
    using assms(1-3) by (simp_all only: of_char_of) simp_all
  then show ?thesis
    using assms by (simp add: decode_rune.simps(2) is_cont_def)
qed

lemma decode_four:
  assumes "a < 5" and "h < 64" and "m < 64" and "l < 64"
    and "a = 0 \<Longrightarrow> 16 \<le> h" and "a = 4 \<Longrightarrow> h \<le> 15"
  shows "decode_rune (char_of (0xF0 + a) # char_of (0x80 + h) # char_of (0x80 + m) # char_of (0x80 + l) # s)
    = (a * 262144 + h * 4096 + m * 64 + l, 4)"
proof -
  have "byte_of (char_of (0xF0 + a)) = 0xF0 + a" "byte_of (char_of (0x80 + h)) = 0x80 + h"
    "byte_of (char_of (0x80 + m)) = 0x80 + m" "byte_of (char_of (0x80 + l)) = 0x80 + l"
    using assms(1-4) by (simp_all only: of_char_of) simp_all
  then show ?thesis
    using assms by (simp add: decode_rune.simps(2) is_cont_def)
qed

lemma decode_encode_2:
  assumes "0x80 \<le> r" and "r < 0x800"
  shows "decode_rune (encode_rune r @ s) = (r, 2)"
proof -
  define q l where "q = r div 64" and "l = r mod 64"
  have r: "r = q * 64 + l" and l: "l < 64" by (simp_all add: q_def l_def)
  have "encode_rune r = [char_of (0xC0 + q), char_of (0x80 + l)]"
    using assms by (simp add: encode_rune_def valid_rune_def q_def l_def)
  moreover have "2 \<le> q" "q < 32" using assms r l by linarith+
  ultimately show ?thesis using decode_two [of q l s] l r by simp
qed

lemma decode_encode_3:
  assumes "0x800 \<le> r" and "r < 0x10000" and "valid_rune r"
  shows "decode_rune (encode_rune r @ s) = (r, 3)"
proof -
  define q l where "q = r div 64" and "l = r mod 64"
  define h m where "h = q div 64" and "m = q mod 64"
  have r: "r = q * 64 + l" and l: "l < 64" by (simp_all add: q_def l_def)
  have q: "q = h * 64 + m" and m: "m < 64" by (simp_all add: h_def m_def)
  have "h = r div 4096" by (simp add: h_def q_def flip: div_mult2_eq)
  then have enc: "encode_rune r = [char_of (0xE0 + h), char_of (0x80 + m), char_of (0x80 + l)]"
    using assms by (simp add: encode_rune_def m_def q_def l_def)
  have "h < 16" using assms(2) r q by linarith
  moreover have "32 \<le> m" if "h = 0" using assms(1) r q l that by linarith
  moreover have "m \<le> 31" if "h = 13"
    using assms(3) r q l m that unfolding valid_rune_def by linarith
  moreover have "r = h * 4096 + m * 64 + l" using r q by linarith
  ultimately show ?thesis using decode_three [of h m l s] enc m l by simp
qed

lemma decode_encode_4:
  assumes "0x10000 \<le> r" and "r \<le> 0x10FFFF"
  shows "decode_rune (encode_rune r @ s) = (r, 4)"
proof -
  define q l where "q = r div 64" and "l = r mod 64"
  define p m where "p = q div 64" and "m = q mod 64"
  define a h where "a = p div 64" and "h = p mod 64"
  have r: "r = q * 64 + l" and l: "l < 64" by (simp_all add: q_def l_def)
  have q: "q = p * 64 + m" and m: "m < 64" by (simp_all add: p_def m_def)
  have p: "p = a * 64 + h" and h: "h < 64" by (simp_all add: a_def h_def)
  have p': "p = r div 4096" by (simp add: p_def q_def flip: div_mult2_eq)
  then have "a = r div 262144" by (simp add: a_def flip: div_mult2_eq)
  then have enc: "encode_rune r =
      [char_of (0xF0 + a), char_of (0x80 + h), char_of (0x80 + m), char_of (0x80 + l)]"
    using assms p' by (simp add: encode_rune_def valid_rune_def h_def m_def q_def l_def)
  have "a < 5" using assms(2) r q p by linarith
  moreover have "16 \<le> h" if "a = 0" using assms(1) r q p l m that by linarith
  moreover have "h \<le> 15" if "a = 4" using assms(2) r q p that by linarith
  moreover have "r = a * 262144 + h * 4096 + m * 64 + l" using r q p by linarith
  ultimately show ?thesis using decode_four [of a h m l s] enc h m l by simp
qed

lemma decode_encode:
  assumes "valid_rune r"
  shows "decode_rune (encode_rune r @ s) = (r, length (encode_rune r))"
proof -
  consider "r < 0x80" | "0x80 \<le> r" "r < 0x800" | "0x800 \<le> r" "r < 0x10000" | "0x10000 \<le> r" "r \<le> 0x10FFFF"
    using assms by (fastforce simp: valid_rune_def)
  then show ?thesis
  proof cases
    case 1
    then show ?thesis using assms by (simp add: encode_rune_def Let_def decode_rune_ascii)
  next
    case 2
    then show ?thesis
      using assms by (simp add: decode_encode_2) (simp add: encode_rune_def Let_def)
  next
    case 3
    then show ?thesis
      using assms by (simp add: decode_encode_3) (simp add: encode_rune_def Let_def)
  next
    case 4
    then show ?thesis
      using assms by (simp add: decode_encode_4) (simp add: encode_rune_def Let_def)
  qed
qed

lemma encode_rune_nonempty: "encode_rune r \<noteq> []"
  by (simp add: encode_rune_def Let_def)

lemma runes_encode_append:
  assumes "valid_rune r"
  shows "runes (encode_rune r @ s) = (r, encode_rune r) # runes s"
proof -
  obtain c cs where cons: "encode_rune r @ s = c # cs"
    using encode_rune_nonempty by (cases "encode_rune r @ s") auto
  have d: "decode_rune (c # cs) = (r, length (encode_rune r))"
    using decode_encode [OF assms, of s] by (simp add: cons)
  have "runes (c # cs) = (r, take (length (encode_rune r)) (c # cs)) # runes (drop (length (encode_rune r)) (c # cs))"
    by (simp only: runes.simps(2) d Let_def fst_conv snd_conv)
  then show ?thesis
    by (simp flip: cons)
qed

lemma runes_utf8:
  "\<forall>r \<in> set rs. valid_rune r \<Longrightarrow> runes (utf8 rs) = map (\<lambda>r. (r, encode_rune r)) rs"
  by (induction rs) (auto simp: utf8_def runes_encode_append)

section \<open>Package strings\<close>

text \<open>\<open>unicode.IsSpace\<close>.\<close>

definition is_space :: "rune \<Rightarrow> bool" where
  "is_space r \<longleftrightarrow> (0x09 \<le> r \<and> r \<le> 0x0D) \<or> r = 0x20 \<or> r = 0x85 \<or> r = 0xA0 \<or> r = 0x1680
     \<or> (0x2000 \<le> r \<and> r \<le> 0x200A) \<or> r = 0x2028 \<or> r = 0x2029 \<or> r = 0x202F \<or> r = 0x205F \<or> r = 0x3000"

text \<open>\<open>strings.TrimFunc\<close> drops the runes with the property at both ends.\<close>

definition trim_func :: "(rune \<Rightarrow> bool) \<Rightarrow> string \<Rightarrow> string" where
  "trim_func p s =
    concat (map snd (rev (dropWhile (p \<circ> fst) (rev (dropWhile (p \<circ> fst) (runes s))))))"

definition TrimSpace :: "string \<Rightarrow> string" where
  "TrimSpace s = trim_func is_space s"

definition TrimRight_slash :: "string \<Rightarrow> string" where
  "TrimRight_slash s = rev (dropWhile (\<lambda>c. c = CHR ''/'') (rev s))"

definition HasPrefix :: "string \<Rightarrow> string \<Rightarrow> bool" where
  "HasPrefix s p \<longleftrightarrow> take (length p) s = p"

text \<open>\<open>strings.Split\<close> at a one-byte separator.\<close>

fun split_at :: "char \<Rightarrow> string \<Rightarrow> string list" where
  "split_at d [] = [[]]"
| "split_at d (c # s) =
    (if c = d then [] # split_at d s
     else case split_at d s of [] \<Rightarrow> [[c]] | w # ws \<Rightarrow> (c # w) # ws)"

definition ascii_lower :: "rune \<Rightarrow> rune" where
  "ascii_lower r = (if 0x41 \<le> r \<and> r \<le> 0x5A then r + 0x20 else r)"

definition ascii_upper :: "rune \<Rightarrow> rune" where
  "ascii_upper r = (if 0x61 \<le> r \<and> r \<le> 0x7A then r - 0x20 else r)"

text \<open>\<open>strconv.Itoa\<close>.\<close>

definition digit_char :: "nat \<Rightarrow> char" where
  "digit_char d = char_of (0x30 + d)"

fun itoa_nat :: "nat \<Rightarrow> string" where
  "itoa_nat n = (if n < 10 then [digit_char n] else itoa_nat (n div 10) @ [digit_char (n mod 10)])"

declare itoa_nat.simps [simp del]

definition itoa :: "int \<Rightarrow> string" where
  "itoa i = (if i < 0 then CHR ''-'' # itoa_nat (nat (- i)) else itoa_nat (nat i))"

text \<open>
  \<open>strings.ToLower\<close> maps every rune; the Unicode tables beyond ASCII are the argument
  \<open>ulow\<close>.
\<close>

definition ToLower :: "(rune \<Rightarrow> rune) \<Rightarrow> string \<Rightarrow> string" where
  "ToLower ulow s = concat (map (\<lambda>(r, _). encode_rune (if r < 0x80 then ascii_lower r else ulow r)) (runes s))"

definition ToUpper :: "(rune \<Rightarrow> rune) \<Rightarrow> string \<Rightarrow> string" where
  "ToUpper uup s = concat (map (\<lambda>(r, _). encode_rune (if r < 0x80 then ascii_upper r else uup r)) (runes s))"

text \<open>
  \<open>strings.EqualFold(s, t)\<close> for an ASCII \<open>t\<close>: simple folding relates a letter to its other
  case, and \<open>k\<close> to the Kelvin sign, \<open>s\<close> to the long s.
\<close>

definition fold_eq :: "rune \<Rightarrow> rune \<Rightarrow> bool" where
  "fold_eq r c \<longleftrightarrow> ascii_lower r = ascii_lower c
     \<or> (ascii_lower c = 0x6B \<and> r = 0x212A) \<or> (ascii_lower c = 0x73 \<and> r = 0x17F)"

definition EqualFold :: "string \<Rightarrow> string \<Rightarrow> bool" where
  "EqualFold s t \<longleftrightarrow> list_all2 fold_eq (map fst (runes s)) (map byte_of t)"

lemma trim_func_ascii:
  assumes "is_ascii s"
  shows "trim_func p s = rev (dropWhile (p \<circ> byte_of) (rev (dropWhile (p \<circ> byte_of) s)))"
proof -
  have dw: "dropWhile (p \<circ> fst) (map (\<lambda>c. (byte_of c, [c])) xs)
      = map (\<lambda>c. (byte_of c, [c])) (dropWhile (p \<circ> byte_of) xs)" for xs
    by (simp add: dropWhile_map comp_def)
  have cc: "concat (map snd (map (\<lambda>c. (byte_of c, [c])) xs)) = xs" for xs
    by (induction xs) auto
  show ?thesis
    using assms by (simp only: trim_func_def runes_ascii dw rev_map cc)
qed

lemma trim_func_noop_ascii:
  assumes "is_ascii s" and "\<forall>c \<in> set s. \<not> p (byte_of c)"
  shows "trim_func p s = s"
proof -
  have "dropWhile (p \<circ> byte_of) xs = xs" if "set xs \<subseteq> set s" for xs
    using that assms(2) by (cases xs) auto
  then show ?thesis
    using assms(1) by (simp add: trim_func_ascii)
qed

lemma set_dropWhile_subset: "set (dropWhile P xs) \<subseteq> set xs"
  by (auto dest: set_dropWhileD)

fun atoi_acc :: "nat \<Rightarrow> string \<Rightarrow> nat" where
  "atoi_acc a [] = a"
| "atoi_acc a (c # s) = atoi_acc (a * 10 + (byte_of c - 0x30)) s"

lemma atoi_acc_append: "atoi_acc a (s @ t) = atoi_acc (atoi_acc a s) t"
  by (induction s arbitrary: a) auto

lemma atoi_itoa_nat: "atoi_acc 0 (itoa_nat n) = n"
proof (induction n rule: itoa_nat.induct)
  case (1 n)
  then show ?case
    by (subst itoa_nat.simps) (simp add: atoi_acc_append digit_char_def)
qed

lemma itoa_nat_inject: "itoa_nat m = itoa_nat n \<Longrightarrow> m = n"
  by (metis atoi_itoa_nat)

lemma TrimRight_slash_last:
  "TrimRight_slash s \<noteq> [] \<Longrightarrow> last (TrimRight_slash s) \<noteq> CHR ''/''"
  unfolding TrimRight_slash_def last_rev rev_is_Nil_conv by (rule hd_dropWhile)

lemma HasPrefix_iff: "HasPrefix s p \<longleftrightarrow> (\<exists>t. s = p @ t)"
  by (auto simp: HasPrefix_def) (metis append_take_drop_id)

lemma split_at_nonempty: "split_at d s \<noteq> []"
  by (induction s) (auto split: list.splits)

lemma split_at_no_sep: "w \<in> set (split_at d s) \<Longrightarrow> d \<notin> set w"
proof (induction s arbitrary: w)
  case (Cons c s)
  then show ?case
    by (cases "split_at d s") (auto split: if_splits)
qed simp

section \<open>Trimming twice\<close>

lemma decode_rune_prefix:
  assumes "a \<noteq> []" "snd (decode_rune (a @ b)) \<le> length a"
  shows "decode_rune a = decode_rune (a @ b)"
proof -
  consider c0 where "a = [c0]" | c0 c1 where "a = [c0, c1]" | c0 c1 c2 where "a = [c0, c1, c2]"
    | c0 c1 c2 c3 cs where "a = c0 # c1 # c2 # c3 # cs"
    using assms(1) by (metis list.exhaust)
  then show ?thesis using assms(2) by cases (auto simp: decode_rune.simps(2) Let_def split: list.splits if_splits)
qed

lemma runes_drop: "runes (concat (map snd (drop k (runes s)))) = drop k (runes s)"
proof (induction s arbitrary: k rule: runes.induct)
  case (2 c cs)
  then show ?case using runes_concat [of "c # cs"] by (cases k) (auto simp: runes.simps(2) Let_def)
qed simp

lemma runes_take: "runes (concat (map snd (take k (runes s)))) = take k (runes s)"
proof (induction s arbitrary: k rule: runes.induct)
  case (2 c cs)
  define n where "n = snd (decode_rune (c # cs))"
  have n: "1 \<le> n" "n \<le> length (c # cs)" using decode_rune_size [of "c # cs"] by (simp_all add: n_def)
  have eq: "runes (c # cs) = (fst (decode_rune (c # cs)), take n (c # cs)) # runes (drop n (c # cs))"
    by (simp add: runes.simps(2) Let_def n_def)
  show ?case
  proof (cases k)
    case (Suc k')
    define r where "r = concat (map snd (take k' (runes (drop n (c # cs)))))"
    have "r @ concat (map snd (drop k' (runes (drop n (c # cs))))) = drop n (c # cs)"
      unfolding r_def using runes_concat [of "drop n (c # cs)"] by (metis append_take_drop_id concat_append map_append)
    then have whole: "(take n (c # cs) @ r) @ concat (map snd (drop k' (runes (drop n (c # cs))))) = c # cs"
      by (metis append.assoc append_take_drop_id)
    have d: "decode_rune (take n (c # cs) @ r) = decode_rune (c # cs)"
      using decode_rune_prefix [of "take n (c # cs) @ r" "concat (map snd (drop k' (runes (drop n (c # cs)))))"] n
      unfolding whole by (auto simp: n_def)
    obtain y ys where ne: "take n (c # cs) @ r = y # ys" using n(1) by (cases n) auto
    have "runes (take n (c # cs) @ r) = (fst (decode_rune (c # cs)), take n (c # cs)) # runes r"
      using d n unfolding ne runes.simps(2) Let_def by (simp flip: ne n_def add: min_def)
    moreover have "runes r = take k' (runes (drop n (c # cs)))" unfolding r_def n_def by (rule "2.IH") simp
    ultimately show ?thesis by (simp add: eq Suc r_def)
  qed simp
qed simp

lemma rev_dropWhile_take: "rev (dropWhile p (rev l)) = take (length l - length (takeWhile p (rev l))) l"
  by (simp add: dropWhile_eq_drop rev_drop)

lemma TrimSpace_idem: "TrimSpace (TrimSpace s) = TrimSpace s"
proof -
  let ?p = "is_space \<circ> fst"
  let ?l = "dropWhile ?p (runes s)"
  let ?m = "rev (dropWhile ?p (rev ?l))"
  have l: "?l = drop (length (takeWhile ?p (runes s))) (runes s)" by (rule dropWhile_eq_drop)
  have m: "?m = take (length ?l - length (takeWhile ?p (rev ?l))) ?l" by (rule rev_dropWhile_take)
  have "runes (concat (map snd ?l)) = ?l" unfolding l by (rule runes_drop)
  then have rm: "runes (concat (map snd ?m)) = ?m" unfolding m by (metis runes_take)
  have "dropWhile ?p ?m = ?m"
  proof (cases ?m)
    case Nil
    then show ?thesis by (simp only: Nil dropWhile.simps)
  next
    case (Cons x xs)
    then obtain ys where "?l = x # ys" using m by (metis append_Cons append_take_drop_id)
    then have "\<not> ?p x" by (metis hd_dropWhile list.discI list.sel(1))
    then show ?thesis by (simp add: Cons)
  qed
  moreover have "dropWhile ?p (rev ?m) = rev ?m" by simp
  ultimately show ?thesis by (simp add: TrimSpace_def trim_func_def rm)
qed

end
