(* ===== verification/Media_Policy.thy ===== *)
theory Media_Policy
  imports Go_Text
begin

text \<open>
  The image policy of \<open>platform/media\<close>: the limits of the two upload kinds, their
  defaults and normalisation (\<open>policy.go\<close>), the MIME allow list, and the error values of
  \<open>errors.go\<close>. Error messages are the UTF-8 bytes of the source's literals. Go's \<open>int\<close>
  and \<open>int64\<close> fields are read and compared only, and are \<open>int\<close> here.
\<close>

section \<open>Errors\<close>

text \<open>
  The cause of an error is one of the two sentinels of \<open>inspect.go\<close>, a text, another media
  error, or a cause behind a \<open>%w\<close> prefix.
\<close>

datatype media_error =
    MediaError (Code: string) (Message: string) (StatusCode: int) (Cause: media_cause)
and media_cause =
    MalformedImage
  | PixelBudgetExceeded
  | TextCause string
  | ErrorCause media_error
  | Prefixed string media_cause

definition CodeInvalidSource :: string where
  "CodeInvalidSource = ''media.invalid_source''"
definition CodeInvalidLimits :: string where
  "CodeInvalidLimits = ''media.invalid_limits''"
definition CodeProcessingUnavailable :: string where
  "CodeProcessingUnavailable = ''media.processing_unavailable''"

definition mediaError :: "string \<Rightarrow> string \<Rightarrow> int \<Rightarrow> media_cause \<Rightarrow> media_error" where
  "mediaError code message status cause = MediaError code message status cause"

definition invalidLimitsError :: "media_cause option \<Rightarrow> media_error" where
  "invalidLimitsError cause =
    mediaError CodeInvalidLimits
      (utf8 [0x5A92, 0x4F53, 0x5904, 0x7406, 0x9650, 0x5236, 0x65E0, 0x6548]) 500
      (case cause of None \<Rightarrow> TextCause ''media limits are invalid'' | Some c \<Rightarrow> c)"

definition unavailableError :: "media_cause option \<Rightarrow> media_error" where
  "unavailableError cause =
    mediaError CodeProcessingUnavailable
      (utf8 [0x5A92, 0x4F53, 0x5904, 0x7406, 0x670D, 0x52A1, 0x4E0D, 0x53EF, 0x7528]) 503
      (Prefixed ''libvips: '' (case cause of None \<Rightarrow> TextCause ''libvips is unavailable'' | Some c \<Rightarrow> c))"

text \<open>\<open>errors.Is(err, errPixelBudgetExceeded)\<close>: the sentinel anywhere along the causes.\<close>

primrec is_pixel_error :: "media_error \<Rightarrow> bool"
  and is_pixel_cause :: "media_cause \<Rightarrow> bool" where
  "is_pixel_error (MediaError _ _ _ c) = is_pixel_cause c"
| "is_pixel_cause MalformedImage = False"
| "is_pixel_cause PixelBudgetExceeded = True"
| "is_pixel_cause (TextCause _) = False"
| "is_pixel_cause (ErrorCause e) = is_pixel_error e"
| "is_pixel_cause (Prefixed _ c) = is_pixel_cause c"

text \<open>The public projection drops the cause.\<close>

record public_error =
  pub_code :: string
  pub_message :: string
  pub_status :: int

definition Public :: "media_error \<Rightarrow> public_error" where
  "Public e = \<lparr>pub_code = Code e, pub_message = Message e, pub_status = StatusCode e\<rparr>"

section \<open>Kinds and limits\<close>

text \<open>\<open>type Kind string\<close>: any other string is a kind no policy knows.\<close>

datatype kind = KindAvatar | KindCustomEmote | KindOther string

record limits =
  MaxInputBytes :: int
  MaxInputPixels :: int
  MaxInputEdge :: int
  MaxFrames :: int
  MaxDurationMS :: int
  MaxOutputBytes :: int
  TargetSize :: int
  FallbackSize :: int
  StaticQuality :: int
  AnimatedQuality :: int
  FallbackQuality :: int
  Cover :: bool
  PreserveAnimation :: bool

record options =
  Avatar :: limits
  CustomEmote :: limits
  MaxProcessingConcurrency :: int
  VipsConcurrency :: int
  VipsCacheMemoryBytes :: int

definition zeroLimits :: limits where
  "zeroLimits = \<lparr>MaxInputBytes = 0, MaxInputPixels = 0, MaxInputEdge = 0, MaxFrames = 0,
     MaxDurationMS = 0, MaxOutputBytes = 0, TargetSize = 0, FallbackSize = 0, StaticQuality = 0,
     AnimatedQuality = 0, FallbackQuality = 0, Cover = False, PreserveAnimation = False\<rparr>"

definition defaultAvatarLimits :: limits where
  "defaultAvatarLimits = zeroLimits\<lparr>MaxInputBytes := 5 * 1024 * 1024,
     MaxInputPixels := 40 * 1024 * 1024, MaxInputEdge := 8192, MaxFrames := 180,
     MaxDurationMS := 30 * 1000, TargetSize := 256, StaticQuality := 82, AnimatedQuality := 82,
     Cover := True, PreserveAnimation := False\<rparr>"

definition defaultCustomEmoteLimits :: limits where
  "defaultCustomEmoteLimits = zeroLimits\<lparr>MaxInputBytes := 10 * 1024 * 1024,
     MaxInputPixels := 40 * 1024 * 1024, MaxInputEdge := 4096, MaxFrames := 180,
     MaxDurationMS := 30 * 1000, MaxOutputBytes := 2 * 1024 * 1024, TargetSize := 256,
     FallbackSize := 192, StaticQuality := 82, AnimatedQuality := 76, FallbackQuality := 62,
     Cover := False, PreserveAnimation := True\<rparr>"

definition DefaultOptions :: options where
  "DefaultOptions = \<lparr>Avatar = defaultAvatarLimits, CustomEmote = defaultCustomEmoteLimits,
     MaxProcessingConcurrency = 2, VipsConcurrency = 1, VipsCacheMemoryBytes = 64 * 1024 * 1024\<rparr>"

text \<open>\<open>mergeLimits\<close> fills the zero fields from the defaults, then checks the ranges.\<close>

definition or_default :: "int \<Rightarrow> int \<Rightarrow> int" where
  "or_default v d = (if v = 0 then d else v)"

definition or_positive_default :: "int \<Rightarrow> int \<Rightarrow> int" where
  "or_positive_default v d = (if v = 0 \<and> d > 0 then d else v)"

definition fillLimits :: "limits \<Rightarrow> limits \<Rightarrow> limits" where
  "fillLimits value defaults =
    \<lparr>MaxInputBytes = or_default (MaxInputBytes value) (MaxInputBytes defaults),
     MaxInputPixels = or_default (MaxInputPixels value) (MaxInputPixels defaults),
     MaxInputEdge = or_default (MaxInputEdge value) (MaxInputEdge defaults),
     MaxFrames = or_default (MaxFrames value) (MaxFrames defaults),
     MaxDurationMS = or_default (MaxDurationMS value) (MaxDurationMS defaults),
     MaxOutputBytes = or_positive_default (MaxOutputBytes value) (MaxOutputBytes defaults),
     TargetSize = or_default (TargetSize value) (TargetSize defaults),
     FallbackSize = or_positive_default (FallbackSize value) (FallbackSize defaults),
     StaticQuality = or_default (StaticQuality value) (StaticQuality defaults),
     AnimatedQuality = or_default (AnimatedQuality value) (AnimatedQuality defaults),
     FallbackQuality = or_positive_default (FallbackQuality value) (FallbackQuality defaults),
     Cover = (Cover defaults \<or> Cover value),
     PreserveAnimation = (PreserveAnimation defaults \<or> PreserveAnimation value)\<rparr>"

definition mergeLimits :: "limits \<Rightarrow> limits \<Rightarrow> (media_error, limits) result" where
  "mergeLimits value defaults =
    (let v = fillLimits value defaults in
     if MaxInputBytes v < 1 \<or> MaxInputPixels v < 1 \<or> MaxInputEdge v < 1 \<or> MaxFrames v < 1
        \<or> MaxDurationMS v < 0 \<or> TargetSize v < 1 \<or> StaticQuality v < 1 \<or> StaticQuality v > 100
        \<or> AnimatedQuality v < 1 \<or> AnimatedQuality v > 100
     then Inl (invalidLimitsError (Some (TextCause ''image limits contain a non-positive or out-of-range value'')))
     else if MaxOutputBytes v < 0 \<or> FallbackSize v < 0 \<or> FallbackQuality v < 0 \<or> FallbackQuality v > 100
     then Inl (invalidLimitsError (Some (TextCause ''output limits are invalid'')))
     else if MaxOutputBytes v > 0 \<and> (FallbackSize v = 0 \<or> FallbackQuality v = 0)
     then Inl (invalidLimitsError (Some (TextCause ''bounded output requires a fallback encoding'')))
     else Inr v)"

definition normalizeLimits :: "limits \<Rightarrow> limits \<Rightarrow> (media_error, limits) result" where
  "normalizeLimits value defaults =
    (if value = zeroLimits then Inr defaults else mergeLimits value defaults)"

definition normalizeOptions :: "options \<Rightarrow> (media_error, options) result" where
  "normalizeOptions opts =
    result_bind (normalizeLimits (Avatar opts) (Avatar DefaultOptions)) (\<lambda>avatar.
    result_bind (normalizeLimits (CustomEmote opts) (CustomEmote DefaultOptions)) (\<lambda>emote.
      let procs = or_default (MaxProcessingConcurrency opts) (MaxProcessingConcurrency DefaultOptions);
          vips = or_default (VipsConcurrency opts) (VipsConcurrency DefaultOptions);
          cache = or_default (VipsCacheMemoryBytes opts) (VipsCacheMemoryBytes DefaultOptions)
      in if procs < 1 \<or> procs > 64
         then Inl (invalidLimitsError (Some (TextCause ''processing concurrency outside 1..64'')))
         else if vips < 1 \<or> vips > 64
         then Inl (invalidLimitsError (Some (TextCause ''vips concurrency outside 1..64'')))
         else if cache < 0
         then Inl (invalidLimitsError (Some (TextCause ''vips cache memory is negative'')))
         else Inr \<lparr>Avatar = avatar, CustomEmote = emote, MaxProcessingConcurrency = procs,
                    VipsConcurrency = vips, VipsCacheMemoryBytes = cache\<rparr>))"

definition limits_for :: "options \<Rightarrow> kind \<Rightarrow> limits option" where
  "limits_for o1 k =
    (case k of KindAvatar \<Rightarrow> Some (Avatar o1) | KindCustomEmote \<Rightarrow> Some (CustomEmote o1) | KindOther _ \<Rightarrow> None)"

section \<open>MIME types\<close>

definition allowedMIME :: "kind \<Rightarrow> string \<Rightarrow> bool" where
  "allowedMIME k v =
    (case k of
       KindAvatar \<Rightarrow> v = ''image/jpeg'' \<or> v = ''image/png'' \<or> v = ''image/webp''
     | KindCustomEmote \<Rightarrow> v = ''image/jpeg'' \<or> v = ''image/png'' \<or> v = ''image/webp''
         \<or> v = ''image/gif'' \<or> v = ''image/bmp''
     | KindOther _ \<Rightarrow> False)"

text \<open>
  \<open>mime.ParseMediaType\<close> as \<open>normalizeMIME\<close> uses it: the media type when the value parses and
  carries no parameter (a single trailing semicolon is tolerated), else \<open>None\<close>.
\<close>

definition is_token_char :: "char \<Rightarrow> bool" where
  "is_token_char c \<longleftrightarrow> 0x20 < byte_of c \<and> byte_of c < 0x7F
     \<and> c \<notin> set [CHR ''('', CHR '')'', CHR ''<'', CHR ''>'', CHR ''@'', CHR '','', CHR '';'', CHR '':'',
                CHR 0x5C, CHR 0x22, CHR ''/'', CHR ''['', CHR '']'', CHR ''?'', CHR ''='']"

definition valid_disposition :: "string \<Rightarrow> bool" where
  "valid_disposition s =
    (let typ = takeWhile is_token_char s; rest = dropWhile is_token_char s in
     typ \<noteq> [] \<and>
     (case rest of
        [] \<Rightarrow> True
      | c # rest1 \<Rightarrow> c = CHR ''/'' \<and> takeWhile is_token_char rest1 \<noteq> [] \<and> dropWhile is_token_char rest1 = []))"

definition parse_bare_media_type :: "(rune \<Rightarrow> rune) \<Rightarrow> string \<Rightarrow> string option" where
  "parse_bare_media_type ulow v =
    (let base = takeWhile (\<lambda>c. c \<noteq> CHR '';'') v;
         rest = dropWhile (\<lambda>c. c \<noteq> CHR '';'') v;
         mt = TrimSpace (ToLower ulow base)
     in if valid_disposition mt \<and> (rest = [] \<or> TrimSpace rest = '';'') then Some mt else None)"

definition normalizeMIME :: "(rune \<Rightarrow> rune) \<Rightarrow> string \<Rightarrow> string option" where
  "normalizeMIME ulow raw =
    (let value = TrimSpace (ToLower ulow raw) in
     if value = [] then None
     else map_option (\<lambda>mt. ToLower ulow (TrimSpace mt)) (parse_bare_media_type ulow value))"

definition formatMIME :: "string \<Rightarrow> string" where
  "formatMIME format =
    (if format = ''jpeg'' then ''image/jpeg''
     else if format = ''png'' then ''image/png''
     else if format = ''webp'' then ''image/webp''
     else if format = ''gif'' then ''image/gif''
     else if format = ''bmp'' then ''image/bmp''
     else [])"

section \<open>Error constructors\<close>

definition codeFor :: "kind \<Rightarrow> string \<Rightarrow> string" where
  "codeFor k suffix =
    (case k of KindAvatar \<Rightarrow> ''avatar.'' @ suffix | KindCustomEmote \<Rightarrow> ''emote.'' @ suffix
     | KindOther _ \<Rightarrow> ''media.'' @ suffix)"

definition validationError :: "kind \<Rightarrow> string \<Rightarrow> string \<Rightarrow> int \<Rightarrow> media_cause \<Rightarrow> media_error" where
  "validationError k suffix message status cause = mediaError (codeFor k suffix) message status cause"

definition supportedFormatError :: "kind \<Rightarrow> media_cause \<Rightarrow> media_error" where
  "supportedFormatError k cause =
    (if k = KindCustomEmote
     then validationError k ''invalid_format''
       (utf8 [0x4EC5, 0x652F, 0x6301] @ '' JPEG'' @ utf8 [0x3001] @ ''PNG'' @ utf8 [0x3001] @ ''WebP''
        @ utf8 [0x3001] @ ''GIF '' @ utf8 [0x6216] @ '' BMP '' @ utf8 [0x56FE, 0x7247]) 400 cause
     else validationError k ''unsupported_format''
       (utf8 [0x5934, 0x50CF, 0x4EC5, 0x652F, 0x6301] @ '' JPEG'' @ utf8 [0x3001] @ ''PNG ''
        @ utf8 [0x6216] @ '' WebP'') 400 cause)"

definition inputTooLargeError :: "kind \<Rightarrow> media_cause \<Rightarrow> media_error" where
  "inputTooLargeError k cause =
    (if k = KindAvatar
     then validationError k ''invalid_size''
       (utf8 [0x5934, 0x50CF, 0x6587, 0x4EF6, 0x5927, 0x5C0F, 0x5E94, 0x5728] @ '' 5 MiB ''
        @ utf8 [0x4EE5, 0x5185]) 400 cause
     else validationError k ''input_too_large''
       (utf8 [0x8868, 0x60C5, 0x539F, 0x56FE, 0x4E0D, 0x80FD, 0x8D85, 0x8FC7] @ '' 10 MiB'') 413 cause)"

definition invalidContentError :: "kind \<Rightarrow> media_cause \<Rightarrow> media_error" where
  "invalidContentError k cause =
    (if k = KindAvatar
     then validationError k ''invalid_size''
       (utf8 [0x5934, 0x50CF, 0x6587, 0x4EF6, 0x5927, 0x5C0F, 0x4E0E, 0x8BF7, 0x6C42, 0x4E0D, 0x4E00, 0x81F4])
       400 cause
     else validationError k ''invalid_content''
       (utf8 [0x8868, 0x60C5, 0x56FE, 0x7247, 0x4E0D, 0x80FD, 0x4E3A, 0x7A7A]) 400 cause)"

definition decodeFailedError :: "kind \<Rightarrow> media_cause \<Rightarrow> media_error" where
  "decodeFailedError k cause =
    (if k = KindAvatar
     then validationError k ''invalid_image''
       (utf8 [0x5934, 0x50CF, 0x56FE, 0x7247, 0x65E0, 0x6CD5, 0x89E3, 0x6790]) 400 cause
     else validationError k ''decode_failed''
       (utf8 [0x56FE, 0x7247, 0x65E0, 0x6CD5, 0x89E3, 0x6790]) 400 cause)"

definition dimensionsExceededError :: "kind \<Rightarrow> media_cause \<Rightarrow> media_error" where
  "dimensionsExceededError k cause =
    (if k = KindAvatar
     then validationError k ''invalid_image''
       (utf8 [0x5934, 0x50CF, 0x56FE, 0x7247, 0x5C3A, 0x5BF8, 0x6216, 0x683C, 0x5F0F, 0x65E0, 0x6548]) 400 cause
     else validationError k ''dimensions_exceeded''
       (utf8 [0x56FE, 0x7247, 0x5C3A, 0x5BF8, 0x8FC7, 0x5927]) 400 cause)"

definition animationTooComplexError :: "kind \<Rightarrow> media_cause \<Rightarrow> media_error" where
  "animationTooComplexError k cause =
    validationError k ''animation_too_complex''
      (utf8 [0x52A8, 0x56FE, 0x5E27, 0x6570, 0x6216, 0x65F6, 0x957F, 0x8D85, 0x51FA, 0x9650, 0x5236]) 400 cause"

definition processFailedError :: "kind \<Rightarrow> media_cause \<Rightarrow> media_error" where
  "processFailedError k cause =
    (if k = KindAvatar
     then validationError k ''processing_failed''
       (utf8 [0x5934, 0x50CF, 0x5904, 0x7406, 0x5931, 0x8D25]) 500 cause
     else validationError k ''process_failed''
       (utf8 [0x56FE, 0x7247, 0x5904, 0x7406, 0x5931, 0x8D25]) 500 cause)"

definition outputTooLargeError :: "kind \<Rightarrow> media_cause \<Rightarrow> media_error" where
  "outputTooLargeError k cause =
    (if k = KindCustomEmote
     then validationError k ''output_too_large''
       (utf8 [0x538B, 0x7F29, 0x540E, 0x7684, 0x8868, 0x60C5, 0x4ECD, 0x7136, 0x8FC7, 0x5927]) 400 cause
     else validationError k ''output_too_large''
       (utf8 [0x538B, 0x7F29, 0x540E, 0x7684, 0x56FE, 0x7247, 0x4ECD, 0x7136, 0x8FC7, 0x5927]) 400 cause)"

lemmas media_error_defs = supportedFormatError_def inputTooLargeError_def invalidContentError_def
  decodeFailedError_def dimensionsExceededError_def animationTooComplexError_def
  processFailedError_def outputTooLargeError_def validationError_def mediaError_def

lemma validationError_sel [simp]:
  "Code (validationError k suffix m st c) = codeFor k suffix"
  "StatusCode (validationError k suffix m st c) = st"
  "Cause (validationError k suffix m st c) = c"
  by (simp_all add: validationError_def mediaError_def)

lemma dimensionsExceededError_cause [simp]:
  "Cause (dimensionsExceededError k c) = c"
  "is_pixel_error (dimensionsExceededError k c) = is_pixel_cause c"
  by (simp_all add: dimensionsExceededError_def validationError_def mediaError_def)

lemma decodeFailedError_cause [simp]:
  "Cause (decodeFailedError k c) = c"
  "is_pixel_error (decodeFailedError k c) = is_pixel_cause c"
  by (simp_all add: decodeFailedError_def validationError_def mediaError_def)

lemma animationTooComplexError_cause [simp]:
  "is_pixel_error (animationTooComplexError k c) = is_pixel_cause c"
  by (simp add: animationTooComplexError_def validationError_def mediaError_def)

section \<open>Normalised limits are usable\<close>

text \<open>What the rest of the pipeline needs of a policy.\<close>

definition limits_ok :: "limits \<Rightarrow> bool" where
  "limits_ok v \<longleftrightarrow>
     1 \<le> MaxInputBytes v \<and> 1 \<le> MaxInputPixels v \<and> 1 \<le> MaxInputEdge v \<and> 1 \<le> MaxFrames v
     \<and> 0 \<le> MaxDurationMS v \<and> 1 \<le> TargetSize v
     \<and> 1 \<le> StaticQuality v \<and> StaticQuality v \<le> 100 \<and> 1 \<le> AnimatedQuality v \<and> AnimatedQuality v \<le> 100
     \<and> 0 \<le> MaxOutputBytes v \<and> 0 \<le> FallbackSize v \<and> 0 \<le> FallbackQuality v \<and> FallbackQuality v \<le> 100
     \<and> (0 < MaxOutputBytes v \<longrightarrow> 0 < FallbackSize v \<and> 0 < FallbackQuality v)"

lemma default_limits_ok: "limits_ok defaultAvatarLimits" "limits_ok defaultCustomEmoteLimits"
  by (simp_all add: limits_ok_def defaultAvatarLimits_def defaultCustomEmoteLimits_def zeroLimits_def)

lemma mergeLimits_ok: "mergeLimits v d = Inr w \<Longrightarrow> limits_ok w"
  by (auto simp: mergeLimits_def Let_def limits_ok_def split: if_splits)

lemma normalizeLimits_ok: "normalizeLimits v d = Inr w \<Longrightarrow> limits_ok d \<Longrightarrow> limits_ok w"
  by (auto simp: normalizeLimits_def split: if_splits dest: mergeLimits_ok)

lemma mergeLimits_fills: "mergeLimits v d = Inr w \<Longrightarrow> w = fillLimits v d"
  by (auto simp: mergeLimits_def Let_def split: if_splits)

lemma mergeLimits_accepts_iff:
  "(\<exists>w. mergeLimits v d = Inr w) \<longleftrightarrow> limits_ok (fillLimits v d)"
  by (auto simp: mergeLimits_def Let_def limits_ok_def split: if_splits)

text \<open>
  (policy.go:140-223, normalizeOptions and mergeLimits). Whatever options a caller hands
  over, the options the processor keeps are usable: both policies have positive bounds and
  qualities within 1..100, an output bound always comes with a fallback encoding, and the
  concurrency settings are within 1..64. No combination of zero and non-zero fields slips
  through the defaulting.
\<close>

theorem normalizeOptions_ok:
  assumes "normalizeOptions opts = Inr w"
  shows "limits_ok (Avatar w) \<and> limits_ok (CustomEmote w)
    \<and> 1 \<le> MaxProcessingConcurrency w \<and> MaxProcessingConcurrency w \<le> 64
    \<and> 1 \<le> VipsConcurrency w \<and> VipsConcurrency w \<le> 64 \<and> 0 \<le> VipsCacheMemoryBytes w"
  using assms default_limits_ok
  by (auto simp: normalizeOptions_def result_bind_Inr_conv Let_def DefaultOptions_def
      split: if_splits dest: normalizeLimits_ok)

theorem normalizeOptions_ok_witness:
  "\<exists>w. normalizeOptions (DefaultOptions\<lparr>MaxProcessingConcurrency := 0\<rparr>) = Inr w
     \<and> limits_ok (CustomEmote w) \<and> MaxProcessingConcurrency w \<le> 64"
proof -
  have "is_ok (normalizeOptions (DefaultOptions\<lparr>MaxProcessingConcurrency := 0\<rparr>))"
    by code_simp
  then obtain w where "normalizeOptions (DefaultOptions\<lparr>MaxProcessingConcurrency := 0\<rparr>) = Inr w"
    by (auto simp: is_ok_def split: sum.splits)
  then show ?thesis using normalizeOptions_ok by blast
qed

text \<open>
  (policy.go:173-223, mergeLimits). Merging accepts exactly the values that are usable
  once the zero fields are filled from the defaults, and then keeps every field the caller
  set. The defaults are themselves fixed points, so normalising twice changes nothing.
\<close>

theorem mergeLimits_spec:
  "(mergeLimits v d = Inr (fillLimits v d) \<longleftrightarrow> limits_ok (fillLimits v d))
   \<and> (\<not> limits_ok (fillLimits v d) \<longleftrightarrow> (\<exists>e. mergeLimits v d = Inl e \<and> Code e = CodeInvalidLimits))
   \<and> fillLimits (fillLimits v d) d = fillLimits v d"
proof (intro conjI)
  show "mergeLimits v d = Inr (fillLimits v d) \<longleftrightarrow> limits_ok (fillLimits v d)"
    using mergeLimits_accepts_iff [of v d] mergeLimits_fills [of v d] by metis
  show "\<not> limits_ok (fillLimits v d) \<longleftrightarrow> (\<exists>e. mergeLimits v d = Inl e \<and> Code e = CodeInvalidLimits)"
    by (auto simp: mergeLimits_def Let_def limits_ok_def invalidLimitsError_def mediaError_def split: if_splits)
  show "fillLimits (fillLimits v d) d = fillLimits v d"
    by (simp add: fillLimits_def or_default_def or_positive_default_def)
qed

end
