(* ===== verification/Media_Inspect.thy ===== *)
theory Media_Inspect
  imports Go_Bytes Media_Policy
begin

text \<open>
  The image header inspection of \<open>platform/media/inspect.go\<close>: JPEG, PNG, GIF, WebP and BMP
  headers read from untrusted bytes, and the budget check on what was read. Dimensions and
  pixel counts are 64-bit words that wrap; offsets into the input are naturals; an index out
  of range is a panic (\<open>None\<close>). Each scanning loop is a step function and its iteration.
\<close>

unbundle bit_operations_syntax

section \<open>Headers\<close>

record bmp_header =
  bmp_width :: nat
  bmp_height :: nat
  topDown :: bool
  pixelOffset :: u64
  rowStride :: u64
  bytesPerPixel :: nat

record image_header =
  img_format :: string
  img_width :: u64
  img_height :: u64
  frameWidth :: u64
  frameHeight :: u64
  frameCount :: nat
  durationMS :: int
  totalFramePixels :: u64
  bmp :: "bmp_header option"

text \<open>\<open>errMalformedImage\<close> is the only error the inspection returns.\<close>

type_synonym 'a inspect = "(media_cause, 'a) go"

definition malformed :: "'a inspect" where
  "malformed = Some (Inl MalformedImage)"

lemma malformed_simps [simp]: "go_safe malformed" "malformed \<noteq> Some (Inr x)" "malformed \<noteq> None"
  by (simp_all add: malformed_def)

definition maxU64 :: u64 where
  "maxU64 = - 1"

definition checkedMul :: "u64 \<Rightarrow> u64 \<Rightarrow> u64 \<times> bool" where
  "checkedMul l r = (if l \<noteq> 0 \<and> r > maxU64 div l then (0, False) else (l * r, True))"

definition staticImageHeader :: "string \<Rightarrow> u64 \<Rightarrow> u64 \<Rightarrow> image_header" where
  "staticImageHeader fmt w h =
    \<lparr>img_format = fmt, img_width = w, img_height = h, frameWidth = w, frameHeight = h,
     frameCount = 1, durationMS = 0, totalFramePixels = w * h, bmp = None\<rparr>"

section \<open>JPEG\<close>

definition isJPEGStartOfFrame :: "byte \<Rightarrow> bool" where
  "isJPEGStartOfFrame m \<longleftrightarrow>
     m \<in> set [0xc0, 0xc1, 0xc2, 0xc3, 0xc5, 0xc6, 0xc7, 0xc9, 0xca, 0xcb, 0xcd, 0xce, 0xcf]"

text \<open>The inner loop over fill bytes.\<close>

function skip_ff :: "bytes \<Rightarrow> nat \<Rightarrow> nat" where
  "skip_ff input off =
    (if off < length input \<and> input ! off = 0xff then skip_ff input (Suc off) else off)"
  by pat_completeness auto
termination
  by (relation "measure (\<lambda>(input, off). length input - off)") auto

declare skip_ff.simps [simp del]

text \<open>One round of the marker loop: the next offset, the dimensions, or an error.\<close>

definition jpeg_step :: "bytes \<Rightarrow> nat \<Rightarrow> (nat + u64 \<times> u64) inspect" where
  "jpeg_step input off0 =
    do {
      b \<leftarrow> idx input off0;
      if b \<noteq> 0xff then Some (Inr (Inl (off0 + 1)))
      else let off1 = skip_ff input off0 in
      if off1 \<ge> length input then malformed
      else do {
        marker \<leftarrow> idx input off1;
        let off = off1 + 1;
        if marker = 0xd9 \<or> marker = 0xda then malformed
        else if marker = 0x01 \<or> (0xd0 \<le> marker \<and> marker \<le> 0xd7) then Some (Inr (Inl off))
        else if off + 2 > length input then malformed
        else do {
          segmentLength \<leftarrow> be_at 2 input off;
          if segmentLength < 2 \<or> segmentLength > length input - off then malformed
          else if isJPEGStartOfFrame marker then
            (if segmentLength < 7 then malformed
             else do {
               h \<leftarrow> be_at 2 input (off + 3);
               w \<leftarrow> be_at 2 input (off + 5);
               if w = 0 \<or> h = 0 then malformed
               else Some (Inr (Inr (word_of_nat w, word_of_nat h)))
             })
          else Some (Inr (Inl (off + segmentLength)))
        }
      }
    }"

lemma skip_ff_ge: "off \<le> skip_ff input off"
proof (induction input off rule: skip_ff.induct)
  case (1 input off)
  then show ?case by (subst skip_ff.simps) (auto intro: Suc_leD)
qed

lemma jpeg_step_progress: "jpeg_step input off = Some (Inr (Inl off')) \<Longrightarrow> off < off'"
  using skip_ff_ge [of off input]
  by (auto simp: jpeg_step_def malformed_def Let_def bind_eq_Some_conv split: if_splits)

function jpeg_loop :: "bytes \<Rightarrow> nat \<Rightarrow> (u64 \<times> u64) inspect" where
  "jpeg_loop input off =
    (if off < length input then
       (case jpeg_step input off of
          None \<Rightarrow> None
        | Some (Inl e) \<Rightarrow> Some (Inl e)
        | Some (Inr (Inl off')) \<Rightarrow> jpeg_loop input off'
        | Some (Inr (Inr wh)) \<Rightarrow> Some (Inr wh))
     else malformed)"
  by pat_completeness auto
termination
  by (relation "measure (\<lambda>(input, off). length input - off)") (auto dest!: jpeg_step_progress)

declare jpeg_loop.simps [simp del]

definition inspectJPEG :: "bytes \<Rightarrow> (u64 \<times> u64) inspect" where
  "inspectJPEG input =
    (if length input < 4 then malformed
     else do {
       b0 \<leftarrow> idx input 0;
       b1 \<leftarrow> idx input 1;
       if b0 \<noteq> 0xff \<or> b1 \<noteq> 0xd8 then malformed else jpeg_loop input 2
     })"

section \<open>PNG and BMP\<close>

definition inspectPNG :: "bytes \<Rightarrow> (u64 \<times> u64) inspect" where
  "inspectPNG input =
    (if length input < 33 then malformed
     else do {
       tag \<leftarrow> gslice input 12 16;
       n \<leftarrow> be_at 4 input 8;
       if tag \<noteq> ascii_bytes ''IHDR'' \<or> n \<noteq> 13 then malformed
       else do {
         w \<leftarrow> be_at 4 input 16;
         h \<leftarrow> be_at 4 input 20;
         if w = 0 \<or> h = 0 then malformed
         else Some (Inr (word_of_nat w, word_of_nat h))
       }
     })"

text \<open>\<open>int64(int32(v))\<close> of an unsigned 32-bit value.\<close>

definition int32_of :: "nat \<Rightarrow> int" where
  "int32_of n = sint (word_of_nat n :: 32 word)"

text \<open>From the validated fields on: the row stride, the pixel area and the header.\<close>

definition bmp_layout :: "bytes \<Rightarrow> nat \<Rightarrow> int \<Rightarrow> int \<Rightarrow> nat \<Rightarrow> image_header inspect" where
  "bmp_layout input dibSize widthSigned heightSigned bitsPerPixel = do {
     let width = (word_of_int widthSigned :: u64);
     let height = (if heightSigned < 0 then word_of_int (- heightSigned)
                   else word_of_int heightSigned :: u64);
     let maxInt = drop_bit 1 maxU64;
     if width > maxInt \<or> height > maxInt then malformed
     else do {
       let bpp = (word_of_nat (bitsPerPixel div 8) :: u64);
       let (stride, ok) = checkedMul ((width * bpp + 3) div 4) 4;
       if \<not> ok then malformed
       else do {
         po \<leftarrow> le_at 4 input 10;
         let pixOff = (word_of_nat po :: u64);
         let minimumOffset = 14 + (word_of_nat dibSize :: u64);
         let len = (word_of_nat (length input) :: u64);
         let (dataSize, ok2) = checkedMul stride height;
         if \<not> ok2 \<or> pixOff < minimumOffset \<or> pixOff > len \<or> dataSize > len - pixOff then malformed
         else Some (Inr
           \<lparr>img_format = ''bmp'', img_width = width, img_height = height,
            frameWidth = width, frameHeight = height, frameCount = 1, durationMS = 0,
            totalFramePixels = width * height,
            bmp = Some \<lparr>bmp_width = unat width, bmp_height = unat height,
              topDown = (heightSigned < 0), pixelOffset = pixOff, rowStride = stride,
              bytesPerPixel = unat bpp\<rparr>\<rparr>)
       }
     }
   }"

definition inspectBMP :: "bytes \<Rightarrow> image_header inspect" where
  "inspectBMP input =
    (if length input < 54 then malformed
     else do {
       tag \<leftarrow> gslice input 0 2;
       if tag \<noteq> ascii_bytes ''BM'' then malformed
       else do {
         dibSize \<leftarrow> le_at 4 input 14;
         if dibSize < 40 \<or> dibSize > length input - 14 then malformed
         else do {
           w \<leftarrow> le_at 4 input 18;
           h \<leftarrow> le_at 4 input 22;
           planes \<leftarrow> le_at 2 input 26;
           bitsPerPixel \<leftarrow> le_at 2 input 28;
           compression \<leftarrow> le_at 4 input 30;
           let widthSigned = int32_of w;
           let heightSigned = int32_of h;
           if widthSigned \<le> 0 \<or> heightSigned = 0 \<or> planes \<noteq> 1
              \<or> (bitsPerPixel \<noteq> 24 \<and> bitsPerPixel \<noteq> 32) \<or> compression \<noteq> 0 then malformed
           else bmp_layout input dibSize widthSigned heightSigned bitsPerPixel
         }
       }
     })"

section \<open>GIF\<close>

function skipGIFSubBlocks :: "bytes \<Rightarrow> nat \<Rightarrow> nat inspect" where
  "skipGIFSubBlocks input off =
    (if off < length input then
       (let size = unat (input ! off); off1 = off + 1 in
        if size = 0 then Some (Inr off1)
        else if size > length input - off1 then malformed
        else skipGIFSubBlocks input (off1 + size))
     else malformed)"
  by pat_completeness auto
termination
  by (relation "measure (\<lambda>(input, off). length input - off)") auto

declare skipGIFSubBlocks.simps [simp del]

record gif_state =
  g_offset :: nat
  g_frames :: nat
  g_maxW :: u64
  g_maxH :: u64
  g_duration :: int
  g_total :: u64
  g_pending :: int

text \<open>The size in bytes of a colour table, from the packed field that announces it.\<close>

definition color_table_size :: "byte \<Rightarrow> nat" where
  "color_table_size packed = 3 * 2 ^ (unat (packed AND 0x07) + 1)"

text \<open>The saturating sums of the frame loops.\<close>

definition add_frame_pixels :: "u64 \<Rightarrow> u64 \<Rightarrow> u64 \<Rightarrow> u64" where
  "add_frame_pixels t w h =
    (let (framePixels, ok) = checkedMul w h
     in if \<not> ok \<or> t > maxU64 - framePixels then maxU64 else t + framePixels)"

definition add_duration :: "int \<Rightarrow> int \<Rightarrow> int" where
  "add_duration duration d = (if duration > MaxInt64 - d then MaxInt64 else duration + d)"

text \<open>One block of the GIF stream; \<open>width\<close> and \<open>height\<close> are the logical screen.\<close>

definition gif_extension :: "bytes \<Rightarrow> gif_state \<Rightarrow> (gif_state + image_header) inspect" where
  "gif_extension input st =
    (let off0 = g_offset st in
     if off0 \<ge> length input then malformed
     else do {
       label \<leftarrow> idx input off0;
       let off = off0 + 1;
       if label = 0xf9 then
         (if off + 6 > length input then malformed
          else do {
            n \<leftarrow> idx input off;
            if n \<noteq> 4 then malformed
            else do {
              d \<leftarrow> le_at 2 input (off + 2);
              let off5 = off + 5;
              if off5 \<ge> length input then malformed
              else do {
                z \<leftarrow> idx input off5;
                if z \<noteq> 0 then malformed
                else Some (Inr (Inl (st\<lparr>g_offset := off5 + 1, g_pending := int d * 10\<rparr>)))
              }
            }
          })
       else
         (case skipGIFSubBlocks input off of
            None \<Rightarrow> None
          | Some (Inl e) \<Rightarrow> Some (Inl e)
          | Some (Inr off') \<Rightarrow> Some (Inr (Inl (st\<lparr>g_offset := off'\<rparr>))))
     })"

text \<open>A frame that was read: counted, and added to the running maxima and sums.\<close>

definition gif_add_frame :: "gif_state \<Rightarrow> nat \<Rightarrow> u64 \<Rightarrow> u64 \<Rightarrow> gif_state" where
  "gif_add_frame st off frameW frameH =
    st\<lparr>g_offset := off, g_frames := g_frames st + 1,
       g_maxW := (if frameW > g_maxW st then frameW else g_maxW st),
       g_maxH := (if frameH > g_maxH st then frameH else g_maxH st),
       g_total := add_frame_pixels (g_total st) frameW frameH,
       g_duration := add_duration (g_duration st) (g_pending st),
       g_pending := 0\<rparr>"

definition gif_image :: "bytes \<Rightarrow> gif_state \<Rightarrow> (gif_state + image_header) inspect" where
  "gif_image input st =
    (let off = g_offset st in
     if off + 9 > length input then malformed
     else do {
       fw \<leftarrow> le_at 2 input (off + 4);
       fh \<leftarrow> le_at 2 input (off + 6);
       if fw = 0 \<or> fh = 0 then malformed
       else do {
         localPacked \<leftarrow> idx input (off + 8);
         let off9 = off + 9;
         let table = (if localPacked AND 0x80 \<noteq> 0 then color_table_size localPacked else 0);
         if localPacked AND 0x80 \<noteq> 0 \<and> off9 + table > length input then malformed
         else let off1 = off9 + table in
         if off1 \<ge> length input then malformed
         else
           (case skipGIFSubBlocks input (off1 + 1) of
              None \<Rightarrow> None
            | Some (Inl e) \<Rightarrow> Some (Inl e)
            | Some (Inr off') \<Rightarrow> Some (Inr (Inl (gif_add_frame st off' (word_of_nat fw) (word_of_nat fh)))))
       }
     })"

definition gif_step :: "bytes \<Rightarrow> u64 \<Rightarrow> u64 \<Rightarrow> gif_state \<Rightarrow> (gif_state + image_header) inspect" where
  "gif_step input width height st0 =
    do {
      block \<leftarrow> idx input (g_offset st0);
      let st = st0\<lparr>g_offset := g_offset st0 + 1\<rparr>;
      if block = 0x3b then
        (if g_frames st = 0 then malformed
         else Some (Inr (Inr \<lparr>img_format = ''gif'', img_width = width, img_height = height,
           frameWidth = g_maxW st, frameHeight = g_maxH st, frameCount = g_frames st,
           durationMS = g_duration st, totalFramePixels = g_total st, bmp = None\<rparr>)))
      else if block = 0x21 then gif_extension input st
      else if block = 0x2c then gif_image input st
      else malformed
    }"

lemma skipGIFSubBlocks_ge: "skipGIFSubBlocks input off = Some (Inr off') \<Longrightarrow> off < off'"
proof (induction input off rule: skipGIFSubBlocks.induct)
  case (1 input off)
  then show ?case
    by (subst (asm) (2) skipGIFSubBlocks.simps)
      (fastforce simp: Let_def malformed_def split: if_splits)
qed

lemma gif_add_frame_offset [simp]: "g_offset (gif_add_frame st off w h) = off"
  by (simp add: gif_add_frame_def)

lemma gif_step_progress:
  "gif_step input w h st = Some (Inr (Inl st')) \<Longrightarrow> g_offset st < g_offset st'"
  by (auto simp: gif_step_def gif_extension_def gif_image_def malformed_def Let_def bind_eq_Some_conv
      split: if_splits option.splits sum.splits dest!: skipGIFSubBlocks_ge)

function gif_loop :: "bytes \<Rightarrow> u64 \<Rightarrow> u64 \<Rightarrow> gif_state \<Rightarrow> image_header inspect" where
  "gif_loop input w h st =
    (if g_offset st < length input then
       (case gif_step input w h st of
          None \<Rightarrow> None
        | Some (Inl e) \<Rightarrow> Some (Inl e)
        | Some (Inr (Inl st')) \<Rightarrow> gif_loop input w h st'
        | Some (Inr (Inr res)) \<Rightarrow> Some (Inr res))
     else malformed)"
  by pat_completeness auto
termination
  by (relation "measure (\<lambda>(input, w, h, st). length input - g_offset st)")
    (auto dest!: gif_step_progress)

declare gif_loop.simps [simp del]

definition inspectGIF :: "bytes \<Rightarrow> image_header inspect" where
  "inspectGIF input =
    (if length input < 13 then malformed
     else do {
       w \<leftarrow> le_at 2 input 6;
       h \<leftarrow> le_at 2 input 8;
       if w = 0 \<or> h = 0 then malformed
       else do {
         packed \<leftarrow> idx input 10;
         let table = (if packed AND 0x80 \<noteq> 0 then color_table_size packed else 0);
         if packed AND 0x80 \<noteq> 0 \<and> 13 + table > length input then malformed
         else gif_loop input (word_of_nat w) (word_of_nat h)
                \<lparr>g_offset = 13 + table, g_frames = 0, g_maxW = word_of_nat w, g_maxH = word_of_nat h,
                 g_duration = 0, g_total = 0, g_pending = 0\<rparr>
       }
     })"


section \<open>WebP\<close>

text \<open>A little-endian 24-bit field of a chunk payload.\<close>

definition u24 :: "bytes \<Rightarrow> nat \<Rightarrow> u64 option" where
  "u24 payload i = map_option word_of_nat (le_at 3 payload i)"

definition inspectVP8 :: "bytes \<Rightarrow> (u64 \<times> u64) option" where
  "inspectVP8 payload =
    (if length payload < 10 then Some (0, 0)
     else do {
       b3 \<leftarrow> idx payload 3;
       b4 \<leftarrow> idx payload 4;
       b5 \<leftarrow> idx payload 5;
       if b3 \<noteq> 0x9d \<or> b4 \<noteq> 0x01 \<or> b5 \<noteq> 0x2a then Some (0, 0)
       else do {
         w \<leftarrow> le_at 2 payload 6;
         h \<leftarrow> le_at 2 payload 8;
         Some (word_of_nat w AND 0x3fff, word_of_nat h AND 0x3fff)
       }
     })"

definition inspectVP8L :: "bytes \<Rightarrow> (u64 \<times> u64) option" where
  "inspectVP8L payload =
    (if length payload < 5 then Some (0, 0)
     else do {
       b0 \<leftarrow> idx payload 0;
       if b0 \<noteq> 0x2f then Some (0, 0)
       else do {
         v \<leftarrow> le_at 4 payload 1;
         let bits = (word_of_nat v :: 32 word);
         Some (1 + ucast (bits AND 0x3fff), 1 + ucast (drop_bit 14 bits AND 0x3fff))
       }
     })"

record webp_state =
  w_offset :: nat
  w_width :: u64
  w_height :: u64
  w_maxW :: u64
  w_maxH :: u64
  w_frames :: nat
  w_duration :: int
  w_total :: u64
  w_animated :: bool

definition webp_add_frame :: "webp_state \<Rightarrow> u64 \<Rightarrow> u64 \<Rightarrow> int \<Rightarrow> webp_state" where
  "webp_add_frame st frameW frameH frameDuration =
    st\<lparr>w_frames := w_frames st + 1,
       w_maxW := (if frameW > w_maxW st then frameW else w_maxW st),
       w_maxH := (if frameH > w_maxH st then frameH else w_maxH st),
       w_total := add_frame_pixels (w_total st) frameW frameH,
       w_duration := add_duration (w_duration st) frameDuration\<rparr>"

definition webp_set_canvas :: "webp_state \<Rightarrow> u64 \<Rightarrow> u64 \<Rightarrow> webp_state" where
  "webp_set_canvas st w h = st\<lparr>w_width := w, w_height := h, w_maxW := w, w_maxH := h\<rparr>"

text \<open>The switch on the chunk type: what one chunk changes.\<close>

definition webp_chunk :: "bytes \<Rightarrow> bytes \<Rightarrow> webp_state \<Rightarrow> webp_state inspect" where
  "webp_chunk chunkType payload st =
    (if chunkType = ascii_bytes ''VP8X'' then
       (if length payload < 10 then malformed
        else do {
          flags \<leftarrow> idx payload 0;
          w \<leftarrow> u24 payload 4;
          h \<leftarrow> u24 payload 7;
          Some (Inr ((webp_set_canvas st (1 + w) (1 + h))\<lparr>w_animated := (flags AND 0x02 \<noteq> 0)\<rparr>))
        })
     else if chunkType = ascii_bytes ''VP8 '' then
       (if w_width st = 0 \<or> w_height st = 0 then do {
          (w, h) \<leftarrow> inspectVP8 payload;
          Some (Inr (webp_set_canvas st w h))
        } else Some (Inr st))
     else if chunkType = ascii_bytes ''VP8L'' then
       (if w_width st = 0 \<or> w_height st = 0 then do {
          (w, h) \<leftarrow> inspectVP8L payload;
          Some (Inr (webp_set_canvas st w h))
        } else Some (Inr st))
     else if chunkType = ascii_bytes ''ANMF'' then
       (if length payload < 16 then malformed
        else do {
          w \<leftarrow> u24 payload 6;
          h \<leftarrow> u24 payload 9;
          d \<leftarrow> le_at 3 payload 12;
          Some (Inr (webp_add_frame st (1 + w) (1 + h) (int d)))
        })
     else Some (Inr st))"

text \<open>One round of the chunk loop below \<open>end\<close>; the loop never returns from inside.\<close>

definition webp_step :: "bytes \<Rightarrow> nat \<Rightarrow> webp_state \<Rightarrow> (webp_state + image_header) inspect" where
  "webp_step input stop st0 =
    (let off0 = w_offset st0 in
     if off0 + 8 > stop then malformed
     else do {
       chunkType \<leftarrow> gslice input off0 (off0 + 4);
       chunkSize \<leftarrow> le_at 4 input (off0 + 4);
       let off = off0 + 8;
       if chunkSize > stop - off then malformed
       else do {
         payload \<leftarrow> gslice input off (off + chunkSize);
         (case webp_chunk chunkType payload st0 of
            None \<Rightarrow> None
          | Some (Inl e) \<Rightarrow> Some (Inl e)
          | Some (Inr st) \<Rightarrow>
              (let off1 = off + chunkSize in
               if odd chunkSize then
                 (if off1 \<ge> stop then malformed else Some (Inr (Inl (st\<lparr>w_offset := off1 + 1\<rparr>))))
               else Some (Inr (Inl (st\<lparr>w_offset := off1\<rparr>)))))
       }
     })"

text \<open>After the loop.\<close>

definition webp_finish :: "nat \<Rightarrow> webp_state \<Rightarrow> image_header inspect" where
  "webp_finish stop st =
    (if w_offset st \<noteq> stop then malformed
     else if w_width st = 0 \<or> w_height st = 0 then malformed
     else if w_animated st then
       (if w_frames st = 0 then malformed
        else Some (Inr \<lparr>img_format = ''webp'', img_width = w_width st, img_height = w_height st,
          frameWidth = w_maxW st, frameHeight = w_maxH st, frameCount = w_frames st,
          durationMS = w_duration st, totalFramePixels = w_total st, bmp = None\<rparr>))
     else if w_frames st > 0 then malformed
     else Some (Inr \<lparr>img_format = ''webp'', img_width = w_width st, img_height = w_height st,
       frameWidth = w_width st, frameHeight = w_height st, frameCount = 1, durationMS = 0,
       totalFramePixels = fst (checkedMul (w_width st) (w_height st)), bmp = None\<rparr>))"

lemma webp_update_offset [simp]:
  "w_offset (webp_add_frame st w h d) = w_offset st"
  "w_offset (webp_set_canvas st w h) = w_offset st"
  by (simp_all add: webp_add_frame_def webp_set_canvas_def)

lemma webp_chunk_offset: "webp_chunk t p st = Some (Inr st') \<Longrightarrow> w_offset st' = w_offset st"
  unfolding webp_chunk_def Let_def
  by (clarsimp simp: bind_eq_Some_conv split: if_split_asm)

lemma webp_step_progress:
  "webp_step input stop st = Some (Inr (Inl st')) \<Longrightarrow> w_offset st < w_offset st' \<and> w_offset st' \<le> stop"
  unfolding webp_step_def malformed_def Let_def
  apply (clarsimp simp: bind_eq_Some_conv split: if_split_asm)
  apply (clarsimp split: option.split_asm sum.split_asm if_split_asm; drule webp_chunk_offset; auto)
  done

function webp_loop :: "bytes \<Rightarrow> nat \<Rightarrow> webp_state \<Rightarrow> image_header inspect" where
  "webp_loop input stop st =
    (if w_offset st < stop then
       (case webp_step input stop st of
          None \<Rightarrow> None
        | Some (Inl e) \<Rightarrow> Some (Inl e)
        | Some (Inr (Inl st')) \<Rightarrow> webp_loop input stop st'
        | Some (Inr (Inr res)) \<Rightarrow> Some (Inr res))
     else webp_finish stop st)"
  by pat_completeness auto
termination
  by (relation "measure (\<lambda>(input, stop, st). stop - w_offset st)") (auto dest!: webp_step_progress)

declare webp_loop.simps [simp del]

definition inspectWebP :: "bytes \<Rightarrow> image_header inspect" where
  "inspectWebP input =
    (if length input < 20 then malformed
     else do {
       riffSize \<leftarrow> le_at 4 input 4;
       if riffSize < 4 then malformed
       else if 8 + riffSize > length input then malformed
       else webp_loop input (8 + riffSize)
              \<lparr>w_offset = 12, w_width = 0, w_height = 0, w_maxW = 0, w_maxH = 0, w_frames = 0,
               w_duration = 0, w_total = 0, w_animated = False\<rparr>
     })"

section \<open>Dispatch on the signature\<close>

definition prefix_is :: "bytes \<Rightarrow> bytes \<Rightarrow> bool" where
  "prefix_is input sig \<longleftrightarrow> length sig \<le> length input \<and> take (length sig) input = sig"

definition inspectImage :: "bytes \<Rightarrow> image_header inspect" where
  "inspectImage input =
    (if prefix_is input [0xff, 0xd8, 0xff] then
       (case inspectJPEG input of
          None \<Rightarrow> None | Some (Inl e) \<Rightarrow> Some (Inl e)
        | Some (Inr (w, h)) \<Rightarrow> Some (Inr (staticImageHeader ''jpeg'' w h)))
     else if prefix_is input [0x89, 0x50, 0x4e, 0x47, 0x0d, 0x0a, 0x1a, 0x0a] then
       (case inspectPNG input of
          None \<Rightarrow> None | Some (Inl e) \<Rightarrow> Some (Inl e)
        | Some (Inr (w, h)) \<Rightarrow> Some (Inr (staticImageHeader ''png'' w h)))
     else if prefix_is input (ascii_bytes ''GIF87a'') \<or> prefix_is input (ascii_bytes ''GIF89a'') then
       inspectGIF input
     else if length input \<ge> 12 \<and> take 4 input = ascii_bytes ''RIFF''
             \<and> take 4 (drop 8 input) = ascii_bytes ''WEBP'' then
       inspectWebP input
     else if prefix_is input (ascii_bytes ''BM'') then inspectBMP input
     else malformed)"

section \<open>The budget check\<close>

definition dims_text :: "string \<Rightarrow> u64 \<Rightarrow> u64 \<Rightarrow> string" where
  "dims_text label w h = label @ itoa_nat (unat w) @ ''x'' @ itoa_nat (unat h)"

text \<open>\<open>uint64(v)\<close> of a Go integer wraps; \<open>None\<close> is Go's nil error.\<close>

definition validate :: "image_header \<Rightarrow> kind \<Rightarrow> limits \<Rightarrow> media_error option" where
  "validate h k l =
    (let edge = (word_of_int (MaxInputEdge l) :: u64); budget = (word_of_int (MaxInputPixels l) :: u64) in
     if img_width h = 0 \<or> img_height h = 0 \<or> frameCount h < 1 \<or> durationMS h < 0
     then Some (decodeFailedError k MalformedImage)
     else if img_width h > edge \<or> img_height h > edge
     then Some (dimensionsExceededError k (TextCause (dims_text ''dimensions='' (img_width h) (img_height h))))
     else
       let fw = (if frameWidth h = 0 then img_width h else frameWidth h);
           fh = (if frameHeight h = 0 then img_height h else frameHeight h)
       in if fw > edge \<or> fh > edge
       then Some (dimensionsExceededError k (TextCause (dims_text ''frame dimensions='' fw fh)))
       else let (pixels, ok) = checkedMul (img_width h) (img_height h) in
       if \<not> ok \<or> pixels > budget then Some (dimensionsExceededError k PixelBudgetExceeded)
       else let (totalPixels, ok2) = checkedMul pixels (word_of_nat (frameCount h)) in
       if \<not> ok2 \<or> totalPixels > budget then Some (dimensionsExceededError k PixelBudgetExceeded)
       else if totalFramePixels h > budget then Some (dimensionsExceededError k PixelBudgetExceeded)
       else if int (frameCount h) > MaxFrames l \<or> durationMS h > MaxDurationMS l
       then Some (animationTooComplexError k (TextCause ''animation limits exceeded''))
       else None)"

end
