(* ===== verification/Media_Safety.thy ===== *)
theory Media_Safety
  imports Media_Inspect
begin

text \<open>
  What the header inspection guarantees for every input: it never indexes out of range, it
  returns only sensible headers, the BMP pixel area lies inside the input, and a header the
  budget check accepts is within the budget as natural numbers, whatever wraps.
\<close>

unbundle bit_operations_syntax

section \<open>Words and checked multiplication\<close>

lemma u64_of_nat: "n < 2 ^ 64 \<Longrightarrow> unat (word_of_nat n :: u64) = n"
  by (simp add: unsigned_of_nat take_bit_nat_eq_self)

lemma u64_of_nat_nonzero: "0 < n \<Longrightarrow> n < 2 ^ 64 \<Longrightarrow> (word_of_nat n :: u64) \<noteq> 0"
  using u64_of_nat [of n] by auto

lemma u64_of_int: "0 \<le> i \<Longrightarrow> i < 2 ^ 64 \<Longrightarrow> unat (word_of_int i :: u64) = nat i"
  by (simp add: unsigned_of_int take_bit_int_eq_self)

lemma unat_maxU64: "unat maxU64 = 2 ^ 64 - 1"
  by (simp add: maxU64_def unsigned_minus_1_eq_mask mask_eq_exp_minus_1)

lemma unat_u64_less: "unat (w :: u64) < 2 ^ 64"
  using unsigned_less [of w] by simp

lemma checkedMul_ok_iff: "snd (checkedMul l r) \<longleftrightarrow> unat l * unat r < 2 ^ 64"
proof (cases "l = 0")
  case True
  then show ?thesis by (simp add: checkedMul_def)
next
  case False
  then have pos: "0 < unat l" by (simp add: unat_gt_0)
  have "r \<le> maxU64 div l \<longleftrightarrow> unat r \<le> (2 ^ 64 - 1) div unat l"
    by (simp add: word_le_nat_alt unat_div unat_maxU64)
  also have "\<dots> \<longleftrightarrow> unat r * unat l \<le> 2 ^ 64 - 1"
    by (rule less_eq_div_iff_mult_less_eq [OF pos])
  finally show ?thesis
    using False by (auto simp: checkedMul_def mult.commute not_less)
qed

lemma checkedMul_value: "snd (checkedMul l r) \<Longrightarrow> unat (fst (checkedMul l r)) = unat l * unat r"
proof -
  assume ok: "snd (checkedMul l r)"
  then have "unat l * unat r < 2 ^ 64" by (simp only: checkedMul_ok_iff)
  moreover have "fst (checkedMul l r) = l * r" using ok by (auto simp: checkedMul_def split: if_splits)
  ultimately show ?thesis by (simp add: unat_word_ariths)
qed

section \<open>The scanners\<close>

text \<open>The pixel rows a BMP header announces: where they start, how long each is.\<close>

definition bmp_area_ok :: "bytes \<Rightarrow> image_header \<Rightarrow> bool" where
  "bmp_area_ok input h \<longleftrightarrow>
    (case bmp h of
       None \<Rightarrow> False
     | Some b \<Rightarrow>
         bmp_width b = unat (img_width h) \<and> bmp_height b = unat (img_height h)
         \<and> (bytesPerPixel b = 3 \<or> bytesPerPixel b = 4)
         \<and> bmp_width b * bytesPerPixel b \<le> unat (rowStride b) \<and> unat (rowStride b) mod 4 = 0
         \<and> 54 \<le> unat (pixelOffset b)
         \<and> unat (pixelOffset b) + unat (rowStride b) * bmp_height b \<le> length input)"

text \<open>What every returned header satisfies.\<close>

definition header_ok :: "bytes \<Rightarrow> image_header \<Rightarrow> bool" where
  "header_ok input h \<longleftrightarrow>
     img_width h \<noteq> 0 \<and> img_height h \<noteq> 0 \<and> img_width h \<le> frameWidth h \<and> img_height h \<le> frameHeight h
     \<and> 1 \<le> frameCount h \<and> frameCount h \<le> length input \<and> 0 \<le> durationMS h \<and> durationMS h \<le> MaxInt64
     \<and> (img_format h = ''bmp'' \<longrightarrow> bmp_area_ok input h)"

lemma jpeg_step_safe: "off < length input \<Longrightarrow> go_safe (jpeg_step input off)"
  by (auto simp: jpeg_step_def Let_def go_safe_bind)

lemma be16_nonzero: "be_at 2 xs i = Some n \<Longrightarrow> n \<noteq> 0 \<Longrightarrow> (word_of_nat n :: u64) \<noteq> 0"
  using be_at_bound [of 2 xs i n] u64_of_nat_nonzero [of n] by simp

lemma jpeg_step_post:
  "jpeg_step input off = Some (Inr (Inr r)) \<Longrightarrow> fst r \<noteq> 0 \<and> snd r \<noteq> 0"
  unfolding jpeg_step_def Let_def
  by (clarsimp simp: bind_eq_Some_conv be16_nonzero split: if_split_asm)

interpretation jpeg: scanner "\<lambda>off. off < length input" "jpeg_step input" "\<lambda>_. malformed"
  "jpeg_loop input" "\<lambda>off. length input - off" "\<lambda>_. True" "\<lambda>wh. fst wh \<noteq> 0 \<and> snd wh \<noteq> 0"
  for input
proof unfold_locales
  fix off off' assume "off < length input" "jpeg_step input off = Some (Inr (Inl off'))"
  then show "length input - off' < length input - off"
    using jpeg_step_progress by fastforce
next
  fix off r assume "jpeg_step input off = Some (Inr (Inr r))"
  then show "fst r \<noteq> 0 \<and> snd r \<noteq> 0" by (rule jpeg_step_post)
qed (auto simp: jpeg_step_safe jpeg_loop.simps [of input] split: option.splits sum.splits)

lemma inspectJPEG_safe: "go_safe (inspectJPEG input)"
  using jpeg.loop_safe [of input 2] by (auto simp: inspectJPEG_def go_safe_bind)

lemma inspectJPEG_post: "inspectJPEG input = Some (Inr (w, h)) \<Longrightarrow> w \<noteq> 0 \<and> h \<noteq> 0 \<and> 4 \<le> length input"
  using jpeg.loop_post [of input 2 "(w, h)"]
  by (auto simp: inspectJPEG_def bind_eq_Some_conv split: if_splits)

lemma inspectPNG_safe: "go_safe (inspectPNG input)"
  by (auto simp: inspectPNG_def go_safe_bind)

lemma inspectPNG_post:
  assumes "inspectPNG input = Some (Inr (w, h))"
  shows "w \<noteq> 0 \<and> h \<noteq> 0 \<and> unat w < 2 ^ 32 \<and> unat h < 2 ^ 32 \<and> 33 \<le> length input"
proof -
  obtain a b where ab: "be_at 4 input 16 = Some a" "be_at 4 input 20 = Some b" "a \<noteq> 0" "b \<noteq> 0"
    and wh: "w = word_of_nat a" "h = word_of_nat b" and len: "33 \<le> length input"
    using assms by (auto simp: inspectPNG_def malformed_def bind_eq_Some_conv split: if_splits)
  then have "0 < a" "a < 2 ^ 32" "0 < b" "b < 2 ^ 32"
    by (auto dest!: be_at_bound)
  then show ?thesis using wh u64_of_nat_nonzero u64_of_nat len by fastforce
qed

lemma skipGIFSubBlocks_safe: "go_safe (skipGIFSubBlocks input off)"
proof (induction input off rule: skipGIFSubBlocks.induct)
  case (1 input off)
  then show ?case by (subst skipGIFSubBlocks.simps) (auto simp: Let_def)
qed

lemma skipGIFSubBlocks_le: "skipGIFSubBlocks input off = Some (Inr off') \<Longrightarrow> off' \<le> length input"
proof (induction input off rule: skipGIFSubBlocks.induct)
  case (1 input off)
  then show ?case
    by (subst (asm) (2) skipGIFSubBlocks.simps) (auto simp: Let_def split: if_splits)
qed

lemma gif_extension_safe: "go_safe (gif_extension input st)"
  by (auto simp: gif_extension_def Let_def go_safe_bind go_safe_case skipGIFSubBlocks_safe)

lemma gif_image_safe: "go_safe (gif_image input st)"
  by (auto simp: gif_image_def Let_def go_safe_bind go_safe_case skipGIFSubBlocks_safe)

lemma gif_step_safe: "g_offset st < length input \<Longrightarrow> go_safe (gif_step input w h st)"
  by (auto simp: gif_step_def Let_def go_safe_bind gif_extension_safe gif_image_safe)

text \<open>The state between two blocks.\<close>

definition gif_good :: "bytes \<Rightarrow> u64 \<Rightarrow> u64 \<Rightarrow> gif_state \<Rightarrow> bool" where
  "gif_good input w h st \<longleftrightarrow>
     w \<le> g_maxW st \<and> h \<le> g_maxH st \<and> g_frames st < g_offset st \<and> g_offset st \<le> length input
     \<and> 0 \<le> g_duration st \<and> g_duration st \<le> MaxInt64 \<and> 0 \<le> g_pending st"


lemma gif_good_grow:
  assumes "gif_good input w h st" and "g_offset st < off" and "off \<le> length input"
  shows "gif_good input w h (st\<lparr>g_offset := off\<rparr>)"
  using assms by (simp add: gif_good_def)

lemma add_duration_bounds:
  "0 \<le> d \<Longrightarrow> d \<le> MaxInt64 \<Longrightarrow> 0 \<le> p \<Longrightarrow> 0 \<le> add_duration d p \<and> add_duration d p \<le> MaxInt64"
  by (auto simp: add_duration_def MaxInt64_def)

lemma gif_extension_good:
  assumes "gif_extension input st = Some (Inr (Inl st'))" and "gif_good input w h st"
  shows "gif_good input w h st'"
  using assms unfolding gif_extension_def Let_def
  apply (clarsimp simp: bind_eq_Some_conv split: if_split_asm)
   apply (simp add: gif_good_def)
  apply (clarsimp split: option.split_asm sum.split_asm)
  apply (frule skipGIFSubBlocks_ge, drule skipGIFSubBlocks_le)
  apply (erule gif_good_grow; simp)
  done

lemma gif_add_frame_good:
  assumes "gif_good input w h st" and "g_offset st < off" and "off \<le> length input"
  shows "gif_good input w h (gif_add_frame st off fw fh)"
  using assms add_duration_bounds by (auto simp: gif_good_def gif_add_frame_def)

lemma gif_image_good:
  assumes "gif_image input st = Some (Inr (Inl st'))" and "gif_good input w h st"
  shows "gif_good input w h st'"
  using assms unfolding gif_image_def Let_def
  apply (clarsimp simp: bind_eq_Some_conv split: if_split_asm option.split_asm sum.split_asm)
   apply (frule skipGIFSubBlocks_ge, drule skipGIFSubBlocks_le, erule gif_add_frame_good; simp)+
  done

lemma gif_step_good:
  assumes "gif_step input w h st = Some (Inr (Inl st'))" and "gif_good input w h st"
    and "g_offset st < length input"
  shows "gif_good input w h st'"
proof -
  have good1: "gif_good input w h (st\<lparr>g_offset := g_offset st + 1\<rparr>)"
    using assms(2,3) by (simp add: gif_good_grow)
  show ?thesis
    using assms(1,3) gif_extension_good [OF _ good1] gif_image_good [OF _ good1]
    by (simp add: gif_step_def Let_def split: if_split_asm)
qed

lemma gif_step_post:
  assumes "gif_step input w h st = Some (Inr (Inr r))" and "gif_good input w h st"
    and "g_offset st < length input" and "w \<noteq> 0" and "h \<noteq> 0"
  shows "header_ok input r"
proof -
  have no_ext: "gif_extension input s \<noteq> Some (Inr (Inr r))" for s
    by (auto simp: gif_extension_def Let_def bind_eq_Some_conv split: if_splits option.splits sum.splits)
  have no_img: "gif_image input s \<noteq> Some (Inr (Inr r))" for s
    by (auto simp: gif_image_def Let_def bind_eq_Some_conv split: if_splits option.splits sum.splits)
  show ?thesis
    using assms by (auto simp: gif_step_def Let_def no_ext no_img gif_good_def header_ok_def split: if_splits)
qed

interpretation gif: scanner "\<lambda>st. g_offset st < length input" "gif_step input w h" "\<lambda>_. malformed"
  "gif_loop input w h" "\<lambda>st. length input - g_offset st"
  "\<lambda>st. gif_good input w h st \<and> w \<noteq> 0 \<and> h \<noteq> 0" "header_ok input"
  for input w h
proof unfold_locales
  fix st st' assume "g_offset st < length input" "gif_step input w h st = Some (Inr (Inl st'))"
  then show "length input - g_offset st' < length input - g_offset st"
    using gif_step_progress by fastforce
next
  fix st st' assume "gif_good input w h st \<and> w \<noteq> 0 \<and> h \<noteq> 0" "g_offset st < length input"
    "gif_step input w h st = Some (Inr (Inl st'))"
  then show "gif_good input w h st' \<and> w \<noteq> 0 \<and> h \<noteq> 0" using gif_step_good by blast
next
  fix st r assume "gif_good input w h st \<and> w \<noteq> 0 \<and> h \<noteq> 0" "g_offset st < length input"
    "gif_step input w h st = Some (Inr (Inr r))"
  then show "header_ok input r" using gif_step_post by blast
qed (auto simp: gif_step_safe gif_loop.simps [of input w h] split: option.splits sum.splits)

lemma le16_nonzero: "le_at 2 xs i = Some n \<Longrightarrow> n \<noteq> 0 \<Longrightarrow> (word_of_nat n :: u64) \<noteq> 0"
  using le_at_bound [of 2 xs i n] u64_of_nat_nonzero [of n] by simp

lemma inspectGIF_runs:
  assumes "13 \<le> length input" and "le_at 2 input 6 = Some w" "w \<noteq> 0" "le_at 2 input 8 = Some h" "h \<noteq> 0"
    and "off \<le> length input" "13 \<le> off"
  shows "gif_good input (word_of_nat w) (word_of_nat h)
      \<lparr>g_offset = off, g_frames = 0, g_maxW = word_of_nat w, g_maxH = word_of_nat h,
       g_duration = 0, g_total = 0, g_pending = 0\<rparr>
    \<and> (word_of_nat w :: u64) \<noteq> 0 \<and> (word_of_nat h :: u64) \<noteq> 0"
  using assms le16_nonzero by (auto simp: gif_good_def MaxInt64_def)

lemma inspectGIF_safe: "go_safe (inspectGIF input)"
  unfolding inspectGIF_def Let_def
  apply (simp add: go_safe_bind)
  apply (intro conjI impI allI)
   apply (rule gif.loop_safe, rule inspectGIF_runs; auto)+
  done

lemma inspectGIF_post: "inspectGIF input = Some (Inr r) \<Longrightarrow> header_ok input r"
  unfolding inspectGIF_def Let_def
  by (clarsimp simp: bind_eq_Some_conv split: if_split_asm; erule gif.loop_post [rotated]; rule inspectGIF_runs; simp)


subsection \<open>WebP\<close>

definition webp_inv :: "webp_state \<Rightarrow> bool" where
  "webp_inv st \<longleftrightarrow> w_width st \<le> w_maxW st \<and> w_height st \<le> w_maxH st
     \<and> 0 \<le> w_duration st \<and> w_duration st \<le> MaxInt64"

definition webp_good :: "bytes \<Rightarrow> nat \<Rightarrow> webp_state \<Rightarrow> bool" where
  "webp_good input stop st \<longleftrightarrow>
     webp_inv st \<and> w_frames st \<le> w_offset st \<and> w_offset st \<le> stop \<and> stop \<le> length input"

lemma u24_safe [simp]: "go_safe (u24 p i) \<longleftrightarrow> i + 3 \<le> length p"
  by (simp add: u24_def)

lemma inspectVP8_safe [simp]: "go_safe (inspectVP8 p)"
  by (auto simp: inspectVP8_def go_safe_bind)

lemma inspectVP8L_safe [simp]: "go_safe (inspectVP8L p)"
  by (auto simp: inspectVP8L_def go_safe_bind Let_def)

lemma webp_chunk_safe: "go_safe (webp_chunk t p st)"
  unfolding webp_chunk_def
  by (simp only: split: if_split) (auto simp: go_safe_bind)

lemma webp_add_frame_inv: "webp_inv st \<Longrightarrow> 0 \<le> d \<Longrightarrow> webp_inv (webp_add_frame st w h d)"
  using add_duration_bounds by (auto simp: webp_inv_def webp_add_frame_def)

lemma webp_chunk_inv:
  "webp_chunk t p st = Some (Inr st') \<Longrightarrow> webp_inv st \<Longrightarrow> webp_inv st' \<and> w_frames st' \<le> Suc (w_frames st)"
  unfolding webp_chunk_def Let_def
  by (clarsimp simp: bind_eq_Some_conv webp_add_frame_inv split: if_split_asm)
    (auto simp: webp_inv_def webp_set_canvas_def webp_add_frame_def)

lemma webp_step_safe: "webp_good input stop st \<Longrightarrow> go_safe (webp_step input stop st)"
  by (auto simp: webp_step_def webp_good_def Let_def go_safe_bind go_safe_case webp_chunk_safe)

lemma webp_step_next:
  "webp_step input stop st = Some (Inr (Inl st')) \<Longrightarrow>
     \<exists>t p st1 off. webp_chunk t p st = Some (Inr st1) \<and> st' = st1\<lparr>w_offset := off\<rparr>
       \<and> w_offset st < off \<and> off \<le> stop"
  unfolding webp_step_def Let_def
  apply (clarsimp simp: bind_eq_Some_conv split: if_split_asm)
  apply (clarsimp split: option.split_asm sum.split_asm if_split_asm;
      intro exI conjI, assumption, rule refl, simp, simp)
  done

lemma webp_step_good:
  assumes "webp_step input stop st = Some (Inr (Inl st'))" and "webp_good input stop st"
  shows "webp_good input stop st'"
proof -
  from webp_step_next [OF assms(1)] obtain t p st1 off where off: "w_offset st < off" "off \<le> stop"
    and st': "st' = st1\<lparr>w_offset := off\<rparr>" and chunk: "webp_chunk t p st = Some (Inr st1)"
    by blast
  have "webp_inv st1 \<and> w_frames st1 \<le> Suc (w_frames st)"
    using webp_chunk_inv [OF chunk] assms(2) by (simp add: webp_good_def)
  then show ?thesis
    using assms(2) off by (simp add: webp_good_def st' webp_inv_def)
qed

lemma webp_finish_post:
  "webp_finish stop st = Some (Inr r) \<Longrightarrow> webp_good input stop st \<Longrightarrow> 1 \<le> stop \<Longrightarrow> header_ok input r"
  by (auto simp: webp_finish_def webp_good_def webp_inv_def header_ok_def MaxInt64_def split: if_splits)

interpretation webp: scanner "\<lambda>st. w_offset st < stop" "webp_step input stop" "webp_finish stop"
  "webp_loop input stop" "\<lambda>st. stop - w_offset st"
  "\<lambda>st. webp_good input stop st \<and> 1 \<le> stop" "header_ok input"
  for input stop
proof unfold_locales
  fix st st' assume "w_offset st < stop" "webp_step input stop st = Some (Inr (Inl st'))"
  then show "stop - w_offset st' < stop - w_offset st"
    using webp_step_progress by fastforce
next
  fix st st' assume "webp_good input stop st \<and> 1 \<le> stop" "w_offset st < stop"
    "webp_step input stop st = Some (Inr (Inl st'))"
  then show "webp_good input stop st' \<and> 1 \<le> stop" using webp_step_good by blast
next
  fix st r assume "webp_step input stop st = Some (Inr (Inr r))"
  then show "header_ok input r"
    unfolding webp_step_def Let_def
    by (clarsimp simp: bind_eq_Some_conv split: if_split_asm)
      (clarsimp split: option.split_asm sum.split_asm if_split_asm)
next
  fix st r assume "webp_good input stop st \<and> 1 \<le> stop" "webp_finish stop st = Some (Inr r)"
  then show "header_ok input r" using webp_finish_post by blast
qed (auto simp: webp_step_safe webp_finish_def webp_loop.simps [of input stop] split: option.splits sum.splits)

lemma inspectWebP_safe: "go_safe (inspectWebP input)"
  unfolding inspectWebP_def
  by (simp add: go_safe_bind)
    (auto intro!: webp.loop_safe simp: webp_good_def webp_inv_def MaxInt64_def)

lemma inspectWebP_post: "inspectWebP input = Some (Inr r) \<Longrightarrow> header_ok input r"
  unfolding inspectWebP_def
  by (clarsimp simp: bind_eq_Some_conv split: if_split_asm)
    (erule webp.loop_post [rotated], simp add: webp_good_def webp_inv_def MaxInt64_def)

subsection \<open>BMP\<close>

lemma int32_of_bounds: "- (2 ^ 31) \<le> int32_of n \<and> int32_of n < 2 ^ 31"
  using sint_greater_eq [of "word_of_nat n :: 32 word"] sint_less [of "word_of_nat n :: 32 word"]
  by (simp add: int32_of_def)

lemma inspectBMP_safe: "go_safe (inspectBMP input)"
  unfolding inspectBMP_def bmp_layout_def Let_def by (simp add: go_safe_bind split_beta)

lemma checkedMul_exact: "checkedMul l r = (p, True) \<Longrightarrow> unat p = unat l * unat r"
  using checkedMul_value [of l r] by simp

lemma bmp_stride:
  assumes "checkedMul ((w * b + 3) div 4) 4 = (stride, True)" and "unat w * unat b < 2 ^ 63"
  shows "unat w * unat b \<le> unat stride \<and> unat stride mod 4 = 0"
proof -
  have "unat (w * b + 3) = unat w * unat b + 3"
    using assms(2) by (simp add: unat_word_ariths)
  then have "unat stride = (unat w * unat b + 3) div 4 * 4"
    using checkedMul_exact [OF assms(1)] by (simp add: unat_div)
  then show ?thesis by simp
qed

lemma bmp_layout_post:
  assumes run: "bmp_layout input dib ws hs bits = Some (Inr r)"
    and ws: "0 < ws" "ws < 2 ^ 31" and hs: "hs \<noteq> 0" "- (2 ^ 31) \<le> hs" "hs < 2 ^ 31"
    and bits: "bits = 24 \<or> bits = 32" and dib: "40 \<le> dib" "dib < 2 ^ 32"
    and len: "54 \<le> length input" "length input < 2 ^ 63"
  shows "header_ok input r \<and> bmp_area_ok input r"
proof -
  define w h bpp where "w = (word_of_int ws :: u64)" and "h = (word_of_int \<bar>hs\<bar> :: u64)"
    and "bpp = (word_of_nat (bits div 8) :: u64)"
  have uw: "unat w = nat ws" and uh: "unat h = nat \<bar>hs\<bar>"
    unfolding w_def h_def using ws hs by (auto intro!: u64_of_int)
  have ub: "unat bpp = 3 \<or> unat bpp = 4" unfolding bpp_def using bits by auto
  have h_alt: "(if hs < 0 then word_of_int (- hs) else word_of_int hs) = h"
    by (simp add: h_def abs_if)
  obtain stride ok where c1: "checkedMul ((w * bpp + 3) div 4) 4 = (stride, ok)" by fastforce
  obtain dataSize ok2 where c2: "checkedMul stride h = (dataSize, ok2)" by fastforce
  from run obtain po where
    cm: "checkedMul ((w * bpp + 3) div 4) 4 = (stride, True)" "checkedMul stride h = (dataSize, True)"
    and po: "le_at 4 input 10 = Some po"
    and lo: "14 + (word_of_nat dib :: u64) \<le> word_of_nat po"
    and hi: "(word_of_nat po :: u64) \<le> word_of_nat (length input)"
      "dataSize \<le> word_of_nat (length input) - word_of_nat po"
    and r: "r = \<lparr>img_format = ''bmp'', img_width = w, img_height = h, frameWidth = w, frameHeight = h,
      frameCount = 1, durationMS = 0, totalFramePixels = w * h,
      bmp = Some \<lparr>bmp_width = unat w, bmp_height = unat h, topDown = hs < 0,
        pixelOffset = word_of_nat po, rowStride = stride, bytesPerPixel = unat bpp\<rparr>\<rparr>"
    unfolding bmp_layout_def Let_def h_alt bpp_def [symmetric] w_def [symmetric]
    by (clarsimp simp: c1 c2 bind_eq_Some_conv not_less not_le split: if_split_asm) (auto dest: leD)
  have upo: "unat (word_of_nat po :: u64) = po" using le_at_bound [OF po] by (simp add: u64_of_nat)
  have ulen: "unat (word_of_nat (length input) :: u64) = length input" using len by (simp add: u64_of_nat)
  have "unat w * unat bpp < 2 ^ 63" using uw ub ws by auto
  with bmp_stride [OF cm(1)] have stride: "unat w * unat bpp \<le> unat stride \<and> unat stride mod 4 = 0"
    by blast
  have "unat (14 + (word_of_nat dib :: u64)) = 14 + dib"
    using dib by (simp add: unat_word_ariths u64_of_nat)
  with lo upo dib have po54: "54 \<le> po" by (simp add: word_le_nat_alt)
  have polen: "po \<le> length input" using hi(1) upo ulen by (simp add: word_le_nat_alt)
  have "unat dataSize \<le> length input - po"
    using hi ulen upo by (simp add: word_le_nat_alt unat_sub)
  with checkedMul_exact [OF cm(2)] polen have "po + unat stride * unat h \<le> length input" by simp
  with po54 upo stride ub have "bmp_area_ok input r" by (simp add: bmp_area_ok_def r)
  moreover have "header_ok input r"
    using uw uh ws hs len calculation by (auto simp: header_ok_def r MaxInt64_def)
  ultimately show ?thesis by simp
qed

lemma inspectBMP_post:
  assumes "inspectBMP input = Some (Inr r)" and "length input < 2 ^ 63"
  shows "header_ok input r \<and> bmp_area_ok input r"
proof -
  from assms obtain dib w h bits where "bmp_layout input dib (int32_of w) (int32_of h) bits = Some (Inr r)"
    "0 < int32_of w" "int32_of h \<noteq> 0" "bits = 24 \<or> bits = 32" "40 \<le> dib"
    and dib: "le_at 4 input 14 = Some dib" and "54 \<le> length input"
    unfolding inspectBMP_def Let_def
    by (clarsimp simp: bind_eq_Some_conv not_less not_le split: if_split_asm) blast
  moreover have "dib < 2 ^ 32" using le_at_bound [OF dib] by simp
  ultimately show ?thesis
    using assms(2) int32_of_bounds by (intro bmp_layout_post) auto
qed
lemma inspectImage_safe: "go_safe (inspectImage input)"
  unfolding inspectImage_def
  using inspectJPEG_safe inspectPNG_safe inspectGIF_safe inspectWebP_safe inspectBMP_safe
  by (auto simp: go_safe_case split: prod.splits)

lemma static_header_ok:
  "w \<noteq> 0 \<Longrightarrow> h \<noteq> 0 \<Longrightarrow> 1 \<le> length input \<Longrightarrow> f \<noteq> ''bmp'' \<Longrightarrow> header_ok input (staticImageHeader f w h)"
  by (simp add: header_ok_def staticImageHeader_def MaxInt64_def)

lemma inspectImage_post:
  assumes "inspectImage input = Some (Inr h)" and "length input < 2 ^ 63"
  shows "header_ok input h"
  using assms unfolding inspectImage_def
  by (auto split: if_split_asm option.split_asm sum.split_asm
      dest!: inspectJPEG_post inspectPNG_post inspectGIF_post inspectWebP_post inspectBMP_post
      intro!: static_header_ok)

section \<open>Properties\<close>

text \<open>
  The budget over the integers: both edges and both frame edges are positive and at most the
  edge bound, width times height times frames is at most the pixel bound, and so is the sum
  of the frames' areas; the frame count and the duration are bounded. The fields of a policy
  are \<open>int\<close> and \<open>int64\<close> values.
\<close>

definition within_budget :: "image_header \<Rightarrow> limits \<Rightarrow> bool" where
  "within_budget h l \<longleftrightarrow> 0 < unat (img_width h) \<and> 0 < unat (img_height h) \<and> 1 \<le> frameCount h
    \<and> int (unat (img_width h)) \<le> MaxInputEdge l \<and> int (unat (img_height h)) \<le> MaxInputEdge l
    \<and> int (unat (frameWidth h)) \<le> MaxInputEdge l \<and> int (unat (frameHeight h)) \<le> MaxInputEdge l
    \<and> int (unat (img_width h) * unat (img_height h) * frameCount h) \<le> MaxInputPixels l
    \<and> int (unat (totalFramePixels h)) \<le> MaxInputPixels l
    \<and> int (frameCount h) \<le> MaxFrames l \<and> 0 \<le> durationMS h \<and> durationMS h \<le> MaxDurationMS l"

definition int64_limits :: "limits \<Rightarrow> bool" where
  "int64_limits l \<longleftrightarrow> MaxInputEdge l < 2 ^ 63 \<and> MaxInputPixels l < 2 ^ 63"

text \<open>A header the budget check accepts is within the budget: no 64-bit wrap hides a larger product.\<close>

theorem validate_budget:
  assumes ok: "validate h k l = None"
    and lim: "0 \<le> MaxInputEdge l" "MaxInputEdge l < 2 ^ 63" "0 \<le> MaxInputPixels l" "MaxInputPixels l < 2 ^ 63"
    and fc: "frameCount h < 2 ^ 63"
  shows "within_budget h l"
proof -
  have le: "w \<le> word_of_int b \<longleftrightarrow> int (unat w) \<le> b" if "0 \<le> b" "b < 2 ^ 63" for w :: u64 and b
    using that u64_of_int [of b] by (simp add: word_le_nat_alt nat_le_iff le_nat_iff)
  obtain pixels p1 where c1: "checkedMul (img_width h) (img_height h) = (pixels, p1)" by fastforce
  obtain tot p2 where c2: "checkedMul pixels (word_of_nat (frameCount h)) = (tot, p2)" by fastforce
  have uf: "unat (word_of_nat (frameCount h) :: u64) = frameCount h" using fc by (simp add: u64_of_nat)
  have facts: "p1" "p2" "img_width h \<noteq> 0" "img_height h \<noteq> 0" "1 \<le> frameCount h" "0 \<le> durationMS h"
    "img_width h \<le> word_of_int (MaxInputEdge l)" "img_height h \<le> word_of_int (MaxInputEdge l)"
    "frameWidth h \<le> word_of_int (MaxInputEdge l)" "frameHeight h \<le> word_of_int (MaxInputEdge l)"
    "tot \<le> word_of_int (MaxInputPixels l)" "totalFramePixels h \<le> word_of_int (MaxInputPixels l)"
    "int (frameCount h) \<le> MaxFrames l" "durationMS h \<le> MaxDurationMS l"
    using ok unfolding validate_def Let_def c1 c2 prod.case
    by (simp_all add: c2 not_less not_le split: if_split_asm)
  have "unat tot = unat (img_width h) * unat (img_height h) * frameCount h"
    using checkedMul_exact [of "img_width h" "img_height h" pixels] checkedMul_exact [of pixels _ tot] c1 c2 facts(1,2) uf
    by simp
  then show ?thesis
    using facts lim by (simp add: within_budget_def le unat_gt_0 del: of_nat_mult)
qed

lemma validate_within_budget:
  assumes "validate h k l = None" "limits_ok l" "int64_limits l" "header_ok input h" "length input < 2 ^ 63"
  shows "within_budget h l"
  by (rule validate_budget [OF assms(1)])
    (use assms in \<open>auto simp: limits_ok_def int64_limits_def header_ok_def intro: le_less_trans\<close>)


definition bmp_1x1 :: bytes where
  "bmp_1x1 = [0x42, 0x4d, 58, 0, 0, 0, 0, 0, 0, 0, 54, 0, 0, 0, 40, 0, 0, 0, 1, 0, 0, 0, 1, 0, 0, 0, 1, 0, 24, 0,
     0, 0, 0, 0, 0, 0, 0, 0, 0, 0, 0, 0, 0, 0, 0, 0, 0, 0, 0, 0, 0, 0, 0, 0, 1, 2, 3, 0]"

theorem validate_budget_witness:
  "within_budget (staticImageHeader ''png'' 640 480) defaultAvatarLimits"
  by (rule validate_budget [where k = KindAvatar])
    (simp_all add: validate_def staticImageHeader_def checkedMul_def maxU64_def defaultAvatarLimits_def zeroLimits_def)

text \<open>
  C40 (inspect.go:122-430, inspectImage and its five format parsers). For every byte sequence
  the inspection returns: it never slices or indexes out of range and every scanning loop
  ends. A header it returns has non-zero dimensions, frame dimensions at least as large as
  the canvas, between one frame and one frame per input byte, and a duration that did not
  overflow; for a BMP the announced pixel rows lie entirely inside the input, so the row
  decoder that follows reads no byte outside it.
\<close>

theorem inspectImage_total:
  assumes "length input < 2 ^ 63"
  shows "case inspectImage input of
      None \<Rightarrow> False
    | Some (Inl e) \<Rightarrow> True
    | Some (Inr h) \<Rightarrow> header_ok input h"
  using assms inspectImage_safe [of input] inspectImage_post [of input]
  by (auto simp: go_safe_def split: option.splits sum.splits)

theorem inspectImage_total_witness:
  "\<exists>h. inspectImage bmp_1x1 = Some (Inr h) \<and> header_ok bmp_1x1 h"
proof -
  have "is_ok (the (inspectImage bmp_1x1))"
    by code_simp
  moreover have "length bmp_1x1 < 2 ^ 63"
    by (simp add: bmp_1x1_def)
  ultimately show ?thesis
    using inspectImage_total [of bmp_1x1] by (auto simp: is_ok_def split: option.splits sum.splits)
qed

text \<open>
  A WebP whose only animation frame is 20000 pixels wide and stands before the \<open>VP8X\<close> chunk
  that announces a canvas of one pixel.
\<close>

definition late_canvas :: bytes where
  "late_canvas = ascii_bytes ''RIFF'' @ [46, 0, 0, 0] @ ascii_bytes ''WEBPANMF'' @ [16, 0, 0, 0]
     @ [0, 0, 0, 0, 0, 0, 0x1f, 0x4e, 0, 0, 0, 0, 10, 0, 0, 0]
     @ ascii_bytes ''VP8X'' @ [10, 0, 0, 0] @ [2, 0, 0, 0, 0, 0, 0, 0, 0, 0]"

text \<open>
  The edge check of \<open>validate\<close> does not see that frame: the canvas chunk resets the largest
  frame dimensions (inspect.go:343), so the header is accepted under the avatar policy,
  whose edge bound is 8192.
\<close>

lemma late_canvas_accepted:
  "case inspectImage late_canvas of
     Some (Inr h) \<Rightarrow> totalFramePixels h = 20000 \<and> frameWidth h = 1
       \<and> validate h KindAvatar defaultAvatarLimits = None
   | _ \<Rightarrow> False"
  by code_simp

end
