(* ===== verification/Media_WebP.thy ===== *)
theory Media_WebP
  imports Media_Policy Go_Bytes "HOL-Library.Monad_Syntax"
begin

text \<open>
  webp_privacy.go: the RIFF container parser and the rebuild that drops every chunk that is
  not structural. The rebuild writes into a preallocated slice at running offsets; the
  theorems show that it never writes outside it, that what it writes is the concatenation
  of the encoded chunks, and that parsing the output gives back exactly the kept chunks.
\<close>

unbundle bit_operations_syntax

section \<open>The container\<close>

record webpContainerChunk =
  ck_kind :: bytes
  ck_payload :: bytes

definition webpMaxRIFFSize :: nat where
  "webpMaxRIFFSize = 2 ^ 32 - 1"

definition errWebPPrivacyContainer :: media_cause where
  "errWebPPrivacyContainer = TextCause ''normalized WebP container is malformed''"

type_synonym 'a webp = "(media_cause, 'a) go"

definition bad_container :: "'a webp" where
  "bad_container = Some (Inl errWebPPrivacyContainer)"

lemma bad_container_simps [simp]:
  "go_safe bad_container" "bad_container \<noteq> Some (Inr x)" "bad_container \<noteq> None"
  by (simp_all add: bad_container_def)

definition webpStructuralChunks :: "bytes list" where
  "webpStructuralChunks = map ascii_bytes [''VP8X'', ''VP8 '', ''VP8L'', ''ALPH'', ''ANIM'', ''ANMF'']"

definition structural :: "webpContainerChunk \<Rightarrow> bool" where
  "structural c \<longleftrightarrow> ck_kind c \<in> set webpStructuralChunks"

definition is_vp8x :: "webpContainerChunk \<Rightarrow> bool" where
  "is_vp8x c \<longleftrightarrow> ck_kind c = ascii_bytes ''VP8X''"

section \<open>parseWebPContainer\<close>

function parse_chunks :: "bytes \<Rightarrow> nat \<Rightarrow> webpContainerChunk list \<Rightarrow> webpContainerChunk list webp" where
  "parse_chunks input offset chunks =
    (if offset < length input then
       (if offset + 8 > length input then bad_container
        else do {
          kind \<leftarrow> gslice input offset (offset + 4);
          chunkSize \<leftarrow> le_at 4 input (offset + 4);
          if chunkSize > length input - (offset + 8) then bad_container
          else do {
            let payloadEnd = offset + 8 + chunkSize;
            payload \<leftarrow> gslice input (offset + 8) payloadEnd;
            let chunks' = chunks @ [\<lparr>ck_kind = kind, ck_payload = payload\<rparr>];
            if odd chunkSize then
              (if payloadEnd \<ge> length input then bad_container
               else parse_chunks input (payloadEnd + 1) chunks')
            else parse_chunks input payloadEnd chunks'
          }
        })
     else Some (Inr chunks))"
  by pat_completeness auto
termination
  by (relation "measure (\<lambda>(input, offset, _). length input - offset)") auto

declare parse_chunks.simps [simp del]

definition parseWebPContainer :: "bytes \<Rightarrow> webpContainerChunk list webp" where
  "parseWebPContainer input =
    (if length input < 12 then bad_container
     else do {
       riff \<leftarrow> gslice input 0 4;
       webp \<leftarrow> gslice input 8 12;
       if riff \<noteq> ascii_bytes ''RIFF'' \<or> webp \<noteq> ascii_bytes ''WEBP'' then bad_container
       else do {
         riffSize \<leftarrow> le_at 4 input 4;
         if riffSize < 4 \<or> riffSize > length input - 8 \<or> riffSize \<noteq> length input - 8 then bad_container
         else
           (case parse_chunks input 12 [] of
              None \<Rightarrow> None
            | Some (Inl e) \<Rightarrow> Some (Inl e)
            | Some (Inr chunks) \<Rightarrow> if length chunks = 0 then bad_container else Some (Inr chunks))
       }
     })"

section \<open>stripWebPMetadata\<close>

text \<open>The first loop: the size of the rebuilt container, every bound checked before it is added.\<close>

fun strip_size :: "webpContainerChunk list \<Rightarrow> nat \<Rightarrow> nat webp" where
  "strip_size [] outputSize = Some (Inr outputSize)"
| "strip_size (c # cs) outputSize =
    (if \<not> structural c then strip_size cs outputSize
     else do {
       vp8xOk \<leftarrow> (if is_vp8x c then
                   (if length (ck_payload c) \<noteq> 10 then Some False
                    else do {
                      b1 \<leftarrow> idx (ck_payload c) 1;
                      b2 \<leftarrow> idx (ck_payload c) 2;
                      b3 \<leftarrow> idx (ck_payload c) 3;
                      Some (b1 = 0 \<and> b2 = 0 \<and> b3 = 0)
                    })
                 else Some True);
       if \<not> vp8xOk then bad_container
       else if length (ck_payload c) > webpMaxRIFFSize then bad_container
       else
         let chunkSize = 8 + length (ck_payload c) + (if odd (length (ck_payload c)) then 1 else 0)
         in if chunkSize > webpMaxRIFFSize then bad_container
            else if outputSize > webpMaxRIFFSize - chunkSize then bad_container
            else strip_size cs (outputSize + chunkSize)
     })"

text \<open>One round of the second loop: the chunk header and payload written at the offset.\<close>

definition write_chunk :: "bytes \<Rightarrow> nat \<Rightarrow> webpContainerChunk \<Rightarrow> (bytes \<times> nat) option" where
  "write_chunk output offset c = do {
     out1 \<leftarrow> copy_at output offset (ck_kind c);
     out2 \<leftarrow> copy_at out1 (offset + 4) (put_le32 (word_of_nat (length (ck_payload c))));
     let off = offset + 8;
     out3 \<leftarrow> (if is_vp8x c then do {
                flags \<leftarrow> idx (ck_payload c) 0;
                o1 \<leftarrow> copy_at out2 off [flags AND (0x10 OR 0x02)];
                rest \<leftarrow> gslice (ck_payload c) 1 (length (ck_payload c));
                copy_at o1 (off + 1) rest
              } else copy_at out2 off (ck_payload c));
     let off' = off + length (ck_payload c);
     Some (out3, if odd (length (ck_payload c)) then off' + 1 else off')
   }"

fun write_chunks :: "bytes \<Rightarrow> nat \<Rightarrow> webpContainerChunk list \<Rightarrow> (bytes \<times> nat) option" where
  "write_chunks output offset [] = Some (output, offset)"
| "write_chunks output offset (c # cs) =
    (if \<not> structural c then write_chunks output offset cs
     else do {
       (output', offset') \<leftarrow> write_chunk output offset c;
       write_chunks output' offset' cs
     })"

definition stripWebPMetadata :: "bytes \<Rightarrow> bytes webp" where
  "stripWebPMetadata input =
    (case parseWebPContainer input of
       None \<Rightarrow> None
     | Some (Inl e) \<Rightarrow> Some (Inl e)
     | Some (Inr chunks) \<Rightarrow>
         (case strip_size chunks 12 of
            None \<Rightarrow> None
          | Some (Inl e) \<Rightarrow> Some (Inl e)
          | Some (Inr outputSize) \<Rightarrow>
              if outputSize < 12 + 8 \<or> int outputSize > MaxInt64 then bad_container
              else do {
                out1 \<leftarrow> copy_at (replicate outputSize 0) 0 (ascii_bytes ''RIFF'');
                out2 \<leftarrow> copy_at out1 4 (put_le32 (word_of_nat (outputSize - 8)));
                out3 \<leftarrow> copy_at out2 8 (ascii_bytes ''WEBP'');
                (output, offset) \<leftarrow> write_chunks out3 12 chunks;
                if offset \<noteq> length output then bad_container else Some (Inr output)
              }))"

section \<open>The reference: encoding by concatenation\<close>

definition enc_chunk :: "webpContainerChunk \<Rightarrow> bytes" where
  "enc_chunk c = ck_kind c @ put_le32 (word_of_nat (length (ck_payload c))) @ ck_payload c
     @ (if odd (length (ck_payload c)) then [0] else [])"

definition enc_chunks :: "webpContainerChunk list \<Rightarrow> bytes" where
  "enc_chunks cs = concat (map enc_chunk cs)"

definition enc_container :: "webpContainerChunk list \<Rightarrow> bytes" where
  "enc_container cs = ascii_bytes ''RIFF'' @ put_le32 (word_of_nat (4 + length (enc_chunks cs)))
     @ ascii_bytes ''WEBP'' @ enc_chunks cs"

text \<open>What the rebuild keeps of a chunk: of the \<open>VP8X\<close> flags only alpha and animation.\<close>

definition scrub :: "webpContainerChunk \<Rightarrow> webpContainerChunk" where
  "scrub c = (if is_vp8x c \<and> ck_payload c \<noteq> []
     then c\<lparr>ck_payload := (hd (ck_payload c) AND 0x12) # tl (ck_payload c)\<rparr> else c)"

definition kept :: "webpContainerChunk list \<Rightarrow> webpContainerChunk list" where
  "kept cs = map scrub (filter structural cs)"

section \<open>Encoding and parsing\<close>

lemma put_le32_length [simp]: "length (put_le32 w) = 4"
  by (simp add: put_le32_def)

lemma le_nat_put_le32: "le_nat (put_le32 w) = unat w"
proof -
  have digits: "n mod 256 + 256 * (n div 256 mod 256 + 256 * (n div 65536 mod 256 + 256 * (n div 16777216 mod 256))) = n"
    if "n < 2 ^ 32" for n :: nat
  proof -
    define a b c where "a = n div 256" and "b = a div 256" and "c = b div 256"
    have "n div 65536 = b" "n div 16777216 = c" "c mod 256 = c"
      using that by (simp_all add: a_def b_def c_def div_mult2_eq [symmetric])
    moreover have "b mod 256 + 256 * c = b" "a mod 256 + 256 * b = a" "n mod 256 + 256 * a = n"
      by (simp_all add: a_def b_def c_def)
    ultimately show ?thesis by (simp add: a_def [symmetric])
  qed
  have "le_nat (put_le32 w) = unat w mod 256 + 256 * (unat w div 256 mod 256 + 256 * (unat w div 65536 mod 256
      + 256 * (unat w div 16777216 mod 256)))"
    by (simp add: put_le32_def unsigned_ucast_eq unsigned_drop_bit_eq take_bit_eq_mod drop_bit_eq_div unat_div)
  also have "\<dots> = unat w"
    by (rule digits) (use unsigned_less [of w] in simp)
  finally show ?thesis .
qed

lemma le_at_take: "i + n \<le> length xs \<Longrightarrow> le_at n xs i = Some (le_nat (take n (drop i xs)))"
  by (simp add: le_at_def)

definition wf_chunk :: "webpContainerChunk \<Rightarrow> bool" where
  "wf_chunk c \<longleftrightarrow> length (ck_kind c) = 4 \<and> length (ck_payload c) \<le> webpMaxRIFFSize"

lemma wf_chunk_len: "wf_chunk c \<Longrightarrow> unat (word_of_nat (length (ck_payload c)) :: 32 word) = length (ck_payload c)"
  by (simp add: wf_chunk_def webpMaxRIFFSize_def unsigned_of_nat take_bit_nat_eq_self)

lemma enc_chunk_length:
  "length (ck_kind c) = 4 \<Longrightarrow>
   length (enc_chunk c) = 8 + length (ck_payload c) + (if odd (length (ck_payload c)) then 1 else 0)"
  by (simp add: enc_chunk_def)

lemma parse_chunks_enc:
  assumes "\<forall>c \<in> set cs. wf_chunk c" and "input = pre @ enc_chunks cs"
  shows "parse_chunks input (length pre) acc = Some (Inr (acc @ cs))"
  using assms
proof (induction cs arbitrary: pre acc)
  case Nil
  then show ?case by (subst parse_chunks.simps) (simp add: enc_chunks_def)
next
  case (Cons c cs)
  let ?p = "ck_payload c"
  have wf: "wf_chunk c" and k: "length (ck_kind c) = 4" using Cons.prems by (auto simp: wf_chunk_def)
  have inp: "input = (pre @ enc_chunk c) @ enc_chunks cs"
    using Cons.prems(2) by (simp add: enc_chunks_def)
  have len: "length input = length pre + length (enc_chunk c) + length (enc_chunks cs)"
    using inp by simp
  have tail: "parse_chunks input (length pre + length (enc_chunk c)) (acc @ [c]) = Some (Inr ((acc @ [c]) @ cs))"
    using Cons.IH [OF _ inp] Cons.prems(1) by simp
  have kind: "gslice input (length pre) (length pre + 4) = Some (ck_kind c)"
    using k by (simp add: gslice_def inp enc_chunk_def)
  have size: "le_at 4 input (length pre + 4) = Some (length ?p)"
    using k wf_chunk_len [OF wf] by (simp add: le_at_take inp enc_chunk_def le_nat_put_le32)
  have payload: "take (length ?p) (drop (length pre + 8) input) = ?p"
    using k by (simp add: inp enc_chunk_def)
  have c: "\<lparr>ck_kind = ck_kind c, ck_payload = ?p\<rparr> = c" by simp
  show ?case
    using tail k enc_chunk_length [OF k] len
    by (subst parse_chunks.simps) (auto simp: kind size payload c Let_def add.commute add.left_commute)
qed

lemma enc_container_parses:
  assumes "\<forall>c \<in> set cs. wf_chunk c" and "cs \<noteq> []" and "12 + length (enc_chunks cs) \<le> webpMaxRIFFSize"
  shows "parseWebPContainer (enc_container cs) = Some (Inr cs)"
proof -
  define hdr where "hdr = ascii_bytes ''RIFF'' @ put_le32 (word_of_nat (4 + length (enc_chunks cs)))
     @ ascii_bytes ''WEBP''"
  have h: "length hdr = 12" by (simp add: hdr_def ascii_bytes_def)
  have e: "enc_container cs = hdr @ enc_chunks cs" by (simp add: enc_container_def hdr_def)
  have "unat (word_of_nat m :: 32 word) = m" if "m \<le> webpMaxRIFFSize" for m
    using that by (simp add: webpMaxRIFFSize_def unsigned_of_nat take_bit_nat_eq_self)
  from this [of "4 + length (enc_chunks cs)"] assms(3)
  have "unat (word_of_nat (4 + length (enc_chunks cs)) :: 32 word) = 4 + length (enc_chunks cs)"
    by linarith
  then have sz: "le_at 4 (enc_container cs) 4 = Some (4 + length (enc_chunks cs))"
    by (simp add: le_at_take enc_container_def ascii_bytes_def le_nat_put_le32 del: of_nat_add)
  have sig: "gslice (enc_container cs) 0 4 = Some (ascii_bytes ''RIFF'')"
    "gslice (enc_container cs) 8 12 = Some (ascii_bytes ''WEBP'')"
    by (simp_all add: gslice_def enc_container_def ascii_bytes_def)
  show ?thesis
    using parse_chunks_enc [OF assms(1) e, of "[]"] assms(2)
    by (simp add: parseWebPContainer_def sig sz h) (simp add: e h)
qed

text \<open>What the chunk loop may return: well-formed chunks, or the container error.\<close>

definition parse_good :: "webpContainerChunk list webp \<Rightarrow> bool" where
  "parse_good r = (case r of
     None \<Rightarrow> False
   | Some (Inl e) \<Rightarrow> e = errWebPPrivacyContainer
   | Some (Inr cs) \<Rightarrow> \<forall>c \<in> set cs. wf_chunk c)"

lemma parse_good_simps [simp]:
  "parse_good bad_container" "parse_good (Some (Inr cs)) \<longleftrightarrow> (\<forall>c \<in> set cs. wf_chunk c)"
  by (simp_all add: parse_good_def bad_container_def)

lemma parse_chunks_good:
  assumes "\<forall>c \<in> set acc. wf_chunk c"
  shows "parse_good (parse_chunks input off acc)"
  using assms
proof (induction input off acc rule: parse_chunks.induct)
  case (1 input off acc)
  show ?case
  proof (cases "off + 8 \<le> length input")
    case False
    then show ?thesis using 1(3) by (subst parse_chunks.simps) auto
  next
    case True
    define n where "n = le_nat (take 4 (drop (off + 4) input))"
    have n: "le_at 4 input (off + 4) = Some n" using True by (simp add: le_at_take n_def)
    have n32: "n \<le> webpMaxRIFFSize" using le_at_bound [OF n] by (simp add: webpMaxRIFFSize_def)
    let ?c = "\<lparr>ck_kind = take 4 (drop off input), ck_payload = take n (drop (off + 8) input)\<rparr>"
    have wf: "\<forall>c \<in> set (acc @ [?c]). wf_chunk c"
      using 1(3) True n32 by (auto simp: wf_chunk_def)
    show ?thesis
    proof (cases "n \<le> length input - (off + 8)")
      case False
      then show ?thesis using True n by (subst parse_chunks.simps) simp
    next
      case le: True
      have k: "gslice input off (off + 4) = Some (take 4 (drop off input))"
        and p: "gslice input (off + 8) (off + 8 + n) = Some (take n (drop (off + 8) input))"
        using True le by (simp_all add: gslice_def)
      have ih: "parse_good (parse_chunks input off' (acc @ [?c]))"
        if "off' = (if odd n then off + 8 + n + 1 else off + 8 + n)" "odd n \<longrightarrow> off + 8 + n < length input" for off'
        using that 1(1) [OF _ _ k n _ refl p refl _ _ wf] 1(2) [OF _ _ k n _ refl p refl _ wf] True le
        by (cases "odd n") auto
      show ?thesis
        using True le n k p ih
        by (cases "odd n"; cases "off + 8 + n < length input"; subst parse_chunks.simps)
          (simp_all add: Let_def)
    qed
  qed
qed

lemma parseWebPContainer_good: "parse_good (parseWebPContainer input)"
  using parse_chunks_good [of "[]" input 12]
  by (cases "length input < 12"; simp add: parseWebPContainer_def le_at_take)
    (auto simp: parse_good_def bad_container_def split: option.splits sum.splits)

lemma parseWebPContainer_wf:
  "parseWebPContainer input = Some (Inr cs) \<Longrightarrow> (\<forall>c \<in> set cs. wf_chunk c) \<and> cs \<noteq> []"
  using parseWebPContainer_good [of input]
  by (auto simp: parseWebPContainer_def bind_eq_Some_conv split: if_split_asm option.split_asm sum.split_asm)

section \<open>The rebuild writes the encoding\<close>

lemma scrub_simps [simp]:
  "ck_kind (scrub c) = ck_kind c" "length (ck_payload (scrub c)) = length (ck_payload c)"
  "structural (scrub c) = structural c" "is_vp8x (scrub c) = is_vp8x c"
  by (simp_all add: scrub_def structural_def is_vp8x_def)

lemma scrub_scrub [simp]: "scrub (scrub c) = scrub c"
  by (simp add: scrub_def is_vp8x_def and.assoc)

lemma kept_simps [simp]:
  "kept [] = []" "kept (c # cs) = (if structural c then scrub c # kept cs else kept cs)"
  by (simp_all add: kept_def)

lemma kept_kept: "kept (kept cs) = kept cs"
  by (simp add: kept_def filter_map o_def) 

lemma kept_wf: "\<forall>c \<in> set cs. wf_chunk c \<Longrightarrow> \<forall>c \<in> set (kept cs). wf_chunk c"
  by (auto simp: kept_def wf_chunk_def)

lemma enc_chunks_simps [simp]: "enc_chunks [] = []" "enc_chunks (c # cs) = enc_chunk c @ enc_chunks cs"
  by (simp_all add: enc_chunks_def)

lemma copy_at_append:
  "length src \<le> n \<Longrightarrow> copy_at (pre @ replicate n 0) (length pre) src = Some (pre @ src @ replicate (n - length src) 0)"
  by (simp add: copy_at_def)

lemma copy_at_zeros:
  assumes "length pre = off" and "length src \<le> n"
  shows "copy_at (pre @ replicate n 0) off src = Some ((pre @ src) @ replicate (n - length src) 0)"
  using assms copy_at_append [of src n pre] by simp

definition vp8x_ok :: "webpContainerChunk \<Rightarrow> bool" where
  "vp8x_ok c \<longleftrightarrow> (is_vp8x c \<longrightarrow> length (ck_payload c) = 10 \<and> take 3 (drop 1 (ck_payload c)) = [0, 0, 0])"

lemma write_chunk_enc:
  assumes "wf_chunk c" and "vp8x_ok c" and "length pre = off" and "length (enc_chunk c) \<le> n"
  shows "write_chunk (pre @ replicate n 0) off c
    = Some ((pre @ enc_chunk (scrub c)) @ replicate (n - length (enc_chunk c)) 0, off + length (enc_chunk c))"
proof -
  let ?p = "ck_payload c"
  have k: "length (ck_kind c) = 4" using assms by (simp add: wf_chunk_def)
  have n: "8 + length ?p + (if odd (length ?p) then 1 else 0) \<le> n"
    using assms(4) enc_chunk_length [OF k] by simp
  have pad: "replicate (n - (8 + length ?p)) 0
      = (if odd (length ?p) then [0] else []) @ replicate (n - (8 + length ?p + (if odd (length ?p) then 1 else 0))) (0 :: byte)"
    using n by (auto simp: Suc_diff_le replicate_Suc [symmetric] simp del: replicate_Suc)
  let ?h = "pre @ ck_kind c @ put_le32 (word_of_nat (length ?p))"
  have c1: "copy_at (pre @ replicate n 0) off (ck_kind c) = Some ((pre @ ck_kind c) @ replicate (n - 4) 0)"
    using assms(3) k n copy_at_zeros [of pre off "ck_kind c" n] by simp
  have c2: "copy_at ((pre @ ck_kind c) @ replicate (n - 4) 0) (off + 4) (put_le32 (word_of_nat (length ?p)))
      = Some (?h @ replicate (n - 8) 0)"
    using assms(3) k n copy_at_zeros [of "pre @ ck_kind c" "off + 4" "put_le32 (word_of_nat (length ?p))" "n - 4"]
    by simp
  have c3: "copy_at (?h @ replicate (n - 8) 0) (off + 8) q = Some ((?h @ q) @ replicate (n - 8 - length q) 0)"
    if "length q \<le> length ?p" for q
    using that assms(3) k n copy_at_zeros [of ?h "off + 8" q "n - 8"] by simp
  have c4: "copy_at ((?h @ [f]) @ replicate (n - 9) 0) (9 + off) q = Some ((?h @ f # q) @ replicate (n - 9 - length q) 0)"
    if "Suc (length q) \<le> length ?p" for f q
    using that assms(3) k n copy_at_zeros [of "?h @ [f]" "9 + off" q "n - 9"] by simp
  have done3: "(if is_vp8x c then do {
                flags \<leftarrow> idx ?p 0;
                o1 \<leftarrow> copy_at (?h @ replicate (n - 8) 0) (off + 8) [flags AND (0x10 OR 0x02)];
                rest \<leftarrow> gslice ?p 1 (length ?p);
                copy_at o1 (off + 8 + 1) rest
              } else copy_at (?h @ replicate (n - 8) 0) (off + 8) ?p)
     = Some ((?h @ ck_payload (scrub c)) @ replicate (n - (8 + length ?p)) 0)"
  proof (cases "is_vp8x c")
    case True
    then have l: "length ?p = 10" using assms(2) by (simp add: vp8x_ok_def)
    then have ne: "?p \<noteq> []" by auto
    then have h: "?p ! 0 = hd ?p" by (simp add: hd_conv_nth)
    show ?thesis
      using True l ne c3 [of "[hd ?p AND 0x12]"] c4 [of "tl ?p" "hd ?p AND 0x12"]
      by (simp add: gslice_def scrub_def h drop_Suc)
  next
    case False
    then show ?thesis using c3 [of ?p] by (simp add: scrub_def)
  qed
  show ?thesis
    unfolding write_chunk_def c1 c2 Let_def Option.bind.bind_lunit done3
    using k by (simp add: enc_chunk_def pad)
qed

lemma strip_size_spec:
  assumes "\<forall>c \<in> set cs. wf_chunk c" and "n \<le> webpMaxRIFFSize"
  shows "strip_size cs n =
    (if (\<forall>c \<in> set cs. structural c \<longrightarrow> vp8x_ok c) \<and> n + length (enc_chunks (kept cs)) \<le> webpMaxRIFFSize
     then Some (Inr (n + length (enc_chunks (kept cs)))) else bad_container)"
  using assms
proof (induction cs arbitrary: n)
  case (Cons c cs)
  show ?case
  proof (cases "structural c")
    case False
    then show ?thesis using Cons by auto
  next
    case True
    have k: "length (ck_kind c) = 4" using Cons.prems by (simp add: wf_chunk_def)
    have len: "length (enc_chunk (scrub c)) = 8 + length (ck_payload c) + (if odd (length (ck_payload c)) then 1 else 0)"
      using enc_chunk_length [of "scrub c"] k by simp
    have v: "(if is_vp8x c then
                   (if length (ck_payload c) \<noteq> 10 then Some False
                    else do {
                      b1 \<leftarrow> idx (ck_payload c) 1;
                      b2 \<leftarrow> idx (ck_payload c) 2;
                      b3 \<leftarrow> idx (ck_payload c) 3;
                      Some (b1 = 0 \<and> b2 = 0 \<and> b3 = 0)
                    })
                 else Some True) = Some (vp8x_ok c)"
      by (auto simp: vp8x_ok_def numeral_eq_Suc take_Suc_conv_app_nth)
    show ?thesis
      using Cons True len by (auto simp: v Let_def)
  qed
qed simp

lemma write_chunks_enc:
  assumes "\<forall>c \<in> set cs. wf_chunk c" and "\<forall>c \<in> set cs. structural c \<longrightarrow> vp8x_ok c"
    and "length pre = off" and "length (enc_chunks (kept cs)) \<le> n"
  shows "write_chunks (pre @ replicate n 0) off cs
    = Some ((pre @ enc_chunks (kept cs)) @ replicate (n - length (enc_chunks (kept cs))) 0,
            off + length (enc_chunks (kept cs)))"
  using assms
proof (induction cs arbitrary: pre off n)
  case (Cons c cs)
  show ?case
  proof (cases "structural c")
    case False
    then show ?thesis using Cons by simp
  next
    case True
    have len: "length (enc_chunk (scrub c)) = length (enc_chunk c)" by (simp add: enc_chunk_def)
    have kept: "kept (c # cs) = scrub c # kept cs" using True by (simp add: kept_def)
    have "write_chunk (pre @ replicate n 0) off c
      = Some ((pre @ enc_chunk (scrub c)) @ replicate (n - length (enc_chunk c)) 0, off + length (enc_chunk c))"
      using Cons.prems True len by (intro write_chunk_enc) (auto simp: kept)
    moreover have "write_chunks ((pre @ enc_chunk (scrub c)) @ replicate (n - length (enc_chunk c)) 0)
        (off + length (enc_chunk c)) cs
      = Some (((pre @ enc_chunk (scrub c)) @ enc_chunks (kept cs))
                @ replicate (n - length (enc_chunk c) - length (enc_chunks (kept cs))) 0,
              off + length (enc_chunk c) + length (enc_chunks (kept cs)))"
      using Cons.prems True len by (intro Cons.IH) auto
    ultimately show ?thesis using True by (simp add: kept len)
  qed
qed simp

definition strippable :: "webpContainerChunk list \<Rightarrow> bool" where
  "strippable cs \<longleftrightarrow> (\<exists>c \<in> set cs. structural c) \<and> (\<forall>c \<in> set cs. structural c \<longrightarrow> vp8x_ok c)
     \<and> 12 + length (enc_chunks (kept cs)) \<le> webpMaxRIFFSize"

lemma enc_chunks_size:
  assumes "\<forall>c \<in> set cs. wf_chunk c"
  shows "length (enc_chunks (kept cs)) \<ge> 8 \<longleftrightarrow> (\<exists>c \<in> set cs. structural c)"
proof (cases "kept cs")
  case Nil
  then show ?thesis by (auto simp: kept_def filter_empty_conv)
next
  case (Cons c cs')
  then have "length (ck_kind c) = 4" using kept_wf [OF assms] by (simp add: wf_chunk_def)
  moreover have "\<exists>c \<in> set cs. structural c" using Cons by (auto simp: kept_def filter_eq_Cons_iff)
  ultimately show ?thesis using Cons enc_chunk_length [of c] by simp
qed

lemma stripWebPMetadata_of_parse:
  assumes parse: "parseWebPContainer input = Some (Inr cs)"
  shows "stripWebPMetadata input = (if strippable cs then Some (Inr (enc_container (kept cs))) else bad_container)"
proof -
  have wf: "\<forall>c \<in> set cs. wf_chunk c" using parseWebPContainer_wf [OF parse] by blast
  let ?n = "length (enc_chunks (kept cs))"
  let ?hdr = "ascii_bytes ''RIFF'' @ put_le32 (word_of_nat (4 + ?n)) @ ascii_bytes ''WEBP''"
  have sz: "strip_size cs 12 = (if (\<forall>c \<in> set cs. structural c \<longrightarrow> vp8x_ok c) \<and> 12 + ?n \<le> webpMaxRIFFSize
     then Some (Inr (12 + ?n)) else bad_container)"
    by (rule strip_size_spec [OF wf]) (simp add: webpMaxRIFFSize_def)
  show ?thesis
  proof (cases "strippable cs")
    case False
    then show ?thesis
      using enc_chunks_size [OF wf]
      by (auto simp: stripWebPMetadata_def parse sz strippable_def bad_container_def not_le)
  next
    case True
    then have n: "8 \<le> ?n" "12 + ?n \<le> webpMaxRIFFSize" and v: "\<forall>c \<in> set cs. structural c \<longrightarrow> vp8x_ok c"
      using enc_chunks_size [OF wf] by (auto simp: strippable_def)
    have l4: "length (ascii_bytes ''RIFF'') = 4" "length (ascii_bytes ''WEBP'') = 4"
      by (simp_all add: ascii_bytes_def)
    have c1: "copy_at (replicate (12 + ?n) 0) 0 (ascii_bytes ''RIFF'') = Some (ascii_bytes ''RIFF'' @ replicate (8 + ?n) 0)"
      using copy_at_zeros [of "[]" 0 "ascii_bytes ''RIFF''" "12 + ?n"] l4 by simp
    have c2: "copy_at (ascii_bytes ''RIFF'' @ replicate (8 + ?n) 0) 4 (put_le32 w)
        = Some ((ascii_bytes ''RIFF'' @ put_le32 w) @ replicate (4 + ?n) 0)" for w
      using copy_at_zeros [of "ascii_bytes ''RIFF''" 4 "put_le32 w" "8 + ?n"] l4 by simp
    have c3: "copy_at ((ascii_bytes ''RIFF'' @ put_le32 w) @ replicate (4 + ?n) 0) 8 (ascii_bytes ''WEBP'')
        = Some ((ascii_bytes ''RIFF'' @ put_le32 w @ ascii_bytes ''WEBP'') @ replicate ?n 0)" for w
      using copy_at_zeros [of "ascii_bytes ''RIFF'' @ put_le32 w" 8 "ascii_bytes ''WEBP''" "4 + ?n"] l4 by simp
    have wr: "write_chunks (?hdr @ replicate ?n 0) 12 cs = Some (?hdr @ enc_chunks (kept cs), 12 + ?n)"
      using write_chunks_enc [OF wf v, of ?hdr 12 ?n] l4 by simp
    have small: "\<not> (12 + ?n < 12 + 8 \<or> MaxInt64 < int (12 + ?n))"
      using n by (simp add: webpMaxRIFFSize_def MaxInt64_def)
    have sub: "12 + ?n - 8 = 4 + ?n" by simp
    show ?thesis
      using True n v small l4
      by (simp add: stripWebPMetadata_def parse sz c1 c2 c3 wr sub enc_container_def
          del: of_nat_add replicate_add append_assoc)
  qed
qed

lemma strippable_kept:
  assumes "strippable cs" shows "strippable (kept cs) \<and> kept cs \<noteq> []"
proof -
  have "vp8x_ok (scrub c)" if "vp8x_ok c" for c
    using that by (auto simp: vp8x_ok_def scrub_def is_vp8x_def drop_Suc)
  then have "\<forall>c \<in> set (kept cs). structural c \<longrightarrow> vp8x_ok c"
    using assms by (auto simp: strippable_def kept_def)
  moreover have "\<exists>c \<in> set (kept cs). structural c" "kept cs \<noteq> []"
    using assms by (auto simp: strippable_def kept_def filter_empty_conv)
  ultimately show ?thesis
    using assms by (simp add: strippable_def kept_kept)
qed

lemma strip_success:
  assumes "stripWebPMetadata input = Some (Inr out)"
  obtains cs where "parseWebPContainer input = Some (Inr cs)" "strippable cs" "out = enc_container (kept cs)"
proof -
  obtain cs where parse: "parseWebPContainer input = Some (Inr cs)"
    using assms by (auto simp: stripWebPMetadata_def split: option.split_asm sum.split_asm)
  with assms show thesis
    using that stripWebPMetadata_of_parse [OF parse] by (auto split: if_split_asm)
qed

lemma strip_output_parses:
  assumes "stripWebPMetadata input = Some (Inr out)" and "parseWebPContainer input = Some (Inr cs)"
  shows "parseWebPContainer out = Some (Inr (kept cs)) \<and> strippable (kept cs)"
proof -
  have str: "strippable cs" and out: "out = enc_container (kept cs)"
    using assms stripWebPMetadata_of_parse [OF assms(2)] by (auto split: if_split_asm)
  have "\<forall>c \<in> set (kept cs). wf_chunk c"
    using kept_wf parseWebPContainer_wf [OF assms(2)] by blast
  then show ?thesis
    using enc_container_parses [of "kept cs"] strippable_kept [OF str] str out
    by (simp add: strippable_def)
qed

text \<open>The input of the witnesses: an extended header with every feature flag set, a frame and EXIF.\<close>

definition exif_chunks :: "webpContainerChunk list" where
  "exif_chunks =
     [\<lparr>ck_kind = ascii_bytes ''VP8X'', ck_payload = [0xff, 0, 0, 0, 0, 0, 0, 0, 0, 0]\<rparr>,
      \<lparr>ck_kind = ascii_bytes ''VP8 '', ck_payload = [1, 2, 3]\<rparr>,
      \<lparr>ck_kind = ascii_bytes ''EXIF'', ck_payload = [9, 9]\<rparr>]"

definition plain_chunks :: "webpContainerChunk list" where
  "plain_chunks =
     [\<lparr>ck_kind = ascii_bytes ''VP8X'', ck_payload = [0x12, 0, 0, 0, 0, 0, 0, 0, 0, 0]\<rparr>,
      \<lparr>ck_kind = ascii_bytes ''VP8 '', ck_payload = [1, 2, 3]\<rparr>]"

lemma exif_example:
  "parseWebPContainer (enc_container exif_chunks) = Some (Inr exif_chunks)"
  "map scrub (filter structural exif_chunks) = plain_chunks"
  "stripWebPMetadata (enc_container exif_chunks) = Some (Inr (enc_container plain_chunks))"
proof -
  show parse: "parseWebPContainer (enc_container exif_chunks) = Some (Inr exif_chunks)" by code_simp
  show keep: "map scrub (filter structural exif_chunks) = plain_chunks" by code_simp
  have "list_ex structural exif_chunks" "list_all (\<lambda>c. structural c \<longrightarrow> vp8x_ok c) exif_chunks"
    "12 + length (enc_chunks plain_chunks) = 42"
    by code_simp+
  then have "strippable exif_chunks"
    by (simp add: strippable_def kept_def keep list_ex_iff list_all_iff webpMaxRIFFSize_def)
  then show "stripWebPMetadata (enc_container exif_chunks) = Some (Inr (enc_container plain_chunks))"
    using stripWebPMetadata_of_parse [OF parse] keep by (simp add: kept_def)
qed

section \<open>Properties\<close>

text \<open>
  C39 (webp_privacy.go:43-111, stripWebPMetadata). The rebuild never indexes or writes out of
  range. On a container that parses it succeeds exactly when there is a structural chunk,
  every \<open>VP8X\<close> chunk has ten bytes with the reserved ones zero, and the result fits a RIFF
  size field; the slice it fills piece by piece is then the RIFF header followed by the
  encodings of the kept chunks in their order, and nothing else.
\<close>

theorem stripWebPMetadata_refines:
  "stripWebPMetadata input =
     (case parseWebPContainer input of
        Some (Inr cs) \<Rightarrow>
          if strippable cs then Some (Inr (enc_container (kept cs))) else Some (Inl errWebPPrivacyContainer)
      | _ \<Rightarrow> Some (Inl errWebPPrivacyContainer))"
  using parseWebPContainer_good [of input] stripWebPMetadata_of_parse [of input]
  by (auto simp: stripWebPMetadata_def bad_container_def parse_good_def split: option.splits sum.splits)

text \<open>
  The privacy guarantee: when the rebuild succeeds, its output
  parses again, and to exactly the structural chunks of the input, in their order and with
  their payloads, except that of the \<open>VP8X\<close> flags only alpha and animation remain. No EXIF,
  XMP, ICC or unknown chunk survives, and no encoded frame is lost.
\<close>

theorem strip_keeps_structure_only:
  assumes "stripWebPMetadata input = Some (Inr out)" and "parseWebPContainer input = Some (Inr cs)"
  shows "parseWebPContainer out = Some (Inr (map scrub (filter structural cs)))
    \<and> (\<forall>c \<in> set (map scrub (filter structural cs)). ck_kind c \<in> set webpStructuralChunks
         \<and> (is_vp8x c \<longrightarrow> hd (ck_payload c) AND 0x12 = hd (ck_payload c)))"
proof -
  have parse: "parseWebPContainer out = Some (Inr (kept cs))" and str: "strippable (kept cs)"
    using strip_output_parses [OF assms] by auto
  have "hd (ck_payload c) AND 0x12 = hd (ck_payload c)" if "c \<in> set (kept cs)" "is_vp8x c" for c
  proof -
    from that obtain d where "c = scrub d" "is_vp8x d" by (auto simp: kept_def)
    moreover have "ck_payload c \<noteq> []"
      using str that by (auto simp: strippable_def kept_def vp8x_ok_def)
    ultimately show ?thesis by (auto simp: scrub_def and.assoc)
  qed
  then show ?thesis
    using parse by (auto simp: kept_def structural_def)
qed

theorem strip_keeps_structure_only_witness:
  "parseWebPContainer (enc_container plain_chunks) = Some (Inr plain_chunks)"
  using strip_keeps_structure_only [OF exif_example(3) exif_example(1)] by (simp only: exif_example(2))

text \<open>
  The rebuild is idempotent: applied to its own output it
  succeeds and returns the same bytes.
\<close>

theorem strip_idempotent:
  assumes "stripWebPMetadata input = Some (Inr out)"
  shows "stripWebPMetadata out = Some (Inr out)"
proof -
  obtain cs where cs: "parseWebPContainer input = Some (Inr cs)" "strippable cs" "out = enc_container (kept cs)"
    using strip_success [OF assms] by blast
  have "parseWebPContainer out = Some (Inr (kept cs))" "strippable (kept cs)"
    using strip_output_parses [OF assms cs(1)] by auto
  then show ?thesis
    using stripWebPMetadata_of_parse [of out "kept cs"] cs(3) by (simp add: kept_kept)
qed

theorem strip_idempotent_witness:
  "stripWebPMetadata (enc_container plain_chunks) = Some (Inr (enc_container plain_chunks))"
  by (rule strip_idempotent [OF exif_example(3)])

end
