(* ===== verification/Media_Process.thy ===== *)
theory Media_Process
  imports Media_Safety Media_WebP Complex_Main
begin

text \<open>
  processor.go and the slot accounting of policy.go: the pipeline from an uploaded byte
  sequence to a normalised WebP. libvips is a parameter: a record of the govips calls the
  code makes, each returning an error or a new image. Go's context is a parameter too: what
  \<open>ctx.Err()\<close> returns at each program point.
\<close>

unbundle bit_operations_syntax

section \<open>The native library\<close>

text \<open>A pixel of \<open>image.NRGBA\<close>: red, green, blue, alpha; an image is a list of rows.\<close>

type_synonym nrgba = "byte \<times> byte \<times> byte \<times> byte"

record 'i vips =
  NewImageFromGoImage :: "nrgba list list \<Rightarrow> (media_cause, 'i) result"
  LoadImageFromBuffer :: "bytes \<Rightarrow> int \<Rightarrow> (media_cause, 'i) result"
  Pages :: "'i \<Rightarrow> int"
  PageHeight :: "'i \<Rightarrow> int"
  v_Height :: "'i \<Rightarrow> int"
  v_Width :: "'i \<Rightarrow> int"
  PageDelay :: "'i \<Rightarrow> (media_cause, int list) result"
  Orientation :: "'i \<Rightarrow> int"
  FlipHorizontal :: "'i \<Rightarrow> (media_cause, 'i) result"
  FlipVertical :: "'i \<Rightarrow> (media_cause, 'i) result"
  Rotate90 :: "'i \<Rightarrow> (media_cause, 'i) result"
  Rotate270 :: "'i \<Rightarrow> (media_cause, 'i) result"
  AutoRotate :: "'i \<Rightarrow> (media_cause, 'i) result"
  RemoveOrientation :: "'i \<Rightarrow> (media_cause, 'i) result"
  ThumbnailCentre :: "int \<Rightarrow> 'i \<Rightarrow> (media_cause, 'i) result"
  Resize :: "rat \<Rightarrow> 'i \<Rightarrow> (media_cause, 'i) result"
  SetPageDelay :: "int list \<Rightarrow> 'i \<Rightarrow> (media_cause, 'i) result"
  SetLoop :: "int \<Rightarrow> 'i \<Rightarrow> (media_cause, 'i) result"
  RemoveMetadata :: "'i \<Rightarrow> (media_cause, 'i) result"
  RemoveICCProfile :: "'i \<Rightarrow> (media_cause, 'i) result"
  ExportWebp :: "int \<Rightarrow> 'i \<Rightarrow> (media_cause, bytes \<times> (int \<times> int) option) result"

text \<open>An error of the pipeline is a context error or a media error.\<close>

datatype process_error = ContextError string | MediaFailure media_error

type_synonym ctx = "nat \<Rightarrow> string option"

definition ctx_check :: "ctx \<Rightarrow> nat \<Rightarrow> (process_error, unit) go" where
  "ctx_check c point = (case c point of Some e \<Rightarrow> Some (Inl (ContextError e)) | None \<Rightarrow> Some (Inr ()))"

section \<open>BMP pixels\<close>

definition bmp_pixel :: "bytes \<Rightarrow> bmp_header \<Rightarrow> u64 \<Rightarrow> nat \<Rightarrow> (media_cause, nrgba) go" where
  "bmp_pixel input header rowOffset x =
    (let sourceOffset = rowOffset + word_of_nat (x * bytesPerPixel header) in
     if sourceOffset + word_of_nat (bytesPerPixel header) > word_of_nat (length input)
     then Some (Inl (TextCause ''truncated BMP pixels''))
     else do {
       pixel \<leftarrow> gslice input (unat sourceOffset) (length input);
       alpha \<leftarrow> (if bytesPerPixel header = 4 then do {
                   a \<leftarrow> idx pixel 3;
                   Some (if a \<noteq> 0 then a else 255)
                 } else Some 255);
       r \<leftarrow> idx pixel 2;
       g \<leftarrow> idx pixel 1;
       b \<leftarrow> idx pixel 0;
       Some (Inr (r, g, b, alpha))
     })"

definition decodeBMP :: "bytes \<Rightarrow> bmp_header \<Rightarrow> (media_cause, nrgba list list) go" where
  "decodeBMP input header =
    (if bmp_width header = 0 \<or> bmp_height header = 0
        \<or> (bytesPerPixel header \<noteq> 3 \<and> bytesPerPixel header \<noteq> 4)
     then Some (Inl (TextCause ''unsupported BMP layout''))
     else if int (bmp_width header) > MaxInt64 div 4
             \<or> int (bmp_height header) > MaxInt64 div (int (bmp_width header) * 4)
     then Some (Inl (TextCause ''BMP pixel allocation overflow''))
     else go_map (\<lambda>outputY.
            let sourceY = (if topDown header then outputY else bmp_height header - 1 - outputY);
                rowOffset = pixelOffset header + word_of_nat sourceY * rowStride header
            in go_map (bmp_pixel input header rowOffset) [0..<bmp_width header])
          [0..<bmp_height header])"

section \<open>encode\<close>

definition loadImage :: "'i vips \<Rightarrow> bytes \<Rightarrow> image_header \<Rightarrow> limits \<Rightarrow> (media_cause, 'i) go" where
  "loadImage v input info lims =
    (if img_format info = ''bmp'' then
       (case bmp info of
          None \<Rightarrow> Some (Inl (TextCause ''BMP header is missing''))
        | Some header \<Rightarrow> go_bind (decodeBMP input header) (\<lambda>decoded. Some (NewImageFromGoImage v decoded)))
     else Some (LoadImageFromBuffer v input
            (if PreserveAnimation lims then int (frameCount info) else 1)))"

fun sum_delays :: "int list \<Rightarrow> int \<Rightarrow> (media_cause, int) result" where
  "sum_delays [] duration = Inr duration"
| "sum_delays (d # ds) duration =
    (if d < 0 \<or> duration > MaxInt64 - d then Inl (TextCause ''invalid animation delay'')
     else sum_delays ds (duration + d))"

definition imageAnimationMetadata :: "'i vips \<Rightarrow> 'i \<Rightarrow> int \<Rightarrow> (media_cause, int \<times> int list) result" where
  "imageAnimationMetadata v img frames =
    (if frames \<le> 1 then Inr (0, [])
     else result_bind (PageDelay v img) (\<lambda>delays.
       if int (length delays) \<noteq> frames
       then Inl (TextCause ''animation delay count does not match frame count'')
       else result_bind (sum_delays delays 0) (\<lambda>duration. Inr (duration, delays))))"

definition validateDecodedImage :: "kind \<Rightarrow> limits \<Rightarrow> int \<Rightarrow> int \<Rightarrow> int \<Rightarrow> int \<Rightarrow> media_error option" where
  "validateDecodedImage k lims width height frames duration =
    (let budget = (word_of_int (MaxInputPixels lims) :: u64) in
     if width \<le> 0 \<or> height \<le> 0 \<or> width > MaxInputEdge lims \<or> height > MaxInputEdge lims
     then Some (dimensionsExceededError k (TextCause ''decoded dimensions exceed limit''))
     else if frames < 1 \<or> frames > MaxFrames lims \<or> duration < 0 \<or> duration > MaxDurationMS lims
     then Some (animationTooComplexError k (TextCause ''decoded animation exceeds limit''))
     else let (pixels, ok) = checkedMul (word_of_int width) (word_of_int height) in
     if \<not> ok \<or> pixels > budget
     then Some (dimensionsExceededError k (TextCause ''decoded pixel budget exceeded''))
     else let (totalPixels, ok2) = checkedMul pixels (word_of_int frames) in
     if \<not> ok2 \<or> totalPixels > budget
     then Some (dimensionsExceededError k (TextCause ''animated decoded pixel budget exceeded''))
     else None)"

definition autorotate :: "'i vips \<Rightarrow> 'i \<Rightarrow> (media_cause, 'i) result" where
  "autorotate v img =
    (let o1 = Orientation v img in
     if o1 = 2 then result_bind (FlipHorizontal v img) (RemoveOrientation v)
     else if o1 = 3 \<or> o1 = 6 \<or> o1 = 8 then AutoRotate v img
     else if o1 = 4 then result_bind (FlipVertical v img) (RemoveOrientation v)
     else if o1 = 5 then
       result_bind (FlipHorizontal v img) (\<lambda>i. result_bind (Rotate270 v i) (RemoveOrientation v))
     else if o1 = 7 then
       result_bind (FlipHorizontal v img) (\<lambda>i. result_bind (Rotate90 v i) (RemoveOrientation v))
     else RemoveOrientation v img)"

record encodedImage =
  enc_content :: bytes
  enc_width :: int
  enc_height :: int
  enc_frameCount :: nat
  enc_durationMS :: int

text \<open>
  The scaling branch of \<open>encode\<close>. The scale factor is the exact quotient; whether it is
  below one does not depend on its rounding to a float.
\<close>

definition page_height :: "'i vips \<Rightarrow> 'i \<Rightarrow> int" where
  "page_height v img =
    (if PageHeight v img \<le> 0 \<or> PageHeight v img > v_Height v img then v_Height v img else PageHeight v img)"

definition scale_image :: "'i vips \<Rightarrow> limits \<Rightarrow> int \<Rightarrow> 'i \<Rightarrow> (media_cause, 'i) result" where
  "scale_image v lims sz img =
    (if Cover lims then ThumbnailCentre v sz img
     else
       let width = v_Width v img; height = page_height v img in
       if width \<le> 0 \<or> height \<le> 0 then Inl (TextCause ''image has zero dimensions'')
       else
         let scale = min (rat_of_int sz / rat_of_int width) (rat_of_int sz / rat_of_int height) in
         if scale < 1 then Resize v scale img else Inr img)"

definition set_animation :: "'i vips \<Rightarrow> int list \<Rightarrow> 'i \<Rightarrow> (media_cause, 'i) result" where
  "set_animation v delays img =
    (if length delays > 1 then result_bind (SetPageDelay v delays img) (SetLoop v 0) else Inr img)"

text \<open>From \<open>ExportWebp\<close> to the end of \<open>encode\<close>.\<close>

definition finish_encode ::
  "'i vips \<Rightarrow> kind \<Rightarrow> image_header \<Rightarrow> limits \<Rightarrow> int \<Rightarrow> int \<Rightarrow> int \<Rightarrow> 'i \<Rightarrow> (process_error, encodedImage) go" where
  "finish_encode v k info lims quality frames durationMS0 img =
    (let fail = (\<lambda>c. MediaFailure (processFailedError k c)) in
     go_bind (go_wrap fail (Some (ExportWebp v quality img))) (\<lambda>(output0, outputMetadata).
     go_bind (go_wrap fail (stripWebPMetadata output0)) (\<lambda>output.
     go_bind (go_wrap fail (inspectImage output)) (\<lambda>outputInfo.
     go_guard (img_format outputInfo \<noteq> ''webp'') (fail (TextCause ''normalized output is not WebP'')) (
     go_guard (PreserveAnimation lims \<and> frameCount info > 1 \<and> int (frameCount outputInfo) \<noteq> frames)
       (fail (TextCause ''normalized output lost animation frames'')) (
     go_guard (\<not> PreserveAnimation lims \<and> frameCount outputInfo \<noteq> 1)
       (fail (TextCause ''normalized output is unexpectedly animated'')) (
     let w0 = (case outputMetadata of None \<Rightarrow> 0 | Some (w, h) \<Rightarrow> w);
         h0 = (case outputMetadata of None \<Rightarrow> 0 | Some (w, h) \<Rightarrow> h);
         w1 = (if w0 \<le> 0 then v_Width v img else w0);
         h1 = (if h0 \<le> 0 then v_Height v img else h0);
         h2 = (if frames > 1 \<and> PageHeight v img > 0 then PageHeight v img else h1);
         w3 = (if img_width outputInfo > 0 then int (unat (img_width outputInfo)) else w1);
         h3 = (if img_height outputInfo > 0 then int (unat (img_height outputInfo)) else h2)
     in Some (Inr \<lparr>enc_content = output, enc_width = w3, enc_height = h3,
          enc_frameCount = frameCount outputInfo,
          enc_durationMS = (if PreserveAnimation lims \<and> frameCount info = 1 then durationMS0
                            else durationMS outputInfo)\<rparr>))))))))"

definition encode ::
  "'i vips \<Rightarrow> ctx \<Rightarrow> nat \<Rightarrow> bytes \<Rightarrow> kind \<Rightarrow> image_header \<Rightarrow> limits \<Rightarrow> int \<Rightarrow> int \<Rightarrow> (process_error, encodedImage) go"
where
  "encode v c point input k info lims sz quality =
    (let fail = (\<lambda>e. MediaFailure (processFailedError k e)) in
     go_bind (ctx_check c point) (\<lambda>_.
     go_bind (go_wrap (\<lambda>e. MediaFailure (decodeFailedError k e)) (loadImage v input info lims)) (\<lambda>img0.
     let frames = (if Pages v img0 < 1 then 1 else Pages v img0); pageHeight = page_height v img0 in
     go_bind (go_wrap fail (Some (imageAnimationMetadata v img0 frames))) (\<lambda>(durationMS1, delays).
     let durationMS2 = (if PreserveAnimation lims \<and> frames = 1 \<and> frameCount info = 1
                        then durationMS info else durationMS1) in
     go_guard (PreserveAnimation lims \<and> frameCount info > 1 \<and> frames < 2)
       (fail (TextCause ''animated input was not decoded as multiple pages'')) (
     case validateDecodedImage k lims (v_Width v img0) pageHeight frames durationMS2 of
       Some e \<Rightarrow> Some (Inl (MediaFailure e))
     | None \<Rightarrow>
     go_bind (go_wrap fail (Some (autorotate v img0))) (\<lambda>img1.
     go_bind (ctx_check c (point + 1)) (\<lambda>_.
     go_bind (go_wrap fail (Some (scale_image v lims sz img1))) (\<lambda>img2.
     go_bind (go_wrap fail (Some (set_animation v delays img2))) (\<lambda>img3.
     go_bind (go_wrap fail (Some (RemoveMetadata v img3))) (\<lambda>img4.
     go_bind (go_wrap fail (Some (RemoveICCProfile v img4))) (\<lambda>img5.
     go_bind (go_wrap fail (Some (RemoveOrientation v img5))) (\<lambda>img6.
     finish_encode v k info lims quality frames durationMS2 img6))))))))))))"

section \<open>process\<close>

definition formatAllowed :: "kind \<Rightarrow> string \<Rightarrow> bool" where
  "formatAllowed k format =
    (case k of
       KindAvatar \<Rightarrow> format = ''jpeg'' \<or> format = ''png'' \<or> format = ''webp''
     | KindCustomEmote \<Rightarrow> format = ''jpeg'' \<or> format = ''png'' \<or> format = ''webp''
         \<or> format = ''gif'' \<or> format = ''bmp''
     | KindOther _ \<Rightarrow> False)"

record ProcessedUpload =
  Content :: bytes
  DetectedMIMEType :: string
  NormalizedMIMEType :: string
  ByteSize :: int
  up_Width :: int
  up_Height :: int
  FrameCount :: nat
  up_DurationMS :: int
  SHA256 :: string

text \<open>The processor: its options and the slots in use; \<open>slots\<close> is a channel of that capacity.\<close>

record processor =
  p_options :: options
  p_busy :: nat

definition newProcessor :: "(media_cause option) \<Rightarrow> options \<Rightarrow> (media_error, processor) result" where
  "newProcessor startupErr opts =
    result_bind (normalizeOptions opts) (\<lambda>opts'.
      case startupErr of
        Some e \<Rightarrow> Inl (unavailableError (Some e))
      | None \<Rightarrow> Inr \<lparr>p_options = opts', p_busy = 0\<rparr>)"

text \<open>
  \<open>acquire\<close> waits for a slot or for the context; the choice is the scheduler's. \<open>None\<close> means
  that the chosen case is not ready.
\<close>

datatype acquire_choice = TakeSlot | ContextDone string

definition acquire :: "acquire_choice \<Rightarrow> processor \<Rightarrow> (string, processor) go" where
  "acquire choice p =
    (case choice of
       TakeSlot \<Rightarrow>
         if int (p_busy p) < MaxProcessingConcurrency (p_options p)
         then Some (Inr (p\<lparr>p_busy := p_busy p + 1\<rparr>)) else None
     | ContextDone e \<Rightarrow> Some (Inl e))"

definition release :: "processor \<Rightarrow> processor option" where
  "release p = (if p_busy p = 0 then None else Some (p\<lparr>p_busy := p_busy p - 1\<rparr>))"

text \<open>Everything \<open>process\<close> checks before it takes a slot.\<close>

definition admit ::
  "(rune \<Rightarrow> rune) \<Rightarrow> ctx \<Rightarrow> options \<Rightarrow> bytes \<Rightarrow> kind \<Rightarrow> string \<Rightarrow> (process_error, image_header \<times> limits) go" where
  "admit ulow c opts input k declared =
    go_bind (ctx_check c 0) (\<lambda>_.
    case limits_for opts k of
      None \<Rightarrow> Some (Inl (MediaFailure (mediaError CodeInvalidSource
        (utf8 [0x5A92, 0x4F53, 0x5904, 0x7406, 0x7C7B, 0x578B, 0x65E0, 0x6548]) 400 (TextCause ''unknown media kind''))))
    | Some lims \<Rightarrow>
    go_guard (case normalizeMIME ulow declared of None \<Rightarrow> True | Some m \<Rightarrow> \<not> allowedMIME k m)
      (MediaFailure (supportedFormatError k (TextCause ''declared MIME type is not allowlisted''))) (
    go_guard (input = []) (MediaFailure (invalidContentError k (TextCause ''empty input''))) (
    go_guard (int (length input) > MaxInputBytes lims)
      (MediaFailure (inputTooLargeError k (TextCause ''input byte limit exceeded''))) (
    go_bind (go_wrap (\<lambda>e. MediaFailure (decodeFailedError k e)) (inspectImage input)) (\<lambda>info.
    go_guard (\<not> formatAllowed k (img_format info))
      (MediaFailure (if k = KindAvatar
         then dimensionsExceededError k (TextCause ''format is not accepted for avatars'')
         else supportedFormatError k (TextCause ''format is not accepted''))) (
    case validate info k lims of
      Some e \<Rightarrow> Some (Inl (MediaFailure
        (if is_pixel_error e then decodeFailedError k (ErrorCause e) else e)))
    | None \<Rightarrow> Some (Inr (info, lims))))))))"

text \<open>The encoding with its fallback, and the upload record, while the slot is held.\<close>

definition normalize_upload ::
  "'i vips \<Rightarrow> ctx \<Rightarrow> (bytes \<Rightarrow> string) \<Rightarrow> bytes \<Rightarrow> kind \<Rightarrow> image_header \<Rightarrow> limits \<Rightarrow> (process_error, ProcessedUpload) go" where
  "normalize_upload v c hashBytes input k info lims =
    (let quality = (if frameCount info > 1 then AnimatedQuality lims else StaticQuality lims) in
     go_bind (encode v c 1 input k info lims (TargetSize lims) quality) (\<lambda>first.
     go_bind (if MaxOutputBytes lims > 0 \<and> int (length (enc_content first)) > MaxOutputBytes lims then
                go_guard (FallbackSize lims \<le> 0 \<or> FallbackQuality lims \<le> 0)
                  (MediaFailure (outputTooLargeError k (TextCause ''output byte limit exceeded''))) (
                go_bind (encode v c 3 input k info lims (FallbackSize lims) (FallbackQuality lims)) (\<lambda>second.
                go_guard (int (length (enc_content second)) > MaxOutputBytes lims)
                  (MediaFailure (outputTooLargeError k (TextCause ''fallback output byte limit exceeded'')))
                  (Some (Inr second))))
              else Some (Inr first)) (\<lambda>encoded.
     go_bind (ctx_check c 5) (\<lambda>_.
     Some (Inr \<lparr>Content = enc_content encoded, DetectedMIMEType = formatMIME (img_format info),
       NormalizedMIMEType = ''image/webp'', ByteSize = int (length (enc_content encoded)),
       up_Width = enc_width encoded, up_Height = enc_height encoded,
       FrameCount = (if enc_frameCount encoded < 1 then 1 else enc_frameCount encoded),
       up_DurationMS = enc_durationMS encoded, SHA256 = hashBytes (enc_content encoded)\<rparr>)))))"

text \<open>\<open>process\<close>: the result with the processor after the deferred release; \<open>None\<close> a panic or a blocked choice.\<close>

definition process_upload ::
  "(rune \<Rightarrow> rune) \<Rightarrow> 'i vips \<Rightarrow> ctx \<Rightarrow> (bytes \<Rightarrow> string) \<Rightarrow> acquire_choice \<Rightarrow> processor \<Rightarrow> bytes \<Rightarrow> kind \<Rightarrow> string
     \<Rightarrow> ((process_error, ProcessedUpload) result \<times> processor) option"
where
  "process_upload ulow v c hashBytes choice p input k declared =
    (case admit ulow c (p_options p) input k declared of
       None \<Rightarrow> None
     | Some (Inl e) \<Rightarrow> Some (Inl e, p)
     | Some (Inr (info, lims)) \<Rightarrow>
         (case acquire choice p of
            None \<Rightarrow> None
          | Some (Inl e) \<Rightarrow> Some (Inl (ContextError e), p)
          | Some (Inr p1) \<Rightarrow> do {
              r \<leftarrow> normalize_upload v c hashBytes input k info lims;
              p2 \<leftarrow> release p1;
              Some (r, p2)
            }))"

section \<open>decodeBMP reads the pixel rows\<close>

text \<open>The pixel a BMP stores at column \<open>x\<close> of file row \<open>y\<close>.\<close>

definition stored_pixel :: "bytes \<Rightarrow> bmp_header \<Rightarrow> nat \<Rightarrow> nat \<Rightarrow> nrgba" where
  "stored_pixel input b y x =
    (let pos0 = unat (pixelOffset b) + y * unat (rowStride b) + x * bytesPerPixel b in
     (input ! (pos0 + 2), input ! (pos0 + 1), input ! pos0,
      if bytesPerPixel b = 4 \<and> input ! (pos0 + 3) \<noteq> 0 then input ! (pos0 + 3) else 255))"

lemma bmp_pixel_reads:
  assumes area: "bmp_area_ok input h" "bmp h = Some b" and x: "x < bmp_width b" and y: "y < bmp_height b"
    and len: "length input < 2 ^ 60"
  shows "bmp_pixel input b (pixelOffset b + word_of_nat y * rowStride b) x
    = Some (Inr (stored_pixel input b y x))"
proof -
  let ?off = "unat (pixelOffset b)" and ?st = "unat (rowStride b)" and ?bpp = "bytesPerPixel b"
  have bpp: "?bpp = 3 \<or> ?bpp = 4" and row: "bmp_width b * ?bpp \<le> ?st"
    and fits: "?off + ?st * bmp_height b \<le> length input"
    using area by (auto simp: bmp_area_ok_def)
  have yb: "(y + 1) * ?st \<le> bmp_height b * ?st" using y by (intro mult_le_mono1) simp
  have xb: "(x + 1) * ?bpp \<le> bmp_width b * ?bpp" using x by (intro mult_le_mono1) simp
  define pos0 where "pos0 = ?off + y * ?st + x * ?bpp"
  have fit: "pos0 + ?bpp \<le> length input"
    using yb xb row fits by (simp add: pos0_def algebra_simps)
  have "y * ?st < 2 ^ 60" "x * ?bpp < 2 ^ 60" "?off + y * ?st < 2 ^ 60"
    using fit len bpp by (auto simp: pos0_def)
  moreover have "y < 2 ^ 60"
  proof -
    have "bmp_height b \<le> ?st * bmp_height b"
      using row bpp x by (cases ?st) auto
    then show ?thesis using y fits len by linarith
  qed
  ultimately have "unat (pixelOffset b + word_of_nat y * rowStride b + word_of_nat (x * ?bpp)) = pos0"
    by (simp add: unat_word_ariths u64_of_nat pos0_def del: of_nat_mult)
  moreover from this have "unat (pixelOffset b + word_of_nat y * rowStride b + word_of_nat (x * ?bpp) + word_of_nat ?bpp) = pos0 + ?bpp"
    using fit len bpp by (auto simp: unat_word_ariths simp del: of_nat_mult)
  moreover have "unat (word_of_nat (length input) :: u64) = length input" using len by (simp add: u64_of_nat)
  ultimately show ?thesis
    using fit bpp
    by (auto simp: bmp_pixel_def Let_def word_less_nat_alt gslice_def stored_pixel_def pos0_def [symmetric]
        simp del: of_nat_mult)
qed
lemma decodeBMP_rows:
  assumes "bmp_area_ok input h" "bmp h = Some b" "header_ok input h" and "length input < 2 ^ 60"
  shows "decodeBMP input b = Some (Inr (map (\<lambda>y. map (stored_pixel input b
       (if topDown b then y else bmp_height b - 1 - y)) [0..<bmp_width b]) [0..<bmp_height b]))"
proof -
  have pos: "0 < bmp_width b" "0 < bmp_height b" and bpp: "bytesPerPixel b = 3 \<or> bytesPerPixel b = 4"
    and row: "bmp_width b * bytesPerPixel b \<le> unat (rowStride b)"
    and fits: "unat (pixelOffset b) + unat (rowStride b) * bmp_height b \<le> length input"
    using assms by (auto simp: bmp_area_ok_def header_ok_def unat_gt_0)
  have "bmp_width b * bytesPerPixel b * bmp_height b \<le> length input"
    using mult_le_mono1 [OF row, of "bmp_height b"] fits by linarith
  then have area: "bmp_width b * 3 * bmp_height b < 2 ^ 60"
    using bpp assms(4) by auto
  have "bmp_width b * 3 * 1 \<le> bmp_width b * 3 * bmp_height b" using pos by (intro mult_le_mono2) simp
  then have "bmp_width b < 2 ^ 60" using area by linarith
  moreover have "int (bmp_height b) \<le> MaxInt64 div (int (bmp_width b) * 4)"
  proof -
    have "bmp_height b * bmp_width b < 2 ^ 60" using area by (simp add: mult.commute)
    then have "int (bmp_height b * bmp_width b) < int (2 ^ 60)" by (simp only: of_nat_less_iff)
    then have "int (bmp_height b) * (int (bmp_width b) * 4) \<le> MaxInt64"
      by (simp add: MaxInt64_def)
    from zdiv_mono1 [OF this, of "int (bmp_width b) * 4"] show ?thesis using pos by simp
  qed
  ultimately have ok: "\<not> (int (bmp_width b) > MaxInt64 div 4 \<or> int (bmp_height b) > MaxInt64 div (int (bmp_width b) * 4))"
    by (simp add: MaxInt64_def)
  have rows: "go_map (\<lambda>outputY.
            let sourceY = (if topDown b then outputY else bmp_height b - 1 - outputY);
                rowOffset = pixelOffset b + word_of_nat sourceY * rowStride b
            in go_map (bmp_pixel input b rowOffset) [0..<bmp_width b]) [0..<bmp_height b]
     = Some (Inr (map (\<lambda>y. map (stored_pixel input b (if topDown b then y else bmp_height b - 1 - y)) [0..<bmp_width b]) [0..<bmp_height b]))"
    using pos assms by (intro go_map_all ballI) (auto simp: Let_def simp del: of_nat_diff intro!: go_map_all bmp_pixel_reads)
  show ?thesis
    unfolding decodeBMP_def using pos bpp ok rows by simp
qed

section \<open>The pipeline\<close>

lemma ctx_check_safe [simp]: "go_safe (ctx_check c n)"
  by (simp add: ctx_check_def split: option.split)

lemma stripWebPMetadata_safe [simp]: "go_safe (stripWebPMetadata input)"
proof (cases "parseWebPContainer input")
  case None
  then show ?thesis using parseWebPContainer_good [of input] by (simp add: parse_good_def)
next
  case (Some r)
  then show ?thesis
    using stripWebPMetadata_of_parse [of input]
    by (cases r) (auto simp: stripWebPMetadata_def split: if_splits)
qed

lemma strip_size_bound:
  assumes "stripWebPMetadata input = Some (Inr out)" shows "length out < 2 ^ 32"
proof -
  obtain cs where "strippable cs" "out = enc_container (kept cs)"
    using strip_success [OF assms] by blast
  then show ?thesis
    by (simp add: strippable_def enc_container_def ascii_bytes_def webpMaxRIFFSize_def)
qed

lemma loadImage_safe:
  assumes "header_ok input info" and "length input < 2 ^ 60"
  shows "go_safe (loadImage v input info lims)"
  using assms decodeBMP_rows [of input info]
  by (auto simp: loadImage_def go_safe_seq header_ok_def split: option.split)

lemma finish_encode_safe: "go_safe (finish_encode v k info lims q f d img)"
  by (auto simp: finish_encode_def Let_def go_safe_seq inspectImage_safe split: prod.split)

lemma encode_safe:
  assumes "header_ok input info" and "length input < 2 ^ 60"
  shows "go_safe (encode v c n input k info lims s q)"
  using loadImage_safe [OF assms, of v lims]
  by (simp add: encode_def Let_def go_safe_seq finish_encode_safe split: prod.split option.split)

text \<open>What holds of an encoded image, whatever libvips returned.\<close>

definition encoded_ok :: "limits \<Rightarrow> encodedImage \<Rightarrow> bool" where
  "encoded_ok lims e \<longleftrightarrow>
     (case parseWebPContainer (enc_content e) of
        Some (Inr cs) \<Rightarrow> list_all structural cs | _ \<Rightarrow> False)
     \<and> (case inspectImage (enc_content e) of
          Some (Inr h) \<Rightarrow> img_format h = ''webp'' \<and> enc_frameCount e = frameCount h \<and> 1 \<le> frameCount h
            \<and> enc_width e = int (unat (img_width h)) \<and> enc_height e = int (unat (img_height h))
            \<and> 0 < enc_width e \<and> 0 < enc_height e
        | _ \<Rightarrow> False)
     \<and> (PreserveAnimation lims \<or> enc_frameCount e = 1)"

lemma finish_encode_ok:
  assumes "finish_encode v k info lims q f d img = Some (Inr e)"
  shows "encoded_ok lims e"
proof -
  from assms obtain out0 h where strip: "stripWebPMetadata out0 = Some (Inr (enc_content e))"
    and insp: "inspectImage (enc_content e) = Some (Inr h)" and webp: "img_format h = ''webp''"
    and frames: "\<not> (\<not> PreserveAnimation lims \<and> frameCount h \<noteq> 1)" "enc_frameCount e = frameCount h"
    and dims: "0 < img_width h \<Longrightarrow> enc_width e = int (unat (img_width h))"
      "0 < img_height h \<Longrightarrow> enc_height e = int (unat (img_height h))"
    by (auto simp: finish_encode_def Let_def go_success split: prod.split_asm)
  obtain cs where cs: "parseWebPContainer out0 = Some (Inr cs)" using strip_success [OF strip] by blast
  have "header_ok (enc_content e) h"
    using inspectImage_post [OF insp] strip_size_bound [OF strip] by simp
  moreover have "parseWebPContainer (enc_content e) = Some (Inr (kept cs))"
    using strip_output_parses [OF strip cs] by simp
  ultimately show ?thesis
    using insp webp frames dims
    by (auto simp: encoded_ok_def header_ok_def word_neq_0_conv word_less_def kept_def list_all_iff)
qed

lemma encode_ok: "encode v c n input k info lims s q = Some (Inr e) \<Longrightarrow> encoded_ok lims e"
  by (auto simp: encode_def Let_def go_success split: prod.split_asm option.split_asm
      intro: finish_encode_ok)

lemma admit_ok:
  assumes "admit ulow c opts input k declared = Some (Inr (info, lims))"
  shows "limits_for opts k = Some lims \<and> (\<exists>m. normalizeMIME ulow declared = Some m \<and> allowedMIME k m)
    \<and> input \<noteq> [] \<and> int (length input) \<le> MaxInputBytes lims \<and> inspectImage input = Some (Inr info)
    \<and> formatAllowed k (img_format info) \<and> validate info k lims = None"
  using assms by (auto simp: admit_def go_success split: option.split_asm)

lemma admit_safe: "go_safe (admit ulow c opts input k declared)"
  by (auto simp: admit_def go_safe_seq inspectImage_safe split: option.split)

lemma normalize_upload_safe:
  assumes "header_ok input info" and "length input < 2 ^ 60"
  shows "go_safe (normalize_upload v c h input k info lims)"
  by (simp add: normalize_upload_def Let_def go_safe_seq encode_safe [OF assms])

lemma normalize_upload_ok:
  assumes "normalize_upload v c h input k info lims = Some (Inr u)"
  shows "\<exists>e. encoded_ok lims e \<and> Content u = enc_content e \<and> up_Width u = enc_width e \<and> up_Height u = enc_height e
    \<and> FrameCount u = enc_frameCount e \<and> ByteSize u = int (length (Content u)) \<and> SHA256 u = h (Content u)
    \<and> NormalizedMIMEType u = ''image/webp'' \<and> DetectedMIMEType u = formatMIME (img_format info)
    \<and> (0 < MaxOutputBytes lims \<longrightarrow> ByteSize u \<le> MaxOutputBytes lims)"
proof -
  from assms obtain e where e: "encoded_ok lims e"
    and size: "0 < MaxOutputBytes lims \<longrightarrow> int (length (enc_content e)) \<le> MaxOutputBytes lims"
    and u: "u = \<lparr>Content = enc_content e, DetectedMIMEType = formatMIME (img_format info),
       NormalizedMIMEType = ''image/webp'', ByteSize = int (length (enc_content e)),
       up_Width = enc_width e, up_Height = enc_height e,
       FrameCount = (if enc_frameCount e < 1 then 1 else enc_frameCount e),
       up_DurationMS = enc_durationMS e, SHA256 = h (enc_content e)\<rparr>"
    unfolding normalize_upload_def Let_def
    by (clarsimp simp: go_success split: if_split_asm) (auto dest!: encode_ok simp: go_success)
  have "1 \<le> enc_frameCount e" using e by (auto simp: encoded_ok_def split: option.splits sum.splits)
  then show ?thesis using e size u by (intro exI [of _ e]) auto
qed

section \<open>Properties\<close>

text \<open>A library whose every call succeeds, for the witnesses: an image is its pixel rows.\<close>

definition webp_1x1 :: bytes where
  "webp_1x1 = enc_container [\<lparr>ck_kind = ascii_bytes ''VP8L'', ck_payload = [0x2f, 0, 0, 0, 0]\<rparr>]"

definition still_vips :: "nrgba list list vips" where
  "still_vips = \<lparr>NewImageFromGoImage = Inr, LoadImageFromBuffer = (\<lambda>_ _. Inr []), Pages = (\<lambda>_. 1),
     PageHeight = (\<lambda>i. int (length i)), v_Height = (\<lambda>i. int (length i)), v_Width = (\<lambda>i. int (length (hd i))),
     PageDelay = (\<lambda>_. Inr []), Orientation = (\<lambda>_. 1), FlipHorizontal = Inr, FlipVertical = Inr,
     Rotate90 = Inr, Rotate270 = Inr, AutoRotate = Inr, RemoveOrientation = Inr, ThumbnailCentre = (\<lambda>_. Inr),
     Resize = (\<lambda>_. Inr), SetPageDelay = (\<lambda>_. Inr), SetLoop = (\<lambda>_. Inr), RemoveMetadata = Inr,
     RemoveICCProfile = Inr, ExportWebp = (\<lambda>_ _. Inr (webp_1x1, None))\<rparr>"

definition demo_processor :: processor where
  "demo_processor = \<lparr>p_options = DefaultOptions, p_busy = 1\<rparr>"

definition bmp_1x1_info :: image_header where
  "bmp_1x1_info = the (case the (inspectImage bmp_1x1) of Inr h \<Rightarrow> Some h | Inl _ \<Rightarrow> None)"

lemma demo_upload:
  "\<exists>u. process_upload id still_vips (\<lambda>_. None) (\<lambda>_. ''digest'') TakeSlot demo_processor bmp_1x1
      KindCustomEmote ''image/bmp'' = Some (Inr u, demo_processor)"
proof -
  have "map_option (\<lambda>(r, p). (is_ok r, p)) (process_upload id still_vips (\<lambda>_. None) (\<lambda>_. ''digest'')
      TakeSlot demo_processor bmp_1x1 KindCustomEmote ''image/bmp'') = Some (True, demo_processor)"
    by code_simp
  then obtain r where "process_upload id still_vips (\<lambda>_. None) (\<lambda>_. ''digest'') TakeSlot demo_processor bmp_1x1
      KindCustomEmote ''image/bmp'' = Some (r, demo_processor)" "is_ok r"
    by auto
  then show ?thesis by (cases r) auto
qed

text \<open>
  For a header
  the inspection returned, decoding the pixels always succeeds: the truncation and overflow
  checks never fire, the 64-bit offsets do not wrap, and the image has \<open>height\<close> rows of
  \<open>width\<close> pixels, each with the bytes the file stores for it, rows reversed unless the file
  is top-down.
\<close>

theorem decodeBMP_exact:
  assumes "inspectImage input = Some (Inr h)" and "img_format h = ''bmp''" and "bmp h = Some b"
    and "length input < 2 ^ 60"
  shows "decodeBMP input b = Some (Inr (map (\<lambda>y. map (stored_pixel input b
       (if topDown b then y else bmp_height b - 1 - y)) [0..<bmp_width b]) [0..<bmp_height b]))"
proof (rule decodeBMP_rows)
  show "header_ok input h" using inspectImage_post [OF assms(1)] assms(4) by simp
  then show "bmp_area_ok input h" using assms(2) by (simp add: header_ok_def)
qed (use assms in auto)

theorem decodeBMP_exact_witness:
  "\<exists>b. bmp bmp_1x1_info = Some b \<and> decodeBMP bmp_1x1 b
     = Some (Inr (map (\<lambda>y. map (stored_pixel bmp_1x1 b
         (if topDown b then y else bmp_height b - 1 - y)) [0..<bmp_width b]) [0..<bmp_height b]))"
proof -
  have "inspectImage bmp_1x1 = Some (Inr bmp_1x1_info)" "img_format bmp_1x1_info = ''bmp''"
    "case bmp bmp_1x1_info of Some b \<Rightarrow> True | None \<Rightarrow> False"
    by code_simp+
  moreover have "length bmp_1x1 < 2 ^ 60" by (simp add: bmp_1x1_def)
  ultimately show ?thesis
    using decodeBMP_exact [of bmp_1x1 bmp_1x1_info] by (auto split: option.splits)
qed

text \<open>
  Once the wait
  for a slot is decided, \<open>process\<close> returns for every input, every declared type, every answer
  of libvips and every moment at which the context ends: there is no panic on any path, and
  the slot count afterwards is what it was before, so no path leaks a slot.
\<close>

theorem process_upload_returns:
  assumes "length input < 2 ^ 60"
    and "choice = TakeSlot \<longrightarrow> int (p_busy p) < MaxProcessingConcurrency (p_options p)"
  shows "\<exists>r. process_upload ulow v c h choice p input k declared = Some (r, p)"
proof (cases "admit ulow c (p_options p) input k declared")
  case None
  then show ?thesis using admit_safe [of ulow c "p_options p" input k declared] by simp
next
  case (Some r)
  show ?thesis
  proof (cases r)
    case (Inl e)
    then show ?thesis using Some by (simp add: process_upload_def)
  next
    case (Inr il)
    obtain info lims where il: "il = (info, lims)" by fastforce
    have "header_ok input info"
      using admit_ok [of ulow c "p_options p" input k declared info lims] Some Inr il
        inspectImage_post [of input info] assms(1) by simp
    then have "go_safe (normalize_upload v c h input k info lims)"
      using normalize_upload_safe assms(1) by blast
    then obtain res where "normalize_upload v c h input k info lims = Some res"
      by (auto simp: go_safe_def)
    then show ?thesis
      using Some Inr il assms(2)
      by (cases choice) (auto simp: process_upload_def acquire_def release_def)
  qed
qed

theorem process_upload_returns_witness:
  "\<exists>r. process_upload id still_vips (\<lambda>_. None) (\<lambda>_. ''digest'') TakeSlot demo_processor bmp_1x1
      KindAvatar ''image/bmp'' = Some (r, demo_processor)"
  by (rule process_upload_returns) (simp_all add: bmp_1x1_def demo_processor_def DefaultOptions_def)

text \<open>
  C38 (processor.go:39-125 and 146-281, process and encode; policy.go:225-257; inspect.go:435-466, validate). What a
  successful upload guarantees whatever libvips does, for a processor whose options
  \<open>normalizeOptions\<close> has accepted: the kind is known and the declared type allowlisted; the input is
  non-empty and within the byte limit of its kind; the header that \<open>inspectImage\<close> reads from it is within
  the edge, pixel, frame and duration limits as integers, so that neither a dropped check nor a
  product that wraps can admit more; the stored content is a WebP with structural chunks only,
  whose own header gives the recorded dimensions and frame count; it respects the output
  bound; a policy without animation gets a single frame. The edges are those of the header:
  a frame that stands before the canvas chunk of a WebP counts with its area but not
  with its edges (\<open>late_canvas_accepted\<close>).
\<close>

theorem process_upload_ok:
  assumes "process_upload ulow v c h choice p input k declared = Some (Inr u, p')"
    and "normalizeOptions opts = Inr (p_options p)"
    and "int64_limits (Avatar (p_options p))" "int64_limits (CustomEmote (p_options p))" and "length input < 2 ^ 63"
  shows "\<exists>lims info m e.
      limits_for (p_options p) k = Some lims \<and> normalizeMIME ulow declared = Some m \<and> allowedMIME k m
    \<and> input \<noteq> [] \<and> int (length input) \<le> MaxInputBytes lims
    \<and> inspectImage input = Some (Inr info) \<and> formatAllowed k (img_format info) \<and> validate info k lims = None
    \<and> within_budget info lims
    \<and> encoded_ok lims e \<and> Content u = enc_content e \<and> up_Width u = enc_width e \<and> up_Height u = enc_height e
    \<and> FrameCount u = enc_frameCount e \<and> ByteSize u = int (length (Content u)) \<and> SHA256 u = h (Content u)
    \<and> DetectedMIMEType u = formatMIME (img_format info)
    \<and> (0 < MaxOutputBytes lims \<longrightarrow> ByteSize u \<le> MaxOutputBytes lims)"
proof -
  from assms(1) obtain info lims where adm: "admit ulow c (p_options p) input k declared = Some (Inr (info, lims))"
    and up: "normalize_upload v c h input k info lims = Some (Inr u)"
    by (auto simp: process_upload_def bind_eq_Some_conv split: option.split_asm sum.split_asm prod.split_asm)
  note ok = admit_ok [OF adm]
  have "limits_ok lims \<and> int64_limits lims"
    using ok normalizeOptions_ok [OF assms(2)] assms(3,4) by (auto simp: limits_for_def split: kind.split_asm)
  moreover have "header_ok input info" using ok inspectImage_post assms(5) by blast
  ultimately have "within_budget info lims" using ok validate_within_budget assms(5) by blast
  then show ?thesis using ok normalize_upload_ok [OF up] by auto
qed

theorem process_upload_ok_witness:
  "allowedMIME KindCustomEmote ''image/bmp'' \<and> within_budget bmp_1x1_info defaultCustomEmoteLimits
   \<and> (\<exists>u. process_upload id still_vips (\<lambda>_. None) (\<lambda>_. ''digest'') TakeSlot demo_processor bmp_1x1
         KindCustomEmote ''image/bmp'' = Some (Inr u, demo_processor) \<and> SHA256 u = ''digest'')"
proof -
  obtain u where u: "process_upload id still_vips (\<lambda>_. None) (\<lambda>_. ''digest'') TakeSlot demo_processor bmp_1x1
      KindCustomEmote ''image/bmp'' = Some (Inr u, demo_processor)"
    using demo_upload by blast
  have opts: "normalizeOptions DefaultOptions = Inr (p_options demo_processor)" "inspectImage bmp_1x1 = Some (Inr bmp_1x1_info)"
    "limits_for (p_options demo_processor) KindCustomEmote = Some defaultCustomEmoteLimits"
    by code_simp+
  have "int64_limits (Avatar (p_options demo_processor))" "int64_limits (CustomEmote (p_options demo_processor))" "length bmp_1x1 < 2 ^ 63"
    by (simp_all add: int64_limits_def demo_processor_def DefaultOptions_def defaultAvatarLimits_def defaultCustomEmoteLimits_def
        zeroLimits_def bmp_1x1_def)
  from process_upload_ok [OF u opts(1) this] show ?thesis
    using u opts(2,3) by (auto simp: allowedMIME_def)
qed

end
