(* ===== verification/Go_Json.thy ===== *)
theory Go_Json
  imports Go_Text Complex_Main
begin

text \<open>
  The part of package \<open>encoding/json\<close> the program uses: the text grammar, decoding into a
  struct with named fields, and marshalling. A JSON number keeps its literal, as the decoder
  does until it knows the target type. Raw text is a list of bytes.
\<close>

section \<open>Values\<close>

datatype json =
    JNull
  | JBool bool
  | JNum string
  | JStr string
  | JArr "json list"
  | JObj "(string \<times> json) list"

section \<open>The scanner\<close>

definition json_ws :: "char \<Rightarrow> bool" where
  "json_ws c \<longleftrightarrow> c = CHR '' '' \<or> c = CHR 0x09 \<or> c = CHR 0x0A \<or> c = CHR 0x0D"

definition skip_ws :: "string \<Rightarrow> string" where
  "skip_ws s = dropWhile json_ws s"

text \<open>The rest after an expected character.\<close>

definition expect :: "char \<Rightarrow> string \<Rightarrow> string option" where
  "expect c s = (case s of [] \<Rightarrow> None | d # r \<Rightarrow> if d = c then Some r else None)"

definition is_digit :: "char \<Rightarrow> bool" where
  "is_digit c \<longleftrightarrow> 0x30 \<le> byte_of c \<and> byte_of c \<le> 0x39"

definition hex_val :: "char \<Rightarrow> nat option" where
  "hex_val c =
    (let b = byte_of c in
     if 0x30 \<le> b \<and> b \<le> 0x39 then Some (b - 0x30)
     else if 0x61 \<le> b \<and> b \<le> 0x66 then Some (b - 0x57)
     else if 0x41 \<le> b \<and> b \<le> 0x46 then Some (b - 0x37)
     else None)"

fun hex4 :: "string \<Rightarrow> (nat \<times> string) option" where
  "hex4 (a # b # c # d # s) =
    (case (hex_val a, hex_val b, hex_val c, hex_val d) of
       (Some w, Some x, Some y, Some z) \<Rightarrow> Some (((w * 16 + x) * 16 + y) * 16 + z, s)
     | _ \<Rightarrow> None)"
| "hex4 _ = None"

definition strip_prefix :: "string \<Rightarrow> string \<Rightarrow> string option" where
  "strip_prefix p s = (if take (length p) s = p then Some (drop (length p) s) else None)"

text \<open>After \<open>\u\<close>: a code unit, joined with a following low surrogate; a lone surrogate is replaced.\<close>

definition unicode_escape :: "string \<Rightarrow> (string \<times> string) option" where
  "unicode_escape s =
    (case hex4 s of
       None \<Rightarrow> None
     | Some (u, rest) \<Rightarrow>
         if 0xD800 \<le> u \<and> u < 0xE000 then
           (case strip_prefix [CHR 0x5C, CHR ''u''] rest of
              None \<Rightarrow> Some (encode_rune RuneError, rest)
            | Some rest1 \<Rightarrow>
                (case hex4 rest1 of
                   Some (l, rest2) \<Rightarrow>
                     if u < 0xDC00 \<and> 0xDC00 \<le> l \<and> l < 0xE000
                     then Some (encode_rune (0x10000 + (u - 0xD800) * 0x400 + (l - 0xDC00)), rest2)
                     else Some (encode_rune RuneError, rest)
                 | None \<Rightarrow> Some (encode_rune RuneError, rest)))
         else Some (encode_rune u, rest))"

definition simple_escape :: "char \<Rightarrow> char option" where
  "simple_escape c =
    (if c = CHR 0x22 then Some (CHR 0x22)
     else if c = CHR 0x5C then Some (CHR 0x5C)
     else if c = CHR ''/'' then Some (CHR ''/'')
     else if c = CHR ''b'' then Some (CHR 0x08)
     else if c = CHR ''f'' then Some (CHR 0x0C)
     else if c = CHR ''n'' then Some (CHR 0x0A)
     else if c = CHR ''r'' then Some (CHR 0x0D)
     else if c = CHR ''t'' then Some (CHR 0x09)
     else None)"

text \<open>
  The body of a string literal up to its closing quote: the decoded bytes and the rest. The
  fuel bounds the number of steps; the length of the text is always enough.
\<close>

fun string_body :: "nat \<Rightarrow> string \<Rightarrow> (string \<times> string) option" where
  "string_body 0 _ = None"
| "string_body (Suc n) text =
    (case text of
       [] \<Rightarrow> None
     | c # s \<Rightarrow>
         if c = CHR 0x22 then Some ([], s)
         else if c = CHR 0x5C then
           (case s of
              [] \<Rightarrow> None
            | e # s1 \<Rightarrow>
                (case (if e = CHR ''u'' then unicode_escape s1
                       else map_option (\<lambda>d. ([d], s1)) (simple_escape e)) of
                   None \<Rightarrow> None
                 | Some (piece, s2) \<Rightarrow>
                     map_option (\<lambda>(body, rest). (piece @ body, rest)) (string_body n s2)))
         else if byte_of c < 0x20 then None
         else if byte_of c < 0x80 then
           map_option (\<lambda>(body, rest). (c # body, rest)) (string_body n s)
         else
           (let d = decode_rune (c # s) in
            map_option (\<lambda>(body, rest).
              ((if fst d = RuneError \<and> snd d = 1 then encode_rune RuneError
                else take (snd d) (c # s)) @ body, rest))
              (string_body n (drop (snd d) (c # s)))))"

text \<open>A number literal: the longest prefix of the grammar, or none.\<close>

definition scan_int :: "string \<Rightarrow> (string \<times> string) option" where
  "scan_int s =
    (case s of
       [] \<Rightarrow> None
     | c # s1 \<Rightarrow>
         if c = CHR ''0'' then Some ([c], s1)
         else if is_digit c then Some (takeWhile is_digit s, dropWhile is_digit s)
         else None)"

definition scan_frac :: "string \<Rightarrow> (string \<times> string) option" where
  "scan_frac s =
    (case expect (CHR ''.'') s of
       Some s1 \<Rightarrow>
         if takeWhile is_digit s1 = [] then None
         else Some (CHR ''.'' # takeWhile is_digit s1, dropWhile is_digit s1)
     | None \<Rightarrow> Some ([], s))"

definition scan_exp :: "string \<Rightarrow> (string \<times> string) option" where
  "scan_exp s =
    (case s of
       e # s1 \<Rightarrow>
         if e = CHR ''e'' \<or> e = CHR ''E'' then
           (let (sign, s2) = (case s1 of
                  c # s2 \<Rightarrow> if c = CHR ''+'' \<or> c = CHR ''-'' then ([c], s2) else ([], s1)
                | [] \<Rightarrow> ([], s1))
            in if takeWhile is_digit s2 = [] then None
               else Some (e # sign @ takeWhile is_digit s2, dropWhile is_digit s2))
         else Some ([], s)
     | [] \<Rightarrow> Some ([], s))"

definition scan_number :: "string \<Rightarrow> (string \<times> string) option" where
  "scan_number s =
    (let (sign, s0) = (case expect (CHR ''-'') s of Some s1 \<Rightarrow> (''-'', s1) | None \<Rightarrow> ([], s)) in
     case scan_int s0 of
       None \<Rightarrow> None
     | Some (i, s1) \<Rightarrow>
         (case scan_frac s1 of
            None \<Rightarrow> None
          | Some (f, s2) \<Rightarrow>
              (case scan_exp s2 of
                 None \<Rightarrow> None
               | Some (e, s3) \<Rightarrow> Some (sign @ i @ f @ e, s3))))"

text \<open>
  Values, array elements and object members. \<open>depth\<close> is the remaining nesting depth (the
  scanner stops at 10000); the first argument is fuel, and a fuel above the length of the
  text is always enough.
\<close>

fun json_value :: "nat \<Rightarrow> nat \<Rightarrow> string \<Rightarrow> (json \<times> string) option"
  and json_elems :: "nat \<Rightarrow> nat \<Rightarrow> string \<Rightarrow> (json list \<times> string) option"
  and json_members :: "nat \<Rightarrow> nat \<Rightarrow> string \<Rightarrow> ((string \<times> json) list \<times> string) option"
where
  "json_value 0 _ _ = None"
| "json_value (Suc n) depth s =
    (case skip_ws s of
       [] \<Rightarrow> None
     | c # s1 \<Rightarrow>
         if c = CHR 0x22 then map_option (\<lambda>(b, r). (JStr b, r)) (string_body (Suc (length s1)) s1)
         else if c = CHR ''{'' then
           (if depth = 0 then None
            else case expect (CHR ''}'') (skip_ws s1) of
              Some s2 \<Rightarrow> Some (JObj [], s2)
            | None \<Rightarrow> map_option (\<lambda>(ms, r). (JObj ms, r)) (json_members n (depth - 1) s1))
         else if c = CHR ''['' then
           (if depth = 0 then None
            else case expect (CHR '']'') (skip_ws s1) of
              Some s2 \<Rightarrow> Some (JArr [], s2)
            | None \<Rightarrow> map_option (\<lambda>(vs, r). (JArr vs, r)) (json_elems n (depth - 1) s1))
         else if c = CHR ''t'' then map_option (\<lambda>r. (JBool True, r)) (strip_prefix ''rue'' s1)
         else if c = CHR ''f'' then map_option (\<lambda>r. (JBool False, r)) (strip_prefix ''alse'' s1)
         else if c = CHR ''n'' then map_option (\<lambda>r. (JNull, r)) (strip_prefix ''ull'' s1)
         else map_option (\<lambda>(l, r). (JNum l, r)) (scan_number (c # s1)))"
| "json_elems 0 _ _ = None"
| "json_elems (Suc n) depth s =
    (case json_value n depth s of
       None \<Rightarrow> None
     | Some (v, r) \<Rightarrow>
         (case expect (CHR '','') (skip_ws r) of
            Some r1 \<Rightarrow> map_option (\<lambda>(vs, r2). (v # vs, r2)) (json_elems n depth r1)
          | None \<Rightarrow> map_option (\<lambda>r1. ([v], r1)) (expect (CHR '']'') (skip_ws r))))"
| "json_members 0 _ _ = None"
| "json_members (Suc n) depth s =
    (case expect (CHR 0x22) (skip_ws s) of
       None \<Rightarrow> None
     | Some s1 \<Rightarrow>
         (case string_body (Suc (length s1)) s1 of
            None \<Rightarrow> None
          | Some (k, s2) \<Rightarrow>
              (case expect (CHR '':'') (skip_ws s2) of
                 None \<Rightarrow> None
               | Some s3 \<Rightarrow>
                   (case json_value n depth s3 of
                      None \<Rightarrow> None
                    | Some (v, r) \<Rightarrow>
                        (case expect (CHR '','') (skip_ws r) of
                           Some r1 \<Rightarrow> map_option (\<lambda>(ms, r2). ((k, v) # ms, r2)) (json_members n depth r1)
                         | None \<Rightarrow> map_option (\<lambda>r1. ([(k, v)], r1)) (expect (CHR ''}'') (skip_ws r)))))))"

definition max_nesting :: nat where
  "max_nesting = 10000"

text \<open>One value with nothing but white space around it.\<close>

definition json_text :: "string \<Rightarrow> json option" where
  "json_text s =
    (case json_value (2 * length s + 2) max_nesting s of
       Some (v, r) \<Rightarrow> if skip_ws r = [] then Some v else None
     | None \<Rightarrow> None)"

section \<open>Number literals\<close>

text \<open>The rational a literal denotes; \<open>f64\<close> below is its rounding to a float64.\<close>

definition digits_rat :: "string \<Rightarrow> rat" where
  "digits_rat s = of_nat (atoi_acc 0 s)"

definition exp_int :: "string \<Rightarrow> int" where
  "exp_int s =
    (case s of
       [] \<Rightarrow> 0
     | c # s1 \<Rightarrow> if c = CHR ''-'' then - int (atoi_acc 0 s1)
                else if c = CHR ''+'' then int (atoi_acc 0 s1) else int (atoi_acc 0 s))"

definition pow10 :: "int \<Rightarrow> rat" where
  "pow10 e = (if e < 0 then 1 / 10 ^ nat (- e) else 10 ^ nat e)"

definition literal_value :: "string \<Rightarrow> rat" where
  "literal_value l =
    (let neg = (take 1 l = ''-''); l0 = (if neg then drop 1 l else l);
         ip = takeWhile is_digit l0; r = dropWhile is_digit l0;
         fp = (if take 1 r = ''.'' then takeWhile is_digit (drop 1 r) else []);
         r2 = (if take 1 r = ''.'' then dropWhile is_digit (drop 1 r) else r);
         ex = exp_int (drop 1 r2);
         m = (digits_rat ip + digits_rat fp / 10 ^ length fp) * pow10 ex
     in if neg then - m else m)"

section \<open>Marshalling\<close>

definition hex_digit :: "nat \<Rightarrow> char" where
  "hex_digit n = (if n < 10 then char_of (0x30 + n) else char_of (0x57 + n))"

definition u_escape :: "nat \<Rightarrow> string" where
  "u_escape r = [CHR 0x5C, CHR ''u'', hex_digit (r div 4096), hex_digit (r div 256 mod 16),
     hex_digit (r div 16 mod 16), hex_digit (r mod 16)]"

text \<open>The escape of one rune with the bytes it was decoded from.\<close>

definition json_escape :: "rune \<times> string \<Rightarrow> string" where
  "json_escape p =
    (let r = fst p in
     if r = 0x22 \<or> r = 0x5C then [CHR 0x5C, char_of r]
     else if r = 0x08 then [CHR 0x5C, CHR ''b'']
     else if r = 0x0C then [CHR 0x5C, CHR ''f'']
     else if r = 0x0A then [CHR 0x5C, CHR ''n'']
     else if r = 0x0D then [CHR 0x5C, CHR ''r'']
     else if r = 0x09 then [CHR 0x5C, CHR ''t'']
     else if r < 0x20 \<or> r = 0x3C \<or> r = 0x3E \<or> r = 0x26 \<or> r = 0x2028 \<or> r = 0x2029 then u_escape r
     else if r = RuneError \<and> length (snd p) = 1 then u_escape r
     else snd p)"

definition json_quote :: "string \<Rightarrow> string" where
  "json_quote s = [CHR 0x22] @ concat (map json_escape (runes s)) @ [CHR 0x22]"

fun intercalate_comma :: "string list \<Rightarrow> string" where
  "intercalate_comma [] = []"
| "intercalate_comma [x] = x"
| "intercalate_comma (x # y # ys) = x @ '','' @ intercalate_comma (y # ys)"

fun json_print :: "json \<Rightarrow> string" where
  "json_print JNull = ''null''"
| "json_print (JBool b) = (if b then ''true'' else ''false'')"
| "json_print (JNum l) = l"
| "json_print (JStr s) = json_quote s"
| "json_print (JArr vs) = ''['' @ intercalate_comma (map json_print vs) @ '']''"
| "json_print (JObj ms) = ''{'' @ intercalate_comma (map (\<lambda>(k, v). json_quote k @ '':'' @ json_print v) ms) @ ''}''"

section \<open>Decoding into a struct\<close>

text \<open>
  The field a key of an object is stored into: the field of that name, else the first one
  whose name differs only in case. A JSON null leaves a field as it is; a value of another
  type is an error.
\<close>

definition json_field :: "string list \<Rightarrow> string \<Rightarrow> string option" where
  "json_field names key =
    (case find (\<lambda>n. n = key) names of Some n \<Rightarrow> Some n | None \<Rightarrow> find (\<lambda>n. EqualFold key n) names)"

definition assign_string :: "string \<Rightarrow> json \<Rightarrow> string option" where
  "assign_string old v = (case v of JStr s \<Rightarrow> Some s | JNull \<Rightarrow> Some old | _ \<Rightarrow> None)"

definition assign_float :: "(rat \<Rightarrow> rat option) \<Rightarrow> rat \<Rightarrow> json \<Rightarrow> rat option" where
  "assign_float f64 old v = (case v of JNum l \<Rightarrow> f64 (literal_value l) | JNull \<Rightarrow> Some old | _ \<Rightarrow> None)"

text \<open>The members of an object in their order; the first error wins, later members cannot undo it.\<close>

fun assign_members :: "('r \<Rightarrow> string \<Rightarrow> json \<Rightarrow> 'r option) \<Rightarrow> 'r \<Rightarrow> (string \<times> json) list \<Rightarrow> 'r option" where
  "assign_members f r [] = Some r"
| "assign_members f r ((k, v) # ms) = (case f r k v of None \<Rightarrow> None | Some r' \<Rightarrow> assign_members f r' ms)"

definition decode_struct :: "('r \<Rightarrow> string \<Rightarrow> json \<Rightarrow> 'r option) \<Rightarrow> 'r \<Rightarrow> json \<Rightarrow> 'r option" where
  "decode_struct f zero v = (case v of JObj ms \<Rightarrow> assign_members f zero ms | JNull \<Rightarrow> Some zero | _ \<Rightarrow> None)"

section \<open>What is printed parses back\<close>

lemma hex_val_digit: "n < 16 \<Longrightarrow> hex_val (hex_digit n) = Some n"
  by (auto simp: hex_val_def hex_digit_def Let_def)

lemma hex4_escape: "r < 0x10000 \<Longrightarrow> hex4 (drop 2 (u_escape r) @ t) = Some (r, t)"
proof -
  assume r: "r < 0x10000"
  define a b c where "a = r div 16" and "b = a div 16" and "c = b div 16"
  have eqs: "r div 4096 = c" "r div 256 = b" by (simp_all add: a_def b_def c_def div_mult2_eq [symmetric])
  have "c < 16" using r by (simp add: a_def b_def c_def div_mult2_eq [symmetric])
  moreover have "((c * 16 + b mod 16) * 16 + a mod 16) * 16 + r mod 16 = r"
  proof -
    have "c * 16 + b mod 16 = b" "b * 16 + a mod 16 = a" "a * 16 + r mod 16 = r"
      by (simp_all add: a_def b_def c_def)
    then show ?thesis by simp
  qed
  ultimately show ?thesis
    by (simp add: u_escape_def hex_val_digit eqs a_def [symmetric])
qed

lemma unicode_escape_plain:
  assumes "r < 0xD800" shows "unicode_escape (drop 2 (u_escape r) @ t) = Some (encode_rune r, t)"
  using hex4_escape [of r t] assms by (simp add: unicode_escape_def)

lemma u_escape_split: "u_escape r @ t = CHR 0x5C # CHR ''u'' # drop 2 (u_escape r) @ t"
  by (simp add: u_escape_def)

lemma string_body_u:
  assumes "r < 0xD800"
  shows "string_body (Suc n) (u_escape r @ t) = map_option (\<lambda>(b, x). (encode_rune r @ b, x)) (string_body n t)"
  unfolding u_escape_split using unicode_escape_plain [OF assms, of t] by simp

lemma encode_rune_ascii: "r < 0x80 \<Longrightarrow> encode_rune r = [char_of r]"
  by (simp add: encode_rune_def valid_rune_def Let_def)

lemma string_body_copy:
  assumes "valid_rune r" and "0x80 \<le> r"
  shows "string_body (Suc n) (encode_rune r @ t) = map_option (\<lambda>(b, x). (encode_rune r @ b, x)) (string_body n t)"
proof -
  obtain c s where cs: "encode_rune r @ t = c # s"
    using encode_rune_nonempty by (cases "encode_rune r @ t") auto
  have dec: "decode_rune (c # s) = (r, length (encode_rune r))"
    using decode_encode [OF assms(1), of t] cs by simp
  have big: "\<not> byte_of c < 0x80"
    using decode_rune_ascii [of c s] dec assms(2) by auto
  then have "c \<noteq> CHR 0x22" "c \<noteq> CHR 0x5C" by auto
  moreover have "\<not> (r = RuneError \<and> length (encode_rune r) = 1)"
    by (auto simp: RuneError_def encode_rune_def valid_rune_def Let_def)
  moreover have "take (length (encode_rune r)) (c # s) = encode_rune r" "drop (length (encode_rune r)) (c # s) = t"
    using cs by (metis append_eq_conv_conj)+
  ultimately show ?thesis
    unfolding cs using big dec by (auto simp: Let_def)
qed

lemma string_body_rune:
  assumes "valid_rune r"
  shows "string_body (Suc n) (json_escape (r, encode_rune r) @ t)
    = map_option (\<lambda>(b, x). (encode_rune r @ b, x)) (string_body n t)"
proof (cases "r < 0x80")
  case True
  consider "r \<in> {0x22, 0x5C, 0x08, 0x0C, 0x0A, 0x0D, 0x09}"
    | "r \<notin> {0x22, 0x5C, 0x08, 0x0C, 0x0A, 0x0D, 0x09}" "r < 0x20 \<or> r = 0x3C \<or> r = 0x3E \<or> r = 0x26"
    | "0x20 \<le> r" "r \<noteq> 0x22" "r \<noteq> 0x5C" "r \<noteq> 0x3C" "r \<noteq> 0x3E" "r \<noteq> 0x26"
    by (use not_less [of r "0x20"] in blast)
  then show ?thesis
  proof cases
    case 1
    have lits: "char_of (0x22 :: nat) = CHR 0x22" "char_of (0x5C :: nat) = CHR 0x5C" "char_of (8 :: nat) = CHR 0x08"
      "char_of (0x0C :: nat) = CHR 0x0C" "char_of (0x0A :: nat) = CHR 0x0A" "char_of (0x0D :: nat) = CHR 0x0D"
      "char_of (9 :: nat) = CHR 0x09"
      by code_simp+
    from 1 show ?thesis
      unfolding insert_iff empty_iff
      by (elim disjE; simp add: json_escape_def simple_escape_def encode_rune_ascii lits)
  next
    case 2
    then have "json_escape (r, encode_rune r) = u_escape r" by (auto simp: json_escape_def)
    then show ?thesis using string_body_u [of r n t] True by simp
  next
    case 3
    have b: "byte_of (char_of r) = r" using True by simp
    have "byte_of (CHR 0x22) = 0x22" "byte_of (CHR 0x5C) = 0x5C" by simp_all
    then have "char_of r \<noteq> CHR 0x22" "char_of r \<noteq> CHR 0x5C" using 3 b by metis+
    then show ?thesis
      using 3 True by (auto simp: json_escape_def encode_rune_ascii Let_def RuneError_def)
  qed
next
  case False
  show ?thesis
  proof (cases "r = 0x2028 \<or> r = 0x2029")
    case True
    then show ?thesis using string_body_u [of r n t] by (auto simp: json_escape_def)
  next
    case sep: False
    have "length (encode_rune r) \<noteq> 1 \<or> r \<noteq> RuneError"
      by (auto simp: RuneError_def encode_rune_def valid_rune_def Let_def)
    then have "json_escape (r, encode_rune r) = encode_rune r"
      using False sep by (auto simp: json_escape_def Let_def)
    then show ?thesis using string_body_copy [OF assms] False by simp
  qed
qed

lemma string_body_quoted:
  assumes "\<forall>r \<in> set rs. valid_rune r" and "length rs < n"
  shows "string_body n (concat (map (\<lambda>r. json_escape (r, encode_rune r)) rs) @ CHR 0x22 # t) = Some (utf8 rs, t)"
  using assms
proof (induction rs arbitrary: n)
  case Nil
  then show ?case by (cases n) (simp_all add: utf8_def)
next
  case (Cons r rs)
  then obtain m where "n = Suc m" by (cases n) auto
  then show ?case
    using Cons string_body_rune [of r m "concat (map (\<lambda>r. json_escape (r, encode_rune r)) rs) @ CHR 0x22 # t"]
    by (simp add: utf8_def)
qed
lemma json_escape_len: "1 \<le> length (json_escape (r, encode_rune r))"
  using encode_rune_nonempty [of r] by (auto simp: json_escape_def u_escape_def Let_def Suc_le_eq)

definition utf8_ok :: "string \<Rightarrow> bool" where
  "utf8_ok s \<longleftrightarrow> (\<exists>rs. (\<forall>r \<in> set rs. valid_rune r) \<and> s = utf8 rs)"

lemma string_quote_parse:
  assumes "utf8_ok s"
  shows "\<exists>b. json_quote s @ t = CHR 0x22 # b \<and> string_body (Suc (length b)) b = Some (s, t)"
proof -
  obtain rs where rs: "\<forall>r \<in> set rs. valid_rune r" "s = utf8 rs" using assms by (auto simp: utf8_ok_def)
  let ?e = "concat (map (\<lambda>r. json_escape (r, encode_rune r)) rs)"
  have "length rs \<le> length ?e"
  proof (induction rs)
    case (Cons r rs) then show ?case using json_escape_len [of r] by simp
  qed simp
  then have "string_body (Suc (length (?e @ CHR 0x22 # t))) (?e @ CHR 0x22 # t) = Some (s, t)"
    using string_body_quoted [OF rs(1), of "Suc (length (?e @ CHR 0x22 # t))" t] rs(2) by simp
  moreover have "json_quote s @ t = CHR 0x22 # (?e @ CHR 0x22 # t)"
    using rs by (simp add: json_quote_def runes_utf8 o_def)
  ultimately show ?thesis by blast
qed

lemma itoa_nat_digits: "\<forall>c \<in> set (itoa_nat n). is_digit c"
proof (induction n rule: itoa_nat.induct)
  case (1 n)
  have "is_digit (digit_char d)" if "d < 10" for d using that by (simp add: digit_char_def is_digit_def)
  then show ?case using 1 by (subst itoa_nat.simps) auto
qed

lemma itoa_nat_nonempty: "itoa_nat n \<noteq> []"
  by (subst itoa_nat.simps) simp

lemma itoa_nat_head: "n \<noteq> 0 \<Longrightarrow> itoa_nat n = c # s \<Longrightarrow> c \<noteq> CHR ''0''"
proof (induction n arbitrary: s rule: itoa_nat.induct)
  case (1 n)
  show ?case
  proof (cases "n < 10")
    case True
    then have "c = digit_char n" using 1(3) by (subst (asm) itoa_nat.simps) simp
    then have "byte_of c = 0x30 + n" using True by (simp add: digit_char_def)
    then show ?thesis using 1(2) by auto
  next
    case False
    obtain d s' where d: "itoa_nat (n div 10) = d # s'"
      using itoa_nat_nonempty by (cases "itoa_nat (n div 10)") auto
    have "itoa_nat n = itoa_nat (n div 10) @ [digit_char (n mod 10)]" using False by (subst itoa_nat.simps) simp
    then have "c = d" using d 1(3) by simp
    moreover have "n div 10 \<noteq> 0" using False by simp
    ultimately show ?thesis using 1(1) [OF False] d by blast
  qed
qed

text \<open>What may follow a number.\<close>

definition num_end :: "string \<Rightarrow> bool" where
  "num_end t = (case t of [] \<Rightarrow> True | c # _ \<Rightarrow> \<not> is_digit c \<and> c \<noteq> CHR ''.'' \<and> c \<noteq> CHR ''e'' \<and> c \<noteq> CHR ''E'')"

lemma scan_int_itoa: "num_end t \<Longrightarrow> scan_int (itoa_nat n @ t) = Some (itoa_nat n, t)"
proof -
  assume t: "num_end t"
  obtain c s where cs: "itoa_nat n = c # s" using itoa_nat_nonempty by (cases "itoa_nat n") auto
  have "takeWhile is_digit (itoa_nat n @ t) = itoa_nat n" "dropWhile is_digit (itoa_nat n @ t) = t"
    using itoa_nat_digits [of n] t by (auto simp: takeWhile_append dropWhile_append num_end_def split: list.splits)
  moreover have "c = CHR ''0'' \<Longrightarrow> n = 0" using itoa_nat_head cs by blast
  moreover have "itoa_nat 0 = ''0''" by (subst itoa_nat.simps) (simp add: digit_char_def, code_simp)
  moreover have "is_digit c" using itoa_nat_digits [of n] cs by simp
  ultimately show ?thesis using cs by (auto simp: scan_int_def)
qed

lemma num_end_scan: "num_end t \<Longrightarrow> scan_frac t = Some ([], t) \<and> scan_exp t = Some ([], t)"
  by (cases t) (simp_all add: num_end_def scan_frac_def scan_exp_def expect_def)

lemma scan_number_itoa:
  assumes "num_end t" shows "scan_number (itoa i @ t) = Some (itoa i, t)"
proof (cases "i < 0")
  case True
  then show ?thesis
    using scan_int_itoa [OF assms] num_end_scan [OF assms]
    by (simp add: scan_number_def itoa_def expect_def)
next
  case False
  obtain c s where cs: "itoa_nat (nat i) = c # s" using itoa_nat_nonempty by (cases "itoa_nat (nat i)") auto
  have "is_digit c" using itoa_nat_digits [of "nat i"] cs by simp
  then have "c \<noteq> CHR ''-''" by (auto simp: is_digit_def)
  then show ?thesis
    using scan_int_itoa [OF assms, of "nat i"] num_end_scan [OF assms] False cs
    by (simp add: scan_number_def itoa_def expect_def)
qed

section \<open>Round trip of values\<close>

text \<open>The values the program marshals: valid UTF-8 strings and integer numbers.\<close>

fun json_plain :: "json \<Rightarrow> bool" where
  "json_plain JNull \<longleftrightarrow> True"
| "json_plain (JBool b) \<longleftrightarrow> True"
| "json_plain (JNum l) \<longleftrightarrow> (\<exists>i. l = itoa i)"
| "json_plain (JStr s) \<longleftrightarrow> utf8_ok s"
| "json_plain (JArr vs) \<longleftrightarrow> (\<forall>v \<in> set vs. json_plain v)"
| "json_plain (JObj ms) \<longleftrightarrow> (\<forall>m \<in> set ms. utf8_ok (fst m) \<and> json_plain (snd m))"

fun json_depth :: "json \<Rightarrow> nat" where
  "json_depth (JArr vs) = Suc (fold max (map json_depth vs) 0)"
| "json_depth (JObj ms) = Suc (fold max (map (json_depth \<circ> snd) ms) 0)"
| "json_depth _ = 0"

text \<open>Fuel that is enough for a printed value.\<close>

fun json_fuel :: "json \<Rightarrow> nat" where
  "json_fuel (JArr vs) = 1 + sum_list (map (\<lambda>v. 1 + json_fuel v) vs)"
| "json_fuel (JObj ms) = 1 + sum_list (map (\<lambda>m. 1 + json_fuel (snd m)) ms)"
| "json_fuel _ = 1"

lemma skip_ws_cons [simp]: "\<not> json_ws c \<Longrightarrow> skip_ws (c # s) = c # s"
  by (simp add: skip_ws_def)

lemma json_quote_cons: "\<exists>b. json_quote s = CHR 0x22 # b"
  by (simp add: json_quote_def)

lemma json_print_head:
  assumes "json_plain v"
  shows "\<exists>c s. json_print v = c # s \<and> \<not> json_ws c \<and> c \<noteq> CHR '']''"
proof (cases v)
  case (JNum l)
  then obtain i where "l = itoa i" using assms by auto
  moreover have "\<exists>c s. itoa i = c # s \<and> (is_digit c \<or> c = CHR ''-'')" for i
    using itoa_nat_digits [of "nat i"] itoa_nat_nonempty [of "nat i"]
    by (cases "itoa_nat (nat i)") (auto simp: itoa_def)
  moreover have "\<not> json_ws c \<and> c \<noteq> CHR '']''" if "is_digit c \<or> c = CHR ''-''" for c
    using that by (auto simp: is_digit_def json_ws_def)
  ultimately show ?thesis using JNum by (metis json_print.simps(3))
qed (auto simp: json_quote_def json_ws_def)

lemma fold_max_start: "a \<le> fold max xs (a :: nat)"
  by (induction xs arbitrary: a) (auto intro: le_trans [OF max.cobounded2])

lemma fold_max_ge: "x \<in> set xs \<Longrightarrow> x \<le> fold max xs (a :: nat)"
  by (induction xs arbitrary: a) (auto intro: le_trans [OF max.cobounded1 fold_max_start])

lemma expect_simps [simp]: "expect c (c # s) = Some s" "d \<noteq> c \<Longrightarrow> expect c (d # s) = None" "expect c [] = None"
  by (simp_all add: expect_def)

lemma json_ws_lits [simp]:
  "\<not> json_ws (CHR '','')" "\<not> json_ws (CHR '']'')" "\<not> json_ws (CHR ''}'')" "\<not> json_ws (CHR '':'')"
  "\<not> json_ws (CHR 0x22)" "\<not> json_ws (CHR ''{'')" "\<not> json_ws (CHR ''['')"
  by (simp_all add: json_ws_def)

lemma num_end_lits [simp]: "num_end (CHR '','' # t)" "num_end (CHR '']'' # t)" "num_end (CHR ''}'' # t)" "num_end []"
  by (simp_all add: num_end_def is_digit_def)

lemma elems_print:
  assumes "vs \<noteq> []" and "\<forall>v \<in> set vs. json_plain v"
    and "\<And>v n d t. v \<in> set vs \<Longrightarrow> json_fuel v \<le> n \<Longrightarrow> json_depth v \<le> d \<Longrightarrow> num_end t \<Longrightarrow>
       json_value n d (json_print v @ t) = Some (v, t)"
    and "sum_list (map (\<lambda>v. 1 + json_fuel v) vs) \<le> n" and "\<forall>v \<in> set vs. json_depth v \<le> d"
  shows "json_elems n d (intercalate_comma (map json_print vs) @ CHR '']'' # t) = Some (vs, t)"
  using assms
proof (induction vs arbitrary: n rule: list_nonempty_induct)
  case (single v)
  then obtain m where "n = Suc m" by (cases n) auto
  then show ?case using single by simp
next
  case (cons v vs)
  obtain m where n: "n = Suc m" using cons.prems(3) by (cases n) auto
  obtain w ws where ws: "vs = w # ws" using cons.hyps by (cases vs) auto
  have "json_elems m d (intercalate_comma (map json_print vs) @ CHR '']'' # t) = Some (vs, t)"
    using cons.prems n by (intro cons.IH) auto
  moreover have "json_value m d (json_print v @ CHR '','' # intercalate_comma (map json_print vs) @ CHR '']'' # t)
     = Some (v, CHR '','' # intercalate_comma (map json_print vs) @ CHR '']'' # t)"
    using cons.prems n by (intro cons.prems(2)) auto
  ultimately show ?case by (simp add: n ws)
qed

lemma members_print:
  assumes "ms \<noteq> []" and "\<forall>m \<in> set ms. utf8_ok (fst m) \<and> json_plain (snd m)"
    and "\<And>m n d t. m \<in> set ms \<Longrightarrow> json_fuel (snd m) \<le> n \<Longrightarrow> json_depth (snd m) \<le> d \<Longrightarrow> num_end t \<Longrightarrow>
       json_value n d (json_print (snd m) @ t) = Some (snd m, t)"
    and "sum_list (map (\<lambda>m. 1 + json_fuel (snd m)) ms) \<le> n" and "\<forall>m \<in> set ms. json_depth (snd m) \<le> d"
  shows "json_members n d (intercalate_comma (map (\<lambda>(k, v). json_quote k @ '':'' @ json_print v) ms) @ CHR ''}'' # t)
    = Some (ms, t)"
  using assms
proof (induction ms arbitrary: n rule: list_nonempty_induct)
  case (single m)
  then obtain j where n: "n = Suc j" by (cases n) auto
  obtain k v where m: "m = (k, v)" by fastforce
  from single m string_quote_parse [of k "CHR '':'' # json_print v @ CHR ''}'' # t"] obtain b where
    "json_quote k @ CHR '':'' # json_print v @ CHR ''}'' # t = CHR 0x22 # b"
    "string_body (Suc (length b)) b = Some (k, CHR '':'' # json_print v @ CHR ''}'' # t)" by auto
  moreover have "json_value j d (json_print v @ CHR ''}'' # t) = Some (v, CHR ''}'' # t)"
    using single.prems(2) [of m j d "CHR ''}'' # t"] single.prems(3,4) n m by simp
  ultimately show ?case by (simp add: n m)
next
  case (cons m ms)
  obtain j where n: "n = Suc j" using cons.prems(3) by (cases n) auto
  obtain k v where m: "m = (k, v)" by fastforce
  obtain w ws where ws: "ms = w # ws" using cons.hyps by (cases ms) auto
  let ?rest = "intercalate_comma (map (\<lambda>(k, v). json_quote k @ '':'' @ json_print v) ms) @ CHR ''}'' # t"
  have "json_members j d ?rest = Some (ms, t)"
    using cons.prems n by (intro cons.IH) auto
  moreover have "json_value j d (json_print v @ CHR '','' # ?rest) = Some (v, CHR '','' # ?rest)"
    using cons.prems(2) [of m j d "CHR '','' # ?rest"] cons.prems(3,4) n m by simp
  moreover obtain b where
    "json_quote k @ CHR '':'' # json_print v @ CHR '','' # ?rest = CHR 0x22 # b"
    "string_body (Suc (length b)) b = Some (k, CHR '':'' # json_print v @ CHR '','' # ?rest)"
    using cons.prems(1) m string_quote_parse [of k "CHR '':'' # json_print v @ CHR '','' # ?rest"] by auto
  ultimately show ?case by (simp add: n m ws)
qed

lemma json_value_print:
  assumes "json_plain v" and "json_fuel v \<le> n" and "json_depth v \<le> d" and "num_end t"
  shows "json_value n d (json_print v @ t) = Some (v, t)"
  using assms
proof (induction v arbitrary: n d t rule: json_print.induct)
  case 1
  then show ?case by (cases n) (simp_all add: json_ws_def strip_prefix_def)
next
  case (2 b)
  then show ?case by (cases n) (simp_all add: json_ws_def strip_prefix_def)
next
  case (3 l)
  then obtain i m where l: "l = itoa i" and n: "n = Suc m" by (cases n) auto
  obtain c s where cs: "itoa i = c # s" "\<not> json_ws c" using json_print_head [of "JNum l"] 3 l by auto
  have "is_digit c \<or> c = CHR ''-''"
    using cs itoa_nat_digits [of "nat i"] by (cases "i < 0") (auto simp: itoa_def)
  then have "c \<notin> {CHR 0x22, CHR ''{'', CHR ''['', CHR ''t'', CHR ''f'', CHR ''n''}" by (auto simp: is_digit_def)
  then show ?case
    using scan_number_itoa [OF 3(4), of i] cs by (simp add: n l)
next
  case (4 s)
  then obtain m where n: "n = Suc m" by (cases n) auto
  from string_quote_parse [of s t] 4 obtain b where
    "json_quote s @ t = CHR 0x22 # b" "string_body (Suc (length b)) b = Some (s, t)" by auto
  then show ?case by (simp add: n)
next
  case (5 vs)
  then obtain m where n: "n = Suc m" by (cases n) auto
  have d: "d \<noteq> 0" "\<forall>v \<in> set vs. json_depth v \<le> d - 1"
    using 5(4) fold_max_ge [of _ "map json_depth vs" 0] by fastforce+
  show ?case
  proof (cases vs)
    case Nil
    then show ?thesis using d by (simp add: n)
  next
    case (Cons w ws)
    have "json_elems m (d - 1) (intercalate_comma (map json_print vs) @ CHR '']'' # t) = Some (vs, t)"
      using 5 d n by (intro elems_print) (auto simp: Cons)
    moreover obtain c s where c: "json_print w = c # s" "\<not> json_ws c" "c \<noteq> CHR '']''"
      using json_print_head [of w] 5(2) Cons by auto
    then have "\<exists>s. intercalate_comma (map json_print vs) = c # s" using Cons by (cases ws) auto
    ultimately show ?thesis using d c(2,3) by (auto simp: n)
  qed
next
  case (6 ms)
  then obtain m where n: "n = Suc m" by (cases n) auto
  have d: "d \<noteq> 0" "\<forall>v \<in> set ms. json_depth (snd v) \<le> d - 1"
    using 6(4) fold_max_ge [of _ "map (json_depth \<circ> snd) ms" 0] by fastforce+
  show ?case
  proof (cases ms)
    case Nil
    then show ?thesis using d by (simp add: n)
  next
    case (Cons w ws)
    have ih: "json_value n d (json_print (snd x) @ t) = Some (snd x, t)"
      if "x \<in> set ms" "json_fuel (snd x) \<le> n" "json_depth (snd x) \<le> d" "num_end t" for x n d t
      using 6(1) [of x "fst x" "snd x" n d t] 6(2) that by simp
    have "json_members m (d - 1) (intercalate_comma (map (\<lambda>(k, v). json_quote k @ '':'' @ json_print v) ms)
        @ CHR ''}'' # t) = Some (ms, t)"
      by (rule members_print [OF _ _ ih]) (use 6 d n Cons in auto)
    moreover have "\<exists>s. intercalate_comma (map (\<lambda>(k, v). json_quote k @ '':'' @ json_print v) ms) = CHR 0x22 # s"
      using Cons by (cases ws; cases w) (auto simp: json_quote_def)
    ultimately show ?thesis using d by (auto simp: n)
  qed
qed

lemma intercalate_fuel:
  "\<forall>x \<in> set xs. f x \<le> length (g x) \<Longrightarrow>
   sum_list (map (\<lambda>x. 1 + f x) xs) \<le> Suc (length (intercalate_comma (map g xs)))"
proof (induction xs)
  case (Cons x xs)
  then show ?case by (cases xs) auto
qed simp

lemma json_fuel_le:
  assumes "json_plain v" shows "json_fuel v \<le> length (json_print v)"
  using assms
proof (induction v rule: json_print.induct)
  case (3 l)
  then show ?case using json_print_head [of "JNum l"] by auto
next
  case (5 vs)
  then have "sum_list (map (\<lambda>v. 1 + json_fuel v) vs) \<le> Suc (length (intercalate_comma (map json_print vs)))"
    by (intro intercalate_fuel) auto
  then show ?case by simp
next
  case (6 ms)
  have "\<forall>m \<in> set ms. json_fuel (snd m) \<le> length ((\<lambda>(k, v). json_quote k @ '':'' @ json_print v) m)"
    using 6 by (fastforce simp: trans_le_add2)
  from intercalate_fuel [OF this] show ?case by simp
qed (simp_all add: json_quote_def)

text \<open>A marshalled value, as text, decodes to itself.\<close>

lemma json_text_print:
  assumes "json_plain v" and "json_depth v \<le> max_nesting"
  shows "json_text (json_print v) = Some v"
  using json_value_print [OF assms(1) _ assms(2), of "2 * length (json_print v) + 2" "[]"] json_fuel_le [OF assms(1)]
  by (simp add: json_text_def skip_ws_def)

end
