(* ===== verification/P2P_Envelope.thy ===== *)
theory P2P_Envelope
  imports Go_Json Prelude
begin

text \<open>
  p2p/envelope.go: the frames a client may send, and the frames the server writes. The
  rounding of a number literal to a float64 is the parameter \<open>f64\<close>.
\<close>

section \<open>Data\<close>

record SecureEnvelope =
  env_Type :: string
  env_Version :: int
  env_Channel :: string
  env_Nonce :: string
  env_Ciphertext :: string

record clientMessage =
  cm_Type :: string
  cm_Version :: rat
  cm_Channel :: string
  cm_Nonce :: string
  cm_Ciphertext :: string

datatype ClientMessageKind = ClientMessageInvalid | ClientMessageLeave | ClientMessageSecure

record ClientMessage =
  Kind :: ClientMessageKind
  Envelope :: SecureEnvelope

datatype envelope_error = ErrInvalidMessage | ErrInvalidEnvelope

definition SecureEnvelopeVersion :: int where
  "SecureEnvelopeVersion = 1"

definition MaxEnvelopeValueBytes :: nat where
  "MaxEnvelopeValueBytes = 16384"

definition zeroEnvelope :: SecureEnvelope where
  "zeroEnvelope = \<lparr>env_Type = [], env_Version = 0, env_Channel = [], env_Nonce = [], env_Ciphertext = []\<rparr>"

definition zeroClientMessage :: clientMessage where
  "zeroClientMessage = \<lparr>cm_Type = [], cm_Version = 0, cm_Channel = [], cm_Nonce = [], cm_Ciphertext = []\<rparr>"

section \<open>Parsing a client frame\<close>

definition isAllowedChannel :: "string \<Rightarrow> bool" where
  "isAllowedChannel channel \<longleftrightarrow> channel = ''signal'' \<or> channel = ''ws-chat'' \<or> channel = ''profile''"

definition base64url_char :: "char \<Rightarrow> bool" where
  "base64url_char c \<longleftrightarrow>
     (let b = byte_of c in
      (0x41 \<le> b \<and> b \<le> 0x5A) \<or> (0x61 \<le> b \<and> b \<le> 0x7A) \<or> (0x30 \<le> b \<and> b \<le> 0x39)
      \<or> c = CHR ''_'' \<or> c = CHR ''-'')"

definition isSafeBase64URL :: "string \<Rightarrow> bool" where
  "isSafeBase64URL value \<longleftrightarrow>
     length value > 0 \<and> length value \<le> MaxEnvelopeValueBytes \<and> list_all base64url_char value"

definition client_field :: "(rat \<Rightarrow> rat option) \<Rightarrow> clientMessage \<Rightarrow> string \<Rightarrow> json \<Rightarrow> clientMessage option" where
  "client_field f64 m key v =
    (case json_field [''type'', ''v'', ''channel'', ''nonce'', ''ciphertext''] key of
       None \<Rightarrow> Some m
     | Some name \<Rightarrow>
         if name = ''type'' then map_option (\<lambda>s. m\<lparr>cm_Type := s\<rparr>) (assign_string (cm_Type m) v)
         else if name = ''v'' then map_option (\<lambda>x. m\<lparr>cm_Version := x\<rparr>) (assign_float f64 (cm_Version m) v)
         else if name = ''channel'' then map_option (\<lambda>s. m\<lparr>cm_Channel := s\<rparr>) (assign_string (cm_Channel m) v)
         else if name = ''nonce'' then map_option (\<lambda>s. m\<lparr>cm_Nonce := s\<rparr>) (assign_string (cm_Nonce m) v)
         else map_option (\<lambda>s. m\<lparr>cm_Ciphertext := s\<rparr>) (assign_string (cm_Ciphertext m) v))"

definition ParseClientMessage :: "(rat \<Rightarrow> rat option) \<Rightarrow> string \<Rightarrow> (envelope_error, ClientMessage) result" where
  "ParseClientMessage f64 raw =
    (if length raw = 0 then Inl ErrInvalidMessage
     else
       case Option.bind (json_text raw) (decode_struct (client_field f64) zeroClientMessage) of
         None \<Rightarrow> Inl ErrInvalidMessage
       | Some message \<Rightarrow>
           if cm_Type message = ''leave'' then Inr \<lparr>Kind = ClientMessageLeave, Envelope = zeroEnvelope\<rparr>
           else if cm_Type message = ''secure'' then
             (if cm_Version message \<noteq> of_int SecureEnvelopeVersion
                 \<or> cm_Version message \<noteq> of_int \<lfloor>cm_Version message\<rfloor>
              then Inl ErrInvalidEnvelope
              else if \<not> isAllowedChannel (cm_Channel message) \<or> \<not> isSafeBase64URL (cm_Nonce message)
                      \<or> \<not> isSafeBase64URL (cm_Ciphertext message)
              then Inl ErrInvalidEnvelope
              else Inr \<lparr>Kind = ClientMessageSecure,
                Envelope = \<lparr>env_Type = ''secure'', env_Version = SecureEnvelopeVersion,
                  env_Channel = cm_Channel message, env_Nonce = cm_Nonce message,
                  env_Ciphertext = cm_Ciphertext message\<rparr>\<rparr>)
           else Inl ErrInvalidMessage)"

definition validateSecureEnvelope :: "SecureEnvelope \<Rightarrow> envelope_error option" where
  "validateSecureEnvelope e =
    (if env_Type e \<noteq> ''secure'' \<or> env_Version e \<noteq> SecureEnvelopeVersion \<or> \<not> isAllowedChannel (env_Channel e)
        \<or> \<not> isSafeBase64URL (env_Nonce e) \<or> \<not> isSafeBase64URL (env_Ciphertext e)
     then Some ErrInvalidEnvelope else None)"

section \<open>Frames the server writes\<close>

definition publicPeer_json :: "string \<Rightarrow> json" where
  "publicPeer_json peer = JObj [(''id'', JStr peer)]"

text \<open>The \<open>omitempty\<close> fields are left out when they are empty; \<open>marshalSystemWithPeers\<close> keeps them.\<close>

definition system_json :: "string \<Rightarrow> string \<Rightarrow> string list \<Rightarrow> json" where
  "system_json event peerID peers =
    JObj ([(''type'', JStr ''system''), (''event'', JStr event)]
      @ (if peerID = [] then [] else [(''peerId'', JStr peerID)])
      @ (if peers = [] then [] else [(''peers'', JArr (map publicPeer_json peers))]))"

definition marshalSystem :: "string \<Rightarrow> string \<Rightarrow> string list \<Rightarrow> string" where
  "marshalSystem event peerID peers = json_print (system_json event peerID peers)"

definition marshalSystemWithPeers :: "string \<Rightarrow> string list \<Rightarrow> string" where
  "marshalSystemWithPeers event peers =
    json_print (JObj [(''type'', JStr ''system''), (''event'', JStr event),
      (''peers'', JArr (map publicPeer_json peers))])"

definition relayed_json :: "SecureEnvelope \<Rightarrow> string \<Rightarrow> string \<Rightarrow> json" where
  "relayed_json e peerID receivedAt =
    JObj [(''type'', JStr ''secure''), (''v'', JNum (itoa SecureEnvelopeVersion)),
      (''channel'', JStr (env_Channel e)), (''nonce'', JStr (env_Nonce e)),
      (''ciphertext'', JStr (env_Ciphertext e)), (''from'', publicPeer_json peerID),
      (''receivedAt'', JStr receivedAt)]"

definition marshalRelayed :: "SecureEnvelope \<Rightarrow> string \<Rightarrow> string \<Rightarrow> string" where
  "marshalRelayed e peerID receivedAt = json_print (relayed_json e peerID receivedAt)"

section \<open>Round trips\<close>

lemma ascii_utf8_ok: "is_ascii s \<Longrightarrow> utf8_ok s"
proof -
  assume a: "is_ascii s"
  have "utf8 (map byte_of s) = s"
    using a by (induction s) (auto simp: utf8_def is_ascii_def encode_rune_ascii)
  moreover have "\<forall>r \<in> set (map byte_of s). valid_rune r" using a by (auto simp: is_ascii_def valid_rune_def)
  ultimately show ?thesis unfolding utf8_ok_def by metis
qed

lemma base64url_ascii: "isSafeBase64URL s \<Longrightarrow> is_ascii s"
proof -
  have "byte_of c < 0x80" if "base64url_char c" for c
    using that by (auto simp: base64url_char_def Let_def)
  then show "isSafeBase64URL s \<Longrightarrow> is_ascii s"
    by (auto simp: isSafeBase64URL_def is_ascii_def list_all_iff)
qed

lemma utf8_ok_literals:
  "utf8_ok ''type''" "utf8_ok ''secure''" "utf8_ok ''v''" "utf8_ok ''channel''" "utf8_ok ''nonce''"
  "utf8_ok ''ciphertext''" "utf8_ok ''from''" "utf8_ok ''receivedAt''" "utf8_ok ''id''"
  "utf8_ok ''signal''" "utf8_ok ''ws-chat''" "utf8_ok ''profile''" "utf8_ok ''system''" "utf8_ok ''event''"
  "utf8_ok ''peerId''" "utf8_ok ''peers''"
  by (rule ascii_utf8_ok, simp add: is_ascii_def)+

lemma relayed_json_plain:
  assumes "validateSecureEnvelope e = None" and "utf8_ok peer" and "utf8_ok ts"
  shows "json_plain (relayed_json e peer ts)"
proof -
  have "utf8_ok (env_Nonce e)" "utf8_ok (env_Ciphertext e)" "utf8_ok (env_Channel e)"
    using assms(1) base64url_ascii ascii_utf8_ok utf8_ok_literals
    by (auto simp: validateSecureEnvelope_def isAllowedChannel_def split: if_split_asm)
  then show ?thesis
    using assms utf8_ok_literals by (auto simp: relayed_json_def publicPeer_json_def)
qed

lemma relayed_text:
  assumes "validateSecureEnvelope e = None" and "utf8_ok peer" and "utf8_ok ts"
  shows "json_text (marshalRelayed e peer ts) = Some (relayed_json e peer ts)"
  unfolding marshalRelayed_def
  by (rule json_text_print [OF relayed_json_plain [OF assms]])
    (simp add: relayed_json_def publicPeer_json_def max_nesting_def)

lemma client_fields:
  "client_field f m ''type'' v = map_option (\<lambda>s. m\<lparr>cm_Type := s\<rparr>) (assign_string (cm_Type m) v)"
  "client_field f m ''v'' v = map_option (\<lambda>x. m\<lparr>cm_Version := x\<rparr>) (assign_float f (cm_Version m) v)"
  "client_field f m ''channel'' v = map_option (\<lambda>s. m\<lparr>cm_Channel := s\<rparr>) (assign_string (cm_Channel m) v)"
  "client_field f m ''nonce'' v = map_option (\<lambda>s. m\<lparr>cm_Nonce := s\<rparr>) (assign_string (cm_Nonce m) v)"
  "client_field f m ''ciphertext'' v = map_option (\<lambda>s. m\<lparr>cm_Ciphertext := s\<rparr>) (assign_string (cm_Ciphertext m) v)"
  by (simp_all add: client_field_def json_field_def)

lemma client_unknown:
  "client_field f m ''from'' v = Some m" "client_field f m ''receivedAt'' v = Some m"
proof -
  have "json_field [''type'', ''v'', ''channel'', ''nonce'', ''ciphertext''] ''from'' = None"
    "json_field [''type'', ''v'', ''channel'', ''nonce'', ''ciphertext''] ''receivedAt'' = None"
    by code_simp+
  then show "client_field f m ''from'' v = Some m" "client_field f m ''receivedAt'' v = Some m"
    by (simp_all add: client_field_def)
qed

lemma literal_one: "literal_value (itoa 1) = 1"
  by code_simp

section \<open>Properties\<close>

text \<open>
  A frame is accepted only as a leave request or
  as a secure envelope that passes the relay's own check: version 1, a known channel, and a
  nonce and a ciphertext of 1 to 16384 base64url characters. No other frame reaches the
  relay.
\<close>

theorem parse_accepts_only_safe:
  assumes "ParseClientMessage f64 raw = Inr m"
  shows "(Kind m = ClientMessageLeave \<and> Envelope m = zeroEnvelope)
    \<or> (Kind m = ClientMessageSecure \<and> validateSecureEnvelope (Envelope m) = None
        \<and> length (env_Ciphertext (Envelope m)) \<le> 16384)"
  using assms
  by (auto simp: ParseClientMessage_def validateSecureEnvelope_def isSafeBase64URL_def MaxEnvelopeValueBytes_def
      split: if_split_asm option.split_asm)

definition leave_frame :: string where
  "leave_frame = json_print (JObj [(''type'', JStr ''leave'')])"

theorem parse_accepts_only_safe_witness:
  "\<exists>m. ParseClientMessage Some leave_frame = Inr m \<and> validateSecureEnvelope zeroEnvelope \<noteq> None
     \<and> Kind m = ClientMessageLeave \<and> Envelope m = zeroEnvelope"
proof -
  have "case ParseClientMessage Some leave_frame of Inr m \<Rightarrow> Kind m = ClientMessageLeave | Inl _ \<Rightarrow> False"
    "validateSecureEnvelope zeroEnvelope \<noteq> None"
    by code_simp+
  then show ?thesis
    using parse_accepts_only_safe [of Some leave_frame] by (auto split: sum.splits)
qed

text \<open>
  C37 (envelope.go:149-160, marshalRelayed, with 56-93, ParseClientMessage). The relay is
  transparent: the frame written for a valid envelope is valid JSON with the sender's id and
  the time, and parsing it gives back the very envelope that was relayed, nonce and
  ciphertext unchanged.
\<close>

theorem relay_roundtrip:
  assumes "validateSecureEnvelope e = None" and "utf8_ok peer" and "utf8_ok ts" and "f64 1 = Some 1"
  shows "ParseClientMessage f64 (marshalRelayed e peer ts) = Inr \<lparr>Kind = ClientMessageSecure, Envelope = e\<rparr>
    \<and> json_text (marshalRelayed e peer ts) = Some (relayed_json e peer ts)"
proof -
  have ne: "marshalRelayed e peer ts \<noteq> []" by (simp add: marshalRelayed_def relayed_json_def)
  have e: "e = \<lparr>env_Type = ''secure'', env_Version = SecureEnvelopeVersion, env_Channel = env_Channel e,
      env_Nonce = env_Nonce e, env_Ciphertext = env_Ciphertext e\<rparr>"
    using assms(1) by (auto simp: validateSecureEnvelope_def split: if_split_asm)
  have "decode_struct (client_field f64) zeroClientMessage (relayed_json e peer ts)
    = Some \<lparr>cm_Type = ''secure'', cm_Version = 1, cm_Channel = env_Channel e, cm_Nonce = env_Nonce e,
        cm_Ciphertext = env_Ciphertext e\<rparr>"
    using assms(4)
    by (simp add: decode_struct_def relayed_json_def client_fields client_unknown assign_string_def
        assign_float_def SecureEnvelopeVersion_def literal_one zeroClientMessage_def)
  then show ?thesis
    using relayed_text [OF assms(1-3)] assms(1) e ne
    by (auto simp: ParseClientMessage_def validateSecureEnvelope_def SecureEnvelopeVersion_def split: if_split_asm)
qed

definition demo_envelope :: SecureEnvelope where
  "demo_envelope = \<lparr>env_Type = ''secure'', env_Version = 1, env_Channel = ''signal'', env_Nonce = ''bm9uY2U'',
     env_Ciphertext = ''Y2lwaGVy''\<rparr>"

theorem relay_roundtrip_witness:
  "ParseClientMessage Some (marshalRelayed demo_envelope ''peer-1'' ''2026-01-01T00:00:00.000Z'')
     = Inr \<lparr>Kind = ClientMessageSecure, Envelope = demo_envelope\<rparr>"
proof -
  have "validateSecureEnvelope demo_envelope = None" by code_simp
  moreover have "utf8_ok ''peer-1''" "utf8_ok ''2026-01-01T00:00:00.000Z''"
    by (rule ascii_utf8_ok, simp add: is_ascii_def)+
  ultimately show ?thesis using relay_roundtrip [of demo_envelope _ _ Some] by simp
qed

end
