(* ===== verification/Go_Time.thy ===== *)
theory Go_Time
  imports Go_Text
begin

text \<open>
  Package \<open>time\<close>, as far as the program uses it: an instant is its number of nanoseconds
  since 1970-01-01T00:00:00Z, a duration a number of nanoseconds, and a date is the
  proleptic Gregorian one.
\<close>

type_synonym time = int
type_synonym duration = int

definition Second :: duration where "Second = 1000000000"
definition Minute :: duration where "Minute = 60 * Second"
definition Hour :: duration where "Hour = 60 * Minute"

definition Unix :: "time \<Rightarrow> int" where
  "Unix t = t div Second"

text \<open>Year, month and day of a day number; a year starts in March while days are counted.\<close>

definition civil_from_days :: "int \<Rightarrow> int \<times> int \<times> int" where
  "civil_from_days days =
    (let z = days + 719468;
         era = z div 146097;
         doe = z mod 146097;
         yoe = (doe - doe div 1460 + doe div 36524 - doe div 146096) div 365;
         doy = doe - (365 * yoe + yoe div 4 - yoe div 100);
         mp = (5 * doy + 2) div 153;
         d = doy - (153 * mp + 2) div 5 + 1;
         m = (if mp < 10 then mp + 3 else mp - 9);
         y = yoe + era * 400 + (if m \<le> 2 then 1 else 0)
     in (y, m, d))"

definition days_from_civil :: "int \<Rightarrow> int \<Rightarrow> int \<Rightarrow> int" where
  "days_from_civil y m d =
    (let y1 = (if m \<le> 2 then y - 1 else y);
         era = y1 div 400;
         yoe = y1 mod 400;
         doy = (153 * (if m > 2 then m - 3 else m + 9) + 2) div 5 + d - 1;
         doe = yoe * 365 + yoe div 4 - yoe div 100 + doy
     in era * 146097 + doe - 719468)"

definition pad_zero :: "nat \<Rightarrow> string \<Rightarrow> string" where
  "pad_zero n s = replicate (n - length s) (CHR ''0'') @ s"

definition pad_int :: "nat \<Rightarrow> int \<Rightarrow> string" where
  "pad_int n i = (if i < 0 then CHR ''-'' # pad_zero n (itoa_nat (nat (- i))) else pad_zero n (itoa_nat (nat i)))"

text \<open>\<open>Format("2006-01-02T15:04:05.000Z07:00")\<close> of a UTC time truncated to milliseconds.\<close>

definition format_millis :: "time \<Rightarrow> string" where
  "format_millis t =
    (let ms = t div 1000000; secs = ms div 1000; days = secs div 86400; sod = secs mod 86400;
         (y, m, d) = civil_from_days days
     in pad_int 4 y @ ''-'' @ pad_int 2 m @ ''-'' @ pad_int 2 d @ ''T'' @ pad_int 2 (sod div 3600)
        @ '':'' @ pad_int 2 (sod div 60 mod 60) @ '':'' @ pad_int 2 (sod mod 60) @ ''.''
        @ pad_int 3 (ms mod 1000) @ ''Z'')"

lemma itoa_nat_ascii: "is_ascii (itoa_nat n)"
proof (induction n rule: itoa_nat.induct)
  case (1 n)
  have "byte_of (digit_char d) < 0x80" if "d < 10" for d using that by (simp add: digit_char_def)
  then show ?case using 1 by (subst itoa_nat.simps) (auto simp: is_ascii_def)
qed

lemma is_ascii_append [simp]: "is_ascii (s @ t) \<longleftrightarrow> is_ascii s \<and> is_ascii t"
  by (auto simp: is_ascii_def)

lemma is_ascii_Cons [simp]: "is_ascii (c # s) \<longleftrightarrow> byte_of c < 0x80 \<and> is_ascii s"
  by (simp add: is_ascii_def)

lemma is_ascii_Nil [simp]: "is_ascii []"
  by (simp add: is_ascii_def)

lemma pad_int_ascii: "is_ascii (pad_int n i)"
  using itoa_nat_ascii by (auto simp: pad_int_def pad_zero_def is_ascii_def)

lemma format_millis_ascii: "is_ascii (format_millis t)"
  unfolding format_millis_def Let_def
  by (simp add: pad_int_ascii split: prod.split)

lemma format_millis_examples:
  "format_millis 0 = ''1970-01-01T00:00:00.000Z''"
  "format_millis 951827696789000000 = ''2000-02-29T12:34:56.789Z''"
  "civil_from_days (days_from_civil 2024 2 29) = (2024, 2, 29)"
  by code_simp+

end
