(* ===== verification/P2P_Rooms.thy ===== *)
theory P2P_Rooms
  imports P2P_Envelope Go_Time
begin

text \<open>
  p2p/rooms.go: the room manager. Each section that runs under the manager's mutex is a
  function on the manager (\<open>create_locked\<close>, \<open>join_locked\<close> and so on); the operations sequence
  those sections with the sends and closes that happen outside the lock, on a world of
  manager, oracle position and event log. What the manager asks from outside (the clock,
  the id generators, whether a send succeeds) are the functions of \<open>env\<close>, indexed by the
  number of questions asked before. A Go map is iterated in insertion order, one of the
  orders Go may choose.
\<close>

section \<open>State\<close>

record Room =
  room_ID :: string
  CreatedAt :: int
  ExpiresAt :: int
  MaxPeers :: nat

record peerState =
  peer_id :: string
  peer_conn :: nat

text \<open>The timers are whether the field is set; \<open>rs_ref\<close> is the identity of the pointer.\<close>

record roomState =
  rs_room :: Room
  rs_peers :: "(string, peerState) gomap"
  rs_peerOrder :: "string list"
  rs_expiryTimer :: bool
  rs_cleanupTimer :: bool
  rs_ref :: nat

record Manager =
  m_rooms :: "(string, roomState) gomap"
  m_roomTTL :: int
  m_emptyRoomGrace :: int
  m_maxRooms :: nat
  m_closed :: bool
  m_nextRef :: nat

definition MaxRoomPeers :: nat where
  "MaxRoomPeers = 2"

definition MaxRooms :: nat where
  "MaxRooms = 10000"

definition p2pCloseCodeGoingAway :: nat where
  "p2pCloseCodeGoingAway = 1001"

definition p2pCloseCodeNoStatusReceived :: nat where
  "p2pCloseCodeNoStatusReceived = 1005"

datatype room_error = ErrRoomNotFound | ErrRoomFull | ErrRoomLimit | ErrManagerClosed
  | ErrAllocateRoom | ErrAllocatePeer | ErrSend

record ManagerOptions =
  opt_RoomTTL :: int
  opt_EmptyRoomGrace :: int
  opt_MaxRooms :: int

text \<open>Durations are nanoseconds.\<close>

definition NewManager :: "ManagerOptions \<Rightarrow> Manager" where
  "NewManager opts =
    \<lparr>m_rooms = [],
     m_roomTTL = (if opt_RoomTTL opts \<le> 0 then 2 * Hour else opt_RoomTTL opts),
     m_emptyRoomGrace = (if opt_EmptyRoomGrace opts < 0 then 10 * Second else opt_EmptyRoomGrace opts),
     m_maxRooms = (if opt_MaxRooms opts \<le> 0 then MaxRooms else nat (opt_MaxRooms opts)),
     m_closed = False,
     m_nextRef = 0\<rparr>"

section \<open>The sections under the lock\<close>

definition stopCleanup :: "roomState \<Rightarrow> roomState" where
  "stopCleanup room = room\<lparr>rs_cleanupTimer := False\<rparr>"

definition scheduleCleanup :: "roomState \<Rightarrow> roomState" where
  "scheduleCleanup room = (stopCleanup room)\<lparr>rs_cleanupTimer := True\<rparr>"

definition put_room :: "string \<Rightarrow> roomState \<Rightarrow> Manager \<Rightarrow> Manager" where
  "put_room roomID room m = m\<lparr>m_rooms := gm_put roomID room (m_rooms m)\<rparr>"

definition removeRoomLocked :: "string \<Rightarrow> roomState \<Rightarrow> Manager \<Rightarrow> Manager" where
  "removeRoomLocked roomID room m =
    (case map_of (m_rooms m) roomID of
       None \<Rightarrow> m
     | Some current \<Rightarrow>
         if rs_ref current \<noteq> rs_ref room then m
         else m\<lparr>m_rooms := gm_del roomID (m_rooms m)\<rparr>)"

fun prune_loop :: "int \<Rightarrow> (string \<times> roomState) list \<Rightarrow> Manager \<Rightarrow> peerState list \<times> Manager" where
  "prune_loop now [] m = ([], m)"
| "prune_loop now ((roomID, room) # rest) m =
    (if now < ExpiresAt (rs_room room) then prune_loop now rest m
     else
       let (more, m') = prune_loop now rest (removeRoomLocked roomID room m)
       in (map snd (rs_peers room) @ more, m'))"

definition pruneExpiredLocked :: "int \<Rightarrow> Manager \<Rightarrow> peerState list \<times> Manager" where
  "pruneExpiredLocked now m = prune_loop now (m_rooms m) m"

definition publicPeers :: "roomState \<Rightarrow> string list" where
  "publicPeers room =
    map peer_id (List.map_filter (\<lambda>pid. map_of (rs_peers room) pid) (rs_peerOrder room))"

definition removePeerOrder :: "string \<Rightarrow> roomState \<Rightarrow> roomState" where
  "removePeerOrder peerID room = room\<lparr>rs_peerOrder := remove1 peerID (rs_peerOrder room)\<rparr>"

definition other_peers :: "string \<Rightarrow> roomState \<Rightarrow> peerState list" where
  "other_peers peerID room = map snd (filter (\<lambda>(pid, p). pid \<noteq> peerID) (rs_peers room))"

text \<open>Inserting the new room, once a free id is found.\<close>

definition create_locked :: "string \<Rightarrow> int \<Rightarrow> Manager \<Rightarrow> Manager" where
  "create_locked roomID now m =
    (put_room roomID
       \<lparr>rs_room = \<lparr>room_ID = roomID, CreatedAt = now, ExpiresAt = now + m_roomTTL m, MaxPeers = MaxRoomPeers\<rparr>,
        rs_peers = [], rs_peerOrder = [], rs_expiryTimer = True, rs_cleanupTimer = False,
        rs_ref = m_nextRef m\<rparr> m)
    \<lparr>m_nextRef := m_nextRef m + 1\<rparr>"

definition join_room :: "string \<Rightarrow> nat \<Rightarrow> roomState \<Rightarrow> roomState" where
  "join_room peerID conn room =
    (stopCleanup room)
      \<lparr>rs_peers := gm_put peerID \<lparr>peer_id = peerID, peer_conn = conn\<rparr> (rs_peers room),
       rs_peerOrder := rs_peerOrder room @ [peerID]\<rparr>"

definition join_locked :: "string \<Rightarrow> roomState \<Rightarrow> string \<Rightarrow> nat \<Rightarrow> Manager \<Rightarrow> Manager" where
  "join_locked roomID room peerID conn m = put_room roomID (join_room peerID conn room) m"

definition leave_room :: "string \<Rightarrow> roomState \<Rightarrow> roomState" where
  "leave_room peerID room =
    (removePeerOrder peerID room)\<lparr>rs_peers := gm_del peerID (rs_peers room)\<rparr>"

definition leave_locked :: "string \<Rightarrow> roomState \<Rightarrow> string \<Rightarrow> bool \<Rightarrow> Manager \<Rightarrow> Manager" where
  "leave_locked roomID room peerID immediateCleanup m =
    (let room' = leave_room peerID room in
     if rs_peers room' = [] then
       (if immediateCleanup \<or> m_emptyRoomGrace m = 0 then removeRoomLocked roomID room' m
        else put_room roomID (scheduleCleanup room') m)
     else put_room roomID room' m)"

definition close_locked :: "Manager \<Rightarrow> peerState list \<times> Manager" where
  "close_locked m =
    (concat (map (\<lambda>(roomID, room). map snd (rs_peers room)) (m_rooms m)), m\<lparr>m_closed := True, m_rooms := []\<rparr>)"

text \<open>The two timer callbacks: the closure holds the room's id and its pointer.\<close>

definition expire_locked :: "string \<Rightarrow> nat \<Rightarrow> Manager \<Rightarrow> peerState list \<times> Manager" where
  "expire_locked roomID expected m =
    (case map_of (m_rooms m) roomID of
       None \<Rightarrow> ([], m)
     | Some room \<Rightarrow>
         if rs_ref room \<noteq> expected \<or> m_closed m then ([], m)
         else (map snd (rs_peers room), removeRoomLocked roomID room m))"

definition cleanup_locked :: "string \<Rightarrow> nat \<Rightarrow> Manager \<Rightarrow> Manager" where
  "cleanup_locked roomID expected m =
    (case map_of (m_rooms m) roomID of
       None \<Rightarrow> m
     | Some current \<Rightarrow>
         if rs_ref current \<noteq> expected \<or> rs_peers current \<noteq> [] \<or> m_closed m then m
         else removeRoomLocked roomID current m)"

section \<open>The world outside the lock\<close>

datatype p2p_event = Sent nat string bool | Closed nat nat string

record env =
  clock :: "nat \<Rightarrow> int"
  newRoomID :: "nat \<Rightarrow> string option"
  newPeerID :: "nat \<Rightarrow> string option"
  send_ok :: "nat \<Rightarrow> nat \<Rightarrow> string \<Rightarrow> bool"

record world =
  mgr :: Manager
  tick :: nat
  evlog :: "p2p_event list"

definition ask :: "(nat \<Rightarrow> 'a) \<Rightarrow> world \<Rightarrow> 'a \<times> world" where
  "ask f w = (f (tick w), w\<lparr>tick := tick w + 1\<rparr>)"

definition closePeersWithReason :: "peerState list \<Rightarrow> nat \<Rightarrow> string \<Rightarrow> world \<Rightarrow> world" where
  "closePeersWithReason peers code reason w =
    w\<lparr>evlog := evlog w @ map (\<lambda>p. Closed (peer_conn p) code reason) peers\<rparr>"

definition closePeers :: "peerState list \<Rightarrow> world \<Rightarrow> world" where
  "closePeers peers w = closePeersWithReason peers p2pCloseCodeNoStatusReceived [] w"

definition sendPeer :: "env \<Rightarrow> nat \<Rightarrow> string \<Rightarrow> world \<Rightarrow> bool \<times> world" where
  "sendPeer e conn payload w =
    (let (ok, w1) = ask (\<lambda>k. send_ok e k conn payload) w
     in (ok, w1\<lparr>evlog := evlog w1 @ [Sent conn payload ok]\<rparr>))"

text \<open>Sending one payload to several peers; the ids of those it failed for.\<close>

fun send_all :: "env \<Rightarrow> string \<Rightarrow> peerState list \<Rightarrow> world \<Rightarrow> string list \<times> world" where
  "send_all e payload [] w = ([], w)"
| "send_all e payload (p # ps) w =
    (let (ok, w1) = sendPeer e (peer_conn p) payload w; (failed, w2) = send_all e payload ps w1
     in (if ok then failed else peer_id p # failed, w2))"

fun leave_each :: "(string \<Rightarrow> world \<Rightarrow> world option) \<Rightarrow> string list \<Rightarrow> world \<Rightarrow> world option" where
  "leave_each leave [] w = Some w"
| "leave_each leave (p # ps) w = (case leave p w of None \<Rightarrow> None | Some w' \<Rightarrow> leave_each leave ps w')"

text \<open>\<open>broadcast\<close> and \<open>Leave\<close> call each other; \<open>leave\<close> is the call back to \<open>Leave(roomID, peer, false)\<close>.\<close>

definition broadcast ::
  "env \<Rightarrow> (string \<Rightarrow> world \<Rightarrow> world option) \<Rightarrow> string \<Rightarrow> string \<Rightarrow> string \<Rightarrow> world \<Rightarrow> world option" where
  "broadcast e leave roomID payload exceptPeerID w =
    (case map_of (m_rooms (mgr w)) roomID of
       None \<Rightarrow> Some w
     | Some room \<Rightarrow>
         if m_closed (mgr w) then Some w
         else
           let (failed, w1) = send_all e payload (other_peers exceptPeerID room) w
           in leave_each leave failed w1)"

text \<open>The fuel bounds the nesting of \<open>Leave\<close> in \<open>broadcast\<close>; more than the room's peers is enough.\<close>

primrec Leave :: "nat \<Rightarrow> env \<Rightarrow> string \<Rightarrow> string \<Rightarrow> bool \<Rightarrow> world \<Rightarrow> (bool \<times> world) option" where
  "Leave 0 e roomID peerID immediateCleanup w = None"
| "Leave (Suc n) e roomID peerID immediateCleanup w =
    (let (now, w1) = ask (clock e) w in
     if m_closed (mgr w1) then Some (False, w1)
     else
       let (expired, m2) = pruneExpiredLocked now (mgr w1) in
       case map_of (m_rooms m2) roomID of
         None \<Rightarrow> Some (False, closePeers expired (w1\<lparr>mgr := m2\<rparr>))
       | Some room \<Rightarrow>
           if map_of (rs_peers room) peerID = None
           then Some (False, closePeers expired (w1\<lparr>mgr := m2\<rparr>))
           else
             let peers = publicPeers (leave_room peerID room);
                 w3 = closePeers expired (w1\<lparr>mgr := leave_locked roomID room peerID immediateCleanup m2\<rparr>);
                 again = (\<lambda>p w'. map_option snd (Leave n e roomID p False w'))
             in case broadcast e again roomID (marshalSystemWithPeers ''peer-left'' peers) [] w3 of
                  None \<Rightarrow> None
                | Some w4 \<Rightarrow>
                    if peers \<noteq> [] then
                      map_option (\<lambda>w5. (True, w5))
                        (broadcast e again roomID (marshalSystem ''peer-list'' [] peers) [] w4)
                    else Some (True, w4))"

section \<open>The operations\<close>

record CreatedRoom =
  cr_RoomID :: string
  cr_InviteLink :: string
  cr_ExpiresAt :: int
  cr_MaxPeers :: nat

record RoomStatus =
  st_RoomID :: string
  st_ExpiresAt :: int
  st_PeerCount :: nat
  st_MaxPeers :: nat

text \<open>\<open>url.PathEscape\<close>: the bytes a path segment may hold stand for themselves.\<close>

definition path_unreserved :: "char \<Rightarrow> bool" where
  "path_unreserved c \<longleftrightarrow>
     (let b = byte_of c in
      (0x41 \<le> b \<and> b \<le> 0x5A) \<or> (0x61 \<le> b \<and> b \<le> 0x7A) \<or> (0x30 \<le> b \<and> b \<le> 0x39)
      \<or> c \<in> set ''-_.~$&+:=@'')"

definition upper_hex :: "nat \<Rightarrow> char" where
  "upper_hex n = (if n < 10 then char_of (0x30 + n) else char_of (0x37 + n))"

definition PathEscape :: "string \<Rightarrow> string" where
  "PathEscape s =
    concat (map (\<lambda>c. if path_unreserved c then [c]
      else [CHR ''%'', upper_hex (byte_of c div 16), upper_hex (byte_of c mod 16)]) s)"

text \<open>The id loop: up to eight candidates, the last one is used when none was free.\<close>

fun alloc_id :: "nat \<Rightarrow> env \<Rightarrow> string \<Rightarrow> world \<Rightarrow> (room_error, string) result \<times> world" where
  "alloc_id 0 e current w = (Inr current, w)"
| "alloc_id (Suc n) e current w =
    (let (candidate, w1) = ask (newRoomID e) w in
     case candidate of
       None \<Rightarrow> (Inl ErrAllocateRoom, w1)
     | Some c \<Rightarrow> if map_of (m_rooms (mgr w1)) c = None then (Inr c, w1) else alloc_id n e c w1)"

definition Create :: "env \<Rightarrow> string \<Rightarrow> world \<Rightarrow> (room_error, CreatedRoom) result \<times> world" where
  "Create e baseURL w =
    (let (now, w1) = ask (clock e) w in
     if m_closed (mgr w1) then (Inl ErrManagerClosed, w1)
     else
       let (expired, m2) = pruneExpiredLocked now (mgr w1); w2 = w1\<lparr>mgr := m2\<rparr> in
       if length (m_rooms m2) \<ge> m_maxRooms m2 then (Inl ErrRoomLimit, closePeers expired w2)
       else
         case alloc_id 8 e [] w2 of
           (Inl err, w3) \<Rightarrow> (Inl err, closePeers expired w3)
         | (Inr roomID, w3) \<Rightarrow>
             if map_of (m_rooms (mgr w3)) roomID \<noteq> None then (Inl ErrAllocateRoom, closePeers expired w3)
             else
               (Inr \<lparr>cr_RoomID = roomID,
                  cr_InviteLink = TrimRight_slash baseURL @ ''/direct/'' @ PathEscape roomID,
                  cr_ExpiresAt = now + m_roomTTL (mgr w3), cr_MaxPeers = MaxRoomPeers\<rparr>,
                closePeers expired (w3\<lparr>mgr := create_locked roomID now (mgr w3)\<rparr>)))"

definition Status :: "env \<Rightarrow> string \<Rightarrow> world \<Rightarrow> RoomStatus option \<times> world" where
  "Status e roomID w =
    (let (now, w1) = ask (clock e) w in
     if m_closed (mgr w1) then (None, w1)
     else
       let (expired, m2) = pruneExpiredLocked now (mgr w1); w2 = closePeers expired (w1\<lparr>mgr := m2\<rparr>) in
       case map_of (m_rooms m2) roomID of
         None \<Rightarrow> (None, w2)
       | Some room \<Rightarrow>
           (Some \<lparr>st_RoomID = room_ID (rs_room room), st_ExpiresAt = ExpiresAt (rs_room room),
              st_PeerCount = length (rs_peers room), st_MaxPeers = MaxPeers (rs_room room)\<rparr>, w2))"

definition currentPeers :: "string \<Rightarrow> Manager \<Rightarrow> string list" where
  "currentPeers roomID m =
    (case map_of (m_rooms m) roomID of
       None \<Rightarrow> []
     | Some room \<Rightarrow> if m_closed m then [] else publicPeers room)"

text \<open>\<open>Leave\<close> as the operations call it: with fuel for every peer the room can hold.\<close>

definition leave_fuel :: nat where
  "leave_fuel = MaxRoomPeers + 1"

text \<open>The part of \<open>Join\<close> before the unlock: the error, or the new id and who was there.\<close>

definition join_admit ::
  "env \<Rightarrow> string \<Rightarrow> nat \<Rightarrow> world \<Rightarrow> (room_error, string \<times> string list \<times> peerState list) result \<times> world" where
  "join_admit e roomID conn w =
    (let (now, w1) = ask (clock e) w in
     if m_closed (mgr w1) then (Inl ErrManagerClosed, w1)
     else
       let (expired, m2) = pruneExpiredLocked now (mgr w1); w2 = w1\<lparr>mgr := m2\<rparr> in
       case map_of (m_rooms m2) roomID of
         None \<Rightarrow> (Inl ErrRoomNotFound, closePeers expired w2)
       | Some room \<Rightarrow>
           if length (rs_peers room) \<ge> MaxPeers (rs_room room) then (Inl ErrRoomFull, closePeers expired w2)
           else
             let (fresh, w3) = ask (newPeerID e) (w2\<lparr>mgr := put_room roomID (stopCleanup room) m2\<rparr>) in
             case fresh of
               None \<Rightarrow> (Inl ErrAllocatePeer, closePeers expired w3)
             | Some peerID \<Rightarrow>
                 if peerID = [] then (Inl ErrAllocatePeer, closePeers expired w3)
                 else
                   let joined = join_room peerID conn room in
                   (Inr (peerID, publicPeers joined, other_peers peerID joined),
                    closePeers expired (w3\<lparr>mgr := join_locked roomID room peerID conn (mgr w3)\<rparr>)))"

text \<open>Telling the peers already there; a peer that cannot be told leaves.\<close>

fun announce ::
  "(string \<Rightarrow> world \<Rightarrow> world option) \<Rightarrow> env \<Rightarrow> string \<Rightarrow> peerState list \<Rightarrow> world \<Rightarrow> (bool \<times> world) option" where
  "announce leave e payload [] w = Some (False, w)"
| "announce leave e payload (p # ps) w =
    (let (ok, w1) = sendPeer e (peer_conn p) payload w in
     if ok then announce leave e payload ps w1
     else
       case leave (peer_id p) w1 of
         None \<Rightarrow> None
       | Some w2 \<Rightarrow> map_option (\<lambda>(_, w3). (True, w3)) (announce leave e payload ps w2))"

definition Join :: "env \<Rightarrow> string \<Rightarrow> nat \<Rightarrow> world \<Rightarrow> ((room_error, string) result \<times> world) option" where
  "Join e roomID conn w =
    (case join_admit e roomID conn w of
       (Inl err, w1) \<Rightarrow> Some (Inl err, w1)
     | (Inr (peerID, peers, existing), w1) \<Rightarrow>
         let (ok, w2) = sendPeer e conn (marshalSystem ''joined'' peerID peers) w1;
             again = (\<lambda>p w'. map_option snd (Leave leave_fuel e roomID p False w'))
         in if \<not> ok then
              map_option (\<lambda>(_, w3). (Inl ErrSend, w3)) (Leave leave_fuel e roomID peerID True w2)
            else
              (case announce again e (marshalSystem ''peer-joined'' [] peers) existing w2 of
                 None \<Rightarrow> None
               | Some (peerFailed, w3) \<Rightarrow>
                   let peers' = (if peerFailed then currentPeers roomID (mgr w3) else peers) in
                   map_option (\<lambda>w4. (Inr peerID, w4))
                     (broadcast e again roomID (marshalSystem ''peer-list'' [] peers') [] w3)))"

definition formatTimestamp :: "time \<Rightarrow> string" where
  "formatTimestamp value = format_millis value"

definition Relay :: "env \<Rightarrow> string \<Rightarrow> string \<Rightarrow> SecureEnvelope \<Rightarrow> world \<Rightarrow> (bool \<times> world) option" where
  "Relay e roomID peerID envelope w =
    (if validateSecureEnvelope envelope \<noteq> None then Some (False, w)
     else
       let (now, w1) = ask (clock e) w in
       if m_closed (mgr w1) then Some (False, w1)
       else
         let (expired, m2) = pruneExpiredLocked now (mgr w1); w2 = closePeers expired (w1\<lparr>mgr := m2\<rparr>) in
         case map_of (m_rooms m2) roomID of
           None \<Rightarrow> Some (False, w2)
         | Some room \<Rightarrow>
             if map_of (rs_peers room) peerID = None then Some (False, w2)
             else
               let (failed, w3) = send_all e (marshalRelayed envelope peerID (formatTimestamp now)) (other_peers peerID room) w2
               in map_option (\<lambda>w4. (True, w4))
                    (leave_each (\<lambda>p w'. map_option snd (Leave leave_fuel e roomID p False w')) failed w3))"

definition RoomCount :: "env \<Rightarrow> world \<Rightarrow> nat \<times> world" where
  "RoomCount e w =
    (let (now, w1) = ask (clock e) w; (expired, m2) = pruneExpiredLocked now (mgr w1)
     in (length (m_rooms m2), closePeers expired (w1\<lparr>mgr := m2\<rparr>)))"

definition ConnectionCount :: "env \<Rightarrow> world \<Rightarrow> nat \<times> world" where
  "ConnectionCount e w =
    (let (now, w1) = ask (clock e) w; (expired, m2) = pruneExpiredLocked now (mgr w1)
     in (sum_list (map (\<lambda>(_, room). length (rs_peers room)) (m_rooms m2)),
         closePeers expired (w1\<lparr>mgr := m2\<rparr>)))"

definition Close :: "world \<Rightarrow> world" where
  "Close w =
    (if m_closed (mgr w) then w
     else
       let (peers, m') = close_locked (mgr w)
       in closePeersWithReason peers p2pCloseCodeGoingAway ''server shutdown'' (w\<lparr>mgr := m'\<rparr>))"

definition expire :: "string \<Rightarrow> nat \<Rightarrow> world \<Rightarrow> world" where
  "expire roomID expected w =
    (let (peers, m') = expire_locked roomID expected (mgr w) in closePeers peers (w\<lparr>mgr := m'\<rparr>))"

end
