(* ===== verification/P2P_Lobby.thy ===== *)
theory P2P_Lobby
  imports P2P_Rooms
begin

text \<open>
  What the room manager guarantees: its invariant under every interleaving of the locked
  sections, the abstract lobby it implements, and what each operation does to rooms, peers
  and connections.
\<close>

section \<open>The invariant\<close>

definition room_ok :: "duration \<Rightarrow> string \<Rightarrow> roomState \<Rightarrow> bool" where
  "room_ok ttl roomID room \<longleftrightarrow>
     room_ID (rs_room room) = roomID \<and> MaxPeers (rs_room room) = MaxRoomPeers
     \<and> ExpiresAt (rs_room room) = CreatedAt (rs_room room) + ttl \<and> rs_expiryTimer room
     \<and> gm_ok (rs_peers room) \<and> length (rs_peers room) \<le> MaxRoomPeers
     \<and> rs_peerOrder room = map fst (rs_peers room)
     \<and> (\<forall>(pid, p) \<in> set (rs_peers room). peer_id p = pid \<and> pid \<noteq> [])"

definition manager_ok :: "Manager \<Rightarrow> bool" where
  "manager_ok m \<longleftrightarrow>
     gm_ok (m_rooms m) \<and> length (m_rooms m) \<le> m_maxRooms m
     \<and> (\<forall>(roomID, room) \<in> set (m_rooms m). room_ok (m_roomTTL m) roomID room \<and> rs_ref room < m_nextRef m)
     \<and> distinct (map (rs_ref \<circ> snd) (m_rooms m))
     \<and> (m_closed m \<longrightarrow> m_rooms m = [])
     \<and> 0 < m_roomTTL m \<and> 0 \<le> m_emptyRoomGrace m \<and> 0 < m_maxRooms m"

lemma manager_ok_gm: "manager_ok m \<Longrightarrow> gm_ok (m_rooms m)"
  by (simp add: manager_ok_def)

lemma manager_ok_room:
  "manager_ok m \<Longrightarrow> map_of (m_rooms m) roomID = Some room \<Longrightarrow> room_ok (m_roomTTL m) roomID room \<and> rs_ref room < m_nextRef m"
  by (auto simp: manager_ok_def dest!: map_of_SomeD)

lemma NewManager_ok: "manager_ok (NewManager opts)"
  by (simp add: manager_ok_def NewManager_def gm_ok_def MaxRooms_def Hour_def Minute_def Second_def)

subsection \<open>Pruning\<close>

definition live :: "time \<Rightarrow> string \<times> roomState \<Rightarrow> bool" where
  "live now e \<longleftrightarrow> now < ExpiresAt (rs_room (snd e))"

lemma removeRoomLocked_own:
  "map_of (m_rooms m) roomID = Some room \<Longrightarrow>
   removeRoomLocked roomID room m = m\<lparr>m_rooms := gm_del roomID (m_rooms m)\<rparr>"
  by (simp add: removeRoomLocked_def)

lemma prune_loop_filter:
  assumes "gm_ok (m_rooms m)" and "set xs \<subseteq> set (m_rooms m)" and "gm_ok xs"
  shows "prune_loop now xs m =
    (concat (map (\<lambda>e. map snd (rs_peers (snd e))) (filter (\<lambda>e. \<not> live now e) xs)),
     m\<lparr>m_rooms := filter (\<lambda>e. e \<in> set xs \<longrightarrow> live now e) (m_rooms m)\<rparr>)"
  using assms
proof (induction xs arbitrary: m)
  case Nil
  then show ?case by simp
next
  case (Cons e xs)
  obtain roomID room where e: "e = (roomID, room)" by fastforce
  have "roomID \<notin> fst ` set xs" using Cons.prems(3) e by (simp add: gm_ok_def)
  then have xs: "set xs \<subseteq> set (m_rooms m)" "gm_ok xs" "e \<notin> set xs" "roomID \<notin> fst ` set xs"
    using Cons.prems(2,3) e by (auto simp: gm_ok_def intro: rev_image_eqI)
  show ?case
  proof (cases "live now e")
    case True
    have "filter (\<lambda>x. x \<in> set (e # xs) \<longrightarrow> live now x) (m_rooms m) = filter (\<lambda>x. x \<in> set xs \<longrightarrow> live now x) (m_rooms m)"
      using True by (intro filter_cong) auto
    then show ?thesis using Cons.IH [OF Cons.prems(1) xs(1,2)] True e by (simp add: live_def)
  next
    case False
    have look: "map_of (m_rooms m) roomID = Some room"
      using Cons.prems e by (intro gm_in_lookup) auto
    let ?m = "m\<lparr>m_rooms := gm_del roomID (m_rooms m)\<rparr>"
    have only: "x = e" if "x \<in> set (m_rooms m)" "fst x = roomID" for x
    proof -
      have "map_of (m_rooms m) (fst x) = Some (snd x)" using that(1) Cons.prems(1) by (intro gm_in_lookup) simp_all
      then show ?thesis using that(2) look e by (cases x) simp
    qed
    have "filter (\<lambda>x. x \<in> set xs \<longrightarrow> live now x) (gm_del roomID (m_rooms m))
        = filter (\<lambda>x. x \<in> set (e # xs) \<longrightarrow> live now x) (m_rooms m)"
      unfolding gm_del_def filter_filter
    proof (intro filter_cong refl)
      fix x assume "x \<in> set (m_rooms m)"
      then show "(fst x \<noteq> roomID \<and> (x \<in> set xs \<longrightarrow> live now x)) = (x \<in> set (e # xs) \<longrightarrow> live now x)"
        using only [of x] False xs(3) e by (cases "x = e") auto
    qed
    moreover have "set xs \<subseteq> set (gm_del roomID (m_rooms m))"
      using xs(1,4) by (auto simp: gm_del_def image_iff)
    ultimately show ?thesis
      using Cons.IH [of ?m] False e xs(2) Cons.prems(1)
      by (simp add: removeRoomLocked_own [OF look] gm_del_ok live_def [of now "(roomID, room)"])
  qed
qed

lemma prune_filter:
  assumes "gm_ok (m_rooms m)"
  shows "pruneExpiredLocked now m =
    (concat (map (\<lambda>e. map snd (rs_peers (snd e))) (filter (\<lambda>e. \<not> live now e) (m_rooms m))),
     m\<lparr>m_rooms := filter (live now) (m_rooms m)\<rparr>)"
proof -
  have "filter (\<lambda>e. e \<in> set (m_rooms m) \<longrightarrow> live now e) (m_rooms m) = filter (live now) (m_rooms m)"
    by (intro filter_cong) auto
  then show ?thesis
    using prune_loop_filter [OF assms _ assms] by (simp add: pruneExpiredLocked_def)
qed

lemma filter_rooms_ok: "manager_ok m \<Longrightarrow> manager_ok (m\<lparr>m_rooms := filter P (m_rooms m)\<rparr>)"
  by (auto simp: manager_ok_def gm_ok_def distinct_map_filter
      intro: le_trans [OF length_filter_le])


lemma prune_ok: "manager_ok m \<Longrightarrow> manager_ok (snd (pruneExpiredLocked now m))"
  by (simp add: prune_filter manager_ok_gm filter_rooms_ok)

lemma live_lookup:
  "gm_ok es \<Longrightarrow> map_of (filter (live now) es) roomID =
    (case map_of es roomID of
       None \<Rightarrow> None | Some room \<Rightarrow> if now < ExpiresAt (rs_room room) then Some room else None)"
proof (induction es)
  case (Cons e es)
  have "roomID \<notin> fst ` set es \<Longrightarrow> map_of es roomID = None"
    by (simp add: map_of_eq_None_iff)
  then show ?case
    using Cons by (cases e) (auto simp: gm_ok_def live_def)
qed simp

lemma prune_lookup:
  assumes "gm_ok (m_rooms m)"
  shows "map_of (m_rooms (snd (pruneExpiredLocked now m))) roomID =
    (case map_of (m_rooms m) roomID of
       None \<Rightarrow> None | Some room \<Rightarrow> if now < ExpiresAt (rs_room room) then Some room else None)"
  using live_lookup [OF assms] by (simp add: prune_filter [OF assms])

subsection \<open>One room at a time\<close>

lemma gm_put_map_snd:
  "gm_ok m \<Longrightarrow> map_of m k = Some old \<Longrightarrow> f v = f old \<Longrightarrow> map (f \<circ> snd) (gm_put k v m) = map (f \<circ> snd) m"
  by (induction k v m rule: gm_put.induct) (auto simp: gm_ok_def split: if_splits)

lemma gm_put_set: "gm_ok m \<Longrightarrow> set (gm_put k v m) \<subseteq> insert (k, v) (set m)"
  by (induction k v m rule: gm_put.induct) (auto simp: gm_ok_def)

text \<open>Replacing a room by another state of the same room.\<close>

lemma put_room_ok:
  assumes "manager_ok m" and "map_of (m_rooms m) roomID = Some old"
    and "room_ok (m_roomTTL m) roomID room" and "rs_ref room = rs_ref old"
  shows "manager_ok (put_room roomID room m)"
proof -
  have gm: "gm_ok (m_rooms m)" using assms(1) by (rule manager_ok_gm)
  have "roomID \<in> set (map fst (m_rooms m))" using assms(2) by (auto dest!: map_of_SomeD intro: rev_image_eqI)
  then have "length (gm_put roomID room (m_rooms m)) = length (m_rooms m)"
    by (simp add: gm_put_length)
  moreover have "map (rs_ref \<circ> snd) (gm_put roomID room (m_rooms m)) = map (rs_ref \<circ> snd) (m_rooms m)"
    using gm_put_map_snd [OF gm assms(2), of rs_ref room] assms(4) by simp
  moreover have "m_rooms m \<noteq> []" using assms(2) by auto
  moreover have "rs_ref old < m_nextRef m" using manager_ok_room [OF assms(1,2)] by simp
  ultimately show ?thesis
    using assms gm_put_set [OF gm, of roomID room] gm_put_ok [OF gm]
    by (auto simp: manager_ok_def put_room_def)
qed

lemma removeRoomLocked_ok: "manager_ok m \<Longrightarrow> manager_ok (removeRoomLocked roomID room m)"
  by (auto simp: removeRoomLocked_def gm_del_def filter_rooms_ok split: option.split)

lemma create_locked_ok:
  assumes "manager_ok m" and "map_of (m_rooms m) roomID = None" and "length (m_rooms m) < m_maxRooms m"
    and "\<not> m_closed m"
  shows "manager_ok (create_locked roomID now m)"
proof -
  have "roomID \<notin> fst ` set (m_rooms m)" using assms(2) by (simp add: map_of_eq_None_iff)
  then show ?thesis
    using assms
    by (auto simp: manager_ok_def create_locked_def put_room_def gm_put_new gm_ok_def room_ok_def MaxRoomPeers_def
        less_Suc_eq)
qed

lemma join_room_ok:
  assumes "room_ok ttl roomID room" and "length (rs_peers room) < MaxRoomPeers" and "peerID \<noteq> []"
    and "peerID \<notin> set (map fst (rs_peers room))"
  shows "room_ok ttl roomID (join_room peerID conn room)"
proof -
  have "map_of (rs_peers room) peerID = None" using assms(4) by (simp add: map_of_eq_None_iff)
  then show ?thesis
    using assms by (auto simp: room_ok_def join_room_def stopCleanup_def gm_put_new gm_ok_def)
qed

lemma stopCleanup_ok: "room_ok ttl roomID room \<Longrightarrow> room_ok ttl roomID (stopCleanup room)"
  by (simp add: room_ok_def stopCleanup_def)

lemma leave_room_ok:
  assumes "room_ok ttl roomID room"
  shows "room_ok ttl roomID (leave_room peerID room)"
proof -
  have d: "distinct (map fst (rs_peers room))" using assms by (simp add: room_ok_def gm_ok_def)
  have "remove1 peerID (map fst (rs_peers room)) = map fst (gm_del peerID (rs_peers room))"
    using remove1_map_filter [OF d] filter_fst_gm_del by metis
  moreover have "length (gm_del peerID (rs_peers room)) \<le> length (rs_peers room)"
    "set (gm_del peerID (rs_peers room)) \<subseteq> set (rs_peers room)"
    by (auto simp: gm_del_def)
  ultimately show ?thesis
    using assms gm_del_ok [of "rs_peers room" peerID]
    by (auto simp: room_ok_def leave_room_def removePeerOrder_def)
qed

lemma leave_locked_ok:
  assumes "manager_ok m" and "map_of (m_rooms m) roomID = Some room"
  shows "manager_ok (leave_locked roomID room peerID imm m)"
proof -
  have r: "room_ok (m_roomTTL m) roomID (leave_room peerID room)"
    using manager_ok_room [OF assms] leave_room_ok by blast
  then have "room_ok (m_roomTTL m) roomID (scheduleCleanup (leave_room peerID room))"
    by (simp add: room_ok_def scheduleCleanup_def stopCleanup_def)
  moreover have "rs_ref (leave_room peerID room) = rs_ref room"
    "rs_ref (scheduleCleanup (leave_room peerID room)) = rs_ref room"
    by (simp_all add: leave_room_def removePeerOrder_def scheduleCleanup_def stopCleanup_def)
  ultimately show ?thesis
    using assms r put_room_ok removeRoomLocked_ok by (auto simp: leave_locked_def Let_def)
qed

lemma close_locked_ok: "manager_ok m \<Longrightarrow> manager_ok (snd (close_locked m))"
  by (simp add: close_locked_def manager_ok_def gm_ok_def)

lemma expire_locked_ok: "manager_ok m \<Longrightarrow> manager_ok (snd (expire_locked roomID r m))"
  by (simp add: expire_locked_def removeRoomLocked_ok split: option.split)

lemma cleanup_locked_ok: "manager_ok m \<Longrightarrow> manager_ok (cleanup_locked roomID r m)"
  by (simp add: cleanup_locked_def removeRoomLocked_ok split: option.split)

section \<open>Steps\<close>

text \<open>
  The locked sections as atomic steps, with their guards; other goroutines may run any of
  them between two sections of an operation, and a timer callback may run at any moment.
  A peer id drawn for a room is one the room does not have.
\<close>

inductive quiet_step :: "Manager \<Rightarrow> Manager \<Rightarrow> bool" where
  prune: "quiet_step m (snd (pruneExpiredLocked now m))"
| leave: "map_of (m_rooms m) roomID = Some room \<Longrightarrow> map_of (rs_peers room) peerID \<noteq> None \<Longrightarrow>
    quiet_step m (leave_locked roomID room peerID imm m)"

text \<open>The steps that add nobody are the quiet ones.\<close>

inductive manager_step :: "Manager \<Rightarrow> Manager \<Rightarrow> bool" where
  quiet: "quiet_step m m' \<Longrightarrow> manager_step m m'"
| create: "\<not> m_closed m \<Longrightarrow> length (m_rooms m) < m_maxRooms m \<Longrightarrow> map_of (m_rooms m) roomID = None \<Longrightarrow>
    manager_step m (create_locked roomID now m)"
| join_stop: "map_of (m_rooms m) roomID = Some room \<Longrightarrow> length (rs_peers room) < MaxPeers (rs_room room) \<Longrightarrow>
    manager_step m (put_room roomID (stopCleanup room) m)"
| join: "map_of (m_rooms m) roomID = Some room \<Longrightarrow> length (rs_peers room) < MaxPeers (rs_room room) \<Longrightarrow>
    peerID \<noteq> [] \<Longrightarrow> peerID \<notin> set (map fst (rs_peers room)) \<Longrightarrow>
    manager_step m (join_locked roomID room peerID conn m)"
| close: "\<not> m_closed m \<Longrightarrow> manager_step m (snd (close_locked m))"
| expire: "manager_step m (snd (expire_locked roomID ref m))"
| cleanup: "manager_step m (cleanup_locked roomID ref m)"

inductive_cases manager_stepE: "manager_step m m'"
inductive_cases quiet_stepE: "quiet_step m m'"

lemma quiet_step_ok: "quiet_step m m' \<Longrightarrow> manager_ok m \<Longrightarrow> manager_ok m'"
  by (induction rule: quiet_step.induct) (simp_all add: prune_ok leave_locked_ok)

lemma manager_step_ok: "manager_step m m' \<Longrightarrow> manager_ok m \<Longrightarrow> manager_ok m'"
proof (induction rule: manager_step.induct)
  case (join_stop m roomID room)
  then show ?case
    using manager_ok_room put_room_ok stopCleanup_ok by (metis stopCleanup_def roomState.select_convs(6) roomState.update_convs(5) roomState.surjective)
next
  case (join m roomID room peerID conn)
  then have "room_ok (m_roomTTL m) roomID (join_room peerID conn room)"
    using manager_ok_room [of m roomID room] by (intro join_room_ok) (auto simp: room_ok_def)
  then show ?case
    using join by (simp add: join_locked_def put_room_ok join_room_def stopCleanup_def)
qed (simp_all add: quiet_step_ok create_locked_ok close_locked_ok expire_locked_ok cleanup_locked_ok)

interpretation lobby: invariant_system "\<lambda>m. \<exists>opts. m = NewManager opts" manager_step manager_ok
  by unfold_locales (auto simp: NewManager_ok manager_step_ok)


section \<open>The operations run steps\<close>

lemma closePeers_mgr [simp]:
  "mgr (closePeersWithReason ps c r w) = mgr w" "mgr (closePeers ps w) = mgr w"
  by (simp_all add: closePeersWithReason_def closePeers_def)

lemma ask_mgr [simp]: "mgr (snd (ask f w)) = mgr w" "mgr (w\<lparr>tick := k\<rparr>) = mgr w"
  by (simp_all add: ask_def)

lemma sendPeer_mgr [simp]: "mgr (snd (sendPeer e c p w)) = mgr w"
  by (simp add: sendPeer_def ask_def Let_def split_beta)

lemma send_all_mgr [simp]: "mgr (snd (send_all e p ps w)) = mgr w"
  by (induction ps arbitrary: w) (simp_all add: Let_def split_beta)

text \<open>
  Running on: the manager takes quiet steps, questions are asked and events added, none
  taken back.
\<close>

definition runs :: "world \<Rightarrow> world \<Rightarrow> bool" where
  "runs w w' \<longleftrightarrow> quiet_step\<^sup>*\<^sup>* (mgr w) (mgr w') \<and> tick w \<le> tick w' \<and> (\<exists>l. evlog w' = evlog w @ l)"

lemma runs_refl: "runs w w"
  by (simp add: runs_def)

lemma runs_trans: "runs a b \<Longrightarrow> runs b c \<Longrightarrow> runs a c"
  unfolding runs_def by (metis append.assoc order_trans rtranclp_trans)

lemma runs_quiet: "quiet_step (mgr w) m' \<Longrightarrow> runs w (w\<lparr>mgr := m'\<rparr>)"
  by (auto simp: runs_def)

lemma runs_ask: "runs w (w\<lparr>tick := tick w + k\<rparr>)"
  by (simp add: runs_def)

lemma runs_closePeers: "runs w (closePeersWithReason ps c r w)" "runs w (closePeers ps w)"
  by (simp_all add: runs_def closePeers_def closePeersWithReason_def)

lemma runs_sendPeer: "runs w (snd (sendPeer e c p w))"
  by (simp add: runs_def sendPeer_def ask_def)

lemma runs_send_all: "runs w (snd (send_all e p ps w))"
proof (induction ps arbitrary: w)
  case (Cons q ps)
  show ?case
    using runs_trans [OF runs_sendPeer Cons.IH] by (simp add: Let_def split_beta)
qed (simp add: runs_refl)

text \<open>A call back that only runs on.\<close>

definition runs_only :: "(string \<Rightarrow> world \<Rightarrow> world option) \<Rightarrow> bool" where
  "runs_only leave \<longleftrightarrow> (\<forall>p w w'. leave p w = Some w' \<longrightarrow> runs w w')"

lemma leave_each_runs: "runs_only leave \<Longrightarrow> leave_each leave ps w = Some w' \<Longrightarrow> runs w w'"
proof (induction ps arbitrary: w)
  case (Cons p ps)
  then show ?case
    by (auto simp: runs_only_def split: option.split_asm) (metis runs_trans)
qed (simp add: runs_refl)

lemma broadcast_runs:
  assumes "runs_only leave" and "broadcast e leave roomID payload exc w = Some w'"
  shows "runs w w'"
proof -
  have "runs w w'" if "leave_each leave failed (snd (send_all e payload ps w)) = Some w'" for failed ps
    using runs_trans [OF runs_send_all leave_each_runs [OF assms(1) that]] .
  then show ?thesis
    using assms(2) by (auto simp: broadcast_def Let_def split_beta runs_refl split: option.split_asm if_split_asm)
qed

text \<open>The state of \<open>Leave\<close> after its locked section, when the peer was there.\<close>

definition left_world :: "env \<Rightarrow> string \<Rightarrow> roomState \<Rightarrow> string \<Rightarrow> bool \<Rightarrow> world \<Rightarrow> world" where
  "left_world e roomID room peerID imm w =
    (let (expired, m2) = pruneExpiredLocked (clock e (tick w)) (mgr w)
     in closePeers expired (w\<lparr>tick := tick w + 1, mgr := leave_locked roomID room peerID imm m2\<rparr>))"

definition present :: "env \<Rightarrow> string \<Rightarrow> string \<Rightarrow> world \<Rightarrow> roomState option" where
  "present e roomID peerID w =
    (if m_closed (mgr w) then None
     else case map_of (m_rooms (snd (pruneExpiredLocked (clock e (tick w)) (mgr w)))) roomID of
       None \<Rightarrow> None
     | Some room \<Rightarrow> if map_of (rs_peers room) peerID = None then None else Some room)"

lemma Leave_absent:
  assumes "present e roomID peerID w = None"
  shows "\<exists>w'. Leave (Suc n) e roomID peerID imm w = Some (False, w')
    \<and> (mgr w' = mgr w \<and> m_closed (mgr w) \<or> mgr w' = snd (pruneExpiredLocked (clock e (tick w)) (mgr w))) \<and> runs w w'"
proof -
  obtain expired m2 where pr: "pruneExpiredLocked (clock e (tick w)) (mgr w) = (expired, m2)" by fastforce
  have q: "quiet_step (mgr w) m2" using quiet_step.prune [of "mgr w" "clock e (tick w)"] pr by simp
  have "runs w (closePeers expired (w\<lparr>tick := tick w + 1, mgr := m2\<rparr>))"
    using runs_trans [OF runs_ask [of w 1] runs_trans [OF runs_quiet runs_closePeers(2)]] q by simp
  then show ?thesis
    using assms pr runs_ask [of w 1]
    by (auto simp: ask_def present_def split: option.split_asm if_split_asm)
qed

lemma left_world_runs:
  assumes "present e roomID peerID w = Some room"
  shows "runs w (left_world e roomID room peerID imm w)"
proof -
  obtain expired m2 where pr: "pruneExpiredLocked (clock e (tick w)) (mgr w) = (expired, m2)" by fastforce
  have "quiet_step (mgr w) m2" using quiet_step.prune [of "mgr w" "clock e (tick w)"] pr by simp
  moreover have "quiet_step m2 (leave_locked roomID room peerID imm m2)"
    using assms pr by (intro quiet_step.leave) (auto simp: present_def split: option.split_asm if_split_asm)
  ultimately have "runs w (w\<lparr>tick := tick w + 1, mgr := leave_locked roomID room peerID imm m2\<rparr>)"
    by (auto simp: runs_def)
  from runs_trans [OF this runs_closePeers(2)] show ?thesis by (simp add: left_world_def pr)
qed

lemma Leave_present:
  assumes "present e roomID peerID w = Some room"
  shows "Leave (Suc n) e roomID peerID imm w =
    (let peers = publicPeers (leave_room peerID room);
         again = (\<lambda>p w'. map_option snd (Leave n e roomID p False w'))
     in case broadcast e again roomID (marshalSystemWithPeers ''peer-left'' peers) []
               (left_world e roomID room peerID imm w) of
          None \<Rightarrow> None
        | Some w4 \<Rightarrow>
            if peers \<noteq> [] then
              map_option (\<lambda>w5. (True, w5))
                (broadcast e again roomID (marshalSystem ''peer-list'' [] peers) [] w4)
            else Some (True, w4))"
  using assms
  by (auto simp: present_def left_world_def ask_def Let_def split: option.split_asm if_split_asm prod.split)

lemma Leave_runs: "Leave n e roomID peerID imm w = Some (r, w') \<Longrightarrow> runs w w'"
proof (induction n arbitrary: peerID imm w r w')
  case (Suc n)
  let ?again = "\<lambda>p w'. map_option snd (Leave n e roomID p False w')"
  have "runs_only ?again" using Suc.IH by (auto simp: runs_only_def)
  note bc = broadcast_runs [OF this]
  show ?case
  proof (cases "present e roomID peerID w")
    case None
    from Leave_absent [OF None, of n imm] Suc.prems show ?thesis by auto
  next
    case (Some room)
    note lw = left_world_runs [OF Some, of imm]
    from Suc.prems show ?thesis
      unfolding Leave_present [OF Some] Let_def
      by (auto split: option.split_asm if_split_asm dest!: bc intro: runs_trans [OF lw] runs_trans)
  qed
qed simp

section \<open>Quiet steps only take peers away\<close>

definition members :: "Manager \<Rightarrow> string \<Rightarrow> string set" where
  "members m roomID = (case map_of (m_rooms m) roomID of None \<Rightarrow> {} | Some room \<Rightarrow> fst ` set (rs_peers room))"

definition peers_in :: "Manager \<Rightarrow> string \<Rightarrow> nat" where
  "peers_in m roomID = (case map_of (m_rooms m) roomID of None \<Rightarrow> 0 | Some room \<Rightarrow> length (rs_peers room))"

definition all_ids :: "Manager \<Rightarrow> string set" where
  "all_ids m = (\<Union>roomID. members m roomID)"

text \<open>No room is new, and each has at most its old members.\<close>

definition shrinks :: "Manager \<Rightarrow> Manager \<Rightarrow> bool" where
  "shrinks m m' \<longleftrightarrow>
     (\<forall>roomID. members m' roomID \<subseteq> members m roomID \<and> peers_in m' roomID \<le> peers_in m roomID
        \<and> (map_of (m_rooms m) roomID = None \<longrightarrow> map_of (m_rooms m') roomID = None))
     \<and> m_closed m' = m_closed m"

lemma shrinks_refl: "shrinks m m"
  by (simp add: shrinks_def)

lemma shrinks_trans: "shrinks a b \<Longrightarrow> shrinks b c \<Longrightarrow> shrinks a c"
  unfolding shrinks_def by (meson order_trans)

lemma shrinks_ids: "shrinks m m' \<Longrightarrow> all_ids m' \<subseteq> all_ids m"
  by (auto simp: shrinks_def all_ids_def)

lemma leave_locked_lookup:
  assumes "map_of (m_rooms m) roomID = Some room"
  shows "map_of (m_rooms (leave_locked roomID room peerID imm m)) j =
     (if j \<noteq> roomID then map_of (m_rooms m) j
      else if rs_peers (leave_room peerID room) = [] \<and> (imm \<or> m_emptyRoomGrace m = 0) then None
      else if rs_peers (leave_room peerID room) = [] then Some (scheduleCleanup (leave_room peerID room))
      else Some (leave_room peerID room))"
proof -
  have "rs_ref (leave_room peerID room) = rs_ref room" by (simp add: leave_room_def removePeerOrder_def)
  then show ?thesis
    using assms by (auto simp: leave_locked_def Let_def put_room_def removeRoomLocked_def gm_put_lookup gm_del_lookup)
qed

lemma leave_room_peers [simp]:
  "rs_peers (leave_room peerID room) = gm_del peerID (rs_peers room)"
  "rs_peers (scheduleCleanup room) = rs_peers room"
  by (simp_all add: leave_room_def removePeerOrder_def scheduleCleanup_def stopCleanup_def)

lemma leave_locked_closed [simp]: "m_closed (leave_locked roomID room peerID imm m) = m_closed m"
  by (simp add: leave_locked_def Let_def put_room_def removeRoomLocked_def split: option.split)

lemma quiet_step_shrinks:
  assumes "quiet_step m m'" and "manager_ok m"
  shows "shrinks m m'"
  using assms(1)
proof cases
  case (prune now)
  have gm: "gm_ok (m_rooms m)" using assms(2) by (rule manager_ok_gm)
  have look: "map_of (m_rooms m') j = None \<or> map_of (m_rooms m') j = map_of (m_rooms m) j" for j
    using prune_lookup [OF gm, of now j] prune by (auto split: option.splits)
  have "m_closed m' = m_closed m" using prune by (simp add: prune_filter [OF gm])
  moreover have "members m' j \<subseteq> members m j \<and> peers_in m' j \<le> peers_in m j
      \<and> (map_of (m_rooms m) j = None \<longrightarrow> map_of (m_rooms m') j = None)" for j
    using look [of j] by (auto simp: members_def peers_in_def)
  ultimately show ?thesis by (simp add: shrinks_def)
next
  case (leave roomID room peerID imm)
  have len: "length (gm_del peerID (rs_peers room)) \<le> length (rs_peers room)"
    "fst ` set (gm_del peerID (rs_peers room)) \<subseteq> fst ` set (rs_peers room)"
    by (auto simp: gm_del_def)
  show ?thesis
    unfolding shrinks_def leave(1)
    using leave_locked_lookup [OF leave(2), of peerID imm] leave(2) len
    by (auto simp: members_def peers_in_def)
qed

lemma quiet_steps_ok: "quiet_step\<^sup>*\<^sup>* m m' \<Longrightarrow> manager_ok m \<Longrightarrow> manager_ok m'"
  by (induction rule: rtranclp_induct) (auto intro: quiet_step_ok)

lemma quiet_steps_shrinks: "quiet_step\<^sup>*\<^sup>* m m' \<Longrightarrow> manager_ok m \<Longrightarrow> shrinks m m'"
proof (induction rule: rtranclp_induct)
  case base
  then show ?case by (simp add: shrinks_refl)
next
  case (step y z)
  then show ?case using quiet_steps_ok quiet_step_shrinks shrinks_trans by blast
qed

lemma leave_locked_fewer:
  assumes "manager_ok m" "map_of (m_rooms m) roomID = Some room" "map_of (rs_peers room) peerID \<noteq> None"
  shows "peers_in (leave_locked roomID room peerID imm m) roomID < peers_in m roomID"
proof -
  have "gm_ok (rs_peers room)" using manager_ok_room [OF assms(1,2)] by (simp add: room_ok_def)
  from gm_del_length [OF this assms(3)] show ?thesis
    using leave_locked_lookup [OF assms(2), of peerID imm roomID] assms(2)
    by (auto simp: peers_in_def)
qed

section \<open>Enough fuel\<close>

text \<open>A call back that returns on every good world with few enough peers, and only runs on.\<close>

definition returns_below :: "nat \<Rightarrow> string \<Rightarrow> (string \<Rightarrow> world \<Rightarrow> world option) \<Rightarrow> bool" where
  "returns_below k roomID leave \<longleftrightarrow>
     runs_only leave \<and> (\<forall>p w. manager_ok (mgr w) \<longrightarrow> peers_in (mgr w) roomID < k \<longrightarrow> (\<exists>w'. leave p w = Some w'))"

lemma runs_ok:
  assumes "runs w w'" and "manager_ok (mgr w)"
  shows "manager_ok (mgr w')" "shrinks (mgr w) (mgr w')" "peers_in (mgr w') roomID \<le> peers_in (mgr w) roomID"
  using assms quiet_steps_ok quiet_steps_shrinks by (auto simp: runs_def shrinks_def)

lemma leave_each_returns:
  assumes "returns_below k roomID leave" and "manager_ok (mgr w)" and "peers_in (mgr w) roomID < k"
  shows "\<exists>w'. leave_each leave ps w = Some w'"
  using assms(2,3)
proof (induction ps arbitrary: w)
  case (Cons p ps)
  obtain w1 where w1: "leave p w = Some w1" using assms(1) Cons.prems by (auto simp: returns_below_def)
  then have q: "runs w w1" using assms(1) by (auto simp: returns_below_def runs_only_def)
  have "manager_ok (mgr w1)" "peers_in (mgr w1) roomID < k"
    using runs_ok [OF q] Cons.prems by (auto intro: le_less_trans)
  then show ?case using Cons.IH w1 by simp
qed simp

lemma broadcast_returns:
  assumes "returns_below k roomID leave" and "manager_ok (mgr w)" and "peers_in (mgr w) roomID < k"
  shows "\<exists>w'. broadcast e leave roomID payload exc w = Some w'"
  using leave_each_returns [OF assms(1)] assms(2,3)
  by (auto simp: broadcast_def Let_def split_beta split: option.split)

lemma left_world_fewer:
  assumes "manager_ok (mgr w)" and "present e roomID peerID w = Some room"
  shows "peers_in (mgr (left_world e roomID room peerID imm w)) roomID < peers_in (mgr w) roomID"
proof -
  obtain expired m2 where pr: "pruneExpiredLocked (clock e (tick w)) (mgr w) = (expired, m2)" by fastforce
  have q: "quiet_step (mgr w) m2" using quiet_step.prune [of "mgr w" "clock e (tick w)"] pr by simp
  have "map_of (m_rooms m2) roomID = Some room" "map_of (rs_peers room) peerID \<noteq> None"
    using assms(2) pr by (auto simp: present_def split: option.split_asm if_split_asm)
  from leave_locked_fewer [OF quiet_step_ok [OF q assms(1)] this] quiet_step_shrinks [OF q assms(1)]
  show ?thesis by (auto simp: left_world_def pr shrinks_def intro: less_le_trans)
qed

lemma Leave_returns:
  assumes "manager_ok (mgr w)" and "peers_in (mgr w) roomID < n"
  shows "\<exists>r w'. Leave n e roomID peerID imm w = Some (r, w')"
  using assms
proof (induction n arbitrary: peerID imm w)
  case (Suc n)
  let ?again = "\<lambda>p w'. map_option snd (Leave n e roomID p False w')"
  have "runs_only ?again" using Leave_runs by (auto simp: runs_only_def)
  moreover have "\<exists>w''. ?again p w' = Some w''" if "manager_ok (mgr w')" "peers_in (mgr w') roomID < n" for p w'
    using Suc.IH [OF that, of p False] by auto
  ultimately have again: "returns_below n roomID ?again" by (simp add: returns_below_def)
  show ?case
  proof (cases "present e roomID peerID w")
    case None
    from Leave_absent [OF None, of n imm] show ?thesis by auto
  next
    case (Some room)
    let ?w3 = "left_world e roomID room peerID imm w" and ?peers = "publicPeers (leave_room peerID room)"
    have ok3: "manager_ok (mgr ?w3)" using runs_ok(1) [OF left_world_runs [OF Some] Suc.prems(1)] .
    have lt3: "peers_in (mgr ?w3) roomID < n" using left_world_fewer [OF Suc.prems(1) Some, of imm] Suc.prems(2) by simp
    obtain w4 where w4: "broadcast e ?again roomID (marshalSystemWithPeers ''peer-left'' ?peers) [] ?w3 = Some w4"
      using broadcast_returns [OF again ok3 lt3] by blast
    have q4: "runs ?w3 w4" using broadcast_runs [OF _ w4] again by (simp add: returns_below_def)
    have "manager_ok (mgr w4)" "peers_in (mgr w4) roomID < n"
      using runs_ok [OF q4 ok3] lt3 by (auto intro: le_less_trans)
    then obtain w5 where w5: "broadcast e ?again roomID (marshalSystem ''peer-list'' [] ?peers) [] w4 = Some w5"
      using broadcast_returns [OF again] by blast
    show ?thesis unfolding Leave_present [OF Some] Let_def using w4 w5 by auto
  qed
qed simp

lemma peers_in_bound: "manager_ok m \<Longrightarrow> peers_in m roomID < leave_fuel"
  using manager_ok_room [of m roomID]
  by (auto simp: peers_in_def leave_fuel_def room_ok_def MaxRoomPeers_def split: option.split)

lemma leave_call: "returns_below leave_fuel roomID (\<lambda>p w'. map_option snd (Leave leave_fuel e roomID p False w'))"
  using Leave_returns Leave_runs by (fastforce simp: returns_below_def runs_only_def)

lemma Leave_removes:
  assumes "Leave n e roomID peerID imm w = Some (r, w')" and "manager_ok (mgr w)"
  shows "peerID \<notin> members (mgr w') roomID \<and> (r \<longleftrightarrow> present e roomID peerID w \<noteq> None)"
proof (cases n)
  case 0
  then show ?thesis using assms by simp
next
  case (Suc k)
  show ?thesis
  proof (cases "present e roomID peerID w")
    case None
    have "mgr w' = mgr w \<and> m_closed (mgr w) \<or> mgr w' = snd (pruneExpiredLocked (clock e (tick w)) (mgr w))" "\<not> r"
      using Leave_absent [OF None, of k imm] assms(1) Suc by auto
    moreover have "m_closed (mgr w) \<longrightarrow> m_rooms (mgr w) = []" using assms(2) by (simp add: manager_ok_def)
    moreover have "m_closed (mgr w) \<longrightarrow> m_rooms (snd (pruneExpiredLocked (clock e (tick w)) (mgr w))) = []"
      using assms(2) by (simp add: prune_filter manager_ok_gm) (simp add: manager_ok_def)
    ultimately show ?thesis
      using None by (auto simp: members_def present_def split: option.splits if_split_asm dest: weak_map_of_SomeI)
  next
    case (Some room)
    obtain expired m2 where pr: "pruneExpiredLocked (clock e (tick w)) (mgr w) = (expired, m2)" by fastforce
    have room: "map_of (m_rooms m2) roomID = Some room"
      using Some pr by (auto simp: present_def split: option.split_asm if_split_asm)
    let ?w3 = "left_world e roomID room peerID imm w"
    have gone: "peerID \<notin> members (mgr ?w3) roomID"
      using leave_locked_lookup [OF room, of peerID imm roomID]
      by (auto simp: left_world_def pr members_def gm_del_def)
    have ok3: "manager_ok (mgr ?w3)" using runs_ok(1) [OF left_world_runs [OF Some] assms(2)] .
    have "runs_only (\<lambda>p w'. map_option snd (Leave k e roomID p False w'))"
      using Leave_runs by (auto simp: runs_only_def)
    note bc = broadcast_runs [OF this]
    have "runs ?w3 w'" "r"
      using assms(1) unfolding Suc Leave_present [OF Some] Let_def
      by (auto split: option.split_asm if_split_asm dest!: bc intro: runs_trans)
    then show ?thesis using runs_ok(2) [OF _ ok3] gone Some by (auto simp: shrinks_def)
  qed
qed

section \<open>The other operations\<close>

lemma prune_quiet: "quiet_step m (snd (pruneExpiredLocked now m))"
  by (rule quiet_step.prune)

lemma pruned_runs:
  assumes "pruneExpiredLocked (clock e (tick w)) (mgr w) = (expired, m2)"
  shows "runs w (closePeers expired (w\<lparr>tick := Suc (tick w), mgr := m2\<rparr>))"
    and "runs w (w\<lparr>tick := Suc (tick w), mgr := m2\<rparr>)" and "quiet_step (mgr w) m2"
proof -
  show q: "quiet_step (mgr w) m2" using prune_quiet [of "mgr w" "clock e (tick w)"] assms by simp
  then show r: "runs w (w\<lparr>tick := Suc (tick w), mgr := m2\<rparr>)" by (auto simp: runs_def)
  show "runs w (closePeers expired (w\<lparr>tick := Suc (tick w), mgr := m2\<rparr>))"
    by (rule runs_trans [OF r runs_closePeers(2)])
qed

lemma Status_runs: "runs w (snd (Status e roomID w))"
proof -
  obtain expired m2 where pr: "pruneExpiredLocked (clock e (tick w)) (mgr w) = (expired, m2)" by fastforce
  show ?thesis
    using pruned_runs(1) [OF pr] runs_ask [of w 1] by (auto simp: Status_def ask_def pr Let_def split: option.split)
qed

lemma count_runs: "runs w (snd (RoomCount e w))" "runs w (snd (ConnectionCount e w))"
proof -
  obtain expired m2 where pr: "pruneExpiredLocked (clock e (tick w)) (mgr w) = (expired, m2)" by fastforce
  show "runs w (snd (RoomCount e w))" "runs w (snd (ConnectionCount e w))"
    using pruned_runs(1) [OF pr] by (simp_all add: RoomCount_def ConnectionCount_def ask_def pr)
qed

lemma alloc_id_world:
  "mgr (snd (alloc_id n e cur w)) = mgr w \<and> tick w \<le> tick (snd (alloc_id n e cur w))
    \<and> evlog (snd (alloc_id n e cur w)) = evlog w"
proof (induction n arbitrary: cur w)
  case (Suc n)
  have "tick w \<le> tick (snd (alloc_id n e c (w\<lparr>tick := Suc (tick w)\<rparr>)))" for c
    using Suc [of c "w\<lparr>tick := Suc (tick w)\<rparr>"] by simp
  then show ?case using Suc by (auto simp: ask_def Let_def split: option.split)
qed simp

text \<open>What \<open>Create\<close> does: an error changes nothing but what expired; success adds one empty room.\<close>

lemma Create_cases:
  assumes "manager_ok (mgr w)" and "Create e baseURL w = (r, w')"
  shows "case r of
      Inl err \<Rightarrow> runs w w'
    | Inr c \<Rightarrow> (\<exists>m2. quiet_step (mgr w) m2 \<and> \<not> m_closed m2 \<and> length (m_rooms m2) < m_maxRooms m2
        \<and> map_of (m_rooms m2) (cr_RoomID c) = None \<and> mgr w' = create_locked (cr_RoomID c) (clock e (tick w)) m2
        \<and> c = \<lparr>cr_RoomID = cr_RoomID c, cr_InviteLink = TrimRight_slash baseURL @ ''/direct/'' @ PathEscape (cr_RoomID c),
             cr_ExpiresAt = clock e (tick w) + m_roomTTL (mgr w), cr_MaxPeers = 2\<rparr>)
        \<and> tick w \<le> tick w' \<and> (\<exists>l. evlog w' = evlog w @ l)"
proof -
  obtain expired m2 where pr: "pruneExpiredLocked (clock e (tick w)) (mgr w) = (expired, m2)" by fastforce
  have q: "quiet_step (mgr w) m2" using pruned_runs(3) [OF pr] .
  have ttl: "m_roomTTL m2 = m_roomTTL (mgr w)" "m_closed m2 = m_closed (mgr w)"
    using pr assms(1) by (auto simp: prune_filter manager_ok_gm)
  let ?w2 = "w\<lparr>tick := Suc (tick w), mgr := m2\<rparr>"
  obtain res w3 where al: "alloc_id 8 e [] ?w2 = (res, w3)" by fastforce
  have w3: "mgr w3 = m2" "Suc (tick w) \<le> tick w3" "evlog w3 = evlog w"
    using alloc_id_world [of 8 e "[]" ?w2] al by auto
  have r3: "runs w (closePeers expired w3)"
    using q w3 by (auto simp: runs_def closePeers_def closePeersWithReason_def)
  show ?thesis
  proof (cases "m_closed (mgr w) \<or> m_maxRooms m2 \<le> length (m_rooms m2)")
    case True
    then show ?thesis
      using assms(2) pruned_runs(1) [OF pr] runs_ask [of w 1] by (auto simp: Create_def ask_def pr Let_def split: if_split_asm)
  next
    case False
    then have cr: "Create e baseURL w = (case (res, w3) of
           (Inl err, w3) \<Rightarrow> (Inl err, closePeers expired w3)
         | (Inr roomID, w3) \<Rightarrow>
             if map_of (m_rooms (mgr w3)) roomID \<noteq> None then (Inl ErrAllocateRoom, closePeers expired w3)
             else
               (Inr \<lparr>cr_RoomID = roomID,
                  cr_InviteLink = TrimRight_slash baseURL @ ''/direct/'' @ PathEscape roomID,
                  cr_ExpiresAt = clock e (tick w) + m_roomTTL (mgr w3), cr_MaxPeers = MaxRoomPeers\<rparr>,
                closePeers expired (w3\<lparr>mgr := create_locked roomID (clock e (tick w)) (mgr w3)\<rparr>)))"
      using al by (simp add: Create_def ask_def pr)
    show ?thesis
    proof (cases res)
      case (Inl err)
      then show ?thesis using assms(2) r3 by (auto simp: cr)
    next
      case (Inr roomID)
      show ?thesis
      proof (cases "map_of (m_rooms m2) roomID")
        case (Some _)
        then show ?thesis using assms(2) r3 Inr w3(1) by (auto simp: cr)
      next
        case None
        then have "r = Inr \<lparr>cr_RoomID = roomID, cr_InviteLink = TrimRight_slash baseURL @ ''/direct/'' @ PathEscape roomID,
              cr_ExpiresAt = clock e (tick w) + m_roomTTL (mgr w), cr_MaxPeers = 2\<rparr>"
          "w' = closePeers expired (w3\<lparr>mgr := create_locked roomID (clock e (tick w)) m2\<rparr>)"
          using assms(2) Inr w3(1) ttl by (auto simp: cr MaxRoomPeers_def)
        then show ?thesis
          using None q False ttl w3 by (auto simp: closePeers_def closePeersWithReason_def intro!: exI [of _ m2])
      qed
    qed
  qed
qed

lemma announce_runs:
  "runs_only leave \<Longrightarrow> announce leave e payload ps w = Some (b, w') \<Longrightarrow> runs w w'"
proof (induction ps arbitrary: w b)
  case (Cons p ps)
  obtain ok w1 where sp: "sendPeer e (peer_conn p) payload w = (ok, w1)" by fastforce
  have r1: "runs w w1" using runs_sendPeer [of w e "peer_conn p" payload] sp by simp
  have lv: "leave (peer_id p) w1 = Some w2 \<Longrightarrow> runs w1 w2" for w2
    using Cons.prems(1) by (auto simp: runs_only_def)
  show ?case
  proof (cases ok)
    case True
    then have "announce leave e payload ps w1 = Some (b, w')" using Cons.prems(2) sp by simp
    then show ?thesis using Cons.IH [OF Cons.prems(1)] runs_trans [OF r1] by blast
  next
    case False
    then obtain w2 b2 where "leave (peer_id p) w1 = Some w2" "announce leave e payload ps w2 = Some (b2, w')"
      using Cons.prems(2) sp by (auto split: option.split_asm)
    then show ?thesis using Cons.IH [OF Cons.prems(1)] lv runs_trans r1 by blast
  qed
qed (simp add: runs_refl)

lemma announce_returns:
  assumes "returns_below k roomID leave" and "manager_ok (mgr w)" and "peers_in (mgr w) roomID < k"
  shows "\<exists>b w'. announce leave e payload ps w = Some (b, w')"
  using assms(2,3)
proof (induction ps arbitrary: w)
  case (Cons p ps)
  obtain ok w1 where sp: "sendPeer e (peer_conn p) payload w = (ok, w1)" by fastforce
  have m1: "mgr w1 = mgr w" using sendPeer_mgr [of e "peer_conn p" payload w] sp by simp
  obtain w2 where w2: "leave (peer_id p) w1 = Some w2"
    using assms(1) Cons.prems m1 by (fastforce simp: returns_below_def)
  then have q: "runs w1 w2" using assms(1) by (auto simp: returns_below_def runs_only_def)
  have "manager_ok (mgr w2)" "peers_in (mgr w2) roomID < k"
    using runs_ok [OF q] Cons.prems m1 by (auto intro: le_less_trans)
  then show ?case
    using Cons.IH [of w2] Cons.IH [of w1] Cons.prems m1 w2 sp by (cases ok) auto
qed auto

lemma world_update_order: "w\<lparr>mgr := a, tick := b\<rparr> = w\<lparr>tick := b, mgr := a\<rparr>"
  by (cases w) simp

text \<open>The admission of \<open>Join\<close>: an error runs quietly or only stops a cleanup timer; else one peer is added.\<close>

definition joinable :: "env \<Rightarrow> string \<Rightarrow> world \<Rightarrow> roomState option" where
  "joinable e roomID w =
    (if m_closed (mgr w) then None
     else case map_of (m_rooms (snd (pruneExpiredLocked (clock e (tick w)) (mgr w)))) roomID of
       None \<Rightarrow> None
     | Some room \<Rightarrow> if length (rs_peers room) \<ge> MaxPeers (rs_room room) then None else Some room)"

lemma join_admit_refused:
  assumes "joinable e roomID w = None"
  shows "\<exists>err w'. join_admit e roomID conn w = (Inl err, w') \<and> runs w w'
    \<and> err = (if m_closed (mgr w) then ErrManagerClosed
             else if map_of (m_rooms (snd (pruneExpiredLocked (clock e (tick w)) (mgr w)))) roomID = None
             then ErrRoomNotFound else ErrRoomFull)"
proof -
  obtain expired m2 where pr: "pruneExpiredLocked (clock e (tick w)) (mgr w) = (expired, m2)" by fastforce
  show ?thesis
    using assms pruned_runs(1) [OF pr] runs_ask [of w 1]
    by (auto simp: join_admit_def joinable_def ask_def pr Let_def split: option.splits if_split_asm)
qed

lemma join_admit_ok:
  assumes "joinable e roomID w = Some room" and "manager_ok (mgr w)"
    and "pruneExpiredLocked (clock e (tick w)) (mgr w) = (expired, m2)"
  shows "map_of (m_rooms m2) roomID = Some room" "length (rs_peers room) < MaxRoomPeers"
    "join_admit e roomID conn w =
      (let w3 = w\<lparr>tick := tick w + 2, mgr := put_room roomID (stopCleanup room) m2\<rparr> in
       case newPeerID e (tick w + 1) of
         None \<Rightarrow> (Inl ErrAllocatePeer, closePeers expired w3)
       | Some peerID \<Rightarrow>
           if peerID = [] then (Inl ErrAllocatePeer, closePeers expired w3)
           else (Inr (peerID, publicPeers (join_room peerID conn room), other_peers peerID (join_room peerID conn room)),
                 closePeers expired (w3\<lparr>mgr := put_room roomID (join_room peerID conn room) m2\<rparr>)))"
proof -
  show room: "map_of (m_rooms m2) roomID = Some room"
    using assms(1,3) by (auto simp: joinable_def split: option.split_asm if_split_asm)
  have "manager_ok m2" using quiet_step_ok [OF pruned_runs(3) [OF assms(3)] assms(2)] .
  from manager_ok_room [OF this room] show "length (rs_peers room) < MaxRoomPeers"
    using assms(1,3) room by (auto simp: joinable_def room_ok_def split: if_split_asm)
  have put2: "put_room roomID a (put_room roomID b m2) = put_room roomID a m2" for a b
  proof -
    have "gm_put roomID a (gm_put roomID b xs) = gm_put roomID a xs" for xs :: "(string \<times> roomState) list"
      by (induction xs) auto
    then show ?thesis by (simp add: put_room_def)
  qed
  show "join_admit e roomID conn w =
      (let w3 = w\<lparr>tick := tick w + 2, mgr := put_room roomID (stopCleanup room) m2\<rparr> in
       case newPeerID e (tick w + 1) of
         None \<Rightarrow> (Inl ErrAllocatePeer, closePeers expired w3)
       | Some peerID \<Rightarrow>
           if peerID = [] then (Inl ErrAllocatePeer, closePeers expired w3)
           else (Inr (peerID, publicPeers (join_room peerID conn room), other_peers peerID (join_room peerID conn room)),
                 closePeers expired (w3\<lparr>mgr := put_room roomID (join_room peerID conn room) m2\<rparr>)))"
    using assms(1,3) room
    by (auto simp: join_admit_def joinable_def ask_def Let_def join_locked_def put2 world_update_order split: option.split if_split_asm)
qed

definition drawn :: "env \<Rightarrow> world \<Rightarrow> bool" where
  "drawn e w \<longleftrightarrow> (\<forall>pid \<in> all_ids (mgr w). \<exists>k < tick w. newPeerID e k = Some pid)"

definition unique_ids :: "env \<Rightarrow> bool" where
  "unique_ids e \<longleftrightarrow> (\<forall>j k pid. newPeerID e j = Some pid \<longrightarrow> newPeerID e k = Some pid \<longrightarrow> j = k)"

definition world_ok :: "env \<Rightarrow> world \<Rightarrow> bool" where
  "world_ok e w \<longleftrightarrow> manager_ok (mgr w) \<and> drawn e w"

lemma runs_world_ok: "runs w w' \<Longrightarrow> world_ok e w \<Longrightarrow> world_ok e w'"
proof -
  assume r: "runs w w'" and ok: "world_ok e w"
  have "manager_ok (mgr w')" "all_ids (mgr w') \<subseteq> all_ids (mgr w)" "tick w \<le> tick w'"
    using runs_ok(1,2) [OF r] shrinks_ids ok r by (auto simp: world_ok_def runs_def)
  moreover from this have "\<exists>k < tick w'. newPeerID e k = Some pid" if "pid \<in> all_ids (mgr w')" for pid
    using that ok by (meson drawn_def less_le_trans subsetD world_ok_def)
  ultimately show ?thesis by (simp add: world_ok_def drawn_def)
qed

lemma put_room_members:
  "members (put_room roomID room m) j = (if j = roomID then fst ` set (rs_peers room) else members m j)"
  by (simp add: members_def put_room_def gm_put_lookup)

lemma all_ids_put_room: "all_ids (put_room roomID room m) \<subseteq> all_ids m \<union> fst ` set (rs_peers room)"
  by (auto simp: all_ids_def put_room_members split: if_split_asm)

lemma join_room_keys: "fst ` set (rs_peers (join_room peerID conn room)) = insert peerID (fst ` set (rs_peers room))"
  using gm_put_keys [of peerID "\<lparr>peer_id = peerID, peer_conn = conn\<rparr>" "rs_peers room"]
  by (simp add: join_room_def stopCleanup_def)

lemma members_ids: "map_of (m_rooms m) roomID = Some room \<Longrightarrow> fst ` set (rs_peers room) \<subseteq> all_ids m"
  unfolding all_ids_def by (rule order_trans [OF _ UN_upper [of roomID]]) (simp_all add: members_def)

lemma join_admit_world_ok:
  assumes "world_ok e w" and "unique_ids e" and "join_admit e roomID conn w = (r, w')"
  shows "world_ok e w' \<and> tick w \<le> tick w' \<and> (\<exists>l. evlog w' = evlog w @ l)"
proof (cases "joinable e roomID w")
  case None
  from join_admit_refused [OF None, of conn] assms(3) have "runs w w'" by auto
  then show ?thesis using runs_world_ok assms(1) by (auto simp: runs_def)
next
  case (Some room)
  obtain expired m2 where pr: "pruneExpiredLocked (clock e (tick w)) (mgr w) = (expired, m2)" by fastforce
  have ok: "manager_ok (mgr w)" using assms(1) by (simp add: world_ok_def)
  note j = join_admit_ok [OF Some ok pr]
  have w2: "world_ok e (w\<lparr>tick := Suc (tick w), mgr := m2\<rparr>)"
    using runs_world_ok [OF pruned_runs(2) [OF pr] assms(1)] .
  then have ok2: "manager_ok m2" and dr2: "\<And>pid. pid \<in> all_ids m2 \<Longrightarrow> \<exists>k < Suc (tick w). newPeerID e k = Some pid"
    by (auto simp: world_ok_def drawn_def)
  have dr3: "\<exists>k < tick w + 2. newPeerID e k = Some pid" if "pid \<in> all_ids m2" for pid
  proof -
    obtain k where "k < Suc (tick w)" "newPeerID e k = Some pid" using dr2 [OF \<open>pid \<in> all_ids m2\<close>] by blast
    then show ?thesis by (intro exI [of _ k]) simp
  qed
  have rok: "room_ok (m_roomTTL m2) roomID room" using manager_ok_room [OF ok2 j(1)] by simp
  have stop: "manager_ok (put_room roomID (stopCleanup room) m2)"
    using put_room_ok [OF ok2 j(1) stopCleanup_ok [OF rok]] by (simp add: stopCleanup_def)
  have ids: "fst ` set (rs_peers room) \<subseteq> all_ids m2" using members_ids [OF j(1)] .
  have stop_ids: "all_ids (put_room roomID (stopCleanup room) m2) \<subseteq> all_ids m2"
    using all_ids_put_room [of roomID "stopCleanup room" m2] ids by (auto simp: stopCleanup_def)
  show ?thesis
  proof (cases "case newPeerID e (tick w + 1) of None \<Rightarrow> True | Some p \<Rightarrow> p = []")
    case True
    then have "w' = closePeers expired (w\<lparr>tick := tick w + 2, mgr := put_room roomID (stopCleanup room) m2\<rparr>)"
      using assms(3) j(3) [of conn] by (auto simp: Let_def split: option.split_asm)
    moreover have "\<exists>k < tick w + 2. newPeerID e k = Some pid" if "pid \<in> all_ids (put_room roomID (stopCleanup room) m2)" for pid
      using dr3 that stop_ids by blast
    ultimately show ?thesis
      using stop by (auto simp: world_ok_def drawn_def closePeers_def closePeersWithReason_def)
  next
    case False
    then obtain pid where pid: "newPeerID e (tick w + 1) = Some pid" "pid \<noteq> []" by (auto split: option.split_asm)
    then have w': "w' = closePeers expired (w\<lparr>tick := tick w + 2, mgr := put_room roomID (join_room pid conn room) m2\<rparr>)"
      using assms(3) j(3) [of conn] by (auto simp: Let_def)
    have fresh: "pid \<notin> all_ids m2"
    proof
      assume "pid \<in> all_ids m2"
      then obtain k where "k < Suc (tick w)" "newPeerID e k = Some pid" using dr2 by blast
      then show False using pid(1) assms(2) unfolding unique_ids_def by (metis Suc_eq_plus1 less_irrefl)
    qed
    have "room_ok (m_roomTTL m2) roomID (join_room pid conn room)"
      using join_room_ok [OF rok j(2) pid(2)] fresh ids by auto
    then have "manager_ok (put_room roomID (join_room pid conn room) m2)"
      using put_room_ok [OF ok2 j(1)] by (simp add: join_room_def stopCleanup_def)
    moreover have "\<exists>k < tick w + 2. newPeerID e k = Some q" if "q \<in> all_ids (put_room roomID (join_room pid conn room) m2)" for q
    proof (cases "q = pid")
      case True
      then show ?thesis using pid(1) by (intro exI [of _ "tick w + 1"]) simp
    next
      case False
      then have "q \<in> all_ids m2"
        using that all_ids_put_room [of roomID "join_room pid conn room" m2] ids by (auto simp: join_room_keys)
      then show ?thesis by (rule dr3)
    qed
    ultimately show ?thesis
      using w' by (auto simp: world_ok_def drawn_def closePeers_def closePeersWithReason_def)
  qed
qed
lemma leave_call_runs: "runs_only (\<lambda>p w'. map_option snd (Leave leave_fuel e roomID p False w'))"
  using leave_call [of roomID e] by (simp add: returns_below_def)

text \<open>After the admission, \<open>Join\<close> only sends and lets unreachable peers go.\<close>

lemma Join_after_admit:
  assumes "join_admit e roomID conn w = (Inr (peerID, peers, existing), w1)" and "manager_ok (mgr w1)"
  shows "\<exists>r w'. Join e roomID conn w = Some (r, w') \<and> runs w1 w' \<and> (r = Inr peerID \<or> r = Inl ErrSend)"
proof -
  let ?again = "\<lambda>p w'. map_option snd (Leave leave_fuel e roomID p False w')"
  obtain ok w2 where sp: "sendPeer e conn (marshalSystem ''joined'' peerID peers) w1 = (ok, w2)" by fastforce
  have r2: "runs w1 w2" using runs_sendPeer [of w1 e conn "marshalSystem ''joined'' peerID peers"] sp by simp
  have ok2: "manager_ok (mgr w2)" using runs_ok(1) [OF r2 assms(2)] .
  show ?thesis
  proof (cases ok)
    case False
    obtain r w3 where l: "Leave leave_fuel e roomID peerID True w2 = Some (r, w3)"
      using Leave_returns [OF ok2 peers_in_bound [OF ok2]] by blast
    then show ?thesis using False assms(1) sp runs_trans [OF r2 Leave_runs [OF l]] by (auto simp: Join_def)
  next
    case True
    obtain b w3 where an: "announce ?again e (marshalSystem ''peer-joined'' [] peers) existing w2 = Some (b, w3)"
      using announce_returns [OF leave_call ok2 peers_in_bound [OF ok2]] by blast
    have r3: "runs w2 w3" using announce_runs [OF leave_call_runs an] .
    have ok3: "manager_ok (mgr w3)" using runs_ok(1) [OF r3 ok2] .
    let ?peers = "if b then currentPeers roomID (mgr w3) else peers"
    obtain w4 where bc: "broadcast e ?again roomID (marshalSystem ''peer-list'' [] ?peers) [] w3 = Some w4"
      using broadcast_returns [OF leave_call ok3 peers_in_bound [OF ok3]] by blast
    have "runs w1 w4" using runs_trans [OF r2 runs_trans [OF r3 broadcast_runs [OF leave_call_runs bc]]] .
    then show ?thesis using True assms(1) sp an bc by (auto simp: Join_def Let_def)
  qed
qed

lemma Join_world_ok:
  assumes "world_ok e w" and "unique_ids e"
  shows "\<exists>r w'. Join e roomID conn w = Some (r, w') \<and> world_ok e w'"
proof -
  obtain res w1 where ja: "join_admit e roomID conn w = (res, w1)" by fastforce
  have ok1: "world_ok e w1" using join_admit_world_ok [OF assms ja] by simp
  show ?thesis
  proof (cases res)
    case (Inl err)
    then show ?thesis using ja ok1 by (simp add: Join_def)
  next
    case (Inr t)
    then obtain peerID peers existing where t: "res = Inr (peerID, peers, existing)" by (cases t) auto
    have "manager_ok (mgr w1)" using ok1 by (simp add: world_ok_def)
    from Join_after_admit [OF ja [unfolded t] this] obtain r w' where "Join e roomID conn w = Some (r, w')" "runs w1 w'"
      by blast
    then show ?thesis using runs_world_ok ok1 by blast
  qed
qed

lemma Relay_returns:
  assumes "manager_ok (mgr w)"
  shows "\<exists>r w'. Relay e roomID peerID envelope w = Some (r, w') \<and> runs w w'"
proof -
  obtain expired m2 where pr: "pruneExpiredLocked (clock e (tick w)) (mgr w) = (expired, m2)" by fastforce
  let ?w2 = "closePeers expired (w\<lparr>tick := Suc (tick w), mgr := m2\<rparr>)"
  note r2 = pruned_runs(1) [OF pr]
  have ok2: "manager_ok (mgr ?w2)" using runs_ok(1) [OF r2 assms] .
  have "\<exists>w4. leave_each (\<lambda>p w'. map_option snd (Leave leave_fuel e roomID p False w')) failed w3 = Some w4 \<and> runs w w4"
    if "send_all e payload ps ?w2 = (failed, w3)" for payload ps failed w3
  proof -
    have r3: "runs ?w2 w3" using runs_send_all [of ?w2 e payload ps] that by simp
    have ok3: "manager_ok (mgr w3)" using runs_ok(1) [OF r3 ok2] .
    obtain w4 where w4: "leave_each (\<lambda>p w'. map_option snd (Leave leave_fuel e roomID p False w')) failed w3 = Some w4"
      using leave_each_returns [OF leave_call ok3 peers_in_bound [OF ok3]] by blast
    have "runs w w4" using runs_trans [OF r2 runs_trans [OF r3 leave_each_runs [OF leave_call_runs w4]]] .
    with w4 show ?thesis by blast
  qed
  then show ?thesis
    using r2 runs_refl [of w] runs_ask [of w 1]
    by (fastforce simp: Relay_def ask_def pr Let_def split: option.split prod.split)
qed

section \<open>Serving requests\<close>

text \<open>Everything a server does to the manager, one after the other.\<close>

datatype p2p_op =
    OpCreate string | OpStatus string | OpJoin string nat | OpLeave string string bool
  | OpRelay string string SecureEnvelope | OpRoomCount | OpConnectionCount | OpClose
  | OpExpire string nat | OpCleanup string nat

fun serve :: "env \<Rightarrow> p2p_op \<Rightarrow> world \<Rightarrow> world option" where
  "serve e (OpCreate baseURL) w = Some (snd (Create e baseURL w))"
| "serve e (OpStatus roomID) w = Some (snd (Status e roomID w))"
| "serve e (OpJoin roomID conn) w = map_option snd (Join e roomID conn w)"
| "serve e (OpLeave roomID peerID imm) w = map_option snd (Leave leave_fuel e roomID peerID imm w)"
| "serve e (OpRelay roomID peerID envelope) w = map_option snd (Relay e roomID peerID envelope w)"
| "serve e OpRoomCount w = Some (snd (RoomCount e w))"
| "serve e OpConnectionCount w = Some (snd (ConnectionCount e w))"
| "serve e OpClose w = Some (Close w)"
| "serve e (OpExpire roomID ref) w = Some (expire roomID ref w)"
| "serve e (OpCleanup roomID ref) w = Some (w\<lparr>mgr := cleanup_locked roomID ref (mgr w)\<rparr>)"

fun serve_all :: "env \<Rightarrow> p2p_op list \<Rightarrow> world \<Rightarrow> world option" where
  "serve_all e [] w = Some w"
| "serve_all e (x # xs) w = (case serve e x w of None \<Rightarrow> None | Some w' \<Rightarrow> serve_all e xs w')"

definition fresh_world :: "ManagerOptions \<Rightarrow> world" where
  "fresh_world opts = \<lparr>mgr = NewManager opts, tick = 0, evlog = []\<rparr>"

lemma fresh_world_ok: "world_ok e (fresh_world opts)"
proof -
  have "m_rooms (NewManager opts) = []" by (simp add: NewManager_def)
  then show ?thesis
    by (simp add: world_ok_def fresh_world_def NewManager_ok drawn_def all_ids_def members_def)
qed

lemma create_ids: "all_ids (create_locked roomID now m) \<subseteq> all_ids m"
proof -
  have "members (create_locked roomID now m) j \<subseteq> members m j" for j
    by (simp add: create_locked_def members_def put_room_def gm_put_lookup)
  then show ?thesis by (auto simp: all_ids_def)
qed

lemma remove_ids: "all_ids (m\<lparr>m_rooms := gm_del roomID (m_rooms m)\<rparr>) \<subseteq> all_ids m"
  by (auto simp: all_ids_def members_def gm_del_lookup split: option.split_asm if_split_asm)

lemma removeRoom_ids: "all_ids (removeRoomLocked roomID room m) \<subseteq> all_ids m"
  using remove_ids [of roomID m] by (simp add: removeRoomLocked_def split: option.split)

lemma serve_ok:
  assumes "world_ok e w" and "unique_ids e"
  shows "\<exists>w'. serve e x w = Some w' \<and> world_ok e w'"
proof (cases x)
  case (OpCreate baseURL)
  obtain r w' where cr: "Create e baseURL w = (r, w')" by fastforce
  have ok: "manager_ok (mgr w)" using assms by (simp add: world_ok_def)
  show ?thesis
  proof (cases r)
    case (Inl err)
    then show ?thesis using Create_cases [OF ok cr] runs_world_ok assms(1) OpCreate cr by auto
  next
    case (Inr c)
    then obtain m2 where q: "quiet_step (mgr w) m2" and m: "mgr w' = create_locked (cr_RoomID c) (clock e (tick w)) m2"
      and cond: "\<not> m_closed m2" "length (m_rooms m2) < m_maxRooms m2" "map_of (m_rooms m2) (cr_RoomID c) = None"
      and t: "tick w \<le> tick w'"
      using Create_cases [OF ok cr] by auto
    have "manager_ok (mgr w')" using create_locked_ok [OF quiet_step_ok [OF q ok]] cond m by simp
    moreover have "all_ids (mgr w') \<subseteq> all_ids (mgr w)"
      using shrinks_ids [OF quiet_step_shrinks [OF q ok]] create_ids m by (metis order_trans)
    then have "drawn e w'" using assms(1) t by (meson drawn_def less_le_trans subsetD world_ok_def)
    ultimately show ?thesis using OpCreate cr by (simp add: world_ok_def)
  qed
next
  case (OpStatus roomID)
  then show ?thesis using runs_world_ok [OF Status_runs assms(1)] by simp
next
  case (OpJoin roomID conn)
  then show ?thesis using Join_world_ok [OF assms, of roomID conn] by auto
next
  case (OpLeave roomID peerID imm)
  have ok: "manager_ok (mgr w)" using assms by (simp add: world_ok_def)
  obtain r w' where l: "Leave leave_fuel e roomID peerID imm w = Some (r, w')"
    using Leave_returns [OF ok peers_in_bound [OF ok]] by blast
  then show ?thesis using OpLeave runs_world_ok [OF Leave_runs [OF l] assms(1)] by simp
next
  case (OpRelay roomID peerID envelope)
  have ok: "manager_ok (mgr w)" using assms by (simp add: world_ok_def)
  from Relay_returns [OF ok, of e roomID peerID envelope] show ?thesis
    using OpRelay runs_world_ok assms(1) by fastforce
next
  case OpRoomCount
  then show ?thesis using runs_world_ok [OF count_runs(1) assms(1)] by simp
next
  case OpConnectionCount
  then show ?thesis using runs_world_ok [OF count_runs(2) assms(1)] by simp
next
  case OpClose
  then show ?thesis
    using assms(1) close_locked_ok [of "mgr w"]
    by (auto simp: world_ok_def Close_def close_locked_def drawn_def closePeersWithReason_def all_ids_def members_def)
next
  case (OpExpire roomID ref)
  have "all_ids (snd (expire_locked roomID ref (mgr w))) \<subseteq> all_ids (mgr w)"
    using removeRoom_ids by (auto simp: expire_locked_def split: option.split)
  then show ?thesis
    using OpExpire assms(1) expire_locked_ok [of "mgr w" roomID ref]
    by (auto simp: world_ok_def expire_def drawn_def split_beta closePeers_def closePeersWithReason_def)
next
  case (OpCleanup roomID ref)
  have "all_ids (cleanup_locked roomID ref (mgr w)) \<subseteq> all_ids (mgr w)"
    using removeRoom_ids by (auto simp: cleanup_locked_def split: option.split)
  then show ?thesis
    using OpCleanup assms(1) cleanup_locked_ok [of "mgr w" roomID ref] by (auto simp: world_ok_def drawn_def)
qed

lemma serve_all_ok:
  assumes "world_ok e w" and "unique_ids e"
  shows "\<exists>w'. serve_all e xs w = Some w' \<and> world_ok e w'"
  using assms(1)
proof (induction xs arbitrary: w)
  case (Cons x xs)
  obtain w' where "serve e x w = Some w'" "world_ok e w'" using serve_ok [OF Cons.prems assms(2)] by blast
  then show ?case using Cons.IH by simp
qed simp
end
