(* ===== verification/P2P_Properties.thy ===== *)
theory P2P_Properties
  imports P2P_Lobby
begin

text \<open>
  The properties of the room manager: its invariant, that every request returns, the lobby
  it implements, and what joining, leaving, relaying, creating and closing do.
\<close>

section \<open>Events\<close>

lemma send_all_log:
  "\<exists>oks. length oks = length ps \<and> ((\<forall>ok \<in> set oks. ok) \<longrightarrow> fst (send_all e payload ps w) = []) \<and>
     evlog (snd (send_all e payload ps w)) = evlog w @ map2 (\<lambda>p ok. Sent (peer_conn p) payload ok) ps oks"
proof (induction ps arbitrary: w)
  case (Cons p ps)
  obtain ok w1 where sp: "sendPeer e (peer_conn p) payload w = (ok, w1)" by fastforce
  then have l1: "evlog w1 = evlog w @ [Sent (peer_conn p) payload ok]" by (auto simp: sendPeer_def ask_def)
  obtain oks where "length oks = length ps" "(\<forall>ok \<in> set oks. ok) \<longrightarrow> fst (send_all e payload ps w1) = []"
    "evlog (snd (send_all e payload ps w1)) = evlog w1 @ map2 (\<lambda>p ok. Sent (peer_conn p) payload ok) ps oks"
    using Cons.IH [of w1] by blast
  then show ?case
    using sp l1 by (intro exI [of _ "ok # oks"]) (auto simp: Let_def split_beta)
qed simp

lemma send_all_reliable:
  assumes "\<forall>k c p. send_ok e k c p"
  shows "fst (send_all e payload ps w) = []"
  using assms by (induction ps arbitrary: w) (auto simp: sendPeer_def ask_def Let_def split_beta)

lemma broadcast_reliable:
  assumes "\<forall>k c p. send_ok e k c p"
  shows "\<exists>w'. broadcast e leave roomID payload exc w = Some w' \<and> mgr w' = mgr w"
proof -
  have "fst (send_all e payload ps w) = []" for ps using send_all_reliable [OF assms] .
  then show ?thesis
    by (auto simp: broadcast_def Let_def split_beta split: option.split)
qed

lemma announce_reliable:
  assumes "\<forall>k c p. send_ok e k c p"
  shows "\<exists>w'. announce leave e payload ps w = Some (False, w') \<and> mgr w' = mgr w"
  using assms
proof (induction ps arbitrary: w)
  case (Cons p ps)
  have "fst (sendPeer e (peer_conn p) payload w)" using assms by (simp add: sendPeer_def ask_def)
  then show ?case
    using Cons.IH [OF assms, of "snd (sendPeer e (peer_conn p) payload w)"] by (auto simp: split_beta Let_def)
qed simp

section \<open>The abstract lobby\<close>

text \<open>A room is its expiry time and its peers in the order they joined.\<close>

type_synonym lobby = "string \<Rightarrow> (time \<times> string list) option"

definition abs_lobby :: "Manager \<Rightarrow> lobby" where
  "abs_lobby m roomID = map_option (\<lambda>room. (ExpiresAt (rs_room room), publicPeers room)) (map_of (m_rooms m) roomID)"

definition lobby_prune :: "time \<Rightarrow> lobby \<Rightarrow> lobby" where
  "lobby_prune now l roomID = (case l roomID of None \<Rightarrow> None | Some (t, ps) \<Rightarrow> if now < t then Some (t, ps) else None)"

definition lobby_create :: "string \<Rightarrow> time \<Rightarrow> lobby \<Rightarrow> lobby" where
  "lobby_create roomID t l = l(roomID \<mapsto> (t, []))"

definition lobby_join :: "string \<Rightarrow> string \<Rightarrow> lobby \<Rightarrow> lobby" where
  "lobby_join roomID peerID l =
    (case l roomID of None \<Rightarrow> l | Some (t, ps) \<Rightarrow> l(roomID \<mapsto> (t, ps @ [peerID])))"

definition lobby_leave :: "string \<Rightarrow> string \<Rightarrow> bool \<Rightarrow> lobby \<Rightarrow> lobby" where
  "lobby_leave roomID peerID drop_empty l =
    (case l roomID of
       None \<Rightarrow> l
     | Some (t, ps) \<Rightarrow>
         let ps' = remove1 peerID ps in
         if ps' = [] \<and> drop_empty then l(roomID := None) else l(roomID \<mapsto> (t, ps')))"

lemma publicPeers_ok: "room_ok ttl roomID room \<Longrightarrow> publicPeers room = map fst (rs_peers room)"
proof -
  assume ok: "room_ok ttl roomID room"
  have gm: "gm_ok (rs_peers room)" using ok by (simp add: room_ok_def)
  have "map_of (rs_peers room) pid = Some p \<and> peer_id p = pid" if "(pid, p) \<in> set (rs_peers room)" for pid p
    using that gm_in_lookup [OF gm that] ok by (auto simp: room_ok_def)
  then have "map peer_id (List.map_filter (map_of (rs_peers room)) (map fst ps)) = map fst ps"
    if "set ps \<subseteq> set (rs_peers room)" for ps
    using that by (induction ps) (auto simp: List.map_filter_def)
  from this [of "rs_peers room"] show ?thesis using ok by (simp add: publicPeers_def room_ok_def)
qed


lemma manager_peers:
  "manager_ok m \<Longrightarrow> map_of (m_rooms m) roomID = Some room \<Longrightarrow> publicPeers room = map fst (rs_peers room)"
  using manager_ok_room publicPeers_ok by blast

lemma abs_put_room:
  assumes "room_ok ttl roomID room"
  shows "abs_lobby (put_room roomID room m) = (abs_lobby m)(roomID \<mapsto> (ExpiresAt (rs_room room), map fst (rs_peers room)))"
  by (auto simp: abs_lobby_def put_room_def gm_put_lookup publicPeers_ok [OF assms] fun_eq_iff)

lemma abs_room:
  assumes "manager_ok m" and "map_of (m_rooms m) roomID = Some room"
  shows "abs_lobby m roomID = Some (ExpiresAt (rs_room room), map fst (rs_peers room))"
  using assms manager_peers [OF assms] by (simp add: abs_lobby_def)

lemma abs_prune:
  assumes "manager_ok m"
  shows "abs_lobby (snd (pruneExpiredLocked now m)) = lobby_prune now (abs_lobby m)"
  using prune_lookup [OF manager_ok_gm [OF assms], of now]
  by (auto simp: abs_lobby_def lobby_prune_def fun_eq_iff split: option.split)

lemma abs_join:
  assumes "manager_ok m" and "map_of (m_rooms m) roomID = Some room" and "length (rs_peers room) < MaxRoomPeers"
    and "peerID \<noteq> []" and "peerID \<notin> set (map fst (rs_peers room))"
  shows "abs_lobby (join_locked roomID room peerID conn m) = lobby_join roomID peerID (abs_lobby m)"
proof -
  have rok: "room_ok (m_roomTTL m) roomID room" using manager_ok_room [OF assms(1,2)] by simp
  have new: "map_of (rs_peers room) peerID = None" using assms(5) by (simp add: map_of_eq_None_iff)
  show ?thesis
    using abs_put_room [OF join_room_ok [OF rok assms(3-5)], where m = m] abs_room [OF assms(1,2)] new
    by (simp add: join_locked_def lobby_join_def join_room_def stopCleanup_def gm_put_new)
qed

lemma abs_leave:
  assumes "manager_ok m" and "map_of (m_rooms m) roomID = Some room"
  shows "abs_lobby (leave_locked roomID room peerID imm m)
    = lobby_leave roomID peerID (imm \<or> m_emptyRoomGrace m = 0) (abs_lobby m)"
proof -
  have rok: "room_ok (m_roomTTL m) roomID room" using manager_ok_room [OF assms] by simp
  have l: "room_ok (m_roomTTL m) roomID (leave_room peerID room)" using leave_room_ok [OF rok] .
  have sched: "room_ok (m_roomTTL m) roomID (scheduleCleanup (leave_room peerID room))"
    using l by (simp add: room_ok_def scheduleCleanup_def stopCleanup_def)
  have d: "distinct (map fst (rs_peers room))" using rok by (simp add: room_ok_def gm_ok_def)
  have rem: "remove1 peerID (map fst (rs_peers room)) = map fst (gm_del peerID (rs_peers room))"
    using remove1_map_filter [OF d] filter_fst_gm_del by metis
  have exp: "ExpiresAt (rs_room (leave_room peerID room)) = ExpiresAt (rs_room room)"
    "ExpiresAt (rs_room (scheduleCleanup (leave_room peerID room))) = ExpiresAt (rs_room room)"
    by (simp_all add: leave_room_def removePeerOrder_def scheduleCleanup_def stopCleanup_def)
  have "rs_ref (leave_room peerID room) = rs_ref room" by (simp add: leave_room_def removePeerOrder_def)
  then have "abs_lobby (removeRoomLocked roomID (leave_room peerID room) m) = (abs_lobby m)(roomID := None)"
    using assms(2) by (auto simp: removeRoomLocked_def abs_lobby_def gm_del_lookup fun_eq_iff)
  then show ?thesis
    using abs_put_room [OF l, of m] abs_put_room [OF sched, of m] abs_room [OF assms] rem exp
    by (auto simp: leave_locked_def lobby_leave_def Let_def)
qed

section \<open>Properties\<close>

text \<open>
  The invariant of the room manager holds under every interleaving
  of its locked sections and timer callbacks, starting from \<open>NewManager\<close>: at most \<open>maxRooms\<close>
  rooms, each under its own id, with its expiry timer armed, at most two peers, the join
  order listing exactly the peers, every peer under its own non-empty id, distinct room
  identities, and no room at all once the manager is closed.
\<close>

theorem manager_invariant:
  assumes "manager_step\<^sup>*\<^sup>* (NewManager opts) m"
  shows "manager_ok m \<and> (\<forall>roomID room. map_of (m_rooms m) roomID = Some room \<longrightarrow>
      length (rs_peers room) \<le> 2 \<and> publicPeers room = map fst (rs_peers room)
      \<and> ExpiresAt (rs_room room) = CreatedAt (rs_room room) + m_roomTTL m)"
proof -
  have ok: "manager_ok m" by (rule lobby.steps_good [OF assms NewManager_ok])
  then show ?thesis
    using manager_ok_room publicPeers_ok by (fastforce simp: room_ok_def MaxRoomPeers_def)
qed

definition demo_options :: ManagerOptions where
  "demo_options = \<lparr>opt_RoomTTL = 0, opt_EmptyRoomGrace = -1, opt_MaxRooms = 1\<rparr>"

theorem manager_invariant_witness:
  "manager_ok (create_locked ''a'' 5 (NewManager demo_options))"
proof -
  have "manager_step (NewManager demo_options) (create_locked ''a'' 5 (NewManager demo_options))"
    by (rule manager_step.create) (simp_all add: NewManager_def demo_options_def)
  then have "manager_step\<^sup>*\<^sup>* (NewManager demo_options) (create_locked ''a'' 5 (NewManager demo_options))" by blast
  from manager_invariant [OF this] show ?thesis by simp
qed

text \<open>
  C34 (rooms.go:206-537). Every request returns, and any sequence of requests and timer
  callbacks keeps the invariant: the mutual recursion of \<open>Leave\<close> and \<open>broadcast\<close> over
  connections that fail ends after at most one nested call per peer of the room, whatever
  the sends answer. Peer ids are assumed unique, as random UUIDs are.
\<close>

theorem serve_returns:
  assumes "unique_ids e"
  shows "\<exists>w. serve_all e requests (fresh_world opts) = Some w \<and> manager_ok (mgr w)
    \<and> (\<forall>roomID. peers_in (mgr w) roomID \<le> 2)"
proof -
  obtain w where w: "serve_all e requests (fresh_world opts) = Some w" "world_ok e w"
    using serve_all_ok [OF fresh_world_ok assms] by blast
  then have ok: "manager_ok (mgr w)" by (simp add: world_ok_def)
  have "peers_in (mgr w) roomID \<le> 2" for roomID
    using peers_in_bound [OF ok, of roomID] by (simp add: leave_fuel_def MaxRoomPeers_def)
  then show ?thesis using w ok by blast
qed

text \<open>An environment with a running clock, numbered ids, and connections that all work.\<close>

definition demo_env :: env where
  "demo_env = \<lparr>clock = int, newRoomID = (\<lambda>k. Some (''room-'' @ itoa_nat k)),
     newPeerID = (\<lambda>k. Some (''peer-'' @ itoa_nat k)), send_ok = (\<lambda>_ _ _. True)\<rparr>"

lemma demo_env_unique: "unique_ids demo_env"
  using itoa_nat_inject by (auto simp: unique_ids_def demo_env_def)

theorem serve_returns_witness:
  "\<exists>w. serve_all demo_env [OpCreate ''https://lane.example'', OpJoin ''room-1'' 7, OpJoin ''room-1'' 8, OpClose]
     (fresh_world demo_options) = Some w \<and> manager_ok (mgr w)"
  using serve_returns [OF demo_env_unique] by blast

text \<open>
  C9 (rooms.go:206-392 and 539-559). The locked sections implement the abstract lobby, a
  map from room ids to an expiry time and the list of peers: pruning drops exactly the
  expired rooms, creating adds an empty room, joining appends the peer, leaving removes it
  and removes the room with its last peer when no grace period applies. The peer map, the
  separate order list, the timers and the pointer comparisons are not visible.
\<close>

theorem manager_refines_lobby:
  assumes "manager_ok m"
  shows "abs_lobby (snd (pruneExpiredLocked now m)) = lobby_prune now (abs_lobby m)
    \<and> (map_of (m_rooms m) roomID = None \<longrightarrow>
        abs_lobby (create_locked roomID now m) = lobby_create roomID (now + m_roomTTL m) (abs_lobby m))
    \<and> (\<forall>room. map_of (m_rooms m) roomID = Some room \<longrightarrow>
        (length (rs_peers room) < 2 \<and> peerID \<noteq> [] \<and> peerID \<notin> set (publicPeers room) \<longrightarrow>
          abs_lobby (join_locked roomID room peerID conn m) = lobby_join roomID peerID (abs_lobby m))
        \<and> abs_lobby (leave_locked roomID room peerID imm m)
            = lobby_leave roomID peerID (imm \<or> m_emptyRoomGrace m = 0) (abs_lobby m))"
proof (intro conjI impI allI)
  show "abs_lobby (snd (pruneExpiredLocked now m)) = lobby_prune now (abs_lobby m)" by (rule abs_prune [OF assms])
  show "abs_lobby (create_locked roomID now m) = lobby_create roomID (now + m_roomTTL m) (abs_lobby m)"
    by (auto simp: create_locked_def abs_lobby_def put_room_def gm_put_lookup lobby_create_def publicPeers_def
        List.map_filter_def fun_eq_iff)
  fix room assume room: "map_of (m_rooms m) roomID = Some room"
  then show "abs_lobby (leave_locked roomID room peerID imm m)
      = lobby_leave roomID peerID (imm \<or> m_emptyRoomGrace m = 0) (abs_lobby m)"
    by (rule abs_leave [OF assms])
  assume "length (rs_peers room) < 2 \<and> peerID \<noteq> [] \<and> peerID \<notin> set (publicPeers room)"
  then show "abs_lobby (join_locked roomID room peerID conn m) = lobby_join roomID peerID (abs_lobby m)"
    using abs_join [OF assms room, of peerID conn] manager_peers [OF assms room]
    by (simp add: MaxRoomPeers_def)
qed

text \<open>A peer joins a new room and leaves it again.\<close>

definition joined_by :: "string \<Rightarrow> nat \<Rightarrow> Manager \<Rightarrow> Manager" where
  "joined_by peerID conn m = join_locked ''room'' (the (map_of (m_rooms m) ''room'')) peerID conn m"

definition new_room :: Manager where
  "new_room = create_locked ''room'' 5 (NewManager demo_options)"

theorem manager_refines_lobby_witness:
  "abs_lobby new_room ''room'' = Some (7200000000005, []) \<and> abs_lobby (joined_by ''ann'' 7 new_room) ''room'' = Some (7200000000005, [''ann'']) \<and>
   abs_lobby (leave_locked ''room'' (the (map_of (m_rooms (joined_by ''ann'' 7 new_room)) ''room'')) ''ann'' True (joined_by ''ann'' 7 new_room)) ''room'' = None"
proof -
  have ok: "manager_ok new_room" "manager_ok (joined_by ''ann'' 7 new_room)" by code_simp+
  have "map_of (m_rooms new_room) ''room'' \<noteq> None" "map_of (m_rooms (joined_by ''ann'' 7 new_room)) ''room'' \<noteq> None" by code_simp+
  then obtain r0 r1 where r: "map_of (m_rooms new_room) ''room'' = Some r0" "map_of (m_rooms (joined_by ''ann'' 7 new_room)) ''room'' = Some r1" by blast
  have start: "abs_lobby new_room ''room'' = Some (7200000000005, [])"
    using manager_refines_lobby [OF NewManager_ok [of demo_options], where now = 5 and roomID = "''room''"]
    by (simp add: new_room_def NewManager_def lobby_create_def demo_options_def Hour_def Minute_def Second_def)
  have "map_option (\<lambda>room. (publicPeers room, length (rs_peers room))) (map_of (m_rooms new_room) ''room'') = Some ([], 0)" by code_simp
  then have "publicPeers r0 = []" "length (rs_peers r0) = 0" using r(1) by simp_all
  then have join: "abs_lobby (joined_by ''ann'' 7 new_room) = lobby_join ''room'' ''ann'' (abs_lobby new_room)"
    using manager_refines_lobby [OF ok(1), of 0 "''room''" "''ann''" 7 True] r(1) unfolding joined_by_def by auto
  have leave: "abs_lobby (leave_locked ''room'' r1 ''ann'' True (joined_by ''ann'' 7 new_room))
      = lobby_leave ''room'' ''ann'' True (abs_lobby (joined_by ''ann'' 7 new_room))"
    using manager_refines_lobby [OF ok(2), of 0 "''room''" "''ann''" 7 True] r(2) by auto
  show ?thesis
    unfolding r(2) option.sel leave unfolding join using start by (simp add: lobby_join_def lobby_leave_def)
qed

text \<open>
  A join is refused with the right error exactly when the
  manager is closed, the room does not exist any more or it already has two peers, and then
  nobody is added. Otherwise, over working connections, the new peer is the one added, at the
  end of the room's peer list, and the room's other peers stay.
\<close>

theorem Join_outcome:
  assumes "world_ok e w" and "unique_ids e" and "\<forall>k c p. send_ok e k c p"
    and "newPeerID e (tick w + 1) = Some peerID" and "peerID \<noteq> []"
  shows "case joinable e roomID w of
      None \<Rightarrow> (\<exists>err w'. Join e roomID conn w = Some (Inl err, w') \<and> shrinks (mgr w) (mgr w')
        \<and> err = (if m_closed (mgr w) then ErrManagerClosed
             else if lobby_prune (clock e (tick w)) (abs_lobby (mgr w)) roomID = None then ErrRoomNotFound
             else ErrRoomFull))
    | Some room \<Rightarrow> (\<exists>w'. Join e roomID conn w = Some (Inr peerID, w')
        \<and> abs_lobby (mgr w') = lobby_join roomID peerID (lobby_prune (clock e (tick w)) (abs_lobby (mgr w)))
        \<and> peerID \<in> members (mgr w') roomID)"
proof (cases "joinable e roomID w")
  case None
  have ok: "manager_ok (mgr w)" using assms(1) by (simp add: world_ok_def)
  obtain err w' where j: "join_admit e roomID conn w = (Inl err, w')" "runs w w'"
    "err = (if m_closed (mgr w) then ErrManagerClosed
             else if map_of (m_rooms (snd (pruneExpiredLocked (clock e (tick w)) (mgr w)))) roomID = None
             then ErrRoomNotFound else ErrRoomFull)"
    using join_admit_refused [OF None] by blast
  have "lobby_prune (clock e (tick w)) (abs_lobby (mgr w)) roomID = None \<longleftrightarrow>
      map_of (m_rooms (snd (pruneExpiredLocked (clock e (tick w)) (mgr w)))) roomID = None"
    using abs_prune [OF ok, of "clock e (tick w)"] by (metis abs_lobby_def map_option_is_None)
  then show ?thesis using None j runs_ok(2) [OF j(2) ok] by (simp add: Join_def)
next
  case (Some room)
  have ok: "manager_ok (mgr w)" using assms(1) by (simp add: world_ok_def)
  obtain expired m2 where pr: "pruneExpiredLocked (clock e (tick w)) (mgr w) = (expired, m2)" by fastforce
  note j = join_admit_ok [OF Some ok pr]
  have ok2: "manager_ok m2" using quiet_step_ok [OF pruned_runs(3) [OF pr] ok] .
  let ?joined = "join_room peerID conn room"
  let ?w1 = "closePeers expired (w\<lparr>tick := tick w + 2, mgr := put_room roomID ?joined m2\<rparr>)"
  have ja: "join_admit e roomID conn w = (Inr (peerID, publicPeers ?joined, other_peers peerID ?joined), ?w1)"
    using j(3) [of conn] assms(4,5) by (simp add: Let_def)
  let ?w2 = "snd (sendPeer e conn (marshalSystem ''joined'' peerID (publicPeers ?joined)) ?w1)"
  let ?again = "\<lambda>p w'. map_option snd (Leave leave_fuel e roomID p False w')"
  have sp: "fst (sendPeer e conn (marshalSystem ''joined'' peerID (publicPeers ?joined)) ?w1)"
    using assms(3) by (simp add: sendPeer_def ask_def)
  obtain w3 where an: "announce ?again e (marshalSystem ''peer-joined'' [] (publicPeers ?joined)) (other_peers peerID ?joined) ?w2
      = Some (False, w3)" "mgr w3 = mgr ?w2"
    using announce_reliable [OF assms(3)] by blast
  obtain w4 where bc: "broadcast e ?again roomID (marshalSystem ''peer-list'' [] (publicPeers ?joined)) [] w3 = Some w4" "mgr w4 = mgr w3"
    using broadcast_reliable [OF assms(3)] by blast
  have run: "Join e roomID conn w = Some (Inr peerID, w4)"
    using ja sp an bc by (auto simp: Join_def Let_def split_beta)
  have m4: "mgr w4 = join_locked roomID room peerID conn m2" using bc an by (simp add: join_locked_def)
  have "world_ok e (w\<lparr>tick := Suc (tick w), mgr := m2\<rparr>)" using runs_world_ok [OF pruned_runs(2) [OF pr] assms(1)] .
  then have dr: "drawn e (w\<lparr>tick := Suc (tick w), mgr := m2\<rparr>)" by (simp add: world_ok_def)
  have fresh: "peerID \<notin> fst ` set (rs_peers room)"
  proof
    assume "peerID \<in> fst ` set (rs_peers room)"
    then have "peerID \<in> all_ids m2" using members_ids [OF j(1)] by blast
    then obtain k where "k < Suc (tick w)" "newPeerID e k = Some peerID" using dr by (auto simp: drawn_def)
    then show False using assms(2,4) unfolding unique_ids_def by (metis Suc_eq_plus1 less_irrefl)
  qed
  have "abs_lobby (mgr w4) = lobby_join roomID peerID (lobby_prune (clock e (tick w)) (abs_lobby (mgr w)))"
    using abs_join [OF ok2 j(1,2) assms(5)] fresh abs_prune [OF ok, of "clock e (tick w)"] pr m4 by simp
  moreover have "peerID \<in> members (mgr w4) roomID"
    by (simp add: m4 join_locked_def put_room_members join_room_keys)
  ultimately show ?thesis using Some run by simp
qed

theorem Join_outcome_witness:
  "\<exists>w'. Join demo_env ''room-1'' 7 (snd (Create demo_env ''https://lane.example'' (fresh_world demo_options)))
     = Some (Inr ''peer-3'', w') \<and> ''peer-3'' \<in> members (mgr w') ''room-1''"
proof -
  let ?w = "snd (Create demo_env ''https://lane.example'' (fresh_world demo_options))"
  have ok: "world_ok demo_env ?w"
    using serve_ok [OF fresh_world_ok demo_env_unique, where x = "OpCreate ''https://lane.example''"] by simp
  have id: "newPeerID demo_env (tick ?w + 1) = Some ''peer-3''" by code_simp
  have "joinable demo_env ''room-1'' ?w \<noteq> None" by code_simp
  then show ?thesis
    using Join_outcome [OF ok demo_env_unique _ id, of "''room-1''" 7] by (auto simp: demo_env_def)
qed

text \<open>
  Leaving always returns and afterwards
  the peer is no member of the room, whatever connections fail on the way and however often
  the notification recurses. The answer says whether the peer was a member of an unexpired
  room. Nobody is added to any room meanwhile.
\<close>

theorem Leave_outcome:
  assumes "manager_ok (mgr w)"
  shows "\<exists>r w'. Leave leave_fuel e roomID peerID imm w = Some (r, w')
    \<and> peerID \<notin> members (mgr w') roomID \<and> shrinks (mgr w) (mgr w') \<and> manager_ok (mgr w')
    \<and> (r \<longleftrightarrow> \<not> m_closed (mgr w) \<and>
         (case lobby_prune (clock e (tick w)) (abs_lobby (mgr w)) roomID of
            None \<Rightarrow> False | Some (t, ps) \<Rightarrow> peerID \<in> set ps))"
proof -
  obtain r w' where l: "Leave leave_fuel e roomID peerID imm w = Some (r, w')"
    using Leave_returns [OF assms peers_in_bound [OF assms]] by blast
  let ?m2 = "snd (pruneExpiredLocked (clock e (tick w)) (mgr w))"
  have ok2: "manager_ok ?m2" using prune_ok [OF assms] .
  have "present e roomID peerID w \<noteq> None \<longleftrightarrow> \<not> m_closed (mgr w) \<and>
      (case abs_lobby ?m2 roomID of None \<Rightarrow> False | Some (t, ps) \<Rightarrow> peerID \<in> set ps)"
  proof (cases "map_of (m_rooms ?m2) roomID")
    case None
    then show ?thesis by (simp add: present_def abs_lobby_def)
  next
    case (Some room)
    then show ?thesis using abs_room [OF ok2 Some]
      by (cases "map_of (rs_peers room) peerID") (auto simp: present_def map_of_eq_None_iff dest!: map_of_SomeD intro: rev_image_eqI)
  qed
  then show ?thesis
    using l Leave_removes [OF l assms] runs_ok(1,2) [OF Leave_runs [OF l] assms] abs_prune [OF assms]
    by auto
qed

theorem Leave_outcome_witness:
  "\<exists>r w'. Leave leave_fuel demo_env ''room-1'' ''peer-3'' True (fresh_world demo_options) = Some (r, w') \<and> \<not> r"
proof -
  have "manager_ok (mgr (fresh_world demo_options))"
    using fresh_world_ok [of demo_env demo_options] by (simp add: world_ok_def)
  from Leave_outcome [OF this, of demo_env "''room-1''" "''peer-3''" True] show ?thesis
    by (auto simp: fresh_world_def abs_lobby_def lobby_prune_def NewManager_def)
qed

text \<open>
  What departures add to the log: the closed connections of expired rooms, and the two frames
  that tell the peers who stay.
\<close>

definition departure_event :: "p2p_event \<Rightarrow> bool" where
  "departure_event ev \<longleftrightarrow> (\<exists>c. ev = Closed c 1005 []) \<or>
     (\<exists>c peers ok. ev = Sent c (marshalSystemWithPeers ''peer-left'' peers) ok \<or> ev = Sent c (marshalSystem ''peer-list'' [] peers) ok)"

definition departs :: "world \<Rightarrow> world \<Rightarrow> bool" where
  "departs w w' \<longleftrightarrow> (\<exists>l. evlog w' = evlog w @ l \<and> list_all departure_event l)"

lemma departs_refl: "evlog w' = evlog w \<Longrightarrow> departs w w'"
  by (simp add: departs_def)

lemma departs_trans:
  assumes "departs a b" "departs b c"
  shows "departs a c"
proof -
  obtain l l' where "evlog b = evlog a @ l" "list_all departure_event l" "evlog c = evlog b @ l'" "list_all departure_event l'"
    using assms by (auto simp: departs_def)
  then show ?thesis unfolding departs_def by (intro exI [of _ "l @ l'"]) simp
qed

lemma departs_closePeers: "evlog w' = evlog w \<Longrightarrow> departs w (closePeers ps w')"
  by (auto simp: departs_def closePeers_def closePeersWithReason_def p2pCloseCodeNoStatusReceived_def departure_event_def list_all_iff)

lemma departs_send_all:
  assumes "payload = marshalSystemWithPeers ''peer-left'' peers \<or> payload = marshalSystem ''peer-list'' [] peers"
  shows "departs w (snd (send_all e payload ps w))"
proof -
  obtain oks where "evlog (snd (send_all e payload ps w)) = evlog w @ map2 (\<lambda>p ok. Sent (peer_conn p) payload ok) ps oks"
    using send_all_log by blast
  moreover have "departure_event ev" if "ev \<in> set (map2 (\<lambda>p ok. Sent (peer_conn p) payload ok) ps oks)" for ev
    using that assms by (auto simp: departure_event_def)
  ultimately show ?thesis unfolding departs_def list_all_iff by blast
qed

definition departs_only :: "(string \<Rightarrow> world \<Rightarrow> world option) \<Rightarrow> bool" where
  "departs_only leave \<longleftrightarrow> (\<forall>p w w'. leave p w = Some w' \<longrightarrow> departs w w')"

lemma leave_each_departs: "departs_only leave \<Longrightarrow> leave_each leave ps w = Some w' \<Longrightarrow> departs w w'"
proof (induction ps arbitrary: w)
  case (Cons p ps)
  then show ?case by (auto simp: departs_only_def split: option.split_asm) (metis departs_trans)
qed (simp add: departs_refl)

lemma broadcast_departs:
  assumes "departs_only leave" and "broadcast e leave roomID payload exc w = Some w'"
    and "payload = marshalSystemWithPeers ''peer-left'' peers \<or> payload = marshalSystem ''peer-list'' [] peers"
  shows "departs w w'"
proof -
  have "departs w w'" if "leave_each leave failed (snd (send_all e payload ps w)) = Some w'" for failed ps
    using departs_trans [OF departs_send_all [OF assms(3)] leave_each_departs [OF assms(1) that]] .
  then show ?thesis
    using assms(2) by (auto simp: broadcast_def Let_def split_beta departs_refl split: option.split_asm if_split_asm)
qed

lemma Leave_departs: "Leave n e roomID peerID imm w = Some (r, w') \<Longrightarrow> departs w w'"
proof (induction n arbitrary: peerID imm w r w')
  case (Suc n)
  let ?again = "\<lambda>p w'. map_option snd (Leave n e roomID p False w')"
  have "departs_only ?again" using Suc.IH by (auto simp: departs_only_def)
  note bc = broadcast_departs [OF this]
  obtain expired m2 where pr: "pruneExpiredLocked (clock e (tick w)) (mgr w) = (expired, m2)" by fastforce
  show ?case
  proof (cases "present e roomID peerID w")
    case None
    then show ?thesis
      using Suc.prems pr by (auto simp: ask_def present_def departs_refl departs_closePeers split: option.split_asm if_split_asm)
  next
    case (Some room)
    let ?peers = "publicPeers (leave_room peerID room)"
    have lw: "departs w (left_world e roomID room peerID imm w)"
      by (simp add: left_world_def pr departs_closePeers)
    from Suc.prems obtain w4 where w4: "broadcast e ?again roomID (marshalSystemWithPeers ''peer-left'' ?peers) []
        (left_world e roomID room peerID imm w) = Some w4"
      and w': "w' = w4 \<or> broadcast e ?again roomID (marshalSystem ''peer-list'' [] ?peers) [] w4 = Some w'"
      unfolding Leave_present [OF Some] Let_def by (auto split: option.split_asm if_split_asm)
    have "departs w w4" using departs_trans [OF lw bc [OF w4, where peers = ?peers]] by simp
    moreover have "w' = w4 \<or> departs w4 w'" using w' bc [where w = w4 and w' = w' and peers = ?peers] by blast
    ultimately show ?thesis using departs_trans by blast
  qed
qed simp

text \<open>A relayed frame is no frame of a departure.\<close>

lemma peers_by_id:
  assumes "\<forall>(pid, p) \<in> set (rs_peers room). peer_id p = pid \<and> pid \<noteq> []"
  shows "map peer_id (other_peers peerID room) = filter (\<lambda>pid. pid \<noteq> peerID) (map fst (rs_peers room))"
proof -
  have "map peer_id (map snd (filter (\<lambda>(pid, p). pid \<noteq> peerID) ps)) = filter (\<lambda>pid. pid \<noteq> peerID) (map fst ps)"
    if "\<forall>(pid, p) \<in> set ps. peer_id p = pid \<and> pid \<noteq> []" for ps
    using that by (induction ps) auto
  then show ?thesis using assms by (simp add: other_peers_def)
qed

lemma relayed_no_departure: "\<not> departure_event (Sent c (marshalRelayed envelope peerID receivedAt) ok)"
proof -
  have q: "json_quote ''type'' = CHR 0x22 # ''type'' @ [CHR 0x22]" "json_quote ''secure'' = CHR 0x22 # ''secure'' @ [CHR 0x22]"
    "json_quote ''system'' = CHR 0x22 # ''system'' @ [CHR 0x22]"
    by code_simp+
  have "marshalRelayed envelope peerID receivedAt ! 10 = CHR ''e''"
    by (simp add: marshalRelayed_def relayed_json_def q)
  moreover have "marshalSystemWithPeers ''peer-left'' peers ! 10 = CHR ''y''" "marshalSystem ''peer-list'' [] peers ! 10 = CHR ''y''" for peers
    by (simp_all add: marshalSystemWithPeers_def marshalSystem_def system_json_def q)
  ultimately show ?thesis by (auto simp: departure_event_def)
qed

text \<open>
  C35 (rooms.go:394-438, Relay). An envelope is relayed only for a current member of an
  unexpired room. Then, once the connections of expired rooms are closed, the frame is sent once
  to each other member of that room, all different and none the sender. What follows is
  nothing at all when every send succeeds, and otherwise only what the departure of the peers
  that failed brings: no event after the fan-out is the relayed frame again, to whatever
  connection. In every other case nothing is sent at all.
\<close>

theorem Relay_recipients:
  assumes "manager_ok (mgr w)"
  shows "\<exists>r w' closes rest. Relay e roomID peerID envelope w = Some (r, w')
    \<and> (\<forall>ev \<in> set closes. \<exists>c. ev = Closed c 1005 [])
    \<and> (case (validateSecureEnvelope envelope, present e roomID peerID w) of
         (None, Some room) \<Rightarrow>
           r \<and> (\<exists>oks. length oks = length (other_peers peerID room) \<and> ((\<forall>ok \<in> set oks. ok) \<longrightarrow> rest = []) \<and>
             evlog w' = evlog w @ closes
               @ map2 (\<lambda>p ok. Sent (peer_conn p) (marshalRelayed envelope peerID (formatTimestamp (clock e (tick w)))) ok)
                   (other_peers peerID room) oks @ rest)
           \<and> (\<forall>ev \<in> set rest. departure_event ev \<and>
                (\<forall>c ok. ev \<noteq> Sent c (marshalRelayed envelope peerID (formatTimestamp (clock e (tick w)))) ok))
           \<and> distinct (map peer_id (other_peers peerID room))
           \<and> set (map peer_id (other_peers peerID room)) = fst ` set (rs_peers room) - {peerID}
       | _ \<Rightarrow> \<not> r \<and> evlog w' = evlog w @ closes)"
proof -
  obtain expired m2 where pr: "pruneExpiredLocked (clock e (tick w)) (mgr w) = (expired, m2)" by fastforce
  let ?closes = "map (\<lambda>p. Closed (peer_conn p) 1005 []) expired"
  let ?w2 = "closePeers expired (w\<lparr>tick := Suc (tick w), mgr := m2\<rparr>)"
  have log2: "evlog ?w2 = evlog w @ ?closes"
    by (simp add: closePeers_def closePeersWithReason_def p2pCloseCodeNoStatusReceived_def)
  have cl: "\<forall>ev \<in> set ?closes. \<exists>c. ev = Closed c 1005 []" by auto
  show ?thesis
  proof (cases "validateSecureEnvelope envelope")
    case (Some _)
    then show ?thesis by (intro exI [of _ False] exI [of _ w] exI [of _ "[]"]) (simp add: Relay_def)
  next
    case valid: None
    show ?thesis
    proof (cases "present e roomID peerID w")
      case None
      show ?thesis
      proof (cases "m_closed (mgr w)")
        case True
        then show ?thesis using valid None
          by (intro exI [of _ False] exI [of _ "w\<lparr>tick := Suc (tick w)\<rparr>"] exI [of _ "[]"]) (simp add: Relay_def ask_def)
      next
        case False
        then have "Relay e roomID peerID envelope w = Some (False, ?w2)"
          using valid None pr by (auto simp: Relay_def ask_def present_def split: option.splits if_split_asm)
        then show ?thesis using valid None log2 cl by auto
      qed
    next
      case (Some room)
      let ?payload = "marshalRelayed envelope peerID (formatTimestamp (clock e (tick w)))"
      have room: "\<not> m_closed (mgr w)" "map_of (m_rooms m2) roomID = Some room" "map_of (rs_peers room) peerID \<noteq> None"
        using Some pr by (auto simp: present_def split: option.split_asm if_split_asm)
      obtain failed w3 where sa: "send_all e ?payload (other_peers peerID room) ?w2 = (failed, w3)" by fastforce
      obtain oks where oks: "length oks = length (other_peers peerID room)" "(\<forall>ok \<in> set oks. ok) \<longrightarrow> failed = []"
        "evlog w3 = evlog ?w2 @ map2 (\<lambda>p ok. Sent (peer_conn p) ?payload ok) (other_peers peerID room) oks"
        using send_all_log [of "other_peers peerID room" e ?payload ?w2] sa by auto
      have ok3: "manager_ok (mgr w3)"
        using runs_ok(1) [OF runs_trans [OF pruned_runs(1) [OF pr] runs_send_all [of ?w2 e ?payload "other_peers peerID room"]] assms] sa
        by simp
      obtain w4 where w4: "leave_each (\<lambda>p w'. map_option snd (Leave leave_fuel e roomID p False w')) failed w3 = Some w4"
        using leave_each_returns [OF leave_call ok3 peers_in_bound [OF ok3]] by blast
      have "departs_only (\<lambda>p w'. map_option snd (Leave leave_fuel e roomID p False w'))"
        using Leave_departs by (auto simp: departs_only_def)
      then obtain rest where rest: "evlog w4 = evlog w3 @ rest" "\<forall>ev \<in> set rest. departure_event ev"
        using leave_each_departs [OF _ w4] unfolding departs_def list_all_iff by blast
      have quiet: "failed = [] \<Longrightarrow> rest = []" using w4 rest(1) by simp
      have once: "\<forall>ev \<in> set rest. departure_event ev \<and> (\<forall>c ok. ev \<noteq> Sent c ?payload ok)"
        using rest(2) relayed_no_departure by blast
      have run: "Relay e roomID peerID envelope w = Some (True, w4)"
        using valid room pr sa w4 by (auto simp: Relay_def ask_def Let_def)
      have ok2: "manager_ok m2" using quiet_step_ok [OF pruned_runs(3) [OF pr] assms] .
      have others: "map peer_id (other_peers peerID room) = filter (\<lambda>pid. pid \<noteq> peerID) (map fst (rs_peers room))"
        "distinct (map fst (rs_peers room))"
        using manager_ok_room [OF ok2 room(2)] peers_by_id by (auto simp: room_ok_def gm_ok_def)
      have log: "evlog w4 = evlog w @ ?closes @ map2 (\<lambda>p ok. Sent (peer_conn p) ?payload ok) (other_peers peerID room) oks @ rest"
        using oks(3) rest(1) log2 by simp
      have "distinct (map peer_id (other_peers peerID room))" "set (map peer_id (other_peers peerID room)) = fst ` set (rs_peers room) - {peerID}"
        unfolding others(1) using others(2) by auto
      note others = this
      have all_sent: "(\<forall>ok \<in> set oks. ok) \<longrightarrow> rest = []" using oks(2) quiet by blast
      show ?thesis
        unfolding valid Some prod.case option.case
        by (rule exI [of _ True], rule exI [of _ w4], rule exI [of _ ?closes], rule exI [of _ rest])
          (intro conjI exI [of _ oks] run cl TrueI oks(1) all_sent log once others)
    qed
  qed
qed

text \<open>A room in which two peers have joined, as the locked sections leave it.\<close>

definition talking :: world where
  "talking = (fresh_world demo_options)\<lparr>mgr := joined_by ''bob'' 8 (joined_by ''ann'' 7 (create_locked ''room'' 0 (NewManager demo_options)))\<rparr>"

theorem Relay_recipients_witness:
  "\<exists>w' closes rest ok. Relay demo_env ''room'' ''ann'' demo_envelope talking = Some (True, w') \<and>
     evlog w' = closes @ Sent 8 (marshalRelayed demo_envelope ''ann'' (formatTimestamp 0)) ok # rest"
proof -
  have ok: "manager_ok (mgr talking)" by code_simp
  have "map_option (\<lambda>room. map peer_conn (other_peers ''ann'' room)) (present demo_env ''room'' ''ann'' talking) = Some [8]"
    by code_simp
  then obtain room p where room: "present demo_env ''room'' ''ann'' talking = Some room"
    and others: "other_peers ''ann'' room = [p]" "peer_conn p = 8"
    by (auto simp: map_eq_Cons_conv)
  have valid: "validateSecureEnvelope demo_envelope = None" by code_simp
  have start: "clock demo_env (tick talking) = 0" "evlog talking = []" by (simp_all add: demo_env_def talking_def fresh_world_def)
  from Relay_recipients [OF ok, of demo_env "''room''" "''ann''" demo_envelope]
  obtain r w' closes rest oks where run: "Relay demo_env ''room'' ''ann'' demo_envelope talking = Some (r, w')" "r"
    and oks: "length oks = length [p]"
    and log: "evlog w' = [] @ closes @ map2 (\<lambda>p ok. Sent (peer_conn p) (marshalRelayed demo_envelope ''ann'' (formatTimestamp 0)) ok) [p] oks @ rest"
    unfolding valid room others(1) start prod.case option.case by (elim exE conjE) (rule that)
  obtain ok where "oks = [ok]" using oks by (cases oks) auto
  then have "evlog w' = closes @ Sent 8 (marshalRelayed demo_envelope ''ann'' (formatTimestamp 0)) ok # rest"
    using log others(2) by simp
  moreover have "Relay demo_env ''room'' ''ann'' demo_envelope talking = Some (True, w')" using run by simp
  ultimately show ?thesis by blast
qed

text \<open>
  A closed manager refuses; a manager with as many unexpired
  rooms as it may have refuses and only prunes; otherwise, when the first id drawn is free, an empty
  room appears under it, with the answered expiry time, at most two peers and the invite
  link below the base URL, and no other room changes.
\<close>

theorem Create_outcome:
  fixes e :: env and w :: world
  assumes "manager_ok (mgr w)"
  defines "now \<equiv> clock e (tick w)"
  defines "pruned \<equiv> snd (pruneExpiredLocked now (mgr w))"
  shows "(m_closed (mgr w) \<longrightarrow> fst (Create e baseURL w) = Inl ErrManagerClosed \<and> mgr (snd (Create e baseURL w)) = mgr w)
    \<and> (\<not> m_closed (mgr w) \<and> m_maxRooms (mgr w) \<le> length (m_rooms pruned) \<longrightarrow>
        fst (Create e baseURL w) = Inl ErrRoomLimit \<and> mgr (snd (Create e baseURL w)) = pruned)
    \<and> (\<not> m_closed (mgr w) \<and> length (m_rooms pruned) < m_maxRooms (mgr w)
        \<and> newRoomID e (tick w + 1) = Some roomID \<and> abs_lobby pruned roomID = None \<longrightarrow>
        fst (Create e baseURL w) =
          Inr \<lparr>cr_RoomID = roomID, cr_InviteLink = TrimRight_slash baseURL @ ''/direct/'' @ PathEscape roomID,
            cr_ExpiresAt = now + m_roomTTL (mgr w), cr_MaxPeers = 2\<rparr>
        \<and> abs_lobby (mgr (snd (Create e baseURL w)))
            = lobby_create roomID (now + m_roomTTL (mgr w)) (lobby_prune now (abs_lobby (mgr w))))"
proof -
  obtain expired m2 where pr: "pruneExpiredLocked now (mgr w) = (expired, m2)" by fastforce
  have m2: "m_roomTTL m2 = m_roomTTL (mgr w)" "m_maxRooms m2 = m_maxRooms (mgr w)" "m_closed m2 = m_closed (mgr w)"
    using pr assms(1) by (auto simp: prune_filter manager_ok_gm)
  have ab: "abs_lobby m2 = lobby_prune now (abs_lobby (mgr w))"
    using abs_prune [OF assms(1), of now] pr by simp
  have cr: "abs_lobby (create_locked roomID now m2) = lobby_create roomID (now + m_roomTTL m2) (abs_lobby m2)"
    by (auto simp: create_locked_def abs_lobby_def put_room_def gm_put_lookup lobby_create_def publicPeers_def
        List.map_filter_def fun_eq_iff)
  have al: "alloc_id 8 e [] (w\<lparr>tick := Suc (tick w), mgr := m2\<rparr>) = (Inr roomID, w\<lparr>tick := tick w + 2, mgr := m2\<rparr>)"
    if "newRoomID e (tick w + 1) = Some roomID" "map_of (m_rooms m2) roomID = None"
    using that by (simp add: ask_def eval_nat_numeral)
  have free: "map_of (m_rooms m2) roomID = None" if "abs_lobby pruned roomID = None"
    using that pr by (simp add: pruned_def abs_lobby_def)
  have made: "Create e baseURL w =
      (Inr \<lparr>cr_RoomID = roomID, cr_InviteLink = TrimRight_slash baseURL @ ''/direct/'' @ PathEscape roomID,
            cr_ExpiresAt = now + m_roomTTL (mgr w), cr_MaxPeers = 2\<rparr>,
       closePeers expired (w\<lparr>tick := tick w + 2, mgr := create_locked roomID now m2\<rparr>))"
    if "\<not> m_closed (mgr w)" "length (m_rooms pruned) < m_maxRooms (mgr w)"
      "newRoomID e (tick w + 1) = Some roomID" "abs_lobby pruned roomID = None"
    using that pr m2 al [OF that(3) free [OF that(4)]] free [OF that(4)]
    by (simp add: pruned_def Create_def ask_def now_def [symmetric] MaxRoomPeers_def)
  have full: "Create e baseURL w = (Inl ErrRoomLimit, closePeers expired (w\<lparr>tick := tick w + 1, mgr := pruned\<rparr>))"
    if "\<not> m_closed (mgr w)" "m_maxRooms (mgr w) \<le> length (m_rooms pruned)"
    using that pr m2 by (simp add: pruned_def Create_def ask_def now_def [symmetric])
  have closed: "Create e baseURL w = (Inl ErrManagerClosed, w\<lparr>tick := tick w + 1\<rparr>)" if "m_closed (mgr w)"
    using that by (simp add: Create_def ask_def)
  show ?thesis
    using made full closed cr ab m2(1) by simp
qed

theorem Create_outcome_witness:
  "fst (Create demo_env ''https://lane.example/'' (fresh_world demo_options)) =
     Inr \<lparr>cr_RoomID = ''room-1'', cr_InviteLink = ''https://lane.example/direct/room-1'',
       cr_ExpiresAt = 2 * Hour, cr_MaxPeers = 2\<rparr>"
proof -
  let ?w = "fresh_world demo_options"
  have ok: "manager_ok (mgr ?w)" using fresh_world_ok [of demo_env demo_options] by (simp add: world_ok_def)
  have id: "newRoomID demo_env (tick ?w + 1) = Some ''room-1''" by code_simp
  have link: "TrimRight_slash ''https://lane.example/'' @ ''/direct/'' @ PathEscape ''room-1'' = ''https://lane.example/direct/room-1''"
    by code_simp
  have "clock demo_env (tick ?w) = 0" "m_roomTTL (mgr ?w) = 2 * Hour" "\<not> m_closed (mgr ?w)" "m_maxRooms (mgr ?w) = 1"
    "m_rooms (snd (pruneExpiredLocked 0 (mgr ?w))) = []"
    by (simp_all add: demo_env_def fresh_world_def NewManager_def demo_options_def pruneExpiredLocked_def)
  then show ?thesis
    using Create_outcome [OF ok, of demo_env "''https://lane.example/''" "''room-1''"] id link
    by (simp add: abs_lobby_def)
qed

text \<open>
  Closing empties the lobby and closes every connection of every room
  exactly once with 1001 and the reason \<open>server shutdown\<close>; closing again does nothing, and
  every later request is refused without changing the manager, whatever the clock says.
\<close>

theorem Close_outcome:
  assumes "manager_ok (mgr w)"
  shows "m_rooms (mgr (Close w)) = [] \<and> m_closed (mgr (Close w)) \<and> Close (Close w) = Close w
    \<and> (\<not> m_closed (mgr w) \<longrightarrow> evlog (Close w) = evlog w @
         concat (map (\<lambda>(_, room). map (\<lambda>(_, p). Closed (peer_conn p) 1001 ''server shutdown'') (rs_peers room)) (m_rooms (mgr w))))
    \<and> Create e baseURL (Close w) = (Inl ErrManagerClosed, (Close w)\<lparr>tick := tick w + 1\<rparr>)
    \<and> Status e roomID (Close w) = (None, (Close w)\<lparr>tick := tick w + 1\<rparr>)
    \<and> Join e roomID conn (Close w) = Some (Inl ErrManagerClosed, (Close w)\<lparr>tick := tick w + 1\<rparr>)
    \<and> Leave leave_fuel e roomID peerID imm (Close w) = Some (False, (Close w)\<lparr>tick := tick w + 1\<rparr>)
    \<and> expire roomID ref (Close w) = Close w"
proof -
  have c: "m_closed (mgr (Close w))" "tick (Close w) = tick w"
    by (auto simp: Close_def close_locked_def closePeersWithReason_def)
  have r: "m_rooms (mgr (Close w)) = []"
    using assms by (auto simp: Close_def close_locked_def closePeersWithReason_def manager_ok_def)
  have "Close (Close w) = Close w" using c(1) by (subst Close_def) simp
  moreover have "\<not> m_closed (mgr w) \<longrightarrow> evlog (Close w) = evlog w @
         concat (map (\<lambda>(_, room). map (\<lambda>(_, p). Closed (peer_conn p) 1001 ''server shutdown'') (rs_peers room)) (m_rooms (mgr w)))"
    by (simp add: Close_def close_locked_def closePeersWithReason_def p2pCloseCodeGoingAway_def map_concat comp_def case_prod_beta')
  moreover have "Create e baseURL (Close w) = (Inl ErrManagerClosed, (Close w)\<lparr>tick := tick w + 1\<rparr>)"
    "Status e roomID (Close w) = (None, (Close w)\<lparr>tick := tick w + 1\<rparr>)"
    using c by (simp_all add: Create_def Status_def ask_def)
  moreover have "join_admit e roomID conn (Close w) = (Inl ErrManagerClosed, (Close w)\<lparr>tick := tick w + 1\<rparr>)"
    using c by (simp add: join_admit_def ask_def)
  moreover have "Leave leave_fuel e roomID peerID imm (Close w) = Some (False, (Close w)\<lparr>tick := tick w + 1\<rparr>)"
    using c by (simp add: leave_fuel_def ask_def)
  moreover have "expire roomID ref (Close w) = Close w"
    using r by (simp add: expire_def expire_locked_def closePeers_def closePeersWithReason_def)
  ultimately show ?thesis using c(1) r by (simp add: Join_def)
qed

theorem Close_outcome_witness:
  "m_rooms (mgr (Close (fresh_world demo_options))) = []"
proof -
  have "manager_ok (mgr (fresh_world demo_options))"
    using fresh_world_ok [of demo_env demo_options] by (simp add: world_ok_def)
  from Close_outcome [OF this] show ?thesis by blast
qed

section \<open>Timers\<close>

definition refs_from :: "nat \<Rightarrow> string \<Rightarrow> Manager \<Rightarrow> bool" where
  "refs_from n roomID m \<longleftrightarrow> n \<le> m_nextRef m \<and> (\<forall>room. map_of (m_rooms m) roomID = Some room \<longrightarrow> n \<le> rs_ref room)"

lemma refs_from_put:
  "refs_from n roomID m \<Longrightarrow> map_of (m_rooms m) k = Some old \<Longrightarrow> rs_ref room = rs_ref old \<Longrightarrow>
   refs_from n roomID (put_room k room m)"
  by (auto simp: refs_from_def put_room_def gm_put_lookup)

lemma refs_from_remove: "refs_from n roomID m \<Longrightarrow> refs_from n roomID (removeRoomLocked k room m)"
  by (auto simp: refs_from_def removeRoomLocked_def gm_del_lookup split: option.split)

lemma refs_from_prune: "refs_from n roomID m \<Longrightarrow> refs_from n roomID (snd (prune_loop now xs m))"
  by (induction now xs m rule: prune_loop.induct) (auto simp: refs_from_remove split_beta)

lemma refs_from_quiet: "quiet_step m m' \<Longrightarrow> refs_from n roomID m \<Longrightarrow> refs_from n roomID m'"
  by (induction rule: quiet_step.induct)
    (auto simp: pruneExpiredLocked_def refs_from_prune leave_locked_def Let_def leave_room_def removePeerOrder_def
      scheduleCleanup_def stopCleanup_def intro!: refs_from_remove elim!: refs_from_put)

lemma refs_from_step: "manager_step m m' \<Longrightarrow> refs_from n roomID m \<Longrightarrow> refs_from n roomID m'"
proof (induction rule: manager_step.induct)
  case (create m k now)
  then show ?case by (auto simp: refs_from_def create_locked_def put_room_def gm_put_lookup)
next
  case (join_stop m k room)
  then show ?case by (auto simp: stopCleanup_def elim!: refs_from_put)
next
  case (join m k room peerID conn)
  then show ?case by (auto simp: join_locked_def join_room_def stopCleanup_def elim!: refs_from_put)
next
  case (close m)
  then show ?case by (simp add: refs_from_def close_locked_def)
qed (auto simp: refs_from_quiet expire_locked_def cleanup_locked_def refs_from_remove split: option.split)

text \<open>
  A timer armed for an
  earlier room never touches a later room of the same id: once a room has been created under
  the id, and whatever happens afterwards, the callbacks of all rooms made before change
  nothing and close nobody.
\<close>

theorem stale_timers_harmless:
  assumes "manager_step\<^sup>*\<^sup>* (create_locked roomID now m) m'" and "r < m_nextRef m"
  shows "expire_locked roomID r m' = ([], m') \<and> cleanup_locked roomID r m' = m'"
proof -
  have "refs_from (m_nextRef m) roomID m'"
    using assms(1)
  proof (induction rule: rtranclp_induct)
    case base
    show ?case by (simp add: refs_from_def create_locked_def put_room_def gm_put_lookup)
  qed (rule refs_from_step)
  then show ?thesis
    using assms(2) by (fastforce simp: refs_from_def expire_locked_def cleanup_locked_def split: option.split)
qed

theorem stale_timers_harmless_witness:
  "expire_locked ''a'' 0 (create_locked ''a'' 9 (cleanup_locked ''a'' 0 (create_locked ''a'' 5 (NewManager demo_options))))
     = ([], create_locked ''a'' 9 (cleanup_locked ''a'' 0 (create_locked ''a'' 5 (NewManager demo_options))))"
proof -
  have "(0::nat) < m_nextRef (cleanup_locked ''a'' 0 (create_locked ''a'' 5 (NewManager demo_options)))" by code_simp
  from stale_timers_harmless [OF rtranclp.rtrancl_refl this] show ?thesis by simp
qed

section \<open>A cleanup that is lost\<close>

text \<open>
  rooms.go:313-319. \<open>Join\<close> stops the cleanup of an empty room before it draws the peer id;
  when that fails nobody joins, and the empty room stays with no cleanup until its expiry.
\<close>

definition no_peer_env :: "nat \<Rightarrow> env" where
  "no_peer_env k = demo_env\<lparr>newPeerID := (\<lambda>i. if i < k then Some ''peer'' else None)\<rparr>"

lemma join_failure_loses_cleanup:
  "\<exists>w w'. serve_all (no_peer_env 5) [OpCreate [], OpJoin ''room-1'' 7, OpLeave ''room-1'' ''peer'' False] (fresh_world demo_options) = Some w
     \<and> map_option rs_cleanupTimer (map_of (m_rooms (mgr w)) ''room-1'') = Some True
     \<and> Join (no_peer_env 5) ''room-1'' 8 w = Some (Inl ErrAllocatePeer, w')
     \<and> map_option (\<lambda>room. (rs_peers room, rs_cleanupTimer room)) (map_of (m_rooms (mgr w')) ''room-1'') = Some ([], False)"
proof -
  let ?w = "the (serve_all (no_peer_env 5) [OpCreate [], OpJoin ''room-1'' 7, OpLeave ''room-1'' ''peer'' False] (fresh_world demo_options))"
  let ?w' = "snd (the (Join (no_peer_env 5) ''room-1'' 8 ?w))"
  have "serve_all (no_peer_env 5) [OpCreate [], OpJoin ''room-1'' 7, OpLeave ''room-1'' ''peer'' False] (fresh_world demo_options) \<noteq> None"
    by code_simp
  moreover have "map_option rs_cleanupTimer (map_of (m_rooms (mgr ?w)) ''room-1'') = Some True" by code_simp
  moreover have "map_option fst (Join (no_peer_env 5) ''room-1'' 8 ?w) = Some (Inl ErrAllocatePeer)" by code_simp
  moreover have "map_option (\<lambda>room. (rs_peers room, rs_cleanupTimer room)) (map_of (m_rooms (mgr ?w')) ''room-1'') = Some ([], False)"
    by code_simp
  ultimately show ?thesis
    by (intro exI [of _ ?w] exI [of _ ?w']) auto
qed
end
