(* ===== verification/Go_Crypto.thy ===== *)
theory Go_Crypto
  imports Go_Text "HOL-Library.Word"
begin

unbundle bit_operations_syntax

text \<open>
  Packages \<open>encoding/base64\<close>, \<open>crypto/sha1\<close> and \<open>crypto/hmac\<close>, as far as the program uses
  them, on strings as byte sequences.
\<close>

section \<open>Base64\<close>

definition std_alphabet :: string where
  "std_alphabet = ''ABCDEFGHIJKLMNOPQRSTUVWXYZabcdefghijklmnopqrstuvwxyz0123456789+/''"

definition url_alphabet :: string where
  "url_alphabet = ''ABCDEFGHIJKLMNOPQRSTUVWXYZabcdefghijklmnopqrstuvwxyz0123456789-_''"

text \<open>Three bytes give four digits; a shorter rest gives two or three and the padding.\<close>

fun base64 :: "string \<Rightarrow> string \<Rightarrow> string \<Rightarrow> string" where
  "base64 alpha pad [] = []"
| "base64 alpha pad [a] =
    (let n = byte_of a * 0x10000 in [alpha ! (n div 0x40000), alpha ! (n div 0x1000 mod 64)] @ pad @ pad)"
| "base64 alpha pad [a, b] =
    (let n = byte_of a * 0x10000 + byte_of b * 0x100
     in [alpha ! (n div 0x40000), alpha ! (n div 0x1000 mod 64), alpha ! (n div 64 mod 64)] @ pad)"
| "base64 alpha pad (a # b # c # rest) =
    (let n = byte_of a * 0x10000 + byte_of b * 0x100 + byte_of c
     in [alpha ! (n div 0x40000), alpha ! (n div 0x1000 mod 64), alpha ! (n div 64 mod 64), alpha ! (n mod 64)]
        @ base64 alpha pad rest)"

definition StdEncoding :: "string \<Rightarrow> string" where
  "StdEncoding s = base64 std_alphabet ''='' s"

definition RawURLEncoding :: "string \<Rightarrow> string" where
  "RawURLEncoding s = base64 url_alphabet [] s"

lemma byte_of_less: "byte_of c < 256"
  by simp

lemma base64_set:
  assumes "length alpha = 64"
  shows "set (base64 alpha pad s) \<subseteq> set alpha \<union> set pad"
  using assms
proof (induction alpha pad s rule: base64.induct)
  case (2 alpha pad a)
  have "byte_of a * 0x10000 div 0x40000 < 64" using byte_of_less [of a] by linarith
  then show ?case using 2 by (auto simp: Let_def)
next
  case (3 alpha pad a b)
  have "(byte_of a * 0x10000 + byte_of b * 0x100) div 0x40000 < 64" using byte_of_less [of a] byte_of_less [of b] by linarith
  then show ?case using 3 by (auto simp: Let_def)
next
  case (4 alpha pad a b c rest)
  have "(byte_of a * 0x10000 + byte_of b * 0x100 + byte_of c) div 0x40000 < 64"
    using byte_of_less [of a] byte_of_less [of b] byte_of_less [of c] by linarith
  then show ?case using 4 by (auto simp: Let_def)
qed simp

lemma base64_length_raw: "length (base64 alpha [] s) = (4 * length s + 2) div 3"
  by (induction alpha "[] :: string" s rule: base64.induct) (simp_all add: Let_def)

section \<open>SHA-1 and HMAC\<close>

definition be32 :: "string \<Rightarrow> 32 word" where
  "be32 s = foldl (\<lambda>w c. push_bit 8 w OR word_of_nat (byte_of c)) 0 s"

definition be_bytes :: "nat \<Rightarrow> nat \<Rightarrow> string" where
  "be_bytes k n = map (\<lambda>i. char_of (n div 256 ^ i mod 256)) (rev [0..<k])"

definition sha1_pad :: "string \<Rightarrow> string" where
  "sha1_pad m = m @ [CHR 0x80] @ replicate ((119 - length m mod 64) mod 64) (CHR 0x00) @ be_bytes 8 (8 * length m)"

text \<open>The message schedule, newest word first.\<close>

fun sha1_expand :: "nat \<Rightarrow> 32 word list \<Rightarrow> 32 word list" where
  "sha1_expand 0 ws = ws"
| "sha1_expand (Suc n) ws =
    sha1_expand n (word_rotl 1 (ws ! 2 XOR ws ! 7 XOR ws ! 13 XOR ws ! 15) # ws)"

type_synonym sha1_state = "32 word \<times> 32 word \<times> 32 word \<times> 32 word \<times> 32 word"

definition sha1_round :: "sha1_state \<Rightarrow> nat \<times> 32 word \<Rightarrow> sha1_state" where
  "sha1_round = (\<lambda>(a, b, c, d, e) (t, w).
    let (f, k) =
      (if t < 20 then ((b AND c) OR (NOT b AND d), 0x5A827999)
       else if t < 40 then (b XOR c XOR d, 0x6ED9EBA1)
       else if t < 60 then ((b AND c) OR (b AND d) OR (c AND d), 0x8F1BBCDC)
       else (b XOR c XOR d, 0xCA62C1D6))
    in (word_rotl 5 a + f + e + k + w, a, word_rotl 30 b, c, d))"

fun sha1_words :: "nat \<Rightarrow> string \<Rightarrow> 32 word list" where
  "sha1_words 0 s = []"
| "sha1_words (Suc n) s = be32 (take 4 s) # sha1_words n (drop 4 s)"

definition sha1_block :: "sha1_state \<Rightarrow> string \<Rightarrow> sha1_state" where
  "sha1_block h block =
    (let ws = rev (sha1_expand 64 (rev (sha1_words 16 block)));
         (a, b, c, d, e) = foldl sha1_round h (zip [0..<80] ws);
         (h0, h1, h2, h3, h4) = h
     in (h0 + a, h1 + b, h2 + c, h3 + d, h4 + e))"

fun sha1_blocks :: "nat \<Rightarrow> sha1_state \<Rightarrow> string \<Rightarrow> sha1_state" where
  "sha1_blocks 0 h s = h"
| "sha1_blocks (Suc n) h s = sha1_blocks n (sha1_block h (take 64 s)) (drop 64 s)"

definition sha1 :: "string \<Rightarrow> string" where
  "sha1 m =
    (let s = sha1_pad m;
         (a, b, c, d, e) = sha1_blocks (length s div 64) (0x67452301, 0xEFCDAB89, 0x98BADCFE, 0x10325476, 0xC3D2E1F0) s
     in concat (map (\<lambda>w. be_bytes 4 (unat w)) [a, b, c, d, e]))"

definition xor_bytes :: "nat \<Rightarrow> string \<Rightarrow> string" where
  "xor_bytes k s = map (\<lambda>c. char_of (byte_of c XOR k)) s"

definition hmac_sha1 :: "string \<Rightarrow> string \<Rightarrow> string" where
  "hmac_sha1 key msg =
    (let k0 = (if length key > 64 then sha1 key else key); k = k0 @ replicate (64 - length k0) (CHR 0x00)
     in sha1 (xor_bytes 0x5C k @ sha1 (xor_bytes 0x36 k @ msg)))"

lemma sha1_length: "length (sha1 m) = 20"
  by (simp add: sha1_def be_bytes_def Let_def split: prod.split)

lemma base64_examples:
  "StdEncoding ''Man'' = ''TWFu''" "StdEncoding ''Ma'' = ''TWE=''" "StdEncoding ''M'' = ''TQ==''"
  by code_simp+

end
