(* ===== verification/P2P_Transport.thy ===== *)
theory P2P_Transport
  imports P2P_Properties Go_Crypto
begin

text \<open>
  p2p/transport.go, ice.go and metrics/metrics.go: the HTTP and WebSocket handlers in front
  of the room manager. A handler takes the request and the server's state (the manager's
  world and the metrics) and gives the response and the new state. The WebSocket handler
  runs over the events of its connection; between two reads other goroutines may do
  anything to the manager. The router and the WebSocket protocol are third-party code: a
  handler gets the room id from the former and frames or read errors from the latter.
\<close>

section \<open>Metrics\<close>

text \<open>The counters by label, the two gauges.\<close>

record Metrics =
  mt_requests :: "(string \<times> string \<times> string, nat) gomap"
  mt_rooms :: int
  mt_activeConnections :: int
  mt_rejectedFrames :: "(string, nat) gomap"
  mt_relayedEnvelopes :: nat

definition NewMetrics :: Metrics where
  "NewMetrics = \<lparr>mt_requests = [], mt_rooms = 0, mt_activeConnections = 0, mt_rejectedFrames = [], mt_relayedEnvelopes = 0\<rparr>"

definition count_label :: "'k \<Rightarrow> ('k, nat) gomap \<Rightarrow> ('k, nat) gomap" where
  "count_label k c = gm_put k (Suc (case map_of c k of None \<Rightarrow> 0 | Some n \<Rightarrow> n)) c"

definition safeMethod :: "string \<Rightarrow> string" where
  "safeMethod value =
    (if value \<in> set [''GET'', ''HEAD'', ''POST'', ''PUT'', ''PATCH'', ''DELETE'', ''OPTIONS''] then value else ''OTHER'')"

definition safeReason :: "string \<Rightarrow> bool" where
  "safeReason value \<longleftrightarrow>
     value \<in> set [''invalid_json'', ''invalid_type'', ''invalid_envelope'', ''message_too_large'', ''binary_frame'',
       ''room_full'', ''room_not_found'', ''other'']"

definition ObserveRequest :: "string \<Rightarrow> string \<Rightarrow> nat \<Rightarrow> Metrics \<Rightarrow> Metrics" where
  "ObserveRequest method route status m =
    (let c0 = status div 100; c = (if c0 < 1 \<or> c0 > 5 then 5 else c0)
     in m\<lparr>mt_requests := count_label (safeMethod method, route, digit_char c # ''xx'') (mt_requests m)\<rparr>)"

definition SetRooms :: "nat \<Rightarrow> Metrics \<Rightarrow> Metrics" where
  "SetRooms value m = m\<lparr>mt_rooms := int value\<rparr>"

definition AddConnection :: "int \<Rightarrow> Metrics \<Rightarrow> Metrics" where
  "AddConnection delta m = m\<lparr>mt_activeConnections := mt_activeConnections m + delta\<rparr>"

definition RejectFrame :: "string \<Rightarrow> Metrics \<Rightarrow> Metrics" where
  "RejectFrame reason m =
    m\<lparr>mt_rejectedFrames := count_label (if safeReason reason then reason else ''other'') (mt_rejectedFrames m)\<rparr>"

definition RelayEnvelope :: "Metrics \<Rightarrow> Metrics" where
  "RelayEnvelope m = m\<lparr>mt_relayedEnvelopes := mt_relayedEnvelopes m + 1\<rparr>"

section \<open>Configuration\<close>

record P2PConfig =
  cfg_Host :: string
  cfg_Port :: int
  cfg_PublicBaseURL :: string
  cfg_TrustProxy :: bool
  cfg_AppVersion :: string
  cfg_RoomTTL :: duration
  cfg_EmptyRoomGrace :: duration
  cfg_MaxFrameBytes :: int
  cfg_STUNURLs :: "string list"
  cfg_TURNURLs :: "string list"
  cfg_TURNSharedSecret :: string
  cfg_TURNTTL :: duration
  cfg_TURNUsername :: string
  cfg_TURNCredential :: string

definition DefaultHost :: string where "DefaultHost = ''0.0.0.0''"
definition DefaultPort :: int where "DefaultPort = 8787"
definition DefaultAppVersion :: string where "DefaultAppVersion = ''0.0.0''"
definition DefaultRoomTTL :: duration where "DefaultRoomTTL = 2 * Hour"
definition DefaultTurnTTL :: duration where "DefaultTurnTTL = 10 * Minute"
definition DefaultMaxFrameBytes :: int where "DefaultMaxFrameBytes = 64 * 1024"
definition MaxConfiguredFrameBytes :: int where "MaxConfiguredFrameBytes = 256 * 1024"
definition DefaultSTUNURL :: string where "DefaultSTUNURL = ''stun:stun.l.google.com:19302''"

text \<open>The defaults \<open>NewHandler\<close> fills in.\<close>

definition handler_config :: "P2PConfig \<Rightarrow> P2PConfig" where
  "handler_config cfg =
    cfg\<lparr>cfg_Host := (if cfg_Host cfg = [] then DefaultHost else cfg_Host cfg),
        cfg_Port := (if cfg_Port cfg = 0 then DefaultPort else cfg_Port cfg),
        cfg_AppVersion := (if cfg_AppVersion cfg = [] then DefaultAppVersion else cfg_AppVersion cfg),
        cfg_RoomTTL := (if cfg_RoomTTL cfg = 0 \<or> cfg_RoomTTL cfg < 0 then DefaultRoomTTL else cfg_RoomTTL cfg),
        cfg_MaxFrameBytes :=
          (if cfg_MaxFrameBytes cfg < 1024 \<or> cfg_MaxFrameBytes cfg > MaxConfiguredFrameBytes
           then DefaultMaxFrameBytes else cfg_MaxFrameBytes cfg),
        cfg_STUNURLs := (if cfg_STUNURLs cfg = [] then [DefaultSTUNURL] else cfg_STUNURLs cfg),
        cfg_TURNTTL := (if cfg_TURNTTL cfg = 0 \<or> cfg_TURNTTL cfg < 0 then DefaultTurnTTL else cfg_TURNTTL cfg)\<rparr>"

record server =
  sv_config :: P2PConfig
  sv_world :: world
  sv_metrics :: Metrics

definition count_rooms :: "env \<Rightarrow> server \<Rightarrow> server" where
  "count_rooms e s =
    (let (n, w) = RoomCount e (sv_world s) in s\<lparr>sv_world := w, sv_metrics := SetRooms n (sv_metrics s)\<rparr>)"

definition NewHandler :: "env \<Rightarrow> P2PConfig \<Rightarrow> server" where
  "NewHandler e config =
    (let cfg = handler_config config in
     count_rooms e
       \<lparr>sv_config = cfg,
        sv_world = \<lparr>mgr = NewManager \<lparr>opt_RoomTTL = cfg_RoomTTL cfg, opt_EmptyRoomGrace = cfg_EmptyRoomGrace cfg, opt_MaxRooms = 0\<rparr>,
          tick = 0, evlog = []\<rparr>,
        sv_metrics = NewMetrics\<rparr>)"

definition CloseHandler :: "server \<Rightarrow> server" where
  "CloseHandler s = s\<lparr>sv_world := Close (sv_world s), sv_metrics := SetRooms 0 (sv_metrics s)\<rparr>"

section \<open>Responses\<close>

record response =
  resp_status :: nat
  resp_type :: string
  resp_body :: string

definition writeJSON :: "nat \<Rightarrow> json \<Rightarrow> response" where
  "writeJSON status value =
    \<lparr>resp_status = status, resp_type = ''application/json; charset=utf-8'', resp_body = json_print value @ [CHR 0x0A]\<rparr>"

definition writeError :: "nat \<Rightarrow> string \<Rightarrow> response" where
  "writeError status message = writeJSON status (JObj [(''error'', JStr message)])"

definition writeParserError :: "nat \<Rightarrow> string \<Rightarrow> string \<Rightarrow> response" where
  "writeParserError status code message =
    (let label = (if status = 413 then ''Payload Too Large'' else ''Bad Request'') in
     writeJSON status (JObj [(''statusCode'', JNum (itoa_nat status)), (''code'', JStr code), (''error'', JStr label),
       (''message'', JStr message)]))"

definition CreatedRoom_json :: "CreatedRoom \<Rightarrow> json" where
  "CreatedRoom_json r =
    JObj [(''roomId'', JStr (cr_RoomID r)), (''inviteLink'', JStr (cr_InviteLink r)),
      (''expiresAt'', JStr (formatTimestamp (cr_ExpiresAt r))), (''maxPeers'', JNum (itoa_nat (cr_MaxPeers r)))]"

definition RoomStatus_json :: "RoomStatus \<Rightarrow> json" where
  "RoomStatus_json r =
    JObj [(''roomId'', JStr (st_RoomID r)), (''expiresAt'', JStr (formatTimestamp (st_ExpiresAt r))),
      (''peerCount'', JNum (itoa_nat (st_PeerCount r))), (''maxPeers'', JNum (itoa_nat (st_MaxPeers r)))]"

definition health :: "P2PConfig \<Rightarrow> response" where
  "health cfg =
    writeJSON 200 (JObj [(''ok'', JBool True), (''service'', JStr ''duallane''), (''lane'', JStr ''ready''),
      (''appVersion'', JStr (cfg_AppVersion cfg))])"

section \<open>Creating and reading rooms\<close>

text \<open>A body is its bytes and whether reading it broke off with an error.\<close>

record request =
  rq_contentType :: string
  rq_contentLength :: int
  rq_body :: string
  rq_bodyError :: bool
  rq_tls :: bool
  rq_forwardedProto :: string
  rq_host :: string

text \<open>The bytes a host keeps when a URL is printed.\<close>

definition host_unreserved :: "char \<Rightarrow> bool" where
  "host_unreserved c \<longleftrightarrow>
     (let b = byte_of c in
      (0x41 \<le> b \<and> b \<le> 0x5A) \<or> (0x61 \<le> b \<and> b \<le> 0x7A) \<or> (0x30 \<le> b \<and> b \<le> 0x39)
      \<or> c \<in> set ''!$&()*+,;=:[]<>-_.~'' \<or> b = 0x22 \<or> b = 0x27)"

definition host_escape :: "string \<Rightarrow> string" where
  "host_escape s =
    concat (map (\<lambda>c. if host_unreserved c then [c]
      else [CHR ''%'', upper_hex (byte_of c div 16), upper_hex (byte_of c mod 16)]) s)"

definition requestBaseURL :: "request \<Rightarrow> bool \<Rightarrow> string" where
  "requestBaseURL r trustProxy =
    (let scheme0 = (if rq_tls r then ''https'' else ''http'');
         scheme1 =
           (if trustProxy \<and> rq_forwardedProto r \<noteq> [] then
              let forwardedScheme = TrimSpace (split_at (CHR '','') (rq_forwardedProto r) ! 0)
              in if forwardedScheme = ''http'' \<or> forwardedScheme = ''https'' then forwardedScheme else scheme0
            else scheme0);
         scheme = (if scheme1 \<noteq> ''http'' \<and> scheme1 \<noteq> ''https'' then ''http'' else scheme1);
         host = (if rq_host r = [] then ''127.0.0.1'' else rq_host r)
     in scheme @ ''://'' @ host_escape host)"

definition createRoomBodyLimit :: nat where
  "createRoomBodyLimit = 1 * 1024 * 1024"

text \<open>The number under \<open>maxPeers\<close>: of several members of that name the last counts.\<close>

definition body_maxPeers :: "(rat \<Rightarrow> rat option) \<Rightarrow> json \<Rightarrow> rat option" where
  "body_maxPeers f64 body =
    (case body of
       JObj ms \<Rightarrow> Option.bind (map_of (rev ms) ''maxPeers'') (assign_float f64 0)
     | _ \<Rightarrow> None)"

definition wrongPeers :: response where
  "wrongPeers = writeError 400 ''maxPeers must be 2 for p2p rooms''"

definition bodyTooLarge :: response where
  "bodyTooLarge = writeParserError 413 ''FST_ERR_CTP_BODY_TOO_LARGE'' ''Request body is too large''"

definition bodyInvalid :: response where
  "bodyInvalid = writeParserError 400 ''FST_ERR_CTP_INVALID_JSON_BODY''
     (''Body is not valid JSON but content-type is set to '' @ [CHR 0x27] @ ''application/json'' @ [CHR 0x27])"

definition bodyEmpty :: response where
  "bodyEmpty = writeParserError 400 ''FST_ERR_CTP_EMPTY_JSON_BODY''
     (''Body cannot be empty when content-type is set to '' @ [CHR 0x27] @ ''application/json'' @ [CHR 0x27])"

definition createRoom :: "(rune \<Rightarrow> rune) \<Rightarrow> (rat \<Rightarrow> rat option) \<Rightarrow> env \<Rightarrow> request \<Rightarrow> server \<Rightarrow> response \<times> server" where
  "createRoom ulow f64 e r s =
    (if \<not> HasPrefix (ToLower ulow (TrimSpace (rq_contentType r))) ''application/json'' then (wrongPeers, s)
     else if rq_contentLength r > int createRoomBodyLimit then (bodyTooLarge, s)
     else if length (rq_body r) > createRoomBodyLimit then (bodyTooLarge, s)
     else if rq_bodyError r then (bodyInvalid, s)
     else if length (rq_body r) = 0 then (bodyEmpty, s)
     else
       case json_text (rq_body r) of
         None \<Rightarrow> (bodyInvalid, s)
       | Some body \<Rightarrow>
           if body_maxPeers f64 body \<noteq> Some (of_nat MaxRoomPeers) then (wrongPeers, s)
           else
             let cfg = sv_config s;
                 baseURL = (if cfg_PublicBaseURL cfg = [] then requestBaseURL r (cfg_TrustProxy cfg) else cfg_PublicBaseURL cfg)
             in case Create e baseURL (sv_world s) of
                  (Inl err, w) \<Rightarrow>
                    (if err = ErrRoomLimit then writeError 503 ''room capacity unavailable''
                     else writeError 500 ''room unavailable'', s\<lparr>sv_world := w\<rparr>)
                | (Inr room, w) \<Rightarrow> (writeJSON 201 (CreatedRoom_json room), count_rooms e (s\<lparr>sv_world := w\<rparr>)))"

definition roomIDMaxLength :: nat where
  "roomIDMaxLength = 128"

definition roomStatus :: "env \<Rightarrow> string \<Rightarrow> server \<Rightarrow> response \<times> server" where
  "roomStatus e roomID s =
    (if length roomID = 0 \<or> length roomID > roomIDMaxLength then (writeError 404 ''room not found'', s)
     else
       case Status e roomID (sv_world s) of
         (None, w) \<Rightarrow> (writeError 404 ''room not found'', s\<lparr>sv_world := w\<rparr>)
       | (Some room, w) \<Rightarrow> (writeJSON 200 (RoomStatus_json room), s\<lparr>sv_world := w\<rparr>))"

section \<open>ICE servers\<close>

definition makeTURNCredential :: "string \<Rightarrow> duration \<Rightarrow> time \<Rightarrow> string \<times> string" where
  "makeTURNCredential secret ttl0 now =
    (let ttl = (if ttl0 \<le> 0 then 10 * Minute else ttl0);
         expiresAt = Unix now + ttl div Second;
         username = itoa expiresAt @ '':duallane''
     in (username, StdEncoding (hmac_sha1 secret username)))"

record iceServer =
  ice_urls :: json
  ice_username :: string
  ice_credential :: string

definition ice_list :: "P2PConfig \<Rightarrow> time \<Rightarrow> iceServer list" where
  "ice_list cfg now =
    (let servers = map (\<lambda>u. \<lparr>ice_urls = JStr u, ice_username = [], ice_credential = []\<rparr>)
           (filter (\<lambda>u. TrimSpace u \<noteq> []) (cfg_STUNURLs cfg));
         turnURLs = map TrimSpace (filter (\<lambda>u. TrimSpace u \<noteq> []) (cfg_TURNURLs cfg))
     in if turnURLs = [] then servers
        else
          let (username, credential) =
                (if cfg_TURNSharedSecret cfg \<noteq> [] then makeTURNCredential (cfg_TURNSharedSecret cfg) (cfg_TURNTTL cfg) now
                 else if cfg_TURNUsername cfg \<noteq> [] \<and> cfg_TURNCredential cfg \<noteq> []
                 then (cfg_TURNUsername cfg, cfg_TURNCredential cfg)
                 else ([], []))
          in if username \<noteq> [] \<and> credential \<noteq> []
             then servers @ [\<lparr>ice_urls = JArr (map JStr turnURLs), ice_username = username, ice_credential = credential\<rparr>]
             else servers)"

definition iceServer_json :: "iceServer \<Rightarrow> json" where
  "iceServer_json i =
    JObj ([(''urls'', ice_urls i)]
      @ (if ice_username i = [] then [] else [(''username'', JStr (ice_username i))])
      @ (if ice_credential i = [] then [] else [(''credential'', JStr (ice_credential i))]))"

definition iceServers :: "P2PConfig \<Rightarrow> time \<Rightarrow> response" where
  "iceServers cfg now = writeJSON 200 (JObj [(''iceServers'', JArr (map iceServer_json (ice_list cfg now)))])"

section \<open>The WebSocket\<close>

definition roomErrorReason :: "room_error \<Rightarrow> string" where
  "roomErrorReason err =
    (if err = ErrRoomFull then ''room_full'' else if err = ErrRoomNotFound then ''room_not_found'' else ''other'')"

definition envelopeErrorReason :: "envelope_error \<Rightarrow> string" where
  "envelopeErrorReason err = (case err of ErrInvalidMessage \<Rightarrow> ''invalid_json'' | ErrInvalidEnvelope \<Rightarrow> ''invalid_envelope'')"

definition closeCodeForRoomError :: "room_error \<Rightarrow> nat" where
  "closeCodeForRoomError err = (if err = ErrRoomFull \<or> err = ErrRoomNotFound then 1005 else 1013)"

text \<open>The code the connection is closed with.\<close>

definition websocketPeer_code :: "int \<Rightarrow> int" where
  "websocketPeer_code code = (if code < 1000 \<or> code > 4999 then 1011 else code)"

text \<open>
  What happens to a connection: a frame with its type, a read error and whether it was the
  frame limit, or something other goroutines do while the handler waits.
\<close>

datatype ws_event = Frame nat string | ReadError bool | Meanwhile p2p_op

definition MessageText :: nat where "MessageText = 1"
definition MessageBinary :: nat where "MessageBinary = 2"

definition map_world :: "(world \<Rightarrow> world) \<Rightarrow> server \<Rightarrow> server" where
  "map_world f s = s\<lparr>sv_world := f (sv_world s)\<rparr>"

definition map_metrics :: "(Metrics \<Rightarrow> Metrics) \<Rightarrow> server \<Rightarrow> server" where
  "map_metrics f s = s\<lparr>sv_metrics := f (sv_metrics s)\<rparr>"

definition tell_peer :: "env \<Rightarrow> nat \<Rightarrow> string \<Rightarrow> server \<Rightarrow> server" where
  "tell_peer e conn event s = map_world (\<lambda>w. snd (sendPeer e conn (marshalSystem event [] []) w)) s"

definition close_conn :: "nat \<Rightarrow> nat \<Rightarrow> string \<Rightarrow> server \<Rightarrow> server" where
  "close_conn conn code reason s =
    map_world (closePeersWithReason [\<lparr>peer_id = [], peer_conn = conn\<rparr>] code reason) s"

text \<open>One frame: the new state and whether the loop ends.\<close>

definition ws_frame ::
  "(rat \<Rightarrow> rat option) \<Rightarrow> env \<Rightarrow> string \<Rightarrow> string \<Rightarrow> nat \<Rightarrow> nat \<Rightarrow> string \<Rightarrow> server \<Rightarrow> (bool \<times> server) option" where
  "ws_frame f64 e roomID peerID conn messageType raw s =
    (if messageType \<noteq> MessageText \<and> messageType \<noteq> MessageBinary
     then Some (False, tell_peer e conn ''invalid-message'' (map_metrics (RejectFrame ''invalid_type'') s))
     else
       case ParseClientMessage f64 raw of
         Inl err \<Rightarrow> Some (False, tell_peer e conn ''invalid-message'' (map_metrics (RejectFrame (envelopeErrorReason err)) s))
       | Inr message \<Rightarrow>
           (case Kind message of
              ClientMessageLeave \<Rightarrow>
                map_option (\<lambda>(_, w). (True, close_conn conn 1005 [] (s\<lparr>sv_world := w\<rparr>)))
                  (Leave leave_fuel e roomID peerID True (sv_world s))
            | ClientMessageSecure \<Rightarrow>
                map_option (\<lambda>(ok, w). (False, (if ok then map_metrics RelayEnvelope else id) (s\<lparr>sv_world := w\<rparr>)))
                  (Relay e roomID peerID (Envelope message) (sv_world s))
            | ClientMessageInvalid \<Rightarrow> Some (False, s)))"

text \<open>The loop; a connection with no more events is one whose context is done.\<close>

fun ws_loop ::
  "(rat \<Rightarrow> rat option) \<Rightarrow> env \<Rightarrow> string \<Rightarrow> string \<Rightarrow> nat \<Rightarrow> ws_event list \<Rightarrow> server \<Rightarrow> server option" where
  "ws_loop f64 e roomID peerID conn [] s = Some s"
| "ws_loop f64 e roomID peerID conn (ReadError tooBig # evs) s =
    Some (if tooBig then map_metrics (RejectFrame ''message_too_large'') s else s)"
| "ws_loop f64 e roomID peerID conn (Meanwhile op # evs) s =
    (case serve e op (sv_world s) of
       None \<Rightarrow> None
     | Some w \<Rightarrow> ws_loop f64 e roomID peerID conn evs (s\<lparr>sv_world := w\<rparr>))"
| "ws_loop f64 e roomID peerID conn (Frame messageType raw # evs) s =
    (case ws_frame f64 e roomID peerID conn messageType raw s of
       None \<Rightarrow> None
     | Some (ends, s') \<Rightarrow> if ends then Some s' else ws_loop f64 e roomID peerID conn evs s')"

text \<open>What is deferred when the connection joined.\<close>

definition ws_finish :: "env \<Rightarrow> string \<Rightarrow> string \<Rightarrow> nat \<Rightarrow> server \<Rightarrow> server option" where
  "ws_finish e roomID peerID conn s =
    map_option
      (\<lambda>(_, w). close_conn conn 1000 [] (count_rooms e (map_metrics (AddConnection (-1)) (s\<lparr>sv_world := w\<rparr>))))
      (Leave leave_fuel e roomID peerID False (sv_world s))"

definition websocket ::
  "(rat \<Rightarrow> rat option) \<Rightarrow> env \<Rightarrow> string \<Rightarrow> bool \<Rightarrow> nat \<Rightarrow> ws_event list \<Rightarrow> server \<Rightarrow> (response option \<times> server) option" where
  "websocket f64 e roomID accepted conn evs s =
    (if length roomID = 0 \<or> length roomID > roomIDMaxLength then Some (Some (writeError 404 ''room not found''), s)
     else if \<not> accepted then Some (None, s)
     else
       case Join e roomID conn (sv_world s) of
         None \<Rightarrow> None
       | Some (Inl err, w) \<Rightarrow>
           let s1 = map_metrics (RejectFrame (roomErrorReason err)) (s\<lparr>sv_world := w\<rparr>);
               s2 = (if err = ErrRoomNotFound then tell_peer e conn ''room-not-found'' s1
                     else if err = ErrRoomFull then tell_peer e conn ''room-full'' s1 else s1)
           in Some (None, close_conn conn (closeCodeForRoomError err) ''room unavailable'' s2)
       | Some (Inr peerID, w) \<Rightarrow>
           case ws_loop f64 e roomID peerID conn evs (count_rooms e (map_metrics (AddConnection 1) (s\<lparr>sv_world := w\<rparr>))) of
             None \<Rightarrow> None
           | Some s' \<Rightarrow> map_option (\<lambda>s''. (None, s'')) (ws_finish e roomID peerID conn s'))"

definition makeRoomID :: "string \<Rightarrow> string" where
  "makeRoomID raw = RawURLEncoding raw"

text \<open>
  \<open>metricsMiddleware\<close>: every request is counted under its route pattern and the status the
  recorder saw, 200 when none was written.
\<close>

definition metricsMiddleware :: "string \<Rightarrow> string \<Rightarrow> nat \<Rightarrow> server \<Rightarrow> server" where
  "metricsMiddleware method pattern status s =
    (let route = (if pattern = [] then ''unmatched'' else pattern);
         statusCode = (if status = 0 then 200 else status)
     in map_metrics (ObserveRequest method route statusCode) s)"

section \<open>Lemmas\<close>

definition labels_ok :: "Metrics \<Rightarrow> bool" where
  "labels_ok m \<longleftrightarrow>
     (\<forall>reason \<in> fst ` set (mt_rejectedFrames m). safeReason reason)
     \<and> (\<forall>(method, route, class) \<in> fst ` set (mt_requests m).
          safeMethod method = method \<and> class \<in> {''1xx'', ''2xx'', ''3xx'', ''4xx'', ''5xx''})"

lemma count_label_keys: "fst ` set (count_label k c) = insert k (fst ` set c)"
  using gm_put_keys [of k _ c] by (simp add: count_label_def)

lemma labels_ok_steps:
  "labels_ok m \<Longrightarrow> labels_ok (RejectFrame reason m)"
  "labels_ok m \<Longrightarrow> labels_ok (RelayEnvelope m)"
  "labels_ok m \<Longrightarrow> labels_ok (AddConnection d m)"
  "labels_ok m \<Longrightarrow> labels_ok (SetRooms n m)"
  by (auto simp: labels_ok_def RejectFrame_def RelayEnvelope_def AddConnection_def SetRooms_def count_label_keys safeReason_def)

lemma labels_ok_observe:
  assumes "labels_ok m"
  shows "labels_ok (ObserveRequest method route status m)"
proof -
  have d: "digit_char 1 = CHR ''1''" "digit_char 2 = CHR ''2''" "digit_char 3 = CHR ''3''" "digit_char 4 = CHR ''4''"
    "digit_char 5 = CHR ''5''"
    by code_simp+
  have "digit_char c # ''xx'' \<in> {''1xx'', ''2xx'', ''3xx'', ''4xx'', ''5xx''}" if "1 \<le> c" "c \<le> 5" for c
  proof -
    consider "c = 1" | "c = 2" | "c = 3" | "c = 4" | "c = 5" using \<open>1 \<le> c\<close> \<open>c \<le> 5\<close> by linarith
    then show ?thesis using d by cases auto
  qed
  moreover have "safeMethod (safeMethod method) = safeMethod method" by (simp add: safeMethod_def)
  ultimately show ?thesis
    using assms by (auto simp: labels_ok_def ObserveRequest_def count_label_keys Let_def)
qed

lemma server_map_simps [simp]:
  "sv_world (map_world f s) = f (sv_world s)" "sv_metrics (map_world f s) = sv_metrics s"
  "sv_world (map_metrics g s) = sv_world s" "sv_metrics (map_metrics g s) = g (sv_metrics s)"
  by (simp_all add: map_world_def map_metrics_def)

lemma conns_simps [simp]:
  "mt_activeConnections (RejectFrame r m) = mt_activeConnections m"
  "mt_activeConnections (RelayEnvelope m) = mt_activeConnections m"
  "mt_activeConnections (SetRooms n m) = mt_activeConnections m"
  "mt_activeConnections (AddConnection d m) = mt_activeConnections m + d"
  by (simp_all add: RejectFrame_def RelayEnvelope_def SetRooms_def AddConnection_def)

text \<open>What every piece of the session keeps.\<close>

definition keeps :: "env \<Rightarrow> server \<Rightarrow> server \<Rightarrow> bool" where
  "keeps e s s' \<longleftrightarrow>
     world_ok e (sv_world s') \<and> mt_activeConnections (sv_metrics s') = mt_activeConnections (sv_metrics s)
     \<and> (labels_ok (sv_metrics s) \<longrightarrow> labels_ok (sv_metrics s'))"

lemma keeps_trans: "keeps e a b \<Longrightarrow> keeps e b c \<Longrightarrow> keeps e a c"
  by (simp add: keeps_def)

lemma tell_peer_keeps: "world_ok e (sv_world s) \<Longrightarrow> keeps e s (tell_peer e conn event (map_metrics (RejectFrame r) s))"
  using runs_world_ok [OF runs_sendPeer] by (simp add: keeps_def tell_peer_def labels_ok_steps)

lemma close_conn_simps [simp]:
  "sv_world (close_conn conn code reason s) = (sv_world s)\<lparr>evlog := evlog (sv_world s) @ [Closed conn code reason]\<rparr>"
  "sv_metrics (close_conn conn code reason s) = sv_metrics s"
  by (simp_all add: close_conn_def closePeersWithReason_def)

lemma world_ok_evlog [simp]: "world_ok e (w\<lparr>evlog := l\<rparr>) = world_ok e w"
  by (simp add: world_ok_def drawn_def)

lemma ws_frame_keeps:
  assumes "world_ok e (sv_world s)"
  shows "\<exists>ends s'. ws_frame f64 e roomID peerID conn ty raw s = Some (ends, s') \<and> keeps e s s'"
proof -
  have ok: "manager_ok (mgr (sv_world s))" using assms by (simp add: world_ok_def)
  obtain r w where l: "Leave leave_fuel e roomID peerID True (sv_world s) = Some (r, w)"
    using Leave_returns [OF ok peers_in_bound [OF ok]] by blast
  have lok: "world_ok e w" using runs_world_ok [OF Leave_runs [OF l] assms] .
  have rel: "\<exists>r w. Relay e roomID peerID envelope (sv_world s) = Some (r, w) \<and> world_ok e w" for envelope
    using Relay_returns [OF ok, of e roomID peerID envelope] runs_world_ok [OF _ assms] by blast
  show ?thesis
  proof (cases "ParseClientMessage f64 raw")
    case (Inl err)
    then show ?thesis using tell_peer_keeps [OF assms] by (auto simp: ws_frame_def)
  next
    case (Inr message)
    obtain r2 w2 where r2: "Relay e roomID peerID (Envelope message) (sv_world s) = Some (r2, w2)" "world_ok e w2"
      using rel by blast
    show ?thesis
      using Inr l lok r2 assms tell_peer_keeps [OF assms, of conn "''invalid-message''" "''invalid_type''"]
      by (cases "Kind message") (auto simp: ws_frame_def keeps_def labels_ok_steps)
  qed
qed

lemma ws_loop_keeps:
  assumes "unique_ids e" and "world_ok e (sv_world s)"
  shows "\<exists>s'. ws_loop f64 e roomID peerID conn evs s = Some s' \<and> keeps e s s'"
  using assms
proof (induction f64 e roomID peerID conn evs s rule: ws_loop.induct)
  case (1 f64 e roomID peerID conn s)
  then show ?case by (simp add: keeps_def)
next
  case (2 f64 e roomID peerID conn tooBig evs s)
  then show ?case by (simp add: keeps_def labels_ok_steps)
next
  case (3 f64 e roomID peerID conn op evs s)
  obtain w where w: "serve e op (sv_world s) = Some w" "world_ok e w"
    using serve_ok [OF 3(3,2)] by blast
  then show ?case using 3(1) [OF w(1) 3(2)] by (auto simp: keeps_def)
next
  case (4 f64 e roomID peerID conn ty raw evs s)
  obtain ends s' where f: "ws_frame f64 e roomID peerID conn ty raw s = Some (ends, s')" "keeps e s s'"
    using ws_frame_keeps [OF 4(3)] by blast
  show ?case
    using f 4(1) [OF f(1) refl _ 4(2)] keeps_trans [OF f(2)] by (cases ends) (auto simp: keeps_def)
qed

lemma count_rooms_keeps: "world_ok e (sv_world s) \<Longrightarrow> keeps e s (count_rooms e s)"
  using runs_world_ok [OF count_runs(1)] by (auto simp: keeps_def count_rooms_def split_beta labels_ok_steps)

text \<open>Who is in a room only shrinks when somebody leaves and when rooms are counted.\<close>

lemma ws_finish_outcome:
  assumes "world_ok e (sv_world s)"
  shows "\<exists>s'. ws_finish e roomID peerID conn s = Some s' \<and> world_ok e (sv_world s')
    \<and> mt_activeConnections (sv_metrics s') = mt_activeConnections (sv_metrics s) - 1
    \<and> (labels_ok (sv_metrics s) \<longrightarrow> labels_ok (sv_metrics s'))
    \<and> peerID \<notin> members (mgr (sv_world s')) roomID \<and> last (evlog (sv_world s')) = Closed conn 1000 []"
proof -
  have ok: "manager_ok (mgr (sv_world s))" using assms by (simp add: world_ok_def)
  obtain r w where l: "Leave leave_fuel e roomID peerID False (sv_world s) = Some (r, w)"
    using Leave_returns [OF ok peers_in_bound [OF ok]] by blast
  let ?s1 = "map_metrics (AddConnection (-1)) (s\<lparr>sv_world := w\<rparr>)"
  let ?s2 = "count_rooms e ?s1"
  have okw: "world_ok e w" using runs_world_ok [OF Leave_runs [OF l] assms] .
  have k: "keeps e ?s1 ?s2" using count_rooms_keeps okw by simp
  have w2: "sv_world ?s2 = snd (RoomCount e w)" by (simp add: count_rooms_def split_beta)
  have okm: "manager_ok (mgr w)" using okw by (simp add: world_ok_def)
  have "members (mgr (sv_world ?s2)) roomID \<subseteq> members (mgr w) roomID"
    using runs_ok(2) [OF count_runs(1) okm] w2 by (simp add: shrinks_def)
  then have "peerID \<notin> members (mgr (sv_world ?s2)) roomID" using Leave_removes [OF l ok] by blast
  then show ?thesis
    using l k by (auto simp: ws_finish_def keeps_def labels_ok_steps)
qed

section \<open>Properties\<close>

text \<open>
  C36 (transport.go:260-328, websocket). A WebSocket session always returns, whatever frames
  arrive, whatever other goroutines do between two reads and whichever sends fail. When it
  is over the connection has been closed, the peer it joined as is no member of the room,
  the connection gauge is back where it was, the manager's invariant holds and every
  rejected frame was counted under one of the fixed reasons.
\<close>

theorem websocket_cleans_up:
  assumes "world_ok e (sv_world s)" and "unique_ids e" and "labels_ok (sv_metrics s)"
  shows "\<exists>resp s'. websocket f64 e roomID accepted conn evs s = Some (resp, s') \<and> world_ok e (sv_world s')
    \<and> mt_activeConnections (sv_metrics s') = mt_activeConnections (sv_metrics s) \<and> labels_ok (sv_metrics s')
    \<and> (resp = None \<and> accepted \<longrightarrow> (\<exists>code reason. last (evlog (sv_world s')) = Closed conn code reason))
    \<and> (\<forall>peerID w. resp = None \<and> accepted \<and> Join e roomID conn (sv_world s) = Some (Inr peerID, w) \<longrightarrow>
         peerID \<notin> members (mgr (sv_world s')) roomID)"
proof (cases "length roomID = 0 \<or> length roomID > roomIDMaxLength \<or> \<not> accepted")
  case True
  then show ?thesis using assms by (auto simp: websocket_def)
next
  case False
  obtain r w where j: "Join e roomID conn (sv_world s) = Some (r, w)" "world_ok e w"
    using Join_world_ok [OF assms(1,2)] by blast
  show ?thesis
  proof (cases r)
    case (Inl err)
    let ?s = "s\<lparr>sv_world := w\<rparr>"
    have "keeps e ?s (tell_peer e conn event (map_metrics (RejectFrame (roomErrorReason err)) ?s))" for event
      using tell_peer_keeps j(2) by simp
    then show ?thesis
      using False j Inl assms(3) by (auto simp: websocket_def Let_def keeps_def labels_ok_steps)
  next
    case (Inr peerID)
    let ?s1 = "map_metrics (AddConnection 1) (s\<lparr>sv_world := w\<rparr>)"
    let ?s2 = "count_rooms e ?s1"
    have k2: "keeps e ?s1 ?s2" using count_rooms_keeps j(2) by simp
    then have w2: "world_ok e (sv_world ?s2)" by (simp add: keeps_def)
    obtain s3 where s3: "ws_loop f64 e roomID peerID conn evs ?s2 = Some s3" "keeps e ?s2 s3"
      using ws_loop_keeps [OF assms(2) w2] by blast
    have k3: "keeps e ?s1 s3" using keeps_trans [OF k2 s3(2)] .
    have "world_ok e (sv_world s3)" using k3 by (simp add: keeps_def)
    from ws_finish_outcome [OF this, of roomID peerID conn] show ?thesis
      using False j Inr s3(1) k3 assms(3) by (auto simp: websocket_def keeps_def labels_ok_steps)
  qed
qed

definition demo_config :: P2PConfig where
  "demo_config = \<lparr>cfg_Host = [], cfg_Port = 0, cfg_PublicBaseURL = [], cfg_TrustProxy = False, cfg_AppVersion = [],
     cfg_RoomTTL = 0, cfg_EmptyRoomGrace = 0, cfg_MaxFrameBytes = 0, cfg_STUNURLs = [], cfg_TURNURLs = [''turn:t''],
     cfg_TURNSharedSecret = [], cfg_TURNTTL = 0, cfg_TURNUsername = ''u'', cfg_TURNCredential = ''c''\<rparr>"

definition demo_server :: server where
  "demo_server = \<lparr>sv_config = demo_config, sv_world = fresh_world demo_options, sv_metrics = NewMetrics\<rparr>"

text \<open>A server on which a room was created; a peer joins it, an unrelated room appears, and the peer says that it leaves.\<close>

definition room_server :: server where
  "room_server = demo_server\<lparr>sv_world := snd (Create demo_env ''https://lane.example'' (fresh_world demo_options))\<rparr>"

theorem websocket_cleans_up_witness:
  "\<exists>w s' code reason. Join demo_env ''room-1'' 7 (sv_world room_server) = Some (Inr ''peer-3'', w)
    \<and> websocket Some demo_env ''room-1'' True 7 [Meanwhile (OpCreate ''https://lane.example''), Frame 1 leave_frame] room_server = Some (None, s')
    \<and> last (evlog (sv_world s')) = Closed 7 code reason \<and> ''peer-3'' \<notin> members (mgr (sv_world s')) ''room-1''
    \<and> mt_activeConnections (sv_metrics s') = 0"
proof -
  let ?evs = "[Meanwhile (OpCreate ''https://lane.example''), Frame 1 leave_frame]"
  have w: "world_ok demo_env (sv_world room_server)"
    using serve_ok [OF fresh_world_ok demo_env_unique, where x = "OpCreate ''https://lane.example''"] by (simp add: room_server_def)
  have l: "labels_ok (sv_metrics room_server)" by (simp add: room_server_def demo_server_def NewMetrics_def labels_ok_def)
  have id: "newPeerID demo_env (tick (sv_world room_server) + 1) = Some ''peer-3''" by code_simp
  have "joinable demo_env ''room-1'' (sv_world room_server) \<noteq> None" by code_simp
  then obtain w1 where join: "Join demo_env ''room-1'' 7 (sv_world room_server) = Some (Inr ''peer-3'', w1)"
    using Join_outcome [OF w demo_env_unique _ id, of "''room-1''" 7] by (auto simp: demo_env_def)
  obtain resp s' where run: "websocket Some demo_env ''room-1'' True 7 ?evs room_server = Some (resp, s')"
    and ends: "resp = None \<and> True \<longrightarrow> (\<exists>code reason. last (evlog (sv_world s')) = Closed 7 code reason)"
      "\<forall>peerID w. resp = None \<and> True \<and> Join demo_env ''room-1'' 7 (sv_world room_server) = Some (Inr peerID, w) \<longrightarrow>
         peerID \<notin> members (mgr (sv_world s')) ''room-1''"
      "mt_activeConnections (sv_metrics s') = mt_activeConnections (sv_metrics room_server)"
    using websocket_cleans_up [OF w demo_env_unique l, of Some "''room-1''" True 7 ?evs] by (elim exE conjE) (rule that)
  have "resp = None"
    using run unfolding websocket_def join by (auto simp: roomIDMaxLength_def split: option.split_asm)
  then show ?thesis
    using run ends join by (auto simp: room_server_def demo_server_def NewMetrics_def)
qed

definition createRoom_accepts :: "(rune \<Rightarrow> rune) \<Rightarrow> (rat \<Rightarrow> rat option) \<Rightarrow> request \<Rightarrow> bool" where
  "createRoom_accepts ulow f64 r \<longleftrightarrow>
     HasPrefix (ToLower ulow (TrimSpace (rq_contentType r))) ''application/json''
     \<and> rq_contentLength r \<le> 1048576 \<and> length (rq_body r) \<le> 1048576 \<and> \<not> rq_bodyError r
     \<and> (\<exists>ms v. json_text (rq_body r) = Some (JObj ms) \<and> map_of (rev ms) ''maxPeers'' = Some (JNum v)
          \<and> f64 (literal_value v) = Some 2)"

lemma body_maxPeers_two:
  "body_maxPeers f64 v = Some 2 \<longleftrightarrow>
     (\<exists>ms l. v = JObj ms \<and> map_of (rev ms) ''maxPeers'' = Some (JNum l) \<and> f64 (literal_value l) = Some 2)"
proof (cases v)
  case (JObj ms)
  show ?thesis
  proof (cases "map_of (rev ms) ''maxPeers''")
    case (Some x)
    then show ?thesis using JObj by (cases x) (auto simp: body_maxPeers_def assign_float_def)
  qed (simp add: JObj body_maxPeers_def)
qed (simp_all add: body_maxPeers_def)

lemma json_text_nonempty: "json_text [] = None"
  by code_simp

text \<open>
  A room is created only for a JSON body of at most
  one megabyte whose \<open>maxPeers\<close> is the number two; every other request is answered with 400
  or 413 and leaves the server untouched. A created room is answered with 201 and its JSON,
  under the configured base URL, or the one of the request when none is configured; a full or closed manager answers
  503 or 500.
\<close>

theorem createRoom_outcome:
  fixes s :: server and r :: request
  defines "base \<equiv> if cfg_PublicBaseURL (sv_config s) = [] then requestBaseURL r (cfg_TrustProxy (sv_config s))
    else cfg_PublicBaseURL (sv_config s)"
  shows "if createRoom_accepts ulow f64 r then
      (case Create e base (sv_world s) of
         (Inr room, w) \<Rightarrow> createRoom ulow f64 e r s =
           (writeJSON 201 (CreatedRoom_json room), count_rooms e (s\<lparr>sv_world := w\<rparr>))
       | (Inl err, w) \<Rightarrow> snd (createRoom ulow f64 e r s) = s\<lparr>sv_world := w\<rparr>
           \<and> resp_status (fst (createRoom ulow f64 e r s)) = (if err = ErrRoomLimit then 503 else 500))
    else snd (createRoom ulow f64 e r s) = s \<and> resp_status (fst (createRoom ulow f64 e r s)) \<in> {400, 413}"
proof -
  have st: "resp_status wrongPeers = 400" "resp_status bodyTooLarge = 413" "resp_status bodyInvalid = 400"
    "resp_status bodyEmpty = 400"
    by (simp_all add: wrongPeers_def bodyTooLarge_def bodyInvalid_def bodyEmpty_def writeParserError_def writeError_def writeJSON_def)
  show ?thesis
  proof (cases "createRoom_accepts ulow f64 r")
    case True
    then obtain body where body: "json_text (rq_body r) = Some body" "body_maxPeers f64 body = Some 2"
      by (auto simp: createRoom_accepts_def body_maxPeers_two)
    have "rq_body r \<noteq> []" using body(1) json_text_nonempty by auto
    then have "createRoom ulow f64 e r s =
        (case Create e base (sv_world s) of
           (Inl err, w) \<Rightarrow> (if err = ErrRoomLimit then writeError 503 ''room capacity unavailable''
              else writeError 500 ''room unavailable'', s\<lparr>sv_world := w\<rparr>)
         | (Inr room, w) \<Rightarrow> (writeJSON 201 (CreatedRoom_json room), count_rooms e (s\<lparr>sv_world := w\<rparr>)))"
      using True body
      by (simp add: createRoom_def createRoom_accepts_def createRoomBodyLimit_def MaxRoomPeers_def base_def Let_def)
    then show ?thesis using True by (auto simp: writeError_def writeJSON_def split: prod.split sum.split)
  next
    case False
    then have "\<not> HasPrefix (ToLower ulow (TrimSpace (rq_contentType r))) ''application/json''
      \<or> rq_contentLength r > 1048576 \<or> length (rq_body r) > 1048576 \<or> rq_bodyError r
      \<or> json_text (rq_body r) = None \<or> (\<exists>v. json_text (rq_body r) = Some v \<and> body_maxPeers f64 v \<noteq> Some 2)"
      unfolding createRoom_accepts_def body_maxPeers_two by (cases "json_text (rq_body r)") auto
    then show ?thesis
      using False st by (auto simp: createRoom_def createRoomBodyLimit_def MaxRoomPeers_def)
  qed
qed

lemma host_escape_safe: "c \<in> set (host_escape s) \<Longrightarrow> c \<notin> set ''/?#@ ''"
proof -
  assume c: "c \<in> set (host_escape s)"
  have u: "c \<notin> set ''/?#@ ''" if "host_unreserved c" for c
    using that by (auto simp: host_unreserved_def Let_def)
  have h: "upper_hex k \<notin> set ''/?#@ ''" if "k < 16" for k
  proof -
    have "list_all (\<lambda>k. upper_hex k \<notin> set ''/?#@ '') [0..<16]" by code_simp
    then show ?thesis using that by (simp add: list_all_iff)
  qed
  have "byte_of c div 16 < 16" "byte_of c mod 16 < 16" for c using byte_of_less [of c] by (simp_all add: less_mult_imp_div_less)
  then have hex: "upper_hex (byte_of x div 16) \<notin> set ''/?#@ ''" "upper_hex (byte_of x mod 16) \<notin> set ''/?#@ ''" for x
    using h by blast+
  obtain x where "host_unreserved x \<and> c = x \<or> c \<in> {CHR ''%'', upper_hex (byte_of x div 16), upper_hex (byte_of x mod 16)}"
    using c by (auto simp: host_escape_def split: if_split_asm)
  then consider "host_unreserved c" | "c = CHR ''%''" | "c = upper_hex (byte_of x div 16)" | "c = upper_hex (byte_of x mod 16)"
    by blast
  then show ?thesis
  proof cases
    case 2
    then show ?thesis by simp
  qed (use u hex in blast)+
qed

text \<open>
  The base URL an invite link starts with is
  always \<open>http://\<close> or \<open>https://\<close> and a host of bytes that cannot end the authority; the
  forwarding header matters only when the proxy is trusted, and then only when it names one of the two schemes.
\<close>

theorem requestBaseURL_origin:
  "\<exists>scheme host. requestBaseURL r trustProxy = scheme @ ''://'' @ host \<and> host \<noteq> []
    \<and> (scheme = ''http'' \<or> scheme = ''https'') \<and> (\<forall>c \<in> set host. c \<notin> set ''/?#@ '')
    \<and> scheme =
        (let forwarded = TrimSpace (split_at (CHR '','') (rq_forwardedProto r) ! 0) in
         if trustProxy \<and> forwarded \<in> {''http'', ''https''} then forwarded
         else if rq_tls r then ''https'' else ''http'')"
proof -
  define forwarded where "forwarded = TrimSpace (split_at (CHR '','') (rq_forwardedProto r) ! 0)"
  define scheme where "scheme =
    (if trustProxy \<and> forwarded \<in> {''http'', ''https''} then forwarded else if rq_tls r then ''https'' else ''http'')"
  have "TrimSpace (split_at (CHR '','') [] ! 0) \<notin> {''http'', ''https''}" by code_simp
  then have empty: "rq_forwardedProto r = [] \<longrightarrow> forwarded \<notin> {''http'', ''https''}" by (auto simp: forwarded_def)
  let ?host = "host_escape (if rq_host r = [] then ''127.0.0.1'' else rq_host r)"
  have "host_escape (c # t) \<noteq> []" for c t by (simp add: host_escape_def)
  then have ne: "?host \<noteq> []" by (cases "rq_host r") simp_all
  have "requestBaseURL r trustProxy = scheme @ ''://'' @ ?host"
    using empty by (auto simp: requestBaseURL_def Let_def forwarded_def [symmetric] scheme_def)
  moreover have "scheme = ''http'' \<or> scheme = ''https''" by (auto simp: scheme_def)
  ultimately show ?thesis
    using host_escape_safe ne unfolding scheme_def forwarded_def Let_def by blast
qed

theorem requestBaseURL_origin_witness:
  "\<exists>host. requestBaseURL \<lparr>rq_contentType = [], rq_contentLength = 0, rq_body = [], rq_bodyError = False, rq_tls = False,
      rq_forwardedProto = ''https, http'', rq_host = ''lane.example''\<rparr> True = ''https'' @ ''://'' @ host \<and> host \<noteq> []"
proof -
  let ?r = "\<lparr>rq_contentType = [], rq_contentLength = 0, rq_body = [], rq_bodyError = False, rq_tls = False,
      rq_forwardedProto = ''https, http'', rq_host = ''lane.example''\<rparr>"
  have "TrimSpace (split_at (CHR '','') ''https, http'' ! 0) = ''https''" by code_simp
  then show ?thesis using requestBaseURL_origin [of ?r True] by (auto simp: Let_def)
qed

lemma StdEncoding_20: "length s = 20 \<Longrightarrow> length (StdEncoding s) = 28"
proof -
  have "length (base64 alpha [p] s) = 4 * ((length s + 2) div 3)" for alpha p s
  proof (induction alpha "[p]" s rule: base64.induct)
    case (4 alpha a b c rest)
    have "(length (a # b # c # rest) + 2) div 3 = Suc ((length rest + 2) div 3)" by simp
    then show ?case using 4 by (simp add: Let_def)
  qed (simp_all add: Let_def)
  then show "length s = 20 \<Longrightarrow> length (StdEncoding s) = 28" by (simp add: StdEncoding_def)
qed

lemma turn_credential_length: "length (snd (makeTURNCredential secret ttl now)) = 28"
proof -
  have "length (hmac_sha1 k m) = 20" for k m by (simp add: hmac_sha1_def Let_def sha1_length)
  then show ?thesis by (simp add: makeTURNCredential_def Let_def StdEncoding_20)
qed

text \<open>
  A TURN server is offered only with trimmed non-empty
  URLs, a user name and a credential, at most once and last; with a shared secret the user
  name is the expiry second followed by \<open>:duallane\<close>, at most the configured time away, and the
  credential is 28 characters long and made from the secret and the user name only; without
  one both are the configured pair. STUN servers never carry a credential.
\<close>

theorem ice_servers_credentials:
  fixes cfg :: P2PConfig and now :: time
  defines "turn \<equiv> filter (\<lambda>i. ice_username i \<noteq> [] \<or> ice_credential i \<noteq> []) (ice_list cfg now)"
  shows "(\<exists>stun. ice_list cfg now = stun @ turn \<and> length turn \<le> 1
        \<and> (\<forall>i \<in> set stun. \<exists>u. u \<in> set (cfg_STUNURLs cfg) \<and> TrimSpace u \<noteq> [] \<and> ice_urls i = JStr u))
    \<and> (\<forall>i \<in> set turn.
         ice_urls i = JArr (map JStr (map TrimSpace (filter (\<lambda>u. TrimSpace u \<noteq> []) (cfg_TURNURLs cfg))))
         \<and> (\<exists>u \<in> set (cfg_TURNURLs cfg). TrimSpace u \<noteq> [])
         \<and> (if cfg_TURNSharedSecret cfg = [] then
              ice_username i = cfg_TURNUsername cfg \<and> ice_credential i = cfg_TURNCredential cfg
            else
              ice_username i = itoa (Unix now + (if cfg_TURNTTL cfg \<le> 0 then 600 else cfg_TURNTTL cfg div Second)) @ '':duallane''
              \<and> ice_credential i = StdEncoding (hmac_sha1 (cfg_TURNSharedSecret cfg) (ice_username i))
              \<and> length (ice_credential i) = 28)
         \<and> ice_username i \<noteq> [] \<and> ice_credential i \<noteq> [])"
proof -
  let ?stun = "map (\<lambda>u. \<lparr>ice_urls = JStr u, ice_username = [], ice_credential = []\<rparr>)
    (filter (\<lambda>u. TrimSpace u \<noteq> []) (cfg_STUNURLs cfg))"
  let ?urls = "map TrimSpace (filter (\<lambda>u. TrimSpace u \<noteq> []) (cfg_TURNURLs cfg))"
  obtain user cred where uc: "(user, cred) =
      (if cfg_TURNSharedSecret cfg \<noteq> [] then makeTURNCredential (cfg_TURNSharedSecret cfg) (cfg_TURNTTL cfg) now
       else if cfg_TURNUsername cfg \<noteq> [] \<and> cfg_TURNCredential cfg \<noteq> [] then (cfg_TURNUsername cfg, cfg_TURNCredential cfg)
       else ([], []))"
    by (metis surj_pair)
  let ?turn = "if ?urls = [] \<or> user = [] \<or> cred = [] then []
    else [\<lparr>ice_urls = JArr (map JStr ?urls), ice_username = user, ice_credential = cred\<rparr>]"
  have il: "ice_list cfg now = ?stun @ ?turn"
    unfolding ice_list_def Let_def uc [symmetric] by (cases "?urls = []") auto
  have none: "filter (\<lambda>i. ice_username i \<noteq> [] \<or> ice_credential i \<noteq> []) ?stun = []"
    by (simp add: filter_empty_conv)
  have t: "turn = ?turn" unfolding turn_def il filter_append none by auto
  have stun: "\<forall>i \<in> set ?stun. \<exists>u. u \<in> set (cfg_STUNURLs cfg) \<and> TrimSpace u \<noteq> [] \<and> ice_urls i = JStr u" by auto
  have u10: "10 * Minute div Second = 600" by (simp add: Minute_def Second_def)
  have ident: "if cfg_TURNSharedSecret cfg = [] then user = [] \<or> user = cfg_TURNUsername cfg \<and> cred = cfg_TURNCredential cfg
      else user = itoa (Unix now + (if cfg_TURNTTL cfg \<le> 0 then 600 else cfg_TURNTTL cfg div Second)) @ '':duallane''
        \<and> cred = StdEncoding (hmac_sha1 (cfg_TURNSharedSecret cfg) user) \<and> length cred = 28"
    using uc turn_credential_length [of "cfg_TURNSharedSecret cfg" "cfg_TURNTTL cfg" now] u10
    by (auto simp: makeTURNCredential_def Let_def split: if_split_asm)
  have "\<exists>u \<in> set (cfg_TURNURLs cfg). TrimSpace u \<noteq> []" if "?urls \<noteq> []"
    using that by (auto simp: filter_empty_conv)
  then show ?thesis
    using il stun ident unfolding t by (intro conjI exI [of _ ?stun]) auto
qed

lemma demo_turn: "cfg_TURNSharedSecret demo_config = []" "cfg_TURNCredential demo_config = ''c''"
  by (simp_all add: demo_config_def)

theorem ice_servers_credentials_witness:
  "ice_username (ice_list demo_config 0 ! 0) = ''u'' \<and> ice_credential (ice_list demo_config 0 ! 0) = ''c''"
proof -
  let ?turn = "filter (\<lambda>i. ice_username i \<noteq> [] \<or> ice_credential i \<noteq> []) (ice_list demo_config 0)"
  have "map ice_username (ice_list demo_config 0) = [''u'']" by code_simp
  then obtain i where i: "ice_list demo_config 0 = [i]" "ice_username i = ''u''" by auto
  have "i \<in> set ?turn" unfolding i(1) using i(2) by simp
  from bspec [OF conjunct2 [OF ice_servers_credentials [of demo_config 0]] this]
  have "ice_username i = cfg_TURNUsername demo_config \<and> ice_credential i = cfg_TURNCredential demo_config"
    unfolding demo_turn(1) by (simp only: simp_thms if_True)
  then have "ice_credential i = ''c''" by (simp add: demo_turn(2))
  then show ?thesis using i by simp
qed

text \<open>
  (rooms.go:695-701 makeRoomID, 251 Create). A generated room id has 22 characters of the
  URL-safe alphabet, so the handlers accept it and the invite link carries it unescaped.
\<close>

theorem makeRoomID_link_safe:
  assumes "length raw = 16"
  shows "length (makeRoomID raw) = 22 \<and> isSafeBase64URL (makeRoomID raw) \<and> length (makeRoomID raw) \<le> roomIDMaxLength
    \<and> PathEscape (makeRoomID raw) = makeRoomID raw"
proof -
  have len: "length (makeRoomID raw) = 22"
    using assms by (simp add: makeRoomID_def RawURLEncoding_def base64_length_raw)
  have sub: "set (makeRoomID raw) \<subseteq> set url_alphabet"
    using base64_set [of url_alphabet "[]" raw] by (simp add: makeRoomID_def RawURLEncoding_def url_alphabet_def)
  have al: "list_all base64url_char url_alphabet" "list_all path_unreserved url_alphabet" by code_simp+
  have esc: "PathEscape s = s" if "\<forall>c \<in> set s. path_unreserved c" for s
    using that by (induction s) (auto simp: PathEscape_def)
  have "\<forall>c \<in> set (makeRoomID raw). base64url_char c" "\<forall>c \<in> set (makeRoomID raw). path_unreserved c"
    using sub al by (auto simp: list_all_iff)
  then show ?thesis
    using len esc by (simp add: isSafeBase64URL_def list_all_iff MaxEnvelopeValueBytes_def roomIDMaxLength_def)
qed

theorem makeRoomID_link_safe_witness:
  "length (makeRoomID (replicate 16 (CHR ''x''))) = 22"
  using makeRoomID_link_safe [of "replicate 16 (CHR ''x'')"] by simp

end
