(* ===== verification/Go_Any.thy ===== *)
theory Go_Any
  imports Go_Json Prelude
begin

text \<open>
  Go's \<open>any\<close> as far as the program stores in it: the values \<open>encoding/json\<close> decodes into
  \<open>any\<close> (a number is a \<open>float64\<close>, here the rational it denotes), the integers and string
  pointers the program puts there itself, and maps with string keys.
\<close>

datatype any = ANil | ABool bool | AFloat rat | AInt int | AInt64 int | AStr string | APtr "string option"
  | AArr "any list" | AMap "(string \<times> any) list"

type_synonym payload = "(string, any) gomap"

section \<open>Decoding\<close>

text \<open>A number the float64 range does not hold makes the whole decoding fail; of equal keys the last counts.\<close>

fun any_of_json :: "(rat \<Rightarrow> rat option) \<Rightarrow> json \<Rightarrow> any option"
  and any_elems :: "(rat \<Rightarrow> rat option) \<Rightarrow> json list \<Rightarrow> any list option"
  and any_members :: "(rat \<Rightarrow> rat option) \<Rightarrow> (string \<times> json) list \<Rightarrow> payload \<Rightarrow> payload option"
where
  "any_of_json f64 JNull = Some ANil"
| "any_of_json f64 (JBool b) = Some (ABool b)"
| "any_of_json f64 (JNum l) = map_option AFloat (f64 (literal_value l))"
| "any_of_json f64 (JStr s) = Some (AStr s)"
| "any_of_json f64 (JArr vs) = map_option AArr (any_elems f64 vs)"
| "any_of_json f64 (JObj ms) = map_option AMap (any_members f64 ms [])"
| "any_elems f64 [] = Some []"
| "any_elems f64 (v # vs) =
    (case any_of_json f64 v of None \<Rightarrow> None | Some a \<Rightarrow> map_option (\<lambda>as. a # as) (any_elems f64 vs))"
| "any_members f64 [] acc = Some acc"
| "any_members f64 ((k, v) # ms) acc =
    (case any_of_json f64 v of None \<Rightarrow> None | Some a \<Rightarrow> any_members f64 ms (gm_put k a acc))"

section \<open>strconv.ParseInt(s, 10, 64)\<close>

definition parse_digits :: "string \<Rightarrow> nat option" where
  "parse_digits s = (if s \<noteq> [] \<and> list_all is_digit s then Some (atoi_acc 0 s) else None)"

definition ParseInt64 :: "string \<Rightarrow> int option" where
  "ParseInt64 s =
    (case s of
       [] \<Rightarrow> None
     | c # rest \<Rightarrow>
         if c = CHR ''-'' then
           Option.bind (parse_digits rest) (\<lambda>n. if int n \<le> 2 ^ 63 then Some (- int n) else None)
         else
           Option.bind (parse_digits (if c = CHR ''+'' then rest else s))
             (\<lambda>n. if int n < 2 ^ 63 then Some (int n) else None))"

lemma ParseInt64_range: "ParseInt64 s = Some i \<Longrightarrow> - (2 ^ 63) \<le> i \<and> i < 2 ^ 63"
  by (auto simp: ParseInt64_def Option.bind_eq_Some_conv split: list.split_asm if_split_asm)

lemma ParseInt64_itoa:
  assumes "n < 2 ^ 63"
  shows "ParseInt64 (itoa_nat n) = Some (int n)"
proof -
  obtain c rest where cr: "itoa_nat n = c # rest" using itoa_nat_nonempty [of n] by (cases "itoa_nat n") auto
  have d: "list_all is_digit (itoa_nat n)" using itoa_nat_digits by (simp add: list_all_iff)
  then have "is_digit c" by (simp add: cr)
  then have "c \<noteq> CHR ''-''" "c \<noteq> CHR ''+''" by (auto simp: is_digit_def)
  moreover have "parse_digits (itoa_nat n) = Some n"
    using d itoa_nat_nonempty [of n] by (simp add: parse_digits_def atoi_itoa_nat)
  ultimately show ?thesis using cr assms by (auto simp: ParseInt64_def)
qed

section \<open>Schemas\<close>

text \<open>
  What may occur in a value: every key of an object is one of the schema, with a value of
  the key's schema. Objects need not have all keys.
\<close>

datatype schema = SStr | SInt | SBool | SNull schema | SArr schema | SObj "(string \<times> schema) list"

fun conforms :: "schema \<Rightarrow> any \<Rightarrow> bool" where
  "conforms SStr v = (case v of AStr _ \<Rightarrow> True | _ \<Rightarrow> False)"
| "conforms SInt v = (case v of AInt _ \<Rightarrow> True | AInt64 _ \<Rightarrow> True | _ \<Rightarrow> False)"
| "conforms SBool v = (case v of ABool _ \<Rightarrow> True | _ \<Rightarrow> False)"
| "conforms (SNull s) v = (v = ANil \<or> conforms s v)"
| "conforms (SArr s) v = (case v of AArr vs \<Rightarrow> list_all (conforms s) vs | _ \<Rightarrow> False)"
| "conforms (SObj fields) v =
    (case v of
       AMap ms \<Rightarrow> list_all (\<lambda>(k, x). case map_of fields k of None \<Rightarrow> False | Some s \<Rightarrow> conforms s x) ms
     | _ \<Rightarrow> False)"

lemma conforms_obj_iff:
  "conforms (SObj fields) (AMap ms) \<longleftrightarrow> (\<forall>(k, x) \<in> set ms. \<exists>s. map_of fields k = Some s \<and> conforms s x)"
  by (auto simp: list_all_iff split: option.split)

lemma conforms_put:
  assumes "conforms (SObj fields) (AMap ms)" and "map_of fields k = Some s" and "conforms s x"
  shows "conforms (SObj fields) (AMap (gm_put k x ms))"
proof -
  have "set (gm_put k x ms) \<subseteq> insert (k, x) (set ms)" by (induction k x ms rule: gm_put.induct) auto
  then show ?thesis using assms unfolding conforms_obj_iff by blast
qed

lemma conforms_del: "conforms (SObj fields) (AMap ms) \<Longrightarrow> conforms (SObj fields) (AMap (gm_del k ms))"
  unfolding conforms_obj_iff by (auto simp: gm_del_def)

lemma conforms_empty: "conforms (SObj fields) (AMap [])"
  by simp

end
