(* ===== verification/Cards_Block.thy ===== *)
theory Cards_Block
  imports Go_Json Prelude
begin

text \<open>
  cards/registry.go, the part that normalises the card reference kept in a message: its
  identifier, type, version and fallback text.
\<close>

record CardBlock =
  cb_Type :: string
  cb_CardID :: string
  cb_CardType :: string
  cb_SchemaVersion :: int
  cb_FallbackText :: string

datatype CardValidationError = CardValidationError (cv_Code: string) (cv_Message: string)

definition MaxPayloadTextBytes :: nat where
  "MaxPayloadTextBytes = 16 * 1024"

definition CardBlockType :: string where
  "CardBlockType = ''card''"

section \<open>The patterns\<close>

definition is_upper :: "char \<Rightarrow> bool" where "is_upper c \<longleftrightarrow> 0x41 \<le> byte_of c \<and> byte_of c \<le> 0x5A"
definition is_lower :: "char \<Rightarrow> bool" where "is_lower c \<longleftrightarrow> 0x61 \<le> byte_of c \<and> byte_of c \<le> 0x7A"

definition identifierPattern :: "string \<Rightarrow> bool" where
  "identifierPattern s \<longleftrightarrow>
     (case s of
        [] \<Rightarrow> False
      | c # rest \<Rightarrow> (is_upper c \<or> is_lower c \<or> is_digit c) \<and> length rest \<le> 127
          \<and> list_all (\<lambda>d. is_upper d \<or> is_lower d \<or> is_digit d \<or> d \<in> set ''._:-'') rest)"

definition cardTypePattern :: "string \<Rightarrow> bool" where
  "cardTypePattern s \<longleftrightarrow>
     (case s of
        [] \<Rightarrow> False
      | c # rest \<Rightarrow> is_lower c \<and> length rest \<le> 127
          \<and> list_all (\<lambda>d. is_lower d \<or> is_digit d \<or> d \<in> set ''._-'') rest)"

text \<open>
  \<open>(?i)</?[a-z][^>]*>\<close> somewhere in the text: folding adds the long s and the Kelvin sign to
  the letters.
\<close>

definition folded_letter :: "rune \<Rightarrow> bool" where
  "folded_letter r \<longleftrightarrow> (0x41 \<le> r \<and> r \<le> 0x5A) \<or> (0x61 \<le> r \<and> r \<le> 0x7A) \<or> r = 0x17F \<or> r = 0x212A"

definition tag_after :: "rune list \<Rightarrow> bool" where
  "tag_after rs = (case rs of [] \<Rightarrow> False | r # t \<Rightarrow> folded_letter r \<and> 0x3E \<in> set t)"

fun html_in :: "rune list \<Rightarrow> bool" where
  "html_in [] = False"
| "html_in (r # rs) =
    ((r = 0x3C \<and> (tag_after rs \<or> (case rs of [] \<Rightarrow> False | x # t \<Rightarrow> x = 0x2F \<and> tag_after t))) \<or> html_in rs)"

definition htmlPattern :: "string \<Rightarrow> bool" where
  "htmlPattern s = html_in (map fst (runes s))"

section \<open>Normalising\<close>

definition NormalizeIdentifier :: "string \<Rightarrow> string \<Rightarrow> string \<Rightarrow> (CardValidationError, string) result" where
  "NormalizeIdentifier value code message =
    (let normalized = TrimSpace value in
     if \<not> identifierPattern normalized then Inl (CardValidationError code message) else Inr normalized)"

definition NormalizeCardType :: "(rune \<Rightarrow> rune) \<Rightarrow> string \<Rightarrow> (CardValidationError, string) result" where
  "NormalizeCardType ulow value =
    (let normalized = ToLower ulow (TrimSpace value) in
     if \<not> cardTypePattern normalized
     then Inl (CardValidationError ''card.invalid_type'' (utf8 [0x5361, 0x7247, 0x7C7B, 0x578B, 0x65E0, 0x6548]))
     else Inr normalized)"

definition NormalizeSchemaVersion :: "int \<Rightarrow> (CardValidationError, int) result" where
  "NormalizeSchemaVersion value =
    (if value < 1 \<or> value > 1000000
     then Inl (CardValidationError ''card.invalid_version'' (utf8 [0x5361, 0x7247, 0x7248, 0x672C, 0x65E0, 0x6548]))
     else Inr value)"

definition printable_rune :: "rune \<Rightarrow> bool" where
  "printable_rune r \<longleftrightarrow> \<not> ((r < 0x20 \<and> r \<noteq> 0x09 \<and> r \<noteq> 0x0A \<and> r \<noteq> 0x0D) \<or> r = 0x7F)"

text \<open>\<open>utf8.ValidString\<close>: no byte was decoded as an error.\<close>

definition ValidString :: "string \<Rightarrow> bool" where
  "ValidString s \<longleftrightarrow> list_all (\<lambda>(r, b). \<not> (r = RuneError \<and> length b = 1)) (runes s)"

definition NormalizeFallbackText :: "string \<Rightarrow> (CardValidationError, string) result" where
  "NormalizeFallbackText value0 =
    (let value = TrimSpace (utf8 (filter printable_rune (map fst (runes value0)))) in
     if value = [] \<or> \<not> ValidString value \<or> length value > MaxPayloadTextBytes \<or> htmlPattern value
     then Inl (CardValidationError ''card.invalid_fallback''
       (utf8 [0x5361, 0x7247, 0x964D, 0x7EA7, 0x6587, 0x672C, 0x65E0, 0x6548]))
     else Inr value)"

definition NormalizeCardBlock :: "(rune \<Rightarrow> rune) \<Rightarrow> CardBlock \<Rightarrow> (CardValidationError, CardBlock) result" where
  "NormalizeCardBlock ulow block =
    (if cb_Type block \<noteq> CardBlockType
     then Inl (CardValidationError ''card.invalid_block''
       (utf8 [0x5361, 0x7247, 0x6D88, 0x606F, 0x5757, 0x683C, 0x5F0F, 0x65E0, 0x6548]))
     else
       result_bind (NormalizeIdentifier (cb_CardID block) ''card.invalid_id'' (utf8 [0x5361, 0x7247] @ '' ID '' @ utf8 [0x65E0, 0x6548])) (\<lambda>cardID.
       result_bind (NormalizeCardType ulow (cb_CardType block)) (\<lambda>cardType.
       result_bind (NormalizeSchemaVersion (cb_SchemaVersion block)) (\<lambda>version.
       result_bind (NormalizeFallbackText (cb_FallbackText block)) (\<lambda>fallback.
         Inr \<lparr>cb_Type = CardBlockType, cb_CardID = cardID, cb_CardType = cardType, cb_SchemaVersion = version,
           cb_FallbackText = fallback\<rparr>)))))"

section \<open>Normalising again changes nothing\<close>

definition trimmed :: "('a \<Rightarrow> bool) \<Rightarrow> 'a list \<Rightarrow> 'a list" where
  "trimmed p xs = rev (dropWhile p (rev (dropWhile p xs)))"

lemma dropWhile_idem: "dropWhile p (dropWhile p xs) = dropWhile p xs"
  by (induction xs) auto

lemma trimmed_idem: "trimmed p (trimmed p xs) = trimmed p xs"
proof -
  let ?ys = "dropWhile p xs" and ?zs = "trimmed p xs"
  have pre: "\<exists>t. ?ys = ?zs @ t"
    by (metis trimmed_def rev_append rev_rev_ident takeWhile_dropWhile_id)
  have "dropWhile p ?zs = ?zs"
  proof (cases ?zs)
    case (Cons z zs)
    then obtain t where "?ys = z # zs @ t" using pre by auto
    then have "\<not> p z" by (metis dropWhile_eq_Cons_conv)
    then show ?thesis using Cons by simp
  qed simp
  then show ?thesis unfolding trimmed_def [of p "trimmed p xs"] by (simp add: trimmed_def dropWhile_idem)
qed

lemma trimmed_subset: "set (trimmed p xs) \<subseteq> set xs"
  by (auto simp: trimmed_def dest!: set_dropWhileD)

lemma trim_func_utf8:
  assumes "\<forall>r \<in> set rs. valid_rune r"
  shows "trim_func p (utf8 rs) = utf8 (trimmed p rs)"
proof -
  have dw: "dropWhile (p \<circ> fst) (map (\<lambda>r. (r, encode_rune r)) xs) = map (\<lambda>r. (r, encode_rune r)) (dropWhile p xs)" for xs
    by (simp add: dropWhile_map comp_def)
  have "trim_func p (utf8 rs) = concat (map snd (map (\<lambda>r. (r, encode_rune r)) (trimmed p rs)))"
    unfolding trim_func_def runes_utf8 [OF assms] dw trimmed_def by (simp only: rev_map dw)
  then show ?thesis by (simp add: utf8_def comp_def)
qed

text \<open>Every rune the decoder gives is one that can be encoded.\<close>

lemma three_bytes_valid:
  assumes "b0 < 0xF0" and "b0 = 0xED \<longrightarrow> b1 \<le> 0x9F" and "0x80 \<le> b1" "b1 \<le> 0xBF" "0x80 \<le> b2" "b2 \<le> 0xBF"
  shows "valid_rune ((b0 - 0xE0) * 4096 + (b1 - 0x80) * 64 + (b2 - 0x80))"
proof -
  consider "b0 < 0xED" | "b0 = 0xED" | "0xEE \<le> b0" by linarith
  then show ?thesis
    using assms by cases (simp_all add: valid_rune_def, linarith+)
qed

lemma four_bytes_valid:
  assumes "0xF0 \<le> b0" "b0 < 0xF5" and "b0 = 0xF0 \<longrightarrow> 0x90 \<le> b1" and "b0 = 0xF4 \<longrightarrow> b1 \<le> 0x8F"
    and "0x80 \<le> b1" "b1 \<le> 0xBF" "0x80 \<le> b2" "b2 \<le> 0xBF" "0x80 \<le> b3" "b3 \<le> 0xBF"
  shows "valid_rune ((b0 - 0xF0) * 262144 + (b1 - 0x80) * 4096 + (b2 - 0x80) * 64 + (b3 - 0x80))"
proof -
  consider "b0 = 0xF0" | "0xF1 \<le> b0" "b0 < 0xF4" | "b0 = 0xF4" using assms(1,2) by linarith
  then show ?thesis
    using assms by cases (simp_all add: valid_rune_def, linarith+)
qed

lemma decode_rune_valid: "valid_rune (fst (decode_rune s))"
proof (cases s)
  case (Cons c0 cs)
  have "valid_rune RuneError" by (simp add: valid_rune_def RuneError_def)
  moreover have "valid_rune (byte_of c0)" if "byte_of c0 < 0x80" using that by (simp add: valid_rune_def)
  moreover have "valid_rune ((b0 - 0xC0) * 64 + (b1 - 0x80))" if "b0 < 0xE0" "0x80 \<le> b1" "b1 \<le> 0xBF" for b0 b1
    using that unfolding valid_rune_def by linarith
  ultimately show ?thesis
    using three_bytes_valid four_bytes_valid
    by (simp add: Cons decode_rune.simps(2) Let_def is_cont_def split: list.split)
qed (simp add: valid_rune_def RuneError_def)

lemma runes_valid: "r \<in> fst ` set (runes s) \<Longrightarrow> valid_rune r"
  by (induction s rule: runes.induct) (auto simp: runes.simps(2) Let_def decode_rune_valid)

lemma NormalizeFallbackText_fixpoint:
  assumes "NormalizeFallbackText v = Inr w"
  shows "NormalizeFallbackText w = Inr w"
proof -
  let ?rs = "filter printable_rune (map fst (runes v))"
  have val: "\<forall>r \<in> set ?rs. valid_rune r" using runes_valid by force
  then have tv: "\<forall>r \<in> set (trimmed is_space ?rs). valid_rune r" using trimmed_subset by fastforce
  have w: "w = utf8 (trimmed is_space ?rs)"
    using assms by (simp add: NormalizeFallbackText_def TrimSpace_def trim_func_utf8 [OF val] Let_def split: if_split_asm)
  have "map fst (runes w) = trimmed is_space ?rs" by (simp add: w runes_utf8 [OF tv] comp_def)
  moreover have "filter printable_rune (trimmed is_space ?rs) = trimmed is_space ?rs"
    using trimmed_subset [of is_space ?rs] by (auto simp: filter_id_conv)
  ultimately have "TrimSpace (utf8 (filter printable_rune (map fst (runes w)))) = w"
    by (simp add: TrimSpace_def trim_func_utf8 [OF tv] trimmed_idem w)
  then show ?thesis using assms by (auto simp: NormalizeFallbackText_def Let_def split: if_split_asm)
qed

lemma pattern_ascii:
  "identifierPattern s \<Longrightarrow> is_ascii s \<and> (\<forall>c \<in> set s. \<not> is_space (byte_of c))"
  "cardTypePattern s \<Longrightarrow> is_ascii s \<and> (\<forall>c \<in> set s. \<not> is_space (byte_of c) \<and> ascii_lower (byte_of c) = byte_of c)"
proof -
  have id: "byte_of c < 0x80 \<and> \<not> is_space (byte_of c)" if "is_upper c \<or> is_lower c \<or> is_digit c \<or> c \<in> set ''._:-''" for c
    using that by (auto simp: is_upper_def is_lower_def is_digit_def is_space_def)
  have ty: "byte_of c < 0x80 \<and> \<not> is_space (byte_of c) \<and> ascii_lower (byte_of c) = byte_of c"
    if "is_lower c \<or> is_digit c \<or> c \<in> set ''._-''" for c
    using that by (auto simp: is_upper_def is_lower_def is_digit_def is_space_def ascii_lower_def)
  show "identifierPattern s \<Longrightarrow> is_ascii s \<and> (\<forall>c \<in> set s. \<not> is_space (byte_of c))"
    using id by (fastforce simp: identifierPattern_def is_ascii_def list_all_iff split: list.split_asm)
  show "cardTypePattern s \<Longrightarrow> is_ascii s \<and> (\<forall>c \<in> set s. \<not> is_space (byte_of c) \<and> ascii_lower (byte_of c) = byte_of c)"
    using ty by (fastforce simp: cardTypePattern_def is_ascii_def list_all_iff split: list.split_asm)
qed

lemma NormalizeIdentifier_fixpoint: "NormalizeIdentifier v c m = Inr w \<Longrightarrow> NormalizeIdentifier w c m = Inr w"
  using pattern_ascii(1) [of w] trim_func_noop_ascii [of w is_space]
  by (auto simp: NormalizeIdentifier_def TrimSpace_def Let_def split: if_split_asm)

lemma ToLower_noop: "is_ascii s \<Longrightarrow> \<forall>c \<in> set s. ascii_lower (byte_of c) = byte_of c \<Longrightarrow> ToLower ulow s = s"
proof -
  assume a: "is_ascii s" "\<forall>c \<in> set s. ascii_lower (byte_of c) = byte_of c"
  have "concat (map (\<lambda>c. encode_rune (byte_of c)) xs) = xs" if "\<forall>c \<in> set xs. byte_of c < 0x80" for xs
    using that by (induction xs) (auto simp: encode_rune_ascii)
  moreover have "map (\<lambda>(r, _). encode_rune (if r < 0x80 then ascii_lower r else ulow r)) (runes s)
      = map (\<lambda>c. encode_rune (byte_of c)) s"
    using a by (auto simp: runes_ascii is_ascii_def)
  ultimately show ?thesis using a(1) by (simp add: ToLower_def is_ascii_def)
qed

lemma NormalizeCardType_fixpoint: "NormalizeCardType ulow v = Inr w \<Longrightarrow> NormalizeCardType ulow w = Inr w"
  using pattern_ascii(2) [of w] trim_func_noop_ascii [of w is_space] ToLower_noop [of w ulow]
  by (auto simp: NormalizeCardType_def TrimSpace_def Let_def split: if_split_asm)

text \<open>
  A normalised card reference is a fixed
  point of normalising, whatever the Unicode lower-case table, and safe to keep: an
  identifier and a lower-case type of at most 128 plain characters, a version between one
  and a million, and a fallback text that is not empty, valid UTF-8, at most 16 KiB, without
  an HTML tag.
\<close>

theorem card_block_normal:
  assumes "NormalizeCardBlock ulow block = Inr b"
  shows "NormalizeCardBlock ulow b = Inr b \<and> cb_Type b = ''card''
    \<and> identifierPattern (cb_CardID b) \<and> cardTypePattern (cb_CardType b) \<and> 1 \<le> cb_SchemaVersion b \<and> cb_SchemaVersion b \<le> 1000000
    \<and> cb_FallbackText b \<noteq> [] \<and> ValidString (cb_FallbackText b) \<and> length (cb_FallbackText b) \<le> 16384
    \<and> \<not> htmlPattern (cb_FallbackText b)"
proof -
  let ?msg = "utf8 [0x5361, 0x7247] @ '' ID '' @ utf8 [0x65E0, 0x6548]"
  have t: "cb_Type block = CardBlockType" using assms by (auto simp: NormalizeCardBlock_def split: if_split_asm)
  obtain i ty v f where n: "NormalizeIdentifier (cb_CardID block) ''card.invalid_id'' ?msg = Inr i"
      "NormalizeCardType ulow (cb_CardType block) = Inr ty" "NormalizeSchemaVersion (cb_SchemaVersion block) = Inr v"
      "NormalizeFallbackText (cb_FallbackText block) = Inr f"
    and b: "b = \<lparr>cb_Type = CardBlockType, cb_CardID = i, cb_CardType = ty, cb_SchemaVersion = v, cb_FallbackText = f\<rparr>"
    using assms t by (auto simp: NormalizeCardBlock_def result_bind_Inr_conv)
  have v: "NormalizeSchemaVersion v = Inr v" "1 \<le> v" "v \<le> 1000000"
    using n(3) by (auto simp: NormalizeSchemaVersion_def split: if_split_asm)
  have "NormalizeCardBlock ulow b = Inr b"
    unfolding NormalizeCardBlock_def
    by (simp add: b v(1) NormalizeIdentifier_fixpoint [OF n(1)] NormalizeCardType_fixpoint [OF n(2)] NormalizeFallbackText_fixpoint [OF n(4)]
        del: append_assoc append.simps)
  moreover have "identifierPattern i" using n(1) by (auto simp: NormalizeIdentifier_def Let_def split: if_split_asm)
  moreover have "cardTypePattern ty" using n(2) by (auto simp: NormalizeCardType_def Let_def split: if_split_asm)
  moreover have "f \<noteq> []" "ValidString f" "length f \<le> 16384" "\<not> htmlPattern f"
    using n(4) by (auto simp: NormalizeFallbackText_def Let_def MaxPayloadTextBytes_def split: if_split_asm)
  ultimately show ?thesis using v b by (simp add: CardBlockType_def)
qed

definition demo_card :: CardBlock where
  "demo_card = \<lparr>cb_Type = ''card'', cb_CardID = '' card-1 '', cb_CardType = ''Poll'', cb_SchemaVersion = 2, cb_FallbackText = '' a poll ''\<rparr>"

theorem card_block_normal_witness:
  "\<exists>b. NormalizeCardBlock id demo_card = Inr b \<and> NormalizeCardBlock id b = Inr b \<and> cb_CardType b = ''poll''"
proof -
  let ?b = "\<lparr>cb_Type = ''card'', cb_CardID = ''card-1'', cb_CardType = ''poll'', cb_SchemaVersion = 2, cb_FallbackText = ''a poll''\<rparr>"
  have "NormalizeCardBlock id demo_card = Inr ?b" by code_simp
  with card_block_normal [OF this] show ?thesis by auto
qed

end
