(* ===== verification/Events_Payload.thy ===== *)
theory Events_Payload
  imports Go_Any Cards_Block Go_Time
begin

text \<open>
  events/model.go and the allowlist of events/service.go: what of a stored event payload
  reaches a client. Payloads are Go maps with values of type \<open>any\<close>. The Markdown summary of a
  text block (messages/markdown_summary.go) rests on a third-party Markdown parser and is
  the parameter \<open>md\<close>; \<open>ulow\<close> is the Unicode lower-case table.
\<close>

section \<open>Data\<close>

record EventRecord =
  er_ID :: string
  er_SpaceID :: string
  er_Seq :: int
  er_Type :: string
  er_ActorID :: "string option"
  er_ConversationID :: "string option"
  er_TargetType :: "string option"
  er_TargetID :: "string option"
  er_PayloadJSON :: string
  er_CreatedAt :: time

record EventTarget =
  et_Type :: string
  et_ID :: "string option"

record Event =
  ev_ID :: string
  ev_SpaceID :: string
  ev_Seq :: int
  ev_Type :: string
  ev_ActorID :: "string option"
  ev_ConversationID :: "string option"
  ev_TargetType :: "string option"
  ev_TargetID :: "string option"
  ev_Target :: "EventTarget option"
  ev_Payload :: payload
  ev_CreatedAt :: string

text \<open>Of the actor the events only use these fields.\<close>

record Actor =
  actor_ID :: string
  actor_Kind :: string
  actor_Role :: string

definition MaxEventPayloadBytes :: nat where
  "MaxEventPayloadBytes = 256 * 1024"

definition ParsePayloadObject :: "(rat \<Rightarrow> rat option) \<Rightarrow> string \<Rightarrow> payload" where
  "ParsePayloadObject f64 raw =
    (if length raw = 0 \<or> length raw > MaxEventPayloadBytes then []
     else case json_text raw of
       Some (JObj ms) \<Rightarrow> (case any_members f64 ms [] of Some p \<Rightarrow> p | None \<Rightarrow> [])
     | _ \<Rightarrow> [])"

section \<open>Fields\<close>

definition stringField :: "payload \<Rightarrow> string \<Rightarrow> string" where
  "stringField value key = (case map_of value key of Some (AStr text) \<Rightarrow> TrimSpace text | _ \<Rightarrow> [])"

definition copyStringField :: "payload \<Rightarrow> string \<Rightarrow> payload \<Rightarrow> payload" where
  "copyStringField src key dst =
    (let value = stringField src key in if value \<noteq> [] then gm_put key (AStr value) dst else dst)"

definition stringFields :: "payload \<Rightarrow> string list \<Rightarrow> payload" where
  "stringFields src keys = fold (copyStringField src) keys []"

fun string_items :: "any list \<Rightarrow> string list \<Rightarrow> string list" where
  "string_items [] seen = []"
| "string_items (item # items) seen =
    (case item of
       AStr s \<Rightarrow>
         let value = TrimSpace s in
         if value = [] \<or> value \<in> set seen then string_items items seen
         else value # string_items items (value # seen)
     | _ \<Rightarrow> string_items items seen)"

definition stringSliceField :: "payload \<Rightarrow> string \<Rightarrow> string list" where
  "stringSliceField src key = (case map_of src key of Some (AArr values) \<Rightarrow> string_items values [] | _ \<Rightarrow> [])"

definition maxSafeInteger :: int where
  "maxSafeInteger = 2 ^ 53 - 1"

definition safeIntField :: "any option \<Rightarrow> int option" where
  "safeIntField value =
    (case value of
       Some (AFloat x) \<Rightarrow> if x < 0 \<or> x > of_int maxSafeInteger \<or> of_int \<lfloor>x\<rfloor> \<noteq> x then None else Some \<lfloor>x\<rfloor>
     | Some (AInt n) \<Rightarrow> if n < 0 then None else Some n
     | Some (AInt64 n) \<Rightarrow> if n < 0 then None else Some n
     | Some (AStr s) \<Rightarrow>
         (case ParseInt64 (TrimSpace s) of
            None \<Rightarrow> None
          | Some n \<Rightarrow> if n < 0 \<or> n > maxSafeInteger then None else Some n)
     | _ \<Rightarrow> None)"

definition copyNullableStringField :: "payload \<Rightarrow> string \<Rightarrow> payload \<Rightarrow> payload" where
  "copyNullableStringField src key dst =
    (let put_text = (\<lambda>s. gm_put key (if TrimSpace s \<noteq> [] then AStr (TrimSpace s) else ANil) dst) in
     case map_of src key of
       None \<Rightarrow> dst
     | Some ANil \<Rightarrow> gm_put key ANil dst
     | Some (AStr s) \<Rightarrow> put_text s
     | Some (APtr None) \<Rightarrow> gm_put key ANil dst
     | Some (APtr (Some s)) \<Rightarrow> put_text s
     | Some _ \<Rightarrow> dst)"

definition publicString :: "any option \<Rightarrow> string" where
  "publicString value = (case value of Some (AStr text) \<Rightarrow> text | _ \<Rightarrow> [])"

text \<open>Copying a number, a boolean, or any string as it is.\<close>

definition copyIntField :: "payload \<Rightarrow> string \<Rightarrow> payload \<Rightarrow> payload" where
  "copyIntField src key dst =
    (case safeIntField (map_of src key) of Some n \<Rightarrow> gm_put key (AInt64 n) dst | None \<Rightarrow> dst)"

definition copyBoolField :: "payload \<Rightarrow> string \<Rightarrow> payload \<Rightarrow> payload" where
  "copyBoolField src key dst = (case map_of src key of Some (ABool b) \<Rightarrow> gm_put key (ABool b) dst | _ \<Rightarrow> dst)"

definition copyTextField :: "payload \<Rightarrow> string \<Rightarrow> payload \<Rightarrow> payload" where
  "copyTextField src key dst = (case map_of src key of Some (AStr s) \<Rightarrow> gm_put key (AStr s) dst | _ \<Rightarrow> dst)"

text \<open>\<open>m[key] == true\<close>.\<close>

definition isTrue :: "payload \<Rightarrow> string \<Rightarrow> bool" where
  "isTrue m key \<longleftrightarrow> map_of m key = Some (ABool True)"

section \<open>Members\<close>

definition safeMember :: "any option \<Rightarrow> string \<Rightarrow> payload option" where
  "safeMember value viewerID =
    (case value of
       Some (AMap member) \<Rightarrow>
         let r0 = stringFields member [''id'', ''githubLogin'', ''displayName'', ''description'', ''avatarUrl'', ''role'', ''roleLabel'', ''joinedAt''];
             r1 = (case map_of member ''nickname'' of
                     Some ANil \<Rightarrow> gm_put ''nickname'' ANil r0
                   | Some (AStr text) \<Rightarrow> gm_put ''nickname'' (AStr text) r0
                   | _ \<Rightarrow> r0);
             memberID = stringField member ''id'';
             memberKind = stringField member ''kind'';
             r2 = (if memberKind \<noteq> ''human'' then gm_del ''remark'' (gm_del ''nickname'' (gm_del ''githubLogin'' r1)) else r1);
             r3 = (if memberID \<noteq> [] \<and> memberID \<noteq> viewerID then copyTextField member ''remark'' r2 else r2);
             r4 = (if memberID \<noteq> [] \<and> memberID = viewerID
                   then copyTextField member ''recallReason'' (copyBoolField member ''searchDiscoverable'' r3) else r3);
             r5 = (if memberKind \<noteq> [] then gm_put ''kind'' (AStr memberKind) r4 else r4);
             r6 = (if stringField r5 ''displayName'' = [] then
                     gm_put ''displayName'' (AStr
                       (if memberKind = ''human'' then
                          (if stringField member ''nickname'' \<noteq> [] then stringField member ''nickname''
                           else if stringField member ''githubLogin'' \<noteq> [] then stringField member ''githubLogin''
                           else utf8 [0x6210, 0x5458])
                        else ''Bot'')) r5
                   else r5);
             r7 = (case map_of member ''capabilities'' of
                     Some (AMap caps) \<Rightarrow>
                       gm_put ''capabilities'' (AMap
                         [(''canStartDirectConversation'', ABool (isTrue caps ''canStartDirectConversation'')),
                          (''canJoinGroups'', ABool (isTrue caps ''canJoinGroups'')),
                          (''canManage'', ABool (isTrue caps ''canManage''))]) r6
                   | _ \<Rightarrow> r6)
         in Some r7
     | _ \<Rightarrow> None)"

section \<open>Messages\<close>

definition copyPerson :: "payload \<Rightarrow> string \<Rightarrow> payload \<Rightarrow> payload" where
  "copyPerson share key r =
    (case map_of share key of
       Some (AMap p) \<Rightarrow> gm_put key (AMap (stringFields p [''id'', ''displayName''])) r
     | _ \<Rightarrow> r)"

definition safeCover :: "any \<Rightarrow> any option" where
  "safeCover value =
    (case value of
       AMap cover \<Rightarrow> Some (AMap (copyBoolField cover ''animated'' (stringFields cover [''id'', ''label'', ''src''])))
     | _ \<Rightarrow> None)"

definition safeEmoteCollectionShare :: "any option \<Rightarrow> payload option" where
  "safeEmoteCollectionShare value =
    (case value of
       Some (AMap share) \<Rightarrow>
         let r0 = stringFields share [''id'', ''name'', ''createdAt'', ''sharePath''];
             r1 = copyBoolField share ''canRevoke'' (copyNullableStringField share ''revokedAt'' (copyIntField share ''itemCount'' r0));
             r2 = copyPerson share ''originalCreator'' (copyPerson share ''sharedBy'' r1)
         in Some (case map_of share ''covers'' of
              Some (AArr covers) \<Rightarrow> gm_put ''covers'' (AArr (List.map_filter safeCover covers)) r2
            | _ \<Rightarrow> r2)
     | _ \<Rightarrow> None)"

definition cardSchemaVersion :: "any option \<Rightarrow> int option" where
  "cardSchemaVersion value =
    (case value of
       Some (AFloat x) \<Rightarrow> if x < 1 \<or> x > 1000000 \<or> of_int \<lfloor>x\<rfloor> \<noteq> x then None else Some \<lfloor>x\<rfloor>
     | Some (AInt n) \<Rightarrow> if n < 1 \<or> n > 1000000 then None else Some n
     | Some (AInt64 n) \<Rightarrow> if n < 1 \<or> n > 1000000 then None else Some n
     | _ \<Rightarrow> None)"

definition safeCardBlock :: "(rune \<Rightarrow> rune) \<Rightarrow> payload \<Rightarrow> payload option" where
  "safeCardBlock ulow block =
    (let fallbackText = TrimSpace (publicString (map_of block ''fallbackText''));
         asText = (if fallbackText \<noteq> [] then Some [(''type'', AStr ''text''), (''text'', AStr fallbackText)] else None)
     in case cardSchemaVersion (map_of block ''schemaVersion'') of
          None \<Rightarrow> asText
        | Some schemaVersion \<Rightarrow>
            (case NormalizeCardBlock ulow
                \<lparr>cb_Type = CardBlockType, cb_CardID = publicString (map_of block ''cardId''),
                 cb_CardType = publicString (map_of block ''cardType''), cb_SchemaVersion = schemaVersion,
                 cb_FallbackText = publicString (map_of block ''fallbackText'')\<rparr> of
               Inl _ \<Rightarrow> asText
             | Inr n \<Rightarrow> Some [(''type'', AStr (cb_Type n)), (''cardId'', AStr (cb_CardID n)), (''cardType'', AStr (cb_CardType n)),
                 (''schemaVersion'', AInt (cb_SchemaVersion n)), (''fallbackText'', AStr (cb_FallbackText n))]))"

definition safeBlock :: "(rune \<Rightarrow> rune) \<Rightarrow> any \<Rightarrow> payload option" where
  "safeBlock ulow value =
    (case value of
       AMap block \<Rightarrow>
         let typeName = publicString (map_of block ''type'');
             text = (\<lambda>key. (key, AStr (publicString (map_of block key))));
             tag = (''type'', AStr typeName)
         in if typeName = ''text'' then Some [tag, text ''text'']
            else if typeName = ''mention'' then Some [tag, text ''userId'', text ''label'']
            else if typeName = ''link'' then
              Some ([tag, text ''url''] @ (if publicString (map_of block ''label'') \<noteq> [] then [text ''label''] else []))
            else if typeName = ''emoji'' then Some [tag, text ''shortcode'']
            else if typeName = ''attachment'' then Some [tag, text ''attachmentId'']
            else if typeName = ''emote_collection'' then
              Some ([tag, text ''shareId''] @ (case safeEmoteCollectionShare (map_of block ''share'') of
                Some share \<Rightarrow> [(''share'', AMap share)] | None \<Rightarrow> []))
            else if typeName = ''topic_reference'' then Some [tag, text ''topicId'', text ''title'']
            else if typeName = ''card'' then safeCardBlock ulow block
            else None
     | _ \<Rightarrow> None)"

text \<open>messages/model.go: \<open>ProjectPlainText\<close> over the projected blocks.\<close>

definition isNodeSummarySpace :: "rune \<Rightarrow> bool" where
  "isNodeSummarySpace c \<longleftrightarrow> (0x09 \<le> c \<and> c \<le> 0x0D) \<or> c = 0x20 \<or> c = 0xA0 \<or> c = 0x1680 \<or> (0x2000 \<le> c \<and> c \<le> 0x200A)
     \<or> c = 0x2028 \<or> c = 0x2029 \<or> c = 0x202F \<or> c = 0x205F \<or> c = 0x3000 \<or> c = 0xFEFF"

definition nodeSummaryTrim :: "string \<Rightarrow> string" where
  "nodeSummaryTrim value = trim_func isNodeSummarySpace value"

definition block_text :: "(string \<Rightarrow> string) \<Rightarrow> payload \<Rightarrow> string" where
  "block_text md b =
    (let f = (\<lambda>key. publicString (map_of b key)); ty = f ''type'' in
     if ty = ''text'' then md (f ''text'')
     else if ty = ''mention'' then ''@'' @ f ''label''
     else if ty = ''link'' then (if f ''label'' = [] then f ''url'' else f ''label'')
     else if ty = ''emoji'' then
       (if HasPrefix (f ''shortcode'') ''custom:'' then ''['' @ utf8 [0x8868, 0x60C5] @ '']''
        else '':'' @ f ''shortcode'' @ '':'')
     else if ty = ''attachment'' then ''['' @ utf8 [0x6587, 0x4EF6] @ '']''
     else if ty = ''emote_collection'' then ''['' @ utf8 [0x8868, 0x60C5, 0x5408, 0x96C6] @ '']''
     else if ty = ''topic_reference'' then ''#'' @ f ''title''
     else if ty = ''card'' then f ''fallbackText''
     else [])"

definition ProjectPlainText :: "(string \<Rightarrow> string) \<Rightarrow> payload list \<Rightarrow> string" where
  "ProjectPlainText md blocks = nodeSummaryTrim (concat (map (block_text md) blocks))"

definition safeContent :: "(rune \<Rightarrow> rune) \<Rightarrow> (string \<Rightarrow> string) \<Rightarrow> any option \<Rightarrow> payload option" where
  "safeContent ulow md value =
    (case value of
       Some (AMap content) \<Rightarrow>
         let format = AStr (publicString (map_of content ''format'')) in
         Some (case map_of content ''blocks'' of
             Some (AArr blocks) \<Rightarrow>
               let safe = List.map_filter (safeBlock ulow) blocks in
               [(''format'', format), (''plainText'', AStr (ProjectPlainText md safe)), (''blocks'', AArr (map AMap safe))]
           | _ \<Rightarrow> [(''format'', format), (''plainText'', AStr []), (''blocks'', AArr [])])
     | _ \<Rightarrow> None)"

definition safeAttachment :: "any \<Rightarrow> payload option" where
  "safeAttachment value =
    (case value of
       AMap attachment \<Rightarrow>
         let r0 = stringFields attachment [''id'', ''fileName'', ''mimeType'', ''status'', ''visibility'', ''uploaderId'', ''uploaderName'', ''createdAt''];
             r1 = fold (copyNullableStringField attachment) [''conversationId'', ''completedAt'', ''availableAt''] r0;
             r2 = copyIntField attachment ''byteSize'' r1;
             r3 = (case map_of attachment ''uploader'' of
                     Some (AMap uploader) \<Rightarrow> gm_put ''uploader'' (AMap (stringFields uploader [''id'', ''displayName''])) r2
                   | _ \<Rightarrow> r2)
         in Some (case map_of attachment ''capabilities'' of
              Some (AMap caps) \<Rightarrow>
                gm_put ''capabilities'' (AMap [(''canDownload'', ABool (isTrue caps ''canDownload'')),
                  (''canRemove'', ABool (isTrue caps ''canRemove''))]) r3
            | _ \<Rightarrow> r3)
     | _ \<Rightarrow> None)"

definition safeReactionGroup :: "any \<Rightarrow> any option" where
  "safeReactionGroup value =
    (case value of
       AMap grp \<Rightarrow>
         let user = (\<lambda>u. case u of
                 AMap m \<Rightarrow> Some (AMap (stringFields m [''id'', ''displayName'', ''githubLogin'', ''avatarUrl'', ''createdAt'']))
               | _ \<Rightarrow> None);
             r0 = stringFields grp [''emoteKey''];
             r1 = copyBoolField grp ''reactedByCurrentUser'' (copyIntField grp ''count'' r0)
         in Some (AMap (case map_of grp ''users'' of
              Some (AArr users) \<Rightarrow> gm_put ''users'' (AArr (List.map_filter user users)) r1
            | _ \<Rightarrow> r1))
     | _ \<Rightarrow> None)"

definition safeReactionGroups :: "any option \<Rightarrow> any list option" where
  "safeReactionGroups value = (case value of Some (AArr groups) \<Rightarrow> Some (List.map_filter safeReactionGroup groups) | _ \<Rightarrow> None)"

definition safeMessage :: "(rune \<Rightarrow> rune) \<Rightarrow> (string \<Rightarrow> string) \<Rightarrow> any option \<Rightarrow> payload option" where
  "safeMessage ulow md value =
    (case value of
       Some (AMap message) \<Rightarrow>
         let r0 = stringFields message [''id'', ''conversationId'', ''authorName'', ''authorNickname'', ''authorRemark'',
               ''authorGithubLogin'', ''authorAvatarUrl'', ''authorKind'', ''kind'', ''createdAt''];
             r1 = gm_put ''plainText'' (AStr (publicString (map_of message ''plainText''))) r0;
             r2 = fold (copyNullableStringField message) [''authorId'', ''clientMessageId'', ''replyToMessageId'', ''editedAt'',
               ''deletedAt'', ''recalledAt'', ''recallReason''] r1;
             r3 = (case safeContent ulow md (map_of message ''content'') of
                     Some content \<Rightarrow>
                       let withContent = gm_put ''content'' (AMap content) r2; plainText = publicString (map_of content ''plainText'')
                       in if plainText \<noteq> [] then gm_put ''plainText'' (AStr plainText) withContent else withContent
                   | None \<Rightarrow> r2);
             r4 = (case map_of message ''attachments'' of
                     Some (AArr attachments) \<Rightarrow>
                       gm_put ''attachments'' (AArr (List.map_filter (\<lambda>a. map_option AMap (safeAttachment a)) attachments)) r3
                   | _ \<Rightarrow> r3);
             r5 = (case safeReactionGroups (map_of message ''reactions'') of
                     Some groups \<Rightarrow> gm_put ''reactions'' (AArr groups) r4 | None \<Rightarrow> r4);
             r6 = (case map_of message ''pin'' of
                     Some (AMap pin) \<Rightarrow>
                       gm_put ''pin'' (AMap (copyBoolField pin ''canUnpin'' (stringFields pin [''pinnedByUserId'', ''pinnedAt'']))) r5
                   | _ \<Rightarrow> r5)
         in Some (copyBoolField message ''hiddenByCurrentUser'' r6)
     | _ \<Rightarrow> None)"

section \<open>Conversations\<close>

definition safeConversation :: "(rune \<Rightarrow> rune) \<Rightarrow> (string \<Rightarrow> string) \<Rightarrow> any option \<Rightarrow> string \<Rightarrow> payload option" where
  "safeConversation ulow md value viewerID =
    (case value of
       Some (AMap conversation) \<Rightarrow>
         let r0 = stringFields conversation [''id'', ''spaceId'', ''type'', ''title'', ''displayTitle'', ''retentionText'', ''createdAt'',
               ''lastActivityAt'', ''lastMessagePlainText'', ''notificationLevel''];
             r1 = fold (copyNullableStringField conversation) [''avatarEmoji'', ''lastMessageAt'', ''lastReadMessageId'', ''lastReadAt''] r0;
             r2 = fold (copyIntField conversation) [''retentionCount'', ''messageCount'', ''memberCount'', ''unreadCount'', ''lastReadSeq''] r1;
             r3 = (if map_of conversation ''lastReadSeq'' = Some ANil then gm_put ''lastReadSeq'' ANil r2 else r2);
             r4 = (case map_of conversation ''members'' of
                     Some (AArr members) \<Rightarrow>
                       gm_put ''members'' (AArr (List.map_filter (\<lambda>m. map_option AMap (safeMember (Some m) viewerID)) members)) r3
                   | _ \<Rightarrow> r3);
             peer = (if stringField conversation ''type'' = ''direct'' then safeMember (map_of conversation ''otherMember'') viewerID else None);
             r5 = gm_put ''otherMember'' (case peer of Some safe \<Rightarrow> AMap safe | None \<Rightarrow> ANil) r4
         in Some (case map_of conversation ''latestMessages'' of
              Some (AArr latest) \<Rightarrow>
                gm_put ''latestMessages'' (AArr (List.map_filter (\<lambda>m. map_option AMap (safeMessage ulow md (Some m))) latest)) r5
            | _ \<Rightarrow> r5)
     | _ \<Rightarrow> None)"

section \<open>Events\<close>

definition copyConversation :: "(rune \<Rightarrow> rune) \<Rightarrow> (string \<Rightarrow> string) \<Rightarrow> payload \<Rightarrow> string \<Rightarrow> payload \<Rightarrow> payload" where
  "copyConversation ulow md payload viewer r =
    (case safeConversation ulow md (map_of payload ''conversation'') viewer of
       Some c \<Rightarrow> gm_put ''conversation'' (AMap c) r | None \<Rightarrow> r)"

definition projectPayload :: "(rune \<Rightarrow> rune) \<Rightarrow> (string \<Rightarrow> string) \<Rightarrow> string \<Rightarrow> payload \<Rightarrow> string \<Rightarrow> payload" where
  "projectPayload ulow md eventType payload viewer =
    (let topicID = stringField payload ''topicId'' in
     if topicID \<noteq> [] \<and> (HasPrefix eventType ''topic.'' \<or> eventType = ''message.created'') then
       let r = fold (copyStringField payload) [''topicMessageId'', ''projectionId'', ''messageId'', ''conversationId''] [(''topicId'', AStr topicID)]
       in if isTrue payload ''topicCard'' then gm_put ''topicCard'' (ABool True) r else r
     else if eventType \<in> set [''workspace.member_joined'', ''workspace.member_updated''] then
       let r = copyStringField payload ''userId'' [] in
       (case safeMember (map_of payload ''member'') viewer of
          Some member \<Rightarrow> copyStringField member ''role'' (gm_put ''member'' (AMap member) r)
        | None \<Rightarrow> copyStringField payload ''role'' r)
     else if eventType \<in> set [''workspace.member_visibility_updated'', ''workspace.member_removed''] then stringFields payload [''userId'']
     else if eventType \<in> set [''conversation.created'', ''conversation.updated''] then
       let r = stringFields payload [''conversationId'', ''type'', ''title'']; memberIDs = stringSliceField payload ''memberIds'';
           r1 = (if memberIDs \<noteq> [] then gm_put ''memberIds'' (AArr (map AStr memberIDs)) r else r)
       in copyConversation ulow md payload viewer r1
     else if eventType = ''conversation.member_added'' then
       let r = stringFields payload [''conversationId'', ''userId''] in
       (case safeMember (map_of payload ''member'') viewer of Some member \<Rightarrow> gm_put ''member'' (AMap member) r | None \<Rightarrow> r)
     else if eventType = ''conversation.member_removed'' then
       let r = stringFields payload [''conversationId'', ''userId''] in
       (if isTrue payload ''self'' then gm_put ''self'' (ABool True) r else r)
     else if eventType = ''conversation.notification_updated'' then
       copyConversation ulow md payload viewer (stringFields payload [''conversationId'', ''userId'', ''notificationLevel''])
     else if eventType = ''emote.settings.updated'' then stringFields payload [''userId'']
     else if eventType = ''emote.library.updated'' then
       copyIntField payload ''sourceRevision'' (stringFields payload [''userId'', ''collectionId'', ''status''])
     else if eventType \<in> set [''card.created'', ''card.updated'', ''card.invalidated''] then
       copyIntField payload ''revision'' (stringFields payload [''cardId'', ''cardType'', ''status''])
     else if eventType \<in> set [''message.created'', ''message.recalled''] then
       let r = stringFields payload [''messageId'', ''conversationId''];
           r1 = (case safeMessage ulow md (map_of payload ''message'') of Some m \<Rightarrow> gm_put ''message'' (AMap m) r | None \<Rightarrow> r)
       in copyConversation ulow md payload viewer r1
     else if eventType \<in> set [''reaction.added'', ''reaction.removed''] then
       let r = stringFields payload [''messageId'', ''conversationId''] in
       (case safeReactionGroups (map_of payload ''reactions'') of Some groups \<Rightarrow> gm_put ''reactions'' (AArr groups) r | None \<Rightarrow> r)
     else if eventType \<in> set [''message.pinned'', ''message.unpinned''] then stringFields payload [''messageId'', ''conversationId'']
     else if eventType \<in> set [''attachment.created'', ''attachment.available'', ''attachment.failed'', ''attachment.removed''] then
       let r = stringFields payload [''attachmentId'', ''status''] in
       (case map_of payload ''attachment'' of
          Some a \<Rightarrow> (case safeAttachment a of Some s \<Rightarrow> gm_put ''attachment'' (AMap s) r | None \<Rightarrow> r)
        | None \<Rightarrow> r)
     else if eventType = ''transfer.rejected'' then stringFields payload [''direction'', ''code'', ''message'', ''reason'']
     else [])"

definition event_timestamp :: "time \<Rightarrow> string" where
  "event_timestamp value = format_millis value"

definition projectEvent :: "(rune \<Rightarrow> rune) \<Rightarrow> (string \<Rightarrow> string) \<Rightarrow> EventRecord \<Rightarrow> payload \<Rightarrow> Actor \<Rightarrow> Event" where
  "projectEvent ulow md record payload actor =
    (let targetID = (if er_Type record = ''transfer.rejected'' then None else er_TargetID record);
         target = (case er_TargetType record of
             Some ty \<Rightarrow> if ty \<noteq> [] then Some \<lparr>et_Type = ty, et_ID = targetID\<rparr> else None
           | None \<Rightarrow> None)
     in \<lparr>ev_ID = er_ID record, ev_SpaceID = er_SpaceID record, ev_Seq = er_Seq record, ev_Type = er_Type record,
         ev_ActorID = er_ActorID record, ev_ConversationID = er_ConversationID record,
         ev_TargetType = er_TargetType record, ev_TargetID = targetID, ev_Target = target,
         ev_Payload = projectPayload ulow md (er_Type record) payload (actor_ID actor),
         ev_CreatedAt = event_timestamp (er_CreatedAt record)\<rparr>)"


section \<open>The schema of what is sent\<close>

definition strs :: "string list \<Rightarrow> (string \<times> schema) list" where
  "strs keys = map (\<lambda>k. (k, SStr)) keys"

definition nullable_strs :: "string list \<Rightarrow> (string \<times> schema) list" where
  "nullable_strs keys = map (\<lambda>k. (k, SNull SStr)) keys"

definition member_fields :: "(string \<times> schema) list" where
  "member_fields = strs [''id'', ''githubLogin'', ''displayName'', ''description'', ''avatarUrl'', ''role'', ''roleLabel'',
     ''joinedAt'', ''remark'', ''recallReason'', ''kind''] @
     [(''nickname'', SNull SStr), (''searchDiscoverable'', SBool),
      (''capabilities'', SObj [(''canStartDirectConversation'', SBool), (''canJoinGroups'', SBool), (''canManage'', SBool)])]"

definition member_schema :: schema where
  "member_schema = SObj member_fields"

definition share_fields :: "(string \<times> schema) list" where
  "share_fields = strs [''id'', ''name'', ''createdAt'', ''sharePath''] @
     [(''itemCount'', SInt), (''revokedAt'', SNull SStr), (''canRevoke'', SBool),
      (''sharedBy'', SObj (strs [''id'', ''displayName''])), (''originalCreator'', SObj (strs [''id'', ''displayName''])),
      (''covers'', SArr (SObj (strs [''id'', ''label'', ''src''] @ [(''animated'', SBool)])))]"

definition share_schema :: schema where
  "share_schema = SObj share_fields"

definition block_fields :: "(string \<times> schema) list" where
  "block_fields = strs [''type'', ''text'', ''userId'', ''label'', ''url'', ''shortcode'', ''attachmentId'', ''shareId'', ''topicId'',
     ''title'', ''cardId'', ''cardType'', ''fallbackText''] @ [(''schemaVersion'', SInt), (''share'', share_schema)]"

definition block_schema :: schema where
  "block_schema = SObj block_fields"

definition content_fields :: "(string \<times> schema) list" where
  "content_fields = strs [''format'', ''plainText''] @ [(''blocks'', SArr block_schema)]"

definition content_schema :: schema where
  "content_schema = SObj content_fields"

definition attachment_fields :: "(string \<times> schema) list" where
  "attachment_fields = strs [''id'', ''fileName'', ''mimeType'', ''status'', ''visibility'', ''uploaderId'', ''uploaderName'', ''createdAt''] @
     nullable_strs [''conversationId'', ''completedAt'', ''availableAt''] @
     [(''byteSize'', SInt), (''uploader'', SObj (strs [''id'', ''displayName''])),
      (''capabilities'', SObj [(''canDownload'', SBool), (''canRemove'', SBool)])]"

definition attachment_schema :: schema where
  "attachment_schema = SObj attachment_fields"

definition reaction_fields :: "(string \<times> schema) list" where
  "reaction_fields = strs [''emoteKey''] @ [(''count'', SInt), (''reactedByCurrentUser'', SBool),
     (''users'', SArr (SObj (strs [''id'', ''displayName'', ''githubLogin'', ''avatarUrl'', ''createdAt''])))]"

definition reaction_schema :: schema where
  "reaction_schema = SObj reaction_fields"

definition message_fields :: "(string \<times> schema) list" where
  "message_fields = strs [''id'', ''conversationId'', ''authorName'', ''authorNickname'', ''authorRemark'', ''authorGithubLogin'',
     ''authorAvatarUrl'', ''authorKind'', ''kind'', ''createdAt'', ''plainText''] @
     nullable_strs [''authorId'', ''clientMessageId'', ''replyToMessageId'', ''editedAt'', ''deletedAt'', ''recalledAt'', ''recallReason''] @
     [(''content'', content_schema), (''attachments'', SArr attachment_schema), (''reactions'', SArr reaction_schema),
      (''pin'', SObj (strs [''pinnedByUserId'', ''pinnedAt''] @ [(''canUnpin'', SBool)])), (''hiddenByCurrentUser'', SBool)]"

definition message_schema :: schema where
  "message_schema = SObj message_fields"

definition conversation_fields :: "(string \<times> schema) list" where
  "conversation_fields = strs [''id'', ''spaceId'', ''type'', ''title'', ''displayTitle'', ''retentionText'', ''createdAt'',
     ''lastActivityAt'', ''lastMessagePlainText'', ''notificationLevel''] @
     nullable_strs [''avatarEmoji'', ''lastMessageAt'', ''lastReadMessageId'', ''lastReadAt''] @
     [(''retentionCount'', SInt), (''messageCount'', SInt), (''memberCount'', SInt), (''unreadCount'', SInt), (''lastReadSeq'', SNull SInt),
      (''members'', SArr member_schema), (''otherMember'', SNull member_schema), (''latestMessages'', SArr message_schema)]"

definition conversation_schema :: schema where
  "conversation_schema = SObj conversation_fields"

text \<open>What the payload of an event of a type may hold; topic events and topic messages have references only.\<close>

definition topic_fields :: "(string \<times> schema) list" where
  "topic_fields = strs [''topicId'', ''topicMessageId'', ''projectionId'', ''messageId'', ''conversationId''] @ [(''topicCard'', SBool)]"

definition type_fields :: "string \<Rightarrow> (string \<times> schema) list" where
  "type_fields ty =
    (if ty \<in> set [''workspace.member_joined'', ''workspace.member_updated''] then strs [''userId'', ''role''] @ [(''member'', member_schema)]
     else if ty \<in> set [''workspace.member_visibility_updated'', ''workspace.member_removed''] then strs [''userId'']
     else if ty \<in> set [''conversation.created'', ''conversation.updated''] then
       strs [''conversationId'', ''type'', ''title''] @ [(''memberIds'', SArr SStr), (''conversation'', conversation_schema)]
     else if ty = ''conversation.member_added'' then strs [''conversationId'', ''userId''] @ [(''member'', member_schema)]
     else if ty = ''conversation.member_removed'' then strs [''conversationId'', ''userId''] @ [(''self'', SBool)]
     else if ty = ''conversation.notification_updated'' then
       strs [''conversationId'', ''userId'', ''notificationLevel''] @ [(''conversation'', conversation_schema)]
     else if ty = ''emote.settings.updated'' then strs [''userId'']
     else if ty = ''emote.library.updated'' then strs [''userId'', ''collectionId'', ''status''] @ [(''sourceRevision'', SInt)]
     else if ty \<in> set [''card.created'', ''card.updated'', ''card.invalidated''] then strs [''cardId'', ''cardType'', ''status''] @ [(''revision'', SInt)]
     else if ty \<in> set [''message.created'', ''message.recalled''] then
       strs [''messageId'', ''conversationId''] @ [(''message'', message_schema), (''conversation'', conversation_schema)]
     else if ty \<in> set [''reaction.added'', ''reaction.removed''] then strs [''messageId'', ''conversationId''] @ [(''reactions'', SArr reaction_schema)]
     else if ty \<in> set [''message.pinned'', ''message.unpinned''] then strs [''messageId'', ''conversationId'']
     else if ty \<in> set [''attachment.created'', ''attachment.available'', ''attachment.failed'', ''attachment.removed''] then
       strs [''attachmentId'', ''status''] @ [(''attachment'', attachment_schema)]
     else if ty = ''transfer.rejected'' then strs [''direction'', ''code'', ''message'', ''reason'']
     else [])"

definition event_fields :: "string \<Rightarrow> (string \<times> schema) list" where
  "event_fields ty = type_fields ty @ (if HasPrefix ty ''topic.'' \<or> ty = ''message.created'' then topic_fields else [])"

named_theorems fits \<open>a projected value fits the schema of its place\<close>

text \<open>\<open>obj fs m\<close>: the map has only the fields \<open>fs\<close>.\<close>

definition obj :: "(string \<times> schema) list \<Rightarrow> payload \<Rightarrow> bool" where
  "obj fs m = conforms (SObj fs) (AMap m)"

lemma obj_nil [fits]: "obj fs []"
  by (simp add: obj_def)

lemma obj_simps [simp]:
  "conforms (SObj fs) (AMap m) = obj fs m"
  "obj fs []"
  "obj fs ((k, v) # m) = ((case map_of fs k of None \<Rightarrow> False | Some s \<Rightarrow> conforms s v) \<and> obj fs m)"
  by (simp_all add: obj_def)

declare conforms.simps(6) [simp del]

lemma obj_put: "obj fs m \<Longrightarrow> map_of fs k = Some s \<Longrightarrow> conforms s x \<Longrightarrow> obj fs (gm_put k x m)"
  unfolding obj_def by (rule conforms_put)

lemma obj_put_case [fits]:
  "obj fs m \<Longrightarrow> (case map_of fs k of None \<Rightarrow> False | Some s \<Rightarrow> conforms s x) \<Longrightarrow> obj fs (gm_put k x m)"
  by (cases "map_of fs k") (auto intro: obj_put)

lemma obj_del [fits]: "obj fs m \<Longrightarrow> obj fs (gm_del k m)"
  unfolding obj_def by (rule conforms_del)

lemma obj_copy [fits]: "obj fs m \<Longrightarrow> map_of fs k = Some SStr \<Longrightarrow> obj fs (copyStringField src k m)"
  by (simp add: copyStringField_def Let_def obj_put)

lemma obj_copies: "obj fs m \<Longrightarrow> \<forall>k \<in> set ks. map_of fs k = Some SStr \<Longrightarrow> obj fs (fold (copyStringField src) ks m)"
  by (induction ks arbitrary: m) (simp_all add: obj_copy)

lemma obj_strings [fits]: "\<forall>k \<in> set ks. map_of fs k = Some SStr \<Longrightarrow> obj fs (stringFields src ks)"
  by (simp add: stringFields_def obj_copies obj_nil)

lemma obj_nullable [fits]: "obj fs m \<Longrightarrow> map_of fs k = Some (SNull SStr) \<Longrightarrow> obj fs (copyNullableStringField src k m)"
  by (auto simp: copyNullableStringField_def Let_def obj_put split: option.split any.split)

lemma obj_nullables:
  "obj fs m \<Longrightarrow> \<forall>k \<in> set ks. map_of fs k = Some (SNull SStr) \<Longrightarrow> obj fs (fold (copyNullableStringField src) ks m)"
  by (induction ks arbitrary: m) (simp_all add: obj_nullable)

lemma obj_int [fits]: "obj fs m \<Longrightarrow> map_of fs k = Some SInt \<or> map_of fs k = Some (SNull SInt) \<Longrightarrow> obj fs (copyIntField src k m)"
  by (auto simp: copyIntField_def intro: obj_put split: option.split)

lemma obj_ints:
  "obj fs m \<Longrightarrow> \<forall>k \<in> set ks. map_of fs k = Some SInt \<or> map_of fs k = Some (SNull SInt) \<Longrightarrow> obj fs (fold (copyIntField src) ks m)"
  by (induction ks arbitrary: m) (simp_all add: obj_int)

lemma obj_bool [fits]: "obj fs m \<Longrightarrow> map_of fs k = Some SBool \<Longrightarrow> obj fs (copyBoolField src k m)"
  by (auto simp: copyBoolField_def obj_put split: option.split any.split)

lemma obj_text [fits]: "obj fs m \<Longrightarrow> map_of fs k = Some SStr \<Longrightarrow> obj fs (copyTextField src k m)"
  by (auto simp: copyTextField_def obj_put split: option.split any.split)

lemma map_filter_all: "(\<And>x y. f x = Some y \<Longrightarrow> P y) \<Longrightarrow> list_all P (List.map_filter f xs)"
  by (auto simp: List.map_filter_def list_all_iff)

lemmas schema_keys = strs_def nullable_strs_def

lemma member_keys:
  "map_of member_fields ''id'' = Some SStr"
  "map_of member_fields ''githubLogin'' = Some SStr"
  "map_of member_fields ''displayName'' = Some SStr"
  "map_of member_fields ''description'' = Some SStr"
  "map_of member_fields ''avatarUrl'' = Some SStr"
  "map_of member_fields ''role'' = Some SStr"
  "map_of member_fields ''roleLabel'' = Some SStr"
  "map_of member_fields ''joinedAt'' = Some SStr"
  "map_of member_fields ''remark'' = Some SStr"
  "map_of member_fields ''recallReason'' = Some SStr"
  "map_of member_fields ''kind'' = Some SStr"
  "map_of member_fields ''nickname'' = Some (SNull SStr)"
  "map_of member_fields ''searchDiscoverable'' = Some SBool"
  "map_of member_fields ''capabilities'' = Some (SObj [(''canStartDirectConversation'', SBool), (''canJoinGroups'', SBool), (''canManage'', SBool)])"
  by code_simp+

lemma share_keys:
  "map_of share_fields ''id'' = Some SStr"
  "map_of share_fields ''name'' = Some SStr"
  "map_of share_fields ''createdAt'' = Some SStr"
  "map_of share_fields ''sharePath'' = Some SStr"
  "map_of share_fields ''itemCount'' = Some SInt"
  "map_of share_fields ''revokedAt'' = Some (SNull SStr)"
  "map_of share_fields ''canRevoke'' = Some SBool"
  "map_of share_fields ''sharedBy'' = Some (SObj (strs [''id'', ''displayName'']))"
  "map_of share_fields ''originalCreator'' = Some (SObj (strs [''id'', ''displayName'']))"
  "map_of share_fields ''covers'' = Some (SArr (SObj (strs [''id'', ''label'', ''src''] @ [(''animated'', SBool)])))"
  by code_simp+

lemma block_keys:
  "map_of block_fields ''type'' = Some SStr"
  "map_of block_fields ''text'' = Some SStr"
  "map_of block_fields ''userId'' = Some SStr"
  "map_of block_fields ''label'' = Some SStr"
  "map_of block_fields ''url'' = Some SStr"
  "map_of block_fields ''shortcode'' = Some SStr"
  "map_of block_fields ''attachmentId'' = Some SStr"
  "map_of block_fields ''shareId'' = Some SStr"
  "map_of block_fields ''topicId'' = Some SStr"
  "map_of block_fields ''title'' = Some SStr"
  "map_of block_fields ''cardId'' = Some SStr"
  "map_of block_fields ''cardType'' = Some SStr"
  "map_of block_fields ''fallbackText'' = Some SStr"
  "map_of block_fields ''schemaVersion'' = Some SInt"
  "map_of block_fields ''share'' = Some share_schema"
  by code_simp+

lemma content_keys:
  "map_of content_fields ''format'' = Some SStr"
  "map_of content_fields ''plainText'' = Some SStr"
  "map_of content_fields ''blocks'' = Some (SArr block_schema)"
  by code_simp+

lemma attachment_keys:
  "map_of attachment_fields ''id'' = Some SStr"
  "map_of attachment_fields ''fileName'' = Some SStr"
  "map_of attachment_fields ''mimeType'' = Some SStr"
  "map_of attachment_fields ''status'' = Some SStr"
  "map_of attachment_fields ''visibility'' = Some SStr"
  "map_of attachment_fields ''uploaderId'' = Some SStr"
  "map_of attachment_fields ''uploaderName'' = Some SStr"
  "map_of attachment_fields ''createdAt'' = Some SStr"
  "map_of attachment_fields ''conversationId'' = Some (SNull SStr)"
  "map_of attachment_fields ''completedAt'' = Some (SNull SStr)"
  "map_of attachment_fields ''availableAt'' = Some (SNull SStr)"
  "map_of attachment_fields ''byteSize'' = Some SInt"
  "map_of attachment_fields ''uploader'' = Some (SObj (strs [''id'', ''displayName'']))"
  "map_of attachment_fields ''capabilities'' = Some (SObj [(''canDownload'', SBool), (''canRemove'', SBool)])"
  by code_simp+

lemma reaction_keys:
  "map_of reaction_fields ''emoteKey'' = Some SStr"
  "map_of reaction_fields ''count'' = Some SInt"
  "map_of reaction_fields ''reactedByCurrentUser'' = Some SBool"
  "map_of reaction_fields ''users'' = Some (SArr (SObj (strs [''id'', ''displayName'', ''githubLogin'', ''avatarUrl'', ''createdAt''])))"
  by code_simp+

lemma message_keys:
  "map_of message_fields ''id'' = Some SStr"
  "map_of message_fields ''conversationId'' = Some SStr"
  "map_of message_fields ''authorName'' = Some SStr"
  "map_of message_fields ''authorNickname'' = Some SStr"
  "map_of message_fields ''authorRemark'' = Some SStr"
  "map_of message_fields ''authorGithubLogin'' = Some SStr"
  "map_of message_fields ''authorAvatarUrl'' = Some SStr"
  "map_of message_fields ''authorKind'' = Some SStr"
  "map_of message_fields ''kind'' = Some SStr"
  "map_of message_fields ''createdAt'' = Some SStr"
  "map_of message_fields ''plainText'' = Some SStr"
  "map_of message_fields ''authorId'' = Some (SNull SStr)"
  "map_of message_fields ''clientMessageId'' = Some (SNull SStr)"
  "map_of message_fields ''replyToMessageId'' = Some (SNull SStr)"
  "map_of message_fields ''editedAt'' = Some (SNull SStr)"
  "map_of message_fields ''deletedAt'' = Some (SNull SStr)"
  "map_of message_fields ''recalledAt'' = Some (SNull SStr)"
  "map_of message_fields ''recallReason'' = Some (SNull SStr)"
  "map_of message_fields ''content'' = Some content_schema"
  "map_of message_fields ''attachments'' = Some (SArr attachment_schema)"
  "map_of message_fields ''reactions'' = Some (SArr reaction_schema)"
  "map_of message_fields ''pin'' = Some (SObj (strs [''pinnedByUserId'', ''pinnedAt''] @ [(''canUnpin'', SBool)]))"
  "map_of message_fields ''hiddenByCurrentUser'' = Some SBool"
  by code_simp+

lemma conversation_keys:
  "map_of conversation_fields ''id'' = Some SStr"
  "map_of conversation_fields ''spaceId'' = Some SStr"
  "map_of conversation_fields ''type'' = Some SStr"
  "map_of conversation_fields ''title'' = Some SStr"
  "map_of conversation_fields ''displayTitle'' = Some SStr"
  "map_of conversation_fields ''retentionText'' = Some SStr"
  "map_of conversation_fields ''createdAt'' = Some SStr"
  "map_of conversation_fields ''lastActivityAt'' = Some SStr"
  "map_of conversation_fields ''lastMessagePlainText'' = Some SStr"
  "map_of conversation_fields ''notificationLevel'' = Some SStr"
  "map_of conversation_fields ''avatarEmoji'' = Some (SNull SStr)"
  "map_of conversation_fields ''lastMessageAt'' = Some (SNull SStr)"
  "map_of conversation_fields ''lastReadMessageId'' = Some (SNull SStr)"
  "map_of conversation_fields ''lastReadAt'' = Some (SNull SStr)"
  "map_of conversation_fields ''retentionCount'' = Some SInt"
  "map_of conversation_fields ''messageCount'' = Some SInt"
  "map_of conversation_fields ''memberCount'' = Some SInt"
  "map_of conversation_fields ''unreadCount'' = Some SInt"
  "map_of conversation_fields ''lastReadSeq'' = Some (SNull SInt)"
  "map_of conversation_fields ''members'' = Some (SArr member_schema)"
  "map_of conversation_fields ''otherMember'' = Some (SNull member_schema)"
  "map_of conversation_fields ''latestMessages'' = Some (SArr message_schema)"
  by code_simp+

lemmas schema_defs = strs_def nullable_strs_def member_schema_def share_schema_def block_schema_def content_schema_def
  attachment_schema_def reaction_schema_def message_schema_def conversation_schema_def

lemma let_obj:
  "obj fs a \<Longrightarrow> (\<And>x. obj fs x \<Longrightarrow> pred_option (obj fs) (f x)) \<Longrightarrow> pred_option (obj fs) (Let a f)"
  "obj fs a \<Longrightarrow> (\<And>x. obj fs x \<Longrightarrow> obj fs (g x)) \<Longrightarrow> obj fs (Let a g)"
  by (simp_all add: Let_def)

lemma let_any:
  "(\<And>x. pred_option (obj fs) (f x)) \<Longrightarrow> pred_option (obj fs) (Let a f)"
  "(\<And>x. obj fs (g x)) \<Longrightarrow> obj fs (Let a g)"
  by (simp_all add: Let_def)

lemma pred_option_Some: "P x \<Longrightarrow> pred_option P (Some x)"
  by simp

lemma obj_list: "(\<And>x y. f x = Some y \<Longrightarrow> conforms sch y) \<Longrightarrow> list_all (conforms sch) (List.map_filter f xs)"
  by (rule map_filter_all)

lemma safeMember_obj: "safeMember v viewer = Some m \<Longrightarrow> obj member_fields m"
proof -
  have "pred_option (obj member_fields) (safeMember v viewer)"
  proof (cases "\<exists>member. v = Some (AMap member)")
    case True
    then obtain member where v: "v = Some (AMap member)" by blast
    show ?thesis
      unfolding safeMember_def v option.case any.case
      by ((rule let_obj, (auto intro!: fits simp: member_keys split: option.split any.split)[1])
          | rule let_any | (rule pred_option_Some, assumption))+
  next
    case False
    then show ?thesis by (auto simp: safeMember_def split: option.split any.split)
  qed
  then show "safeMember v viewer = Some m \<Longrightarrow> obj member_fields m" by simp
qed

lemma safeAttachment_obj: "safeAttachment v = Some m \<Longrightarrow> obj attachment_fields m"
proof -
  have "pred_option (obj attachment_fields) (safeAttachment v)"
  proof (cases v)
    case (AMap attachment)
    show ?thesis
      unfolding safeAttachment_def AMap any.case
      by ((rule let_obj, (auto intro!: fits obj_nullables simp: attachment_keys schema_keys split: option.split any.split)[1])
          | rule let_any | (rule pred_option_Some, (auto intro!: fits simp: attachment_keys schema_keys split: option.split any.split)[1]))+
  qed (simp_all add: safeAttachment_def)
  then show "safeAttachment v = Some m \<Longrightarrow> obj attachment_fields m" by simp
qed

lemma safeShare_obj: "safeEmoteCollectionShare v = Some m \<Longrightarrow> obj share_fields m"
proof -
  have person: "obj fs r \<Longrightarrow> map_of fs k = Some (SObj (strs [''id'', ''displayName''])) \<Longrightarrow> obj fs (copyPerson share k r)" for fs share k r
    by (auto intro!: fits simp: copyPerson_def schema_keys split: option.split any.split)
  have cover: "conforms (SObj (strs [''id'', ''label'', ''src''] @ [(''animated'', SBool)])) y" if "safeCover c = Some y" for c y
    using that by (auto intro!: fits simp: safeCover_def schema_keys split: any.split_asm)
  have "pred_option (obj share_fields) (safeEmoteCollectionShare v)"
  proof (cases "\<exists>share. v = Some (AMap share)")
    case True
    then obtain share where v: "v = Some (AMap share)" by blast
    show ?thesis
      unfolding safeEmoteCollectionShare_def v option.case any.case
      by ((rule let_obj, (auto intro!: fits person simp: share_keys)[1])
          | rule let_any | (rule pred_option_Some, (auto intro!: fits obj_list cover simp: share_keys simp del: obj_simps(1) split: option.split any.split)[1]))+
  next
    case False
    then show ?thesis by (auto simp: safeEmoteCollectionShare_def split: option.split any.split)
  qed
  then show "safeEmoteCollectionShare v = Some m \<Longrightarrow> obj share_fields m" by simp
qed

lemma safeCardBlock_obj: "safeCardBlock ulow block = Some m \<Longrightarrow> obj block_fields m"
  by (auto simp: safeCardBlock_def Let_def block_keys split: option.split_asm sum.split_asm if_split_asm)

lemma safeBlock_obj: "safeBlock ulow v = Some m \<Longrightarrow> obj block_fields m"
  by (auto simp: safeBlock_def Let_def block_keys share_schema_def dest: safeShare_obj safeCardBlock_obj
      split: any.split_asm option.split_asm if_split_asm)

lemma safeContent_obj:
  assumes "safeContent ulow md v = Some m"
  shows "obj content_fields m"
proof -
  have "list_all (conforms block_schema) (map AMap (List.map_filter (safeBlock ulow) bs))" for bs
  proof -
    have "list_all (obj block_fields) (List.map_filter (safeBlock ulow) bs)"
      by (rule map_filter_all) (rule safeBlock_obj)
    then show ?thesis by (simp add: list_all_iff block_schema_def)
  qed
  then show ?thesis
    using assms by (auto simp: safeContent_def Let_def content_keys split: any.split_asm option.split_asm)
qed

lemma safeReactionGroups_obj: "safeReactionGroups v = Some gs \<Longrightarrow> list_all (conforms reaction_schema) gs"
proof -
  have user: "obj (strs [''id'', ''displayName'', ''githubLogin'', ''avatarUrl'', ''createdAt''])
      (stringFields u [''id'', ''displayName'', ''githubLogin'', ''avatarUrl'', ''createdAt''])" for u
    by (rule obj_strings) (simp add: schema_keys)
  have "conforms reaction_schema y" if "safeReactionGroup g = Some y" for g y
  proof (cases g)
    case (AMap grp)
    have "obj reaction_fields (copyBoolField grp ''reactedByCurrentUser'' (copyIntField grp ''count'' (stringFields grp [''emoteKey''])))"
      by (auto intro!: fits simp: reaction_keys)
    then show ?thesis
      using that AMap
      by (auto intro!: fits obj_list simp: safeReactionGroup_def Let_def reaction_schema_def reaction_keys user
          split: option.split any.split any.split_asm)
  qed (use that in \<open>simp_all add: safeReactionGroup_def\<close>)
  then show "safeReactionGroups v = Some gs \<Longrightarrow> list_all (conforms reaction_schema) gs"
    by (auto simp: safeReactionGroups_def intro!: map_filter_all split: option.split_asm any.split_asm)
qed

text \<open>Elements of a projected list.\<close>

lemma map_AMap_all:
  "(\<And>x m. f x = Some m \<Longrightarrow> obj fs m) \<Longrightarrow> list_all (conforms (SObj fs)) (List.map_filter (\<lambda>x. map_option AMap (f x)) xs)"
  by (rule map_filter_all) auto

lemma attachments_fit: "list_all (conforms attachment_schema) (List.map_filter (\<lambda>a. map_option AMap (safeAttachment a)) xs)"
  unfolding attachment_schema_def by (rule map_AMap_all) (rule safeAttachment_obj)

lemma members_fit: "list_all (conforms member_schema) (List.map_filter (\<lambda>a. map_option AMap (safeMember (Some a) viewer)) xs)"
  unfolding member_schema_def by (rule map_AMap_all) (rule safeMember_obj)

lemma safeMessage_obj: "safeMessage ulow md v = Some m \<Longrightarrow> obj message_fields m"
proof -
  have "pred_option (obj message_fields) (safeMessage ulow md v)"
  proof (cases "\<exists>message. v = Some (AMap message)")
    case True
    then obtain message where v: "v = Some (AMap message)" by blast
    have pin: "obj (strs [''pinnedByUserId'', ''pinnedAt''] @ [(''canUnpin'', SBool)])
        (copyBoolField p ''canUnpin'' (stringFields p [''pinnedByUserId'', ''pinnedAt'']))" for p
      by (auto intro!: fits simp: schema_keys)
    have content: "conforms content_schema (AMap c)" if "safeContent ulow md x = Some c" for x c
      using safeContent_obj [OF that] by (simp add: content_schema_def)
    show ?thesis
      unfolding safeMessage_def v option.case any.case
      by ((rule let_obj, (auto intro!: fits obj_nullables pin attachments_fit simp: message_keys content Let_def
              dest: safeReactionGroups_obj split: option.split any.split)[1])
          | rule let_any | ((rule pred_option_Some)?, (auto intro!: fits simp: message_keys)[1]))+
  next
    case False
    then show ?thesis by (auto simp: safeMessage_def split: option.split any.split)
  qed
  then show "safeMessage ulow md v = Some m \<Longrightarrow> obj message_fields m" by simp
qed

lemma messages_fit: "list_all (conforms message_schema) (List.map_filter (\<lambda>a. map_option AMap (safeMessage ulow md (Some a))) xs)"
  unfolding message_schema_def by (rule map_AMap_all) (rule safeMessage_obj)

lemma safeConversation_obj: "safeConversation ulow md v viewer = Some m \<Longrightarrow> obj conversation_fields m"
proof -
  have "pred_option (obj conversation_fields) (safeConversation ulow md v viewer)"
  proof (cases "\<exists>conversation. v = Some (AMap conversation)")
    case True
    then obtain conversation where v: "v = Some (AMap conversation)" by blast
    have member: "conforms member_schema (AMap m) = obj member_fields m" for m
      by (simp add: member_schema_def)
    have peer: "pred_option (obj conversation_fields) (Let (if c then safeMember x viewer else None) f)"
      if "\<And>y. pred_option (obj member_fields) y \<Longrightarrow> pred_option (obj conversation_fields) (f y)" for c x f
      using that by (auto dest: safeMember_obj simp: option.pred_set Let_def)
    show ?thesis
      unfolding safeConversation_def v option.case any.case
      by ((rule let_obj, (auto intro!: fits obj_nullables obj_ints members_fit simp: conversation_keys member
              split: option.split any.split)[1])
          | rule peer | ((rule pred_option_Some)?, (auto intro!: fits messages_fit simp: conversation_keys
              split: option.split any.split)[1]))+
  next
    case False
    then show ?thesis by (auto simp: safeConversation_def split: option.split any.split)
  qed
  then show "safeConversation ulow md v viewer = Some m \<Longrightarrow> obj conversation_fields m" by simp
qed

lemma obj_append: "obj A m \<Longrightarrow> obj (A @ B) m"
  unfolding obj_def conforms_obj_iff by (fastforce simp: map_of_append map_add_Some_iff)

lemma obj_mono: "obj A m \<Longrightarrow> (\<And>k s. map_of A k = Some s \<Longrightarrow> map_of B k = Some s) \<Longrightarrow> obj B m"
  unfolding obj_def conforms_obj_iff by fastforce

lemma obj_if: "obj a x \<Longrightarrow> obj b y \<Longrightarrow> obj (if c then a else b) (if c then x else y)"
  by simp

lemma copyConversation_obj [fits]:
  "obj fs r \<Longrightarrow> map_of fs ''conversation'' = Some conversation_schema \<Longrightarrow> obj fs (copyConversation ulow md payload viewer r)"
  by (auto simp: copyConversation_def conversation_schema_def intro!: obj_put dest: safeConversation_obj split: option.split)

lemma schema_objects:
  "conforms member_schema (AMap m) = obj member_fields m"
  "conforms attachment_schema (AMap m) = obj attachment_fields m"
  "conforms message_schema (AMap m) = obj message_fields m"
  by (simp_all add: member_schema_def attachment_schema_def message_schema_def)

lemma type_obj:
  assumes "\<not> (stringField payload ''topicId'' \<noteq> [] \<and> (HasPrefix ty ''topic.'' \<or> ty = ''message.created''))"
  shows "obj (type_fields ty) (projectPayload ulow md ty payload viewer)"
  unfolding projectPayload_def type_fields_def Let_def if_not_P [OF assms]
  by ((rule obj_if, (auto intro!: fits simp: schema_keys schema_objects list_all_iff dest: safeMember_obj safeMessage_obj safeAttachment_obj
        safeReactionGroups_obj split: option.split)[1])+, simp)

lemma topic_types:
  assumes "HasPrefix ty ''topic.''"
  shows "type_fields ty = []"
proof (rule ccontr)
  let ?types = "[''workspace.member_joined'', ''workspace.member_updated'', ''workspace.member_visibility_updated'',
    ''workspace.member_removed'', ''conversation.created'', ''conversation.updated'', ''conversation.member_added'',
    ''conversation.member_removed'', ''conversation.notification_updated'', ''emote.settings.updated'', ''emote.library.updated'',
    ''card.created'', ''card.updated'', ''card.invalidated'', ''message.created'', ''message.recalled'', ''reaction.added'',
    ''reaction.removed'', ''message.pinned'', ''message.unpinned'', ''attachment.created'', ''attachment.available'',
    ''attachment.failed'', ''attachment.removed'', ''transfer.rejected'']"
  assume nonempty: "type_fields ty \<noteq> []"
  have "ty \<in> set ?types"
  proof (rule ccontr)
    assume "ty \<notin> set ?types"
    then have "type_fields ty = []" by (simp add: type_fields_def)
    then show False using nonempty by simp
  qed
  moreover have "list_all (\<lambda>t. \<not> HasPrefix t ''topic.'') ?types" by code_simp
  ultimately have "\<not> HasPrefix ty ''topic.''" unfolding list_all_iff by (rule bspec [rotated])
  then show False using assms by simp
qed

lemma topic_obj:
  assumes "HasPrefix ty ''topic.'' \<or> ty = ''message.created''"
  shows "obj (event_fields ty) (projectPayload ulow md ty payload viewer)"
proof (cases "stringField payload ''topicId'' = []")
  case True
  then show ?thesis by (simp add: event_fields_def obj_append type_obj)
next
  case False
  have "map_of (event_fields ty) k = Some s" if "map_of topic_fields k = Some s" for k s
  proof (cases "ty = ''message.created''")
    case True
    have "list_all (\<lambda>(k, s). map_of (event_fields ''message.created'') k = Some s) topic_fields" by code_simp
    then show ?thesis using map_of_SomeD [OF that] True unfolding list_all_iff by (auto dest: bspec)
  next
    case False
    then show ?thesis using assms that by (simp add: event_fields_def topic_types)
  qed
  moreover have "obj topic_fields (projectPayload ulow md ty payload viewer)"
    using False assms by (auto intro!: fits obj_copies simp: projectPayload_def topic_fields_def schema_keys Let_def)
  ultimately show ?thesis by (rule obj_mono [rotated])
qed

text \<open>
  C22 (events/service.go: projectPayload). Whatever a stored payload holds, what is sent to a
  client fits the schema of its event type: it has only the fields listed for that type, every
  field has its listed type, and so at every level of nesting.
\<close>

theorem projectPayload_type:
  "conforms (SObj (event_fields ty)) (AMap (projectPayload ulow md ty payload viewer))"
proof (cases "HasPrefix ty ''topic.'' \<or> ty = ''message.created''")
  case True
  then show ?thesis by (simp add: topic_obj)
next
  case False
  then show ?thesis by (simp add: event_fields_def type_obj)
qed

lemma map_of_copyStringField: "map_of (copyStringField src key dst) k = (if k = key \<and> stringField src key \<noteq> [] then Some (AStr (stringField src key)) else map_of dst k)"
  by (simp add: copyStringField_def Let_def gm_put_lookup)

lemma map_of_stringFields_None: "k \<notin> set keys \<Longrightarrow> map_of (stringFields src keys) k = None"
proof -
  have "k \<notin> set keys \<Longrightarrow> map_of (fold (copyStringField src) keys m) k = map_of m k" for m
    by (induction keys arbitrary: m) (simp_all add: map_of_copyStringField)
  then show "k \<notin> set keys \<Longrightarrow> map_of (stringFields src keys) k = None" by (simp add: stringFields_def)
qed

text \<open>\<open>lacks ks m\<close>: the map has none of the keys.\<close>

definition lacks :: "string list \<Rightarrow> payload \<Rightarrow> bool" where
  "lacks ks m = list_all (\<lambda>k. map_of m k = None) ks"

lemma lacks_steps:
  "k \<notin> set ks \<Longrightarrow> lacks ks m \<Longrightarrow> lacks ks (gm_put k v m)"
  "lacks ks m \<Longrightarrow> lacks ks (gm_del k m)"
  "k \<notin> set ks \<Longrightarrow> lacks ks m \<Longrightarrow> lacks ks (copyTextField src k m)"
  "k \<notin> set ks \<Longrightarrow> lacks ks m \<Longrightarrow> lacks ks (copyBoolField src k m)"
  by (auto simp: lacks_def list_all_iff gm_put_lookup gm_del_lookup copyTextField_def copyBoolField_def
      split: option.split any.split)

lemma lacks_stringFields: "set ks \<inter> set keys = {} \<Longrightarrow> lacks ks (stringFields src keys)"
  by (auto simp: lacks_def list_all_iff intro!: map_of_stringFields_None)

lemma let_lacks: "lacks ks a \<Longrightarrow> (\<And>x. lacks ks x \<Longrightarrow> pred_option (lacks ks) (f x)) \<Longrightarrow> pred_option (lacks ks) (Let a f)"
  by (simp add: Let_def)

lemma let_keep: "(\<And>x. x = a \<Longrightarrow> pred_option P (f x)) \<Longrightarrow> pred_option P (Let a f)"
  by (simp add: Let_def)

lemma safeMember_private:
  assumes "stringField member ''id'' \<noteq> viewer"
  shows "pred_option (lacks [''searchDiscoverable'', ''recallReason'']) (safeMember (Some (AMap member)) viewer)"
  unfolding safeMember_def option.case any.case
  by ((rule let_lacks, use assms in \<open>force intro!: lacks_steps lacks_stringFields split: option.split any.split\<close>)
      | rule let_keep | (rule pred_option_Some, assumption))+

lemma safeMember_remark:
  assumes "stringField member ''id'' = viewer"
  shows "pred_option (lacks [''remark'']) (safeMember (Some (AMap member)) viewer)"
  unfolding safeMember_def option.case any.case
  by ((rule let_lacks, use assms in \<open>force intro!: lacks_steps lacks_stringFields split: option.split any.split\<close>)
      | rule let_keep | (rule pred_option_Some, assumption))+

lemma safeMember_bot:
  assumes "stringField member ''kind'' \<noteq> ''human''"
  shows "pred_option (lacks [''githubLogin'', ''nickname'']) (safeMember (Some (AMap member)) viewer)"
  unfolding safeMember_def option.case any.case
  by (rule let_keep, rule let_keep, rule let_keep, rule let_keep, rule let_lacks,
      use assms in \<open>force simp: lacks_def gm_del_lookup\<close>)
    ((rule let_lacks, use assms in \<open>force intro!: lacks_steps split: option.split any.split\<close>)
      | rule let_keep | (rule pred_option_Some, assumption))+

text \<open>
  C23 (events/service.go: safeMember). A member card tells its viewer the private settings
  (search discoverability, recall reason) only of himself, his remark only about others, and a
  GitHub login or nickname only of humans.
\<close>

theorem safeMember_privacy:
  assumes "safeMember (Some (AMap member)) viewer = Some shown"
  shows "(map_of shown ''searchDiscoverable'' \<noteq> None \<or> map_of shown ''recallReason'' \<noteq> None \<longrightarrow> stringField member ''id'' = viewer) \<and>
    (map_of shown ''remark'' \<noteq> None \<longrightarrow> stringField member ''id'' \<noteq> viewer) \<and>
    (map_of shown ''githubLogin'' \<noteq> None \<or> map_of shown ''nickname'' \<noteq> None \<longrightarrow> stringField member ''kind'' = ''human'')"
proof -
  have "map_of shown ''searchDiscoverable'' = None \<and> map_of shown ''recallReason'' = None" if "stringField member ''id'' \<noteq> viewer"
    using safeMember_private [OF that] by (simp add: assms lacks_def)
  moreover have "map_of shown ''remark'' = None" if "stringField member ''id'' = viewer"
    using safeMember_remark [OF that] by (simp add: assms lacks_def)
  moreover have "map_of shown ''githubLogin'' = None \<and> map_of shown ''nickname'' = None" if "stringField member ''kind'' \<noteq> ''human''"
    using safeMember_bot [OF that, of viewer] by (simp add: assms lacks_def)
  ultimately show ?thesis
    by (cases "stringField member ''id'' = viewer"; cases "stringField member ''kind'' = ''human''"; simp)
qed

definition sample_member :: payload where
  "sample_member = [(''id'', AStr ''u1''), (''kind'', AStr ''human''), (''displayName'', AStr ''Ann''), (''githubLogin'', AStr ''ann''),
     (''remark'', AStr ''boss''), (''searchDiscoverable'', ABool True), (''passwordHash'', AStr ''x'')]"

theorem safeMember_privacy_witness:
  "map_of (the (safeMember (Some (AMap sample_member)) ''u1'')) ''remark'' = None \<and>
   map_of (the (safeMember (Some (AMap sample_member)) ''u2'')) ''searchDiscoverable'' = None \<and>
   map_of (the (safeMember (Some (AMap sample_member)) ''u2'')) ''remark'' = Some (AStr ''boss'')"
proof -
  have "safeMember (Some (AMap sample_member)) v = Some (the (safeMember (Some (AMap sample_member)) v))" for v
    by (simp add: safeMember_def Let_def)
  note shown = this [of "''u1''", THEN safeMember_privacy] this [of "''u2''", THEN safeMember_privacy]
  have "stringField sample_member ''id'' = ''u1''" by code_simp
  then have "map_of (the (safeMember (Some (AMap sample_member)) ''u1'')) ''remark'' = None"
    "map_of (the (safeMember (Some (AMap sample_member)) ''u2'')) ''searchDiscoverable'' = None"
    using shown by force+
  moreover have "map_of (the (safeMember (Some (AMap sample_member)) ''u2'')) ''remark'' = Some (AStr ''boss'')" by code_simp
  ultimately show ?thesis by blast
qed

end
