(* ===== verification/Events_Store.thy ===== *)
theory Events_Store
  imports Events_Payload
begin

text \<open>
  The durable event log in PostgreSQL and the repository functions that write it. The
  database is a record of tables; a table is the list of its rows in insertion order, with
  the columns the event code reads. The packages write events by three different SQL
  reservations of the next sequence number: an upsert of the cursor row (messages, files,
  cards, emotes, interactions and the three echo packages), an upsert that starts from the
  largest stored number (topics), and a locked read followed by an update (conversations,
  avatars, members).
\<close>

section \<open>Tables\<close>

record user_row =
  u_id :: string
  u_kind :: string

record space_member_row =
  sm_space_id :: string
  sm_user_id :: string
  sm_role :: string
  sm_removed :: bool

record conversation_row =
  c_id :: string
  c_space_id :: string
  c_type :: string
  c_title :: string
  c_avatar_emoji :: "string option"
  c_direct_key :: "string option"
  c_retention_count :: int
  c_created_by :: "string option"
  c_created_at :: time

record conversation_member_row =
  cm_conversation_id :: string
  cm_user_id :: string
  cm_removed :: bool
  cm_joined_at :: time
  cm_last_read_message_id :: "string option"
  cm_last_read_at :: "time option"
  cm_last_read_seq :: "int option"
  cm_notification_level :: string

record topic_row =
  t_id :: string
  t_space_id :: string
  t_conversation_id :: string
  t_status :: string

record topic_member_row =
  tm_topic_id :: string
  tm_user_id :: string
  tm_left :: bool

record card_row =
  wc_id :: string
  wc_space_id :: string
  wc_conversation_id :: "string option"
  wc_visibility_scope :: string

record attachment_row =
  at_id :: string
  at_space_id :: string
  at_uploader_id :: string
  at_conversation_id :: "string option"
  at_visibility :: string
  at_status :: string
  at_file_name :: string
  at_mime_type :: string
  at_byte_size :: int
  at_created_at :: time
  at_completed_at :: "time option"

record grant_row =
  g_space_id :: string
  g_viewer_user_id :: string
  g_visible_user_id :: string

record db =
  users :: "user_row list"
  space_members :: "space_member_row list"
  conversations :: "conversation_row list"
  conversation_members :: "conversation_member_row list"
  topics :: "topic_row list"
  topic_members :: "topic_member_row list"
  workspace_cards :: "card_row list"
  attachments :: "attachment_row list"
  member_visibility_grants :: "grant_row list"
  workspace_events :: "EventRecord list"
  workspace_event_cursors :: "(string, int) gomap"

text \<open>The events of a space, in the order they were committed, and the largest number, if any.\<close>

definition space_log :: "string \<Rightarrow> db \<Rightarrow> EventRecord list" where
  "space_log space d = filter (\<lambda>r. er_SpaceID r = space) (workspace_events d)"

definition max_seq :: "string \<Rightarrow> db \<Rightarrow> int option" where
  "max_seq space d = (case map er_Seq (space_log space d) of [] \<Rightarrow> None | s # ss \<Rightarrow> Some (fold max ss s))"

section \<open>Writing an event\<close>

record EventInput =
  ei_ID :: string
  ei_SpaceID :: string
  ei_Type :: string
  ei_ActorID :: string
  ei_ConversationID :: string
  ei_TargetType :: string
  ei_TargetID :: string
  ei_PayloadJSON :: string
  ei_CreatedAt :: time

text \<open>The zero \<open>time.Time\<close> is 0001-01-01T00:00:00Z.\<close>

definition zero_time :: time where
  "zero_time = -62135596800 * Second"

definition trunc_ms :: "time \<Rightarrow> time" where
  "trunc_ms t = t - t mod 1000000"

text \<open>A \<open>timestamptz\<close> column holds microseconds, a \<open>bigint\<close> column 64 bits; \<open>NULLIF(v, '')\<close>.\<close>

definition pg_timestamp :: "time \<Rightarrow> time" where
  "pg_timestamp t = t - t mod 1000"

definition max_bigint :: int where
  "max_bigint = 2 ^ 63 - 1"

definition NULLIF_empty :: "string \<Rightarrow> string option" where
  "NULLIF_empty v = (if v = [] then None else Some v)"

text \<open>
  A statement may fail for a reason of the database's own: \<open>flt i\<close> is the error of the
  \<open>i\<close>-th statement of the function, if it has one.
\<close>

type_synonym faults = "nat \<Rightarrow> string option"

definition statement :: "faults \<Rightarrow> nat \<Rightarrow> (string, 'a) result \<Rightarrow> (string, 'a) result" where
  "statement flt i r = (case flt i of Some e \<Rightarrow> Inl e | None \<Rightarrow> r)"

definition advance_cursor :: "string \<Rightarrow> db \<Rightarrow> (string, db) result" where
  "advance_cursor space d =
    (case map_of (workspace_event_cursors d) space of
       None \<Rightarrow> Inr d
     | Some n \<Rightarrow>
         if n + 1 > max_bigint then Inl ''bigint out of range''
         else Inr (d\<lparr>workspace_event_cursors := gm_put space (n + 1) (workspace_event_cursors d)\<rparr>))"

text \<open>INSERT ... VALUES (space, 2) ON CONFLICT DO UPDATE SET next_seq = next_seq + 1; the result is the number reserved.\<close>

definition reserve_upsert :: "string \<Rightarrow> db \<Rightarrow> (string, int \<times> db) result" where
  "reserve_upsert space d =
    (case map_of (workspace_event_cursors d) space of
       None \<Rightarrow> Inr (1, d\<lparr>workspace_event_cursors := gm_put space 2 (workspace_event_cursors d)\<rparr>)
     | Some n \<Rightarrow> result_bind (advance_cursor space d) (\<lambda>d1. Inr (n, d1)))"

definition first_seq :: "string \<Rightarrow> db \<Rightarrow> int" where
  "first_seq space d = (case max_seq space d of None \<Rightarrow> 1 | Some m \<Rightarrow> m + 1)"

text \<open>The same, starting after the largest stored number.\<close>

definition reserve_max :: "string \<Rightarrow> db \<Rightarrow> (string, int \<times> db) result" where
  "reserve_max space d =
    (case map_of (workspace_event_cursors d) space of
       None \<Rightarrow>
         let s = first_seq space d in
         if s + 1 > max_bigint then Inl ''bigint out of range''
         else Inr (s, d\<lparr>workspace_event_cursors := gm_put space (s + 1) (workspace_event_cursors d)\<rparr>)
     | Some n \<Rightarrow> result_bind (advance_cursor space d) (\<lambda>d1. Inr (n, d1)))"

text \<open>INSERT ... ON CONFLICT DO NOTHING RETURNING next_seq, else SELECT ... FOR UPDATE; then UPDATE.\<close>

definition reserve_lock :: "faults \<Rightarrow> (string \<Rightarrow> string \<Rightarrow> string) \<Rightarrow> string list \<Rightarrow> string \<Rightarrow> db \<Rightarrow> (string, int \<times> db) result" where
  "reserve_lock flt internal ops space d =
    (case statement flt 0 (Inr (map_of (workspace_event_cursors d) space)) of
       Inl e \<Rightarrow> Inl (internal (ops ! 0) e)
     | Inr None \<Rightarrow>
         let s = first_seq space d;
             d1 = d\<lparr>workspace_event_cursors := gm_put space s (workspace_event_cursors d)\<rparr>
         in if s > max_bigint then Inl (internal (ops ! 0) ''bigint out of range'')
            else (case statement flt 1 (advance_cursor space d1) of
                    Inl e \<Rightarrow> Inl (internal (ops ! 2) e)
                  | Inr d2 \<Rightarrow> Inr (s, d2))
     | Inr (Some n) \<Rightarrow>
         (case statement flt 1 (Inr n) of
            Inl e \<Rightarrow> Inl (internal (ops ! 1) e)
          | Inr s \<Rightarrow>
              (case statement flt 2 (advance_cursor space d) of
                 Inl e \<Rightarrow> Inl (internal (ops ! 2) e)
               | Inr d2 \<Rightarrow> Inr (s, d2))))"

text \<open>INSERT INTO workspace_events; the id is the primary key and (space, number) is unique.\<close>

definition event_row :: "EventInput \<Rightarrow> int \<Rightarrow> string \<Rightarrow> time \<Rightarrow> EventRecord" where
  "event_row input s payload created =
    \<lparr>er_ID = ei_ID input, er_SpaceID = ei_SpaceID input, er_Seq = s, er_Type = ei_Type input,
     er_ActorID = NULLIF_empty (ei_ActorID input), er_ConversationID = NULLIF_empty (ei_ConversationID input),
     er_TargetType = NULLIF_empty (ei_TargetType input), er_TargetID = NULLIF_empty (ei_TargetID input),
     er_PayloadJSON = payload, er_CreatedAt = pg_timestamp created\<rparr>"

definition insert_event :: "EventRecord \<Rightarrow> db \<Rightarrow> (string, db) result" where
  "insert_event r d =
    (if er_ID r \<in> set (map er_ID (workspace_events d)) then Inl ''duplicate key value violates unique constraint''
     else if er_Seq r \<in> set (map er_Seq (space_log (er_SpaceID r) d)) then Inl ''duplicate key value violates unique constraint''
     else Inr (d\<lparr>workspace_events := workspace_events d @ [r]\<rparr>))"

text \<open>The text of the cause that the packages' \<open>internalError\<close> wraps; its code and status are constant.\<close>

definition wrap :: "string \<Rightarrow> string \<Rightarrow> string" where
  "wrap operation cause = operation @ '': '' @ cause"

definition payload_or_empty :: "string \<Rightarrow> string" where
  "payload_or_empty raw = (if raw = [] then ''{}'' else raw)"

definition json_Valid :: "string \<Rightarrow> bool" where
  "json_Valid raw \<longleftrightarrow> json_text raw \<noteq> None"

text \<open>\<open>newid\<close> is the answer of the id factory.\<close>

definition with_id :: "(string, string) result \<Rightarrow> EventInput \<Rightarrow> (string, EventInput) result" where
  "with_id newid input =
    (if TrimSpace (ei_ID input) = [] then result_bind newid (\<lambda>i. Inr (input\<lparr>ei_ID := i\<rparr>)) else Inr input)"

definition trimmed_id :: "string \<Rightarrow> (string, string) result \<Rightarrow> (string, string) result" where
  "trimmed_id message newid =
    result_bind newid (\<lambda>i. let id1 = TrimSpace i in if id1 = [] then Inl message else Inr id1)"

definition map_err :: "('e \<Rightarrow> 'f) \<Rightarrow> ('e, 'a) result \<Rightarrow> ('f, 'a) result" where
  "map_err f r = (case r of Inl e \<Rightarrow> Inl (f e) | Inr x \<Rightarrow> Inr x)"

text \<open>conversations/pg_repository.go\<close>

definition conversations_WriteEvent :: "(string, string) result \<Rightarrow> faults \<Rightarrow> EventInput \<Rightarrow> db \<Rightarrow> (string, db) result" where
  "conversations_WriteEvent newid flt input0 d =
    result_bind (map_err (wrap ''generate workspace event id'') (with_id newid input0)) (\<lambda>input.
      if ei_CreatedAt input = zero_time then Inl (wrap ''write workspace event'' ''event timestamp is required'')
      else result_bind (reserve_lock flt wrap
          [''reserve workspace event sequence'', ''lock workspace event cursor'', ''advance workspace event cursor''] (ei_SpaceID input) d)
        (\<lambda>(s, d1). map_err (wrap ''write workspace event'')
          (statement flt 3 (insert_event (event_row input s (payload_or_empty (ei_PayloadJSON input)) (ei_CreatedAt input)) d1))))"

text \<open>avatars/pg_repository.go\<close>

definition fields_missing :: "EventInput \<Rightarrow> bool" where
  "fields_missing input \<longleftrightarrow> TrimSpace (ei_SpaceID input) = [] \<or> TrimSpace (ei_Type input) = [] \<or> ei_CreatedAt input = zero_time"

definition avatars_WriteEvent :: "faults \<Rightarrow> EventInput \<Rightarrow> db \<Rightarrow> (string, db) result" where
  "avatars_WriteEvent flt input d =
    (let payload = payload_or_empty (ei_PayloadJSON input) in
     if TrimSpace (ei_ID input) = [] \<or> fields_missing input then Inl (wrap ''write workspace avatar event'' ''event fields are required'')
     else if \<not> json_Valid payload then Inl (wrap ''write workspace avatar event'' ''event payload is not valid JSON'')
     else result_bind (reserve_lock flt wrap
          [''reserve workspace avatar event sequence'', ''lock workspace avatar event cursor'', ''advance workspace avatar event cursor''] (ei_SpaceID input) d)
       (\<lambda>(s, d1). map_err (wrap ''write workspace avatar event'')
          (statement flt 3 (insert_event (event_row input s payload (trunc_ms (ei_CreatedAt input))) d1))))"

text \<open>messages/pg_repository.go; the event id, space and number are returned too.\<close>

definition event_ref :: "EventRecord \<Rightarrow> string \<times> string \<times> int" where
  "event_ref r = (er_ID r, er_SpaceID r, er_Seq r)"

definition messages_WriteEvent ::
  "(string, string) result \<Rightarrow> faults \<Rightarrow> EventInput \<Rightarrow> db \<Rightarrow> (string, (string \<times> string \<times> int) \<times> db) result" where
  "messages_WriteEvent newid flt input0 d =
    (let payload = payload_or_empty (ei_PayloadJSON input0) in
     if fields_missing input0 then Inl ''workspace event fields are required''
     else if \<not> json_Valid payload then Inl ''workspace event payload is not valid JSON''
     else result_bind (with_id (trimmed_id ''workspace message id factory returned an empty id'' newid) input0) (\<lambda>input.
       result_bind (statement flt 0 (reserve_upsert (ei_SpaceID input) d)) (\<lambda>(s, d1).
         let row = event_row input s payload (trunc_ms (ei_CreatedAt input)) in
         result_bind (statement flt 1 (insert_event row d1)) (\<lambda>d2. Inr (event_ref row, d2)))))"

text \<open>cards/pg_repository.go\<close>

definition cards_WriteEvent ::
  "(string, string) result \<Rightarrow> faults \<Rightarrow> EventInput \<Rightarrow> db \<Rightarrow> (string, (string \<times> string \<times> int) \<times> db) result" where
  "cards_WriteEvent newid flt input0 d =
    result_bind (with_id (trimmed_id ''card event id factory returned an empty id'' newid) input0) (\<lambda>input.
      let payload = payload_or_empty (ei_PayloadJSON input) in
      if fields_missing input then Inl ''card event fields are required''
      else if \<not> json_Valid payload then Inl ''card event payload is not valid JSON''
      else result_bind (statement flt 0 (reserve_upsert (ei_SpaceID input) d)) (\<lambda>(s, d1).
        let row = event_row input s payload (ei_CreatedAt input) in
        result_bind (statement flt 1 (insert_event row d1)) (\<lambda>d2. Inr (event_ref row, d2))))"

text \<open>files/pg_repository.go\<close>

definition files_WriteEvent :: "(string, string) result \<Rightarrow> faults \<Rightarrow> EventInput \<Rightarrow> db \<Rightarrow> (string, db) result" where
  "files_WriteEvent newid flt input0 d =
    result_bind (map_err (wrap ''generate workspace file event id'') (with_id newid input0)) (\<lambda>input.
      let payload = payload_or_empty (ei_PayloadJSON input) in
      if fields_missing input then Inl (wrap ''write workspace file event'' ''event fields are required'')
      else if \<not> json_Valid payload then Inl (wrap ''write workspace file event'' ''event payload is not valid JSON'')
      else result_bind (map_err (wrap ''reserve workspace file event sequence'') (statement flt 0 (reserve_upsert (ei_SpaceID input) d)))
        (\<lambda>(s, d1). map_err (wrap ''write workspace file event'')
          (statement flt 1 (insert_event (event_row input s payload (trunc_ms (ei_CreatedAt input))) d1))))"

text \<open>topics/pg_repository.go\<close>

definition topics_WriteEvent ::
  "(string, string) result \<Rightarrow> faults \<Rightarrow> EventInput \<Rightarrow> db \<Rightarrow> (string, (string \<times> string \<times> int) \<times> db) result" where
  "topics_WriteEvent newid flt input0 d =
    result_bind (with_id (trimmed_id ''workspace topic id factory returned an empty id'' newid) input0) (\<lambda>input.
      let payload = payload_or_empty (ei_PayloadJSON input) in
      if fields_missing input then Inl ''workspace event fields are required''
      else if \<not> json_Valid payload then Inl ''workspace event payload is not valid JSON''
      else result_bind (statement flt 0 (reserve_max (ei_SpaceID input) d)) (\<lambda>(s, d1).
        let row = event_row input s payload (ei_CreatedAt input) in
        result_bind (statement flt 1 (insert_event row d1)) (\<lambda>d2. Inr (event_ref row, d2))))"

text \<open>interactions/pg_repository.go\<close>

definition empty_id :: "(string, string) result \<Rightarrow> EventInput \<Rightarrow> (string, EventInput) result" where
  "empty_id newid input = (if ei_ID input = [] then result_bind newid (\<lambda>i. Inr (input\<lparr>ei_ID := i\<rparr>)) else Inr input)"

definition interactions_WriteEvent ::
  "(string, string) result \<Rightarrow> faults \<Rightarrow> EventInput \<Rightarrow> db \<Rightarrow> (string, (string \<times> string \<times> int) \<times> db) result" where
  "interactions_WriteEvent newid flt input0 d =
    result_bind (empty_id (trimmed_id ''interaction event id factory returned an empty id'' newid) input0) (\<lambda>input.
      let payload = payload_or_empty (ei_PayloadJSON input) in
      if \<not> json_Valid payload then Inl ''interaction event payload is not valid JSON''
      else result_bind (statement flt 0 (reserve_upsert (ei_SpaceID input) d)) (\<lambda>(s, d1).
        let row = event_row input s payload (ei_CreatedAt input) in
        result_bind (statement flt 1 (insert_event row d1)) (\<lambda>d2. Inr (event_ref row, d2))))"

text \<open>echo/solicitations/pg_repository.go\<close>

definition solicitations_WriteEvent ::
  "(string, string) result \<Rightarrow> faults \<Rightarrow> EventInput \<Rightarrow> db \<Rightarrow> (string, (string \<times> string \<times> int) \<times> db) result" where
  "solicitations_WriteEvent newid flt input0 d =
    result_bind (with_id (trimmed_id ''echo solicitation event id factory returned an empty id'' newid) input0) (\<lambda>input.
      let payload = payload_or_empty (ei_PayloadJSON input) in
      if \<not> json_Valid payload then Inl ''echo solicitation event payload is not valid JSON''
      else result_bind (statement flt 0 (reserve_upsert (ei_SpaceID input) d)) (\<lambda>(s, d1).
        let row = event_row input s payload (ei_CreatedAt input) in
        result_bind (statement flt 1 (insert_event row d1)) (\<lambda>d2. Inr (event_ref row, d2))))"

text \<open>
  The inputs of the echo requirements, emotes and members packages have no conversation; their
  rows have NULL there. The id factory of echo requirements keeps the blanks around its id.
\<close>

definition no_conversation :: "EventInput \<Rightarrow> EventInput" where
  "no_conversation input = input\<lparr>ei_ConversationID := []\<rparr>"

definition nonblank_id :: "string \<Rightarrow> (string, string) result \<Rightarrow> (string, string) result" where
  "nonblank_id message newid = result_bind newid (\<lambda>i. if TrimSpace i = [] then Inl message else Inr i)"

text \<open>echo/requirements/pg_repository.go\<close>

definition requirements_WriteEvent ::
  "(string, string) result \<Rightarrow> faults \<Rightarrow> EventInput \<Rightarrow> db \<Rightarrow> (string, (string \<times> string \<times> int) \<times> db) result" where
  "requirements_WriteEvent newid flt input0 d =
    result_bind (with_id (nonblank_id ''echo requirement event id factory returned an empty id'' newid) input0) (\<lambda>input.
      let payload = payload_or_empty (ei_PayloadJSON input) in
      if \<not> json_Valid payload then Inl ''echo requirement event payload is not valid JSON''
      else result_bind (statement flt 0 (reserve_upsert (ei_SpaceID input) d)) (\<lambda>(s, d1).
        let row = event_row (no_conversation input) s payload (ei_CreatedAt input) in
        result_bind (statement flt 1 (insert_event row d1)) (\<lambda>d2. Inr (event_ref row, d2))))"

text \<open>emotes/pg_repository.go\<close>

definition emotes_WriteEvent :: "(string, string) result \<Rightarrow> faults \<Rightarrow> EventInput \<Rightarrow> db \<Rightarrow> (string, db) result" where
  "emotes_WriteEvent newid flt input0 d =
    (let payload = payload_or_empty (ei_PayloadJSON input0) in
     if fields_missing input0 then Inl ''workspace emote event fields are required''
     else if \<not> json_Valid payload then Inl ''workspace emote event payload is not valid JSON''
     else result_bind (empty_id (trimmed_id ''workspace emote id factory returned an empty id'' newid) input0) (\<lambda>input.
       result_bind (statement flt 0 (reserve_upsert (ei_SpaceID input) d)) (\<lambda>(s, d1).
         statement flt 1 (insert_event (event_row (no_conversation input) s payload (ei_CreatedAt input)) d1))))"

text \<open>members/pg_repository.go\<close>

definition members_WriteEvent :: "(string, string) result \<Rightarrow> faults \<Rightarrow> EventInput \<Rightarrow> db \<Rightarrow> (string, db) result" where
  "members_WriteEvent newid flt input0 d =
    result_bind (map_err (wrap ''generate workspace member event id'')
        (with_id (trimmed_id ''id factory returned an empty id'' newid) input0)) (\<lambda>input.
      if fields_missing input then Inl (wrap ''write workspace member event'' ''event fields are required'')
      else result_bind (reserve_lock flt wrap
          [''reserve workspace event sequence'', ''lock workspace event cursor'', ''advance workspace event cursor''] (ei_SpaceID input) d)
        (\<lambda>(s, d1). map_err (wrap ''write workspace member event'')
          (statement flt 3 (insert_event
            (event_row (no_conversation input) s (payload_or_empty (ei_PayloadJSON input)) (trunc_ms (ei_CreatedAt input))) d1))))"

text \<open>
  echo/delivery/pg_repository.go: its payload is a Go value, and \<open>marshalled\<close> the answer of
  \<open>json.Marshal\<close> on it; \<open>now\<close> is the clock.
\<close>

definition delivery_eventID :: "(string, string) result \<Rightarrow> string \<Rightarrow> (string, string) result" where
  "delivery_eventID newid v = (if TrimSpace v \<noteq> [] then Inr (TrimSpace v) else newid)"

definition auditTime :: "time \<Rightarrow> time \<Rightarrow> time" where
  "auditTime now v = (if v = zero_time then trunc_ms now else trunc_ms v)"

definition delivery_WriteEvent ::
  "time \<Rightarrow> (string, string) result \<Rightarrow> (string, string) result \<Rightarrow> faults \<Rightarrow> EventInput \<Rightarrow> db \<Rightarrow> (string, db) result" where
  "delivery_WriteEvent now marshalled newid flt input d =
    result_bind marshalled (\<lambda>payload.
      result_bind (delivery_eventID newid (ei_ID input)) (\<lambda>i.
        result_bind (statement flt 0 (reserve_upsert (ei_SpaceID input) d)) (\<lambda>(s, d1).
          statement flt 1 (insert_event (event_row (input\<lparr>ei_ID := i\<rparr>) s payload (auditTime now (ei_CreatedAt input))) d1))))"

section \<open>The invariant of the log\<close>

definition next_seq :: "string \<Rightarrow> db \<Rightarrow> int" where
  "next_seq space d = (case map_of (workspace_event_cursors d) space of Some n \<Rightarrow> n | None \<Rightarrow> 1)"

text \<open>
  Every event has a number of at least 1 below the cursor of its space, later rows of a space
  have larger numbers, ids are distinct, and cursors are 64-bit numbers.
\<close>

definition cursor_ok :: "db \<Rightarrow> bool" where
  "cursor_ok d \<longleftrightarrow>
    list_all (\<lambda>r. case map_of (workspace_event_cursors d) (er_SpaceID r) of
        Some n \<Rightarrow> 1 \<le> er_Seq r \<and> er_Seq r < n | None \<Rightarrow> False) (workspace_events d) \<and>
    list_all (\<lambda>(space, n). 1 \<le> n \<and> n \<le> max_bigint) (workspace_event_cursors d) \<and>
    sorted_wrt (\<lambda>a b. er_SpaceID a = er_SpaceID b \<longrightarrow> er_Seq a < er_Seq b) (workspace_events d) \<and>
    distinct (map er_ID (workspace_events d))"

text \<open>One row was appended, with the next number of its space.\<close>

definition appended :: "db \<Rightarrow> EventRecord \<Rightarrow> db \<Rightarrow> bool" where
  "appended d r d' \<longleftrightarrow>
    er_Seq r = next_seq (er_SpaceID r) d \<and> er_Seq r < max_bigint \<and> er_ID r \<notin> set (map er_ID (workspace_events d)) \<and>
    d' = d\<lparr>workspace_events := workspace_events d @ [r],
           workspace_event_cursors := gm_put (er_SpaceID r) (er_Seq r + 1) (workspace_event_cursors d)\<rparr>"

lemma cursor_ok_event:
  assumes "cursor_ok d" "r \<in> set (workspace_events d)"
  shows "1 \<le> er_Seq r \<and> er_Seq r < next_seq (er_SpaceID r) d"
  using assms by (force simp: cursor_ok_def list_all_iff next_seq_def split: option.split_asm)

lemma next_seq_pos: "cursor_ok d \<Longrightarrow> 1 \<le> next_seq space d"
  by (auto simp: cursor_ok_def list_all_iff next_seq_def split: option.split dest!: gm_lookup_in)

lemma no_cursor_no_events: "cursor_ok d \<Longrightarrow> map_of (workspace_event_cursors d) space = None \<Longrightarrow> space_log space d = []"
  by (force simp: cursor_ok_def list_all_iff space_log_def filter_empty_conv)

lemma gm_put_entries: "x \<in> set (gm_put k v m) \<Longrightarrow> x = (k, v) \<or> x \<in> set m"
  by (induction m rule: gm_put.induct) (auto split: if_split_asm)

lemma appended_ok:
  assumes ok: "cursor_ok d" and app: "appended d r d'"
  shows "cursor_ok d'"
proof -
  let ?c = "workspace_event_cursors d"
  have seq: "er_Seq r = next_seq (er_SpaceID r) d" and small: "er_Seq r < max_bigint"
    and new: "er_ID r \<notin> set (map er_ID (workspace_events d))"
    and d': "workspace_events d' = workspace_events d @ [r]" "workspace_event_cursors d' = gm_put (er_SpaceID r) (er_Seq r + 1) ?c"
    using app by (simp_all add: appended_def)
  have pos: "1 \<le> er_Seq r" using next_seq_pos [OF ok] seq by simp
  have old: "1 \<le> er_Seq e \<and> er_Seq e < next_seq (er_SpaceID e) d" if "e \<in> set (workspace_events d)" for e
    using cursor_ok_event [OF ok that] .
  have some: "map_of ?c (er_SpaceID e) \<noteq> None" if "e \<in> set (workspace_events d)" for e
    using ok that by (force simp: cursor_ok_def list_all_iff split: option.split_asm)
  have "case map_of (workspace_event_cursors d') (er_SpaceID e) of Some n \<Rightarrow> 1 \<le> er_Seq e \<and> er_Seq e < n | None \<Rightarrow> False"
    if "e \<in> set (workspace_events d')" for e
    using that old [of e] some [of e] pos seq by (auto simp: d' gm_put_lookup next_seq_def split: option.split_asm)
  moreover have "1 \<le> n \<and> n \<le> max_bigint" if "(sp, n) \<in> set (workspace_event_cursors d')" for sp n
    using that ok pos small gm_put_entries [of "(sp, n)" "er_SpaceID r" "er_Seq r + 1" ?c]
    by (auto simp: d' cursor_ok_def list_all_iff)
  moreover have "sorted_wrt (\<lambda>a b. er_SpaceID a = er_SpaceID b \<longrightarrow> er_Seq a < er_Seq b) (workspace_events d')"
    using ok seq by (force simp: d' cursor_ok_def sorted_wrt_append dest: old)
  moreover have "distinct (map er_ID (workspace_events d'))"
    using ok new by (auto simp: d' cursor_ok_def)
  ultimately show ?thesis by (auto simp: cursor_ok_def list_all_iff)
qed

lemma appended_log: "appended d r d' \<Longrightarrow> space_log space d' = space_log space d @ (if space = er_SpaceID r then [r] else [])"
  by (auto simp: appended_def space_log_def)

section \<open>The reservations\<close>

text \<open>What each reservation does on a database that satisfies the invariant.\<close>

definition reserve_spec :: "string \<Rightarrow> db \<Rightarrow> (string, int \<times> db) result" where
  "reserve_spec space d =
    (let s = next_seq space d in
     if s + 1 > max_bigint then Inl ''bigint out of range''
     else Inr (s, d\<lparr>workspace_event_cursors := gm_put space (s + 1) (workspace_event_cursors d)\<rparr>))"

lemma gm_put_twice: "gm_put k v (gm_put k u m) = gm_put k v m"
  by (induction m rule: gm_put.induct) auto

lemma reserve_upsert_spec: "reserve_upsert space d = reserve_spec space d"
  by (auto simp: reserve_upsert_def reserve_spec_def next_seq_def advance_cursor_def max_bigint_def split: option.split)

lemma reserve_max_spec: "cursor_ok d \<Longrightarrow> reserve_max space d = reserve_spec space d"
  by (auto simp: reserve_max_def reserve_spec_def next_seq_def advance_cursor_def first_seq_def max_seq_def no_cursor_no_events
      split: option.split)

lemma reserve_lock_spec:
  "cursor_ok d \<Longrightarrow> reserve_lock (\<lambda>_. None) internal ops space d = map_err (internal (ops ! 2)) (reserve_spec space d)"
  by (auto simp: reserve_lock_def reserve_spec_def next_seq_def advance_cursor_def first_seq_def max_seq_def no_cursor_no_events
      statement_def map_err_def gm_put_lookup gm_put_twice max_bigint_def split: option.split)

lemma reserve_lock_Inr:
  assumes "cursor_ok d" "reserve_lock flt internal ops space d = Inr x"
  shows "reserve_spec space d = Inr x"
  using assms
  by (auto simp: reserve_lock_def reserve_spec_def next_seq_def advance_cursor_def first_seq_def max_seq_def no_cursor_no_events
      statement_def gm_put_lookup gm_put_twice max_bigint_def split: option.split_asm sum.split_asm if_split_asm)

lemma event_row_space [simp]: "er_SpaceID (event_row input s payload created) = ei_SpaceID input"
  by (simp add: event_row_def)

lemma stored:
  assumes "reserve_spec space d = Inr (s, d1)" "insert_event (event_row input s payload created) d1 = Inr d'" "ei_SpaceID input = space"
  shows "\<exists>r. appended d r d' \<and> er_SpaceID r = space"
proof (intro exI conjI)
  show "appended d (event_row input s payload created) d'"
    using assms by (auto simp: reserve_spec_def Let_def insert_event_def appended_def event_row_def split: if_split_asm)
qed (simp add: assms(3))

lemmas stored_upsert = stored [OF reserve_upsert_spec [symmetric, THEN trans]]
lemmas stored_max = stored [OF reserve_max_spec [symmetric, THEN trans]]
lemmas stored_lock = stored [OF reserve_lock_Inr]

lemma statement_Inr: "statement flt i r = Inr x \<longleftrightarrow> flt i = None \<and> r = Inr x"
  by (simp add: statement_def split: option.split)

lemma map_err_Inr: "map_err f r = Inr x \<longleftrightarrow> r = Inr x"
  by (cases r) (simp_all add: map_err_def)

section \<open>The contract of a writer\<close>

locale event_writer =
  fixes put_event :: "EventInput \<Rightarrow> db \<Rightarrow> (string, db) result"
  assumes appends: "cursor_ok d \<Longrightarrow> put_event input d = Inr d' \<Longrightarrow> \<exists>r. appended d r d' \<and> er_SpaceID r = ei_SpaceID input"
begin

lemma keeps_ok: "cursor_ok d \<Longrightarrow> put_event input d = Inr d' \<Longrightarrow> cursor_ok d'"
  using appends appended_ok by blast

lemma grows:
  assumes "cursor_ok d" "put_event input d = Inr d'"
  shows "\<exists>rs. space_log space d' = space_log space d @ rs"
  using appends [OF assms] appended_log by blast

lemma only_its_space:
  assumes "cursor_ok d" "put_event input d = Inr d'" "space \<noteq> ei_SpaceID input"
  shows "space_log space d' = space_log space d"
  using appends [OF assms(1,2)] assms(3) by (auto simp: appended_log)

end

lemmas writer_simps = result_bind_Inr_conv map_err_Inr statement_Inr with_id_def empty_id_def trimmed_id_def nonblank_id_def Let_def

lemma no_conversation_space [simp]: "ei_SpaceID (no_conversation input) = ei_SpaceID input"
  by (simp add: no_conversation_def)

interpretation conversations_writer: event_writer "conversations_WriteEvent newid flt" for newid flt
  by unfold_locales (auto simp: conversations_WriteEvent_def writer_simps split: if_split_asm intro: stored_lock)

interpretation avatars_writer: event_writer "avatars_WriteEvent flt" for flt
  by unfold_locales (auto simp: avatars_WriteEvent_def writer_simps split: if_split_asm intro: stored_lock)

interpretation files_writer: event_writer "files_WriteEvent newid flt" for newid flt
  by unfold_locales (auto simp: files_WriteEvent_def writer_simps split: if_split_asm intro: stored_upsert)

interpretation emotes_writer: event_writer "emotes_WriteEvent newid flt" for newid flt
  by unfold_locales (auto simp: emotes_WriteEvent_def writer_simps split: if_split_asm intro: stored_upsert)

interpretation members_writer: event_writer "members_WriteEvent newid flt" for newid flt
  by unfold_locales (auto simp: members_WriteEvent_def writer_simps split: if_split_asm intro: stored_lock)

interpretation delivery_writer: event_writer "delivery_WriteEvent now marshalled newid flt" for now marshalled newid flt
  by unfold_locales (auto simp: delivery_WriteEvent_def writer_simps split: if_split_asm intro: stored_upsert)

text \<open>The writers that return the event reference are writers when the reference is dropped.\<close>

definition the_db :: "('e, 'a \<times> db) result \<Rightarrow> ('e, db) result" where
  "the_db r = map_sum id snd r"

lemma the_db_Inr: "the_db r = Inr d' \<longleftrightarrow> (\<exists>x. r = Inr (x, d'))"
  by (cases r) (auto simp: the_db_def)

lemma the_db_ref: "r = Inr (x, d') \<Longrightarrow> the_db r = Inr d'"
  by (simp add: the_db_def)

interpretation messages_writer: event_writer "\<lambda>input d. the_db (messages_WriteEvent newid flt input d)" for newid flt
  by unfold_locales (auto simp: messages_WriteEvent_def the_db_Inr writer_simps split: if_split_asm intro: stored_upsert)

interpretation cards_writer: event_writer "\<lambda>input d. the_db (cards_WriteEvent newid flt input d)" for newid flt
  by unfold_locales (auto simp: cards_WriteEvent_def the_db_Inr writer_simps split: if_split_asm intro: stored_upsert)

interpretation topics_writer: event_writer "\<lambda>input d. the_db (topics_WriteEvent newid flt input d)" for newid flt
  by unfold_locales (auto simp: topics_WriteEvent_def the_db_Inr writer_simps split: if_split_asm intro: stored_max)

interpretation interactions_writer: event_writer "\<lambda>input d. the_db (interactions_WriteEvent newid flt input d)" for newid flt
  by unfold_locales (auto simp: interactions_WriteEvent_def the_db_Inr writer_simps split: if_split_asm intro: stored_upsert)

interpretation solicitations_writer: event_writer "\<lambda>input d. the_db (solicitations_WriteEvent newid flt input d)" for newid flt
  by unfold_locales (auto simp: solicitations_WriteEvent_def the_db_Inr writer_simps split: if_split_asm intro: stored_upsert)

interpretation requirements_writer: event_writer "\<lambda>input d. the_db (requirements_WriteEvent newid flt input d)" for newid flt
  by unfold_locales (auto simp: requirements_WriteEvent_def the_db_Inr writer_simps split: if_split_asm intro: stored_upsert)

section \<open>Histories\<close>

text \<open>
  A transaction of another part of the program may change the other tables at will; events
  and cursors change by the writers only. The row lock on the cursor makes the writers of a
  space run one after the other.
\<close>

inductive commit :: "db \<Rightarrow> db \<Rightarrow> bool" where
  other: "workspace_events d' = workspace_events d \<Longrightarrow> workspace_event_cursors d' = workspace_event_cursors d \<Longrightarrow> commit d d'"
| conversations: "conversations_WriteEvent newid flt input d = Inr d' \<Longrightarrow> commit d d'"
| avatars: "avatars_WriteEvent flt input d = Inr d' \<Longrightarrow> commit d d'"
| files: "files_WriteEvent newid flt input d = Inr d' \<Longrightarrow> commit d d'"
| messages: "messages_WriteEvent newid flt input d = Inr (ref, d') \<Longrightarrow> commit d d'"
| cards: "cards_WriteEvent newid flt input d = Inr (ref, d') \<Longrightarrow> commit d d'"
| topics: "topics_WriteEvent newid flt input d = Inr (ref, d') \<Longrightarrow> commit d d'"
| emotes: "emotes_WriteEvent newid flt input d = Inr d' \<Longrightarrow> commit d d'"
| members: "members_WriteEvent newid flt input d = Inr d' \<Longrightarrow> commit d d'"
| delivery: "delivery_WriteEvent now marshalled newid flt input d = Inr d' \<Longrightarrow> commit d d'"
| interactions: "interactions_WriteEvent newid flt input d = Inr (ref, d') \<Longrightarrow> commit d d'"
| solicitations: "solicitations_WriteEvent newid flt input d = Inr (ref, d') \<Longrightarrow> commit d d'"
| requirements: "requirements_WriteEvent newid flt input d = Inr (ref, d') \<Longrightarrow> commit d d'"

lemma commit_cases:
  assumes "commit d d'" "cursor_ok d"
  shows "(workspace_events d' = workspace_events d \<and> workspace_event_cursors d' = workspace_event_cursors d) \<or> (\<exists>r. appended d r d')"
  using assms
proof cases
  case (messages newid flt input ref)
  show ?thesis using messages_writer.appends [OF assms(2) the_db_ref [OF messages]] by blast
next
  case (cards newid flt input ref)
  show ?thesis using cards_writer.appends [OF assms(2) the_db_ref [OF cards]] by blast
next
  case (topics newid flt input ref)
  show ?thesis using topics_writer.appends [OF assms(2) the_db_ref [OF topics]] by blast
next
  case (interactions newid flt input ref)
  show ?thesis using interactions_writer.appends [OF assms(2) the_db_ref [OF interactions]] by blast
next
  case (solicitations newid flt input ref)
  show ?thesis using solicitations_writer.appends [OF assms(2) the_db_ref [OF solicitations]] by blast
next
  case (requirements newid flt input ref)
  show ?thesis using requirements_writer.appends [OF assms(2) the_db_ref [OF requirements]] by blast
qed (blast dest: conversations_writer.appends avatars_writer.appends files_writer.appends emotes_writer.appends
    members_writer.appends delivery_writer.appends)+

lemma commit_keeps:
  assumes "commit d d'" "cursor_ok d"
  shows "cursor_ok d' \<and> (\<exists>rs. space_log space d' = space_log space d @ rs)"
  using commit_cases [OF assms]
proof
  assume "workspace_events d' = workspace_events d \<and> workspace_event_cursors d' = workspace_event_cursors d"
  then show ?thesis using assms(2) by (simp add: cursor_ok_def space_log_def)
next
  assume "\<exists>r. appended d r d'"
  then show ?thesis using appended_ok [OF assms(2)] appended_log by blast
qed

lemma commits_keep:
  assumes "commit\<^sup>*\<^sup>* d d'" "cursor_ok d"
  shows "cursor_ok d' \<and> (\<exists>rs. space_log space d' = space_log space d @ rs)"
  using assms
proof (induction rule: rtranclp_induct)
  case base
  then show ?case by simp
next
  case (step d1 d2)
  then show ?case using commit_keeps [OF step(2), of space] by auto
qed

lemma cursor_ok_log:
  assumes "cursor_ok d"
  shows "sorted_wrt (\<lambda>a b. er_Seq a < er_Seq b) (space_log space d)"
    and "\<And>r. r \<in> set (space_log space d) \<Longrightarrow> 1 \<le> er_Seq r \<and> er_SpaceID r = space"
proof -
  have "sorted_wrt (\<lambda>a b. er_SpaceID a = er_SpaceID b \<longrightarrow> er_Seq a < er_Seq b) (space_log space d)"
    using assms by (simp add: cursor_ok_def space_log_def sorted_wrt_filter)
  then show "sorted_wrt (\<lambda>a b. er_Seq a < er_Seq b) (space_log space d)"
    by (rule sorted_wrt_mono_rel [rotated]) (auto simp: space_log_def)
  show "\<And>r. r \<in> set (space_log space d) \<Longrightarrow> 1 \<le> er_Seq r \<and> er_SpaceID r = space"
    using cursor_ok_event [OF assms] by (auto simp: space_log_def)
qed


lemma upto_join: "i \<le> j \<Longrightarrow> j \<le> k \<Longrightarrow> [i .. j - 1] @ [j .. k - 1] = [i .. k - (1::int)]"
  using upto_split2 [of i "j - 1" "k - 1"] by (cases "i = j") simp_all

lemma appended_next: "appended d r d' \<Longrightarrow> next_seq space d' = (if space = er_SpaceID r then next_seq space d + 1 else next_seq space d)"
  by (auto simp: appended_def next_seq_def gm_put_lookup)

lemma commit_numbers:
  assumes "commit d d'" "cursor_ok d"
  shows "next_seq space d \<le> next_seq space d' \<and>
    (\<exists>rs. space_log space d' = space_log space d @ rs \<and> map er_Seq rs = [next_seq space d .. next_seq space d' - 1])"
  using commit_cases [OF assms]
proof
  assume "workspace_events d' = workspace_events d \<and> workspace_event_cursors d' = workspace_event_cursors d"
  then show ?thesis by (simp add: space_log_def next_seq_def)
next
  assume "\<exists>r. appended d r d'"
  then obtain r where app: "appended d r d'" by blast
  have "er_Seq r = next_seq (er_SpaceID r) d" using app by (simp add: appended_def)
  then show ?thesis by (simp add: appended_log [OF app] appended_next [OF app])
qed

text \<open>
  C3 (the WriteEvent functions of messages, files, cards, topics, conversations, avatars, members,
  emotes, interactions and of echo requirements, solicitations and delivery).
  However transactions of these packages follow each other, the log of a space only grows at
  its end, by events numbered consecutively from its cursor, and the invariant holds again: a
  reader that has seen every number up to some point never misses a smaller one later.
\<close>

theorem log_append_only:
  assumes "commit\<^sup>*\<^sup>* d d'" and "cursor_ok d"
  shows "cursor_ok d' \<and> next_seq space d \<le> next_seq space d' \<and>
    (\<exists>rs. space_log space d' = space_log space d @ rs \<and> map er_Seq rs = [next_seq space d .. next_seq space d' - 1])"
  using assms
proof (induction rule: rtranclp_induct)
  case base
  then show ?case by simp
next
  case (step d1 d2)
  then obtain rs where rs: "cursor_ok d1" "next_seq space d \<le> next_seq space d1"
    "space_log space d1 = space_log space d @ rs" "map er_Seq rs = [next_seq space d .. next_seq space d1 - 1]"
    by blast
  obtain rs' where rs': "next_seq space d1 \<le> next_seq space d2"
    "space_log space d2 = space_log space d1 @ rs'" "map er_Seq rs' = [next_seq space d1 .. next_seq space d2 - 1]"
    using commit_numbers [OF step(2) rs(1)] by blast
  have "map er_Seq (rs @ rs') = [next_seq space d .. next_seq space d2 - 1]"
    using rs(2,4) rs'(1,3) by (simp add: upto_join)
  then show ?case using rs rs' commit_keeps [OF step(2) rs(1)] by (intro conjI exI [of _ "rs @ rs'"]) auto
qed

definition seed_event :: EventRecord where
  "seed_event = \<lparr>er_ID = ''evt_seed_owner'', er_SpaceID = ''spc_default'', er_Seq = 1, er_Type = ''workspace.member_joined'',
     er_ActorID = Some ''usr_owner'', er_ConversationID = None, er_TargetType = Some ''user'', er_TargetID = Some ''usr_owner'',
     er_PayloadJSON = ''{}'', er_CreatedAt = 0\<rparr>"

definition seed_db :: db where
  "seed_db = \<lparr>users = [\<lparr>u_id = ''usr_owner'', u_kind = ''human''\<rparr>, \<lparr>u_id = ''usr_bob'', u_kind = ''human''\<rparr>],
     space_members = [\<lparr>sm_space_id = ''spc_default'', sm_user_id = ''usr_owner'', sm_role = ''owner'', sm_removed = False\<rparr>,
       \<lparr>sm_space_id = ''spc_default'', sm_user_id = ''usr_bob'', sm_role = ''member'', sm_removed = False\<rparr>],
     conversations = [\<lparr>c_id = ''con_1'', c_space_id = ''spc_default'', c_type = ''group'', c_title = ''Group'', c_avatar_emoji = None,
       c_direct_key = None, c_retention_count = 10000, c_created_by = Some ''usr_owner'', c_created_at = 0\<rparr>],
     conversation_members = [\<lparr>cm_conversation_id = ''con_1'', cm_user_id = ''usr_owner'', cm_removed = False, cm_joined_at = 0,
       cm_last_read_message_id = None, cm_last_read_at = None, cm_last_read_seq = None, cm_notification_level = ''all''\<rparr>],
     topics = [], topic_members = [], workspace_cards = [], attachments = [], member_visibility_grants = [],
     workspace_events = [seed_event], workspace_event_cursors = [(''spc_default'', 2)]\<rparr>"

definition message_input :: EventInput where
  "message_input = \<lparr>ei_ID = [], ei_SpaceID = ''spc_default'', ei_Type = ''message.created'', ei_ActorID = ''usr_owner'',
     ei_ConversationID = ''con_1'', ei_TargetType = [], ei_TargetID = [], ei_PayloadJSON = [], ei_CreatedAt = 1234567\<rparr>"

definition message_db :: db where
  "message_db = (case the_db (messages_WriteEvent (Inr ''evt_2'') (\<lambda>_. None) message_input seed_db) of Inr d \<Rightarrow> d | Inl _ \<Rightarrow> seed_db)"

lemma message_commit: "commit seed_db message_db"
proof (rule commit.messages)
  show "messages_WriteEvent (Inr ''evt_2'') (\<lambda>_. None) message_input seed_db = Inr ((''evt_2'', ''spc_default'', 2), message_db)"
    by code_simp
qed

lemma seed_ok: "cursor_ok seed_db"
  by code_simp

theorem log_append_only_witness:
  "cursor_ok message_db \<and> map er_Seq (space_log ''spc_default'' message_db) = [1, 2]"
proof -
  have "commit\<^sup>*\<^sup>* seed_db message_db" using message_commit by blast
  from log_append_only [OF this seed_ok, of "''spc_default''"]
  obtain rs where "cursor_ok message_db" "space_log ''spc_default'' message_db = space_log ''spc_default'' seed_db @ rs"
    "map er_Seq rs = [next_seq ''spc_default'' seed_db .. next_seq ''spc_default'' message_db - 1]"
    by blast
  moreover have "next_seq ''spc_default'' seed_db = 2" "next_seq ''spc_default'' message_db = 3"
    "map er_Seq (space_log ''spc_default'' seed_db) = [1]"
    by code_simp+
  ultimately show ?thesis by (simp add: upto_single)
qed

text \<open>
  C25 (the three sequence reservations). On a log that satisfies the invariant the three SQL
  reservations the packages use are interchangeable: they reserve the same number and leave
  the same cursor, or all fail when the number would leave 64 bits.
\<close>

theorem reservations_agree:
  assumes "cursor_ok d"
  shows "reserve_max space d = reserve_upsert space d \<and>
    reserve_lock (\<lambda>_. None) internal ops space d = map_err (internal (ops ! 2)) (reserve_upsert space d)"
  using assms by (simp add: reserve_upsert_spec reserve_max_spec reserve_lock_spec)

theorem reservations_agree_witness:
  "reserve_max ''spc_default'' seed_db = reserve_upsert ''spc_default'' seed_db \<and>
   map_sum id fst (reserve_upsert ''spc_default'' seed_db) = Inr 2"
proof -
  have "map_sum id fst (reserve_upsert ''spc_default'' seed_db) = Inr 2" by code_simp
  then show ?thesis using reservations_agree [OF seed_ok, of "''spc_default''"] by simp
qed

end
