(* ===== verification/Events_Repository.thy ===== *)
theory Events_Repository
  imports Events_Store
begin

text \<open>
  events/errors.go and events/pg_repository.go. A query is a state transformer: the state of
  the PostgreSQL repository is the number of queries issued so far, and a world says what
  the database holds at each of them (other transactions commit in between) and which fail.
\<close>

section \<open>Errors\<close>

record Error =
  err_Code :: string
  err_Message :: string
  err_StatusCode :: int
  err_Cause :: "string option"

text \<open>A Go \<open>error\<close>: one of the domain, or any other with its text.\<close>

datatype go_error = Domain Error | Foreign string

definition NewError :: "string \<Rightarrow> string \<Rightarrow> int \<Rightarrow> Error" where
  "NewError code message statusCode = \<lparr>err_Code = code, err_Message = message, err_StatusCode = statusCode, err_Cause = None\<rparr>"

definition internalError :: "string \<Rightarrow> string \<Rightarrow> Error" where
  "internalError operation cause =
    \<lparr>err_Code = ''internal.error'', err_Message = utf8 [0x670D, 0x52A1, 0x6682, 0x65F6, 0x4E0D, 0x53EF, 0x7528],
     err_StatusCode = 500, err_Cause = Some (operation @ '': '' @ cause)\<rparr>"

definition authRequiredError :: Error where
  "authRequiredError = NewError ''auth.required'' (utf8 [0x8BF7, 0x5148, 0x767B, 0x5F55, 0x5171, 0x4EAB, 0x7A7A, 0x95F4]) 401"

definition identityForbiddenError :: Error where
  "identityForbiddenError = NewError ''auth.identity_forbidden''
     (utf8 [0x8BE5, 0x7CFB, 0x7EDF, 0x8EAB, 0x4EFD, 0x4E0D, 0x80FD, 0x6267, 0x884C, 0x7528, 0x6237, 0x64CD, 0x4F5C]) 401"

definition sequenceInvalidError :: Error where
  "sequenceInvalidError = NewError ''realtime.sequence_invalid'' (utf8 [0x5B9E, 0x65F6, 0x540C, 0x6B65, 0x6E38, 0x6807, 0x65E0, 0x6548]) 400"

definition Public :: "Error \<Rightarrow> Error" where
  "Public e = e\<lparr>err_Cause := None\<rparr>"

definition normalizeError :: "go_error \<Rightarrow> Error" where
  "normalizeError err = (case err of Domain e \<Rightarrow> e | Foreign text \<Rightarrow> internalError ''workspace event repository'' text)"

section \<open>Queries\<close>

type_synonym ('s, 'a) io = "'s \<Rightarrow> (go_error, 'a) result \<times> 's"

definition io_return :: "'a \<Rightarrow> ('s, 'a) io" where
  "io_return x s = (Inr x, s)"

definition io_bind :: "('s, 'a) io \<Rightarrow> ('a \<Rightarrow> ('s, 'b) io) \<Rightarrow> ('s, 'b) io" where
  "io_bind m f s = (case m s of (Inl e, s1) \<Rightarrow> (Inl e, s1) | (Inr x, s1) \<Rightarrow> f x s1)"

record world =
  w_db :: "nat \<Rightarrow> db"
  w_err :: "nat \<Rightarrow> string option"

definition query :: "world \<Rightarrow> string \<Rightarrow> (db \<Rightarrow> 'a) \<Rightarrow> (nat, 'a) io" where
  "query w operation f n =
    ((case w_err w n of Some cause \<Rightarrow> Inl (Domain (internalError operation cause)) | None \<Rightarrow> Inr (f (w_db w n))), Suc n)"

definition pointerString :: "string option \<Rightarrow> string" where
  "pointerString value = (case value of None \<Rightarrow> [] | Some s \<Rightarrow> s)"

definition conversationReadAllowed :: "string \<Rightarrow> bool" where
  "conversationReadAllowed role \<longleftrightarrow> role = ''owner'' \<or> role = ''admin'' \<or> role = ''member''"

definition boundedLimit :: "int \<Rightarrow> int \<Rightarrow> int \<Rightarrow> int" where
  "boundedLimit value fallback maximum =
    (let v = (if value \<le> 0 then fallback else value) in if v > maximum then maximum else v)"

definition DefaultBatchSize :: int where "DefaultBatchSize = 256"
definition MaxBatchSize :: int where "MaxBatchSize = 1000"

subsection \<open>Actor and log\<close>

definition actor_row :: "string \<Rightarrow> string \<Rightarrow> db \<Rightarrow> Actor option" where
  "actor_row spaceID userID d =
    (case [(u, sm). u \<leftarrow> users d, u_id u = userID, sm \<leftarrow> space_members d, sm_user_id sm = u_id u \<and> sm_space_id sm = spaceID \<and> \<not> sm_removed sm] of
       [] \<Rightarrow> None
     | (u, sm) # _ \<Rightarrow> Some \<lparr>actor_ID = u_id u, actor_Kind = u_kind u, actor_Role = sm_role sm\<rparr>)"

definition LookupActor :: "world \<Rightarrow> string \<Rightarrow> string \<Rightarrow> (nat, Actor option) io" where
  "LookupActor w spaceID userID = query w ''lookup workspace event actor'' (actor_row spaceID userID)"

definition CurrentSeq :: "world \<Rightarrow> string \<Rightarrow> (nat, int) io" where
  "CurrentSeq w spaceID = query w ''read workspace event cursor'' (\<lambda>d. case max_seq spaceID d of None \<Rightarrow> 0 | Some s \<Rightarrow> s)"

definition min_seq :: "string \<Rightarrow> db \<Rightarrow> int option" where
  "min_seq space d = (case map er_Seq (space_log space d) of [] \<Rightarrow> None | s # ss \<Rightarrow> Some (fold min ss s))"

definition EarliestSeq :: "world \<Rightarrow> string \<Rightarrow> (nat, int) io" where
  "EarliestSeq w spaceID = query w ''read workspace event window'' (\<lambda>d. case min_seq spaceID d of None \<Rightarrow> 0 | Some s \<Rightarrow> s)"

definition rows_after :: "string \<Rightarrow> int \<Rightarrow> int \<Rightarrow> db \<Rightarrow> EventRecord list" where
  "rows_after spaceID after max_rows d = take (nat max_rows) (sort_key er_Seq (filter (\<lambda>r. er_Seq r > after) (space_log spaceID d)))"

definition ListEventsAfter :: "world \<Rightarrow> string \<Rightarrow> int \<Rightarrow> int \<Rightarrow> (nat, EventRecord list) io" where
  "ListEventsAfter w spaceID afterSeq max_rows =
    (let after = (if afterSeq < 0 then 0 else afterSeq) in
     query w ''list workspace events'' (rows_after spaceID after (boundedLimit max_rows DefaultBatchSize MaxBatchSize)))"

definition GetEvent :: "world \<Rightarrow> string \<Rightarrow> string \<Rightarrow> (nat, EventRecord option) io" where
  "GetEvent w spaceID eventID = query w ''read workspace event''
     (\<lambda>d. List.find (\<lambda>r. er_SpaceID r = spaceID \<and> er_ID r = TrimSpace eventID) (workspace_events d))"

subsection \<open>Visibility\<close>

definition system_users :: "string list" where
  "system_users = [''usr_system_beacon'', ''usr_system_echo'']"

definition member_active :: "string \<Rightarrow> string \<Rightarrow> string \<Rightarrow> db \<Rightarrow> bool" where
  "member_active spaceID conversationID userID d =
    list_ex (\<lambda>cm. cm_conversation_id cm = conversationID \<and> cm_user_id cm = userID \<and> \<not> cm_removed cm \<and>
      list_ex (\<lambda>c. c_id c = cm_conversation_id cm \<and> c_space_id c = spaceID) (conversations d)) (conversation_members d)"

definition conversationMemberActive :: "world \<Rightarrow> string \<Rightarrow> string \<Rightarrow> string \<Rightarrow> (nat, bool) io" where
  "conversationMemberActive w spaceID conversationID userID =
    query w ''check conversation event visibility'' (member_active spaceID conversationID userID)"

text \<open>Rows of a direct conversation of both users; removed rows count where \<open>keep_removed\<close>.\<close>

definition direct_between :: "bool \<Rightarrow> string \<Rightarrow> string \<Rightarrow> string \<Rightarrow> db \<Rightarrow> bool" where
  "direct_between keep_removed spaceID a b d =
    list_ex (\<lambda>c. c_space_id c = spaceID \<and> c_type c = ''direct'' \<and>
      list_ex (\<lambda>cm. cm_conversation_id cm = c_id c \<and> cm_user_id cm = a \<and> (keep_removed \<or> \<not> cm_removed cm)) (conversation_members d) \<and>
      list_ex (\<lambda>cm. cm_conversation_id cm = c_id c \<and> cm_user_id cm = b \<and> (keep_removed \<or> \<not> cm_removed cm)) (conversation_members d))
      (conversations d)"

definition granted :: "string \<Rightarrow> string \<Rightarrow> string \<Rightarrow> db \<Rightarrow> bool" where
  "granted spaceID viewer target d =
    list_ex (\<lambda>g. g_space_id g = spaceID \<and> g_viewer_user_id g = viewer \<and> g_visible_user_id g = target) (member_visibility_grants d)"

definition memberVisible :: "world \<Rightarrow> string \<Rightarrow> Actor \<Rightarrow> string \<Rightarrow> (nat, bool) io" where
  "memberVisible w spaceID actor visibleUserID =
    (let viewer = actor_ID actor in
     query w ''check member event visibility'' (\<lambda>d.
       list_ex (\<lambda>sm. sm_space_id sm = spaceID \<and> sm_user_id sm = viewer \<and> \<not> sm_removed sm \<and> sm_role sm = ''owner'') (space_members d) \<or>
       (list_ex (\<lambda>u. u_id u = visibleUserID \<and>
          list_ex (\<lambda>sm. sm_user_id sm = u_id u \<and> sm_space_id sm = spaceID \<and> \<not> sm_removed sm) (space_members d)) (users d) \<and>
        (viewer = visibleUserID \<or> granted spaceID viewer visibleUserID d \<or> direct_between False spaceID viewer visibleUserID d \<or>
         visibleUserID \<in> set system_users))))"

definition removedMemberVisible :: "world \<Rightarrow> string \<Rightarrow> string \<Rightarrow> string \<Rightarrow> (nat, bool) io" where
  "removedMemberVisible w spaceID viewerID targetID =
    query w ''check removed member event visibility''
      (\<lambda>d. direct_between True spaceID viewerID targetID d \<or> granted spaceID viewerID targetID d)"

definition participantOnlyConversation :: "world \<Rightarrow> string \<Rightarrow> string \<Rightarrow> (nat, bool) io" where
  "participantOnlyConversation w spaceID conversationID =
    query w ''check participant-only conversation'' (\<lambda>d.
      list_ex (\<lambda>c. c_id c = conversationID \<and> c_space_id c = spaceID \<and> c_type c = ''direct'' \<and>
        list_ex (\<lambda>cm. cm_conversation_id cm = c_id c \<and> cm_user_id cm \<in> set system_users) (conversation_members d)) (conversations d))"

definition attachmentVisible :: "world \<Rightarrow> Actor \<Rightarrow> EventRecord \<Rightarrow> (nat, bool) io" where
  "attachmentVisible w actor event =
    io_bind (query w ''check attachment event visibility''
        (\<lambda>d. List.find (\<lambda>a. at_id a = pointerString (er_TargetID event)) (attachments d))) (\<lambda>found.
      case found of
        None \<Rightarrow> io_return False
      | Some a \<Rightarrow>
          if at_space_id a \<noteq> er_SpaceID event then io_return False
          else if at_uploader_id a = actor_ID actor \<or> at_visibility a = ''private_staging'' then io_return (at_uploader_id a = actor_ID actor)
          else
            let conversation = pointerString (at_conversation_id a);
                in_conversation = (at_visibility a = ''conversation'' \<and> conversation \<noteq> []);
                privileged = (actor_Role actor = ''owner'' \<or> actor_Role actor = ''admin'')
            in io_bind (if in_conversation then participantOnlyConversation w (er_SpaceID event) conversation else io_return False) (\<lambda>participantOnly.
                 if participantOnly then conversationMemberActive w (er_SpaceID event) conversation (actor_ID actor)
                 else if er_Type event = ''attachment.created'' \<or> er_Type event = ''attachment.failed'' then io_return privileged
                 else if at_visibility a = ''space'' then io_return (actor_Role actor \<noteq> ''auditor'')
                 else if in_conversation then
                   (if privileged then io_return True
                    else if \<not> conversationReadAllowed (actor_Role actor) then io_return False
                    else conversationMemberActive w (er_SpaceID event) conversation (actor_ID actor))
                 else io_return False))"

text \<open>The three parts of \<open>EventVisible\<close>: topic events, card events and the rest.\<close>

definition topic_message_event :: "EventRecord \<Rightarrow> payload \<Rightarrow> bool" where
  "topic_message_event event payload \<longleftrightarrow>
    HasPrefix (er_Type event) ''topic.message.'' \<or> (er_Type event = ''message.created'' \<and> \<not> isTrue payload ''topicCard'')"

definition topic_joined :: "string \<Rightarrow> string \<Rightarrow> db \<Rightarrow> bool" where
  "topic_joined topicID userID d = list_ex (\<lambda>tm. tm_topic_id tm = topicID \<and> tm_user_id tm = userID \<and> \<not> tm_left tm) (topic_members d)"

definition topic_visible :: "world \<Rightarrow> Actor \<Rightarrow> EventRecord \<Rightarrow> payload \<Rightarrow> string \<Rightarrow> (nat, bool) io" where
  "topic_visible w actor event payload topicID =
    io_bind (query w ''check workspace topic visibility'' (\<lambda>d. List.find (\<lambda>tp. t_id tp = topicID) (topics d))) (\<lambda>found.
      case found of
        None \<Rightarrow> io_return False
      | Some tp \<Rightarrow>
          if t_space_id tp \<noteq> er_SpaceID event then io_return False
          else io_bind (conversationMemberActive w (er_SpaceID event) (t_conversation_id tp) (actor_ID actor)) (\<lambda>member.
            if \<not> member \<or> actor_Role actor = ''auditor'' then io_return False
            else if topic_message_event event payload
            then query w ''check topic member visibility'' (topic_joined topicID (actor_ID actor))
            else io_return True))"

definition card_visible :: "world \<Rightarrow> Actor \<Rightarrow> EventRecord \<Rightarrow> payload \<Rightarrow> (nat, bool) io" where
  "card_visible w actor event payload =
    (let field = stringField payload ''cardId''; cardID = (if field = [] then pointerString (er_TargetID event) else field) in
     if cardID = [] then io_return False
     else io_bind (query w ''check workspace card visibility'' (\<lambda>d. List.find (\<lambda>c. wc_id c = cardID) (workspace_cards d))) (\<lambda>found.
       case found of
         None \<Rightarrow> io_return False
       | Some c \<Rightarrow>
           if wc_space_id c \<noteq> er_SpaceID event then io_return False
           else if wc_visibility_scope c = ''space'' then io_return (actor_Role actor \<noteq> ''auditor'')
           else if wc_visibility_scope c = ''conversation'' then
             (if pointerString (wc_conversation_id c) = [] then io_return False
              else conversationMemberActive w (er_SpaceID event) (pointerString (wc_conversation_id c)) (actor_ID actor))
           else io_return False))"

definition EventVisible :: "world \<Rightarrow> Actor \<Rightarrow> EventRecord \<Rightarrow> payload \<Rightarrow> (nat, bool) io" where
  "EventVisible w actor event payload =
    (let topicID = stringField payload ''topicId''; targetType = pointerString (er_TargetType event);
         targetID = pointerString (er_TargetID event); conversation = pointerString (er_ConversationID event) in
     if TrimSpace (actor_ID actor) = [] \<or> TrimSpace (er_SpaceID event) = [] then io_return False
     else if topicID \<noteq> [] then topic_visible w actor event payload topicID
     else if er_Type event \<in> set [''card.created'', ''card.updated'', ''card.invalidated''] then card_visible w actor event payload
     else if er_Type event = ''transfer.rejected'' then io_return (pointerString (er_ActorID event) = actor_ID actor)
     else if er_Type event = ''workspace.member_visibility_updated'' then io_return (actor_Role actor = ''owner'' \<or> targetID = actor_ID actor)
     else if er_Type event \<in> set [''workspace.member_joined'', ''workspace.member_updated''] \<and> targetType = ''user'' \<and> targetID \<noteq> []
     then memberVisible w (er_SpaceID event) actor targetID
     else if er_Type event = ''workspace.member_removed'' \<and> targetType = ''user'' \<and> targetID \<noteq> [] then
       (if actor_Role actor = ''owner'' \<or> targetID = actor_ID actor then io_return True
        else removedMemberVisible w (er_SpaceID event) (actor_ID actor) targetID)
     else if er_Type event \<in> set [''conversation.notification_updated'', ''emote.library.updated'', ''emote.settings.updated'']
     then io_return (targetType = ''user'' \<and> targetID = actor_ID actor)
     else if targetType = ''attachment'' \<and> targetID \<noteq> [] then attachmentVisible w actor event
     else if er_Type event = ''conversation.member_removed'' \<and> targetType = ''user'' \<and> targetID = actor_ID actor then io_return True
     else if conversation = [] then io_return (actor_Role actor \<noteq> ''auditor'')
     else if \<not> conversationReadAllowed (actor_Role actor) then io_return False
     else conversationMemberActive w (er_SpaceID event) conversation (actor_ID actor))"


section \<open>What is visible to whom\<close>

lemma io_bind_Inr: "io_bind m f s = (Inr y, s') \<longleftrightarrow> (\<exists>x s1. m s = (Inr x, s1) \<and> f x s1 = (Inr y, s'))"
  by (auto simp: io_bind_def split: prod.split sum.split)

lemma io_return_Inr: "io_return x s = (Inr y, s') \<longleftrightarrow> y = x \<and> s' = s"
  by (auto simp: io_return_def)

lemma query_Inr: "query w operation f n = (Inr y, n') \<longleftrightarrow> w_err w n = None \<and> y = f (w_db w n) \<and> n' = Suc n"
  by (auto simp: query_def split: option.split)

lemmas io_simps = io_bind_Inr io_return_Inr query_Inr

lemma find_Some_in: "List.find P xs = Some x \<Longrightarrow> x \<in> set xs \<and> P x"
  by (auto simp: find_Some_iff)

lemma topic_visible_True:
  assumes "topic_visible w actor event payload topicID n = (Inr True, n')"
  shows "\<exists>tp. tp \<in> set (topics (w_db w n)) \<and> t_id tp = topicID \<and> t_space_id tp = er_SpaceID event \<and>
    member_active (er_SpaceID event) (t_conversation_id tp) (actor_ID actor) (w_db w (Suc n)) \<and> actor_Role actor \<noteq> ''auditor'' \<and>
    (topic_message_event event payload \<longrightarrow> topic_joined topicID (actor_ID actor) (w_db w (Suc (Suc n))))"
proof -
  from assms obtain tp where tp: "List.find (\<lambda>tp. t_id tp = topicID) (topics (w_db w n)) = Some tp"
    by (auto simp: topic_visible_def io_simps split: option.split_asm)
  then have "tp \<in> set (topics (w_db w n)) \<and> t_id tp = topicID" by (rule find_Some_in)
  then show ?thesis
    using assms tp by (intro exI [of _ tp]) (auto simp: topic_visible_def conversationMemberActive_def io_simps split: if_split_asm)
qed

text \<open>
  C17 (events/pg_repository.go: EventVisible). An event that refers to a topic is visible only
  to an active member of the topic's conversation in the event's space who is no auditor, and
  a message of a topic only to a current member of the topic, each as the rows stood when
  they were read; what else the event says about its target makes no difference.
\<close>

theorem topic_event_visible:
  assumes "EventVisible w actor event payload n = (Inr True, n')" and "stringField payload ''topicId'' \<noteq> []"
  shows "\<exists>tp. tp \<in> set (topics (w_db w n)) \<and> t_id tp = stringField payload ''topicId'' \<and> t_space_id tp = er_SpaceID event \<and>
    member_active (er_SpaceID event) (t_conversation_id tp) (actor_ID actor) (w_db w (Suc n)) \<and> actor_Role actor \<noteq> ''auditor'' \<and>
    (topic_message_event event payload \<longrightarrow> topic_joined (stringField payload ''topicId'') (actor_ID actor) (w_db w (Suc (Suc n))))"
proof (rule topic_visible_True)
  show "topic_visible w actor event payload (stringField payload ''topicId'') n = (Inr True, n')"
    using assms by (simp add: EventVisible_def Let_def io_simps split: if_split_asm)
qed

text \<open>The types of events that \<open>EventVisible\<close> judges by a rule of their own, whatever conversation they name.\<close>

definition own_rule_types :: "string list" where
  "own_rule_types = [''card.created'', ''card.updated'', ''card.invalidated'', ''transfer.rejected'',
     ''workspace.member_visibility_updated'', ''workspace.member_joined'', ''workspace.member_updated'', ''workspace.member_removed'',
     ''conversation.notification_updated'', ''emote.library.updated'', ''emote.settings.updated'']"

definition tells_removal :: "EventRecord \<Rightarrow> string \<Rightarrow> bool" where
  "tells_removal event userID \<longleftrightarrow>
     er_Type event = ''conversation.member_removed'' \<and> er_TargetType event = Some ''user'' \<and> er_TargetID event = Some userID"

lemma pointerString_Some: "pointerString v = x \<Longrightarrow> TrimSpace x \<noteq> [] \<Longrightarrow> v = Some x"
proof (cases v)
  case None
  moreover have "TrimSpace [] = []" by code_simp
  ultimately show "pointerString v = x \<Longrightarrow> TrimSpace x \<noteq> [] \<Longrightarrow> v = Some x" by (simp add: pointerString_def)
qed (simp add: pointerString_def)

text \<open>
  C18 (events/pg_repository.go: EventVisible). An event that names a conversation, but no topic and no attachment,
  and whose type is not one of the eleven that have a rule of their own (cards, rejected transfers, memberships of the
  space, personal settings) reaches two readers only: an active member of that conversation in the
  event's space whose role may read conversations, or, when the event tells of a removal from a
  conversation, the user who was removed.
\<close>

theorem conversation_event_visible:
  assumes "EventVisible w actor event payload n = (Inr True, n')" and "stringField payload ''topicId'' = []"
    and "er_Type event \<notin> set own_rule_types" and "er_TargetType event \<noteq> Some ''attachment''"
    and "er_ConversationID event = Some conversation" and "conversation \<noteq> []"
  shows "member_active (er_SpaceID event) conversation (actor_ID actor) (w_db w n) \<and> conversationReadAllowed (actor_Role actor) \<or>
    tells_removal event (actor_ID actor)"
proof -
  have "pointerString (er_TargetType event) \<noteq> ''attachment''"
    using assms(4) by (auto simp: pointerString_def split: option.split)
  moreover have actor: "TrimSpace (actor_ID actor) \<noteq> []"
    using assms(1) by (auto simp: EventVisible_def Let_def io_simps split: if_split_asm)
  have "TrimSpace ''user'' \<noteq> []" by code_simp
  then have "tells_removal event (actor_ID actor)"
    if "er_Type event = ''conversation.member_removed''" "pointerString (er_TargetType event) = ''user''"
      "pointerString (er_TargetID event) = actor_ID actor"
    using that actor pointerString_Some unfolding tells_removal_def by metis
  ultimately show ?thesis
    using assms(1,2,3,5,6)
    by (simp add: own_rule_types_def EventVisible_def Let_def io_simps conversationMemberActive_def pointerString_def [of "Some conversation"]
        split: if_split_asm)
qed

text \<open>
  Personal events reach one user: notification
  and emote settings only the user they target, a rejected transfer only the user who tried it.
\<close>

theorem personal_event_visible:
  assumes "EventVisible w actor event payload n = (Inr True, n')" and "stringField payload ''topicId'' = []"
  shows "(er_Type event \<in> set [''conversation.notification_updated'', ''emote.library.updated'', ''emote.settings.updated''] \<longrightarrow>
      er_TargetType event = Some ''user'' \<and> er_TargetID event = Some (actor_ID actor)) \<and>
    (er_Type event = ''transfer.rejected'' \<longrightarrow> er_ActorID event = Some (actor_ID actor))"
proof -
  have "TrimSpace (actor_ID actor) \<noteq> []"
    using assms(1) by (auto simp: EventVisible_def Let_def io_simps split: if_split_asm)
  moreover have "pointerString (er_TargetType event) = ''user'' \<and> pointerString (er_TargetID event) = actor_ID actor"
    if "er_Type event \<in> set [''conversation.notification_updated'', ''emote.library.updated'', ''emote.settings.updated'']"
    using that assms by (auto simp: EventVisible_def Let_def io_simps split: if_split_asm)
  moreover have "pointerString (er_ActorID event) = actor_ID actor" if "er_Type event = ''transfer.rejected''"
    using that assms by (simp add: EventVisible_def Let_def io_simps split: if_split_asm)
  moreover have "TrimSpace ''user'' \<noteq> []" by code_simp
  ultimately show ?thesis using pointerString_Some by blast
qed


text \<open>A database that does not change and answers every query.\<close>

definition still :: "db \<Rightarrow> world" where
  "still d = \<lparr>w_db = (\<lambda>_. d), w_err = (\<lambda>_. None)\<rparr>"

definition topic_db :: db where
  "topic_db = seed_db\<lparr>topics := [\<lparr>t_id = ''top_1'', t_space_id = ''spc_default'', t_conversation_id = ''con_1'', t_status = ''open''\<rparr>],
     topic_members := [\<lparr>tm_topic_id = ''top_1'', tm_user_id = ''usr_owner'', tm_left = False\<rparr>]\<rparr>"

definition owner :: Actor where
  "owner = \<lparr>actor_ID = ''usr_owner'', actor_Kind = ''human'', actor_Role = ''owner''\<rparr>"

definition message_event :: EventRecord where
  "message_event = seed_event\<lparr>er_Type := ''message.created'', er_ConversationID := Some ''con_1'', er_TargetType := Some ''message''\<rparr>"

definition settings_event :: EventRecord where
  "settings_event = seed_event\<lparr>er_Type := ''emote.settings.updated''\<rparr>"

theorem topic_event_visible_witness:
  "EventVisible (still topic_db) owner message_event [(''topicId'', AStr ''top_1'')] 0 = (Inr True, 3) \<and>
   topic_joined ''top_1'' ''usr_owner'' topic_db"
proof -
  have visible: "EventVisible (still topic_db) owner message_event [(''topicId'', AStr ''top_1'')] 0 = (Inr True, 3)" by code_simp
  have topic: "stringField [(''topicId'', AStr ''top_1'')] ''topicId'' = ''top_1''" by code_simp
  have "topic_message_event message_event [(''topicId'', AStr ''top_1'')]" by code_simp
  then show ?thesis
    using topic_event_visible [OF visible] visible by (auto simp: topic owner_def still_def)
qed

definition removal_event :: EventRecord where
  "removal_event = message_event\<lparr>er_Type := ''conversation.member_removed'', er_TargetType := Some ''user'', er_TargetID := Some ''usr_gone''\<rparr>"

definition former_member :: Actor where
  "former_member = \<lparr>actor_ID = ''usr_gone'', actor_Kind = ''human'', actor_Role = ''member''\<rparr>"

theorem conversation_event_visible_witness:
  "EventVisible (still seed_db) owner message_event [] 0 = (Inr True, 1) \<and> member_active ''spc_default'' ''con_1'' ''usr_owner'' seed_db \<and>
   EventVisible (still seed_db) former_member removal_event [] 0 = (Inr True, 0) \<and> tells_removal removal_event ''usr_gone''"
proof -
  have visible: "EventVisible (still seed_db) owner message_event [] 0 = (Inr True, 1)" by code_simp
  have "stringField [] ''topicId'' = []" "er_Type message_event \<notin> set own_rule_types" "er_TargetType message_event \<noteq> Some ''attachment''"
    "er_ConversationID message_event = Some ''con_1''" "er_SpaceID message_event = ''spc_default''" "actor_ID owner = ''usr_owner''"
    "\<not> tells_removal message_event ''usr_owner''"
    by code_simp+
  then have member: "member_active ''spc_default'' ''con_1'' ''usr_owner'' seed_db"
    using conversation_event_visible [OF visible, of "''con_1''"] by (simp add: still_def)
  have removed: "EventVisible (still seed_db) former_member removal_event [] 0 = (Inr True, 0)" by code_simp
  have "stringField [] ''topicId'' = []" "er_Type removal_event \<notin> set own_rule_types" "er_TargetType removal_event \<noteq> Some ''attachment''"
    "er_ConversationID removal_event = Some ''con_1''" "er_SpaceID removal_event = ''spc_default''" "actor_ID former_member = ''usr_gone''"
    "\<not> member_active ''spc_default'' ''con_1'' ''usr_gone'' seed_db"
    by code_simp+
  then show ?thesis
    using conversation_event_visible [OF removed, of "''con_1''"] visible member removed by (simp add: still_def)
qed

theorem personal_event_visible_witness:
  "EventVisible (still seed_db) owner settings_event [] 0 = (Inr True, 0) \<and> er_TargetID settings_event = Some (actor_ID owner)"
proof -
  have visible: "EventVisible (still seed_db) owner settings_event [] 0 = (Inr True, 0)" by code_simp
  have "stringField [] ''topicId'' = []" "er_Type settings_event = ''emote.settings.updated''" by code_simp+
  then show ?thesis using personal_event_visible [OF visible] visible by simp
qed

end
