(* ===== verification/Events_Replay.thy ===== *)
theory Events_Replay
  imports Events_Repository
begin

text \<open>
  events/service.go: the service that replays the durable log to an actor in bounded, filtered
  batches, over an abstract repository (events/repository.go). The state a repository moves
  through is a type parameter. The loop over pages can run on as long as other transactions
  keep filling pages, so it has fuel; a result of \<^term>\<open>None\<close> means the fuel was used up.
\<close>

section \<open>The repository interface\<close>

record 's repo =
  rp_LookupActor :: "string \<Rightarrow> string \<Rightarrow> ('s, Actor option) io"
  rp_CurrentSeq :: "string \<Rightarrow> ('s, int) io"
  rp_EarliestSeq :: "string \<Rightarrow> ('s, int) io"
  rp_ListEventsAfter :: "string \<Rightarrow> int \<Rightarrow> int \<Rightarrow> ('s, EventRecord list) io"
  rp_EventVisible :: "Actor \<Rightarrow> EventRecord \<Rightarrow> payload \<Rightarrow> ('s, bool) io"
  rp_GetEvent :: "(string \<Rightarrow> string \<Rightarrow> ('s, EventRecord option) io) option"
  rp_ProjectEventPayload :: "(Actor \<Rightarrow> EventRecord \<Rightarrow> payload \<Rightarrow> ('s, payload option) io) option"

text \<open>What the projection needs of libraries: rounding to float64, Unicode lower case, the Markdown summary.\<close>

record libs =
  lib_f64 :: "rat \<Rightarrow> rat option"
  lib_ulow :: "rune \<Rightarrow> rune"
  lib_md :: "string \<Rightarrow> string"

record 's ServiceOptions =
  so_Repository :: "'s repo"
  so_SpaceID :: string
  so_ReplayLimit :: int
  so_BatchSize :: int

record 's Service =
  sv_repo :: "'s repo"
  sv_spaceID :: string
  sv_replayLimit :: int
  sv_batchSize :: int

record ReplayInput =
  ri_ActorID :: string
  ri_LastSeq :: int
  ri_Limit :: int

record ReplayResult =
  rr_Events :: "Event list"
  rr_CurrentSeq :: int
  rr_ReplayFrom :: int
  rr_ReplayCount :: int
  rr_HasMore :: bool
  rr_SyncRequired :: bool
  rr_Reason :: string

definition DefaultSpaceID :: string where "DefaultSpaceID = ''spc_default''"
definition DefaultReplayLimit :: int where "DefaultReplayLimit = 200"
definition MaxReplayLimit :: int where "MaxReplayLimit = 200"
definition SyncReasonCursorAhead :: string where "SyncReasonCursorAhead = ''cursor_ahead''"
definition SyncReasonReplayLimit :: string where "SyncReasonReplayLimit = ''replay_limit''"
definition SyncReasonReplayWindow :: string where "SyncReasonReplayWindow = ''replay_window_exceeded''"

definition NewService :: "'s ServiceOptions \<Rightarrow> 's Service" where
  "NewService options =
    (let spaceID = TrimSpace (so_SpaceID options);
         limit0 = (if so_ReplayLimit options \<le> 0 then DefaultReplayLimit else so_ReplayLimit options);
         batch0 = (if so_BatchSize options \<le> 0 then DefaultBatchSize else so_BatchSize options)
     in \<lparr>sv_repo = so_Repository options, sv_spaceID = (if spaceID = [] then DefaultSpaceID else spaceID),
         sv_replayLimit = (if limit0 > MaxReplayLimit then MaxReplayLimit else limit0),
         sv_batchSize = (if batch0 > MaxBatchSize then MaxBatchSize else batch0)\<rparr>)"

definition sv_space :: "'s Service \<Rightarrow> string" where
  "sv_space s = (if TrimSpace (sv_spaceID s) = [] then DefaultSpaceID else sv_spaceID s)"

definition io_fail :: "Error \<Rightarrow> ('s, 'a) io" where
  "io_fail e s = (Inl (Domain e), s)"

definition io_norm :: "('s, 'a) io \<Rightarrow> 's \<Rightarrow> (Error, 'a) result \<times> 's" where
  "io_norm m s = (case m s of (Inl e, s1) \<Rightarrow> (Inl (normalizeError e), s1) | (Inr x, s1) \<Rightarrow> (Inr x, s1))"

definition service_CurrentSeq :: "'s Service \<Rightarrow> 's \<Rightarrow> (Error, int) result \<times> 's" where
  "service_CurrentSeq s = io_norm (io_bind (rp_CurrentSeq (sv_repo s) (sv_space s)) (\<lambda>sq.
     if sq < 0 then io_fail sequenceInvalidError else io_return sq))"

definition lookupActor :: "'s Service \<Rightarrow> string \<Rightarrow> ('s, Actor) io" where
  "lookupActor s actorID = io_bind (rp_LookupActor (sv_repo s) (sv_space s) actorID) (\<lambda>found.
     case found of
       None \<Rightarrow> io_fail authRequiredError
     | Some actor \<Rightarrow>
         if TrimSpace (actor_ID actor) = [] \<or> actor_ID actor \<noteq> actorID \<or> TrimSpace (actor_Role actor) = [] then io_fail authRequiredError
         else if actor_Kind actor \<noteq> [] \<and> actor_Kind actor \<noteq> ''human'' then io_fail identityForbiddenError
         else io_return actor)"

definition service_projectPayload :: "'s Service \<Rightarrow> Actor \<Rightarrow> EventRecord \<Rightarrow> payload \<Rightarrow> ('s, payload) io" where
  "service_projectPayload s actor event payload =
    (case rp_ProjectEventPayload (sv_repo s) of
       None \<Rightarrow> io_return payload
     | Some f \<Rightarrow> io_bind (f actor event payload) (\<lambda>projected. io_return (case projected of None \<Rightarrow> [] | Some p \<Rightarrow> p)))"

lemma lookupActor_Inr:
  assumes "lookupActor s actorID st = (Inr actor, st1)"
  shows "rp_LookupActor (sv_repo s) (sv_space s) actorID st = (Inr (Some actor), st1)" "actor_ID actor = actorID"
    "actor_Kind actor = [] \<or> actor_Kind actor = ''human''"
proof -
  obtain found sta where found: "rp_LookupActor (sv_repo s) (sv_space s) actorID st = (Inr found, sta)"
    and rest: "(case found of
       None \<Rightarrow> io_fail authRequiredError
     | Some actor \<Rightarrow>
         if TrimSpace (actor_ID actor) = [] \<or> actor_ID actor \<noteq> actorID \<or> TrimSpace (actor_Role actor) = [] then io_fail authRequiredError
         else if actor_Kind actor \<noteq> [] \<and> actor_Kind actor \<noteq> ''human'' then io_fail identityForbiddenError
         else io_return actor) sta = (Inr actor, st1)"
    using assms unfolding lookupActor_def io_bind_Inr by blast
  obtain a where a: "found = Some a" using rest by (cases found) (simp_all add: io_fail_def)
  have "a = actor \<and> sta = st1 \<and> actor_ID a = actorID \<and> (actor_Kind a = [] \<or> actor_Kind a = ''human'')"
    using rest unfolding a option.case by (simp add: io_fail_def io_return_Inr split: if_split_asm)
  then show "rp_LookupActor (sv_repo s) (sv_space s) actorID st = (Inr (Some actor), st1)" "actor_ID actor = actorID"
    "actor_Kind actor = [] \<or> actor_Kind actor = ''human''"
    using found a by auto
qed

section \<open>Replay\<close>

definition wrap64 :: "int \<Rightarrow> int" where
  "wrap64 x = (x + 2 ^ 63) mod 2 ^ 64 - 2 ^ 63"

text \<open>Everything before the loop: an early answer, or the actor, the result so far and the cursor.\<close>

definition replay_start :: "'s Service \<Rightarrow> ReplayInput \<Rightarrow> ('s, ReplayResult + Actor \<times> ReplayResult \<times> int) io" where
  "replay_start s input =
    (let actorID = TrimSpace (ri_ActorID input) in
     if actorID = [] then io_fail authRequiredError
     else io_bind (lookupActor s actorID) (\<lambda>actor.
       let lastSeq = (if ri_LastSeq input < 0 then 0 else ri_LastSeq input) in
       io_bind (rp_CurrentSeq (sv_repo s) (sv_space s)) (\<lambda>currentSeq.
         if currentSeq < 0 then io_fail sequenceInvalidError
         else
           let r = \<lparr>rr_Events = [], rr_CurrentSeq = currentSeq, rr_ReplayFrom = wrap64 (lastSeq + 1), rr_ReplayCount = 0,
                 rr_HasMore = False, rr_SyncRequired = False, rr_Reason = []\<rparr> in
           if lastSeq > currentSeq then io_return (Inl (r\<lparr>rr_SyncRequired := True, rr_Reason := SyncReasonCursorAhead\<rparr>))
           else io_bind (rp_EarliestSeq (sv_repo s) (sv_space s)) (\<lambda>earliestSeq.
             if earliestSeq < 0 then io_fail sequenceInvalidError
             else if earliestSeq > 0 \<and> lastSeq < earliestSeq - 1
             then io_return (Inl (r\<lparr>rr_SyncRequired := True, rr_Reason := SyncReasonReplayWindow\<rparr>))
             else io_return (Inr (actor, r, lastSeq))))))"

definition replay_limit :: "'s Service \<Rightarrow> ReplayInput \<Rightarrow> int" where
  "replay_limit s input =
    (let l = (if ri_Limit input > 0 \<and> ri_Limit input < sv_replayLimit s then ri_Limit input else sv_replayLimit s)
     in if l > MaxReplayLimit then MaxReplayLimit else l)"

definition replay_batch :: "'s Service \<Rightarrow> int" where
  "replay_batch s = (if sv_batchSize s \<le> 0 \<or> sv_batchSize s > MaxBatchSize then DefaultBatchSize else sv_batchSize s)"

text \<open>The rows of one page; the result is the cursor, the events so far and \<open>HasMore\<close>.\<close>

fun replay_rows ::
  "libs \<Rightarrow> 's Service \<Rightarrow> Actor \<Rightarrow> int \<Rightarrow> EventRecord list \<Rightarrow> int \<Rightarrow> Event list \<Rightarrow> ('s, int \<times> Event list \<times> bool) io" where
  "replay_rows L s actor lm [] cursor evs = io_return (cursor, evs, False)"
| "replay_rows L s actor lm (row # rows) cursor evs =
    (if TrimSpace (er_SpaceID row) \<noteq> sv_space s
     then io_fail (internalError ''replay workspace events'' ''event belongs to another space'')
     else if er_Seq row \<le> cursor
     then io_fail (internalError ''replay workspace events'' ''event sequence is not strictly increasing'')
     else
       let payload = ParsePayloadObject (lib_f64 L) (er_PayloadJSON row) in
       io_bind (rp_EventVisible (sv_repo s) actor row payload) (\<lambda>visible.
         if \<not> visible then replay_rows L s actor lm rows (er_Seq row) evs
         else io_bind (service_projectPayload s actor row payload) (\<lambda>projected.
           if int (length evs) \<ge> lm then io_return (er_Seq row, evs, True)
           else replay_rows L s actor lm rows (er_Seq row) (evs @ [projectEvent (lib_ulow L) (lib_md L) row projected actor]))))"

fun replay_pages ::
  "libs \<Rightarrow> 's Service \<Rightarrow> Actor \<Rightarrow> int \<Rightarrow> nat \<Rightarrow> int \<Rightarrow> Event list \<Rightarrow> 's \<Rightarrow> ((go_error, int \<times> Event list \<times> bool) result \<times> 's) option" where
  "replay_pages L s actor lm 0 cursor evs st = None"
| "replay_pages L s actor lm (Suc fuel) cursor evs st =
    (case rp_ListEventsAfter (sv_repo s) (sv_space s) cursor (replay_batch s) st of
       (Inl e, st1) \<Rightarrow> Some (Inl e, st1)
     | (Inr rows, st1) \<Rightarrow>
         if rows = [] then Some (Inr (cursor, evs, False), st1)
         else (case replay_rows L s actor lm rows cursor evs st1 of
             (Inl e, st2) \<Rightarrow> Some (Inl e, st2)
           | (Inr (cursor1, evs1, hasMore), st2) \<Rightarrow>
               if hasMore then Some (Inr (cursor1, evs1, True), st2)
               else if int (length rows) < replay_batch s then Some (Inr (cursor1, evs1, False), st2)
               else replay_pages L s actor lm fuel cursor1 evs1 st2))"

definition Replay :: "libs \<Rightarrow> nat \<Rightarrow> 's Service \<Rightarrow> ReplayInput \<Rightarrow> 's \<Rightarrow> ((Error, ReplayResult) result \<times> 's) option" where
  "Replay L fuel s input st =
    (case replay_start s input st of
       (Inl e, st1) \<Rightarrow> Some (Inl (normalizeError e), st1)
     | (Inr (Inl r), st1) \<Rightarrow> Some (Inr r, st1)
     | (Inr (Inr (actor, r, lastSeq)), st1) \<Rightarrow>
         (case replay_pages L s actor (replay_limit s input) fuel lastSeq [] st1 of
            None \<Rightarrow> None
          | Some (Inl e, st2) \<Rightarrow> Some (Inl (normalizeError e), st2)
          | Some (Inr (cursor, evs, hasMore), st2) \<Rightarrow>
              Some (Inr (r\<lparr>rr_Events := evs, rr_HasMore := hasMore, rr_ReplayCount := int (length evs),
                           rr_CurrentSeq := (if cursor > rr_CurrentSeq r then cursor else rr_CurrentSeq r)\<rparr>), st2)))"

definition GetForActor :: "libs \<Rightarrow> 's Service \<Rightarrow> string \<Rightarrow> string \<Rightarrow> 's \<Rightarrow> (Error, Event option) result \<times> 's" where
  "GetForActor L s actor_arg eventID = io_norm
    (let actorID = TrimSpace actor_arg in
     if actorID = [] then io_fail authRequiredError
     else io_bind (lookupActor s actorID) (\<lambda>actor.
       case rp_GetEvent (sv_repo s) of
         None \<Rightarrow> io_fail (internalError ''read workspace event'' ''event lookup is not supported'')
       | Some get_event \<Rightarrow> io_bind (get_event (sv_space s) (TrimSpace eventID)) (\<lambda>found.
           case found of
             None \<Rightarrow> io_return None
           | Some record \<Rightarrow>
               if TrimSpace (er_SpaceID record) \<noteq> sv_space s
               then io_fail (internalError ''read workspace event'' ''event belongs to another space'')
               else
                 let payload = ParsePayloadObject (lib_f64 L) (er_PayloadJSON record) in
                 io_bind (rp_EventVisible (sv_repo s) actor record payload) (\<lambda>visible.
                   if \<not> visible then io_return None
                   else io_bind (service_projectPayload s actor record payload) (\<lambda>projected.
                     io_return (Some (projectEvent (lib_ulow L) (lib_md L) record projected actor)))))))"

text \<open>realtime/handler.go: the cursor of a session after a replay was sent.\<close>

definition deliveredCursor :: "int \<Rightarrow> ReplayResult \<Rightarrow> int" where
  "deliveredCursor previous r =
    (case rev (rr_Events r) of
       [] \<Rightarrow> if rr_CurrentSeq r > previous then rr_CurrentSeq r else previous
     | e # _ \<Rightarrow> if ev_Seq e > previous then ev_Seq e else previous)"


section \<open>What a replay owes its client\<close>

text \<open>
  What became of a row: \<^term>\<open>None\<close> when the repository judged it invisible for the actor, the
  projected event when it judged it visible, at states with the property \<open>during\<close>.
\<close>

definition judged :: "libs \<Rightarrow> 's Service \<Rightarrow> Actor \<Rightarrow> ('s \<Rightarrow> bool) \<Rightarrow> EventRecord \<Rightarrow> Event option \<Rightarrow> bool" where
  "judged L s actor during row out =
    (let payload = ParsePayloadObject (lib_f64 L) (er_PayloadJSON row) in
     case out of
       None \<Rightarrow> \<exists>st st'. during st \<and> during st' \<and> rp_EventVisible (sv_repo s) actor row payload st = (Inr False, st')
     | Some e \<Rightarrow> \<exists>st st' p st''. during st \<and> during st' \<and> during st'' \<and>
         rp_EventVisible (sv_repo s) actor row payload st = (Inr True, st') \<and>
         service_projectPayload s actor row payload st' = (Inr p, st'') \<and>
         e = projectEvent (lib_ulow L) (lib_md L) row p actor)"

lemma judged_mono: "judged L s actor P row out \<Longrightarrow> (\<And>st. P st \<Longrightarrow> Q st) \<Longrightarrow> judged L s actor Q row out"
  unfolding judged_def Let_def by (cases out) (simp; blast)+

lemma judged_hidden:
  "rp_EventVisible (sv_repo s) actor row (ParsePayloadObject (lib_f64 L) (er_PayloadJSON row)) st = (Inr False, st') \<Longrightarrow>
   P st \<Longrightarrow> P st' \<Longrightarrow> judged L s actor P row None"
  unfolding judged_def Let_def option.case by blast

lemma judged_shown:
  "rp_EventVisible (sv_repo s) actor row (ParsePayloadObject (lib_f64 L) (er_PayloadJSON row)) st = (Inr True, st') \<Longrightarrow>
   service_projectPayload s actor row (ParsePayloadObject (lib_f64 L) (er_PayloadJSON row)) st' = (Inr p, st'') \<Longrightarrow>
   P st \<Longrightarrow> P st' \<Longrightarrow> P st'' \<Longrightarrow> judged L s actor P row (Some (projectEvent (lib_ulow L) (lib_md L) row p actor))"
  unfolding judged_def Let_def option.case by blast

lemma judged_all_mono:
  "list_all2 (judged L s actor P) rows outs \<Longrightarrow> (\<And>st. P st \<Longrightarrow> Q st) \<Longrightarrow> list_all2 (judged L s actor Q) rows outs"
  by (erule list_all2_mono) (rule judged_mono)

lemma judged_seq: "judged L s actor P row (Some e) \<Longrightarrow> ev_Seq e = er_Seq row"
  by (auto simp: judged_def Let_def projectEvent_def)

text \<open>The same for a user id; the actor's role may differ from row to row.\<close>

definition judged_for :: "libs \<Rightarrow> 's Service \<Rightarrow> string \<Rightarrow> ('s \<Rightarrow> bool) \<Rightarrow> EventRecord \<Rightarrow> Event option \<Rightarrow> bool" where
  "judged_for L s user during row out \<longleftrightarrow> (\<exists>actor. actor_ID actor = user \<and> judged L s actor during row out)"

lemma judged_for_all_mono:
  assumes "list_all2 (judged_for L s user P) rows outs" "\<And>st. P st \<Longrightarrow> Q st"
  shows "list_all2 (judged_for L s user Q) rows outs"
  using assms(1)
proof (rule list_all2_mono)
  show "judged_for L s user P row out \<Longrightarrow> judged_for L s user Q row out" for row out
    unfolding judged_for_def using judged_mono [of L s _ P row out Q] assms(2) by blast
qed

definition shown :: "'a option list \<Rightarrow> 'a list" where
  "shown outs = List.map_filter id outs"

lemma shown_simps [simp]:
  "shown [] = []" "shown (None # outs) = shown outs" "shown (Some e # outs) = e # shown outs"
  "shown (outs @ outs') = shown outs @ shown outs'"
  by (simp_all add: shown_def map_filter_simps) (simp add: List.map_filter_def)

text \<open>Cutting off the rows after the last one shown loses nothing that is shown.\<close>

lemma cut_after_last:
  assumes "list_all2 J rows outs" "\<And>row e. J row (Some e) \<Longrightarrow> ev_Seq e = er_Seq row"
    "sorted_wrt (\<lambda>a b. er_Seq a < er_Seq b) rows" "shown outs \<noteq> []"
  shows "\<exists>outs'. list_all2 J (filter (\<lambda>r. er_Seq r \<le> ev_Seq (last (shown outs))) rows) outs' \<and> shown outs' = shown outs"
  using assms
proof (induction rows outs rule: list_all2_induct)
  case Nil
  then show ?case by simp
next
  case (Cons row rows out outs)
  show ?case
  proof (cases "shown outs = []")
    case False
    then obtain outs' where outs': "list_all2 J (filter (\<lambda>r. er_Seq r \<le> ev_Seq (last (shown outs))) rows) outs'" "shown outs' = shown outs"
      using Cons by auto
    have last: "last (shown (out # outs)) = last (shown outs)" using False by (cases out) auto
    obtain row' e where row': "row' \<in> set rows" "J row' (Some e)" "e = last (shown outs)"
    proof -
      have "last (shown outs) \<in> set (shown outs)" using False by simp
      then have "Some (last (shown outs)) \<in> set outs" by (auto simp: shown_def List.map_filter_def)
      then obtain i where i: "i < length outs" "outs ! i = Some (last (shown outs))" by (auto simp: in_set_conv_nth)
      moreover have "i < length rows" using i Cons(2) by (simp add: list_all2_lengthD)
      moreover have "J (rows ! i) (outs ! i)" using list_all2_nthD2 [OF Cons(2) i(1)] .
      ultimately show ?thesis using that [of "rows ! i"] by simp
    qed
    then have "er_Seq row \<le> ev_Seq (last (shown outs))"
      using Cons.prems(1,2) by (auto dest!: bspec simp: less_imp_le)
    moreover have "shown (out # outs') = shown (out # outs)" using outs'(2) by (cases out) auto
    ultimately show ?thesis
      using outs' Cons(1) by (intro exI [of _ "out # outs'"]) (simp add: last)
  next
    case True
    then obtain e where e: "out = Some e" using Cons.prems by (cases out) auto
    then have "ev_Seq e = er_Seq row" using Cons by simp
    moreover have "filter (\<lambda>r. er_Seq r \<le> er_Seq row) rows = []"
      using Cons.prems(2) by (auto simp: filter_empty_conv)
    ultimately show ?thesis using Cons(1) True e by (intro exI [of _ "[out]"]) simp
  qed
qed


lemma list_all2_in: "list_all2 P xs ys \<Longrightarrow> x \<in> set xs \<Longrightarrow> \<exists>y. y \<in> set ys \<and> P x y"
  by (induction rule: list_all2_induct) auto

section \<open>Sections of a numbered list\<close>

lemma sorted_cut_less:
  "sorted_wrt (\<lambda>a b. er_Seq a < er_Seq b) (xs @ r # ys) \<Longrightarrow> filter (\<lambda>a. er_Seq a < er_Seq r) (xs @ r # ys) = xs"
  by (auto simp: sorted_wrt_append filter_empty_conv filter_id_conv)

lemma sorted_cut_le:
  assumes "sorted_wrt (\<lambda>a b. er_Seq a < er_Seq b) (xs @ ys)" "xs \<noteq> []"
  shows "filter (\<lambda>a. er_Seq a \<le> er_Seq (last xs)) (xs @ ys) = xs"
proof -
  obtain zs z where xs: "xs = zs @ [z]" using assms(2) by (cases xs rule: rev_cases) auto
  show ?thesis using assms(1) by (auto simp: xs sorted_wrt_append filter_empty_conv filter_id_conv less_imp_le)
qed

lemma sorted_sections:
  assumes "sorted_wrt (\<lambda>a b. er_Seq a < er_Seq b) l" "a \<le> b" "\<And>r. er_Seq r \<le> b \<Longrightarrow> P r"
  shows "filter (\<lambda>r. a < er_Seq r \<and> P r) l = filter (\<lambda>r. a < er_Seq r \<and> er_Seq r \<le> b) l @ filter (\<lambda>r. b < er_Seq r \<and> P r) l"
  using assms
proof (induction l)
  case Nil
  then show ?case by simp
next
  case (Cons r l)
  show ?case
  proof (cases "er_Seq r \<le> b")
    case False
    then have "filter (\<lambda>r. a < er_Seq r \<and> er_Seq r \<le> b) l = []" using Cons.prems(1) by (fastforce simp: filter_empty_conv)
    then show ?thesis using Cons False by simp
  qed (use Cons in auto)
qed

text \<open>A judged section ends, for what is shown, at the last row shown.\<close>

lemma delivered_section:
  assumes J: "list_all2 J (filter (\<lambda>r. a < er_Seq r \<and> P r) l) outs" and seq: "\<And>row e. J row (Some e) \<Longrightarrow> ev_Seq e = er_Seq row"
    and sorted: "sorted_wrt (\<lambda>x y. er_Seq x < er_Seq y) l" and ne: "shown outs \<noteq> []"
    and down: "\<And>r r'. P r \<Longrightarrow> er_Seq r' \<le> er_Seq r \<Longrightarrow> P r'"
  shows "a < ev_Seq (last (shown outs)) \<and> ev_Seq (last (shown outs)) \<in> er_Seq ` set l \<and>
    (\<exists>outs'. shown outs' = shown outs \<and> list_all2 J (filter (\<lambda>r. a < er_Seq r \<and> er_Seq r \<le> ev_Seq (last (shown outs))) l) outs')"
proof -
  let ?sect = "filter (\<lambda>r. a < er_Seq r \<and> P r) l" and ?d = "ev_Seq (last (shown outs))"
  have "Some (last (shown outs)) \<in> set outs" using last_in_set [OF ne] by (auto simp: shown_def List.map_filter_def)
  then obtain i where i: "i < length outs" "outs ! i = Some (last (shown outs))" by (auto simp: in_set_conv_nth)
  have len: "i < length ?sect" using i(1) list_all2_lengthD [OF J] by (simp only:)
  have "J (?sect ! i) (Some (last (shown outs)))" using list_all2_nthD2 [OF J i(1)] i(2) by simp
  then have d: "?d = er_Seq (?sect ! i)" by (rule seq)
  have row: "?sect ! i \<in> set ?sect" by (rule nth_mem [OF len])
  obtain outs' where outs': "list_all2 J (filter (\<lambda>r. er_Seq r \<le> ?d) ?sect) outs'" "shown outs' = shown outs"
    using cut_after_last [OF J seq sorted_wrt_filter [OF sorted] ne] by blast
  have "P r" if "er_Seq r \<le> ?d" for r using down [of "?sect ! i" r] row that unfolding d by simp
  then have "filter (\<lambda>r. er_Seq r \<le> ?d) ?sect = filter (\<lambda>r. a < er_Seq r \<and> er_Seq r \<le> ?d) l"
    unfolding filter_filter by (intro filter_cong) auto
  moreover have "?d \<in> er_Seq ` set l" using row unfolding d by auto
  ultimately show ?thesis using outs' row d by auto
qed

section \<open>Repositories over a growing log\<close>

text \<open>
  What the service relies on: a state is followed by later states, the log of a space only
  grows at its end and is numbered upwards from 1, and the listing and the current number are
  those of the log at some moment of the call.
\<close>

locale event_log =
  fixes repo :: "'s repo" and space :: string and log_at :: "'s \<Rightarrow> EventRecord list" and later :: "'s \<Rightarrow> 's \<Rightarrow> bool"
  assumes later_refl: "later st st"
    and later_trans: "later st st1 \<Longrightarrow> later st1 st2 \<Longrightarrow> later st st2"
    and grows: "later st st1 \<Longrightarrow> \<exists>rs. log_at st1 = log_at st @ rs"
    and log_sorted: "sorted_wrt (\<lambda>a b. er_Seq a < er_Seq b) (log_at st)"
    and log_rows: "r \<in> set (log_at st) \<Longrightarrow> 1 \<le> er_Seq r \<and> er_SpaceID r = space"
    and current: "rp_CurrentSeq repo space st = (Inr n, st1) \<Longrightarrow>
      0 \<le> n \<and> (\<exists>stm. later st stm \<and> later stm st1 \<and> (n = 0 \<or> (\<exists>r. r \<in> set (log_at stm) \<and> er_Seq r = n)))"
    and listing: "rp_ListEventsAfter repo space after k st = (Inr rows, st1) \<Longrightarrow> 0 \<le> after \<Longrightarrow> 1 \<le> k \<Longrightarrow> k \<le> MaxBatchSize \<Longrightarrow>
      \<exists>stm. later st stm \<and> later stm st1 \<and> rows = take (nat k) (filter (\<lambda>r. after < er_Seq r) (log_at stm))"
    and lookup_later: "rp_LookupActor repo space user st = (x1, st1) \<Longrightarrow> later st st1"
    and earliest_later: "rp_EarliestSeq repo space st = (x2, st1) \<Longrightarrow> later st st1"
    and visible_later: "rp_EventVisible repo actor row payload st = (x3, st1) \<Longrightarrow> later st st1"
    and project_later: "rp_ProjectEventPayload repo = Some f \<Longrightarrow> f actor row payload st = (x4, st1) \<Longrightarrow> later st st1"
begin

lemma service_project_later:
  assumes "sv_repo s = repo" "service_projectPayload s actor row payload st = (Inr p, st1)"
  shows "later st st1"
proof (cases "rp_ProjectEventPayload repo")
  case None
  then show ?thesis using assms by (simp add: service_projectPayload_def io_return_Inr later_refl)
next
  case (Some f)
  then show ?thesis using assms project_later [OF Some] by (auto simp: service_projectPayload_def io_simps)
qed

abbreviation between :: "'s \<Rightarrow> 's \<Rightarrow> 's \<Rightarrow> bool" where
  "between a b st \<equiv> later a st \<and> later st b"

text \<open>One page: the rows up to the point where the limit is met are judged in order.\<close>

lemma replay_rows_judged:
  assumes "sv_repo s = repo" "replay_rows L s actor lm rows cursor evs st = (Inr (c, evs1, hasMore), st1)"
  shows "later st st1 \<and> (\<exists>before rest outs. rows = before @ rest \<and> list_all2 (judged L s actor (between st st1)) before outs \<and>
     evs1 = evs @ shown outs \<and>
     (if hasMore then lm \<le> int (length evs1) \<and> (\<exists>r rest1. rest = r # rest1 \<and> c = er_Seq r)
      else rest = [] \<and> c = (if rows = [] then cursor else er_Seq (last rows))))"
  using assms
proof (induction rows arbitrary: cursor evs st)
  case Nil
  then show ?case by (auto simp: io_return_Inr later_refl)
next
  case (Cons row rows)
  let ?p = "ParsePayloadObject (lib_f64 L) (er_PayloadJSON row)"
  from Cons.prems obtain visible stv where
    vis: "rp_EventVisible repo actor row ?p st = (Inr visible, stv)"
    and rest: "(if \<not> visible then replay_rows L s actor lm rows (er_Seq row) evs
         else io_bind (service_projectPayload s actor row ?p) (\<lambda>projected.
           if int (length evs) \<ge> lm then io_return (er_Seq row, evs, True)
           else replay_rows L s actor lm rows (er_Seq row) (evs @ [projectEvent (lib_ulow L) (lib_md L) row projected actor]))) stv
        = (Inr (c, evs1, hasMore), st1)"
    by (auto simp: Let_def io_bind_Inr io_fail_def split: if_split_asm)
  have later_v: "later st stv" by (rule visible_later [OF vis])
  show ?case
  proof (cases visible)
    case False
    then have "replay_rows L s actor lm rows (er_Seq row) evs stv = (Inr (c, evs1, hasMore), st1)" using rest by simp
    from Cons.IH [OF Cons.prems(1) this] obtain before tl outs where ih: "later stv st1" "rows = before @ tl"
      "list_all2 (judged L s actor (between stv st1)) before outs" "evs1 = evs @ shown outs"
      "if hasMore then lm \<le> int (length evs1) \<and> (\<exists>r rest1. tl = r # rest1 \<and> c = er_Seq r)
       else tl = [] \<and> c = (if rows = [] then er_Seq row else er_Seq (last rows))"
      by blast
    have later1: "later st st1" by (rule later_trans [OF later_v ih(1)])
    have "list_all2 (judged L s actor (between st st1)) before outs"
      using ih(3) by (rule judged_all_mono) (simp add: later_trans [OF later_v])
    moreover have "judged L s actor (between st st1) row None"
      by (rule judged_hidden [where st = st and st' = stv]) (use vis False Cons.prems(1) later_v later1 ih(1) in \<open>simp_all add: later_refl\<close>)
    ultimately show ?thesis
      using ih(2,4,5) later1 by (intro conjI exI [of _ "row # before"] exI [of _ tl] exI [of _ "None # outs"]) auto
  next
    case True
    then obtain p stp where proj: "service_projectPayload s actor row ?p stv = (Inr p, stp)"
      and rest': "(if int (length evs) \<ge> lm then io_return (er_Seq row, evs, True)
           else replay_rows L s actor lm rows (er_Seq row) (evs @ [projectEvent (lib_ulow L) (lib_md L) row p actor])) stp
         = (Inr (c, evs1, hasMore), st1)"
      using rest by (auto simp: io_bind_Inr)
    have later_p: "later stv stp" by (rule service_project_later [OF Cons.prems(1) proj])
    show ?thesis
    proof (cases "int (length evs) \<ge> lm")
      case True
      then show ?thesis using rest' later_trans [OF later_v later_p]
        by (intro conjI exI [of _ "[]"] exI [of _ "row # rows"]) (auto simp: io_return_Inr)
    next
      case False
      let ?e = "projectEvent (lib_ulow L) (lib_md L) row p actor"
      have "replay_rows L s actor lm rows (er_Seq row) (evs @ [?e]) stp = (Inr (c, evs1, hasMore), st1)" using rest' False by simp
      from Cons.IH [OF Cons.prems(1) this] obtain before tl outs where ih: "later stp st1" "rows = before @ tl"
        "list_all2 (judged L s actor (between stp st1)) before outs" "evs1 = (evs @ [?e]) @ shown outs"
        "if hasMore then lm \<le> int (length evs1) \<and> (\<exists>r rest1. tl = r # rest1 \<and> c = er_Seq r)
         else tl = [] \<and> c = (if rows = [] then er_Seq row else er_Seq (last rows))"
        by blast
      have later_s: "later st stp" by (rule later_trans [OF later_v later_p])
      have later1: "later st st1" by (rule later_trans [OF later_s ih(1)])
      have "list_all2 (judged L s actor (between st st1)) before outs"
        using ih(3) by (rule judged_all_mono) (simp add: later_trans [OF later_s])
      moreover have "judged L s actor (between st st1) row (Some ?e)"
        by (rule judged_shown [where st = st and st' = stv and st'' = stp])
          (use vis \<open>visible\<close> Cons.prems(1) proj later_v later_s later1 ih(1) later_trans [OF later_p ih(1)] in \<open>simp_all add: later_refl\<close>)
      ultimately show ?thesis
        using ih(2,4,5) later1 by (intro conjI exI [of _ "row # before"] exI [of _ tl] exI [of _ "Some ?e # outs"]) auto
    qed
  qed
qed


lemma listing_section:
  assumes "rp_ListEventsAfter repo space after k st = (Inr rows, st1)" "0 \<le> after" "1 \<le> k" "k \<le> MaxBatchSize" "later st1 st2"
  shows "\<exists>tl. filter (\<lambda>r. after < er_Seq r) (log_at st2) = rows @ tl"
proof -
  obtain stm rs where "later stm st1" "rows = take (nat k) (filter (\<lambda>r. after < er_Seq r) (log_at stm))" "log_at st2 = log_at stm @ rs"
    using listing [OF assms(1-4)] grows later_trans [OF _ assms(5)] by blast
  then show ?thesis
    by (metis append_take_drop_id filter_append append.assoc)
qed

lemma listing_short:
  assumes "rp_ListEventsAfter repo space after k st = (Inr rows, st1)" "0 \<le> after" "1 \<le> k" "k \<le> MaxBatchSize" "int (length rows) < k"
  shows "\<exists>stm. between st st1 stm \<and> rows = filter (\<lambda>r. after < er_Seq r) (log_at stm)"
proof -
  obtain stm where "between st st1 stm" "rows = take (nat k) (filter (\<lambda>r. after < er_Seq r) (log_at stm))"
    using listing [OF assms(1-4)] by blast
  then show ?thesis using assms(5) by (intro exI [of _ stm]) auto
qed

text \<open>All pages: the events are those of a section of the log after the cursor, judged in order.\<close>

definition section_judged where
  "section_judged L s actor cursor evs st c evs1 hasMore st1 \<longleftrightarrow>
    (\<exists>outs. list_all2 (judged L s actor (between st st1))
       (filter (\<lambda>r. cursor < er_Seq r \<and> (if hasMore then er_Seq r < c else er_Seq r \<le> c)) (log_at st1)) outs \<and> evs1 = evs @ shown outs)"

lemma page_judged:
  assumes "sv_repo s = repo" "sv_space s = space" "0 \<le> cursor" "1 \<le> replay_batch s" "replay_batch s \<le> MaxBatchSize"
    and lst: "rp_ListEventsAfter repo space cursor (replay_batch s) st = (Inr rows, sta)" and ne: "rows \<noteq> []"
    and run: "replay_rows L s actor lm rows cursor evs sta = (Inr (c, evs1, hasMore), st1)"
  shows "later st st1 \<and> cursor < c \<and> section_judged L s actor cursor evs st c evs1 hasMore st1 \<and>
    (if hasMore then lm \<le> int (length evs1) else c = er_Seq (last rows))"
proof -
  obtain before rest outs where rows: "later sta st1" "rows = before @ rest"
    "list_all2 (judged L s actor (between sta st1)) before outs" "evs1 = evs @ shown outs"
    "if hasMore then lm \<le> int (length evs1) \<and> (\<exists>r rest1. rest = r # rest1 \<and> c = er_Seq r) else rest = [] \<and> c = er_Seq (last rows)"
    using replay_rows_judged [OF assms(1) run, unfolded if_not_P [OF ne]] by blast
  have "later st sta" using listing [OF lst assms(3-5)] later_trans by blast
  then have later1: "later st st1" using rows(1) by (rule later_trans)
  obtain tl where tl: "filter (\<lambda>r. cursor < er_Seq r) (log_at st1) = rows @ tl"
    using listing_section [OF lst assms(3-5) rows(1)] by blast
  have sorted: "sorted_wrt (\<lambda>a b. er_Seq a < er_Seq b) (rows @ tl)"
    using sorted_wrt_filter [OF log_sorted, of _ st1] by (metis tl)
  have sect: "filter (\<lambda>r. cursor < er_Seq r \<and> P r) (log_at st1) = filter P (rows @ tl)" for P
    by (simp add: tl [symmetric] del: filter_append)
  have above: "cursor < er_Seq r" if "r \<in> set rows" for r
    using that arg_cong [OF tl, of set] by auto
  have "list_all2 (judged L s actor (between st st1)) before outs"
    using rows(3) by (rule judged_all_mono) (simp add: later_trans [OF \<open>later st sta\<close>])
  moreover have "filter (\<lambda>r. cursor < er_Seq r \<and> (if hasMore then er_Seq r < c else er_Seq r \<le> c)) (log_at st1) = before \<and> cursor < c"
  proof (cases hasMore)
    case True
    then obtain r rest1 where r: "rest = r # rest1" "c = er_Seq r" using rows(5) by auto
    have "filter (\<lambda>a. er_Seq a < c) (rows @ tl) = before"
      using sorted_cut_less [of before r "rest1 @ tl"] sorted r rows(2) by simp
    then show ?thesis using True above [of r] r rows(2) by (simp only: sect if_True) simp
  next
    case False
    then have c: "c = er_Seq (last rows)" "before = rows" using rows(2,5) by auto
    have "filter (\<lambda>a. er_Seq a \<le> c) (rows @ tl) = before" using sorted_cut_le [OF sorted ne] c by simp
    then show ?thesis using False above [of "last rows"] c ne by (simp only: sect if_False) simp
  qed
  ultimately show ?thesis using rows(4,5) later1 unfolding section_judged_def by auto
qed


lemma section_append:
  assumes "section_judged L s actor a evs st b evs1 False stm" "section_judged L s actor b evs1 stm c evs2 hasMore st1"
    "later st stm" "later stm st1" "a \<le> b" "b < c \<or> (b = c \<and> \<not> hasMore)"
    and first: "filter (\<lambda>r. a < er_Seq r \<and> er_Seq r \<le> b) (log_at st1) = filter (\<lambda>r. a < er_Seq r \<and> er_Seq r \<le> b) (log_at stm)"
  shows "section_judged L s actor a evs st c evs2 hasMore st1"
proof -
  let ?P = "\<lambda>r. if hasMore then er_Seq r < c else er_Seq r \<le> c"
  obtain outs1 where outs1: "list_all2 (judged L s actor (between st stm)) (filter (\<lambda>r. a < er_Seq r \<and> er_Seq r \<le> b) (log_at stm)) outs1"
    "evs1 = evs @ shown outs1"
    using assms(1) by (auto simp: section_judged_def)
  obtain outs2 where outs2: "list_all2 (judged L s actor (between stm st1)) (filter (\<lambda>r. b < er_Seq r \<and> ?P r) (log_at st1)) outs2"
    "evs2 = evs1 @ shown outs2"
    using assms(2) by (auto simp: section_judged_def)
  have "filter (\<lambda>r. a < er_Seq r \<and> ?P r) (log_at st1) =
    filter (\<lambda>r. a < er_Seq r \<and> er_Seq r \<le> b) (log_at stm) @ filter (\<lambda>r. b < er_Seq r \<and> ?P r) (log_at st1)"
    unfolding first [symmetric] by (rule sorted_sections [OF log_sorted assms(5)]) (use assms(6) in auto)
  moreover have "list_all2 (judged L s actor (between st st1))
    (filter (\<lambda>r. a < er_Seq r \<and> er_Seq r \<le> b) (log_at stm) @ filter (\<lambda>r. b < er_Seq r \<and> ?P r) (log_at st1)) (outs1 @ outs2)"
  proof (rule list_all2_appendI)
    show "list_all2 (judged L s actor (between st st1)) (filter (\<lambda>r. a < er_Seq r \<and> er_Seq r \<le> b) (log_at stm)) outs1"
      using outs1(1) by (rule judged_all_mono) (use later_trans assms(4) in blast)
    show "list_all2 (judged L s actor (between st st1)) (filter (\<lambda>r. b < er_Seq r \<and> ?P r) (log_at st1)) outs2"
      using outs2(1) by (rule judged_all_mono) (use later_trans assms(3) in blast)
  qed
  ultimately have "list_all2 (judged L s actor (between st st1)) (filter (\<lambda>r. a < er_Seq r \<and> ?P r) (log_at st1)) (outs1 @ outs2)"
    by (simp only:)
  moreover have "evs2 = evs @ shown (outs1 @ outs2)" using outs1(2) outs2(2) by simp
  ultimately show ?thesis unfolding section_judged_def by (intro exI conjI)
qed

text \<open>A section that ends at a row already in the log does not change any more.\<close>

lemma section_stable:
  assumes "later stm st1" "r \<in> set (log_at stm)" "b = er_Seq r"
  shows "filter (\<lambda>r. a < er_Seq r \<and> er_Seq r \<le> b) (log_at st1) = filter (\<lambda>r. a < er_Seq r \<and> er_Seq r \<le> b) (log_at stm)"
proof -
  obtain rs where rs: "log_at st1 = log_at stm @ rs" using grows [OF assms(1)] by blast
  have "\<forall>x \<in> set rs. b < er_Seq x" using log_sorted [of st1] assms(2,3) by (auto simp: rs sorted_wrt_append)
  then have "filter (\<lambda>r. a < er_Seq r \<and> er_Seq r \<le> b) rs = []" by (auto simp: filter_empty_conv)
  then show ?thesis by (simp add: rs)
qed

lemma replay_pages_judged:
  assumes "sv_repo s = repo" "sv_space s = space" "1 \<le> replay_batch s" "replay_batch s \<le> MaxBatchSize"
    and "0 \<le> cursor" "replay_pages L s actor lm fuel cursor evs st = Some (Inr (c, evs1, hasMore), st1)"
  shows "later st st1 \<and> (cursor < c \<or> (cursor = c \<and> \<not> hasMore)) \<and> section_judged L s actor cursor evs st c evs1 hasMore st1 \<and>
    (if hasMore then lm \<le> int (length evs1) else \<exists>stm. between st st1 stm \<and> (\<forall>r \<in> set (log_at stm). er_Seq r \<le> c))"
  using assms(5,6)
proof (induction fuel arbitrary: cursor evs st)
  case 0
  then show ?case by simp
next
  case (Suc fuel)
  from Suc.prems(2) obtain rows sta where lst: "rp_ListEventsAfter repo space cursor (replay_batch s) st = (Inr rows, sta)"
    by (auto simp: assms(1,2) split: prod.split_asm sum.split_asm)
  note bounds = Suc.prems(1) assms(3,4)
  show ?case
  proof (cases "rows = []")
    case True
    then have eq: "c = cursor" "evs1 = evs" "\<not> hasMore" "st1 = sta" using Suc.prems(2) lst by (auto simp: assms(1,2))
    obtain stm where stm: "between st st1 stm" "[] = filter (\<lambda>r. cursor < er_Seq r) (log_at stm)"
      using listing_short [OF lst bounds] True assms(3) eq(4) by auto
    then have "\<forall>r \<in> set (log_at stm). er_Seq r \<le> c" by (simp add: eq(1) filter_empty_conv not_less eq_commute [of "[]"])
    moreover have "section_judged L s actor cursor evs st c evs1 hasMore st1"
      unfolding section_judged_def eq by (rule exI [of _ "[]"]) (simp add: filter_empty_conv)
    moreover have "later st st1" using stm(1) later_trans by blast
    ultimately show ?thesis using stm(1) eq by auto
  next
    case False
    obtain c1 e1 m1 st2 where run: "replay_rows L s actor lm rows cursor evs sta = (Inr (c1, e1, m1), st2)"
      using Suc.prems(2) lst False by (auto simp: assms(1,2) split: prod.split_asm sum.split_asm)
    note page = page_judged [OF assms(1,2) bounds lst False run]
    show ?thesis
    proof (cases "m1 \<or> int (length rows) < replay_batch s")
      case True
      then have eq: "c = c1" "evs1 = e1" "hasMore = m1" "st1 = st2"
        using Suc.prems(2) lst False run by (auto simp: assms(1,2) split: if_split_asm)
      show ?thesis
      proof (cases m1)
        case True
        then show ?thesis using page eq by simp
      next
        case short: False
        then have "int (length rows) < replay_batch s" using True by simp
        then obtain stm where stm: "between st sta stm" "rows = filter (\<lambda>r. cursor < er_Seq r) (log_at stm)"
          using listing_short [OF lst bounds] by blast
        have "er_Seq r \<le> c" if "r \<in> set (log_at stm)" for r
        proof (cases "cursor < er_Seq r")
          case True
          then have "r \<in> set rows" using that stm by simp
          moreover have "sorted_wrt (\<lambda>a b. er_Seq a < er_Seq b) rows" using sorted_wrt_filter [OF log_sorted] stm(2) by blast
          ultimately show ?thesis
            using sorted_cut_le [of rows "[]"] False short page eq(1) by (auto simp: filter_id_conv)
        next
          case False
          then show ?thesis using page eq(1) by auto
        qed
        moreover have "later sta st1" using replay_rows_judged [OF assms(1) run] eq by blast
        moreover have "between st st1 stm" using stm(1) later_trans [OF _ calculation(2)] by blast
        ultimately show ?thesis using page eq short by auto
      qed
    next
      case False
      then have rec: "replay_pages L s actor lm fuel c1 e1 st2 = Some (Inr (c, evs1, hasMore), st1)"
        using Suc.prems(2) lst \<open>rows \<noteq> []\<close> run by (simp add: assms(1,2))
      have c1: "cursor < c1" "c1 = er_Seq (last rows)" "later st st2" "section_judged L s actor cursor evs st c1 e1 False st2"
        using page False by auto
      have ih: "later st2 st1" "c1 < c \<or> (c1 = c \<and> \<not> hasMore)" "section_judged L s actor c1 e1 st2 c evs1 hasMore st1"
        "if hasMore then lm \<le> int (length evs1) else \<exists>stm. between st2 st1 stm \<and> (\<forall>r \<in> set (log_at stm). er_Seq r \<le> c)"
        using Suc.IH [OF _ rec] Suc.prems(1) c1(1) by auto
      have "last rows \<in> set (log_at st2)"
      proof -
        have "later sta st2" using replay_rows_judged [OF assms(1) run] by blast
        then obtain tl where "filter (\<lambda>r. cursor < er_Seq r) (log_at st2) = rows @ tl" using listing_section [OF lst bounds] by blast
        then have "set rows \<subseteq> set (log_at st2)" by (metis Un_upper1 filter_is_subset set_append subset_trans)
        then show ?thesis using \<open>rows \<noteq> []\<close> by auto
      qed
      from section_stable [OF ih(1) this c1(2)]
      have "section_judged L s actor cursor evs st c evs1 hasMore st1"
        using section_append [OF c1(4) ih(3) c1(3) ih(1) less_imp_le [OF c1(1)] ih(2)] by blast
      moreover have "later st st1" by (rule later_trans [OF c1(3) ih(1)])
      moreover have "\<exists>stm. between st st1 stm \<and> (\<forall>r \<in> set (log_at stm). er_Seq r \<le> c)" if "\<not> hasMore"
        using ih(4) that later_trans [OF c1(3)] by auto
      ultimately show ?thesis using ih(2,4) c1(1) by auto
    qed
  qed
qed


text \<open>The actor the replay is for: a human the repository knows under the requested id.\<close>

definition admitted :: "ReplayInput \<Rightarrow> Actor \<Rightarrow> 's \<Rightarrow> bool" where
  "admitted input actor st \<longleftrightarrow> (\<exists>sta. rp_LookupActor repo space (TrimSpace (ri_ActorID input)) st = (Inr (Some actor), sta)) \<and>
     actor_ID actor = TrimSpace (ri_ActorID input) \<and> (actor_Kind actor = [] \<or> actor_Kind actor = ''human'')"

lemma replay_pages_cursor:
  assumes "sv_repo s = repo" "sv_space s = space" "1 \<le> replay_batch s" "replay_batch s \<le> MaxBatchSize"
    and "0 \<le> cursor" "replay_pages L s actor lm fuel cursor evs st = Some (Inr (c, evs1, hasMore), st1)"
  shows "c = cursor \<or> c \<in> er_Seq ` set (log_at st1)"
  using assms(5,6)
proof (induction fuel arbitrary: cursor evs st)
  case 0
  then show ?case by simp
next
  case (Suc fuel)
  from Suc.prems(2) obtain rows sta where lst: "rp_ListEventsAfter repo space cursor (replay_batch s) st = (Inr rows, sta)"
    by (auto simp: assms(1,2) split: prod.split_asm sum.split_asm)
  show ?case
  proof (cases "rows = []")
    case True
    then show ?thesis using Suc.prems(2) lst by (auto simp: assms(1,2))
  next
    case False
    obtain c1 e1 m1 st2 where run: "replay_rows L s actor lm rows cursor evs sta = (Inr (c1, e1, m1), st2)"
      using Suc.prems(2) lst False by (auto simp: assms(1,2) split: prod.split_asm sum.split_asm)
    note r = replay_rows_judged [OF assms(1) run]
    have in_rows: "c1 \<in> er_Seq ` set rows" using r False by (auto split: if_split_asm)
    have "later sta st2" using r by blast
    then obtain tl where "filter (\<lambda>r. cursor < er_Seq r) (log_at st2) = rows @ tl"
      using listing_section [OF lst Suc.prems(1) assms(3,4)] by blast
    then have "set rows \<subseteq> set (log_at st2)" by (metis Un_upper1 filter_is_subset set_append subset_trans)
    then have c1: "c1 \<in> er_Seq ` set (log_at st2)" using in_rows by blast
    show ?thesis
    proof (cases "m1 \<or> int (length rows) < replay_batch s")
      case True
      then have "c = c1" "st1 = st2" using Suc.prems(2) lst False run by (auto simp: assms(1,2) split: if_split_asm)
      then show ?thesis using c1 by simp
    next
      case again: False
      then have rec: "replay_pages L s actor lm fuel c1 e1 st2 = Some (Inr (c, evs1, hasMore), st1)"
        using Suc.prems(2) lst False run by (simp add: assms(1,2))
      have "0 \<le> c1" using page_judged [OF assms(1,2) Suc.prems(1) assms(3,4) lst False run] Suc.prems(1) by auto
      from Suc.IH [OF this rec] c1 show ?thesis
        using replay_pages_judged [OF assms(1-4) \<open>0 \<le> c1\<close> rec] grows [of st2 st1] by auto
    qed
  qed
qed

lemma replay_start_Inr:
  assumes "sv_repo s = repo" "sv_space s = space" "replay_start s input st = (Inr (Inr (actor, r, lastSeq)), st1)"
  shows "later st st1 \<and> lastSeq = max 0 (ri_LastSeq input) \<and> lastSeq \<le> rr_CurrentSeq r \<and> rr_SyncRequired r = False \<and>
    admitted input actor st \<and>
    (\<exists>stm. between st st1 stm \<and> (rr_CurrentSeq r = 0 \<or> (\<exists>row. row \<in> set (log_at stm) \<and> er_Seq row = rr_CurrentSeq r)))"
proof -
  let ?id = "TrimSpace (ri_ActorID input)" and ?last = "if ri_LastSeq input < 0 then 0 else ri_LastSeq input"
  obtain sta cur stb earliest where look: "lookupActor s ?id st = (Inr actor, sta)" and cur: "rp_CurrentSeq repo space sta = (Inr cur, stb)"
    and ear: "rp_EarliestSeq repo space stb = (Inr earliest, st1)" and le: "?last \<le> cur" "lastSeq = ?last" "rr_CurrentSeq r = cur" "rr_SyncRequired r = False"
    using assms(3) by (auto simp: replay_start_def Let_def io_bind_Inr io_return_Inr io_fail_def assms(1,2) split: if_split_asm)
  have found: "rp_LookupActor repo space ?id st = (Inr (Some actor), sta)" and id: "actor_ID actor = ?id" "actor_Kind actor = [] \<or> actor_Kind actor = ''human''"
    using lookupActor_Inr [OF look] by (simp_all add: assms(1,2))
  have later1: "later st sta" by (rule lookup_later [OF found])
  obtain stm where stm: "later sta stm" "later stm stb" "cur = 0 \<or> (\<exists>row. row \<in> set (log_at stm) \<and> er_Seq row = cur)"
    using current [OF cur] by blast
  have later3: "later stb st1" by (rule earliest_later [OF ear])
  have "between st st1 stm" using stm(1,2) later1 later3 later_trans by blast
  moreover have "later st st1" using calculation later_trans by blast
  moreover have "admitted input actor st" using found id by (auto simp: admitted_def)
  ultimately show ?thesis using stm(3) le by auto
qed

lemma replay_start_early: "replay_start s input st = (Inr (Inl r), st1) \<Longrightarrow> rr_SyncRequired r"
  by (auto simp: replay_start_def Let_def io_bind_Inr io_return_Inr io_fail_def split: if_split_asm)

text \<open>
  The contract of a replay that does not ask for a resynchronisation: up to the cursor of the
  session afterwards, every row of the log after the requested number was judged for the actor
  during the call, and the events are those of the rows judged visible, in order.
\<close>

lemma replay_exact:
  assumes "sv_repo s = repo" "sv_space s = space" "1 \<le> sv_replayLimit s" "1 \<le> replay_batch s" "replay_batch s \<le> MaxBatchSize"
    and run: "Replay L fuel s input st = Some (Inr r, st1)" and nosync: "\<not> rr_SyncRequired r" and last: "0 \<le> ri_LastSeq input"
  shows "later st st1 \<and> ri_LastSeq input \<le> deliveredCursor (ri_LastSeq input) r \<and>
    (deliveredCursor (ri_LastSeq input) r = 0 \<or> deliveredCursor (ri_LastSeq input) r \<in> er_Seq ` set (log_at st1)) \<and>
    (\<exists>actor outs. admitted input actor st \<and>
       list_all2 (judged L s actor (between st st1))
         (filter (\<lambda>row. ri_LastSeq input < er_Seq row \<and> er_Seq row \<le> deliveredCursor (ri_LastSeq input) r) (log_at st1)) outs \<and>
       rr_Events r = shown outs)"
proof -
  have "\<nexists>r0 sta. replay_start s input st = (Inr (Inl r0), sta)"
  proof
    assume "\<exists>r0 sta. replay_start s input st = (Inr (Inl r0), sta)"
    then obtain r0 sta where start: "replay_start s input st = (Inr (Inl r0), sta)" by blast
    then have "rr_SyncRequired r0" by (rule replay_start_early)
    then show False using run nosync start by (simp add: Replay_def)
  qed
  then obtain actor r0 lastSeq sta where start: "replay_start s input st = (Inr (Inr (actor, r0, lastSeq)), sta)"
    using run by (auto simp: Replay_def split: prod.split_asm sum.split_asm)
  note s = replay_start_Inr [OF assms(1,2) start]
  have ls: "lastSeq = ri_LastSeq input" using s last by simp
  obtain cursor evs m where pages: "replay_pages L s actor (replay_limit s input) fuel lastSeq [] sta = Some (Inr (cursor, evs, m), st1)"
    and r: "rr_Events r = evs" "rr_CurrentSeq r = (if cursor > rr_CurrentSeq r0 then cursor else rr_CurrentSeq r0)"
    using run start by (auto simp: Replay_def split: option.split_asm prod.split_asm sum.split_asm)
  have pos: "1 \<le> replay_limit s input" using assms(3) by (simp add: replay_limit_def Let_def MaxReplayLimit_def)
  have "0 \<le> lastSeq" using s by simp
  note p = replay_pages_judged [OF assms(1,2,4,5) this pages]
  then obtain outs where outs: "list_all2 (judged L s actor (between sta st1))
      (filter (\<lambda>row. lastSeq < er_Seq row \<and> (if m then er_Seq row < cursor else er_Seq row \<le> cursor)) (log_at st1)) outs" "evs = shown outs"
    by (auto simp: section_judged_def)
  have later1: "later st st1" using s p later_trans by blast
  have outs1: "list_all2 (judged L s actor (between st st1))
      (filter (\<lambda>row. lastSeq < er_Seq row \<and> (if m then er_Seq row < cursor else er_Seq row \<le> cursor)) (log_at st1)) outs"
    using outs(1) by (rule judged_all_mono) (use s later_trans in blast)
  have downward: "if m then er_Seq b < cursor else er_Seq b \<le> cursor"
    if "if m then er_Seq a < cursor else er_Seq a \<le> cursor" "er_Seq b \<le> er_Seq a" for a b
    using that by (cases m) simp_all
  show ?thesis
  proof (cases "evs = []")
    case True
    have "\<not> m" using p pos True by auto
    then obtain stm where stm: "between sta st1 stm" "\<forall>row \<in> set (log_at stm). er_Seq row \<le> cursor" "lastSeq \<le> cursor" using p by auto
    have cur: "rr_CurrentSeq r0 \<le> cursor" "rr_CurrentSeq r0 = 0 \<or> rr_CurrentSeq r0 \<in> er_Seq ` set (log_at st1)"
    proof -
      obtain stc where stc: "later stc sta" "rr_CurrentSeq r0 = 0 \<or> (\<exists>row. row \<in> set (log_at stc) \<and> er_Seq row = rr_CurrentSeq r0)"
        using s by blast
      obtain rs where rs: "log_at stm = log_at stc @ rs" using grows [OF later_trans [OF stc(1)]] stm(1) by blast
      then show "rr_CurrentSeq r0 \<le> cursor" using stc(2) stm(2,3) \<open>0 \<le> lastSeq\<close> by force
      obtain rs' where "log_at st1 = log_at stm @ rs'" using grows stm(1) by blast
      then have "set (log_at stc) \<subseteq> set (log_at st1)" using rs by simp
      then show "rr_CurrentSeq r0 = 0 \<or> rr_CurrentSeq r0 \<in> er_Seq ` set (log_at st1)"
        using stc(2) imageI [of _ "set (log_at st1)" er_Seq] by force
    qed
    have row: "cursor = 0 \<or> cursor \<in> er_Seq ` set (log_at st1)"
      using replay_pages_cursor [OF assms(1,2,4,5) \<open>0 \<le> lastSeq\<close> pages] cur s by auto
    have dc: "deliveredCursor (ri_LastSeq input) r = cursor" using cur(1) r True stm(3) ls by (simp add: deliveredCursor_def)
    have "list_all2 (judged L s actor (between st st1)) (filter (\<lambda>row. ri_LastSeq input < er_Seq row \<and> er_Seq row \<le> cursor) (log_at st1)) outs"
      using outs1 \<open>\<not> m\<close> unfolding ls by simp
    moreover have "rr_Events r = shown outs" using r(1) outs(2) by simp
    moreover have "ri_LastSeq input \<le> cursor" "admitted input actor st" using stm(3) ls s by simp_all
    ultimately show ?thesis unfolding dc using later1 row by blast
  next
    case False
    obtain outs' where outs': "lastSeq < ev_Seq (last evs)" "shown outs' = evs" and row: "ev_Seq (last evs) \<in> er_Seq ` set (log_at st1)" and
      outs'3: "list_all2 (judged L s actor (between st st1)) (filter (\<lambda>row. lastSeq < er_Seq row \<and> er_Seq row \<le> ev_Seq (last evs)) (log_at st1)) outs'"
    proof -
      have ne: "shown outs \<noteq> []" using False outs(2) by simp
      from delivered_section [OF outs1 _ log_sorted ne] show ?thesis
        using that judged_seq downward unfolding outs(2) by blast
    qed
    have dc: "deliveredCursor (ri_LastSeq input) r = ev_Seq (last evs)"
      using r(1) False outs'(1) ls by (cases evs rule: rev_cases) (auto simp: deliveredCursor_def)
    have "rr_Events r = shown outs'" using r(1) outs'(2) by simp
    moreover have "ri_LastSeq input \<le> ev_Seq (last evs)" "admitted input actor st" using outs'(1) ls s by simp_all
    moreover note outs'3 [unfolded ls]
    ultimately show ?thesis unfolding dc using later1 row by blast
  qed
qed


text \<open>
  A stretch of delivery for one user: between two states, the rows after \<open>a\<close> up to \<open>b\<close> were
  judged and \<open>evs\<close> are the events shown. Stretches follow each other without gap or overlap.
\<close>

definition delivers :: "libs \<Rightarrow> 's Service \<Rightarrow> string \<Rightarrow> 's \<Rightarrow> int \<Rightarrow> 's \<Rightarrow> int \<Rightarrow> Event list \<Rightarrow> bool" where
  "delivers L s user st a st1 b evs \<longleftrightarrow> later st st1 \<and> a \<le> b \<and> (b = 0 \<or> b \<in> er_Seq ` set (log_at st1)) \<and>
    (\<exists>outs. list_all2 (judged_for L s user (between st st1)) (filter (\<lambda>row. a < er_Seq row \<and> er_Seq row \<le> b) (log_at st1)) outs \<and>
       evs = shown outs)"

lemma delivers_replay:
  assumes "sv_repo s = repo" "sv_space s = space" "1 \<le> sv_replayLimit s" "1 \<le> replay_batch s" "replay_batch s \<le> MaxBatchSize"
    and "Replay L fuel s input st = Some (Inr r, st1)" "\<not> rr_SyncRequired r" "0 \<le> ri_LastSeq input"
  shows "delivers L s (TrimSpace (ri_ActorID input)) st (ri_LastSeq input) st1 (deliveredCursor (ri_LastSeq input) r) (rr_Events r)"
proof -
  obtain actor outs where "admitted input actor st"
    "list_all2 (judged L s actor (between st st1))
      (filter (\<lambda>row. ri_LastSeq input < er_Seq row \<and> er_Seq row \<le> deliveredCursor (ri_LastSeq input) r) (log_at st1)) outs"
    "rr_Events r = shown outs"
    using replay_exact [OF assms] by blast
  then have "list_all2 (judged_for L s (TrimSpace (ri_ActorID input)) (between st st1))
      (filter (\<lambda>row. ri_LastSeq input < er_Seq row \<and> er_Seq row \<le> deliveredCursor (ri_LastSeq input) r) (log_at st1)) outs"
    by (elim list_all2_mono) (auto simp: judged_for_def admitted_def)
  then show ?thesis using replay_exact [OF assms] \<open>rr_Events r = shown outs\<close> unfolding delivers_def by blast
qed

lemma delivers_join:
  assumes "delivers L s user st a st1 b evs" "delivers L s user st1 b st2 c evs1"
  shows "delivers L s user st a st2 c (evs @ evs1)"
proof -
  obtain outs where outs: "list_all2 (judged_for L s user (between st st1)) (filter (\<lambda>row. a < er_Seq row \<and> er_Seq row \<le> b) (log_at st1)) outs"
    "evs = shown outs"
    using assms(1) unfolding delivers_def by blast
  obtain outs1 where outs1: "list_all2 (judged_for L s user (between st1 st2)) (filter (\<lambda>row. b < er_Seq row \<and> er_Seq row \<le> c) (log_at st2)) outs1"
    "evs1 = shown outs1"
    using assms(2) unfolding delivers_def by blast
  have later: "later st st1" "later st1 st2" "a \<le> b" "b \<le> c" using assms by (auto simp: delivers_def)
  have same: "filter (\<lambda>row. a < er_Seq row \<and> er_Seq row \<le> b) (log_at st2) = filter (\<lambda>row. a < er_Seq row \<and> er_Seq row \<le> b) (log_at st1)"
  proof (cases "b = 0")
    case True
    then have "filter (\<lambda>row. a < er_Seq row \<and> er_Seq row \<le> b) (log_at stx) = []" for stx using log_rows by (fastforce simp: filter_empty_conv)
    then show ?thesis by simp
  next
    case False
    then obtain r where "r \<in> set (log_at st1)" "b = er_Seq r" using assms(1) by (auto simp: delivers_def)
    then show ?thesis by (rule section_stable [OF later(2)])
  qed
  have "filter (\<lambda>row. a < er_Seq row \<and> er_Seq row \<le> c) (log_at st2) =
    filter (\<lambda>row. a < er_Seq row \<and> er_Seq row \<le> b) (log_at st1) @ filter (\<lambda>row. b < er_Seq row \<and> er_Seq row \<le> c) (log_at st2)"
    unfolding same [symmetric] by (rule sorted_sections [OF log_sorted later(3)]) (use later(4) in simp)
  moreover have "list_all2 (judged_for L s user (between st st2))
    (filter (\<lambda>row. a < er_Seq row \<and> er_Seq row \<le> b) (log_at st1) @ filter (\<lambda>row. b < er_Seq row \<and> er_Seq row \<le> c) (log_at st2)) (outs @ outs1)"
  proof (rule list_all2_appendI)
    show "list_all2 (judged_for L s user (between st st2)) (filter (\<lambda>row. a < er_Seq row \<and> er_Seq row \<le> b) (log_at st1)) outs"
      using outs(1) by (rule judged_for_all_mono) (use later_trans later(2) in blast)
    show "list_all2 (judged_for L s user (between st st2)) (filter (\<lambda>row. b < er_Seq row \<and> er_Seq row \<le> c) (log_at st2)) outs1"
      using outs1(1) by (rule judged_for_all_mono) (use later_trans later(1) in blast)
  qed
  ultimately have "list_all2 (judged_for L s user (between st st2)) (filter (\<lambda>row. a < er_Seq row \<and> er_Seq row \<le> c) (log_at st2)) (outs @ outs1)"
    by (simp only:)
  moreover have "evs @ evs1 = shown (outs @ outs1)" using outs(2) outs1(2) by simp
  moreover have "later st st2" by (rule later_trans [OF later(1,2)])
  ultimately show ?thesis using assms(2) later(3,4) unfolding delivers_def by fastforce
qed

text \<open>When there are no more events, every row of the log at the start of the call was judged.\<close>

lemma replay_complete:
  assumes "sv_repo s = repo" "sv_space s = space" "1 \<le> replay_batch s" "replay_batch s \<le> MaxBatchSize"
    and run: "Replay L fuel s input st = Some (Inr r, st1)" and nosync: "\<not> rr_SyncRequired r" "\<not> rr_HasMore r"
    and row: "row \<in> set (log_at st)" "ri_LastSeq input < er_Seq row" "0 \<le> ri_LastSeq input"
  shows "\<exists>actor out. admitted input actor st \<and> judged L s actor (between st st1) row out \<and> (\<forall>e. out = Some e \<longrightarrow> e \<in> set (rr_Events r))"
proof -
  have "\<nexists>r0 sta. replay_start s input st = (Inr (Inl r0), sta)"
  proof
    assume "\<exists>r0 sta. replay_start s input st = (Inr (Inl r0), sta)"
    then obtain r0 sta where start: "replay_start s input st = (Inr (Inl r0), sta)" by blast
    then have "rr_SyncRequired r0" by (rule replay_start_early)
    then show False using run nosync start by (simp add: Replay_def)
  qed
  then obtain actor r0 lastSeq sta where start: "replay_start s input st = (Inr (Inr (actor, r0, lastSeq)), sta)"
    using run by (auto simp: Replay_def split: prod.split_asm sum.split_asm)
  note s = replay_start_Inr [OF assms(1,2) start]
  have ls: "lastSeq = ri_LastSeq input" "0 \<le> lastSeq" using s row(3) by simp_all
  obtain cursor evs where pages: "replay_pages L s actor (replay_limit s input) fuel lastSeq [] sta = Some (Inr (cursor, evs, False), st1)"
    and r: "rr_Events r = evs"
    using run start nosync by (auto simp: Replay_def split: option.split_asm prod.split_asm sum.split_asm)
  note p = replay_pages_judged [OF assms(1-4) ls(2) pages]
  obtain stm where stm: "between sta st1 stm" "\<forall>r \<in> set (log_at stm). er_Seq r \<le> cursor" using p by auto
  have sub: "later a b \<Longrightarrow> set (log_at a) \<subseteq> set (log_at b)" for a b using grows by fastforce
  have "row \<in> set (log_at stm)" "row \<in> set (log_at st1)" using row(1) sub s stm(1) later_trans by blast+
  then have sect: "row \<in> set (filter (\<lambda>r. lastSeq < er_Seq r \<and> er_Seq r \<le> cursor) (log_at st1))" using stm(2) row(2) ls by simp
  obtain outs where outs: "list_all2 (judged L s actor (between sta st1)) (filter (\<lambda>r. lastSeq < er_Seq r \<and> er_Seq r \<le> cursor) (log_at st1)) outs"
    "evs = shown outs"
    using p by (auto simp: section_judged_def)
  then obtain out where out: "out \<in> set outs" "judged L s actor (between sta st1) row out"
    using sect by (meson list_all2_in)
  have "judged L s actor (between st st1) row out" using out(2) by (rule judged_mono) (use s later_trans in blast)
  moreover have "\<forall>e. out = Some e \<longrightarrow> e \<in> set evs" using out(1) outs(2) by (force simp: shown_def List.map_filter_def)
  ultimately show ?thesis using s r by blast
qed

text \<open>Each full page moves the cursor past its rows, so the loop ends on a log that stays bounded.\<close>

lemma replay_pages_returns:
  assumes "sv_repo s = repo" "sv_space s = space" "1 \<le> replay_batch s" "replay_batch s \<le> MaxBatchSize"
    and "0 \<le> cursor" "\<And>st1. later st st1 \<Longrightarrow> length (filter (\<lambda>r. cursor < er_Seq r) (log_at st1)) \<le> n" "n < fuel"
  shows "replay_pages L s actor lm fuel cursor evs st \<noteq> None"
  using assms(5-)
proof (induction fuel arbitrary: cursor evs st n)
  case 0
  then show ?case by simp
next
  case (Suc fuel)
  note bounds = Suc.prems(1) assms(3,4)
  show ?case
  proof (rule ccontr)
    assume "\<not> ?thesis"
    then have none: "replay_pages L s actor lm (Suc fuel) cursor evs st = None" by blast
    then obtain rows sta c1 e1 st2 where lst: "rp_ListEventsAfter repo space cursor (replay_batch s) st = (Inr rows, sta)" and ne: "rows \<noteq> []"
      and run: "replay_rows L s actor lm rows cursor evs sta = (Inr (c1, e1, False), st2)"
      and rec: "replay_pages L s actor lm fuel c1 e1 st2 = None"
      by (auto simp: assms(1,2) simp del: not_None_eq not_Some_eq split: prod.split_asm sum.split_asm if_split_asm)
    have c1: "cursor < c1" "later st st2" "c1 = er_Seq (last rows)"
      using page_judged [OF assms(1,2) bounds lst ne run] by auto
    have "Suc (length (filter (\<lambda>r. c1 < er_Seq r) (log_at st3))) \<le> n" if "later st2 st3" for st3
    proof -
      have "later sta st3" using replay_rows_judged [OF assms(1) run] later_trans that by blast
      then obtain tl where tl: "filter (\<lambda>r. cursor < er_Seq r) (log_at st3) = rows @ tl" using listing_section [OF lst bounds] by blast
      have "filter (\<lambda>r. c1 < er_Seq r) (log_at st3) = filter (\<lambda>r. c1 < er_Seq r) (filter (\<lambda>r. cursor < er_Seq r) (log_at st3))"
        unfolding filter_filter by (rule filter_cong) (use c1(1) in auto)
      also have "\<dots> = filter (\<lambda>r. c1 < er_Seq r) (butlast rows @ last rows # tl)"
      proof -
        have "rows @ tl = butlast rows @ last rows # tl" using ne by simp
        then show ?thesis unfolding tl by (rule arg_cong)
      qed
      finally have "length (filter (\<lambda>r. c1 < er_Seq r) (log_at st3)) \<le> length (butlast rows) + length tl"
        using length_filter_le [of "\<lambda>r. c1 < er_Seq r" "butlast rows"] length_filter_le [of "\<lambda>r. c1 < er_Seq r" tl]
        by (simp add: c1(3) add_mono del: length_butlast)
      moreover have "0 < length rows" using ne by simp
      ultimately show ?thesis using Suc.prems(2) [OF later_trans [OF c1(2) that]] unfolding tl length_append length_butlast by arith
    qed
    then have short: "length (filter (\<lambda>r. c1 < er_Seq r) (log_at st3)) \<le> n - 1" "0 < n" if "later st2 st3" for st3
      using that by fastforce+
    have "0 \<le> c1" "n - 1 < fuel" using Suc.prems(1,3) c1(1) short(2) [OF later_refl] by simp_all
    then show False using Suc.IH [of c1 st2 "n - 1" e1] short(1) rec by blast
  qed
qed

lemma replay_returns:
  assumes "sv_repo s = repo" "sv_space s = space" "1 \<le> replay_batch s" "replay_batch s \<le> MaxBatchSize"
    and bound: "\<And>st1. later st st1 \<Longrightarrow> length (log_at st1) \<le> n" and "n < fuel"
  shows "Replay L fuel s input st \<noteq> None"
proof (cases "\<exists>actor r lastSeq st1. replay_start s input st = (Inr (Inr (actor, r, lastSeq)), st1)")
  case True
  then obtain actor r lastSeq st1 where start: "replay_start s input st = (Inr (Inr (actor, r, lastSeq)), st1)" by blast
  note s = replay_start_Inr [OF assms(1,2) start]
  have "length (filter (\<lambda>r. lastSeq < er_Seq r) (log_at st2)) \<le> n" if "later st1 st2" for st2
    using bound [of st2] s later_trans [OF _ that] le_trans [OF length_filter_le] by blast
  moreover have "0 \<le> lastSeq" using s by simp
  ultimately have "replay_pages L s actor (replay_limit s input) fuel lastSeq [] st1 \<noteq> None"
    using replay_pages_returns [OF assms(1-4) _ _ assms(6)] by blast
  then show ?thesis by (auto simp: Replay_def start split: option.split prod.split sum.split)
next
  case False
  then show ?thesis by (auto simp: Replay_def split: prod.split sum.split)
qed

end

text \<open>The events of a replay are at most the limit, and exactly the limit when there are more.\<close>

lemma replay_rows_length:
  "replay_rows L s actor lm rows cursor evs st = (Inr (c, evs1, hasMore), st1) \<Longrightarrow> int (length evs) \<le> lm \<Longrightarrow>
   int (length evs1) \<le> lm \<and> (hasMore \<longrightarrow> int (length evs1) = lm)"
proof (induction rows arbitrary: cursor evs st)
  case Nil
  then show ?case by (simp add: io_return_Inr)
next
  case (Cons row rows)
  show ?case
    using Cons.prems
    by (auto simp: Let_def io_bind_Inr io_return_Inr io_fail_def split: if_split_asm dest!: Cons.IH)
qed

lemma replay_pages_length:
  "replay_pages L s actor lm fuel cursor evs st = Some (Inr (c, evs1, hasMore), st1) \<Longrightarrow> int (length evs) \<le> lm \<Longrightarrow>
   int (length evs1) \<le> lm \<and> (hasMore \<longrightarrow> int (length evs1) = lm)"
proof (induction fuel arbitrary: cursor evs st)
  case (Suc fuel)
  then obtain rows sta where lst: "rp_ListEventsAfter (sv_repo s) (sv_space s) cursor (replay_batch s) st = (Inr rows, sta)"
    by (auto split: prod.split_asm sum.split_asm)
  show ?case
  proof (cases "rows = []")
    case True
    then show ?thesis using Suc.prems lst by simp
  next
    case False
    then obtain c1 e1 m1 st2 where run: "replay_rows L s actor lm rows cursor evs sta = (Inr (c1, e1, m1), st2)"
      using Suc.prems lst by (auto split: prod.split_asm sum.split_asm)
    note len = replay_rows_length [OF run Suc.prems(2)]
    show ?thesis
    proof (cases "m1 \<or> int (length rows) < replay_batch s")
      case True
      then show ?thesis using Suc.prems lst False run len by (auto split: if_split_asm)
    next
      case short: False
      then have "replay_pages L s actor lm fuel c1 e1 st2 = Some (Inr (c, evs1, hasMore), st1)"
        using Suc.prems lst False run by simp
      then show ?thesis using Suc.IH len by blast
    qed
  qed
qed simp


section \<open>The PostgreSQL repository keeps the contract\<close>

text \<open>
  The projector that refreshes a payload from current rows (events/projection.go) is a
  parameter: it answers and says how many queries it made.
\<close>

type_synonym projector = "Actor \<Rightarrow> EventRecord \<Rightarrow> payload \<Rightarrow> nat \<Rightarrow> (go_error, payload option) result \<times> nat"

definition pg_repo :: "world \<Rightarrow> projector \<Rightarrow> nat repo" where
  "pg_repo w proj =
    \<lparr>rp_LookupActor = LookupActor w, rp_CurrentSeq = CurrentSeq w, rp_EarliestSeq = EarliestSeq w,
     rp_ListEventsAfter = ListEventsAfter w, rp_EventVisible = EventVisible w, rp_GetEvent = Some (GetEvent w),
     rp_ProjectEventPayload = Some (\<lambda>actor event payload n. case proj actor event payload n of (x, used) \<Rightarrow> (x, n + used))\<rparr>"

text \<open>Between two queries other transactions commit; the log starts in order.\<close>

definition world_ok :: "world \<Rightarrow> bool" where
  "world_ok w \<longleftrightarrow> cursor_ok (w_db w 0) \<and> (\<forall>n. commit\<^sup>*\<^sup>* (w_db w n) (w_db w (Suc n)))"

lemma still_ok: "cursor_ok d \<Longrightarrow> world_ok (still d)"
  by (simp add: world_ok_def still_def)

typedef history = "{w. world_ok w}" morphisms world_of History
  using still_ok [OF seed_ok] by blast

lemma world_commits:
  assumes "world_ok w" "m \<le> n"
  shows "commit\<^sup>*\<^sup>* (w_db w m) (w_db w n)"
  using assms(2,1) by (induction rule: dec_induct) (auto simp: world_ok_def intro: rtranclp_trans)

lemma world_cursor_ok: "world_ok w \<Longrightarrow> cursor_ok (w_db w n)"
  using commits_keep [OF world_commits [of w 0 n]] by (simp add: world_ok_def)

definition forward :: "(nat, 'a) io \<Rightarrow> bool" where
  "forward m \<longleftrightarrow> (\<forall>n. n \<le> snd (m n))"

lemma forward_io:
  "forward (io_return x)"
  "forward (query w operation f)"
  "forward m \<Longrightarrow> (\<And>x. forward (g x)) \<Longrightarrow> forward (io_bind m g)"
  "(b \<Longrightarrow> forward m1) \<Longrightarrow> (\<not> b \<Longrightarrow> forward m2) \<Longrightarrow> forward (if b then m1 else m2)"
  "(v = None \<Longrightarrow> forward m1) \<Longrightarrow> (\<And>x. v = Some x \<Longrightarrow> forward (g x)) \<Longrightarrow> forward (case v of None \<Rightarrow> m1 | Some x \<Rightarrow> g x)"
proof -
  show "forward (io_return x)" "forward (query w operation f)" by (simp_all add: forward_def io_return_def query_def)
  show "forward m \<Longrightarrow> (\<And>x. forward (g x)) \<Longrightarrow> forward (io_bind m g)"
    unfolding forward_def io_bind_def by (fastforce split: prod.split sum.split intro: le_trans)
qed (auto split: option.split)

lemma forward_visible: "forward (EventVisible w actor event payload)"
  unfolding EventVisible_def topic_visible_def card_visible_def attachmentVisible_def memberVisible_def removedMemberVisible_def
    conversationMemberActive_def participantOnlyConversation_def Let_def
  by (intro forward_io)

lemma max_seq_row: "max_seq space d = Some m \<Longrightarrow> \<exists>r. r \<in> set (space_log space d) \<and> er_Seq r = m"
proof -
  have fold: "fold max xs x \<in> set (x # xs)" for xs and x :: int
    by (induction xs arbitrary: x) (auto simp: max_def)
  assume max: "max_seq space d = Some m"
  then obtain x xs where xs: "map er_Seq (space_log space d) = x # xs" "m = fold max xs x"
    by (auto simp: max_seq_def split: list.split_asm)
  have "m \<in> set (map er_Seq (space_log space d))" using fold [of xs x] unfolding xs .
  then show ?thesis by auto
qed

interpretation pg: event_log "pg_repo (world_of h) proj" space "\<lambda>n. space_log space (w_db (world_of h) n)" "(\<le>)" for h proj space
proof
  have ok: "world_ok (world_of h)" using world_of [of h] by simp
  note log = cursor_ok_log [OF world_cursor_ok [OF ok]]
  show "\<exists>rs. space_log space (w_db (world_of h) n) = space_log space (w_db (world_of h) m) @ rs" if "m \<le> n" for m n
    using commits_keep [OF world_commits [OF ok that] world_cursor_ok [OF ok]] by blast
  show "sorted_wrt (\<lambda>a b. er_Seq a < er_Seq b) (space_log space (w_db (world_of h) n))" for n by (rule log(1))
  show "1 \<le> er_Seq r \<and> er_SpaceID r = space" if "r \<in> set (space_log space (w_db (world_of h) n))" for r n
    using that by (rule log(2))
  show "0 \<le> c \<and> (\<exists>k. n \<le> k \<and> k \<le> n' \<and> (c = 0 \<or> (\<exists>r. r \<in> set (space_log space (w_db (world_of h) k)) \<and> er_Seq r = c)))"
    if "rp_CurrentSeq (pg_repo (world_of h) proj) space n = (Inr c, n')" for n c n'
  proof -
    have c: "c = (case max_seq space (w_db (world_of h) n) of None \<Rightarrow> 0 | Some s \<Rightarrow> s)" "n' = Suc n"
      using that by (simp_all add: pg_repo_def CurrentSeq_def query_Inr)
    show ?thesis
    proof (cases "max_seq space (w_db (world_of h) n)")
      case None
      then show ?thesis using c by auto
    next
      case (Some s)
      then obtain r where r: "r \<in> set (space_log space (w_db (world_of h) n))" "er_Seq r = c" using max_seq_row c by fastforce
      then have "0 \<le> c" using log(2) by fastforce
      then show ?thesis using r c(2) by (intro conjI exI [of _ n]) auto
    qed
  qed
  show "\<exists>k'. n \<le> k' \<and> k' \<le> n' \<and> rows = take (nat k) (filter (\<lambda>r. after < er_Seq r) (space_log space (w_db (world_of h) k')))"
    if "rp_ListEventsAfter (pg_repo (world_of h) proj) space after k n = (Inr rows, n')" "0 \<le> after" "1 \<le> k" "k \<le> MaxBatchSize"
    for after k n rows n'
  proof -
    have "sorted (map er_Seq (filter (\<lambda>r. after < er_Seq r) (space_log space (w_db (world_of h) n))))"
      unfolding sorted_map by (rule sorted_wrt_mono_rel [OF _ sorted_wrt_filter [OF log(1)]]) simp
    then show ?thesis
      using that by (auto simp: pg_repo_def ListEventsAfter_def query_Inr rows_after_def boundedLimit_def sort_key_id_if_sorted)
  qed
  show "n \<le> n'" if "rp_EventVisible (pg_repo (world_of h) proj) actor row payload n = (x, n')" for actor row payload n x n'
  proof -
    have "EventVisible (world_of h) actor row payload n = (x, n')" using that by (simp add: pg_repo_def)
    then show ?thesis using forward_visible [of "world_of h" actor row payload] by (auto simp: forward_def dest: spec [of _ n])
  qed
qed (auto simp: pg_repo_def LookupActor_def EarliestSeq_def query_def split: prod.split_asm)


section \<open>Properties\<close>

lemma NewService_sizes:
  "1 \<le> sv_replayLimit (NewService options)" "sv_replayLimit (NewService options) \<le> MaxReplayLimit"
  "1 \<le> replay_batch (NewService options)" "replay_batch (NewService options) \<le> MaxBatchSize"
  by (auto simp: NewService_def replay_batch_def Let_def DefaultReplayLimit_def MaxReplayLimit_def DefaultBatchSize_def MaxBatchSize_def)

lemma NewService_repo [simp]: "sv_repo (NewService options) = so_Repository options"
  by (simp add: NewService_def Let_def)

text \<open>
  C2 (events/service.go: Replay, with realtime/handler.go: deliveredCursor). While other
  transactions commit, a replay that does not demand a resynchronisation gives its client
  exactly the log: for a human member of the space with the requested id, every event after
  the requested number up to the new session cursor was judged once, during the call, and
  the replayed events are the projections of those judged visible, in log order. Nothing is
  lost, repeated or reordered.
\<close>

theorem replay_delivers:
  assumes "world_ok w" and "so_Repository options = pg_repo w proj"
    and "Replay L fuel (NewService options) input n = Some (Inr r, n')" and "\<not> rr_SyncRequired r" and "0 \<le> ri_LastSeq input"
  shows "\<exists>actor outs. actor_row (sv_space (NewService options)) (TrimSpace (ri_ActorID input)) (w_db w n) = Some actor \<and>
    (actor_Kind actor = [] \<or> actor_Kind actor = ''human'') \<and>
    list_all2 (judged L (NewService options) actor (\<lambda>k. n \<le> k \<and> k \<le> n'))
      (filter (\<lambda>row. ri_LastSeq input < er_Seq row \<and> er_Seq row \<le> deliveredCursor (ri_LastSeq input) r)
         (space_log (sv_space (NewService options)) (w_db w n'))) outs \<and>
    rr_Events r = shown outs"
proof -
  obtain h where h: "world_of h = w" using History_inverse [of w] assms(1) by auto
  have repo: "sv_repo (NewService options) = pg_repo (world_of h) proj" using assms(2) h by simp
  from pg.replay_exact [OF repo refl NewService_sizes(1,3,4) assms(3-5)] obtain actor outs where
    a: "pg.admitted h proj (sv_space (NewService options)) input actor n" and
    outs: "list_all2 (judged L (NewService options) actor (\<lambda>k. n \<le> k \<and> k \<le> n'))
      (filter (\<lambda>row. ri_LastSeq input < er_Seq row \<and> er_Seq row \<le> deliveredCursor (ri_LastSeq input) r)
         (space_log (sv_space (NewService options)) (w_db w n'))) outs" "rr_Events r = shown outs"
    unfolding h by blast
  have "actor_row (sv_space (NewService options)) (TrimSpace (ri_ActorID input)) (w_db w n) = Some actor \<and>
    (actor_Kind actor = [] \<or> actor_Kind actor = ''human'')"
    using a unfolding pg.admitted_def by (auto simp: pg_repo_def LookupActor_def query_Inr h)
  then show ?thesis using outs by blast
qed

text \<open>
  C24 (events/service.go: Replay). The loop over pages ends: as long as the log of the space
  never exceeds \<open>m\<close> events, \<open>m + 1\<close> pages are enough for every request, whatever else commits
  meanwhile and whichever queries fail.
\<close>

theorem replay_returns_bounded:
  assumes "world_ok w" and "so_Repository options = pg_repo w proj"
    and "\<And>k. length (space_log (sv_space (NewService options)) (w_db w k)) \<le> m" and "m < fuel"
  shows "\<exists>answer n'. Replay L fuel (NewService options) input n = Some (answer, n')"
proof -
  obtain h where h: "world_of h = w" using History_inverse [of w] assms(1) by auto
  have repo: "sv_repo (NewService options) = pg_repo (world_of h) proj" using assms(2) h by simp
  have "Replay L fuel (NewService options) input n \<noteq> None"
    using pg.replay_returns [OF repo refl NewService_sizes(3,4) _ assms(4)] assms(3) h by blast
  then show ?thesis by auto
qed

text \<open>
  An answer has at most 200 events and never more than the
  limit of the request; when it says there are more it is filled up to the limit, and a demand
  for a resynchronisation comes with no event.
\<close>

theorem replay_bounds:
  assumes "Replay L fuel (NewService options) input st = Some (Inr r, st1)"
  shows "length (rr_Events r) \<le> 200 \<and> rr_ReplayCount r = int (length (rr_Events r)) \<and>
    (0 < ri_Limit input \<longrightarrow> int (length (rr_Events r)) \<le> ri_Limit input) \<and>
    (rr_HasMore r \<longrightarrow> int (length (rr_Events r)) = replay_limit (NewService options) input) \<and>
    (rr_SyncRequired r \<longrightarrow> rr_Events r = [])"
proof (cases "\<exists>r0 sta. replay_start (NewService options) input st = (Inr (Inl r0), sta)")
  case True
  then obtain r0 sta where start: "replay_start (NewService options) input st = (Inr (Inl r0), sta)" by blast
  then have "rr_Events r0 = [] \<and> rr_ReplayCount r0 = 0 \<and> \<not> rr_HasMore r0"
    by (auto simp: replay_start_def Let_def io_bind_Inr io_return_Inr io_fail_def split: if_split_asm)
  then show ?thesis using assms start by (auto simp: Replay_def)
next
  case False
  then obtain actor r0 lastSeq sta where start: "replay_start (NewService options) input st = (Inr (Inr (actor, r0, lastSeq)), sta)"
    using assms by (auto simp: Replay_def split: prod.split_asm sum.split_asm)
  then have sync: "\<not> rr_SyncRequired r0"
    by (auto simp: replay_start_def Let_def io_bind_Inr io_return_Inr io_fail_def split: if_split_asm)
  let ?lm = "replay_limit (NewService options) input"
  obtain cursor evs m where pages: "replay_pages L (NewService options) actor ?lm fuel lastSeq [] sta = Some (Inr (cursor, evs, m), st1)"
    and r: "rr_Events r = evs" "rr_HasMore r = m" "rr_ReplayCount r = int (length evs)" "rr_SyncRequired r = rr_SyncRequired r0"
    using assms start by (auto simp: Replay_def split: option.split_asm prod.split_asm sum.split_asm)
  have "0 \<le> ?lm" "?lm \<le> 200" "0 < ri_Limit input \<longrightarrow> ?lm \<le> ri_Limit input"
    using NewService_sizes(1,2) [of options] by (auto simp: replay_limit_def Let_def MaxReplayLimit_def)
  then show ?thesis using replay_pages_length [OF pages] r sync by auto
qed

definition demo_libs :: libs where
  "demo_libs = \<lparr>lib_f64 = Some, lib_ulow = id, lib_md = id\<rparr>"

definition demo_options :: "nat ServiceOptions" where
  "demo_options = \<lparr>so_Repository = pg_repo (still message_db) (\<lambda>actor event payload n. (Inr (Some payload), 0)),
     so_SpaceID = [], so_ReplayLimit = 0, so_BatchSize = 0\<rparr>"

definition demo_input :: ReplayInput where
  "demo_input = \<lparr>ri_ActorID = '' usr_owner'', ri_LastSeq = 0, ri_Limit = 0\<rparr>"

definition demo_answer :: "(Error, ReplayResult) result \<times> nat" where
  "demo_answer = the (Replay demo_libs 3 (NewService demo_options) demo_input 0)"

definition demo_result :: ReplayResult where
  "demo_result = projr (fst demo_answer)"

lemma demo_replay:
  "Replay demo_libs 3 (NewService demo_options) demo_input 0 = Some (Inr demo_result, 6)"
  "map ev_Seq (rr_Events demo_result) = [1, 2]" "\<not> rr_SyncRequired demo_result" "0 \<le> ri_LastSeq demo_input"
  by code_simp+


lemma demo_world: "world_ok (still message_db)" "so_Repository demo_options = pg_repo (still message_db) (\<lambda>actor event payload n. (Inr (Some payload), 0))"
proof -
  have "cursor_ok message_db" using commit_keeps [OF message_commit seed_ok] by blast
  then show "world_ok (still message_db)" by (rule still_ok)
qed (simp add: demo_options_def)

theorem replay_delivers_witness:
  "map ev_Seq (rr_Events demo_result) = [1, 2] \<and> (\<exists>actor outs. actor_ID actor = ''usr_owner'' \<and>
     list_all2 (judged demo_libs (NewService demo_options) actor (\<lambda>k. 0 \<le> k \<and> k \<le> 6)) (space_log ''spc_default'' message_db) outs \<and>
     rr_Events demo_result = shown outs)"
proof -
  have space: "sv_space (NewService demo_options) = ''spc_default''" by code_simp
  have "filter (\<lambda>row. ri_LastSeq demo_input < er_Seq row \<and> er_Seq row \<le> deliveredCursor (ri_LastSeq demo_input) demo_result)
      (space_log ''spc_default'' message_db) = space_log ''spc_default'' message_db"
    by code_simp
  moreover have "actor_row ''spc_default'' (TrimSpace (ri_ActorID demo_input)) message_db = Some owner" by code_simp
  moreover have "actor_ID owner = ''usr_owner''" by code_simp
  ultimately show ?thesis
    using replay_delivers [OF demo_world demo_replay(1,3,4), unfolded space] demo_replay(2) by (auto simp: still_def)
qed

theorem replay_returns_bounded_witness:
  "\<exists>answer n'. Replay demo_libs 3 (NewService demo_options) demo_input 0 = Some (answer, n')"
proof (rule replay_returns_bounded [OF demo_world, where m = 2])
  have "length (space_log (sv_space (NewService demo_options)) message_db) \<le> 2" by code_simp
  then show "length (space_log (sv_space (NewService demo_options)) (w_db (still message_db) k)) \<le> 2" for k by (simp add: still_def)
qed simp

theorem replay_bounds_witness:
  "length (rr_Events demo_result) \<le> 200 \<and> rr_ReplayCount demo_result = 2"
  using replay_bounds [OF demo_replay(1)] arg_cong [OF demo_replay(2), of length] by simp

end
