(* ===== verification/Realtime_Hub.thy ===== *)
theory Realtime_Hub
  imports Events_Replay
begin

text \<open>
  realtime/hub.go and realtime/listener.go: wake-up hints. A subscriber has a channel with room
  for one token; a notification puts a token into every channel that has none. The listener
  turns database notifications into hub notifications and reconnects with a growing delay.
\<close>

section \<open>The hub\<close>

text \<open>Channels are numbered; a buffer holds a token or not.\<close>

record Hub =
  hb_buffers :: "nat \<Rightarrow> bool"
  hb_subscribers :: "nat list"
  hb_next :: nat

definition NewHub :: Hub where
  "NewHub = \<lparr>hb_buffers = (\<lambda>_. False), hb_subscribers = [], hb_next = 0\<rparr>"

definition Subscribe :: "Hub \<Rightarrow> nat \<times> Hub" where
  "Subscribe h = (hb_next h, h\<lparr>hb_buffers := (hb_buffers h)(hb_next h := False), hb_subscribers := hb_subscribers h @ [hb_next h], hb_next := Suc (hb_next h)\<rparr>)"

text \<open>The function \<open>Subscribe\<close> returns: it may be called again without effect.\<close>

definition unsubscribe :: "nat \<Rightarrow> Hub \<Rightarrow> Hub" where
  "unsubscribe c h = h\<lparr>hb_subscribers := filter (\<lambda>x. x \<noteq> c) (hb_subscribers h)\<rparr>"

definition Notify :: "Hub \<Rightarrow> Hub" where
  "Notify h = h\<lparr>hb_buffers := fold (\<lambda>c b. b(c := True)) (hb_subscribers h) (hb_buffers h)\<rparr>"

definition SubscriberCount :: "Hub \<Rightarrow> nat" where
  "SubscriberCount h = length (hb_subscribers h)"

text \<open>Receiving from a channel: possible when it holds a token.\<close>

definition receive :: "nat \<Rightarrow> Hub \<Rightarrow> Hub option" where
  "receive c h = (if hb_buffers h c then Some (h\<lparr>hb_buffers := (hb_buffers h)(c := False)\<rparr>) else None)"

text \<open>Steps of the program on the hub, in any interleaving.\<close>

inductive hub_step :: "Hub \<Rightarrow> Hub \<Rightarrow> bool" where
  subscribes: "hub_step h (snd (Subscribe h))"
| unsubscribes: "hub_step h (unsubscribe c h)"
| notifies: "hub_step h (Notify h)"
| receives: "receive c h = Some h' \<Longrightarrow> hub_step h h'"

text \<open>Steps that do not take the token of \<open>c\<close>.\<close>

inductive step_without :: "nat \<Rightarrow> Hub \<Rightarrow> Hub \<Rightarrow> bool" for c where
  subscribes: "step_without c h (snd (Subscribe h))"
| unsubscribes: "step_without c h (unsubscribe x h)"
| notifies: "step_without c h (Notify h)"
| receives: "receive x h = Some h' \<Longrightarrow> x \<noteq> c \<Longrightarrow> step_without c h h'"

definition hub_ok :: "Hub \<Rightarrow> bool" where
  "hub_ok h \<longleftrightarrow> distinct (hb_subscribers h) \<and> list_all (\<lambda>c. c < hb_next h) (hb_subscribers h)"

lemma notify_buffers: "hb_buffers (Notify h) c = (c \<in> set (hb_subscribers h) \<or> hb_buffers h c)"
proof -
  have "fold (\<lambda>c b. b(c := True)) cs f c = (c \<in> set cs \<or> f c)" for cs f
    by (induction cs arbitrary: f) auto
  then show ?thesis by (simp add: Notify_def)
qed

lemma hub_step_ok: "hub_step h h' \<Longrightarrow> hub_ok h \<Longrightarrow> hub_ok h'"
  by (induction rule: hub_step.induct)
    (auto simp: hub_ok_def Subscribe_def unsubscribe_def Notify_def receive_def list_all_iff split: if_split_asm)

lemma hub_reach_ok: "hub_step\<^sup>*\<^sup>* NewHub h \<Longrightarrow> hub_ok h"
proof (induction rule: rtranclp_induct)
  case base
  then show ?case by (simp add: hub_ok_def NewHub_def)
qed (rule hub_step_ok)

lemma token_kept:
  assumes "step_without c h h'" "hb_buffers h c" "c < hb_next h"
  shows "hb_buffers h' c \<and> c < hb_next h'"
  using assms
proof cases
  case notifies
  then show ?thesis using assms(2,3) by (simp add: notify_buffers) (simp add: Notify_def)
qed (use assms(2,3) in \<open>auto simp: Subscribe_def unsubscribe_def receive_def split: if_split_asm\<close>)

text \<open>
  C14 (realtime/hub.go). No wake-up is lost: in whatever order subscriptions, notifications and
  receptions run, when a channel is subscribed at the moment of a notification, a token waits in
  it until its own session takes it, so the session's receive is enabled until then.
\<close>

theorem no_lost_wakeup:
  assumes "hub_step\<^sup>*\<^sup>* NewHub h" and "c \<in> set (hb_subscribers h)" and "(step_without c)\<^sup>*\<^sup>* (Notify h) h'"
  shows "\<exists>h''. receive c h' = Some h''"
proof -
  have "c < hb_next h" using hub_reach_ok [OF assms(1)] assms(2) by (simp add: hub_ok_def list_all_iff)
  then have "hb_buffers (Notify h) c \<and> c < hb_next (Notify h)" using assms(2) by (simp add: notify_buffers) (simp add: Notify_def)
  with assms(3) have "hb_buffers h' c \<and> c < hb_next h'"
    by (induction rule: rtranclp_induct) (auto dest: token_kept)
  then show ?thesis by (simp add: receive_def)
qed

theorem no_lost_wakeup_witness:
  "\<exists>h''. receive 0 (unsubscribe 0 (Notify (snd (Subscribe NewHub)))) = Some h''"
proof (rule no_lost_wakeup)
  show "hub_step\<^sup>*\<^sup>* NewHub (snd (Subscribe NewHub))" by (rule r_into_rtranclp) (rule hub_step.subscribes)
  show "0 \<in> set (hb_subscribers (snd (Subscribe NewHub)))" by (simp add: Subscribe_def NewHub_def)
  show "(step_without 0)\<^sup>*\<^sup>* (Notify (snd (Subscribe NewHub))) (unsubscribe 0 (Notify (snd (Subscribe NewHub))))"
    by (rule r_into_rtranclp) (rule step_without.unsubscribes)
qed

section \<open>The listener\<close>

record PGListener =
  ln_reconnectMinimum :: duration
  ln_reconnectMaximum :: duration

definition defaultReconnectMinimum :: duration where "defaultReconnectMinimum = 100 * 1000000"
definition defaultReconnectMaximum :: duration where "defaultReconnectMaximum = 5 * Second"

definition NewPGListener :: "duration \<Rightarrow> duration \<Rightarrow> PGListener" where
  "NewPGListener optMinimum optMaximum =
    (let minimum = (if optMinimum \<le> 0 then defaultReconnectMinimum else optMinimum);
         maximum = (if optMaximum \<le> 0 then defaultReconnectMaximum else optMaximum)
     in \<lparr>ln_reconnectMinimum = minimum, ln_reconnectMaximum = (if maximum < minimum then minimum else maximum)\<rparr>)"

text \<open>
  One call of \<open>listen\<close>: it fails before or at LISTEN, or it listens, receives a number of
  notifications and then fails. What the listener does is a list of actions.
\<close>

datatype listen_outcome = NotListening | Listened nat
datatype action = HubNotify | WaitFor duration | Return

definition listen :: "listen_outcome \<Rightarrow> action list" where
  "listen o1 = (case o1 of NotListening \<Rightarrow> [] | Listened n \<Rightarrow> HubNotify # replicate n HubNotify)"

text \<open>Each round: the outcome of \<open>listen\<close>, and whether the context was cancelled before it, after it, or in the wait.\<close>

record round_ =
  rd_before :: bool
  rd_outcome :: listen_outcome
  rd_after :: bool
  rd_waiting :: bool

definition next_backoff :: "PGListener \<Rightarrow> duration \<Rightarrow> duration" where
  "next_backoff l backoff =
    (let doubled = wrap64 (backoff * 2) in if doubled > ln_reconnectMaximum l then ln_reconnectMaximum l else doubled)"

fun listener_rounds :: "PGListener \<Rightarrow> duration \<Rightarrow> round_ list \<Rightarrow> action list" where
  "listener_rounds l backoff [] = []"
| "listener_rounds l backoff (r # rs) =
    (if rd_before r then [Return]
     else listen (rd_outcome r) @
       (if rd_after r then [Return]
        else WaitFor backoff # (if rd_waiting r then [Return] else listener_rounds l (next_backoff l backoff) rs)))"

definition Run :: "PGListener \<Rightarrow> round_ list \<Rightarrow> action list" where
  "Run l rs = listener_rounds l (ln_reconnectMinimum l) rs"

text \<open>
  Every pause lies between the two bounds of the listener, as long as the larger is below
  146 years, so that doubling stays within 64 bits.
\<close>

lemma NewPGListener_bounds:
  "0 < ln_reconnectMinimum (NewPGListener a b)" "ln_reconnectMinimum (NewPGListener a b) \<le> ln_reconnectMaximum (NewPGListener a b)"
  by (simp_all add: NewPGListener_def Let_def defaultReconnectMinimum_def)

lemma listener_rounds_bounds:
  assumes "ln_reconnectMinimum l \<le> backoff" "backoff \<le> ln_reconnectMaximum l" "0 < ln_reconnectMinimum l" "ln_reconnectMaximum l < 2 ^ 62"
    "WaitFor d \<in> set (listener_rounds l backoff rs)"
  shows "ln_reconnectMinimum l \<le> d \<and> d \<le> ln_reconnectMaximum l"
  using assms
proof (induction l backoff rs rule: listener_rounds.induct)
  case (1 l backoff)
  then show ?case by simp
next
  case (2 l backoff r rs)
  have "ln_reconnectMinimum l \<le> next_backoff l backoff" "next_backoff l backoff \<le> ln_reconnectMaximum l"
    using 2(2-5) by (auto simp: next_backoff_def Let_def wrap64_def)
  moreover have "WaitFor d \<notin> set (listen (rd_outcome r))" by (simp add: listen_def split: listen_outcome.split)
  ultimately show ?case using 2 by (auto split: if_split_asm)
qed

lemma run_pauses: "WaitFor d \<in> set (Run (NewPGListener a b) rs) \<Longrightarrow> ln_reconnectMaximum (NewPGListener a b) < 2 ^ 62 \<Longrightarrow>
   ln_reconnectMinimum (NewPGListener a b) \<le> d \<and> d \<le> ln_reconnectMaximum (NewPGListener a b)"
  unfolding Run_def using listener_rounds_bounds NewPGListener_bounds by blast

end
