(* ===== verification/Presence.thy ===== *)
theory Presence
  imports Events_Store
begin

text \<open>
  presence/: the short-lived leases that say which users have a realtime connection. The
  service (service.go) checks and completes its inputs, the PostgreSQL repository
  (pg_repository.go) runs one statement per call (queries.sql). Users and memberships are
  the tables of the event store; a call may fail with a database error \<open>flt\<close>.
\<close>

section \<open>Data\<close>

record Lease =
  l_SpaceID :: string
  l_UserID :: string
  l_ConnectionID :: string
  l_LeaseUntil :: time

record presence_db =
  p_users :: "user_row list"
  p_space_members :: "space_member_row list"
  p_leases :: "Lease list"

datatype presence_error = ErrNotAuthorized | ErrLeaseNotFound | ErrInvalidInput | PresenceFailure string

definition DefaultLeaseTTL :: duration where "DefaultLeaseTTL = 90 * Second"
definition MaximumLeaseTTL :: duration where "MaximumLeaseTTL = 5 * Minute"
definition DefaultSweepBatch :: int where "DefaultSweepBatch = 100"
definition MaximumSweepBatch :: int where "MaximumSweepBatch = 1000"

section \<open>The repository\<close>

definition active_human :: "string \<Rightarrow> string \<Rightarrow> presence_db \<Rightarrow> bool" where
  "active_human spaceID userID d =
    list_ex (\<lambda>u. u_id u = userID \<and> u_kind u = ''human'' \<and>
      list_ex (\<lambda>sm. sm_space_id sm = spaceID \<and> sm_user_id sm = u_id u \<and> \<not> sm_removed sm) (p_space_members d)) (p_users d)"

definition lease_key :: "Lease \<Rightarrow> string \<times> string \<times> string" where
  "lease_key l = (l_SpaceID l, l_UserID l, l_ConnectionID l)"

definition same_key :: "Lease \<Rightarrow> Lease \<Rightarrow> bool" where
  "same_key a b \<longleftrightarrow> lease_key a = lease_key b"

definition key_missing :: "Lease \<Rightarrow> bool" where
  "key_missing l \<longleftrightarrow> l_SpaceID l = [] \<or> l_UserID l = [] \<or> l_ConnectionID l = []"

definition stored_lease :: "Lease \<Rightarrow> Lease" where
  "stored_lease l = l\<lparr>l_LeaseUntil := pg_timestamp (l_LeaseUntil l)\<rparr>"

definition pg_Register :: "string option \<Rightarrow> Lease \<Rightarrow> time \<Rightarrow> presence_db \<Rightarrow> (presence_error, unit) result \<times> presence_db" where
  "pg_Register flt l createdAt d =
    (if key_missing l \<or> l_LeaseUntil l = zero_time \<or> createdAt = zero_time then (Inl ErrInvalidInput, d)
     else case flt of Some e \<Rightarrow> (Inl (PresenceFailure (''register workspace presence lease: '' @ e)), d)
     | None \<Rightarrow>
         if \<not> active_human (l_SpaceID l) (l_UserID l) d then (Inl ErrNotAuthorized, d)
         else if list_ex (same_key l) (p_leases d)
         then (Inl (PresenceFailure ''register workspace presence lease: duplicate key value violates unique constraint''), d)
         else (Inr (), d\<lparr>p_leases := p_leases d @ [stored_lease l]\<rparr>))"

text \<open>\<open>execrows\<close> counts the changed rows; the key makes it 0 or 1.\<close>

definition pg_Renew :: "string option \<Rightarrow> Lease \<Rightarrow> time \<Rightarrow> presence_db \<Rightarrow> (presence_error, bool) result \<times> presence_db" where
  "pg_Renew flt l now d =
    (if key_missing l \<or> l_LeaseUntil l = zero_time \<or> now = zero_time then (Inl ErrInvalidInput, d)
     else case flt of Some e \<Rightarrow> (Inl (PresenceFailure (''renew workspace presence lease: '' @ e)), d)
     | None \<Rightarrow>
         let hit = (\<lambda>x. same_key l x \<and> l_LeaseUntil x > pg_timestamp now \<and> active_human (l_SpaceID x) (l_UserID x) d) in
         (Inr (length (filter hit (p_leases d)) = 1),
          d\<lparr>p_leases := map (\<lambda>x. if hit x then x\<lparr>l_LeaseUntil := pg_timestamp (l_LeaseUntil l)\<rparr> else x) (p_leases d)\<rparr>))"

definition pg_Delete :: "string option \<Rightarrow> Lease \<Rightarrow> presence_db \<Rightarrow> (presence_error, bool) result \<times> presence_db" where
  "pg_Delete flt l d =
    (if key_missing l then (Inl ErrInvalidInput, d)
     else case flt of Some e \<Rightarrow> (Inl (PresenceFailure (''delete workspace presence lease: '' @ e)), d)
     | None \<Rightarrow>
         (Inr (length (filter (same_key l) (p_leases d)) = 1), d\<lparr>p_leases := filter (\<lambda>x. \<not> same_key l x) (p_leases d)\<rparr>))"

definition pg_IsOnline :: "string option \<Rightarrow> string \<Rightarrow> string \<Rightarrow> time \<Rightarrow> presence_db \<Rightarrow> (presence_error, bool) result" where
  "pg_IsOnline flt spaceID userID now d =
    (if spaceID = [] \<or> userID = [] \<or> now = zero_time then Inl ErrInvalidInput
     else case flt of Some e \<Rightarrow> Inl (PresenceFailure (''lookup workspace presence: '' @ e))
     | None \<Rightarrow> Inr (list_ex (\<lambda>x. l_SpaceID x = spaceID \<and> l_UserID x = userID \<and> l_LeaseUntil x > pg_timestamp now \<and>
         active_human (l_SpaceID x) (l_UserID x) d) (p_leases d)))"

text \<open>
  Rows another transaction has locked are skipped; the rest are taken in the order of their
  expiry (the further sort columns only break ties).
\<close>

definition sweep_rows :: "(Lease \<Rightarrow> bool) \<Rightarrow> time \<Rightarrow> int \<Rightarrow> presence_db \<Rightarrow> Lease list" where
  "sweep_rows locked now batch d =
    take (nat batch) (sort_key l_LeaseUntil (filter (\<lambda>x. l_LeaseUntil x \<le> pg_timestamp now \<and> \<not> locked x) (p_leases d)))"

definition pg_SweepExpired :: "string option \<Rightarrow> (Lease \<Rightarrow> bool) \<Rightarrow> time \<Rightarrow> int \<Rightarrow> presence_db \<Rightarrow> (presence_error, int) result \<times> presence_db" where
  "pg_SweepExpired flt locked now batch d =
    (if now = zero_time \<or> batch \<le> 0 \<or> batch > MaximumSweepBatch then (Inl ErrInvalidInput, d)
     else case flt of Some e \<Rightarrow> (Inl (PresenceFailure (''sweep workspace presence leases: '' @ e)), d)
     | None \<Rightarrow>
         let expired = sweep_rows locked now batch d in
         (Inr (int (length expired)), d\<lparr>p_leases := filter (\<lambda>x. \<not> list_ex (\<lambda>y. same_key y x) expired) (p_leases d)\<rparr>))"

section \<open>The service\<close>

record PresenceService =
  ps_spaceID :: string
  ps_leaseTTL :: duration

definition NewPresenceService :: "string \<Rightarrow> duration \<Rightarrow> PresenceService" where
  "NewPresenceService space ttl =
    (let spaceID = TrimSpace space; t = (if ttl \<le> 0 then DefaultLeaseTTL else ttl)
     in \<lparr>ps_spaceID = (if spaceID = [] then ''spc_default'' else spaceID), ps_leaseTTL = (if t > MaximumLeaseTTL then MaximumLeaseTTL else t)\<rparr>)"

definition resolveSpace :: "PresenceService \<Rightarrow> string \<Rightarrow> string" where
  "resolveSpace s spaceID = (let t = TrimSpace spaceID in if t = [] then ps_spaceID s else t)"

definition resolveTTL :: "PresenceService \<Rightarrow> duration \<Rightarrow> duration" where
  "resolveTTL s ttl = (if ttl \<le> 0 then ps_leaseTTL s else if ttl > MaximumLeaseTTL then MaximumLeaseTTL else ttl)"

definition validLease :: "Lease \<Rightarrow> bool" where
  "validLease l \<longleftrightarrow> TrimSpace (l_SpaceID l) \<noteq> [] \<and> TrimSpace (l_UserID l) \<noteq> [] \<and> TrimSpace (l_ConnectionID l) \<noteq> []"

record RegisterInput =
  rg_SpaceID :: string
  rg_UserID :: string
  rg_ActorKind :: string
  rg_Now :: time
  rg_TTL :: duration

text \<open>\<open>clock\<close> is the service's clock at the call, \<open>newid\<close> the answer of its id factory.\<close>

definition presence_Register ::
  "PresenceService \<Rightarrow> time \<Rightarrow> string option \<Rightarrow> string option \<Rightarrow> RegisterInput \<Rightarrow> presence_db \<Rightarrow> (presence_error, Lease) result \<times> presence_db" where
  "presence_Register s clock newid flt input d =
    (if TrimSpace (rg_ActorKind input) \<noteq> ''human'' \<or> TrimSpace (rg_UserID input) = [] then (Inl ErrNotAuthorized, d)
     else
       let now = (if rg_Now input = zero_time then clock else rg_Now input) in
       case newid of
         None \<Rightarrow> (Inl (PresenceFailure ''create workspace presence connection id''), d)
       | Some raw \<Rightarrow>
           let connectionID = TrimSpace raw in
           if connectionID = [] then (Inl (PresenceFailure ''create workspace presence connection id returned empty id''), d)
           else
             let l = \<lparr>l_SpaceID = resolveSpace s (rg_SpaceID input), l_UserID = TrimSpace (rg_UserID input), l_ConnectionID = connectionID,
                   l_LeaseUntil = now + resolveTTL s (rg_TTL input)\<rparr> in
             (case pg_Register flt l now d of (Inl e, d1) \<Rightarrow> (Inl e, d1) | (Inr _, d1) \<Rightarrow> (Inr l, d1)))"

definition presence_Renew ::
  "PresenceService \<Rightarrow> time \<Rightarrow> string option \<Rightarrow> Lease \<Rightarrow> time \<Rightarrow> duration \<Rightarrow> presence_db \<Rightarrow> (presence_error, unit) result \<times> presence_db" where
  "presence_Renew s clock flt l now0 ttl d =
    (if \<not> validLease l then (Inl ErrInvalidInput, d)
     else
       let now = (if now0 = zero_time then clock else now0) in
       (case pg_Renew flt (l\<lparr>l_LeaseUntil := now + resolveTTL s ttl\<rparr>) now d of
          (Inl e, d1) \<Rightarrow> (Inl e, d1)
        | (Inr renewed, d1) \<Rightarrow> (if renewed then Inr () else Inl ErrLeaseNotFound, d1)))"

definition presence_Delete :: "string option \<Rightarrow> Lease \<Rightarrow> presence_db \<Rightarrow> (presence_error, unit) result \<times> presence_db" where
  "presence_Delete flt l d =
    (if \<not> validLease l then (Inl ErrInvalidInput, d)
     else (case pg_Delete flt l d of (Inl e, d1) \<Rightarrow> (Inl e, d1) | (Inr _, d1) \<Rightarrow> (Inr (), d1)))"

definition IsOnlineContext :: "PresenceService \<Rightarrow> time \<Rightarrow> string option \<Rightarrow> string \<Rightarrow> presence_db \<Rightarrow> (presence_error, bool) result" where
  "IsOnlineContext s clock flt userID d =
    (let u = TrimSpace userID in if u = [] then Inl ErrInvalidInput else pg_IsOnline flt (ps_spaceID s) u clock d)"

definition presence_SweepExpired ::
  "time \<Rightarrow> string option \<Rightarrow> (Lease \<Rightarrow> bool) \<Rightarrow> int \<Rightarrow> presence_db \<Rightarrow> (presence_error, int) result \<times> presence_db" where
  "presence_SweepExpired clock flt locked batch d =
    (let b = (if batch \<le> 0 then DefaultSweepBatch else batch); b1 = (if b > MaximumSweepBatch then MaximumSweepBatch else b)
     in pg_SweepExpired flt locked clock b1 d)"


section \<open>The lease table\<close>

text \<open>The primary key.\<close>

definition leases_ok :: "presence_db \<Rightarrow> bool" where
  "leases_ok d \<longleftrightarrow> sorted_wrt (\<lambda>a b. \<not> same_key a b) (p_leases d)"

lemma lease_key_until [simp]:
  "lease_key (a\<lparr>l_LeaseUntil := u\<rparr>) = lease_key a" "lease_key (stored_lease a) = lease_key a"
  "lease_key (if b then a\<lparr>l_LeaseUntil := u\<rparr> else a) = lease_key a"
  by (simp_all add: lease_key_def stored_lease_def)

lemma leases_unique:
  assumes "leases_ok d" "a \<in> set (p_leases d)" "b \<in> set (p_leases d)" "same_key a b"
  shows "a = b"
proof -
  have "a = b" if "sorted_wrt (\<lambda>a b. \<not> same_key a b) ls" "a \<in> set ls" "b \<in> set ls" for ls
    using that assms(4) by (induction ls) (auto simp: same_key_def)
  then show ?thesis using assms(1-3) by (simp add: leases_ok_def)
qed

lemma pg_timestamp_mono: "a \<le> b \<Longrightarrow> pg_timestamp a \<le> pg_timestamp b"
proof -
  have "pg_timestamp t = 1000 * (t div 1000)" for t
    unfolding pg_timestamp_def by (simp add: minus_mod_eq_mult_div)
  then show "a \<le> b \<Longrightarrow> pg_timestamp a \<le> pg_timestamp b" by (simp add: zdiv_mono1)
qed

text \<open>What a call may change: the leases only, by appending, by new expiry times, or by removing.\<close>

lemma presence_Register_cases:
  assumes "presence_Register s clock newid flt input d = (r, d')"
  shows "(d' = d \<and> (\<forall>l. r \<noteq> Inr l)) \<or> (\<exists>l. r = Inr l \<and> \<not> list_ex (same_key l) (p_leases d) \<and>
      active_human (l_SpaceID l) (l_UserID l) d \<and> d' = d\<lparr>p_leases := p_leases d @ [stored_lease l]\<rparr> \<and>
      l_LeaseUntil l = (if rg_Now input = zero_time then clock else rg_Now input) + resolveTTL s (rg_TTL input))"
  using assms
  by (auto simp: presence_Register_def pg_Register_def Let_def split: if_split_asm option.split_asm)

lemma presence_Register_ok: "leases_ok d \<Longrightarrow> presence_Register s clock newid flt input d = (r, d') \<Longrightarrow> leases_ok d'"
  by (drule presence_Register_cases) (fastforce simp: leases_ok_def sorted_wrt_append list_ex_iff same_key_def)

lemma pg_Renew_changed:
  "pg_Renew flt k now d = (r, d') \<Longrightarrow> d' \<noteq> d \<Longrightarrow>
   d' = d\<lparr>p_leases := map (\<lambda>x. if same_key k x \<and> l_LeaseUntil x > pg_timestamp now \<and> active_human (l_SpaceID x) (l_UserID x) d
     then x\<lparr>l_LeaseUntil := pg_timestamp (l_LeaseUntil k)\<rparr> else x) (p_leases d)\<rparr>"
  unfolding pg_Renew_def Let_def by (auto split: if_split_asm option.split_asm)

lemma presence_Renew_cases:
  assumes "presence_Renew s clock flt l now ttl d = (r, d')"
  shows "d' = d \<or> (\<exists>hit. (\<forall>x. hit x \<longrightarrow> same_key l x) \<and>
      d' = d\<lparr>p_leases := map (\<lambda>x. if hit x then x\<lparr>l_LeaseUntil := pg_timestamp ((if now = zero_time then clock else now) + resolveTTL s ttl)\<rparr> else x) (p_leases d)\<rparr>)"
proof (cases "d' = d")
  case False
  let ?now = "if now = zero_time then clock else now"
  let ?hit = "\<lambda>x. same_key (l\<lparr>l_LeaseUntil := ?now + resolveTTL s ttl\<rparr>) x \<and> l_LeaseUntil x > pg_timestamp ?now \<and> active_human (l_SpaceID x) (l_UserID x) d"
  have "d' = d\<lparr>p_leases := map (\<lambda>x. if ?hit x then x\<lparr>l_LeaseUntil := pg_timestamp (?now + resolveTTL s ttl)\<rparr> else x) (p_leases d)\<rparr>"
  proof -
    obtain r1 d1 where run: "pg_Renew flt (l\<lparr>l_LeaseUntil := ?now + resolveTTL s ttl\<rparr>) ?now d = (r1, d1)" by fastforce
    have "validLease l" using assms False by (simp add: presence_Renew_def split: if_split_asm)
    then have "d1 = d'" using assms unfolding presence_Renew_def Let_def run by (cases r1) simp_all
    with run have "pg_Renew flt (l\<lparr>l_LeaseUntil := ?now + resolveTTL s ttl\<rparr>) ?now d = (r1, d')" by (simp only:)
    from pg_Renew_changed [OF this False] show ?thesis by simp
  qed
  moreover have "\<forall>x. ?hit x \<longrightarrow> same_key l x" by (simp add: same_key_def)
  ultimately show ?thesis by (intro disjI2 exI [of _ ?hit] conjI)
qed simp

lemma presence_Renew_ok: "leases_ok d \<Longrightarrow> presence_Renew s clock flt l now ttl d = (r, d') \<Longrightarrow> leases_ok d'"
  by (drule presence_Renew_cases) (auto simp: leases_ok_def sorted_wrt_map same_key_def simp del: if_split)

lemma presence_Delete_cases:
  assumes "presence_Delete flt l d = (r, d')"
  shows "d' = d \<or> d' = d\<lparr>p_leases := filter (\<lambda>x. \<not> same_key l x) (p_leases d)\<rparr>"
  using assms by (auto simp: presence_Delete_def pg_Delete_def split: if_split_asm option.split_asm)

lemma presence_Delete_ok: "leases_ok d \<Longrightarrow> presence_Delete flt l d = (r, d') \<Longrightarrow> leases_ok d'"
  by (drule presence_Delete_cases) (auto simp: leases_ok_def sorted_wrt_filter)

lemma presence_Sweep_cases:
  assumes "presence_SweepExpired clock flt locked batch d = (r, d')" "leases_ok d"
  shows "\<exists>gone. (\<forall>x. gone x \<longrightarrow> l_LeaseUntil x \<le> pg_timestamp clock) \<and> d' = d\<lparr>p_leases := filter (\<lambda>x. \<not> gone x) (p_leases d)\<rparr>"
proof (cases "d' = d")
  case True
  then show ?thesis by (intro exI [of _ "\<lambda>_. False"]) simp
next
  case False
  define b where "b = (let b = (if batch \<le> 0 then DefaultSweepBatch else batch) in if b > MaximumSweepBatch then MaximumSweepBatch else b)"
  define rows where "rows = sweep_rows locked clock b d"
  have rows: "x \<in> set (p_leases d) \<and> l_LeaseUntil x \<le> pg_timestamp clock" if "x \<in> set rows" for x
    using that in_set_takeD [of x "nat b"] unfolding rows_def sweep_rows_def by fastforce
  have d': "d' = d\<lparr>p_leases := filter (\<lambda>x. \<not> list_ex (\<lambda>y. same_key y x) rows) (p_leases d)\<rparr>"
    using assms(1) False by (auto simp: presence_SweepExpired_def pg_SweepExpired_def Let_def rows_def b_def split: if_split_asm option.split_asm)
  have "l_LeaseUntil x \<le> pg_timestamp clock" if x: "x \<in> set (p_leases d)" and ex: "list_ex (\<lambda>y. same_key y x) rows" for x
  proof -
    obtain y where y: "y \<in> set rows" "same_key y x" using ex by (auto simp: list_ex_iff)
    then have "y = x" using leases_unique [OF assms(2)] rows x by blast
    then show ?thesis using rows y(1) by blast
  qed
  then show ?thesis
    unfolding d' by (intro exI [of _ "\<lambda>x. l_LeaseUntil x \<le> pg_timestamp clock \<and> list_ex (\<lambda>y. same_key y x) rows"] conjI allI impI)
      (auto intro!: presence_db.equality filter_cong)
qed

lemma presence_Sweep_ok: "leases_ok d \<Longrightarrow> presence_SweepExpired clock flt locked batch d = (r, d') \<Longrightarrow> leases_ok d'"
  by (drule (1) presence_Sweep_cases) (auto simp: leases_ok_def sorted_wrt_filter)

section \<open>Being online\<close>

text \<open>
  What may happen while a connection stays open: anybody registers and other leases are
  renewed and deleted, this one is only renewed beyond the instant \<open>t\<close>, sweeps run with clocks
  up to \<open>t\<close>, and memberships change but the user stays a member.
\<close>

inductive meanwhile :: "Lease \<Rightarrow> time \<Rightarrow> presence_db \<Rightarrow> presence_db \<Rightarrow> bool" for l t where
  registered: "presence_Register s clock newid flt input d = (r, d') \<Longrightarrow> meanwhile l t d d'"
| renewed: "presence_Renew s clock flt l' now ttl d = (r, d') \<Longrightarrow>
    \<not> same_key l' l \<or> pg_timestamp t < pg_timestamp ((if now = zero_time then clock else now) + resolveTTL s ttl) \<Longrightarrow> meanwhile l t d d'"
| deleted: "presence_Delete flt l' d = (r, d') \<Longrightarrow> \<not> same_key l' l \<Longrightarrow> meanwhile l t d d'"
| swept: "presence_SweepExpired clock flt locked batch d = (r, d') \<Longrightarrow> clock \<le> t \<Longrightarrow> meanwhile l t d d'"
| membership: "p_leases d' = p_leases d \<Longrightarrow> active_human (l_SpaceID l) (l_UserID l) d' \<Longrightarrow> meanwhile l t d d'"

definition live_until :: "Lease \<Rightarrow> time \<Rightarrow> presence_db \<Rightarrow> bool" where
  "live_until l t d \<longleftrightarrow> leases_ok d \<and> active_human (l_SpaceID l) (l_UserID l) d \<and>
     (\<exists>x. x \<in> set (p_leases d) \<and> same_key l x \<and> pg_timestamp t < l_LeaseUntil x)"

lemma active_human_leases [simp]: "active_human spaceID userID (d\<lparr>p_leases := ls\<rparr>) = active_human spaceID userID d"
  by (simp add: active_human_def)

lemma meanwhile_live:
  assumes "meanwhile l t d d'" "live_until l t d"
  shows "live_until l t d'"
  using assms
proof cases
  case (registered s clock newid flt input r)
  then show ?thesis
    using assms(2) presence_Register_ok [OF _ registered] presence_Register_cases [OF registered] by (auto simp: live_until_def)
next
  case (renewed s clock flt l' now ttl r)
  obtain x where x: "x \<in> set (p_leases d)" "same_key l x" "pg_timestamp t < l_LeaseUntil x" using assms(2) by (auto simp: live_until_def)
  have ok: "leases_ok d'" using assms(2) presence_Renew_ok [OF _ renewed(1)] by (simp add: live_until_def)
  from presence_Renew_cases [OF renewed(1)] show ?thesis
  proof
    assume "d' = d"
    then show ?thesis using assms(2) by simp
  next
    let ?u = "pg_timestamp ((if now = zero_time then clock else now) + resolveTTL s ttl)"
    assume "\<exists>hit. (\<forall>x. hit x \<longrightarrow> same_key l' x) \<and> d' = d\<lparr>p_leases := map (\<lambda>x. if hit x then x\<lparr>l_LeaseUntil := ?u\<rparr> else x) (p_leases d)\<rparr>"
    then obtain hit where hit: "\<forall>x. hit x \<longrightarrow> same_key l' x" "d' = d\<lparr>p_leases := map (\<lambda>x. if hit x then x\<lparr>l_LeaseUntil := ?u\<rparr> else x) (p_leases d)\<rparr>"
      by blast
    define y where "y = (if hit x then x\<lparr>l_LeaseUntil := ?u\<rparr> else x)"
    have "y \<in> set (p_leases d')" using x(1) by (auto simp: hit(2) y_def)
    moreover have "same_key l y" using x(2) by (simp add: y_def same_key_def)
    moreover have "pg_timestamp t < l_LeaseUntil y"
      using x renewed(2) hit(1) by (auto simp: y_def same_key_def)
    moreover have "active_human (l_SpaceID l) (l_UserID l) d'" using assms(2) by (simp add: hit(2) live_until_def)
    ultimately show ?thesis using ok by (auto simp: live_until_def)
  qed
next
  case (deleted flt l' r)
  then show ?thesis
    using assms(2) presence_Delete_ok [OF _ deleted(1)] presence_Delete_cases [OF deleted(1)]
    by (auto simp: live_until_def same_key_def)
next
  case (swept clock flt locked batch r)
  then have "pg_timestamp clock \<le> pg_timestamp t" by (simp add: pg_timestamp_mono)
  then show ?thesis
    using assms(2) presence_Sweep_ok [OF _ swept(1)] presence_Sweep_cases [OF swept(1)] by (fastforce simp: live_until_def)
next
  case membership
  then show ?thesis using assms(2) by (simp add: live_until_def leases_ok_def)
qed


lemma presence_Register_key:
  "presence_Register s clock newid flt input d = (Inr l, d') \<Longrightarrow> l_SpaceID l \<noteq> [] \<and> l_UserID l \<noteq> []"
  by (auto simp: presence_Register_def pg_Register_def key_missing_def Let_def split: if_split_asm option.split_asm)

text \<open>
  C33 (presence/service.go, presence/pg_repository.go). A user with an open connection is online:
  from the registration of its lease, whatever is registered, renewed, deleted or swept for
  others, and while it is renewed in time and the user stays a member, the lookup answers
  true at every instant before the lease runs out.
\<close>

theorem presence_stays_online:
  assumes "leases_ok d" and "presence_Register s clock newid flt input d = (Inr l, d1)" and "(meanwhile l t)\<^sup>*\<^sup>* d1 d2"
    and "pg_timestamp t < pg_timestamp (l_LeaseUntil l)" and "t \<noteq> zero_time"
  shows "pg_IsOnline None (l_SpaceID l) (l_UserID l) t d2 = Inr True"
proof -
  have "live_until l t d1"
  proof -
    have d1: "d1 = d\<lparr>p_leases := p_leases d @ [stored_lease l]\<rparr>" "active_human (l_SpaceID l) (l_UserID l) d"
      using presence_Register_cases [OF assms(2)] by auto
    have "pg_timestamp t < l_LeaseUntil (stored_lease l)" "same_key l (stored_lease l)"
      using assms(4) by (simp_all add: stored_lease_def same_key_def)
    moreover have "stored_lease l \<in> set (p_leases d1)" by (simp add: d1)
    moreover have "leases_ok d1" by (rule presence_Register_ok [OF assms(1,2)])
    ultimately show ?thesis using d1(2) unfolding live_until_def by (auto simp: d1(1))
  qed
  with assms(3) have "live_until l t d2" by (induction rule: rtranclp_induct) (auto intro: meanwhile_live)
  then show ?thesis
    using presence_Register_key [OF assms(2)] assms(5)
    by (fastforce simp: pg_IsOnline_def live_until_def list_ex_iff same_key_def lease_key_def)
qed

text \<open>
  The state of the lease table after calls of a service whose clock was last read, by a
  registration or renewal, at time \<open>T\<close>.
\<close>

inductive contacted :: "time \<Rightarrow> presence_db \<Rightarrow> bool" where
  start: "p_leases d = [] \<Longrightarrow> contacted T d"
| register: "contacted T d \<Longrightarrow> presence_Register (NewPresenceService space ttl) clock newid flt input d = (r, d') \<Longrightarrow>
    rg_Now input = zero_time \<Longrightarrow> T \<le> clock \<Longrightarrow> contacted clock d'"
| renew: "contacted T d \<Longrightarrow> presence_Renew (NewPresenceService space ttl) clock flt l zero_time ttl1 d = (r, d') \<Longrightarrow> T \<le> clock \<Longrightarrow> contacted clock d'"
| delete: "contacted T d \<Longrightarrow> presence_Delete flt l d = (r, d') \<Longrightarrow> contacted T d'"
| sweep: "contacted T d \<Longrightarrow> presence_SweepExpired clock flt locked batch d = (r, d') \<Longrightarrow> contacted T d'"
| members: "contacted T d \<Longrightarrow> p_leases d' = p_leases d \<Longrightarrow> contacted T d'"

lemma resolveTTL_max: "resolveTTL (NewPresenceService space ttl) ttl1 \<le> MaximumLeaseTTL"
  by (simp add: resolveTTL_def NewPresenceService_def Let_def DefaultLeaseTTL_def MaximumLeaseTTL_def Minute_def)

lemma presence_Sweep_subset: "presence_SweepExpired clock flt locked batch d = (r, d') \<Longrightarrow> set (p_leases d') \<subseteq> set (p_leases d)"
  by (auto simp: presence_SweepExpired_def pg_SweepExpired_def Let_def split: if_split_asm option.split_asm)

lemma contacted_until: "contacted T d \<Longrightarrow> x \<in> set (p_leases d) \<Longrightarrow> l_LeaseUntil x \<le> pg_timestamp (T + MaximumLeaseTTL)"
proof (induction arbitrary: x rule: contacted.induct)
  case (start d T)
  then show ?case by simp
next
  case (register T d space ttl clock newid flt input r d')
  have "pg_timestamp (T + MaximumLeaseTTL) \<le> pg_timestamp (clock + MaximumLeaseTTL)"
    "pg_timestamp (clock + resolveTTL (NewPresenceService space ttl) (rg_TTL input)) \<le> pg_timestamp (clock + MaximumLeaseTTL)"
    using register(4) resolveTTL_max by (simp_all add: pg_timestamp_mono)
  then show ?case
    using register.IH [of x] register.prems presence_Register_cases [OF register(2)] register(3)
    by (auto simp: stored_lease_def)
next
  case (renew T d space ttl clock flt l ttl1 r d')
  have "pg_timestamp (T + MaximumLeaseTTL) \<le> pg_timestamp (clock + MaximumLeaseTTL)"
    "pg_timestamp (clock + resolveTTL (NewPresenceService space ttl) ttl1) \<le> pg_timestamp (clock + MaximumLeaseTTL)"
    using renew(3) resolveTTL_max by (simp_all add: pg_timestamp_mono)
  then show ?case
    using renew.IH renew.prems presence_Renew_cases [OF renew(2)] by (fastforce split: if_split_asm)
next
  case (delete T d flt l r d')
  then show ?case using presence_Delete_cases [OF delete(2)] by auto
next
  case (sweep T d clock flt locked batch r d')
  then show ?case using presence_Sweep_subset [OF sweep(2)] by blast
next
  case (members T d d')
  then show ?case by simp
qed

text \<open>
  No ghosts: whatever sequence of calls
  is made and whichever fail, five minutes after the last registration or renewal nobody is
  online any more, even when no connection was closed properly and no sweep has run.
\<close>

theorem presence_expires:
  assumes "contacted T d" and "T + MaximumLeaseTTL \<le> t"
  shows "pg_IsOnline flt spaceID userID t d \<noteq> Inr True"
proof -
  have "l_LeaseUntil x \<le> pg_timestamp t" if "x \<in> set (p_leases d)" for x
    using contacted_until [OF assms(1) that] pg_timestamp_mono [OF assms(2)] by simp
  then show ?thesis by (auto simp: pg_IsOnline_def list_ex_iff not_less [symmetric] split: option.split)
qed

definition presence_seed :: presence_db where
  "presence_seed = \<lparr>p_users = users seed_db, p_space_members = space_members seed_db, p_leases = []\<rparr>"

definition owner_hello :: RegisterInput where
  "owner_hello = \<lparr>rg_SpaceID = [], rg_UserID = ''usr_owner'', rg_ActorKind = ''human'', rg_Now = zero_time, rg_TTL = 0\<rparr>"

definition owner_lease :: Lease where
  "owner_lease = \<lparr>l_SpaceID = ''spc_default'', l_UserID = ''usr_owner'', l_ConnectionID = ''c1'', l_LeaseUntil = 90 * Second\<rparr>"

definition presence_registered :: presence_db where
  "presence_registered = snd (presence_Register (NewPresenceService [] 0) 0 (Some ''c1'') None owner_hello presence_seed)"

lemma owner_registers:
  "presence_Register (NewPresenceService [] 0) 0 (Some ''c1'') None owner_hello presence_seed = (Inr owner_lease, presence_registered)"
  by code_simp

theorem presence_stays_online_witness:
  "pg_IsOnline None ''spc_default'' ''usr_owner'' (60 * Second) presence_registered = Inr True"
proof -
  have "leases_ok presence_seed" "pg_timestamp (60 * Second) < pg_timestamp (l_LeaseUntil owner_lease)" "60 * Second \<noteq> zero_time"
    "l_SpaceID owner_lease = ''spc_default''" "l_UserID owner_lease = ''usr_owner''"
    by code_simp+
  then show ?thesis using presence_stays_online [OF _ owner_registers rtranclp.rtrancl_refl] by metis
qed

theorem presence_expires_witness:
  "pg_IsOnline None ''spc_default'' ''usr_owner'' (6 * Minute) presence_registered \<noteq> Inr True"
proof (rule presence_expires)
  have "contacted 0 presence_seed" by (rule contacted.start) (simp add: presence_seed_def)
  then show "contacted 0 presence_registered"
    by (rule contacted.register [OF _ owner_registers]) (simp_all add: owner_hello_def)
  show "0 + MaximumLeaseTTL \<le> 6 * Minute" by code_simp
qed

end
