(* ===== verification/Realtime_Session.thy ===== *)
theory Realtime_Session
  imports Events_Replay Presence
begin

text \<open>
  realtime/handler.go: one WebSocket session. The select loop of \<open>ServeHTTP\<close> is a step function
  on a session state: each step is one input (a client frame, a wake-up, a tick, a shutdown)
  with what the outside answers to it. Writes to the connection may fail at any attempt. The
  event service and the presence lifecycle are the interfaces of the code; a session is
  stuck (\<^term>\<open>None\<close>) when a replay does not return.
\<close>

section \<open>Frames\<close>

datatype frame =
    ErrorFrame string string
  | ReadyFrame string int int int bool
  | EventFrame Event
  | SyncRequiredFrame string int string

definition ProtocolVersion :: int where "ProtocolVersion = 1"

text \<open>An error of the session: of the auth domain, of the event domain, or any other.\<close>

datatype session_error = AuthError Error | EventError Error | OtherError string

definition publicErrorFrame :: "session_error \<Rightarrow> frame" where
  "publicErrorFrame err =
    (case err of
       AuthError e \<Rightarrow> ErrorFrame (err_Code e) (err_Message e)
     | EventError e \<Rightarrow> ErrorFrame (err_Code e) (err_Message e)
     | OtherError _ \<Rightarrow> ErrorFrame ''internal.error'' (utf8 [0x670D, 0x52A1, 0x6682, 0x65F6, 0x4E0D, 0x53EF, 0x7528]))"

definition closeStatus :: "session_error \<Rightarrow> int" where
  "closeStatus err =
    (case err of
       AuthError e \<Rightarrow> if err_StatusCode e < 500 then 1008 else 1011
     | EventError e \<Rightarrow> if err_StatusCode e < 500 then 1008 else 1011
     | OtherError _ \<Rightarrow> 1011)"

definition syncFrame :: "ReplayResult \<Rightarrow> frame" where
  "syncFrame r = SyncRequiredFrame DefaultSpaceID (rr_CurrentSeq r) (rr_Reason r)"

section \<open>The hello\<close>

text \<open>A \<open>json.RawMessage\<close> field: absent, or the value of the last member with its name.\<close>

record hello_envelope =
  he_Type :: string
  he_Version :: "json option"
  he_LastSeq :: "json option"

definition hello_field :: "hello_envelope \<Rightarrow> string \<Rightarrow> json \<Rightarrow> hello_envelope option" where
  "hello_field m key v =
    (case json_field [''type'', ''version'', ''lastSeq''] key of
       None \<Rightarrow> Some m
     | Some name \<Rightarrow>
         if name = ''type'' then map_option (\<lambda>s. m\<lparr>he_Type := s\<rparr>) (assign_string (he_Type m) v)
         else if name = ''version'' then Some (m\<lparr>he_Version := Some v\<rparr>)
         else Some (m\<lparr>he_LastSeq := Some v\<rparr>))"

text \<open>Of a raw value only a number literal can be read as an integer.\<close>

definition parseJSONInteger :: "json \<Rightarrow> int option" where
  "parseJSONInteger v = (case v of JNum literal \<Rightarrow> ParseInt64 literal | _ \<Rightarrow> None)"

definition decodeHello :: "string \<Rightarrow> int option" where
  "decodeHello raw =
    (case Option.bind (json_text raw) (decode_struct hello_field \<lparr>he_Type = [], he_Version = None, he_LastSeq = None\<rparr>) of
       None \<Rightarrow> None
     | Some envelope \<Rightarrow>
         if he_Type envelope \<noteq> ''hello'' then None
         else if (case he_Version envelope of None \<Rightarrow> False | Some JNull \<Rightarrow> False | Some v \<Rightarrow> parseJSONInteger v \<noteq> Some ProtocolVersion) then None
         else (case he_LastSeq envelope of
             None \<Rightarrow> Some 0
           | Some JNull \<Rightarrow> Some 0
           | Some v \<Rightarrow> map_option (\<lambda>n. if n < 0 then 0 else n) (parseJSONInteger v)))"

datatype inbound = InErr | InInvalid | InHello int

text \<open>One turn of the read loop: an error, a binary frame, or a text frame.\<close>

definition readLoop_turn :: "(bool \<times> string) option \<Rightarrow> inbound" where
  "readLoop_turn received =
    (case received of
       None \<Rightarrow> InErr
     | Some (text, raw) \<Rightarrow>
         if \<not> text then InInvalid else (case decodeHello raw of None \<Rightarrow> InInvalid | Some lastSeq \<Rightarrow> InHello lastSeq))"

section \<open>The connection\<close>

record conn =
  cn_sent :: "frame list"
  cn_attempts :: nat
  cn_closed :: "(int \<times> string) option"

text \<open>\<open>ok n\<close> says whether the \<open>n\<close>-th write to the connection works.\<close>

definition writer_write :: "(nat \<Rightarrow> bool) \<Rightarrow> frame \<Rightarrow> conn \<Rightarrow> bool \<times> conn" where
  "writer_write ok f c =
    (if ok (cn_attempts c) then (True, c\<lparr>cn_sent := cn_sent c @ [f], cn_attempts := Suc (cn_attempts c)\<rparr>)
     else (False, c\<lparr>cn_attempts := Suc (cn_attempts c)\<rparr>))"

fun writeEvents :: "(nat \<Rightarrow> bool) \<Rightarrow> Event list \<Rightarrow> conn \<Rightarrow> bool \<times> conn" where
  "writeEvents ok [] c = (True, c)"
| "writeEvents ok (e # es) c =
    (case writer_write ok (EventFrame e) c of (False, c1) \<Rightarrow> (False, c1) | (True, c1) \<Rightarrow> writeEvents ok es c1)"

definition writer_close :: "int \<Rightarrow> string \<Rightarrow> conn \<Rightarrow> conn" where
  "writer_close status reason c = (case cn_closed c of None \<Rightarrow> c\<lparr>cn_closed := Some (status, reason)\<rparr> | Some _ \<Rightarrow> c)"

section \<open>The handler\<close>

record 'p Lifecycle =
  lf_Register :: "string \<Rightarrow> string \<Rightarrow> string \<Rightarrow> 'p \<Rightarrow> (presence_error, Lease) result \<times> 'p"
  lf_Renew :: "Lease \<Rightarrow> 'p \<Rightarrow> bool \<times> 'p"
  lf_Delete :: "Lease \<Rightarrow> 'p \<Rightarrow> 'p"

type_synonym 's EventService = "ReplayInput \<Rightarrow> 's \<Rightarrow> ((Error, ReplayResult) result \<times> 's) option"

record ('s, 'p) HandlerOptions =
  ho_Events :: "'s EventService"
  ho_Presence :: "'p Lifecycle option"
  ho_SpaceID :: string
  ho_MaxFrameBytes :: int
  ho_PollInterval :: duration
  ho_HeartbeatInterval :: duration
  ho_IOTimeout :: duration

definition NewHandler :: "('s, 'p) HandlerOptions \<Rightarrow> ('s, 'p) HandlerOptions" where
  "NewHandler options = options
    \<lparr>ho_SpaceID := (if ho_SpaceID options = [] then DefaultSpaceID else ho_SpaceID options),
     ho_MaxFrameBytes := (if ho_MaxFrameBytes options \<le> 0 then 4 * 1024 else ho_MaxFrameBytes options),
     ho_PollInterval := (if ho_PollInterval options \<le> 0 then 2 * Second else ho_PollInterval options),
     ho_HeartbeatInterval := (if ho_HeartbeatInterval options \<le> 0 then 30 * Second else ho_HeartbeatInterval options),
     ho_IOTimeout := (if ho_IOTimeout options \<le> 0 then 5 * Second else ho_IOTimeout options)\<rparr>"

text \<open>Calls of the presence lifecycle, recorded in order.\<close>

datatype call = Registered Lease | Renewed Lease | Deleted Lease

record ('s, 'p) session =
  ss_open :: bool
  ss_actorID :: string
  ss_lastDeliveredSeq :: int
  ss_activePresence :: "Lease option"
  ss_conn :: conn
  ss_store :: 's
  ss_presence :: 'p
  ss_calls :: "call list"

definition deletePresence :: "('s, 'p) HandlerOptions \<Rightarrow> Lease option \<Rightarrow> ('s, 'p) session \<Rightarrow> ('s, 'p) session" where
  "deletePresence h lease s =
    (case (ho_Presence h, lease) of
       (Some lf, Some l) \<Rightarrow> s\<lparr>ss_presence := lf_Delete lf l (ss_presence s), ss_calls := ss_calls s @ [Deleted l]\<rparr>
     | _ \<Rightarrow> s)"

text \<open>The deferred clean-up of \<open>ServeHTTP\<close>.\<close>

definition session_end :: "('s, 'p) HandlerOptions \<Rightarrow> ('s, 'p) session \<Rightarrow> ('s, 'p) session" where
  "session_end h s = (deletePresence h (ss_activePresence s) s)\<lparr>ss_open := False\<rparr>"

definition send :: "(nat \<Rightarrow> bool) \<Rightarrow> frame \<Rightarrow> ('s, 'p) session \<Rightarrow> bool \<times> ('s, 'p) session" where
  "send ok f s = (case writer_write ok f (ss_conn s) of (b, c) \<Rightarrow> (b, s\<lparr>ss_conn := c\<rparr>))"

definition send_close :: "(nat \<Rightarrow> bool) \<Rightarrow> frame \<Rightarrow> int \<Rightarrow> string \<Rightarrow> ('s, 'p) session \<Rightarrow> ('s, 'p) session" where
  "send_close ok f status reason s = (let s1 = snd (send ok f s) in s1\<lparr>ss_conn := writer_close status reason (ss_conn s1)\<rparr>)"

definition deliverCatchUp :: "('s, 'p) HandlerOptions \<Rightarrow> (nat \<Rightarrow> bool) \<Rightarrow> ('s, 'p) session \<Rightarrow> (bool \<times> ('s, 'p) session) option" where
  "deliverCatchUp h ok s =
    (case ho_Events h \<lparr>ri_ActorID = ss_actorID s, ri_LastSeq = ss_lastDeliveredSeq s, ri_Limit = 0\<rparr> (ss_store s) of
       None \<Rightarrow> None
     | Some (Inl e, st) \<Rightarrow>
         Some (False, send_close ok (publicErrorFrame (EventError e)) (closeStatus (EventError e)) ''workspace access changed'' (s\<lparr>ss_store := st\<rparr>))
     | Some (Inr r, st) \<Rightarrow>
         let s0 = s\<lparr>ss_store := st\<rparr> in
         if rr_SyncRequired r then
           (case send ok (syncFrame r) s0 of
              (False, s1) \<Rightarrow> Some (False, s1)
            | (True, s1) \<Rightarrow> Some (True, s1\<lparr>ss_lastDeliveredSeq := rr_CurrentSeq r\<rparr>))
         else
           (case writeEvents ok (rr_Events r) (ss_conn s0) of
              (False, c) \<Rightarrow> Some (False, s0\<lparr>ss_conn := c\<rparr>)
            | (True, c) \<Rightarrow>
                let s1 = s0\<lparr>ss_conn := c, ss_lastDeliveredSeq := deliveredCursor (ss_lastDeliveredSeq s) r\<rparr> in
                if rr_HasMore r then Some (send ok (SyncRequiredFrame DefaultSpaceID (rr_CurrentSeq r) SyncReasonReplayLimit) s1)
                else Some (True, s1)))"

text \<open>The inputs of the loop, with the answers of the resolver and of the ping.\<close>

datatype input =
    RootDone
  | Incoming inbound "(session_error, Actor option) result"
  | Wakeup
  | PollTick
  | HeartbeatTick bool
  | CtxDone

definition catch_up_step :: "('s, 'p) HandlerOptions \<Rightarrow> (nat \<Rightarrow> bool) \<Rightarrow> ('s, 'p) session \<Rightarrow> ('s, 'p) session option" where
  "catch_up_step h ok s =
    (if ss_actorID s = [] then Some s
     else case deliverCatchUp h ok s of
       None \<Rightarrow> None
     | Some (True, s1) \<Rightarrow> Some s1
     | Some (False, s1) \<Rightarrow> Some (session_end h s1))"

text \<open>After a hello was replayed: presence, and the new session cursor.\<close>

definition hello_accepted ::
  "('s, 'p) HandlerOptions \<Rightarrow> (nat \<Rightarrow> bool) \<Rightarrow> Actor \<Rightarrow> int \<Rightarrow> ReplayResult \<Rightarrow> ('s, 'p) session \<Rightarrow> ('s, 'p) session" where
  "hello_accepted h ok actor lastSeq r s =
    (let ready = (\<lambda>s. s\<lparr>ss_actorID := actor_ID actor, ss_lastDeliveredSeq := deliveredCursor lastSeq r\<rparr>) in
     case ho_Presence h of
       None \<Rightarrow> ready s
     | Some lf \<Rightarrow>
         (case lf_Register lf (ho_SpaceID h) (actor_ID actor) (actor_Kind actor) (ss_presence s) of
            (Inl e, p) \<Rightarrow>
              session_end h (send_close ok (ErrorFrame ''internal.error'' (utf8 [0x670D, 0x52A1, 0x6682, 0x65F6, 0x4E0D, 0x53EF, 0x7528])) 1011 ''presence unavailable'' (s\<lparr>ss_presence := p\<rparr>))
          | (Inr lease, p) \<Rightarrow>
              let previous = ss_activePresence s;
                  s1 = s\<lparr>ss_presence := p, ss_activePresence := Some lease, ss_calls := ss_calls s @ [Registered lease]\<rparr>
              in ready (deletePresence h previous s1)))"

definition hello_step ::
  "('s, 'p) HandlerOptions \<Rightarrow> (nat \<Rightarrow> bool) \<Rightarrow> int \<Rightarrow> (session_error, Actor option) result \<Rightarrow> ('s, 'p) session \<Rightarrow> ('s, 'p) session option" where
  "hello_step h ok lastSeq resolved s =
    (let refuse = (\<lambda>err. Some (session_end h (send_close ok (publicErrorFrame err) 1008 ''workspace access changed'' s)));
         required = AuthError (NewError ''auth.required'' (utf8 [0x8BF7, 0x5148, 0x767B, 0x5F55, 0x5171, 0x4EAB, 0x7A7A, 0x95F4]) 401)
     in case resolved of
       Inl err \<Rightarrow> refuse err
     | Inr None \<Rightarrow> refuse required
     | Inr (Some actor) \<Rightarrow>
         if actor_ID actor = [] then refuse required
         else (case ho_Events h \<lparr>ri_ActorID = actor_ID actor, ri_LastSeq = lastSeq, ri_Limit = 0\<rparr> (ss_store s) of
             None \<Rightarrow> None
           | Some (Inl e, st) \<Rightarrow>
               Some (session_end h (send_close ok (publicErrorFrame (EventError e)) (closeStatus (EventError e)) ''workspace access changed'' (s\<lparr>ss_store := st\<rparr>)))
           | Some (Inr r, st) \<Rightarrow>
               let s0 = s\<lparr>ss_store := st\<rparr> in
               if rr_SyncRequired r then
                 (case send ok (syncFrame r) s0 of
                    (False, s1) \<Rightarrow> Some (session_end h s1)
                  | (True, s1) \<Rightarrow> Some (s1\<lparr>ss_actorID := []\<rparr>))
               else
                 (case send ok (ReadyFrame DefaultSpaceID (rr_CurrentSeq r) (rr_ReplayFrom r) (rr_ReplayCount r) (rr_HasMore r)) s0 of
                    (False, s1) \<Rightarrow> Some (session_end h s1)
                  | (True, s1) \<Rightarrow>
                      (case writeEvents ok (rr_Events r) (ss_conn s1) of
                         (False, c) \<Rightarrow> Some (session_end h (s1\<lparr>ss_conn := c\<rparr>))
                       | (True, c) \<Rightarrow> Some (hello_accepted h ok actor lastSeq r (s1\<lparr>ss_conn := c\<rparr>))))))"

definition heartbeat_step :: "('s, 'p) HandlerOptions \<Rightarrow> bool \<Rightarrow> ('s, 'p) session \<Rightarrow> ('s, 'p) session" where
  "heartbeat_step h pong s =
    (let ping = (\<lambda>s. if pong then s else session_end h (s\<lparr>ss_conn := writer_close 1001 ''heartbeat timeout'' (ss_conn s)\<rparr>)) in
     case (ho_Presence h, ss_activePresence s) of
       (Some lf, Some lease) \<Rightarrow>
         (case lf_Renew lf lease (ss_presence s) of
            (renewed, p) \<Rightarrow>
              let s1 = s\<lparr>ss_presence := p, ss_calls := ss_calls s @ [Renewed lease]\<rparr> in
              if renewed then ping s1
              else session_end h (s1\<lparr>ss_conn := writer_close 1011 ''presence expired'' (ss_conn s1)\<rparr>))
     | _ \<Rightarrow> ping s)"

fun session_step :: "('s, 'p) HandlerOptions \<Rightarrow> (nat \<Rightarrow> bool) \<Rightarrow> input \<Rightarrow> ('s, 'p) session \<Rightarrow> ('s, 'p) session option" where
  "session_step h ok RootDone s = Some (session_end h (s\<lparr>ss_conn := writer_close 1012 ''service restarting'' (ss_conn s)\<rparr>))"
| "session_step h ok (Incoming InErr _) s = Some (session_end h s)"
| "session_step h ok (Incoming InInvalid _) s =
    (case send ok (ErrorFrame ''realtime.invalid'' (utf8 [0x5B9E, 0x65F6, 0x540C, 0x6B65, 0x8BF7, 0x6C42, 0x65E0, 0x6548])) s of
       (True, s1) \<Rightarrow> Some s1
     | (False, s1) \<Rightarrow> Some (session_end h s1))"
| "session_step h ok (Incoming (InHello lastSeq) resolved) s = hello_step h ok lastSeq resolved s"
| "session_step h ok Wakeup s = catch_up_step h ok s"
| "session_step h ok PollTick s = catch_up_step h ok s"
| "session_step h ok (HeartbeatTick pong) s = Some (heartbeat_step h pong s)"
| "session_step h ok CtxDone s = Some (session_end h s)"

text \<open>The loop: inputs are taken until the session has ended.\<close>

fun session_run :: "('s, 'p) HandlerOptions \<Rightarrow> (nat \<Rightarrow> bool) \<Rightarrow> input list \<Rightarrow> ('s, 'p) session \<Rightarrow> ('s, 'p) session option" where
  "session_run h ok [] s = Some s"
| "session_run h ok (i # is) s =
    (if \<not> ss_open s then Some s
     else case session_step h ok i s of None \<Rightarrow> None | Some s1 \<Rightarrow> session_run h ok is s1)"

definition session_start :: "'s \<Rightarrow> 'p \<Rightarrow> ('s, 'p) session" where
  "session_start st p =
    \<lparr>ss_open = True, ss_actorID = [], ss_lastDeliveredSeq = 0, ss_activePresence = None,
     ss_conn = \<lparr>cn_sent = [], cn_attempts = 0, cn_closed = None\<rparr>, ss_store = st, ss_presence = p, ss_calls = []\<rparr>"


section \<open>What is sent\<close>

definition events_of :: "frame list \<Rightarrow> Event list" where
  "events_of fs = List.map_filter (\<lambda>f. case f of EventFrame e \<Rightarrow> Some e | _ \<Rightarrow> None) fs"

lemma events_of_simps [simp]:
  "events_of [] = []" "events_of (EventFrame e # fs) = e # events_of fs" "events_of (ErrorFrame a b # fs) = events_of fs"
  "events_of (ReadyFrame x n1 n2 n3 d # fs) = events_of fs" "events_of (SyncRequiredFrame x n1 y # fs) = events_of fs"
  "events_of (fs @ fs') = events_of fs @ events_of fs'" "events_of (map EventFrame es) = es"
  by (simp_all add: events_of_def map_filter_simps) (simp_all add: List.map_filter_def comp_def)

text \<open>The frames a stretch of a session added.\<close>

definition added :: "('s, 'p) session \<Rightarrow> ('s, 'p) session \<Rightarrow> frame list \<Rightarrow> bool" where
  "added s s1 fs \<longleftrightarrow> cn_sent (ss_conn s1) = cn_sent (ss_conn s) @ fs"

lemma added_refl: "added s s []"
  and added_trans: "added s s1 fs \<Longrightarrow> added s1 s2 fs' \<Longrightarrow> added s s2 (fs @ fs')"
  by (simp_all add: added_def)

lemma writeEvents_True: "writeEvents ok es c = (True, c1) \<Longrightarrow> cn_sent c1 = cn_sent c @ map EventFrame es"
  by (induction es arbitrary: c) (auto simp: writer_write_def split: if_split_asm)

lemma send_True: "send ok f s = (True, s1) \<Longrightarrow> \<exists>c. s1 = s\<lparr>ss_conn := c\<rparr> \<and> cn_sent c = cn_sent (ss_conn s) @ [f]"
  by (auto simp: send_def writer_write_def split: if_split_asm)

lemma session_end_closed [simp]: "\<not> ss_open (session_end h s)"
  by (simp add: session_end_def)

lemma deletePresence_frame [simp]:
  "ss_conn (deletePresence h l s) = ss_conn s" "ss_store (deletePresence h l s) = ss_store s" "ss_open (deletePresence h l s) = ss_open s"
  by (simp_all add: deletePresence_def split: option.split)

text \<open>A catch-up that keeps the session open: a demand to resynchronise, or the events of a replay.\<close>

lemma catch_up_cases:
  assumes "catch_up_step h ok s = Some s1" "ss_open s1" "ss_actorID s \<noteq> []"
  obtains r where "ho_Events h \<lparr>ri_ActorID = ss_actorID s, ri_LastSeq = ss_lastDeliveredSeq s, ri_Limit = 0\<rparr> (ss_store s) = Some (Inr r, ss_store s1)"
    "ss_actorID s1 = ss_actorID s" "rr_SyncRequired r" "added s s1 [syncFrame r]"
  | r fs where "ho_Events h \<lparr>ri_ActorID = ss_actorID s, ri_LastSeq = ss_lastDeliveredSeq s, ri_Limit = 0\<rparr> (ss_store s) = Some (Inr r, ss_store s1)"
    "ss_actorID s1 = ss_actorID s" "\<not> rr_SyncRequired r" "ss_lastDeliveredSeq s1 = deliveredCursor (ss_lastDeliveredSeq s) r"
    "added s s1 (map EventFrame (rr_Events r) @ fs)"
    "fs = (if rr_HasMore r then [SyncRequiredFrame DefaultSpaceID (rr_CurrentSeq r) SyncReasonReplayLimit] else [])"
proof -
  have del: "deliverCatchUp h ok s = Some (True, s1)"
    using assms by (auto simp: catch_up_step_def split: option.split_asm prod.split_asm bool.split_asm)
  let ?in = "\<lparr>ri_ActorID = ss_actorID s, ri_LastSeq = ss_lastDeliveredSeq s, ri_Limit = 0\<rparr>"
  obtain r st where ev: "ho_Events h ?in (ss_store s) = Some (Inr r, st)"
    using del by (auto simp: deliverCatchUp_def split: option.split_asm prod.split_asm sum.split_asm)
  show thesis
  proof (cases "rr_SyncRequired r")
    case True
    then obtain sx where "send ok (syncFrame r) (s\<lparr>ss_store := st\<rparr>) = (True, sx)" "s1 = sx\<lparr>ss_lastDeliveredSeq := rr_CurrentSeq r\<rparr>"
      using del ev by (auto simp: deliverCatchUp_def split: prod.split_asm bool.split_asm)
    then show thesis using that(1) [of r] ev True by (auto dest!: send_True simp: added_def)
  next
    case False
    let ?s0 = "s\<lparr>ss_store := st\<rparr>"
    obtain c where c: "writeEvents ok (rr_Events r) (ss_conn s) = (True, c)"
      using del ev False by (auto simp: deliverCatchUp_def Let_def split: prod.split_asm bool.split_asm)
    let ?s1 = "?s0\<lparr>ss_conn := c, ss_lastDeliveredSeq := deliveredCursor (ss_lastDeliveredSeq s) r\<rparr>"
    have "if rr_HasMore r then send ok (SyncRequiredFrame DefaultSpaceID (rr_CurrentSeq r) SyncReasonReplayLimit) ?s1 = (True, s1) else s1 = ?s1"
      using del ev False c by (cases "rr_HasMore r") (simp_all add: deliverCatchUp_def Let_def)
    then show thesis
      using that(2) [of r] ev False writeEvents_True [OF c] by (cases "rr_HasMore r") (auto dest!: send_True simp: added_def)
  qed
qed

lemma replay_sync_reason:
  assumes "Replay L fuel s input st = Some (Inr r, st1)" "rr_SyncRequired r"
  shows "rr_Reason r \<noteq> SyncReasonReplayLimit"
proof (cases "\<exists>r0 sta. replay_start s input st = (Inr (Inl r0), sta)")
  case True
  then obtain r0 sta where start: "replay_start s input st = (Inr (Inl r0), sta)" by blast
  have "rr_Reason r0 = SyncReasonCursorAhead \<or> rr_Reason r0 = SyncReasonReplayWindow"
    using start by (auto simp: replay_start_def Let_def io_bind_Inr io_return_Inr io_fail_def split: if_split_asm)
  then show ?thesis
    using assms start by (auto simp: Replay_def SyncReasonCursorAhead_def SyncReasonReplayWindow_def SyncReasonReplayLimit_def)
next
  case False
  then obtain actor r0 lastSeq sta where start: "replay_start s input st = (Inr (Inr (actor, r0, lastSeq)), sta)"
    using assms by (auto simp: Replay_def split: prod.split_asm sum.split_asm)
  then have "\<not> rr_SyncRequired r0"
    by (auto simp: replay_start_def Let_def io_bind_Inr io_return_Inr io_fail_def split: if_split_asm)
  then show ?thesis using assms start by (auto simp: Replay_def split: option.split_asm prod.split_asm sum.split_asm)
qed

text \<open>Inputs that do not change who the session is for.\<close>

fun quiet :: "input \<Rightarrow> bool" where
  "quiet Wakeup = True"
| "quiet PollTick = True"
| "quiet (HeartbeatTick _) = True"
| "quiet (Incoming InInvalid _) = True"
| "quiet _ = False"

lemma heartbeat_open:
  "ss_open (heartbeat_step h pong s) \<Longrightarrow> ss_conn (heartbeat_step h pong s) = ss_conn s \<and> ss_store (heartbeat_step h pong s) = ss_store s \<and>
   ss_lastDeliveredSeq (heartbeat_step h pong s) = ss_lastDeliveredSeq s \<and> ss_actorID (heartbeat_step h pong s) = ss_actorID s"
  by (auto simp: heartbeat_step_def Let_def split: option.split_asm prod.split_asm if_split_asm)

lemma quiet_step_cases:
  assumes "session_step h ok i s = Some s1" "quiet i" "ss_open s1"
  obtains "catch_up_step h ok s = Some s1"
  | fs where "added s s1 fs" "events_of fs = []" "ss_store s1 = ss_store s" "ss_lastDeliveredSeq s1 = ss_lastDeliveredSeq s" "ss_actorID s1 = ss_actorID s"
proof (cases i)
  case (HeartbeatTick pong)
  then have "ss_open (heartbeat_step h pong s)" "s1 = heartbeat_step h pong s" using assms by auto
  then show thesis using that(2) [of "[]"] heartbeat_open [of h pong s] by (simp add: added_def)
next
  case (Incoming m resolved)
  then have "m = InInvalid" using assms(2) by (cases m) auto
  then obtain e where "send ok e s = (True, s1)" "e = ErrorFrame ''realtime.invalid'' (utf8 [0x5B9E, 0x65F6, 0x540C, 0x6B65, 0x8BF7, 0x6C42, 0x65E0, 0x6548])"
    using assms Incoming by (auto split: prod.split_asm bool.split_asm)
  then show thesis using that(2) [of "[e]"] by (auto dest!: send_True simp: added_def)
qed (use assms that in auto)

text \<open>A run only adds frames.\<close>

lemma writer_write_adds: "writer_write ok f c = (b, c1) \<Longrightarrow> \<exists>fs. cn_sent c1 = cn_sent c @ fs"
  by (auto simp: writer_write_def split: if_split_asm)

lemma writeEvents_adds: "writeEvents ok es c = (b, c1) \<Longrightarrow> \<exists>fs. cn_sent c1 = cn_sent c @ fs"
proof (induction es arbitrary: c)
  case (Cons e es)
  obtain b2 c2 where w: "writer_write ok (EventFrame e) c = (b2, c2)" by fastforce
  then show ?case
    using Cons writer_write_adds [OF w] by (cases b2) (auto, metis append.assoc)
qed simp

lemma send_adds: "send ok f s = (b, s1) \<Longrightarrow> \<exists>fs. added s s1 fs"
  by (auto simp: send_def added_def split: prod.split_asm dest: writer_write_adds)

lemma send_close_adds: "\<exists>fs. added s (send_close ok f status reason s) fs"
proof -
  obtain b s1 where s1: "send ok f s = (b, s1)" by fastforce
  show ?thesis using send_adds [OF s1] by (auto simp: send_close_def Let_def s1 added_def writer_close_def split: option.split)
qed

lemma session_end_sent [simp]: "ss_conn (session_end h s) = ss_conn s"
  by (simp add: session_end_def)

lemma writer_close_sent [simp]: "cn_sent (writer_close status reason c) = cn_sent c"
  by (simp add: writer_close_def split: option.split)

lemma added_store [simp]: "added (s\<lparr>ss_store := st\<rparr>) s1 fs = added s s1 fs" "added (s\<lparr>ss_presence := pp\<rparr>) s1 fs = added s s1 fs"
  by (simp_all add: added_def)

lemma deliverCatchUp_adds: "deliverCatchUp h ok s = Some (b, s1) \<Longrightarrow> \<exists>fs. added s s1 fs"
proof -
  assume del: "deliverCatchUp h ok s = Some (b, s1)"
  obtain a st where ev: "ho_Events h \<lparr>ri_ActorID = ss_actorID s, ri_LastSeq = ss_lastDeliveredSeq s, ri_Limit = 0\<rparr> (ss_store s) = Some (a, st)"
    using del by (auto simp: deliverCatchUp_def split: option.split_asm)
  show ?thesis
  proof (cases a)
    case (Inl e)
    then show ?thesis using del ev send_close_adds [of "s\<lparr>ss_store := st\<rparr>"] by (auto simp: deliverCatchUp_def)
  next
    case (Inr r)
    show ?thesis
    proof (cases "rr_SyncRequired r")
      case True
      obtain b1 sx where sx: "send ok (syncFrame r) (s\<lparr>ss_store := st\<rparr>) = (b1, sx)" by fastforce
      then have "ss_conn s1 = ss_conn sx" using del ev Inr True by (cases b1) (auto simp: deliverCatchUp_def)
      then show ?thesis using send_adds [OF sx] by (simp add: added_def)
    next
      case False
      obtain b1 c where c: "writeEvents ok (rr_Events r) (ss_conn s) = (b1, c)" by fastforce
      obtain fs where fs: "cn_sent c = cn_sent (ss_conn s) @ fs" using writeEvents_adds [OF c] by blast
      let ?s1 = "s\<lparr>ss_store := st, ss_conn := c, ss_lastDeliveredSeq := deliveredCursor (ss_lastDeliveredSeq s) r\<rparr>"
      obtain b2 sy where sy: "send ok (SyncRequiredFrame DefaultSpaceID (rr_CurrentSeq r) SyncReasonReplayLimit) ?s1 = (b2, sy)" by fastforce
      have "ss_conn s1 = c \<or> s1 = sy"
        using del ev Inr False c sy by (cases b1; cases "rr_HasMore r") (auto simp: deliverCatchUp_def Let_def)
      then show ?thesis using fs send_adds [OF sy] by (auto simp: added_def)
    qed
  qed
qed

lemma hello_accepted_adds: "\<exists>fs. added s (hello_accepted h ok actor lastSeq r s) fs"
proof (cases "ho_Presence h")
  case (Some lf)
  obtain a p where reg: "lf_Register lf (ho_SpaceID h) (actor_ID actor) (actor_Kind actor) (ss_presence s) = (a, p)" by fastforce
  then show ?thesis using Some send_close_adds [of "s\<lparr>ss_presence := p\<rparr>"] by (cases a) (auto simp: hello_accepted_def Let_def added_def)
qed (auto simp: hello_accepted_def Let_def added_def)

lemma hello_step_adds: "hello_step h ok lastSeq resolved s = Some s1 \<Longrightarrow> \<exists>fs. added s s1 fs"
proof -
  assume hello: "hello_step h ok lastSeq resolved s = Some s1"
  have refused: "\<exists>fs. added s (session_end h (send_close ok f status reason s)) fs" for f status reason
    using send_close_adds [of s ok f status reason] by (simp add: added_def)
  show ?thesis
  proof (cases "\<exists>actor. resolved = Inr (Some actor) \<and> actor_ID actor \<noteq> []")
    case False
    then show ?thesis using hello refused by (auto simp: hello_step_def Let_def split: sum.split_asm option.split_asm if_split_asm)
  next
    case True
    then obtain actor where actor: "resolved = Inr (Some actor)" "actor_ID actor \<noteq> []" by blast
    obtain a st where ev: "ho_Events h \<lparr>ri_ActorID = actor_ID actor, ri_LastSeq = lastSeq, ri_Limit = 0\<rparr> (ss_store s) = Some (a, st)"
      using hello actor by (auto simp: hello_step_def Let_def split: option.split_asm)
    show ?thesis
    proof (cases a)
      case (Inl e)
      then show ?thesis using hello actor ev send_close_adds [of "s\<lparr>ss_store := st\<rparr>"] by (auto simp: hello_step_def Let_def added_def)
    next
      case (Inr r)
      let ?f = "if rr_SyncRequired r then syncFrame r
        else ReadyFrame DefaultSpaceID (rr_CurrentSeq r) (rr_ReplayFrom r) (rr_ReplayCount r) (rr_HasMore r)"
      obtain b sx where sx: "send ok ?f (s\<lparr>ss_store := st\<rparr>) = (b, sx)" by fastforce
      obtain fs where fs: "added s sx fs" using send_adds [OF sx] by auto
      obtain b1 c where c: "writeEvents ok (rr_Events r) (ss_conn sx) = (b1, c)" by fastforce
      obtain fs1 where fs1: "cn_sent c = cn_sent (ss_conn sx) @ fs1" using writeEvents_adds [OF c] by blast
      have "ss_conn s1 = ss_conn sx \<or> ss_conn s1 = c \<or> s1 = hello_accepted h ok actor lastSeq r (sx\<lparr>ss_conn := c\<rparr>)"
        using hello actor ev Inr sx c by (cases "rr_SyncRequired r"; cases b; cases b1) (auto simp: hello_step_def Let_def)
      then show ?thesis
        using fs fs1 hello_accepted_adds [of "sx\<lparr>ss_conn := c\<rparr>" h ok actor lastSeq r] by (auto simp: added_def)
    qed
  qed
qed

lemma heartbeat_adds: "added s (heartbeat_step h pong s) []"
  by (auto simp: heartbeat_step_def Let_def added_def split: option.split prod.split)

lemma step_adds: "session_step h ok i s = Some s1 \<Longrightarrow> \<exists>fs. added s s1 fs"
proof -
  have catch_up: "\<exists>fs. added s s1 fs" if "catch_up_step h ok s = Some s1"
    using that deliverCatchUp_adds [of h ok s]
    by (auto simp: catch_up_step_def added_def split: option.split_asm if_split_asm bool.split_asm prod.split_asm)
  have invalid: "\<exists>fs. added s s1 fs" if "(case send ok f s of (True, s2) \<Rightarrow> Some s2 | (False, s2) \<Rightarrow> Some (session_end h s2)) = Some s1" for f
    using that send_adds [of ok f s] by (auto simp: added_def split: prod.split_asm bool.split_asm)
  have heartbeat: "\<exists>fs. added s (heartbeat_step h pong s) fs" for pong using heartbeat_adds by blast
  show "session_step h ok i s = Some s1 \<Longrightarrow> \<exists>fs. added s s1 fs"
    using catch_up invalid hello_step_adds heartbeat
    by (cases "(h, ok, i, s)" rule: session_step.cases) (auto simp: added_def)
qed

lemma run_adds: "session_run h ok is s = Some s1 \<Longrightarrow> \<exists>fs. added s s1 fs"
proof (induction "is" arbitrary: s)
  case Nil
  then show ?case by (auto intro: added_refl)
next
  case (Cons i "is")
  show ?case
  proof (cases "ss_open s")
    case True
    then obtain sx where "session_step h ok i s = Some sx" "session_run h ok is sx = Some s1" using Cons.prems by (auto split: option.split_asm)
    then show ?thesis using step_adds Cons.IH added_trans by blast
  next
    case False
    then show ?thesis using Cons.prems added_refl by auto
  qed
qed

section \<open>Delivery over a session\<close>

text \<open>The handler over the PostgreSQL repository of a world.\<close>

definition serves :: "('s, 'p) HandlerOptions \<Rightarrow> libs \<Rightarrow> nat \<Rightarrow> 's ServiceOptions \<Rightarrow> bool" where
  "serves h L fuel options \<longleftrightarrow> (\<forall>input st. ho_Events h input st = Replay L fuel (NewService options) input st)"

definition resync_free :: "frame list \<Rightarrow> bool" where
  "resync_free fs = list_all (\<lambda>f. case f of SyncRequiredFrame x n reason \<Rightarrow> reason = SyncReasonReplayLimit | _ \<Rightarrow> True) fs"

lemma resync_free_append [simp]: "resync_free (fs @ fs') \<longleftrightarrow> resync_free fs \<and> resync_free fs'"
  by (simp add: resync_free_def)

lemma accepted_hello:
  assumes "hello_step h ok lastSeq (Inr (Some actor)) s = Some s1" "ss_open s1" "ss_actorID s1 \<noteq> []"
  obtains r f where "ho_Events h \<lparr>ri_ActorID = actor_ID actor, ri_LastSeq = lastSeq, ri_Limit = 0\<rparr> (ss_store s) = Some (Inr r, ss_store s1)"
    "\<not> rr_SyncRequired r" "ss_actorID s1 = actor_ID actor" "ss_lastDeliveredSeq s1 = deliveredCursor lastSeq r"
    "added s s1 (f # map EventFrame (rr_Events r))" "events_of [f] = []"
proof -
  have id: "actor_ID actor \<noteq> []" using assms(1,2) by (auto simp: hello_step_def Let_def)
  obtain r st where ev: "ho_Events h \<lparr>ri_ActorID = actor_ID actor, ri_LastSeq = lastSeq, ri_Limit = 0\<rparr> (ss_store s) = Some (Inr r, st)"
    using assms(1,2) id by (auto simp: hello_step_def Let_def split: option.split_asm prod.split_asm sum.split_asm)
  have sync: "\<not> rr_SyncRequired r"
    using assms id ev by (auto simp: hello_step_def Let_def split: prod.split_asm bool.split_asm)
  let ?f = "ReadyFrame DefaultSpaceID (rr_CurrentSeq r) (rr_ReplayFrom r) (rr_ReplayCount r) (rr_HasMore r)"
  obtain sx c where sx: "send ok ?f (s\<lparr>ss_store := st\<rparr>) = (True, sx)" "writeEvents ok (rr_Events r) (ss_conn sx) = (True, c)"
    "s1 = hello_accepted h ok actor lastSeq r (sx\<lparr>ss_conn := c\<rparr>)"
    using assms(1,2) id ev sync by (auto simp: hello_step_def Let_def split: prod.split_asm bool.split_asm)
  have acc: "ss_conn s1 = c \<and> ss_store s1 = ss_store sx \<and> ss_actorID s1 = actor_ID actor \<and> ss_lastDeliveredSeq s1 = deliveredCursor lastSeq r"
    using assms(2) unfolding sx(3) hello_accepted_def by (auto simp: Let_def split: option.split_asm prod.split_asm sum.split_asm)
  show thesis
    using that [of r ?f] ev sync acc send_True [OF sx(1)] writeEvents_True [OF sx(2)] by (auto simp: added_def)
qed


text \<open>Over a history of commits, with the repository of the code.\<close>

lemma pg_service:
  assumes "world_ok w" "so_Repository options = pg_repo w proj"
  obtains hist where "world_of hist = w" "sv_repo (NewService options) = pg_repo (world_of hist) proj"
proof -
  obtain hist where "world_of hist = w" using History_inverse [of w] assms(1) by auto
  then show thesis using that assms(2) by simp
qed

lemma quiet_run_delivers:
  assumes repo: "sv_repo (NewService options) = pg_repo (world_of hist) proj" and serves: "serves h L fuel options"
    and "session_run h ok is s = Some s2" "list_all quiet is" "ss_open s" "ss_open s2" "ss_actorID s \<noteq> []"
    and "added s s2 fs" "resync_free fs" "0 \<le> a"
    and "pg.delivers (sv_space (NewService options)) hist L (NewService options) (TrimSpace (ss_actorID s)) st a (ss_store s) (ss_lastDeliveredSeq s) evs"
  shows "pg.delivers (sv_space (NewService options)) hist L (NewService options) (TrimSpace (ss_actorID s)) st a (ss_store s2) (ss_lastDeliveredSeq s2) (evs @ events_of fs)"
  using assms(3-)
proof (induction "is" arbitrary: s fs evs)
  case Nil
  then show ?case by (simp add: added_def)
next
  case (Cons i "is")
  then obtain s1 where step: "session_step h ok i s = Some s1" and run: "session_run h ok is s1 = Some s2"
    by (auto split: option.split_asm)
  have open1: "ss_open s1" using run Cons.prems(4) by (cases "is") (auto split: if_split_asm)
  have quiet: "quiet i" "list_all quiet is" using Cons.prems(2) by simp_all
  note D = Cons.prems(9)
  have cursor: "0 \<le> ss_lastDeliveredSeq s" using D Cons.prems(8) by (auto simp: pg.delivers_def)
  have goal: ?case if "added s s1 fs1" "ss_actorID s1 = ss_actorID s" "resync_free fs1 \<longrightarrow>
     pg.delivers (sv_space (NewService options)) hist L (NewService options) (TrimSpace (ss_actorID s)) st a (ss_store s1) (ss_lastDeliveredSeq s1) (evs @ events_of fs1)"
    for fs1
  proof -
    have "\<exists>fs2. added s1 s2 fs2" using run_adds [OF run] .
    then obtain fs2 where fs2: "added s1 s2 fs2" by blast
    then have fs: "fs = fs1 @ fs2" using that(1) Cons.prems(6) by (simp add: added_def)
    show ?thesis
      using Cons.IH [OF run quiet(2) open1 Cons.prems(4) _ fs2 _ Cons.prems(8), of "evs @ events_of fs1"] that Cons.prems(5,7) fs by simp
  qed
  from step quiet(1) open1 show ?case
  proof (cases rule: quiet_step_cases)
    case 1
    from 1 open1 Cons.prems(5) show ?thesis
    proof (cases rule: catch_up_cases)
      case (1 r)
      have "Replay L fuel (NewService options) \<lparr>ri_ActorID = ss_actorID s, ri_LastSeq = ss_lastDeliveredSeq s, ri_Limit = 0\<rparr> (ss_store s) = Some (Inr r, ss_store s1)"
        using 1(1) serves by (simp add: serves_def)
      then have "rr_Reason r \<noteq> SyncReasonReplayLimit" using 1(3) by (rule replay_sync_reason)
      then show ?thesis using goal [OF 1(4,2)] by (simp add: resync_free_def syncFrame_def)
    next
      case (2 r fs1)
      have "Replay L fuel (NewService options) \<lparr>ri_ActorID = ss_actorID s, ri_LastSeq = ss_lastDeliveredSeq s, ri_Limit = 0\<rparr> (ss_store s) = Some (Inr r, ss_store s1)"
        using 2(1) serves by (simp add: serves_def)
      from pg.delivers_replay [OF repo refl NewService_sizes(1,3,4) this 2(3)] cursor 2(4)
      have "pg.delivers (sv_space (NewService options)) hist L (NewService options) (TrimSpace (ss_actorID s)) (ss_store s) (ss_lastDeliveredSeq s) (ss_store s1) (ss_lastDeliveredSeq s1) (rr_Events r)"
        by simp
      moreover have "events_of fs1 = []" unfolding 2(6) by simp
      ultimately show ?thesis using goal [OF 2(5,2)] pg.delivers_join [OF D] by simp
    qed
  next
    case (2 fs1)
    then show ?thesis using goal [OF 2(1) 2(5)] D by simp
  qed
qed

text \<open>
  C1 (realtime/handler.go: ServeHTTP, deliverCatchUp; events/service.go: Replay). Over a whole
  session with the PostgreSQL repository, while other transactions commit: after an accepted
  hello with cursor \<open>lastSeq\<close>, as long as the session stays open and was not told to
  resynchronise, the event frames sent are exactly the log after \<open>lastSeq\<close> up to the session
  cursor, filtered by what the user may see: each visible event once, in order, and every
  other one judged invisible. Wake-ups, polls, heartbeats and bad frames may come in any order.
\<close>

theorem session_delivers:
  assumes "world_ok w" and "so_Repository options = pg_repo w proj" and "serves h L fuel options" and "0 \<le> lastSeq"
    and "hello_step h ok lastSeq (Inr (Some actor)) s = Some s1" and "ss_open s1" and "ss_actorID s1 \<noteq> []"
    and "session_run h ok is s1 = Some s2" and "list_all quiet is" and "ss_open s2" and "added s s2 fs" and "resync_free fs"
  shows "\<exists>outs. list_all2 (judged_for L (NewService options) (TrimSpace (actor_ID actor)) (\<lambda>k. ss_store s \<le> k \<and> k \<le> ss_store s2))
      (filter (\<lambda>row. lastSeq < er_Seq row \<and> er_Seq row \<le> ss_lastDeliveredSeq s2)
         (space_log (sv_space (NewService options)) (w_db w (ss_store s2)))) outs \<and>
    events_of fs = shown outs"
proof -
  obtain hist where hist: "world_of hist = w" "sv_repo (NewService options) = pg_repo (world_of hist) proj"
    using pg_service [OF assms(1,2)] .
  obtain r f where hello: "ho_Events h \<lparr>ri_ActorID = actor_ID actor, ri_LastSeq = lastSeq, ri_Limit = 0\<rparr> (ss_store s) = Some (Inr r, ss_store s1)"
    "\<not> rr_SyncRequired r" "ss_actorID s1 = actor_ID actor" "ss_lastDeliveredSeq s1 = deliveredCursor lastSeq r"
    "added s s1 (f # map EventFrame (rr_Events r))" "events_of [f] = []"
    using accepted_hello [OF assms(5-7)] .
  have "Replay L fuel (NewService options) \<lparr>ri_ActorID = actor_ID actor, ri_LastSeq = lastSeq, ri_Limit = 0\<rparr> (ss_store s) = Some (Inr r, ss_store s1)"
    using hello(1) assms(3) by (simp add: serves_def)
  from pg.delivers_replay [OF hist(2) refl NewService_sizes(1,3,4) this hello(2)] assms(4) hello(3,4)
  have D: "pg.delivers (sv_space (NewService options)) hist L (NewService options) (TrimSpace (ss_actorID s1)) (ss_store s) lastSeq (ss_store s1) (ss_lastDeliveredSeq s1) (rr_Events r)"
    by simp
  obtain fs2 where fs2: "added s1 s2 fs2" using run_adds [OF assms(8)] by blast
  then have fs: "fs = (f # map EventFrame (rr_Events r)) @ fs2" using hello(5) assms(11) by (simp add: added_def)
  then have evs: "events_of fs = rr_Events r @ events_of fs2" using hello(6) by (cases f) auto
  have "resync_free fs2" using assms(12) fs by (simp add: resync_free_def)
  from quiet_run_delivers [OF hist(2) assms(3,8,9,6,10,7) fs2 this assms(4) D, unfolded pg.delivers_def, unfolded hist(1) hello(3)]
  show ?thesis unfolding evs by blast
qed

text \<open>
  C15 (realtime/handler.go: the wake-up case). A wake-up delivers: when the session takes a wake-up
  and stays open without a demand to resynchronise, every event that was in the log at that
  moment and after the session cursor has been judged, and is sent when it is visible.
\<close>

theorem wakeup_delivers:
  assumes "world_ok w" and "so_Repository options = pg_repo w proj" and "serves h L fuel options"
    and "session_step h ok Wakeup s = Some s1" and "ss_open s1" and "ss_actorID s \<noteq> []" and "0 \<le> ss_lastDeliveredSeq s"
    and "added s s1 (map EventFrame evs)"
    and "row \<in> set (space_log (sv_space (NewService options)) (w_db w (ss_store s)))" and "ss_lastDeliveredSeq s < er_Seq row"
  shows "\<exists>out. judged_for L (NewService options) (TrimSpace (ss_actorID s)) (\<lambda>k. ss_store s \<le> k \<and> k \<le> ss_store s1) row out \<and>
    (\<forall>e. out = Some e \<longrightarrow> e \<in> set evs)"
proof -
  obtain hist where hist: "world_of hist = w" "sv_repo (NewService options) = pg_repo (world_of hist) proj"
    using pg_service [OF assms(1,2)] .
  have step: "catch_up_step h ok s = Some s1" using assms(4) by simp
  from step assms(5,6) show ?thesis
  proof (cases rule: catch_up_cases)
    case (1 r)
    then have "map EventFrame evs = [syncFrame r]" using assms(8) by (simp add: added_def)
    then show ?thesis by (cases evs) (auto simp: syncFrame_def)
  next
    case (2 r fs)
    have eq: "map EventFrame evs = map EventFrame (rr_Events r) @ fs" using 2(5) assms(8) by (simp add: added_def)
    have nomore: "\<not> rr_HasMore r"
    proof
      assume "rr_HasMore r"
      then have "SyncRequiredFrame DefaultSpaceID (rr_CurrentSeq r) SyncReasonReplayLimit \<in> set (map EventFrame evs)" using eq 2(6) by simp
      then show False by auto
    qed
    then have "events_of (map EventFrame evs) = events_of (map EventFrame (rr_Events r))" using eq 2(6) by simp
    then have evs: "evs = rr_Events r" by simp
    have run: "Replay L fuel (NewService options) \<lparr>ri_ActorID = ss_actorID s, ri_LastSeq = ss_lastDeliveredSeq s, ri_Limit = 0\<rparr> (ss_store s) = Some (Inr r, ss_store s1)"
      using 2(1) assms(3) by (simp add: serves_def)
    have row: "row \<in> set (space_log (sv_space (NewService options)) (w_db (world_of hist) (ss_store s)))" using assms(9) hist(1) by simp
    obtain actor out where "pg.admitted hist proj (sv_space (NewService options)) \<lparr>ri_ActorID = ss_actorID s, ri_LastSeq = ss_lastDeliveredSeq s, ri_Limit = 0\<rparr> actor (ss_store s)"
      "judged L (NewService options) actor (\<lambda>k. ss_store s \<le> k \<and> k \<le> ss_store s1) row out" "\<forall>e. out = Some e \<longrightarrow> e \<in> set (rr_Events r)"
      using pg.replay_complete [OF hist(2) refl NewService_sizes(3,4) run 2(3) nomore row] assms(7,10) by auto
    then show ?thesis unfolding evs judged_for_def pg.admitted_def by auto
  qed
qed


definition demo_handler :: "(nat, unit) HandlerOptions" where
  "demo_handler = NewHandler \<lparr>ho_Events = Replay demo_libs 3 (NewService demo_options), ho_Presence = None, ho_SpaceID = [],
     ho_MaxFrameBytes = 0, ho_PollInterval = 0, ho_HeartbeatInterval = 0, ho_IOTimeout = 0\<rparr>"

lemma demo_handler_fields [simp]:
  "ho_Events demo_handler = Replay demo_libs 3 (NewService demo_options)" "ho_Presence demo_handler = None"
  by (simp_all add: demo_handler_def NewHandler_def)

lemma demo_serves: "serves demo_handler demo_libs 3 demo_options"
  by (simp add: serves_def)

definition asked :: "int \<Rightarrow> ReplayInput" where
  "asked n = \<lparr>ri_ActorID = ''usr_owner'', ri_LastSeq = n, ri_Limit = 0\<rparr>"

definition demo_tail :: "int \<Rightarrow> nat \<Rightarrow> ReplayResult" where
  "demo_tail n k = projr (fst (the (Replay demo_libs 3 (NewService demo_options) (asked n) k)))"

lemma demo_asked:
  "Replay demo_libs 3 (NewService demo_options) (asked 0) 0 = Some (Inr (demo_tail 0 0), 6)"
  "Replay demo_libs 3 (NewService demo_options) (asked 2) 6 = Some (Inr (demo_tail 2 6), 10)"
  "Replay demo_libs 3 (NewService demo_options) (asked 1) 10 = Some (Inr (demo_tail 1 10), 15)"
  by code_simp+

lemma demo_tails [simp]:
  "\<not> rr_SyncRequired (demo_tail 0 0)" "\<not> rr_HasMore (demo_tail 0 0)" "deliveredCursor 0 (demo_tail 0 0) = 2"
  "\<not> rr_SyncRequired (demo_tail 2 6)" "\<not> rr_HasMore (demo_tail 2 6)" "deliveredCursor 2 (demo_tail 2 6) = 2" "rr_Events (demo_tail 2 6) = []"
  "\<not> rr_SyncRequired (demo_tail 1 10)" "\<not> rr_HasMore (demo_tail 1 10)" "deliveredCursor 1 (demo_tail 1 10) = 2"
  by code_simp+

lemma demo_seqs: "map ev_Seq (rr_Events (demo_tail 0 0)) = [1, 2]"
  by code_simp

lemma writeEvents_all [simp]:
  "writeEvents (\<lambda>_. True) es c = (True, c\<lparr>cn_sent := cn_sent c @ map EventFrame es, cn_attempts := cn_attempts c + length es\<rparr>)"
  by (induction es arbitrary: c) (auto simp: writer_write_def)

text \<open>A session that has delivered the whole log, and one that is an event behind.\<close>

definition demo_ready :: frame where
  "demo_ready = (case demo_tail 0 0 of r \<Rightarrow> ReadyFrame DefaultSpaceID (rr_CurrentSeq r) (rr_ReplayFrom r) (rr_ReplayCount r) (rr_HasMore r))"

definition demo_session :: "int \<Rightarrow> nat \<Rightarrow> (nat, unit) session" where
  "demo_session n k =
    \<lparr>ss_open = True, ss_actorID = ''usr_owner'', ss_lastDeliveredSeq = n, ss_activePresence = None,
     ss_conn = \<lparr>cn_sent = demo_ready # map EventFrame (rr_Events (demo_tail 0 0)), cn_attempts = Suc (length (rr_Events (demo_tail 0 0))), cn_closed = None\<rparr>,
     ss_store = k, ss_presence = (), ss_calls = []\<rparr>"

lemma demo_run:
  "hello_step demo_handler (\<lambda>_. True) 0 (Inr (Some owner)) (session_start 0 ()) = Some (demo_session 2 6)"
  "session_run demo_handler (\<lambda>_. True) [Wakeup, HeartbeatTick True] (demo_session 2 6) = Some (demo_session 2 10)"
  using demo_asked(1,2)
  by (simp_all add: asked_def hello_step_def hello_accepted_def session_start_def owner_def demo_session_def demo_ready_def Let_def
      send_def writer_write_def catch_up_step_def deliverCatchUp_def heartbeat_step_def)

lemma demo_frames:
  "added (session_start 0 ()) (demo_session 2 10) (cn_sent (ss_conn (demo_session 2 10)))"
  "resync_free (cn_sent (ss_conn (demo_session 2 10)))"
  "events_of (cn_sent (ss_conn (demo_session 2 10))) = rr_Events (demo_tail 0 0)"
  by (simp_all add: added_def session_start_def demo_session_def demo_ready_def resync_free_def list_all_iff)

theorem session_delivers_witness:
  "map ev_Seq (events_of (cn_sent (ss_conn (demo_session 2 10)))) = [1, 2] \<and>
   (\<exists>outs. length outs = 2 \<and> events_of (cn_sent (ss_conn (demo_session 2 10))) = shown outs)"
proof -
  obtain outs where outs: "list_all2 (judged_for demo_libs (NewService demo_options) (TrimSpace (actor_ID owner)) (\<lambda>k. ss_store (session_start 0 ()) \<le> k \<and> k \<le> ss_store (demo_session 2 10)))
      (filter (\<lambda>row. 0 < er_Seq row \<and> er_Seq row \<le> ss_lastDeliveredSeq (demo_session 2 10))
         (space_log (sv_space (NewService demo_options)) (w_db (still message_db) (ss_store (demo_session 2 10))))) outs"
    "events_of (cn_sent (ss_conn (demo_session 2 10))) = shown outs"
    using session_delivers [OF demo_world demo_serves order_refl demo_run(1) _ _ demo_run(2) _ _ demo_frames(1,2)]
    by (auto simp: demo_session_def)
  have "length (filter (\<lambda>row. 0 < er_Seq row \<and> er_Seq row \<le> 2) (space_log (sv_space (NewService demo_options)) message_db)) = 2"
    by code_simp
  then have "length outs = 2" using list_all2_lengthD [OF outs(1)] by (simp add: still_def demo_session_def)
  then show ?thesis using outs(2) demo_seqs demo_frames(3) by (intro conjI exI [of _ outs]) simp_all
qed

definition demo_caught_up :: "(nat, unit) session" where
  "demo_caught_up = the (session_step demo_handler (\<lambda>_. True) Wakeup (demo_session 1 10))"

lemma demo_wakeup:
  "session_step demo_handler (\<lambda>_. True) Wakeup (demo_session 1 10) = Some demo_caught_up" "ss_open demo_caught_up"
  "added (demo_session 1 10) demo_caught_up (map EventFrame (rr_Events (demo_tail 1 10)))"
  using demo_asked(3)
  by (simp_all add: asked_def demo_caught_up_def demo_session_def Let_def catch_up_step_def deliverCatchUp_def added_def)

theorem wakeup_delivers_witness:
  "\<exists>row out. row \<in> set (space_log ''spc_default'' message_db) \<and> er_Seq row = 2 \<and>
     judged_for demo_libs (NewService demo_options) ''usr_owner'' (\<lambda>k. ss_store (demo_session 1 10) \<le> k \<and> k \<le> ss_store demo_caught_up) row out"
proof -
  define row where "row = space_log ''spc_default'' message_db ! 1"
  have row: "row \<in> set (space_log (sv_space (NewService demo_options)) message_db)"
    "row \<in> set (space_log ''spc_default'' message_db)" "er_Seq row = 2" "TrimSpace ''usr_owner'' = ''usr_owner''"
    unfolding row_def by code_simp+
  have "ss_actorID (demo_session 1 10) \<noteq> []" "0 \<le> ss_lastDeliveredSeq (demo_session 1 10)"
    "row \<in> set (space_log (sv_space (NewService demo_options)) (w_db (still message_db) (ss_store (demo_session 1 10))))"
    "ss_lastDeliveredSeq (demo_session 1 10) < er_Seq row"
    using row(1,3) by (simp_all add: demo_session_def still_def)
  from wakeup_delivers [OF demo_world demo_serves demo_wakeup(1,2) this(1,2) demo_wakeup(3) this(3,4)]
  obtain out where "judged_for demo_libs (NewService demo_options) (TrimSpace (ss_actorID (demo_session 1 10)))
      (\<lambda>k. ss_store (demo_session 1 10) \<le> k \<and> k \<le> ss_store demo_caught_up) row out"
    by (elim exE conjE) (rule that)
  moreover have "TrimSpace (ss_actorID (demo_session 1 10)) = ''usr_owner''" using row(4) by (simp add: demo_session_def)
  ultimately show ?thesis using row(2,3) by (intro exI [of _ row] exI [of _ out]) simp
qed

section \<open>Presence over a session\<close>

definition registered :: "call list \<Rightarrow> Lease list" where
  "registered cs = List.map_filter (\<lambda>c. case c of Registered l \<Rightarrow> Some l | _ \<Rightarrow> None) cs"

definition deleted :: "call list \<Rightarrow> Lease list" where
  "deleted cs = List.map_filter (\<lambda>c. case c of Deleted l \<Rightarrow> Some l | _ \<Rightarrow> None) cs"

lemma calls_append [simp]:
  "registered (cs @ ds) = registered cs @ registered ds" "deleted (cs @ ds) = deleted cs @ deleted ds"
  "registered (Registered l # cs) = l # registered cs" "registered (Renewed l # cs) = registered cs" "registered (Deleted l # cs) = registered cs"
  "deleted (Registered l # cs) = deleted cs" "deleted (Renewed l # cs) = deleted cs" "deleted (Deleted l # cs) = l # deleted cs"
  "registered [] = []" "deleted [] = []"
  by (simp_all add: registered_def deleted_def List.map_filter_def)

text \<open>While the session is open its current lease is the only one not deleted; afterwards none is left.\<close>

definition balanced :: "('s, 'p) HandlerOptions \<Rightarrow> ('s, 'p) session \<Rightarrow> bool" where
  "balanced h s \<longleftrightarrow> registered (ss_calls s) = deleted (ss_calls s) @ (case ss_activePresence s of None \<Rightarrow> [] | Some l \<Rightarrow> [l]) \<and>
     (ho_Presence h = None \<longrightarrow> ss_activePresence s = None)"

definition settled :: "('s, 'p) session \<Rightarrow> bool" where
  "settled s \<longleftrightarrow> registered (ss_calls s) = deleted (ss_calls s)"

lemma session_end_settled: "balanced h s \<Longrightarrow> settled (session_end h s)"
  by (auto simp: balanced_def settled_def session_end_def deletePresence_def split: option.split)

lemma balanced_frame [simp]:
  "balanced h (s\<lparr>ss_conn := c\<rparr>) = balanced h s" "balanced h (s\<lparr>ss_store := st\<rparr>) = balanced h s" "balanced h (s\<lparr>ss_presence := p\<rparr>) = balanced h s"
  "balanced h (s\<lparr>ss_lastDeliveredSeq := n\<rparr>) = balanced h s" "balanced h (s\<lparr>ss_actorID := a\<rparr>) = balanced h s"
  "balanced h (s\<lparr>ss_open := b\<rparr>) = balanced h s"
  by (simp_all add: balanced_def)

lemma balanced_send: "balanced h s \<Longrightarrow> send ok f s = (b, s1) \<Longrightarrow> balanced h s1"
  by (auto simp: send_def split: prod.split_asm)

lemma balanced_send_close [simp]: "balanced h (send_close ok f status reason s) = balanced h s"
  by (simp add: send_close_def send_def Let_def split: prod.split)

lemma balanced_catch_up: "balanced h s \<Longrightarrow> deliverCatchUp h ok s = Some (b, s1) \<Longrightarrow> balanced h s1"
  by (auto simp: deliverCatchUp_def Let_def send_def split: option.split_asm prod.split_asm sum.split_asm if_split_asm bool.split_asm)

definition kept :: "('s, 'p) HandlerOptions \<Rightarrow> ('s, 'p) session \<Rightarrow> bool" where
  "kept h s \<longleftrightarrow> (if ss_open s then balanced h s else settled s)"

lemma kept_end: "balanced h s \<Longrightarrow> kept h (session_end h s)"
  by (simp add: kept_def session_end_settled)

lemma kept_open: "balanced h s \<Longrightarrow> ss_open s \<Longrightarrow> kept h s"
  by (simp add: kept_def)

lemma send_open: "send ok f s = (b, s1) \<Longrightarrow> ss_open s1 = ss_open s"
  by (auto simp: send_def split: prod.split_asm)

lemma deliverCatchUp_open: "deliverCatchUp h ok s = Some (True, s1) \<Longrightarrow> ss_open s1 = ss_open s"
  by (auto simp: deliverCatchUp_def Let_def dest!: send_open split: option.split_asm prod.split_asm sum.split_asm if_split_asm bool.split_asm)

lemma kept_catch_up: "catch_up_step h ok s = Some s1 \<Longrightarrow> balanced h s \<Longrightarrow> ss_open s \<Longrightarrow> kept h s1"
  by (auto simp: catch_up_step_def kept_open kept_end deliverCatchUp_open dest: balanced_catch_up
      split: if_split_asm option.split_asm prod.split_asm bool.split_asm)

lemma kept_hello_accepted:
  assumes "balanced h s" "ss_open s"
  shows "kept h (hello_accepted h ok actor lastSeq r s)"
proof (cases "ho_Presence h")
  case None
  then show ?thesis using assms by (simp add: hello_accepted_def kept_def)
next
  case (Some lf)
  obtain a p where reg: "lf_Register lf (ho_SpaceID h) (actor_ID actor) (actor_Kind actor) (ss_presence s) = (a, p)" by fastforce
  show ?thesis
  proof (cases a)
    case (Inl e)
    then show ?thesis using Some reg assms by (simp add: hello_accepted_def Let_def kept_end)
  next
    case (Inr lease)
    then show ?thesis
      using Some reg assms
      by (cases "ss_activePresence s") (simp_all add: hello_accepted_def Let_def kept_def deletePresence_def, simp_all add: balanced_def)
  qed
qed

lemma kept_hello:
  assumes "hello_step h ok lastSeq resolved s = Some s1" "balanced h s" "ss_open s"
  shows "kept h s1"
proof -
  have refused: "kept h (session_end h (send_close ok f status reason (s\<lparr>ss_store := st\<rparr>)))"
    "kept h (session_end h (send_close ok f status reason s))" for f status reason st
    using assms(2) by (simp_all add: kept_end)
  have sent: "balanced h sx \<and> ss_open sx" if "send ok f (s\<lparr>ss_store := st\<rparr>) = (b, sx)" for f st b sx
    using that assms(2,3) by (auto dest: send_open intro: balanced_send [of h "s\<lparr>ss_store := st\<rparr>"])
  show ?thesis
    using assms(1)
    by (auto simp: hello_step_def Let_def refused assms(2) dest!: sent intro!: kept_end kept_hello_accepted
        split: sum.split_asm option.split_asm if_split_asm prod.split_asm bool.split_asm) (auto simp: kept_def)
qed

lemma kept_heartbeat:
  assumes "balanced h s" "ss_open s"
  shows "kept h (heartbeat_step h pong s)"
proof -
  have renewed: "balanced h (s\<lparr>ss_presence := p, ss_calls := ss_calls s @ [Renewed l]\<rparr>)" for p l
    using assms(1) by (simp add: balanced_def)
  then show ?thesis
    using assms by (auto simp: heartbeat_step_def Let_def kept_open kept_end split: option.split prod.split)
qed

lemma kept_step:
  assumes "session_step h ok i s = Some s1" "balanced h s" "ss_open s"
  shows "kept h s1"
proof -
  have invalid: "kept h s2" if "(case send ok f s of (True, s2) \<Rightarrow> Some s2 | (False, s2) \<Rightarrow> Some (session_end h s2)) = Some s2" for f s2
    using that assms(2,3) by (auto intro: kept_open kept_end balanced_send dest: send_open split: prod.split_asm bool.split_asm)
  show ?thesis
    using assms invalid kept_catch_up kept_hello kept_heartbeat
    by (cases "(h, ok, i, s)" rule: session_step.cases) (auto intro: kept_end)
qed

text \<open>
  C16 (realtime/handler.go: ServeHTTP with its deferred clean-up). Whatever a session receives,
  whichever writes fail and however it ends, every presence lease it registered has been
  deleted by it once, in the order of registration, when it is over.
\<close>

theorem session_releases_presence:
  assumes "session_run h ok is (session_start st p) = Some s" and "\<not> ss_open s"
  shows "deleted (ss_calls s) = registered (ss_calls s)"
proof -
  have "kept h s1" if "session_run h ok js s0 = Some s1" "kept h s0" for js s0 s1
    using that
  proof (induction js arbitrary: s0)
    case (Cons i js)
    then show ?case by (auto simp: kept_def intro: Cons.IH dest: kept_step split: if_split_asm option.split_asm)
  qed simp
  moreover have "kept h (session_start st p)" by (simp add: kept_def session_start_def balanced_def)
  ultimately have "kept h s" using assms(1) by blast
  then show ?thesis using assms(2) by (simp add: kept_def settled_def)
qed

text \<open>A lifecycle whose registrations work, for a session of two hellos and a shutdown.\<close>

definition demo_lifecycle :: "nat Lifecycle" where
  "demo_lifecycle = \<lparr>lf_Register = (\<lambda>space user kind n. (Inr \<lparr>l_SpaceID = space, l_UserID = user, l_ConnectionID = replicate (Suc n) (CHR ''c''), l_LeaseUntil = 0\<rparr>, Suc n)),
     lf_Renew = (\<lambda>l n. (True, n)), lf_Delete = (\<lambda>l n. n)\<rparr>"

definition presence_handler :: "(nat, nat) HandlerOptions" where
  "presence_handler = NewHandler \<lparr>ho_Events = Replay demo_libs 3 (NewService demo_options), ho_Presence = Some demo_lifecycle, ho_SpaceID = [],
     ho_MaxFrameBytes = 0, ho_PollInterval = 0, ho_HeartbeatInterval = 0, ho_IOTimeout = 0\<rparr>"

definition hello_twice :: "input list" where
  "hello_twice = [Incoming (InHello 0) (Inr (Some owner)), HeartbeatTick True, Incoming (InHello 2) (Inr (Some owner)), RootDone]"

definition presence_session :: "(nat, nat) session" where
  "presence_session = the (session_run presence_handler (\<lambda>_. True) hello_twice (session_start 0 0))"

theorem session_releases_presence_witness:
  "length (registered (ss_calls presence_session)) = 2 \<and> deleted (ss_calls presence_session) = registered (ss_calls presence_session)"
proof -
  have run: "session_run presence_handler (\<lambda>_. True) hello_twice (session_start 0 0) = Some presence_session" "\<not> ss_open presence_session"
    "length (registered (ss_calls presence_session)) = 2"
    by code_simp+
  show ?thesis using session_releases_presence [OF run(1,2)] run(3) by simp
qed

end
