(* ===== verification/Workspace_Store.thy ===== *)
theory Workspace_Store
  imports Events_Repository
begin

text \<open>
  The tables behind authentication, invitations and membership, and the transactions that work
  on them. A transaction is a computation on a state that keeps two databases: the committed
  one and the one the transaction sees, with its own writes. Before each statement other
  transactions may commit, which changes both. An error ends the transaction and leaves the
  committed database; a transaction that commits leaves the one it sees. A failed commit is
  taken not to have been applied.
\<close>

section \<open>Tables\<close>

record account_row =
  ac_id :: string
  ac_github_id :: "string option"
  ac_github_login :: string
  ac_email :: "string option"
  ac_display_name :: string
  ac_nickname :: "string option"
  ac_avatar_url :: "string option"
  ac_github_avatar_url :: "string option"
  ac_avatar_storage_key :: "string option"
  ac_search_discoverable :: bool
  ac_recall_reason :: "string option"
  ac_kind :: string
  ac_created_at :: time
  ac_last_login_at :: "time option"

record member_row =
  mb_space_id :: string
  mb_user_id :: string
  mb_role :: string
  mb_joined_at :: time
  mb_removed_at :: "time option"

record session_row =
  se_id :: string
  se_token_hash :: string
  se_user_id :: string
  se_created_at :: time
  se_expires_at :: time
  se_revoked_at :: "time option"

record invite_row =
  iv_id :: string
  iv_space_id :: string
  iv_code_hash :: string
  iv_code_preview :: string
  iv_default_role :: string
  iv_created_by :: string
  iv_max_uses :: int
  iv_uses :: int
  iv_expires_at :: "time option"
  iv_revoked_at :: "time option"
  iv_created_at :: time

record audit_row =
  au_id :: string
  au_space_id :: string
  au_actor_user_id :: "string option"
  au_actor_github_login :: "string option"
  au_action :: string
  au_target_type :: string
  au_target_id :: "string option"
  au_result :: string
  au_reason :: "string option"
  au_ip_address :: "string option"
  au_user_agent :: "string option"
  au_request_id :: "string option"
  au_created_at :: time

record remark_row =
  rk_owner_user_id :: string
  rk_target_user_id :: string
  rk_remark :: string
  rk_updated_at :: time

text \<open>The tables of the mobile client: login flows, token families with their tokens, rate limits.\<close>

record flow_row =
  fl_id :: string
  fl_challenge :: string
  fl_redirect_uri :: string
  fl_client_state :: string
  fl_expires_at :: time
  fl_code_hash :: "string option"
  fl_user_id :: "string option"
  fl_consumed_at :: "time option"

record family_row =
  fm_id :: string
  fm_user_id :: string
  fm_expires_at :: time
  fm_revoked_at :: "time option"

record refresh_row =
  rf_token_hash :: string
  rf_family_id :: string
  rf_consumed_at :: "time option"

record access_row =
  ax_token_hash :: string
  ax_family_id :: string
  ax_expires_at :: time

record rate_row =
  rl_subject_hash :: string
  rl_window_start :: time
  rl_attempts :: int

text \<open>
  The tables of messages. A link of an attachment to a message and a message a user has hidden are
  pairs of ids; \<open>removed_at\<close> of a conversation member is read as set or not.
\<close>

record message_row =
  ms_id :: string
  ms_space_id :: string
  ms_conversation_id :: string
  ms_topic_id :: "string option"
  ms_author_id :: "string option"
  ms_author_kind :: string
  ms_kind :: string
  ms_client_message_id :: "string option"
  ms_content_json :: string
  ms_plain_text :: string
  ms_reply_to_message_id :: "string option"
  ms_created_at :: time
  ms_edited_at :: "time option"
  ms_deleted_at :: "time option"
  ms_recalled_at :: "time option"
  ms_recall_reason :: "string option"

record pin_row =
  pn_conversation_id :: string
  pn_message_id :: string
  pn_pinned_by_user_id :: string
  pn_created_at :: time

record pin_counter_row =
  pk_conversation_id :: string
  pk_user_id :: string
  pk_pin_count :: int

record reaction_row =
  rx_message_id :: string
  rx_user_id :: string
  rx_emote_key :: string
  rx_created_at :: time

text \<open>
  The whole database: the tables above in full, and \<open>ws_rest\<close> the tables of the event code. The
  users and memberships the event code reads are columns of the full tables, see \<open>as_db\<close>; the
  two corresponding fields of \<open>ws_rest\<close> are not used.
\<close>

record workspace =
  ws_users :: "account_row list"
  ws_members :: "member_row list"
  ws_sessions :: "session_row list"
  ws_invites :: "invite_row list"
  ws_audit :: "audit_row list"
  ws_remarks :: "remark_row list"
  ws_flows :: "flow_row list"
  ws_families :: "family_row list"
  ws_refresh :: "refresh_row list"
  ws_access :: "access_row list"
  ws_rates :: "rate_row list"
  ws_messages :: "message_row list"
  ws_pins :: "pin_row list"
  ws_pin_counters :: "pin_counter_row list"
  ws_message_attachments :: "(string \<times> string) list"
  ws_reactions :: "reaction_row list"
  ws_hidden :: "(string \<times> string) list"
  ws_rest :: db

definition as_db :: "workspace \<Rightarrow> db" where
  "as_db ws = (ws_rest ws)
    \<lparr>users := map (\<lambda>u. \<lparr>u_id = ac_id u, u_kind = ac_kind u\<rparr>) (ws_users ws),
     space_members := map (\<lambda>m. \<lparr>sm_space_id = mb_space_id m, sm_user_id = mb_user_id m, sm_role = mb_role m,
       sm_removed = (mb_removed_at m \<noteq> None)\<rparr>) (ws_members ws)\<rparr>"

text \<open>The active membership of a user, the row that every query of membership joins.\<close>

definition active_member :: "string \<Rightarrow> string \<Rightarrow> member_row \<Rightarrow> bool" where
  "active_member spaceID userID m \<longleftrightarrow> mb_space_id m = spaceID \<and> mb_user_id m = userID \<and> mb_removed_at m = None"

definition member_of :: "string \<Rightarrow> string \<Rightarrow> workspace \<Rightarrow> member_row option" where
  "member_of spaceID userID ws = List.find (active_member spaceID userID) (ws_members ws)"

definition account :: "string \<Rightarrow> workspace \<Rightarrow> account_row option" where
  "account userID ws = List.find (\<lambda>u. ac_id u = userID) (ws_users ws)"

definition active_owners :: "string \<Rightarrow> workspace \<Rightarrow> member_row list" where
  "active_owners spaceID ws = filter (\<lambda>m. mb_space_id m = spaceID \<and> mb_role m = ''owner'' \<and> mb_removed_at m = None) (ws_members ws)"

section \<open>Transactions\<close>

text \<open>
  What a transaction gets from outside, by the number of questions asked before: whether a
  statement fails, the answer of an id factory or of the random source, and what other transactions commit before the
  statement, \<open>te_locked\<close> once the transaction holds its advisory lock.
\<close>

record tx_env =
  te_fault :: "nat \<Rightarrow> string option"
  te_id :: "nat \<Rightarrow> (string, string) result"
  te_now :: time
  te_other :: "nat \<Rightarrow> workspace \<Rightarrow> workspace"
  te_locked :: "nat \<Rightarrow> workspace \<Rightarrow> workspace"

record txs =
  tx_n :: nat
  tx_locked :: bool
  tx_base :: workspace
  tx_view :: workspace

type_synonym 'a tx = "(txs, 'a) io"

definition others :: "tx_env \<Rightarrow> txs \<Rightarrow> txs" where
  "others e s =
    (let g = (if tx_locked s then te_locked e else te_other e) (tx_n s)
     in s\<lparr>tx_n := Suc (tx_n s), tx_base := g (tx_base s), tx_view := g (tx_view s)\<rparr>)"

definition tx_fail :: "go_error \<Rightarrow> 'a tx" where
  "tx_fail err s = (Inl err, s)"

text \<open>A statement; \<open>f\<close> may break a constraint of the tables.\<close>

definition tx_write :: "tx_env \<Rightarrow> (workspace \<Rightarrow> (string, 'a \<times> workspace) result) \<Rightarrow> 'a tx" where
  "tx_write e f s =
    (let s1 = others e s in
     case te_fault e (tx_n s) of
       Some cause \<Rightarrow> (Inl (Foreign cause), s1)
     | None \<Rightarrow> (case f (tx_view s1) of
           Inl cause \<Rightarrow> (Inl (Foreign cause), s1)
         | Inr (x, v) \<Rightarrow> (Inr x, s1\<lparr>tx_view := v\<rparr>)))"

definition tx_read :: "tx_env \<Rightarrow> (workspace \<Rightarrow> 'a) \<Rightarrow> 'a tx" where
  "tx_read e f = tx_write e (\<lambda>v. Inr (f v, v))"

definition tx_newid :: "tx_env \<Rightarrow> string tx" where
  "tx_newid e s =
    (case te_id e (tx_n s) of
       Inl cause \<Rightarrow> (Inl (Foreign cause), s\<lparr>tx_n := Suc (tx_n s)\<rparr>)
     | Inr i \<Rightarrow> (Inr i, s\<lparr>tx_n := Suc (tx_n s)\<rparr>))"

text \<open>\<open>pg_advisory_xact_lock\<close>: the statement waits for the other holders to end.\<close>

definition tx_lock :: "tx_env \<Rightarrow> unit tx" where
  "tx_lock e = io_bind (tx_read e (\<lambda>_. ())) (\<lambda>_ s. (Inr (), s\<lparr>tx_locked := True\<rparr>))"

text \<open>SELECT ... FOR UPDATE: the row is locked until the transaction ends.\<close>

definition tx_select_for_update :: "tx_env \<Rightarrow> (workspace \<Rightarrow> 'a) \<Rightarrow> 'a tx" where
  "tx_select_for_update e f = io_bind (tx_read e f) (\<lambda>x s. (Inr x, s\<lparr>tx_locked := True\<rparr>))"

definition err_text :: "go_error \<Rightarrow> string" where
  "err_text err = (case err of Domain e \<Rightarrow> err_Code e | Foreign t \<Rightarrow> t)"

text \<open>An error of \<open>m\<close> wrapped as an internal error of the operation.\<close>

definition tx_wrap :: "string \<Rightarrow> 'a tx \<Rightarrow> 'a tx" where
  "tx_wrap operation m s =
    (case m s of (Inl err, s1) \<Rightarrow> (Inl (Domain (internalError operation (err_text err))), s1) | (Inr x, s1) \<Rightarrow> (Inr x, s1))"

definition tx_require :: "bool \<Rightarrow> go_error \<Rightarrow> unit tx" where
  "tx_require b err = (if b then io_return () else tx_fail err)"

text \<open>An error of \<open>m\<close> handled by \<open>h\<close>.\<close>

definition tx_catch :: "'a tx \<Rightarrow> (go_error \<Rightarrow> 'a tx) \<Rightarrow> 'a tx" where
  "tx_catch m h s = (case m s of (Inl err, s1) \<Rightarrow> h err s1 | (Inr x, s1) \<Rightarrow> (Inr x, s1))"

text \<open>
  The transaction boundary of the repositories: begin, the callback, then commit or roll back.
  A statement on the pool is a transaction of its own.
\<close>

definition tx_start :: "workspace \<Rightarrow> txs" where
  "tx_start ws = \<lparr>tx_n = 0, tx_locked = False, tx_base = ws, tx_view = ws\<rparr>"

definition tx_guard :: "tx_env \<Rightarrow> string \<Rightarrow> unit tx" where
  "tx_guard e operation = tx_wrap operation (tx_read e (\<lambda>_. ()))"

definition Autocommit :: "'a tx \<Rightarrow> workspace \<Rightarrow> (go_error, 'a) result \<times> workspace" where
  "Autocommit m ws = (case m (tx_start ws) of (Inl err, s) \<Rightarrow> (Inl err, tx_base s) | (Inr x, s) \<Rightarrow> (Inr x, tx_view s))"

definition WithTx :: "string \<Rightarrow> string \<Rightarrow> tx_env \<Rightarrow> 'a tx \<Rightarrow> workspace \<Rightarrow> (go_error, 'a) result \<times> workspace" where
  "WithTx begin_op commit_op e body ws =
    Autocommit (io_bind (tx_guard e begin_op) (\<lambda>_. io_bind body (\<lambda>x. io_bind (tx_guard e commit_op) (\<lambda>_. io_return x)))) ws"

lemma run_ok: "is_ok (fst r) \<Longrightarrow> \<exists>x ws. r = (Inr x, ws) \<and> ws = snd r"
  by (cases r; cases "fst r") auto

lemma run_error: "\<not> is_ok (fst r) \<Longrightarrow> \<exists>err ws. r = (Inl err, ws) \<and> ws = snd r"
  by (cases r; cases "fst r") auto

section \<open>Statements\<close>

definition duplicate_key :: string where
  "duplicate_key = ''duplicate key value violates unique constraint''"

text \<open>An INSERT under the given unique columns.\<close>

definition insert_unique :: "('r \<Rightarrow> 'k) \<Rightarrow> 'r \<Rightarrow> 'r list \<Rightarrow> (string, 'r list) result" where
  "insert_unique key r rows = (if key r \<in> key ` set rows then Inl duplicate_key else Inr (rows @ [r]))"

definition insert_audit :: "audit_row \<Rightarrow> workspace \<Rightarrow> (string, unit \<times> workspace) result" where
  "insert_audit r ws = result_bind (insert_unique au_id r (ws_audit ws)) (\<lambda>rs. Inr ((), ws\<lparr>ws_audit := rs\<rparr>))"

text \<open>An UPDATE of the rows that satisfy \<open>p\<close>.\<close>

definition update_where :: "('r \<Rightarrow> bool) \<Rightarrow> ('r \<Rightarrow> 'r) \<Rightarrow> 'r list \<Rightarrow> 'r list" where
  "update_where p f rows = map (\<lambda>r. if p r then f r else r) rows"

text \<open>\<open>SELECT\<close> of at most one row.\<close>

definition first_row :: "'r list \<Rightarrow> 'r option" where
  "first_row rows = (case rows of [] \<Rightarrow> None | r # _ \<Rightarrow> Some r)"

lemma insert_unique_Inr [simp]: "insert_unique key r rows = Inr rs \<longleftrightarrow> key r \<notin> key ` set rows \<and> rs = rows @ [r]"
  by (auto simp: insert_unique_def)

lemma first_row_Some: "first_row rows = Some r \<longleftrightarrow> (\<exists>rs. rows = r # rs)"
  by (cases rows) (simp_all add: first_row_def)

lemma first_row_in: "first_row rows = Some r \<Longrightarrow> r \<in> set rows"
  by (cases rows) (simp_all add: first_row_def)

lemma first_row_filter: "first_row (filter p rows) = Some r \<Longrightarrow> r \<in> set rows \<and> p r"
  by (drule first_row_in) simp

lemma first_row_None [simp]: "first_row rows = None \<longleftrightarrow> rows = []"
  by (cases rows) (simp_all add: first_row_def)

lemma first_row_Cons [simp]: "first_row (r # rs) = Some r"
  by (simp add: first_row_def)

section \<open>What a transaction can do\<close>

definition moves :: "(workspace \<Rightarrow> workspace \<Rightarrow> bool) \<Rightarrow> 'a tx \<Rightarrow> bool" where
  "moves R m \<longleftrightarrow> (\<forall>s. R (tx_view s) (tx_view (snd (m s))) \<and> R (tx_base s) (tx_base (snd (m s))))"

definition legal :: "(workspace \<Rightarrow> workspace \<Rightarrow> bool) \<Rightarrow> tx_env \<Rightarrow> bool" where
  "legal R e \<longleftrightarrow> (\<forall>n ws. R ws (te_other e n ws) \<and> R ws (te_locked e n ws))"

lemma movesD: "moves R m \<Longrightarrow> R (tx_view s) (tx_view (snd (m s))) \<and> R (tx_base s) (tx_base (snd (m s)))"
  by (simp add: moves_def)

lemma tx_start_simps [simp]: "tx_view (tx_start ws) = ws" "tx_base (tx_start ws) = ws" "tx_n (tx_start ws) = 0" "\<not> tx_locked (tx_start ws)"
  by (simp_all add: tx_start_def)

text \<open>
  A relation between databases that holds over a sequence of changes when it holds over each.
  The rules follow the structure of a transaction.
\<close>

locale effect =
  fixes R :: "workspace \<Rightarrow> workspace \<Rightarrow> bool"
  assumes refl: "R ws ws"
    and trans: "R a b \<Longrightarrow> R b c \<Longrightarrow> R a c"
begin

lemma moves_return: "moves R (io_return x)"
  by (simp add: moves_def io_return_def refl)

lemma moves_fail: "moves R (tx_fail err)"
  by (simp add: moves_def tx_fail_def refl)

lemma moves_bind:
  assumes "moves R m" "\<And>x. moves R (f x)"
  shows "moves R (io_bind m f)"
  unfolding moves_def
proof
  fix s
  obtain r s1 where m: "m s = (r, s1)" by fastforce
  have "R (tx_view s) (tx_view s1) \<and> R (tx_base s) (tx_base s1)" using assms(1) m unfolding moves_def by (auto dest!: spec [of _ s])
  moreover have "R (tx_view s1) (tx_view (snd (f x s1))) \<and> R (tx_base s1) (tx_base (snd (f x s1)))" for x
    using assms(2) by (simp add: moves_def)
  ultimately show "R (tx_view s) (tx_view (snd (io_bind m f s))) \<and> R (tx_base s) (tx_base (snd (io_bind m f s)))"
    using trans by (cases r) (auto simp: io_bind_def m)
qed

lemma moves_wrap: "moves R m \<Longrightarrow> moves R (tx_wrap operation m)"
  by (simp add: moves_def tx_wrap_def split: prod.split sum.split) (metis snd_conv)

lemma moves_catch:
  assumes "moves R m" "\<And>err. moves R (h err)"
  shows "moves R (tx_catch m h)"
  unfolding moves_def
proof
  fix s
  obtain r s1 where m: "m s = (r, s1)" by fastforce
  have "R (tx_view s) (tx_view s1) \<and> R (tx_base s) (tx_base s1)" using movesD [OF assms(1), of s] m by simp
  moreover have "R (tx_view s1) (tx_view (snd (h err s1))) \<and> R (tx_base s1) (tx_base (snd (h err s1)))" for err
    using movesD [OF assms(2)] .
  ultimately show "R (tx_view s) (tx_view (snd (tx_catch m h s))) \<and> R (tx_base s) (tx_base (snd (tx_catch m h s)))"
    using trans by (cases r) (auto simp: tx_catch_def m)
qed

lemma moves_others: "legal R e \<Longrightarrow> R (tx_view s) (tx_view (others e s)) \<and> R (tx_base s) (tx_base (others e s))"
  by (simp add: legal_def others_def Let_def)

lemma moves_write:
  assumes "legal R e" "\<And>v x v'. f v = Inr (x, v') \<Longrightarrow> R v v'"
  shows "moves R (tx_write e f)"
  unfolding moves_def
proof
  fix s
  show "R (tx_view s) (tx_view (snd (tx_write e f s))) \<and> R (tx_base s) (tx_base (snd (tx_write e f s)))"
    using moves_others [OF assms(1), of s] assms(2) [of "tx_view (others e s)"] trans
    by (auto simp: tx_write_def Let_def split: option.split sum.split)
qed

lemma moves_read: "legal R e \<Longrightarrow> moves R (tx_read e f)"
  unfolding tx_read_def by (rule moves_write) (auto intro: refl)

lemma moves_newid: "moves R (tx_newid e)"
  by (simp add: moves_def tx_newid_def refl split: sum.split)

lemma moves_lock: "legal R e \<Longrightarrow> moves R (tx_lock e)"
  unfolding tx_lock_def by (rule moves_bind, erule moves_read) (simp add: moves_def refl)

lemma moves_select: "legal R e \<Longrightarrow> moves R (tx_select_for_update e f)"
  unfolding tx_select_for_update_def by (rule moves_bind, erule moves_read) (simp add: moves_def refl)

lemma moves_require: "moves R (tx_require b err)"
  by (simp add: tx_require_def moves_return moves_fail)

lemma moves_if: "(b \<Longrightarrow> moves R m1) \<Longrightarrow> (\<not> b \<Longrightarrow> moves R m2) \<Longrightarrow> moves R (if b then m1 else m2)"
  by simp

lemma moves_option: "moves R m \<Longrightarrow> (\<And>y. x = Some y \<Longrightarrow> moves R (f y)) \<Longrightarrow> moves R (case x of None \<Rightarrow> m | Some y \<Rightarrow> f y)"
  by (cases x) auto

lemma moves_sum: "(\<And>y. x = Inl y \<Longrightarrow> moves R (f y)) \<Longrightarrow> (\<And>y. x = Inr y \<Longrightarrow> moves R (g y)) \<Longrightarrow> moves R (case x of Inl y \<Rightarrow> f y | Inr y \<Rightarrow> g y)"
  by (cases x) auto

lemma moves_prod: "(\<And>a b. x = (a, b) \<Longrightarrow> moves R (f a b)) \<Longrightarrow> moves R (case x of (a, b) \<Rightarrow> f a b)"
  by (cases x) auto

lemma moves_let: "(\<And>y. moves R (f y)) \<Longrightarrow> moves R (let y = x in f y)"
  by simp

lemmas moves_rules = moves_return moves_fail moves_bind moves_wrap moves_catch moves_read moves_newid moves_lock moves_select moves_require
  moves_if moves_option moves_sum moves_prod moves_let

lemma moves_guard: "legal R e \<Longrightarrow> moves R (tx_guard e operation)"
  unfolding tx_guard_def by (intro moves_wrap moves_read)

lemma moves_Autocommit: "moves R m \<Longrightarrow> R ws (snd (Autocommit m ws))"
  using movesD [of R m "tx_start ws"] by (auto simp: Autocommit_def split: prod.split sum.split)

lemma moves_WithTx: "legal R e \<Longrightarrow> moves R body \<Longrightarrow> R ws (snd (WithTx begin_op commit_op e body ws))"
  unfolding WithTx_def by (intro moves_Autocommit moves_bind moves_guard moves_return)

end

section \<open>Runs without interference\<close>

definition quiet :: "tx_env \<Rightarrow> bool" where
  "quiet e \<longleftrightarrow> (\<forall>n ws. te_other e n ws = ws \<and> te_locked e n ws = ws)"

lemma quietD [simp]: "quiet e \<Longrightarrow> te_other e n ws = ws" "quiet e \<Longrightarrow> te_locked e n ws = ws"
  by (simp_all add: quiet_def)

text \<open>What a step that succeeded did, read from the database it sees.\<close>

named_theorems tx_ok

lemma io_bind_ok [tx_ok]: "io_bind m f s = (Inr y, s2) \<longleftrightarrow> (\<exists>x s1. m s = (Inr x, s1) \<and> f x s1 = (Inr y, s2))"
  by (auto simp: io_bind_def split: prod.splits sum.splits)

lemma io_return_ok [tx_ok]: "io_return x s = (Inr y, s2) \<longleftrightarrow> y = x \<and> s2 = s"
  by (auto simp: io_return_def)

lemma tx_fail_ok [tx_ok]: "tx_fail err s = (Inr y, s2) \<longleftrightarrow> False"
  by (simp add: tx_fail_def)

lemma tx_wrap_ok [tx_ok]: "tx_wrap operation m s = (Inr y, s2) \<longleftrightarrow> m s = (Inr y, s2)"
  by (auto simp: tx_wrap_def split: prod.splits sum.splits)

lemma tx_require_ok [tx_ok]: "tx_require b err s = (Inr y, s2) \<longleftrightarrow> b \<and> s2 = s"
  by (auto simp: tx_require_def tx_fail_def io_return_def)

lemma tx_write_view:
  assumes "quiet e" "tx_write e f s = (Inr x, s1)"
  shows "f (tx_view s) = Inr (x, tx_view s1)"
  using assms by (auto simp: tx_write_def others_def Let_def split: option.splits sum.splits if_splits)

lemma tx_read_view:
  assumes "quiet e" "tx_read e f s = (Inr x, s1)"
  shows "x = f (tx_view s) \<and> tx_view s1 = tx_view s"
  using tx_write_view [OF assms(1) assms(2) [unfolded tx_read_def]] by auto

lemma tx_newid_view: "tx_newid e s = (Inr x, s1) \<Longrightarrow> tx_view s1 = tx_view s"
  by (auto simp: tx_newid_def split: sum.splits)

lemma tx_lock_view: "quiet e \<Longrightarrow> tx_lock e s = (Inr x, s1) \<Longrightarrow> tx_view s1 = tx_view s"
  by (auto simp: tx_lock_def tx_ok dest: tx_read_view)

lemma tx_guard_view: "quiet e \<Longrightarrow> tx_guard e operation s = (Inr x, s1) \<Longrightarrow> tx_view s1 = tx_view s"
  by (auto simp: tx_guard_def tx_ok dest: tx_read_view)

text \<open>A transaction that fails leaves the committed database.\<close>

definition base_kept :: "'a tx \<Rightarrow> bool" where
  "base_kept m \<longleftrightarrow> (\<forall>s. tx_base (snd (m s)) = tx_base s)"

lemma base_kept_bind: "base_kept m \<Longrightarrow> (\<And>x. base_kept (f x)) \<Longrightarrow> base_kept (io_bind m f)"
  unfolding base_kept_def io_bind_def
  by (intro allI, rename_tac s, case_tac "m s") (auto split: sum.split dest: spec, metis snd_conv, metis snd_conv)

lemma base_kept_basic:
  "base_kept (io_return x)" "base_kept (tx_fail err)" "base_kept (tx_newid e)" "base_kept (tx_require b err)"
  by (simp_all add: base_kept_def io_return_def tx_fail_def tx_newid_def tx_require_def split: sum.split)

lemma base_kept_wrap: "base_kept m \<Longrightarrow> base_kept (tx_wrap operation m)"
  unfolding base_kept_def tx_wrap_def by (intro allI, rename_tac s, case_tac "m s") (auto split: sum.split dest: spec, metis snd_conv, metis snd_conv)

lemma base_kept_write: "quiet e \<Longrightarrow> base_kept (tx_write e f)"
  by (simp add: base_kept_def tx_write_def others_def Let_def split: option.split sum.split)

lemma base_kept_read: "quiet e \<Longrightarrow> base_kept (tx_read e f)"
  by (simp add: tx_read_def base_kept_write)

lemma base_kept_guard: "quiet e \<Longrightarrow> base_kept (tx_guard e operation)"
  by (simp add: tx_guard_def base_kept_wrap base_kept_read)

lemma base_kept_lock: "quiet e \<Longrightarrow> base_kept (tx_lock e)"
  unfolding tx_lock_def by (rule base_kept_bind, erule base_kept_read) (simp add: base_kept_def)

lemma base_kept_cases:
  "(b \<Longrightarrow> base_kept m1) \<Longrightarrow> (\<not> b \<Longrightarrow> base_kept m2) \<Longrightarrow> base_kept (if b then m1 else m2)"
  "base_kept m \<Longrightarrow> (\<And>y. x = Some y \<Longrightarrow> base_kept (g y)) \<Longrightarrow> base_kept (case x of None \<Rightarrow> m | Some y \<Rightarrow> g y)"
  "(\<And>y. z = Inl y \<Longrightarrow> base_kept (h1 y)) \<Longrightarrow> (\<And>y. z = Inr y \<Longrightarrow> base_kept (h2 y)) \<Longrightarrow> base_kept (case z of Inl y \<Rightarrow> h1 y | Inr y \<Rightarrow> h2 y)"
  "(\<And>a b. p = (a, b) \<Longrightarrow> base_kept (k a b)) \<Longrightarrow> base_kept (case p of (a, b) \<Rightarrow> k a b)"
  "(\<And>y. base_kept (l y)) \<Longrightarrow> base_kept (let y = w in l y)"
  by (auto split: option.split sum.split prod.split)

lemmas base_kept_rules = base_kept_basic base_kept_bind base_kept_wrap base_kept_write base_kept_read base_kept_guard base_kept_lock base_kept_cases

lemma Autocommit_error:
  assumes "base_kept m" "Autocommit m ws = (Inl err, ws')"
  shows "ws' = ws"
proof -
  have "tx_base (snd (m (tx_start ws))) = ws" using assms(1) by (simp add: base_kept_def)
  then show ?thesis using assms(2) by (auto simp: Autocommit_def split: prod.splits sum.splits)
qed

lemma Autocommit_ok:
  "Autocommit m ws = (Inr x, ws') \<longleftrightarrow> (\<exists>s. m (tx_start ws) = (Inr x, s) \<and> ws' = tx_view s)"
  by (auto simp: Autocommit_def split: prod.splits sum.splits)

section \<open>Steps under interference\<close>

lemma tx_write_seen:
  assumes "tx_write e f s = (Inr x, s1)"
  shows "f (tx_view (others e s)) = Inr (x, tx_view s1) \<and> tx_locked s1 = tx_locked s"
  using assms by (auto simp: tx_write_def others_def Let_def split: option.splits sum.splits)

lemma tx_read_seen:
  assumes "tx_read e f s = (Inr x, s1)"
  shows "x = f (tx_view s1) \<and> tx_view s1 = tx_view (others e s) \<and> tx_locked s1 = tx_locked s"
  using tx_write_seen [OF assms [unfolded tx_read_def]] by auto

lemma tx_select_seen:
  assumes "tx_select_for_update e f s = (Inr x, s1)"
  shows "x = f (tx_view s1) \<and> tx_view s1 = tx_view (others e s) \<and> tx_locked s1"
  using assms by (auto simp: tx_select_for_update_def io_bind_def dest!: tx_read_seen split: prod.splits sum.splits)

lemma tx_newid_seen: "tx_newid e s = (Inr x, s1) \<Longrightarrow> tx_view s1 = tx_view s \<and> tx_locked s1 = tx_locked s"
  by (auto simp: tx_newid_def split: sum.splits)

text \<open>While a row is locked no other transaction changes the rows that \<open>p\<close> selects of a table.\<close>

definition locks :: "(workspace \<Rightarrow> 'r list) \<Rightarrow> ('r \<Rightarrow> bool) \<Rightarrow> tx_env \<Rightarrow> bool" where
  "locks table p e \<longleftrightarrow> (\<forall>n v. filter p (table (te_locked e n v)) = filter p (table v))"

lemma locked_rows:
  assumes "locks table p e" "tx_locked s"
  shows "filter p (table (tx_view (others e s))) = filter p (table (tx_view s))"
  using assms by (simp add: locks_def others_def Let_def)

section \<open>Assertions\<close>

text \<open>
  A transaction started where \<open>P\<close> holds ends where \<open>Q\<close> holds of its value, or fails where \<open>E\<close> holds.
  The rules follow the structure of a transaction.
\<close>

definition valid :: "(txs \<Rightarrow> bool) \<Rightarrow> (txs \<Rightarrow> bool) \<Rightarrow> 'a tx \<Rightarrow> ('a \<Rightarrow> txs \<Rightarrow> bool) \<Rightarrow> bool" where
  "valid E P m Q \<longleftrightarrow> (\<forall>s. P s \<longrightarrow> (case m s of (Inl _, s1) \<Rightarrow> E s1 | (Inr x, s1) \<Rightarrow> Q x s1))"

lemma valid_return: "(\<And>s. P s \<Longrightarrow> Q x s) \<Longrightarrow> valid E P (io_return x) Q"
  by (simp add: valid_def io_return_def)

lemma valid_fail: "(\<And>s. P s \<Longrightarrow> E s) \<Longrightarrow> valid E P (tx_fail err) Q"
  by (simp add: valid_def tx_fail_def)

lemma valid_bind:
  assumes "valid E P m Q" "\<And>x. valid E (Q x) (f x) R"
  shows "valid E P (io_bind m f) R"
  unfolding valid_def
proof (intro allI impI)
  fix s assume P: "P s"
  obtain r s1 where m: "m s = (r, s1)" by fastforce
  have 1: "case (r, s1) of (Inl _, s1) \<Rightarrow> E s1 | (Inr x, s1) \<Rightarrow> Q x s1" using assms(1) P m unfolding valid_def by metis
  show "case io_bind m f s of (Inl _, s1) \<Rightarrow> E s1 | (Inr x, s1) \<Rightarrow> R x s1"
  proof (cases r)
    case (Inl e)
    then show ?thesis using 1 by (simp add: io_bind_def m)
  next
    case (Inr x)
    then show ?thesis using 1 assms(2) [of x] by (simp add: io_bind_def m valid_def)
  qed
qed

lemma valid_wrap: "valid E P m Q \<Longrightarrow> valid E P (tx_wrap operation m) Q"
  unfolding valid_def tx_wrap_def
  by (intro allI impI, rename_tac s, drule_tac x = s in spec) (simp split: prod.splits sum.splits)

lemma valid_write:
  assumes "\<And>s. P s \<Longrightarrow> E (others e s)"
    and "\<And>s x v. P s \<Longrightarrow> f (tx_view (others e s)) = Inr (x, v) \<Longrightarrow> Q x ((others e s)\<lparr>tx_view := v\<rparr>)"
  shows "valid E P (tx_write e f) Q"
  unfolding valid_def
proof (intro allI impI)
  fix s assume "P s"
  then show "case tx_write e f s of (Inl _, s1) \<Rightarrow> E s1 | (Inr x, s1) \<Rightarrow> Q x s1"
    using assms by (simp add: tx_write_def Let_def split: option.split sum.split prod.split)
qed

lemma valid_read:
  assumes "\<And>s. P s \<Longrightarrow> E (others e s)" "\<And>s. P s \<Longrightarrow> Q (f (tx_view (others e s))) (others e s)"
  shows "valid E P (tx_read e f) Q"
proof -
  have same: "(others e s)\<lparr>tx_view := tx_view (others e s)\<rparr> = others e s" for s by simp
  show ?thesis unfolding tx_read_def
  proof (rule valid_write)
    fix s x v assume "P s" "Inr (f (tx_view (others e s)), tx_view (others e s)) = (Inr (x, v) :: (string, _) result)"
    then show "Q x ((others e s)\<lparr>tx_view := v\<rparr>)" using assms(2) [of s] same [of s] by auto
  qed (rule assms(1))
qed

lemma valid_newid:
  assumes "\<And>s. P s \<Longrightarrow> E (s\<lparr>tx_n := Suc (tx_n s)\<rparr>)" "\<And>s x. P s \<Longrightarrow> Q x (s\<lparr>tx_n := Suc (tx_n s)\<rparr>)"
  shows "valid E P (tx_newid e) Q"
  using assms by (simp add: valid_def tx_newid_def split: sum.split)

lemma valid_cases:
  "(b \<Longrightarrow> valid E P m1 Q) \<Longrightarrow> (\<not> b \<Longrightarrow> valid E P m2 Q) \<Longrightarrow> valid E P (if b then m1 else m2) Q"
  "(x = None \<Longrightarrow> valid E P m Q) \<Longrightarrow> (\<And>y. x = Some y \<Longrightarrow> valid E P (g y) Q) \<Longrightarrow> valid E P (case x of None \<Rightarrow> m | Some y \<Rightarrow> g y) Q"
  "(\<And>y. z = Inl y \<Longrightarrow> valid E P (h1 y) Q) \<Longrightarrow> (\<And>y. z = Inr y \<Longrightarrow> valid E P (h2 y) Q) \<Longrightarrow> valid E P (case z of Inl y \<Rightarrow> h1 y | Inr y \<Rightarrow> h2 y) Q"
  by (auto split: option.split sum.split)

lemma valid_strengthen: "valid E P m Q \<Longrightarrow> (\<And>s. P' s \<Longrightarrow> P s) \<Longrightarrow> (\<And>x s. Q x s \<Longrightarrow> Q' x s) \<Longrightarrow> valid E P' m Q'"
  by (fastforce simp: valid_def split: prod.splits sum.splits)

lemma valid_Autocommit:
  assumes "valid (\<lambda>s. I (tx_base s)) P m (\<lambda>_ s. I (tx_view s))" "P (tx_start ws)"
  shows "I (snd (Autocommit m ws))"
proof -
  have "case m (tx_start ws) of (Inl _, s1) \<Rightarrow> I (tx_base s1) | (Inr x, s1) \<Rightarrow> I (tx_view s1)" using assms by (simp add: valid_def)
  then show ?thesis by (auto simp: Autocommit_def split: prod.splits sum.splits)
qed

end
