(* ===== verification/Go_Sha256.thy ===== *)
theory Go_Sha256
  imports Go_Crypto
begin

unbundle bit_operations_syntax

text \<open>
  Packages \<open>crypto/sha256\<close> and \<open>encoding/hex\<close>, as far as the program uses them, on strings as
  byte sequences.
\<close>

definition sha256_k :: "32 word list" where
  "sha256_k =
    [
     0x428A2F98, 0x71374491, 0xB5C0FBCF, 0xE9B5DBA5, 0x3956C25B, 0x59F111F1, 0x923F82A4, 0xAB1C5ED5,
     0xD807AA98, 0x12835B01, 0x243185BE, 0x550C7DC3, 0x72BE5D74, 0x80DEB1FE, 0x9BDC06A7, 0xC19BF174,
     0xE49B69C1, 0xEFBE4786, 0x0FC19DC6, 0x240CA1CC, 0x2DE92C6F, 0x4A7484AA, 0x5CB0A9DC, 0x76F988DA,
     0x983E5152, 0xA831C66D, 0xB00327C8, 0xBF597FC7, 0xC6E00BF3, 0xD5A79147, 0x06CA6351, 0x14292967,
     0x27B70A85, 0x2E1B2138, 0x4D2C6DFC, 0x53380D13, 0x650A7354, 0x766A0ABB, 0x81C2C92E, 0x92722C85,
     0xA2BFE8A1, 0xA81A664B, 0xC24B8B70, 0xC76C51A3, 0xD192E819, 0xD6990624, 0xF40E3585, 0x106AA070,
     0x19A4C116, 0x1E376C08, 0x2748774C, 0x34B0BCB5, 0x391C0CB3, 0x4ED8AA4A, 0x5B9CCA4F, 0x682E6FF3,
     0x748F82EE, 0x78A5636F, 0x84C87814, 0x8CC70208, 0x90BEFFFA, 0xA4506CEB, 0xBEF9A3F7, 0xC67178F2
    ]"

definition sha256_init :: "32 word list" where
  "sha256_init = [0x6A09E667, 0xBB67AE85, 0x3C6EF372, 0xA54FF53A, 0x510E527F, 0x9B05688C, 0x1F83D9AB, 0x5BE0CD19]"

text \<open>The message schedule, newest word first.\<close>

definition sha256_next :: "32 word list \<Rightarrow> 32 word" where
  "sha256_next ws =
    (let x = ws ! 14; y = ws ! 1;
         s0 = word_rotr 7 x XOR word_rotr 18 x XOR drop_bit 3 x;
         s1 = word_rotr 17 y XOR word_rotr 19 y XOR drop_bit 10 y
     in ws ! 15 + s0 + ws ! 6 + s1)"

fun sha256_expand :: "nat \<Rightarrow> 32 word list \<Rightarrow> 32 word list" where
  "sha256_expand 0 ws = ws"
| "sha256_expand (Suc n) ws = sha256_expand n (sha256_next ws # ws)"

definition sha256_round :: "32 word list \<Rightarrow> 32 word \<times> 32 word \<Rightarrow> 32 word list" where
  "sha256_round st = (\<lambda>(k, w).
    (case st of
       [a, b, c, d, e, f, g, h] \<Rightarrow>
         let s1 = word_rotr 6 e XOR word_rotr 11 e XOR word_rotr 25 e;
             ch = (e AND f) XOR (NOT e AND g);
             t1 = h + s1 + ch + k + w;
             s0 = word_rotr 2 a XOR word_rotr 13 a XOR word_rotr 22 a;
             maj = (a AND b) XOR (a AND c) XOR (b AND c);
             t2 = s0 + maj
         in [t1 + t2, a, b, c, d + t1, e, f, g]
     | _ \<Rightarrow> st))"

definition sha256_block :: "32 word list \<Rightarrow> string \<Rightarrow> 32 word list" where
  "sha256_block st block =
    (let ws = rev (sha256_expand 48 (rev (sha1_words 16 block)))
     in map2 (+) st (foldl sha256_round st (zip sha256_k ws)))"

fun sha256_blocks :: "nat \<Rightarrow> 32 word list \<Rightarrow> string \<Rightarrow> 32 word list" where
  "sha256_blocks 0 st s = st"
| "sha256_blocks (Suc n) st s = sha256_blocks n (sha256_block st (take 64 s)) (drop 64 s)"

definition sha256 :: "string \<Rightarrow> string" where
  "sha256 m =
    (let s = sha1_pad m in concat (map (\<lambda>w. be_bytes 4 (unat w)) (sha256_blocks (length s div 64) sha256_init s)))"

definition hex_alphabet :: string where
  "hex_alphabet = ''0123456789abcdef''"

definition hex_nibble :: "nat \<Rightarrow> char" where
  "hex_nibble n = hex_alphabet ! n"

definition hex_EncodeToString :: "string \<Rightarrow> string" where
  "hex_EncodeToString s = concat (map (\<lambda>c. [hex_nibble (byte_of c div 16), hex_nibble (byte_of c mod 16)]) s)"

lemma sha256_round_length: "length st = 8 \<Longrightarrow> length (sha256_round st kw) = 8"
  by (auto simp: sha256_round_def Let_def split: list.split prod.split)

lemma sha256_rounds_length: "length st = 8 \<Longrightarrow> length (foldl sha256_round st kws) = 8"
  by (induction kws arbitrary: st) (simp_all add: sha256_round_length)

lemma sha256_blocks_length: "length st = 8 \<Longrightarrow> length (sha256_blocks n st s) = 8"
  by (induction n st s rule: sha256_blocks.induct) (simp_all add: sha256_block_def Let_def sha256_rounds_length)

lemma sha256_length: "length (sha256 m) = 32"
proof -
  have words: "length (concat (map (\<lambda>w. be_bytes 4 (unat (w :: 32 word))) ws)) = 4 * length ws" for ws
    by (induction ws) (simp_all add: be_bytes_def)
  show ?thesis
    using sha256_blocks_length [of sha256_init] by (simp add: sha256_def Let_def words sha256_init_def)
qed

lemma hex_length: "length (hex_EncodeToString s) = 2 * length s"
  by (induction s) (simp_all add: hex_EncodeToString_def)

lemma hex_chars: "set (hex_EncodeToString s) \<subseteq> set hex_alphabet"
proof -
  have "length hex_alphabet = 16" by (simp add: hex_alphabet_def)
  then have "hex_nibble n \<in> set hex_alphabet" if "n < 16" for n
    unfolding hex_nibble_def using that by (intro nth_mem) simp
  moreover have "byte_of c div 16 < 16" for c :: char using byte_of_less [of c] by linarith
  ultimately show ?thesis by (auto simp: hex_EncodeToString_def)
qed

end
