(* ===== verification/Go_Net.thy ===== *)
theory Go_Net
  imports Go_Text
begin

text \<open>
  Package \<open>net\<close>, as far as the program uses it: \<open>SplitHostPort\<close>, \<open>ParseIP\<close> and the text of an
  address. An address is its sixteen bytes; an IPv4 address is the IPv6 address that embeds it.
\<close>

section \<open>Parsing\<close>

definition char_between :: "char \<Rightarrow> char \<Rightarrow> char \<Rightarrow> bool" where
  "char_between lo hi c \<longleftrightarrow> byte_of lo \<le> byte_of c \<and> byte_of c \<le> byte_of hi"

text \<open>
  The four fields of an IPv4 address: \<open>fs\<close> the fields read, \<open>val\<close> and \<open>digs\<close> the value and the
  number of digits of the current one.
\<close>

fun ipv4_fields :: "nat list \<Rightarrow> nat \<Rightarrow> nat \<Rightarrow> string \<Rightarrow> nat list option" where
  "ipv4_fields fs val digs [] = (if length fs = 3 \<and> digs > 0 then Some (fs @ [val]) else None)"
| "ipv4_fields fs val digs (c # s) =
    (if char_between (CHR ''0'') (CHR ''9'') c then
       (if digs = 1 \<and> val = 0 then None
        else let v = val * 10 + (byte_of c - byte_of (CHR ''0'')) in
          if v > 255 then None else ipv4_fields fs v (Suc digs) s)
     else if c = CHR ''.'' then
       (if digs = 0 \<or> s = [] \<or> length fs = 3 then None else ipv4_fields (fs @ [val]) 0 0 s)
     else None)"

definition parseIPv4 :: "string \<Rightarrow> nat list option" where
  "parseIPv4 s = ipv4_fields [] 0 0 s"

definition hex_digit_val :: "char \<Rightarrow> nat option" where
  "hex_digit_val c =
    (if char_between (CHR ''0'') (CHR ''9'') c then Some (byte_of c - byte_of (CHR ''0''))
     else if char_between (CHR ''a'') (CHR ''f'') c then Some (byte_of c - byte_of (CHR ''a'') + 10)
     else if char_between (CHR ''A'') (CHR ''F'') c then Some (byte_of c - byte_of (CHR ''A'') + 10)
     else None)"

text \<open>A group of hexadecimal digits: its value, its length and the rest.\<close>

fun hex_group :: "nat \<Rightarrow> nat \<Rightarrow> string \<Rightarrow> (nat \<times> nat \<times> string) option" where
  "hex_group acc off [] = Some (acc, off, [])"
| "hex_group acc off (c # s) =
    (case hex_digit_val c of
       None \<Rightarrow> Some (acc, off, c # s)
     | Some d \<Rightarrow> if off > 3 then None else hex_group (acc * 16 + d) (Suc off) s)"

text \<open>
  The groups of an IPv6 address: \<open>ip\<close> the bytes read, \<open>ell\<close> the place of the ellipsis. One
  unit of fuel per group.
\<close>

fun ipv6_groups :: "nat \<Rightarrow> nat list \<Rightarrow> nat option \<Rightarrow> string \<Rightarrow> (nat list \<times> nat option \<times> string) option" where
  "ipv6_groups 0 ip ell s = Some (ip, ell, s)"
| "ipv6_groups (Suc fuel) ip ell s =
    (if length ip \<ge> 16 then Some (ip, ell, s)
     else case hex_group 0 0 s of
       None \<Rightarrow> None
     | Some (acc, off, rest) \<Rightarrow>
         if off = 0 then None
         else if rest \<noteq> [] \<and> hd rest = CHR ''.'' then
           (if ell = None \<and> length ip \<noteq> 12 then None
            else if length ip + 4 > 16 then None
            else (case parseIPv4 s of None \<Rightarrow> None | Some fs \<Rightarrow> Some (ip @ fs, ell, [])))
         else
           let ip1 = ip @ [acc div 256, acc mod 256] in
           (case rest of
              [] \<Rightarrow> Some (ip1, ell, [])
            | c # more \<Rightarrow>
                if c \<noteq> CHR '':'' \<or> more = [] then None
                else if hd more = CHR '':'' then
                  (if ell \<noteq> None then None
                   else if tl more = [] then Some (ip1, Some (length ip1), [])
                   else ipv6_groups fuel ip1 (Some (length ip1)) (tl more))
                else ipv6_groups fuel ip1 ell more))"

definition parseIPv6 :: "string \<Rightarrow> nat list option" where
  "parseIPv6 s0 =
    (let (s, ell) = (if take 2 s0 = ''::'' then (drop 2 s0, Some 0) else (s0, None)) in
     if ell = Some 0 \<and> s = [] then Some (replicate 16 0)
     else case ipv6_groups 8 [] ell s of
       None \<Rightarrow> None
     | Some (ip, ell1, rest) \<Rightarrow>
         if rest \<noteq> [] then None
         else if length ip < 16 then
           (case ell1 of None \<Rightarrow> None | Some k \<Rightarrow> Some (take k ip @ replicate (16 - length ip) 0 @ drop k ip))
         else if ell1 \<noteq> None then None else Some ip)"

text \<open>The first dot, colon or percent sign decides; an address with a zone is no IP of package \<open>net\<close>.\<close>

definition v4_prefix :: "nat list" where
  "v4_prefix = replicate 10 0 @ [255, 255]"

definition ParseIP :: "string \<Rightarrow> nat list option" where
  "ParseIP s =
    (case dropWhile (\<lambda>c. c \<noteq> CHR ''.'' \<and> c \<noteq> CHR '':'' \<and> c \<noteq> CHR ''%'') s of
       [] \<Rightarrow> None
     | c # _ \<Rightarrow>
         if c = CHR ''.'' then map_option (\<lambda>fs. v4_prefix @ fs) (parseIPv4 s)
         else if c = CHR '':'' then (if CHR ''%'' \<in> set s then None else parseIPv6 s)
         else None)"

section \<open>Printing\<close>

fun join_with :: "string \<Rightarrow> string list \<Rightarrow> string" where
  "join_with sep [] = []"
| "join_with sep [x] = x"
| "join_with sep (x # y # ys) = x @ sep @ join_with sep (y # ys)"

definition lower_hex :: "nat \<Rightarrow> char" where
  "lower_hex n = ''0123456789abcdef'' ! n"

fun hex_text :: "nat \<Rightarrow> string" where
  "hex_text n = (if n < 16 then [lower_hex n] else hex_text (n div 16) @ [lower_hex (n mod 16)])"

declare hex_text.simps [simp del]

fun groups_of :: "nat list \<Rightarrow> nat list" where
  "groups_of (a # b # rest) = (a * 256 + b) # groups_of rest"
| "groups_of _ = []"

text \<open>The first longest run of at least two zero groups, as its place and length.\<close>

definition zero_run :: "nat list \<Rightarrow> nat \<Rightarrow> nat" where
  "zero_run gs i = length (takeWhile (\<lambda>g. g = 0) (drop i gs))"

definition best_run :: "nat list \<Rightarrow> (nat \<times> nat) option" where
  "best_run gs = foldl (\<lambda>best i. let n = zero_run gs i in
     if n \<ge> 2 \<and> (case best of None \<Rightarrow> True | Some (_, m) \<Rightarrow> n > m) then Some (i, n) else best) None [0..<length gs]"

definition IP_String :: "nat list \<Rightarrow> string" where
  "IP_String ip =
    (if take 12 ip = v4_prefix then join_with ''.'' (map itoa_nat (drop 12 ip))
     else
       let gs = groups_of ip in
       case best_run gs of
         None \<Rightarrow> join_with '':'' (map hex_text gs)
       | Some (i, n) \<Rightarrow> join_with '':'' (map hex_text (take i gs)) @ ''::'' @ join_with '':'' (map hex_text (drop (i + n) gs)))"

section \<open>Host and port\<close>

text \<open>The host of \<open>SplitHostPort\<close>, if the text is a host and a port.\<close>

definition last_index :: "char \<Rightarrow> string \<Rightarrow> nat option" where
  "last_index c s = (if c \<in> set s then Some (length s - 1 - length (takeWhile (\<lambda>x. x \<noteq> c) (rev s))) else None)"

definition first_index :: "char \<Rightarrow> string \<Rightarrow> nat option" where
  "first_index c s = (if c \<in> set s then Some (length (takeWhile (\<lambda>x. x \<noteq> c) s)) else None)"

definition SplitHost :: "string \<Rightarrow> string option" where
  "SplitHost hostport =
    (case last_index (CHR '':'') hostport of
       None \<Rightarrow> None
     | Some i \<Rightarrow>
         if hd hostport = CHR ''['' then
           (case first_index (CHR '']'') hostport of
              None \<Rightarrow> None
            | Some stop \<Rightarrow>
                if stop + 1 \<noteq> i then None
                else if CHR ''['' \<in> set (drop 1 hostport) \<or> CHR '']'' \<in> set (drop (stop + 1) hostport) then None
                else Some (take (stop - 1) (drop 1 hostport)))
         else
           let host = take i hostport in
           if CHR '':'' \<in> set host then None
           else if CHR ''['' \<in> set hostport \<or> CHR '']'' \<in> set hostport then None
           else Some host)"

lemma ip_examples:
  "map_option IP_String (ParseIP ''192.168.0.1'') = Some ''192.168.0.1''"
  "map_option IP_String (ParseIP ''2001:DB8:0:0:1:0:0:1'') = Some ''2001:db8::1:0:0:1''"
  "map_option IP_String (ParseIP ''::ffff:10.0.0.1'') = Some ''10.0.0.1''" "map_option IP_String (ParseIP ''::'') = Some ''::''"
  "ParseIP ''1.2.3'' = None" "ParseIP ''01.2.3.4'' = None" "ParseIP ''fe80::1%eth0'' = None" "ParseIP ''1::2::3'' = None"
  "SplitHost ''[::1]:80'' = Some ''::1''" "SplitHost ''10.0.0.1:80'' = Some ''10.0.0.1''" "SplitHost ''::1'' = None"
  by code_simp+

section \<open>The text of an address\<close>

definition ip_char :: "char \<Rightarrow> bool" where
  "ip_char c \<longleftrightarrow> c \<in> set ''0123456789abcdef.:''"

lemma join_with_chars: "list_all P sep \<Longrightarrow> list_all (list_all P) xs \<Longrightarrow> list_all P (join_with sep xs)"
  by (induction sep xs rule: join_with.induct) simp_all

lemma itoa_nat_ip: "list_all ip_char (itoa_nat n)"
proof (induction n rule: itoa_nat.induct)
  case (1 n)
  have "list_all (\<lambda>d. ip_char (digit_char d)) [0..<10]" by code_simp
  then have "ip_char (digit_char d)" if "d < 10" for d using that by (simp add: list_all_iff)
  then show ?case using 1 by (subst itoa_nat.simps) auto
qed

lemma hex_text_ip: "list_all ip_char (hex_text n)"
proof (induction n rule: hex_text.induct)
  case (1 n)
  have "ip_char (lower_hex d)" if "d < 16" for d
  proof -
    have "length ''0123456789abcdef'' = 16" by simp
    then have "lower_hex d \<in> set ''0123456789abcdef''" using that unfolding lower_hex_def by (intro nth_mem) (simp only:)
    then show ?thesis by (auto simp: ip_char_def)
  qed
  then show ?case using 1 by (subst hex_text.simps) auto
qed

lemma IP_String_chars: "list_all ip_char (IP_String ip)"
proof -
  have hex: "list_all (list_all ip_char) (map hex_text xs)" and dec: "list_all (list_all ip_char) (map itoa_nat xs)" for xs
    using hex_text_ip itoa_nat_ip by (induction xs) auto
  have seps: "list_all ip_char '':''" "list_all ip_char ''.''" "list_all ip_char ''::''" by (simp_all add: ip_char_def)
  show ?thesis
    unfolding IP_String_def Let_def
    by (auto intro!: join_with_chars hex dec seps split: option.split) (use seps in simp_all)
qed

end
