(* ===== verification/Go_Net_Text.thy ===== *)
theory Go_Net_Text
  imports Go_Net
begin

text \<open>
  The text of an address is canonical: what \<open>ParseIP\<close> returns is sixteen bytes, \<open>IP.String\<close> prints
  them in at most 39 characters, and parsing that text gives the same sixteen bytes.
\<close>

section \<open>What parsing returns\<close>

definition is_bytes :: "nat list \<Rightarrow> bool" where
  "is_bytes xs \<longleftrightarrow> (\<forall>b \<in> set xs. b < 256)"

lemma is_bytes_simps [simp]:
  "is_bytes []" "is_bytes (x # xs) \<longleftrightarrow> x < 256 \<and> is_bytes xs" "is_bytes (xs @ ys) \<longleftrightarrow> is_bytes xs \<and> is_bytes ys"
  "is_bytes (replicate n 0)"
  by (auto simp: is_bytes_def)

lemma is_bytes_parts: "is_bytes xs \<Longrightarrow> is_bytes (take n xs)" "is_bytes xs \<Longrightarrow> is_bytes (drop n xs)"
  by (auto simp: is_bytes_def dest: in_set_takeD in_set_dropD)

lemma v4_prefix_bytes [simp]: "length v4_prefix = 12" "is_bytes v4_prefix"
  by (simp_all add: v4_prefix_def)

lemma ipv4_fields_bytes:
  "ipv4_fields fs val digs s = Some r \<Longrightarrow> length fs \<le> 3 \<Longrightarrow> is_bytes fs \<Longrightarrow> val < 256 \<Longrightarrow> length r = 4 \<and> is_bytes r"
proof (induction fs val digs s rule: ipv4_fields.induct)
  case (2 fs val digs c s)
  then show ?case by (auto simp: Let_def split: if_splits)
qed (auto split: if_splits)

lemma parseIPv4_bytes: "parseIPv4 s = Some r \<Longrightarrow> length r = 4 \<and> is_bytes r"
  using ipv4_fields_bytes [of "[]" 0 0 s r] by (simp add: parseIPv4_def)

lemma hex_digit_val_bound: "hex_digit_val c = Some d \<Longrightarrow> d < 16"
  by (auto simp: hex_digit_val_def char_between_def split: if_splits)

lemma hex_group_bound:
  "hex_group acc off s = Some (r, n, rest) \<Longrightarrow> acc < 16 ^ off \<Longrightarrow> off \<le> 4 \<Longrightarrow> r < 16 ^ n \<and> n \<le> 4"
proof (induction acc off s rule: hex_group.induct)
  case (2 acc off c s)
  show ?case
  proof (cases "hex_digit_val c")
    case None
    then show ?thesis using 2 by simp
  next
    case (Some d)
    then have "acc * 16 + d < 16 ^ Suc off" "off \<le> 3"
      using 2 hex_digit_val_bound [OF Some] by (auto split: if_splits)
    then show ?thesis using 2 Some by (auto split: if_splits)
  qed
qed simp

lemma hex_group_u16:
  assumes "hex_group 0 0 s = Some (r, n, rest)"
  shows "r < 65536"
proof -
  have "r < 16 ^ n" "n \<le> 4" using hex_group_bound [OF assms] by auto
  then show ?thesis using power_increasing [of n 4 "16 :: nat"] by simp
qed

lemma ipv6_groups_bytes:
  "ipv6_groups fuel ip ell s = Some (ip', ell', rest) \<Longrightarrow> is_bytes ip \<Longrightarrow> even (length ip) \<Longrightarrow> length ip \<le> 16 \<Longrightarrow>
     (\<forall>k. ell = Some k \<longrightarrow> k \<le> length ip) \<Longrightarrow> is_bytes ip' \<and> length ip' \<le> 16 \<and> (\<forall>k. ell' = Some k \<longrightarrow> k \<le> length ip')"
proof (induction fuel arbitrary: ip ell s)
  case (Suc fuel)
  show ?case
  proof (cases "length ip \<ge> 16")
    case True
    then show ?thesis using Suc.prems by auto
  next
    case False
    then have short: "length ip + 2 \<le> 16" using Suc.prems(3) by presburger
    obtain acc off more where g: "hex_group 0 0 s = Some (acc, off, more)"
      using Suc.prems(1) False by (auto split: option.splits)
    let ?ip1 = "ip @ [acc div 256, acc mod 256]"
    have ip1: "is_bytes ?ip1" "even (length ?ip1)" "length ?ip1 \<le> 16" "length ip \<le> length ?ip1"
      using hex_group_u16 [OF g] Suc.prems(2,3) short by auto
    have next1: "is_bytes ip' \<and> length ip' \<le> 16 \<and> (\<forall>k. ell' = Some k \<longrightarrow> k \<le> length ip')"
      if "ipv6_groups fuel ?ip1 ell1 t = Some (ip', ell', rest)" "ell1 = ell \<or> ell1 = Some (length ?ip1)" for ell1 t
      by (rule Suc.IH [OF that(1) ip1(1,2,3)]) (use that(2) Suc.prems(5) in fastforce)
    show ?thesis
    proof (cases "more \<noteq> [] \<and> hd more = CHR ''.''")
      case True
      then obtain fs where "parseIPv4 s = Some fs" "ip' = ip @ fs" "ell' = ell" "length ip + 4 \<le> 16"
        using Suc.prems(1) False g by (auto split: if_splits option.splits)
      then show ?thesis using parseIPv4_bytes [of s fs] Suc.prems(2,5) by fastforce
    next
      case other: False
      show ?thesis
      proof (cases more)
        case Nil
        then show ?thesis using Suc.prems(1,5) False g ip1 by (auto split: if_splits)
      next
        case (Cons c t)
        then show ?thesis
          using Suc.prems(1) False g other ip1(1,3) next1 by (auto simp: Let_def split: if_splits)
      qed
    qed
  qed
qed auto

lemma parseIPv6_bytes:
  assumes "parseIPv6 s = Some ip"
  shows "length ip = 16 \<and> is_bytes ip"
proof -
  obtain t and ell :: "nat option" where start: "(if take 2 s = ''::'' then (drop 2 s, Some 0) else (s, None)) = (t, ell)" "ell = None \<or> ell = Some 0"
    by (cases "take 2 s = ''::''") auto
  show ?thesis
  proof (cases "ell = Some 0 \<and> t = []")
    case True
    then show ?thesis using assms unfolding parseIPv6_def start(1) Let_def by auto
  next
    case False
    then obtain ip' ell' where g: "ipv6_groups 8 [] ell t = Some (ip', ell', [])"
      and ip: "if length ip' < 16 then \<exists>k. ell' = Some k \<and> ip = take k ip' @ replicate (16 - length ip') 0 @ drop k ip' else ip = ip'"
      using assms unfolding parseIPv6_def start(1) Let_def prod.case by (auto split: option.splits if_splits)
    have "is_bytes ip' \<and> length ip' \<le> 16 \<and> (\<forall>k. ell' = Some k \<longrightarrow> k \<le> length ip')"
      using ipv6_groups_bytes [OF g] start(2) by auto
    then show ?thesis using ip by (auto simp: is_bytes_parts split: if_splits)
  qed
qed

lemma ParseIP_bytes: "ParseIP s = Some ip \<Longrightarrow> length ip = 16 \<and> is_bytes ip"
  using parseIPv4_bytes parseIPv6_bytes by (fastforce simp: ParseIP_def split: list.splits if_splits)

section \<open>Digits\<close>

definition hex_char :: "char \<Rightarrow> bool" where
  "hex_char c \<longleftrightarrow> c \<in> set ''0123456789abcdef''"

lemma lower_hex_digit: "d < 16 \<Longrightarrow> hex_digit_val (lower_hex d) = Some d \<and> hex_char (lower_hex d)"
proof -
  have "list_all (\<lambda>d. hex_digit_val (lower_hex d) = Some d \<and> hex_char (lower_hex d)) [0..<16]" by code_simp
  then show "d < 16 \<Longrightarrow> ?thesis" by (simp add: list_all_iff)
qed

lemma hex_text_digits:
  "\<exists>ds. hex_text n = map lower_hex ds \<and> ds \<noteq> [] \<and> (\<forall>d \<in> set ds. d < 16) \<and> foldl (\<lambda>a d. a * 16 + d) 0 ds = n"
proof (induction n rule: hex_text.induct)
  case (1 n)
  show ?case
  proof (cases "n < 16")
    case True
    then show ?thesis by (subst hex_text.simps) (auto intro: exI [of _ "[n]"])
  next
    case False
    then obtain ds where "hex_text (n div 16) = map lower_hex ds" "\<forall>d \<in> set ds. d < 16" "foldl (\<lambda>a d. a * 16 + d) 0 ds = n div 16"
      using 1 by blast
    then show ?thesis using False by (subst hex_text.simps) (auto intro!: exI [of _ "ds @ [n mod 16]"])
  qed
qed

lemma hex_text_length: "n < 16 ^ Suc k \<Longrightarrow> length (hex_text n) \<le> Suc k"
proof (induction k arbitrary: n)
  case (Suc k)
  then have "n div 16 < 16 ^ Suc k" by (simp add: less_mult_imp_div_less mult.commute)
  then show ?case using Suc.IH by (subst hex_text.simps) simp
qed (simp add: hex_text.simps)

lemma hex_text_short: "g < 65536 \<Longrightarrow> length (hex_text g) \<le> 4"
  using hex_text_length [of g 3] by simp

lemma hex_text_chars: "c \<in> set (hex_text g) \<Longrightarrow> hex_char c"
  using hex_text_digits [of g] lower_hex_digit by auto

lemma hex_text_nonempty [simp]: "hex_text g \<noteq> []"
  using hex_text_digits [of g] by auto

text \<open>A group ends at the end of the text or at a colon.\<close>

definition group_end :: "string \<Rightarrow> bool" where
  "group_end rest \<longleftrightarrow> rest = [] \<or> (\<exists>t. rest = CHR '':'' # t)"

lemma hex_group_digits:
  assumes "\<forall>d \<in> set ds. d < 16" "off + length ds \<le> 4" "group_end rest"
  shows "hex_group acc off (map lower_hex ds @ rest) = Some (foldl (\<lambda>a d. a * 16 + d) acc ds, off + length ds, rest)"
  using assms
proof (induction ds arbitrary: acc off)
  case Nil
  have "hex_digit_val (CHR '':'') = None" by code_simp
  then show ?case using Nil by (auto simp: group_end_def)
qed (simp add: lower_hex_digit)

lemma hex_group_text:
  assumes "g < 65536" "group_end rest"
  shows "\<exists>n > 0. hex_group 0 0 (hex_text g @ rest) = Some (g, n, rest)"
proof -
  obtain ds where ds: "hex_text g = map lower_hex ds" "ds \<noteq> []" "\<forall>d \<in> set ds. d < 16" "foldl (\<lambda>a d. a * 16 + d) 0 ds = g"
    using hex_text_digits by blast
  then have "length ds \<le> 4" using hex_text_short [OF assms(1)] by simp
  then show ?thesis using hex_group_digits [OF ds(3) _ assms(2), of 0 0] ds by auto
qed

lemma digit_char_value: "d < 10 \<Longrightarrow> char_between (CHR ''0'') (CHR ''9'') (digit_char d) \<and> byte_of (digit_char d) - byte_of (CHR ''0'') = d \<and> digit_char d \<in> set ''0123456789''"
proof -
  have "list_all (\<lambda>d. char_between (CHR ''0'') (CHR ''9'') (digit_char d) \<and> byte_of (digit_char d) - byte_of (CHR ''0'') = d \<and> digit_char d \<in> set ''0123456789'') [0..<10]"
    by code_simp
  then show "d < 10 \<Longrightarrow> ?thesis" unfolding list_all_iff by (elim ballE) auto
qed

lemma ipv4_digit:
  assumes "d < 10" "digs = 1 \<longrightarrow> val \<noteq> 0" "val * 10 + d < 256"
  shows "ipv4_fields fs val digs (digit_char d # s) = ipv4_fields fs (val * 10 + d) (Suc digs) s"
  using assms digit_char_value [OF assms(1)] by (auto simp del: One_nat_def)

lemma itoa_nat_cases:
  assumes "n < 256"
  obtains "n < 10" "itoa_nat n = [digit_char n]"
  | "10 \<le> n" "n < 100" "itoa_nat n = [digit_char (n div 10), digit_char (n mod 10)]"
  | "100 \<le> n" "itoa_nat n = [digit_char (n div 100), digit_char (n div 10 mod 10), digit_char (n mod 10)]"
proof -
  consider "n < 10" | "10 \<le> n" "n < 100" | "100 \<le> n" by linarith
  then show thesis
  proof cases
    case 1
    then show ?thesis by (intro that(1)) (simp_all add: itoa_nat.simps [of n])
  next
    case 2
    then have "n div 10 < 10" by linarith
    then show ?thesis using 2 by (intro that(2)) (simp_all add: itoa_nat.simps [of n] itoa_nat.simps [of "n div 10"])
  next
    case 3
    then have "10 \<le> n div 10" "n div 10 div 10 < 10" "n div 10 div 10 = n div 100" using assms by (simp_all add: div_mult2_eq [symmetric])
    then show ?thesis using 3
      by (intro that(3)) (simp_all add: itoa_nat.simps [of n] itoa_nat.simps [of "n div 10"] itoa_nat.simps [of "n div 100"])
  qed
qed

lemma itoa_nat_short: "n < 256 \<Longrightarrow> length (itoa_nat n) \<le> 3 \<and> itoa_nat n \<noteq> []"
  by (rule itoa_nat_cases [of n]) simp_all

lemma ipv4_fields_itoa:
  assumes "n < 256"
  shows "\<exists>k > 0. ipv4_fields fs 0 0 (itoa_nat n @ rest) = ipv4_fields fs n k rest"
  using assms
proof (rule itoa_nat_cases)
  assume "n < 10" "itoa_nat n = [digit_char n]"
  then show ?thesis by (intro exI [of _ 1]) (simp add: ipv4_digit del: ipv4_fields.simps)
next
  assume "10 \<le> n" "n < 100" "itoa_nat n = [digit_char (n div 10), digit_char (n mod 10)]"
  moreover from this have "n div 10 < 10" "n div 10 \<noteq> 0" "n div 10 * 10 + n mod 10 = n" by auto
  ultimately show ?thesis using assms by (intro exI [of _ 2]) (simp add: ipv4_digit numeral_2_eq_2 del: ipv4_fields.simps)
next
  assume "100 \<le> n" "itoa_nat n = [digit_char (n div 100), digit_char (n div 10 mod 10), digit_char (n mod 10)]"
  moreover have "n div 100 = n div 10 div 10" by (simp add: div_mult2_eq [symmetric])
  moreover from calculation assms have "n div 100 < 10" "n div 100 \<noteq> 0" "n div 100 * 10 + n div 10 mod 10 = n div 10" "n div 10 * 10 + n mod 10 = n"
      "n div 10 < 256" by auto
  ultimately show ?thesis using assms by (intro exI [of _ 3]) (simp add: ipv4_digit numeral_3_eq_3 del: ipv4_fields.simps)
qed

section \<open>Four decimal fields\<close>

lemma hex_char_plain: "hex_char c \<Longrightarrow> c \<noteq> CHR ''.'' \<and> c \<noteq> CHR '':'' \<and> c \<noteq> CHR ''%'' \<and> c \<noteq> CHR ''[''"
  by (auto simp: hex_char_def)

lemma itoa_nat_chars: "c \<in> set (itoa_nat n) \<Longrightarrow> hex_char c"
proof (induction n rule: itoa_nat.induct)
  case (1 n)
  have "list_all (\<lambda>d. hex_char (digit_char d)) [0..<10]" by code_simp
  then have "hex_char (digit_char d)" if "d < 10" for d using that by (simp add: list_all_iff)
  then show ?case using 1 by (subst (asm) (2) itoa_nat.simps) (auto split: if_splits)
qed

lemma ipv4_dot:
  assumes "k > 0" "s \<noteq> []" "length fs \<noteq> 3"
  shows "ipv4_fields fs v k (CHR ''.'' # s) = ipv4_fields (fs @ [v]) 0 0 s"
proof -
  have "\<not> char_between (CHR ''0'') (CHR ''9'') (CHR ''.'')" by code_simp
  then show ?thesis using assms by simp
qed

lemma parseIPv4_text:
  assumes "is_bytes [a, b, c, d]"
  shows "parseIPv4 (join_with ''.'' (map itoa_nat [a, b, c, d])) = Some [a, b, c, d]"
proof -
  let ?t = "\<lambda>n rest. itoa_nat n @ CHR ''.'' # rest"
  have dot: "ipv4_fields fs 0 0 (?t n s) = ipv4_fields (fs @ [n]) 0 0 s" if n: "n < 256" "s \<noteq> []" "length fs \<noteq> 3" for n s fs
  proof -
    obtain k where "k > 0" "ipv4_fields fs 0 0 (?t n s) = ipv4_fields fs n k (CHR ''.'' # s)"
      using ipv4_fields_itoa [OF n(1), of fs "CHR ''.'' # s"] by blast
    then show ?thesis using ipv4_dot n by simp
  qed
  obtain k where "k > 0" "ipv4_fields [a, b, c] 0 0 (itoa_nat d @ []) = ipv4_fields [a, b, c] d k []"
    using ipv4_fields_itoa [of d "[a, b, c]" "[]"] assms by auto
  then have "ipv4_fields [a, b, c] 0 0 (itoa_nat d) = Some [a, b, c, d]" by simp
  then show ?thesis using assms itoa_nat_short [of d] by (simp add: parseIPv4_def dot del: ipv4_fields.simps)
qed

section \<open>Groups of hexadecimal digits\<close>

definition group_bytes :: "nat list \<Rightarrow> nat list" where
  "group_bytes gs = concat (map (\<lambda>g. [g div 256, g mod 256]) gs)"

lemma group_bytes_simps [simp]:
  "group_bytes [] = []" "group_bytes (g # gs) = g div 256 # g mod 256 # group_bytes gs"
  "group_bytes (gs @ hs) = group_bytes gs @ group_bytes hs"
  by (simp_all add: group_bytes_def)

lemma group_bytes_length [simp]: "length (group_bytes gs) = 2 * length gs"
  by (induction gs) simp_all

lemma group_bytes_zeros: "group_bytes (replicate n 0) = replicate (2 * n) 0"
  by (induction n) simp_all

lemma groups_of_bytes:
  "is_bytes ip \<Longrightarrow> even (length ip) \<Longrightarrow> group_bytes (groups_of ip) = ip \<and> (\<forall>g \<in> set (groups_of ip). g < 65536)"
  by (induction ip rule: groups_of.induct) auto

definition colon_text :: "nat list \<Rightarrow> string" where
  "colon_text gs = join_with '':'' (map hex_text gs)"

lemma colon_text_simps [simp]:
  "colon_text [] = []" "colon_text [g] = hex_text g" "colon_text (g # h # gs) = hex_text g @ CHR '':'' # colon_text (h # gs)"
  by (simp_all add: colon_text_def)

lemma colon_text_start:
  assumes "gs \<noteq> []"
  shows "\<exists>c t. colon_text gs = c # t \<and> hex_char c"
proof -
  obtain g r where "gs = g # r" using assms by (cases gs) auto
  moreover obtain c t where "hex_text g = c # t" by (cases "hex_text g") auto
  moreover from this have "hex_char c" using hex_text_chars [of c g] by simp
  ultimately show ?thesis by (cases r) auto
qed

lemma colon_text_chars: "c \<in> set (colon_text gs) \<Longrightarrow> hex_char c \<or> c = CHR '':''"
  by (induction gs rule: induct_list012) (auto dest: hex_text_chars)

lemma colon_text_length: "\<forall>g \<in> set gs. g < 65536 \<Longrightarrow> length (colon_text gs) \<le> 5 * length gs - 1"
proof (induction gs rule: induct_list012)
  case (3 g h gs)
  then show ?case using hex_text_short [of g] by simp
qed (use hex_text_short in auto)

lemma ipv6_step:
  assumes "g < 65536" "length ip < 16"
  shows "ipv6_groups (Suc fuel) ip ell (hex_text g) = Some (ip @ [g div 256, g mod 256], ell, [])"
    and "c \<noteq> CHR '':'' \<Longrightarrow> ipv6_groups (Suc fuel) ip ell (hex_text g @ CHR '':'' # c # t) = ipv6_groups fuel (ip @ [g div 256, g mod 256]) ell (c # t)"
    and "ipv6_groups (Suc fuel) ip None (hex_text g @ CHR '':'' # CHR '':'' # t) =
      (let ip1 = ip @ [g div 256, g mod 256] in if t = [] then Some (ip1, Some (length ip1), []) else ipv6_groups fuel ip1 (Some (length ip1)) t)"
proof -
  obtain n where "n > 0" "hex_group 0 0 (hex_text g) = Some (g, n, [])"
    using hex_group_text [OF assms(1), of "[]"] by (auto simp: group_end_def)
  then show "ipv6_groups (Suc fuel) ip ell (hex_text g) = Some (ip @ [g div 256, g mod 256], ell, [])" using assms(2) by simp
next
  assume "c \<noteq> CHR '':''"
  moreover obtain n where "n > 0" "hex_group 0 0 (hex_text g @ CHR '':'' # c # t) = Some (g, n, CHR '':'' # c # t)"
    using hex_group_text [OF assms(1), of "CHR '':'' # c # t"] by (auto simp: group_end_def)
  ultimately show "ipv6_groups (Suc fuel) ip ell (hex_text g @ CHR '':'' # c # t) = ipv6_groups fuel (ip @ [g div 256, g mod 256]) ell (c # t)"
    using assms(2) by simp
next
  obtain n where "n > 0" "hex_group 0 0 (hex_text g @ CHR '':'' # CHR '':'' # t) = Some (g, n, CHR '':'' # CHR '':'' # t)"
    using hex_group_text [OF assms(1), of "CHR '':'' # CHR '':'' # t"] by (auto simp: group_end_def)
  then show "ipv6_groups (Suc fuel) ip None (hex_text g @ CHR '':'' # CHR '':'' # t) =
      (let ip1 = ip @ [g div 256, g mod 256] in if t = [] then Some (ip1, Some (length ip1), []) else ipv6_groups fuel ip1 (Some (length ip1)) t)"
    using assms(2) by (simp add: Let_def)
qed

lemma ipv6_groups_text:
  "gs \<noteq> [] \<Longrightarrow> \<forall>g \<in> set gs. g < 65536 \<Longrightarrow> length ip + 2 * length gs \<le> 16 \<Longrightarrow> length gs \<le> fuel \<Longrightarrow>
     ipv6_groups fuel ip ell (colon_text gs) = Some (ip @ group_bytes gs, ell, [])"
proof (induction gs arbitrary: ip fuel rule: induct_list012)
  case (2 g)
  then show ?case using ipv6_step(1) [of g ip "fuel - 1" ell] by (cases fuel) (simp_all del: ipv6_groups.simps)
next
  case (3 g h gs)
  obtain f where "fuel = Suc f" using 3 by (cases fuel) auto
  moreover obtain c t where "colon_text (h # gs) = c # t" "hex_char c" using colon_text_start by blast
  ultimately show ?case
    using 3 ipv6_step(2) [of g ip c f ell t] hex_char_plain [of c] by (simp del: ipv6_groups.simps)
qed simp

lemma ipv6_groups_run:
  "ls \<noteq> [] \<Longrightarrow> \<forall>g \<in> set (ls @ rs). g < 65536 \<Longrightarrow> length ip + 2 * length (ls @ rs) \<le> 14 \<Longrightarrow> length (ls @ rs) \<le> fuel \<Longrightarrow>
     ipv6_groups fuel ip None (colon_text ls @ CHR '':'' # CHR '':'' # colon_text rs)
       = Some (ip @ group_bytes (ls @ rs), Some (length ip + 2 * length ls), [])"
proof (induction ls arbitrary: ip fuel rule: induct_list012)
  case (2 g)
  then obtain f where f: "fuel = Suc f" by (cases fuel) auto
  show ?case
  proof (cases "rs = []")
    case True
    have "ipv6_groups (Suc f) ip None (hex_text g @ CHR '':'' # CHR '':'' # []) = Some (ip @ [g div 256, g mod 256], Some (length ip + 2), [])"
      using 2 by (subst ipv6_step(3)) (simp_all add: Let_def)
    then show ?thesis using True f by (simp del: ipv6_groups.simps)
  next
    case False
    have "colon_text rs \<noteq> []" using colon_text_start [OF False] by auto
    then have "ipv6_groups (Suc f) ip None (hex_text g @ CHR '':'' # CHR '':'' # colon_text rs)
        = ipv6_groups f (ip @ [g div 256, g mod 256]) (Some (length ip + 2)) (colon_text rs)"
      using 2 by (subst ipv6_step(3)) (simp_all add: Let_def)
    also have "\<dots> = Some ((ip @ [g div 256, g mod 256]) @ group_bytes rs, Some (length ip + 2), [])"
      by (rule ipv6_groups_text [OF False]) (use 2 f in auto)
    finally show ?thesis using f by (simp del: ipv6_groups.simps)
  qed
next
  case (3 g h ls)
  obtain f where fuel: "fuel = Suc f" using 3(6) by (cases fuel) auto
  moreover obtain c t where "colon_text (h # ls) = c # t" "hex_char c" using colon_text_start by blast
  ultimately have "ipv6_groups fuel ip None (colon_text (g # h # ls) @ CHR '':'' # CHR '':'' # colon_text rs)
      = ipv6_groups f (ip @ [g div 256, g mod 256]) None (colon_text (h # ls) @ CHR '':'' # CHR '':'' # colon_text rs)"
    using 3(4,5) ipv6_step(2) [of g ip c f None "t @ CHR '':'' # CHR '':'' # colon_text rs"] hex_char_plain [of c]
    by (simp del: ipv6_groups.simps colon_text_simps(3) add: colon_text_simps(3) [of g h ls])
  also have "\<dots> = Some ((ip @ [g div 256, g mod 256]) @ group_bytes ((h # ls) @ rs), Some (length (ip @ [g div 256, g mod 256]) + 2 * length (h # ls)), [])"
    by (rule 3(2)) (use 3(4-6) \<open>fuel = Suc f\<close> in auto)
  finally show ?case by simp
qed simp

section \<open>Parsing gives the printed address back\<close>

lemma parseIPv6_plain:
  assumes "length gs = 8" "\<forall>g \<in> set gs. g < 65536"
  shows "parseIPv6 (colon_text gs) = Some (group_bytes gs)"
proof -
  have ne: "gs \<noteq> []" using assms(1) by auto
  obtain c t where c: "colon_text gs = c # t" "hex_char c" using colon_text_start [OF ne] by blast
  have start: "take 2 (colon_text gs) \<noteq> ''::''" using c hex_char_plain [of c] by simp
  have "ipv6_groups 8 [] None (colon_text gs) = Some ([] @ group_bytes gs, None, [])"
    by (rule ipv6_groups_text [OF ne assms(2)]) (use assms(1) in auto)
  then show ?thesis unfolding parseIPv6_def if_not_P [OF start] using assms(1) by simp
qed

lemma parseIPv6_run:
  assumes "length ls + length rs \<le> 6" "\<forall>g \<in> set (ls @ rs). g < 65536"
  shows "parseIPv6 (colon_text ls @ ''::'' @ colon_text rs)
     = Some (group_bytes ls @ replicate (16 - 2 * (length ls + length rs)) 0 @ group_bytes rs)"
proof (cases "ls = []")
  case True
  show ?thesis
  proof (cases "rs = []")
    case rs: True
    then show ?thesis using True by (simp add: parseIPv6_def)
  next
    case False
    have ne: "colon_text rs \<noteq> []" using colon_text_start [OF False] by auto
    have "ipv6_groups 8 [] (Some 0) (colon_text rs) = Some ([] @ group_bytes rs, Some 0, [])"
      by (rule ipv6_groups_text [OF False]) (use assms in auto)
    then show ?thesis using True ne assms(1) by (simp add: parseIPv6_def)
  qed
next
  case False
  let ?s = "colon_text ls @ ''::'' @ colon_text rs"
  obtain c t where c: "colon_text ls = c # t" "hex_char c" using colon_text_start [OF False] by blast
  have start: "take 2 ?s \<noteq> ''::''" using c hex_char_plain [of c] by simp
  have "ipv6_groups 8 [] None ?s = Some ([] @ group_bytes (ls @ rs), Some (length ([] :: nat list) + 2 * length ls), [])"
    using ipv6_groups_run [OF False assms(2), of "[]" 8] assms(1) by simp
  then show ?thesis unfolding parseIPv6_def if_not_P [OF start] using assms(1) by simp
qed

lemma takeWhile_zeros: "takeWhile (\<lambda>g. g = 0) xs = replicate (length (takeWhile (\<lambda>g. g = 0) xs)) (0 :: nat)"
  by (induction xs) simp_all

lemma zero_run_split: "gs = take i gs @ replicate (zero_run gs i) 0 @ drop (i + zero_run gs i) gs"
proof -
  have "drop (i + zero_run gs i) gs = dropWhile (\<lambda>g. g = 0) (drop i gs)"
    by (simp add: zero_run_def dropWhile_eq_drop add.commute)
  then have "replicate (zero_run gs i) 0 @ drop (i + zero_run gs i) gs = drop i gs"
    unfolding zero_run_def takeWhile_zeros [symmetric] by simp
  then show ?thesis by simp
qed

lemma best_run_Some:
  assumes "best_run gs = Some (i, n)"
  shows "2 \<le> n \<and> n = zero_run gs i"
proof -
  define f where "f = (\<lambda>best i. let n = zero_run gs i in
     if n \<ge> 2 \<and> (case best of None \<Rightarrow> True | Some (_, m) \<Rightarrow> n > m) then Some (i, n) else best)"
  have "foldl f None xs = Some (i, n) \<Longrightarrow> 2 \<le> n \<and> n = zero_run gs i" for xs
    by (induction xs rule: rev_induct) (auto simp: f_def Let_def split: if_splits)
  then show ?thesis using assms unfolding best_run_def f_def by blast
qed

text \<open>The two forms of the text of an IPv6 address, and what both have in common.\<close>

definition v6_text :: "string \<Rightarrow> bool" where
  "v6_text s \<longleftrightarrow> (\<forall>c \<in> set s. hex_char c \<or> c = CHR '':'') \<and> length s \<le> 39 \<and>
     (\<exists>a b c. s = a @ CHR '':'' # b @ CHR '':'' # c)"

lemma v6_text_plain:
  assumes "length gs = 8" "\<forall>g \<in> set gs. g < 65536"
  shows "v6_text (colon_text gs)"
proof -
  obtain g h k r where "gs = g # h # k # r" using assms(1) by (auto simp: numeral_eq_Suc length_Suc_conv)
  then have "colon_text gs = hex_text g @ CHR '':'' # hex_text h @ CHR '':'' # colon_text (k # r)" by simp
  moreover have "length (colon_text gs) \<le> 39" using colon_text_length [OF assms(2)] assms(1) by simp
  ultimately show ?thesis unfolding v6_text_def using colon_text_chars by metis
qed

lemma v6_text_run:
  assumes "length ls + length rs \<le> 6" "\<forall>g \<in> set (ls @ rs). g < 65536"
  shows "v6_text (colon_text ls @ ''::'' @ colon_text rs)"
proof -
  have "length (colon_text ls) \<le> 5 * length ls" "length (colon_text rs) \<le> 5 * length rs"
    using colon_text_length [of ls] colon_text_length [of rs] assms(2) by auto
  then have "length (colon_text ls @ ''::'' @ colon_text rs) \<le> 39" using assms(1) by simp
  moreover have "colon_text ls @ ''::'' @ colon_text rs = colon_text ls @ CHR '':'' # [] @ CHR '':'' # colon_text rs" by simp
  moreover have "\<forall>c \<in> set (colon_text ls @ ''::'' @ colon_text rs). hex_char c \<or> c = CHR '':''"
    using colon_text_chars by auto
  ultimately show ?thesis unfolding v6_text_def by blast
qed

lemma ParseIP_v6:
  assumes "v6_text s"
  shows "ParseIP s = parseIPv6 s"
proof -
  let ?P = "\<lambda>c. c \<noteq> CHR ''.'' \<and> c \<noteq> CHR '':'' \<and> c \<noteq> CHR ''%''"
  have chars: "\<forall>c \<in> set s. c \<noteq> CHR ''.'' \<and> c \<noteq> CHR ''%''" and "CHR '':'' \<in> set s"
    using assms hex_char_plain by (fastforce simp: v6_text_def)+
  then have "dropWhile ?P s \<noteq> []" by (auto simp: dropWhile_eq_Nil_conv)
  then obtain c t where d: "dropWhile ?P s = c # t" by (cases "dropWhile ?P s") auto
  then have "c \<in> set s" "\<not> ?P c" using set_dropWhileD [of c ?P s] hd_dropWhile [of ?P s] by auto
  then have "c = CHR '':''" using chars by blast
  then show ?thesis using d chars by (auto simp: ParseIP_def)
qed

lemma SplitHost_v6:
  assumes "v6_text s"
  shows "SplitHost s = None"
proof -
  obtain a b c where s: "s = a @ CHR '':'' # b @ CHR '':'' # c" using assms by (auto simp: v6_text_def)
  have "length (takeWhile (\<lambda>x. x \<noteq> CHR '':'') (rev s)) \<le> length c"
    unfolding s using length_takeWhile_le [of _ "rev c"] by (simp add: takeWhile_append)
  then obtain i where i: "last_index (CHR '':'') s = Some i" "length a < i"
    using s by (auto simp: last_index_def)
  then have "CHR '':'' \<in> set (take i s)" by (simp add: s take_Cons' not_less)
  moreover have "hd s \<in> set s" using s by (intro hd_in_set) auto
  then have "hd s \<noteq> CHR ''[''" using assms hex_char_plain unfolding v6_text_def by fastforce
  ultimately show ?thesis using i(1) by (simp add: SplitHost_def)
qed

text \<open>The text of sixteen bytes.\<close>

lemma IP_String_v4:
  assumes "is_bytes [a, b, c, d]"
  shows "ParseIP (join_with ''.'' (map itoa_nat [a, b, c, d])) = Some (v4_prefix @ [a, b, c, d])"
    and "SplitHost (join_with ''.'' (map itoa_nat [a, b, c, d])) = None"
    and "length (join_with ''.'' (map itoa_nat [a, b, c, d])) \<le> 39"
proof -
  let ?P = "\<lambda>c. c \<noteq> CHR ''.'' \<and> c \<noteq> CHR '':'' \<and> c \<noteq> CHR ''%''" and ?s = "join_with ''.'' (map itoa_nat [a, b, c, d])"
  have "?s = itoa_nat a @ CHR ''.'' # join_with ''.'' (map itoa_nat [b, c, d])" by simp
  moreover have "\<forall>c \<in> set (itoa_nat a). ?P c" using itoa_nat_chars hex_char_plain by blast
  ultimately have "dropWhile ?P ?s = CHR ''.'' # join_with ''.'' (map itoa_nat [b, c, d])"
    by (simp add: dropWhile_append2)
  then show "ParseIP ?s = Some (v4_prefix @ [a, b, c, d])"
    using parseIPv4_text [OF assms] by (simp add: ParseIP_def)
  have "CHR '':'' \<notin> set ?s" using itoa_nat_chars hex_char_plain by fastforce
  then show "SplitHost ?s = None" by (simp add: SplitHost_def last_index_def)
  show "length ?s \<le> 39"
    using assms itoa_nat_short [of a] itoa_nat_short [of b] itoa_nat_short [of c] itoa_nat_short [of d] by simp
qed

lemma IP_String_v6:
  assumes "length ip = 16" "is_bytes ip" "take 12 ip \<noteq> v4_prefix"
  shows "v6_text (IP_String ip) \<and> parseIPv6 (IP_String ip) = Some ip"
proof -
  let ?gs = "groups_of ip"
  have gs: "group_bytes ?gs = ip" "\<forall>g \<in> set ?gs. g < 65536" using groups_of_bytes [OF assms(2)] assms(1) by auto
  have "2 * length ?gs = 16" using gs(1) assms(1) group_bytes_length [of ?gs] by simp
  then have eight: "length ?gs = 8" by simp
  show ?thesis
  proof (cases "best_run ?gs")
    case None
    then have "IP_String ip = colon_text ?gs" using assms(3) by (simp add: IP_String_def Let_def colon_text_def)
    then show ?thesis using v6_text_plain [OF eight gs(2)] parseIPv6_plain [OF eight gs(2)] gs(1) by simp
  next
    case (Some r)
    then obtain i n where run: "best_run ?gs = Some (i, n)" by (cases r) auto
    then have n: "2 \<le> n" "n = zero_run ?gs i" using best_run_Some by auto
    let ?ls = "take i ?gs" and ?rs = "drop (i + n) ?gs"
    have split: "?gs = ?ls @ replicate n 0 @ ?rs" using zero_run_split [of ?gs i] n(2) by simp
    have len: "length ?ls + n + length ?rs = 8" using arg_cong [OF split, of length] eight by simp
    have small: "\<forall>g \<in> set (?ls @ ?rs). g < 65536" using gs(2) by (auto dest: in_set_takeD in_set_dropD)
    have six: "length ?ls + length ?rs \<le> 6" using len n(1) by linarith
    have zeros: "16 - 2 * (length ?ls + length ?rs) = 2 * n" using len by arith
    have printed: "IP_String ip = colon_text ?ls @ ''::'' @ colon_text ?rs"
      using assms(3) run by (simp add: IP_String_def Let_def colon_text_def)
    have "group_bytes ?ls @ replicate (2 * n) 0 @ group_bytes ?rs = ip"
      using arg_cong [OF split, of group_bytes] gs(1) by (simp only: group_bytes_simps group_bytes_zeros)
    then show ?thesis
      unfolding printed using v6_text_run [OF six small] parseIPv6_run [OF six small] zeros by simp
  qed
qed

lemma four_bytes: "length xs = 4 \<Longrightarrow> \<exists>a b c d. xs = [a, b, c, d]"
  by (auto simp: numeral_eq_Suc length_Suc_conv)

lemma IP_String_canonical:
  assumes "length ip = 16" "is_bytes ip"
  shows "ParseIP (IP_String ip) = Some ip \<and> SplitHost (IP_String ip) = None \<and> length (IP_String ip) \<le> 39"
proof (cases "take 12 ip = v4_prefix")
  case True
  have "length (drop 12 ip) = 4" "is_bytes (drop 12 ip)" using assms is_bytes_parts by auto
  then obtain a b c d where four: "drop 12 ip = [a, b, c, d]" using four_bytes by blast
  have bytes: "is_bytes [a, b, c, d]" using is_bytes_parts(2) [OF assms(2), of 12] unfolding four .
  have "IP_String ip = join_with ''.'' (map itoa_nat [a, b, c, d])" unfolding IP_String_def if_P [OF True] four ..
  moreover have "ip = v4_prefix @ [a, b, c, d]" using append_take_drop_id [of 12 ip] unfolding True four by simp
  ultimately show ?thesis using IP_String_v4 [OF bytes] by simp
next
  case False
  then show ?thesis
    using IP_String_v6 [OF assms False] ParseIP_v6 SplitHost_v6 by (auto simp: v6_text_def)
qed

end
