(* ===== verification/Auth_Identity.thy ===== *)
theory Auth_Identity
  imports Workspace_Store Go_Sha256 Go_Net_Text
begin

text \<open>
  auth/errors.go, auth/request_meta.go and the pure parts of auth/session.go: errors, the audit
  context of a request, normalisation of identities and invitation codes, hashing of secrets,
  and the public forms of an actor. The parsing of an avatar URL by package \<open>net/url\<close> is the
  parameter \<open>avatar\<close>.
\<close>

section \<open>Errors\<close>

definition wrapInternal :: "string \<Rightarrow> string \<Rightarrow> Error" where
  "wrapInternal message cause = internalError message cause"

definition requiredError :: Error where
  "requiredError = NewError ''auth.required'' (utf8 [0x8BF7, 0x5148, 0x767B, 0x5F55, 0x5171, 0x4EAB, 0x7A7A, 0x95F4]) 401"

definition invalidProfileError :: Error where
  "invalidProfileError = NewError ''auth.invalid_profile'' (utf8 [0x0047, 0x0069, 0x0074, 0x0048, 0x0075, 0x0062, 0x0020, 0x8EAB, 0x4EFD, 0x4FE1, 0x606F, 0x4E0D, 0x5B8C, 0x6574]) 400"

definition isCode :: "go_error \<Rightarrow> string \<Rightarrow> bool" where
  "isCode err code \<longleftrightarrow> (case err of Domain e \<Rightarrow> err_Code e = code | Foreign _ \<Rightarrow> False)"

section \<open>The audit context of a request\<close>

record RequestMeta =
  me_RequestID :: string
  me_IPAddress :: string
  me_UserAgent :: string

definition control_rune :: "rune \<Rightarrow> bool" where
  "control_rune r \<longleftrightarrow> r < 0x20 \<or> r = 0x7F"

definition containsControl :: "string \<Rightarrow> bool" where
  "containsControl v = list_ex (\<lambda>p. control_rune (fst p)) (runes v)"

definition normalizeMetaField :: "string \<Rightarrow> nat \<Rightarrow> string" where
  "normalizeMetaField value0 maxBytes =
    (let v = take maxBytes (TrimSpace value0) in if containsControl v then [] else v)"

definition normalizeIPAddress :: "string \<Rightarrow> string" where
  "normalizeIPAddress value0 =
    (let v = TrimSpace value0;
         v1 = (if HasPrefix v ''['' \<and> v \<noteq> [] \<and> List.last v = CHR '']'' then take (length v - 2) (drop 1 v) else v);
         v2 = (case SplitHost v1 of Some host \<Rightarrow> host | None \<Rightarrow> v1)
     in case ParseIP v2 of None \<Rightarrow> [] | Some ip \<Rightarrow> IP_String ip)"

definition Safe :: "RequestMeta \<Rightarrow> RequestMeta" where
  "Safe meta = \<lparr>me_RequestID = normalizeMetaField (me_RequestID meta) 128, me_IPAddress = normalizeIPAddress (me_IPAddress meta),
     me_UserAgent = normalizeMetaField (me_UserAgent meta) 512\<rparr>"

fun first_ip :: "string list \<Rightarrow> string" where
  "first_ip [] = []"
| "first_ip (c # cs) = (let ip = normalizeIPAddress c in if ip \<noteq> [] then ip else first_ip cs)"

definition forwardedIPAddress :: "string \<Rightarrow> string" where
  "forwardedIPAddress v = first_ip (split_at (CHR '','') v)"

definition RequestMetaFromRequest :: "bool \<Rightarrow> string \<Rightarrow> string \<Rightarrow> string \<Rightarrow> string \<Rightarrow> RequestMeta" where
  "RequestMetaFromRequest trustProxy remoteAddr forwardedFor requestID userAgent =
    (let remote = normalizeIPAddress remoteAddr; forwarded = forwardedIPAddress forwardedFor
     in Safe \<lparr>me_RequestID = requestID, me_IPAddress = (if trustProxy \<and> forwarded \<noteq> [] then forwarded else remote), me_UserAgent = userAgent\<rparr>)"

section \<open>Secrets\<close>

definition HashSecret :: "string \<Rightarrow> string" where
  "HashSecret secret = hex_EncodeToString (sha256 secret)"

definition SessionTokenBytes :: nat where "SessionTokenBytes = 32"

text \<open>The token of the random bytes drawn.\<close>

definition session_token :: "string \<Rightarrow> string" where
  "session_token random = RawURLEncoding random"

lemma HashSecret_length: "length (HashSecret s) = 64"
  by (simp add: HashSecret_def hex_length sha256_length)

lemma HashSecret_nonempty [simp]: "HashSecret s \<noteq> []"
  using HashSecret_length [of s] by auto

lemma TrimSpace_HashSecret [simp]: "TrimSpace (HashSecret s) = HashSecret s"
proof -
  have "list_all (\<lambda>c. byte_of c < 0x80 \<and> \<not> is_space (byte_of c)) hex_alphabet" by code_simp
  then have "byte_of c < 0x80 \<and> \<not> is_space (byte_of c)" if "c \<in> set (HashSecret s)" for c
    using that hex_chars unfolding HashSecret_def list_all_iff by blast
  then show ?thesis
    unfolding TrimSpace_def by (intro trim_func_noop_ascii) (auto simp: is_ascii_def)
qed

section \<open>Identities\<close>

record AuthActor = Actor +
  actor_GitHubID :: string
  actor_GitHubLogin :: string
  actor_Email :: string
  actor_DisplayName :: string
  actor_Nickname :: string
  actor_AvatarURL :: string
  actor_SearchDiscoverable :: bool
  actor_JoinedAt :: time

record GitHubProfile =
  gp_ID :: string
  gp_Login :: string
  gp_Email :: string
  gp_Name :: string
  gp_AvatarURL :: string

definition normalizeField :: "string \<Rightarrow> nat \<Rightarrow> string" where
  "normalizeField value0 maxBytes =
    (let v = TrimSpace value0 in if length v > maxBytes \<or> containsControl v then [] else v)"

definition NormalizeGitHubProfile :: "(string \<Rightarrow> string) \<Rightarrow> GitHubProfile \<Rightarrow> (Error, GitHubProfile) result" where
  "NormalizeGitHubProfile avatar profile =
    (let p = \<lparr>gp_ID = normalizeField (gp_ID profile) 128, gp_Login = normalizeField (gp_Login profile) 256,
           gp_Email = normalizeField (gp_Email profile) 320, gp_Name = normalizeField (gp_Name profile) 256, gp_AvatarURL = avatar (gp_AvatarURL profile)\<rparr>
     in if gp_Login p = [] \<and> gp_Email p = [] \<and> gp_ID p = [] then Inl invalidProfileError
        else Inr (if gp_Name p = [] then p\<lparr>gp_Name := gp_Login p\<rparr> else p))"

definition NormalizeInviteCode :: "string \<Rightarrow> string" where
  "NormalizeInviteCode value0 =
    (let v = TrimSpace value0 in
     if v = [] \<or> length v > 256 then []
     else if list_ex (\<lambda>(r, _). r < 0x21 \<or> r > 0x7E \<or> r = 0x3B \<or> r = 0x2C \<or> r = 0x5C \<or> r = 0x22) (runes v) then []
     else v)"

definition normalizeInviteRejectionReason :: "string \<Rightarrow> string" where
  "normalizeInviteRejectionReason reason =
    (if TrimSpace reason = ''auth.github_required'' then ''auth.github_required'' else ''invite.invalid'')"

definition normalizeOAuthFailurePhase :: "string \<Rightarrow> string" where
  "normalizeOAuthFailurePhase v = (if v = ''token'' \<or> v = ''profile'' \<or> v = ''email'' then v else ''exchange'')"

section \<open>Time\<close>

text \<open>\<open>clock\<close> is the system clock, used where the given time is zero.\<close>

definition normalizeTimestamp :: "time \<Rightarrow> time \<Rightarrow> time" where
  "normalizeTimestamp clock v = trunc_ms (if v = zero_time then clock else v)"

definition externalTime :: "time \<Rightarrow> string" where
  "externalTime v = (if v = zero_time then [] else format_millis v)"

section \<open>Public forms\<close>

definition publicMemberRole :: "string \<Rightarrow> string" where
  "publicMemberRole role =
    (if role = ''owner'' then ''admin'' else if role = ''auditor'' then ''member''
     else if role = ''admin'' \<or> role = ''member'' then role else ''member'')"

definition publicRoleLabel :: "string \<Rightarrow> string" where
  "publicRoleLabel role = (if publicMemberRole role = ''admin'' then (utf8 [0x7BA1, 0x7406, 0x5458]) else (utf8 [0x6210, 0x5458]))"

definition auth_canJoinGroups :: "AuthActor \<Rightarrow> bool" where
  "auth_canJoinGroups actor \<longleftrightarrow> actor_Kind actor = ''human'' \<and>
     (actor_Role actor = ''owner'' \<or> actor_Role actor = ''admin'' \<or> actor_Role actor = ''member'')"

text \<open>A \<open>map[string]any\<close> is marshalled with its keys sorted; absent entries are left out.\<close>

definition json_map :: "(string \<times> json option) list \<Rightarrow> json" where
  "json_map entries = JObj (List.map_filter (\<lambda>(k, v). map_option (Pair k) v) entries)"

definition joined_field :: "AuthActor \<Rightarrow> json option" where
  "joined_field actor = (if actor_JoinedAt actor = zero_time then None else Some (JStr (externalTime (actor_JoinedAt actor))))"

definition nickname_field :: "AuthActor \<Rightarrow> json" where
  "nickname_field actor = (if actor_Nickname actor = [] then JNull else JStr (actor_Nickname actor))"

definition PublicActor :: "AuthActor \<Rightarrow> json" where
  "PublicActor actor =
    (let human = actor_Kind actor = ''human'';
         displayName = (if \<not> human then actor_DisplayName actor else if actor_Nickname actor \<noteq> [] then actor_Nickname actor
           else if actor_GitHubLogin actor \<noteq> [] then actor_GitHubLogin actor else actor_DisplayName actor)
     in json_map
       [(''avatarUrl'', Some (JStr (actor_AvatarURL actor))), (''displayName'', Some (JStr displayName)),
        (''githubLogin'', Some (JStr (actor_GitHubLogin actor))), (''id'', Some (JStr (actor_ID actor))),
        (''joinedAt'', joined_field actor), (''kind'', Some (JStr (actor_Kind actor))),
        (''nickname'', if human then Some (nickname_field actor) else None), (''role'', Some (JStr (actor_Role actor))),
        (''searchDiscoverable'', if human then Some (JBool (actor_SearchDiscoverable actor)) else None)])"

definition PublicMemberProjection :: "AuthActor \<Rightarrow> json" where
  "PublicMemberProjection actor =
    (let human = actor_Kind actor = ''human'';
         displayName = (if human then (if actor_Nickname actor \<noteq> [] then actor_Nickname actor
             else if actor_GitHubLogin actor \<noteq> [] then actor_GitHubLogin actor else (utf8 [0x6210, 0x5458]))
           else if actor_DisplayName actor = [] then ''Bot'' else actor_DisplayName actor)
     in json_map
       [(''avatarUrl'', Some (JStr (actor_AvatarURL actor))),
        (''capabilities'', Some (JObj [(''canJoinGroups'', JBool (auth_canJoinGroups actor)), (''canManage'', JBool False),
           (''canStartDirectConversation'', JBool False)])),
        (''displayName'', Some (JStr displayName)), (''githubLogin'', if human then Some (JStr (actor_GitHubLogin actor)) else None),
        (''id'', Some (JStr (actor_ID actor))), (''joinedAt'', joined_field actor), (''kind'', Some (JStr (actor_Kind actor))),
        (''nickname'', if human then Some (nickname_field actor) else None), (''role'', Some (JStr (publicMemberRole (actor_Role actor)))),
        (''roleLabel'', Some (JStr (publicRoleLabel (actor_Role actor))))])"

section \<open>The audit context is safe to store\<close>

lemma normalizeIPAddress_chars: "list_all ip_char (normalizeIPAddress v)"
  by (simp add: normalizeIPAddress_def Let_def IP_String_chars split: option.split)

lemma TrimSpace_ip: "list_all ip_char s \<Longrightarrow> TrimSpace s = s"
proof -
  assume s: "list_all ip_char s"
  have "list_all (\<lambda>c. byte_of c < 0x80 \<and> \<not> is_space (byte_of c)) ''0123456789abcdef.:''" by code_simp
  then have "byte_of c < 0x80 \<and> \<not> is_space (byte_of c)" if "c \<in> set s" for c
    using s that unfolding list_all_iff ip_char_def by blast
  then show "TrimSpace s = s"
    unfolding TrimSpace_def by (intro trim_func_noop_ascii) (auto simp: is_ascii_def)
qed

text \<open>An address is empty or the canonical text of sixteen bytes, and normalising it again changes nothing.\<close>

definition address_of :: "string \<Rightarrow> nat list \<Rightarrow> bool" where
  "address_of addr ip \<longleftrightarrow> length ip = 16 \<and> list_all (\<lambda>b. b < 256) ip \<and> addr = IP_String ip \<and> ParseIP addr = Some ip"

lemma normalizeIPAddress_cases: "normalizeIPAddress v = [] \<or> (\<exists>ip. address_of (normalizeIPAddress v) ip)"
proof (cases "normalizeIPAddress v = []")
  case False
  then obtain w ip where "ParseIP w = Some ip" "normalizeIPAddress v = IP_String ip"
    by (auto simp: normalizeIPAddress_def Let_def split: option.split_asm)
  moreover from this have "length ip = 16" "is_bytes ip" using ParseIP_bytes by auto
  ultimately show ?thesis using IP_String_canonical unfolding address_of_def is_bytes_def list_all_iff by auto
qed simp

lemma address_of_bounds:
  assumes "address_of addr ip"
  shows "length addr \<le> 39" "SplitHost addr = None"
  using assms IP_String_canonical [of ip] unfolding address_of_def is_bytes_def list_all_iff by auto

lemma normalizeIPAddress_idem: "normalizeIPAddress (normalizeIPAddress v) = normalizeIPAddress v"
proof (cases "normalizeIPAddress v = []")
  case True
  moreover have "normalizeIPAddress [] = []" by code_simp
  ultimately show ?thesis by simp
next
  case False
  define addr where "addr = normalizeIPAddress v"
  obtain ip where ip: "address_of addr ip" using normalizeIPAddress_cases False unfolding addr_def by blast
  then have parsed: "ParseIP addr = Some ip" "IP_String ip = addr" unfolding address_of_def by metis+
  have chars: "list_all ip_char addr" unfolding addr_def by (rule normalizeIPAddress_chars)
  then have "\<not> HasPrefix addr ''[''" by (cases addr) (auto simp: HasPrefix_def ip_char_def)
  then show ?thesis
    using parsed address_of_bounds(2) [OF ip] TrimSpace_ip [OF chars] unfolding addr_def [symmetric]
    by (simp add: normalizeIPAddress_def Let_def)
qed

lemma forwardedIPAddress_normal: "normalizeIPAddress (forwardedIPAddress v) = forwardedIPAddress v"
proof -
  have "normalizeIPAddress [] = []" by code_simp
  then have "normalizeIPAddress (first_ip cs) = first_ip cs" for cs
    by (induction cs) (simp_all add: Let_def normalizeIPAddress_idem)
  then show ?thesis by (simp add: forwardedIPAddress_def)
qed

text \<open>
  C32 (auth/request_meta.go: Safe, RequestMetaFromRequest). Whatever headers a request carries, the request id
  and the user agent stored with an audit entry have at most 128 and 512 bytes and no control
  character. The address is that of the connection unless the proxy is trusted and names
  one; it is empty or the canonical text of sixteen bytes, the one that \<open>IP.String\<close> prints
  for them and that parses back to them, in at most 39 characters, and
  normalising it again changes nothing.
\<close>

theorem request_meta_safe:
  "case RequestMetaFromRequest trustProxy remoteAddr forwardedFor requestID userAgent of meta \<Rightarrow>
     length (me_RequestID meta) \<le> 128 \<and> length (me_UserAgent meta) \<le> 512 \<and>
     \<not> containsControl (me_RequestID meta) \<and> \<not> containsControl (me_UserAgent meta) \<and>
     me_IPAddress meta = (if trustProxy \<and> forwardedIPAddress forwardedFor \<noteq> [] then forwardedIPAddress forwardedFor
       else normalizeIPAddress remoteAddr) \<and>
     (me_IPAddress meta = [] \<or> (\<exists>ip. address_of (me_IPAddress meta) ip)) \<and>
     list_all ip_char (me_IPAddress meta) \<and> length (me_IPAddress meta) \<le> 39 \<and>
     normalizeIPAddress (me_IPAddress meta) = me_IPAddress meta"
proof -
  have field: "length (normalizeMetaField v n) \<le> n \<and> \<not> containsControl (normalizeMetaField v n)" for v n
    by (auto simp: normalizeMetaField_def Let_def containsControl_def)
  have addr: "(normalizeIPAddress v = [] \<or> (\<exists>ip. address_of (normalizeIPAddress v) ip)) \<and> length (normalizeIPAddress v) \<le> 39" for v
    using normalizeIPAddress_cases [of v] address_of_bounds(1) by auto
  show ?thesis
    using field [of requestID 128] field [of userAgent 512] addr
    by (simp add: RequestMetaFromRequest_def Safe_def normalizeIPAddress_chars normalizeIPAddress_idem forwardedIPAddress_normal Let_def)
qed

text \<open>
  The bound is on bytes: a user agent whose 512th byte lies inside a character is cut there,
  and the stored text is no UTF-8, which PostgreSQL refuses. Header bytes that are no UTF-8
  pass in the same way.
\<close>

lemma meta_cut_breaks_utf8:
  "\<exists>r \<in> set (runes (normalizeMetaField (utf8 [0x41, 0x4E2D]) 2)). fst r = RuneError"
  by code_simp

end
