(* ===== verification/Workspace_History.thy ===== *)
theory Workspace_History
  imports Workspace_Store
begin

text \<open>
  What no operation undoes. A table evolves when its rows only change the way its order allows
  and rows are only added under new keys; the database goes forward when the tables of
  identities, secrets and invitations evolve and the two logs keep their entries.
\<close>

section \<open>Tables that evolve\<close>

definition evolve :: "('r \<Rightarrow> 'k) \<Rightarrow> ('r \<Rightarrow> 'r \<Rightarrow> bool) \<Rightarrow> 'r list \<Rightarrow> 'r list \<Rightarrow> bool" where
  "evolve key le xs ys \<longleftrightarrow>
     (\<forall>x \<in> set xs. \<exists>y \<in> set ys. le x y) \<and> (\<forall>y \<in> set ys. (\<exists>x \<in> set xs. le x y) \<or> key y \<notin> key ` set xs)"

text \<open>There is a row of the key, and every row of the key satisfies \<open>P\<close>.\<close>

definition settled :: "('r \<Rightarrow> 'k) \<Rightarrow> 'k \<Rightarrow> ('r \<Rightarrow> bool) \<Rightarrow> 'r list \<Rightarrow> bool" where
  "settled key k P xs \<longleftrightarrow> (\<exists>x \<in> set xs. key x = k) \<and> (\<forall>x \<in> set xs. key x = k \<longrightarrow> P x)"

locale row_order =
  fixes key :: "'r \<Rightarrow> 'k" and le :: "'r \<Rightarrow> 'r \<Rightarrow> bool"
  assumes le_refl: "le x x"
    and le_trans: "le x y \<Longrightarrow> le y z \<Longrightarrow> le x z"
    and le_key: "le x y \<Longrightarrow> key y = key x"
begin

lemma evolve_refl: "evolve key le xs xs"
  using le_refl by (auto simp: evolve_def)

lemma evolve_trans:
  assumes xy: "evolve key le xs ys" and yz: "evolve key le ys zs"
  shows "evolve key le xs zs"
  unfolding evolve_def
proof (intro conjI ballI)
  fix x assume "x \<in> set xs"
  then obtain y where y: "y \<in> set ys" "le x y" using xy by (auto simp: evolve_def)
  then obtain z where z: "z \<in> set zs" "le y z" using yz by (auto simp: evolve_def)
  show "\<exists>z \<in> set zs. le x z" using le_trans [OF y(2) z(2)] z(1) by blast
next
  fix z assume z: "z \<in> set zs"
  have keys: "key ` set xs \<subseteq> key ` set ys"
  proof
    fix k assume "k \<in> key ` set xs"
    then obtain x where x: "x \<in> set xs" "k = key x" by blast
    then obtain y where "y \<in> set ys" "le x y" using xy by (auto simp: evolve_def)
    then show "k \<in> key ` set ys" using le_key [of x y] x(2) by (auto intro: rev_image_eqI)
  qed
  show "(\<exists>x \<in> set xs. le x z) \<or> key z \<notin> key ` set xs"
  proof (cases "\<exists>y \<in> set ys. le y z")
    case True
    then obtain y where y: "y \<in> set ys" "le y z" by blast
    then have "(\<exists>x \<in> set xs. le x y) \<or> key y \<notin> key ` set xs" using xy unfolding evolve_def by blast
    then show ?thesis using le_trans [OF _ y(2)] le_key [OF y(2)] by auto
  next
    case False
    then have "key z \<notin> key ` set ys" using yz z unfolding evolve_def by blast
    then show ?thesis using keys by blast
  qed
qed

lemma evolve_append: "key r \<notin> key ` set xs \<Longrightarrow> evolve key le xs (xs @ [r])"
  using le_refl by (auto simp: evolve_def)

lemma evolve_map: "(\<And>x. x \<in> set xs \<Longrightarrow> le x (f x)) \<Longrightarrow> evolve key le xs (map f xs)"
  by (auto simp: evolve_def)

lemma evolve_settled:
  assumes "evolve key le xs ys" "settled key k P xs" "\<And>x y. le x y \<Longrightarrow> P x \<Longrightarrow> P y"
  shows "settled key k P ys"
proof -
  obtain x where x: "x \<in> set xs" "key x = k" using assms(2) unfolding settled_def by blast
  then obtain y where "y \<in> set ys" "le x y" using assms(1) by (auto simp: evolve_def)
  then have "\<exists>y \<in> set ys. key y = k" using le_key x(2) by auto
  moreover have "P y" if y: "y \<in> set ys" "key y = k" for y
  proof -
    have "key y \<in> key ` set xs" using x y by force
    then obtain x' where x': "x' \<in> set xs" "le x' y" using assms(1) y(1) unfolding evolve_def by blast
    then have "P x'" using assms(2) le_key [OF x'(2)] y(2) unfolding settled_def by simp
    then show ?thesis using assms(3) x'(2) by blast
  qed
  ultimately show ?thesis unfolding settled_def by blast
qed

end

section \<open>The orders of the rows\<close>

definition stays :: "'a option \<Rightarrow> 'a option \<Rightarrow> bool" where
  "stays a b \<longleftrightarrow> (a \<noteq> None \<longrightarrow> b \<noteq> None)"

definition fixed :: "'a option \<Rightarrow> 'a option \<Rightarrow> bool" where
  "fixed a b \<longleftrightarrow> (a \<noteq> None \<longrightarrow> b = a)"

definition session_le :: "session_row \<Rightarrow> session_row \<Rightarrow> bool" where
  "session_le x y \<longleftrightarrow> se_token_hash y = se_token_hash x \<and> se_user_id y = se_user_id x \<and> se_expires_at y = se_expires_at x \<and>
     stays (se_revoked_at x) (se_revoked_at y)"

definition family_le :: "family_row \<Rightarrow> family_row \<Rightarrow> bool" where
  "family_le x y \<longleftrightarrow> fm_id y = fm_id x \<and> fm_user_id y = fm_user_id x \<and> fm_expires_at y = fm_expires_at x \<and>
     stays (fm_revoked_at x) (fm_revoked_at y)"

definition refresh_le :: "refresh_row \<Rightarrow> refresh_row \<Rightarrow> bool" where
  "refresh_le x y \<longleftrightarrow> rf_token_hash y = rf_token_hash x \<and> rf_family_id y = rf_family_id x \<and> stays (rf_consumed_at x) (rf_consumed_at y)"

definition flow_le :: "flow_row \<Rightarrow> flow_row \<Rightarrow> bool" where
  "flow_le x y \<longleftrightarrow> fl_id y = fl_id x \<and> fl_challenge y = fl_challenge x \<and> fl_redirect_uri y = fl_redirect_uri x \<and>
     fixed (fl_user_id x) (fl_user_id y) \<and> stays (fl_consumed_at x) (fl_consumed_at y) \<and>
     (fl_user_id x \<noteq> None \<longrightarrow> fl_code_hash y = fl_code_hash x)"

definition invite_le :: "invite_row \<Rightarrow> invite_row \<Rightarrow> bool" where
  "invite_le x y \<longleftrightarrow> iv_id y = iv_id x \<and> iv_space_id y = iv_space_id x \<and> iv_code_hash y = iv_code_hash x \<and> iv_default_role y = iv_default_role x \<and>
     iv_max_uses y = iv_max_uses x \<and> iv_expires_at y = iv_expires_at x \<and> iv_uses x \<le> iv_uses y \<and>
     (iv_uses x \<le> iv_max_uses x \<longrightarrow> iv_uses y \<le> iv_max_uses x) \<and> stays (iv_revoked_at x) (iv_revoked_at y)"

definition account_le :: "account_row \<Rightarrow> account_row \<Rightarrow> bool" where
  "account_le x y \<longleftrightarrow> ac_id y = ac_id x \<and> ac_kind y = ac_kind x \<and> fixed (ac_github_id x) (ac_github_id y)"

named_theorems row_le

lemmas row_le_defs [row_le] = session_le_def family_le_def refresh_le_def flow_le_def invite_le_def account_le_def stays_def fixed_def

interpretation session_rows: row_order se_token_hash session_le
  by unfold_locales (auto simp: row_le)

interpretation family_rows: row_order fm_id family_le
  by unfold_locales (auto simp: row_le)

interpretation refresh_rows: row_order rf_token_hash refresh_le
  by unfold_locales (auto simp: row_le)

interpretation flow_rows: row_order fl_id flow_le
  by unfold_locales (auto simp: row_le)

interpretation invite_rows: row_order iv_id invite_le
  by unfold_locales (auto simp: row_le)

interpretation account_rows: row_order ac_id account_le
  by unfold_locales (auto simp: row_le)

interpretation access_rows: row_order ax_token_hash "(=)"
  by unfold_locales auto

section \<open>The database goes forward\<close>

text \<open>The code of a login flow is unique among the flows; it is spent when its flow is consumed.\<close>

definition code_spent :: "string \<Rightarrow> flow_row list \<Rightarrow> bool" where
  "code_spent h fs = settled fl_code_hash (Some h) (\<lambda>f. fl_consumed_at f \<noteq> None) fs"

definition invites_ok :: "workspace \<Rightarrow> bool" where
  "invites_ok ws = list_all (\<lambda>iv. 0 \<le> iv_uses iv \<and> iv_uses iv \<le> iv_max_uses iv) (ws_invites ws)"

definition forward :: "workspace \<Rightarrow> workspace \<Rightarrow> bool" where
  "forward a b \<longleftrightarrow>
     evolve ac_id account_le (ws_users a) (ws_users b) \<and>
     evolve se_token_hash session_le (ws_sessions a) (ws_sessions b) \<and>
     evolve iv_id invite_le (ws_invites a) (ws_invites b) \<and>
     (invites_ok a \<longrightarrow> invites_ok b) \<and>
     evolve fl_id flow_le (ws_flows a) (ws_flows b) \<and>
     (\<forall>h. code_spent h (ws_flows a) \<longrightarrow> code_spent h (ws_flows b)) \<and>
     evolve fm_id family_le (ws_families a) (ws_families b) \<and>
     evolve rf_token_hash refresh_le (ws_refresh a) (ws_refresh b) \<and>
     evolve ax_token_hash (=) (ws_access a) (ws_access b) \<and>
     set (ws_audit a) \<subseteq> set (ws_audit b) \<and>
     set (workspace_events (ws_rest a)) \<subseteq> set (workspace_events (ws_rest b))"

lemmas evolve_refls = account_rows.evolve_refl session_rows.evolve_refl invite_rows.evolve_refl flow_rows.evolve_refl
  family_rows.evolve_refl refresh_rows.evolve_refl access_rows.evolve_refl

interpretation forward: effect forward
proof unfold_locales
  show "forward ws ws" for ws by (simp add: forward_def evolve_refls)
  show "forward a c" if "forward a b" "forward b c" for a b c
    using that unfolding forward_def
    by (blast intro: account_rows.evolve_trans session_rows.evolve_trans invite_rows.evolve_trans flow_rows.evolve_trans
        family_rows.evolve_trans refresh_rows.evolve_trans access_rows.evolve_trans)
qed

text \<open>A statement that writes one table moves the database forward when that table evolves.\<close>

lemma forward_tables [simp]:
  "forward v (v\<lparr>ws_users := us\<rparr>) = evolve ac_id account_le (ws_users v) us"
  "forward v (v\<lparr>ws_sessions := ss\<rparr>) = evolve se_token_hash session_le (ws_sessions v) ss"
  "forward v (v\<lparr>ws_families := fs\<rparr>) = evolve fm_id family_le (ws_families v) fs"
  "forward v (v\<lparr>ws_refresh := rs\<rparr>) = evolve rf_token_hash refresh_le (ws_refresh v) rs"
  "forward v (v\<lparr>ws_access := axs\<rparr>) = evolve ax_token_hash (=) (ws_access v) axs"
  "forward v (v\<lparr>ws_audit := as\<rparr>) \<longleftrightarrow> set (ws_audit v) \<subseteq> set as"
  "forward v (v\<lparr>ws_rest := d\<rparr>) \<longleftrightarrow> set (workspace_events (ws_rest v)) \<subseteq> set (workspace_events d)"
  "forward v (v\<lparr>ws_members := ms\<rparr>)"
  "forward v (v\<lparr>ws_remarks := ks\<rparr>)"
  "forward v (v\<lparr>ws_rates := ls\<rparr>)"
  by (simp_all add: forward_def evolve_refls invites_ok_def)

lemma forward_invites:
  "forward v (v\<lparr>ws_invites := is\<rparr>) \<longleftrightarrow> evolve iv_id invite_le (ws_invites v) is \<and> (invites_ok v \<longrightarrow> invites_ok (v\<lparr>ws_invites := is\<rparr>))"
  by (simp add: forward_def evolve_refls)

lemma forward_flows:
  "forward v (v\<lparr>ws_flows := fs\<rparr>) \<longleftrightarrow> evolve fl_id flow_le (ws_flows v) fs \<and> (\<forall>h. code_spent h (ws_flows v) \<longrightarrow> code_spent h fs)"
  by (simp add: forward_def evolve_refls invites_ok_def)

lemma forward_insert_audit: "insert_audit r v = Inr (x, v') \<Longrightarrow> forward v v'"
  by (auto simp: insert_audit_def result_bind_def split: sum.splits)

section \<open>What stays settled\<close>

definition session_revoked :: "string \<Rightarrow> workspace \<Rightarrow> bool" where
  "session_revoked h ws = settled se_token_hash h (\<lambda>s. se_revoked_at s \<noteq> None) (ws_sessions ws)"

definition family_revoked :: "string \<Rightarrow> workspace \<Rightarrow> bool" where
  "family_revoked i ws = settled fm_id i (\<lambda>f. fm_revoked_at f \<noteq> None) (ws_families ws)"

definition family_deadline :: "string \<Rightarrow> time \<Rightarrow> workspace \<Rightarrow> bool" where
  "family_deadline i t ws = settled fm_id i (\<lambda>f. fm_expires_at f = t) (ws_families ws)"

definition refresh_spent :: "string \<Rightarrow> workspace \<Rightarrow> bool" where
  "refresh_spent h ws = settled rf_token_hash h (\<lambda>r. rf_consumed_at r \<noteq> None) (ws_refresh ws)"

definition refresh_family :: "string \<Rightarrow> string \<Rightarrow> workspace \<Rightarrow> bool" where
  "refresh_family h i ws = settled rf_token_hash h (\<lambda>r. rf_family_id r = i) (ws_refresh ws)"

definition access_family :: "string \<Rightarrow> string \<Rightarrow> workspace \<Rightarrow> bool" where
  "access_family h i ws = settled ax_token_hash h (\<lambda>r. ax_family_id r = i) (ws_access ws)"

definition invite_revoked :: "string \<Rightarrow> workspace \<Rightarrow> bool" where
  "invite_revoked i ws = settled iv_id i (\<lambda>r. iv_revoked_at r \<noteq> None) (ws_invites ws)"

definition github_bound :: "string \<Rightarrow> string \<Rightarrow> workspace \<Rightarrow> bool" where
  "github_bound i g ws = settled ac_id i (\<lambda>u. ac_github_id u = Some g) (ws_users ws)"

lemma forward_settled:
  assumes "forward a b"
  shows "session_revoked h a \<Longrightarrow> session_revoked h b"
    and "family_revoked i a \<Longrightarrow> family_revoked i b"
    and "family_deadline i t a \<Longrightarrow> family_deadline i t b"
    and "refresh_spent h a \<Longrightarrow> refresh_spent h b"
    and "refresh_family h i a \<Longrightarrow> refresh_family h i b"
    and "access_family h i a \<Longrightarrow> access_family h i b"
    and "invite_revoked i a \<Longrightarrow> invite_revoked i b"
    and "github_bound i g a \<Longrightarrow> github_bound i g b"
    and "code_spent h (ws_flows a) \<Longrightarrow> code_spent h (ws_flows b)"
    and "invites_ok a \<Longrightarrow> invites_ok b"
proof -
  note f = assms [unfolded forward_def]
  show "session_revoked h a \<Longrightarrow> session_revoked h b"
    unfolding session_revoked_def by (erule session_rows.evolve_settled [rotated]) (use f in \<open>auto simp: row_le\<close>)
  show "family_revoked i a \<Longrightarrow> family_revoked i b"
    unfolding family_revoked_def by (erule family_rows.evolve_settled [rotated]) (use f in \<open>auto simp: row_le\<close>)
  show "family_deadline i t a \<Longrightarrow> family_deadline i t b"
    unfolding family_deadline_def by (erule family_rows.evolve_settled [rotated]) (use f in \<open>auto simp: row_le\<close>)
  show "refresh_spent h a \<Longrightarrow> refresh_spent h b"
    unfolding refresh_spent_def by (erule refresh_rows.evolve_settled [rotated]) (use f in \<open>auto simp: row_le\<close>)
  show "refresh_family h i a \<Longrightarrow> refresh_family h i b"
    unfolding refresh_family_def by (erule refresh_rows.evolve_settled [rotated]) (use f in \<open>auto simp: row_le\<close>)
  show "access_family h i a \<Longrightarrow> access_family h i b"
    unfolding access_family_def by (erule access_rows.evolve_settled [rotated]) (use f in auto)
  show "invite_revoked i a \<Longrightarrow> invite_revoked i b"
    unfolding invite_revoked_def by (erule invite_rows.evolve_settled [rotated]) (use f in \<open>auto simp: row_le\<close>)
  show "github_bound i g a \<Longrightarrow> github_bound i g b"
    unfolding github_bound_def by (erule account_rows.evolve_settled [rotated]) (use f in \<open>auto simp: row_le\<close>)
  show "code_spent h (ws_flows a) \<Longrightarrow> code_spent h (ws_flows b)" using f by blast
  show "invites_ok a \<Longrightarrow> invites_ok b" using f by blast
qed

text \<open>The logs keep their entries.\<close>

lemma forward_logs:
  assumes "forward a b"
  shows "r \<in> set (ws_audit a) \<Longrightarrow> r \<in> set (ws_audit b)"
    and "ev \<in> set (workspace_events (ws_rest a)) \<Longrightarrow> ev \<in> set (workspace_events (ws_rest b))"
  using assms by (auto simp: forward_def)

end
