(* ===== verification/Auth_Sessions.thy ===== *)
theory Auth_Sessions
  imports Auth_Identity Workspace_History
begin

text \<open>
  The sessions of a browser: auth/session.go Service and the session statements of
  auth/pg_store.go. Only the hash of a token is stored; a token resolves to its user while the
  session is neither revoked nor expired and the user is an active human member.
\<close>

section \<open>Rows\<close>

definition DefaultSpaceID :: string where "DefaultSpaceID = ''spc_default''"

definition DefaultSessionTTL :: duration where "DefaultSessionTTL = 14 * 24 * Hour"

record Session =
  ss_ID :: string
  ss_Token :: string
  ss_ExpiresAt :: time
  ss_UserID :: string

record SessionRecord =
  sr_ID :: string
  sr_TokenHash :: string
  sr_UserID :: string
  sr_CreatedAt :: time
  sr_ExpiresAt :: time

definition stringValue :: "string option \<Rightarrow> string" where
  "stringValue v = (case v of None \<Rightarrow> [] | Some s \<Rightarrow> s)"

type_synonym identityRecord = AuthActor

text \<open>A row of users with the row of space\_members joined to it, if there is one.\<close>

definition scanIdentity :: "account_row \<Rightarrow> member_row option \<Rightarrow> identityRecord" where
  "scanIdentity u m =
    \<lparr>actor_ID = ac_id u, actor_Kind = ac_kind u, actor_Role = (case m of None \<Rightarrow> [] | Some r \<Rightarrow> mb_role r),
     actor_GitHubID = stringValue (ac_github_id u), actor_GitHubLogin = ac_github_login u, actor_Email = stringValue (ac_email u),
     actor_DisplayName = ac_display_name u, actor_Nickname = stringValue (ac_nickname u), actor_AvatarURL = stringValue (ac_avatar_url u),
     actor_SearchDiscoverable = ac_search_discoverable u,
     actor_JoinedAt = (case m of None \<Rightarrow> zero_time | Some r \<Rightarrow> mb_joined_at r)\<rparr>"

definition scanActor :: "account_row \<Rightarrow> member_row \<Rightarrow> AuthActor" where
  "scanActor u m = scanIdentity u (Some m)"

text \<open>The join of users with their active membership of the space; \<open>human_members\<close> for humans only.\<close>

definition space_users :: "workspace \<Rightarrow> (account_row \<times> member_row) list" where
  "space_users ws = [(u, m). u \<leftarrow> ws_users ws, m \<leftarrow> ws_members ws, active_member DefaultSpaceID (ac_id u) m]"

definition human_members :: "workspace \<Rightarrow> (account_row \<times> member_row) list" where
  "human_members ws = filter (\<lambda>(u, m). ac_kind u = ''human'') (space_users ws)"

definition human_member :: "string \<Rightarrow> workspace \<Rightarrow> bool" where
  "human_member userID ws \<longleftrightarrow> (\<exists>(u, m) \<in> set (human_members ws). ac_id u = userID)"

section \<open>The store\<close>

definition newID :: "tx_env \<Rightarrow> string tx" where
  "newID e = io_bind (tx_newid e) (\<lambda>i.
     if TrimSpace i = [] then tx_fail (Foreign ''id factory returned an empty id'') else io_return i)"

definition insert_session :: "SessionRecord \<Rightarrow> workspace \<Rightarrow> (string, string option \<times> workspace) result" where
  "insert_session r ws =
    (case [u. (u, m) \<leftarrow> human_members ws, ac_id u = sr_UserID r] of
       [] \<Rightarrow> Inr (None, ws)
     | u # _ \<Rightarrow>
         let row = \<lparr>se_id = sr_ID r, se_token_hash = sr_TokenHash r, se_user_id = ac_id u, se_created_at = pg_timestamp (sr_CreatedAt r),
               se_expires_at = pg_timestamp (sr_ExpiresAt r), se_revoked_at = None\<rparr>
         in result_bind (insert_unique se_id row (ws_sessions ws)) (\<lambda>_.
            result_bind (insert_unique se_token_hash row (ws_sessions ws)) (\<lambda>rows. Inr (Some (sr_ID r), ws\<lparr>ws_sessions := rows\<rparr>))))"

definition PG_CreateSession :: "tx_env \<Rightarrow> SessionRecord \<Rightarrow> unit tx" where
  "PG_CreateSession e r =
    (if sr_ID r = [] \<or> sr_TokenHash r = [] \<or> sr_UserID r = [] \<or> sr_ExpiresAt r = zero_time \<or> sr_CreatedAt r = zero_time
     then tx_fail (Domain requiredError)
     else io_bind (tx_wrap ''insert session'' (tx_write e (insert_session r))) (\<lambda>inserted.
       case inserted of
         None \<Rightarrow> tx_fail (Domain requiredError)
       | Some i \<Rightarrow> if i = [] then tx_fail (Domain (wrapInternal ''insert session'' ''session insert returned no id'')) else io_return ()))"

definition session_live :: "string \<Rightarrow> time \<Rightarrow> session_row \<Rightarrow> bool" where
  "session_live tokenHash now s \<longleftrightarrow> se_token_hash s = tokenHash \<and> se_revoked_at s = None \<and> se_expires_at s > now"

definition session_actors :: "string \<Rightarrow> time \<Rightarrow> workspace \<Rightarrow> AuthActor list" where
  "session_actors tokenHash now ws =
    [scanActor u m. s \<leftarrow> ws_sessions ws, session_live tokenHash now s, (u, m) \<leftarrow> human_members ws, ac_id u = se_user_id s]"

definition LookupSessionActor :: "tx_env \<Rightarrow> string \<Rightarrow> time \<Rightarrow> AuthActor option tx" where
  "LookupSessionActor e tokenHash now =
    (if TrimSpace tokenHash = [] then io_return None
     else tx_wrap ''lookup session'' (tx_read e (\<lambda>ws. first_row (session_actors tokenHash now ws))))"

definition LookupActiveActorByID :: "tx_env \<Rightarrow> string \<Rightarrow> AuthActor option tx" where
  "LookupActiveActorByID e userID =
    (if TrimSpace userID = [] then io_return None
     else tx_wrap ''lookup actor'' (tx_read e (\<lambda>ws. first_row [scanActor u m. (u, m) \<leftarrow> human_members ws, ac_id u = userID])))"

definition PG_RevokeSession :: "tx_env \<Rightarrow> string \<Rightarrow> time \<Rightarrow> bool tx" where
  "PG_RevokeSession e tokenHash now =
    (if TrimSpace tokenHash = [] then io_return False
     else tx_wrap ''revoke session'' (tx_write e (\<lambda>ws.
       let hit = (\<lambda>s. se_token_hash s = tokenHash \<and> se_revoked_at s = None) in
       Inr (length (filter hit (ws_sessions ws)) = 1,
            ws\<lparr>ws_sessions := update_where hit (\<lambda>s. s\<lparr>se_revoked_at := Some (normalizeTimestamp (te_now e) now)\<rparr>) (ws_sessions ws)\<rparr>))))"

text \<open>The entries of the audit log for refused logins.\<close>

definition rejection_row :: "string \<Rightarrow> string \<Rightarrow> string \<Rightarrow> string option \<Rightarrow> string \<Rightarrow> RequestMeta \<Rightarrow> time \<Rightarrow> audit_row" where
  "rejection_row auditID action targetType targetID reason meta now =
    \<lparr>au_id = auditID, au_space_id = DefaultSpaceID, au_actor_user_id = None, au_actor_github_login = None, au_action = action,
     au_target_type = targetType, au_target_id = targetID, au_result = ''rejected'', au_reason = Some reason,
     au_ip_address = NULLIF_empty (me_IPAddress meta), au_user_agent = NULLIF_empty (me_UserAgent meta),
     au_request_id = NULLIF_empty (me_RequestID meta), au_created_at = now\<rparr>"

definition PG_RecordGitHubLoginRejection :: "tx_env \<Rightarrow> string \<Rightarrow> time \<Rightarrow> RequestMeta \<Rightarrow> unit tx" where
  "PG_RecordGitHubLoginRejection e phase now meta =
    io_bind (tx_wrap ''generate github rejection audit id'' (newID e)) (\<lambda>auditID.
      tx_wrap ''record github rejection'' (tx_write e (insert_audit (rejection_row auditID ''login.rejected'' ''github_oauth''
        (Some (normalizeOAuthFailurePhase phase)) ''auth.github_failed'' (Safe meta) (normalizeTimestamp (te_now e) now)))))"

definition PG_RecordInviteAcceptRejection :: "tx_env \<Rightarrow> string \<Rightarrow> time \<Rightarrow> RequestMeta \<Rightarrow> unit tx" where
  "PG_RecordInviteAcceptRejection e reason now meta =
    io_bind (tx_wrap ''generate invite acceptance rejection audit id'' (newID e)) (\<lambda>auditID.
      tx_wrap ''record invite acceptance rejection'' (tx_write e (insert_audit (rejection_row auditID ''invite.accept'' ''invite''
        None (normalizeInviteRejectionReason reason) (Safe meta) (normalizeTimestamp (te_now e) now)))))"

section \<open>The service\<close>

text \<open>\<open>te_now\<close> is the clock of the service, which is the system clock where none is configured.\<close>

definition normalizedNow :: "tx_env \<Rightarrow> time" where
  "normalizedNow e = trunc_ms (te_now e)"

definition NewSessionToken :: "tx_env \<Rightarrow> string tx" where
  "NewSessionToken e = io_bind (tx_newid e) (\<lambda>random. io_return (session_token random))"

definition session_ttl :: "duration \<Rightarrow> duration" where
  "session_ttl ttl = (if ttl \<le> 0 then DefaultSessionTTL else ttl)"

definition CreateSession :: "duration \<Rightarrow> tx_env \<Rightarrow> string \<Rightarrow> Session tx" where
  "CreateSession ttl e userID =
    (if TrimSpace userID = [] then tx_fail (Domain requiredError)
     else io_bind (tx_wrap ''generate session id'' (newID e)) (\<lambda>i.
       io_bind (tx_wrap ''generate session token'' (NewSessionToken e)) (\<lambda>token.
       let now = normalizedNow e;
           session = \<lparr>ss_ID = i, ss_Token = token, ss_ExpiresAt = now + session_ttl ttl, ss_UserID = TrimSpace userID\<rparr>;
           r = \<lparr>sr_ID = i, sr_TokenHash = HashSecret token, sr_UserID = ss_UserID session, sr_CreatedAt = now, sr_ExpiresAt = ss_ExpiresAt session\<rparr>
       in io_bind (tx_catch (PG_CreateSession e r) (\<lambda>err. tx_fail (if isCode err ''auth.required'' then Domain requiredError else err)))
            (\<lambda>_. io_return session))))"

definition actor_usable :: "AuthActor \<Rightarrow> bool" where
  "actor_usable a \<longleftrightarrow> actor_Kind a = ''human'' \<and> TrimSpace (actor_ID a) \<noteq> [] \<and> TrimSpace (actor_Role a) \<noteq> []"

definition require_usable :: "AuthActor option \<Rightarrow> AuthActor tx" where
  "require_usable a = (case a of Some actor \<Rightarrow> if actor_usable actor then io_return actor else tx_fail (Domain requiredError)
     | None \<Rightarrow> tx_fail (Domain requiredError))"

definition ResolveActor :: "tx_env \<Rightarrow> string \<Rightarrow> AuthActor tx" where
  "ResolveActor e token =
    (if TrimSpace token = [] then tx_fail (Domain requiredError)
     else io_bind (LookupSessionActor e (HashSecret token) (normalizedNow e)) require_usable)"

definition ResolveActorID :: "tx_env \<Rightarrow> string \<Rightarrow> AuthActor tx" where
  "ResolveActorID e userID0 =
    (let userID = normalizeField userID0 256 in
     if userID = [] then tx_fail (Domain requiredError)
     else io_bind (LookupActiveActorByID e userID) require_usable)"

text \<open>The session cookie of the request, if it has one.\<close>

definition ResolveActorFromRequest :: "tx_env \<Rightarrow> string option \<Rightarrow> AuthActor tx" where
  "ResolveActorFromRequest e cookie = (case cookie of None \<Rightarrow> tx_fail (Domain requiredError) | Some token \<Rightarrow> ResolveActor e token)"

definition RevokeSession :: "tx_env \<Rightarrow> string \<Rightarrow> bool tx" where
  "RevokeSession e token =
    (if TrimSpace token = [] then io_return False else PG_RevokeSession e (HashSecret token) (normalizedNow e))"

definition RecordGitHubLoginRejection :: "tx_env \<Rightarrow> string \<Rightarrow> RequestMeta \<Rightarrow> unit tx" where
  "RecordGitHubLoginRejection e phase meta =
    PG_RecordGitHubLoginRejection e (normalizeOAuthFailurePhase phase) (normalizedNow e) (Safe meta)"

definition RecordInviteAcceptRejection :: "tx_env \<Rightarrow> string \<Rightarrow> RequestMeta \<Rightarrow> unit tx" where
  "RecordInviteAcceptRejection e reason meta =
    PG_RecordInviteAcceptRejection e (normalizeInviteRejectionReason reason) (normalizedNow e) (Safe meta)"

section \<open>The operations go forward\<close>

lemma insert_session_forward: "insert_session r v = Inr (x, v') \<Longrightarrow> forward v v'"
  by (auto simp: insert_session_def Let_def result_bind_def forward.refl intro!: session_rows.evolve_append split: list.splits sum.splits)

lemma revoke_evolves:
  "evolve se_token_hash session_le rows (update_where p (\<lambda>s. s\<lparr>se_revoked_at := Some t\<rparr>) rows)"
  unfolding update_where_def by (rule session_rows.evolve_map) (simp add: row_le)

named_theorems tx_ops

lemmas session_ops [tx_ops] = newID_def NewSessionToken_def PG_CreateSession_def LookupSessionActor_def LookupActiveActorByID_def PG_RevokeSession_def
  PG_RecordGitHubLoginRejection_def PG_RecordInviteAcceptRejection_def require_usable_def

lemma sessions_forward:
  assumes "legal forward e"
  shows "moves forward (CreateSession ttl e userID)"
    and "moves forward (ResolveActor e token)"
    and "moves forward (ResolveActorID e user)"
    and "moves forward (RevokeSession e token)"
    and "moves forward (RecordGitHubLoginRejection e phase meta)"
    and "moves forward (RecordInviteAcceptRejection e reason meta)"
proof -
  note rules = forward.moves_rules forward.moves_write [OF assms]
  show "moves forward (CreateSession ttl e userID)"
    unfolding CreateSession_def tx_ops by (intro rules assms) (erule insert_session_forward)
  show "moves forward (ResolveActor e token)" unfolding ResolveActor_def tx_ops by (intro rules assms)
  show "moves forward (ResolveActorID e user)" unfolding ResolveActorID_def tx_ops by (intro rules assms)
  show "moves forward (RevokeSession e token)"
    unfolding RevokeSession_def tx_ops Let_def by (intro rules assms) (auto simp: revoke_evolves)
  show "moves forward (RecordGitHubLoginRejection e phase meta)"
    unfolding RecordGitHubLoginRejection_def tx_ops by (intro rules assms) (erule forward_insert_audit)
  show "moves forward (RecordInviteAcceptRejection e reason meta)"
    unfolding RecordInviteAcceptRejection_def tx_ops by (intro rules assms) (erule forward_insert_audit)
qed

section \<open>A token resolves only through its session\<close>

lemma human_members_iff:
  "(u, m) \<in> set (human_members ws) \<longleftrightarrow> u \<in> set (ws_users ws) \<and> m \<in> set (ws_members ws) \<and> active_member DefaultSpaceID (ac_id u) m \<and> ac_kind u = ''human''"
  by (auto simp: human_members_def space_users_def)

lemma session_actors_iff:
  "a \<in> set (session_actors h now ws) \<longleftrightarrow>
     (\<exists>s \<in> set (ws_sessions ws). \<exists>u m. session_live h now s \<and> (u, m) \<in> set (human_members ws) \<and> ac_id u = se_user_id s \<and> a = scanActor u m)"
  by (fastforce simp: session_actors_def)

lemma scanActor_simps [simp]: "actor_ID (scanActor u m) = ac_id u" "actor_Kind (scanActor u m) = ac_kind u" "actor_Role (scanActor u m) = mb_role m"
  by (simp_all add: scanActor_def scanIdentity_def)

lemmas tx_eval = Autocommit_def io_bind_def io_return_def tx_fail_def tx_wrap_def tx_read_def tx_write_def tx_newid_def tx_catch_def others_def Let_def

lemma ResolveActor_run:
  "Autocommit (ResolveActor e token) ws =
    (if TrimSpace token = [] then (Inl (Domain requiredError), ws)
     else (case te_fault e 0 of
        Some cause \<Rightarrow> Inl (Domain (internalError ''lookup session'' cause))
      | None \<Rightarrow> (case session_actors (HashSecret token) (normalizedNow e) (te_other e 0 ws) of
            [] \<Rightarrow> Inl (Domain requiredError)
          | a # _ \<Rightarrow> if actor_usable a then Inr a else Inl (Domain requiredError)), te_other e 0 ws))"
  by (auto simp: ResolveActor_def LookupSessionActor_def require_usable_def tx_eval err_text_def first_row_def split: option.split list.split)

text \<open>
  A token that resolves is the token of a
  session that is neither revoked nor expired, and the actor is that session's user, a human with an
  active membership, as the tables have them at the time of the query.
\<close>

theorem resolve_actor_needs_session:
  assumes "fst (Autocommit (ResolveActor e token) ws) = Inr a"
  shows "\<exists>s \<in> set (ws_sessions (te_other e 0 ws)). \<exists>u \<in> set (ws_users (te_other e 0 ws)). \<exists>m \<in> set (ws_members (te_other e 0 ws)).
     se_token_hash s = HashSecret token \<and> se_revoked_at s = None \<and> normalizedNow e < se_expires_at s \<and>
     ac_id u = se_user_id s \<and> ac_kind u = ''human'' \<and> active_member DefaultSpaceID (ac_id u) m \<and> a = scanActor u m"
proof -
  have "a \<in> set (session_actors (HashSecret token) (normalizedNow e) (te_other e 0 ws))"
    using assms by (auto simp: ResolveActor_run split: if_splits option.splits list.splits)
  then show ?thesis unfolding session_actors_iff session_live_def human_members_iff by blast
qed

section \<open>A new session resolves\<close>

text \<open>Roles are restricted by a constraint of space\_members.\<close>

definition roles_ok :: "workspace \<Rightarrow> bool" where
  "roles_ok ws = list_all (\<lambda>m. mb_role m \<in> set [''owner'', ''admin'', ''member'', ''auditor'']) (ws_members ws)"

lemma session_token_not_blank:
  assumes "random \<noteq> []"
  shows "TrimSpace (session_token random) = session_token random" "session_token random \<noteq> []"
proof -
  have ascii: "list_all (\<lambda>c. byte_of c < 0x80 \<and> \<not> is_space (byte_of c)) url_alphabet" by code_simp
  have "length url_alphabet = 64" by code_simp
  then have "set (session_token random) \<subseteq> set url_alphabet"
    using base64_set [of url_alphabet "[]" random] by (simp add: session_token_def RawURLEncoding_def)
  then show "TrimSpace (session_token random) = session_token random"
    unfolding TrimSpace_def using ascii unfolding list_all_iff by (intro trim_func_noop_ascii) (auto simp: is_ascii_def)
  have "length (session_token random) \<noteq> 0" using assms by (cases random) (auto simp: session_token_def RawURLEncoding_def base64_length_raw)
  then show "session_token random \<noteq> []" by simp
qed

lemma role_not_blank: "r \<in> set [''owner'', ''admin'', ''member'', ''auditor''] \<Longrightarrow> TrimSpace r \<noteq> []"
proof -
  have "list_all (\<lambda>r. TrimSpace r \<noteq> []) [''owner'', ''admin'', ''member'', ''auditor'']" by code_simp
  then show "r \<in> set [''owner'', ''admin'', ''member'', ''auditor''] \<Longrightarrow> TrimSpace r \<noteq> []" unfolding list_all_iff by blast
qed


lemma CreateSession_run:
  assumes "quiet e" "Autocommit (CreateSession ttl e userID) ws = (Inr s, ws1)"
  obtains random row where
    "te_id e 1 = Inr random" "ss_Token s = session_token random" "ss_UserID s = TrimSpace userID" "TrimSpace userID \<noteq> []"
    "ws1 = ws\<lparr>ws_sessions := ws_sessions ws @ [row]\<rparr>" "se_token_hash row = HashSecret (ss_Token s)" "se_user_id row = TrimSpace userID"
    "se_revoked_at row = None" "se_expires_at row = pg_timestamp (ss_ExpiresAt s)" "ss_ExpiresAt s = normalizedNow e + session_ttl ttl"
    "HashSecret (ss_Token s) \<notin> se_token_hash ` set (ws_sessions ws)" "human_member (TrimSpace userID) ws"
proof -
  note run = CreateSession_def PG_CreateSession_def newID_def NewSessionToken_def tx_eval
  obtain i where i: "te_id e 0 = Inr i" using assms(2) by (cases "te_id e 0") (auto simp: run split: if_splits)
  obtain random where r: "te_id e 1 = Inr random" using assms(2) i by (cases "te_id e 1") (auto simp: run split: if_splits)
  define sr where "sr = \<lparr>sr_ID = i, sr_TokenHash = HashSecret (session_token random), sr_UserID = TrimSpace userID, sr_CreatedAt = normalizedNow e,
    sr_ExpiresAt = normalizedNow e + session_ttl ttl\<rparr>"
  have user: "TrimSpace userID \<noteq> []" using assms(2) by (auto simp: run split: if_splits)
  have "\<exists>x. insert_session sr ws = Inr (Some x, ws1)"
    and s: "s = \<lparr>ss_ID = i, ss_Token = session_token random, ss_ExpiresAt = normalizedNow e + session_ttl ttl, ss_UserID = TrimSpace userID\<rparr>"
    using assms i r user by (auto simp: run sr_def split: if_splits option.splits sum.splits prod.splits)
  then obtain x where "insert_session sr ws = Inr (Some x, ws1)" by blast
  then obtain u us where "concat (map (\<lambda>(u, m). if ac_id u = TrimSpace userID then [u] else []) (human_members ws)) = u # us"
    and ins: "HashSecret (session_token random) \<notin> se_token_hash ` set (ws_sessions ws)"
      "ws1 = ws\<lparr>ws_sessions := ws_sessions ws @ [\<lparr>se_id = i, se_token_hash = HashSecret (session_token random), se_user_id = ac_id u,
        se_created_at = pg_timestamp (normalizedNow e), se_expires_at = pg_timestamp (normalizedNow e + session_ttl ttl), se_revoked_at = None\<rparr>]\<rparr>"
    by (auto simp: insert_session_def sr_def Let_def result_bind_def split: list.splits sum.splits)
  then have "u \<in> set (concat (map (\<lambda>(u, m). if ac_id u = TrimSpace userID then [u] else []) (human_members ws)))" by simp
  then have u: "ac_id u = TrimSpace userID" "human_member (TrimSpace userID) ws" by (auto simp: human_member_def split: if_splits)
  show ?thesis using that [OF r _ _ user ins(2)] s u ins(1) by simp
qed

text \<open>
  C26 (auth/session.go: CreateSession, ResolveActor; auth/pg_store.go: CreateSession, LookupSessionActor). The token of
  a new session resolves to the user it was made for, until it expires.
\<close>

theorem session_roundtrip:
  assumes "quiet e" "Autocommit (CreateSession ttl e userID) ws = (Inr s, ws1)" "TrimSpace userID = userID" "roles_ok ws"
    and "\<And>random. te_id e 1 = Inr random \<Longrightarrow> length random = SessionTokenBytes"
    and "quiet e'" "te_fault e' 0 = None" "normalizedNow e' < pg_timestamp (ss_ExpiresAt s)"
  shows "\<exists>a. Autocommit (ResolveActor e' (ss_Token s)) ws1 = (Inr a, ws1) \<and> actor_ID a = userID"
proof -
  obtain random row where run: "te_id e 1 = Inr random" "ss_Token s = session_token random" "TrimSpace userID \<noteq> []"
      "ws1 = ws\<lparr>ws_sessions := ws_sessions ws @ [row]\<rparr>" "se_token_hash row = HashSecret (ss_Token s)" "se_user_id row = TrimSpace userID"
      "se_revoked_at row = None" "se_expires_at row = pg_timestamp (ss_ExpiresAt s)" "HashSecret (ss_Token s) \<notin> se_token_hash ` set (ws_sessions ws)"
      "human_member (TrimSpace userID) ws"
    using CreateSession_run [OF assms(1,2)] by metis
  have "random \<noteq> []" using assms(5) [OF run(1)] by (auto simp: SessionTokenBytes_def)
  then have token: "TrimSpace (ss_Token s) \<noteq> []" using session_token_not_blank [of random] run(2) by simp
  have members: "human_members ws1 = human_members ws" using run(4) by (simp add: human_members_def space_users_def)
  have live: "session_live (HashSecret (ss_Token s)) (normalizedNow e') row" using run(5,7,8) assms(8) by (simp add: session_live_def)
  obtain u m where "(u, m) \<in> set (human_members ws)" "ac_id u = userID" using run(10) assms(3) by (auto simp: human_member_def)
  then have "scanActor u m \<in> set (session_actors (HashSecret (ss_Token s)) (normalizedNow e') ws1)"
    unfolding session_actors_iff members using run(4,6) live assms(3) by auto
  then obtain a as where actors: "session_actors (HashSecret (ss_Token s)) (normalizedNow e') ws1 = a # as"
    by (cases "session_actors (HashSecret (ss_Token s)) (normalizedNow e') ws1") auto
  then have "a \<in> set (session_actors (HashSecret (ss_Token s)) (normalizedNow e') ws1)" by simp
  then obtain u' m' s' where a: "a = scanActor u' m'" "(u', m') \<in> set (human_members ws)" "ac_id u' = se_user_id s'" "s' \<in> set (ws_sessions ws1)"
      "session_live (HashSecret (ss_Token s)) (normalizedNow e') s'"
    unfolding session_actors_iff members by blast
  have "s' = row" using a(4,5) run(4,9) by (auto simp: session_live_def) (metis imageI)
  then have id: "ac_id u' = userID" using a(3) run(6) assms(3) by simp
  have "mb_role m' \<in> set [''owner'', ''admin'', ''member'', ''auditor'']" "ac_kind u' = ''human''"
    using a(2) assms(4) unfolding human_members_iff roles_ok_def list_all_iff by blast+
  then have "actor_usable a" using id run(3) assms(3) role_not_blank unfolding a(1) actor_usable_def by simp
  then show ?thesis using id a(1) token assms(6,7) actors by (simp add: ResolveActor_run)
qed

text \<open>A workspace with one member, and an environment without interference and faults.\<close>

definition demo_user :: account_row where
  "demo_user = \<lparr>ac_id = ''u1'', ac_github_id = None, ac_github_login = ''ann'', ac_email = None, ac_display_name = ''Ann'', ac_nickname = None,
     ac_avatar_url = None, ac_github_avatar_url = None, ac_avatar_storage_key = None, ac_search_discoverable = False, ac_recall_reason = None,
     ac_kind = ''human'', ac_created_at = 0, ac_last_login_at = None\<rparr>"

definition demo_member :: member_row where
  "demo_member = \<lparr>mb_space_id = DefaultSpaceID, mb_user_id = ''u1'', mb_role = ''owner'', mb_joined_at = 0, mb_removed_at = None\<rparr>"

definition empty_ws :: workspace where
  "empty_ws = \<lparr>ws_users = [], ws_members = [], ws_sessions = [], ws_invites = [], ws_audit = [], ws_remarks = [], ws_flows = [], ws_families = [],
     ws_refresh = [], ws_access = [], ws_rates = [], ws_messages = [], ws_pins = [], ws_pin_counters = [],
     ws_message_attachments = [], ws_reactions = [], ws_hidden = [], ws_rest = seed_db\<rparr>"

definition demo_ws :: workspace where
  "demo_ws = empty_ws\<lparr>ws_users := [demo_user], ws_members := [demo_member]\<rparr>"

definition demo_env :: "time \<Rightarrow> (nat \<Rightarrow> string) \<Rightarrow> tx_env" where
  "demo_env now ids = \<lparr>te_fault = \<lambda>_. None, te_id = \<lambda>n. Inr (ids n), te_now = now, te_other = \<lambda>_ ws. ws, te_locked = \<lambda>_ ws. ws\<rparr>"

lemma demo_env_simps [simp]: "te_fault (demo_env now ids) n = None" "te_id (demo_env now ids) n = Inr (ids n)" "te_now (demo_env now ids) = now"
  "te_other (demo_env now ids) n ws = ws" "te_locked (demo_env now ids) n ws = ws" "quiet (demo_env now ids)" "normalizedNow (demo_env now ids) = trunc_ms now"
  by (simp_all add: demo_env_def quiet_def normalizedNow_def)

definition demo_token :: string where
  "demo_token = replicate 32 (CHR ''x'')"

definition demo_session :: Session where
  "demo_session = \<lparr>ss_ID = demo_token, ss_Token = session_token demo_token, ss_ExpiresAt = DefaultSessionTTL, ss_UserID = ''u1''\<rparr>"

definition session_ws :: workspace where
  "session_ws = demo_ws\<lparr>ws_sessions := [\<lparr>se_id = demo_token, se_token_hash = HashSecret (session_token demo_token), se_user_id = ''u1'',
     se_created_at = 0, se_expires_at = DefaultSessionTTL, se_revoked_at = None\<rparr>]\<rparr>"

lemma demo_blank: "TrimSpace ''u1'' = ''u1''" "TrimSpace demo_token = demo_token" "demo_token \<noteq> []" "length demo_token = 32"
  by code_simp+

lemma demo_members: "human_members demo_ws = [(demo_user, demo_member)]"
  by code_simp

lemma demo_times: "trunc_ms 0 = 0" "pg_timestamp 0 = 0" "pg_timestamp DefaultSessionTTL = DefaultSessionTTL" "DefaultSessionTTL \<noteq> zero_time" "0 \<noteq> zero_time"
    "session_ttl 0 = DefaultSessionTTL" "0 < DefaultSessionTTL"
  by code_simp+

lemma demo_login: "Autocommit (CreateSession 0 (demo_env 0 (\<lambda>_. demo_token)) ''u1'') demo_ws = (Inr demo_session, session_ws)"
  by (simp add: CreateSession_def PG_CreateSession_def newID_def NewSessionToken_def tx_eval demo_blank demo_times insert_session_def demo_members
      demo_session_def session_ws_def demo_user_def)
    (simp add: demo_ws_def empty_ws_def insert_unique_def result_bind_def demo_blank tx_eval)

theorem session_roundtrip_witness:
  "\<exists>a. Autocommit (ResolveActor (demo_env 0 (\<lambda>_. [])) (ss_Token demo_session)) session_ws = (Inr a, session_ws) \<and> actor_ID a = ''u1''"
proof -
  have "roles_ok demo_ws" by code_simp
  then show ?thesis
    using session_roundtrip [OF _ demo_login, of "demo_env 0 (\<lambda>_. [])"]
    by (simp add: demo_blank demo_times demo_session_def SessionTokenBytes_def)
qed

theorem resolve_actor_needs_session_witness:
  "\<exists>a. fst (Autocommit (ResolveActor (demo_env 0 (\<lambda>_. [])) (session_token demo_token)) session_ws) = Inr a \<and>
     (\<exists>s \<in> set (ws_sessions session_ws). se_token_hash s = HashSecret (session_token demo_token) \<and> se_revoked_at s = None)"
proof -
  have "TrimSpace (session_token demo_token) \<noteq> []" using session_token_not_blank [OF demo_blank(3)] by simp
  moreover have "actor_usable (scanActor demo_user demo_member)" by code_simp
  moreover have "session_actors (HashSecret (session_token demo_token)) 0 session_ws = [scanActor demo_user demo_member]"
    using demo_members
    by (simp add: session_actors_def session_ws_def human_members_def space_users_def session_live_def demo_times demo_user_def)
  ultimately have run: "fst (Autocommit (ResolveActor (demo_env 0 (\<lambda>_. [])) (session_token demo_token)) session_ws) = Inr (scanActor demo_user demo_member)"
    by (simp add: ResolveActor_run demo_times)
  show ?thesis using run resolve_actor_needs_session [OF run] by auto
qed

end
