(* ===== verification/Auth_Login.thy ===== *)
theory Auth_Login
  imports Auth_Sessions
begin

text \<open>
  Login with a GitHub identity: auth/pg_store.go AuthenticateGitHub and its helpers, and
  auth/session.go AuthenticateGitHub. The whole login is one transaction. A refused login
  commits its audit entries and returns an error, so the value of the transaction is itself a
  result; any other error rolls the transaction back.
\<close>

section \<open>Identities\<close>

definition SeededOwnerID :: string where "SeededOwnerID = ''usr_owner''"
definition SeededOwnerGitHubLogin :: string where "SeededOwnerGitHubLogin = ''timeStarry''"
definition SeededOwnerEmail :: string where "SeededOwnerEmail = ''timestarry@qq.com''"

definition identityConflictError :: Error where
  "identityConflictError = NewError ''auth.identity_conflict'' (utf8 [0x0047, 0x0069, 0x0074, 0x0048, 0x0075, 0x0062, 0x0020, 0x8EAB, 0x4EFD, 0x4E0E, 0x5DF2, 0x6709, 0x8D26, 0x53F7, 0x4E0D, 0x4E00, 0x81F4, 0xFF0C, 0x8BF7, 0x8054, 0x7CFB, 0x7A7A, 0x95F4, 0x4E3B, 0x4EBA]) 401"

definition identityForbidden :: Error where
  "identityForbidden = NewError ''auth.identity_forbidden'' (utf8 [0x8BE5, 0x7CFB, 0x7EDF, 0x8EAB, 0x4EFD, 0x4E0D, 0x80FD, 0x767B, 0x5F55, 0x5171, 0x4EAB, 0x7A7A, 0x95F4]) 401"

definition notInvitedError :: Error where
  "notInvitedError = NewError ''auth.not_invited'' (utf8 [0x8BE5, 0x0020, 0x0047, 0x0069, 0x0074, 0x0048, 0x0075, 0x0062, 0x0020, 0x7528, 0x6237, 0x5C1A, 0x672A, 0x88AB, 0x9080, 0x8BF7]) 401"

definition isSeededOwnerProfile :: "GitHubProfile \<Rightarrow> bool" where
  "isSeededOwnerProfile p \<longleftrightarrow> EqualFold (gp_Login p) SeededOwnerGitHubLogin \<or> EqualFold (gp_Email p) SeededOwnerEmail"

definition identityTarget :: "identityRecord option \<Rightarrow> GitHubProfile \<Rightarrow> string" where
  "identityTarget candidate p =
    (case candidate of Some c \<Rightarrow> actor_ID c
     | None \<Rightarrow> if gp_Login p \<noteq> [] then gp_Login p else if gp_Email p \<noteq> [] then gp_Email p else gp_ID p)"

text \<open>A row of users with its active membership joined from the left.\<close>

definition identity_row :: "workspace \<Rightarrow> account_row \<Rightarrow> identityRecord" where
  "identity_row ws u = scanIdentity u (first_row (filter (active_member DefaultSpaceID (ac_id u)) (ws_members ws)))"

definition profile_matches :: "GitHubProfile \<Rightarrow> account_row \<Rightarrow> bool" where
  "profile_matches p u \<longleftrightarrow> gp_ID p \<noteq> [] \<and> ac_github_id u = Some (gp_ID p) \<or> gp_Login p \<noteq> [] \<and> ac_github_login u = gp_Login p \<or>
     gp_Email p \<noteq> [] \<and> ac_email u = Some (gp_Email p)"

definition identity_rows :: "GitHubProfile \<Rightarrow> workspace \<Rightarrow> identityRecord list" where
  "identity_rows p ws = map (identity_row ws) (filter (profile_matches p) (ws_users ws))"

text \<open>
  The row bound to the GitHub id wins if no other row shares the login or the email; without
  such a row at most one row may share them.
\<close>

definition findIdentity :: "GitHubProfile \<Rightarrow> workspace \<Rightarrow> (Error, identityRecord option) result" where
  "findIdentity p ws =
    (let rows = identity_rows p ws;
         byID = first_row (rev (filter (\<lambda>c. gp_ID p \<noteq> [] \<and> actor_GitHubID c = gp_ID p) rows));
         aliases = filter (\<lambda>c. gp_Login p \<noteq> [] \<and> actor_GitHubLogin c = gp_Login p \<or> gp_Email p \<noteq> [] \<and> actor_Email c = gp_Email p) rows
     in case byID of
          Some c \<Rightarrow> if list_ex (\<lambda>a. actor_ID a \<noteq> actor_ID c) aliases then Inl identityConflictError else Inr (Some c)
        | None \<Rightarrow> if length (remdups (map actor_ID aliases)) > 1 then Inl identityConflictError else Inr (first_row (rev aliases)))"

definition findSeededOwner :: "workspace \<Rightarrow> identityRecord option" where
  "findSeededOwner ws = first_row (map (identity_row ws) (filter (\<lambda>u. ac_id u = SeededOwnerID) (ws_users ws)))"

definition findActorByID :: "tx_env \<Rightarrow> string \<Rightarrow> AuthActor tx" where
  "findActorByID e userID =
    io_bind (tx_read e (\<lambda>ws. first_row [scanActor u m. (u, m) \<leftarrow> space_users ws, ac_id u = userID])) (\<lambda>r.
      case r of None \<Rightarrow> tx_fail (Foreign ''no rows in result set'') | Some a \<Rightarrow> io_return a)"

section \<open>Writes\<close>

text \<open>The unique columns of users: the id, the GitHub id where it is set, and the login.\<close>

definition accounts_unique :: "account_row list \<Rightarrow> bool" where
  "accounts_unique us \<longleftrightarrow> distinct (map ac_id us) \<and> distinct (List.map_filter ac_github_id us) \<and> distinct (map ac_github_login us)"

definition store_accounts :: "account_row list \<Rightarrow> workspace \<Rightarrow> (string, unit \<times> workspace) result" where
  "store_accounts us ws = (if accounts_unique us then Inr ((), ws\<lparr>ws_users := us\<rparr>) else Inl duplicate_key)"

definition insertUser :: "tx_env \<Rightarrow> string \<Rightarrow> GitHubProfile \<Rightarrow> time \<Rightarrow> unit tx" where
  "insertUser e userID p now = tx_write e (\<lambda>ws. store_accounts (ws_users ws @
     [\<lparr>ac_id = userID, ac_github_id = NULLIF_empty (gp_ID p), ac_github_login = gp_Login p, ac_email = NULLIF_empty (gp_Email p),
       ac_display_name = gp_Name p, ac_nickname = Some (gp_Name p), ac_avatar_url = NULLIF_empty (gp_AvatarURL p),
       ac_github_avatar_url = NULLIF_empty (gp_AvatarURL p), ac_avatar_storage_key = None, ac_search_discoverable = False,
       ac_recall_reason = None, ac_kind = ''human'', ac_created_at = now, ac_last_login_at = Some now\<rparr>]) ws)"

definition COALESCE :: "'a option \<Rightarrow> 'a option \<Rightarrow> 'a option" where
  "COALESCE a b = (case a of None \<Rightarrow> b | Some _ \<Rightarrow> a)"

definition or_else :: "string \<Rightarrow> string \<Rightarrow> string" where
  "or_else v old = (if v = [] then old else v)"

definition bind_account :: "GitHubProfile \<Rightarrow> time \<Rightarrow> account_row \<Rightarrow> account_row" where
  "bind_account p now u = u
    \<lparr>ac_github_id := COALESCE (ac_github_id u) (NULLIF_empty (gp_ID p)),
     ac_github_login := or_else (gp_Login p) (ac_github_login u),
     ac_email := COALESCE (NULLIF_empty (gp_Email p)) (ac_email u),
     ac_display_name := or_else (gp_Name p) (ac_display_name u),
     ac_github_avatar_url := COALESCE (NULLIF_empty (gp_AvatarURL p)) (ac_github_avatar_url u),
     ac_avatar_url := (if ac_avatar_storage_key u = None then COALESCE (NULLIF_empty (gp_AvatarURL p)) (ac_avatar_url u) else ac_avatar_url u),
     ac_last_login_at := Some now\<rparr>"

definition updateUser :: "tx_env \<Rightarrow> string \<Rightarrow> GitHubProfile \<Rightarrow> time \<Rightarrow> unit tx" where
  "updateUser e userID p now = tx_write e (\<lambda>ws. store_accounts (update_where (\<lambda>u. ac_id u = userID) (bind_account p now) (ws_users ws)) ws)"

record auditInput =
  ai_ActorUserID :: string
  ai_ActorGitHubLogin :: string
  ai_Action :: string
  ai_TargetType :: string
  ai_TargetID :: string
  ai_Result :: string
  ai_Reason :: string
  ai_Meta :: RequestMeta
  ai_CreatedAt :: time

definition audit_of :: "string \<Rightarrow> auditInput \<Rightarrow> time \<Rightarrow> audit_row" where
  "audit_of auditID i createdAt = (let meta = Safe (ai_Meta i) in
    \<lparr>au_id = auditID, au_space_id = DefaultSpaceID, au_actor_user_id = NULLIF_empty (ai_ActorUserID i),
     au_actor_github_login = NULLIF_empty (ai_ActorGitHubLogin i), au_action = ai_Action i, au_target_type = ai_TargetType i,
     au_target_id = NULLIF_empty (ai_TargetID i), au_result = ai_Result i, au_reason = NULLIF_empty (ai_Reason i),
     au_ip_address = NULLIF_empty (me_IPAddress meta), au_user_agent = NULLIF_empty (me_UserAgent meta),
     au_request_id = NULLIF_empty (me_RequestID meta), au_created_at = createdAt\<rparr>)"

definition writeAudit :: "tx_env \<Rightarrow> auditInput \<Rightarrow> unit tx" where
  "writeAudit e i =
    io_bind (tx_require (ai_CreatedAt i \<noteq> zero_time) (Foreign ''audit timestamp is required'')) (\<lambda>_.
    io_bind (newID e) (\<lambda>auditID. tx_write e (insert_audit (audit_of auditID i (normalizeTimestamp (te_now e) (ai_CreatedAt i))))))"

text \<open>INSERT INTO space\_members ... ON CONFLICT DO UPDATE SET role, removed\_at; the date of joining stays.\<close>

definition upsert_member :: "string \<Rightarrow> string \<Rightarrow> time \<Rightarrow> workspace \<Rightarrow> (string, unit \<times> workspace) result" where
  "upsert_member userID role now ws =
    (let key = (\<lambda>m. mb_space_id m = DefaultSpaceID \<and> mb_user_id m = userID) in
     Inr ((), ws\<lparr>ws_members :=
       if list_ex key (ws_members ws) then update_where key (\<lambda>m. m\<lparr>mb_role := role, mb_removed_at := None\<rparr>) (ws_members ws)
       else ws_members ws @ [\<lparr>mb_space_id = DefaultSpaceID, mb_user_id = userID, mb_role = role, mb_joined_at = now, mb_removed_at = None\<rparr>]\<rparr>))"

definition memberJoinedEventPayload :: "AuthActor \<Rightarrow> string \<Rightarrow> string" where
  "memberJoinedEventPayload actor inviteID = json_print (JObj
     [(''inviteId'', JStr inviteID), (''member'', PublicMemberProjection actor), (''role'', JStr (actor_Role actor)), (''userId'', JStr (actor_ID actor))])"

definition joined_event :: "string \<Rightarrow> AuthActor \<Rightarrow> string \<Rightarrow> int \<Rightarrow> time \<Rightarrow> EventRecord" where
  "joined_event eventID actor inviteID s now =
    \<lparr>er_ID = eventID, er_SpaceID = DefaultSpaceID, er_Seq = s, er_Type = ''workspace.member_joined'', er_ActorID = Some (actor_ID actor),
     er_ConversationID = None, er_TargetType = Some ''user'', er_TargetID = Some (actor_ID actor),
     er_PayloadJSON = memberJoinedEventPayload actor inviteID, er_CreatedAt = now\<rparr>"

definition on_rest :: "(db \<Rightarrow> (string, 'a \<times> db) result) \<Rightarrow> workspace \<Rightarrow> (string, 'a \<times> workspace) result" where
  "on_rest f ws = result_bind (f (ws_rest ws)) (\<lambda>(x, d). Inr (x, ws\<lparr>ws_rest := d\<rparr>))"

definition writeMemberJoinedEvent :: "tx_env \<Rightarrow> AuthActor \<Rightarrow> string \<Rightarrow> time \<Rightarrow> unit tx" where
  "writeMemberJoinedEvent e actor inviteID now =
    io_bind (tx_require (TrimSpace (actor_ID actor) \<noteq> []) (Foreign ''member actor is required'')) (\<lambda>_.
    io_bind (tx_write e (on_rest (reserve_upsert DefaultSpaceID))) (\<lambda>nextSeq.
    io_bind (newID e) (\<lambda>eventID.
    tx_write e (on_rest (\<lambda>d. result_bind (insert_event (joined_event eventID actor inviteID nextSeq (normalizeTimestamp (te_now e) now)) d)
       (\<lambda>d1. Inr ((), d1)))))))"

section \<open>Invitations\<close>

definition inviteInvalid :: "string \<times> string" where
  "inviteInvalid = (''invite.invalid'', (utf8 [0x9080, 0x8BF7, 0x65E0, 0x6548, 0x6216, 0x5DF2, 0x64A4, 0x9500]))"

definition inviteExpired :: "string \<times> string" where
  "inviteExpired = (''invite.expired'', (utf8 [0x9080, 0x8BF7, 0x5DF2, 0x8FC7, 0x671F]))"

definition inviteExhausted :: "string \<times> string" where
  "inviteExhausted = (''invite.exhausted'', (utf8 [0x9080, 0x8BF7, 0x6B21, 0x6570, 0x5DF2, 0x7528, 0x5B8C]))"

definition findInvite :: "string \<Rightarrow> workspace \<Rightarrow> invite_row option" where
  "findInvite codeHash ws = first_row (filter (\<lambda>iv. iv_code_hash iv = codeHash \<and> iv_space_id iv = DefaultSpaceID) (ws_invites ws))"

definition findInviteByID :: "string \<Rightarrow> workspace \<Rightarrow> invite_row option" where
  "findInviteByID i ws = first_row (filter (\<lambda>iv. iv_id iv = i \<and> iv_space_id iv = DefaultSpaceID) (ws_invites ws))"

definition invite_usable :: "time \<Rightarrow> invite_row \<Rightarrow> bool" where
  "invite_usable now iv \<longleftrightarrow> iv_revoked_at iv = None \<and> iv_uses iv < iv_max_uses iv \<and> (case iv_expires_at iv of None \<Rightarrow> True | Some t \<Rightarrow> t > now)"

definition use_invite :: "invite_row \<Rightarrow> invite_row" where
  "use_invite iv = iv\<lparr>iv_uses := iv_uses iv + 1\<rparr>"

definition reserveInvite :: "tx_env \<Rightarrow> string \<Rightarrow> time \<Rightarrow> invite_row option tx" where
  "reserveInvite e i now = tx_write e (\<lambda>ws.
    let hit = (\<lambda>iv. iv_id iv = i \<and> iv_space_id iv = DefaultSpaceID \<and> invite_usable now iv) in
    Inr (map_option use_invite (first_row (filter hit (ws_invites ws))), ws\<lparr>ws_invites := update_where hit use_invite (ws_invites ws)\<rparr>))"

definition inviteFailure :: "invite_row option \<Rightarrow> time \<Rightarrow> string \<times> string" where
  "inviteFailure invite now =
    (case invite of None \<Rightarrow> inviteInvalid
     | Some iv \<Rightarrow> if iv_revoked_at iv \<noteq> None then inviteInvalid
         else if (case iv_expires_at iv of None \<Rightarrow> False | Some t \<Rightarrow> t \<le> now) then inviteExpired else inviteExhausted)"

definition inviteAuditReason :: "string \<Rightarrow> string" where
  "inviteAuditReason code =
    (if code = ''invite.expired'' then ''expired invite'' else if code = ''invite.exhausted'' then ''invite exhausted'' else ''invalid invite'')"

section \<open>The login\<close>

type_synonym login = "(Error, AuthActor) result tx"

definition audit_input :: "string \<Rightarrow> string \<Rightarrow> string \<Rightarrow> string \<Rightarrow> string \<Rightarrow> string \<Rightarrow> string \<Rightarrow> RequestMeta \<Rightarrow> time \<Rightarrow> auditInput" where
  "audit_input user login action targetType targetID outcome reason meta now =
    \<lparr>ai_ActorUserID = user, ai_ActorGitHubLogin = login, ai_Action = action, ai_TargetType = targetType, ai_TargetID = targetID,
     ai_Result = outcome, ai_Reason = reason, ai_Meta = meta, ai_CreatedAt = now\<rparr>"

definition rejectAuth :: "tx_env \<Rightarrow> GitHubProfile \<Rightarrow> string \<Rightarrow> string \<Rightarrow> string \<Rightarrow> Error \<Rightarrow> RequestMeta \<Rightarrow> time \<Rightarrow> login" where
  "rejectAuth e p code targetType targetID outcome meta now =
    io_bind (tx_wrap ''audit rejected login'' (writeAudit e (audit_input [] (gp_Login p) ''login.rejected'' targetType targetID ''rejected'' code meta now))) (\<lambda>_.
    io_bind (tx_guard e ''commit rejected login'') (\<lambda>_. io_return (Inl outcome)))"

definition rejectInvite :: "tx_env \<Rightarrow> GitHubProfile \<Rightarrow> invite_row option \<Rightarrow> string \<times> string \<Rightarrow> RequestMeta \<Rightarrow> time \<Rightarrow> login" where
  "rejectInvite e p invite failure meta now =
    (let targetID = (case invite of None \<Rightarrow> [] | Some iv \<Rightarrow> iv_id iv) in
    io_bind (tx_wrap ''audit rejected invite''
      (writeAudit e (audit_input [] (gp_Login p) ''invite.accept'' ''invite'' targetID ''rejected'' (inviteAuditReason (fst failure)) meta now))) (\<lambda>_.
    io_bind (tx_guard e ''commit rejected invite'') (\<lambda>_. io_return (Inl (NewError (fst failure) (snd failure) 400)))))"

text \<open>An active member logs in.\<close>

definition login_member :: "tx_env \<Rightarrow> GitHubProfile \<Rightarrow> string \<Rightarrow> RequestMeta \<Rightarrow> time \<Rightarrow> login" where
  "login_member e p userID meta now =
    io_bind (tx_wrap ''bind github identity'' (updateUser e userID p now)) (\<lambda>_.
    io_bind (tx_wrap ''audit github login''
      (writeAudit e (audit_input userID (gp_Login p) ''login.success'' ''user'' userID ''success'' [] meta now))) (\<lambda>_.
    io_bind (tx_wrap ''project github actor'' (findActorByID e userID)) (\<lambda>actor.
    io_bind (tx_guard e ''commit github login'') (\<lambda>_. io_return (Inr actor)))))"

text \<open>An invitation has been reserved for a new or a former member.\<close>

definition invited_user :: "tx_env \<Rightarrow> GitHubProfile \<Rightarrow> identityRecord option \<Rightarrow> time \<Rightarrow> string tx" where
  "invited_user e p candidate now =
    (case candidate of
       None \<Rightarrow> io_bind (tx_wrap ''create github user'' (newID e)) (\<lambda>userID.
         io_bind (tx_wrap ''create github user'' (insertUser e userID p now)) (\<lambda>_. io_return userID))
     | Some c \<Rightarrow> io_bind (tx_wrap ''bind invited github user'' (updateUser e (actor_ID c) p now)) (\<lambda>_. io_return (actor_ID c)))"

definition join_space :: "tx_env \<Rightarrow> GitHubProfile \<Rightarrow> identityRecord option \<Rightarrow> invite_row \<Rightarrow> RequestMeta \<Rightarrow> time \<Rightarrow> login" where
  "join_space e p candidate reserved meta now =
    io_bind (invited_user e p candidate now) (\<lambda>userID.
    io_bind (tx_wrap ''accept invite membership'' (tx_write e (upsert_member userID (iv_default_role reserved) now))) (\<lambda>_.
    io_bind (tx_wrap ''project invited actor'' (findActorByID e userID)) (\<lambda>actor.
    io_bind (tx_wrap ''write member joined event'' (writeMemberJoinedEvent e actor (iv_id reserved) now)) (\<lambda>_.
    io_bind (tx_wrap ''audit invite acceptance''
      (writeAudit e (audit_input userID (gp_Login p) ''invite.accept'' ''invite'' (iv_id reserved) ''success'' [] meta now))) (\<lambda>_.
    io_bind (tx_guard e ''commit invite acceptance'') (\<lambda>_. io_return (Inr actor)))))))"

definition accept_invite :: "tx_env \<Rightarrow> GitHubProfile \<Rightarrow> identityRecord option \<Rightarrow> string \<Rightarrow> RequestMeta \<Rightarrow> time \<Rightarrow> login" where
  "accept_invite e p candidate inviteCodeHash meta now =
    io_bind (tx_wrap ''resolve invite'' (tx_read e (findInvite inviteCodeHash))) (\<lambda>invite.
    case invite of
      None \<Rightarrow> rejectInvite e p None inviteInvalid meta now
    | Some iv \<Rightarrow>
        if iv_revoked_at iv \<noteq> None then rejectInvite e p (Some iv) inviteInvalid meta now
        else if (case iv_expires_at iv of None \<Rightarrow> False | Some t \<Rightarrow> t \<le> now) then rejectInvite e p (Some iv) inviteExpired meta now
        else if iv_uses iv \<ge> iv_max_uses iv then rejectInvite e p (Some iv) inviteExhausted meta now
        else io_bind (tx_wrap ''reserve invite'' (reserveInvite e (iv_id iv) now)) (\<lambda>reserved.
          case reserved of
            None \<Rightarrow> io_bind (tx_wrap ''recheck invite'' (tx_read e (findInviteByID (iv_id iv)))) (\<lambda>latest.
              rejectInvite e p latest (inviteFailure latest now) meta now)
          | Some r \<Rightarrow> join_space e p candidate r meta now))"

definition needs_invitation :: "tx_env \<Rightarrow> GitHubProfile \<Rightarrow> identityRecord option \<Rightarrow> string \<Rightarrow> RequestMeta \<Rightarrow> time \<Rightarrow> login" where
  "needs_invitation e p candidate inviteCodeHash meta now =
    io_bind (tx_wrap ''audit not invited login''
      (writeAudit e (audit_input [] (gp_Login p) ''login.rejected'' ''user'' (identityTarget candidate p) ''rejected'' ''not invited'' meta now))) (\<lambda>_.
    if inviteCodeHash = [] then io_bind (tx_guard e ''commit rejected login'') (\<lambda>_. io_return (Inl notInvitedError))
    else accept_invite e p candidate inviteCodeHash meta now)"

definition id_conflict :: "GitHubProfile \<Rightarrow> identityRecord \<Rightarrow> bool" where
  "id_conflict p c \<longleftrightarrow> actor_GitHubID c \<noteq> [] \<and> gp_ID p \<noteq> [] \<and> actor_GitHubID c \<noteq> gp_ID p"

definition login_as :: "tx_env \<Rightarrow> GitHubProfile \<Rightarrow> identityRecord option \<Rightarrow> string \<Rightarrow> RequestMeta \<Rightarrow> time \<Rightarrow> login" where
  "login_as e p candidate inviteCodeHash meta now =
    (case candidate of
       Some c \<Rightarrow> if actor_Role c \<noteq> [] then login_member e p (actor_ID c) meta now else needs_invitation e p candidate inviteCodeHash meta now
     | None \<Rightarrow> needs_invitation e p None inviteCodeHash meta now)"

definition login_body :: "tx_env \<Rightarrow> GitHubProfile \<Rightarrow> string \<Rightarrow> RequestMeta \<Rightarrow> time \<Rightarrow> login" where
  "login_body e p inviteCodeHash meta now =
    io_bind (tx_guard e ''begin github authentication'') (\<lambda>_.
    io_bind (tx_wrap ''resolve github identity'' (tx_read e (findIdentity p))) (\<lambda>found.
    case found of
      Inl err \<Rightarrow> rejectAuth e p ''auth.identity_conflict'' ''user'' (identityTarget None p) err meta now
    | Inr (Some c) \<Rightarrow>
        if actor_Kind c \<noteq> ''human'' then rejectAuth e p ''auth.identity_forbidden'' ''user'' (actor_ID c) identityForbidden meta now
        else if id_conflict p c then rejectAuth e p ''auth.identity_conflict'' ''user'' (actor_ID c) identityConflictError meta now
        else login_as e p (Some c) inviteCodeHash meta now
    | Inr None \<Rightarrow>
        if \<not> isSeededOwnerProfile p then login_as e p None inviteCodeHash meta now
        else io_bind (tx_wrap ''resolve seeded owner'' (tx_read e findSeededOwner)) (\<lambda>seeded.
          case seeded of
            Some c \<Rightarrow> if id_conflict p c then rejectAuth e p ''auth.identity_conflict'' ''user'' (actor_ID c) identityConflictError meta now
              else login_as e p (Some c) inviteCodeHash meta now
          | None \<Rightarrow> login_as e p None inviteCodeHash meta now)))"

definition committed :: "(go_error, (Error, 'a) result) result \<times> workspace \<Rightarrow> (go_error, 'a) result \<times> workspace" where
  "committed r = (case r of (Inl err, ws) \<Rightarrow> (Inl err, ws) | (Inr (Inl err), ws) \<Rightarrow> (Inl (Domain err), ws) | (Inr (Inr x), ws) \<Rightarrow> (Inr x, ws))"

definition PG_AuthenticateGitHub :: "(string \<Rightarrow> string) \<Rightarrow> tx_env \<Rightarrow> GitHubProfile \<Rightarrow> string \<Rightarrow> time \<Rightarrow> RequestMeta \<Rightarrow> workspace \<Rightarrow> (go_error, AuthActor) result \<times> workspace" where
  "PG_AuthenticateGitHub avatar e profile inviteCodeHash now meta ws =
    (case NormalizeGitHubProfile avatar profile of
       Inl err \<Rightarrow> (Inl (Domain err), ws)
     | Inr p \<Rightarrow> committed (Autocommit (login_body e p inviteCodeHash (Safe meta) (normalizeTimestamp (te_now e) now)) ws))"

definition invite_hash :: "string \<Rightarrow> string" where
  "invite_hash pendingInvite = (let code = NormalizeInviteCode pendingInvite in if code \<noteq> [] then HashSecret code else [])"

definition AuthenticateGitHub :: "(string \<Rightarrow> string) \<Rightarrow> tx_env \<Rightarrow> GitHubProfile \<Rightarrow> string \<Rightarrow> RequestMeta \<Rightarrow> workspace \<Rightarrow> (go_error, AuthActor) result \<times> workspace" where
  "AuthenticateGitHub avatar e profile pendingInvite meta ws =
    (case NormalizeGitHubProfile avatar profile of
       Inl err \<Rightarrow> (Inl (Domain err), ws)
     | Inr p \<Rightarrow>
         (case PG_AuthenticateGitHub avatar e p (invite_hash pendingInvite) (normalizedNow e) (Safe meta) ws of
            (Inl err, ws1) \<Rightarrow> (Inl err, ws1)
          | (Inr actor, ws1) \<Rightarrow> (if actor_usable actor then Inr actor else Inl (Domain requiredError), ws1)))"

section \<open>The login goes forward\<close>

lemma store_accounts_forward:
  assumes "store_accounts us v = Inr (x, v')" "evolve ac_id account_le (ws_users v) us"
  shows "forward v v'"
  using assms by (auto simp: store_accounts_def split: if_splits)

lemma bind_account_le: "account_le u (bind_account p now u)"
  by (simp add: row_le bind_account_def COALESCE_def split: option.split)

lemma updateUser_forward:
  "store_accounts (update_where q (bind_account p now) (ws_users v)) v = Inr (x, v') \<Longrightarrow> forward v v'"
  unfolding update_where_def
  by (erule store_accounts_forward) (rule account_rows.evolve_map, auto simp: bind_account_le account_rows.le_refl)

lemma insertUser_forward:
  assumes "store_accounts (ws_users v @ [u]) v = Inr (x, v')"
  shows "forward v v'"
  by (rule store_accounts_forward [OF assms], rule account_rows.evolve_append)
    (use assms in \<open>auto simp: store_accounts_def accounts_unique_def split: if_splits\<close>)

lemma upsert_member_forward: "upsert_member userID role now v = Inr (x, v') \<Longrightarrow> forward v v'"
  by (auto simp: upsert_member_def Let_def)

lemma reserve_upsert_events: "reserve_upsert space d = Inr (n, d1) \<Longrightarrow> workspace_events d1 = workspace_events d"
  by (auto simp: reserve_upsert_def advance_cursor_def result_bind_def split: option.splits if_splits)

lemma on_rest_forward:
  assumes "on_rest f v = Inr (x, v')" "\<And>d y d'. f d = Inr (y, d') \<Longrightarrow> set (workspace_events d) \<subseteq> set (workspace_events d')"
  shows "forward v v'"
  using assms by (auto simp: on_rest_def result_bind_def split: sum.splits prod.splits)

lemma reserve_forward: "on_rest (reserve_upsert space) v = Inr (x, v') \<Longrightarrow> forward v v'"
  by (erule on_rest_forward) (simp add: reserve_upsert_events)

lemma insert_event_forward: "on_rest (\<lambda>d. result_bind (insert_event r d) (\<lambda>d1. Inr ((), d1))) v = Inr (x, v') \<Longrightarrow> forward v v'"
  by (erule on_rest_forward) (auto simp: insert_event_def result_bind_def split: if_splits)

lemma use_invite_le: "invite_usable now iv \<Longrightarrow> invite_le iv (use_invite iv)"
  by (auto simp: row_le use_invite_def invite_usable_def)

lemma reserve_invite_forward:
  assumes "\<And>iv. hit iv \<Longrightarrow> invite_usable now iv"
  shows "forward v (v\<lparr>ws_invites := update_where hit use_invite (ws_invites v)\<rparr>)"
  unfolding forward_invites
proof
  show "evolve iv_id invite_le (ws_invites v) (update_where hit use_invite (ws_invites v))"
    unfolding update_where_def using assms by (intro invite_rows.evolve_map) (auto intro: use_invite_le invite_rows.le_refl)
  show "invites_ok v \<longrightarrow> invites_ok (v\<lparr>ws_invites := update_where hit use_invite (ws_invites v)\<rparr>)"
    using assms by (fastforce simp: invites_ok_def update_where_def list_all_iff use_invite_def invite_usable_def)
qed

lemmas login_ops [tx_ops] = findActorByID_def insertUser_def updateUser_def writeAudit_def writeMemberJoinedEvent_def reserveInvite_def
  rejectAuth_def rejectInvite_def login_member_def invited_user_def join_space_def accept_invite_def needs_invitation_def login_as_def

lemma writeAudit_forward: "legal forward e \<Longrightarrow> moves forward (writeAudit e i)"
  unfolding writeAudit_def newID_def by (intro forward.moves_rules forward.moves_write) (auto intro: forward_insert_audit)

lemma updateUser_moves: "legal forward e \<Longrightarrow> moves forward (updateUser e userID p now)"
  unfolding updateUser_def by (intro forward.moves_write) (auto intro: updateUser_forward)

lemma insertUser_moves: "legal forward e \<Longrightarrow> moves forward (insertUser e userID p now)"
  unfolding insertUser_def by (intro forward.moves_write) (auto intro: insertUser_forward)

lemma upsert_moves: "legal forward e \<Longrightarrow> moves forward (tx_write e (upsert_member userID role now))"
  by (intro forward.moves_write) (auto intro: upsert_member_forward)

lemma joined_moves: "legal forward e \<Longrightarrow> moves forward (writeMemberJoinedEvent e actor inviteID now)"
  unfolding writeMemberJoinedEvent_def newID_def
  by (intro forward.moves_rules forward.moves_write) (auto intro: reserve_forward insert_event_forward)

lemma reserveInvite_moves: "legal forward e \<Longrightarrow> moves forward (reserveInvite e i now)"
  unfolding reserveInvite_def Let_def by (intro forward.moves_write) (auto intro!: reserve_invite_forward)

lemma findActor_moves: "legal forward e \<Longrightarrow> moves forward (findActorByID e userID)"
  unfolding findActorByID_def by (intro forward.moves_rules)

lemma newID_moves: "moves forward (newID e)"
  unfolding newID_def by (intro forward.moves_rules)

lemmas login_moves = forward.moves_rules forward.moves_guard writeAudit_forward updateUser_moves insertUser_moves upsert_moves joined_moves
  reserveInvite_moves findActor_moves newID_moves

lemma rejections_moves:
  assumes "legal forward e"
  shows "moves forward (rejectAuth e p code targetType targetID outcome meta now)" "moves forward (rejectInvite e p invite failure meta now)"
  unfolding rejectAuth_def rejectInvite_def Let_def by (intro login_moves assms)+

lemma login_as_moves: "legal forward e \<Longrightarrow> moves forward (login_as e p candidate inviteCodeHash meta now)"
  unfolding login_as_def login_member_def needs_invitation_def accept_invite_def join_space_def invited_user_def
  by (intro login_moves rejections_moves)

lemma login_body_moves: "legal forward e \<Longrightarrow> moves forward (login_body e p inviteCodeHash meta now)"
  unfolding login_body_def by (intro login_moves rejections_moves login_as_moves)

lemma snd_committed [simp]: "snd (committed r) = snd r"
  by (auto simp: committed_def split: prod.split sum.split)

lemma login_forward:
  assumes "legal forward e"
  shows "forward ws (snd (AuthenticateGitHub avatar e profile pendingInvite meta ws))"
  using forward.moves_Autocommit [OF login_body_moves [OF assms]]
  by (auto simp: AuthenticateGitHub_def PG_AuthenticateGitHub_def forward.refl split: sum.splits prod.splits)
    (metis snd_committed snd_conv)+

section \<open>What a login does\<close>

lemma newID_view: "newID e s = (Inr x, s1) \<Longrightarrow> tx_view s1 = tx_view s \<and> TrimSpace x \<noteq> []"
  by (auto simp: newID_def tx_ok dest: tx_newid_view split: if_splits)

lemma insert_audit_ok: "insert_audit r v = Inr (x, v') \<Longrightarrow> v' = v\<lparr>ws_audit := ws_audit v @ [r]\<rparr>"
  by (auto simp: insert_audit_def result_bind_def split: sum.splits)

lemma store_accounts_ok: "store_accounts us v = Inr (x, v') \<Longrightarrow> v' = v\<lparr>ws_users := us\<rparr>"
  by (auto simp: store_accounts_def split: if_splits)

lemma upsert_member_ok: "upsert_member userID role now v = Inr (x, v') \<Longrightarrow> \<exists>ms. v' = v\<lparr>ws_members := ms\<rparr>"
  by (auto simp: upsert_member_def Let_def)

text \<open>An audit entry of the space: who did what to which target, and how it ended.\<close>

definition audit_entry :: "string \<Rightarrow> string \<Rightarrow> string \<Rightarrow> string \<Rightarrow> string \<Rightarrow> string \<Rightarrow> audit_row \<Rightarrow> bool" where
  "audit_entry user login action targetType targetID outcome r \<longleftrightarrow> au_space_id r = DefaultSpaceID \<and>
     au_actor_user_id r = NULLIF_empty user \<and> au_actor_github_login r = NULLIF_empty login \<and> au_action r = action \<and>
     au_target_type r = targetType \<and> au_target_id r = NULLIF_empty targetID \<and> au_result r = outcome"

lemma audit_entry_of [simp]:
  "audit_entry user login action targetType targetID outcome
     (audit_of i (audit_input user login action targetType targetID outcome reason meta now) t)"
  by (simp add: audit_entry_def audit_of_def audit_input_def Let_def)

lemma writeAudit_row:
  assumes "quiet e" "writeAudit e (audit_input user login action targetType targetID outcome reason meta now) s = (Inr x, s1)"
  shows "\<exists>r. tx_view s1 = (tx_view s)\<lparr>ws_audit := ws_audit (tx_view s) @ [r]\<rparr> \<and> audit_entry user login action targetType targetID outcome r"
proof -
  let ?i = "audit_input user login action targetType targetID outcome reason meta now"
  obtain i1 s0 where "newID e s = (Inr i1, s0)"
      "tx_write e (insert_audit (audit_of i1 ?i (normalizeTimestamp (te_now e) (ai_CreatedAt ?i)))) s0 = (Inr x, s1)"
    using assms(2) by (auto simp: writeAudit_def tx_ok)
  then have "tx_view s1 = (tx_view s)\<lparr>ws_audit := ws_audit (tx_view s) @ [audit_of i1 ?i (normalizeTimestamp (te_now e) (ai_CreatedAt ?i))]\<rparr>"
    using insert_audit_ok [OF tx_write_view [OF assms(1)]] newID_view by auto
  then show ?thesis using audit_entry_of by blast
qed

lemma writeAudit_view:
  assumes "quiet e" "writeAudit e i s = (Inr x, s1)"
  shows "\<exists>r. tx_view s1 = (tx_view s)\<lparr>ws_audit := ws_audit (tx_view s) @ [r]\<rparr>"
proof -
  obtain i1 r s0 where "newID e s = (Inr i1, s0)" "tx_write e (insert_audit r) s0 = (Inr x, s1)"
    using assms(2) by (auto simp: writeAudit_def tx_ok)
  then show ?thesis using insert_audit_ok [OF tx_write_view [OF assms(1)]] newID_view by auto
qed

lemma updateUser_view:
  assumes "quiet e" "updateUser e userID p now s = (Inr x, s1)"
  shows "\<exists>us. tx_view s1 = (tx_view s)\<lparr>ws_users := us\<rparr>"
  using store_accounts_ok [OF tx_write_view [OF assms(1) assms(2) [unfolded updateUser_def]]] by blast

lemma invited_user_view:
  assumes "quiet e" "invited_user e p candidate now s = (Inr x, s1)"
  shows "\<exists>us. tx_view s1 = (tx_view s)\<lparr>ws_users := us\<rparr>"
proof (cases candidate)
  case None
  then obtain i s0 y where "newID e s = (Inr i, s0)" "insertUser e i p now s0 = (Inr y, s1)"
    using assms(2) by (auto simp: invited_user_def tx_ok)
  then show ?thesis using newID_view store_accounts_ok [OF tx_write_view [OF assms(1)]] unfolding insertUser_def by fastforce
next
  case (Some c)
  then show ?thesis using assms updateUser_view [OF assms(1)] by (auto simp: invited_user_def tx_ok)
qed

lemma findActorByID_view:
  assumes "quiet e" "findActorByID e userID s = (Inr a, s1)"
  shows "tx_view s1 = tx_view s \<and> (\<exists>u m. a = scanActor u m \<and> ac_id u = userID \<and> m \<in> set (ws_members (tx_view s)) \<and> active_member DefaultSpaceID userID m)"
proof -
  obtain r where r: "tx_read e (\<lambda>ws. first_row [scanActor u m. (u, m) \<leftarrow> space_users ws, ac_id u = userID]) s = (Inr (Some r), s1)" "a = r"
    using assms(2) by (auto simp: findActorByID_def tx_ok split: option.splits)
  note v = tx_read_view [OF assms(1) r(1)]
  then have "r \<in> set [scanActor u m. (u, m) \<leftarrow> space_users (tx_view s), ac_id u = userID]" by (intro first_row_in) simp
  then show ?thesis using v r(2) by (auto simp: space_users_def split: if_splits)
qed

text \<open>A refused login adds at most two entries to the audit log and changes nothing else.\<close>

definition only_audits :: "nat \<Rightarrow> workspace \<Rightarrow> workspace \<Rightarrow> bool" where
  "only_audits n ws ws' \<longleftrightarrow> (\<exists>rs. length rs \<le> n \<and> ws' = ws\<lparr>ws_audit := ws_audit ws @ rs\<rparr>)"

lemma only_audits_one: "(\<exists>r. v' = v\<lparr>ws_audit := ws_audit v @ [r]\<rparr>) \<Longrightarrow> only_audits 1 v v'"
  by (force simp: only_audits_def)

lemma only_audits_more: "only_audits m v v' \<Longrightarrow> m \<le> n \<Longrightarrow> only_audits n v v'"
  by (force simp: only_audits_def)

lemma only_audits_trans:
  assumes "only_audits m a b" "only_audits n b c"
  shows "only_audits (m + n) a c"
proof -
  obtain rs rs' where "length rs \<le> m" "b = a\<lparr>ws_audit := ws_audit a @ rs\<rparr>" "length rs' \<le> n" "c = b\<lparr>ws_audit := ws_audit b @ rs'\<rparr>"
    using assms by (auto simp: only_audits_def)
  then show ?thesis unfolding only_audits_def by (intro exI [of _ "rs @ rs'"]) simp
qed

lemma reject_view:
  assumes "quiet e"
  shows "rejectAuth e p code targetType targetID outcome meta now s = (Inr y, s1) \<Longrightarrow> (\<exists>err. y = Inl err) \<and> only_audits 1 (tx_view s) (tx_view s1)"
    and "rejectInvite e p invite failure meta now s = (Inr y, s1) \<Longrightarrow> (\<exists>err. y = Inl err) \<and> only_audits 1 (tx_view s) (tx_view s1)"
proof -
  assume "rejectAuth e p code targetType targetID outcome meta now s = (Inr y, s1)"
  then obtain i s0 where "writeAudit e i s = (Inr (), s0)" "tx_guard e ''commit rejected login'' s0 = (Inr (), s1)" "y = Inl outcome"
    by (auto simp: rejectAuth_def tx_ok)
  then show "(\<exists>err. y = Inl err) \<and> only_audits 1 (tx_view s) (tx_view s1)"
    using writeAudit_view [OF assms] tx_guard_view [OF assms] only_audits_one by metis
next
  assume "rejectInvite e p invite failure meta now s = (Inr y, s1)"
  then obtain i s0 err where "writeAudit e i s = (Inr (), s0)" "tx_guard e ''commit rejected invite'' s0 = (Inr (), s1)" "y = Inl err"
    by (auto simp: rejectInvite_def tx_ok Let_def)
  then show "(\<exists>err. y = Inl err) \<and> only_audits 1 (tx_view s) (tx_view s1)"
    using writeAudit_view [OF assms] tx_guard_view [OF assms] only_audits_one by metis
qed

text \<open>
  The two ways in: as an active member, with one audit entry of the success; and through an
  invitation, with the entry of the login without membership that comes first and the
  entry of the acceptance.
\<close>

definition member_login :: "GitHubProfile \<Rightarrow> workspace \<Rightarrow> AuthActor \<Rightarrow> workspace \<Rightarrow> bool" where
  "member_login p ws a ws' \<longleftrightarrow> ws_members ws' = ws_members ws \<and> ws_invites ws' = ws_invites ws \<and> ws_rest ws' = ws_rest ws \<and>
     list_ex (active_member DefaultSpaceID (actor_ID a)) (ws_members ws) \<and>
     (\<exists>r. ws_audit ws' = ws_audit ws @ [r] \<and> audit_entry (actor_ID a) (gp_Login p) ''login.success'' ''user'' (actor_ID a) ''success'' r)"

definition event_appended :: "AuthActor \<Rightarrow> workspace \<Rightarrow> workspace \<Rightarrow> bool" where
  "event_appended a ws ws' \<longleftrightarrow> (\<exists>ev. workspace_events (ws_rest ws') = workspace_events (ws_rest ws) @ [ev] \<and>
     er_Type ev = ''workspace.member_joined'' \<and> er_TargetID ev = Some (actor_ID a))"

definition invite_accepted :: "string \<Rightarrow> time \<Rightarrow> invite_row \<Rightarrow> workspace \<Rightarrow> AuthActor \<Rightarrow> workspace \<Rightarrow> bool" where
  "invite_accepted inviteCodeHash now iv ws a ws' \<longleftrightarrow>
     iv \<in> set (ws_invites ws) \<and> iv_code_hash iv = inviteCodeHash \<and> iv_space_id iv = DefaultSpaceID \<and> invite_usable now iv \<and>
     ws_invites ws' = map (\<lambda>x. if x = iv then use_invite iv else x) (ws_invites ws) \<and> actor_Role a = iv_default_role iv \<and>
     list_ex (active_member DefaultSpaceID (actor_ID a)) (ws_members ws') \<and> event_appended a ws ws'"

definition acceptance_entry :: "GitHubProfile \<Rightarrow> AuthActor \<Rightarrow> invite_row \<Rightarrow> audit_row \<Rightarrow> bool" where
  "acceptance_entry p a iv r \<longleftrightarrow> audit_entry (actor_ID a) (gp_Login p) ''invite.accept'' ''invite'' (iv_id iv) ''success'' r"

definition invited_login :: "GitHubProfile \<Rightarrow> string \<Rightarrow> time \<Rightarrow> workspace \<Rightarrow> AuthActor \<Rightarrow> workspace \<Rightarrow> bool" where
  "invited_login p inviteCodeHash now ws a ws' \<longleftrightarrow>
     (\<exists>iv r0 r. invite_accepted inviteCodeHash now iv ws a ws' \<and> ws_audit ws' = ws_audit ws @ [r0, r] \<and>
        au_action r0 = ''login.rejected'' \<and> acceptance_entry p a iv r)"

lemma login_member_view:
  assumes "quiet e" "login_member e p userID meta now s = (Inr y, s1)" "list_ex (active_member DefaultSpaceID userID) (ws_members (tx_view s))"
  shows "\<exists>a. y = Inr a \<and> actor_ID a = userID \<and> member_login p (tx_view s) a (tx_view s1)"
proof -
  obtain x1 s2 s3 s4 a where run: "updateUser e userID p now s = (Inr x1, s2)"
      "writeAudit e (audit_input userID (gp_Login p) ''login.success'' ''user'' userID ''success'' [] meta now) s2 = (Inr (), s3)"
      "findActorByID e userID s3 = (Inr a, s4)"
      "tx_guard e ''commit github login'' s4 = (Inr (), s1)" "y = Inr a"
    using assms(2) by (auto simp: login_member_def tx_ok)
  obtain us where 1: "tx_view s2 = (tx_view s)\<lparr>ws_users := us\<rparr>" using updateUser_view [OF assms(1) run(1)] by blast
  obtain r where 2: "tx_view s3 = (tx_view s2)\<lparr>ws_audit := ws_audit (tx_view s2) @ [r]\<rparr>"
      "audit_entry userID (gp_Login p) ''login.success'' ''user'' userID ''success'' r"
    using writeAudit_row [OF assms(1) run(2)] by blast
  show ?thesis
    using findActorByID_view [OF assms(1) run(3)] tx_guard_view [OF assms(1) run(4)] 1 2 assms(3) run(5) by (auto simp: member_login_def)
qed

lemma joined_view:
  assumes "quiet e" "writeMemberJoinedEvent e a inviteID now s = (Inr x, s1)"
  shows "\<exists>d. tx_view s1 = (tx_view s)\<lparr>ws_rest := d\<rparr> \<and> event_appended a (tx_view s) (tx_view s1)"
proof -
  obtain n s2 i s3 where run: "tx_write e (on_rest (reserve_upsert DefaultSpaceID)) s = (Inr n, s2)" "newID e s2 = (Inr i, s3)"
      "tx_write e (on_rest (\<lambda>d. result_bind (insert_event (joined_event i a inviteID n (normalizeTimestamp (te_now e) now)) d) (\<lambda>d1. Inr ((), d1)))) s3 = (Inr x, s1)"
    using assms(2) by (auto simp: writeMemberJoinedEvent_def tx_ok)
  obtain d where d: "reserve_upsert DefaultSpaceID (ws_rest (tx_view s)) = Inr (n, d)" "tx_view s2 = (tx_view s)\<lparr>ws_rest := d\<rparr>"
    using tx_write_view [OF assms(1) run(1)] by (auto simp: on_rest_def result_bind_def split: sum.splits)
  obtain d' where d': "insert_event (joined_event i a inviteID n (normalizeTimestamp (te_now e) now)) d = Inr d'" "tx_view s1 = (tx_view s)\<lparr>ws_rest := d'\<rparr>"
    using tx_write_view [OF assms(1) run(3)] newID_view [OF run(2)] d(2) by (auto simp: on_rest_def result_bind_def split: sum.splits)
  show ?thesis
    using reserve_upsert_events [OF d(1)] d' by (auto simp: event_appended_def insert_event_def joined_event_def split: if_splits)
qed

lemma upsert_member_role:
  assumes "upsert_member userID role now ws = Inr (x, ws')" "m \<in> set (ws_members ws')" "active_member DefaultSpaceID userID m"
  shows "mb_role m = role"
proof -
  have "ws_members ws' = (if list_ex (\<lambda>m. mb_space_id m = DefaultSpaceID \<and> mb_user_id m = userID) (ws_members ws)
     then update_where (\<lambda>m. mb_space_id m = DefaultSpaceID \<and> mb_user_id m = userID) (\<lambda>m. m\<lparr>mb_role := role, mb_removed_at := None\<rparr>) (ws_members ws)
     else ws_members ws @ [\<lparr>mb_space_id = DefaultSpaceID, mb_user_id = userID, mb_role = role, mb_joined_at = now, mb_removed_at = None\<rparr>])"
    using assms(1) by (auto simp: upsert_member_def Let_def)
  moreover have "mb_role m = role"
    if "m \<in> set (update_where (\<lambda>m. mb_space_id m = DefaultSpaceID \<and> mb_user_id m = userID) (\<lambda>m. m\<lparr>mb_role := role, mb_removed_at := None\<rparr>) (ws_members ws))"
    using that assms(3) by (auto simp: update_where_def active_member_def)
  moreover have "m \<notin> set (ws_members ws)" if "\<not> list_ex (\<lambda>m. mb_space_id m = DefaultSpaceID \<and> mb_user_id m = userID) (ws_members ws)"
    using that assms(3) by (auto simp: list_ex_iff active_member_def)
  ultimately show ?thesis using assms(2) by (cases "list_ex (\<lambda>m. mb_space_id m = DefaultSpaceID \<and> mb_user_id m = userID) (ws_members ws)") auto
qed

lemma join_space_view:
  assumes "quiet e" "join_space e p candidate iv meta now s = (Inr y, s1)"
  shows "\<exists>a r. y = Inr a \<and> ws_invites (tx_view s1) = ws_invites (tx_view s) \<and> actor_Role a = iv_default_role iv \<and>
     list_ex (active_member DefaultSpaceID (actor_ID a)) (ws_members (tx_view s1)) \<and> event_appended a (tx_view s) (tx_view s1) \<and>
     ws_audit (tx_view s1) = ws_audit (tx_view s) @ [r] \<and> acceptance_entry p a iv r"
proof -
  obtain userID s2 x s3 a s4 s5 s6 where run: "invited_user e p candidate now s = (Inr userID, s2)"
      "tx_write e (upsert_member userID (iv_default_role iv) now) s2 = (Inr x, s3)" "findActorByID e userID s3 = (Inr a, s4)"
      "writeMemberJoinedEvent e a (iv_id iv) now s4 = (Inr (), s5)"
      "writeAudit e (audit_input userID (gp_Login p) ''invite.accept'' ''invite'' (iv_id iv) ''success'' [] meta now) s5 = (Inr (), s6)"
      "tx_guard e ''commit invite acceptance'' s6 = (Inr (), s1)" "y = Inr a"
    using assms(2) by (auto simp: join_space_def tx_ok)
  obtain us where 1: "tx_view s2 = (tx_view s)\<lparr>ws_users := us\<rparr>" using invited_user_view [OF assms(1) run(1)] by blast
  have ups: "upsert_member userID (iv_default_role iv) now (tx_view s2) = Inr (x, tx_view s3)" using tx_write_view [OF assms(1) run(2)] .
  then obtain ms where 2: "tx_view s3 = (tx_view s2)\<lparr>ws_members := ms\<rparr>" using upsert_member_ok by blast
  obtain u m where 3: "tx_view s4 = tx_view s3" "a = scanActor u m" "ac_id u = userID" "m \<in> set (ws_members (tx_view s3))" "active_member DefaultSpaceID userID m"
    using findActorByID_view [OF assms(1) run(3)] by blast
  obtain d where 4: "tx_view s5 = (tx_view s4)\<lparr>ws_rest := d\<rparr>" "event_appended a (tx_view s4) (tx_view s5)" using joined_view [OF assms(1) run(4)] by blast
  obtain r where 5: "tx_view s6 = (tx_view s5)\<lparr>ws_audit := ws_audit (tx_view s5) @ [r]\<rparr>"
      "audit_entry userID (gp_Login p) ''invite.accept'' ''invite'' (iv_id iv) ''success'' r"
    using writeAudit_row [OF assms(1) run(5)] by blast
  have 6: "tx_view s1 = tx_view s6" using tx_guard_view [OF assms(1) run(6)] .
  have "list_ex (active_member DefaultSpaceID userID) (ws_members (tx_view s3))" using 3(4,5) by (auto simp: list_ex_iff)
  moreover have "mb_role m = iv_default_role iv" using upsert_member_role [OF ups 3(4,5)] .
  ultimately show ?thesis using 1 2 3(1-3) 4 5 6 run(7) by (simp add: event_appended_def acceptance_entry_def)
qed

lemma reserveInvite_view:
  assumes "quiet e" "reserveInvite e (iv_id iv) now s = (Inr r, s1)" "iv \<in> set (ws_invites (tx_view s))" "distinct (map iv_id (ws_invites (tx_view s)))"
    and "iv_space_id iv = DefaultSpaceID" "invite_usable now iv"
  shows "r = Some (use_invite iv) \<and> tx_view s1 = (tx_view s)\<lparr>ws_invites := map (\<lambda>x. if x = iv then use_invite iv else x) (ws_invites (tx_view s))\<rparr>"
proof -
  define hit where "hit x \<longleftrightarrow> iv_id x = iv_id iv \<and> iv_space_id x = DefaultSpaceID \<and> invite_usable now x" for x
  have hit: "x \<in> set (ws_invites (tx_view s)) \<Longrightarrow> hit x \<longleftrightarrow> x = iv" for x
    using assms(3-6) by (auto simp: hit_def distinct_map dest: inj_onD)
  have "filter hit (ws_invites (tx_view s)) = filter (\<lambda>x. x = iv) (ws_invites (tx_view s))" using hit by (intro filter_cong) auto
  also have "\<dots> = [iv]"
  proof -
    obtain ys zs where xs: "ws_invites (tx_view s) = ys @ iv # zs" using split_list [OF assms(3)] by blast
    then have "iv \<notin> set ys" "iv \<notin> set zs" using assms(4) by auto
    then have "filter (\<lambda>x. x = iv) ys = []" "filter (\<lambda>x. x = iv) zs = []" unfolding filter_empty_conv by blast+
    then show ?thesis by (simp add: xs)
  qed
  finally have one: "filter hit (ws_invites (tx_view s)) = [iv]" .
  have upd: "update_where hit use_invite (ws_invites (tx_view s)) = map (\<lambda>x. if x = iv then use_invite iv else x) (ws_invites (tx_view s))"
    unfolding update_where_def using hit by (intro map_cong) auto
  have "Inr (map_option use_invite (first_row (filter hit (ws_invites (tx_view s)))), (tx_view s)\<lparr>ws_invites := update_where hit use_invite (ws_invites (tx_view s))\<rparr>)
     = (Inr (r, tx_view s1) :: (string, _) result)"
    using tx_write_view [OF assms(1) assms(2) [unfolded reserveInvite_def Let_def]] unfolding hit_def .
  then show ?thesis unfolding one upd by simp
qed

lemma accept_invite_view:
  assumes "quiet e" "accept_invite e p candidate h meta now s = (Inr y, s1)" "distinct (map iv_id (ws_invites (tx_view s)))"
  shows "(\<exists>err. y = Inl err) \<and> only_audits 1 (tx_view s) (tx_view s1) \<or> 
    (\<exists>a iv r. y = Inr a \<and> invite_accepted h now iv (tx_view s) a (tx_view s1) \<and>
       ws_audit (tx_view s1) = ws_audit (tx_view s) @ [r] \<and> acceptance_entry p a iv r)"
proof -
  obtain found s2 where found: "tx_read e (findInvite h) s = (Inr found, s2)"
    using assms(2) by (auto simp: accept_invite_def tx_ok)
  have v: "found = findInvite h (tx_view s)" "tx_view s2 = tx_view s" using tx_read_view [OF assms(1) found] by auto
  show ?thesis
  proof (cases "\<exists>iv. found = Some iv \<and> invite_usable now iv")
    case False
    then have "(\<exists>err. y = Inl err) \<and> only_audits 1 (tx_view s2) (tx_view s1)"
      using assms(2) found
      by (auto simp: accept_invite_def tx_ok invite_usable_def not_less dest: reject_view(2) [OF assms(1)] split: option.splits if_splits)
    then show ?thesis using v(2) by simp
  next
    case True
    then obtain iv where iv: "found = Some iv" "invite_usable now iv" by blast
    then have mem: "iv \<in> set (ws_invites (tx_view s2))" "iv_code_hash iv = h" "iv_space_id iv = DefaultSpaceID"
      using v first_row_filter [of _ "ws_invites (tx_view s)" iv] unfolding findInvite_def by auto
    obtain r s3 where r: "reserveInvite e (iv_id iv) now s2 = (Inr r, s3)"
      and rest: "(case r of None \<Rightarrow> io_bind (tx_wrap ''recheck invite'' (tx_read e (findInviteByID (iv_id iv)))) (\<lambda>latest.
              rejectInvite e p latest (inviteFailure latest now) meta now) | Some r \<Rightarrow> join_space e p candidate r meta now) s3 = (Inr y, s1)"
      using assms(2) found iv by (auto simp: accept_invite_def tx_ok invite_usable_def split: if_splits option.splits)
    have res: "r = Some (use_invite iv)"
        "tx_view s3 = (tx_view s2)\<lparr>ws_invites := map (\<lambda>x. if x = iv then use_invite iv else x) (ws_invites (tx_view s2))\<rparr>"
      using reserveInvite_view [OF assms(1) r mem(1) _ mem(3) iv(2)] assms(3) v(2) by simp_all
    then have "join_space e p candidate (use_invite iv) meta now s3 = (Inr y, s1)" using rest by simp
    then obtain a au where "y = Inr a" "ws_invites (tx_view s1) = ws_invites (tx_view s3)" "actor_Role a = iv_default_role iv"
        "list_ex (active_member DefaultSpaceID (actor_ID a)) (ws_members (tx_view s1))" "event_appended a (tx_view s3) (tx_view s1)"
        "ws_audit (tx_view s1) = ws_audit (tx_view s3) @ [au]" "acceptance_entry p a iv au"
      using join_space_view [OF assms(1)] by (fastforce simp: use_invite_def acceptance_entry_def)
    moreover from this have "invite_accepted h now iv (tx_view s) a (tx_view s1)"
      using res(2) mem v(2) iv(2) by (simp add: invite_accepted_def event_appended_def)
    ultimately show ?thesis using res(2) v(2) by auto
  qed
qed

lemma needs_invitation_view:
  assumes "quiet e" "needs_invitation e p candidate h meta now s = (Inr y, s1)" "distinct (map iv_id (ws_invites (tx_view s)))"
  shows "(\<exists>err. y = Inl err) \<and> only_audits 2 (tx_view s) (tx_view s1) \<or> (\<exists>a. y = Inr a \<and> h \<noteq> [] \<and> invited_login p h now (tx_view s) a (tx_view s1))"
proof -
  obtain s2 where i: "writeAudit e (audit_input [] (gp_Login p) ''login.rejected'' ''user'' (identityTarget candidate p) ''rejected'' ''not invited'' meta now) s
      = (Inr (), s2)"
    and rest: "(if h = [] then io_bind (tx_guard e ''commit rejected login'') (\<lambda>_. io_return (Inl notInvitedError)) else accept_invite e p candidate h meta now) s2 = (Inr y, s1)"
    using assms(2) by (auto simp: needs_invitation_def tx_ok)
  obtain r0 where v: "tx_view s2 = (tx_view s)\<lparr>ws_audit := ws_audit (tx_view s) @ [r0]\<rparr>" "au_action r0 = ''login.rejected''"
    using writeAudit_row [OF assms(1) i] by (auto simp: audit_entry_def)
  then have one: "only_audits 1 (tx_view s) (tx_view s2)" by (intro only_audits_one) blast
  show ?thesis
  proof (cases "h = []")
    case True
    then show ?thesis using rest one tx_guard_view [OF assms(1)] only_audits_more [of 1 _ _ 2] by (fastforce simp: tx_ok)
  next
    case False
    have "distinct (map iv_id (ws_invites (tx_view s2)))" using assms(3) v by simp
    moreover have "accept_invite e p candidate h meta now s2 = (Inr y, s1)" using rest False by simp
    ultimately consider (refused) "\<exists>err. y = Inl err" "only_audits 1 (tx_view s2) (tx_view s1)"
      | (joined) a iv r where "y = Inr a" "invite_accepted h now iv (tx_view s2) a (tx_view s1)"
          "ws_audit (tx_view s1) = ws_audit (tx_view s2) @ [r]" "acceptance_entry p a iv r"
      using accept_invite_view [OF assms(1)] by blast
    then show ?thesis
    proof cases
      case refused
      then show ?thesis using only_audits_trans [OF one, of 1] by (simp add: numeral_2_eq_2)
    next
      case joined
      then have "invite_accepted h now iv (tx_view s) a (tx_view s1)" using v(1) by (simp add: invite_accepted_def event_appended_def)
      then show ?thesis using joined v False unfolding invited_login_def by auto
    qed
  qed
qed

section \<open>Whose login it is\<close>

text \<open>
  The account a profile may use: one that shares its GitHub id, login or email, or the seeded
  owner; a GitHub id the account already has must be the profile's where the profile has one.
\<close>

definition may_login :: "GitHubProfile \<Rightarrow> account_row \<Rightarrow> bool" where
  "may_login p u \<longleftrightarrow> (profile_matches p u \<or> isSeededOwnerProfile p \<and> ac_id u = SeededOwnerID) \<and>
     (stringValue (ac_github_id u) = [] \<or> gp_ID p = [] \<or> ac_github_id u = Some (gp_ID p))"

lemma identity_row_simps [simp]: "actor_ID (identity_row ws u) = ac_id u" "actor_GitHubID (identity_row ws u) = stringValue (ac_github_id u)"
  by (simp_all add: identity_row_def scanIdentity_def)

lemma identity_row_role:
  assumes "actor_Role (identity_row ws u) \<noteq> []"
  shows "list_ex (active_member DefaultSpaceID (ac_id u)) (ws_members ws)"
proof -
  obtain m where "first_row (filter (active_member DefaultSpaceID (ac_id u)) (ws_members ws)) = Some m"
    using assms by (auto simp: identity_row_def scanIdentity_def split: option.splits)
  then show ?thesis using first_row_filter by (fastforce simp: list_ex_iff)
qed

lemma findIdentity_Some:
  assumes "findIdentity p ws = Inr (Some c)"
  shows "\<exists>u \<in> set (ws_users ws). profile_matches p u \<and> c = identity_row ws u"
proof -
  have "c \<in> set (identity_rows p ws)"
    using assms by (auto simp: findIdentity_def Let_def dest!: first_row_in split: option.splits if_splits)
  then show ?thesis by (auto simp: identity_rows_def)
qed

lemma findSeededOwner_Some:
  assumes "findSeededOwner ws = Some c"
  shows "\<exists>u \<in> set (ws_users ws). ac_id u = SeededOwnerID \<and> c = identity_row ws u"
proof -
  have "c \<in> set (map (identity_row ws) (filter (\<lambda>u. ac_id u = SeededOwnerID) (ws_users ws)))"
    using assms unfolding findSeededOwner_def by (rule first_row_in)
  then show ?thesis by auto
qed

definition login_ok :: "GitHubProfile \<Rightarrow> string \<Rightarrow> time \<Rightarrow> workspace \<Rightarrow> AuthActor \<Rightarrow> workspace \<Rightarrow> bool" where
  "login_ok p h now ws a ws' \<longleftrightarrow>
     (\<exists>u \<in> set (ws_users ws). ac_id u = actor_ID a \<and> may_login p u \<and> member_login p ws a ws') \<or> h \<noteq> [] \<and> invited_login p h now ws a ws'"

lemma login_as_view:
  assumes "quiet e" "login_as e p candidate h meta now s = (Inr y, s1)" "distinct (map iv_id (ws_invites (tx_view s)))"
    and "candidate = None \<or> (\<exists>u \<in> set (ws_users (tx_view s)). candidate = Some (identity_row (tx_view s) u) \<and> may_login p u)"
  shows "(\<exists>err. y = Inl err) \<and> only_audits 2 (tx_view s) (tx_view s1) \<or> (\<exists>a. y = Inr a \<and> login_ok p h now (tx_view s) a (tx_view s1))"
proof (cases "\<exists>c. candidate = Some c \<and> actor_Role c \<noteq> []")
  case True
  then obtain u where u: "u \<in> set (ws_users (tx_view s))" "candidate = Some (identity_row (tx_view s) u)" "may_login p u"
      "actor_Role (identity_row (tx_view s) u) \<noteq> []"
    using assms(4) by auto
  then have "login_member e p (ac_id u) meta now s = (Inr y, s1)" using assms(2) by (simp add: login_as_def)
  from login_member_view [OF assms(1) this identity_row_role [OF u(4)]] obtain a
    where "y = Inr a" "actor_ID a = ac_id u" "member_login p (tx_view s) a (tx_view s1)" by blast
  then show ?thesis using u(1,3) unfolding login_ok_def by metis
next
  case False
  then have "needs_invitation e p candidate h meta now s = (Inr y, s1)"
    using assms(2) by (auto simp: login_as_def split: option.splits if_splits)
  then show ?thesis using needs_invitation_view [OF assms(1) _ assms(3)] unfolding login_ok_def by blast
qed

lemma login_body_view:
  assumes "quiet e" "login_body e p h meta now s = (Inr y, s1)" "distinct (map iv_id (ws_invites (tx_view s)))"
  shows "(\<exists>err. y = Inl err) \<and> only_audits 2 (tx_view s) (tx_view s1) \<or> (\<exists>a. y = Inr a \<and> login_ok p h now (tx_view s) a (tx_view s1))"
proof -
  obtain s2 found s3 where g: "tx_guard e ''begin github authentication'' s = (Inr (), s2)" and f: "tx_read e (findIdentity p) s2 = (Inr found, s3)"
    using assms(2) by (auto simp: login_body_def tx_ok)
  have v: "tx_view s3 = tx_view s" "found = findIdentity p (tx_view s)"
    using tx_guard_view [OF assms(1) g] tx_read_view [OF assms(1) f] by auto
  have reject: "(\<exists>err. y = Inl err) \<and> only_audits 2 (tx_view s) (tx_view s1)"
    if "rejectAuth e p code targetType targetID outcome meta now s' = (Inr y, s1)" "tx_view s' = tx_view s" for code targetType targetID outcome s'
    using reject_view(1) [OF assms(1) that(1)] that(2) only_audits_more [of 1 _ _ 2] by simp
  have go: ?thesis if "login_as e p candidate h meta now s' = (Inr y, s1)" "tx_view s' = tx_view s"
      "candidate = None \<or> (\<exists>u \<in> set (ws_users (tx_view s)). candidate = Some (identity_row (tx_view s) u) \<and> may_login p u)" for candidate s'
    using login_as_view [OF assms(1) that(1)] that(2,3) assms(3) by simp
  consider (err) err where "found = Inl err" | (none) "found = Inr None" | (some) c where "found = Inr (Some c)"
    by (metis sum.exhaust option.exhaust)
  then show ?thesis
  proof cases
    case err
    then have "\<exists>code tt ti. rejectAuth e p code tt ti err meta now s3 = (Inr y, s1)" using assms(2) g f by (auto simp: login_body_def tx_ok)
    then show ?thesis using reject v(1) by blast
  next
    case none
    show ?thesis
    proof (cases "isSeededOwnerProfile p")
      case False
      then have "login_as e p None h meta now s3 = (Inr y, s1)" using assms(2) g f none by (auto simp: login_body_def tx_ok)
      then show ?thesis using go v(1) by blast
    next
      case True
      then obtain seeded s4 where sd: "tx_read e findSeededOwner s3 = (Inr seeded, s4)"
        and rest: "(case seeded of Some c \<Rightarrow> if id_conflict p c then rejectAuth e p ''auth.identity_conflict'' ''user'' (actor_ID c) identityConflictError meta now
              else login_as e p (Some c) h meta now | None \<Rightarrow> login_as e p None h meta now) s4 = (Inr y, s1)"
        using assms(2) g f none by (auto simp: login_body_def tx_ok)
      have w: "tx_view s4 = tx_view s" "seeded = findSeededOwner (tx_view s)" using tx_read_view [OF assms(1) sd] v(1) by auto
      show ?thesis
      proof (cases seeded)
        case None
        then show ?thesis using rest go [of None s4] w(1) by simp
      next
        case (Some c)
        then obtain u where u: "u \<in> set (ws_users (tx_view s))" "ac_id u = SeededOwnerID" "c = identity_row (tx_view s) u"
          using findSeededOwner_Some w(2) by metis
        show ?thesis
        proof (cases "id_conflict p c")
          case True
          then show ?thesis using rest Some reject [OF _ w(1)] by simp
        next
          case False
          then have "may_login p u" using u \<open>isSeededOwnerProfile p\<close> by (auto simp: may_login_def id_conflict_def stringValue_def split: option.splits)
          then show ?thesis using rest Some False go [of "Some c" s4] w(1) u(1,3) by auto
        qed
      qed
    qed
  next
    case some
    then obtain u where u: "u \<in> set (ws_users (tx_view s))" "profile_matches p u" "c = identity_row (tx_view s) u"
      using findIdentity_Some v(2) by metis
    show ?thesis
    proof (cases "actor_Kind c \<noteq> ''human'' \<or> id_conflict p c")
      case True
      then have "\<exists>code tt ti err. rejectAuth e p code tt ti err meta now s3 = (Inr y, s1)"
        using assms(2) g f some by (auto simp: login_body_def tx_ok split: if_splits)
      then show ?thesis using reject v(1) by blast
    next
      case False
      then have "login_as e p (Some c) h meta now s3 = (Inr y, s1)" using assms(2) g f some by (auto simp: login_body_def tx_ok split: if_splits)
      moreover have "may_login p u" using False u by (auto simp: may_login_def id_conflict_def stringValue_def split: option.splits)
      ultimately show ?thesis using go v(1) u(1,3) by blast
    qed
  qed
qed

lemma login_body_base: "quiet e \<Longrightarrow> base_kept (login_body e p h meta now)"
  unfolding login_body_def tx_ops Let_def by (intro base_kept_rules)

text \<open>
  C6 (auth/pg_store.go: AuthenticateGitHub). A login that succeeds is one of two: the profile belongs to an account
  with an active membership, neither memberships nor invitations nor the event log change, and exactly one audit
  entry is added, a successful \<open>login.success\<close> by and about that user; or the invitation presented was
  usable, is used exactly once more and no other changes, the actor is an active member with its role, the event
  log has one entry more, of the new member, and the audit log exactly two: the \<open>login.rejected\<close> that every
  login without membership writes first, and a successful \<open>invite.accept\<close> by that user on that invitation.
\<close>

theorem login_outcome:
  assumes "quiet e" "distinct (map iv_id (ws_invites ws))" "NormalizeGitHubProfile avatar profile = Inr p"
    and "PG_AuthenticateGitHub avatar e profile h now meta ws = (Inr a, ws')"
  shows "(\<exists>u \<in> set (ws_users ws). ac_id u = actor_ID a \<and> may_login p u \<and> member_login p ws a ws') \<or>
     h \<noteq> [] \<and> invited_login p h (normalizeTimestamp (te_now e) now) ws a ws'"
proof -
  obtain s where "login_body e p h (Safe meta) (normalizeTimestamp (te_now e) now) (tx_start ws) = (Inr (Inr a), s)" "ws' = tx_view s"
    using assms(3,4) by (auto simp: PG_AuthenticateGitHub_def committed_def Autocommit_ok split: prod.splits sum.splits)
  then show ?thesis using login_body_view [OF assms(1)] assms(2) by (fastforce simp: login_ok_def)
qed

text \<open>
  C27 (auth/pg_store.go: AuthenticateGitHub, rejectAuth, rejectInvite). A login that fails, for any reason, leaves everything
  but the audit log as it was, and adds at most two entries to it: no account is bound, no
  invitation is used and no membership is made.
\<close>

theorem login_rejection_only_audits:
  assumes "quiet e" "distinct (map iv_id (ws_invites ws))" "PG_AuthenticateGitHub avatar e profile h now meta ws = (Inl err, ws')"
  shows "\<exists>rs. length rs \<le> 2 \<and> ws' = ws\<lparr>ws_audit := ws_audit ws @ rs\<rparr>"
proof (cases "NormalizeGitHubProfile avatar profile")
  case (Inl e1)
  then show ?thesis using assms(3) by (auto simp: PG_AuthenticateGitHub_def intro!: exI [of _ "[]"])
next
  case (Inr p)
  let ?body = "login_body e p h (Safe meta) (normalizeTimestamp (te_now e) now)"
  have run: "committed (Autocommit ?body ws) = (Inl err, ws')" using assms(3) Inr by (simp add: PG_AuthenticateGitHub_def)
  show ?thesis
  proof (cases "fst (Autocommit ?body ws)")
    case (Inl e1)
    then have "Autocommit ?body ws = (Inl e1, ws')" using run by (auto simp: committed_def split: prod.splits)
    then have "ws' = ws" by (rule Autocommit_error [OF login_body_base [OF assms(1)]])
    then show ?thesis by (intro exI [of _ "[]"]) simp
  next
    case (Inr y)
    then have "Autocommit ?body ws = (Inr y, ws')" "\<exists>e1. y = Inl e1" using run by (auto simp: committed_def split: prod.splits sum.splits)
    then obtain s where "?body (tx_start ws) = (Inr y, s)" "ws' = tx_view s" "\<exists>e1. y = Inl e1" by (auto simp: Autocommit_ok)
    then show ?thesis using login_body_view [OF assms(1), of p h "Safe meta" _ "tx_start ws"] assms(2) by (fastforce simp: only_audits_def)
  qed
qed

section \<open>Examples\<close>

definition demo_profile :: GitHubProfile where
  "demo_profile = \<lparr>gp_ID = ''42'', gp_Login = ''ann'', gp_Email = [], gp_Name = ''Ann'', gp_AvatarURL = []\<rparr>"

definition stranger :: GitHubProfile where
  "stranger = \<lparr>gp_ID = ''43'', gp_Login = ''bob'', gp_Email = [], gp_Name = ''Bob'', gp_AvatarURL = []\<rparr>"

definition demo_invite :: invite_row where
  "demo_invite = \<lparr>iv_id = ''i1'', iv_space_id = DefaultSpaceID, iv_code_hash = ''h'', iv_code_preview = [], iv_default_role = ''member'',
     iv_created_by = ''u1'', iv_max_uses = 1, iv_uses = 0, iv_expires_at = None, iv_revoked_at = None, iv_created_at = 0\<rparr>"

definition invite_ws :: workspace where
  "invite_ws = demo_ws\<lparr>ws_invites := [demo_invite]\<rparr>"

definition no_meta :: RequestMeta where
  "no_meta = \<lparr>me_RequestID = [], me_IPAddress = [], me_UserAgent = []\<rparr>"

definition numbered :: "nat \<Rightarrow> string" where
  "numbered n = replicate (Suc n) (CHR ''n'')"

definition keep :: "string \<Rightarrow> string" where
  "keep v = v"

theorem login_outcome_witness:
  "\<exists>a ws'. PG_AuthenticateGitHub keep (demo_env 0 numbered) stranger ''h'' 0 no_meta invite_ws = (Inr a, ws') \<and>
     invited_login stranger ''h'' (normalizeTimestamp 0 0) invite_ws a ws' \<and> ws_invites ws' = [use_invite demo_invite]"
proof -
  define r where "r = PG_AuthenticateGitHub keep (demo_env 0 numbered) stranger ''h'' 0 no_meta invite_ws"
  have "is_ok (fst r) \<and> ws_invites (snd r) = [use_invite demo_invite]" unfolding r_def by code_simp
  then have used: "ws_invites (snd r) = [use_invite demo_invite]" and "is_ok (fst r)" by auto
  then obtain a where eq: "PG_AuthenticateGitHub keep (demo_env 0 numbered) stranger ''h'' 0 no_meta invite_ws = (Inr a, snd r)"
    using run_ok unfolding r_def by blast
  have d: "distinct (map iv_id (ws_invites invite_ws))" and n: "NormalizeGitHubProfile keep stranger = Inr stranger"
    and "ws_invites invite_ws \<noteq> [use_invite demo_invite]"
    by code_simp+
  then have "\<not> member_login stranger invite_ws a (snd r)" unfolding member_login_def used by simp
  then have "invited_login stranger ''h'' (normalizeTimestamp 0 0) invite_ws a (snd r)" using login_outcome [OF _ d n eq] by simp
  then show ?thesis using eq used by blast
qed

theorem login_rejection_witness:
  "\<exists>err ws' rs. PG_AuthenticateGitHub keep (demo_env 0 numbered) stranger ''x'' 0 no_meta invite_ws = (Inl err, ws') \<and>
     ws' = invite_ws\<lparr>ws_audit := ws_audit invite_ws @ rs\<rparr>"
proof -
  have "\<not> is_ok (fst (PG_AuthenticateGitHub keep (demo_env 0 numbered) stranger ''x'' 0 no_meta invite_ws))" by code_simp
  then obtain err ws' where r: "PG_AuthenticateGitHub keep (demo_env 0 numbered) stranger ''x'' 0 no_meta invite_ws = (Inl err, ws')"
    using run_error by blast
  have "distinct (map iv_id (ws_invites invite_ws))" by code_simp
  then show ?thesis using login_rejection_only_audits [OF _ _ r] r by auto
qed

end
