(* ===== verification/Auth_Mobile.thy ===== *)
theory Auth_Mobile
  imports Auth_Login
begin

text \<open>
  The login of the mobile client: auth/mobile\_pg.go, and from auth/mobile.go the tokens, the PKCE
  check and the resolution of a bearer token. A login flow ends in a code, the code is
  exchanged for a pair of tokens, and a refresh token is exchanged for the next pair; all the tokens
  that descend from one code form a family with a fixed deadline. \<open>MobileTokens\<close> holds its
  times as text in the code, written by \<open>externalTime\<close> and read back by PostgreSQL; here they are times.
\<close>

section \<open>Values\<close>

record MobileFlow =
  mf_ID :: string
  mf_Challenge :: string
  mf_RedirectURI :: string
  mf_ClientState :: string
  mf_ExpiresAt :: time

record MobileTokens =
  mt_AccessToken :: string
  mt_RefreshToken :: string
  mt_AccessTokenExpiresAt :: time
  mt_RefreshTokenExpiresAt :: time

definition errMobileInvalid :: go_error where
  "errMobileInvalid = Foreign ''invalid mobile session''"

definition verifier_char :: "char \<Rightarrow> bool" where
  "verifier_char c \<longleftrightarrow> (let b = byte_of c in 0x41 \<le> b \<and> b \<le> 0x5A \<or> 0x61 \<le> b \<and> b \<le> 0x7A \<or> 0x30 \<le> b \<and> b \<le> 0x39 \<or>
     c = CHR ''.'' \<or> c = CHR ''_'' \<or> c = CHR ''~'' \<or> c = CHR ''-'')"

definition pkceVerifierPattern :: "string \<Rightarrow> bool" where
  "pkceVerifierPattern v \<longleftrightarrow> 43 \<le> length v \<and> length v \<le> 128 \<and> list_all verifier_char v"

definition EqualSecret :: "string \<Rightarrow> string \<Rightarrow> bool" where
  "EqualSecret left right \<longleftrightarrow> left = right"

definition verifyPKCE :: "string \<Rightarrow> string \<Rightarrow> bool" where
  "verifyPKCE verifier challenge \<longleftrightarrow> pkceVerifierPattern verifier \<and> EqualSecret (RawURLEncoding (sha256 verifier)) challenge"

definition mobile_tokens :: "tx_env \<Rightarrow> MobileTokens tx" where
  "mobile_tokens e =
    io_bind (NewSessionToken e) (\<lambda>access. io_bind (NewSessionToken e) (\<lambda>refresh.
      let now = normalizedNow e in
      io_return \<lparr>mt_AccessToken = access, mt_RefreshToken = refresh, mt_AccessTokenExpiresAt = now + 15 * Minute,
        mt_RefreshTokenExpiresAt = now + 30 * 24 * Hour\<rparr>))"

section \<open>The store\<close>

definition Truncate_minute :: "time \<Rightarrow> time" where
  "Truncate_minute t = t - t mod Minute"

definition max_integer :: int where "max_integer = 2 ^ 31 - 1"

definition count_attempt :: "string \<Rightarrow> time \<Rightarrow> workspace \<Rightarrow> (string, int \<times> workspace) result" where
  "count_attempt subject start ws =
    (let hit = (\<lambda>r. rl_subject_hash r = subject \<and> rl_window_start r = start) in
     case first_row (filter hit (ws_rates ws)) of
       None \<Rightarrow> Inr (1, ws\<lparr>ws_rates := ws_rates ws @ [\<lparr>rl_subject_hash = subject, rl_window_start = start, rl_attempts = 1\<rparr>]\<rparr>)
     | Some r \<Rightarrow>
         let n = rl_attempts r + 1 in
         if n > max_integer then Inl ''integer out of range''
         else Inr (n, ws\<lparr>ws_rates := update_where hit (\<lambda>r. r\<lparr>rl_attempts := rl_attempts r + 1\<rparr>) (ws_rates ws)\<rparr>))"

definition Allow :: "tx_env \<Rightarrow> string \<Rightarrow> time \<Rightarrow> bool tx" where
  "Allow e subject now = io_bind (tx_write e (count_attempt subject (Truncate_minute now))) (\<lambda>n. io_return (n \<le> 60))"

definition SaveFlow :: "tx_env \<Rightarrow> MobileFlow \<Rightarrow> unit tx" where
  "SaveFlow e f = tx_write e (\<lambda>ws.
    result_bind (insert_unique fl_id
        \<lparr>fl_id = mf_ID f, fl_challenge = mf_Challenge f, fl_redirect_uri = mf_RedirectURI f, fl_client_state = mf_ClientState f,
         fl_expires_at = pg_timestamp (mf_ExpiresAt f), fl_code_hash = None, fl_user_id = None, fl_consumed_at = None\<rparr> (ws_flows ws))
      (\<lambda>rows. Inr ((), ws\<lparr>ws_flows := rows\<rparr>)))"

definition scan_flow :: "flow_row \<Rightarrow> MobileFlow" where
  "scan_flow f = \<lparr>mf_ID = fl_id f, mf_Challenge = fl_challenge f, mf_RedirectURI = fl_redirect_uri f, mf_ClientState = fl_client_state f,
     mf_ExpiresAt = fl_expires_at f\<rparr>"

definition flow_open :: "string \<Rightarrow> time \<Rightarrow> flow_row \<Rightarrow> bool" where
  "flow_open i now f \<longleftrightarrow> fl_id f = i \<and> fl_expires_at f > now \<and> fl_consumed_at f = None \<and> fl_user_id f = None"

definition found_flow :: "flow_row option \<Rightarrow> MobileFlow tx" where
  "found_flow r = (case r of None \<Rightarrow> tx_fail errMobileInvalid | Some f \<Rightarrow> io_return (scan_flow f))"

definition GetFlow :: "tx_env \<Rightarrow> string \<Rightarrow> time \<Rightarrow> MobileFlow tx" where
  "GetFlow e i now = io_bind (tx_read e (\<lambda>ws. first_row (filter (flow_open i now) (ws_flows ws)))) found_flow"

definition authorize :: "string \<Rightarrow> string \<Rightarrow> time \<Rightarrow> flow_row \<Rightarrow> flow_row" where
  "authorize userID h now f = f\<lparr>fl_user_id := Some userID, fl_code_hash := Some h, fl_expires_at := pg_timestamp (now + Minute)\<rparr>"

text \<open>The column code\_hash is unique where it is set.\<close>

definition authorize_flow :: "string \<Rightarrow> string \<Rightarrow> string \<Rightarrow> time \<Rightarrow> workspace \<Rightarrow> (string, flow_row option \<times> workspace) result" where
  "authorize_flow i userID h now ws =
    (case first_row (filter (flow_open i now) (ws_flows ws)) of
       None \<Rightarrow> Inr (None, ws)
     | Some f \<Rightarrow>
         if Some h \<in> fl_code_hash ` set (ws_flows ws) then Inl duplicate_key
         else Inr (Some (authorize userID h now f), ws\<lparr>ws_flows := update_where (flow_open i now) (authorize userID h now) (ws_flows ws)\<rparr>))"

definition AuthorizeFlow :: "tx_env \<Rightarrow> string \<Rightarrow> string \<Rightarrow> string \<Rightarrow> time \<Rightarrow> MobileFlow tx" where
  "AuthorizeFlow e i userID h now = io_bind (tx_write e (authorize_flow i userID h now)) found_flow"

definition insertMobileTokens :: "tx_env \<Rightarrow> string \<Rightarrow> MobileTokens \<Rightarrow> unit tx" where
  "insertMobileTokens e family tokens =
    io_bind (tx_write e (\<lambda>ws. result_bind
      (insert_unique rf_token_hash \<lparr>rf_token_hash = HashSecret (mt_RefreshToken tokens), rf_family_id = family, rf_consumed_at = None\<rparr> (ws_refresh ws))
      (\<lambda>rows. Inr ((), ws\<lparr>ws_refresh := rows\<rparr>)))) (\<lambda>_.
    tx_write e (\<lambda>ws. result_bind
      (insert_unique ax_token_hash \<lparr>ax_token_hash = HashSecret (mt_AccessToken tokens), ax_family_id = family,
         ax_expires_at = trunc_ms (mt_AccessTokenExpiresAt tokens)\<rparr> (ws_access ws))
      (\<lambda>rows. Inr ((), ws\<lparr>ws_access := rows\<rparr>))))"

definition code_open :: "string \<Rightarrow> time \<Rightarrow> flow_row \<Rightarrow> bool" where
  "code_open h now f \<longleftrightarrow> fl_code_hash f = Some h \<and> fl_expires_at f > now \<and> fl_consumed_at f = None"

definition insert_family :: "string \<Rightarrow> time \<Rightarrow> string \<Rightarrow> workspace \<Rightarrow> (string, nat \<times> workspace) result" where
  "insert_family family expires userID ws =
    (if \<not> human_member userID ws then Inr (0, ws)
     else result_bind (insert_unique fm_id \<lparr>fm_id = family, fm_user_id = userID, fm_expires_at = trunc_ms expires, fm_revoked_at = None\<rparr> (ws_families ws))
       (\<lambda>rows. Inr (1, ws\<lparr>ws_families := rows\<rparr>)))"

text \<open>The exchange after the flow is found and checked.\<close>

definition exchange_write :: "tx_env \<Rightarrow> string \<Rightarrow> string \<Rightarrow> MobileTokens \<Rightarrow> time \<Rightarrow> unit tx" where
  "exchange_write e h userID tokens now =
    io_bind (tx_newid e) (\<lambda>family.
      io_bind (tx_write e (insert_family family (mt_RefreshTokenExpiresAt tokens) userID)) (\<lambda>rows.
      if rows \<noteq> 1 then tx_fail errMobileInvalid
      else io_bind (tx_write e (\<lambda>ws. Inr ((), ws\<lparr>ws_flows := update_where (\<lambda>f. fl_code_hash f = Some h) (\<lambda>f. f\<lparr>fl_consumed_at := Some now\<rparr>) (ws_flows ws)\<rparr>))) (\<lambda>_.
        io_bind (insertMobileTokens e family tokens) (\<lambda>_. tx_read e (\<lambda>_. ())))))"

definition Exchange :: "tx_env \<Rightarrow> string \<Rightarrow> string \<Rightarrow> string \<Rightarrow> MobileTokens \<Rightarrow> time \<Rightarrow> unit tx" where
  "Exchange e h verifier redirect tokens now =
    io_bind (tx_read e (\<lambda>_. ())) (\<lambda>_.
    io_bind (tx_select_for_update e (\<lambda>ws. first_row (filter (code_open h now) (ws_flows ws)))) (\<lambda>found.
    case found of
      None \<Rightarrow> tx_fail errMobileInvalid
    | Some f \<Rightarrow> (case fl_user_id f of
        None \<Rightarrow> tx_fail (Foreign ''cannot scan NULL into *string'')
      | Some userID \<Rightarrow>
          if fl_redirect_uri f \<noteq> redirect \<or> \<not> verifyPKCE verifier (fl_challenge f) then tx_fail errMobileInvalid
          else exchange_write e h userID tokens now)))"

text \<open>The family of a refresh token.\<close>

definition families_of :: "string \<Rightarrow> workspace \<Rightarrow> family_row list" where
  "families_of h ws = [f. f \<leftarrow> ws_families ws, t \<leftarrow> ws_refresh ws, rf_family_id t = fm_id f \<and> rf_token_hash t = h]"

definition revoke_family :: "(family_row \<Rightarrow> bool) \<Rightarrow> time \<Rightarrow> workspace \<Rightarrow> workspace" where
  "revoke_family p now ws = ws\<lparr>ws_families := update_where p (\<lambda>f. f\<lparr>fm_revoked_at := Some now\<rparr>) (ws_families ws)\<rparr>"

text \<open>The token has not been used: it is consumed, and the next pair belongs to the same family, with its deadline.\<close>

definition consume_refresh :: "string \<Rightarrow> time \<Rightarrow> workspace \<Rightarrow> workspace" where
  "consume_refresh h now ws = ws\<lparr>ws_refresh := update_where (\<lambda>t. rf_token_hash t = h) (\<lambda>t. t\<lparr>rf_consumed_at := Some now\<rparr>) (ws_refresh ws)\<rparr>"

definition rotate_fresh :: "tx_env \<Rightarrow> string \<Rightarrow> family_row \<Rightarrow> MobileTokens \<Rightarrow> time \<Rightarrow> MobileTokens option tx" where
  "rotate_fresh e h f tokens now =
    io_bind (tx_read e (human_member (fm_user_id f))) (\<lambda>active.
      if \<not> active then tx_fail errMobileInvalid
      else io_bind (tx_write e (\<lambda>ws. Inr ((), consume_refresh h now ws))) (\<lambda>_.
        let tokens1 = tokens\<lparr>mt_RefreshTokenExpiresAt := trunc_ms (fm_expires_at f)\<rparr> in
        io_bind (insertMobileTokens e (fm_id f) tokens1) (\<lambda>_.
        io_bind (tx_read e (\<lambda>_. ())) (\<lambda>_. io_return (Some tokens1)))))"

text \<open>\<open>None\<close>: the token had been used before; its family is revoked and the transaction committed.\<close>

definition rotate_token :: "tx_env \<Rightarrow> string \<Rightarrow> family_row \<Rightarrow> MobileTokens \<Rightarrow> time \<Rightarrow> MobileTokens option tx" where
  "rotate_token e h f tokens now =
    io_bind (tx_read e (\<lambda>ws. first_row (filter (\<lambda>t. rf_token_hash t = h) (ws_refresh ws)))) (\<lambda>token.
      case token of
        None \<Rightarrow> tx_fail (Foreign ''no rows in result set'')
      | Some t \<Rightarrow>
          if rf_consumed_at t \<noteq> None then
            io_bind (tx_write e (\<lambda>ws. Inr ((), revoke_family (\<lambda>g. fm_id g = fm_id f) now ws))) (\<lambda>_.
            io_bind (tx_read e (\<lambda>_. ())) (\<lambda>_. io_return None))
          else rotate_fresh e h f tokens now)"

definition rotate_body :: "tx_env \<Rightarrow> string \<Rightarrow> MobileTokens \<Rightarrow> time \<Rightarrow> MobileTokens option tx" where
  "rotate_body e h tokens now =
    io_bind (tx_read e (\<lambda>_. ())) (\<lambda>_.
    io_bind (tx_select_for_update e (\<lambda>ws. first_row (families_of h ws))) (\<lambda>found.
    case found of
      None \<Rightarrow> tx_fail errMobileInvalid
    | Some f \<Rightarrow>
        if fm_revoked_at f \<noteq> None \<or> fm_expires_at f \<le> now then tx_fail errMobileInvalid
        else rotate_token e h f tokens now))"

definition Rotate :: "tx_env \<Rightarrow> string \<Rightarrow> MobileTokens \<Rightarrow> time \<Rightarrow> workspace \<Rightarrow> (go_error, MobileTokens) result \<times> workspace" where
  "Rotate e h tokens now ws =
    (case Autocommit (rotate_body e h tokens now) ws of
       (Inl err, ws1) \<Rightarrow> (Inl err, ws1) | (Inr None, ws1) \<Rightarrow> (Inl errMobileInvalid, ws1) | (Inr (Some t), ws1) \<Rightarrow> (Inr t, ws1))"

definition Revoke :: "tx_env \<Rightarrow> string \<Rightarrow> time \<Rightarrow> unit tx" where
  "Revoke e h now = tx_write e (\<lambda>ws. Inr ((),
     case first_row (filter (\<lambda>t. rf_token_hash t = h) (ws_refresh ws)) of
       None \<Rightarrow> ws
     | Some t \<Rightarrow> revoke_family (\<lambda>f. fm_id f = rf_family_id t \<and> fm_revoked_at f = None) now ws))"

definition mobile_actors :: "string \<Rightarrow> time \<Rightarrow> workspace \<Rightarrow> AuthActor list" where
  "mobile_actors h now ws =
    [scanActor u m. t \<leftarrow> ws_access ws, ax_token_hash t = h \<and> ax_expires_at t > now,
       f \<leftarrow> ws_families ws, fm_id f = ax_family_id t \<and> fm_expires_at f > now \<and> fm_revoked_at f = None,
       (u, m) \<leftarrow> human_members ws, ac_id u = fm_user_id f]"

definition Resolve :: "tx_env \<Rightarrow> string \<Rightarrow> time \<Rightarrow> AuthActor tx" where
  "Resolve e h now =
    io_bind (tx_wrap ''mobile actor'' (tx_read e (\<lambda>ws. first_row (mobile_actors h now ws)))) (\<lambda>r.
      case r of None \<Rightarrow> tx_fail (Domain requiredError) | Some a \<Rightarrow> io_return a)"

text \<open>The columns left out of the INSERT are null; the context is stored as it is, empty or not.\<close>

definition RecordRejection :: "tx_env \<Rightarrow> string \<Rightarrow> RequestMeta \<Rightarrow> time \<Rightarrow> unit tx" where
  "RecordRejection e operation meta now =
    io_bind (tx_newid e) (\<lambda>i. let safe = Safe meta in
      tx_write e (insert_audit
        \<lparr>au_id = i, au_space_id = DefaultSpaceID, au_actor_user_id = None, au_actor_github_login = None, au_action = ''auth.mobile.rejected'',
         au_target_type = ''mobile_auth'', au_target_id = Some operation, au_result = ''rejected'', au_reason = Some ''auth.mobile_invalid'',
         au_ip_address = Some (me_IPAddress safe), au_user_agent = Some (me_UserAgent safe), au_request_id = Some (me_RequestID safe), au_created_at = now\<rparr>))"

section \<open>Bearer tokens\<close>

definition resolveMobile :: "bool \<Rightarrow> tx_env \<Rightarrow> string \<Rightarrow> AuthActor tx" where
  "resolveMobile enabled e header =
    (if \<not> enabled \<or> \<not> HasPrefix header ''Bearer '' \<or> length header > 150 then tx_fail (Domain requiredError)
     else Resolve e (HashSecret (drop 7 header)) (normalizedNow e))"

text \<open>auth/http.go: ResolveActor; the development header is looked at outside production only.\<close>

record auth_request =
  rq_Authorization :: string
  rq_WorkspaceUserID :: string
  rq_session :: "string option"

definition HTTP_ResolveActor :: "bool \<Rightarrow> bool \<Rightarrow> tx_env \<Rightarrow> auth_request \<Rightarrow> AuthActor tx" where
  "HTTP_ResolveActor production enabled e r =
    (if rq_Authorization r \<noteq> [] then resolveMobile enabled e (rq_Authorization r)
     else let userID = TrimSpace (rq_WorkspaceUserID r) in
       if \<not> production \<and> userID \<noteq> [] then ResolveActorID e userID else ResolveActorFromRequest e (rq_session r))"

section \<open>The operations go forward\<close>

lemma revoke_family_forward: "forward v (revoke_family p now v)"
  by (auto simp: revoke_family_def update_where_def row_le intro: family_rows.evolve_map)

lemma settled_update:
  assumes "settled key k P xs" "\<And>x. key (f x) = key x" "\<And>x. P x \<Longrightarrow> P (f x)"
  shows "settled key k P (update_where p f xs)"
proof -
  obtain x where "x \<in> set xs" "key x = k" using assms(1) by (auto simp: settled_def)
  then have "\<exists>y \<in> set (update_where p f xs). key y = k"
    using assms(2) unfolding update_where_def by (intro bexI [of _ "if p x then f x else x"]) auto
  then show ?thesis using assms by (auto simp: settled_def update_where_def)
qed

lemma consume_flow_forward:
  "forward v (v\<lparr>ws_flows := update_where p (\<lambda>f. f\<lparr>fl_consumed_at := Some now\<rparr>) (ws_flows v)\<rparr>)"
  unfolding forward_flows
proof (intro conjI allI impI)
  show "evolve fl_id flow_le (ws_flows v) (update_where p (\<lambda>f. f\<lparr>fl_consumed_at := Some now\<rparr>) (ws_flows v))"
    unfolding update_where_def by (rule flow_rows.evolve_map) (simp add: row_le)
qed (auto simp: code_spent_def intro: settled_update)

lemma authorize_forward: "authorize_flow i userID h now v = Inr (x, v') \<Longrightarrow> forward v v'"
proof -
  assume a: "authorize_flow i userID h now v = Inr (x, v')"
  show "forward v v'"
  proof (cases "first_row (filter (flow_open i now) (ws_flows v))")
    case None
    then show ?thesis using a by (simp add: authorize_flow_def forward.refl del: first_row_None)
  next
    case (Some f)
    then have h: "Some h \<notin> fl_code_hash ` set (ws_flows v)" and v': "v' = v\<lparr>ws_flows := update_where (flow_open i now) (authorize userID h now) (ws_flows v)\<rparr>"
      using a by (auto simp: authorize_flow_def split: if_splits)
    have "evolve fl_id flow_le (ws_flows v) (update_where (flow_open i now) (authorize userID h now) (ws_flows v))"
      unfolding update_where_def by (rule flow_rows.evolve_map) (simp add: row_le flow_open_def authorize_def)
    moreover have "code_spent k (update_where (flow_open i now) (authorize userID h now) (ws_flows v))" if "code_spent k (ws_flows v)" for k
    proof -
      have "\<not> flow_open i now f" if "f \<in> set (ws_flows v)" "fl_code_hash f = Some k" for f
        using that \<open>code_spent k (ws_flows v)\<close> by (auto simp: code_spent_def settled_def flow_open_def)
      moreover have "k \<noteq> h" using \<open>code_spent k (ws_flows v)\<close> h by (force simp: code_spent_def settled_def)
      ultimately show ?thesis using that by (auto simp: code_spent_def settled_def update_where_def authorize_def)
    qed
    ultimately show ?thesis unfolding v' forward_flows by blast
  qed
qed

lemma save_flow_forward:
  assumes "fl_code_hash f = None" "result_bind (insert_unique fl_id f (ws_flows v)) (\<lambda>rows. Inr ((), v\<lparr>ws_flows := rows\<rparr>)) = Inr (x, v')"
  shows "forward v v'"
proof -
  have new: "fl_id f \<notin> fl_id ` set (ws_flows v)" and v': "v' = v\<lparr>ws_flows := ws_flows v @ [f]\<rparr>"
    using assms(2) by (auto simp: result_bind_def split: sum.splits)
  show ?thesis unfolding v' forward_flows using flow_rows.evolve_append [OF new] assms(1) by (auto simp: code_spent_def settled_def)
qed

lemma insert_family_forward: "insert_family family expires userID v = Inr (x, v') \<Longrightarrow> forward v v'"
  by (auto simp: insert_family_def result_bind_def forward.refl intro!: family_rows.evolve_append split: if_splits sum.splits)

lemma insert_refresh_forward:
  "result_bind (insert_unique rf_token_hash r (ws_refresh v)) (\<lambda>rows. Inr ((), v\<lparr>ws_refresh := rows\<rparr>)) = Inr (x, v') \<Longrightarrow> forward v v'"
  by (auto simp: result_bind_def intro!: refresh_rows.evolve_append split: sum.splits)

lemma insert_access_forward:
  "result_bind (insert_unique ax_token_hash r (ws_access v)) (\<lambda>rows. Inr ((), v\<lparr>ws_access := rows\<rparr>)) = Inr (x, v') \<Longrightarrow> forward v v'"
  by (auto simp: result_bind_def intro!: access_rows.evolve_append split: sum.splits)

lemma consume_refresh_forward: "forward v (consume_refresh h now v)"
  by (auto simp: consume_refresh_def update_where_def row_le intro: refresh_rows.evolve_map)

lemma insertMobileTokens_moves: "legal forward e \<Longrightarrow> moves forward (insertMobileTokens e family tokens)"
  unfolding insertMobileTokens_def
  by (intro forward.moves_rules forward.moves_write) (auto elim: insert_refresh_forward insert_access_forward)

lemma count_attempt_forward: "count_attempt subject start v = Inr (x, v') \<Longrightarrow> forward v v'"
  by (auto simp: count_attempt_def Let_def split: option.splits if_splits)

lemma mobile_forward:
  assumes "legal forward e"
  shows "moves forward (Allow e subject now)" "moves forward (SaveFlow e f)" "moves forward (GetFlow e i now)"
    and "moves forward (AuthorizeFlow e i userID h now)" "moves forward (Exchange e h verifier redirect tokens now)"
    and "moves forward (rotate_body e h tokens now)" "moves forward (Revoke e h now)" "moves forward (Resolve e h now)"
    and "moves forward (RecordRejection e operation meta now)"
proof -
  note rules = forward.moves_rules insertMobileTokens_moves forward.moves_write [OF assms]
  show "moves forward (Allow e subject now)" unfolding Allow_def by (intro rules assms) (erule count_attempt_forward)
  show "moves forward (SaveFlow e f)" unfolding SaveFlow_def by (intro rules assms) (erule save_flow_forward [rotated], simp)
  show "moves forward (GetFlow e i now)" unfolding GetFlow_def found_flow_def by (intro rules assms)
  show "moves forward (AuthorizeFlow e i userID h now)"
    unfolding AuthorizeFlow_def found_flow_def by (intro rules assms) (erule authorize_forward)
  show "moves forward (Exchange e h verifier redirect tokens now)"
    unfolding Exchange_def exchange_write_def by (intro rules assms) (auto elim: insert_family_forward simp: consume_flow_forward)
  show "moves forward (rotate_body e h tokens now)"
    unfolding rotate_body_def rotate_token_def rotate_fresh_def
    by (intro rules assms) (auto simp: revoke_family_forward consume_refresh_forward)
  show "moves forward (Revoke e h now)"
    unfolding Revoke_def by (intro rules assms) (auto simp: revoke_family_forward forward.refl split: option.splits)
  show "moves forward (Resolve e h now)" unfolding Resolve_def by (intro rules assms)
  show "moves forward (RecordRejection e operation meta now)"
    unfolding RecordRejection_def by (intro rules assms) (erule forward_insert_audit)
qed

section \<open>Rows that are used up\<close>

lemma settled_consumed:
  assumes "filter (\<lambda>x. key x = k) xs \<noteq> []" "\<And>x. key (f x) = key x" "\<And>x. P (f x)"
  shows "settled key k P (update_where (\<lambda>x. key x = k) f xs)"
proof -
  obtain x where x: "x \<in> set xs" "key x = k" using assms(1) by (auto simp: filter_empty_conv)
  then have "f x \<in> set (update_where (\<lambda>x. key x = k) f xs)" by (force simp: update_where_def)
  then have "\<exists>y \<in> set (update_where (\<lambda>x. key x = k) f xs). key y = k" using x(2) assms(2) by auto
  then show ?thesis using assms(2,3) by (auto simp: settled_def update_where_def)
qed

section \<open>A code is exchanged once\<close>

definition exchange_ok :: "string \<Rightarrow> string \<Rightarrow> string \<Rightarrow> time \<Rightarrow> flow_row \<Rightarrow> bool" where
  "exchange_ok h verifier redirect now f \<longleftrightarrow>
     fl_code_hash f = Some h \<and> now < fl_expires_at f \<and> fl_consumed_at f = None \<and> fl_user_id f \<noteq> None \<and> fl_redirect_uri f = redirect \<and>
     verifyPKCE verifier (fl_challenge f)"

lemma insert_family_flows: "insert_family family expires userID v = Inr (x, v') \<Longrightarrow> ws_flows v' = ws_flows v"
  by (auto simp: insert_family_def result_bind_def split: if_splits sum.splits)

lemma exchange_write_consumes:
  assumes "legal forward e" "locks ws_flows (\<lambda>f. fl_code_hash f = Some h) e" "tx_locked s"
    and "exchange_write e h userID tokens now s = (Inr (), s1)" "filter (\<lambda>f. fl_code_hash f = Some h) (ws_flows (tx_view s)) \<noteq> []"
  shows "code_spent h (ws_flows (tx_view s1))"
proof -
  obtain family s2 rows s3 x s4 s5 where run: "tx_newid e s = (Inr family, s2)"
      "tx_write e (insert_family family (mt_RefreshTokenExpiresAt tokens) userID) s2 = (Inr rows, s3)"
      "tx_write e (\<lambda>ws. Inr ((), ws\<lparr>ws_flows := update_where (\<lambda>f. fl_code_hash f = Some h) (\<lambda>f. f\<lparr>fl_consumed_at := Some now\<rparr>) (ws_flows ws)\<rparr>)) s3 = (Inr x, s4)"
      "insertMobileTokens e family tokens s4 = (Inr (), s5)" "tx_read e (\<lambda>_. ()) s5 = (Inr (), s1)"
    using assms(4) by (auto simp: exchange_write_def tx_ok split: if_splits)
  let ?p = "\<lambda>f. fl_code_hash f = Some h"
  have 2: "tx_view s2 = tx_view s" "tx_locked s2" using tx_newid_seen [OF run(1)] assms(3) by auto
  have "insert_family family (mt_RefreshTokenExpiresAt tokens) userID (tx_view (others e s2)) = Inr (rows, tx_view s3)" and l3: "tx_locked s3"
    using tx_write_seen [OF run(2)] 2 by auto
  then have "ws_flows (tx_view s3) = ws_flows (tx_view (others e s2))" using insert_family_flows by blast
  then have "filter ?p (ws_flows (tx_view (others e s3))) \<noteq> []"
    using assms(5) locked_rows [OF assms(2) 2(2)] locked_rows [OF assms(2) l3] 2(1) by simp
  then have "code_spent h (update_where ?p (\<lambda>f. f\<lparr>fl_consumed_at := Some now\<rparr>) (ws_flows (tx_view (others e s3))))"
    unfolding code_spent_def by (rule settled_consumed) simp_all
  moreover have "tx_view s4 = (tx_view (others e s3))\<lparr>ws_flows := update_where ?p (\<lambda>f. f\<lparr>fl_consumed_at := Some now\<rparr>) (ws_flows (tx_view (others e s3)))\<rparr>"
    using tx_write_seen [OF run(3)] by simp
  ultimately have spent: "code_spent h (ws_flows (tx_view s4))" by simp
  have "forward (tx_view s4) (tx_view s5)" "forward (tx_view s5) (tx_view s1)"
    using movesD [OF insertMobileTokens_moves [OF assms(1)], of s4] movesD [OF forward.moves_read [OF assms(1)], of s5] run(4,5) by (metis snd_conv)+
  then show ?thesis using spent forward_settled(9) by blast
qed

lemma Exchange_run:
  assumes "Autocommit (Exchange e h verifier redirect tokens now) ws = (Inr (), ws')"
  obtains f userID s2 s5 where "tx_view s2 = te_other e 1 (te_other e 0 ws)" "tx_locked s2" "f \<in> set (ws_flows (tx_view s2))"
    "exchange_ok h verifier redirect now f" "exchange_write e h userID tokens now s2 = (Inr (), s5)" "ws' = tx_view s5"
proof -
  obtain s1 found s2 s5 where run: "tx_read e (\<lambda>_. ()) (tx_start ws) = (Inr (), s1)"
      "tx_select_for_update e (\<lambda>ws. first_row (filter (code_open h now) (ws_flows ws))) s1 = (Inr found, s2)"
      "(case found of None \<Rightarrow> tx_fail errMobileInvalid | Some f \<Rightarrow> (case fl_user_id f of
          None \<Rightarrow> tx_fail (Foreign ''cannot scan NULL into *string'')
        | Some userID \<Rightarrow> if fl_redirect_uri f \<noteq> redirect \<or> \<not> verifyPKCE verifier (fl_challenge f) then tx_fail errMobileInvalid
            else exchange_write e h userID tokens now)) s2 = (Inr (), s5)"
      "ws' = tx_view s5"
    using assms by (auto simp: Autocommit_ok Exchange_def tx_ok)
  have s1: "tx_view s1 = te_other e 0 ws" "tx_n s1 = 1" "\<not> tx_locked s1"
    using run(1) by (auto simp: tx_read_def tx_write_def others_def Let_def split: option.splits)
  then have s2: "tx_view s2 = te_other e 1 (te_other e 0 ws)" "tx_locked s2" and found: "found = first_row (filter (code_open h now) (ws_flows (tx_view s2)))"
    using tx_select_seen [OF run(2)] by (auto simp: others_def Let_def)
  obtain f userID where f: "found = Some f" "fl_user_id f = Some userID" "fl_redirect_uri f = redirect" "verifyPKCE verifier (fl_challenge f)"
      "exchange_write e h userID tokens now s2 = (Inr (), s5)"
    using run(3) by (auto simp: tx_ok split: option.splits if_splits)
  then have "f \<in> set (ws_flows (tx_view s2))" "code_open h now f" using found first_row_filter by metis+
  then show ?thesis using that s2 f run(4) by (auto simp: exchange_ok_def code_open_def)
qed

text \<open>
  C28 (auth/mobile\_pg.go: Exchange). A code is exchanged only for a flow that was authorised with it, is neither expired nor
  consumed, was started with the same redirect address and with the challenge of the verifier presented; and
  then the code is spent, also when other transactions run in between, as long as they respect the lock on its row.
\<close>

theorem exchange_needs_verifier:
  assumes "legal forward e" "locks ws_flows (\<lambda>f. fl_code_hash f = Some h) e"
    and "Autocommit (Exchange e h verifier redirect tokens now) ws = (Inr (), ws')"
  shows "(\<exists>f \<in> set (ws_flows (te_other e 1 (te_other e 0 ws))). exchange_ok h verifier redirect now f) \<and> code_spent h (ws_flows ws')"
proof -
  obtain f userID s2 s5 where s2: "tx_view s2 = te_other e 1 (te_other e 0 ws)" "tx_locked s2"
    and f: "f \<in> set (ws_flows (tx_view s2))" "exchange_ok h verifier redirect now f" "exchange_write e h userID tokens now s2 = (Inr (), s5)" "ws' = tx_view s5"
    using Exchange_run [OF assms(3)] .
  then have "filter (\<lambda>f. fl_code_hash f = Some h) (ws_flows (tx_view s2)) \<noteq> []" by (auto simp: filter_empty_conv exchange_ok_def)
  then have "code_spent h (ws_flows ws')" using exchange_write_consumes [OF assms(1,2) s2(2) f(3)] f(4) by simp
  then show ?thesis using f(1,2) s2(1) by auto
qed

lemma forward_others: "legal forward e \<Longrightarrow> forward ws (te_other e n ws)" "legal forward e \<Longrightarrow> forward ws (te_locked e n ws)"
  by (simp_all add: legal_def)

lemma spent_code_refused:
  assumes "legal forward e" "code_spent h (ws_flows ws)"
  shows "\<not> is_ok (fst (Autocommit (Exchange e h verifier redirect tokens now) ws))"
proof
  assume "is_ok (fst (Autocommit (Exchange e h verifier redirect tokens now) ws))"
  then obtain ws' where "Autocommit (Exchange e h verifier redirect tokens now) ws = (Inr (), ws')" using run_ok by fastforce
  then obtain f s2 where "f \<in> set (ws_flows (te_other e 1 (te_other e 0 ws)))" "exchange_ok h verifier redirect now f"
    using Exchange_run by (metis (no_types, lifting))
  moreover have "code_spent h (ws_flows (te_other e 1 (te_other e 0 ws)))"
    using assms forward_settled(9) forward_others(1) by blast
  ultimately show False by (auto simp: code_spent_def settled_def exchange_ok_def)
qed

section \<open>Refresh tokens\<close>

lemma families_of_iff:
  "f \<in> set (families_of h ws) \<longleftrightarrow> f \<in> set (ws_families ws) \<and> (\<exists>t \<in> set (ws_refresh ws). rf_family_id t = fm_id f \<and> rf_token_hash t = h)"
  by (auto simp: families_of_def)

lemma Rotate_run:
  assumes "Autocommit (rotate_body e h tokens now) ws = (Inr t, ws')"
  obtains f s2 s where "f \<in> set (families_of h (tx_view s2))" "fm_revoked_at f = None" "now < fm_expires_at f"
    "tx_view s2 = te_other e 1 (te_other e 0 ws)" "tx_locked s2" "rotate_token e h f tokens now s2 = (Inr t, s)" "ws' = tx_view s"
    "first_row (families_of h (tx_view s2)) = Some f"
proof -
  obtain s where "rotate_body e h tokens now (tx_start ws) = (Inr t, s)" and ws': "ws' = tx_view s"
    using assms by (auto simp: Autocommit_ok)
  then obtain u s1 found s2 where run: "tx_read e (\<lambda>_. ()) (tx_start ws) = (Inr u, s1)"
      "tx_select_for_update e (\<lambda>ws. first_row (families_of h ws)) s1 = (Inr found, s2)"
      "(case found of None \<Rightarrow> tx_fail errMobileInvalid | Some f \<Rightarrow> if fm_revoked_at f \<noteq> None \<or> fm_expires_at f \<le> now then tx_fail errMobileInvalid
        else rotate_token e h f tokens now) s2 = (Inr t, s)"
    unfolding rotate_body_def tx_ok by blast
  then obtain f where f: "found = Some f" "fm_revoked_at f = None" "now < fm_expires_at f" "rotate_token e h f tokens now s2 = (Inr t, s)"
    by (auto simp: tx_ok not_le split: option.splits if_splits)
  have s1: "tx_view s1 = te_other e 0 ws" "tx_n s1 = 1" "\<not> tx_locked s1"
    using run(1) by (auto simp: tx_read_def tx_write_def others_def Let_def split: option.splits)
  then have s2: "tx_view s2 = te_other e 1 (te_other e 0 ws)" "tx_locked s2" and found: "found = first_row (families_of h (tx_view s2))"
    using tx_select_seen [OF run(2)] by (auto simp: others_def Let_def)
  then show ?thesis using that [of f s2 s] f ws' first_row_in [of "families_of h (tx_view s2)" f] by simp
qed

lemma rotate_token_fresh:
  assumes "legal forward e" "rotate_token e h f tokens now s = (Inr (Some t), s1)"
  shows "\<not> refresh_spent h (tx_view s)" and "t = tokens\<lparr>mt_RefreshTokenExpiresAt := trunc_ms (fm_expires_at f)\<rparr>"
proof -
  obtain token s2 where t: "tx_read e (\<lambda>ws. first_row (filter (\<lambda>t. rf_token_hash t = h) (ws_refresh ws))) s = (Inr (Some token), s2)"
      "rf_consumed_at token = None" "rotate_fresh e h f tokens now s2 = (Inr (Some t), s1)"
    using assms(2) by (auto simp: rotate_token_def tx_ok split: option.splits if_splits)
  have "first_row (filter (\<lambda>t. rf_token_hash t = h) (ws_refresh (tx_view s2))) = Some token" using tx_read_seen [OF t(1)] by simp
  then have "token \<in> set (ws_refresh (tx_view s2)) \<and> rf_token_hash token = h" by (rule first_row_filter)
  then have "\<not> refresh_spent h (tx_view s2)" using t(2) by (auto simp: refresh_spent_def settled_def)
  moreover have "forward (tx_view s) (tx_view s2)"
    using forward.moves_others [OF assms(1), of s] tx_read_seen [OF t(1)] by simp
  ultimately show "\<not> refresh_spent h (tx_view s)" using forward_settled(4) by blast
  show "t = tokens\<lparr>mt_RefreshTokenExpiresAt := trunc_ms (fm_expires_at f)\<rparr>"
    using t(3) by (auto simp: rotate_fresh_def tx_ok Let_def split: if_splits)
qed

lemma rotate_token_spends:
  assumes "legal forward e" "locks ws_refresh (\<lambda>t. rf_token_hash t = h) e" "tx_locked s" "rotate_token e h f tokens now s = (Inr (Some t), s1)"
  shows "refresh_spent h (tx_view s1)"
proof -
  let ?p = "\<lambda>t. rf_token_hash t = h"
  obtain token s2 where t: "tx_read e (\<lambda>ws. first_row (filter ?p (ws_refresh ws))) s = (Inr (Some token), s2)"
      "rotate_fresh e h f tokens now s2 = (Inr (Some t), s1)"
    using assms(4) by (auto simp: rotate_token_def tx_ok split: option.splits if_splits)
  have s2: "filter ?p (ws_refresh (tx_view s2)) \<noteq> []" "tx_locked s2"
    using tx_read_seen [OF t(1)] assms(3) first_row_filter [of ?p "ws_refresh (tx_view s2)" token] by (auto simp: filter_empty_conv)
  obtain active s3 u s4 s5 where run: "tx_read e (human_member (fm_user_id f)) s2 = (Inr active, s3)"
      "tx_write e (\<lambda>ws. Inr ((), consume_refresh h now ws)) s3 = (Inr u, s4)" "insertMobileTokens e (fm_id f) t s4 = (Inr (), s5)"
      "tx_read e (\<lambda>_. ()) s5 = (Inr (), s1)"
    using t(2) by (auto simp: rotate_fresh_def tx_ok Let_def split: if_splits)
  have s3: "tx_view s3 = tx_view (others e s2)" "tx_locked s3" using tx_read_seen [OF run(1)] s2(2) by auto
  then have "filter ?p (ws_refresh (tx_view (others e s3))) \<noteq> []"
    using locked_rows [OF assms(2) s2(2)] locked_rows [OF assms(2) s3(2)] s2(1) by simp
  then have "refresh_spent h (consume_refresh h now (tx_view (others e s3)))"
    unfolding refresh_spent_def consume_refresh_def by (simp add: settled_consumed)
  moreover have "tx_view s4 = consume_refresh h now (tx_view (others e s3))" using tx_write_seen [OF run(2)] by simp
  ultimately have "refresh_spent h (tx_view s4)" by simp
  moreover have "forward (tx_view s4) (tx_view s5)" using movesD [OF insertMobileTokens_moves [OF assms(1)], of s4] run(3) by (metis snd_conv)
  moreover have "forward (tx_view s5) (tx_view s1)"
    using forward.moves_others [OF assms(1), of s5] tx_read_seen [OF run(4)] by simp
  ultimately show ?thesis using forward_settled(4) by blast
qed

text \<open>
  A refresh token that is rotated belongs to a family that is neither revoked nor past its
  deadline, and the new pair keeps that deadline; afterwards the token is spent, also when other
  transactions run in between, as long as they respect the lock of the family.
\<close>

theorem rotate_spends_token:
  assumes "legal forward e" "locks ws_refresh (\<lambda>t. rf_token_hash t = h) e" "Rotate e h tokens now ws = (Inr t, ws')"
  shows "refresh_spent h ws' \<and> (\<exists>f \<in> set (families_of h (te_other e 1 (te_other e 0 ws))).
     fm_revoked_at f = None \<and> now < fm_expires_at f \<and> mt_RefreshTokenExpiresAt t = trunc_ms (fm_expires_at f))"
proof -
  have "Autocommit (rotate_body e h tokens now) ws = (Inr (Some t), ws')"
    using assms(3) by (auto simp: Rotate_def split: prod.splits sum.splits option.splits)
  then obtain f s2 s where r: "f \<in> set (families_of h (tx_view s2))" "fm_revoked_at f = None" "now < fm_expires_at f"
    "tx_view s2 = te_other e 1 (te_other e 0 ws)" "tx_locked s2" "rotate_token e h f tokens now s2 = (Inr (Some t), s)" "ws' = tx_view s"
    using Rotate_run by blast
  then show ?thesis using rotate_token_spends [OF assms(1,2) r(5,6)] rotate_token_fresh(2) [OF assms(1) r(6)] by auto
qed

lemma spent_refresh_refused:
  assumes "legal forward e" "refresh_spent h ws"
  shows "\<not> is_ok (fst (Rotate e h tokens now ws))"
proof
  assume "is_ok (fst (Rotate e h tokens now ws))"
  then obtain t ws' where "Rotate e h tokens now ws = (Inr t, ws')" using run_ok by blast
  then have "Autocommit (rotate_body e h tokens now) ws = (Inr (Some t), ws')"
    by (auto simp: Rotate_def split: prod.splits sum.splits option.splits)
  then obtain f s2 s where "tx_view s2 = te_other e 1 (te_other e 0 ws)" "rotate_token e h f tokens now s2 = (Inr (Some t), s)"
    using Rotate_run by blast
  then have "\<not> refresh_spent h (te_other e 1 (te_other e 0 ws))" using rotate_token_fresh(1) [OF assms(1)] by metis
  then show False using assms forward_settled(4) forward_others(1) by blast
qed

section \<open>Reuse\<close>

definition faultless :: "tx_env \<Rightarrow> bool" where
  "faultless e \<longleftrightarrow> quiet e \<and> (\<forall>n. te_fault e n = None)"

lemma faultless_read: "faultless e \<Longrightarrow> tx_read e f s = (Inr (f (tx_view s)), s\<lparr>tx_n := Suc (tx_n s)\<rparr>)"
  by (simp add: faultless_def tx_read_def tx_write_def others_def Let_def)

lemma faultless_write: "faultless e \<Longrightarrow> tx_write e (\<lambda>ws. Inr ((), g ws)) s = (Inr (), s\<lparr>tx_n := Suc (tx_n s), tx_view := g (tx_view s)\<rparr>)"
  by (simp add: faultless_def tx_write_def others_def Let_def)

lemma revoke_family_revokes:
  assumes "f \<in> set (ws_families ws)"
  shows "family_revoked (fm_id f) (revoke_family (\<lambda>g. fm_id g = fm_id f) now ws)"
proof -
  have "filter (\<lambda>g. fm_id g = fm_id f) (ws_families ws) \<noteq> []" using assms by (auto simp: filter_empty_conv)
  then show ?thesis unfolding family_revoked_def revoke_family_def by (simp add: settled_consumed)
qed

text \<open>
  C29 (auth/mobile\_pg.go: Rotate). A refresh token presented a second time is refused, and its whole family is revoked,
  unless the family is revoked or past its deadline already.
\<close>

theorem refresh_reuse_revokes:
  assumes "faultless e" "refresh_spent h ws" "first_row (families_of h ws) = Some f" "fm_revoked_at f = None" "now < fm_expires_at f"
  shows "fst (Rotate e h tokens now ws) = Inl errMobileInvalid \<and> family_revoked (fm_id f) (snd (Rotate e h tokens now ws))"
proof -
  obtain t where t: "first_row (filter (\<lambda>t. rf_token_hash t = h) (ws_refresh ws)) = Some t"
    using assms(2) by (cases "filter (\<lambda>t. rf_token_hash t = h) (ws_refresh ws)") (auto simp: refresh_spent_def settled_def filter_empty_conv)
  then have used: "rf_consumed_at t \<noteq> None" using first_row_filter assms(2) by (fastforce simp: refresh_spent_def settled_def)
  have "Rotate e h tokens now ws = (Inl errMobileInvalid, revoke_family (\<lambda>g. fm_id g = fm_id f) now ws)"
    using assms(3-5) t used
    by (simp add: Rotate_def rotate_body_def rotate_token_def tx_select_for_update_def Autocommit_def io_bind_def io_return_def
        faultless_read [OF assms(1)] faultless_write [OF assms(1)])
  moreover have "f \<in> set (ws_families ws)" using first_row_in [OF assms(3)] families_of_iff by blast
  ultimately show ?thesis using revoke_family_revokes by simp
qed

section \<open>Access tokens\<close>

lemma Resolve_run:
  assumes "fst (Autocommit (Resolve e h now) ws) = Inr a"
  shows "a \<in> set (mobile_actors h now (te_other e 0 ws))"
proof -
  obtain s where "Resolve e h now (tx_start ws) = (Inr a, s)" using assms by (auto simp: Autocommit_def split: prod.splits sum.splits)
  then obtain s1 where "tx_read e (\<lambda>ws. first_row (mobile_actors h now ws)) (tx_start ws) = (Inr (Some a), s1)"
    by (auto simp: Resolve_def tx_ok split: option.splits)
  from tx_read_seen [OF this] have "first_row (mobile_actors h now (te_other e 0 ws)) = Some a" by (simp add: others_def Let_def)
  then show ?thesis by (rule first_row_in)
qed

lemma mobile_actors_iff:
  "a \<in> set (mobile_actors h now ws) \<longleftrightarrow> (\<exists>t \<in> set (ws_access ws). \<exists>f \<in> set (ws_families ws). \<exists>u m.
     ax_token_hash t = h \<and> now < ax_expires_at t \<and> fm_id f = ax_family_id t \<and> now < fm_expires_at f \<and> fm_revoked_at f = None \<and>
     (u, m) \<in> set (human_members ws) \<and> ac_id u = fm_user_id f \<and> a = scanActor u m)"
  by (fastforce simp: mobile_actors_def)

lemma closed_family_refused:
  assumes "legal forward e" "access_family h i ws" "family_revoked i ws \<or> (\<exists>t. family_deadline i t ws \<and> t \<le> now)"
  shows "\<not> is_ok (fst (Autocommit (Resolve e h now) ws))"
proof
  let ?v = "te_other e 0 ws"
  assume "is_ok (fst (Autocommit (Resolve e h now) ws))"
  then obtain a where "fst (Autocommit (Resolve e h now) ws) = Inr a" by (cases "fst (Autocommit (Resolve e h now) ws)") auto
  from Resolve_run [OF this] obtain t f where tf: "t \<in> set (ws_access ?v)" "f \<in> set (ws_families ?v)" "ax_token_hash t = h" "fm_id f = ax_family_id t"
      "now < fm_expires_at f" "fm_revoked_at f = None"
    unfolding mobile_actors_iff by blast
  have fw: "forward ws ?v" by (rule forward_others(1) [OF assms(1)])
  have "access_family h i ?v" by (rule forward_settled(6) [OF fw assms(2)])
  then have "ax_family_id t = i" using tf(1,3) unfolding access_family_def settled_def by blast
  then have id: "fm_id f = i" using tf(4) by simp
  from assms(3) show False
  proof
    assume "family_revoked i ws"
    then have "family_revoked i ?v" by (rule forward_settled(2) [OF fw])
    then show False using id tf(2,6) unfolding family_revoked_def settled_def by blast
  next
    assume "\<exists>t. family_deadline i t ws \<and> t \<le> now"
    then obtain d where d: "family_deadline i d ws" "d \<le> now" by blast
    have "family_deadline i d ?v" by (rule forward_settled(3) [OF fw d(1)])
    then have "fm_expires_at f = d" using id tf(2) unfolding family_deadline_def settled_def by blast
    then show False using tf(5) d(2) by simp
  qed
qed

section \<open>Examples\<close>

lemma demo_env_legal [simp]: "legal forward (demo_env now ids)" "locks table p (demo_env now ids)" "faultless (demo_env now ids)"
  by (simp_all add: legal_def locks_def faultless_def forward.refl)

definition demo_verifier :: string where
  "demo_verifier = replicate 43 (CHR ''v'')"

definition demo_flow :: flow_row where
  "demo_flow = \<lparr>fl_id = ''f'', fl_challenge = RawURLEncoding (sha256 demo_verifier), fl_redirect_uri = ''app:'', fl_client_state = ''s'', fl_expires_at = 10,
     fl_code_hash = Some ''c'', fl_user_id = Some ''u1'', fl_consumed_at = None\<rparr>"

definition flow_ws :: workspace where
  "flow_ws = demo_ws\<lparr>ws_flows := [demo_flow]\<rparr>"

definition demo_tokens :: MobileTokens where
  "demo_tokens = \<lparr>mt_AccessToken = ''a'', mt_RefreshToken = ''r'', mt_AccessTokenExpiresAt = 20, mt_RefreshTokenExpiresAt = 30\<rparr>"

definition demo_family :: family_row where
  "demo_family = \<lparr>fm_id = ''F'', fm_user_id = ''u1'', fm_expires_at = 30, fm_revoked_at = None\<rparr>"

definition family_ws :: "time option \<Rightarrow> workspace" where
  "family_ws used = demo_ws\<lparr>ws_families := [demo_family], ws_refresh := [\<lparr>rf_token_hash = ''h'', rf_family_id = ''F'', rf_consumed_at = used\<rparr>]\<rparr>"

lemma demo_verifier_ok: "verifyPKCE demo_verifier (RawURLEncoding (sha256 demo_verifier))"
proof -
  have "pkceVerifierPattern demo_verifier" by code_simp
  then show ?thesis by (simp add: verifyPKCE_def EqualSecret_def)
qed

lemma demo_humans: "human_member ''u1'' (flow_ws)" "human_member ''u1'' (family_ws used)"
proof -
  have "human_members flow_ws = human_members demo_ws" "human_members (family_ws used) = human_members demo_ws"
    by (simp_all add: flow_ws_def family_ws_def human_members_def space_users_def)
  then show "human_member ''u1'' (flow_ws)" "human_member ''u1'' (family_ws used)"
    using demo_members by (simp_all add: human_member_def demo_user_def)
qed

theorem exchange_witness:
  "\<exists>ws'. Autocommit (Exchange (demo_env 0 numbered) ''c'' demo_verifier ''app:'' demo_tokens 0) flow_ws = (Inr (), ws') \<and> code_spent ''c'' (ws_flows ws')"
proof -
  have "is_ok (fst (Autocommit (Exchange (demo_env 0 numbered) ''c'' demo_verifier ''app:'' demo_tokens 0) flow_ws))"
    using demo_verifier_ok demo_humans(1)
    by (simp add: Exchange_def exchange_write_def insertMobileTokens_def tx_select_for_update_def tx_eval insert_family_def
        insert_unique_def code_open_def demo_flow_def flow_ws_def)
      (simp add: demo_ws_def empty_ws_def tx_eval)
  then obtain ws' where run: "Autocommit (Exchange (demo_env 0 numbered) ''c'' demo_verifier ''app:'' demo_tokens 0) flow_ws = (Inr (), ws')"
    using run_ok by fastforce
  then show ?thesis using exchange_needs_verifier [OF _ _ run] by simp
qed

theorem rotate_witness:
  "\<exists>t ws'. Rotate (demo_env 0 numbered) ''h'' demo_tokens 0 (family_ws None) = (Inr t, ws') \<and> refresh_spent ''h'' ws'"
proof -
  have "HashSecret x \<noteq> ''h''" for x using HashSecret_length [of x] by auto
  then have "is_ok (fst (Rotate (demo_env 0 numbered) ''h'' demo_tokens 0 (family_ws None)))"
    using demo_humans(2) [of None]
    by (simp add: Rotate_def rotate_body_def rotate_token_def rotate_fresh_def insertMobileTokens_def tx_select_for_update_def tx_eval
        insert_unique_def families_of_def consume_refresh_def demo_family_def family_ws_def)
      (simp add: demo_ws_def empty_ws_def tx_eval update_where_def)
  then obtain t ws' where run: "Rotate (demo_env 0 numbered) ''h'' demo_tokens 0 (family_ws None) = (Inr t, ws')" using run_ok by blast
  then show ?thesis using rotate_spends_token [OF _ _ run] by auto
qed

theorem refresh_reuse_witness:
  "fst (Rotate (demo_env 0 numbered) ''h'' demo_tokens 0 (family_ws (Some 0))) = Inl errMobileInvalid \<and>
   family_revoked ''F'' (snd (Rotate (demo_env 0 numbered) ''h'' demo_tokens 0 (family_ws (Some 0))))"
proof -
  have "refresh_spent ''h'' (family_ws (Some 0))" "first_row (families_of ''h'' (family_ws (Some 0))) = Some demo_family"
    by (simp_all add: refresh_spent_def settled_def families_of_def family_ws_def demo_family_def)
  then show ?thesis using refresh_reuse_revokes [of "demo_env 0 numbered" "''h''" "family_ws (Some 0)" demo_family 0 demo_tokens] by (simp add: demo_family_def)
qed

end
