(* ===== verification/Invites.thy ===== *)
theory Invites
  imports Auth_Mobile
begin

text \<open>
  Invitations: invites/service.go and invites/pg\_repository.go. The service is configured with the default
  space. A refusal commits its audit entry, so the callback of \<open>mutate\<close> returns a rejection or
  a value. The parsing of an explicit expiry by \<open>time.Parse\<close> is the parameter \<open>parse\<close>.
\<close>

section \<open>Values\<close>

record CreateInput =
  ci_ActorID :: string
  ci_DefaultRole :: string
  ci_Code :: string
  ci_MaxUses :: int
  ci_ExpiresAt :: string
  ci_ExpiresInHours :: int
  ci_Meta :: RequestMeta

record RevokeInput =
  ri_ActorID :: string
  ri_InviteID :: string
  ri_Meta :: RequestMeta

record Invite =
  in_ID :: string
  in_Code :: string
  in_CodePreview :: string
  in_DefaultRole :: string
  in_MaxUses :: int
  in_Uses :: int
  in_ExpiresAt :: "string option"
  in_CreatedAt :: string

record RevokedInvite =
  rv_ID :: string
  rv_RevokedAt :: string

record rejection =
  rj_err :: Error
  rj_Action :: string
  rj_TargetID :: string
  rj_Reason :: string

definition rejected :: "Error \<Rightarrow> string \<Rightarrow> string \<Rightarrow> string \<Rightarrow> rejection" where
  "rejected err action targetID reason = \<lparr>rj_err = err, rj_Action = action, rj_TargetID = targetID, rj_Reason = reason\<rparr>"

definition validRole :: "string \<Rightarrow> bool" where
  "validRole role \<longleftrightarrow> role = ''owner'' \<or> role = ''admin'' \<or> role = ''member'' \<or> role = ''auditor''"

definition canManageRole :: "string \<Rightarrow> string \<Rightarrow> bool" where
  "canManageRole actorRole inviteRole \<longleftrightarrow> actorRole = ''owner'' \<or> actorRole = ''admin'' \<and> inviteRole = ''member''"

definition expiryInvalid :: Error where
  "expiryInvalid = NewError ''invite.invalid'' (utf8 [0x9080, 0x8BF7, 0x6709, 0x6548, 0x671F, 0x65E0, 0x6548]) 400"

definition resolveExpiry :: "(string \<Rightarrow> time option) \<Rightarrow> string \<Rightarrow> int \<Rightarrow> time \<Rightarrow> (Error, time option) result" where
  "resolveExpiry parse explicit hours now =
    (let v = TrimSpace explicit in
     if v \<noteq> [] then (case parse v of None \<Rightarrow> Inl expiryInvalid | Some t \<Rightarrow> Inr (Some (trunc_ms t)))
     else if hours \<le> 0 then Inr None
     else if hours > 365 * 24 then Inl expiryInvalid
     else Inr (Some (now + hours * Hour)))"

definition previewCode :: "string \<Rightarrow> string" where
  "previewCode code = (if length code \<le> 8 then code else take 4 code @ ''...'' @ drop (length code - 4) code)"

definition invites_formatTime :: "time \<Rightarrow> string" where
  "invites_formatTime t = format_millis (trunc_ms t)"

definition projectInvite :: "invite_row \<Rightarrow> string \<Rightarrow> Invite" where
  "projectInvite r code = \<lparr>in_ID = iv_id r, in_Code = code, in_CodePreview = iv_code_preview r, in_DefaultRole = iv_default_role r,
     in_MaxUses = iv_max_uses r, in_Uses = iv_uses r, in_ExpiresAt = map_option invites_formatTime (iv_expires_at r),
     in_CreatedAt = invites_formatTime (iv_created_at r)\<rparr>"

text \<open>The letters of the base64 text are ASCII.\<close>

definition ascii_upper :: "char \<Rightarrow> char" where
  "ascii_upper c = (let b = byte_of c in if 0x61 \<le> b \<and> b \<le> 0x7A then char_of (b - 0x20) else c)"

definition generateCode :: "tx_env \<Rightarrow> string tx" where
  "generateCode e = io_bind (tx_newid e) (\<lambda>bytes. io_return (''DL-'' @ map ascii_upper (RawURLEncoding bytes)))"

section \<open>The repository\<close>

definition invites_newID :: "tx_env \<Rightarrow> string tx" where
  "invites_newID e = io_bind (tx_newid e) (\<lambda>i0. let i = TrimSpace i0 in
     if i = [] then tx_fail (Foreign ''id factory returned an empty id'') else io_return i)"

definition invites_LookupActor :: "tx_env \<Rightarrow> string \<Rightarrow> AuthActor option tx" where
  "invites_LookupActor e userID = tx_read e (\<lambda>ws. first_row [scanActor u m. (u, m) \<leftarrow> space_users ws, ac_id u = userID])"

definition FindInviteForUpdate :: "tx_env \<Rightarrow> string \<Rightarrow> invite_row option tx" where
  "FindInviteForUpdate e i = tx_select_for_update e (findInviteByID (TrimSpace i))"

definition insert_invite :: "invite_row \<Rightarrow> workspace \<Rightarrow> (string, unit \<times> workspace) result" where
  "insert_invite r ws =
    (if iv_max_uses r > max_integer then Inl ''integer out of range''
     else result_bind (insert_unique iv_code_hash r (ws_invites ws)) (\<lambda>_.
          result_bind (insert_unique iv_id r (ws_invites ws)) (\<lambda>rows. Inr ((), ws\<lparr>ws_invites := rows\<rparr>))))"

definition InsertInvite :: "tx_env \<Rightarrow> invite_row \<Rightarrow> unit tx" where
  "InsertInvite e r = tx_write e (insert_invite r)"

definition RevokeInvite :: "tx_env \<Rightarrow> string \<Rightarrow> time \<Rightarrow> bool tx" where
  "RevokeInvite e i revokedAt = tx_write e (\<lambda>ws.
    let hit = (\<lambda>iv. iv_id iv = i \<and> iv_space_id iv = DefaultSpaceID \<and> iv_revoked_at iv = None) in
    Inr (length (filter hit (ws_invites ws)) = 1,
         ws\<lparr>ws_invites := update_where hit (\<lambda>iv. iv\<lparr>iv_revoked_at := Some (pg_timestamp revokedAt)\<rparr>) (ws_invites ws)\<rparr>))"

definition invites_WriteAudit :: "tx_env \<Rightarrow> auditInput \<Rightarrow> unit tx" where
  "invites_WriteAudit e i = io_bind (invites_newID e) (\<lambda>auditID. tx_write e (insert_audit (audit_of auditID i (pg_timestamp (ai_CreatedAt i)))))"

section \<open>The service\<close>

definition invite_audit :: "AuthActor \<Rightarrow> RequestMeta \<Rightarrow> time \<Rightarrow> string \<Rightarrow> string \<Rightarrow> string \<Rightarrow> string \<Rightarrow> auditInput" where
  "invite_audit actor meta now action targetID outcome reason =
    audit_input (actor_ID actor) (actor_GitHubLogin actor) action ''invite'' targetID outcome reason (Safe meta) now"

definition invites_normalizeError :: "go_error \<Rightarrow> Error" where
  "invites_normalizeError err = (case err of Domain d \<Rightarrow> d | Foreign text \<Rightarrow> internalError ''workspace invite repository'' text)"

definition mutate_body :: "tx_env \<Rightarrow> string \<Rightarrow> RequestMeta \<Rightarrow> (AuthActor \<Rightarrow> time \<Rightarrow> (rejection, 'a) result tx) \<Rightarrow> (Error, 'a) result tx" where
  "mutate_body e actorID meta operation =
    io_bind (invites_LookupActor e actorID) (\<lambda>found.
    case found of
      None \<Rightarrow> tx_fail (Domain authRequiredError)
    | Some actor \<Rightarrow>
        if actor_ID actor \<noteq> actorID \<or> actor_Kind actor \<noteq> ''human'' \<or> TrimSpace (actor_Role actor) = [] then tx_fail (Domain authRequiredError)
        else let now = normalizedNow e in
          io_bind (operation actor now) (\<lambda>r.
          case r of
            Inr x \<Rightarrow> io_return (Inr x)
          | Inl rej \<Rightarrow> io_bind (invites_WriteAudit e (invite_audit actor meta now (rj_Action rej) (rj_TargetID rej) ''rejected'' (rj_Reason rej)))
              (\<lambda>_. io_return (Inl (rj_err rej)))))"

definition mutate :: "tx_env \<Rightarrow> string \<Rightarrow> RequestMeta \<Rightarrow> (AuthActor \<Rightarrow> time \<Rightarrow> (rejection, 'a) result tx) \<Rightarrow> workspace \<Rightarrow> (go_error, 'a) result \<times> workspace" where
  "mutate e actorID0 meta operation ws =
    (let actorID = TrimSpace actorID0 in
     if actorID = [] then (Inl (Domain authRequiredError), ws)
     else (case committed (WithTx ''begin invite transaction'' ''commit invite transaction'' e (mutate_body e actorID meta operation) ws) of
        (Inl err, ws1) \<Rightarrow> (Inl (Domain (invites_normalizeError err)), ws1) | (Inr x, ws1) \<Rightarrow> (Inr x, ws1)))"

definition roleInvalid :: Error where "roleInvalid = NewError ''role.invalid'' (utf8 [0x89D2, 0x8272, 0x65E0, 0x6548]) 400"
definition createDenied :: Error where "createDenied = NewError ''permission.denied'' (utf8 [0x4F60, 0x6CA1, 0x6709, 0x521B, 0x5EFA, 0x8BE5, 0x9080, 0x8BF7, 0x7684, 0x6743, 0x9650]) 403"
definition codeInvalid :: Error where "codeInvalid = NewError ''invite.invalid'' (utf8 [0x9080, 0x8BF7, 0x7801, 0x65E0, 0x6548]) 400"
definition revokeDenied :: Error where "revokeDenied = NewError ''permission.denied'' (utf8 [0x4F60, 0x6CA1, 0x6709, 0x6267, 0x884C, 0x8BE5, 0x64CD, 0x4F5C, 0x7684, 0x6743, 0x9650]) 403"
definition inviteNotFound :: Error where "inviteNotFound = NewError ''invite.not_found'' (utf8 [0x9080, 0x8BF7, 0x4E0D, 0x5B58, 0x5728]) 400"

definition store_invite :: "(string \<Rightarrow> time option) \<Rightarrow> tx_env \<Rightarrow> CreateInput \<Rightarrow> AuthActor \<Rightarrow> time \<Rightarrow> string \<Rightarrow> string \<Rightarrow> (rejection, Invite) result tx" where
  "store_invite parse e input actor now role code =
    io_bind (tx_wrap ''generate invite id'' (invites_newID e)) (\<lambda>i.
    case resolveExpiry parse (ci_ExpiresAt input) (ci_ExpiresInHours input) now of
      Inl err \<Rightarrow> io_return (Inl (rejected err ''invite.create'' [] (err_Code err)))
    | Inr expiresAt \<Rightarrow>
        let r = \<lparr>iv_id = i, iv_space_id = DefaultSpaceID, iv_code_hash = HashSecret code, iv_code_preview = previewCode code, iv_default_role = role,
              iv_created_by = actor_ID actor, iv_max_uses = (if ci_MaxUses input \<le> 0 then 1 else ci_MaxUses input), iv_uses = 0,
              iv_expires_at = map_option pg_timestamp expiresAt, iv_revoked_at = None, iv_created_at = pg_timestamp now\<rparr>
        in io_bind (InsertInvite e r) (\<lambda>_.
           io_bind (invites_WriteAudit e (invite_audit actor (ci_Meta input) now ''invite.create'' i ''success'' [])) (\<lambda>_.
           io_return (Inr (projectInvite r code)))))"

definition create_operation :: "(string \<Rightarrow> time option) \<Rightarrow> tx_env \<Rightarrow> CreateInput \<Rightarrow> AuthActor \<Rightarrow> time \<Rightarrow> (rejection, Invite) result tx" where
  "create_operation parse e input actor now =
    (let role0 = TrimSpace (ci_DefaultRole input); role = (if role0 = [] then ''member'' else role0) in
     if \<not> validRole role then io_return (Inl (rejected roleInvalid ''invite.create'' [] ''role.invalid''))
     else if \<not> canManageRole (actor_Role actor) role then io_return (Inl (rejected createDenied ''invite.create'' [] ''insufficient permission''))
     else io_bind (if TrimSpace (ci_Code input) = [] then tx_wrap ''generate invite code'' (generateCode e) else io_return (TrimSpace (ci_Code input))) (\<lambda>code0.
       let code = NormalizeInviteCode code0 in
       if code = [] then io_return (Inl (rejected codeInvalid ''invite.create'' [] ''invite.invalid''))
       else store_invite parse e input actor now role code))"

definition Invites_Create :: "(string \<Rightarrow> time option) \<Rightarrow> tx_env \<Rightarrow> CreateInput \<Rightarrow> workspace \<Rightarrow> (go_error, Invite) result \<times> workspace" where
  "Invites_Create parse e input ws = mutate e (ci_ActorID input) (ci_Meta input) (create_operation parse e input) ws"

definition revoke_operation :: "tx_env \<Rightarrow> RevokeInput \<Rightarrow> AuthActor \<Rightarrow> time \<Rightarrow> (rejection, RevokedInvite) result tx" where
  "revoke_operation e input actor now =
    (let inviteID = TrimSpace (ri_InviteID input) in
     if actor_Role actor \<noteq> ''owner'' \<and> actor_Role actor \<noteq> ''admin''
     then io_return (Inl (rejected revokeDenied ''invite.revoke'' inviteID ''insufficient permission''))
     else io_bind (FindInviteForUpdate e inviteID) (\<lambda>found.
       case found of
         None \<Rightarrow> io_return (Inl (rejected inviteNotFound ''invite.revoke'' inviteID ''invite not found''))
       | Some iv \<Rightarrow>
           if \<not> canManageRole (actor_Role actor) (iv_default_role iv)
           then io_return (Inl (rejected revokeDenied ''invite.revoke'' (iv_id iv) ''insufficient permission''))
           else io_bind (case iv_revoked_at iv of
               Some t \<Rightarrow> io_return t
             | None \<Rightarrow> io_bind (RevokeInvite e (iv_id iv) now) (\<lambda>changed.
                 if changed then io_return now else tx_fail (Domain (internalError ''revoke invite'' ''locked invite was not updated'')))) (\<lambda>revokedAt.
             io_bind (invites_WriteAudit e (invite_audit actor (ri_Meta input) now ''invite.revoke'' (iv_id iv) ''success'' [])) (\<lambda>_.
             io_return (Inr \<lparr>rv_ID = iv_id iv, rv_RevokedAt = invites_formatTime revokedAt\<rparr>)))))"

definition Invites_Revoke :: "tx_env \<Rightarrow> RevokeInput \<Rightarrow> workspace \<Rightarrow> (go_error, RevokedInvite) result \<times> workspace" where
  "Invites_Revoke e input ws = mutate e (ri_ActorID input) (ri_Meta input) (revoke_operation e input) ws"

section \<open>The operations go forward\<close>

lemma insert_invite_ok:
  "insert_invite r v = Inr (x, v') \<Longrightarrow> iv_id r \<notin> iv_id ` set (ws_invites v) \<and> iv_code_hash r \<notin> iv_code_hash ` set (ws_invites v) \<and> v' = v\<lparr>ws_invites := ws_invites v @ [r]\<rparr>"
  by (auto simp: insert_invite_def result_bind_def split: if_splits sum.splits)

lemma insert_invite_forward:
  assumes "insert_invite r v = Inr (x, v')" "iv_uses r = 0" "0 \<le> iv_max_uses r"
  shows "forward v v'"
proof -
  have v': "v' = v\<lparr>ws_invites := ws_invites v @ [r]\<rparr>" and new: "iv_id r \<notin> iv_id ` set (ws_invites v)" using insert_invite_ok [OF assms(1)] by auto
  show ?thesis unfolding v' forward_invites using invite_rows.evolve_append [OF new] assms(2,3) by (auto simp: invites_ok_def)
qed

lemma revoke_invite_forward: "forward v (v\<lparr>ws_invites := update_where p (\<lambda>iv. iv\<lparr>iv_revoked_at := Some t\<rparr>) (ws_invites v)\<rparr>)"
  unfolding forward_invites
proof
  show "evolve iv_id invite_le (ws_invites v) (update_where p (\<lambda>iv. iv\<lparr>iv_revoked_at := Some t\<rparr>) (ws_invites v))"
    unfolding update_where_def by (rule invite_rows.evolve_map) (simp add: row_le)
qed (auto simp: invites_ok_def update_where_def list_all_iff)

lemma invites_WriteAudit_moves: "legal forward e \<Longrightarrow> moves forward (invites_WriteAudit e i)"
  unfolding invites_WriteAudit_def invites_newID_def by (intro forward.moves_rules forward.moves_write) (auto intro: forward_insert_audit)

lemma InsertInvite_moves: "legal forward e \<Longrightarrow> iv_uses r = 0 \<Longrightarrow> 0 \<le> iv_max_uses r \<Longrightarrow> moves forward (InsertInvite e r)"
  unfolding InsertInvite_def by (intro forward.moves_write) (auto intro: insert_invite_forward)

lemma invites_moves:
  assumes "legal forward e"
  shows "moves forward (create_operation parse e input actor now)" "moves forward (revoke_operation e rinput actor now)"
  subgoal
    unfolding create_operation_def store_invite_def invites_newID_def generateCode_def Let_def
    by (intro forward.moves_rules invites_WriteAudit_moves InsertInvite_moves assms) auto
  subgoal
    unfolding revoke_operation_def FindInviteForUpdate_def RevokeInvite_def Let_def
    by (intro forward.moves_rules invites_WriteAudit_moves forward.moves_write assms) (auto simp: revoke_invite_forward)
  done

lemma mutate_forward:
  assumes "legal forward e" "\<And>actor now. moves forward (operation actor now)"
  shows "forward ws (snd (mutate e actorID meta operation ws))"
proof -
  have "moves forward (mutate_body e i meta operation)" for i
    unfolding mutate_body_def invites_LookupActor_def by (intro forward.moves_rules invites_WriteAudit_moves assms)
  from forward.moves_WithTx [OF assms(1) this] have w: "forward ws (snd (WithTx b c e (mutate_body e i meta operation) ws))" for b c i .
  show ?thesis
  proof (cases "TrimSpace actorID = []")
    case False
    then have "snd (mutate e actorID meta operation ws)
        = snd (WithTx ''begin invite transaction'' ''commit invite transaction'' e (mutate_body e (TrimSpace actorID) meta operation) ws)"
      by (simp add: mutate_def Let_def split: prod.split sum.split) (metis snd_committed snd_conv)
    then show ?thesis using w by simp
  qed (simp add: mutate_def forward.refl)
qed

lemma invites_forward:
  assumes "legal forward e"
  shows "forward ws (snd (Invites_Create parse e input ws))" "forward ws (snd (Invites_Revoke e rinput ws))"
  unfolding Invites_Create_def Invites_Revoke_def by (rule mutate_forward [OF assms] invites_moves [OF assms])+

section \<open>An invitation that is created can be accepted\<close>

lemma normal_code_ascii:
  assumes "list_all (\<lambda>c. 0x21 \<le> byte_of c \<and> byte_of c \<le> 0x7E) v"
  shows "TrimSpace v = v" "map fst (runes v) = map byte_of v"
proof -
  have a: "is_ascii v" using assms by (auto simp: is_ascii_def list_all_iff)
  have "\<not> is_space b" if "0x21 \<le> b" "b \<le> 0x7E" for b using that by (auto simp: is_space_def)
  then show "TrimSpace v = v" using trim_func_noop_ascii [OF a] assms by (auto simp: TrimSpace_def list_all_iff)
  show "map fst (runes v) = map byte_of v" by (simp add: runes_ascii [OF a])
qed

lemma decode_rune_large:
  assumes "0x80 \<le> byte_of c"
  shows "0x80 \<le> fst (decode_rune (c # cs))"
proof -
  have two: "0x80 \<le> (b - 0xC0) * 64 + x" if "0xC2 \<le> b" for b x :: nat using that by simp
  have three: "0x80 \<le> (b - 0xE0) * 4096 + (x - 0x80) * 64 + y" if "0xE0 \<le> b" "b = 0xE0 \<longrightarrow> 0xA0 \<le> x" for b x y :: nat
    using that by (cases "b = 0xE0") auto
  have four: "0x80 \<le> (b - 0xF0) * 262144 + (x - 0x80) * 4096 + y + z" if "0xF0 \<le> b" "b = 0xF0 \<longrightarrow> 0x90 \<le> x" for b x y z :: nat
    using that by (cases "b = 0xF0") auto
  show ?thesis
    using assms two [of "byte_of c"] three [of "byte_of c"] four [of "byte_of c"]
    by (simp add: decode_rune.simps(2) Let_def RuneError_def not_less split: list.split)
qed

lemma small_runes:
  assumes "list_all (\<lambda>(r, _). 0x21 \<le> r \<and> r \<le> 0x7E) (runes v)"
  shows "list_all (\<lambda>c. 0x21 \<le> byte_of c \<and> byte_of c \<le> 0x7E) v"
  using assms
proof (induction v)
  case (Cons c cs)
  then have "fst (decode_rune (c # cs)) \<le> 0x7E" by (simp add: runes.simps(2) Let_def)
  then have "byte_of c < 0x80" using decode_rune_large [of c cs] by linarith
  then show ?case using Cons by (simp add: runes_cons_ascii)
qed simp

lemma NormalizeInviteCode_idem: "NormalizeInviteCode (NormalizeInviteCode v) = NormalizeInviteCode v"
proof (cases "NormalizeInviteCode v = []")
  case True
  then show ?thesis by (simp add: NormalizeInviteCode_def Let_def) (simp add: TrimSpace_def trim_func_def)
next
  case False
  let ?t = "TrimSpace v"
  have code: "NormalizeInviteCode v = ?t" "?t \<noteq> []" "length ?t \<le> 256"
      "\<not> list_ex (\<lambda>(r, _). r < 0x21 \<or> r > 0x7E \<or> r = 0x3B \<or> r = 0x2C \<or> r = 0x5C \<or> r = 0x22) (runes ?t)"
    using False by (auto simp: NormalizeInviteCode_def Let_def split: if_splits)
  then have "list_all (\<lambda>(r, _). 0x21 \<le> r \<and> r \<le> 0x7E) (runes ?t)" by (auto simp: list_ex_iff list_all_iff)
  then have "TrimSpace ?t = ?t" by (intro normal_code_ascii(1) small_runes)
  then show ?thesis using code by (simp add: NormalizeInviteCode_def Let_def)
qed

lemma mutate_view:
  assumes "quiet e" "mutate e actorID meta operation ws = (Inr x, ws')"
  obtains u m s s1 where "(u, m) \<in> set (space_users ws)" "ac_id u = TrimSpace actorID" "ac_kind u = ''human''" "tx_view s = ws"
    "operation (scanActor u m) (normalizedNow e) s = (Inr (Inr x), s1)" "ws' = tx_view s1"
proof -
  have "WithTx ''begin invite transaction'' ''commit invite transaction'' e (mutate_body e (TrimSpace actorID) meta operation) ws = (Inr (Inr x), ws')"
    using assms(2) by (auto simp: mutate_def Let_def committed_def split: if_splits prod.splits sum.splits)
  then obtain s0 s2 s3 where run: "tx_guard e ''begin invite transaction'' (tx_start ws) = (Inr (), s0)"
      "mutate_body e (TrimSpace actorID) meta operation s0 = (Inr (Inr x), s2)" "tx_guard e ''commit invite transaction'' s2 = (Inr (), s3)" "ws' = tx_view s3"
    by (auto simp: WithTx_def Autocommit_ok tx_ok)
  obtain found s4 where found: "invites_LookupActor e (TrimSpace actorID) s0 = (Inr found, s4)"
    and rest: "(case found of None \<Rightarrow> tx_fail (Domain authRequiredError)
      | Some actor \<Rightarrow> if actor_ID actor \<noteq> TrimSpace actorID \<or> actor_Kind actor \<noteq> ''human'' \<or> TrimSpace (actor_Role actor) = [] then tx_fail (Domain authRequiredError)
        else io_bind (operation actor (normalizedNow e)) (\<lambda>r.
          case r of
            Inr x \<Rightarrow> io_return (Inr x)
          | Inl rej \<Rightarrow> io_bind (invites_WriteAudit e (invite_audit actor meta (normalizedNow e) (rj_Action rej) (rj_TargetID rej) ''rejected'' (rj_Reason rej)))
              (\<lambda>_. io_return (Inl (rj_err rej))))) s4 = (Inr (Inr x), s2)"
    using run(2) unfolding mutate_body_def Let_def tx_ok by blast
  then obtain actor where f: "found = Some actor" "actor_Kind actor = ''human''"
    by (auto simp: tx_ok split: option.splits if_splits)
  then obtain r s5 where "operation actor (normalizedNow e) s4 = (Inr r, s5)" "case r of Inr y \<Rightarrow> y = x \<and> s5 = s2 | Inl _ \<Rightarrow> False"
    using rest by (auto simp: tx_ok split: if_splits) (auto simp: tx_ok split: sum.splits)
  then have a: "invites_LookupActor e (TrimSpace actorID) s0 = (Inr (Some actor), s4)" "actor_Kind actor = ''human''"
      "operation actor (normalizedNow e) s4 = (Inr (Inr x), s2)"
    using f found by (auto split: sum.splits)
  have v: "tx_view s0 = ws" "tx_view s3 = tx_view s2" using tx_guard_view [OF assms(1) run(1)] tx_guard_view [OF assms(1) run(3)] by auto
  have look: "first_row [scanActor u m. (u, m) \<leftarrow> space_users ws, ac_id u = TrimSpace actorID] = Some actor" "tx_view s4 = ws"
    using tx_read_view [OF assms(1) a(1) [unfolded invites_LookupActor_def]] v(1) by auto
  then obtain u m where "(u, m) \<in> set (space_users ws)" "ac_id u = TrimSpace actorID" "actor = scanActor u m"
    using first_row_in by (fastforce split: if_splits)
  then show ?thesis using that [of u m s4 s2] a(2,3) look(2) run(4) v(2) by simp
qed

lemma invites_WriteAudit_view:
  assumes "quiet e" "invites_WriteAudit e i s = (Inr x, s1)"
  shows "\<exists>r. tx_view s1 = (tx_view s)\<lparr>ws_audit := ws_audit (tx_view s) @ [r]\<rparr>"
proof -
  obtain i1 r s0 where n: "tx_newid e s = (Inr i1, s0)" and w: "tx_write e (insert_audit r) s0 = (Inr x, s1)"
    using assms(2) by (auto simp: invites_WriteAudit_def invites_newID_def tx_ok Let_def split: if_splits)
  show ?thesis using insert_audit_ok [OF tx_write_view [OF assms(1) w]] tx_newid_view [OF n] by auto
qed

lemma store_invite_view:
  assumes "quiet e" "store_invite parse e input actor now role code s = (Inr (Inr made), s1)"
  obtains r where "ws_invites (tx_view s1) = ws_invites (tx_view s) @ [r]" "iv_code_hash r \<notin> iv_code_hash ` set (ws_invites (tx_view s))"
    "iv_space_id r = DefaultSpaceID" "iv_code_hash r = HashSecret code" "iv_default_role r = role" "iv_uses r = 0" "1 \<le> iv_max_uses r"
    "iv_id r = in_ID made" "in_Code made = code" "iv_revoked_at r = None"
proof -
  obtain i s2 where i: "tx_newid e s = (Inr i, s2)" "store_invite parse e input actor now role code s = (Inr (Inr made), s1)"
    using assms(2) by (auto simp: store_invite_def invites_newID_def tx_ok Let_def split: if_splits sum.splits)
  then obtain r x s3 a s4 where run: "InsertInvite e r s2 = (Inr x, s3)" "invites_WriteAudit e a s3 = (Inr (), s1)" "made = projectInvite r code"
      "iv_space_id r = DefaultSpaceID" "iv_code_hash r = HashSecret code" "iv_default_role r = role" "iv_uses r = 0" "1 \<le> iv_max_uses r" "iv_revoked_at r = None"
    by (auto simp: store_invite_def invites_newID_def tx_ok Let_def split: if_splits sum.splits)
  have v2: "tx_view s2 = tx_view s" using tx_newid_view [OF i(1)] .
  note ins = insert_invite_ok [OF tx_write_view [OF assms(1) run(1) [unfolded InsertInvite_def]]]
  obtain au where "tx_view s1 = (tx_view s3)\<lparr>ws_audit := ws_audit (tx_view s3) @ [au]\<rparr>" using invites_WriteAudit_view [OF assms(1) run(2)] by blast
  then show ?thesis using that [of r] ins v2 run(3-9) by (simp add: projectInvite_def)
qed

text \<open>
  C30 (invites/service.go: Create; auth/session.go: AuthenticateGitHub; auth/pg\_store.go: findInvite). Only an active human member may
  create an invitation, an owner for any role and an admin for members only; the code that is handed out leads a
  login to exactly the stored invitation, which has not been used.
\<close>

theorem invite_roundtrip:
  assumes "quiet e" "Invites_Create parse e input ws = (Inr made, ws')"
  shows "\<exists>r u m. ws_invites ws' = ws_invites ws @ [r] \<and> findInvite (invite_hash (in_Code made)) ws' = Some r \<and> iv_id r = in_ID made \<and>
     iv_uses r = 0 \<and> 1 \<le> iv_max_uses r \<and> iv_revoked_at r = None \<and>
     u \<in> set (ws_users ws) \<and> m \<in> set (ws_members ws) \<and> ac_id u = TrimSpace (ci_ActorID input) \<and> ac_kind u = ''human'' \<and>
     active_member DefaultSpaceID (ac_id u) m \<and> (mb_role m = ''owner'' \<or> mb_role m = ''admin'' \<and> iv_default_role r = ''member'')"
proof -
  obtain u m s s1 where actor: "(u, m) \<in> set (space_users ws)" "ac_id u = TrimSpace (ci_ActorID input)" "ac_kind u = ''human''"
    and op: "tx_view s = ws" "create_operation parse e input (scanActor u m) (normalizedNow e) s = (Inr (Inr made), s1)" "ws' = tx_view s1"
    using mutate_view [OF assms(1) assms(2) [unfolded Invites_Create_def]] .
  define role where "role = (if TrimSpace (ci_DefaultRole input) = [] then ''member'' else TrimSpace (ci_DefaultRole input))"
  obtain code0 s2 where c: "(if TrimSpace (ci_Code input) = [] then tx_wrap ''generate invite code'' (generateCode e) else io_return (TrimSpace (ci_Code input))) s = (Inr code0, s2)"
      "NormalizeInviteCode code0 \<noteq> []" "store_invite parse e input (scanActor u m) (normalizedNow e) role (NormalizeInviteCode code0) s2 = (Inr (Inr made), s1)"
      "canManageRole (mb_role m) role"
    using op(2) by (auto simp: create_operation_def Let_def tx_ok role_def split: if_splits)
  have v2: "tx_view s2 = ws" using c(1) op(1) by (auto simp: generateCode_def tx_ok dest: tx_newid_view split: if_splits)
  obtain r where r: "ws_invites (tx_view s1) = ws_invites (tx_view s2) @ [r]" "iv_code_hash r \<notin> iv_code_hash ` set (ws_invites (tx_view s2))"
      "iv_space_id r = DefaultSpaceID" "iv_code_hash r = HashSecret (NormalizeInviteCode code0)" "iv_default_role r = role" "iv_uses r = 0" "1 \<le> iv_max_uses r"
      "iv_id r = in_ID made" "in_Code made = NormalizeInviteCode code0" "iv_revoked_at r = None"
    using store_invite_view [OF assms(1) c(3)] .
  have hash: "invite_hash (in_Code made) = iv_code_hash r" using r(4,9) c(2) by (simp add: invite_hash_def NormalizeInviteCode_idem)
  have "filter (\<lambda>iv. iv_code_hash iv = iv_code_hash r \<and> iv_space_id iv = DefaultSpaceID) (ws_invites ws) = []"
    unfolding filter_empty_conv using r(2) v2 by (metis imageI)
  then have "findInvite (invite_hash (in_Code made)) ws' = Some r" unfolding hash findInvite_def op(3) r(1) v2 using r(3) by simp
  moreover have "u \<in> set (ws_users ws)" "m \<in> set (ws_members ws)" "active_member DefaultSpaceID (ac_id u) m" using actor(1) by (auto simp: space_users_def)
  moreover have "mb_role m = ''owner'' \<or> mb_role m = ''admin'' \<and> iv_default_role r = ''member''" using c(4) r(5) unfolding canManageRole_def by blast
  ultimately show ?thesis using actor(2,3) r v2 op(3) by blast
qed

definition demo_create :: CreateInput where
  "demo_create = \<lparr>ci_ActorID = ''u1'', ci_DefaultRole = ''admin'', ci_Code = ''abc'', ci_MaxUses = 2, ci_ExpiresAt = [], ci_ExpiresInHours = 0, ci_Meta = no_meta\<rparr>"

theorem invite_roundtrip_witness:
  "\<exists>made ws' r. Invites_Create (\<lambda>_. None) (demo_env 0 (\<lambda>_. demo_token)) demo_create demo_ws = (Inr made, ws') \<and>
     ws_invites ws' = [r] \<and> findInvite (invite_hash (in_Code made)) ws' = Some r"
proof -
  have words: "TrimSpace ''u1'' = ''u1''" "TrimSpace ''admin'' = ''admin''" "TrimSpace ''abc'' = ''abc''" "NormalizeInviteCode ''abc'' = ''abc''" "TrimSpace [] = []"
      "TrimSpace ''owner'' = ''owner''" "validRole ''admin''" "canManageRole ''owner'' ''admin''"
    by code_simp+
  have users: "space_users demo_ws = [(demo_user, demo_member)]" by code_simp
  have row: "actor_ID (scanActor demo_user demo_member) = ''u1''" "actor_Kind (scanActor demo_user demo_member) = ''human''" "actor_Role (scanActor demo_user demo_member) = ''owner''" "ac_id demo_user = ''u1''"
    by code_simp+
  have "is_ok (fst (Invites_Create (\<lambda>_. None) (demo_env 0 (\<lambda>_. demo_token)) demo_create demo_ws))"
    by (simp add: Invites_Create_def mutate_def demo_create_def words demo_blank WithTx_def mutate_body_def invites_LookupActor_def tx_guard_def users row
        create_operation_def store_invite_def invites_newID_def resolveExpiry_def InsertInvite_def insert_invite_def invites_WriteAudit_def
        insert_audit_def insert_unique_def max_integer_def tx_eval committed_def del: scanActor_simps)
      (simp add: demo_ws_def empty_ws_def tx_eval)
  then obtain made ws' where run: "Invites_Create (\<lambda>_. None) (demo_env 0 (\<lambda>_. demo_token)) demo_create demo_ws = (Inr made, ws')" using run_ok by blast
  have "ws_invites demo_ws = []" by (simp add: demo_ws_def empty_ws_def)
  then show ?thesis using invite_roundtrip [OF _ run] run by auto
qed

end
