(* ===== verification/Members.thy ===== *)
theory Members
  imports Invites
begin

text \<open>
  The members of the space: members/model.go, members/errors.go, members/service.go and
  members/pg\_repository.go, for the service configured with the default space. \<open>collate\<close> and \<open>by_name\<close> are the
  orders the database gives to ids and to display names, \<open>ulow\<close> the Unicode table of
  \<open>strings.ToLower\<close> beyond ASCII.
\<close>

section \<open>Text\<close>

definition ValidString :: "string \<Rightarrow> bool" where
  "ValidString s = list_all (\<lambda>(r, bytes). r \<noteq> RuneError \<or> length bytes = 3) (runes s)"

definition RuneCountInString :: "string \<Rightarrow> nat" where
  "RuneCountInString s = length (runes s)"

definition Contains :: "string \<Rightarrow> string \<Rightarrow> bool" where
  "Contains s part = list_ex (\<lambda>i. HasPrefix (drop i s) part) [0..<Suc (length s)]"

section \<open>Values\<close>

record MemberCapabilities =
  mc_CanStartDirectConversation :: bool
  mc_CanJoinGroups :: bool
  mc_CanManage :: bool

record Member =
  mm_ID :: string
  mm_GitHubLogin :: string
  mm_DisplayName :: string
  mm_Nickname :: "string option"
  mm_Remark :: "string option"
  mm_Description :: string
  mm_AvatarURL :: string
  mm_SearchDiscoverable :: "bool option"
  mm_RecallReason :: string
  mm_Kind :: string
  mm_Role :: string
  mm_RoleLabel :: string
  mm_Capabilities :: MemberCapabilities
  mm_JoinedAt :: string

record MemberRecord =
  mr_ID :: string
  mr_GitHubLogin :: string
  mr_DisplayName :: string
  mr_Description :: string
  mr_Nickname :: "string option"
  mr_Remark :: "string option"
  mr_AvatarURL :: string
  mr_SearchDiscoverable :: bool
  mr_RecallReason :: "string option"
  mr_Kind :: string
  mr_Role :: string
  mr_JoinedAt :: time
  mr_NormallyVisible :: bool

record VisibilityRule =
  vr_Basis :: string
  vr_ViewerUserID :: string
  vr_AutomaticUserIDs :: "string list"
  vr_GrantedUserIDs :: "string list"
  vr_VisibleUserIDs :: "string list"

record RemoveResult =
  rm_OK :: bool
  rm_UserID :: string
  rm_RemovedAt :: string

definition nonempty_str :: "string \<Rightarrow> json option" where
  "nonempty_str v = (if v = [] then None else Some (JStr v))"

definition capabilities_json :: "MemberCapabilities \<Rightarrow> json" where
  "capabilities_json c = JObj [(''canStartDirectConversation'', JBool (mc_CanStartDirectConversation c)), (''canJoinGroups'', JBool (mc_CanJoinGroups c)),
     (''canManage'', JBool (mc_CanManage c))]"

definition Member_MarshalJSON :: "Member \<Rightarrow> json" where
  "Member_MarshalJSON m =
    (let human = mm_Kind m = ''human'' in json_map
      [(''avatarUrl'', nonempty_str (mm_AvatarURL m)), (''capabilities'', Some (capabilities_json (mm_Capabilities m))),
       (''description'', nonempty_str (mm_Description m)), (''displayName'', Some (JStr (mm_DisplayName m))),
       (''githubLogin'', if human then Some (JStr (mm_GitHubLogin m)) else None), (''id'', Some (JStr (mm_ID m))),
       (''joinedAt'', Some (JStr (mm_JoinedAt m))), (''kind'', Some (JStr (mm_Kind m))),
       (''nickname'', if human then Some (case mm_Nickname m of None \<Rightarrow> JNull | Some n \<Rightarrow> JStr n) else None),
       (''recallReason'', if human then nonempty_str (mm_RecallReason m) else None),
       (''remark'', if human then map_option JStr (mm_Remark m) else None), (''role'', Some (JStr (mm_Role m))),
       (''roleLabel'', Some (JStr (mm_RoleLabel m))), (''searchDiscoverable'', if human then map_option JBool (mm_SearchDiscoverable m) else None)])"

section \<open>Errors\<close>

definition permissionDeniedError :: Error where "permissionDeniedError = NewError ''permission.denied'' (utf8 [0x4F60, 0x6CA1, 0x6709, 0x6267, 0x884C, 0x8BE5, 0x64CD, 0x4F5C, 0x7684, 0x6743, 0x9650]) 403"
definition memberNotFoundError :: Error where "memberNotFoundError = NewError ''member.not_found'' (utf8 [0x7A7A, 0x95F4, 0x6210, 0x5458, 0x4E0D, 0x5B58, 0x5728]) 400"

definition validationError :: "string \<Rightarrow> string \<Rightarrow> Error" where
  "validationError code message = NewError code message 400"

definition nicknameInvalid :: Error where "nicknameInvalid = validationError ''profile.nickname_invalid'' (utf8 [0x6635, 0x79F0, 0x5E94, 0x4E3A, 0x0020, 0x0031, 0x0020, 0x81F3, 0x0020, 0x0033, 0x0032, 0x0020, 0x4E2A, 0x6709, 0x6548, 0x5B57, 0x7B26])"
definition discoverableInvalid :: Error where "discoverableInvalid = validationError ''profile.search_discoverable_invalid'' (utf8 [0x641C, 0x7D22, 0x53EF, 0x89C1, 0x8BBE, 0x7F6E, 0x65E0, 0x6548])"
definition recallInvalid :: Error where "recallInvalid = validationError ''profile.recall_reason_invalid'' (utf8 [0x64A4, 0x56DE, 0x6587, 0x6848, 0x5E94, 0x4E3A, 0x0020, 0x0031, 0x0020, 0x81F3, 0x0020, 0x0031, 0x0036, 0x0020, 0x4E2A, 0x6709, 0x6548, 0x5B57, 0x7B26])"
definition remarkInvalid :: Error where "remarkInvalid = validationError ''member.remark_invalid'' (utf8 [0x5907, 0x6CE8, 0x5E94, 0x4E3A, 0x0020, 0x0031, 0x0020, 0x81F3, 0x0020, 0x0033, 0x0032, 0x0020, 0x4E2A, 0x6709, 0x6548, 0x5B57, 0x7B26])"
definition remarkUnsupported :: Error where "remarkUnsupported = validationError ''member.remark_unsupported'' (utf8 [0x53EA, 0x80FD, 0x5907, 0x6CE8, 0x5176, 0x4ED6, 0x7A7A, 0x95F4, 0x6210, 0x5458])"
definition memberRoleInvalid :: Error where "memberRoleInvalid = validationError ''member.role_invalid'' (utf8 [0x4E0D, 0x80FD, 0x4FEE, 0x6539, 0x81EA, 0x5DF1, 0x7684, 0x6743, 0x9650])"
definition systemManaged :: Error where "systemManaged = validationError ''member.system_managed'' (utf8 [0x7CFB, 0x7EDF, 0x6210, 0x5458, 0x7684, 0x6743, 0x9650, 0x7531, 0x670D, 0x52A1, 0x7EF4, 0x62A4])"
definition removeSystem :: Error where "removeSystem = validationError ''member.system_managed'' (utf8 [0x7CFB, 0x7EDF, 0x6210, 0x5458, 0x4E0D, 0x80FD, 0x88AB, 0x79FB, 0x51FA, 0x7A7A, 0x95F4])"
definition lastOwner :: Error where "lastOwner = validationError ''member.last_owner'' (utf8 [0x81F3, 0x5C11, 0x9700, 0x8981, 0x4FDD, 0x7559, 0x4E00, 0x4F4D, 0x7A7A, 0x95F4, 0x4E3B, 0x4EBA])"
definition removeInvalid :: Error where "removeInvalid = validationError ''member.remove_invalid'' (utf8 [0x4E0D, 0x80FD, 0x79FB, 0x51FA, 0x5F53, 0x524D, 0x8D26, 0x53F7])"
definition memberRoleUnknown :: Error where "memberRoleUnknown = validationError ''role.invalid'' (utf8 [0x89D2, 0x8272, 0x65E0, 0x6548])"

definition normalizeRepositoryError :: "go_error \<Rightarrow> Error" where
  "normalizeRepositoryError err = (case err of Domain d \<Rightarrow> d | Foreign cause \<Rightarrow> internalError ''workspace member repository'' cause)"

section \<open>Roles and labels\<close>

definition hasCapability :: "string \<Rightarrow> string \<Rightarrow> bool" where
  "hasCapability role0 capability =
    (let role = TrimSpace role0 in
     if role = ''owner'' then True
     else if role = ''admin'' then capability \<in> set [''conversation.read'', ''conversation.create_direct'', ''conversation.create_group'',
       ''conversation.member.manage'', ''message.create'', ''file.upload'', ''file.download'']
     else if role = ''member'' then capability \<in> set [''conversation.read'', ''conversation.create_direct'', ''message.create'', ''file.upload'', ''file.download'']
     else False)"

definition normalizeRole :: "string \<Rightarrow> (Error, string) result" where
  "normalizeRole role0 = (let role = TrimSpace role0 in
     if role = ''owner'' \<or> role = ''admin'' \<or> role = ''member'' \<or> role = ''auditor'' then Inr role else Inl memberRoleUnknown)"

definition profile_control :: "rune \<Rightarrow> bool" where
  "profile_control r \<longleftrightarrow> r \<le> 0x1F \<or> r = 0x7F \<or> 0x80 \<le> r \<and> r \<le> 0x9F \<or> 0x202A \<le> r \<and> r \<le> 0x202E \<or> 0x2066 \<le> r \<and> r \<le> 0x2069"

definition containsProfileControl :: "string \<Rightarrow> bool" where
  "containsProfileControl v = list_ex (\<lambda>p. profile_control (fst p)) (runes v)"

definition label_ok :: "nat \<Rightarrow> string \<Rightarrow> bool" where
  "label_ok n v \<longleftrightarrow> ValidString v \<and> 1 \<le> RuneCountInString v \<and> RuneCountInString v \<le> n \<and> \<not> containsProfileControl v"

definition normalizeProfileLabel :: "Error \<Rightarrow> string \<Rightarrow> (Error, string) result" where
  "normalizeProfileLabel err value0 = (let v = TrimSpace value0 in if label_ok 32 v then Inr v else Inl err)"

definition normalizeRecallReason :: "string \<Rightarrow> (Error, string) result" where
  "normalizeRecallReason value0 = (let v = TrimSpace value0 in if label_ok 16 v then Inr v else Inl recallInvalid)"

fun unique_from :: "string list \<Rightarrow> string list \<Rightarrow> string list" where
  "unique_from seen [] = []"
| "unique_from seen (v0 # vs) =
    (let v = TrimSpace v0 in if v = [] \<or> v \<in> set seen then unique_from seen vs else v # unique_from (v # seen) vs)"

definition uniqueStrings :: "string list \<Rightarrow> string list" where
  "uniqueStrings vs = unique_from [] vs"

definition filterVisibleIDs :: "string list \<Rightarrow> string \<Rightarrow> string list" where
  "filterVisibleIDs vs viewerID = filter (\<lambda>v. v \<noteq> viewerID \<and> v \<notin> set system_users) vs"

definition members_formatTime :: "time \<Rightarrow> string" where
  "members_formatTime t = (if t = zero_time then [] else format_millis (trunc_ms t))"

section \<open>Projection\<close>

definition sanitizeAvatarURL :: "string \<Rightarrow> string" where
  "sanitizeAvatarURL v =
    (let c = TrimSpace v in
     if c = [] \<or> Contains c ''..'' then []
     else if HasPrefix c ''/assets/'' \<or> HasPrefix c ''/api/workspace/avatars/'' \<or> HasPrefix c ''https://avatars.githubusercontent.com/'' then c else [])"

text \<open>Name, description and avatar of a system identity.\<close>

definition systemIdentity :: "string \<Rightarrow> (string \<times> string \<times> string) option" where
  "systemIdentity i =
    (if i = ''usr_system_beacon'' then Some ((utf8 [0x4FE1, 0x6807]), (utf8 [0x6587, 0x4EF6, 0x4F20, 0x8F93, 0x52A9, 0x624B]), ''/assets/beacon-avatar.png'')
     else if i = ''usr_system_echo'' then Some ((utf8 [0x56DE, 0x58F0]), (utf8 [0x9700, 0x6C42, 0x4E0E, 0x53CD, 0x9988, 0x52A9, 0x624B]), ''/assets/echo-avatar.svg'')
     else None)"

definition isMemberManagedIdentity :: "MemberRecord \<Rightarrow> bool" where
  "isMemberManagedIdentity r \<longleftrightarrow> systemIdentity (mr_ID r) = None"

definition canStartDirect :: "MemberRecord \<Rightarrow> bool" where
  "canStartDirect r \<longleftrightarrow> systemIdentity (mr_ID r) \<noteq> None \<or> mr_Kind r = ''human'' \<and> mr_Role r \<noteq> ''auditor'' \<and> mr_ID r \<noteq> []"

definition members_canJoinGroups :: "MemberRecord \<Rightarrow> bool" where
  "members_canJoinGroups r \<longleftrightarrow> hasCapability (mr_Role r) ''conversation.read'' \<and> hasCapability (mr_Role r) ''message.create'' \<and> mr_Kind r = ''human''"

definition projectedRole :: "MemberRecord \<Rightarrow> AuthActor option \<Rightarrow> string" where
  "projectedRole r actor =
    (let role = mr_Role r in
     if role = ''owner'' \<and> (case actor of None \<Rightarrow> True | Some a \<Rightarrow> actor_Role a \<noteq> ''owner'') then ''admin''
     else if role = ''auditor'' \<and> (case actor of None \<Rightarrow> True | Some a \<Rightarrow> actor_ID a \<noteq> mr_ID r \<and> actor_Role a \<noteq> ''owner'') then ''member''
     else if role = [] then ''member'' else role)"

definition members_roleLabel :: "string \<Rightarrow> string" where
  "members_roleLabel role = (if role = ''owner'' then (utf8 [0x7A7A, 0x95F4, 0x4E3B, 0x4EBA]) else if role = ''admin'' then (utf8 [0x7BA1, 0x7406, 0x5458]) else if role = ''auditor'' then (utf8 [0x9884, 0x7559, 0x89D2, 0x8272]) else (utf8 [0x6210, 0x5458]))"

definition is_self :: "AuthActor option \<Rightarrow> MemberRecord \<Rightarrow> bool" where
  "is_self actor r \<longleftrightarrow> (case actor of None \<Rightarrow> False | Some a \<Rightarrow> actor_ID a = mr_ID r)"

text \<open>The record after the values of a system identity have been put in.\<close>

definition with_identity :: "MemberRecord \<Rightarrow> MemberRecord" where
  "with_identity r = (case systemIdentity (mr_ID r) of None \<Rightarrow> r
     | Some (name, description, avatar) \<Rightarrow> r\<lparr>mr_Description := description, mr_AvatarURL := avatar, mr_Kind := ''bot''\<rparr>)"

definition remark_text :: "MemberRecord \<Rightarrow> string" where
  "remark_text r = TrimSpace (stringValue (mr_Remark r))"

definition member_name :: "MemberRecord \<Rightarrow> AuthActor option \<Rightarrow> string" where
  "member_name r0 actor =
    (let r = with_identity r0;
         n0 = (if is_self actor r0 then [] else remark_text r0);
         n1 = (case systemIdentity (mr_ID r0) of Some (name, _, _) \<Rightarrow> name | None \<Rightarrow> n0);
         n2 = (if n1 = [] then TrimSpace (stringValue (mr_Nickname r)) else n1);
         n3 = (if n2 = [] then TrimSpace (mr_GitHubLogin r) else n2);
         n4 = (if n3 = [] then (if mr_Kind r = ''bot'' then ''Bot'' else (utf8 [0x6210, 0x5458])) else n3)
     in if mr_Kind r \<noteq> ''human'' \<and> TrimSpace (mr_DisplayName r) \<noteq> [] \<and> systemIdentity (mr_ID r0) = None then TrimSpace (mr_DisplayName r) else n4)"

definition projectMember :: "MemberRecord \<Rightarrow> AuthActor option \<Rightarrow> Member" where
  "projectMember r0 actor =
    (let r = with_identity r0; role = projectedRole r actor; human = mr_Kind r = ''human'';
         other = (case actor of None \<Rightarrow> False | Some a \<Rightarrow> actor_ID a \<noteq> mr_ID r);
         remark = (if human \<and> other \<and> remark_text r \<noteq> [] then Some (remark_text r) else None);
         able = (\<lambda>capability. case actor of None \<Rightarrow> False | Some a \<Rightarrow> hasCapability (actor_Role a) capability)
     in \<lparr>mm_ID = mr_ID r, mm_GitHubLogin = (if human then mr_GitHubLogin r else []),
         mm_DisplayName = (case remark of Some t \<Rightarrow> t | None \<Rightarrow> member_name r0 actor),
         mm_Nickname = (if human then mr_Nickname r else None), mm_Remark = remark, mm_Description = (if human then [] else mr_Description r),
         mm_AvatarURL = sanitizeAvatarURL (mr_AvatarURL r),
         mm_SearchDiscoverable = (if human \<and> is_self actor r then Some (mr_SearchDiscoverable r) else None),
         mm_RecallReason = (if human \<and> is_self actor r then
            (let t = TrimSpace (stringValue (mr_RecallReason r)) in if t \<noteq> [] then t else (utf8 [0x5185, 0x5BB9, 0x6709, 0x8BEF])) else []),
         mm_Kind = mr_Kind r, mm_Role = role, mm_RoleLabel = members_roleLabel role,
         mm_Capabilities = \<lparr>mc_CanStartDirectConversation = other \<and> canStartDirect r \<and> able ''conversation.create_direct'',
           mc_CanJoinGroups = members_canJoinGroups r, mc_CanManage = isMemberManagedIdentity r \<and> able ''member.role_update''\<rparr>,
         mm_JoinedAt = members_formatTime (mr_JoinedAt r)\<rparr>)"

definition memberContains :: "(rune \<Rightarrow> rune) \<Rightarrow> Member \<Rightarrow> string \<Rightarrow> bool" where
  "memberContains ulow m wanted =
    list_ex (\<lambda>v. Contains (ToLower ulow v) wanted) [mm_DisplayName m, stringValue (mm_Nickname m), stringValue (mm_Remark m), mm_GitHubLogin m, mm_RoleLabel m, mm_Role m, mm_Kind m]"

section \<open>The repository\<close>

definition normally_visible :: "string \<Rightarrow> account_row \<Rightarrow> workspace \<Rightarrow> bool" where
  "normally_visible viewerID u ws \<longleftrightarrow>
     list_ex (\<lambda>m. active_member DefaultSpaceID viewerID m \<and> mb_role m = ''owner'') (ws_members ws) \<or> ac_id u = viewerID \<or>
     direct_between False DefaultSpaceID viewerID (ac_id u) (ws_rest ws) \<or> granted DefaultSpaceID viewerID (ac_id u) (ws_rest ws) \<or>
     ac_id u \<in> set system_users"

definition scanMemberRecord :: "string \<Rightarrow> workspace \<Rightarrow> account_row \<Rightarrow> member_row \<Rightarrow> MemberRecord" where
  "scanMemberRecord viewerID ws u m =
    \<lparr>mr_ID = ac_id u, mr_GitHubLogin = ac_github_login u, mr_DisplayName = ac_display_name u, mr_Description = [], mr_Nickname = ac_nickname u,
     mr_Remark = map_option rk_remark (first_row (filter (\<lambda>k. rk_owner_user_id k = viewerID \<and> rk_target_user_id k = ac_id u) (ws_remarks ws))),
     mr_AvatarURL = stringValue (ac_avatar_url u), mr_SearchDiscoverable = ac_search_discoverable u, mr_RecallReason = ac_recall_reason u,
     mr_Kind = ac_kind u, mr_Role = mb_role m, mr_JoinedAt = mb_joined_at m, mr_NormallyVisible = normally_visible viewerID u ws\<rparr>"

definition member_records :: "string \<Rightarrow> workspace \<Rightarrow> MemberRecord list" where
  "member_records viewerID ws = map (\<lambda>(u, m). scanMemberRecord viewerID ws u m) (space_users ws)"

definition role_rank :: "string \<Rightarrow> nat" where
  "role_rank role = (if role = ''owner'' then 1 else if role = ''admin'' then 2 else if role = ''auditor'' then 3 else 4)"

definition ListMemberRecords :: "(MemberRecord list \<Rightarrow> MemberRecord list) \<Rightarrow> tx_env \<Rightarrow> string \<Rightarrow> MemberRecord list tx" where
  "ListMemberRecords by_name e viewerID =
    tx_wrap ''list workspace members'' (tx_read e (\<lambda>ws. sort_key (\<lambda>r. role_rank (mr_Role r)) (by_name (member_records viewerID ws))))"

definition FindMemberRecord :: "tx_env \<Rightarrow> string \<Rightarrow> string \<Rightarrow> MemberRecord option tx" where
  "FindMemberRecord e viewerID userID =
    tx_wrap ''find workspace member'' (tx_read e (\<lambda>ws. first_row (filter (\<lambda>r. mr_ID r = userID) (member_records viewerID ws))))"

definition members_LookupActor :: "tx_env \<Rightarrow> string \<Rightarrow> AuthActor option tx" where
  "members_LookupActor e userID =
    tx_wrap ''lookup member actor'' (tx_read e (\<lambda>ws. first_row [scanActor u m. (u, m) \<leftarrow> space_users ws, ac_id u = userID]))"

definition CountActiveOwners :: "tx_env \<Rightarrow> nat tx" where
  "CountActiveOwners e = tx_wrap ''count workspace owners'' (tx_read e (\<lambda>ws. length (active_owners DefaultSpaceID ws)))"

definition Lock :: "tx_env \<Rightarrow> unit tx" where
  "Lock e = tx_wrap ''lock workspace member resource'' (tx_lock e)"

definition PG_UpdateOwnProfile :: "tx_env \<Rightarrow> string \<Rightarrow> (account_row \<Rightarrow> account_row) \<Rightarrow> unit tx" where
  "PG_UpdateOwnProfile e userID change =
    io_bind (tx_wrap ''update member profile'' (tx_write e (\<lambda>ws.
      let hit = (\<lambda>u. ac_id u = userID \<and> ac_kind u = ''human'' \<and> list_ex (active_member DefaultSpaceID (ac_id u)) (ws_members ws)) in
      Inr (length (filter hit (ws_users ws)), ws\<lparr>ws_users := update_where hit change (ws_users ws)\<rparr>)))) (\<lambda>n.
    if n \<noteq> 1 then tx_fail (Domain authRequiredError) else io_return ())"

definition UpsertRemark :: "tx_env \<Rightarrow> string \<Rightarrow> string \<Rightarrow> string \<Rightarrow> time \<Rightarrow> unit tx" where
  "UpsertRemark e ownerUserID targetUserID remark updatedAt =
    tx_wrap ''upsert member remark'' (tx_write e (\<lambda>ws.
      let key = (\<lambda>k. rk_owner_user_id k = ownerUserID \<and> rk_target_user_id k = targetUserID) in
      if ownerUserID = targetUserID then Inl ''check constraint violated''
      else Inr ((), ws\<lparr>ws_remarks :=
        if list_ex key (ws_remarks ws) then update_where key (\<lambda>k. k\<lparr>rk_remark := remark, rk_updated_at := trunc_ms updatedAt\<rparr>) (ws_remarks ws)
        else ws_remarks ws @ [\<lparr>rk_owner_user_id = ownerUserID, rk_target_user_id = targetUserID, rk_remark = remark, rk_updated_at = trunc_ms updatedAt\<rparr>]\<rparr>)))"

definition DeleteRemark :: "tx_env \<Rightarrow> string \<Rightarrow> string \<Rightarrow> unit tx" where
  "DeleteRemark e ownerUserID targetUserID =
    tx_wrap ''delete member remark'' (tx_write e (\<lambda>ws.
      Inr ((), ws\<lparr>ws_remarks := filter (\<lambda>k. \<not> (rk_owner_user_id k = ownerUserID \<and> rk_target_user_id k = targetUserID)) (ws_remarks ws)\<rparr>)))"

definition rest_write :: "tx_env \<Rightarrow> (db \<Rightarrow> db) \<Rightarrow> unit tx" where
  "rest_write e f = tx_write e (\<lambda>ws. Inr ((), ws\<lparr>ws_rest := f (ws_rest ws)\<rparr>))"

fun insert_grants :: "tx_env \<Rightarrow> string \<Rightarrow> string list \<Rightarrow> unit tx" where
  "insert_grants e viewer [] = io_return ()"
| "insert_grants e viewer (i # is) =
    io_bind (tx_wrap ''write member visibility grant'' (rest_write e (\<lambda>d. d\<lparr>member_visibility_grants :=
        member_visibility_grants d @ [\<lparr>g_space_id = DefaultSpaceID, g_viewer_user_id = viewer, g_visible_user_id = i\<rparr>]\<rparr>))) (\<lambda>_. insert_grants e viewer is)"

definition ReplaceVisibilityGrants :: "tx_env \<Rightarrow> string \<Rightarrow> string list \<Rightarrow> unit tx" where
  "ReplaceVisibilityGrants e viewer visibleUserIDs =
    io_bind (tx_wrap ''clear member visibility grants'' (rest_write e (\<lambda>d. d\<lparr>member_visibility_grants :=
        filter (\<lambda>g. \<not> (g_space_id g = DefaultSpaceID \<and> g_viewer_user_id g = viewer)) (member_visibility_grants d)\<rparr>))) (\<lambda>_.
    insert_grants e viewer (filterVisibleIDs (uniqueStrings visibleUserIDs) viewer))"

definition PG_UpdateMemberRole :: "tx_env \<Rightarrow> string \<Rightarrow> string \<Rightarrow> unit tx" where
  "PG_UpdateMemberRole e userID role =
    io_bind (tx_wrap ''update member role'' (tx_write e (\<lambda>ws. Inr (length (filter (active_member DefaultSpaceID userID) (ws_members ws)),
       ws\<lparr>ws_members := update_where (active_member DefaultSpaceID userID) (\<lambda>m. m\<lparr>mb_role := role\<rparr>) (ws_members ws)\<rparr>)))) (\<lambda>n.
    if n \<noteq> 1 then tx_fail (Domain memberNotFoundError) else io_return ())"

definition PG_RemoveMember :: "tx_env \<Rightarrow> string \<Rightarrow> time \<Rightarrow> bool tx" where
  "PG_RemoveMember e userID removedAt =
    tx_wrap ''remove workspace member'' (tx_write e (\<lambda>ws. Inr (length (filter (active_member DefaultSpaceID userID) (ws_members ws)) = 1,
       ws\<lparr>ws_members := update_where (active_member DefaultSpaceID userID) (\<lambda>m. m\<lparr>mb_removed_at := Some (trunc_ms removedAt)\<rparr>) (ws_members ws)\<rparr>)))"

definition RevokeUserConversationMemberships :: "tx_env \<Rightarrow> string \<Rightarrow> unit tx" where
  "RevokeUserConversationMemberships e userID =
    tx_wrap ''revoke member conversations'' (rest_write e (\<lambda>d. d\<lparr>conversation_members :=
      update_where (\<lambda>cm. cm_user_id cm = userID) (\<lambda>cm. cm\<lparr>cm_removed := True\<rparr>) (conversation_members d)\<rparr>))"

definition RevokeUserSessions :: "tx_env \<Rightarrow> string \<Rightarrow> time \<Rightarrow> unit tx" where
  "RevokeUserSessions e userID revokedAt =
    tx_wrap ''revoke member sessions'' (tx_write e (\<lambda>ws. Inr ((), ws\<lparr>ws_sessions :=
      update_where (\<lambda>s. se_user_id s = userID \<and> se_revoked_at s = None) (\<lambda>s. s\<lparr>se_revoked_at := Some (trunc_ms revokedAt)\<rparr>) (ws_sessions ws)\<rparr>)))"

text \<open>WriteEvent, with its own writes to the cursor and the log in one step.\<close>

definition members_event :: "tx_env \<Rightarrow> EventInput \<Rightarrow> unit tx" where
  "members_event e input s = tx_write e (on_rest (\<lambda>d.
     result_bind (members_WriteEvent (te_id e (tx_n s)) (\<lambda>i. te_fault e (Suc (tx_n s + i))) input d) (\<lambda>d1. Inr ((), d1)))) s"

definition members_WriteAudit :: "tx_env \<Rightarrow> audit_row \<Rightarrow> unit tx" where
  "members_WriteAudit e r =
    (if TrimSpace (au_space_id r) = [] \<or> TrimSpace (au_action r) = [] \<or> TrimSpace (au_target_type r) = [] \<or> au_created_at r = zero_time
     then tx_fail (Domain (internalError ''write workspace member audit'' ''audit fields are required''))
     else tx_wrap ''write workspace member audit'' (tx_write e (insert_audit r)))"

text \<open>The three queries of GetVisibilityRule.\<close>

definition direct_contacts :: "string \<Rightarrow> workspace \<Rightarrow> string list" where
  "direct_contacts viewerID ws = remdups
    [cm_user_id w. c \<leftarrow> conversations (ws_rest ws), c_space_id c = DefaultSpaceID \<and> c_type c = ''direct'',
       v \<leftarrow> conversation_members (ws_rest ws), cm_conversation_id v = c_id c \<and> cm_user_id v = viewerID \<and> \<not> cm_removed v,
       w \<leftarrow> conversation_members (ws_rest ws), cm_conversation_id w = c_id c \<and> cm_user_id w \<noteq> viewerID \<and> \<not> cm_removed w \<and>
         list_ex (active_member DefaultSpaceID (cm_user_id w)) (ws_members ws)]"

definition always_visible :: "workspace \<Rightarrow> string list" where
  "always_visible ws = map mb_user_id (filter (\<lambda>m. mb_space_id m = DefaultSpaceID \<and> mb_removed_at m = None \<and> mb_user_id m \<in> set system_users) (ws_members ws))"

definition granted_ids :: "string \<Rightarrow> workspace \<Rightarrow> string list" where
  "granted_ids viewerID ws = map g_visible_user_id (filter (\<lambda>g. g_space_id g = DefaultSpaceID \<and> g_viewer_user_id g = viewerID) (member_visibility_grants (ws_rest ws)))"

definition add_new :: "string list \<Rightarrow> string list \<Rightarrow> string list" where
  "add_new xs ys = fold (\<lambda>y acc. if y \<in> set acc then acc else acc @ [y]) ys xs"

definition GetVisibilityRule :: "(string list \<Rightarrow> string list) \<Rightarrow> tx_env \<Rightarrow> string \<Rightarrow> VisibilityRule tx" where
  "GetVisibilityRule collate e viewerID =
    io_bind (tx_wrap ''list automatic member visibility'' (tx_read e (\<lambda>ws. collate (direct_contacts viewerID ws)))) (\<lambda>direct.
    io_bind (tx_wrap ''list always-visible members'' (tx_read e (\<lambda>ws. collate (always_visible ws)))) (\<lambda>always.
    io_bind (tx_wrap ''list member visibility grants'' (tx_read e (\<lambda>ws. collate (granted_ids viewerID ws)))) (\<lambda>grants.
    let automatic = add_new (add_new [] direct) always; given = filter (\<lambda>i. i \<notin> set system_users) grants in
    io_return \<lparr>vr_Basis = ''direct_contacts'', vr_ViewerUserID = viewerID, vr_AutomaticUserIDs = automatic, vr_GrantedUserIDs = given,
      vr_VisibleUserIDs = add_new [viewerID] (automatic @ given)\<rparr>)))"

section \<open>The boundary of the service\<close>

definition members_now :: "tx_env \<Rightarrow> time" where
  "members_now e = trunc_ms (if te_now e = zero_time then 0 else te_now e)"

definition members_newID :: "tx_env \<Rightarrow> string tx" where
  "members_newID e = io_bind (tx_newid e) (\<lambda>i0. let i = TrimSpace i0 in
     if i = [] then tx_fail (Foreign ''workspace member id factory returned an empty id'') else io_return i)"

definition lookupActor :: "tx_env \<Rightarrow> string \<Rightarrow> AuthActor tx" where
  "lookupActor e actorID =
    io_bind (members_LookupActor e (TrimSpace actorID)) (\<lambda>found.
      case found of
        None \<Rightarrow> tx_fail (Domain authRequiredError)
      | Some a \<Rightarrow>
          if actor_Kind a \<noteq> ''human'' then tx_fail (Domain identityForbiddenError)
          else if TrimSpace (actor_ID a) = [] \<or> TrimSpace (actor_Role a) = [] then tx_fail (Domain authRequiredError)
          else io_return a)"

definition auditFor :: "tx_env \<Rightarrow> AuthActor \<Rightarrow> RequestMeta \<Rightarrow> string \<Rightarrow> string \<Rightarrow> string \<Rightarrow> string \<Rightarrow> string \<Rightarrow> time \<Rightarrow> audit_row tx" where
  "auditFor e actor meta action targetType targetID outcome reason now =
    io_bind (tx_wrap ''generate workspace member audit id'' (members_newID e)) (\<lambda>i.
      io_return (audit_of i (audit_input (actor_ID actor) (actor_GitHubLogin actor) action targetType targetID outcome reason meta now) (trunc_ms now)))"

definition members_writeAudit :: "tx_env \<Rightarrow> AuthActor \<Rightarrow> RequestMeta \<Rightarrow> string \<Rightarrow> string \<Rightarrow> string \<Rightarrow> string \<Rightarrow> time \<Rightarrow> unit tx" where
  "members_writeAudit e actor meta action targetType targetID reason now =
    io_bind (auditFor e actor meta action targetType targetID ''success'' reason now) (\<lambda>r.
      tx_wrap ''write workspace member audit'' (members_WriteAudit e r))"

definition members_writeEvent :: "tx_env \<Rightarrow> string \<Rightarrow> AuthActor \<Rightarrow> string \<Rightarrow> json \<Rightarrow> time \<Rightarrow> unit tx" where
  "members_writeEvent e eventType actor targetID payload now =
    io_bind (tx_wrap ''generate workspace member event id'' (members_newID e)) (\<lambda>i.
      tx_wrap ''write workspace member event'' (members_event e
        \<lparr>ei_ID = i, ei_SpaceID = DefaultSpaceID, ei_Type = eventType, ei_ActorID = actor_ID actor, ei_ConversationID = [], ei_TargetType = ''user'',
         ei_TargetID = targetID, ei_PayloadJSON = json_print payload, ei_CreatedAt = now\<rparr>))"

type_synonym 'a member_op = "AuthActor \<Rightarrow> time \<Rightarrow> (rejection, 'a) result tx"

definition member_body :: "tx_env \<Rightarrow> string \<Rightarrow> RequestMeta \<Rightarrow> 'a member_op \<Rightarrow> (Error, 'a) result tx" where
  "member_body e actorID meta fn =
    io_bind (lookupActor e actorID) (\<lambda>actor. let now = members_now e in
      io_bind (fn actor now) (\<lambda>r.
      case r of
        Inr x \<Rightarrow> io_return (Inr x)
      | Inl rej \<Rightarrow>
          io_bind (auditFor e actor meta (rj_Action rej) ''member'' (rj_TargetID rej) ''rejected'' (rj_Reason rej) now) (\<lambda>row.
          io_bind (tx_wrap ''write member rejection audit'' (members_WriteAudit e row)) (\<lambda>_. io_return (Inl (rj_err rej))))))"

definition normalized :: "(go_error, 'a) result \<times> workspace \<Rightarrow> (go_error, 'a) result \<times> workspace" where
  "normalized r = (case r of (Inl err, ws) \<Rightarrow> (Inl (Domain (normalizeRepositoryError err)), ws) | (Inr x, ws) \<Rightarrow> (Inr x, ws))"

definition inTransaction :: "tx_env \<Rightarrow> string \<Rightarrow> RequestMeta \<Rightarrow> 'a member_op \<Rightarrow> workspace \<Rightarrow> (go_error, 'a) result \<times> workspace" where
  "inTransaction e actorID0 meta fn ws =
    (let actorID = TrimSpace actorID0 in
     if actorID = [] then (Inl (Domain authRequiredError), ws)
     else normalized (committed (WithTx ''begin member transaction'' ''commit member transaction'' e (member_body e actorID (Safe meta) fn) ws)))"

definition readActor :: "tx_env \<Rightarrow> string \<Rightarrow> AuthActor tx" where
  "readActor e actorID0 = (let actorID = TrimSpace actorID0 in if actorID = [] then tx_fail (Domain authRequiredError) else lookupActor e actorID)"

text \<open>A deliberate refusal, and the insufficient permission.\<close>

definition refuse :: "Error \<Rightarrow> string \<Rightarrow> string \<Rightarrow> string \<Rightarrow> (rejection, 'a) result tx" where
  "refuse err action targetID reason = io_return (Inl (rejected err action targetID reason))"

definition deny :: "string \<Rightarrow> string \<Rightarrow> (rejection, 'a) result tx" where
  "deny capability targetID = refuse permissionDeniedError capability targetID ''insufficient permission''"

section \<open>Reading\<close>

record ListOptions =
  lo_Query :: string
  lo_Q :: string
  lo_Role :: string
  lo_Kind :: string
  lo_Limit :: int

definition listed :: "(rune \<Rightarrow> rune) \<Rightarrow> ListOptions \<Rightarrow> AuthActor \<Rightarrow> MemberRecord \<Rightarrow> Member option" where
  "listed ulow o1 actor r =
    (let q0 = ToLower ulow (TrimSpace (lo_Query o1)); q = (if q0 = [] then ToLower ulow (TrimSpace (lo_Q o1)) else q0);
         role = TrimSpace (lo_Role o1); kind = TrimSpace (lo_Kind o1);
         normally = (mr_NormallyVisible r \<or> mr_ID r = actor_ID actor \<or> actor_Role actor = ''owner'');
         discovered = (RuneCountInString q \<ge> 2 \<and> mr_Kind r = ''human'' \<and> mr_SearchDiscoverable r \<and>
           (Contains (ToLower ulow (stringValue (mr_Nickname r))) q \<or> Contains (ToLower ulow (mr_GitHubLogin r)) q));
         m0 = projectMember r (Some actor);
         m = (if normally then m0 else m0\<lparr>mm_Capabilities := (mm_Capabilities m0)\<lparr>mc_CanJoinGroups := False\<rparr>\<rparr>)
     in if \<not> normally \<and> \<not> discovered then None
        else if role \<noteq> [] \<and> mm_Role m \<noteq> role \<or> kind \<noteq> [] \<and> mm_Kind m \<noteq> kind \<or> q \<noteq> [] \<and> \<not> memberContains ulow m q then None
        else Some m)"

definition list_limit :: "int \<Rightarrow> nat" where
  "list_limit n = nat (if n \<le> 0 then 200 else if n > 500 then 500 else n)"

definition Members_List :: "(MemberRecord list \<Rightarrow> MemberRecord list) \<Rightarrow> (rune \<Rightarrow> rune) \<Rightarrow> tx_env \<Rightarrow> string \<Rightarrow> ListOptions \<Rightarrow> Member list tx" where
  "Members_List by_name ulow e actorID o1 =
    io_bind (readActor e actorID) (\<lambda>actor.
    io_bind (ListMemberRecords by_name e (actor_ID actor)) (\<lambda>records.
    io_return (take (list_limit (lo_Limit o1)) (List.map_filter (listed ulow o1 actor) records))))"

section \<open>Profile, remarks and visibility\<close>

record UpdateOwnProfileInput =
  up_ActorID :: string
  up_Nickname :: "string option"
  up_NicknameSet :: bool
  up_SearchDiscoverable :: "bool option"
  up_SearchDiscoverableSet :: bool
  up_RecallReason :: "string option"
  up_RecallReasonSet :: bool
  up_Meta :: RequestMeta

text \<open>An optional label: blank clears it.\<close>

definition optional_label :: "(string \<Rightarrow> (Error, string) result) \<Rightarrow> string option \<Rightarrow> (Error, string option) result" where
  "optional_label norm1 v =
    (case v of None \<Rightarrow> Inr None
     | Some text0 \<Rightarrow> if TrimSpace text0 = [] then Inr None else result_bind (norm1 (TrimSpace text0)) (\<lambda>t. Inr (Some t)))"

definition profile_change :: "bool \<Rightarrow> string option \<Rightarrow> bool option \<Rightarrow> bool \<Rightarrow> string option \<Rightarrow> account_row \<Rightarrow> account_row" where
  "profile_change nicknameSet nickname discoverable recallSet recall u = u
    \<lparr>ac_nickname := (if nicknameSet then nickname else ac_nickname u),
     ac_search_discoverable := (case discoverable of None \<Rightarrow> ac_search_discoverable u | Some b \<Rightarrow> b),
     ac_recall_reason := (if recallSet then recall else ac_recall_reason u)\<rparr>"

definition profile_action :: "bool \<Rightarrow> bool \<Rightarrow> bool \<Rightarrow> string" where
  "profile_action n d r =
    (if n \<and> \<not> d \<and> \<not> r then ''profile.nickname_update'' else if \<not> n \<and> d \<and> \<not> r then ''profile.search_discoverable_update''
     else if \<not> n \<and> \<not> d \<and> r then ''profile.recall_reason_update'' else ''profile.update'')"

definition profile_op :: "tx_env \<Rightarrow> RequestMeta \<Rightarrow> string \<Rightarrow> (account_row \<Rightarrow> account_row) \<Rightarrow> Member member_op" where
  "profile_op e meta action change actor now =
    io_bind (PG_UpdateOwnProfile e (actor_ID actor) change) (\<lambda>_.
    io_bind (FindMemberRecord e (actor_ID actor) (actor_ID actor)) (\<lambda>found.
    case found of
      None \<Rightarrow> tx_fail (Domain authRequiredError)
    | Some r \<Rightarrow>
        io_bind (members_writeEvent e ''workspace.member_updated'' actor (actor_ID actor) (JObj [(''userId'', JStr (actor_ID actor))]) now) (\<lambda>_.
        io_bind (members_writeAudit e actor meta action ''user'' (actor_ID actor) [] now) (\<lambda>_.
        io_return (Inr (projectMember r (Some actor)))))))"

definition own_profile :: "tx_env \<Rightarrow> string \<Rightarrow> Member tx" where
  "own_profile e actorID =
    io_bind (readActor e actorID) (\<lambda>actor.
    io_bind (FindMemberRecord e (actor_ID actor) (actor_ID actor)) (\<lambda>found.
    case found of None \<Rightarrow> tx_fail (Domain authRequiredError) | Some r \<Rightarrow> io_return (projectMember r (Some actor))))"

definition UpdateOwnProfile :: "tx_env \<Rightarrow> UpdateOwnProfileInput \<Rightarrow> workspace \<Rightarrow> (go_error, Member) result \<times> workspace" where
  "UpdateOwnProfile e input ws =
    (let nSet = up_NicknameSet input \<or> up_Nickname input \<noteq> None; dSet = up_SearchDiscoverableSet input \<or> up_SearchDiscoverable input \<noteq> None;
         rSet = up_RecallReasonSet input \<or> up_RecallReason input \<noteq> None in
     case optional_label (normalizeProfileLabel nicknameInvalid) (up_Nickname input) of
       Inl err \<Rightarrow> (Inl (Domain err), ws)
     | Inr nickname \<Rightarrow>
         if dSet \<and> up_SearchDiscoverable input = None then (Inl (Domain discoverableInvalid), ws)
         else (case optional_label normalizeRecallReason (up_RecallReason input) of
             Inl err \<Rightarrow> (Inl (Domain err), ws)
           | Inr recall \<Rightarrow>
               if \<not> nSet \<and> \<not> dSet \<and> \<not> rSet then normalized (Autocommit (own_profile e (up_ActorID input)) ws)
               else inTransaction e (up_ActorID input) (up_Meta input)
                 (profile_op e (up_Meta input) (profile_action nSet dSet rSet) (profile_change nSet nickname (up_SearchDiscoverable input) rSet recall)) ws))"

definition remarkTarget :: "tx_env \<Rightarrow> AuthActor \<Rightarrow> string \<Rightarrow> MemberRecord tx" where
  "remarkTarget e actor userID =
    io_bind (FindMemberRecord e (actor_ID actor) (TrimSpace userID)) (\<lambda>found.
    case found of
      None \<Rightarrow> tx_fail (Domain memberNotFoundError)
    | Some target \<Rightarrow>
        if mr_ID target = actor_ID actor \<or> mr_Kind target \<noteq> ''human'' then tx_fail (Domain remarkUnsupported)
        else if \<not> mr_NormallyVisible target \<and> actor_Role actor \<noteq> ''owner'' then tx_fail (Domain permissionDeniedError)
        else io_return target)"

definition remark_op :: "tx_env \<Rightarrow> string \<Rightarrow> (AuthActor \<Rightarrow> string \<Rightarrow> time \<Rightarrow> unit tx) \<Rightarrow> Member member_op" where
  "remark_op e userID change actor now =
    io_bind (remarkTarget e actor userID) (\<lambda>target.
    io_bind (change actor (mr_ID target) now) (\<lambda>_.
    io_bind (FindMemberRecord e (actor_ID actor) (mr_ID target)) (\<lambda>found.
    case found of None \<Rightarrow> tx_fail (Domain memberNotFoundError) | Some r \<Rightarrow> io_return (Inr (projectMember r (Some actor))))))"

definition UpdateMemberRemark :: "tx_env \<Rightarrow> string \<Rightarrow> string \<Rightarrow> string \<Rightarrow> RequestMeta \<Rightarrow> workspace \<Rightarrow> (go_error, Member) result \<times> workspace" where
  "UpdateMemberRemark e actorID userID remark0 meta ws =
    (case normalizeProfileLabel remarkInvalid remark0 of
       Inl err \<Rightarrow> (Inl (Domain err), ws)
     | Inr remark \<Rightarrow> inTransaction e actorID meta (remark_op e userID (\<lambda>actor target now. UpsertRemark e (actor_ID actor) target remark now)) ws)"

definition RemoveMemberRemark :: "tx_env \<Rightarrow> string \<Rightarrow> string \<Rightarrow> RequestMeta \<Rightarrow> workspace \<Rightarrow> (go_error, Member) result \<times> workspace" where
  "RemoveMemberRemark e actorID userID meta ws =
    inTransaction e actorID meta (remark_op e userID (\<lambda>actor target now. DeleteRemark e (actor_ID actor) target)) ws"

definition visibility_read_op :: "(string list \<Rightarrow> string list) \<Rightarrow> tx_env \<Rightarrow> string \<Rightarrow> VisibilityRule member_op" where
  "visibility_read_op collate e viewerID actor now =
    (if \<not> hasCapability (actor_Role actor) ''member.visibility.manage'' then deny ''member.visibility.manage'' viewerID
     else io_bind (FindMemberRecord e (actor_ID actor) viewerID) (\<lambda>found.
       case found of
         None \<Rightarrow> tx_fail (Domain memberNotFoundError)
       | Some viewer \<Rightarrow> io_bind (GetVisibilityRule collate e (mr_ID viewer)) (\<lambda>rule. io_return (Inr rule))))"

definition GetVisibility :: "(string list \<Rightarrow> string list) \<Rightarrow> tx_env \<Rightarrow> string \<Rightarrow> string \<Rightarrow> RequestMeta \<Rightarrow> workspace \<Rightarrow> (go_error, VisibilityRule) result \<times> workspace" where
  "GetVisibility collate e actorID viewerUserID meta ws = inTransaction e actorID meta (visibility_read_op collate e (TrimSpace viewerUserID)) ws"

text \<open>Whether every id is an active member.\<close>

fun all_members :: "tx_env \<Rightarrow> string \<Rightarrow> string list \<Rightarrow> bool tx" where
  "all_members e actorID [] = io_return True"
| "all_members e actorID (i # is) = io_bind (FindMemberRecord e actorID i) (\<lambda>found. if found = None then io_return False else all_members e actorID is)"

definition visibility_write_op :: "(string list \<Rightarrow> string list) \<Rightarrow> tx_env \<Rightarrow> RequestMeta \<Rightarrow> string \<Rightarrow> string list \<Rightarrow> VisibilityRule member_op" where
  "visibility_write_op collate e meta viewerID visibleIDs actor now =
    (if \<not> hasCapability (actor_Role actor) ''member.visibility.manage'' then deny ''member.visibility.manage'' viewerID
     else io_bind (FindMemberRecord e (actor_ID actor) viewerID) (\<lambda>found.
       case found of
         None \<Rightarrow> tx_fail (Domain memberNotFoundError)
       | Some viewer \<Rightarrow>
           io_bind (all_members e (actor_ID actor) visibleIDs) (\<lambda>known.
           if \<not> known then refuse memberNotFoundError ''member.visibility_update'' (mr_ID viewer) ''member.not_found''
           else io_bind (ReplaceVisibilityGrants e (mr_ID viewer) visibleIDs) (\<lambda>_.
             io_bind (GetVisibilityRule collate e (mr_ID viewer)) (\<lambda>rule.
             io_bind (members_writeEvent e ''workspace.member_visibility_updated'' actor (mr_ID viewer) (JObj [(''userId'', JStr (mr_ID viewer))]) now) (\<lambda>_.
             io_bind (members_writeAudit e actor meta ''member.visibility_update'' ''member'' (mr_ID viewer) [] now) (\<lambda>_. io_return (Inr rule))))))))"

definition UpdateVisibility :: "(string list \<Rightarrow> string list) \<Rightarrow> tx_env \<Rightarrow> string \<Rightarrow> string \<Rightarrow> string list \<Rightarrow> RequestMeta \<Rightarrow> workspace \<Rightarrow> (go_error, VisibilityRule) result \<times> workspace" where
  "UpdateVisibility collate e actorID viewerUserID visibleUserIDs meta ws =
    inTransaction e actorID meta (visibility_write_op collate e meta (TrimSpace viewerUserID)
      (filterVisibleIDs (uniqueStrings visibleUserIDs) (TrimSpace viewerUserID))) ws"

section \<open>Roles and removal\<close>

text \<open>The member to manage, before the lock is taken.\<close>

definition managed_target :: "tx_env \<Rightarrow> Error \<Rightarrow> string \<Rightarrow> AuthActor \<Rightarrow> string \<Rightarrow> (MemberRecord \<Rightarrow> (rejection, 'a) result tx) \<Rightarrow> (rejection, 'a) result tx" where
  "managed_target e system action actor targetID k =
    io_bind (FindMemberRecord e (actor_ID actor) targetID) (\<lambda>found.
    case found of
      None \<Rightarrow> refuse memberNotFoundError action targetID ''member not found''
    | Some target \<Rightarrow>
        if \<not> isMemberManagedIdentity target then refuse system action (mr_ID target) ''member.system_managed'' else k target)"

text \<open>The last owner must stay: with \<open>needed\<close> the active owners are counted.\<close>

definition spare_owner :: "tx_env \<Rightarrow> bool \<Rightarrow> bool tx" where
  "spare_owner e needed = (if needed then io_bind (CountActiveOwners e) (\<lambda>n. io_return (n > 1)) else io_return True)"

text \<open>Under the lock the actor and the target are read again; then \<open>k\<close> makes the change.\<close>

definition under_lock :: "tx_env \<Rightarrow> string \<Rightarrow> string \<Rightarrow> (MemberRecord \<Rightarrow> bool) \<Rightarrow> AuthActor \<Rightarrow> string \<Rightarrow> MemberRecord \<Rightarrow>
    (AuthActor \<Rightarrow> MemberRecord \<Rightarrow> (rejection, 'a) result tx) \<Rightarrow> (rejection, 'a) result tx" where
  "under_lock e capability action drops actor0 targetID target0 k =
    io_bind (Lock e) (\<lambda>_.
    io_bind (lookupActor e (actor_ID actor0)) (\<lambda>actor.
    if \<not> hasCapability (actor_Role actor) capability then deny capability targetID
    else io_bind (FindMemberRecord e (actor_ID actor) (mr_ID target0)) (\<lambda>found.
      case found of
        None \<Rightarrow> refuse memberNotFoundError action targetID ''member not found''
      | Some target \<Rightarrow>
          io_bind (spare_owner e (mr_Role target = ''owner'' \<and> drops target)) (\<lambda>spare.
          if \<not> spare then refuse lastOwner action (mr_ID target) ''last owner'' else k actor target))))"

definition role_payload :: "MemberRecord \<Rightarrow> string \<Rightarrow> json" where
  "role_payload updated nextRole = JObj [(''member'', Member_MarshalJSON (projectMember updated None)), (''role'', JStr nextRole), (''userId'', JStr (mr_ID updated))]"

definition change_role :: "tx_env \<Rightarrow> RequestMeta \<Rightarrow> string \<Rightarrow> time \<Rightarrow> AuthActor \<Rightarrow> MemberRecord \<Rightarrow> (rejection, Member) result tx" where
  "change_role e meta nextRole now actor target =
    io_bind (PG_UpdateMemberRole e (mr_ID target) nextRole) (\<lambda>_.
    io_bind (FindMemberRecord e (actor_ID actor) (mr_ID target)) (\<lambda>found.
    case found of
      None \<Rightarrow> tx_fail (Domain memberNotFoundError)
    | Some updated \<Rightarrow>
        io_bind (members_writeAudit e actor meta ''member.role_update'' ''member'' (mr_ID target) (mr_Role target @ ''->'' @ nextRole) now) (\<lambda>_.
        io_bind (members_writeEvent e ''workspace.member_updated'' actor (mr_ID target) (role_payload updated nextRole) now) (\<lambda>_.
        io_return (Inr (projectMember updated (Some actor)))))))"

definition role_op :: "tx_env \<Rightarrow> RequestMeta \<Rightarrow> string \<Rightarrow> string \<Rightarrow> Member member_op" where
  "role_op e meta targetID role actor now =
    (if \<not> hasCapability (actor_Role actor) ''member.role_update'' then deny ''member.role_update'' targetID
     else case normalizeRole role of
       Inl err \<Rightarrow> refuse err ''member.role_update'' targetID ''role.invalid''
     | Inr nextRole \<Rightarrow>
         if targetID = actor_ID actor then refuse memberRoleInvalid ''member.role_update'' targetID ''self role update''
         else managed_target e systemManaged ''member.role_update'' actor targetID (\<lambda>target.
           under_lock e ''member.role_update'' ''member.role_update'' (\<lambda>_. nextRole \<noteq> ''owner'') actor targetID target (change_role e meta nextRole now)))"

definition UpdateMemberRole :: "tx_env \<Rightarrow> string \<Rightarrow> string \<Rightarrow> string \<Rightarrow> RequestMeta \<Rightarrow> workspace \<Rightarrow> (go_error, Member) result \<times> workspace" where
  "UpdateMemberRole e actorID userID role meta ws = inTransaction e actorID meta (role_op e meta (TrimSpace userID) role) ws"

definition remove_target :: "tx_env \<Rightarrow> RequestMeta \<Rightarrow> time \<Rightarrow> AuthActor \<Rightarrow> MemberRecord \<Rightarrow> (rejection, RemoveResult) result tx" where
  "remove_target e meta now actor target =
    io_bind (PG_RemoveMember e (mr_ID target) now) (\<lambda>removed.
    if \<not> removed then refuse memberNotFoundError ''member.remove'' (mr_ID target) ''member not found''
    else io_bind (RevokeUserConversationMemberships e (mr_ID target)) (\<lambda>_.
      io_bind (RevokeUserSessions e (mr_ID target) now) (\<lambda>_.
      io_bind (members_writeEvent e ''workspace.member_removed'' actor (mr_ID target) (JObj [(''userId'', JStr (mr_ID target))]) now) (\<lambda>_.
      io_bind (members_writeAudit e actor meta ''member.remove'' ''member'' (mr_ID target) [] now) (\<lambda>_.
      io_return (Inr \<lparr>rm_OK = True, rm_UserID = mr_ID target, rm_RemovedAt = members_formatTime now\<rparr>))))))"

definition remove_op :: "tx_env \<Rightarrow> RequestMeta \<Rightarrow> string \<Rightarrow> RemoveResult member_op" where
  "remove_op e meta targetID actor now =
    (if \<not> hasCapability (actor_Role actor) ''member.remove'' then deny ''member.remove'' targetID
     else if targetID = actor_ID actor then refuse removeInvalid ''member.remove'' targetID ''self removal''
     else managed_target e removeSystem ''member.remove'' actor targetID (\<lambda>target.
       under_lock e ''member.remove'' ''member.remove'' (\<lambda>_. True) actor targetID target (remove_target e meta now)))"

definition RemoveMember :: "tx_env \<Rightarrow> string \<Rightarrow> string \<Rightarrow> RequestMeta \<Rightarrow> workspace \<Rightarrow> (go_error, RemoveResult) result \<times> workspace" where
  "RemoveMember e actorID userID meta ws = inTransaction e actorID meta (remove_op e meta (TrimSpace userID)) ws"

end
