(* ===== verification/Members_Rules.thy ===== *)
theory Members_Rules
  imports Members
begin

text \<open>
  Properties of the member service: every operation goes forward; a space keeps an owner; who may change a
  role or remove a member, and what removal takes away; what a projected member shows.
\<close>

section \<open>The operations go forward\<close>

lemma members_WriteEvent_keeps:
  assumes "members_WriteEvent newid flt input d = Inr d'"
  shows "set (workspace_events d) \<subseteq> set (workspace_events d')"
proof -
  have res: "workspace_events d1 = workspace_events d" if "reserve_lock flt internal ops space d = Inr (s, d1)" for internal ops space s d1
    using that by (auto simp: reserve_lock_def advance_cursor_def statement_def Let_def split: option.splits sum.splits if_splits)
  show ?thesis
    using assms by (auto simp: members_WriteEvent_def result_bind_Inr_conv map_err_Inr statement_Inr insert_event_def dest!: res split: if_splits)
qed

lemma members_event_forward:
  "on_rest (\<lambda>d. result_bind (members_WriteEvent newid flt input d) (\<lambda>d1. Inr ((), d1))) v = Inr (x, v') \<Longrightarrow> forward v v'"
  by (erule on_rest_forward) (auto simp: result_bind_Inr_conv dest: members_WriteEvent_keeps)

lemma members_event_moves:
  assumes "legal forward e"
  shows "moves forward (members_event e input)"
  unfolding moves_def members_event_def
  by (intro allI movesD forward.moves_write [OF assms]) (erule members_event_forward)

lemma rest_write_moves:
  assumes "legal forward e" "\<And>d. workspace_events (f d) = workspace_events d"
  shows "moves forward (rest_write e f)"
  unfolding rest_write_def by (intro forward.moves_write assms(1)) (auto simp: assms(2))

lemma profile_change_le: "account_le u (profile_change a b c d r u)"
  by (simp add: row_le profile_change_def)

lemma profile_moves:
  assumes "legal forward e" "\<And>u. account_le u (change u)"
  shows "moves forward (PG_UpdateOwnProfile e userID change)"
proof -
  have "evolve ac_id account_le us (update_where hit change us)" for hit us
    unfolding update_where_def by (rule account_rows.evolve_map) (simp add: assms(2) account_rows.le_refl)
  then show ?thesis unfolding PG_UpdateOwnProfile_def Let_def by (intro forward.moves_rules forward.moves_write assms(1)) auto
qed

lemma insert_grants_moves: "legal forward e \<Longrightarrow> moves forward (insert_grants e viewer is)"
  by (induction "is") (auto intro!: forward.moves_return forward.moves_bind forward.moves_wrap rest_write_moves)

lemma all_members_moves: "legal forward e \<Longrightarrow> moves forward (all_members e actorID is)"
  by (induction "is") (auto intro!: forward.moves_return forward.moves_bind forward.moves_wrap forward.moves_read simp: FindMemberRecord_def)

lemma repository_moves:
  assumes "legal forward e"
  shows "moves forward (FindMemberRecord e viewer userID)" "moves forward (lookupActor e actorID)" "moves forward (Lock e)"
    "moves forward (UpsertRemark e own target remark now)" "moves forward (DeleteRemark e own target)" "moves forward (ReplaceVisibilityGrants e viewer ids)"
    "moves forward (PG_UpdateMemberRole e userID role)" "moves forward (PG_RemoveMember e userID now)" "moves forward (RevokeUserConversationMemberships e userID)"
    "moves forward (RevokeUserSessions e userID now)" "moves forward (GetVisibilityRule collate e viewer)" "moves forward (spare_owner e needed)"
    "moves forward (members_WriteAudit e r)" "moves forward (members_newID e)"
proof -
  note rules = forward.moves_rules forward.moves_write [OF assms] rest_write_moves insert_grants_moves
  show "moves forward (FindMemberRecord e viewer userID)" unfolding FindMemberRecord_def by (intro rules assms)
  show "moves forward (lookupActor e actorID)" unfolding lookupActor_def members_LookupActor_def by (intro rules assms)
  show "moves forward (Lock e)" unfolding Lock_def by (intro rules assms)
  show "moves forward (UpsertRemark e own target remark now)" unfolding UpsertRemark_def Let_def by (intro rules assms) (auto split: if_splits)
  show "moves forward (DeleteRemark e own target)" unfolding DeleteRemark_def by (intro rules assms) auto
  show "moves forward (ReplaceVisibilityGrants e viewer ids)" unfolding ReplaceVisibilityGrants_def by (intro rules assms) simp
  show "moves forward (PG_UpdateMemberRole e userID role)" unfolding PG_UpdateMemberRole_def by (intro rules assms) auto
  show "moves forward (PG_RemoveMember e userID now)" unfolding PG_RemoveMember_def by (intro rules assms) auto
  show "moves forward (RevokeUserConversationMemberships e userID)" unfolding RevokeUserConversationMemberships_def by (intro rules assms) simp
  show "moves forward (RevokeUserSessions e userID now)" unfolding RevokeUserSessions_def by (intro rules assms) (auto simp: revoke_evolves)
  show "moves forward (GetVisibilityRule collate e viewer)" unfolding GetVisibilityRule_def by (intro rules assms)
  show "moves forward (spare_owner e needed)" unfolding spare_owner_def CountActiveOwners_def by (intro rules assms)
  show "moves forward (members_WriteAudit e r)" unfolding members_WriteAudit_def by (intro rules assms) (erule forward_insert_audit)
  show "moves forward (members_newID e)" unfolding members_newID_def by (intro rules assms)
qed

lemma writers_moves:
  assumes "legal forward e"
  shows "moves forward (auditFor e actor meta action targetType targetID outcome reason now)"
    "moves forward (members_writeAudit e actor meta action targetType targetID reason now)" "moves forward (members_writeEvent e t actor targetID payload now)"
  unfolding auditFor_def members_writeAudit_def members_writeEvent_def
  by (intro forward.moves_rules repository_moves members_event_moves assms)+

lemmas member_moves = forward.moves_rules repository_moves writers_moves all_members_moves

lemma ops_moves:
  assumes "legal forward e"
  shows "(\<And>u. account_le u (change u)) \<Longrightarrow> moves forward (profile_op e meta action change actor now)"
    and "(\<And>a t n. moves forward (rchange a t n)) \<Longrightarrow> moves forward (remark_op e userID rchange actor now)"
    and "moves forward (visibility_read_op collate e viewer actor now)" "moves forward (visibility_write_op collate e meta viewer ids actor now)"
    and "moves forward (role_op e meta targetID role actor now)" "moves forward (remove_op e meta targetID actor now)"
proof -
  show "moves forward (profile_op e meta action change actor now)" if "\<And>u. account_le u (change u)"
    unfolding profile_op_def by (intro member_moves profile_moves that assms)
  show "moves forward (remark_op e userID rchange actor now)" if "\<And>a t n. moves forward (rchange a t n)"
    unfolding remark_op_def remarkTarget_def by (intro member_moves that assms)
  show "moves forward (visibility_read_op collate e viewer actor now)"
    unfolding visibility_read_op_def deny_def refuse_def by (intro member_moves assms)
  show "moves forward (visibility_write_op collate e meta viewer ids actor now)"
    unfolding visibility_write_op_def deny_def refuse_def by (intro member_moves assms)
  show "moves forward (role_op e meta targetID role actor now)"
    unfolding role_op_def managed_target_def under_lock_def change_role_def deny_def refuse_def by (intro member_moves assms)
  show "moves forward (remove_op e meta targetID actor now)"
    unfolding remove_op_def managed_target_def under_lock_def remove_target_def deny_def refuse_def by (intro member_moves assms)
qed

lemma snd_normalized [simp]: "snd (normalized r) = snd r"
  by (auto simp: normalized_def split: prod.split sum.split)

lemma inTransaction_forward:
  assumes "legal forward e" "\<And>actor now. moves forward (fn actor now)"
  shows "forward ws (snd (inTransaction e actorID meta fn ws))"
proof -
  have "moves forward (member_body e i meta1 fn)" for i meta1
    unfolding member_body_def by (intro member_moves assms)
  then show ?thesis by (simp add: inTransaction_def Let_def forward.refl forward.moves_WithTx [OF assms(1)])
qed

lemma members_forward:
  assumes "legal forward e"
  shows "forward ws (snd (UpdateOwnProfile e input ws))" "forward ws (snd (UpdateMemberRemark e actorID userID remark meta ws))"
    "forward ws (snd (RemoveMemberRemark e actorID userID meta ws))" "forward ws (snd (GetVisibility collate e actorID viewer meta ws))"
    "forward ws (snd (UpdateVisibility collate e actorID viewer ids meta ws))" "forward ws (snd (UpdateMemberRole e actorID userID role meta ws))"
    "forward ws (snd (RemoveMember e actorID userID meta ws))"
proof -
  have own: "forward ws (snd (Autocommit (own_profile e i) ws))" for i
    unfolding own_profile_def readActor_def by (intro forward.moves_Autocommit member_moves assms)
  show "forward ws (snd (UpdateOwnProfile e input ws))"
    unfolding UpdateOwnProfile_def Let_def
    by (auto simp: forward.refl own split: sum.split intro!: inTransaction_forward [OF assms] ops_moves(1) [OF assms] profile_change_le)
  show "forward ws (snd (UpdateMemberRemark e actorID userID remark meta ws))"
    unfolding UpdateMemberRemark_def
    by (auto simp: forward.refl split: sum.split intro!: inTransaction_forward [OF assms] ops_moves(2) [OF assms] repository_moves(4) [OF assms])
  show "forward ws (snd (RemoveMemberRemark e actorID userID meta ws))"
    unfolding RemoveMemberRemark_def by (intro inTransaction_forward [OF assms] ops_moves(2) [OF assms] repository_moves(5) [OF assms])
  show "forward ws (snd (GetVisibility collate e actorID viewer meta ws))"
    unfolding GetVisibility_def by (intro inTransaction_forward [OF assms] ops_moves(3) [OF assms])
  show "forward ws (snd (UpdateVisibility collate e actorID viewer ids meta ws))"
    unfolding UpdateVisibility_def by (intro inTransaction_forward [OF assms] ops_moves(4) [OF assms])
  show "forward ws (snd (UpdateMemberRole e actorID userID role meta ws))"
    unfolding UpdateMemberRole_def by (intro inTransaction_forward [OF assms] ops_moves(5) [OF assms])
  show "forward ws (snd (RemoveMember e actorID userID meta ws))"
    unfolding RemoveMember_def by (intro inTransaction_forward [OF assms] ops_moves(6) [OF assms])
qed

section \<open>A space keeps an owner\<close>

definition owner_ids :: "workspace \<Rightarrow> string set" where
  "owner_ids ws = mb_user_id ` set (active_owners DefaultSpaceID ws)"

text \<open>The key of space\_members is unique, and there is an active owner.\<close>

definition owner_ok :: "workspace \<Rightarrow> bool" where
  "owner_ok ws \<longleftrightarrow> distinct (map (\<lambda>m. (mb_space_id m, mb_user_id m)) (ws_members ws)) \<and> owner_ids ws \<noteq> {}"

text \<open>
  What other transactions do: they keep an owner too, and while the lock on the members is held by this
  transaction no other takes an owner away.
\<close>

definition owner_safe :: "tx_env \<Rightarrow> bool" where
  "owner_safe e \<longleftrightarrow> (\<forall>n ws. owner_ok ws \<longrightarrow> owner_ok (te_other e n ws) \<and> owner_ok (te_locked e n ws) \<and> owner_ids ws \<subseteq> owner_ids (te_locked e n ws))"

definition keeps_owner :: "workspace \<Rightarrow> workspace \<Rightarrow> bool" where
  "keeps_owner a b \<longleftrightarrow> (owner_ok a \<longrightarrow> owner_ok b)"

interpretation keeps_owner: effect keeps_owner
  by unfold_locales (auto simp: keeps_owner_def)

lemma owner_safe_legal: "owner_safe e \<Longrightarrow> legal keeps_owner e"
  by (simp add: owner_safe_def legal_def keeps_owner_def)

lemma owner_ids_iff: "i \<in> owner_ids ws \<longleftrightarrow> (\<exists>m \<in> set (ws_members ws). mb_user_id m = i \<and> mb_space_id m = DefaultSpaceID \<and> mb_role m = ''owner'' \<and> mb_removed_at m = None)"
  by (auto simp: owner_ids_def active_owners_def)

lemma keeps_owner_same: "ws_members b = ws_members a \<Longrightarrow> keeps_owner a b"
  by (simp add: keeps_owner_def owner_ok_def owner_ids_def active_owners_def)

lemma insert_audit_members: "insert_audit r v = Inr (x, v') \<Longrightarrow> keeps_owner v v'"
  by (rule keeps_owner_same) (auto dest: insert_audit_ok)

lemma on_rest_members: "on_rest f v = Inr (x, v') \<Longrightarrow> keeps_owner v v'"
  by (rule keeps_owner_same) (auto simp: on_rest_def result_bind_def split: sum.splits)

lemma members_event_keeps: "legal keeps_owner e \<Longrightarrow> moves keeps_owner (members_event e input)"
  unfolding moves_def members_event_def by (intro allI movesD keeps_owner.moves_write) (auto intro: on_rest_members)

lemma rest_write_keeps: "legal keeps_owner e \<Longrightarrow> moves keeps_owner (rest_write e f)"
  unfolding rest_write_def by (intro keeps_owner.moves_write) (auto intro: keeps_owner_same)

lemma repository_keeps:
  assumes "legal keeps_owner e"
  shows "moves keeps_owner (FindMemberRecord e viewer userID)" "moves keeps_owner (lookupActor e actorID)"
    "moves keeps_owner (RevokeUserConversationMemberships e userID)" "moves keeps_owner (RevokeUserSessions e userID now)"
    "moves keeps_owner (members_WriteAudit e r)" "moves keeps_owner (members_newID e)"
proof -
  note rules = keeps_owner.moves_rules keeps_owner.moves_write [OF assms] rest_write_keeps
  show "moves keeps_owner (FindMemberRecord e viewer userID)" unfolding FindMemberRecord_def by (intro rules assms)
  show "moves keeps_owner (lookupActor e actorID)" unfolding lookupActor_def members_LookupActor_def by (intro rules assms)
  show "moves keeps_owner (RevokeUserConversationMemberships e userID)" unfolding RevokeUserConversationMemberships_def by (intro rules assms)
  show "moves keeps_owner (RevokeUserSessions e userID now)" unfolding RevokeUserSessions_def by (intro rules assms) (auto intro: keeps_owner_same)
  show "moves keeps_owner (members_WriteAudit e r)" unfolding members_WriteAudit_def by (intro rules assms) (erule insert_audit_members)
  show "moves keeps_owner (members_newID e)" unfolding members_newID_def by (intro rules assms)
qed

lemma writers_keeps:
  assumes "legal keeps_owner e"
  shows "moves keeps_owner (auditFor e actor meta action targetType targetID outcome reason now)"
    "moves keeps_owner (members_writeAudit e actor meta action targetType targetID reason now)" "moves keeps_owner (members_writeEvent e t actor targetID payload now)"
  unfolding auditFor_def members_writeAudit_def members_writeEvent_def
  by (intro keeps_owner.moves_rules repository_keeps members_event_keeps assms)+

lemmas keeps_rules = keeps_owner.moves_rules repository_keeps writers_keeps

text \<open>The states of a transaction: an owner in the committed database and in the one it sees; under the lock; and with an owner other than \<open>i\<close>.\<close>

definition owned :: "txs \<Rightarrow> bool" where
  "owned s \<longleftrightarrow> owner_ok (tx_view s) \<and> owner_ok (tx_base s)"

definition owned_locked :: "txs \<Rightarrow> bool" where
  "owned_locked s \<longleftrightarrow> owned s \<and> tx_locked s"

definition another_owner :: "string \<Rightarrow> txs \<Rightarrow> bool" where
  "another_owner i s \<longleftrightarrow> owned_locked s \<and> (\<exists>o1 \<in> owner_ids (tx_view s). o1 \<noteq> i)"

lemma valid_moves:
  assumes "moves keeps_owner m"
  shows "valid owned owned m (\<lambda>_. owned)"
proof -
  have "owned (snd (m s))" if "owned s" for s using movesD [OF assms, of s] that by (simp add: owned_def keeps_owner_def)
  then show ?thesis unfolding valid_def by (metis (no_types, lifting) snd_conv old.prod.case surj_pair sum.case_eq_if)
qed

lemma others_owned: "owner_safe e \<Longrightarrow> owned s \<Longrightarrow> owned (others e s)"
  by (simp add: owned_def owner_safe_def others_def Let_def)

lemma others_locked: "owner_safe e \<Longrightarrow> owned_locked s \<Longrightarrow> owned_locked (others e s)"
  using others_owned by (simp add: owned_locked_def) (simp add: others_def Let_def)

lemma others_another: "owner_safe e \<Longrightarrow> another_owner i s \<Longrightarrow> another_owner i (others e s)"
  using others_locked [of e s] by (auto simp: another_owner_def owned_locked_def owned_def owner_safe_def others_def Let_def)

lemma locked_owned: "owned_locked s \<Longrightarrow> owned s"
  by (simp add: owned_locked_def)

lemma two_owners:
  assumes "owner_ok ws" "1 < length (active_owners DefaultSpaceID ws)"
  shows "\<exists>o1 \<in> owner_ids ws. o1 \<noteq> i"
proof (rule ccontr)
  assume none: "\<not> (\<exists>o1 \<in> owner_ids ws. o1 \<noteq> i)"
  obtain a b os where two: "active_owners DefaultSpaceID ws = a # b # os"
    using assms(2) by (auto simp: Suc_le_length_iff less_eq_Suc_le)
  have "distinct (map (\<lambda>m. (mb_space_id m, mb_user_id m)) (active_owners DefaultSpaceID ws))"
    using assms(1) unfolding owner_ok_def active_owners_def by (auto intro: distinct_map_filter)
  moreover have "mb_space_id m = DefaultSpaceID \<and> mb_user_id m = i" if "m \<in> set (active_owners DefaultSpaceID ws)" for m
    using that none unfolding owner_ids_def by (auto simp: active_owners_def)
  ultimately have "distinct [(DefaultSpaceID, i), (DefaultSpaceID, i)]"
    unfolding two by (metis (no_types, lifting) distinct.simps(2) list.set_intros list.simps(9))
  then show False by simp
qed

lemma found_role:
  assumes "owner_ok ws" "first_row (filter (\<lambda>r. mr_ID r = i) (member_records viewer ws)) = Some t" "mr_Role t \<noteq> ''owner''"
  shows "\<exists>o1 \<in> owner_ids ws. o1 \<noteq> mr_ID t"
proof -
  obtain u m where um: "(u, m) \<in> set (space_users ws)" "t = scanMemberRecord viewer ws u m"
    using first_row_filter [OF assms(2)] by (auto simp: member_records_def)
  then have m: "m \<in> set (ws_members ws)" "mb_space_id m = DefaultSpaceID" "mb_user_id m = mr_ID t" "mb_role m \<noteq> ''owner''"
    using assms(3) by (auto simp: space_users_def active_member_def scanMemberRecord_def)
  have "mr_ID t \<notin> owner_ids ws"
  proof
    assume "mr_ID t \<in> owner_ids ws"
    then obtain m' where m': "m' \<in> set (ws_members ws)" "mb_user_id m' = mr_ID t" "mb_space_id m' = DefaultSpaceID" "mb_role m' = ''owner''"
      unfolding owner_ids_iff by blast
    have "inj_on (\<lambda>m. (mb_space_id m, mb_user_id m)) (set (ws_members ws))" using assms(1) by (simp add: owner_ok_def distinct_map)
    then have "m' = m" using inj_onD [of "\<lambda>m. (mb_space_id m, mb_user_id m)" "set (ws_members ws)" m' m] m(1-3) m'(1-3) by simp
    then show False using m(4) m'(4) by simp
  qed
  then show ?thesis using assms(1) by (auto simp: owner_ok_def)
qed

text \<open>Writing one member's row keeps an owner when another remains or the row stays an owner's.\<close>

lemma update_member_keys:
  assumes "\<And>m. mb_space_id (f m) = mb_space_id m \<and> mb_user_id (f m) = mb_user_id m"
  shows "map (\<lambda>m. (mb_space_id m, mb_user_id m)) (update_where p f ms) = map (\<lambda>m. (mb_space_id m, mb_user_id m)) ms"
  by (induction ms) (auto simp: update_where_def assms)

lemma update_another:
  assumes "owner_ok ws" "o1 \<in> owner_ids ws" "o1 \<noteq> i" "\<And>m. mb_space_id (f m) = mb_space_id m \<and> mb_user_id (f m) = mb_user_id m"
  shows "owner_ok (ws\<lparr>ws_members := update_where (active_member DefaultSpaceID i) f (ws_members ws)\<rparr>)"
proof -
  obtain m where "m \<in> set (ws_members ws)" "mb_user_id m = o1" "mb_space_id m = DefaultSpaceID" "mb_role m = ''owner''" "mb_removed_at m = None"
    using assms(2) unfolding owner_ids_iff by blast
  then have "m \<in> set (update_where (active_member DefaultSpaceID i) f (ws_members ws))" "mb_user_id m = o1" "mb_space_id m = DefaultSpaceID"
    "mb_role m = ''owner''" "mb_removed_at m = None"
    using assms(3) by (auto simp: update_where_def active_member_def intro!: image_eqI [of _ _ m])
  then have "o1 \<in> owner_ids (ws\<lparr>ws_members := update_where (active_member DefaultSpaceID i) f (ws_members ws)\<rparr>)"
    unfolding owner_ids_iff by auto
  then show ?thesis using assms(1) by (auto simp: owner_ok_def update_member_keys [OF assms(4)])
qed

lemma update_to_owner:
  assumes "owner_ok ws"
  shows "owner_ok (ws\<lparr>ws_members := update_where (active_member DefaultSpaceID i) (\<lambda>m. m\<lparr>mb_role := ''owner''\<rparr>) (ws_members ws)\<rparr>)"
proof -
  obtain m where m: "m \<in> set (ws_members ws)" "mb_space_id m = DefaultSpaceID" "mb_role m = ''owner''" "mb_removed_at m = None"
    using assms unfolding owner_ok_def owner_ids_def active_owners_def by auto
  have "m \<in> set (update_where (active_member DefaultSpaceID i) (\<lambda>m. m\<lparr>mb_role := ''owner''\<rparr>) (ws_members ws))"
    using m by (auto simp: update_where_def intro!: image_eqI [of _ _ m])
  then have "mb_user_id m \<in> owner_ids (ws\<lparr>ws_members := update_where (active_member DefaultSpaceID i) (\<lambda>m. m\<lparr>mb_role := ''owner''\<rparr>) (ws_members ws)\<rparr>)"
    unfolding owner_ids_iff using m by auto
  then show ?thesis using assms by (auto simp: owner_ok_def update_member_keys)
qed

text \<open>The critical section.\<close>

lemma Lock_owned: "owner_safe e \<Longrightarrow> valid owned owned (Lock e) (\<lambda>_. owned_locked)"
  unfolding Lock_def tx_lock_def
  by (intro valid_wrap valid_bind [where Q = "\<lambda>_. owned"] valid_read)
    (auto intro: others_owned simp: valid_def owned_locked_def, auto simp: owned_def)

lemma read_locked:
  assumes "owner_safe e"
  shows "valid owned owned_locked (lookupActor e i) (\<lambda>_. owned_locked)"
  unfolding lookupActor_def members_LookupActor_def
  by (intro valid_bind [where Q = "\<lambda>_. owned_locked"] valid_wrap valid_read valid_cases valid_fail valid_return)
    (auto intro: others_locked [OF assms] locked_owned)

lemma find_locked:
  assumes "owner_safe e"
  shows "valid owned owned_locked (FindMemberRecord e viewer i)
    (\<lambda>t s. owned_locked s \<and> (case t of None \<Rightarrow> True | Some r \<Rightarrow> mr_Role r \<noteq> ''owner'' \<longrightarrow> another_owner (mr_ID r) s))"
  unfolding FindMemberRecord_def
proof (intro valid_wrap valid_read)
  show "owned (others e s)" if "owned_locked s" for s using others_locked [OF assms that] by (rule locked_owned)
  fix s assume "owned_locked s"
  then have s1: "owned_locked (others e s)" by (rule others_locked [OF assms])
  then have "owner_ok (tx_view (others e s))" by (simp add: owned_locked_def owned_def)
  then have "mr_Role r \<noteq> ''owner'' \<longrightarrow> another_owner (mr_ID r) (others e s)"
    if "first_row (filter (\<lambda>r. mr_ID r = i) (member_records viewer (tx_view (others e s)))) = Some r" for r
    using found_role [OF _ that] s1 by (auto simp: another_owner_def)
  then show "owned_locked (others e s) \<and>
    (case first_row (filter (\<lambda>r. mr_ID r = i) (member_records viewer (tx_view (others e s)))) of
       None \<Rightarrow> True | Some r \<Rightarrow> mr_Role r \<noteq> ''owner'' \<longrightarrow> another_owner (mr_ID r) (others e s))"
    using s1 by (simp del: first_row_None split: option.split)
qed

lemma spare_locked:
  assumes "owner_safe e"
  shows "valid owned (\<lambda>s. owned_locked s \<and> (mr_Role t \<noteq> ''owner'' \<longrightarrow> another_owner (mr_ID t) s)) (spare_owner e (mr_Role t = ''owner'' \<and> d))
    (\<lambda>spare s. owned_locked s \<and> (spare \<longrightarrow> d \<longrightarrow> another_owner (mr_ID t) s))"
proof (cases "mr_Role t = ''owner'' \<and> d")
  case True
  have "valid owned (\<lambda>s. owned_locked s \<and> (mr_Role t \<noteq> ''owner'' \<longrightarrow> another_owner (mr_ID t) s)) (CountActiveOwners e)
    (\<lambda>n s. owned_locked s \<and> (1 < n \<longrightarrow> another_owner (mr_ID t) s))"
    unfolding CountActiveOwners_def
  proof (intro valid_wrap valid_read)
    fix s assume "owned_locked s \<and> (mr_Role t \<noteq> ''owner'' \<longrightarrow> another_owner (mr_ID t) s)"
    then have s1: "owned_locked (others e s)" using others_locked [OF assms] by blast
    then show "owned (others e s)" by (rule locked_owned)
    show "owned_locked (others e s) \<and> (1 < length (active_owners DefaultSpaceID (tx_view (others e s))) \<longrightarrow> another_owner (mr_ID t) (others e s))"
      using s1 two_owners [of "tx_view (others e s)" "mr_ID t"] by (auto simp: another_owner_def owned_locked_def owned_def)
  qed
  then show ?thesis using True unfolding spare_owner_def by (auto intro!: valid_bind valid_return)
next
  case False
  then show ?thesis unfolding spare_owner_def by (auto intro!: valid_return)
qed

lemma change_locked:
  assumes "owner_safe e"
  shows "valid owned (\<lambda>s. owned_locked s \<and> (role \<noteq> ''owner'' \<longrightarrow> another_owner i s)) (PG_UpdateMemberRole e i role) (\<lambda>_. owned)"
    "valid owned (\<lambda>s. another_owner i s) (PG_RemoveMember e i now) (\<lambda>_. owned)"
proof -
  have up: "owned ((others e s)\<lparr>tx_view := (tx_view (others e s))\<lparr>ws_members := update_where (active_member DefaultSpaceID i) f (ws_members (tx_view (others e s)))\<rparr>\<rparr>)"
    if "another_owner i s" "\<And>m. mb_space_id (f m) = mb_space_id m \<and> mb_user_id (f m) = mb_user_id m" for s f
    using others_another [OF assms that(1)] that(2) by (auto simp: another_owner_def owned_locked_def owned_def intro: update_another)
  have to: "owned ((others e s)\<lparr>tx_view := (tx_view (others e s))\<lparr>ws_members := update_where (active_member DefaultSpaceID i) (\<lambda>m. m\<lparr>mb_role := ''owner''\<rparr>) (ws_members (tx_view (others e s)))\<rparr>\<rparr>)"
    if "owned_locked s" for s
    using others_locked [OF assms that] by (auto simp: owned_locked_def owned_def intro: update_to_owner)
  have err: "owned (others e s)" if "owned_locked s" for s using others_locked [OF assms that] by (rule locked_owned)
  show "valid owned (\<lambda>s. owned_locked s \<and> (role \<noteq> ''owner'' \<longrightarrow> another_owner i s)) (PG_UpdateMemberRole e i role) (\<lambda>_. owned)"
    unfolding PG_UpdateMemberRole_def
  proof (intro valid_bind [where Q = "\<lambda>_. owned"] valid_wrap valid_write)
    fix s x v
    assume P: "owned_locked s \<and> (role \<noteq> ''owner'' \<longrightarrow> another_owner i s)"
      and w: "Inr (length (filter (active_member DefaultSpaceID i) (ws_members (tx_view (others e s)))),
        (tx_view (others e s))\<lparr>ws_members := update_where (active_member DefaultSpaceID i) (\<lambda>m. m\<lparr>mb_role := role\<rparr>) (ws_members (tx_view (others e s)))\<rparr>) = (Inr (x, v) :: (string, _) result)"
    show "owned ((others e s)\<lparr>tx_view := v\<rparr>)"
      using w P to [of s] up [of s "\<lambda>m. m\<lparr>mb_role := role\<rparr>"] by (cases "role = ''owner''") auto
  qed (auto intro: err valid_fail valid_return)
  show "valid owned (\<lambda>s. another_owner i s) (PG_RemoveMember e i now) (\<lambda>_. owned)"
    unfolding PG_RemoveMember_def
  proof (intro valid_wrap valid_write)
    show "owned (others e s)" if "another_owner i s" for s using err that by (simp add: another_owner_def)
  qed (auto intro!: up)
qed

lemma under_lock_owned:
  assumes "owner_safe e" "\<And>a t. valid owned (\<lambda>s. owned_locked s \<and> (drops t \<longrightarrow> another_owner (mr_ID t) s)) (k a t) (\<lambda>_. owned)"
  shows "valid owned owned (under_lock e capability action drops actor targetID target0 k) (\<lambda>_. owned)"
proof -
  note [intro] = locked_owned
  have spared: "valid owned (\<lambda>s. owned_locked s \<and> (spare \<longrightarrow> drops t \<longrightarrow> another_owner (mr_ID t) s))
    (if \<not> spare then refuse lastOwner action (mr_ID t) ''last owner'' else k a t) (\<lambda>_. owned)" for spare a t
    using assms(2) [of t a] by (auto simp: refuse_def intro!: valid_return)
  have found: "valid owned (\<lambda>s. owned_locked s \<and> (mr_Role t \<noteq> ''owner'' \<longrightarrow> another_owner (mr_ID t) s))
    (io_bind (spare_owner e (mr_Role t = ''owner'' \<and> drops t)) (\<lambda>spare.
      if \<not> spare then refuse lastOwner action (mr_ID t) ''last owner'' else k a t)) (\<lambda>_. owned)" for a t
    by (rule valid_bind [OF spare_locked [OF assms(1)] spared])
  show ?thesis
    unfolding under_lock_def deny_def
    by (intro valid_bind [OF Lock_owned [OF assms(1)]] valid_bind [OF read_locked [OF assms(1)]] valid_bind [OF find_locked [OF assms(1)]]
        valid_cases valid_strengthen [OF found]) (auto simp: refuse_def intro!: valid_return)
qed

lemma managed_owned:
  assumes "owner_safe e" "\<And>t. valid owned owned (k t) (\<lambda>_. owned)"
  shows "valid owned owned (managed_target e system action actor targetID k) (\<lambda>_. owned)"
  unfolding managed_target_def refuse_def
  by (intro valid_bind [OF valid_moves [OF repository_keeps(1) [OF owner_safe_legal [OF assms(1)]]]] valid_cases assms(2) valid_return) auto

lemma ops_owned:
  assumes "owner_safe e"
  shows "valid owned owned (role_op e meta targetID role actor now) (\<lambda>_. owned)" "valid owned owned (remove_op e meta targetID actor now) (\<lambda>_. owned)"
proof -
  note legal = owner_safe_legal [OF assms]
  have change: "valid owned (\<lambda>s. owned_locked s \<and> (role1 \<noteq> ''owner'' \<longrightarrow> another_owner (mr_ID t) s)) (change_role e meta role1 now a t) (\<lambda>_. owned)" for role1 a t
    unfolding change_role_def by (rule valid_bind [OF change_locked(1) [OF assms]], rule valid_moves) (intro keeps_rules legal)
  have remove: "valid owned (\<lambda>s. owned_locked s \<and> (True \<longrightarrow> another_owner (mr_ID t) s)) (remove_target e meta now a t) (\<lambda>_. owned)" for a t
    unfolding remove_target_def refuse_def
    by (rule valid_bind [where Q = "\<lambda>_. owned"], rule valid_strengthen [OF change_locked(2) [OF assms]]) (auto intro!: valid_moves keeps_rules legal)
  show "valid owned owned (role_op e meta targetID role actor now) (\<lambda>_. owned)"
    unfolding role_op_def deny_def refuse_def
    by (intro valid_cases managed_owned [OF assms] under_lock_owned [OF assms] change valid_return)
  show "valid owned owned (remove_op e meta targetID actor now) (\<lambda>_. owned)"
    unfolding remove_op_def deny_def refuse_def
    by (intro valid_cases managed_owned [OF assms] under_lock_owned [OF assms] remove valid_return)
qed

lemma valid_outcome: "valid E P m Q \<Longrightarrow> (\<And>s. E s \<Longrightarrow> E' s) \<Longrightarrow> (\<And>x s. Q x s \<Longrightarrow> Q' x s) \<Longrightarrow> valid E' P m Q'"
  unfolding valid_def by (intro allI impI, rename_tac s, drule_tac x = s in spec) (simp split: prod.splits sum.splits)

lemma inTransaction_owned:
  assumes "owner_safe e" "owner_ok ws" "\<And>actor now. valid owned owned (fn actor now) (\<lambda>_. owned)"
  shows "owner_ok (snd (inTransaction e actorID meta fn ws))"
proof -
  note legal = owner_safe_legal [OF assms(1)]
  have body: "valid owned owned (member_body e i meta1 fn) (\<lambda>_. owned)" for i meta1
    unfolding member_body_def Let_def
    by (rule valid_bind [OF valid_moves [OF repository_keeps(2) [OF legal]]], rule valid_bind [OF assms(3)], rule valid_moves)
      (intro keeps_rules legal)
  have "valid owned owned (io_bind (tx_guard e a) (\<lambda>_. io_bind (member_body e i meta1 fn) (\<lambda>x. io_bind (tx_guard e b) (\<lambda>_. io_return x)))) (\<lambda>_. owned)" for a b i meta1
    by (intro valid_bind [OF _ valid_bind [OF body]] valid_moves keeps_owner.moves_bind keeps_owner.moves_return keeps_owner.moves_guard legal)
  then have "valid (\<lambda>s. owner_ok (tx_base s)) owned (io_bind (tx_guard e a) (\<lambda>_. io_bind (member_body e i meta1 fn) (\<lambda>x. io_bind (tx_guard e b) (\<lambda>_. io_return x)))) (\<lambda>_ s. owner_ok (tx_view s))" for a b i meta1
    by (rule valid_outcome) (simp_all add: owned_def)
  from valid_Autocommit [OF this] show ?thesis using assms(2) by (simp add: inTransaction_def Let_def WithTx_def owned_def)
qed

text \<open>
  C4 (invariant). A space that has an active owner keeps one through every change of a role and
  every removal, whatever the outcome, also when other transactions commit between the
  statements: those keep an owner, and take none away while the advisory lock is held.
\<close>

theorem owner_remains:
  assumes "owner_safe e" "owner_ok ws"
  shows "owner_ok (snd (UpdateMemberRole e actorID userID role meta ws)) \<and> owner_ok (snd (RemoveMember e actorID userID meta ws))"
  unfolding UpdateMemberRole_def RemoveMember_def using assms by (intro conjI inTransaction_owned ops_owned)

text \<open>A space with two owners, one of which a removal takes away.\<close>

definition second_user :: account_row where
  "second_user = demo_user\<lparr>ac_id := ''u2'', ac_github_login := ''bob'', ac_nickname := Some ''Bob''\<rparr>"

definition team_ws :: workspace where
  "team_ws = empty_ws\<lparr>ws_users := [demo_user, second_user], ws_members := [demo_member, demo_member\<lparr>mb_user_id := ''u2''\<rparr>]\<rparr>"

abbreviation team_env :: tx_env where
  "team_env \<equiv> demo_env 0 (\<lambda>n. ''id'' @ replicate n (CHR ''x''))"

theorem owner_remains_witness:
  "owner_safe team_env \<and> owner_ok team_ws \<and> is_ok (fst (RemoveMember team_env ''u1'' ''u2'' no_meta team_ws)) \<and>
   owner_ok (snd (RemoveMember team_env ''u1'' ''u2'' no_meta team_ws))"
proof -
  have "owner_safe team_env" by (simp add: owner_safe_def)
  moreover have "owner_ok team_ws" by (simp add: owner_ok_def owner_ids_def active_owners_def team_ws_def demo_member_def DefaultSpaceID_def)
  moreover have "is_ok (fst (RemoveMember team_env ''u1'' ''u2'' no_meta team_ws))" by code_simp
  ultimately show ?thesis using owner_remains [of team_env team_ws "''u1''" "''u2''" "''member''" no_meta] by simp
qed

section \<open>Who may manage members\<close>

text \<open>The users, memberships, sessions and conversation memberships of two databases agree.\<close>

definition same_access :: "workspace \<Rightarrow> workspace \<Rightarrow> bool" where
  "same_access a b \<longleftrightarrow> ws_users b = ws_users a \<and> ws_members b = ws_members a \<and> ws_sessions b = ws_sessions a \<and>
     conversation_members (ws_rest b) = conversation_members (ws_rest a)"

interpretation same_access: effect same_access
  by unfold_locales (auto simp: same_access_def)

lemma quiet_same: "quiet e \<Longrightarrow> legal same_access e"
  by (simp add: legal_def same_access.refl)

lemma members_WriteEvent_same:
  assumes "members_WriteEvent newid flt input d = Inr d'"
  shows "conversation_members d' = conversation_members d"
proof -
  have res: "conversation_members d1 = conversation_members d" if "reserve_lock flt internal ops space d = Inr (s, d1)" for internal ops space s d1
    using that by (auto simp: reserve_lock_def advance_cursor_def statement_def Let_def split: option.splits sum.splits if_splits)
  show ?thesis
    using assms by (auto simp: members_WriteEvent_def result_bind_Inr_conv map_err_Inr statement_Inr insert_event_def dest!: res split: if_splits)
qed

lemma members_event_same:
  assumes "quiet e"
  shows "moves same_access (members_event e input)"
  unfolding moves_def members_event_def
  by (intro allI movesD same_access.moves_write quiet_same assms)
    (auto simp: on_rest_def same_access_def result_bind_Inr_conv dest: members_WriteEvent_same)

lemma writers_same:
  assumes "quiet e"
  shows "moves same_access (members_writeAudit e actor meta action targetType targetID reason now)"
    "moves same_access (members_writeEvent e t actor targetID payload now)"
    "moves same_access (FindMemberRecord e viewer i)" "moves same_access (tx_guard e op)"
proof -
  note rules = same_access.moves_rules quiet_same [OF assms]
  have audit: "moves same_access (members_WriteAudit e r)" for r
    unfolding members_WriteAudit_def by (intro rules same_access.moves_write) (auto simp: same_access_def dest: insert_audit_ok)
  have newID: "moves same_access (members_newID e)" unfolding members_newID_def by (intro rules)
  show "moves same_access (members_writeAudit e actor meta action targetType targetID reason now)"
    unfolding members_writeAudit_def auditFor_def by (intro rules audit newID)
  show "moves same_access (members_writeEvent e t actor targetID payload now)"
    unfolding members_writeEvent_def by (intro rules newID members_event_same assms)
  show "moves same_access (FindMemberRecord e viewer i)" unfolding FindMemberRecord_def by (intro rules)
  show "moves same_access (tx_guard e op)" unfolding tx_guard_def by (intro rules)
qed

lemma same_step: "moves same_access m \<Longrightarrow> m s = (r, s1) \<Longrightarrow> same_access (tx_view s) (tx_view s1)"
  by (drule movesD [of same_access m s]) simp

lemmas same_bind = same_step [OF same_access.moves_bind]

lemma lookup_step:
  assumes "quiet e" "lookupActor e i s = (Inr a, s1)"
  shows "tx_view s1 = tx_view s \<and> (\<exists>(u, m) \<in> set (space_users (tx_view s)). a = scanActor u m \<and> ac_id u = TrimSpace i \<and> ac_kind u = ''human'')"
proof -
  obtain r s0 where r: "members_LookupActor e (TrimSpace i) s = (Inr r, s0)"
    and k: "(case r of None \<Rightarrow> tx_fail (Domain authRequiredError)
      | Some a \<Rightarrow> if actor_Kind a \<noteq> ''human'' then tx_fail (Domain identityForbiddenError)
          else if TrimSpace (actor_ID a) = [] \<or> TrimSpace (actor_Role a) = [] then tx_fail (Domain authRequiredError) else io_return a) s0 = (Inr a, s1)"
    using assms(2) unfolding lookupActor_def tx_ok by blast
  have v: "tx_view s0 = tx_view s" "r = first_row [scanActor u m. (u, m) \<leftarrow> space_users (tx_view s), ac_id u = TrimSpace i]"
    using tx_read_view [OF assms(1) r [unfolded members_LookupActor_def tx_ok]] by simp_all
  have a: "r = Some a" "s1 = s0" "actor_Kind a = ''human''" using k by (auto simp: tx_ok split: option.splits if_splits)
  have "a \<in> set [scanActor u m. (u, m) \<leftarrow> space_users (tx_view s), ac_id u = TrimSpace i]"
    by (rule first_row_in [OF trans [OF sym [OF v(2)] a(1)]])
  then show ?thesis using a(2,3) v(1) by auto
qed

lemma inTransaction_step:
  assumes "quiet e" "inTransaction e actorID meta fn ws = (Inr x, ws')"
  shows "\<exists>u m s s1. (u, m) \<in> set (space_users ws) \<and> ac_id u = TrimSpace actorID \<and> tx_view s = ws \<and>
    fn (scanActor u m) (members_now e) s = (Inr (Inr x), s1) \<and> ws' = tx_view s1"
proof -
  let ?body = "member_body e (TrimSpace actorID) (Safe meta) fn"
  have "committed (WithTx ''begin member transaction'' ''commit member transaction'' e ?body ws) = (Inr x, ws')"
    using assms(2) by (auto simp: inTransaction_def Let_def normalized_def split: if_splits prod.splits sum.splits)
  then have "WithTx ''begin member transaction'' ''commit member transaction'' e ?body ws = (Inr (Inr x), ws')"
    by (auto simp: committed_def split: prod.splits sum.splits)
  then obtain s0 s1 s2 where b: "tx_guard e ''begin member transaction'' (tx_start ws) = (Inr (), s0)" "?body s0 = (Inr (Inr x), s1)"
    "tx_guard e ''commit member transaction'' s1 = (Inr (), s2)" "ws' = tx_view s2"
    unfolding WithTx_def Autocommit_ok tx_ok by auto
  have v: "tx_view s0 = ws" "ws' = tx_view s1" using b tx_guard_view [OF assms(1)] by force+
  obtain a sa r sb where a: "lookupActor e (TrimSpace actorID) s0 = (Inr a, sa)" and f: "fn a (members_now e) sa = (Inr r, sb)"
    and k: "(case r of Inr x \<Rightarrow> io_return (Inr x) | Inl rej \<Rightarrow>
          io_bind (auditFor e a (Safe meta) (rj_Action rej) ''member'' (rj_TargetID rej) ''rejected'' (rj_Reason rej) (members_now e)) (\<lambda>row.
          io_bind (tx_wrap ''write member rejection audit'' (members_WriteAudit e row)) (\<lambda>_. io_return (Inl (rj_err rej))))) sb = (Inr (Inr x), s1)"
    using b(2) unfolding member_body_def Let_def tx_ok by blast
  have "r = Inr x \<and> s1 = sb" using k by (cases r) (auto simp: tx_ok)
  moreover obtain u m where "(u, m) \<in> set (space_users ws)" "a = scanActor u m" "ac_id u = TrimSpace actorID" "tx_view sa = ws"
    using lookup_step [OF assms(1) a] v(1) by (auto simp: TrimSpace_idem)
  ultimately show ?thesis using f v(2) by blast
qed

lemma managed_step:
  assumes "quiet e" "managed_target e system action actor i k s = (Inr (Inr x), s1)"
  shows "\<exists>t s0. tx_view s0 = tx_view s \<and> mr_ID t = i \<and> k t s0 = (Inr (Inr x), s1)"
proof -
  obtain r s0 where r: "FindMemberRecord e (actor_ID actor) i s = (Inr r, s0)"
    and k: "(case r of None \<Rightarrow> refuse memberNotFoundError action i ''member not found''
      | Some target \<Rightarrow> if \<not> isMemberManagedIdentity target then refuse system action (mr_ID target) ''member.system_managed'' else k target) s0 = (Inr (Inr x), s1)"
    using assms(2) unfolding managed_target_def tx_ok by blast
  have v: "r = first_row (filter (\<lambda>r. mr_ID r = i) (member_records (actor_ID actor) (tx_view s))) \<and> tx_view s0 = tx_view s"
    using tx_read_view [OF assms(1) r [unfolded FindMemberRecord_def tx_ok]] by simp
  obtain t where t: "r = Some t" "k t s0 = (Inr (Inr x), s1)"
    using k by (auto simp: refuse_def tx_ok split: option.splits if_splits)
  then show ?thesis using first_row_filter [of "\<lambda>r. mr_ID r = i" _ t] v by auto
qed

lemma under_lock_step:
  assumes "quiet e" "under_lock e capability action drops actor targetID target0 k s = (Inr (Inr x), s1)"
  shows "\<exists>u m t s0. (u, m) \<in> set (space_users (tx_view s)) \<and> ac_id u = TrimSpace (actor_ID actor) \<and> hasCapability (mb_role m) capability \<and>
    mr_ID t = mr_ID target0 \<and> tx_view s0 = tx_view s \<and> k (scanActor u m) t s0 = (Inr (Inr x), s1)"
proof -
  obtain y sl a sa where l: "Lock e s = (Inr y, sl)" and a: "lookupActor e (actor_ID actor) sl = (Inr a, sa)"
    and k1: "(if \<not> hasCapability (actor_Role a) capability then deny capability targetID
      else io_bind (FindMemberRecord e (actor_ID a) (mr_ID target0)) (\<lambda>found. case found of
          None \<Rightarrow> refuse memberNotFoundError action targetID ''member not found''
        | Some target \<Rightarrow> io_bind (spare_owner e (mr_Role target = ''owner'' \<and> drops target)) (\<lambda>spare.
            if \<not> spare then refuse lastOwner action (mr_ID target) ''last owner'' else k a target))) sa = (Inr (Inr x), s1)"
    using assms(2) unfolding under_lock_def tx_ok by blast
  have vl: "tx_view sl = tx_view s" using tx_lock_view [OF assms(1) l [unfolded Lock_def tx_ok]] .
  have cap: "hasCapability (actor_Role a) capability" using k1 by (auto simp: deny_def refuse_def tx_ok split: if_splits)
  then obtain r sf where r: "FindMemberRecord e (actor_ID a) (mr_ID target0) sa = (Inr r, sf)"
    and k2: "(case r of None \<Rightarrow> refuse memberNotFoundError action targetID ''member not found''
        | Some target \<Rightarrow> io_bind (spare_owner e (mr_Role target = ''owner'' \<and> drops target)) (\<lambda>spare.
            if \<not> spare then refuse lastOwner action (mr_ID target) ''last owner'' else k a target)) sf = (Inr (Inr x), s1)"
    using k1 by (simp add: tx_ok) blast
  have vf: "r = first_row (filter (\<lambda>r. mr_ID r = mr_ID target0) (member_records (actor_ID a) (tx_view sa))) \<and> tx_view sf = tx_view sa"
    using tx_read_view [OF assms(1) r [unfolded FindMemberRecord_def tx_ok]] by simp
  obtain t where t: "r = Some t" using k2 by (cases r) (auto simp: refuse_def tx_ok)
  then obtain spare ss where sp: "spare_owner e (mr_Role t = ''owner'' \<and> drops t) sf = (Inr spare, ss)"
    and k3: "(if \<not> spare then refuse lastOwner action (mr_ID t) ''last owner'' else k a t) ss = (Inr (Inr x), s1)"
    using k2 by (simp add: tx_ok) blast
  have "tx_view ss = tx_view sf"
    using sp by (auto simp: spare_owner_def CountActiveOwners_def tx_ok dest: tx_read_view [OF assms(1)] split: if_splits)
  moreover have "k a t ss = (Inr (Inr x), s1)" using k3 by (auto simp: refuse_def tx_ok split: if_splits)
  moreover have "mr_ID t = mr_ID target0" using vf t first_row_filter [of "\<lambda>r. mr_ID r = mr_ID target0" _ t] by auto
  moreover obtain u m where "(u, m) \<in> set (space_users (tx_view s))" "a = scanActor u m" "ac_id u = TrimSpace (actor_ID actor)" "tx_view sa = tx_view s"
    using lookup_step [OF assms(1) a] vl by auto
  ultimately show ?thesis using vf cap by (intro exI [of _ u] exI [of _ m] exI [of _ t] exI [of _ ss]) simp
qed

text \<open>The caller is an active member of the space who holds the capability of an owner.\<close>

definition owner_caller :: "string \<Rightarrow> workspace \<Rightarrow> bool" where
  "owner_caller actorID ws \<longleftrightarrow> (\<exists>(u, m) \<in> set (space_users ws). ac_id u = TrimSpace actorID \<and> TrimSpace (mb_role m) = ''owner'')"

lemma owner_capability: "capability \<in> {''member.role_update'', ''member.remove''} \<Longrightarrow> hasCapability role capability \<Longrightarrow> TrimSpace role = ''owner''"
  by (auto simp: hasCapability_def Let_def split: if_splits)

lemma bindE:
  assumes "io_bind m f s = (Inr y, s2)"
  obtains x s1 where "m s = (Inr x, s1)" "f x s1 = (Inr y, s2)"
  using assms unfolding io_bind_ok by blast

lemma change_role_step:
  assumes "quiet e" "change_role e meta nextRole now a t s = (Inr (Inr x), s1)"
  shows "same_access ((tx_view s)\<lparr>ws_members := update_where (active_member DefaultSpaceID (mr_ID t)) (\<lambda>m. m\<lparr>mb_role := nextRole\<rparr>) (ws_members (tx_view s))\<rparr>) (tx_view s1)"
proof -
  obtain y s0 where w: "PG_UpdateMemberRole e (mr_ID t) nextRole s = (Inr y, s0)"
    and k: "io_bind (FindMemberRecord e (actor_ID a) (mr_ID t)) (\<lambda>found. case found of
        None \<Rightarrow> tx_fail (Domain memberNotFoundError)
      | Some updated \<Rightarrow>
          io_bind (members_writeAudit e a meta ''member.role_update'' ''member'' (mr_ID t) (mr_Role t @ ''->'' @ nextRole) now) (\<lambda>_.
          io_bind (members_writeEvent e ''workspace.member_updated'' a (mr_ID t) (role_payload updated nextRole) now) (\<lambda>_.
          io_return (Inr (projectMember updated (Some a)))))) s0 = (Inr (Inr x :: (rejection, Member) result), s1)"
    by (rule bindE [OF assms(2) [unfolded change_role_def]]) (rule that)
  have "tx_view s0 = (tx_view s)\<lparr>ws_members := update_where (active_member DefaultSpaceID (mr_ID t)) (\<lambda>m. m\<lparr>mb_role := nextRole\<rparr>) (ws_members (tx_view s))\<rparr>"
    using w by (auto simp: PG_UpdateMemberRole_def tx_ok dest!: tx_write_view [OF assms(1)] split: if_splits)
  moreover have "same_access (tx_view s0) (tx_view s1)"
    by (rule same_bind [OF _ _ k]) (intro same_access.moves_rules writers_same assms(1))+
  ultimately show ?thesis by simp
qed

text \<open>
  C31 (members/service.go: UpdateMemberRole). A change of a role that succeeds was asked for by an
  active owner, for another member of the space, with one of the four roles; it writes that role
  to the active membership of that member and leaves every other membership, the accounts and the
  sessions as they were.
\<close>

theorem role_change_authority:
  assumes "quiet e" "UpdateMemberRole e actorID userID role meta ws = (Inr m, ws')"
  shows "owner_caller actorID ws \<and> TrimSpace userID \<noteq> TrimSpace actorID \<and> TrimSpace role \<in> {''owner'', ''admin'', ''member'', ''auditor''} \<and>
    ws_members ws' = update_where (active_member DefaultSpaceID (TrimSpace userID)) (\<lambda>m. m\<lparr>mb_role := TrimSpace role\<rparr>) (ws_members ws) \<and>
    ws_users ws' = ws_users ws \<and> ws_sessions ws' = ws_sessions ws"
proof -
  let ?i = "TrimSpace userID"
  obtain u m0 s s1 where um: "(u, m0) \<in> set (space_users ws)" "ac_id u = TrimSpace actorID" and v: "tx_view s = ws" "ws' = tx_view s1"
    and op: "role_op e meta ?i role (scanActor u m0) (members_now e) s = (Inr (Inr m), s1)"
    using inTransaction_step [OF assms(1) assms(2) [unfolded UpdateMemberRole_def]] by blast
  obtain r where cap: "hasCapability (mb_role m0) ''member.role_update''" and r: "normalizeRole role = Inr r" and ne: "?i \<noteq> ac_id u"
    and k: "managed_target e systemManaged ''member.role_update'' (scanActor u m0) ?i (\<lambda>target.
      under_lock e ''member.role_update'' ''member.role_update'' (\<lambda>_. r \<noteq> ''owner'') (scanActor u m0) ?i target (change_role e meta r (members_now e))) s = (Inr (Inr m), s1)"
    using op by (auto simp: role_op_def deny_def refuse_def tx_ok split: if_splits sum.splits)
  obtain t s2 where t: "mr_ID t = ?i" "tx_view s2 = ws"
    and k2: "under_lock e ''member.role_update'' ''member.role_update'' (\<lambda>_. r \<noteq> ''owner'') (scanActor u m0) ?i t (change_role e meta r (members_now e)) s2 = (Inr (Inr m), s1)"
    using managed_step [OF assms(1) k] v by auto
  obtain a t2 s3 where t2: "mr_ID t2 = ?i" "tx_view s3 = ws" and k3: "change_role e meta r (members_now e) a t2 s3 = (Inr (Inr m), s1)"
    using under_lock_step [OF assms(1) k2] t by auto
  have "owner_caller actorID ws" using um owner_capability [OF _ cap] unfolding owner_caller_def by auto
  then show ?thesis
    using change_role_step [OF assms(1) k3] r ne t2 v um by (auto simp: same_access_def normalizeRole_def Let_def split: if_splits)
qed

lemma remove_target_step:
  assumes "quiet e" "remove_target e meta now a t s = (Inr (Inr x), s1)"
  shows "rm_UserID x = mr_ID t \<and> same_access ((tx_view s)
    \<lparr>ws_members := update_where (active_member DefaultSpaceID (mr_ID t)) (\<lambda>m. m\<lparr>mb_removed_at := Some (trunc_ms now)\<rparr>) (ws_members (tx_view s)),
     ws_sessions := update_where (\<lambda>s. se_user_id s = mr_ID t \<and> se_revoked_at s = None) (\<lambda>s. s\<lparr>se_revoked_at := Some (trunc_ms now)\<rparr>) (ws_sessions (tx_view s)),
     ws_rest := (ws_rest (tx_view s))\<lparr>conversation_members :=
       update_where (\<lambda>cm. cm_user_id cm = mr_ID t) (\<lambda>cm. cm\<lparr>cm_removed := True\<rparr>) (conversation_members (ws_rest (tx_view s)))\<rparr>\<rparr>) (tx_view s1)"
proof -
  obtain gone s0 where w: "PG_RemoveMember e (mr_ID t) now s = (Inr gone, s0)"
    and k: "(if \<not> gone then refuse memberNotFoundError ''member.remove'' (mr_ID t) ''member not found''
      else io_bind (RevokeUserConversationMemberships e (mr_ID t)) (\<lambda>_.
        io_bind (RevokeUserSessions e (mr_ID t) now) (\<lambda>_.
        io_bind (members_writeEvent e ''workspace.member_removed'' a (mr_ID t) (JObj [(''userId'', JStr (mr_ID t))]) now) (\<lambda>_.
        io_bind (members_writeAudit e a meta ''member.remove'' ''member'' (mr_ID t) [] now) (\<lambda>_.
        io_return (Inr \<lparr>rm_OK = True, rm_UserID = mr_ID t, rm_RemovedAt = members_formatTime now\<rparr>)))))) s0 = (Inr (Inr x), s1)"
    by (rule bindE [OF assms(2) [unfolded remove_target_def]]) (rule that)
  have gone: "gone" using k by (auto simp: refuse_def tx_ok split: if_splits)
  obtain c1 s2 c2 s3 where w2: "RevokeUserConversationMemberships e (mr_ID t) s0 = (Inr c1, s2)" and w3: "RevokeUserSessions e (mr_ID t) now s2 = (Inr c2, s3)"
    and k2: "io_bind (members_writeEvent e ''workspace.member_removed'' a (mr_ID t) (JObj [(''userId'', JStr (mr_ID t))]) now) (\<lambda>_.
        io_bind (members_writeAudit e a meta ''member.remove'' ''member'' (mr_ID t) [] now) (\<lambda>_.
        io_return (Inr \<lparr>rm_OK = True, rm_UserID = mr_ID t, rm_RemovedAt = members_formatTime now\<rparr>))) s3 = (Inr (Inr x :: (rejection, RemoveResult) result), s1)"
    by (rule bindE [OF k [simplified gone not_True_eq_False if_False]], erule bindE) (rule that)
  have v1: "tx_view s0 = (tx_view s)\<lparr>ws_members := update_where (active_member DefaultSpaceID (mr_ID t)) (\<lambda>m. m\<lparr>mb_removed_at := Some (trunc_ms now)\<rparr>) (ws_members (tx_view s))\<rparr>"
    using w by (auto simp: PG_RemoveMember_def tx_ok dest!: tx_write_view [OF assms(1)])
  have v2: "tx_view s2 = (tx_view s0)\<lparr>ws_rest := (ws_rest (tx_view s0))\<lparr>conversation_members :=
       update_where (\<lambda>cm. cm_user_id cm = mr_ID t) (\<lambda>cm. cm\<lparr>cm_removed := True\<rparr>) (conversation_members (ws_rest (tx_view s0)))\<rparr>\<rparr>"
    using w2 by (auto simp: RevokeUserConversationMemberships_def rest_write_def tx_ok dest!: tx_write_view [OF assms(1)])
  have v3: "tx_view s3 = (tx_view s2)\<lparr>ws_sessions :=
       update_where (\<lambda>s. se_user_id s = mr_ID t \<and> se_revoked_at s = None) (\<lambda>s. s\<lparr>se_revoked_at := Some (trunc_ms now)\<rparr>) (ws_sessions (tx_view s2))\<rparr>"
    using w3 by (auto simp: RevokeUserSessions_def tx_ok dest!: tx_write_view [OF assms(1)])
  have "rm_UserID x = mr_ID t" using k2 by (auto simp: tx_ok)
  moreover have "tx_view s3 = (tx_view s)
    \<lparr>ws_members := update_where (active_member DefaultSpaceID (mr_ID t)) (\<lambda>m. m\<lparr>mb_removed_at := Some (trunc_ms now)\<rparr>) (ws_members (tx_view s)),
     ws_sessions := update_where (\<lambda>s. se_user_id s = mr_ID t \<and> se_revoked_at s = None) (\<lambda>s. s\<lparr>se_revoked_at := Some (trunc_ms now)\<rparr>) (ws_sessions (tx_view s)),
     ws_rest := (ws_rest (tx_view s))\<lparr>conversation_members :=
       update_where (\<lambda>cm. cm_user_id cm = mr_ID t) (\<lambda>cm. cm\<lparr>cm_removed := True\<rparr>) (conversation_members (ws_rest (tx_view s)))\<rparr>\<rparr>"
    by (simp add: v1 v2 v3)
  moreover have "same_access (tx_view s3) (tx_view s1)"
    by (rule same_bind [OF _ _ k2]) (intro same_access.moves_rules writers_same assms(1))+
  ultimately show ?thesis by simp
qed

text \<open>No active membership, no live session and no conversation is left to the user.\<close>

definition locked_out :: "string \<Rightarrow> workspace \<Rightarrow> bool" where
  "locked_out i ws \<longleftrightarrow> (\<forall>m \<in> set (ws_members ws). \<not> active_member DefaultSpaceID i m) \<and>
     (\<forall>s \<in> set (ws_sessions ws). se_user_id s = i \<longrightarrow> se_revoked_at s \<noteq> None) \<and>
     (\<forall>cm \<in> set (conversation_members (ws_rest ws)). cm_user_id cm = i \<longrightarrow> cm_removed cm)"

lemma RemoveMember_step:
  assumes "quiet e" "RemoveMember e actorID userID meta ws = (Inr r, ws')"
  shows "owner_caller actorID ws \<and> TrimSpace userID \<noteq> TrimSpace actorID \<and> rm_UserID r = TrimSpace userID \<and> locked_out (TrimSpace userID) ws' \<and> ws_users ws' = ws_users ws"
proof -
  let ?i = "TrimSpace userID"
  obtain u m0 s s1 where um: "(u, m0) \<in> set (space_users ws)" "ac_id u = TrimSpace actorID" and v: "tx_view s = ws" "ws' = tx_view s1"
    and op: "remove_op e meta ?i (scanActor u m0) (members_now e) s = (Inr (Inr r), s1)"
    using inTransaction_step [OF assms(1) assms(2) [unfolded RemoveMember_def]] by blast
  have cap: "hasCapability (mb_role m0) ''member.remove''" and ne: "?i \<noteq> ac_id u"
    and k: "managed_target e removeSystem ''member.remove'' (scanActor u m0) ?i (\<lambda>target.
      under_lock e ''member.remove'' ''member.remove'' (\<lambda>_. True) (scanActor u m0) ?i target (remove_target e meta (members_now e))) s = (Inr (Inr r), s1)"
    using op by (auto simp: remove_op_def deny_def refuse_def tx_ok split: if_splits)
  obtain t s2 where t: "mr_ID t = ?i" "tx_view s2 = ws"
    and k2: "under_lock e ''member.remove'' ''member.remove'' (\<lambda>_. True) (scanActor u m0) ?i t (remove_target e meta (members_now e)) s2 = (Inr (Inr r), s1)"
    using managed_step [OF assms(1) k] v by auto
  obtain a t2 s3 where t2: "mr_ID t2 = ?i" "tx_view s3 = ws" and k3: "remove_target e meta (members_now e) a t2 s3 = (Inr (Inr r), s1)"
    using under_lock_step [OF assms(1) k2] t by auto
  have "owner_caller actorID ws" using um owner_capability [OF _ cap] unfolding owner_caller_def by auto
  moreover have "locked_out ?i ws'"
    using remove_target_step [OF assms(1) k3] t2 v unfolding locked_out_def same_access_def by (auto simp: update_where_def active_member_def)
  ultimately show ?thesis using remove_target_step [OF assms(1) k3] ne t2 v um by (auto simp: same_access_def)
qed

text \<open>
  C7 (members/service.go: RemoveMember; members/pg\_repository.go: RemoveMember, RevokeUserSessions). A removal that
  succeeds was asked for by an active owner and takes another member out: afterwards no session
  token and no mobile token resolves to the removed user, the event replay does not find the user
  as an actor, every session of the user is revoked and every conversation left.
\<close>

theorem removed_member_locked_out:
  assumes "quiet e" "RemoveMember e actorID userID meta ws = (Inr r, ws')" "quiet e2" "i = TrimSpace userID"
  shows "owner_caller actorID ws \<and> i \<noteq> TrimSpace actorID \<and> rm_UserID r = i \<and> locked_out i ws' \<and> actor_row DefaultSpaceID i (as_db ws') = None \<and>
    (fst (Autocommit (ResolveActor e2 token) ws') = Inr a \<or> fst (Autocommit (Resolve e2 h now) ws') = Inr a \<longrightarrow> actor_ID a \<noteq> i)"
proof (intro conjI impI)
  note step = RemoveMember_step [OF assms(1,2), folded assms(4)]
  show "owner_caller actorID ws" "i \<noteq> TrimSpace actorID" "rm_UserID r = i" "locked_out i ws'" using step by blast+
  then have none: "\<forall>m \<in> set (ws_members ws'). \<not> active_member DefaultSpaceID i m" unfolding locked_out_def by blast
  then have "[(u, sm). u \<leftarrow> users (as_db ws'), u_id u = i, sm \<leftarrow> space_members (as_db ws'), sm_user_id sm = u_id u \<and> sm_space_id sm = DefaultSpaceID \<and> \<not> sm_removed sm] = []"
    by (fastforce simp: as_db_def active_member_def)
  then show "actor_row DefaultSpaceID i (as_db ws') = None" unfolding actor_row_def by (simp only: list.case)
  assume ok: "fst (Autocommit (ResolveActor e2 token) ws') = Inr a \<or> fst (Autocommit (Resolve e2 h now) ws') = Inr a"
  have "a \<in> set (session_actors (HashSecret token) (normalizedNow e2) ws') \<or> a \<in> set (mobile_actors h now ws')"
    using ok Resolve_run [of e2 h now ws' a] assms(3) by (auto simp: ResolveActor_run split: if_splits option.splits list.splits)
  then obtain u m where "(u, m) \<in> set (human_members ws')" "a = scanActor u m" unfolding session_actors_iff mobile_actors_iff by blast
  then show "actor_ID a \<noteq> i" using none unfolding human_members_iff by auto
qed

theorem role_change_authority_witness:
  "\<exists>m ws'. UpdateMemberRole team_env ''u1'' ''u2'' ''member'' no_meta team_ws = (Inr m, ws') \<and> owner_caller ''u1'' team_ws \<and> ws_sessions ws' = ws_sessions team_ws"
proof -
  have "is_ok (fst (UpdateMemberRole team_env ''u1'' ''u2'' ''member'' no_meta team_ws))" by code_simp
  then obtain m ws' where run: "UpdateMemberRole team_env ''u1'' ''u2'' ''member'' no_meta team_ws = (Inr m, ws')" using run_ok by blast
  then show ?thesis using role_change_authority [OF _ run] by auto
qed

theorem removed_member_witness:
  "\<exists>r ws'. RemoveMember team_env ''u1'' ''u2'' no_meta team_ws = (Inr r, ws') \<and> locked_out ''u2'' ws' \<and>
     actor_row DefaultSpaceID ''u2'' (as_db team_ws) \<noteq> None \<and> actor_row DefaultSpaceID ''u2'' (as_db ws') = None"
proof -
  have "is_ok (fst (RemoveMember team_env ''u1'' ''u2'' no_meta team_ws))" by code_simp
  then obtain r ws' where run: "RemoveMember team_env ''u1'' ''u2'' no_meta team_ws = (Inr r, ws')" using run_ok by blast
  have "TrimSpace ''u2'' = ''u2''" by code_simp
  moreover have "actor_row DefaultSpaceID ''u2'' (as_db team_ws) \<noteq> None" by code_simp
  ultimately show ?thesis using removed_member_locked_out [OF _ run, of team_env "''u2''"] run by auto
qed

section \<open>What a projected member shows\<close>

text \<open>
  A caller who is not an owner sees of
  another member neither the role of an owner nor that of an auditor, nor the member's private
  settings; and only members who are visible to the caller anyway, or humans who allow to be found and
  match a search of at least two characters.
\<close>

theorem listed_member_privacy:
  assumes "listed ulow o1 actor r = Some m" "actor_Role actor \<noteq> ''owner''" "actor_ID actor \<noteq> mr_ID r"
  shows "mm_ID m = mr_ID r \<and> mm_Role m \<notin> {''owner'', ''auditor''} \<and> mm_SearchDiscoverable m = None \<and> mm_RecallReason m = [] \<and>
    (mr_NormallyVisible r \<or> mr_Kind r = ''human'' \<and> mr_SearchDiscoverable r \<and> \<not> mc_CanJoinGroups (mm_Capabilities m) \<and>
       (2 \<le> RuneCountInString (ToLower ulow (TrimSpace (lo_Query o1))) \<or> 2 \<le> RuneCountInString (ToLower ulow (TrimSpace (lo_Q o1)))))"
proof -
  have id: "mr_ID (with_identity r) = mr_ID r" by (auto simp: with_identity_def split: option.split)
  have role: "projectedRole (with_identity r) (Some actor) \<notin> {''owner'', ''auditor''}"
    using assms(2,3) id by (auto simp: projectedRole_def Let_def)
  have self: "\<not> is_self (Some actor) (with_identity r)" using assms(3) id by (simp add: is_self_def)
  have m0: "mm_ID (projectMember r (Some actor)) = mr_ID r" "mm_Role (projectMember r (Some actor)) \<notin> {''owner'', ''auditor''}"
    "mm_SearchDiscoverable (projectMember r (Some actor)) = None" "mm_RecallReason (projectMember r (Some actor)) = []"
    unfolding projectMember_def Let_def using role self id by simp_all
  show ?thesis using assms m0 unfolding listed_def Let_def by (auto split: if_splits)
qed

text \<open>
  The payload of a role change is made for no actor in particular, from the record the acting owner
  sees: where that owner has a private remark on the member, the remark is the display name in the
  event.
\<close>

lemma role_event_shows_remark:
  assumes "mr_Kind r = ''human''" "systemIdentity (mr_ID r) = None" "remark_text r \<noteq> []"
  shows "mm_DisplayName (projectMember r None) = remark_text r \<and> mm_Remark (projectMember r None) = None"
  using assms by (simp add: projectMember_def member_name_def with_identity_def is_self_def Let_def)

definition demo_record :: MemberRecord where
  "demo_record = \<lparr>mr_ID = ''u1'', mr_GitHubLogin = ''ann'', mr_DisplayName = ''Ann'', mr_Description = [], mr_Nickname = None, mr_Remark = None, mr_AvatarURL = [],
     mr_SearchDiscoverable = True, mr_RecallReason = None, mr_Kind = ''human'', mr_Role = ''owner'', mr_JoinedAt = 0, mr_NormallyVisible = False\<rparr>"

definition demo_search :: ListOptions where
  "demo_search = \<lparr>lo_Query = ''an'', lo_Q = [], lo_Role = [], lo_Kind = [], lo_Limit = 0\<rparr>"

abbreviation demo_viewer :: AuthActor where
  "demo_viewer \<equiv> scanActor second_user (demo_member\<lparr>mb_user_id := ''u2'', mb_role := ''member''\<rparr>)"

theorem listed_member_privacy_witness:
  "\<exists>m. listed (\<lambda>r. r) demo_search demo_viewer demo_record = Some m \<and> mm_ID m = ''u1'' \<and> mm_Role m \<notin> {''owner'', ''auditor''} \<and> mm_RecallReason m = []"
proof -
  have "listed (\<lambda>r. r) demo_search demo_viewer demo_record \<noteq> None" by code_simp
  then obtain m where m: "listed (\<lambda>r. r) demo_search demo_viewer demo_record = Some m" by blast
  have "actor_Role demo_viewer \<noteq> ''owner''" "actor_ID demo_viewer \<noteq> mr_ID demo_record" "mr_ID demo_record = ''u1''"
    by (simp_all add: second_user_def demo_record_def)
  then show ?thesis using listed_member_privacy [OF m] m by simp
qed

section \<open>The mobile tokens of a removed member\<close>

text \<open>
  A removal revokes the sessions of the user but writes nothing to the token families of the mobile
  client. A removed user is shut out by the missing membership only: with a new membership the
  tokens issued before the removal are good again until they expire.
\<close>

definition same_tokens :: "workspace \<Rightarrow> workspace \<Rightarrow> bool" where
  "same_tokens a b \<longleftrightarrow> ws_families b = ws_families a \<and> ws_refresh b = ws_refresh a \<and> ws_access b = ws_access a"

interpretation same_tokens: effect same_tokens
  by unfold_locales (auto simp: same_tokens_def)

lemma members_event_tokens: "legal same_tokens e \<Longrightarrow> moves same_tokens (members_event e input)"
  unfolding moves_def members_event_def
  by (intro allI movesD same_tokens.moves_write) (auto simp: on_rest_def same_tokens_def result_bind_Inr_conv)

lemma remove_keeps_tokens:
  assumes "legal same_tokens e"
  shows "same_tokens ws (snd (RemoveMember e actorID userID meta ws))"
proof -
  note rules = same_tokens.moves_rules same_tokens.moves_write assms members_event_tokens
  have audit: "moves same_tokens (members_WriteAudit e r)" for r
    unfolding members_WriteAudit_def by (intro rules) (auto simp: same_tokens_def dest: insert_audit_ok)
  have newID: "moves same_tokens (members_newID e)" unfolding members_newID_def by (intro rules)
  have find: "moves same_tokens (FindMemberRecord e viewer i)" for viewer i unfolding FindMemberRecord_def by (intro rules)
  have look: "moves same_tokens (lookupActor e i)" for i unfolding lookupActor_def members_LookupActor_def by (intro rules)
  have writes: "moves same_tokens (PG_RemoveMember e i now)" "moves same_tokens (RevokeUserConversationMemberships e i)" "moves same_tokens (RevokeUserSessions e i now)" for i now
    unfolding PG_RemoveMember_def RevokeUserConversationMemberships_def RevokeUserSessions_def rest_write_def
    by (intro rules; auto simp: same_tokens_def)+
  have target: "moves same_tokens (remove_target e meta now a t)" for now a t
    unfolding remove_target_def members_writeAudit_def auditFor_def members_writeEvent_def refuse_def by (intro rules audit newID writes)
  have "moves same_tokens (remove_op e meta i a now)" for i a now
    unfolding remove_op_def managed_target_def under_lock_def Lock_def spare_owner_def CountActiveOwners_def deny_def refuse_def by (intro rules find look target)
  then have "moves same_tokens (member_body e i meta1 (remove_op e meta j))" for i j meta1
    unfolding member_body_def auditFor_def by (intro rules look audit newID)
  then show ?thesis by (simp add: RemoveMember_def inTransaction_def Let_def same_tokens.refl same_tokens.moves_WithTx [OF assms])
qed

end
