(* ===== verification/Workspace_Access.thy ===== *)
theory Workspace_Access
  imports Members_Rules
begin

text \<open>
  The operations of authentication, invitations and membership together: a database changes by any
  number of them, in any order, each with any outcome and with further operations committing between
  its statements. What was revoked, spent or bound stays so.
\<close>

section \<open>Histories\<close>

datatype action =
    A_CreateSession duration string
  | A_ResolveActor string
  | A_ResolveActorID string
  | A_RevokeSession string
  | A_LoginRejection string RequestMeta
  | A_InviteRejection string RequestMeta
  | A_AuthenticateGitHub GitHubProfile string RequestMeta
  | A_Allow string time
  | A_SaveFlow MobileFlow
  | A_GetFlow string time
  | A_AuthorizeFlow string string string time
  | A_Exchange string string string MobileTokens time
  | A_Rotate string MobileTokens time
  | A_Revoke string time
  | A_Resolve string time
  | A_MobileRejection string RequestMeta time
  | A_CreateInvite CreateInput
  | A_RevokeInvite RevokeInput
  | A_UpdateOwnProfile UpdateOwnProfileInput
  | A_UpdateMemberRemark string string string RequestMeta
  | A_RemoveMemberRemark string string RequestMeta
  | A_GetVisibility string string RequestMeta
  | A_UpdateVisibility string string "string list" RequestMeta
  | A_UpdateMemberRole string string string RequestMeta
  | A_RemoveMember string string RequestMeta

text \<open>The parameters of the model: avatar addresses, times of expiry and the order of ids.\<close>

record services =
  sv_avatar :: "string \<Rightarrow> string"
  sv_parse :: "string \<Rightarrow> time option"
  sv_collate :: "string list \<Rightarrow> string list"

fun perform :: "services \<Rightarrow> tx_env \<Rightarrow> action \<Rightarrow> workspace \<Rightarrow> workspace" where
  "perform sv e (A_CreateSession ttl userID) ws = snd (Autocommit (CreateSession ttl e userID) ws)"
| "perform sv e (A_ResolveActor token) ws = snd (Autocommit (ResolveActor e token) ws)"
| "perform sv e (A_ResolveActorID userID) ws = snd (Autocommit (ResolveActorID e userID) ws)"
| "perform sv e (A_RevokeSession token) ws = snd (Autocommit (RevokeSession e token) ws)"
| "perform sv e (A_LoginRejection phase meta) ws = snd (Autocommit (RecordGitHubLoginRejection e phase meta) ws)"
| "perform sv e (A_InviteRejection reason meta) ws = snd (Autocommit (RecordInviteAcceptRejection e reason meta) ws)"
| "perform sv e (A_AuthenticateGitHub profile invite meta) ws = snd (AuthenticateGitHub (sv_avatar sv) e profile invite meta ws)"
| "perform sv e (A_Allow subject now) ws = snd (Autocommit (Allow e subject now) ws)"
| "perform sv e (A_SaveFlow f) ws = snd (Autocommit (SaveFlow e f) ws)"
| "perform sv e (A_GetFlow i now) ws = snd (Autocommit (GetFlow e i now) ws)"
| "perform sv e (A_AuthorizeFlow i userID h now) ws = snd (Autocommit (AuthorizeFlow e i userID h now) ws)"
| "perform sv e (A_Exchange h verifier redirect tokens now) ws = snd (Autocommit (Exchange e h verifier redirect tokens now) ws)"
| "perform sv e (A_Rotate h tokens now) ws = snd (Rotate e h tokens now ws)"
| "perform sv e (A_Revoke h now) ws = snd (Autocommit (Revoke e h now) ws)"
| "perform sv e (A_Resolve h now) ws = snd (Autocommit (Resolve e h now) ws)"
| "perform sv e (A_MobileRejection operation meta now) ws = snd (Autocommit (RecordRejection e operation meta now) ws)"
| "perform sv e (A_CreateInvite input) ws = snd (Invites_Create (sv_parse sv) e input ws)"
| "perform sv e (A_RevokeInvite input) ws = snd (Invites_Revoke e input ws)"
| "perform sv e (A_UpdateOwnProfile input) ws = snd (UpdateOwnProfile e input ws)"
| "perform sv e (A_UpdateMemberRemark actorID userID remark meta) ws = snd (UpdateMemberRemark e actorID userID remark meta ws)"
| "perform sv e (A_RemoveMemberRemark actorID userID meta) ws = snd (RemoveMemberRemark e actorID userID meta ws)"
| "perform sv e (A_GetVisibility actorID viewer meta) ws = snd (GetVisibility (sv_collate sv) e actorID viewer meta ws)"
| "perform sv e (A_UpdateVisibility actorID viewer ids meta) ws = snd (UpdateVisibility (sv_collate sv) e actorID viewer ids meta ws)"
| "perform sv e (A_UpdateMemberRole actorID userID role meta) ws = snd (UpdateMemberRole e actorID userID role meta ws)"
| "perform sv e (A_RemoveMember actorID userID meta) ws = snd (RemoveMember e actorID userID meta ws)"

inductive evolves :: "services \<Rightarrow> workspace \<Rightarrow> workspace \<Rightarrow> bool" for sv where
  none: "evolves sv ws ws"
| more_of: "evolves sv ws ws1 \<Longrightarrow> \<forall>n v. evolves sv v (te_other e n v) \<and> evolves sv v (te_locked e n v) \<Longrightarrow> evolves sv ws (perform sv e a ws1)"

text \<open>An environment in which the other transactions are operations of the same kind.\<close>

definition shared :: "services \<Rightarrow> tx_env \<Rightarrow> bool" where
  "shared sv e \<longleftrightarrow> (\<forall>n v. evolves sv v (te_other e n v) \<and> evolves sv v (te_locked e n v))"

lemma Rotate_forward: "legal forward e \<Longrightarrow> forward ws (snd (Rotate e h tokens now ws))"
  using forward.moves_Autocommit [OF mobile_forward(6), of e ws h tokens now] by (auto simp: Rotate_def split: prod.split sum.split option.split)

lemma perform_forward:
  assumes "legal forward e"
  shows "forward ws (perform sv e a ws)"
proof -
  note auto_moves = forward.moves_Autocommit [OF sessions_forward(1) [OF assms]] forward.moves_Autocommit [OF sessions_forward(2) [OF assms]]
    forward.moves_Autocommit [OF sessions_forward(3) [OF assms]] forward.moves_Autocommit [OF sessions_forward(4) [OF assms]]
    forward.moves_Autocommit [OF sessions_forward(5) [OF assms]] forward.moves_Autocommit [OF sessions_forward(6) [OF assms]]
    forward.moves_Autocommit [OF mobile_forward(1) [OF assms]] forward.moves_Autocommit [OF mobile_forward(2) [OF assms]]
    forward.moves_Autocommit [OF mobile_forward(3) [OF assms]] forward.moves_Autocommit [OF mobile_forward(4) [OF assms]]
    forward.moves_Autocommit [OF mobile_forward(5) [OF assms]] forward.moves_Autocommit [OF mobile_forward(7) [OF assms]]
    forward.moves_Autocommit [OF mobile_forward(8) [OF assms]] forward.moves_Autocommit [OF mobile_forward(9) [OF assms]]
  show ?thesis
    by (cases a; simp only: perform.simps)
      (rule auto_moves login_forward [OF assms] Rotate_forward [OF assms] invites_forward [OF assms] members_forward [OF assms])+
qed

lemma evolves_forward: "evolves sv ws ws' \<Longrightarrow> forward ws ws'"
proof (induction rule: evolves.induct)
  case (more_of ws ws1 e a)
  then have "legal forward e" unfolding legal_def by blast
  then show ?case by (rule forward.trans [OF more_of.IH(1) perform_forward])
qed (rule forward.refl)

lemma shared_legal: "shared sv e \<Longrightarrow> legal forward e"
  unfolding shared_def legal_def by (blast intro: evolves_forward)

section \<open>What is revoked stays revoked\<close>

lemma revoked_session_refused:
  assumes "legal forward e" "session_revoked (HashSecret token) ws"
  shows "\<not> is_ok (fst (Autocommit (ResolveActor e token) ws))"
proof
  assume "is_ok (fst (Autocommit (ResolveActor e token) ws))"
  then obtain a where "a \<in> set (session_actors (HashSecret token) (normalizedNow e) (te_other e 0 ws))"
    by (auto simp: ResolveActor_run split: if_splits option.splits list.splits)
  moreover have "session_revoked (HashSecret token) (te_other e 0 ws)" by (rule forward_settled(1) [OF forward_others(1) [OF assms(1)] assms(2)])
  ultimately show False unfolding session_actors_iff session_live_def session_revoked_def settled_def by blast
qed

lemma RevokeSession_revokes:
  assumes "legal forward e" "HashSecret token \<in> se_token_hash ` set (ws_sessions ws)" "TrimSpace token \<noteq> []"
    "Autocommit (RevokeSession e token) ws = (Inr b, ws')"
  shows "session_revoked (HashSecret token) ws'"
proof -
  let ?v = "te_other e 0 ws"
  have fw: "forward ws ?v" by (rule forward_others(1) [OF assms(1)])
  have "settled se_token_hash (HashSecret token) (\<lambda>_. True) (ws_sessions ws)" using assms(2) by (auto simp: settled_def)
  then have "settled se_token_hash (HashSecret token) (\<lambda>_. True) (ws_sessions ?v)"
    by (rule session_rows.evolve_settled [rotated]) (use fw in \<open>auto simp: forward_def\<close>)
  moreover have "ws_sessions ws' = update_where (\<lambda>s. se_token_hash s = HashSecret token \<and> se_revoked_at s = None)
      (\<lambda>s. s\<lparr>se_revoked_at := Some (normalizeTimestamp (te_now e) (normalizedNow e))\<rparr>) (ws_sessions ?v)"
    using assms(3,4) by (auto simp: RevokeSession_def PG_RevokeSession_def tx_eval split: option.splits)
  moreover obtain x where x: "x \<in> set (ws_sessions ?v)" "se_token_hash x = HashSecret token" using calculation(1) unfolding settled_def by blast
  ultimately have all: "\<forall>s \<in> set (ws_sessions ws'). se_token_hash s = HashSecret token \<longrightarrow> se_revoked_at s \<noteq> None"
    and image: "set (ws_sessions ws') = (\<lambda>s. if se_token_hash s = HashSecret token \<and> se_revoked_at s = None
      then s\<lparr>se_revoked_at := Some (normalizeTimestamp (te_now e) (normalizedNow e))\<rparr> else s) ` set (ws_sessions ?v)"
    unfolding update_where_def by auto
  have "\<exists>s \<in> set (ws_sessions ws'). se_token_hash s = HashSecret token" unfolding image by (rule bexI [OF _ imageI [OF x(1)]]) (simp add: x(2))
  then show ?thesis using all unfolding session_revoked_def settled_def by blast
qed

text \<open>
  C12 (auth/session.go: RevokeSession, ResolveActor). Once the revocation of a session has succeeded its token never
  resolves again, whatever operations follow.
\<close>

theorem logout_is_final:
  assumes "shared sv e" "HashSecret token \<in> se_token_hash ` set (ws_sessions ws)"
    and "Autocommit (RevokeSession e token) ws = (Inr b, ws1)" "evolves sv ws1 ws2" "shared sv e2"
  shows "\<not> is_ok (fst (Autocommit (ResolveActor e2 token) ws2))"
proof (cases "TrimSpace token = []")
  case True
  then show ?thesis by (simp add: ResolveActor_run)
next
  case False
  have "session_revoked (HashSecret token) ws1" by (rule RevokeSession_revokes [OF shared_legal [OF assms(1)] assms(2) False assms(3)])
  then show ?thesis by (intro revoked_session_refused shared_legal [OF assms(5)] forward_settled(1) [OF evolves_forward [OF assms(4)]])
qed

text \<open>
  C13 (auth/mobile\_pg.go: Resolve, Exchange, Rotate). A login code or refresh token that is spent, and an access
  token whose family is revoked or past its deadline, is refused at every later time, whatever operations follow.
\<close>

theorem spent_secrets_stay_spent:
  assumes "evolves sv ws ws'" "shared sv e"
  shows "(code_spent h (ws_flows ws) \<longrightarrow> \<not> is_ok (fst (Autocommit (Exchange e h verifier redirect tokens now) ws'))) \<and>
    (refresh_spent h ws \<longrightarrow> \<not> is_ok (fst (Rotate e h tokens now ws'))) \<and>
    (access_family h i ws \<and> (family_revoked i ws \<or> (\<exists>t \<le> now. family_deadline i t ws)) \<longrightarrow> \<not> is_ok (fst (Autocommit (Resolve e h now) ws')))"
proof (intro conjI impI)
  note fw = evolves_forward [OF assms(1)] and legal = shared_legal [OF assms(2)]
  show "\<not> is_ok (fst (Autocommit (Exchange e h verifier redirect tokens now) ws'))" if "code_spent h (ws_flows ws)"
    by (rule spent_code_refused [OF legal forward_settled(9) [OF fw that]])
  show "\<not> is_ok (fst (Rotate e h tokens now ws'))" if "refresh_spent h ws"
    by (rule spent_refresh_refused [OF legal forward_settled(4) [OF fw that]])
  assume c: "access_family h i ws \<and> (family_revoked i ws \<or> (\<exists>t \<le> now. family_deadline i t ws))"
  then have "family_revoked i ws' \<or> (\<exists>t. family_deadline i t ws' \<and> t \<le> now)"
    using forward_settled(2,3) [OF fw] by blast
  then show "\<not> is_ok (fst (Autocommit (Resolve e h now) ws'))"
    using closed_family_refused [OF legal forward_settled(6) [OF fw]] c by blast
qed

text \<open>
  C5 (auth, invites and members together). Over every history an invitation is used at most as often as it allows and
  stays revoked once it is, an account stays bound to its GitHub identity, and no entry of the audit log or of the
  event log is lost.
\<close>

theorem history_invariant:
  assumes "evolves sv ws ws'"
  shows "(invites_ok ws \<longrightarrow> invites_ok ws') \<and> (invite_revoked i ws \<longrightarrow> invite_revoked i ws') \<and> (github_bound u g ws \<longrightarrow> github_bound u g ws') \<and>
    set (ws_audit ws) \<subseteq> set (ws_audit ws') \<and> set (workspace_events (ws_rest ws)) \<subseteq> set (workspace_events (ws_rest ws'))"
  using forward_settled(7,8,10) [OF evolves_forward [OF assms]] forward_logs [OF evolves_forward [OF assms]] by blast

section \<open>Examples\<close>

definition demo_services :: services where
  "demo_services = \<lparr>sv_avatar = keep, sv_parse = \<lambda>_. None, sv_collate = \<lambda>is. is\<rparr>"

lemma demo_env_shared: "shared sv (demo_env now ids)"
  by (simp add: shared_def evolves.none)

lemma demo_evolves: "evolves sv ws (perform sv (demo_env now ids) a ws)"
  by (rule evolves.more_of [OF evolves.none]) (simp add: evolves.none)

theorem logout_is_final_witness:
  "\<not> is_ok (fst (Autocommit (ResolveActor (demo_env 0 numbered) (session_token demo_token))
     (snd (Autocommit (RevokeSession (demo_env 0 numbered) (session_token demo_token)) session_ws))))"
proof -
  let ?r = "Autocommit (RevokeSession (demo_env 0 numbered) (session_token demo_token)) session_ws"
  have "is_ok (fst ?r)" by (simp add: RevokeSession_def PG_RevokeSession_def tx_eval)
  then obtain b ws1 where "?r = (Inr b, ws1)" using run_ok by blast
  moreover have "HashSecret (session_token demo_token) \<in> se_token_hash ` set (ws_sessions session_ws)" by (simp add: session_ws_def)
  ultimately show ?thesis using logout_is_final [OF demo_env_shared _ _ evolves.none demo_env_shared] by (metis snd_conv)
qed

theorem spent_secrets_witness:
  "refresh_spent ''h'' (family_ws (Some 0)) \<and> \<not> is_ok (fst (Rotate (demo_env 0 numbered) ''h'' demo_tokens 0
     (perform demo_services (demo_env 0 numbered) (A_Rotate ''h'' demo_tokens 0) (family_ws (Some 0)))))"
proof -
  have "refresh_spent ''h'' (family_ws (Some 0))" by (simp add: refresh_spent_def settled_def family_ws_def)
  then show ?thesis using spent_secrets_stay_spent [OF demo_evolves demo_env_shared] by blast
qed

theorem history_witness:
  "invites_ok (perform demo_services (demo_env 0 numbered) (A_AuthenticateGitHub stranger ''code'' no_meta) invite_ws)"
proof -
  have "invites_ok invite_ws" by code_simp
  then show ?thesis using history_invariant [OF demo_evolves] by blast
qed

end
