(* ===== verification/Messages_Model.thy ===== *)
theory Messages_Model
  imports Members
begin

text \<open>
  The values of messages and their projection: messages/model.go. The stored content of a message is
  JSON text that the projection decodes; \<open>md\<close> is the plain text of a Markdown block, which
  markdown\_summary.go takes from the goldmark parser.
\<close>

section \<open>Values\<close>

record EmoteCollectionSharePerson =
  sp_ID :: string
  sp_DisplayName :: string

record EmoteCollectionShareCover =
  sc_ID :: string
  sc_Label :: string
  sc_Src :: string
  sc_Animated :: "bool option"

record EmoteCollectionShare =
  sh_ID :: string
  sh_Name :: string
  sh_ItemCount :: int
  sh_CreatedAt :: string
  sh_RevokedAt :: "string option"
  sh_SharedBy :: EmoteCollectionSharePerson
  sh_OriginalCreator :: EmoteCollectionSharePerson
  sh_CanRevoke :: bool
  sh_Covers :: "EmoteCollectionShareCover list"
  sh_SharePath :: string

record Block =
  bk_Type :: string
  bk_Text :: string
  bk_UserID :: string
  bk_Label :: string
  bk_URL :: string
  bk_Shortcode :: string
  bk_AttachmentID :: string
  bk_ShareID :: string
  bk_Share :: "EmoteCollectionShare option"
  bk_TopicID :: string
  bk_Title :: string
  bk_CardID :: string
  bk_CardType :: string
  bk_SchemaVersion :: int
  bk_FallbackText :: string

record Content =
  ct_Format :: string
  ct_PlainText :: string
  ct_Blocks :: "Block list"

record AttachmentRecord =
  ar_ID :: string
  ar_SpaceID :: string
  ar_UploaderID :: string
  ar_UploaderName :: string
  ar_ConversationID :: "string option"
  ar_Visibility :: string
  ar_Status :: string
  ar_FileName :: string
  ar_MIMEType :: string
  ar_ByteSize :: int
  ar_CreatedAt :: time
  ar_CompletedAt :: "time option"

record Attachment =
  aa_ID :: string
  aa_FileName :: string
  aa_MIMEType :: string
  aa_ByteSize :: int
  aa_Status :: string
  aa_Visibility :: string
  aa_UploaderID :: string
  aa_UploaderName :: string
  aa_ConversationID :: "string option"
  aa_CreatedAt :: string
  aa_CompletedAt :: "string option"
  aa_AvailableAt :: "string option"
  aa_CanDownload :: bool
  aa_CanRemove :: bool

record ReactionUser =
  ru_ID :: string
  ru_DisplayName :: string
  ru_GitHubLogin :: string
  ru_AvatarURL :: string
  ru_CreatedAt :: string

record ReactionGroup =
  rg_EmoteKey :: string
  rg_Count :: int
  rg_ReactedByCurrentUser :: bool
  rg_Users :: "ReactionUser list"

record MessagePin =
  mp_PinnedByUserID :: string
  mp_PinnedAt :: string
  mp_CanUnpin :: bool

record Message =
  mg_ID :: string
  mg_ConversationID :: string
  mg_TopicID :: string
  mg_AuthorID :: "string option"
  mg_AuthorName :: string
  mg_AuthorNickname :: string
  mg_AuthorRemark :: string
  mg_AuthorGitHubLogin :: string
  mg_AuthorAvatarURL :: string
  mg_AuthorKind :: string
  mg_Kind :: string
  mg_ClientMessageID :: "string option"
  mg_Content :: Content
  mg_PlainText :: string
  mg_ReplyToMessageID :: "string option"
  mg_CreatedAt :: string
  mg_EditedAt :: "string option"
  mg_DeletedAt :: "string option"
  mg_RecalledAt :: "string option"
  mg_RecallReason :: "string option"
  mg_Attachments :: "Attachment list"
  mg_Reactions :: "ReactionGroup list"
  mg_HiddenByCurrentUser :: bool
  mg_Pin :: "MessagePin option"

record MessageRecord =
  mx_ID :: string
  mx_SpaceID :: string
  mx_ConversationID :: string
  mx_TopicID :: string
  mx_AuthorID :: "string option"
  mx_AuthorName :: string
  mx_AuthorNickname :: string
  mx_AuthorRemark :: string
  mx_AuthorGitHubLogin :: string
  mx_AuthorAvatarURL :: string
  mx_AuthorKind :: string
  mx_Kind :: string
  mx_ClientMessageID :: "string option"
  mx_ContentJSON :: string
  mx_PlainText :: string
  mx_ReplyToMessageID :: "string option"
  mx_CreatedAt :: time
  mx_EditedAt :: "time option"
  mx_DeletedAt :: "time option"
  mx_RecalledAt :: "time option"
  mx_RecallReason :: "string option"
  mx_HiddenByCurrentUser :: bool
  mx_PinnedByUserID :: "string option"
  mx_PinnedAt :: "time option"
  mx_EmoteCollectionShares :: "(string, EmoteCollectionShare) gomap"
  mx_EventSeq :: int
  mx_Revision :: int

definition MessageContentFormat :: string where "MessageContentFormat = ''duallane.message+json;v=1''"
definition DefaultRetentionCount :: int where "DefaultRetentionCount = 10000"
definition DefaultRecallReason :: string where "DefaultRecallReason = (utf8 [0x5185, 0x5BB9, 0x6709, 0x8BEF])"

definition zero_block :: Block where
  "zero_block = \<lparr>bk_Type = [], bk_Text = [], bk_UserID = [], bk_Label = [], bk_URL = [], bk_Shortcode = [], bk_AttachmentID = [], bk_ShareID = [],
     bk_Share = None, bk_TopicID = [], bk_Title = [], bk_CardID = [], bk_CardType = [], bk_SchemaVersion = 0, bk_FallbackText = []\<rparr>"

definition zero_person :: EmoteCollectionSharePerson where "zero_person = \<lparr>sp_ID = [], sp_DisplayName = []\<rparr>"
definition zero_cover :: EmoteCollectionShareCover where "zero_cover = \<lparr>sc_ID = [], sc_Label = [], sc_Src = [], sc_Animated = None\<rparr>"

definition zero_share :: EmoteCollectionShare where
  "zero_share = \<lparr>sh_ID = [], sh_Name = [], sh_ItemCount = 0, sh_CreatedAt = [], sh_RevokedAt = None, sh_SharedBy = zero_person,
     sh_OriginalCreator = zero_person, sh_CanRevoke = False, sh_Covers = [], sh_SharePath = []\<rparr>"

definition zero_content :: Content where "zero_content = \<lparr>ct_Format = [], ct_PlainText = [], ct_Blocks = []\<rparr>"

section \<open>JSON\<close>

subsection \<open>Marshalling\<close>

definition json_int :: "int \<Rightarrow> json" where "json_int n = JNum (itoa n)"
definition json_opt :: "string option \<Rightarrow> json" where "json_opt v = (case v of None \<Rightarrow> JNull | Some s \<Rightarrow> JStr s)"

definition person_json :: "EmoteCollectionSharePerson \<Rightarrow> json" where
  "person_json p = JObj [(''id'', JStr (sp_ID p)), (''displayName'', JStr (sp_DisplayName p))]"

definition cover_json :: "EmoteCollectionShareCover \<Rightarrow> json" where
  "cover_json c = json_map [(''id'', Some (JStr (sc_ID c))), (''label'', Some (JStr (sc_Label c))), (''src'', Some (JStr (sc_Src c))),
     (''animated'', map_option JBool (sc_Animated c))]"

definition share_json :: "EmoteCollectionShare \<Rightarrow> json" where
  "share_json s = JObj [(''id'', JStr (sh_ID s)), (''name'', JStr (sh_Name s)), (''itemCount'', json_int (sh_ItemCount s)), (''createdAt'', JStr (sh_CreatedAt s)),
     (''revokedAt'', json_opt (sh_RevokedAt s)), (''sharedBy'', person_json (sh_SharedBy s)), (''originalCreator'', person_json (sh_OriginalCreator s)),
     (''canRevoke'', JBool (sh_CanRevoke s)), (''covers'', JArr (map cover_json (sh_Covers s))), (''sharePath'', JStr (sh_SharePath s))]"

definition block_json :: "Block \<Rightarrow> json" where
  "block_json b = json_map
    [(''type'', Some (JStr (bk_Type b))), (''text'', nonempty_str (bk_Text b)), (''userId'', nonempty_str (bk_UserID b)), (''label'', nonempty_str (bk_Label b)),
     (''url'', nonempty_str (bk_URL b)), (''shortcode'', nonempty_str (bk_Shortcode b)), (''attachmentId'', nonempty_str (bk_AttachmentID b)),
     (''shareId'', nonempty_str (bk_ShareID b)), (''share'', map_option share_json (bk_Share b)), (''topicId'', nonempty_str (bk_TopicID b)),
     (''title'', nonempty_str (bk_Title b)), (''cardId'', nonempty_str (bk_CardID b)), (''cardType'', nonempty_str (bk_CardType b)),
     (''schemaVersion'', if bk_SchemaVersion b = 0 then None else Some (json_int (bk_SchemaVersion b))), (''fallbackText'', nonempty_str (bk_FallbackText b))]"

definition content_json :: "Content \<Rightarrow> json" where
  "content_json c = JObj [(''format'', JStr (ct_Format c)), (''plainText'', JStr (ct_PlainText c)), (''blocks'', JArr (map block_json (ct_Blocks c)))]"

definition canonicalContent :: "Content \<Rightarrow> string" where
  "canonicalContent c = json_print (content_json c)"

definition attachment_json :: "Attachment \<Rightarrow> json" where
  "attachment_json a = JObj
    [(''id'', JStr (aa_ID a)), (''fileName'', JStr (aa_FileName a)), (''mimeType'', JStr (aa_MIMEType a)), (''byteSize'', json_int (aa_ByteSize a)),
     (''status'', JStr (aa_Status a)), (''visibility'', JStr (aa_Visibility a)), (''uploaderId'', JStr (aa_UploaderID a)), (''uploaderName'', JStr (aa_UploaderName a)),
     (''uploader'', JObj [(''id'', JStr (aa_UploaderID a)), (''displayName'', JStr (aa_UploaderName a))]), (''conversationId'', json_opt (aa_ConversationID a)),
     (''createdAt'', JStr (aa_CreatedAt a)), (''completedAt'', json_opt (aa_CompletedAt a)), (''availableAt'', json_opt (aa_AvailableAt a)),
     (''capabilities'', JObj [(''canDownload'', JBool (aa_CanDownload a)), (''canRemove'', JBool (aa_CanRemove a))])]"

definition reaction_user_json :: "ReactionUser \<Rightarrow> json" where
  "reaction_user_json u = json_map [(''id'', Some (JStr (ru_ID u))), (''displayName'', Some (JStr (ru_DisplayName u))), (''githubLogin'', nonempty_str (ru_GitHubLogin u)),
     (''avatarUrl'', nonempty_str (ru_AvatarURL u)), (''createdAt'', Some (JStr (ru_CreatedAt u)))]"

definition reaction_json :: "ReactionGroup \<Rightarrow> json" where
  "reaction_json g = JObj [(''emoteKey'', JStr (rg_EmoteKey g)), (''count'', json_int (rg_Count g)), (''reactedByCurrentUser'', JBool (rg_ReactedByCurrentUser g)),
     (''users'', JArr (map reaction_user_json (rg_Users g)))]"

definition pin_json :: "MessagePin \<Rightarrow> json" where
  "pin_json p = JObj [(''pinnedByUserId'', JStr (mp_PinnedByUserID p)), (''pinnedAt'', JStr (mp_PinnedAt p)), (''canUnpin'', JBool (mp_CanUnpin p))]"

definition message_json :: "Message \<Rightarrow> json" where
  "message_json m = json_map
    [(''id'', Some (JStr (mg_ID m))), (''conversationId'', Some (JStr (mg_ConversationID m))), (''topicId'', nonempty_str (mg_TopicID m)),
     (''authorId'', Some (json_opt (mg_AuthorID m))), (''authorName'', Some (JStr (mg_AuthorName m))), (''authorNickname'', nonempty_str (mg_AuthorNickname m)),
     (''authorRemark'', nonempty_str (mg_AuthorRemark m)), (''authorGithubLogin'', nonempty_str (mg_AuthorGitHubLogin m)),
     (''authorAvatarUrl'', nonempty_str (mg_AuthorAvatarURL m)), (''authorKind'', Some (JStr (mg_AuthorKind m))), (''kind'', Some (JStr (mg_Kind m))),
     (''clientMessageId'', Some (json_opt (mg_ClientMessageID m))), (''content'', Some (content_json (mg_Content m))), (''plainText'', Some (JStr (mg_PlainText m))),
     (''replyToMessageId'', Some (json_opt (mg_ReplyToMessageID m))), (''createdAt'', Some (JStr (mg_CreatedAt m))), (''editedAt'', Some (json_opt (mg_EditedAt m))),
     (''deletedAt'', Some (json_opt (mg_DeletedAt m))), (''recalledAt'', Some (json_opt (mg_RecalledAt m))), (''recallReason'', Some (json_opt (mg_RecallReason m))),
     (''attachments'', Some (JArr (map attachment_json (mg_Attachments m)))), (''reactions'', Some (JArr (map reaction_json (mg_Reactions m)))),
     (''hiddenByCurrentUser'', Some (JBool (mg_HiddenByCurrentUser m))), (''pin'', map_option pin_json (mg_Pin m))]"

subsection \<open>Unmarshalling\<close>

definition assign_int :: "int \<Rightarrow> json \<Rightarrow> int option" where
  "assign_int old v = (case v of JNum l \<Rightarrow> ParseInt64 l | JNull \<Rightarrow> Some old | _ \<Rightarrow> None)"

definition assign_bool :: "bool \<Rightarrow> json \<Rightarrow> bool option" where
  "assign_bool old v = (case v of JBool b \<Rightarrow> Some b | JNull \<Rightarrow> Some old | _ \<Rightarrow> None)"

text \<open>A pointer: null resets it, another value is decoded into what it points to, a new zero value if it is nil.\<close>

definition assign_ptr :: "('a \<Rightarrow> json \<Rightarrow> 'a option) \<Rightarrow> 'a \<Rightarrow> 'a option \<Rightarrow> json \<Rightarrow> 'a option option" where
  "assign_ptr f zero old v = (if v = JNull then Some None else map_option Some (f (case old of None \<Rightarrow> zero | Some x \<Rightarrow> x) v))"

text \<open>A slice: the elements are decoded into the elements there are, then into new ones.\<close>

fun assign_elements :: "('a \<Rightarrow> json \<Rightarrow> 'a option) \<Rightarrow> 'a \<Rightarrow> 'a list \<Rightarrow> json list \<Rightarrow> 'a list option" where
  "assign_elements f zero old [] = Some []"
| "assign_elements f zero old (v # vs) =
    (case f (case old of [] \<Rightarrow> zero | x # _ \<Rightarrow> x) v of
       None \<Rightarrow> None
     | Some y \<Rightarrow> map_option ((#) y) (assign_elements f zero (tl old) vs))"

definition assign_slice :: "('a \<Rightarrow> json \<Rightarrow> 'a option) \<Rightarrow> 'a \<Rightarrow> 'a list \<Rightarrow> json \<Rightarrow> 'a list option" where
  "assign_slice f zero old v = (case v of JNull \<Rightarrow> Some [] | JArr vs \<Rightarrow> assign_elements f zero old vs | _ \<Rightarrow> None)"

definition person_field :: "EmoteCollectionSharePerson \<Rightarrow> string \<Rightarrow> json \<Rightarrow> EmoteCollectionSharePerson option" where
  "person_field p key v =
    (let f = json_field [''id'', ''displayName''] key in
     if f = Some ''id'' then map_option (\<lambda>s. p\<lparr>sp_ID := s\<rparr>) (assign_string (sp_ID p) v)
     else if f = Some ''displayName'' then map_option (\<lambda>s. p\<lparr>sp_DisplayName := s\<rparr>) (assign_string (sp_DisplayName p) v)
     else Some p)"

definition cover_field :: "EmoteCollectionShareCover \<Rightarrow> string \<Rightarrow> json \<Rightarrow> EmoteCollectionShareCover option" where
  "cover_field c key v =
    (let f = json_field [''id'', ''label'', ''src'', ''animated''] key in
     if f = Some ''id'' then map_option (\<lambda>s. c\<lparr>sc_ID := s\<rparr>) (assign_string (sc_ID c) v)
     else if f = Some ''label'' then map_option (\<lambda>s. c\<lparr>sc_Label := s\<rparr>) (assign_string (sc_Label c) v)
     else if f = Some ''src'' then map_option (\<lambda>s. c\<lparr>sc_Src := s\<rparr>) (assign_string (sc_Src c) v)
     else if f = Some ''animated'' then map_option (\<lambda>b. c\<lparr>sc_Animated := b\<rparr>) (assign_ptr assign_bool False (sc_Animated c) v)
     else Some c)"

definition share_field :: "EmoteCollectionShare \<Rightarrow> string \<Rightarrow> json \<Rightarrow> EmoteCollectionShare option" where
  "share_field s key v =
    (let f = json_field [''id'', ''name'', ''itemCount'', ''createdAt'', ''revokedAt'', ''sharedBy'', ''originalCreator'', ''canRevoke'', ''covers'', ''sharePath''] key in
     if f = Some ''id'' then map_option (\<lambda>x. s\<lparr>sh_ID := x\<rparr>) (assign_string (sh_ID s) v)
     else if f = Some ''name'' then map_option (\<lambda>x. s\<lparr>sh_Name := x\<rparr>) (assign_string (sh_Name s) v)
     else if f = Some ''itemCount'' then map_option (\<lambda>x. s\<lparr>sh_ItemCount := x\<rparr>) (assign_int (sh_ItemCount s) v)
     else if f = Some ''createdAt'' then map_option (\<lambda>x. s\<lparr>sh_CreatedAt := x\<rparr>) (assign_string (sh_CreatedAt s) v)
     else if f = Some ''revokedAt'' then map_option (\<lambda>x. s\<lparr>sh_RevokedAt := x\<rparr>) (assign_ptr assign_string [] (sh_RevokedAt s) v)
     else if f = Some ''sharedBy'' then map_option (\<lambda>x. s\<lparr>sh_SharedBy := x\<rparr>) (decode_struct person_field (sh_SharedBy s) v)
     else if f = Some ''originalCreator'' then map_option (\<lambda>x. s\<lparr>sh_OriginalCreator := x\<rparr>) (decode_struct person_field (sh_OriginalCreator s) v)
     else if f = Some ''canRevoke'' then map_option (\<lambda>x. s\<lparr>sh_CanRevoke := x\<rparr>) (assign_bool (sh_CanRevoke s) v)
     else if f = Some ''covers'' then map_option (\<lambda>x. s\<lparr>sh_Covers := x\<rparr>) (assign_slice (decode_struct cover_field) zero_cover (sh_Covers s) v)
     else if f = Some ''sharePath'' then map_option (\<lambda>x. s\<lparr>sh_SharePath := x\<rparr>) (assign_string (sh_SharePath s) v)
     else Some s)"

definition block_names :: "string list" where
  "block_names = [''type'', ''text'', ''userId'', ''label'', ''url'', ''shortcode'', ''attachmentId'', ''shareId'', ''share'', ''topicId'', ''title'', ''cardId'', ''cardType'', ''schemaVersion'', ''fallbackText'']"

definition block_field :: "Block \<Rightarrow> string \<Rightarrow> json \<Rightarrow> Block option" where
  "block_field b key v =
    (let f = json_field block_names key in
     if f = Some ''type'' then map_option (\<lambda>s. b\<lparr>bk_Type := s\<rparr>) (assign_string (bk_Type b) v)
     else if f = Some ''text'' then map_option (\<lambda>s. b\<lparr>bk_Text := s\<rparr>) (assign_string (bk_Text b) v)
     else if f = Some ''userId'' then map_option (\<lambda>s. b\<lparr>bk_UserID := s\<rparr>) (assign_string (bk_UserID b) v)
     else if f = Some ''label'' then map_option (\<lambda>s. b\<lparr>bk_Label := s\<rparr>) (assign_string (bk_Label b) v)
     else if f = Some ''url'' then map_option (\<lambda>s. b\<lparr>bk_URL := s\<rparr>) (assign_string (bk_URL b) v)
     else if f = Some ''shortcode'' then map_option (\<lambda>s. b\<lparr>bk_Shortcode := s\<rparr>) (assign_string (bk_Shortcode b) v)
     else if f = Some ''attachmentId'' then map_option (\<lambda>s. b\<lparr>bk_AttachmentID := s\<rparr>) (assign_string (bk_AttachmentID b) v)
     else if f = Some ''shareId'' then map_option (\<lambda>s. b\<lparr>bk_ShareID := s\<rparr>) (assign_string (bk_ShareID b) v)
     else if f = Some ''share'' then map_option (\<lambda>s. b\<lparr>bk_Share := s\<rparr>) (assign_ptr (decode_struct share_field) zero_share (bk_Share b) v)
     else if f = Some ''topicId'' then map_option (\<lambda>s. b\<lparr>bk_TopicID := s\<rparr>) (assign_string (bk_TopicID b) v)
     else if f = Some ''title'' then map_option (\<lambda>s. b\<lparr>bk_Title := s\<rparr>) (assign_string (bk_Title b) v)
     else if f = Some ''cardId'' then map_option (\<lambda>s. b\<lparr>bk_CardID := s\<rparr>) (assign_string (bk_CardID b) v)
     else if f = Some ''cardType'' then map_option (\<lambda>s. b\<lparr>bk_CardType := s\<rparr>) (assign_string (bk_CardType b) v)
     else if f = Some ''schemaVersion'' then map_option (\<lambda>n. b\<lparr>bk_SchemaVersion := n\<rparr>) (assign_int (bk_SchemaVersion b) v)
     else if f = Some ''fallbackText'' then map_option (\<lambda>s. b\<lparr>bk_FallbackText := s\<rparr>) (assign_string (bk_FallbackText b) v)
     else Some b)"

definition content_field :: "Content \<Rightarrow> string \<Rightarrow> json \<Rightarrow> Content option" where
  "content_field c key v =
    (let f = json_field [''format'', ''plainText'', ''blocks''] key in
     if f = Some ''format'' then map_option (\<lambda>s. c\<lparr>ct_Format := s\<rparr>) (assign_string (ct_Format c) v)
     else if f = Some ''plainText'' then map_option (\<lambda>s. c\<lparr>ct_PlainText := s\<rparr>) (assign_string (ct_PlainText c) v)
     else if f = Some ''blocks'' then map_option (\<lambda>bs. c\<lparr>ct_Blocks := bs\<rparr>) (assign_slice (decode_struct block_field) zero_block (ct_Blocks c) v)
     else Some c)"

definition decode_content :: "string \<Rightarrow> Content option" where
  "decode_content raw = Option.bind (json_text raw) (decode_struct content_field zero_content)"

section \<open>Projection\<close>

definition formatTimestamp :: "time \<Rightarrow> string" where
  "formatTimestamp t = (if t = zero_time then [] else format_millis (trunc_ms t))"

definition formatNullableTimestamp :: "time option \<Rightarrow> string option" where
  "formatNullableTimestamp v = (case v of None \<Rightarrow> None | Some t \<Rightarrow> if t = zero_time then None else Some (formatTimestamp t))"

fun firstNonEmpty :: "string list \<Rightarrow> string" where
  "firstNonEmpty [] = []"
| "firstNonEmpty (v # vs) = (if TrimSpace v \<noteq> [] then TrimSpace v else firstNonEmpty vs)"

definition firstNonEmptyPtr :: "string option \<Rightarrow> string \<Rightarrow> string" where
  "firstNonEmptyPtr v fallback = (case v of None \<Rightarrow> fallback | Some s \<Rightarrow> if TrimSpace s \<noteq> [] then TrimSpace s else fallback)"

definition sanitizeMessageAvatar :: "string \<Rightarrow> string" where
  "sanitizeMessageAvatar value0 =
    (let v = TrimSpace value0 in
     if HasPrefix v ''/assets/'' \<and> \<not> Contains v ''..'' then v
     else if HasPrefix v ''/api/workspace/avatars/'' \<and> \<not> Contains v ''..'' then v
     else if HasPrefix v ''https://avatars.githubusercontent.com/'' then v else [])"

definition projectBlock :: "(string, EmoteCollectionShare) gomap \<Rightarrow> Block \<Rightarrow> Block option" where
  "projectBlock shares b =
    (let ty = bk_Type b; z = zero_block\<lparr>bk_Type := ty\<rparr> in
     if ty = ''text'' then Some (z\<lparr>bk_Text := bk_Text b\<rparr>)
     else if ty = ''mention'' then Some (z\<lparr>bk_UserID := bk_UserID b, bk_Label := bk_Label b\<rparr>)
     else if ty = ''link'' then Some (z\<lparr>bk_URL := bk_URL b, bk_Label := (if TrimSpace (bk_Label b) \<noteq> [] then bk_Label b else [])\<rparr>)
     else if ty = ''emoji'' then Some (z\<lparr>bk_Shortcode := bk_Shortcode b\<rparr>)
     else if ty = ''attachment'' then Some (z\<lparr>bk_AttachmentID := bk_AttachmentID b\<rparr>)
     else if ty = ''emote_collection'' then Some (z\<lparr>bk_ShareID := bk_ShareID b, bk_Share := map_of shares (TrimSpace (bk_ShareID b))\<rparr>)
     else if ty = ''topic_reference'' then Some (z\<lparr>bk_TopicID := bk_TopicID b, bk_Title := bk_Title b\<rparr>)
     else if ty = ''card'' then Some (z\<lparr>bk_CardID := bk_CardID b, bk_CardType := bk_CardType b, bk_SchemaVersion := bk_SchemaVersion b, bk_FallbackText := bk_FallbackText b\<rparr>)
     else None)"

definition block_part :: "(string \<Rightarrow> string) \<Rightarrow> Block \<Rightarrow> string" where
  "block_part md b =
    (let ty = bk_Type b in
     if ty = ''text'' then md (bk_Text b)
     else if ty = ''mention'' then ''@'' @ bk_Label b
     else if ty = ''link'' then (if bk_Label b = [] then bk_URL b else bk_Label b)
     else if ty = ''emoji'' then (if HasPrefix (bk_Shortcode b) ''custom:'' then (utf8 [0x005B, 0x8868, 0x60C5, 0x005D]) else '':'' @ bk_Shortcode b @ '':'')
     else if ty = ''attachment'' then (utf8 [0x005B, 0x6587, 0x4EF6, 0x005D])
     else if ty = ''emote_collection'' then (utf8 [0x005B, 0x8868, 0x60C5, 0x5408, 0x96C6, 0x005D])
     else if ty = ''topic_reference'' then ''#'' @ bk_Title b
     else if ty = ''card'' then bk_FallbackText b
     else [])"

definition buildPlainText :: "(string \<Rightarrow> string) \<Rightarrow> Block list \<Rightarrow> string" where
  "buildPlainText md blocks = concat (map (block_part md) blocks)"

definition messages_ProjectPlainText :: "(string \<Rightarrow> string) \<Rightarrow> Block list \<Rightarrow> string" where
  "messages_ProjectPlainText md blocks = nodeSummaryTrim (buildPlainText md blocks)"

definition projectContent :: "(string \<Rightarrow> string) \<Rightarrow> string \<Rightarrow> string \<Rightarrow> (string, EmoteCollectionShare) gomap \<Rightarrow> (string, Content) result" where
  "projectContent md raw fallbackPlainText shares =
    (if raw = [] then Inr \<lparr>ct_Format = MessageContentFormat, ct_PlainText = TrimSpace fallbackPlainText, ct_Blocks = []\<rparr>
     else case decode_content raw of
       None \<Rightarrow> Inl ''message content is not valid JSON''
     | Some decoded \<Rightarrow>
         let blocks = List.map_filter (projectBlock shares) (ct_Blocks decoded); plain = messages_ProjectPlainText md blocks in
         Inr \<lparr>ct_Format = (if ct_Format decoded \<noteq> [] then ct_Format decoded else MessageContentFormat),
              ct_PlainText = (if plain = [] then TrimSpace fallbackPlainText else plain), ct_Blocks = blocks\<rparr>)"

definition projectAttachment :: "AttachmentRecord \<Rightarrow> AuthActor option \<Rightarrow> Attachment" where
  "projectAttachment r viewer =
    (let name = (if ar_UploaderName r = [] then (case viewer of None \<Rightarrow> [] | Some a \<Rightarrow> actor_DisplayName a) else ar_UploaderName r) in
     \<lparr>aa_ID = ar_ID r, aa_FileName = ar_FileName r, aa_MIMEType = ar_MIMEType r, aa_ByteSize = ar_ByteSize r, aa_Status = ar_Status r,
      aa_Visibility = ar_Visibility r, aa_UploaderID = ar_UploaderID r, aa_UploaderName = name, aa_ConversationID = ar_ConversationID r,
      aa_CreatedAt = formatTimestamp (ar_CreatedAt r), aa_CompletedAt = formatNullableTimestamp (ar_CompletedAt r),
      aa_AvailableAt = formatNullableTimestamp (ar_CompletedAt r), aa_CanDownload = (ar_Status r = ''available''),
      aa_CanRemove = (case viewer of None \<Rightarrow> False | Some a \<Rightarrow> ar_Status r = ''available'' \<and>
        (ar_UploaderID r = actor_ID a \<or> actor_Role a = ''owner'' \<or> actor_Role a = ''admin''))\<rparr>)"

definition author_name :: "MessageRecord \<Rightarrow> string" where
  "author_name r =
    (let n = firstNonEmpty [mx_AuthorRemark r, mx_AuthorNickname r, mx_AuthorGitHubLogin r, mx_AuthorName r] in
     if n \<noteq> [] then n else if mx_AuthorKind r = ''bot'' then ''Bot'' else (utf8 [0x6210, 0x5458]))"

definition is_recalled :: "time option \<Rightarrow> bool" where
  "is_recalled v \<longleftrightarrow> (case v of None \<Rightarrow> False | Some t \<Rightarrow> t \<noteq> zero_time)"

definition may_unpin :: "AuthActor option \<Rightarrow> string option \<Rightarrow> bool" where
  "may_unpin viewer authorID \<longleftrightarrow> (case viewer of None \<Rightarrow> False
     | Some a \<Rightarrow> actor_Role a = ''owner'' \<or> actor_Role a = ''admin'' \<or> authorID = Some (actor_ID a))"

text \<open>The fields the two branches of the projection share.\<close>

definition message_head :: "MessageRecord \<Rightarrow> ReactionGroup list \<Rightarrow> Message" where
  "message_head r reactions =
    (let human = mx_AuthorKind r = ''human'' in
     \<lparr>mg_ID = mx_ID r, mg_ConversationID = mx_ConversationID r, mg_TopicID = mx_TopicID r, mg_AuthorID = mx_AuthorID r, mg_AuthorName = author_name r,
      mg_AuthorNickname = (if human then mx_AuthorNickname r else []), mg_AuthorRemark = (if human then mx_AuthorRemark r else []),
      mg_AuthorGitHubLogin = (if human then mx_AuthorGitHubLogin r else []), mg_AuthorAvatarURL = sanitizeMessageAvatar (mx_AuthorAvatarURL r),
      mg_AuthorKind = mx_AuthorKind r, mg_Kind = mx_Kind r, mg_ClientMessageID = mx_ClientMessageID r, mg_Content = zero_content, mg_PlainText = [],
      mg_ReplyToMessageID = mx_ReplyToMessageID r, mg_CreatedAt = formatTimestamp (mx_CreatedAt r), mg_EditedAt = formatNullableTimestamp (mx_EditedAt r),
      mg_DeletedAt = formatNullableTimestamp (mx_DeletedAt r), mg_RecalledAt = formatNullableTimestamp (mx_RecalledAt r), mg_RecallReason = None,
      mg_Attachments = [], mg_Reactions = reactions, mg_HiddenByCurrentUser = mx_HiddenByCurrentUser r, mg_Pin = None\<rparr>)"

definition messages_projectMessage :: "(string \<Rightarrow> string) \<Rightarrow> MessageRecord \<Rightarrow> AttachmentRecord list \<Rightarrow> ReactionGroup list \<Rightarrow> AuthActor option \<Rightarrow> (string, Message) result" where
  "messages_projectMessage md r atts reactions viewer =
    (let m = message_head r reactions in
     if is_recalled (mx_RecalledAt r) then
       let reason = firstNonEmptyPtr (mx_RecallReason r) DefaultRecallReason in
       Inr (m\<lparr>mg_Content := \<lparr>ct_Format = MessageContentFormat, ct_PlainText = [], ct_Blocks = []\<rparr>,
         mg_PlainText := author_name r @ (utf8 [0x56E0]) @ reason @ (utf8 [0x64A4, 0x56DE, 0x4E86, 0x4E00, 0x6761, 0x6D88, 0x606F]), mg_RecallReason := Some reason,
         mg_ReplyToMessageID := None, mg_Attachments := [], mg_Reactions := []\<rparr>)
     else result_bind (projectContent md (mx_ContentJSON r) (mx_PlainText r) (mx_EmoteCollectionShares r)) (\<lambda>content.
       Inr (m\<lparr>mg_Content := content, mg_PlainText := ct_PlainText content,
         mg_Pin := (case (mx_PinnedByUserID r, mx_PinnedAt r) of
             (Some u, Some t) \<Rightarrow> if t = zero_time then None
               else Some \<lparr>mp_PinnedByUserID = u, mp_PinnedAt = formatTimestamp t, mp_CanUnpin = may_unpin viewer (mx_AuthorID r)\<rparr>
           | _ \<Rightarrow> None),
         mg_Attachments := map (\<lambda>a. projectAttachment a viewer) atts\<rparr>)))"

definition ProjectMessage :: "(string \<Rightarrow> string) \<Rightarrow> MessageRecord \<Rightarrow> AttachmentRecord list \<Rightarrow> ReactionGroup list \<Rightarrow> (string, Message) result" where
  "ProjectMessage md r atts reactions = messages_projectMessage md r atts reactions None"

definition ProjectMessageForViewer :: "(string \<Rightarrow> string) \<Rightarrow> MessageRecord \<Rightarrow> AttachmentRecord list \<Rightarrow> ReactionGroup list \<Rightarrow> AuthActor option \<Rightarrow> (string, Message) result" where
  "ProjectMessageForViewer md r atts reactions viewer = messages_projectMessage md r atts reactions viewer"

end
