(* ===== verification/Conversations_Store.thy ===== *)
theory Conversations_Store
  imports Messages_Model "HOL-Library.List_Lexorder" "HOL-Library.Char_ord"
begin

text \<open>
  The storage of conversations: conversations/model.go, conversations/errors.go,
  conversations/pg\_repository.go and the queries of conversations/topic\_pins.go, with the reads of
  attachments, reactions and hidden messages of messages/pg\_repository.go, for the default space.
  \<open>collate\<close> arranges distinct strings in the order of the database.
\<close>

section \<open>Values\<close>

record ConversationRecord =
  cd_ID :: string
  cd_SpaceID :: string
  cd_Type :: string
  cd_Title :: string
  cd_AvatarEmoji :: "string option"
  cd_RetentionCount :: int
  cd_CreatedAt :: time
  cd_LastActivityAt :: time
  cd_MessageCount :: int
  cd_UnreadCount :: int
  cd_LastReadMessageID :: "string option"
  cd_LastReadAt :: "time option"
  cd_LastReadSeq :: "int option"
  cd_NotificationLevel :: string

text \<open>A pin without the message it is attached to, as the message record carries it.\<close>

record PinInfo =
  pi_MessageID :: string
  pi_PinnedByUserID :: string
  pi_CreatedAt :: time

record conversations_MessageRecord =
  cr_TopicID :: string
  cr_TopicReadOnly :: bool
  cr_ID :: string
  cr_ConversationID :: string
  cr_AuthorID :: "string option"
  cr_AuthorName :: string
  cr_AuthorNickname :: string
  cr_AuthorRemark :: string
  cr_AuthorGitHubLogin :: string
  cr_AuthorAvatarURL :: string
  cr_AuthorKind :: string
  cr_Kind :: string
  cr_ClientMessageID :: "string option"
  cr_ContentJSON :: string
  cr_PlainText :: string
  cr_ReplyToMessageID :: "string option"
  cr_CreatedAt :: time
  cr_EditedAt :: "time option"
  cr_DeletedAt :: "time option"
  cr_RecalledAt :: "time option"
  cr_RecallReason :: "string option"
  cr_HiddenByCurrentUser :: bool
  cr_Attachments :: "AttachmentRecord list"
  cr_Reactions :: "ReactionGroup list"
  cr_EmoteCollectionShares :: "(string, EmoteCollectionShare) gomap"
  cr_Pin :: "PinInfo option"

record PinRecord = PinInfo +
  pi_Message :: conversations_MessageRecord

record ReadMarker =
  rk_MessageID :: "string option"
  rk_ReadAt :: time
  rk_Sequence :: int

definition MaxPinnedMessages :: int where "MaxPinnedMessages = 3"

section \<open>Errors\<close>

definition pinPermissionDeniedError :: Error where "pinPermissionDeniedError = NewError ''permission.denied'' (utf8 [0x4F60, 0x6CA1, 0x6709, 0x53D6, 0x6D88, 0x6B64, 0x5E38, 0x9A7B, 0x6D88, 0x606F, 0x7684, 0x6743, 0x9650]) 403"
definition conversationNotFoundError :: Error where "conversationNotFoundError = NewError ''conversation.not_found'' (utf8 [0x4F60, 0x65E0, 0x6CD5, 0x8BBF, 0x95EE, 0x6B64, 0x4F1A, 0x8BDD]) 403"
definition messageNotFoundError :: Error where "messageNotFoundError = NewError ''message.not_found'' (utf8 [0x6D88, 0x606F, 0x4E0D, 0x5B58, 0x5728]) 404"

text \<open>An internal error whose cause is already worded.\<close>

definition tx_internal :: "'a tx \<Rightarrow> 'a tx" where
  "tx_internal m s = (case m s of (Inl err, s1) \<Rightarrow> (Inl (Domain ((internalError [] [])\<lparr>err_Cause := Some (err_text err)\<rparr>)), s1) | (Inr x, s1) \<Rightarrow> (Inr x, s1))"

section \<open>Orders\<close>

definition order_asc :: "(string list \<Rightarrow> string list) \<Rightarrow> ('r \<Rightarrow> string) \<Rightarrow> 'r list \<Rightarrow> 'r list" where
  "order_asc collate key rows = concat (map (\<lambda>k. filter (\<lambda>r. key r = k) rows) (collate (remdups (map key rows))))"

definition order_desc :: "(string list \<Rightarrow> string list) \<Rightarrow> ('r \<Rightarrow> string) \<Rightarrow> 'r list \<Rightarrow> 'r list" where
  "order_desc collate key rows = concat (map (\<lambda>k. filter (\<lambda>r. key r = k) rows) (rev (collate (remdups (map key rows)))))"

text \<open>ORDER BY created\_at DESC, id DESC of messages.\<close>

definition newest_first :: "(string list \<Rightarrow> string list) \<Rightarrow> message_row list \<Rightarrow> message_row list" where
  "newest_first collate rows = sort_key (\<lambda>m. - ms_created_at m) (order_desc collate ms_id rows)"

section \<open>Rows\<close>

definition remark_of :: "string \<Rightarrow> string \<Rightarrow> workspace \<Rightarrow> string option" where
  "remark_of viewerID userID ws =
    map_option rk_remark (first_row (filter (\<lambda>k. rk_owner_user_id k = viewerID \<and> rk_target_user_id k = userID) (ws_remarks ws)))"

definition conversation_of :: "string \<Rightarrow> workspace \<Rightarrow> conversation_row option" where
  "conversation_of conversationID ws =
    first_row (filter (\<lambda>c. c_id c = conversationID \<and> c_space_id c = DefaultSpaceID) (conversations (ws_rest ws)))"

definition active_in :: "string \<Rightarrow> conversation_member_row \<Rightarrow> bool" where
  "active_in conversationID cm \<longleftrightarrow> cm_conversation_id cm = conversationID \<and> \<not> cm_removed cm"

definition participants :: "string \<Rightarrow> workspace \<Rightarrow> conversation_member_row list" where
  "participants conversationID ws =
    (if conversation_of conversationID ws = None then [] else filter (active_in conversationID) (conversation_members (ws_rest ws)))"

text \<open>The messages of a conversation outside topics that are not deleted.\<close>

definition live_messages :: "string \<Rightarrow> workspace \<Rightarrow> message_row list" where
  "live_messages conversationID ws =
    filter (\<lambda>m. ms_space_id m = DefaultSpaceID \<and> ms_conversation_id m = conversationID \<and> ms_topic_id m = None \<and> ms_deleted_at m = None) (ws_messages ws)"

definition created_event :: "string \<Rightarrow> EventRecord \<Rightarrow> bool" where
  "created_event messageID ev \<longleftrightarrow> er_SpaceID ev = DefaultSpaceID \<and> er_Type ev = ''message.created'' \<and> er_TargetID ev = Some messageID"

definition unread_message :: "workspace \<Rightarrow> conversation_member_row \<Rightarrow> message_row \<Rightarrow> bool" where
  "unread_message ws cm m \<longleftrightarrow> ms_author_id m \<noteq> Some (cm_user_id cm) \<and>
     (case cm_last_read_seq cm of
        Some n \<Rightarrow> list_ex (\<lambda>ev. created_event (ms_id m) ev \<and> er_Seq ev > n) (workspace_events (ws_rest ws))
      | None \<Rightarrow> (case cm_last_read_at cm of None \<Rightarrow> True | Some t \<Rightarrow> ms_created_at m > t))"

definition scanConversationRecord :: "workspace \<Rightarrow> conversation_row \<Rightarrow> conversation_member_row \<Rightarrow> ConversationRecord" where
  "scanConversationRecord ws c cm =
    (let live = live_messages (c_id c) ws in
     \<lparr>cd_ID = c_id c, cd_SpaceID = c_space_id c, cd_Type = c_type c, cd_Title = c_title c, cd_AvatarEmoji = c_avatar_emoji c,
      cd_RetentionCount = c_retention_count c, cd_CreatedAt = c_created_at c,
      cd_LastActivityAt = (case map ms_created_at live of [] \<Rightarrow> c_created_at c | t # ts \<Rightarrow> fold max ts t),
      cd_MessageCount = int (length live), cd_UnreadCount = int (length (filter (unread_message ws cm) live)),
      cd_LastReadMessageID = cm_last_read_message_id cm, cd_LastReadAt = cm_last_read_at cm, cd_LastReadSeq = cm_last_read_seq cm,
      cd_NotificationLevel = cm_notification_level cm\<rparr>)"

definition scanBaseConversationRecord :: "conversation_row \<Rightarrow> ConversationRecord" where
  "scanBaseConversationRecord c =
    \<lparr>cd_ID = c_id c, cd_SpaceID = c_space_id c, cd_Type = c_type c, cd_Title = c_title c, cd_AvatarEmoji = c_avatar_emoji c,
     cd_RetentionCount = c_retention_count c, cd_CreatedAt = c_created_at c, cd_LastActivityAt = c_created_at c, cd_MessageCount = 0, cd_UnreadCount = 0,
     cd_LastReadMessageID = None, cd_LastReadAt = None, cd_LastReadSeq = None, cd_NotificationLevel = ''all''\<rparr>"

definition conversation_rows :: "string \<Rightarrow> workspace \<Rightarrow> (conversation_row \<times> conversation_member_row) list" where
  "conversation_rows actorID ws =
    [(c, cm). c \<leftarrow> conversations (ws_rest ws), c_space_id c = DefaultSpaceID, cm \<leftarrow> conversation_members (ws_rest ws),
       active_in (c_id c) cm \<and> cm_user_id cm = actorID]"

definition joined_record :: "string \<Rightarrow> workspace \<Rightarrow> account_row \<Rightarrow> member_row \<Rightarrow> time \<Rightarrow> MemberRecord" where
  "joined_record viewerID ws u m joined =
    \<lparr>mr_ID = ac_id u, mr_GitHubLogin = ac_github_login u, mr_DisplayName = ac_display_name u, mr_Description = [], mr_Nickname = ac_nickname u,
     mr_Remark = remark_of viewerID (ac_id u) ws, mr_AvatarURL = stringValue (ac_avatar_url u), mr_SearchDiscoverable = ac_search_discoverable u,
     mr_RecallReason = ac_recall_reason u, mr_Kind = ac_kind u, mr_Role = mb_role m, mr_JoinedAt = joined, mr_NormallyVisible = False\<rparr>"

text \<open>COALESCE over remark, nickname, login, with the text for an unknown author.\<close>

definition coalesced_name :: "string \<Rightarrow> string option \<Rightarrow> account_row option \<Rightarrow> string" where
  "coalesced_name unknown remark u =
    (case remark of Some r \<Rightarrow> r | None \<Rightarrow> (case u of None \<Rightarrow> unknown | Some a \<Rightarrow> (case ac_nickname a of Some n \<Rightarrow> n | None \<Rightarrow> ac_github_login a)))"

definition pin_of :: "message_row \<Rightarrow> workspace \<Rightarrow> pin_row option" where
  "pin_of m ws = first_row (filter (\<lambda>p. pn_message_id p = ms_id m \<and> pn_conversation_id p = ms_conversation_id m) (ws_pins ws))"

definition scanMessageRecord :: "string \<Rightarrow> workspace \<Rightarrow> message_row \<Rightarrow> conversations_MessageRecord" where
  "scanMessageRecord viewerID ws m =
    (let u = Option.bind (ms_author_id m) (\<lambda>i. account i ws); remark = Option.bind u (\<lambda>a. remark_of viewerID (ac_id a) ws) in
     \<lparr>cr_TopicID = stringValue (ms_topic_id m), cr_TopicReadOnly = False, cr_ID = ms_id m, cr_ConversationID = ms_conversation_id m,
      cr_AuthorID = ms_author_id m, cr_AuthorName = coalesced_name (utf8 [0x6210, 0x5458]) remark u,
      cr_AuthorNickname = stringValue (Option.bind u ac_nickname), cr_AuthorRemark = stringValue remark,
      cr_AuthorGitHubLogin = (case u of None \<Rightarrow> [] | Some a \<Rightarrow> ac_github_login a), cr_AuthorAvatarURL = stringValue (Option.bind u ac_avatar_url),
      cr_AuthorKind = ms_author_kind m, cr_Kind = ms_kind m, cr_ClientMessageID = ms_client_message_id m, cr_ContentJSON = ms_content_json m,
      cr_PlainText = ms_plain_text m, cr_ReplyToMessageID = ms_reply_to_message_id m, cr_CreatedAt = ms_created_at m, cr_EditedAt = ms_edited_at m,
      cr_DeletedAt = ms_deleted_at m, cr_RecalledAt = ms_recalled_at m, cr_RecallReason = ms_recall_reason m, cr_HiddenByCurrentUser = False,
      cr_Attachments = [], cr_Reactions = [], cr_EmoteCollectionShares = [],
      cr_Pin = map_option (\<lambda>p. \<lparr>pi_MessageID = ms_id m, pi_PinnedByUserID = pn_pinned_by_user_id p, pi_CreatedAt = pn_created_at p\<rparr>) (pin_of m ws)\<rparr>)"

definition scanPinRecord :: "string \<Rightarrow> workspace \<Rightarrow> pin_row \<Rightarrow> message_row \<Rightarrow> PinRecord" where
  "scanPinRecord viewerID ws p m =
    \<lparr>pi_MessageID = pn_message_id p, pi_PinnedByUserID = pn_pinned_by_user_id p, pi_CreatedAt = pn_created_at p,
     pi_Message = (scanMessageRecord viewerID ws m)\<lparr>cr_Pin := None\<rparr>\<rparr>"

section \<open>Queries\<close>

definition conversations_LookupActor :: "tx_env \<Rightarrow> string \<Rightarrow> AuthActor option tx" where
  "conversations_LookupActor e userID =
    tx_wrap ''lookup conversation actor'' (tx_read e (\<lambda>ws. first_row [scanActor u m. (u, m) \<leftarrow> space_users ws, ac_id u = userID]))"

definition ListConversationRecords :: "(string list \<Rightarrow> string list) \<Rightarrow> tx_env \<Rightarrow> string \<Rightarrow> ConversationRecord list tx" where
  "ListConversationRecords collate e actorID =
    tx_wrap ''list conversations'' (tx_read e (\<lambda>ws. sort_key (\<lambda>r. - cd_LastActivityAt r) (sort_key (\<lambda>r. - cd_CreatedAt r)
      (order_desc collate cd_ID (map (\<lambda>(c, cm). scanConversationRecord ws c cm) (conversation_rows actorID ws))))))"

definition GetVisibleConversationRecord :: "tx_env \<Rightarrow> string \<Rightarrow> string \<Rightarrow> ConversationRecord option tx" where
  "GetVisibleConversationRecord e actorID conversationID =
    tx_wrap ''get conversation'' (tx_read e (\<lambda>ws. first_row
      [scanConversationRecord ws c cm. (c, cm) \<leftarrow> conversation_rows actorID ws, c_id c = conversationID]))"

definition FindConversation :: "tx_env \<Rightarrow> string \<Rightarrow> ConversationRecord option tx" where
  "FindConversation e conversationID =
    tx_wrap ''find conversation'' (tx_read e (\<lambda>ws. map_option scanBaseConversationRecord (conversation_of conversationID ws)))"

definition FindDirectConversation :: "tx_env \<Rightarrow> string \<Rightarrow> ConversationRecord option tx" where
  "FindDirectConversation e key =
    tx_wrap ''find direct conversation'' (tx_read e (\<lambda>ws. map_option scanBaseConversationRecord
      (first_row (filter (\<lambda>c. c_space_id c = DefaultSpaceID \<and> c_direct_key c = Some key) (conversations (ws_rest ws))))))"

definition ListConversationMembers :: "(string list \<Rightarrow> string list) \<Rightarrow> tx_env \<Rightarrow> string \<Rightarrow> string \<Rightarrow> MemberRecord list tx" where
  "ListConversationMembers collate e conversationID viewerID =
    tx_wrap ''list conversation members'' (tx_read e (\<lambda>ws. order_asc collate mr_DisplayName (order_asc collate mr_ID
      [joined_record viewerID ws u m (cm_joined_at cm). cm \<leftarrow> participants conversationID ws, (u, m) \<leftarrow> space_users ws, ac_id u = cm_user_id cm])))"

definition conversations_boundedLimit :: "int \<Rightarrow> int \<Rightarrow> int \<Rightarrow> int" where
  "conversations_boundedLimit value fallback maximum = (if value \<le> 0 then fallback else if value > maximum then maximum else value)"

definition ListLatestMessages :: "(string list \<Rightarrow> string list) \<Rightarrow> tx_env \<Rightarrow> string \<Rightarrow> string \<Rightarrow> int \<Rightarrow> conversations_MessageRecord list tx" where
  "ListLatestMessages collate e conversationID viewerID max_rows =
    tx_wrap ''list latest messages'' (tx_read e (\<lambda>ws. rev (map (scanMessageRecord viewerID ws)
      (take (nat (conversations_boundedLimit max_rows 20 100)) (newest_first collate (live_messages conversationID ws))))))"

definition FindMember :: "tx_env \<Rightarrow> string \<Rightarrow> MemberRecord option tx" where
  "FindMember e userID =
    tx_wrap ''find space member'' (tx_read e (\<lambda>ws. first_row [joined_record [] ws u m (mb_joined_at m). (u, m) \<leftarrow> space_users ws, ac_id u = userID]))"

definition member_visible :: "string \<Rightarrow> string \<Rightarrow> workspace \<Rightarrow> bool" where
  "member_visible viewerID targetID ws \<longleftrightarrow>
     list_ex (\<lambda>m. active_member DefaultSpaceID viewerID m \<and> mb_role m = ''owner'') (ws_members ws) \<or>
     list_ex (active_member DefaultSpaceID targetID) (ws_members ws) \<and>
       (viewerID = targetID \<or> granted DefaultSpaceID viewerID targetID (ws_rest ws) \<or> direct_between False DefaultSpaceID viewerID targetID (ws_rest ws) \<or>
        targetID \<in> set system_users)"

definition MemberVisible :: "tx_env \<Rightarrow> string \<Rightarrow> string \<Rightarrow> bool tx" where
  "MemberVisible e viewerID targetID = tx_wrap ''check member visibility'' (tx_read e (member_visible viewerID targetID))"

definition SharesActiveGroup :: "tx_env \<Rightarrow> string \<Rightarrow> string \<Rightarrow> bool tx" where
  "SharesActiveGroup e actorID targetID =
    tx_wrap ''check shared group'' (tx_read e (\<lambda>ws. list_ex (\<lambda>c. c_space_id c = DefaultSpaceID \<and> c_type c = ''group'' \<and>
      list_ex (\<lambda>cm. active_in (c_id c) cm \<and> cm_user_id cm = actorID) (conversation_members (ws_rest ws)) \<and>
      list_ex (\<lambda>cm. active_in (c_id c) cm \<and> cm_user_id cm = targetID) (conversation_members (ws_rest ws))) (conversations (ws_rest ws))))"

definition is_participant :: "string \<Rightarrow> string \<Rightarrow> workspace \<Rightarrow> bool" where
  "is_participant conversationID userID ws \<longleftrightarrow> list_ex (\<lambda>cm. cm_user_id cm = userID) (participants conversationID ws)"

definition ConversationMemberActive :: "tx_env \<Rightarrow> string \<Rightarrow> string \<Rightarrow> bool tx" where
  "ConversationMemberActive e conversationID userID = tx_wrap ''check conversation member'' (tx_read e (is_participant conversationID userID))"

definition CountActiveConversationMembers :: "tx_env \<Rightarrow> string \<Rightarrow> int tx" where
  "CountActiveConversationMembers e conversationID =
    tx_wrap ''count conversation members'' (tx_read e (\<lambda>ws. int (length (participants conversationID ws))))"

definition FindMessageForPin :: "tx_env \<Rightarrow> string \<Rightarrow> string \<Rightarrow> conversations_MessageRecord option tx" where
  "FindMessageForPin e conversationID messageID =
    tx_wrap ''find pin message'' (tx_read e (\<lambda>ws. map_option (scanMessageRecord [] ws) (first_row (filter (\<lambda>m.
      ms_space_id m = DefaultSpaceID \<and> ms_conversation_id m = conversationID \<and> ms_id m = messageID \<and> ms_deleted_at m = None) (ws_messages ws)))))"

text \<open>topicPinVisibleSQL and topicPinStatusSQL: the open membership of topic, conversation and space.\<close>

definition topic_role :: "string \<Rightarrow> workspace \<Rightarrow> bool" where
  "topic_role viewerID ws \<longleftrightarrow> list_ex (\<lambda>(u, m). ac_id u = viewerID \<and> ac_kind u = ''human'' \<and> mb_role m \<in> set [''owner'', ''admin'', ''member'']) (space_users ws)"

definition topic_open_to :: "string \<Rightarrow> workspace \<Rightarrow> topic_row \<Rightarrow> bool" where
  "topic_open_to viewerID ws tp \<longleftrightarrow> t_space_id tp = DefaultSpaceID \<and> topic_joined (t_id tp) viewerID (ws_rest ws) \<and> topic_role viewerID ws \<and>
     list_ex (\<lambda>cm. active_in (t_conversation_id tp) cm \<and> cm_user_id cm = viewerID) (conversation_members (ws_rest ws))"

definition topic_pin_visible :: "string \<Rightarrow> workspace \<Rightarrow> message_row \<Rightarrow> bool" where
  "topic_pin_visible viewerID ws m \<longleftrightarrow> (case ms_topic_id m of None \<Rightarrow> True
     | Some i \<Rightarrow> list_ex (\<lambda>tp. t_id tp = i \<and> t_conversation_id tp = ms_conversation_id m \<and> topic_open_to viewerID ws tp) (topics (ws_rest ws)))"

definition TopicPinStatus :: "tx_env \<Rightarrow> string \<Rightarrow> string \<Rightarrow> string \<Rightarrow> string tx" where
  "TopicPinStatus e conversationID topicID viewerID =
    tx_wrap ''check topic pin access'' (tx_read e (\<lambda>ws. stringValue (map_option t_status (first_row (filter (\<lambda>tp.
      t_id tp = topicID \<and> t_conversation_id tp = conversationID \<and> topic_open_to viewerID ws tp) (topics (ws_rest ws)))))))"

definition pinned_messages :: "string \<Rightarrow> string \<Rightarrow> workspace \<Rightarrow> (pin_row \<times> message_row) list" where
  "pinned_messages conversationID viewerID ws =
    [(p, m). p \<leftarrow> ws_pins ws, pn_conversation_id p = conversationID, m \<leftarrow> ws_messages ws,
       ms_id m = pn_message_id p \<and> ms_space_id m = DefaultSpaceID \<and> topic_pin_visible viewerID ws m]"

definition FindPin :: "tx_env \<Rightarrow> string \<Rightarrow> string \<Rightarrow> string \<Rightarrow> PinRecord option tx" where
  "FindPin e conversationID messageID viewerID =
    tx_wrap ''find message pin'' (tx_read e (\<lambda>ws. first_row
      [scanPinRecord viewerID ws p m. (p, m) \<leftarrow> pinned_messages conversationID viewerID ws, pn_message_id p = messageID]))"

definition PG_ListPins :: "(string list \<Rightarrow> string list) \<Rightarrow> tx_env \<Rightarrow> string \<Rightarrow> string \<Rightarrow> int \<Rightarrow> PinRecord list tx" where
  "PG_ListPins collate e conversationID viewerID max_rows =
    tx_wrap ''list message pins'' (tx_read e (\<lambda>ws. take (nat (conversations_boundedLimit max_rows 20 100))
      (sort_key (\<lambda>p. - pi_CreatedAt p) (order_desc collate pi_MessageID
        [scanPinRecord viewerID ws p m. (p, m) \<leftarrow> pinned_messages conversationID viewerID ws, ms_deleted_at m = None]))))"

subsection \<open>What belongs to a message\<close>

definition attachment_records :: "(string list \<Rightarrow> string list) \<Rightarrow> string \<Rightarrow> workspace \<Rightarrow> string \<Rightarrow> AttachmentRecord list" where
  "attachment_records collate viewerID ws messageID =
    sort_key ar_CreatedAt (order_asc collate ar_ID
      [\<lparr>ar_ID = at_id a, ar_SpaceID = at_space_id a, ar_UploaderID = at_uploader_id a,
        ar_UploaderName = coalesced_name []
          (if list_ex (active_member DefaultSpaceID (ac_id u)) (ws_members ws) then remark_of viewerID (ac_id u) ws else None) (Some u),
        ar_ConversationID = at_conversation_id a, ar_Visibility = at_visibility a, ar_Status = at_status a, ar_FileName = at_file_name a,
        ar_MIMEType = at_mime_type a, ar_ByteSize = at_byte_size a, ar_CreatedAt = at_created_at a, ar_CompletedAt = at_completed_at a\<rparr>.
       (i, j) \<leftarrow> ws_message_attachments ws, i = messageID \<and> list_ex (\<lambda>m. ms_id m = i \<and> ms_space_id m = DefaultSpaceID) (ws_messages ws),
       a \<leftarrow> attachments (ws_rest ws), at_id a = j \<and> at_space_id a = DefaultSpaceID, u \<leftarrow> ws_users ws, ac_id u = at_uploader_id a])"

definition reaction_user :: "string \<Rightarrow> workspace \<Rightarrow> reaction_row \<Rightarrow> account_row \<Rightarrow> ReactionUser" where
  "reaction_user viewerID ws r u =
    \<lparr>ru_ID = ac_id u, ru_DisplayName = coalesced_name [] (remark_of viewerID (ac_id u) ws) (Some u), ru_GitHubLogin = ac_github_login u,
     ru_AvatarURL = sanitizeMessageAvatar (stringValue (ac_avatar_url u)), ru_CreatedAt = formatTimestamp (rx_created_at r)\<rparr>"

definition add_reaction :: "string \<Rightarrow> string \<Rightarrow> ReactionUser \<Rightarrow> ReactionGroup list \<Rightarrow> ReactionGroup list" where
  "add_reaction viewerID key u groups =
    (let groups1 = (if list_ex (\<lambda>g. rg_EmoteKey g = key) groups then groups
       else groups @ [\<lparr>rg_EmoteKey = key, rg_Count = 0, rg_ReactedByCurrentUser = False, rg_Users = []\<rparr>]) in
     update_where (\<lambda>g. rg_EmoteKey g = key) (\<lambda>g. g\<lparr>rg_Count := rg_Count g + 1,
       rg_ReactedByCurrentUser := (rg_ReactedByCurrentUser g \<or> ru_ID u = viewerID), rg_Users := rg_Users g @ [u]\<rparr>) groups1)"

definition reaction_groups :: "(string list \<Rightarrow> string list) \<Rightarrow> string \<Rightarrow> workspace \<Rightarrow> string \<Rightarrow> ReactionGroup list" where
  "reaction_groups collate viewerID ws messageID =
    fold (\<lambda>(r, u). add_reaction viewerID (rx_emote_key r) (reaction_user viewerID ws r u))
      (sort_key (\<lambda>(r, u). rx_created_at r) (order_asc collate (\<lambda>(r, u). ac_display_name u) (order_asc collate (\<lambda>(r, u). ac_id u)
        [(r, u). r \<leftarrow> ws_reactions ws, rx_message_id r = messageID \<and> list_ex (\<lambda>m. ms_id m = messageID \<and> ms_space_id m = DefaultSpaceID) (ws_messages ws),
           u \<leftarrow> ws_users ws, ac_id u = rx_user_id r]))) []"

definition hidden_for :: "string \<Rightarrow> workspace \<Rightarrow> string \<Rightarrow> bool" where
  "hidden_for viewerID ws messageID \<longleftrightarrow> (viewerID, messageID) \<in> set (ws_hidden ws) \<and>
     list_ex (\<lambda>m. ms_id m = messageID \<and> ms_space_id m = DefaultSpaceID) (ws_messages ws)"

definition ListAttachments :: "(string list \<Rightarrow> string list) \<Rightarrow> tx_env \<Rightarrow> string \<Rightarrow> string list \<Rightarrow> (string, AttachmentRecord list) gomap tx" where
  "ListAttachments collate e viewerID ids = tx_read e (\<lambda>ws. map (\<lambda>i. (i, attachment_records collate viewerID ws i)) ids)"

definition ListReactions :: "(string list \<Rightarrow> string list) \<Rightarrow> tx_env \<Rightarrow> string \<Rightarrow> string list \<Rightarrow> (string, ReactionGroup list) gomap tx" where
  "ListReactions collate e viewerID ids = tx_read e (\<lambda>ws. map (\<lambda>i. (i, reaction_groups collate viewerID ws i)) ids)"

definition ListHidden :: "tx_env \<Rightarrow> string \<Rightarrow> string list \<Rightarrow> (string, bool) gomap tx" where
  "ListHidden e viewerID ids = tx_read e (\<lambda>ws. map (\<lambda>i. (i, hidden_for viewerID ws i)) ids)"

section \<open>Statements\<close>

definition conversations_Lock :: "tx_env \<Rightarrow> string \<Rightarrow> unit tx" where
  "conversations_Lock e key0 = (if TrimSpace key0 = [] then tx_fail (Domain (internalError ''lock conversation resource'' ''lock key is required''))
     else tx_wrap ''lock conversation resource'' (tx_lock e))"

definition insert_conversation :: "conversation_row \<Rightarrow> db \<Rightarrow> (string, unit \<times> db) result" where
  "insert_conversation c d =
    (if c_id c \<in> set (map c_id (conversations d)) \<or>
        c_direct_key c \<noteq> None \<and> list_ex (\<lambda>x. c_space_id x = c_space_id c \<and> c_direct_key x = c_direct_key c) (conversations d)
     then Inl duplicate_key else Inr ((), d\<lparr>conversations := conversations d @ [c]\<rparr>))"

definition PG_CreateConversation :: "tx_env \<Rightarrow> string \<Rightarrow> string \<Rightarrow> string \<Rightarrow> string option \<Rightarrow> string option \<Rightarrow> string \<Rightarrow> time \<Rightarrow> unit tx" where
  "PG_CreateConversation e conversationID typeName title avatar key createdBy createdAt =
    tx_wrap ''create conversation'' (tx_write e (on_rest (insert_conversation
      \<lparr>c_id = conversationID, c_space_id = DefaultSpaceID, c_type = typeName, c_title = title, c_avatar_emoji = avatar, c_direct_key = key,
       c_retention_count = DefaultRetentionCount, c_created_by = Some createdBy, c_created_at = pg_timestamp createdAt\<rparr>)))"

definition upsert_member :: "string \<Rightarrow> string \<Rightarrow> time \<Rightarrow> db \<Rightarrow> bool \<times> db" where
  "upsert_member conversationID userID joinedAt d =
    (let hit = (\<lambda>cm. cm_conversation_id cm = conversationID \<and> cm_user_id cm = userID) in
     if list_ex hit (conversation_members d) then
       (list_ex (\<lambda>cm. hit cm \<and> cm_removed cm) (conversation_members d),
        d\<lparr>conversation_members := update_where (\<lambda>cm. hit cm \<and> cm_removed cm)
          (\<lambda>cm. cm\<lparr>cm_removed := False, cm_joined_at := pg_timestamp joinedAt\<rparr>) (conversation_members d)\<rparr>)
     else (True, d\<lparr>conversation_members := conversation_members d @ [\<lparr>cm_conversation_id = conversationID, cm_user_id = userID, cm_removed = False,
        cm_joined_at = pg_timestamp joinedAt, cm_last_read_message_id = None, cm_last_read_at = None, cm_last_read_seq = None,
        cm_notification_level = ''all''\<rparr>]\<rparr>))"

definition UpsertConversationMember :: "tx_env \<Rightarrow> string \<Rightarrow> string \<Rightarrow> time \<Rightarrow> bool tx" where
  "UpsertConversationMember e conversationID userID joinedAt =
    tx_wrap ''add conversation member'' (tx_write e (on_rest (\<lambda>d. Inr (upsert_member conversationID userID joinedAt d))))"

definition RemoveConversationMember :: "tx_env \<Rightarrow> string \<Rightarrow> string \<Rightarrow> bool tx" where
  "RemoveConversationMember e conversationID userID =
    tx_wrap ''remove conversation member'' (tx_write e (on_rest (\<lambda>d.
      let hit = (\<lambda>cm. active_in conversationID cm \<and> cm_user_id cm = userID) in
      Inr (list_ex hit (conversation_members d),
        d\<lparr>conversation_members := update_where hit (\<lambda>cm. cm\<lparr>cm_removed := True\<rparr>) (conversation_members d)\<rparr>))))"

definition PG_UpdateGroup :: "tx_env \<Rightarrow> string \<Rightarrow> string \<Rightarrow> string option \<Rightarrow> unit tx" where
  "PG_UpdateGroup e conversationID title avatar =
    io_bind (tx_wrap ''update group conversation'' (tx_write e (on_rest (\<lambda>d.
      let hit = (\<lambda>c. c_id c = conversationID \<and> c_space_id c = DefaultSpaceID \<and> c_type c = ''group'') in
      Inr (length (filter hit (conversations d)),
        d\<lparr>conversations := update_where hit (\<lambda>c. c\<lparr>c_title := title, c_avatar_emoji := avatar\<rparr>) (conversations d)\<rparr>))))) (\<lambda>n.
    if n \<noteq> 1 then tx_fail (Domain conversationNotFoundError) else io_return ())"

text \<open>Retention: of the messages that are not pinned the newest ones stay, the others are marked deleted.\<close>

definition retention_victims :: "(string list \<Rightarrow> string list) \<Rightarrow> string \<Rightarrow> int \<Rightarrow> workspace \<Rightarrow> string list" where
  "retention_victims collate conversationID retention ws =
    map ms_id (drop (nat (if retention \<le> 0 then DefaultRetentionCount else retention))
      (newest_first collate (filter (\<lambda>m. \<not> list_ex (\<lambda>p. pn_message_id p = ms_id m) (ws_pins ws)) (live_messages conversationID ws))))"

definition enforce_retention :: "(string list \<Rightarrow> string list) \<Rightarrow> string \<Rightarrow> int \<Rightarrow> time \<Rightarrow> workspace \<Rightarrow> workspace" where
  "enforce_retention collate conversationID retention deletedAt ws =
    (let victims = retention_victims collate conversationID retention ws in
     ws\<lparr>ws_messages := update_where (\<lambda>m. ms_id m \<in> set victims)
       (\<lambda>m. m\<lparr>ms_deleted_at := Some (case ms_deleted_at m of None \<Rightarrow> deletedAt | Some t \<Rightarrow> t)\<rparr>) (ws_messages ws)\<rparr>)"

definition system_message :: "string \<Rightarrow> string \<Rightarrow> string \<Rightarrow> string \<Rightarrow> time \<Rightarrow> message_row" where
  "system_message messageID conversationID contentJSON plainText createdAt =
    \<lparr>ms_id = messageID, ms_space_id = DefaultSpaceID, ms_conversation_id = conversationID, ms_topic_id = None, ms_author_id = None, ms_author_kind = ''system'',
     ms_kind = ''system'', ms_client_message_id = None, ms_content_json = contentJSON, ms_plain_text = plainText, ms_reply_to_message_id = None,
     ms_created_at = pg_timestamp createdAt, ms_edited_at = None, ms_deleted_at = None, ms_recalled_at = None, ms_recall_reason = None\<rparr>"

definition CreateSystemMessage :: "(string list \<Rightarrow> string list) \<Rightarrow> tx_env \<Rightarrow> string \<Rightarrow> string \<Rightarrow> string \<Rightarrow> string \<Rightarrow> time \<Rightarrow> int \<Rightarrow> conversations_MessageRecord tx" where
  "CreateSystemMessage collate e messageID conversationID contentJSON plainText createdAt retention =
    io_bind (tx_wrap ''create conversation system message'' (tx_write e (\<lambda>ws.
      result_bind (insert_unique ms_id (system_message messageID conversationID contentJSON plainText createdAt) (ws_messages ws))
        (\<lambda>rows. Inr ((), ws\<lparr>ws_messages := rows\<rparr>))))) (\<lambda>_.
    io_bind (tx_wrap ''enforce conversation system message retention'' (tx_write e (\<lambda>ws.
      Inr ((), enforce_retention collate conversationID retention (pg_timestamp createdAt) ws)))) (\<lambda>_.
    io_bind (FindMessageForPin e conversationID messageID) (\<lambda>found.
    case found of
      None \<Rightarrow> tx_fail (Domain (internalError ''read conversation system message'' ''system message is not visible after insert''))
    | Some r \<Rightarrow> io_return r)))"

text \<open>The newest message with its event: ORDER BY created\_at DESC, seq DESC NULLS LAST, id DESC.\<close>

definition marker_rows :: "(string list \<Rightarrow> string list) \<Rightarrow> string \<Rightarrow> workspace \<Rightarrow> (message_row \<times> int option) list" where
  "marker_rows collate conversationID ws =
    (let rows = concat (map (\<lambda>m. let seqs = map er_Seq (filter (\<lambda>ev. created_event (ms_id m) ev \<and> er_ConversationID ev = Some conversationID)
             (workspace_events (ws_rest ws))) in
           if seqs = [] then [(m, None)] else map (\<lambda>n. (m, Some n)) seqs) (order_desc collate ms_id (live_messages conversationID ws)))
     in sort_key (\<lambda>(m, s). - ms_created_at m)
       (sort_key (\<lambda>(m, s). case s of None \<Rightarrow> 0 | Some n \<Rightarrow> - n) (filter (\<lambda>(m, s). s \<noteq> None) rows) @ filter (\<lambda>(m, s). s = None) rows))"

definition MarkConversationRead :: "(string list \<Rightarrow> string list) \<Rightarrow> tx_env \<Rightarrow> string \<Rightarrow> string \<Rightarrow> time \<Rightarrow> ReadMarker tx" where
  "MarkConversationRead collate e conversationID userID now =
    io_bind (tx_wrap ''resolve conversation read marker'' (tx_read e (\<lambda>ws.
      let newest = first_row (marker_rows collate conversationID ws);
          last_seq = (case max_seq DefaultSpaceID (ws_rest ws) of None \<Rightarrow> 0 | Some n \<Rightarrow> n) in
      (case newest of
         None \<Rightarrow> \<lparr>rk_MessageID = None, rk_ReadAt = now, rk_Sequence = last_seq\<rparr>
       | Some (m, s) \<Rightarrow> \<lparr>rk_MessageID = Some (ms_id m), rk_ReadAt = ms_created_at m, rk_Sequence = (case s of None \<Rightarrow> last_seq | Some n \<Rightarrow> n)\<rparr>)))) (\<lambda>marker.
    io_bind (tx_wrap ''mark conversation read'' (tx_write e (on_rest (\<lambda>d. Inr ((), d\<lparr>conversation_members := update_where
      (\<lambda>cm. active_in conversationID cm \<and> cm_user_id cm = userID \<and> (case cm_last_read_seq cm of None \<Rightarrow> True | Some n \<Rightarrow> n \<le> rk_Sequence marker))
      (\<lambda>cm. cm\<lparr>cm_last_read_message_id := rk_MessageID marker, cm_last_read_at := Some (pg_timestamp (rk_ReadAt marker)),
        cm_last_read_seq := Some (rk_Sequence marker)\<rparr>) (conversation_members d)\<rparr>))))) (\<lambda>_. io_return marker))"

definition UpdateNotificationLevel :: "tx_env \<Rightarrow> string \<Rightarrow> string \<Rightarrow> string \<Rightarrow> unit tx" where
  "UpdateNotificationLevel e conversationID userID level =
    io_bind (tx_wrap ''update conversation notification'' (tx_write e (\<lambda>ws.
      let hit = (\<lambda>cm. active_in conversationID cm \<and> cm_user_id cm = userID \<and> conversation_of conversationID ws \<noteq> None); d = ws_rest ws in
      Inr (length (filter hit (conversation_members d)),
        ws\<lparr>ws_rest := d\<lparr>conversation_members := update_where hit (\<lambda>cm. cm\<lparr>cm_notification_level := level\<rparr>) (conversation_members d)\<rparr>\<rparr>)))) (\<lambda>n.
    if n \<noteq> 1 then tx_fail (Domain conversationNotFoundError) else io_return ())"

subsection \<open>Pins\<close>

definition counter_key :: "string \<Rightarrow> string \<Rightarrow> pin_counter_row \<Rightarrow> bool" where
  "counter_key conversationID userID k \<longleftrightarrow> pk_conversation_id k = conversationID \<and> pk_user_id k = userID"

text \<open>The upsert of the counter; no row comes back when it stands at the limit.\<close>

definition reserve_pin :: "string \<Rightarrow> string \<Rightarrow> workspace \<Rightarrow> int option \<times> workspace" where
  "reserve_pin conversationID userID ws =
    (case first_row (filter (counter_key conversationID userID) (ws_pin_counters ws)) of
       None \<Rightarrow> (Some 1, ws\<lparr>ws_pin_counters := ws_pin_counters ws @ [\<lparr>pk_conversation_id = conversationID, pk_user_id = userID, pk_pin_count = 1\<rparr>]\<rparr>)
     | Some k \<Rightarrow> if pk_pin_count k < MaxPinnedMessages
         then (Some (pk_pin_count k + 1),
           ws\<lparr>ws_pin_counters := update_where (counter_key conversationID userID) (\<lambda>k. k\<lparr>pk_pin_count := pk_pin_count k + 1\<rparr>) (ws_pin_counters ws)\<rparr>)
         else (None, ws))"

definition release_pin :: "string \<Rightarrow> string \<Rightarrow> workspace \<Rightarrow> workspace" where
  "release_pin conversationID userID ws = ws\<lparr>ws_pin_counters := update_where (counter_key conversationID userID)
     (\<lambda>k. k\<lparr>pk_pin_count := (if pk_pin_count k > 0 then pk_pin_count k - 1 else 0)\<rparr>) (ws_pin_counters ws)\<rparr>"

definition pin_key :: "string \<Rightarrow> string \<Rightarrow> pin_row \<Rightarrow> bool" where
  "pin_key conversationID messageID p \<longleftrightarrow> pn_conversation_id p = conversationID \<and> pn_message_id p = messageID"

definition insert_pin :: "string \<Rightarrow> string \<Rightarrow> string \<Rightarrow> time \<Rightarrow> workspace \<Rightarrow> bool \<times> workspace" where
  "insert_pin conversationID messageID userID createdAt ws =
    (if list_ex (pin_key conversationID messageID) (ws_pins ws) then (False, ws)
     else (True, ws\<lparr>ws_pins := ws_pins ws @ [\<lparr>pn_conversation_id = conversationID, pn_message_id = messageID, pn_pinned_by_user_id = userID,
       pn_created_at = pg_timestamp createdAt\<rparr>]\<rparr>))"

definition AddPin :: "tx_env \<Rightarrow> string \<Rightarrow> string \<Rightarrow> string \<Rightarrow> time \<Rightarrow> bool tx" where
  "AddPin e conversationID messageID userID createdAt =
    io_bind (tx_wrap ''reserve message pin'' (tx_write e (\<lambda>ws. Inr (reserve_pin conversationID userID ws)))) (\<lambda>reserved.
    case reserved of
      None \<Rightarrow> io_return False
    | Some _ \<Rightarrow>
        io_bind (tx_wrap ''add message pin'' (tx_write e (\<lambda>ws. Inr (insert_pin conversationID messageID userID createdAt ws)))) (\<lambda>added.
        if added then io_return True
        else io_bind (tx_wrap ''restore message pin counter'' (tx_write e (\<lambda>ws. Inr ((), release_pin conversationID userID ws)))) (\<lambda>_. io_return False)))"

definition RemovePin :: "tx_env \<Rightarrow> string \<Rightarrow> string \<Rightarrow> PinInfo option tx" where
  "RemovePin e conversationID messageID =
    io_bind (tx_wrap ''remove message pin'' (tx_write e (\<lambda>ws. Inr (first_row (filter (pin_key conversationID messageID) (ws_pins ws)),
      ws\<lparr>ws_pins := filter (\<lambda>p. \<not> pin_key conversationID messageID p) (ws_pins ws)\<rparr>)))) (\<lambda>gone.
    case gone of
      None \<Rightarrow> io_return None
    | Some p \<Rightarrow>
        io_bind (tx_wrap ''decrement message pin counter'' (tx_write e (\<lambda>ws. Inr ((), release_pin conversationID (pn_pinned_by_user_id p) ws)))) (\<lambda>_.
        io_return (Some \<lparr>pi_MessageID = messageID, pi_PinnedByUserID = pn_pinned_by_user_id p, pi_CreatedAt = pn_created_at p\<rparr>)))"

subsection \<open>Events and audit\<close>

definition conversations_event :: "tx_env \<Rightarrow> EventInput \<Rightarrow> unit tx" where
  "conversations_event e input s = tx_internal (tx_write e (on_rest (\<lambda>d.
     result_bind (conversations_WriteEvent (te_id e (tx_n s)) (\<lambda>i. te_fault e (Suc (tx_n s + i))) input d) (\<lambda>d1. Inr ((), d1))))) s"

definition conversations_WriteAudit :: "tx_env \<Rightarrow> auditInput \<Rightarrow> unit tx" where
  "conversations_WriteAudit e i =
    io_bind (tx_wrap ''generate conversation audit id'' (tx_newid e)) (\<lambda>auditID.
    if ai_CreatedAt i = zero_time then tx_fail (Domain (internalError ''write conversation audit'' ''audit timestamp is required''))
    else if TrimSpace (ai_Action i) = [] \<or> TrimSpace (ai_TargetType i) = []
    then tx_fail (Domain (internalError ''write conversation audit'' ''audit action and target are required''))
    else tx_wrap ''write conversation audit'' (tx_write e (insert_audit (audit_of auditID i (pg_timestamp (ai_CreatedAt i))))))"

end
