(* ===== verification/Conversations.thy ===== *)
theory Conversations
  imports Conversations_Store
begin

text \<open>
  The conversation service: conversations/service.go and conversations/topic\_pins.go, for the service
  of the default space. What the service is configured with is a record: the order of the database, the
  plain text of Markdown, the Unicode class of combining marks and the reader of shared emote
  collections, if one is set.
\<close>

record conversation_config =
  cf_collate :: "string list \<Rightarrow> string list"
  cf_markdown :: "string \<Rightarrow> string"
  cf_mark :: "rune \<Rightarrow> bool"
  cf_shares :: "(string \<Rightarrow> string list \<Rightarrow> workspace \<Rightarrow> (string, (string, EmoteCollectionShare) gomap) gomap) option"

section \<open>Text\<close>

definition isRegional :: "rune \<Rightarrow> bool" where
  "isRegional r \<longleftrightarrow> 0x1F1E6 \<le> r \<and> r \<le> 0x1F1FF"

definition isEmojiBase :: "rune \<Rightarrow> bool" where
  "isEmojiBase r \<longleftrightarrow> 0x1F000 \<le> r \<and> r \<le> 0x1FAFF \<or> 0x2600 \<le> r \<and> r \<le> 0x27FF \<or> 0x2300 \<le> r \<and> r \<le> 0x23FF"

definition emoji_modifier :: "(rune \<Rightarrow> bool) \<Rightarrow> rune \<Rightarrow> bool" where
  "emoji_modifier mark r \<longleftrightarrow> r = 0xFE0E \<or> r = 0xFE0F \<or> 0x1F3FB \<le> r \<and> r \<le> 0x1F3FF \<or> mark r"

text \<open>The loop over the runes with its two flags.\<close>

fun emoji_loop :: "(rune \<Rightarrow> bool) \<Rightarrow> bool \<Rightarrow> bool \<Rightarrow> rune list \<Rightarrow> bool" where
  "emoji_loop mark baseSeen waitingBase [] = (baseSeen \<and> \<not> waitingBase)"
| "emoji_loop mark baseSeen waitingBase (r # rs) =
    (if r = 0x200D then (if \<not> baseSeen \<or> waitingBase then False else emoji_loop mark baseSeen True rs)
     else if emoji_modifier mark r then (if \<not> baseSeen \<or> waitingBase then False else emoji_loop mark baseSeen waitingBase rs)
     else if isEmojiBase r then (if baseSeen \<and> \<not> waitingBase then False else emoji_loop mark True False rs)
     else False)"

definition singleEmoji :: "(rune \<Rightarrow> bool) \<Rightarrow> string \<Rightarrow> bool" where
  "singleEmoji mark v =
    (case map fst (runes v) of
       [] \<Rightarrow> False
     | [r] \<Rightarrow> isEmojiBase r
     | r # r2 # rs \<Rightarrow>
         if rs = [] \<and> isRegional r \<and> isRegional r2 then True
         else if r = 0x23 \<or> r = 0x2A \<or> 0x30 \<le> r \<and> r \<le> 0x39 then
           (let tail = (if r2 = 0xFE0F then rs else r2 # rs) in tail = [0x20E3])
         else emoji_loop mark False False (r # r2 # rs))"

definition invalidAvatar :: Error where "invalidAvatar = NewError ''conversation.invalid_avatar'' (utf8 [0x7FA4, 0x5934, 0x50CF, 0x5FC5, 0x987B, 0x662F, 0x5355, 0x4E2A, 0x0020, 0x0065, 0x006D, 0x006F, 0x006A, 0x0069]) 400"

definition normalizeAvatarEmoji :: "(rune \<Rightarrow> bool) \<Rightarrow> string option \<Rightarrow> (Error, string option) result" where
  "normalizeAvatarEmoji mark v =
    (let c = TrimSpace (stringValue v) in
     if c = [] then Inr None
     else if \<not> Members.ValidString c \<or> RuneCountInString c > 16 \<or> \<not> singleEmoji mark c then Inl invalidAvatar
     else Inr (Some c))"

definition directKey :: "string \<Rightarrow> string \<Rightarrow> string" where
  "directKey left right = (case sort [TrimSpace left, TrimSpace right] of [a, b] \<Rightarrow> a @ '':'' @ b | _ \<Rightarrow> [])"

definition uniqueIDs :: "string list \<Rightarrow> string list" where
  "uniqueIDs vs = unique_from [] vs"

section \<open>Roles and members\<close>

definition conversations_hasCapability :: "string \<Rightarrow> string \<Rightarrow> bool" where
  "conversations_hasCapability role0 capability =
    (let role = TrimSpace role0 in
     if role = ''owner'' then True
     else if role = ''admin'' then capability \<in> set [''conversation.read'', ''conversation.create_direct'', ''conversation.create_group'',
       ''conversation.member.manage'', ''member.role_update'', ''member.remove'', ''message.create'', ''file.upload'', ''file.download'']
     else if role = ''member'' then capability \<in> set [''conversation.read'', ''conversation.create_direct'', ''message.create'', ''file.upload'', ''file.download'']
     else False)"

definition conversations_canStartDirect :: "MemberRecord \<Rightarrow> bool" where
  "conversations_canStartDirect r \<longleftrightarrow> systemIdentity (mr_ID r) \<noteq> None \<or> mr_Kind r \<noteq> ''system'' \<and> mr_Role r \<noteq> ''auditor'' \<and> mr_ID r \<noteq> []"

definition canJoinGroup :: "MemberRecord \<Rightarrow> bool" where
  "canJoinGroup r \<longleftrightarrow> mr_Kind r = ''human'' \<and> mr_Role r \<noteq> ''auditor'' \<and> mr_ID r \<noteq> []"

definition nullableNonEmptyString :: "string option \<Rightarrow> string option" where
  "nullableNonEmptyString v = (case v of None \<Rightarrow> None | Some s \<Rightarrow> if TrimSpace s = [] then None else Some s)"

text \<open>The display name before the remark of the viewer replaces it; the choice is that of the members package.\<close>

definition conversations_projectMember :: "MemberRecord \<Rightarrow> AuthActor option \<Rightarrow> Member" where
  "conversations_projectMember r0 actor =
    (let r = with_identity r0; role = projectedRole r actor; human = mr_Kind r = ''human'';
         other = (case actor of None \<Rightarrow> False | Some a \<Rightarrow> actor_ID a \<noteq> mr_ID r);
         remark = (if human \<and> other then mr_Remark r else None);
         able = (\<lambda>capability. case actor of None \<Rightarrow> False | Some a \<Rightarrow> conversations_hasCapability (actor_Role a) capability)
     in \<lparr>mm_ID = mr_ID r, mm_GitHubLogin = (if human then mr_GitHubLogin r else []),
         mm_DisplayName = (case remark of Some t \<Rightarrow> if t \<noteq> [] then t else member_name r0 actor | None \<Rightarrow> member_name r0 actor),
         mm_Nickname = (if human then nullableNonEmptyString (mr_Nickname r) else None), mm_Remark = remark,
         mm_Description = (if human then [] else mr_Description r), mm_AvatarURL = sanitizeMessageAvatar (mr_AvatarURL r),
         mm_SearchDiscoverable = (if human \<and> is_self actor r then Some (mr_SearchDiscoverable r) else None),
         mm_RecallReason = (if human \<and> is_self actor r then
            (if TrimSpace (stringValue (mr_RecallReason r)) \<noteq> [] then stringValue (mr_RecallReason r) else (utf8 [0x5185, 0x5BB9, 0x6709, 0x8BEF])) else []),
         mm_Kind = mr_Kind r, mm_Role = role, mm_RoleLabel = members_roleLabel role,
         mm_Capabilities = \<lparr>mc_CanStartDirectConversation = other \<and> conversations_canStartDirect r \<and> able ''conversation.create_direct'',
           mc_CanJoinGroups = canJoinGroup r, mc_CanManage = able ''member.role_update'' \<and> isMemberManagedIdentity r\<rparr>,
         mm_JoinedAt = formatTimestamp (mr_JoinedAt r)\<rparr>)"

section \<open>Messages\<close>

definition canonical_record :: "conversations_MessageRecord \<Rightarrow> MessageRecord" where
  "canonical_record r =
    (let m = \<lparr>mx_ID = cr_ID r, mx_SpaceID = [], mx_ConversationID = cr_ConversationID r, mx_TopicID = cr_TopicID r, mx_AuthorID = cr_AuthorID r,
          mx_AuthorName = cr_AuthorName r, mx_AuthorNickname = cr_AuthorNickname r, mx_AuthorRemark = cr_AuthorRemark r,
          mx_AuthorGitHubLogin = cr_AuthorGitHubLogin r, mx_AuthorAvatarURL = cr_AuthorAvatarURL r, mx_AuthorKind = cr_AuthorKind r, mx_Kind = cr_Kind r,
          mx_ClientMessageID = cr_ClientMessageID r, mx_ContentJSON = cr_ContentJSON r, mx_PlainText = cr_PlainText r,
          mx_ReplyToMessageID = cr_ReplyToMessageID r, mx_CreatedAt = cr_CreatedAt r, mx_EditedAt = cr_EditedAt r, mx_DeletedAt = cr_DeletedAt r,
          mx_RecalledAt = cr_RecalledAt r, mx_RecallReason = cr_RecallReason r, mx_HiddenByCurrentUser = cr_HiddenByCurrentUser r,
          mx_PinnedByUserID = None, mx_PinnedAt = None, mx_EmoteCollectionShares = cr_EmoteCollectionShares r, mx_EventSeq = 0, mx_Revision = 0\<rparr>
     in case Option.bind (cr_AuthorID r) systemIdentity of
          None \<Rightarrow> m
        | Some (name, _, avatar) \<Rightarrow> m\<lparr>mx_AuthorName := name, mx_AuthorAvatarURL := avatar, mx_AuthorKind := ''bot'', mx_AuthorNickname := [],
            mx_AuthorRemark := [], mx_AuthorGitHubLogin := []\<rparr>)"

definition projectMessage :: "(string \<Rightarrow> string) \<Rightarrow> conversations_MessageRecord \<Rightarrow> AuthActor option \<Rightarrow> (Error, Message) result" where
  "projectMessage md r actor =
    (case ProjectMessageForViewer md (canonical_record r) (cr_Attachments r) (cr_Reactions r) actor of
       Inl cause \<Rightarrow> Inl (internalError ''project workspace message'' cause)
     | Inr m \<Rightarrow> Inr (m\<lparr>mg_AuthorAvatarURL := sanitizeMessageAvatar (mg_AuthorAvatarURL m),
         mg_Pin := (case cr_Pin r of None \<Rightarrow> None | Some p \<Rightarrow> if is_recalled (cr_RecalledAt r) then None
           else Some \<lparr>mp_PinnedByUserID = pi_PinnedByUserID p, mp_PinnedAt = formatTimestamp (pi_CreatedAt p),
             mp_CanUnpin = (\<not> cr_TopicReadOnly r \<and> may_unpin actor (cr_AuthorID r))\<rparr>)\<rparr>))"

fun project_messages :: "(string \<Rightarrow> string) \<Rightarrow> AuthActor option \<Rightarrow> conversations_MessageRecord list \<Rightarrow> (Error, Message list) result" where
  "project_messages md actor [] = Inr []"
| "project_messages md actor (r # rs) =
    result_bind (projectMessage md r actor) (\<lambda>m. result_bind (project_messages md actor rs) (\<lambda>ms. Inr (m # ms)))"

definition lift_result :: "(Error, 'a) result \<Rightarrow> 'a tx" where
  "lift_result r = (case r of Inl err \<Rightarrow> tx_fail (Domain err) | Inr x \<Rightarrow> io_return x)"

definition entry :: "'v \<Rightarrow> (string, 'v) gomap \<Rightarrow> string \<Rightarrow> 'v" where
  "entry zero m i = (case map_of m i of None \<Rightarrow> zero | Some x \<Rightarrow> x)"

definition message_ids :: "conversations_MessageRecord list \<Rightarrow> string list" where
  "message_ids records = filter (\<lambda>i. TrimSpace i \<noteq> []) (map cr_ID records)"

definition hydrateMessageShares :: "conversation_config \<Rightarrow> tx_env \<Rightarrow> string \<Rightarrow> conversations_MessageRecord list \<Rightarrow> conversations_MessageRecord list tx" where
  "hydrateMessageShares cfg e viewerID records =
    (case cf_shares cfg of
       None \<Rightarrow> io_return records
     | Some reader \<Rightarrow>
         if message_ids records = [] then io_return records
         else io_bind (tx_wrap ''project conversation message shares'' (tx_read e (reader viewerID (message_ids records)))) (\<lambda>shares.
           io_return (map (\<lambda>r. r\<lparr>cr_EmoteCollectionShares := entry [] shares (cr_ID r)\<rparr>) records)))"

definition hydrateMessageRecords :: "conversation_config \<Rightarrow> tx_env \<Rightarrow> string \<Rightarrow> conversations_MessageRecord list \<Rightarrow> conversations_MessageRecord list tx" where
  "hydrateMessageRecords cfg e viewerID records =
    (if message_ids records = [] then io_return records
     else io_bind (tx_wrap ''workspace conversation repository'' (ListAttachments (cf_collate cfg) e viewerID (message_ids records))) (\<lambda>atts.
       io_bind (tx_wrap ''workspace conversation repository'' (ListReactions (cf_collate cfg) e viewerID (message_ids records))) (\<lambda>reactions.
       io_bind (tx_wrap ''workspace conversation repository'' (ListHidden e viewerID (message_ids records))) (\<lambda>hidden.
       hydrateMessageShares cfg e viewerID (map (\<lambda>r. r\<lparr>cr_Attachments := entry [] atts (cr_ID r), cr_Reactions := entry [] reactions (cr_ID r),
         cr_HiddenByCurrentUser := entry False hidden (cr_ID r)\<rparr>) records)))))"

section \<open>The projected conversation\<close>

record Conversation =
  cv_ID :: string
  cv_SpaceID :: string
  cv_Type :: string
  cv_Title :: string
  cv_AvatarEmoji :: "string option"
  cv_DisplayTitle :: string
  cv_OtherMember :: "Member option"
  cv_RetentionCount :: int
  cv_RetentionText :: string
  cv_CreatedAt :: string
  cv_LastActivityAt :: string
  cv_MessageCount :: int
  cv_MemberCount :: int
  cv_LastMessagePlainText :: string
  cv_LastMessageAt :: "string option"
  cv_UnreadCount :: int
  cv_LastReadMessageID :: "string option"
  cv_LastReadAt :: "string option"
  cv_LastReadSeq :: "int option"
  cv_NotificationLevel :: string
  cv_CanSendMessage :: bool
  cv_CanUploadFile :: bool
  cv_CanManageMembers :: bool
  cv_Members :: "Member list"
  cv_LatestMessages :: "Message list"

definition conversation_json :: "Conversation \<Rightarrow> json" where
  "conversation_json c = JObj
    [(''id'', JStr (cv_ID c)), (''spaceId'', JStr (cv_SpaceID c)), (''type'', JStr (cv_Type c)), (''title'', JStr (cv_Title c)),
     (''avatarEmoji'', json_opt (cv_AvatarEmoji c)), (''displayTitle'', JStr (cv_DisplayTitle c)),
     (''otherMember'', case cv_OtherMember c of None \<Rightarrow> JNull | Some m \<Rightarrow> Member_MarshalJSON m), (''retentionCount'', json_int (cv_RetentionCount c)),
     (''retentionText'', JStr (cv_RetentionText c)), (''createdAt'', JStr (cv_CreatedAt c)), (''lastActivityAt'', JStr (cv_LastActivityAt c)),
     (''messageCount'', json_int (cv_MessageCount c)), (''memberCount'', json_int (cv_MemberCount c)), (''lastMessagePlainText'', JStr (cv_LastMessagePlainText c)),
     (''lastMessageAt'', json_opt (cv_LastMessageAt c)), (''unreadCount'', json_int (cv_UnreadCount c)), (''lastReadMessageId'', json_opt (cv_LastReadMessageID c)),
     (''lastReadAt'', json_opt (cv_LastReadAt c)), (''lastReadSeq'', case cv_LastReadSeq c of None \<Rightarrow> JNull | Some n \<Rightarrow> json_int n),
     (''notificationLevel'', JStr (cv_NotificationLevel c)),
     (''capabilities'', JObj [(''canSendMessage'', JBool (cv_CanSendMessage c)), (''canUploadFile'', JBool (cv_CanUploadFile c)),
        (''canManageMembers'', JBool (cv_CanManageMembers c))]),
     (''members'', JArr (map Member_MarshalJSON (cv_Members c))), (''latestMessages'', JArr (map message_json (cv_LatestMessages c)))]"

definition conversation_view :: "AuthActor \<Rightarrow> ConversationRecord \<Rightarrow> Member list \<Rightarrow> Message list \<Rightarrow> Conversation" where
  "conversation_view actor r ms latest =
    (let other = List.find (\<lambda>m. mm_ID m \<noteq> actor_ID actor) ms; shown = List.find (\<lambda>m. \<not> mg_HiddenByCurrentUser m) (rev latest) in
     \<lparr>cv_ID = cd_ID r, cv_SpaceID = cd_SpaceID r, cv_Type = cd_Type r, cv_Title = cd_Title r,
      cv_AvatarEmoji = (if cd_Type r = ''group'' then cd_AvatarEmoji r else None),
      cv_DisplayTitle = (case other of Some m \<Rightarrow> if cd_Type r = ''direct'' then mm_DisplayName m else cd_Title r | None \<Rightarrow> cd_Title r),
      cv_OtherMember = other, cv_RetentionCount = cd_RetentionCount r,
      cv_RetentionText = (utf8 [0x4FDD, 0x7559, 0x6700, 0x8FD1, 0x0020]) @ itoa (cd_RetentionCount r) @ (utf8 [0x0020, 0x6761, 0x6D88, 0x606F]), cv_CreatedAt = formatTimestamp (cd_CreatedAt r),
      cv_LastActivityAt = formatTimestamp (cd_LastActivityAt r), cv_MessageCount = cd_MessageCount r, cv_MemberCount = int (length ms),
      cv_LastMessagePlainText = (case shown of None \<Rightarrow> [] | Some m \<Rightarrow> mg_PlainText m), cv_LastMessageAt = map_option mg_CreatedAt shown,
      cv_UnreadCount = cd_UnreadCount r, cv_LastReadMessageID = cd_LastReadMessageID r, cv_LastReadAt = formatNullableTimestamp (cd_LastReadAt r),
      cv_LastReadSeq = cd_LastReadSeq r, cv_NotificationLevel = firstNonEmpty [cd_NotificationLevel r, ''all''],
      cv_CanSendMessage = conversations_hasCapability (actor_Role actor) ''message.create'',
      cv_CanUploadFile = conversations_hasCapability (actor_Role actor) ''file.upload'',
      cv_CanManageMembers = (cd_Type r = ''group'' \<and> conversations_hasCapability (actor_Role actor) ''conversation.member.manage''),
      cv_Members = ms, cv_LatestMessages = latest\<rparr>)"

definition projectConversation :: "conversation_config \<Rightarrow> tx_env \<Rightarrow> AuthActor \<Rightarrow> ConversationRecord \<Rightarrow> Conversation tx" where
  "projectConversation cfg e actor r =
    io_bind (ListConversationMembers (cf_collate cfg) e (cd_ID r) (actor_ID actor)) (\<lambda>records.
    io_bind (ListLatestMessages (cf_collate cfg) e (cd_ID r) (actor_ID actor) 20) (\<lambda>latest0.
    io_bind (hydrateMessageRecords cfg e (actor_ID actor) latest0) (\<lambda>latest.
    io_bind (lift_result (project_messages (cf_markdown cfg) (Some actor) latest)) (\<lambda>msgs.
    io_return (conversation_view actor r (map (\<lambda>m. conversations_projectMember m (Some actor)) records) msgs)))))"

section \<open>The boundary of the service\<close>

record conversation_rejection =
  cj_err :: Error
  cj_Action :: string
  cj_TargetType :: string
  cj_TargetID :: string
  cj_Reason :: string

type_synonym 'a conversation_op = "AuthActor \<Rightarrow> time \<Rightarrow> (conversation_rejection, 'a) result tx"

definition rejectedError :: "Error \<Rightarrow> string \<Rightarrow> string \<Rightarrow> string \<Rightarrow> string \<Rightarrow> (conversation_rejection, 'a) result tx" where
  "rejectedError err action targetType targetID reason =
    io_return (Inl \<lparr>cj_err = err, cj_Action = action, cj_TargetType = targetType, cj_TargetID = TrimSpace targetID, cj_Reason = reason\<rparr>)"

definition conversations_now :: "tx_env \<Rightarrow> time" where
  "conversations_now e = (if te_now e = zero_time then 0 else te_now e)"

definition conversations_newID :: "tx_env \<Rightarrow> string tx" where
  "conversations_newID e = io_bind (tx_newid e) (\<lambda>i0. let i = TrimSpace i0 in
     if i = [] then tx_fail (Foreign ''conversation id factory returned an empty id'') else io_return i)"

definition conversations_lookupActor :: "tx_env \<Rightarrow> string \<Rightarrow> AuthActor tx" where
  "conversations_lookupActor e actorID =
    io_bind (conversations_LookupActor e actorID) (\<lambda>found.
      case found of
        None \<Rightarrow> tx_fail (Domain authRequiredError)
      | Some a \<Rightarrow>
          if TrimSpace (actor_ID a) = [] \<or> actor_ID a \<noteq> actorID then tx_fail (Domain authRequiredError)
          else if actor_Kind a \<noteq> [] \<and> actor_Kind a \<noteq> ''human'' then tx_fail (Domain identityForbiddenError)
          else if TrimSpace (actor_Role a) = [] then tx_fail (Domain authRequiredError)
          else io_return a)"

definition conversation_audit :: "tx_env \<Rightarrow> AuthActor \<Rightarrow> RequestMeta \<Rightarrow> string \<Rightarrow> string \<Rightarrow> string \<Rightarrow> string \<Rightarrow> string \<Rightarrow> time \<Rightarrow> unit tx" where
  "conversation_audit e actor meta action targetType targetID outcome reason now =
    conversations_WriteAudit e (audit_input (actor_ID actor) (actor_GitHubLogin actor) action targetType targetID outcome reason meta now)"

definition success_audit :: "tx_env \<Rightarrow> AuthActor \<Rightarrow> RequestMeta \<Rightarrow> string \<Rightarrow> string \<Rightarrow> string \<Rightarrow> time \<Rightarrow> unit tx" where
  "success_audit e actor meta action targetType targetID now = conversation_audit e actor meta action targetType targetID ''success'' [] now"

definition conversation_body :: "tx_env \<Rightarrow> string \<Rightarrow> RequestMeta \<Rightarrow> 'a conversation_op \<Rightarrow> (Error, 'a) result tx" where
  "conversation_body e actorID meta fn =
    io_bind (conversations_lookupActor e actorID) (\<lambda>actor. let now = conversations_now e in
      io_bind (fn actor now) (\<lambda>r.
      case r of
        Inr x \<Rightarrow> io_return (Inr x)
      | Inl rej \<Rightarrow>
          io_bind (tx_wrap ''write conversation rejection audit''
            (conversation_audit e actor meta (cj_Action rej) (cj_TargetType rej) (cj_TargetID rej) ''rejected'' (cj_Reason rej) now)) (\<lambda>_.
          io_return (Inl (cj_err rej)))))"

definition conversations_normalized :: "(go_error, 'a) result \<times> workspace \<Rightarrow> (go_error, 'a) result \<times> workspace" where
  "conversations_normalized r = (case r of
     (Inl err, ws) \<Rightarrow> (Inl (Domain (case err of Domain d \<Rightarrow> d | Foreign cause \<Rightarrow> internalError ''workspace conversation repository'' cause)), ws)
   | (Inr x, ws) \<Rightarrow> (Inr x, ws))"

definition conversation_tx :: "tx_env \<Rightarrow> string \<Rightarrow> RequestMeta \<Rightarrow> 'a conversation_op \<Rightarrow> workspace \<Rightarrow> (go_error, 'a) result \<times> workspace" where
  "conversation_tx e actorID0 meta fn ws =
    (let actorID = TrimSpace actorID0 in
     if actorID = [] then (Inl (Domain authRequiredError), ws)
     else conversations_normalized (committed (WithTx ''begin conversation transaction'' ''commit conversation transaction'' e
       (conversation_body e actorID (Safe meta) fn) ws)))"

definition deny_conversation :: "string \<Rightarrow> string \<Rightarrow> string \<Rightarrow> (conversation_rejection, 'a) result tx" where
  "deny_conversation capability targetType targetID = rejectedError permissionDeniedError capability targetType targetID ''insufficient permission''"

definition conversationRequired :: Error where "conversationRequired = NewError ''conversation.required'' (utf8 [0x4F1A, 0x8BDD, 0x4E0D, 0x80FD, 0x4E3A, 0x7A7A]) 400"
definition invalidType :: "string \<Rightarrow> Error" where "invalidType message = NewError ''conversation.invalid_type'' message 400"
definition invalidTarget :: "string \<Rightarrow> Error" where "invalidTarget message = NewError ''conversation.invalid_target'' message 400"
definition invalidTitle :: "string \<Rightarrow> Error" where "invalidTitle message = NewError ''conversation.invalid_title'' message 400"
definition invalidMembers :: Error where "invalidMembers = NewError ''conversation.invalid_members'' (utf8 [0x8BF7, 0x9009, 0x62E9, 0x81F3, 0x5C11, 0x4E00, 0x4F4D, 0x7FA4, 0x804A, 0x6210, 0x5458]) 400"
definition invalidUpdate :: Error where "invalidUpdate = NewError ''conversation.invalid_update'' (utf8 [0x6CA1, 0x6709, 0x53EF, 0x66F4, 0x65B0, 0x7684, 0x7FA4, 0x804A, 0x8D44, 0x6599]) 400"
definition memberInvalid :: "string \<Rightarrow> Error" where "memberInvalid message = NewError ''conversation.member_invalid'' message 400"
definition conversationMemberNotFound :: Error where "conversationMemberNotFound = NewError ''conversation.member_not_found'' (utf8 [0x8BE5, 0x6210, 0x5458, 0x4E0D, 0x5728, 0x7FA4, 0x804A, 0x4E2D]) 400"
definition notificationInvalid :: Error where "notificationInvalid = NewError ''conversation.notification_invalid'' (utf8 [0x8BF7, 0x9009, 0x62E9, 0x6709, 0x6548, 0x7684, 0x63D0, 0x9192, 0x65B9, 0x5F0F]) 400"
definition memberNotVisible :: "string \<Rightarrow> Error" where "memberNotVisible message = NewError ''member.not_visible'' message 403"
definition notChatParticipant :: Error where "notChatParticipant = NewError ''member.not_chat_participant'' (utf8 [0x8BF7, 0x9009, 0x62E9, 0x53EF, 0x52A0, 0x5165, 0x7FA4, 0x804A, 0x7684, 0x7A7A, 0x95F4, 0x6210, 0x5458]) 400"
definition pinGroupOnly :: Error where "pinGroupOnly = NewError ''pin.group_only'' (utf8 [0x53EA, 0x6709, 0x7FA4, 0x804A, 0x652F, 0x6301, 0x5E38, 0x9A7B, 0x6D88, 0x606F]) 400"
definition pinNotAuthor :: Error where "pinNotAuthor = NewError ''pin.not_author'' (utf8 [0x53EA, 0x80FD, 0x5E38, 0x9A7B, 0x81EA, 0x5DF1, 0x53D1, 0x9001, 0x7684, 0x6D88, 0x606F]) 400"
definition pinLimitReached :: Error where "pinLimitReached = NewError ''pin.limit_reached'' (utf8 [0x6BCF, 0x4EBA, 0x5728, 0x6BCF, 0x4E2A, 0x7FA4, 0x804A, 0x6700, 0x591A, 0x5E38, 0x9A7B, 0x0020, 0x0033, 0x0020, 0x6761, 0x6D88, 0x606F]) 400"
definition topicNotOpen :: Error where "topicNotOpen = NewError ''topic.not_open'' (utf8 [0x8BDD, 0x9898, 0x5DF2, 0x5173, 0x95ED]) 400"

definition conversations_writeEvent :: "tx_env \<Rightarrow> string \<Rightarrow> string \<Rightarrow> string \<Rightarrow> string \<Rightarrow> string \<Rightarrow> json \<Rightarrow> time \<Rightarrow> unit tx" where
  "conversations_writeEvent e eventType actorID conversationID targetType targetID payload now =
    io_bind (tx_wrap ''generate workspace event id'' (conversations_newID e)) (\<lambda>i.
      conversations_event e
        \<lparr>ei_ID = i, ei_SpaceID = DefaultSpaceID, ei_Type = eventType, ei_ActorID = actorID, ei_ConversationID = conversationID,
         ei_TargetType = targetType, ei_TargetID = targetID, ei_PayloadJSON = json_print payload, ei_CreatedAt = now\<rparr>)"

definition actor_label :: "AuthActor \<Rightarrow> string" where
  "actor_label a = firstNonEmpty [actor_DisplayName a, actor_GitHubLogin a, (utf8 [0x6210, 0x5458])]"

definition member_label :: "MemberRecord \<Rightarrow> string" where
  "member_label m = firstNonEmpty [mr_DisplayName m, mr_GitHubLogin m, (utf8 [0x6210, 0x5458])]"

definition system_content :: "string \<Rightarrow> Content" where
  "system_content t = \<lparr>ct_Format = MessageContentFormat, ct_PlainText = t, ct_Blocks = [zero_block\<lparr>bk_Type := ''text'', bk_Text := t\<rparr>]\<rparr>"

definition createSystemMessage :: "conversation_config \<Rightarrow> tx_env \<Rightarrow> AuthActor \<Rightarrow> string \<Rightarrow> int \<Rightarrow> string \<Rightarrow> time \<Rightarrow> unit tx" where
  "createSystemMessage cfg e actor conversationID retention plainText now =
    (let t = TrimSpace plainText in
     if t = [] then io_return ()
     else io_bind (tx_wrap ''generate conversation system message id'' (conversations_newID e)) (\<lambda>messageID.
       io_bind (CreateSystemMessage (cf_collate cfg) e messageID conversationID (canonicalContent (system_content t)) t now retention) (\<lambda>r.
       io_bind (lift_result (projectMessage (cf_markdown cfg) r (Some actor))) (\<lambda>m.
       conversations_writeEvent e ''message.created'' (actor_ID actor) conversationID ''message'' messageID
         (JObj [(''conversationId'', JStr conversationID), (''message'', message_json m), (''messageId'', JStr messageID)]) now))))"

text \<open>The conversation as the actor sees it after a change.\<close>

definition project_after :: "conversation_config \<Rightarrow> tx_env \<Rightarrow> string \<Rightarrow> string \<Rightarrow> AuthActor \<Rightarrow> string \<Rightarrow> Conversation tx" where
  "project_after cfg e operation cause actor conversationID =
    io_bind (GetVisibleConversationRecord e (actor_ID actor) conversationID) (\<lambda>found.
    case found of
      None \<Rightarrow> tx_fail (Domain (internalError operation cause))
    | Some r \<Rightarrow> projectConversation cfg e actor r)"

section \<open>Reading\<close>

definition conversations_readActor :: "tx_env \<Rightarrow> string \<Rightarrow> AuthActor tx" where
  "conversations_readActor e actorID0 =
    (let actorID = TrimSpace actorID0 in if actorID = [] then tx_fail (Domain authRequiredError) else conversations_lookupActor e actorID)"

text \<open>
  A read runs on the pool: its statements see what others commit in between. A refusal is audited in a
  transaction of its own, after the read.
\<close>

datatype 'a read_outcome = Read 'a | Refused Error string string string string string

definition run_read :: "tx_env \<Rightarrow> tx_env \<Rightarrow> RequestMeta \<Rightarrow> 'a read_outcome tx \<Rightarrow> workspace \<Rightarrow> (go_error, 'a) result \<times> workspace" where
  "run_read e e2 meta m ws =
    (case conversations_normalized (Autocommit m ws) of
       (Inl err, ws1) \<Rightarrow> (Inl err, ws1)
     | (Inr (Read x), ws1) \<Rightarrow> (Inr x, ws1)
     | (Inr (Refused err actorID action targetType targetID reason), ws1) \<Rightarrow>
         (case conversation_tx e2 actorID meta (\<lambda>actor now. rejectedError err action targetType targetID reason :: (conversation_rejection, 'a) result tx) ws1 of
            (Inl err1, ws2) \<Rightarrow> (Inl err1, ws2)
          | (Inr _, ws2) \<Rightarrow> (Inl (Domain err), ws2)))"

fun project_all :: "conversation_config \<Rightarrow> tx_env \<Rightarrow> AuthActor \<Rightarrow> ConversationRecord list \<Rightarrow> Conversation list tx" where
  "project_all cfg e actor [] = io_return []"
| "project_all cfg e actor (r # rs) =
    io_bind (projectConversation cfg e actor r) (\<lambda>c. io_bind (project_all cfg e actor rs) (\<lambda>cs. io_return (c # cs)))"

definition list_read :: "conversation_config \<Rightarrow> tx_env \<Rightarrow> string \<Rightarrow> Conversation list read_outcome tx" where
  "list_read cfg e actorID =
    io_bind (conversations_readActor e actorID) (\<lambda>actor.
    if \<not> conversations_hasCapability (actor_Role actor) ''conversation.read''
    then io_return (Refused permissionDeniedError (actor_ID actor) ''conversation.read'' ''workspace'' [] ''insufficient permission'')
    else io_bind (ListConversationRecords (cf_collate cfg) e (actor_ID actor)) (\<lambda>records.
      io_bind (project_all cfg e actor records) (\<lambda>cs. io_return (Read cs))))"

definition ListConversations :: "conversation_config \<Rightarrow> tx_env \<Rightarrow> tx_env \<Rightarrow> string \<Rightarrow> RequestMeta \<Rightarrow> workspace \<Rightarrow> (go_error, Conversation list) result \<times> workspace" where
  "ListConversations cfg e e2 actorID meta ws = run_read e e2 meta (list_read cfg e actorID) ws"

definition get_read :: "conversation_config \<Rightarrow> tx_env \<Rightarrow> string \<Rightarrow> string \<Rightarrow> Conversation read_outcome tx" where
  "get_read cfg e actorID conversationID =
    io_bind (conversations_readActor e actorID) (\<lambda>actor.
    if \<not> conversations_hasCapability (actor_Role actor) ''conversation.read''
    then io_return (Refused permissionDeniedError (actor_ID actor) ''conversation.read'' ''conversation'' conversationID ''insufficient permission'')
    else if conversationID = [] then tx_fail (Domain conversationRequired)
    else io_bind (GetVisibleConversationRecord e (actor_ID actor) conversationID) (\<lambda>found.
      case found of
        None \<Rightarrow> io_return (Refused conversationNotFoundError (actor_ID actor) ''conversation.read'' ''conversation'' conversationID ''not a conversation member'')
      | Some r \<Rightarrow> io_bind (projectConversation cfg e actor r) (\<lambda>c. io_return (Read c))))"

definition GetConversation :: "conversation_config \<Rightarrow> tx_env \<Rightarrow> tx_env \<Rightarrow> string \<Rightarrow> string \<Rightarrow> RequestMeta \<Rightarrow> workspace \<Rightarrow> (go_error, Conversation) result \<times> workspace" where
  "GetConversation cfg e e2 actorID conversationID meta ws = run_read e e2 meta (get_read cfg e actorID (TrimSpace conversationID)) ws"

section \<open>Creating\<close>

record CreateConversationInput =
  cc_ActorID :: string
  cc_Type :: string
  cc_TargetUserID :: string
  cc_Title :: string
  cc_MemberIDs :: "string list"
  cc_AvatarEmoji :: "string option"
  cc_Meta :: RequestMeta

text \<open>Under the lock on the members of the space the actor is read again, with the capability.\<close>

definition with_members_lock :: "tx_env \<Rightarrow> string \<Rightarrow> string \<Rightarrow> string \<Rightarrow> (AuthActor \<Rightarrow> (conversation_rejection, 'a) result tx) \<Rightarrow> (conversation_rejection, 'a) result tx" where
  "with_members_lock e actorID capability targetID k =
    io_bind (conversations_Lock e (''workspace-members:'' @ DefaultSpaceID)) (\<lambda>_.
    io_bind (conversations_lookupActor e actorID) (\<lambda>actor.
    if \<not> conversations_hasCapability (actor_Role actor) capability then deny_conversation capability ''conversation'' targetID else k actor))"

fun add_members :: "tx_env \<Rightarrow> string \<Rightarrow> time \<Rightarrow> string list \<Rightarrow> unit tx" where
  "add_members e conversationID now [] = io_return ()"
| "add_members e conversationID now (i # is) = io_bind (UpsertConversationMember e conversationID i now) (\<lambda>_. add_members e conversationID now is)"

definition direct_payload :: "string \<Rightarrow> string list \<Rightarrow> json" where
  "direct_payload conversationID ids = JObj [(''conversationId'', JStr conversationID), (''memberIds'', JArr (map JStr ids)), (''type'', JStr ''direct'')]"

definition new_direct :: "conversation_config \<Rightarrow> tx_env \<Rightarrow> RequestMeta \<Rightarrow> AuthActor \<Rightarrow> MemberRecord \<Rightarrow> string \<Rightarrow> time \<Rightarrow> Conversation tx" where
  "new_direct cfg e meta actor target key now =
    io_bind (tx_wrap ''generate direct conversation id'' (conversations_newID e)) (\<lambda>i.
    io_bind (PG_CreateConversation e i ''direct'' (actor_label actor @ '', '' @ member_label target) None (Some key) (actor_ID actor) now) (\<lambda>_.
    let ids = sort [actor_ID actor, mr_ID target] in
    io_bind (add_members e i now ids) (\<lambda>_.
    io_bind (conversations_writeEvent e ''conversation.created'' (actor_ID actor) i ''conversation'' i (direct_payload i ids) now) (\<lambda>_.
    io_bind (success_audit e actor meta ''conversation.create'' ''conversation'' i now) (\<lambda>_.
    project_after cfg e ''project created direct conversation'' ''conversation is not visible after insert'' actor i)))))"

definition reach_member :: "tx_env \<Rightarrow> string \<Rightarrow> MemberRecord \<Rightarrow> bool tx" where
  "reach_member e actorID target =
    io_bind (MemberVisible e actorID (mr_ID target)) (\<lambda>visible.
    if visible then io_return True
    else io_bind (SharesActiveGroup e actorID (mr_ID target)) (\<lambda>shared. io_return (shared \<or> mr_SearchDiscoverable target)))"

definition createDirect :: "conversation_config \<Rightarrow> tx_env \<Rightarrow> CreateConversationInput \<Rightarrow> Conversation conversation_op" where
  "createDirect cfg e input actor0 now =
    (let targetID = TrimSpace (cc_TargetUserID input); invalid = rejectedError (invalidTarget (utf8 [0x8BF7, 0x9009, 0x62E9, 0x4E00, 0x4E2A, 0x7A7A, 0x95F4, 0x6210, 0x5458])) ''conversation.create'' ''conversation'' ''new'' ''invalid target'' in
     if targetID = [] \<or> targetID = actor_ID actor0 then invalid
     else with_members_lock e (actor_ID actor0) ''conversation.create_direct'' ''new'' (\<lambda>actor.
       io_bind (FindMember e targetID) (\<lambda>found.
       case found of
         None \<Rightarrow> invalid
       | Some target \<Rightarrow>
           if \<not> conversations_canStartDirect target then invalid
           else io_bind (reach_member e (actor_ID actor) target) (\<lambda>reachable.
             if \<not> reachable then rejectedError (invalidTarget (utf8 [0x6210, 0x5458, 0x4E0D, 0x5B58, 0x5728, 0x6216, 0x5F53, 0x524D, 0x4E0D, 0x53EF, 0x89C1])) ''conversation.create'' ''conversation'' ''new'' ''target not visible''
             else let key = directKey (actor_ID actor) targetID in
               io_bind (conversations_Lock e (''conversation:direct:'' @ key)) (\<lambda>_.
               io_bind (FindDirectConversation e key) (\<lambda>existing.
               case existing of
                 Some c \<Rightarrow>
                   io_bind (GetVisibleConversationRecord e (actor_ID actor) (cd_ID c)) (\<lambda>mine.
                   case mine of
                     None \<Rightarrow> rejectedError conversationNotFoundError ''conversation.create'' ''conversation'' (cd_ID c) ''not a conversation member''
                   | Some r \<Rightarrow> io_bind (projectConversation cfg e actor r) (\<lambda>x. io_return (Inr x)))
               | None \<Rightarrow> io_bind (new_direct cfg e (cc_Meta input) actor target key now) (\<lambda>x. io_return (Inr x))))))))"

text \<open>Every chosen member can join the group and is visible to the actor.\<close>

fun check_members :: "tx_env \<Rightarrow> string \<Rightarrow> string list \<Rightarrow> (Error \<times> string, MemberRecord list) result tx" where
  "check_members e actorID [] = io_return (Inr [])"
| "check_members e actorID (i # is) =
    io_bind (FindMember e i) (\<lambda>found.
    case found of
      None \<Rightarrow> io_return (Inl (NewError ''member.not_found'' (utf8 [0x7A7A, 0x95F4, 0x6210, 0x5458, 0x4E0D, 0x5B58, 0x5728]) 400, ''member.not_found''))
    | Some m \<Rightarrow>
        if i \<noteq> actorID \<and> \<not> canJoinGroup m then io_return (Inl (notChatParticipant, ''member.not_chat_participant''))
        else io_bind (if i \<noteq> actorID then MemberVisible e actorID i else io_return True) (\<lambda>visible.
          if \<not> visible then io_return (Inl (memberNotVisible (utf8 [0x90E8, 0x5206, 0x6210, 0x5458, 0x5F53, 0x524D, 0x4E0D, 0x53EF, 0x89C1]), ''member.not_visible''))
          else io_bind (check_members e actorID is) (\<lambda>rest. io_return (result_bind rest (\<lambda>ms. Inr (m # ms))))))"

definition added_payload :: "string \<Rightarrow> MemberRecord \<Rightarrow> json" where
  "added_payload conversationID m = JObj [(''conversationId'', JStr conversationID), (''member'', Member_MarshalJSON (conversations_projectMember m None)), (''userId'', JStr (mr_ID m))]"

fun announce_members :: "tx_env \<Rightarrow> AuthActor \<Rightarrow> string \<Rightarrow> time \<Rightarrow> MemberRecord list \<Rightarrow> unit tx" where
  "announce_members e actor conversationID now [] = io_return ()"
| "announce_members e actor conversationID now (m # ms) =
    io_bind (if mr_ID m = actor_ID actor then io_return ()
      else conversations_writeEvent e ''conversation.member_added'' (actor_ID actor) conversationID ''user'' (mr_ID m) (added_payload conversationID m) now) (\<lambda>_.
    announce_members e actor conversationID now ms)"

definition group_payload :: "string \<Rightarrow> string \<Rightarrow> string option \<Rightarrow> json" where
  "group_payload conversationID title avatar =
    JObj [(''avatarEmoji'', json_opt avatar), (''conversationId'', JStr conversationID), (''title'', JStr title), (''type'', JStr ''group'')]"

definition new_group :: "conversation_config \<Rightarrow> tx_env \<Rightarrow> RequestMeta \<Rightarrow> AuthActor \<Rightarrow> string \<Rightarrow> string option \<Rightarrow> string list \<Rightarrow> MemberRecord list \<Rightarrow> time \<Rightarrow> Conversation tx" where
  "new_group cfg e meta actor title avatar ids members now =
    io_bind (conversations_Lock e (''conversation:create:'' @ actor_ID actor)) (\<lambda>_.
    io_bind (tx_wrap ''generate group conversation id'' (conversations_newID e)) (\<lambda>i.
    io_bind (PG_CreateConversation e i ''group'' title avatar None (actor_ID actor) now) (\<lambda>_.
    io_bind (add_members e i now ids) (\<lambda>_.
    io_bind (project_after cfg e ''project created group conversation'' ''conversation is not visible after insert'' actor i) (\<lambda>c.
    io_bind (conversations_writeEvent e ''conversation.created'' (actor_ID actor) i ''conversation'' i (group_payload i title avatar) now) (\<lambda>_.
    io_bind (announce_members e actor i now members) (\<lambda>_.
    io_bind (createSystemMessage cfg e actor i DefaultRetentionCount (actor_label actor @ (utf8 [0x0020, 0x521B, 0x5EFA, 0x4E86, 0x7FA4, 0x804A, 0x300C]) @ title @ (utf8 [0x300D])) now) (\<lambda>_.
    io_bind (success_audit e actor meta ''conversation.create'' ''conversation'' i now) (\<lambda>_. io_return c)))))))))"

definition createGroup :: "conversation_config \<Rightarrow> tx_env \<Rightarrow> CreateConversationInput \<Rightarrow> Conversation conversation_op" where
  "createGroup cfg e input actor0 now =
    (let title = TrimSpace (cc_Title input); refuse_new = (\<lambda>err reason. rejectedError err ''conversation.create'' ''conversation'' ''new'' reason) in
     if title = [] then refuse_new (invalidTitle (utf8 [0x8BF7, 0x8F93, 0x5165, 0x7FA4, 0x804A, 0x540D, 0x79F0])) ''invalid title''
     else if RuneCountInString title > 80 then refuse_new (invalidTitle (utf8 [0x7FA4, 0x804A, 0x540D, 0x79F0, 0x8FC7, 0x957F])) ''invalid title''
     else case normalizeAvatarEmoji (cf_mark cfg) (cc_AvatarEmoji input) of
       Inl err \<Rightarrow> refuse_new err ''invalid avatar''
     | Inr avatar \<Rightarrow>
         let chosen = filter (\<lambda>i. i \<noteq> actor_ID actor0) (uniqueIDs (cc_MemberIDs input)); ids = sort (uniqueIDs (actor_ID actor0 # chosen)) in
         if chosen = [] then refuse_new invalidMembers ''invalid members''
         else with_members_lock e (actor_ID actor0) ''conversation.create_group'' ''new'' (\<lambda>actor.
           io_bind (check_members e (actor_ID actor) ids) (\<lambda>checked.
           case checked of
             Inl (err, reason) \<Rightarrow> refuse_new err reason
           | Inr members \<Rightarrow> io_bind (new_group cfg e (cc_Meta input) actor title avatar ids members now) (\<lambda>c. io_return (Inr c)))))"

definition create_op :: "conversation_config \<Rightarrow> tx_env \<Rightarrow> CreateConversationInput \<Rightarrow> Conversation conversation_op" where
  "create_op cfg e input actor now =
    (let typeName = TrimSpace (cc_Type input); capability = (if typeName = ''group'' then ''conversation.create_group'' else ''conversation.create_direct'') in
     if typeName \<noteq> ''direct'' \<and> typeName \<noteq> ''group'' then rejectedError (invalidType (utf8 [0x4F1A, 0x8BDD, 0x7C7B, 0x578B, 0x65E0, 0x6548])) ''conversation.create'' ''conversation'' ''new'' ''invalid type''
     else if \<not> conversations_hasCapability (actor_Role actor) capability then deny_conversation capability ''conversation'' ''new''
     else if typeName = ''direct'' then createDirect cfg e input actor now else createGroup cfg e input actor now)"

definition CreateConversation :: "conversation_config \<Rightarrow> tx_env \<Rightarrow> CreateConversationInput \<Rightarrow> workspace \<Rightarrow> (go_error, Conversation) result \<times> workspace" where
  "CreateConversation cfg e input ws = conversation_tx e (cc_ActorID input) (cc_Meta input) (create_op cfg e input) ws"


section \<open>Managing groups\<close>

text \<open>
  The common course of AddMember, RemoveMember and UpdateGroup: the capability before and under the lock on
  the members, the lock on the conversation, and the group itself. \<open>lead\<close> refuses before the locks.
\<close>

definition manage_group :: "tx_env \<Rightarrow> string \<Rightarrow> string \<Rightarrow> string \<Rightarrow> (Error \<times> string) option \<Rightarrow> string \<Rightarrow>
    (AuthActor \<Rightarrow> ConversationRecord \<Rightarrow> (conversation_rejection, 'a) result tx) \<Rightarrow> AuthActor \<Rightarrow> (conversation_rejection, 'a) result tx" where
  "manage_group e action missing type_text lead conversationID k actor0 =
    (let capability = ''conversation.member.manage'' in
     if \<not> conversations_hasCapability (actor_Role actor0) capability then deny_conversation capability ''conversation'' conversationID
     else if conversationID = [] then rejectedError conversationRequired action ''conversation'' conversationID ''conversation.required''
     else case lead of
       Some (err, reason) \<Rightarrow> rejectedError err action ''conversation'' conversationID reason
     | None \<Rightarrow> with_members_lock e (actor_ID actor0) capability conversationID (\<lambda>actor.
         io_bind (conversations_Lock e (''conversation:'' @ conversationID)) (\<lambda>_.
         io_bind (FindConversation e conversationID) (\<lambda>found.
         case found of
           None \<Rightarrow> rejectedError conversationNotFoundError missing ''conversation'' conversationID ''conversation.not_found''
         | Some c \<Rightarrow>
             if cd_Type c \<noteq> ''group'' then rejectedError (invalidType type_text) action ''conversation'' conversationID ''conversation.invalid_type''
             else k actor c))))"

definition memberMissing :: Error where "memberMissing = NewError ''member.not_found'' (utf8 [0x7A7A, 0x95F4, 0x6210, 0x5458, 0x4E0D, 0x5B58, 0x5728]) 400"

definition join_group :: "conversation_config \<Rightarrow> tx_env \<Rightarrow> RequestMeta \<Rightarrow> string \<Rightarrow> AuthActor \<Rightarrow> ConversationRecord \<Rightarrow> MemberRecord \<Rightarrow> time \<Rightarrow> Conversation tx" where
  "join_group cfg e meta conversationID actor c m now =
    io_bind (UpsertConversationMember e conversationID (mr_ID m) now) (\<lambda>_.
    io_bind (conversations_writeEvent e ''conversation.member_added'' (actor_ID actor) conversationID ''user'' (mr_ID m) (added_payload conversationID m) now) (\<lambda>_.
    io_bind (createSystemMessage cfg e actor conversationID (cd_RetentionCount c) (actor_label actor @ (utf8 [0x0020, 0x9080, 0x8BF7, 0x0020]) @ member_label m @ (utf8 [0x0020, 0x52A0, 0x5165, 0x7FA4, 0x804A])) now) (\<lambda>_.
    io_bind (success_audit e actor meta ''conversation.member_add'' ''conversation'' conversationID now) (\<lambda>_.
    project_after cfg e ''project added member conversation'' ''conversation is not visible after insert'' actor conversationID))))"

definition add_to_group :: "conversation_config \<Rightarrow> tx_env \<Rightarrow> RequestMeta \<Rightarrow> string \<Rightarrow> string \<Rightarrow> time \<Rightarrow> AuthActor \<Rightarrow> ConversationRecord \<Rightarrow>
    (conversation_rejection, Conversation) result tx" where
  "add_to_group cfg e meta conversationID userID now actor c =
    (let refuse_add = (\<lambda>err reason. rejectedError err ''conversation.member_add'' ''conversation'' conversationID reason) in
     io_bind (FindMember e userID) (\<lambda>found.
     case found of
       None \<Rightarrow> refuse_add memberMissing ''member.not_found''
     | Some m \<Rightarrow>
         if \<not> canJoinGroup m then refuse_add notChatParticipant ''member.not_chat_participant''
         else io_bind (ConversationMemberActive e conversationID userID) (\<lambda>active.
           if active then
             io_bind (GetVisibleConversationRecord e (actor_ID actor) conversationID) (\<lambda>mine.
             case mine of
               None \<Rightarrow> rejectedError conversationNotFoundError ''conversation.read'' ''conversation'' conversationID ''not a conversation member''
             | Some r \<Rightarrow> io_bind (projectConversation cfg e actor r) (\<lambda>x. io_return (Inr x)))
           else io_bind (MemberVisible e (actor_ID actor) userID) (\<lambda>visible.
             if \<not> visible then refuse_add (memberNotVisible (utf8 [0x6210, 0x5458, 0x5F53, 0x524D, 0x4E0D, 0x53EF, 0x89C1])) ''member.not_visible''
             else io_bind (join_group cfg e meta conversationID actor c m now) (\<lambda>x. io_return (Inr x))))))"

definition AddMember :: "conversation_config \<Rightarrow> tx_env \<Rightarrow> string \<Rightarrow> string \<Rightarrow> string \<Rightarrow> RequestMeta \<Rightarrow> workspace \<Rightarrow> (go_error, Conversation) result \<times> workspace" where
  "AddMember cfg e actorID conversationID0 userID meta ws =
    (let conversationID = TrimSpace conversationID0 in
     conversation_tx e actorID meta (\<lambda>actor now. manage_group e ''conversation.member_add'' ''conversation.member.manage'' (utf8 [0x53EA, 0x6709, 0x7FA4, 0x804A, 0x53EF, 0x4EE5, 0x7BA1, 0x7406, 0x6210, 0x5458]) None conversationID
       (add_to_group cfg e meta conversationID (TrimSpace userID) now) actor) ws)"

definition removed_payload :: "string \<Rightarrow> string \<Rightarrow> json" where
  "removed_payload conversationID userID = JObj [(''conversationId'', JStr conversationID), (''userId'', JStr userID)]"

definition remove_from_group :: "conversation_config \<Rightarrow> tx_env \<Rightarrow> RequestMeta \<Rightarrow> string \<Rightarrow> string \<Rightarrow> time \<Rightarrow> AuthActor \<Rightarrow> ConversationRecord \<Rightarrow>
    (conversation_rejection, Conversation) result tx" where
  "remove_from_group cfg e meta conversationID userID now actor c =
    (let refuse_remove = (\<lambda>err reason. rejectedError err ''conversation.member_remove'' ''conversation'' conversationID reason) in
     if userID = actor_ID actor then refuse_remove (memberInvalid (utf8 [0x4E0D, 0x80FD, 0x5728, 0x6B64, 0x5904, 0x79FB, 0x51FA, 0x81EA, 0x5DF1])) ''self removal''
     else io_bind (FindMember e userID) (\<lambda>found.
       case found of
         None \<Rightarrow> refuse_remove memberMissing ''member.not_found''
       | Some m \<Rightarrow>
           io_bind (ConversationMemberActive e conversationID userID) (\<lambda>active.
           if \<not> active then refuse_remove conversationMemberNotFound ''member not in conversation''
           else io_bind (RemoveConversationMember e conversationID userID) (\<lambda>removed.
             if \<not> removed then refuse_remove conversationMemberNotFound ''member not in conversation''
             else io_bind (conversations_writeEvent e ''conversation.member_removed'' (actor_ID actor) conversationID ''user'' userID
                 (removed_payload conversationID userID) now) (\<lambda>_.
               io_bind (createSystemMessage cfg e actor conversationID (cd_RetentionCount c) (actor_label actor @ (utf8 [0x0020, 0x5C06, 0x0020]) @ member_label m @ (utf8 [0x0020, 0x79FB, 0x51FA, 0x7FA4, 0x804A])) now) (\<lambda>_.
               io_bind (success_audit e actor meta ''conversation.member_remove'' ''conversation'' conversationID now) (\<lambda>_.
               io_bind (project_after cfg e ''project removed member conversation'' ''conversation is not visible after remove'' actor conversationID) (\<lambda>x.
               io_return (Inr x)))))))))"

definition conversations_RemoveMember :: "conversation_config \<Rightarrow> tx_env \<Rightarrow> string \<Rightarrow> string \<Rightarrow> string \<Rightarrow> RequestMeta \<Rightarrow> workspace \<Rightarrow> (go_error, Conversation) result \<times> workspace" where
  "conversations_RemoveMember cfg e actorID conversationID0 userID meta ws =
    (let conversationID = TrimSpace conversationID0 in
     conversation_tx e actorID meta (\<lambda>actor now. manage_group e ''conversation.member_remove'' ''conversation.member.manage'' (utf8 [0x53EA, 0x6709, 0x7FA4, 0x804A, 0x53EF, 0x4EE5, 0x7BA1, 0x7406, 0x6210, 0x5458]) None conversationID
       (remove_from_group cfg e meta conversationID (TrimSpace userID) now) actor) ws)"

record UpdateGroupInput =
  ug_ActorID :: string
  ug_ConversationID :: string
  ug_Title :: "string option"
  ug_AvatarEmoji :: "string option"
  ug_AvatarEmojiSet :: bool
  ug_TitleSet :: bool
  ug_Meta :: RequestMeta

definition updated_payload :: "string \<Rightarrow> string \<Rightarrow> string option \<Rightarrow> Conversation \<Rightarrow> json" where
  "updated_payload conversationID title avatar c =
    JObj [(''avatarEmoji'', json_opt avatar), (''conversation'', conversation_json c), (''conversationId'', JStr conversationID), (''title'', JStr title)]"

definition avatar_text :: "AuthActor \<Rightarrow> string option \<Rightarrow> string" where
  "avatar_text actor avatar = (case avatar of None \<Rightarrow> actor_label actor @ (utf8 [0x0020, 0x6062, 0x590D, 0x4E86, 0x9ED8, 0x8BA4, 0x7FA4, 0x5934, 0x50CF]) | Some a \<Rightarrow> actor_label actor @ (utf8 [0x0020, 0x5C06, 0x7FA4, 0x5934, 0x50CF, 0x6539, 0x4E3A, 0x0020]) @ a)"

definition save_group :: "conversation_config \<Rightarrow> tx_env \<Rightarrow> RequestMeta \<Rightarrow> string \<Rightarrow> bool \<Rightarrow> bool \<Rightarrow> string \<Rightarrow> string option \<Rightarrow> time \<Rightarrow> AuthActor \<Rightarrow> ConversationRecord \<Rightarrow> Conversation tx" where
  "save_group cfg e meta conversationID titleSet avatarSet title avatar now actor c =
    io_bind (PG_UpdateGroup e conversationID title avatar) (\<lambda>_.
    io_bind (project_after cfg e ''project updated group event'' ''conversation is not visible after update'' actor conversationID) (\<lambda>shown.
    io_bind (conversations_writeEvent e ''conversation.updated'' (actor_ID actor) conversationID ''conversation'' conversationID
      (updated_payload conversationID title avatar shown) now) (\<lambda>_.
    io_bind (if titleSet \<and> title \<noteq> cd_Title c
      then createSystemMessage cfg e actor conversationID (cd_RetentionCount c) (actor_label actor @ (utf8 [0x0020, 0x5C06, 0x7FA4, 0x804A, 0x540D, 0x79F0, 0x6539, 0x4E3A, 0x300C]) @ title @ (utf8 [0x300D])) now else io_return ()) (\<lambda>_.
    io_bind (if avatarSet \<and> avatar \<noteq> cd_AvatarEmoji c
      then createSystemMessage cfg e actor conversationID (cd_RetentionCount c) (avatar_text actor avatar) now else io_return ()) (\<lambda>_.
    io_bind (success_audit e actor meta ''conversation.update'' ''conversation'' conversationID now) (\<lambda>_.
    project_after cfg e ''project updated group conversation'' ''conversation is not visible after update'' actor conversationID))))))"

definition change_group :: "conversation_config \<Rightarrow> tx_env \<Rightarrow> UpdateGroupInput \<Rightarrow> string \<Rightarrow> bool \<Rightarrow> bool \<Rightarrow> time \<Rightarrow> AuthActor \<Rightarrow> ConversationRecord \<Rightarrow>
    (conversation_rejection, Conversation) result tx" where
  "change_group cfg e input conversationID titleSet avatarSet now actor c =
    (let refuse_update = (\<lambda>err reason. rejectedError err ''conversation.update'' ''conversation'' conversationID reason);
         title = (if titleSet then TrimSpace (stringValue (ug_Title input)) else cd_Title c) in
     if title = [] then refuse_update (invalidTitle (utf8 [0x8BF7, 0x8F93, 0x5165, 0x7FA4, 0x804A, 0x540D, 0x79F0])) ''invalid title''
     else if RuneCountInString title > 80 then refuse_update (invalidTitle (utf8 [0x7FA4, 0x804A, 0x540D, 0x79F0, 0x8FC7, 0x957F])) ''invalid title''
     else case (if avatarSet then normalizeAvatarEmoji (cf_mark cfg) (ug_AvatarEmoji input) else Inr (cd_AvatarEmoji c)) of
       Inl err \<Rightarrow> refuse_update err ''invalid avatar''
     | Inr avatar \<Rightarrow> io_bind (save_group cfg e (ug_Meta input) conversationID titleSet avatarSet title avatar now actor c) (\<lambda>x. io_return (Inr x)))"

definition UpdateGroup :: "conversation_config \<Rightarrow> tx_env \<Rightarrow> UpdateGroupInput \<Rightarrow> workspace \<Rightarrow> (go_error, Conversation) result \<times> workspace" where
  "UpdateGroup cfg e input ws =
    (let conversationID = TrimSpace (ug_ConversationID input); titleSet = ug_TitleSet input \<or> ug_Title input \<noteq> None;
         avatarSet = ug_AvatarEmojiSet input \<or> ug_AvatarEmoji input \<noteq> None in
     conversation_tx e (ug_ActorID input) (ug_Meta input) (\<lambda>actor now. manage_group e ''conversation.update'' ''conversation.update'' (utf8 [0x53EA, 0x6709, 0x7FA4, 0x804A, 0x53EF, 0x4EE5, 0x66F4, 0x65B0, 0x8D44, 0x6599])
       (if \<not> titleSet \<and> \<not> avatarSet then Some (invalidUpdate, ''conversation.invalid_update'') else None) conversationID
       (change_group cfg e input conversationID titleSet avatarSet now) actor) ws)"

section \<open>Leaving\<close>

definition leave_op :: "conversation_config \<Rightarrow> tx_env \<Rightarrow> RequestMeta \<Rightarrow> string \<Rightarrow> string conversation_op" where
  "leave_op cfg e meta conversationID actor0 now =
    (let refuse_leave = (\<lambda>err reason. rejectedError err ''conversation.leave'' ''conversation'' conversationID reason) in
     if conversationID = [] then refuse_leave conversationRequired ''conversation.required''
     else io_bind (conversations_Lock e (''workspace-members:'' @ DefaultSpaceID)) (\<lambda>_.
       io_bind (conversations_lookupActor e (actor_ID actor0)) (\<lambda>actor.
       io_bind (conversations_Lock e (''conversation:'' @ conversationID)) (\<lambda>_.
       io_bind (FindConversation e conversationID) (\<lambda>found.
       case found of
         None \<Rightarrow> refuse_leave conversationNotFoundError ''conversation.not_found''
       | Some c \<Rightarrow>
           if cd_Type c \<noteq> ''group'' then refuse_leave (invalidType (utf8 [0x53EA, 0x6709, 0x7FA4, 0x804A, 0x53EF, 0x4EE5, 0x79BB, 0x5F00])) ''conversation.invalid_type''
           else io_bind (ConversationMemberActive e conversationID (actor_ID actor)) (\<lambda>active.
             if \<not> active then refuse_leave conversationNotFoundError ''not a conversation member''
             else io_bind (CountActiveConversationMembers e conversationID) (\<lambda>n.
               if n \<le> 1 then refuse_leave (memberInvalid (utf8 [0x6700, 0x540E, 0x4E00, 0x4F4D, 0x6210, 0x5458, 0x4E0D, 0x80FD, 0x79BB, 0x5F00, 0x7FA4, 0x804A])) ''last member''
               else io_bind (RemoveConversationMember e conversationID (actor_ID actor)) (\<lambda>removed.
                 if \<not> removed then refuse_leave conversationNotFoundError ''not a conversation member''
                 else io_bind (conversations_writeEvent e ''conversation.member_removed'' (actor_ID actor) conversationID ''user'' (actor_ID actor)
                     (JObj [(''conversationId'', JStr conversationID), (''self'', JBool True), (''userId'', JStr (actor_ID actor))]) now) (\<lambda>_.
                   io_bind (createSystemMessage cfg e actor conversationID (cd_RetentionCount c) (actor_label actor @ (utf8 [0x0020, 0x79BB, 0x5F00, 0x4E86, 0x7FA4, 0x804A])) now) (\<lambda>_.
                   io_bind (success_audit e actor meta ''conversation.leave'' ''conversation'' conversationID now) (\<lambda>_.
                   io_return (Inr conversationID))))))))))))"

text \<open>The result names the conversation that was left.\<close>

definition Leave :: "conversation_config \<Rightarrow> tx_env \<Rightarrow> string \<Rightarrow> string \<Rightarrow> RequestMeta \<Rightarrow> workspace \<Rightarrow> (go_error, string) result \<times> workspace" where
  "Leave cfg e actorID conversationID meta ws = conversation_tx e actorID meta (leave_op cfg e meta (TrimSpace conversationID)) ws"

section \<open>Reading marks and notifications\<close>

text \<open>A change of the actor's own membership row, with the conversation before and after it.\<close>

definition own_row_op :: "conversation_config \<Rightarrow> tx_env \<Rightarrow> string \<Rightarrow> string \<Rightarrow> string \<Rightarrow> (AuthActor \<Rightarrow> time \<Rightarrow> unit tx) \<Rightarrow> Conversation conversation_op" where
  "own_row_op cfg e operation cause conversationID change actor now =
    (if \<not> conversations_hasCapability (actor_Role actor) ''conversation.read'' then deny_conversation ''conversation.read'' ''conversation'' conversationID
     else if conversationID = [] then rejectedError conversationRequired ''conversation.read'' ''conversation'' conversationID ''conversation.required''
     else io_bind (conversations_Lock e (''conversation:'' @ conversationID)) (\<lambda>_.
       io_bind (GetVisibleConversationRecord e (actor_ID actor) conversationID) (\<lambda>found.
       case found of
         None \<Rightarrow> rejectedError conversationNotFoundError ''conversation.read'' ''conversation'' conversationID ''not a conversation member''
       | Some _ \<Rightarrow>
           io_bind (change actor now) (\<lambda>_.
           io_bind (project_after cfg e operation cause actor conversationID) (\<lambda>x. io_return (Inr x))))))"

definition MarkRead :: "conversation_config \<Rightarrow> tx_env \<Rightarrow> string \<Rightarrow> string \<Rightarrow> RequestMeta \<Rightarrow> workspace \<Rightarrow> (go_error, Conversation) result \<times> workspace" where
  "MarkRead cfg e actorID conversationID0 meta ws =
    (let conversationID = TrimSpace conversationID0 in
     conversation_tx e actorID meta (own_row_op cfg e ''project marked conversation read'' ''conversation is not visible after read update'' conversationID
       (\<lambda>actor now. io_bind (MarkConversationRead (cf_collate cfg) e conversationID (actor_ID actor) now) (\<lambda>_. io_return ()))) ws)"

definition notification_change :: "tx_env \<Rightarrow> RequestMeta \<Rightarrow> string \<Rightarrow> string \<Rightarrow> AuthActor \<Rightarrow> time \<Rightarrow> unit tx" where
  "notification_change e meta conversationID level actor now =
    io_bind (UpdateNotificationLevel e conversationID (actor_ID actor) level) (\<lambda>_.
    io_bind (conversations_writeEvent e ''conversation.notification_updated'' (actor_ID actor) conversationID ''user'' (actor_ID actor)
      (JObj [(''conversationId'', JStr conversationID), (''notificationLevel'', JStr level), (''userId'', JStr (actor_ID actor))]) now) (\<lambda>_.
    success_audit e actor meta ''conversation.notification_update'' ''conversation'' conversationID now))"

definition UpdateNotification :: "conversation_config \<Rightarrow> tx_env \<Rightarrow> string \<Rightarrow> string \<Rightarrow> string \<Rightarrow> string \<Rightarrow> RequestMeta \<Rightarrow> workspace \<Rightarrow> (go_error, Conversation) result \<times> workspace" where
  "UpdateNotification cfg e actorID conversationID0 level0 level1 meta ws =
    (let conversationID = TrimSpace conversationID0; level = (if TrimSpace level0 = [] then TrimSpace level1 else TrimSpace level0) in
     if level \<noteq> ''all'' \<and> level \<noteq> ''mentions'' \<and> level \<noteq> ''muted'' then (Inl (Domain notificationInvalid), ws)
     else conversation_tx e actorID meta (own_row_op cfg e ''project notification conversation'' ''conversation is not visible after notification update''
       conversationID (notification_change e meta conversationID level)) ws)"

section \<open>Pins\<close>

text \<open>The refusal of a pin of a topic message, and the record with the state of its topic.\<close>

definition topicPinAccess :: "tx_env \<Rightarrow> AuthActor \<Rightarrow> conversations_MessageRecord \<Rightarrow> bool \<Rightarrow> (Error, conversations_MessageRecord) result tx" where
  "topicPinAccess e actor r mutating =
    (if cr_TopicID r = [] then io_return (Inr r)
     else if actor_Kind actor \<noteq> ''human'' \<or> actor_Role actor = ''auditor'' then io_return (Inl messageNotFoundError)
     else io_bind (TopicPinStatus e (cr_ConversationID r) (cr_TopicID r) (actor_ID actor)) (\<lambda>status.
       if status = [] then io_return (Inl messageNotFoundError)
       else let r1 = r\<lparr>cr_TopicReadOnly := (status \<noteq> ''open'')\<rparr> in
         if mutating \<and> cr_TopicReadOnly r1 then io_return (Inl topicNotOpen)
         else if mutating \<and> cr_RecalledAt r \<noteq> None then io_return (Inl messageNotFoundError)
         else io_return (Inr r1)))"

definition pin_event_payload :: "conversations_MessageRecord \<Rightarrow> json" where
  "pin_event_payload r = json_map [(''conversationId'', Some (JStr (cr_ConversationID r))), (''messageId'', Some (JStr (cr_ID r))),
     (''topicId'', nonempty_str (cr_TopicID r)), (''topicMessageId'', if cr_TopicID r = [] then None else Some (JStr (cr_ID r)))]"

definition pinEvent :: "tx_env \<Rightarrow> string \<Rightarrow> conversations_MessageRecord \<Rightarrow> bool \<Rightarrow> time \<Rightarrow> unit tx" where
  "pinEvent e actorID r unpin now =
    (let base = (if unpin then ''message.unpinned'' else ''message.pinned''); name = (if cr_TopicID r = [] then base else ''topic.'' @ base) in
     conversations_writeEvent e name actorID (cr_ConversationID r) ''message'' (cr_ID r) (pin_event_payload r) now)"

text \<open>The course Pin and Unpin share: access to the group and to the message.\<close>

definition pin_op :: "tx_env \<Rightarrow> string \<Rightarrow> string \<Rightarrow> string \<Rightarrow> (AuthActor \<Rightarrow> time \<Rightarrow> conversations_MessageRecord \<Rightarrow> (conversation_rejection, 'a) result tx) \<Rightarrow> 'a conversation_op" where
  "pin_op e action conversationID messageID k actor now =
    (if \<not> conversations_hasCapability (actor_Role actor) ''conversation.read'' then deny_conversation ''conversation.read'' ''conversation'' conversationID
     else if conversationID = [] then rejectedError conversationRequired action ''conversation'' conversationID ''conversation.required''
     else io_bind (conversations_Lock e (''conversation:'' @ conversationID)) (\<lambda>_.
       io_bind (FindConversation e conversationID) (\<lambda>found.
       case found of
         None \<Rightarrow> rejectedError messageNotFoundError action ''conversation'' conversationID ''message.not_found''
       | Some c \<Rightarrow>
           if cd_Type c \<noteq> ''group'' then rejectedError pinGroupOnly action ''conversation'' conversationID ''pin.group_only''
           else io_bind (ConversationMemberActive e conversationID (actor_ID actor)) (\<lambda>active.
             if \<not> active then rejectedError conversationNotFoundError action ''conversation'' conversationID ''not a conversation member''
             else io_bind (FindMessageForPin e conversationID messageID) (\<lambda>msg.
               case msg of
                 None \<Rightarrow> rejectedError messageNotFoundError action ''message'' messageID ''message.not_found''
               | Some r \<Rightarrow>
                   io_bind (topicPinAccess e actor r True) (\<lambda>access.
                   case access of
                     Inl err \<Rightarrow> rejectedError err action ''message'' messageID (err_Code err)
                   | Inr r1 \<Rightarrow> k actor now r1))))))"

record PinListItem =
  pl_MessageID :: string
  pl_PinnedByUserID :: string
  pl_PinnedAt :: string
  pl_CanUnpin :: bool
  pl_Message :: Message

definition projectPinnedMessage :: "(string \<Rightarrow> string) \<Rightarrow> conversations_MessageRecord \<Rightarrow> PinRecord \<Rightarrow> AuthActor option \<Rightarrow> (Error, Message) result" where
  "projectPinnedMessage md r p actor =
    projectMessage md (r\<lparr>cr_Pin := Some \<lparr>pi_MessageID = pi_MessageID p, pi_PinnedByUserID = pi_PinnedByUserID p, pi_CreatedAt = pi_CreatedAt p\<rparr>\<rparr>) actor"

definition pin_item :: "PinRecord \<Rightarrow> bool \<Rightarrow> Message \<Rightarrow> PinListItem" where
  "pin_item p unpin m = \<lparr>pl_MessageID = pi_MessageID p, pl_PinnedByUserID = pi_PinnedByUserID p, pl_PinnedAt = formatTimestamp (pi_CreatedAt p),
     pl_CanUnpin = unpin, pl_Message = m\<rparr>"

definition project_pin :: "conversation_config \<Rightarrow> tx_env \<Rightarrow> AuthActor \<Rightarrow> conversations_MessageRecord \<Rightarrow> PinRecord \<Rightarrow> PinListItem tx" where
  "project_pin cfg e actor r p =
    (let r0 = (if cr_ID (pi_Message p) = [] then r else pi_Message p) in
     io_bind (hydrateMessageRecords cfg e (actor_ID actor) [r0]) (\<lambda>hydrated.
     let r1 = (case hydrated of [] \<Rightarrow> r0 | h # _ \<Rightarrow> h) in
     io_bind (lift_result (projectPinnedMessage (cf_markdown cfg) r1 p (Some actor))) (\<lambda>m.
     io_return (pin_item p (may_unpin (Some actor) (cr_AuthorID r1)) m))))"

definition read_pin :: "conversation_config \<Rightarrow> tx_env \<Rightarrow> string \<Rightarrow> string \<Rightarrow> AuthActor \<Rightarrow> conversations_MessageRecord \<Rightarrow> PinListItem tx" where
  "read_pin cfg e conversationID messageID actor r =
    io_bind (FindPin e conversationID messageID (actor_ID actor)) (\<lambda>p.
    case p of
      None \<Rightarrow> tx_fail (Domain (internalError ''project pinned message'' ''pin is not visible after insert''))
    | Some p \<Rightarrow> project_pin cfg e actor r p)"

definition pin_message :: "conversation_config \<Rightarrow> tx_env \<Rightarrow> RequestMeta \<Rightarrow> string \<Rightarrow> string \<Rightarrow> AuthActor \<Rightarrow> time \<Rightarrow> conversations_MessageRecord \<Rightarrow>
    (conversation_rejection, PinListItem) result tx" where
  "pin_message cfg e meta conversationID messageID actor now r =
    (if cr_Kind r \<noteq> ''user'' \<or> cr_AuthorID r \<noteq> Some (actor_ID actor) then rejectedError pinNotAuthor ''message.pin'' ''message'' messageID ''pin.not_author''
     else io_bind (FindPin e conversationID messageID (actor_ID actor)) (\<lambda>existing.
       case existing of
         Some p \<Rightarrow> io_bind (project_pin cfg e actor r p) (\<lambda>x. io_return (Inr x))
       | None \<Rightarrow>
           io_bind (AddPin e conversationID messageID (actor_ID actor) now) (\<lambda>added.
           if added then
             io_bind (pinEvent e (actor_ID actor) r False now) (\<lambda>_.
             io_bind (success_audit e actor meta ''message.pin'' ''message'' messageID now) (\<lambda>_.
             io_bind (read_pin cfg e conversationID messageID actor r) (\<lambda>x. io_return (Inr x))))
           else io_bind (FindPin e conversationID messageID (actor_ID actor)) (\<lambda>again.
             case again of
               None \<Rightarrow> rejectedError pinLimitReached ''message.pin'' ''message'' messageID ''pin.limit_reached''
             | Some p \<Rightarrow> io_bind (project_pin cfg e actor r p) (\<lambda>x. io_return (Inr x))))))"

definition Pin :: "conversation_config \<Rightarrow> tx_env \<Rightarrow> string \<Rightarrow> string \<Rightarrow> string \<Rightarrow> RequestMeta \<Rightarrow> workspace \<Rightarrow> (go_error, PinListItem) result \<times> workspace" where
  "Pin cfg e actorID conversationID0 messageID0 meta ws =
    (let conversationID = TrimSpace conversationID0; messageID = TrimSpace messageID0 in
     conversation_tx e actorID meta (pin_op e ''message.pin'' conversationID messageID (pin_message cfg e meta conversationID messageID)) ws)"

text \<open>The result says whether a pin was removed.\<close>

definition unpin_message :: "tx_env \<Rightarrow> RequestMeta \<Rightarrow> string \<Rightarrow> string \<Rightarrow> AuthActor \<Rightarrow> time \<Rightarrow> conversations_MessageRecord \<Rightarrow> (conversation_rejection, bool) result tx" where
  "unpin_message e meta conversationID messageID actor now r =
    (if \<not> may_unpin (Some actor) (cr_AuthorID r) then rejectedError pinPermissionDeniedError ''message.unpin'' ''message'' messageID ''insufficient permission''
     else io_bind (FindPin e conversationID messageID (actor_ID actor)) (\<lambda>p.
       case p of
         None \<Rightarrow> io_return (Inr False)
       | Some _ \<Rightarrow>
           io_bind (RemovePin e conversationID messageID) (\<lambda>gone.
           case gone of
             None \<Rightarrow> io_return (Inr False)
           | Some _ \<Rightarrow>
               io_bind (pinEvent e (actor_ID actor) r True now) (\<lambda>_.
               io_bind (success_audit e actor meta ''message.unpin'' ''message'' messageID now) (\<lambda>_. io_return (Inr True))))))"

definition Unpin :: "tx_env \<Rightarrow> string \<Rightarrow> string \<Rightarrow> string \<Rightarrow> RequestMeta \<Rightarrow> workspace \<Rightarrow> (go_error, bool) result \<times> workspace" where
  "Unpin e actorID conversationID0 messageID0 meta ws =
    (let conversationID = TrimSpace conversationID0; messageID = TrimSpace messageID0 in
     conversation_tx e actorID meta (pin_op e ''message.unpin'' conversationID messageID (unpin_message e meta conversationID messageID)) ws)"

fun visible_pins :: "tx_env \<Rightarrow> AuthActor \<Rightarrow> PinRecord list \<Rightarrow> PinRecord list tx" where
  "visible_pins e actor [] = io_return []"
| "visible_pins e actor (p # ps) =
    io_bind (topicPinAccess e actor (pi_Message p) False) (\<lambda>access.
    io_bind (visible_pins e actor ps) (\<lambda>rest. io_return (case access of Inl _ \<Rightarrow> rest | Inr r \<Rightarrow> p\<lparr>pi_Message := r\<rparr> # rest)))"

fun pin_items :: "(string \<Rightarrow> string) \<Rightarrow> AuthActor \<Rightarrow> (PinRecord \<times> conversations_MessageRecord) list \<Rightarrow> (Error, PinListItem list) result" where
  "pin_items md actor [] = Inr []"
| "pin_items md actor ((p, r) # ps) =
    result_bind (projectPinnedMessage md r p (Some actor)) (\<lambda>m.
    result_bind (pin_items md actor ps) (\<lambda>rest. Inr (pin_item p (\<not> cr_TopicReadOnly r \<and> may_unpin (Some actor) (cr_AuthorID r)) m # rest)))"

definition pins_read :: "conversation_config \<Rightarrow> tx_env \<Rightarrow> string \<Rightarrow> string \<Rightarrow> PinListItem list read_outcome tx" where
  "pins_read cfg e actorID conversationID =
    io_bind (conversations_readActor e actorID) (\<lambda>actor.
    let refused = (\<lambda>err action reason. io_return (Refused err (actor_ID actor) action ''conversation'' conversationID reason)) in
    if \<not> conversations_hasCapability (actor_Role actor) ''conversation.read'' then refused permissionDeniedError ''conversation.read'' ''insufficient permission''
    else if conversationID = [] then tx_fail (Domain conversationRequired)
    else io_bind (FindConversation e conversationID) (\<lambda>found.
      case found of
        None \<Rightarrow> refused messageNotFoundError ''message.pin.list'' ''message.not_found''
      | Some c \<Rightarrow>
          if cd_Type c \<noteq> ''group'' then refused pinGroupOnly ''message.pin.list'' ''pin.group_only''
          else io_bind (ConversationMemberActive e conversationID (actor_ID actor)) (\<lambda>active.
            if \<not> active then refused conversationNotFoundError ''message.pin.list'' ''not a conversation member''
            else io_bind (PG_ListPins (cf_collate cfg) e conversationID (actor_ID actor) 100) (\<lambda>pins0.
              io_bind (visible_pins e actor pins0) (\<lambda>pins.
              io_bind (hydrateMessageRecords cfg e (actor_ID actor) (map pi_Message pins)) (\<lambda>msgs.
              io_bind (lift_result (pin_items (cf_markdown cfg) actor (zip pins msgs))) (\<lambda>items. io_return (Read items))))))))"

definition ListPins :: "conversation_config \<Rightarrow> tx_env \<Rightarrow> tx_env \<Rightarrow> string \<Rightarrow> string \<Rightarrow> RequestMeta \<Rightarrow> workspace \<Rightarrow> (go_error, PinListItem list) result \<times> workspace" where
  "ListPins cfg e e2 actorID conversationID meta ws = run_read e e2 meta (pins_read cfg e actorID (TrimSpace conversationID)) ws"

end
