(* ===== verification/Conversations_Rules.thy ===== *)
theory Conversations_Rules
  imports Conversations Members_Rules
begin

text \<open>
  Properties of the conversation service. The first part follows the writes of the service through every
  operation, for any relation between databases that the kinds of writes keep; the second part is about
  pins and their counters.
\<close>

section \<open>What the service writes\<close>

context effect
begin

lemma moves_internal: "moves R m \<Longrightarrow> moves R (tx_internal m)"
  by (simp add: moves_def tx_internal_def split: prod.split sum.split) (metis snd_conv)

lemma moves_lift: "moves R (lift_result r)"
  unfolding lift_result_def by (intro moves_rules)

end

lemma snd_conversations_normalized [simp]: "snd (conversations_normalized r) = snd r"
  by (auto simp: conversations_normalized_def split: prod.split sum.split)

lemma conversations_WriteEvent_keeps:
  assumes "conversations_WriteEvent newid flt input d = Inr d'"
  shows "set (workspace_events d) \<subseteq> set (workspace_events d') \<and> conversations d' = conversations d \<and> conversation_members d' = conversation_members d"
proof -
  have res: "workspace_events d1 = workspace_events d \<and> conversations d1 = conversations d \<and> conversation_members d1 = conversation_members d"
    if "reserve_lock flt internal ops space d = Inr (s, d1)" for internal ops space s d1
    using that by (auto simp: reserve_lock_def advance_cursor_def statement_def Let_def split: option.splits sum.splits if_splits)
  show ?thesis
    using assms by (auto simp: conversations_WriteEvent_def result_bind_Inr_conv map_err_Inr statement_Inr insert_event_def dest!: res split: if_splits)
qed

text \<open>An event leaves everything of the event tables but the log and its cursors.\<close>

definition event_only :: "workspace \<Rightarrow> workspace \<Rightarrow> bool" where
  "event_only v v' \<longleftrightarrow> (\<exists>d. v' = v\<lparr>ws_rest := d\<rparr> \<and> set (workspace_events (ws_rest v)) \<subseteq> set (workspace_events d) \<and>
     conversations d = conversations (ws_rest v) \<and> conversation_members d = conversation_members (ws_rest v))"

lemma conversations_event_only:
  "on_rest (\<lambda>d. result_bind (conversations_WriteEvent newid flt input d) (\<lambda>d1. Inr ((), d1))) v = Inr (x, v') \<Longrightarrow> event_only v v'"
  by (auto simp: on_rest_def result_bind_Inr_conv event_only_def dest: conversations_WriteEvent_keeps)

text \<open>A relation that audit entries, events and messages keep; membership rows and pins are added below.\<close>

locale conversation_effect = effect +
  assumes audit_kept: "insert_audit r v = Inr (x, v') \<Longrightarrow> R v v'"
    and event_kept: "event_only v v' \<Longrightarrow> R v v'"
    and messages_kept: "R v (v\<lparr>ws_messages := msgs\<rparr>)"
begin

lemma event_moves: "legal R e \<Longrightarrow> moves R (conversations_event e input)"
  unfolding moves_def conversations_event_def
  by (intro allI movesD moves_internal moves_write) (auto intro: event_kept conversations_event_only)

lemma store_moves:
  assumes "legal R e"
  shows "moves R (conversations_lookupActor e i)" "moves R (conversations_Lock e key)" "moves R (GetVisibleConversationRecord e i j)"
    "moves R (FindConversation e j)" "moves R (FindDirectConversation e key)" "moves R (FindMember e i)" "moves R (MemberVisible e i i2)"
    "moves R (SharesActiveGroup e i i2)" "moves R (ConversationMemberActive e j i)" "moves R (CountActiveConversationMembers e j)"
    "moves R (FindMessageForPin e j k)" "moves R (TopicPinStatus e j t i)" "moves R (FindPin e j k i)"
    "moves R (ListConversationMembers collate e j i)" "moves R (ListLatestMessages collate e j i n)" "moves R (PG_ListPins collate e j i n)"
    "moves R (ListConversationRecords collate e i)"
    "moves R (ListAttachments collate e i ids)" "moves R (ListReactions collate e i ids)" "moves R (ListHidden e i ids)"
    "moves R (conversations_newID e)" "moves R (conversations_WriteAudit e inp)"
    "moves R (CreateSystemMessage collate e k j content plain now retention)"
proof -
  note defs = conversations_lookupActor_def conversations_LookupActor_def conversations_Lock_def GetVisibleConversationRecord_def FindConversation_def
    FindDirectConversation_def FindMember_def MemberVisible_def SharesActiveGroup_def ConversationMemberActive_def CountActiveConversationMembers_def
    FindMessageForPin_def TopicPinStatus_def FindPin_def ListConversationMembers_def ListLatestMessages_def PG_ListPins_def ListConversationRecords_def
    ListAttachments_def ListReactions_def ListHidden_def conversations_newID_def
  show "moves R (conversations_lookupActor e i)" "moves R (conversations_Lock e key)" "moves R (GetVisibleConversationRecord e i j)"
    "moves R (FindConversation e j)" "moves R (FindDirectConversation e key)" "moves R (FindMember e i)" "moves R (MemberVisible e i i2)"
    "moves R (SharesActiveGroup e i i2)" "moves R (ConversationMemberActive e j i)" "moves R (CountActiveConversationMembers e j)"
    "moves R (FindMessageForPin e j k)" "moves R (TopicPinStatus e j t i)" "moves R (FindPin e j k i)"
    "moves R (ListConversationMembers collate e j i)" "moves R (ListLatestMessages collate e j i n)" "moves R (PG_ListPins collate e j i n)"
    "moves R (ListConversationRecords collate e i)"
    "moves R (ListAttachments collate e i ids)" "moves R (ListReactions collate e i ids)" "moves R (ListHidden e i ids)" "moves R (conversations_newID e)"
    unfolding defs by (intro moves_rules assms)+
  show "moves R (conversations_WriteAudit e inp)"
    unfolding conversations_WriteAudit_def by (intro moves_rules moves_write assms) (auto intro: audit_kept)
  show "moves R (CreateSystemMessage collate e k j content plain now retention)"
    unfolding CreateSystemMessage_def FindMessageForPin_def enforce_retention_def Let_def
    by (intro moves_rules moves_write assms) (auto simp: result_bind_def messages_kept split: sum.splits)
qed

lemma service_writes_move:
  assumes "legal R e"
  shows "moves R (conversation_audit e actor meta action tt tid outcome reason now)" "moves R (success_audit e actor meta action tt tid now)"
    "moves R (conversations_writeEvent e t i j tt tid payload now)" "moves R (createSystemMessage cfg e actor j retention plain now)"
  unfolding success_audit_def conversation_audit_def conversations_writeEvent_def createSystemMessage_def Let_def
  by (intro moves_rules moves_lift store_moves event_moves assms)+

lemma projection_moves:
  assumes "legal R e"
  shows "moves R (hydrateMessageRecords cfg e i records)" "moves R (projectConversation cfg e actor r)" "moves R (project_after cfg e operation cause actor j)"
proof -
  have shares: "moves R (hydrateMessageShares cfg e i records)" for i records
    unfolding hydrateMessageShares_def by (intro moves_rules assms)
  show h: "moves R (hydrateMessageRecords cfg e i records)" for i records
    unfolding hydrateMessageRecords_def by (intro moves_rules store_moves shares assms)
  show p: "moves R (projectConversation cfg e actor r)" for r
    unfolding projectConversation_def by (intro moves_rules moves_lift store_moves h assms)
  show "moves R (project_after cfg e operation cause actor j)"
    unfolding project_after_def by (intro moves_rules store_moves p assms)
qed

lemma rejected_moves: "moves R (rejectedError err action tt tid reason)" "moves R (deny_conversation capability tt tid)"
  unfolding deny_conversation_def rejectedError_def by (rule moves_return)+

lemmas conversation_moves = moves_rules moves_lift store_moves service_writes_move projection_moves rejected_moves

lemma conversation_tx_moves:
  assumes "legal R e" "\<And>actor now. moves R (fn actor now)"
  shows "R ws (snd (conversation_tx e actorID meta fn ws))"
proof -
  have "moves R (conversation_body e i meta1 fn)" for i meta1
    unfolding conversation_body_def Let_def by (intro conversation_moves assms)
  then show ?thesis by (simp add: conversation_tx_def Let_def refl moves_WithTx [OF assms(1)])
qed

lemma moves_valid:
  assumes "moves R m" "\<And>a b. R a b \<Longrightarrow> I a \<Longrightarrow> I b"
  shows "valid (\<lambda>s. I (tx_base s)) (\<lambda>s. I (tx_view s) \<and> I (tx_base s)) m (\<lambda>_ s. I (tx_view s) \<and> I (tx_base s))"
  unfolding valid_def
proof (intro allI impI)
  fix s :: txs assume "I (tx_view s) \<and> I (tx_base s)"
  moreover obtain r s1 where m: "m s = (r, s1)" by fastforce
  ultimately have "I (tx_view s1) \<and> I (tx_base s1)" using movesD [OF assms(1), of s] assms(2) by auto
  then show "case m s of (Inl _, s1) \<Rightarrow> I (tx_base s1) | (Inr x, s1) \<Rightarrow> I (tx_view s1) \<and> I (tx_base s1)" by (simp add: m split: sum.split)
qed

text \<open>An operation that keeps a property of the database, not step by step but from its start to its end.\<close>

lemma conversation_tx_keeps:
  assumes "legal R e" "\<And>a b. R a b \<Longrightarrow> I a \<Longrightarrow> I b" "I ws"
    and "\<And>actor now. valid (\<lambda>s. I (tx_base s)) (\<lambda>s. I (tx_view s) \<and> I (tx_base s)) (fn actor now) (\<lambda>_ s. I (tx_view s) \<and> I (tx_base s))"
  shows "I (snd (conversation_tx e actorID meta fn ws))"
proof -
  note kept = moves_valid [where I = I, OF _ assms(2)]
  have audit: "moves R (tx_wrap t (conversation_audit e actor meta1 action tt tid outcome reason now))" for t actor meta1 action tt tid outcome reason now
    by (intro conversation_moves assms(1))
  have body: "valid (\<lambda>s. I (tx_base s)) (\<lambda>s. I (tx_view s) \<and> I (tx_base s)) (conversation_body e i meta1 fn) (\<lambda>_ s. I (tx_view s) \<and> I (tx_base s))" for i meta1
    unfolding conversation_body_def Let_def
    by (intro valid_bind [OF kept [OF store_moves(1) [OF assms(1)]]] valid_bind [OF assms(4)] valid_cases valid_return valid_bind [OF kept [OF audit]])
  have "valid (\<lambda>s. I (tx_base s)) (\<lambda>s. I (tx_view s) \<and> I (tx_base s)) (io_bind (tx_guard e b) (\<lambda>_. io_bind (conversation_body e i meta1 fn)
      (\<lambda>x. io_bind (tx_guard e c) (\<lambda>_. io_return x)))) (\<lambda>_ s. I (tx_view s))" for b c i meta1
    by (intro valid_bind [OF kept [OF moves_guard [OF assms(1)]]] valid_bind [OF body] valid_return) simp_all
  then have "I (snd (WithTx b c e (conversation_body e i meta1 fn) ws))" for b c i meta1
    unfolding WithTx_def by (rule valid_Autocommit) (simp add: assms(3))
  then show ?thesis by (simp add: conversation_tx_def Let_def assms(3))
qed

lemma with_members_lock_moves:
  "legal R e \<Longrightarrow> (\<And>a. moves R (k a)) \<Longrightarrow> moves R (with_members_lock e i capability tid k)"
  unfolding with_members_lock_def by (intro conversation_moves)

lemma manage_group_moves:
  "legal R e \<Longrightarrow> (\<And>a c. moves R (k a c)) \<Longrightarrow> moves R (manage_group e action missing msg lead j k actor)"
  unfolding manage_group_def Let_def by (intro conversation_moves with_members_lock_moves)

lemma topicPinAccess_moves: "legal R e \<Longrightarrow> moves R (topicPinAccess e actor r mut)"
  unfolding topicPinAccess_def by (intro conversation_moves)

lemma pin_op_moves:
  "legal R e \<Longrightarrow> (\<And>a n r. moves R (k a n r)) \<Longrightarrow> moves R (pin_op e action j i k actor now)"
  unfolding pin_op_def by (intro conversation_moves topicPinAccess_moves)

lemma own_row_moves:
  "legal R e \<Longrightarrow> (\<And>a n. moves R (change a n)) \<Longrightarrow> moves R (own_row_op cfg e operation cause j change actor now)"
  unfolding own_row_op_def by (intro conversation_moves)

lemma pins_shown_moves:
  assumes "legal R e"
  shows "moves R (project_pin cfg e actor r p)" "moves R (read_pin cfg e j k actor r)" "moves R (pinEvent e i r unpin now)"
  unfolding project_pin_def read_pin_def pinEvent_def Let_def by (intro conversation_moves assms)+

lemma rejected_tx_moves:
  assumes "legal R e" "R ws ws1" "conversation_tx e i meta (\<lambda>actor now. rejectedError err action tt tid reason) ws1 = (x, ws2)"
  shows "R ws ws2"
proof -
  note eq = arg_cong [OF assms(3), of snd, simplified snd_conv, symmetric]
  show ?thesis unfolding eq by (rule trans [OF assms(2) conversation_tx_moves [OF assms(1) rejected_moves(1)]])
qed

lemma pin_writes_moves:
  assumes "legal R e" "\<And>k u t. moves R (AddPin e (TrimSpace j) k u t)" "\<And>k. moves R (RemovePin e (TrimSpace j) k)"
  shows "R ws (snd (Pin cfg e actorID j k meta ws))" "R ws (snd (Unpin e actorID j k meta ws))"
  unfolding Pin_def Unpin_def Let_def pin_message_def unpin_message_def
  by (intro conversation_tx_moves conversation_moves pin_op_moves pins_shown_moves assms)+

lemma run_read_moves:
  assumes "legal R e" "legal R e2" "moves R m"
  shows "R ws (snd (run_read e e2 meta m ws))"
proof -
  obtain r ws1 where r: "conversations_normalized (Autocommit m ws) = (r, ws1)" by fastforce
  then have 1: "R ws ws1" using moves_Autocommit [OF assms(3), of ws] by (metis snd_conv snd_conversations_normalized)
  show ?thesis unfolding run_read_def r using 1 by (auto split: prod.split sum.split read_outcome.split dest: rejected_tx_moves [OF assms(2) 1])
qed

lemma reads_auto:
  assumes "legal R e"
  shows "moves R (list_read cfg e i)" "moves R (get_read cfg e i j)" "moves R (pins_read cfg e i j)"
proof -
  have all: "moves R (project_all cfg e actor rs)" for actor rs
    by (induction rs) (auto intro!: conversation_moves assms)
  have vis: "moves R (visible_pins e actor ps)" for actor ps
    by (induction ps) (auto intro!: conversation_moves topicPinAccess_moves assms)
  have actor: "moves R (conversations_readActor e i)" for i
    unfolding conversations_readActor_def Let_def by (intro conversation_moves assms)
  show "moves R (list_read cfg e i)" "moves R (get_read cfg e i j)" "moves R (pins_read cfg e i j)"
    unfolding list_read_def get_read_def pins_read_def Let_def by (intro conversation_moves all actor vis assms)+
qed

lemma reads_moves:
  assumes "legal R e" "legal R e2"
  shows "R ws (snd (ListConversations cfg e e2 actorID meta ws))" "R ws (snd (GetConversation cfg e e2 actorID j meta ws))"
    "R ws (snd (ListPins cfg e e2 actorID j meta ws))"
  unfolding ListConversations_def GetConversation_def ListPins_def by (intro run_read_moves reads_auto assms)+

end

text \<open>
  A relation that the writes of conversations and of participants keep: new rows, new titles, participants who join
  and what a participant has read. Removal comes on top.
\<close>

definition member_marks :: "conversation_member_row list \<Rightarrow> (string \<times> string \<times> bool) list" where
  "member_marks cms = map (\<lambda>cm. (cm_conversation_id cm, cm_user_id cm, cm_removed cm)) cms"

lemma update_marks:
  "(\<And>cm. (cm_conversation_id (f cm), cm_user_id (f cm), cm_removed (f cm)) = (cm_conversation_id cm, cm_user_id cm, cm_removed cm)) \<Longrightarrow>
   member_marks (update_where p f cms) = member_marks cms"
  by (simp add: member_marks_def update_where_def)

locale marking_effect = conversation_effect +
  assumes renamed_kept: "R v (v\<lparr>ws_rest := (ws_rest v)\<lparr>conversations := update_where hit (\<lambda>c. c\<lparr>c_title := title, c_avatar_emoji := avatar\<rparr>) (conversations (ws_rest v))\<rparr>\<rparr>)"
    and marked_kept: "member_marks cms = member_marks (conversation_members (ws_rest v)) \<Longrightarrow> R v (v\<lparr>ws_rest := (ws_rest v)\<lparr>conversation_members := cms\<rparr>\<rparr>)"
begin

lemma marking_moves:
  assumes "legal R e"
  shows "moves R (PG_UpdateGroup e j title avatar)" "moves R (MarkConversationRead collate e j i now)" "moves R (UpdateNotificationLevel e j i level)"
proof -
  note rules = moves_rules moves_write [OF assms] assms
  show "moves R (PG_UpdateGroup e j title avatar)"
    unfolding PG_UpdateGroup_def by (intro rules) (auto simp: on_rest_def Let_def renamed_kept)
  show "moves R (MarkConversationRead collate e j i now)"
    unfolding MarkConversationRead_def by (intro rules) (auto simp: on_rest_def intro!: marked_kept update_marks)
  show "moves R (UpdateNotificationLevel e j i level)"
    unfolding UpdateNotificationLevel_def by (intro rules) (auto simp: Let_def intro!: marked_kept update_marks)
qed

lemma notification_moves: "legal R e \<Longrightarrow> moves R (notification_change e meta j level a n)"
  unfolding notification_change_def by (intro conversation_moves marking_moves)

lemma save_moves: "legal R e \<Longrightarrow> moves R (save_group cfg e meta j ts avs title avatar now actor c)"
  unfolding save_group_def by (intro conversation_moves marking_moves)

lemma change_moves:
  assumes "legal R e"
  shows "R ws (snd (UpdateGroup cfg e input ws))" "R ws (snd (MarkRead cfg e actorID j meta ws))" "R ws (snd (UpdateNotification cfg e actorID j level0 level1 meta ws))"
proof -
  show "R ws (snd (UpdateGroup cfg e input ws))"
    unfolding UpdateGroup_def Let_def change_group_def by (intro conversation_tx_moves manage_group_moves conversation_moves save_moves assms)
  show "R ws (snd (MarkRead cfg e actorID j meta ws))"
    unfolding MarkRead_def Let_def by (intro conversation_tx_moves own_row_moves conversation_moves marking_moves assms)
  have "R ws (snd (conversation_tx e actorID meta (own_row_op cfg e operation cause j1 (notification_change e meta j1 level)) ws))" for operation cause j1 level
    by (intro conversation_tx_moves own_row_moves notification_moves assms)
  then show "R ws (snd (UpdateNotification cfg e actorID j level0 level1 meta ws))"
    unfolding UpdateNotification_def Let_def by (auto simp: refl)
qed

end

locale joining_effect = marking_effect +
  assumes inserted_kept: "insert_conversation c (ws_rest v) = Inr (x, d) \<Longrightarrow> R v (v\<lparr>ws_rest := d\<rparr>)"
    and joined_kept: "R v (v\<lparr>ws_rest := snd (Conversations_Store.upsert_member j i t (ws_rest v))\<rparr>)"
begin

lemma joining_moves:
  assumes "legal R e"
  shows "moves R (PG_CreateConversation e j t title avatar key i now)" "moves R (UpsertConversationMember e j i now)"
proof -
  note rules = moves_rules moves_write [OF assms] assms
  show "moves R (PG_CreateConversation e j t title avatar key i now)"
    unfolding PG_CreateConversation_def by (intro rules) (auto simp: on_rest_def result_bind_Inr_conv intro: inserted_kept)
  have joined: "R v (v\<lparr>ws_rest := d'\<rparr>)" if "Conversations_Store.upsert_member j i now (ws_rest v) = (x, d')" for v x d'
    using joined_kept [of v j i now] by (simp add: that)
  show "moves R (UpsertConversationMember e j i now)"
    unfolding UpsertConversationMember_def by (intro rules) (auto simp: on_rest_def result_bind_Inr_conv dest: joined split: prod.splits)
qed

lemmas group_moves = conversation_moves marking_moves joining_moves with_members_lock_moves manage_group_moves own_row_moves

lemma create_moves:
  assumes "legal R e"
  shows "R ws (snd (CreateConversation cfg e input ws))"
proof -
  have add: "moves R (add_members e j now is)" for j now "is" by (induction "is") (auto intro!: group_moves assms)
  have check: "moves R (check_members e i is)" for i "is" by (induction "is") (auto intro!: group_moves assms)
  have announce: "moves R (announce_members e actor j now ms)" for actor j now ms by (induction ms) (auto intro!: group_moves assms)
  have reach: "moves R (reach_member e i t)" for i t unfolding reach_member_def by (intro group_moves assms)
  have direct: "moves R (new_direct cfg e meta actor target key now)" for meta actor target key now
    unfolding new_direct_def Let_def by (intro group_moves add assms)
  have grp: "moves R (new_group cfg e meta actor title avatar ids members now)" for meta actor title avatar ids members now
    unfolding new_group_def by (intro group_moves add announce assms)
  show ?thesis
    unfolding CreateConversation_def create_op_def createDirect_def createGroup_def Let_def
    by (intro conversation_tx_moves group_moves reach direct grp check assms)
qed

lemma add_moves: "legal R e \<Longrightarrow> R ws (snd (AddMember cfg e actorID j userID meta ws))"
  unfolding AddMember_def Let_def add_to_group_def join_group_def by (intro conversation_tx_moves group_moves)

end

locale membership_effect = joining_effect +
  assumes removed_kept: "R v (v\<lparr>ws_rest := (ws_rest v)\<lparr>conversation_members := update_where (\<lambda>cm. active_in j cm \<and> cm_user_id cm = i) (\<lambda>cm. cm\<lparr>cm_removed := True\<rparr>)
      (conversation_members (ws_rest v))\<rparr>\<rparr>)"
begin

lemma removal_moves:
  assumes "legal R e"
  shows "moves R (RemoveConversationMember e j i)" "R ws (snd (conversations_RemoveMember cfg e actorID j userID meta ws))" "R ws (snd (Leave cfg e actorID j meta ws))"
proof -
  show removal: "moves R (RemoveConversationMember e j i)" for j i
    unfolding RemoveConversationMember_def by (intro moves_rules moves_write [OF assms]) (auto simp: on_rest_def Let_def removed_kept)
  show "R ws (snd (conversations_RemoveMember cfg e actorID j userID meta ws))"
    unfolding conversations_RemoveMember_def Let_def remove_from_group_def by (intro conversation_tx_moves group_moves removal assms)
  show "R ws (snd (Leave cfg e actorID j meta ws))"
    unfolding Leave_def leave_op_def Let_def by (intro conversation_tx_moves group_moves removal assms)
qed

end

lemma membership_effectI:
  assumes "conversation_effect R" "\<And>v cs cms. R v (v\<lparr>ws_rest := (ws_rest v)\<lparr>conversations := cs, conversation_members := cms\<rparr>\<rparr>)"
  shows "membership_effect R"
proof -
  have cs: "R v (v\<lparr>ws_rest := (ws_rest v)\<lparr>conversations := cs\<rparr>\<rparr>)" for v cs
    using assms(2) [where v = v and cs = cs and cms = "conversation_members (ws_rest v)"] by simp
  have cms: "R v (v\<lparr>ws_rest := (ws_rest v)\<lparr>conversation_members := cms\<rparr>\<rparr>)" for v cms
    using assms(2) [where v = v and cs = "conversations (ws_rest v)" and cms = cms] by simp
  have "R v (v\<lparr>ws_rest := d\<rparr>)" if "insert_conversation c (ws_rest v) = Inr (x, d)" for c v x d
    using that cs by (auto simp: insert_conversation_def split: if_splits)
  moreover have "R v (v\<lparr>ws_rest := snd (Conversations_Store.upsert_member j i t (ws_rest v))\<rparr>)" for v j i t
    by (simp add: Conversations_Store.upsert_member_def Let_def cms)
  ultimately show ?thesis
    by (intro membership_effect.intro joining_effect.intro marking_effect.intro marking_effect_axioms.intro joining_effect_axioms.intro membership_effect_axioms.intro assms(1)) (auto intro: cs cms)
qed

text \<open>A relation that also the rows of pins and their counters keep.\<close>

locale pin_effect = conversation_effect +
  assumes pins_kept: "R v (v\<lparr>ws_pins := ps\<rparr>)" and counters_kept: "R v (v\<lparr>ws_pin_counters := ks\<rparr>)"
begin

lemma pin_moves:
  assumes "legal R e"
  shows "R ws (snd (Pin cfg e actorID j k meta ws))" "R ws (snd (Unpin e actorID j k meta ws))"
proof -
  note rules = moves_rules moves_write [OF assms] assms
  have reserve: "reserve_pin c u v = (x, v') \<Longrightarrow> R v v'" for v c u x v'
    by (auto simp: reserve_pin_def counters_kept refl split: option.splits if_splits)
  have insert: "insert_pin c m u t v = (x, v') \<Longrightarrow> R v v'" for v c m u t x v'
    by (auto simp: insert_pin_def pins_kept refl split: if_splits)
  have add: "moves R (AddPin e c m u t)" for c m u t
    unfolding AddPin_def release_pin_def by (intro rules) (auto simp: counters_kept dest: reserve insert)
  have remove: "moves R (RemovePin e c m)" for c m
    unfolding RemovePin_def release_pin_def by (intro rules) (auto simp: pins_kept counters_kept)
  show "R ws (snd (Pin cfg e actorID j k meta ws))" "R ws (snd (Unpin e actorID j k meta ws))"
    by (intro pin_writes_moves add remove assms)+
qed

end

lemma forward_more:
  "forward v (v\<lparr>ws_messages := ms\<rparr>)" "forward v (v\<lparr>ws_pins := ps\<rparr>)" "forward v (v\<lparr>ws_pin_counters := ks\<rparr>)"
  by (simp_all add: forward_def evolve_refls invites_ok_def)

interpretation forward_groups: membership_effect forward
  by (intro membership_effectI; unfold_locales?) (auto simp: event_only_def forward_more intro: forward_insert_audit)

interpretation forward_pins: pin_effect forward
  by unfold_locales (auto simp: forward_more)

interpretation owner_groups: membership_effect keeps_owner
  by (intro membership_effectI; unfold_locales?) (auto simp: event_only_def intro: keeps_owner_same insert_audit_members)

interpretation owner_pins: pin_effect keeps_owner
  by unfold_locales (auto intro: keeps_owner_same)


section \<open>The operations as one step\<close>

text \<open>
  A read is a step of its own, the audit of its refusal another one: \<open>run_read\<close> is the two in a row.
\<close>

datatype conversation_action =
    C_List string
  | C_Get string string
  | C_Pins string string
  | C_Refuse string RequestMeta Error string string string string
  | C_Create CreateConversationInput
  | C_Add string string string RequestMeta
  | C_Remove string string string RequestMeta
  | C_Update UpdateGroupInput
  | C_Leave string string RequestMeta
  | C_MarkRead string string RequestMeta
  | C_Notification string string string string RequestMeta
  | C_Pin string string string RequestMeta
  | C_Unpin string string string RequestMeta

fun perform_conversation :: "conversation_config \<Rightarrow> tx_env \<Rightarrow> conversation_action \<Rightarrow> workspace \<Rightarrow> workspace" where
  "perform_conversation cfg e (C_List i) ws = snd (Autocommit (list_read cfg e i) ws)"
| "perform_conversation cfg e (C_Get i j) ws = snd (Autocommit (get_read cfg e i (TrimSpace j)) ws)"
| "perform_conversation cfg e (C_Pins i j) ws = snd (Autocommit (pins_read cfg e i (TrimSpace j)) ws)"
| "perform_conversation cfg e (C_Refuse i meta err action tt tid reason) ws =
    snd (conversation_tx e i meta (\<lambda>actor now. rejectedError err action tt tid reason :: (conversation_rejection, unit) result tx) ws)"
| "perform_conversation cfg e (C_Create input) ws = snd (CreateConversation cfg e input ws)"
| "perform_conversation cfg e (C_Add i j userID meta) ws = snd (AddMember cfg e i j userID meta ws)"
| "perform_conversation cfg e (C_Remove i j userID meta) ws = snd (conversations_RemoveMember cfg e i j userID meta ws)"
| "perform_conversation cfg e (C_Update input) ws = snd (UpdateGroup cfg e input ws)"
| "perform_conversation cfg e (C_Leave i j meta) ws = snd (Leave cfg e i j meta ws)"
| "perform_conversation cfg e (C_MarkRead i j meta) ws = snd (MarkRead cfg e i j meta ws)"
| "perform_conversation cfg e (C_Notification i j level0 level1 meta) ws = snd (UpdateNotification cfg e i j level0 level1 meta ws)"
| "perform_conversation cfg e (C_Pin i j k meta) ws = snd (Pin cfg e i j k meta ws)"
| "perform_conversation cfg e (C_Unpin i j k meta) ws = snd (Unpin e i j k meta ws)"

fun is_pin_action :: "conversation_action \<Rightarrow> bool" where
  "is_pin_action (C_Pin i j k meta) = True"
| "is_pin_action (C_Unpin i j k meta) = True"
| "is_pin_action a = False"

lemma pin_action_cases:
  "is_pin_action a \<Longrightarrow> (\<And>i j k meta. a = C_Pin i j k meta \<Longrightarrow> P) \<Longrightarrow> (\<And>i j k meta. a = C_Unpin i j k meta \<Longrightarrow> P) \<Longrightarrow> P"
  by (cases a) auto

fun is_removal :: "conversation_action \<Rightarrow> bool" where
  "is_removal (C_Remove i j userID meta) = True"
| "is_removal (C_Leave i j meta) = True"
| "is_removal a = False"

context joining_effect
begin

lemma action_moves:
  assumes "legal R e" "\<not> is_pin_action a" "\<not> is_removal a"
  shows "R ws (perform_conversation cfg e a ws)"
  using assms(2,3)
  by (cases a; simp only: perform_conversation.simps is_pin_action.simps is_removal.simps not_True_eq_False)
    (rule moves_Autocommit reads_auto [OF assms(1)] create_moves [OF assms(1)] add_moves [OF assms(1)] change_moves [OF assms(1)] conversation_tx_moves [OF assms(1)] rejected_moves)+

end

context membership_effect
begin

lemma membership_action_moves:
  assumes "legal R e" "\<not> is_pin_action a"
  shows "R ws (perform_conversation cfg e a ws)"
proof (cases "is_removal a")
  case True
  then show ?thesis using removal_moves(2,3) [OF assms(1)] by (cases a) auto
qed (rule action_moves [OF assms])

end

section \<open>Pins and their counters\<close>

definition pinned_by :: "string \<Rightarrow> string \<Rightarrow> workspace \<Rightarrow> nat" where
  "pinned_by j u ws = length (filter (\<lambda>p. pn_conversation_id p = j \<and> pn_pinned_by_user_id p = u) (ws_pins ws))"

definition pin_counters :: "string \<Rightarrow> string \<Rightarrow> workspace \<Rightarrow> int list" where
  "pin_counters j u ws = map pk_pin_count (filter (counter_key j u) (ws_pin_counters ws))"

text \<open>The counter of a user says how many pins of the conversation are the user's, at most the limit.\<close>

definition counted :: "string \<Rightarrow> string \<Rightarrow> workspace \<Rightarrow> bool" where
  "counted j u ws \<longleftrightarrow> int (pinned_by j u ws) \<le> MaxPinnedMessages \<and>
     (pin_counters j u ws = [int (pinned_by j u ws)] \<or> pin_counters j u ws = [] \<and> pinned_by j u ws = 0)"

definition pins_unique :: "string \<Rightarrow> workspace \<Rightarrow> bool" where
  "pins_unique j ws \<longleftrightarrow> distinct (map pn_message_id (filter (\<lambda>p. pn_conversation_id p = j) (ws_pins ws)))"

definition pins_ok :: "string \<Rightarrow> workspace \<Rightarrow> bool" where
  "pins_ok j ws \<longleftrightarrow> pins_unique j ws \<and> (\<forall>u. counted j u ws)"

text \<open>Between its two statements a pin operation has the counter of one user one ahead of the pins.\<close>

definition one_ahead :: "string \<Rightarrow> string \<Rightarrow> workspace \<Rightarrow> bool" where
  "one_ahead j u ws \<longleftrightarrow> pins_unique j ws \<and> (\<forall>v. v \<noteq> u \<longrightarrow> counted j v ws) \<and>
     pin_counters j u ws = [int (pinned_by j u ws) + 1] \<and> int (pinned_by j u ws) + 1 \<le> MaxPinnedMessages"

definition same_pins :: "string \<Rightarrow> workspace \<Rightarrow> workspace \<Rightarrow> bool" where
  "same_pins j a b \<longleftrightarrow> filter (\<lambda>p. pn_conversation_id p = j) (ws_pins b) = filter (\<lambda>p. pn_conversation_id p = j) (ws_pins a) \<and>
     filter (\<lambda>k. pk_conversation_id k = j) (ws_pin_counters b) = filter (\<lambda>k. pk_conversation_id k = j) (ws_pin_counters a)"

definition keeps_pins :: "string \<Rightarrow> workspace \<Rightarrow> workspace \<Rightarrow> bool" where
  "keeps_pins j a b \<longleftrightarrow> (pins_ok j a \<longrightarrow> pins_ok j b)"

lemma same_counts:
  assumes "same_pins j a b"
  shows "pinned_by j u b = pinned_by j u a" "pin_counters j u b = pin_counters j u a" "pins_unique j b = pins_unique j a"
proof -
  have p: "filter (\<lambda>p. pn_conversation_id p = j \<and> pn_pinned_by_user_id p = u) ps = filter (\<lambda>p. pn_pinned_by_user_id p = u) (filter (\<lambda>p. pn_conversation_id p = j) ps)" for ps
    by (simp add: conj_commute)
  have k: "filter (counter_key j u) ks = filter (\<lambda>k. pk_user_id k = u) (filter (\<lambda>k. pk_conversation_id k = j) ks)" for ks
    by (simp add: counter_key_def [abs_def] conj_commute)
  show "pinned_by j u b = pinned_by j u a" using assms by (simp only: pinned_by_def same_pins_def p)
  show "pin_counters j u b = pin_counters j u a" using assms by (simp only: pin_counters_def same_pins_def k)
  show "pins_unique j b = pins_unique j a" using assms by (simp only: pins_unique_def same_pins_def)
qed

lemma same_pins_ok: "same_pins j a b \<Longrightarrow> pins_ok j b = pins_ok j a" "same_pins j a b \<Longrightarrow> one_ahead j u b = one_ahead j u a"
  by (simp_all add: pins_ok_def one_ahead_def counted_def same_counts)

lemma same_pins_tables: "ws_pins b = ws_pins a \<Longrightarrow> ws_pin_counters b = ws_pin_counters a \<Longrightarrow> same_pins j a b"
  by (simp add: same_pins_def)

interpretation keeps_pins: membership_effect "keeps_pins j" for j
proof (intro membership_effectI; unfold_locales?)
  have same: "keeps_pins j a b" if "ws_pins b = ws_pins a" "ws_pin_counters b = ws_pin_counters a" for a b
    using same_pins_ok(1) [OF same_pins_tables [OF that]] by (simp add: keeps_pins_def)
  show "keeps_pins j v v'" if "insert_audit r v = Inr (x, v')" for r v x v'
    by (rule same) (use that in \<open>auto dest: insert_audit_ok\<close>)
  show "keeps_pins j v v'" if "event_only v v'" for v v'
    by (rule same) (use that in \<open>auto simp: event_only_def\<close>)
qed (auto simp: keeps_pins_def pins_ok_def counted_def pinned_by_def pin_counters_def pins_unique_def)

text \<open>The statements. Those on other conversations leave the pins of a conversation alone.\<close>

lemma reserve_counts:
  assumes "pins_ok j ws" "reserve_pin j u ws = (x, ws')"
  shows "case x of None \<Rightarrow> ws' = ws | Some n \<Rightarrow> one_ahead j u ws'"
proof (cases "first_row (filter (counter_key j u) (ws_pin_counters ws))")
  case None
  then have none: "filter (counter_key j u) (ws_pin_counters ws) = []" by simp
  have "counted j u ws" using assms(1) by (simp add: pins_ok_def)
  then have "pinned_by j u ws = 0" using none by (simp add: counted_def pin_counters_def)
  moreover have "x = Some 1" and new: "ws' = ws\<lparr>ws_pin_counters := ws_pin_counters ws @ [\<lparr>pk_conversation_id = j, pk_user_id = u, pk_pin_count = 1\<rparr>]\<rparr>"
    using assms(2) None by (simp_all add: reserve_pin_def)
  moreover have "pin_counters j v ws' = (if v = u then [1] else pin_counters j v ws)" for v
    using none by (auto simp: new pin_counters_def counter_key_def)
  moreover have "pinned_by j v ws' = pinned_by j v ws" "pins_unique j ws' = pins_unique j ws" for v by (simp_all add: new pinned_by_def pins_unique_def)
  ultimately show ?thesis using assms(1) by (simp add: one_ahead_def pins_ok_def counted_def MaxPinnedMessages_def)
next
  case (Some k)
  then have "pin_counters j u ws \<noteq> []" by (auto simp: pin_counters_def first_row_Some)
  moreover have "counted j u ws" using assms(1) by (simp add: pins_ok_def)
  ultimately have one: "filter (counter_key j u) (ws_pin_counters ws) = [k]" "pk_pin_count k = int (pinned_by j u ws)"
    using Some unfolding counted_def pin_counters_def by (auto simp: first_row_Some)
  have key: "counter_key j v (k\<lparr>pk_pin_count := n\<rparr>) = counter_key j v k" for v k n by (simp add: counter_key_def)
  have up: "filter (counter_key j v) (update_where (counter_key j u) f ks) = map (\<lambda>k. if counter_key j u k then f k else k) (filter (counter_key j v) ks)"
    if "\<And>k. counter_key j v (f k) = counter_key j v k" for v f ks
    by (simp add: update_where_def filter_map o_def that if_distrib cong: if_cong)
  have other: "pin_counters j v (ws\<lparr>ws_pin_counters := update_where (counter_key j u) (\<lambda>k. k\<lparr>pk_pin_count := pk_pin_count k + 1\<rparr>) (ws_pin_counters ws)\<rparr>) = pin_counters j v ws"
    if "v \<noteq> u" for v
    by (simp add: pin_counters_def up key) (use that in \<open>auto simp: counter_key_def\<close>)
  have "pin_counters j u (ws\<lparr>ws_pin_counters := update_where (counter_key j u) (\<lambda>k. k\<lparr>pk_pin_count := pk_pin_count k + 1\<rparr>) (ws_pin_counters ws)\<rparr>) = [pk_pin_count k + 1]"
    using one(1) by (simp add: pin_counters_def up key) (metis filter_eq_ConsD)
  then show ?thesis
    using assms Some one(2) other unfolding one_ahead_def pins_ok_def counted_def
    by (auto simp: reserve_pin_def pinned_by_def pins_unique_def split: if_splits)
qed


lemma insert_counts:
  assumes "one_ahead j u ws" "insert_pin j k u t ws = (x, ws')"
  shows "if x then pins_ok j ws' else one_ahead j u ws'"
proof (cases "list_ex (pin_key j k) (ws_pins ws)")
  case True
  then show ?thesis using assms by (auto simp: insert_pin_def)
next
  case False
  then have new: "x" "ws' = ws\<lparr>ws_pins := ws_pins ws @ [\<lparr>pn_conversation_id = j, pn_message_id = k, pn_pinned_by_user_id = u, pn_created_at = pg_timestamp t\<rparr>]\<rparr>"
    using assms(2) by (simp_all add: insert_pin_def)
  have fresh: "k \<notin> pn_message_id ` set (filter (\<lambda>p. pn_conversation_id p = j) (ws_pins ws))"
    using False by (auto simp: list_ex_iff pin_key_def)
  have "pins_unique j ws'" using assms(1) fresh by (simp add: new pins_unique_def one_ahead_def)
  moreover have "pinned_by j v ws' = (if v = u then Suc (pinned_by j u ws) else pinned_by j v ws)" "pin_counters j v ws' = pin_counters j v ws" for v
    by (simp_all add: new pinned_by_def pin_counters_def)
  ultimately have "pins_ok j ws'" using assms(1) by (auto simp: one_ahead_def pins_ok_def counted_def)
  then show ?thesis using new(1) by simp
qed

lemma pins_okI: "pins_unique j ws \<Longrightarrow> counted j u ws \<Longrightarrow> (\<And>v. v \<noteq> u \<Longrightarrow> counted j v ws) \<Longrightarrow> pins_ok j ws"
  unfolding pins_ok_def by metis

lemma release_counts:
  assumes "one_ahead j u ws"
  shows "pins_ok j (release_pin j u ws)"
proof -
  let ?f = "\<lambda>k. k\<lparr>pk_pin_count := (if pk_pin_count k > 0 then pk_pin_count k - 1 else 0)\<rparr>"
  have up: "filter (counter_key j v) (update_where (counter_key j u) ?f ks) = map (\<lambda>k. if counter_key j u k then ?f k else k) (filter (counter_key j v) ks)" for v ks
    by (induction ks) (auto simp: update_where_def counter_key_def)
  have other: "pin_counters j v (release_pin j u ws) = pin_counters j v ws" if "v \<noteq> u" for v
    unfolding pin_counters_def release_pin_def by (simp add: up) (use that in \<open>auto simp: counter_key_def\<close>)
  obtain k where k: "filter (counter_key j u) (ws_pin_counters ws) = [k]" "pk_pin_count k = int (pinned_by j u ws) + 1"
    using assms by (auto simp: one_ahead_def pin_counters_def map_eq_Cons_conv)
  then have "pin_counters j u (release_pin j u ws) = [int (pinned_by j u ws)]"
    unfolding pin_counters_def release_pin_def by (simp add: up) (metis filter_eq_ConsD)
  moreover have "pinned_by j v (release_pin j u ws) = pinned_by j v ws" "pins_unique j (release_pin j u ws) = pins_unique j ws" for v
    by (simp_all add: release_pin_def pinned_by_def pins_unique_def)
  ultimately show ?thesis using assms other by (intro pins_okI [where u = u]) (simp_all add: one_ahead_def counted_def)
qed

lemma remove_counts:
  assumes "pins_ok j ws"
  shows "case first_row (filter (pin_key j k) (ws_pins ws)) of
      None \<Rightarrow> pins_ok j (ws\<lparr>ws_pins := filter (\<lambda>p. \<not> pin_key j k p) (ws_pins ws)\<rparr>)
    | Some p \<Rightarrow> one_ahead j (pn_pinned_by_user_id p) (ws\<lparr>ws_pins := filter (\<lambda>p. \<not> pin_key j k p) (ws_pins ws)\<rparr>)"
proof (cases "first_row (filter (pin_key j k) (ws_pins ws))")
  case None
  then have "filter (\<lambda>p. \<not> pin_key j k p) (ws_pins ws) = ws_pins ws" by (simp add: filter_empty_conv filter_id_conv)
  then show ?thesis using assms None by (simp del: first_row_None)
next
  case (Some p)
  let ?ws' = "ws\<lparr>ws_pins := filter (\<lambda>p. \<not> pin_key j k p) (ws_pins ws)\<rparr>"
  have inj: "distinct (map pn_message_id (filter (\<lambda>p. pn_conversation_id p = j) (ws_pins ws)))"
    using assms by (simp add: pins_ok_def pins_unique_def)
  have "filter (pin_key j k) (ws_pins ws) = filter (\<lambda>p. pn_message_id p = k) (filter (\<lambda>p. pn_conversation_id p = j) (ws_pins ws))"
    by (simp add: pin_key_def [abs_def] conj_commute)
  moreover have "length (filter (\<lambda>p. pn_message_id p = k) ps) \<le> 1" if "distinct (map pn_message_id ps)" for ps :: "pin_row list"
    using that by (induction ps) (auto simp: filter_empty_conv intro: rev_image_eqI)
  ultimately have "length (filter (pin_key j k) (ws_pins ws)) \<le> 1" using inj by (simp only:)
  then have one: "filter (pin_key j k) (ws_pins ws) = [p]" using Some by (auto simp: first_row_Some)
  have split: "length (filter (\<lambda>p. pn_conversation_id p = j \<and> pn_pinned_by_user_id p = v) ps) =
      length (filter (\<lambda>p. pn_conversation_id p = j \<and> pn_pinned_by_user_id p = v) (filter (\<lambda>p. \<not> pin_key j k p) ps)) +
      length (filter (\<lambda>p. pn_pinned_by_user_id p = v) (filter (pin_key j k) ps))" for v ps
    by (induction ps) (auto simp: pin_key_def)
  have count: "pinned_by j v ws = pinned_by j v ?ws' + (if v = pn_pinned_by_user_id p then 1 else 0)" for v
    using split [of v "ws_pins ws"] unfolding one pinned_by_def by simp
  have counters: "pin_counters j v ?ws' = pin_counters j v ws" for v by (simp add: pin_counters_def)
  have "filter (\<lambda>p. pn_conversation_id p = j) (filter (\<lambda>p. \<not> pin_key j k p) ps) = filter (\<lambda>p. \<not> pin_key j k p) (filter (\<lambda>p. pn_conversation_id p = j) ps)" for ps
    by (simp add: conj_commute)
  then have "pins_unique j ?ws'" using distinct_map_filter [OF inj] by (simp add: pins_unique_def del: filter_filter)
  moreover have c: "counted j v ws" for v using assms by (simp add: pins_ok_def)
  have "counted j v ?ws'" if "v \<noteq> pn_pinned_by_user_id p" for v
    using c [of v] count [of v] that by (simp add: counted_def counters)
  moreover have "pin_counters j (pn_pinned_by_user_id p) ?ws' = [int (pinned_by j (pn_pinned_by_user_id p) ?ws') + 1] \<and>
      int (pinned_by j (pn_pinned_by_user_id p) ?ws') + 1 \<le> MaxPinnedMessages"
    using c [of "pn_pinned_by_user_id p"] count [of "pn_pinned_by_user_id p"] by (simp add: counted_def counters)
  ultimately show ?thesis using Some by (simp add: one_ahead_def)
qed

lemma elsewhere:
  assumes "i \<noteq> j"
  shows "reserve_pin i u ws = (x, ws1) \<Longrightarrow> same_pins j ws ws1" "insert_pin i k u t ws = (y, ws2) \<Longrightarrow> same_pins j ws ws2" "same_pins j ws (release_pin i u ws)"
    "same_pins j ws (ws\<lparr>ws_pins := filter (\<lambda>p. \<not> pin_key i k p) (ws_pins ws)\<rparr>)"
proof -
  have up: "filter (\<lambda>k. pk_conversation_id k = j) (update_where (counter_key i u) (\<lambda>k. k\<lparr>pk_pin_count := f k\<rparr>) ks) = filter (\<lambda>k. pk_conversation_id k = j) ks" for f ks
    using assms by (induction ks) (auto simp: update_where_def counter_key_def)
  show "reserve_pin i u ws = (x, ws1) \<Longrightarrow> same_pins j ws ws1"
    using assms by (auto simp: reserve_pin_def same_pins_def up split: option.splits if_splits)
  show "insert_pin i k u t ws = (y, ws2) \<Longrightarrow> same_pins j ws ws2" using assms by (auto simp: insert_pin_def same_pins_def split: if_splits)
  show "same_pins j ws (release_pin i u ws)" by (simp add: release_pin_def same_pins_def up)
  have "filter (\<lambda>p. pn_conversation_id p = j) (filter (\<lambda>p. \<not> pin_key i k p) ps) = filter (\<lambda>p. pn_conversation_id p = j) ps" for ps
    using assms by (induction ps) (auto simp: pin_key_def)
  then show "same_pins j ws (ws\<lparr>ws_pins := filter (\<lambda>p. \<not> pin_key i k p) (ws_pins ws)\<rparr>)" by (simp add: same_pins_def)
qed


text \<open>
  What other transactions do to pins: each keeps the counters right, and while this transaction holds the
  lock on a conversation no other changes the pins of that conversation. The operations of this package
  take that lock; recalling a message in the messages package takes another one and is excluded here.
\<close>

definition pin_safe :: "string \<Rightarrow> tx_env \<Rightarrow> bool" where
  "pin_safe i e \<longleftrightarrow> (\<forall>n ws. (\<forall>j. pins_ok j ws \<longrightarrow> pins_ok j (te_other e n ws) \<and> pins_ok j (te_locked e n ws)) \<and> same_pins i ws (te_locked e n ws))"

lemma pin_safe_legal: "pin_safe i e \<Longrightarrow> legal (keeps_pins j) e"
  by (simp add: pin_safe_def legal_def keeps_pins_def)

definition pins_base :: "string \<Rightarrow> txs \<Rightarrow> bool" where
  "pins_base j s \<longleftrightarrow> pins_ok j (tx_base s)"

definition pins_at :: "string \<Rightarrow> txs \<Rightarrow> bool" where
  "pins_at j s \<longleftrightarrow> pins_ok j (tx_view s) \<and> pins_base j s"

definition pins_locked :: "string \<Rightarrow> txs \<Rightarrow> bool" where
  "pins_locked j s \<longleftrightarrow> pins_at j s \<and> tx_locked s"

definition pins_ahead :: "string \<Rightarrow> string \<Rightarrow> txs \<Rightarrow> bool" where
  "pins_ahead j u s \<longleftrightarrow> one_ahead j u (tx_view s) \<and> pins_base j s \<and> tx_locked s"

lemma pins_states: "pins_locked j s \<Longrightarrow> pins_at j s" "pins_at j s \<Longrightarrow> pins_base j s" "pins_ahead j u s \<Longrightarrow> pins_base j s" "pins_locked j s \<Longrightarrow> pins_base j s"
  by (auto simp: pins_locked_def pins_at_def pins_ahead_def)

lemma others_pins:
  assumes "pin_safe j e"
  shows "pins_at j s \<Longrightarrow> pins_at j (others e s)" "pins_locked j s \<Longrightarrow> pins_locked j (others e s)" "pins_ahead j u s \<Longrightarrow> pins_ahead j u (others e s)"
proof -
  note safe = assms [unfolded pin_safe_def]
  show at: "pins_at j s \<Longrightarrow> pins_at j (others e s)" using safe by (simp add: pins_at_def pins_base_def others_def Let_def)
  then show "pins_locked j s \<Longrightarrow> pins_locked j (others e s)" by (simp add: pins_locked_def) (simp add: others_def Let_def)
  have "one_ahead j u (te_locked e n ws) = one_ahead j u ws" for n ws by (rule same_pins_ok(2)) (use safe in blast)
  then show "pins_ahead j u s \<Longrightarrow> pins_ahead j u (others e s)" using safe by (simp add: pins_ahead_def pins_base_def others_def Let_def)
qed

lemma pins_moves:
  assumes "moves (keeps_pins j) m"
  shows "valid (pins_base j) (pins_at j) m (\<lambda>_. pins_at j)"
  unfolding pins_at_def [abs_def] pins_base_def [abs_def]
  by (rule keeps_pins.moves_valid [OF assms]) (simp add: keeps_pins_def)

lemma reads_locked:
  assumes "pin_safe j e"
  shows "valid (pins_base j) (pins_locked j) (FindConversation e i) (\<lambda>_. pins_locked j)"
    "valid (pins_base j) (pins_locked j) (ConversationMemberActive e i u) (\<lambda>_. pins_locked j)"
    "valid (pins_base j) (pins_locked j) (FindMessageForPin e i k) (\<lambda>_. pins_locked j)"
    "valid (pins_base j) (pins_locked j) (TopicPinStatus e i t u) (\<lambda>_. pins_locked j)"
    "valid (pins_base j) (pins_locked j) (FindPin e i k u) (\<lambda>_. pins_locked j)"
  unfolding FindConversation_def ConversationMemberActive_def FindMessageForPin_def TopicPinStatus_def FindPin_def
  by (intro valid_wrap valid_read; blast intro: others_pins [OF assms] pins_states)+

lemma access_locked:
  assumes "pin_safe j e"
  shows "valid (pins_base j) (pins_locked j) (topicPinAccess e actor r mut) (\<lambda>_. pins_locked j)"
  unfolding topicPinAccess_def Let_def
  by (intro valid_cases valid_return valid_bind [OF reads_locked(4) [OF assms]])

lemma conversation_lock_pins:
  assumes "pin_safe j e"
  shows "valid (pins_base j) (pins_at j) (conversations_Lock e key) (\<lambda>_. pins_locked j)"
  unfolding conversations_Lock_def tx_lock_def
  by (intro valid_cases valid_fail valid_wrap valid_bind [where Q = "\<lambda>_. pins_at j"] valid_read)
    (auto intro: others_pins [OF assms] pins_states simp: valid_def pins_locked_def, auto simp: pins_at_def pins_base_def)

lemma AddPin_counts:
  assumes "pin_safe j e"
  shows "valid (pins_base j) (pins_locked j) (AddPin e j k u t) (\<lambda>_. pins_at j)"
proof -
  have reserve: "valid (pins_base j) (pins_locked j) (tx_wrap ''reserve message pin'' (tx_write e (\<lambda>ws. Inr (reserve_pin j u ws))))
      (\<lambda>x s. case x of None \<Rightarrow> pins_at j s | Some n \<Rightarrow> pins_ahead j u s)"
  proof (intro valid_wrap valid_write)
    fix s x v assume s: "pins_locked j s" and w: "Inr (reserve_pin j u (tx_view (others e s))) = (Inr (x, v) :: (string, _) result)"
    have s1: "pins_locked j (others e s)" by (rule others_pins(2) [OF assms s])
    then show "case x of None \<Rightarrow> pins_at j ((others e s)\<lparr>tx_view := v\<rparr>) | Some n \<Rightarrow> pins_ahead j u ((others e s)\<lparr>tx_view := v\<rparr>)"
      using reserve_counts [of j "tx_view (others e s)" u x v] w by (auto simp: pins_locked_def pins_at_def pins_ahead_def pins_base_def split: option.splits)
  qed (blast intro: others_pins [OF assms] pins_states)
  have insert: "valid (pins_base j) (pins_ahead j u) (tx_wrap ''add message pin'' (tx_write e (\<lambda>ws. Inr (insert_pin j k u t ws))))
      (\<lambda>x s. if x then pins_at j s else pins_ahead j u s)"
  proof (intro valid_wrap valid_write)
    fix s x v assume s: "pins_ahead j u s" and w: "Inr (insert_pin j k u t (tx_view (others e s))) = (Inr (x, v) :: (string, _) result)"
    have s1: "pins_ahead j u (others e s)" by (rule others_pins(3) [OF assms s])
    then show "if x then pins_at j ((others e s)\<lparr>tx_view := v\<rparr>) else pins_ahead j u ((others e s)\<lparr>tx_view := v\<rparr>)"
      using insert_counts [of j u "tx_view (others e s)" k t x v] w by (auto simp: pins_at_def pins_ahead_def pins_base_def split: if_splits)
  qed (blast intro: others_pins [OF assms] pins_states)
  have release: "valid (pins_base j) (pins_ahead j u) (tx_wrap ''restore message pin counter'' (tx_write e (\<lambda>ws. Inr ((), release_pin j u ws)))) (\<lambda>_. pins_at j)"
    using others_pins(3) [OF assms] release_counts
    by (intro valid_wrap valid_write) (auto simp: pins_ahead_def pins_at_def pins_base_def)
  have "valid (pins_base j) (\<lambda>s. if x then pins_at j s else pins_ahead j u s)
      (if x then io_return True else io_bind (tx_wrap ''restore message pin counter'' (tx_write e (\<lambda>ws. Inr ((), release_pin j u ws)))) (\<lambda>_. io_return False))
      (\<lambda>_. pins_at j)" for x
    by (cases x) (auto intro!: valid_return valid_bind [OF release])
  then show ?thesis
    unfolding AddPin_def
    by (intro valid_bind [OF reserve]) (auto split: option.split intro!: valid_return valid_bind [OF insert])
qed

lemma RemovePin_counts:
  assumes "pin_safe j e"
  shows "valid (pins_base j) (pins_locked j) (RemovePin e j k) (\<lambda>_. pins_at j)"
proof -
  have remove: "valid (pins_base j) (pins_locked j) (tx_wrap ''remove message pin'' (tx_write e (\<lambda>ws. Inr (first_row (filter (pin_key j k) (ws_pins ws)),
      ws\<lparr>ws_pins := filter (\<lambda>p. \<not> pin_key j k p) (ws_pins ws)\<rparr>))))
      (\<lambda>x s. case x of None \<Rightarrow> pins_at j s | Some p \<Rightarrow> pins_ahead j (pn_pinned_by_user_id p) s)"
  proof (intro valid_wrap valid_write)
    fix s x v assume s: "pins_locked j s" and w: "Inr (first_row (filter (pin_key j k) (ws_pins (tx_view (others e s)))),
        (tx_view (others e s))\<lparr>ws_pins := filter (\<lambda>p. \<not> pin_key j k p) (ws_pins (tx_view (others e s)))\<rparr>) = (Inr (x, v) :: (string, _) result)"
    have s1: "pins_locked j (others e s)" by (rule others_pins(2) [OF assms s])
    then show "case x of None \<Rightarrow> pins_at j ((others e s)\<lparr>tx_view := v\<rparr>) | Some p \<Rightarrow> pins_ahead j (pn_pinned_by_user_id p) ((others e s)\<lparr>tx_view := v\<rparr>)"
      using remove_counts [of j "tx_view (others e s)" k] w by (auto simp: pins_locked_def pins_at_def pins_ahead_def pins_base_def simp del: first_row_None split: option.splits)
  qed (blast intro: others_pins [OF assms] pins_states)
  have release: "valid (pins_base j) (pins_ahead j u) (tx_wrap ''decrement message pin counter'' (tx_write e (\<lambda>ws. Inr ((), release_pin j u ws)))) (\<lambda>_. pins_at j)" for u
    using others_pins(3) [OF assms] release_counts
    by (intro valid_wrap valid_write) (auto simp: pins_ahead_def pins_at_def pins_base_def)
  show ?thesis
    unfolding RemovePin_def
    by (intro valid_bind [OF remove]) (auto split: option.split intro!: valid_return valid_bind [OF release])
qed


lemma pin_op_counts:
  assumes "pin_safe j e" "\<And>a n r. valid (pins_base j) (pins_locked j) (k a n r) (\<lambda>_. pins_at j)"
  shows "valid (pins_base j) (pins_at j) (pin_op e action j i k actor now) (\<lambda>_. pins_at j)"
proof -
  note [intro] = pins_states
  show ?thesis
    unfolding pin_op_def deny_conversation_def rejectedError_def
    by (intro valid_cases valid_return valid_bind [OF conversation_lock_pins [OF assms(1)]] valid_bind [OF reads_locked(1) [OF assms(1)]]
        valid_bind [OF reads_locked(2) [OF assms(1)]] valid_bind [OF reads_locked(3) [OF assms(1)]] valid_bind [OF access_locked [OF assms(1)]] assms(2)) auto
qed

lemma pin_message_counts:
  assumes "pin_safe j e"
  shows "valid (pins_base j) (pins_locked j) (pin_message cfg e meta j k actor now r) (\<lambda>_. pins_at j)"
    "valid (pins_base j) (pins_locked j) (unpin_message e meta j k actor now r) (\<lambda>_. pins_at j)"
proof -
  note [intro] = pins_states
  note legal = pin_safe_legal [OF assms, of j]
  note shown = pins_moves [OF keeps_pins.moves_bind, OF keeps_pins.pins_shown_moves(1) [OF legal] keeps_pins.moves_return]
  have found: "valid (pins_base j) (pins_at j) (FindPin e j k u) (\<lambda>_. pins_at j)" for u
    by (intro pins_moves keeps_pins.store_moves legal)
  have rest: "valid (pins_base j) (pins_at j)
      (io_bind (pinEvent e u r unpin now) (\<lambda>_. io_bind (success_audit e actor meta action tt tid now) (\<lambda>_. m))) (\<lambda>_. pins_at j)"
    if "moves (keeps_pins j) m" for u unpin action tt tid and m :: "'a tx"
    by (intro pins_moves keeps_pins.moves_bind keeps_pins.pins_shown_moves keeps_pins.service_writes_move that legal)
  show "valid (pins_base j) (pins_locked j) (pin_message cfg e meta j k actor now r) (\<lambda>_. pins_at j)"
    unfolding pin_message_def rejectedError_def
    by (intro valid_cases valid_return valid_bind [OF reads_locked(5) [OF assms]] valid_bind [OF AddPin_counts [OF assms]] rest valid_bind [OF found]
        keeps_pins.moves_bind keeps_pins.moves_return keeps_pins.pins_shown_moves legal shown valid_strengthen [OF shown]) auto
  show "valid (pins_base j) (pins_locked j) (unpin_message e meta j k actor now r) (\<lambda>_. pins_at j)"
    unfolding unpin_message_def rejectedError_def
    by (intro valid_cases valid_return valid_bind [OF reads_locked(5) [OF assms]] valid_bind [OF RemovePin_counts [OF assms]] rest keeps_pins.moves_return) auto
qed

lemma pin_keeps:
  assumes "pin_safe (TrimSpace i) e" "pins_ok j ws"
  shows "pins_ok j (snd (Pin cfg e actorID i k meta ws))" "pins_ok j (snd (Unpin e actorID i k meta ws))"
proof -
  note legal = pin_safe_legal [OF assms(1), of j]
  have "pins_ok j (snd (Pin cfg e actorID i k meta ws)) \<and> pins_ok j (snd (Unpin e actorID i k meta ws))"
  proof (cases "TrimSpace i = j")
    case True
    note safe = assms(1) [unfolded True]
    have "valid (\<lambda>s. pins_ok j (tx_base s)) (\<lambda>s. pins_ok j (tx_view s) \<and> pins_ok j (tx_base s)) m (\<lambda>_ s. pins_ok j (tx_view s) \<and> pins_ok j (tx_base s))"
      if "valid (pins_base j) (pins_at j) m (\<lambda>_. pins_at j)" for m :: "'b tx"
      using that unfolding pins_at_def [abs_def] pins_base_def [abs_def] .
    then show ?thesis unfolding Pin_def Unpin_def Let_def True
      by (intro conjI keeps_pins.conversation_tx_keeps [where I = "pins_ok j", OF legal _ assms(2)])
        (auto simp: keeps_pins_def pins_at_def [symmetric] pins_base_def [symmetric] intro: pin_op_counts pin_message_counts safe)
  next
    case False
    have kept: "same_pins j a b \<Longrightarrow> keeps_pins j a b" for a b using same_pins_ok(1) [of j a b] by (simp add: keeps_pins_def)
    note rules = keeps_pins.moves_rules keeps_pins.moves_write [OF legal]
    have "moves (keeps_pins j) (AddPin e (TrimSpace i) k1 u t)" for k1 u t
      unfolding AddPin_def by (intro rules) (auto intro: kept elsewhere [OF False])
    moreover have "moves (keeps_pins j) (RemovePin e (TrimSpace i) k1)" for k1
      unfolding RemovePin_def by (intro rules) (auto intro: kept elsewhere [OF False])
    note keeps_pins.pin_writes_moves [OF legal calculation this]
    then show ?thesis using assms(2) by (simp add: keeps_pins_def)
  qed
  then show "pins_ok j (snd (Pin cfg e actorID i k meta ws))" "pins_ok j (snd (Unpin e actorID i k meta ws))" by blast+
qed

fun action_conversation :: "conversation_action \<Rightarrow> string" where
  "action_conversation (C_Pin i j k meta) = TrimSpace j"
| "action_conversation (C_Unpin i j k meta) = TrimSpace j"
| "action_conversation a = []"

text \<open>
  C8 (conversations/service.go: Pin, Unpin; conversations/pg\_repository.go: AddPin, RemovePin). Whatever the
  conversation service does, in every conversation a message is pinned at most once, the counter of
  every user is the number of the user's pins there, and that is at most three. Other transactions may
  commit between its statements as long as they do the same and respect the lock of the conversation.
\<close>

theorem pins_bounded:
  assumes "pin_safe (action_conversation a) e" "pins_ok j ws"
  shows "pins_ok j (perform_conversation cfg e a ws)"
proof (cases "is_pin_action a")
  case True
  then show ?thesis using assms by (auto elim!: pin_action_cases intro: pin_keeps)
next
  case False
  then have "keeps_pins j ws (perform_conversation cfg e a ws)" by (intro keeps_pins.membership_action_moves pin_safe_legal [OF assms(1)])
  then show ?thesis using assms(2) by (simp add: keeps_pins_def)
qed


definition demo_config :: conversation_config where
  "demo_config = \<lparr>cf_collate = sort, cf_markdown = keep, cf_mark = \<lambda>_. False, cf_shares = None\<rparr>"

definition demo_group :: conversation_row where
  "demo_group = \<lparr>c_id = ''g1'', c_space_id = DefaultSpaceID, c_type = ''group'', c_title = ''Tea'', c_avatar_emoji = None, c_direct_key = None,
     c_retention_count = DefaultRetentionCount, c_created_by = Some ''u1'', c_created_at = 0\<rparr>"

definition demo_participant :: "string \<Rightarrow> conversation_member_row" where
  "demo_participant i = \<lparr>cm_conversation_id = ''g1'', cm_user_id = i, cm_removed = False, cm_joined_at = 0, cm_last_read_message_id = None,
     cm_last_read_at = None, cm_last_read_seq = None, cm_notification_level = ''all''\<rparr>"

definition demo_message :: message_row where
  "demo_message = (system_message ''m1'' ''g1'' (canonicalContent (system_content ''hi'')) ''hi'' 0)
     \<lparr>ms_author_id := Some ''u1'', ms_author_kind := ''human'', ms_kind := ''user''\<rparr>"

definition group_ws :: workspace where
  "group_ws = team_ws\<lparr>ws_messages := [demo_message], ws_rest := (ws_rest team_ws)\<lparr>conversations := [demo_group],
     conversation_members := [demo_participant ''u1'', demo_participant ''u2'']\<rparr>\<rparr>"

definition pinned_ws :: workspace where
  "pinned_ws = group_ws\<lparr>ws_pins := [\<lparr>pn_conversation_id = ''g1'', pn_message_id = ''m1'', pn_pinned_by_user_id = ''u1'', pn_created_at = 0\<rparr>],
     ws_pin_counters := [\<lparr>pk_conversation_id = ''g1'', pk_user_id = ''u1'', pk_pin_count = 1\<rparr>]\<rparr>"

lemma pinned_ws_ok: "pins_ok ''g1'' pinned_ws"
  by (auto simp: pins_ok_def pins_unique_def counted_def pinned_by_def pin_counters_def counter_key_def pinned_ws_def MaxPinnedMessages_def)

text \<open>One run for the examples: the author unpins the message.\<close>

lemma pinned_ws_unpin: "is_ok (fst (Unpin team_env ''u1'' ''g1'' ''m1'' no_meta pinned_ws)) \<and> ws_pins (snd (Unpin team_env ''u1'' ''g1'' ''m1'' no_meta pinned_ws)) = []"
proof -
  have "(\<lambda>r. is_ok (fst r) \<and> ws_pins (snd r) = []) (Unpin team_env ''u1'' ''g1'' ''m1'' no_meta pinned_ws)" by code_simp
  then show ?thesis by simp
qed

theorem pins_bounded_witness:
  "pins_ok ''g1'' (perform_conversation demo_config team_env (C_Unpin ''u1'' ''g1'' ''m1'' no_meta) pinned_ws) \<and>
   ws_pins (perform_conversation demo_config team_env (C_Unpin ''u1'' ''g1'' ''m1'' no_meta) pinned_ws) = []"
proof -
  have "pin_safe (action_conversation (C_Unpin ''u1'' ''g1'' ''m1'' no_meta)) team_env" by (simp add: pin_safe_def same_pins_def)
  moreover have "ws_pins (perform_conversation demo_config team_env (C_Unpin ''u1'' ''g1'' ''m1'' no_meta) pinned_ws) = []" using pinned_ws_unpin by simp
  ultimately show ?thesis using pins_bounded [OF _ pinned_ws_ok] by blast
qed

end
