(* ===== verification/Conversations_Groups.thy ===== *)
theory Conversations_Groups
  imports Conversations_Rules
begin

text \<open>
  Who is in a conversation, for a transaction without interference: what the operations on groups do to their
  members, that a leaver leaves somebody behind, who is let in, and direct conversations.
\<close>

section \<open>Runs of one transaction alone\<close>

text \<open>
  A transaction without interference, started in a database that satisfies \<open>K\<close>: when it succeeds, \<open>Q\<close>
  holds of its value and the database it sees.
\<close>

definition runs :: "(workspace \<Rightarrow> bool) \<Rightarrow> 'a tx \<Rightarrow> ('a \<Rightarrow> workspace \<Rightarrow> bool) \<Rightarrow> bool" where
  "runs K m Q \<longleftrightarrow> (\<forall>s x s1. K (tx_view s) \<longrightarrow> m s = (Inr x, s1) \<longrightarrow> Q x (tx_view s1))"

lemma runsD: "runs K m Q \<Longrightarrow> m s = (Inr x, s1) \<Longrightarrow> K (tx_view s) \<Longrightarrow> Q x (tx_view s1)"
  unfolding runs_def by blast

lemma runs_return: "(\<And>v. K v \<Longrightarrow> Q x v) \<Longrightarrow> runs K (io_return x) Q"
  by (auto simp: runs_def io_return_def)

lemma runs_fail: "runs K (tx_fail err) Q"
  by (simp add: runs_def tx_fail_def)

lemma runs_bind: "runs K m Q \<Longrightarrow> (\<And>x. runs (Q x) (f x) R) \<Longrightarrow> runs K (io_bind m f) R"
  unfolding runs_def io_bind_ok by blast

lemma runs_wrap: "runs K m Q \<Longrightarrow> runs K (tx_wrap operation m) Q"
  by (simp add: runs_def tx_wrap_ok)

lemma runs_read: "quiet e \<Longrightarrow> (\<And>v. K v \<Longrightarrow> Q (f v) v) \<Longrightarrow> runs K (tx_read e f) Q"
  by (auto simp: runs_def dest!: tx_read_view)

lemma runs_write: "quiet e \<Longrightarrow> (\<And>v x v'. K v \<Longrightarrow> f v = Inr (x, v') \<Longrightarrow> Q x v') \<Longrightarrow> runs K (tx_write e f) Q"
  by (auto simp: runs_def dest!: tx_write_view)

lemma runs_lock: "quiet e \<Longrightarrow> (\<And>v. K v \<Longrightarrow> Q () v) \<Longrightarrow> runs K (conversations_Lock e key) Q"
  by (auto simp: runs_def conversations_Lock_def tx_ok dest!: tx_lock_view split: if_splits)

lemma runs_cases:
  "(b \<Longrightarrow> runs K m1 Q) \<Longrightarrow> (\<not> b \<Longrightarrow> runs K m2 Q) \<Longrightarrow> runs K (if b then m1 else m2) Q"
  "(x = None \<Longrightarrow> runs K m Q) \<Longrightarrow> (\<And>y. x = Some y \<Longrightarrow> runs K (g y) Q) \<Longrightarrow> runs K (case x of None \<Rightarrow> m | Some y \<Rightarrow> g y) Q"
  "(\<And>y. z = Inl y \<Longrightarrow> runs K (h1 y) Q) \<Longrightarrow> (\<And>y. z = Inr y \<Longrightarrow> runs K (h2 y) Q) \<Longrightarrow> runs K (case z of Inl y \<Rightarrow> h1 y | Inr y \<Rightarrow> h2 y) Q"
  "(\<And>a b. p = (a, b) \<Longrightarrow> runs K (l a b) Q) \<Longrightarrow> runs K (case p of (a, b) \<Rightarrow> l a b) Q"
  "(\<And>y. runs K (n y) Q) \<Longrightarrow> runs K (let y = w in n y) Q"
  by (auto split: option.split sum.split prod.split)

lemma runs_moves: "moves R m \<Longrightarrow> (\<And>v v' x. K v \<Longrightarrow> R v v' \<Longrightarrow> Q x v') \<Longrightarrow> runs K m Q"
  unfolding runs_def by (metis movesD snd_conv)

lemma runs_weaken: "runs K m Q \<Longrightarrow> (\<And>v. K' v \<Longrightarrow> K v) \<Longrightarrow> (\<And>x v. Q x v \<Longrightarrow> Q' x v) \<Longrightarrow> runs K' m Q'"
  unfolding runs_def by blast

lemma runs_pure: "(P \<Longrightarrow> runs K m Q) \<Longrightarrow> runs (\<lambda>v. K v \<and> P) m Q"
  unfolding runs_def by blast

text \<open>A refusal is a value too; of an accepted operation \<open>Q\<close> holds.\<close>

abbreviation accepts :: "(workspace \<Rightarrow> bool) \<Rightarrow> (conversation_rejection, 'a) result tx \<Rightarrow> ('a \<Rightarrow> workspace \<Rightarrow> bool) \<Rightarrow> bool" where
  "accepts K m Q \<equiv> runs K m (\<lambda>r v. case r of Inl _ \<Rightarrow> True | Inr x \<Rightarrow> Q x v)"

lemma accepts_rejected: "accepts K (rejectedError err action tt tid reason) Q" "accepts K (deny_conversation capability tt tid) Q"
  unfolding deny_conversation_def rejectedError_def by (rule runs_return; simp)+

lemma accepts_Inr: "runs K m Q \<Longrightarrow> accepts K (io_bind m (\<lambda>x. io_return (Inr x))) Q"
  by (erule runs_bind) (auto intro: runs_return)

section \<open>The boundary\<close>

definition actor_in :: "workspace \<Rightarrow> string \<Rightarrow> AuthActor \<Rightarrow> bool" where
  "actor_in ws i a \<longleftrightarrow> (\<exists>(u, m) \<in> set (space_users ws). a = scanActor u m \<and> ac_id u = i)"

lemma actor_in_ID: "actor_in ws i a \<Longrightarrow> actor_ID a = i"
  by (auto simp: actor_in_def)

lemma first_actor_in: "first_row [scanActor u m. (u, m) \<leftarrow> space_users v, ac_id u = i] = Some a \<Longrightarrow> actor_in v i a"
  by (drule first_row_in) (auto simp: actor_in_def)

lemma lookup_runs:
  assumes "quiet e" "\<And>v a. K v \<Longrightarrow> actor_in v i a \<Longrightarrow> Q a v"
  shows "runs K (conversations_lookupActor e i) Q"
proof -
  have "runs K (conversations_LookupActor e i) (\<lambda>r v. K v \<and> (case r of None \<Rightarrow> True | Some a \<Rightarrow> actor_in v i a))"
    unfolding conversations_LookupActor_def
    by (intro runs_wrap runs_read assms(1)) (simp del: first_row_None add: first_actor_in split: option.split)
  then show ?thesis unfolding conversations_lookupActor_def
    by (rule runs_bind) (intro runs_cases runs_fail runs_return; simp add: assms(2))
qed

lemma conversation_tx_runs:
  assumes "quiet e" "\<And>a. actor_in ws (TrimSpace actorID) a \<Longrightarrow> accepts (\<lambda>v. v = ws) (fn a (conversations_now e)) Q"
    and "conversation_tx e actorID meta fn ws = (Inr x, ws')"
  shows "Q x ws'"
proof -
  let ?body = "conversation_body e (TrimSpace actorID) (Safe meta) fn"
  have "committed (WithTx ''begin conversation transaction'' ''commit conversation transaction'' e ?body ws) = (Inr x, ws')"
    using assms(3) by (auto simp: conversation_tx_def Let_def conversations_normalized_def split: if_splits prod.splits sum.splits)
  then have "WithTx ''begin conversation transaction'' ''commit conversation transaction'' e ?body ws = (Inr (Inr x), ws')"
    by (auto simp: committed_def split: prod.splits sum.splits)
  then obtain s0 s1 s2 where b: "tx_guard e ''begin conversation transaction'' (tx_start ws) = (Inr (), s0)" "?body s0 = (Inr (Inr x), s1)"
    "tx_guard e ''commit conversation transaction'' s1 = (Inr (), s2)" "ws' = tx_view s2"
    unfolding WithTx_def Autocommit_ok tx_ok by auto
  have v: "tx_view s0 = ws" "ws' = tx_view s1" using b tx_guard_view [OF assms(1)] by force+
  have "runs (\<lambda>v. v = ws) ?body (\<lambda>r v. case r of Inl _ \<Rightarrow> True | Inr x \<Rightarrow> Q x v)"
    unfolding conversation_body_def Let_def
  proof (intro runs_bind [where Q = "\<lambda>a v. v = ws \<and> actor_in ws (TrimSpace actorID) a"] lookup_runs [OF assms(1)] runs_pure)
    fix a assume "actor_in ws (TrimSpace actorID) a"
    then show "runs (\<lambda>v. v = ws) (io_bind (fn a (conversations_now e)) (\<lambda>r. case r of Inl rej \<Rightarrow>
        io_bind (tx_wrap ''write conversation rejection audit'' (conversation_audit e a (Safe meta) (cj_Action rej) (cj_TargetType rej) (cj_TargetID rej)
          ''rejected'' (cj_Reason rej) (conversations_now e))) (\<lambda>_. io_return (Inl (cj_err rej)))
        | Inr x \<Rightarrow> io_return (Inr x))) (\<lambda>r v. case r of Inl _ \<Rightarrow> True | Inr x \<Rightarrow> Q x v)"
      by (intro runs_bind [OF assms(2)] runs_cases) (auto simp: runs_def tx_ok)
  qed auto
  from this [unfolded runs_def, rule_format, OF v(1) b(2)] show ?thesis by (simp add: v(2))
qed

section \<open>The members of a conversation\<close>

definition members_of :: "string \<Rightarrow> workspace \<Rightarrow> string set" where
  "members_of j ws = cm_user_id ` set (participants j ws)"

text \<open>The part of a conversation that says which it is.\<close>

definition conversation_keys :: "conversation_row list \<Rightarrow> (string \<times> string \<times> string \<times> string option) list" where
  "conversation_keys cs = map (\<lambda>c. (c_id c, c_space_id c, c_type c, c_direct_key c)) cs"

definition same_members :: "workspace \<Rightarrow> workspace \<Rightarrow> bool" where
  "same_members a b \<longleftrightarrow> conversation_keys (conversations (ws_rest b)) = conversation_keys (conversations (ws_rest a)) \<and>
     member_marks (conversation_members (ws_rest b)) = member_marks (conversation_members (ws_rest a)) \<and>
     ws_users b = ws_users a \<and> ws_members b = ws_members a"

lemma conversation_exists:
  "conversation_of j ws \<noteq> None \<longleftrightarrow> (j, DefaultSpaceID) \<in> (\<lambda>(i, s, _, _). (i, s)) ` set (conversation_keys (conversations (ws_rest ws)))"
  by (force simp: conversation_of_def conversation_keys_def filter_empty_conv)

lemma members_of_marks:
  "u \<in> members_of j ws \<longleftrightarrow> conversation_of j ws \<noteq> None \<and> (j, u, False) \<in> set (member_marks (conversation_members (ws_rest ws)))"
  by (force simp: members_of_def participants_def member_marks_def active_in_def simp del: first_row_None)

lemma same_members_of: "same_members a b \<Longrightarrow> members_of j b = members_of j a"
  by (rule set_eqI) (simp only: members_of_marks conversation_exists same_members_def)

lemma is_participant_iff: "is_participant j u ws \<longleftrightarrow> u \<in> members_of j ws"
  by (auto simp: is_participant_def members_of_def list_ex_iff)

interpretation same_members: marking_effect same_members
proof unfold_locales
  show "same_members v v'" if "insert_audit r v = Inr (x, v')" for r v x v'
    using that by (auto simp: same_members_def dest: insert_audit_ok)
  have "conversation_keys (update_where hit (\<lambda>c. c\<lparr>c_title := title, c_avatar_emoji := avatar\<rparr>) cs) = conversation_keys cs" for hit title avatar cs
    by (induction cs) (auto simp: conversation_keys_def update_where_def)
  then show "same_members v (v\<lparr>ws_rest := (ws_rest v)\<lparr>conversations := update_where hit (\<lambda>c. c\<lparr>c_title := title, c_avatar_emoji := avatar\<rparr>) (conversations (ws_rest v))\<rparr>\<rparr>)" for v hit title avatar
    by (simp add: same_members_def)
qed (auto simp: same_members_def event_only_def)

lemma quiet_legal: "quiet e \<Longrightarrow> (\<And>v. R v v) \<Longrightarrow> legal R e"
  by (simp add: legal_def)

lemmas quiet_same = quiet_legal [where R = same_members, OF _ same_members.refl]

lemma runs_same:
  assumes "moves same_members m"
  shows "runs (same_members v) m (\<lambda>_. same_members v)"
  by (rule runs_moves [OF assms]) (rule same_members.trans)

text \<open>The reads.\<close>

lemma active_runs: "quiet e \<Longrightarrow> (\<And>v. K v \<Longrightarrow> Q (u \<in> members_of j v) v) \<Longrightarrow> runs K (ConversationMemberActive e j u) Q"
  unfolding ConversationMemberActive_def by (intro runs_wrap runs_read) (simp_all add: is_participant_iff)

lemma find_runs:
  assumes "quiet e" "\<And>v. K v \<Longrightarrow> conversation_of j v = None \<Longrightarrow> Q None v" "\<And>v c. K v \<Longrightarrow> conversation_of j v \<noteq> None \<Longrightarrow> cd_ID c = j \<Longrightarrow> Q (Some c) v"
  shows "runs K (FindConversation e j) Q"
  unfolding FindConversation_def
proof (intro runs_wrap runs_read assms(1))
  fix v assume K: "K v"
  show "Q (map_option scanBaseConversationRecord (conversation_of j v)) v"
  proof (cases "conversation_of j v")
    case (Some c)
    then have "c_id c = j" unfolding conversation_of_def by (blast dest: first_row_filter)
    then show ?thesis using assms(3) [OF K, of "scanBaseConversationRecord c"] Some by (simp add: scanBaseConversationRecord_def)
  qed (simp add: assms(2) [OF K])
qed

lemma visible_rows: "(c, cm) \<in> set (conversation_rows i v) \<Longrightarrow> i \<in> members_of (c_id c) v"
proof -
  assume "(c, cm) \<in> set (conversation_rows i v)"
  then have "c \<in> set (conversations (ws_rest v))" "c_space_id c = DefaultSpaceID" "cm \<in> set (conversation_members (ws_rest v))" "active_in (c_id c) cm" "cm_user_id cm = i"
    by (auto simp: conversation_rows_def)
  moreover from this have "conversation_of (c_id c) v \<noteq> None" by (auto simp: conversation_of_def filter_empty_conv)
  ultimately show ?thesis by (auto simp: members_of_marks member_marks_def active_in_def intro!: image_eqI [of _ _ cm])
qed

lemma visible_runs:
  assumes "quiet e" "\<And>v. K v \<Longrightarrow> Q None v" "\<And>v r. K v \<Longrightarrow> i \<in> members_of j v \<Longrightarrow> cd_ID r = j \<Longrightarrow> Q (Some r) v"
  shows "runs K (GetVisibleConversationRecord e i j) Q"
  unfolding GetVisibleConversationRecord_def
proof (intro runs_wrap runs_read assms(1))
  fix v assume K: "K v"
  let ?rows = "[scanConversationRecord v c cm. (c, cm) \<leftarrow> conversation_rows i v, c_id c = j]"
  show "Q (first_row ?rows) v"
  proof (cases "first_row ?rows")
    case (Some r)
    then obtain c cm where "(c, cm) \<in> set (conversation_rows i v)" "c_id c = j" "r = scanConversationRecord v c cm" by (auto dest!: first_row_in)
    then show ?thesis using assms(3) [OF K, of r] visible_rows Some by (fastforce simp: scanConversationRecord_def Let_def)
  qed (simp only: assms(2) [OF K])
qed

lemma project_after_runs:
  assumes "quiet e"
  shows "runs (same_members v) (project_after cfg e operation cause actor j) (\<lambda>_ v'. same_members v v' \<and> actor_ID actor \<in> members_of j v)"
  unfolding project_after_def
  by (intro runs_bind [where Q = "\<lambda>r v'. same_members v v' \<and> (r = None \<or> actor_ID actor \<in> members_of j v)"] visible_runs runs_cases runs_fail assms
      runs_moves [OF same_members.projection_moves(2) [OF quiet_same [OF assms]]])
    (auto simp: same_members_of intro: same_members.trans)


section \<open>What the operations do to the members\<close>

lemma on_rest_Inr: "on_rest f v = Inr (x, v') \<longleftrightarrow> (\<exists>d. f (ws_rest v) = Inr (x, d) \<and> v' = v\<lparr>ws_rest := d\<rparr>)"
  by (auto simp: on_rest_def result_bind_Inr_conv)

lemma marks_filter: "(k, w, False) \<in> set (member_marks cms) \<longleftrightarrow> (\<exists>cm \<in> set cms. cm_conversation_id cm = k \<and> cm_user_id cm = w \<and> \<not> cm_removed cm)"
  by (auto simp: member_marks_def)

lemma marks_update: "(k, w, False) \<in> set (member_marks (update_where p f cms)) \<longleftrightarrow>
   (\<exists>cm \<in> set cms. let cm' = (if p cm then f cm else cm) in cm_conversation_id cm' = k \<and> cm_user_id cm' = w \<and> \<not> cm_removed cm')"
  unfolding marks_filter update_where_def set_map bex_simps Let_def ..

lemma upsert_marks:
  "(k, w, False) \<in> set (member_marks (conversation_members (snd (Conversations_Store.upsert_member j u t d)))) \<longleftrightarrow>
     k = j \<and> w = u \<or> (k, w, False) \<in> set (member_marks (conversation_members d))"
proof (cases "list_ex (\<lambda>cm. cm_conversation_id cm = j \<and> cm_user_id cm = u) (conversation_members d)")
  case True
  then have "conversation_members (snd (Conversations_Store.upsert_member j u t d)) =
      update_where (\<lambda>cm. (cm_conversation_id cm = j \<and> cm_user_id cm = u) \<and> cm_removed cm) (\<lambda>cm. cm\<lparr>cm_removed := False, cm_joined_at := pg_timestamp t\<rparr>) (conversation_members d)"
    by (simp add: Conversations_Store.upsert_member_def Let_def)
  then show ?thesis
    using True by (simp only: marks_update) (auto simp: marks_filter Let_def list_ex_iff split: if_splits)
next
  case False
  then show ?thesis unfolding marks_filter by (auto simp: Conversations_Store.upsert_member_def Let_def)
qed

lemma upsert_conversations [simp]: "conversations (snd (Conversations_Store.upsert_member j u t d)) = conversations d"
  by (simp add: Conversations_Store.upsert_member_def Let_def)

text \<open>The databases in which, of \<open>v\<close>, one user more is in the conversation, or one less.\<close>

definition joined :: "string \<Rightarrow> string \<Rightarrow> workspace \<Rightarrow> workspace \<Rightarrow> bool" where
  "joined j u v v' \<longleftrightarrow> (\<forall>k. members_of k v' = (if k = j then insert u (members_of j v) else members_of k v))"

definition departed :: "string \<Rightarrow> string \<Rightarrow> workspace \<Rightarrow> workspace \<Rightarrow> bool" where
  "departed j u v v' \<longleftrightarrow> (\<forall>k. members_of k v' = (if k = j then members_of j v - {u} else members_of k v))"

lemma members_of_rest:
  assumes "conversations d = conversations (ws_rest v)"
  shows "conversation_of k (v\<lparr>ws_rest := d\<rparr>) = conversation_of k v"
    and "w \<in> members_of k (v\<lparr>ws_rest := d\<rparr>) \<longleftrightarrow> conversation_of k v \<noteq> None \<and> (k, w, False) \<in> set (member_marks (conversation_members d))"
proof -
  show "conversation_of k (v\<lparr>ws_rest := d\<rparr>) = conversation_of k v" by (simp add: conversation_of_def assms)
  then show "w \<in> members_of k (v\<lparr>ws_rest := d\<rparr>) \<longleftrightarrow> conversation_of k v \<noteq> None \<and> (k, w, False) \<in> set (member_marks (conversation_members d))"
    by (simp only: members_of_marks) simp
qed

lemma upsert_runs:
  assumes "quiet e" "conversation_of j v \<noteq> None"
  shows "runs (\<lambda>w. w = v) (UpsertConversationMember e j u t) (\<lambda>_ v'. joined j u v v')"
proof -
  let ?w = "v\<lparr>ws_rest := snd (Conversations_Store.upsert_member j u t (ws_rest v))\<rparr>"
  have m: "w \<in> members_of k ?w \<longleftrightarrow> conversation_of k v \<noteq> None \<and> (k = j \<and> w = u \<or> (k, w, False) \<in> set (member_marks (conversation_members (ws_rest v))))" for k w
    by (simp only: members_of_rest(2) [OF upsert_conversations] upsert_marks)
  have "members_of k ?w = (if k = j then insert u (members_of j v) else members_of k v)" for k
    by (rule set_eqI, unfold m) (use assms(2) in \<open>auto simp: members_of_marks\<close>)
  then have "joined j u v ?w" unfolding joined_def by blast
  then have "joined j u v (v\<lparr>ws_rest := d\<rparr>)" if "Conversations_Store.upsert_member j u t (ws_rest v) = (x, d)" for x d using that by simp
  then show ?thesis unfolding UpsertConversationMember_def by (intro runs_wrap runs_write assms(1)) (auto simp: on_rest_Inr)
qed

lemma removal_runs:
  assumes "quiet e"
  shows "runs (\<lambda>w. w = v) (RemoveConversationMember e j u) (\<lambda>_ v'. departed j u v v')"
proof -
  let ?cms = "update_where (\<lambda>cm. active_in j cm \<and> cm_user_id cm = u) (\<lambda>cm. cm\<lparr>cm_removed := True\<rparr>) (conversation_members (ws_rest v))"
  let ?w = "v\<lparr>ws_rest := (ws_rest v)\<lparr>conversation_members := ?cms\<rparr>\<rparr>"
  have "(k, w, False) \<in> set (member_marks ?cms) \<longleftrightarrow> (k, w, False) \<in> set (member_marks (conversation_members (ws_rest v))) \<and> (k, w) \<noteq> (j, u)" for k w
    by (simp only: marks_update) (auto simp: marks_filter Let_def active_in_def split: if_splits)
  then have m: "w \<in> members_of k ?w \<longleftrightarrow> w \<in> members_of k v \<and> (k, w) \<noteq> (j, u)" for k w
    by (subst members_of_rest(2)) (auto simp: members_of_marks)
  have "members_of k ?w = (if k = j then members_of j v - {u} else members_of k v)" for k
    by (rule set_eqI, unfold m) auto
  then have "departed j u v ?w" unfolding departed_def by blast
  then show ?thesis unfolding RemoveConversationMember_def Let_def by (intro runs_wrap runs_write assms) (auto simp: on_rest_Inr)
qed

lemma joined_same: "joined j u v v1 \<Longrightarrow> same_members v1 v2 \<Longrightarrow> joined j u v v2"
  by (simp add: joined_def same_members_of)

lemma departed_same: "departed j u v v1 \<Longrightarrow> same_members v1 v2 \<Longrightarrow> departed j u v v2"
  by (simp add: departed_def same_members_of)

lemma conversation_of_same: "same_members v v' \<Longrightarrow> conversation_of j v' \<noteq> None \<longleftrightarrow> conversation_of j v \<noteq> None"
  by (simp only: conversation_exists same_members_def)

text \<open>The course of the managing operations.\<close>

lemma with_members_lock_accepts:
  assumes "quiet e" "\<And>a. actor_in v i a \<Longrightarrow> conversations_hasCapability (actor_Role a) capability \<Longrightarrow> accepts (\<lambda>w. w = v) (k a) Q"
  shows "accepts (\<lambda>w. w = v) (with_members_lock e i capability tid k) Q"
  unfolding with_members_lock_def
  by (intro runs_bind [where Q = "\<lambda>_ w. w = v"] runs_bind [where Q = "\<lambda>a w. w = v \<and> actor_in v i a"] runs_lock lookup_runs runs_pure runs_cases accepts_rejected assms) auto

lemma manage_group_accepts:
  assumes "quiet e"
    and "\<And>a c. actor_in v (actor_ID actor) a \<Longrightarrow> conversations_hasCapability (actor_Role a) ''conversation.member.manage'' \<Longrightarrow> conversation_of j v \<noteq> None \<Longrightarrow>
      accepts (\<lambda>w. w = v) (k a c) Q"
  shows "accepts (\<lambda>w. w = v) (manage_group e action missing msg lead j k actor) Q"
proof -
  have found: "accepts (\<lambda>w. w = v) (io_bind (FindConversation e j) (\<lambda>found. case found of
        None \<Rightarrow> rejectedError conversationNotFoundError missing ''conversation'' j ''conversation.not_found''
      | Some c \<Rightarrow> if cd_Type c \<noteq> ''group'' then rejectedError (invalidType msg) action ''conversation'' j ''conversation.invalid_type'' else k a c)) Q"
    if "actor_in v (actor_ID actor) a" "conversations_hasCapability (actor_Role a) ''conversation.member.manage''" for a
    by (intro runs_bind [where Q = "\<lambda>c w. w = v \<and> (c \<noteq> None \<longrightarrow> conversation_of j v \<noteq> None)"] find_runs runs_pure runs_cases accepts_rejected assms that) auto
  show ?thesis
    unfolding manage_group_def Let_def
    by (intro runs_cases accepts_rejected with_members_lock_accepts runs_bind [where Q = "\<lambda>_ w. w = v"] runs_lock found assms(1)) auto
qed


lemma member_runs: "quiet e \<Longrightarrow> (\<And>v. K v \<Longrightarrow> Q None v) \<Longrightarrow> (\<And>v m. K v \<Longrightarrow> mr_ID m = u \<Longrightarrow> Q (Some m) v) \<Longrightarrow> runs K (FindMember e u) Q"
  unfolding FindMember_def
proof (intro runs_wrap runs_read)
  fix v assume none: "\<And>v. K v \<Longrightarrow> Q None v" and some: "\<And>v m. K v \<Longrightarrow> mr_ID m = u \<Longrightarrow> Q (Some m) v" and K: "K v"
  show "Q (first_row [joined_record [] v a m (mb_joined_at m). (a, m) \<leftarrow> space_users v, ac_id a = u]) v"
  proof (cases "first_row [joined_record [] v a m (mb_joined_at m). (a, m) \<leftarrow> space_users v, ac_id a = u]")
    case (Some r)
    then have "mr_ID r = u" by (auto simp: joined_record_def dest!: first_row_in)
    then show ?thesis using some [OF K] Some by simp
  qed (simp only: none [OF K])
qed

definition member_closed :: "(workspace \<Rightarrow> bool) \<Rightarrow> bool" where
  "member_closed K \<longleftrightarrow> (\<forall>v v'. K v \<longrightarrow> same_members v v' \<longrightarrow> K v')"

lemma closed_runs: "moves same_members m \<Longrightarrow> member_closed K \<Longrightarrow> runs K m (\<lambda>_. K)"
  by (erule runs_moves) (auto simp: member_closed_def)

lemma closed_states: "member_closed (joined j u v)" "member_closed (departed j u v)" "member_closed (same_members v)"
  by (auto simp: member_closed_def joined_same departed_same intro: same_members.trans)

lemma closed_project:
  assumes "quiet e" "member_closed K"
  shows "runs K (project_after cfg e operation cause actor j) (\<lambda>_ v. K v \<and> actor_ID actor \<in> members_of j v)"
  unfolding project_after_def
  by (intro runs_bind [where Q = "\<lambda>r v. K v \<and> (r = None \<or> actor_ID actor \<in> members_of j v)"] visible_runs runs_cases runs_fail assms(1)
      runs_moves [OF same_members.projection_moves(2) [OF quiet_same [OF assms(1)]]])
    (use assms(2) in \<open>auto simp: same_members_of member_closed_def\<close>)

lemma join_runs:
  assumes "quiet e" "conversation_of j v \<noteq> None"
  shows "runs (\<lambda>w. w = v) (join_group cfg e meta j actor c m now) (\<lambda>_ w. joined j (mr_ID m) v w \<and> actor_ID actor \<in> members_of j w)"
proof -
  note closed = closed_runs [OF _ closed_states(1)] and legal = quiet_same [OF assms(1)]
  show ?thesis
    unfolding join_group_def
    by (intro runs_bind [OF upsert_runs [OF assms]] runs_bind [OF closed [OF same_members.service_writes_move(3) [OF legal]]]
        runs_bind [OF closed [OF same_members.service_writes_move(4) [OF legal]]] runs_bind [OF closed [OF same_members.service_writes_move(2) [OF legal]]]
        closed_project [OF assms(1) closed_states(1)])
qed

lemma add_accepts:
  assumes "quiet e" "conversation_of j v \<noteq> None"
  shows "accepts (\<lambda>w. w = v) (add_to_group cfg e meta j u now actor c) (\<lambda>_ w. joined j u v w \<and> actor_ID actor \<in> members_of j w)"
proof -
  note legal = quiet_same [OF assms(1)]
  have already: "accepts (\<lambda>w. w = v) (io_bind (GetVisibleConversationRecord e (actor_ID actor) j) (\<lambda>mine. case mine of
        None \<Rightarrow> rejectedError conversationNotFoundError ''conversation.read'' ''conversation'' j ''not a conversation member''
      | Some r \<Rightarrow> io_bind (projectConversation cfg e actor r) (\<lambda>x. io_return (Inr x)))) (\<lambda>_ w. joined j u v w \<and> actor_ID actor \<in> members_of j w)"
    if "u \<in> members_of j v"
    by (intro runs_bind [where Q = "\<lambda>r w. w = v \<and> (r = None \<or> actor_ID actor \<in> members_of j v)"] visible_runs runs_cases accepts_rejected accepts_Inr assms(1)
        runs_moves [OF same_members.projection_moves(2) [OF legal]])
      (use that in \<open>auto simp: same_members_of joined_def insert_absorb\<close>)
  have new: "accepts (\<lambda>w. w = v) (io_bind (MemberVisible e (actor_ID actor) u) (\<lambda>visible. if \<not> visible then rejectedError err a t i r
      else io_bind (join_group cfg e meta j actor c m now) (\<lambda>x. io_return (Inr x)))) (\<lambda>_ w. joined j u v w \<and> actor_ID actor \<in> members_of j w)"
    if "mr_ID m = u" for m err a t i r
    unfolding MemberVisible_def
    by (intro runs_bind [where Q = "\<lambda>_ w. w = v"] runs_wrap runs_read runs_cases accepts_rejected accepts_Inr join_runs [where m = m, unfolded that] assms)
  show ?thesis
    unfolding add_to_group_def Let_def
    by (intro runs_bind [where Q = "\<lambda>m w. w = v \<and> (\<forall>r. m = Some r \<longrightarrow> mr_ID r = u)"] member_runs runs_pure runs_cases accepts_rejected
        runs_bind [where Q = "\<lambda>x w. w = v \<and> x = (u \<in> members_of j v)"] active_runs already new assms(1)) auto
qed

text \<open>The reads at a known database.\<close>

lemma reads_at:
  assumes "quiet e"
  shows "runs (\<lambda>w. w = v) (conversations_Lock e key) (\<lambda>_ w. w = v)"
    "runs (\<lambda>w. w = v) (conversations_lookupActor e i) (\<lambda>a w. w = v \<and> actor_in v i a)"
    "runs (\<lambda>w. w = v) (FindConversation e j) (\<lambda>c w. w = v \<and> (c \<noteq> None \<longrightarrow> conversation_of j v \<noteq> None))"
    "runs (\<lambda>w. w = v) (ConversationMemberActive e j i) (\<lambda>x w. w = v \<and> x = (i \<in> members_of j v))"
    "runs (\<lambda>w. w = v) (CountActiveConversationMembers e j) (\<lambda>n w. w = v \<and> n = int (length (participants j v)))"
    "runs (\<lambda>w. w = v) (FindMember e i) (\<lambda>m w. w = v \<and> (\<forall>r. m = Some r \<longrightarrow> mr_ID r = i))"
    "runs (\<lambda>w. w = v) (GetVisibleConversationRecord e i j) (\<lambda>r w. w = v \<and> (r \<noteq> None \<longrightarrow> i \<in> members_of j v))"
  unfolding CountActiveConversationMembers_def
  by (intro runs_lock lookup_runs find_runs active_runs member_runs visible_runs runs_wrap runs_read assms; simp)+

lemma remove_accepts:
  assumes "quiet e"
  shows "accepts (\<lambda>w. w = v) (remove_from_group cfg e meta j u now actor c)
    (\<lambda>_ w. departed j u v w \<and> u \<in> members_of j v \<and> u \<noteq> actor_ID actor \<and> actor_ID actor \<in> members_of j w)"
proof -
  note closed = closed_runs [OF _ closed_states(2)] and legal = quiet_same [OF assms]
  have rest: "accepts (departed j u v) (io_bind (conversations_writeEvent e t a j tt u payload now) (\<lambda>_. io_bind (createSystemMessage cfg e actor j n plain now) (\<lambda>_.
      io_bind (success_audit e actor meta action tt2 j now) (\<lambda>_. io_bind (project_after cfg e operation cause actor j) (\<lambda>x. io_return (Inr x))))))
      (\<lambda>_ w. departed j u v w \<and> actor_ID actor \<in> members_of j w)" for t a tt tt2 payload n plain action operation cause
    by (intro runs_bind [OF closed [OF same_members.service_writes_move(3) [OF legal]]] runs_bind [OF closed [OF same_members.service_writes_move(4) [OF legal]]]
        runs_bind [OF closed [OF same_members.service_writes_move(2) [OF legal]]] accepts_Inr closed_project [OF assms closed_states(2)])
  show ?thesis
    unfolding remove_from_group_def Let_def
    by (intro runs_cases accepts_rejected runs_bind [where Q = "\<lambda>m w. w = v"] member_runs runs_bind [where Q = "\<lambda>x w. w = v \<and> x = (u \<in> members_of j v)"] active_runs
        runs_pure runs_bind [OF removal_runs [OF assms]] runs_weaken [OF rest] assms) (auto split: sum.split)
qed

lemma leave_accepts:
  assumes "quiet e"
  shows "accepts (\<lambda>w. w = v) (leave_op cfg e meta j actor now)
    (\<lambda>_ w. departed j (actor_ID actor) v w \<and> actor_ID actor \<in> members_of j v \<and> 1 < length (participants j v))"
proof -
  note closed = closed_runs [OF _ closed_states(2)] and legal = quiet_same [OF assms]
  have rest: "accepts (departed j u v) (io_bind (conversations_writeEvent e t a j tt u1 payload now) (\<lambda>_. io_bind (createSystemMessage cfg e actor1 j n plain now) (\<lambda>_.
      io_bind (success_audit e actor1 meta action tt2 j now) (\<lambda>_. io_return (Inr j))))) (\<lambda>_ w. departed j u v w)" for t a tt tt2 payload n plain action actor1 u u1
    by (intro runs_bind [OF closed [OF same_members.service_writes_move(3) [OF legal]]] runs_bind [OF closed [OF same_members.service_writes_move(4) [OF legal]]]
        runs_bind [OF closed [OF same_members.service_writes_move(2) [OF legal]]] runs_return) auto
  note steps = reads_at [OF assms, of v]
  show ?thesis
    unfolding leave_op_def Let_def
    by (intro runs_cases accepts_rejected runs_bind [OF steps(1)] runs_bind [OF steps(2)] runs_bind [OF steps(3)] runs_bind [OF steps(4)] runs_bind [OF steps(5)]
        runs_pure runs_bind [OF removal_runs [OF assms]] runs_weaken [OF rest]) (auto split: sum.split dest: actor_in_ID)
qed


definition manages :: "string \<Rightarrow> workspace \<Rightarrow> bool" where
  "manages i ws \<longleftrightarrow> (\<exists>a. actor_in ws i a \<and> conversations_hasCapability (actor_Role a) ''conversation.member.manage'')"

text \<open>The key of conversation\_members is unique.\<close>

definition participant_keys :: "workspace \<Rightarrow> bool" where
  "participant_keys ws \<longleftrightarrow> distinct (map (\<lambda>cm. (cm_conversation_id cm, cm_user_id cm)) (conversation_members (ws_rest ws)))"

lemma participants_active: "cm \<in> set (participants j ws) \<Longrightarrow> active_in j cm"
  by (cases "conversation_of j ws") (simp_all add: participants_def)

lemma two_participants:
  assumes "participant_keys ws" "1 < length (participants j ws)"
  shows "members_of j ws - {i} \<noteq> {}"
proof -
  have d: "distinct (map (\<lambda>cm. (cm_conversation_id cm, cm_user_id cm)) (participants j ws))"
    using assms(1) unfolding participant_keys_def participants_def by (auto intro: distinct_map_filter)
  obtain a b cms where ab: "participants j ws = a # b # cms"
    using assms(2) by (cases "participants j ws"; cases "tl (participants j ws)") simp_all
  have "active_in j a" by (rule participants_active [where ws = ws]) (simp add: ab)
  moreover have "active_in j b" by (rule participants_active [where ws = ws]) (simp add: ab)
  ultimately have "cm_conversation_id a = j" "cm_conversation_id b = j" by (simp_all add: active_in_def)
  then have "cm_user_id a \<noteq> cm_user_id b" using d by (simp add: ab)
  moreover have "cm_user_id a \<in> members_of j ws" "cm_user_id b \<in> members_of j ws" by (simp_all add: members_of_def ab)
  ultimately show ?thesis by blast
qed

text \<open>
  C10 (conversations/service.go: AddMember, RemoveMember, Leave). An added user is in the group afterwards, a removed
  or leaving one is not, and nobody else's membership changes, in this or another conversation. Who adds or
  removes has the capability and is in the group when it is done; who removes takes out another member; who leaves
  was a member and leaves somebody behind. No other transaction commits meanwhile.
\<close>

theorem group_membership_changes:
  assumes "quiet e" "participant_keys ws" "j = TrimSpace conversationID" "i = TrimSpace actorID" "u = TrimSpace userID"
  shows "(AddMember cfg e actorID conversationID userID meta ws = (Inr c1, ws1) \<longrightarrow>
      joined j u ws ws1 \<and> i \<in> members_of j ws1 \<and> manages i ws) \<and>
    (conversations_RemoveMember cfg e actorID conversationID userID meta ws = (Inr c2, ws2) \<longrightarrow>
      departed j u ws ws2 \<and> u \<in> members_of j ws \<and> u \<noteq> i \<and> i \<in> members_of j ws2 \<and> manages i ws) \<and>
    (Leave cfg e actorID conversationID meta ws = (Inr k, ws3) \<longrightarrow>
      departed j i ws ws3 \<and> i \<in> members_of j ws \<and> members_of j ws3 \<noteq> {})"
proof (intro conjI impI)
  have add: "accepts (\<lambda>v. v = ws) (manage_group e action missing msg None j (add_to_group cfg e meta j u now) a) (\<lambda>_ w. joined j u ws w \<and> i \<in> members_of j w \<and> manages i ws)"
    if "actor_in ws i a" for a action missing msg now
    by (intro manage_group_accepts assms(1) runs_weaken [OF add_accepts [OF assms(1)]])
      (use actor_in_ID [OF that] in \<open>auto simp: manages_def dest: actor_in_ID split: sum.split\<close>)
  show "joined j u ws ws1" "i \<in> members_of j ws1" "manages i ws" if "AddMember cfg e actorID conversationID userID meta ws = (Inr c1, ws1)"
    using conversation_tx_runs [OF assms(1) add that [unfolded AddMember_def Let_def, folded assms(3-5)]] assms(4) by blast+
  have remove: "accepts (\<lambda>v. v = ws) (manage_group e action missing msg None j (remove_from_group cfg e meta j u now) a)
      (\<lambda>_ w. departed j u ws w \<and> u \<in> members_of j ws \<and> u \<noteq> i \<and> i \<in> members_of j w \<and> manages i ws)"
    if "actor_in ws i a" for a action missing msg now
    by (intro manage_group_accepts assms(1) runs_weaken [OF remove_accepts [OF assms(1)]])
      (use actor_in_ID [OF that] in \<open>auto simp: manages_def dest: actor_in_ID split: sum.split\<close>)
  show "departed j u ws ws2" "u \<in> members_of j ws" "u \<noteq> i" "i \<in> members_of j ws2" "manages i ws"
    if "conversations_RemoveMember cfg e actorID conversationID userID meta ws = (Inr c2, ws2)"
    using conversation_tx_runs [OF assms(1) remove that [unfolded conversations_RemoveMember_def Let_def, folded assms(3-5)]] assms(4) by blast+
  have leave: "accepts (\<lambda>v. v = ws) (leave_op cfg e meta j a now) (\<lambda>_ w. departed j i ws w \<and> i \<in> members_of j ws \<and> 1 < length (participants j ws))"
    if "actor_in ws i a" for a now
    by (rule leave_accepts [OF assms(1), of ws cfg meta j a now, unfolded actor_in_ID [OF that]])
  assume "Leave cfg e actorID conversationID meta ws = (Inr k, ws3)"
  then have left: "departed j i ws ws3 \<and> i \<in> members_of j ws \<and> 1 < length (participants j ws)"
    using conversation_tx_runs [OF assms(1) leave] assms(3,4) by (simp add: Leave_def)
  then show "departed j i ws ws3" "i \<in> members_of j ws" by blast+
  show "members_of j ws3 \<noteq> {}" using two_participants [OF assms(2), of j i] left by (simp add: departed_def)
qed


section \<open>Who is let in\<close>

text \<open>An active member of the space with a role that reads conversations, in this conversation.\<close>

definition reader_in :: "string \<Rightarrow> string \<Rightarrow> workspace \<Rightarrow> bool" where
  "reader_in j i ws \<longleftrightarrow> i \<in> members_of j ws \<and> (\<exists>a. actor_in ws i a \<and> conversations_hasCapability (actor_Role a) ''conversation.read'')"

lemma readerI: "actor_in ws i a \<Longrightarrow> conversations_hasCapability (actor_Role a) ''conversation.read'' \<Longrightarrow> i \<in> members_of j ws \<Longrightarrow> reader_in j i ws"
  unfolding reader_in_def by blast

lemma manage_reads: "conversations_hasCapability role ''conversation.member.manage'' \<Longrightarrow> conversations_hasCapability role ''conversation.read''"
  by (auto simp: conversations_hasCapability_def Let_def split: if_splits)

lemma accepts_known: "P \<Longrightarrow> accepts K m (\<lambda>_ _. P)"
  by (simp add: runs_def split: sum.split)

lemma own_row_accepts:
  assumes "quiet e" "actor_in ws i a"
  shows "accepts (\<lambda>v. v = ws) (own_row_op cfg e operation cause j change a now) (\<lambda>_ _. reader_in j i ws)"
  unfolding own_row_op_def actor_in_ID [OF assms(2)]
  by (intro runs_cases accepts_rejected runs_bind [OF reads_at(1) [OF assms(1)]] runs_bind [OF reads_at(7) [OF assms(1)]] runs_pure accepts_known)
    (auto intro: readerI [OF assms(2)])

lemma pin_op_accepts:
  assumes "quiet e" "actor_in ws i a"
  shows "accepts (\<lambda>v. v = ws) (pin_op e action j k f a now) (\<lambda>_ _. reader_in j i ws)"
  unfolding pin_op_def actor_in_ID [OF assms(2)]
  by (intro runs_cases accepts_rejected runs_bind [OF reads_at(1) [OF assms(1)]] runs_bind [OF reads_at(3) [OF assms(1)]] runs_bind [OF reads_at(4) [OF assms(1)]]
      runs_pure accepts_known) (auto intro: readerI [OF assms(2)])

lemma change_group_accepts:
  assumes "quiet e" "actor_in ws i a" "conversations_hasCapability (actor_Role a) ''conversation.member.manage''"
  shows "accepts (\<lambda>v. v = ws) (change_group cfg e input j ts avs now a c) (\<lambda>_ _. reader_in j i ws)"
proof -
  note legal = quiet_same [OF assms(1)] and closed = closed_states(3) [of ws]
  have "runs (same_members ws) (project_after cfg e operation cause a j) (\<lambda>_ _. reader_in j i ws)" for operation cause
    by (rule runs_weaken [OF project_after_runs [OF assms(1)]]) (use readerI [OF assms(2) manage_reads [OF assms(3)]] actor_in_ID [OF assms(2)] in auto)
  then have save: "runs (same_members ws) (save_group cfg e meta j ts1 avs1 title avatar now a c) (\<lambda>_ _. reader_in j i ws)" for meta ts1 avs1 title avatar
    unfolding save_group_def
    by (intro runs_bind [OF closed_runs [OF same_members.marking_moves(1) [OF legal] closed]] runs_bind [where Q = "\<lambda>_ _. reader_in j i ws"]) (auto simp: runs_def)
  show ?thesis
    unfolding change_group_def Let_def
    by (intro runs_cases accepts_rejected accepts_Inr runs_weaken [OF save]) (auto simp: same_members.refl)
qed

definition read_by :: "string \<Rightarrow> string \<Rightarrow> workspace \<Rightarrow> 'a read_outcome \<Rightarrow> bool" where
  "read_by j i ws r \<longleftrightarrow> (case r of Read _ \<Rightarrow> reader_in j i ws | Refused _ _ _ _ _ _ \<Rightarrow> True)"

lemma run_read_runs:
  assumes "quiet e" "runs (\<lambda>v. v = ws) m (\<lambda>r _. read_by j i ws r)" "is_ok (fst (run_read e e2 meta m ws))"
  shows "reader_in j i ws"
proof -
  obtain x ws' where "run_read e e2 meta m ws = (Inr x, ws')" using run_ok [OF assms(3)] by blast
  then obtain r ws1 where r: "Autocommit m ws = (Inr (Read r), ws1)"
    by (auto simp: run_read_def conversations_normalized_def split: prod.splits sum.splits read_outcome.splits)
  then obtain s where "m (tx_start ws) = (Inr (Read r), s)" unfolding Autocommit_ok by blast
  then have "read_by j i ws (Read r)" by (rule runsD [OF assms(2)]) simp
  then show ?thesis by (simp add: read_by_def)
qed

lemma reads_runs:
  assumes "quiet e"
  shows "runs (\<lambda>v. v = ws) (get_read cfg e actorID j) (\<lambda>r _. read_by j (TrimSpace actorID) ws r)"
    "runs (\<lambda>v. v = ws) (pins_read cfg e actorID j) (\<lambda>r _. read_by j (TrimSpace actorID) ws r)"
proof -
  let ?i = "TrimSpace actorID"
  have actor: "runs (\<lambda>v. v = ws) (conversations_readActor e actorID) (\<lambda>a v. v = ws \<and> actor_in ws ?i a)"
    unfolding conversations_readActor_def Let_def by (intro runs_cases runs_fail reads_at(2) [OF assms])
  have refused: "runs K (io_return (Refused err i action tt tid reason)) (\<lambda>r _. read_by j ?i ws r)" for K err i action tt tid reason
    by (rule runs_return) (simp add: read_by_def)
  have known: "runs K m (\<lambda>r _. read_by j ?i ws r)" if "reader_in j ?i ws" for K and m :: "'b read_outcome tx"
    using that by (simp add: runs_def read_by_def split: read_outcome.split)
  have get: "runs (\<lambda>v. v = ws)
     (if \<not> conversations_hasCapability (actor_Role a) ''conversation.read''
      then io_return (Refused permissionDeniedError (actor_ID a) ''conversation.read'' ''conversation'' j ''insufficient permission'')
      else if j = [] then tx_fail (Domain conversationRequired)
      else io_bind (GetVisibleConversationRecord e (actor_ID a) j) (\<lambda>found.
        case found of
          None \<Rightarrow> io_return (Refused conversationNotFoundError (actor_ID a) ''conversation.read'' ''conversation'' j ''not a conversation member'')
        | Some r \<Rightarrow> io_bind (projectConversation cfg e a r) (\<lambda>c. io_return (Read c)))) (\<lambda>r _. read_by j ?i ws r)"
    if a: "actor_in ws ?i a" for a
    unfolding actor_in_ID [OF a]
    by (intro runs_cases refused runs_fail runs_bind [OF reads_at(7) [OF assms]] runs_pure known) (auto intro: readerI [OF a])
  show "runs (\<lambda>v. v = ws) (get_read cfg e actorID j) (\<lambda>r _. read_by j ?i ws r)"
    unfolding get_read_def by (rule runs_bind [OF actor runs_pure [OF get]])
  show "runs (\<lambda>v. v = ws) (pins_read cfg e actorID j) (\<lambda>r _. read_by j ?i ws r)"
    unfolding pins_read_def Let_def
  proof (rule runs_bind [OF actor runs_pure], goal_cases)
    case (1 a)
    show ?case
      unfolding actor_in_ID [OF 1]
      by (intro runs_cases refused runs_fail runs_bind [OF reads_at(3) [OF assms]] runs_bind [OF reads_at(4) [OF assms]] runs_pure known) (auto intro: readerI [OF 1])
  qed
qed


lemma conversation_tx_known:
  assumes "quiet e" "i = TrimSpace actorID" "is_ok (fst (conversation_tx e actorID meta fn ws))"
    and "\<And>a. actor_in ws i a \<Longrightarrow> accepts (\<lambda>v. v = ws) (fn a (conversations_now e)) (\<lambda>_ _. P)"
  shows P
proof -
  obtain x ws' where run: "conversation_tx e actorID meta fn ws = (Inr x, ws')" using run_ok [OF assms(3)] by blast
  show P by (rule conversation_tx_runs [where Q = "\<lambda>_ _. P", OF assms(1) _ run]) (rule assms(4) [unfolded assms(2)])
qed

text \<open>
  C11 (conversations/service.go: GetConversation, ListPins, MarkRead, UpdateNotification, UpdateGroup, Pin, Unpin).
  Each of these succeeds only for an active member of the space whose role reads conversations and
  who is in the conversation.
\<close>

theorem conversation_access:
  assumes "quiet e" "j = TrimSpace conversationID" "i = TrimSpace actorID" "ug_ActorID input = actorID" "ug_ConversationID input = conversationID"
    and "is_ok (fst (GetConversation cfg e e2 actorID conversationID meta ws)) \<or> is_ok (fst (ListPins cfg e e2 actorID conversationID meta ws)) \<or>
      is_ok (fst (MarkRead cfg e actorID conversationID meta ws)) \<or> is_ok (fst (UpdateNotification cfg e actorID conversationID level0 level1 meta ws)) \<or>
      is_ok (fst (UpdateGroup cfg e input ws)) \<or> is_ok (fst (Pin cfg e actorID conversationID k meta ws)) \<or> is_ok (fst (Unpin e actorID conversationID k meta ws))"
  shows "reader_in j i ws"
  using assms(6)
proof (elim disjE)
  note boundary = conversation_tx_known [OF assms(1), where i = i, OF assms(3)]
  note own = boundary [OF _ own_row_accepts [OF assms(1)]] and pin = boundary [OF _ pin_op_accepts [OF assms(1)]]
  show "reader_in j i ws" if "is_ok (fst (GetConversation cfg e e2 actorID conversationID meta ws))"
    unfolding assms(2,3) by (rule run_read_runs [OF assms(1) reads_runs(1) [OF assms(1)] that [unfolded GetConversation_def]])
  show "reader_in j i ws" if "is_ok (fst (ListPins cfg e e2 actorID conversationID meta ws))"
    unfolding assms(2,3) by (rule run_read_runs [OF assms(1) reads_runs(2) [OF assms(1)] that [unfolded ListPins_def]])
  show "reader_in j i ws" if "is_ok (fst (MarkRead cfg e actorID conversationID meta ws))"
    using own [OF that [unfolded MarkRead_def Let_def, folded assms(2)]] .
  show "reader_in j i ws" if "is_ok (fst (UpdateNotification cfg e actorID conversationID level0 level1 meta ws))"
    using that own by (auto simp: UpdateNotification_def Let_def assms(2) split: if_splits)
  show "reader_in j i ws" if "is_ok (fst (UpdateGroup cfg e input ws))"
  proof (rule boundary)
    show "is_ok (fst (conversation_tx e actorID (ug_Meta input) (\<lambda>actor now. manage_group e ''conversation.update'' ''conversation.update''
       (utf8 [0x53EA, 0x6709, 0x7FA4, 0x804A, 0x53EF, 0x4EE5, 0x66F4, 0x65B0, 0x8D44, 0x6599])
       (if \<not> (ug_TitleSet input \<or> ug_Title input \<noteq> None) \<and> \<not> (ug_AvatarEmojiSet input \<or> ug_AvatarEmoji input \<noteq> None) then Some (invalidUpdate, ''conversation.invalid_update'') else None) j
       (change_group cfg e input j (ug_TitleSet input \<or> ug_Title input \<noteq> None) (ug_AvatarEmojiSet input \<or> ug_AvatarEmoji input \<noteq> None) now) actor) ws))"
      using that by (simp add: UpdateGroup_def Let_def assms(2,4,5))
  qed (auto intro!: manage_group_accepts change_group_accepts assms(1) dest: actor_in_ID)
  show "reader_in j i ws" if "is_ok (fst (Pin cfg e actorID conversationID k meta ws))"
    using pin [OF that [unfolded Pin_def Let_def, folded assms(2)]] .
  show "reader_in j i ws" if "is_ok (fst (Unpin e actorID conversationID k meta ws))"
    using pin [OF that [unfolded Unpin_def Let_def, folded assms(2)]] .
qed


section \<open>Direct conversations\<close>

text \<open>The direct conversation of a pair of users, by its key.\<close>

definition direct_id :: "string \<Rightarrow> workspace \<Rightarrow> string option" where
  "direct_id key ws = map_option c_id (first_row (filter (\<lambda>c. c_space_id c = DefaultSpaceID \<and> c_direct_key c = Some key) (conversations (ws_rest ws))))"

definition keys_are :: "(string \<times> string \<times> string \<times> string option) list \<Rightarrow> workspace \<Rightarrow> bool" where
  "keys_are ks ws \<longleftrightarrow> conversation_keys (conversations (ws_rest ws)) = ks"

lemma first_row_map: "first_row (map f xs) = map_option f (first_row xs)"
  by (cases xs) (simp_all add: first_row_def)

lemma direct_id_keys:
  "direct_id key ws = map_option fst (first_row (filter (\<lambda>(i, s, t, k). s = DefaultSpaceID \<and> k = Some key) (conversation_keys (conversations (ws_rest ws)))))"
  by (simp add: direct_id_def conversation_keys_def filter_map o_def first_row_map option.map_comp)

lemma direct_same: "same_members a b \<Longrightarrow> direct_id key b = direct_id key a"
  by (simp only: direct_id_keys same_members_def)

definition same_keys :: "workspace \<Rightarrow> workspace \<Rightarrow> bool" where
  "same_keys a b \<longleftrightarrow> keys_are (conversation_keys (conversations (ws_rest a))) b"

interpretation same_keys: effect same_keys
  by unfold_locales (auto simp: same_keys_def keys_are_def)

lemma same_members_keys: "same_members a b \<Longrightarrow> same_keys a b"
  by (simp add: same_members_def same_keys_def keys_are_def)

lemma keys_closed: "member_closed (keys_are ks)"
  by (auto simp: member_closed_def same_members_def keys_are_def)

lemma add_members_keys: "quiet e \<Longrightarrow> runs (keys_are ks) (add_members e j now is) (\<lambda>_. keys_are ks)"
proof (induction "is")
  case (Cons i "is")
  have "keys_are ks (v\<lparr>ws_rest := d\<rparr>)" if "Conversations_Store.upsert_member j i now (ws_rest v) = (x, d)" "keys_are ks v" for v x d
    using upsert_conversations [of j i now "ws_rest v"] that by (simp add: keys_are_def)
  then have "runs (keys_are ks) (UpsertConversationMember e j i now) (\<lambda>_. keys_are ks)"
    unfolding UpsertConversationMember_def by (intro runs_wrap runs_write Cons.prems) (auto simp: on_rest_Inr)
  then show ?case using Cons by (auto intro: runs_bind)
qed (auto intro: runs_return)

lemma runs_conj: "runs K m Q1 \<Longrightarrow> runs K m Q2 \<Longrightarrow> runs K m (\<lambda>x v. Q1 x v \<and> Q2 x v)"
  unfolding runs_def by blast

lemma project_id: "runs K (projectConversation cfg e actor r) (\<lambda>c _. cv_ID c = cd_ID r)"
  by (auto simp: runs_def projectConversation_def tx_ok conversation_view_def Let_def)

lemma project_after_id:
  assumes "quiet e"
  shows "runs K (project_after cfg e operation cause actor j) (\<lambda>c _. cv_ID c = j)"
  unfolding project_after_def
proof (rule runs_bind)
  show "runs K (GetVisibleConversationRecord e (actor_ID actor) j) (\<lambda>r _. True \<and> (\<forall>x. r = Some x \<longrightarrow> cd_ID x = j))"
    by (intro visible_runs assms) simp_all
  show "runs (\<lambda>_. True \<and> (\<forall>x. r = Some x \<longrightarrow> cd_ID x = j)) (case r of None \<Rightarrow> tx_fail (Domain (internalError operation cause)) | Some r \<Rightarrow> projectConversation cfg e actor r)
      (\<lambda>c _. cv_ID c = j)" for r
    by (intro runs_pure runs_cases runs_fail runs_weaken [OF project_id]) auto
qed

text \<open>A conversation found or made for a key.\<close>

definition direct_made :: "string \<Rightarrow> string \<Rightarrow> workspace \<Rightarrow> Conversation \<Rightarrow> workspace \<Rightarrow> bool" where
  "direct_made key i v c w \<longleftrightarrow> direct_id key w = Some (cv_ID c) \<and> i \<in> members_of (cv_ID c) w \<and>
     (direct_id key v \<noteq> None \<longrightarrow> direct_id key v = Some (cv_ID c) \<and> same_members v w)"

lemma new_direct_runs:
  assumes "quiet e" "direct_id key v = None"
  shows "runs (\<lambda>w. w = v) (new_direct cfg e meta actor target key now) (\<lambda>c w. direct_made key (actor_ID actor) v c w)"
proof -
  define ks where "ks j = conversation_keys (conversations (ws_rest v)) @ [(j, DefaultSpaceID, ''direct'', Some key)]" for j
  note legal = quiet_same [OF assms(1)] and closed = closed_runs [OF _ keys_closed]
  have id: "runs (\<lambda>w. w = v) (tx_wrap t (conversations_newID e)) (\<lambda>_ w. w = v)" for t
    by (auto simp: runs_def tx_ok conversations_newID_def Let_def dest: tx_newid_view split: if_splits)
  have create: "runs (\<lambda>w. w = v) (PG_CreateConversation e j ''direct'' title avatar (Some key) u now) (\<lambda>_. keys_are (ks j))" for j title avatar u
    unfolding PG_CreateConversation_def
    by (intro runs_wrap runs_write assms(1)) (auto simp: on_rest_Inr insert_conversation_def keys_are_def ks_def conversation_keys_def split: if_splits)
  have made: "direct_made key (actor_ID actor) v c w" if "keys_are (ks j) w" "actor_ID actor \<in> members_of j w" "cv_ID c = j" for j c w
  proof -
    have "filter (\<lambda>(i, s, t, k). s = DefaultSpaceID \<and> k = Some key) (conversation_keys (conversations (ws_rest v))) = []"
      using assms(2) by (simp add: direct_id_keys)
    then have "direct_id key w = Some j" using that(1) by (simp add: direct_id_keys keys_are_def ks_def)
    then show ?thesis using that assms(2) by (simp add: direct_made_def)
  qed
  have shown: "runs (keys_are (ks j)) (project_after cfg e operation cause actor j) (\<lambda>c w. direct_made key (actor_ID actor) v c w)" for operation cause j
    by (rule runs_weaken [OF runs_conj [OF closed_project [OF assms(1) keys_closed] project_after_id [OF assms(1)]]]) (auto intro: made)
  show ?thesis
    unfolding new_direct_def Let_def
    by (intro runs_bind [OF id] runs_bind [OF create] runs_bind [OF add_members_keys [OF assms(1)]] runs_bind [OF closed [OF same_members.service_writes_move(3) [OF legal]]]
        runs_bind [OF closed [OF same_members.service_writes_move(2) [OF legal]]] shown)
qed

lemma createDirect_accepts:
  assumes "quiet e" "actor_in ws i actor"
  shows "accepts (\<lambda>w. w = ws) (createDirect cfg e input actor now) (direct_made (directKey i (TrimSpace (cc_TargetUserID input))) i ws)"
proof -
  let ?t = "TrimSpace (cc_TargetUserID input)" let ?key = "directKey i ?t"
  note legal = quiet_same [OF assms(1)] and steps = reads_at [OF assms(1), of ws]
  have find: "runs (\<lambda>w. w = ws) (FindDirectConversation e ?key) (\<lambda>c w. w = ws \<and> map_option cd_ID c = direct_id ?key ws)"
    unfolding FindDirectConversation_def by (intro runs_wrap runs_read assms(1)) (simp add: direct_id_def option.map_comp o_def scanBaseConversationRecord_def)
  have reach: "runs (\<lambda>w. w = ws) (reach_member e a m) (\<lambda>_ w. w = ws)" for a m
    unfolding reach_member_def MemberVisible_def SharesActiveGroup_def
    by (intro runs_bind [where Q = "\<lambda>_ w. w = ws"] runs_wrap runs_read runs_cases runs_return assms(1)) auto
  have old: "accepts (\<lambda>w. w = ws) (io_bind (GetVisibleConversationRecord e i (cd_ID c)) (\<lambda>mine. case mine of
        None \<Rightarrow> rejectedError err action tt tid reason
      | Some r \<Rightarrow> io_bind (projectConversation cfg e a r) (\<lambda>x. io_return (Inr x)))) (direct_made ?key i ws)"
    if "map_option cd_ID (Some c) = direct_id ?key ws" for c a err action tt tid reason
  proof -
    have mine: "runs (\<lambda>w. w = ws) (GetVisibleConversationRecord e i (cd_ID c)) (\<lambda>r w. w = ws \<and> (\<forall>x. r = Some x \<longrightarrow> cd_ID x = cd_ID c \<and> i \<in> members_of (cd_ID c) ws))"
      by (intro visible_runs assms(1)) simp_all
    have p: "runs (\<lambda>w. w = ws) (projectConversation cfg e a r) (\<lambda>x w. same_members ws w \<and> cv_ID x = cd_ID r)" for r
      by (intro runs_conj project_id runs_moves [OF same_members.projection_moves(2) [OF legal]]) simp
    have q: "direct_made ?key i ws x w" if "same_members ws w \<and> cv_ID x = cd_ID r" "cd_ID r = cd_ID c \<and> i \<in> members_of (cd_ID c) ws" for x w and r :: ConversationRecord
      using that direct_same [of ws w ?key] same_members_of [of ws w] \<open>map_option cd_ID (Some c) = direct_id ?key ws\<close> [symmetric] by (simp add: direct_made_def)
    have shown: "runs (\<lambda>w. w = ws) (projectConversation cfg e a r) (direct_made ?key i ws)" if "cd_ID r = cd_ID c \<and> i \<in> members_of (cd_ID c) ws" for r
      by (rule runs_weaken [OF p [of r]]) (simp, rule q [OF _ that])
    show ?thesis by (intro runs_bind [OF mine] runs_pure runs_cases accepts_rejected accepts_Inr shown) auto
  qed
  have new: "accepts (\<lambda>w. w = ws) (io_bind (new_direct cfg e meta a target ?key now) (\<lambda>x. io_return (Inr x))) (direct_made ?key i ws)"
    if "actor_ID a = i" "map_option cd_ID None = direct_id ?key ws" for a meta target
    using new_direct_runs [OF assms(1), of ?key ws cfg meta a target now] that by (intro accepts_Inr) simp
  show ?thesis
    unfolding createDirect_def Let_def
  proof (intro runs_cases accepts_rejected with_members_lock_accepts assms(1), goal_cases)
    case (1 a)
    then have a: "actor_ID a = i" using actor_in_ID assms(2) by metis
    show ?case
      unfolding a
      by (intro runs_bind [OF steps(6)] runs_pure runs_cases accepts_rejected runs_bind [OF reach] runs_bind [OF steps(1)] runs_bind [OF find] old new a) simp_all
  qed
qed


lemma directKey_commute: "directKey left right = directKey right left"
  by (auto simp: directKey_def)

text \<open>
  C19 (conversations/service.go: CreateConversation, createDirect, directKey). Two users have one direct conversation,
  whoever of them asks for it: what is returned is the conversation of their key, the caller is
  in it, and where it existed before it is that one and no conversation or membership changes.
\<close>

theorem direct_conversation_once:
  assumes "quiet e" "TrimSpace (cc_Type input) = ''direct''" "i = TrimSpace (cc_ActorID input)" "t = TrimSpace (cc_TargetUserID input)"
    and "CreateConversation cfg e input ws = (Inr c, ws')"
  shows "direct_id (directKey i t) ws' = Some (cv_ID c) \<and> directKey t i = directKey i t \<and> i \<in> members_of (cv_ID c) ws' \<and>
    (direct_id (directKey i t) ws \<noteq> None \<longrightarrow> direct_id (directKey i t) ws = Some (cv_ID c) \<and> same_members ws ws')"
proof -
  have "accepts (\<lambda>v. v = ws) (create_op cfg e input a now) (direct_made (directKey i t) i ws)" if "actor_in ws i a" for a now
    unfolding create_op_def Let_def assms(2,4) by (intro runs_cases accepts_rejected createDirect_accepts [OF assms(1) that]) simp_all
  then have "direct_made (directKey i t) i ws c ws'"
    by (rule conversation_tx_runs [OF assms(1) _ assms(5) [unfolded CreateConversation_def]]) (simp add: assms(3))
  then show ?thesis using directKey_commute by (simp add: direct_made_def)
qed


section \<open>Examples\<close>

text \<open>A transaction that only reads, without faults: it ends with a value and leaves the database.\<close>

definition ends :: "workspace \<Rightarrow> 'a tx \<Rightarrow> ('a \<Rightarrow> bool) \<Rightarrow> bool" where
  "ends ws m P \<longleftrightarrow> (\<forall>s. tx_view s = ws \<longrightarrow> (\<exists>x s1. m s = (Inr x, s1) \<and> tx_view s1 = ws \<and> P x))"

text \<open>One that may write: it leads from one database to another.\<close>

definition leads :: "workspace \<Rightarrow> 'a tx \<Rightarrow> workspace \<Rightarrow> ('a \<Rightarrow> bool) \<Rightarrow> bool" where
  "leads ws m ws1 P \<longleftrightarrow> (\<forall>s. tx_view s = ws \<longrightarrow> (\<exists>x s1. m s = (Inr x, s1) \<and> tx_view s1 = ws1 \<and> P x))"

lemma ends_leads: "ends ws m P \<longleftrightarrow> leads ws m ws P"
  unfolding ends_def leads_def ..

lemma leads_bind: "leads ws m ws1 P \<Longrightarrow> (\<And>x. P x \<Longrightarrow> leads ws1 (f x) ws2 Q) \<Longrightarrow> leads ws (io_bind m f) ws2 Q"
  unfolding leads_def io_bind_def by (intro allI impI) (fastforce split: prod.split sum.split)

definition smooth :: "tx_env \<Rightarrow> bool" where
  "smooth e \<longleftrightarrow> quiet e \<and> (\<forall>n. te_fault e n = None)"

lemma ends_return: "P x \<Longrightarrow> ends ws (io_return x) P"
  by (simp add: ends_def io_return_def)

lemma ends_bind: "ends ws m P \<Longrightarrow> (\<And>x. P x \<Longrightarrow> ends ws (f x) Q) \<Longrightarrow> ends ws (io_bind m f) Q"
  unfolding ends_def io_bind_def by (intro allI impI) (fastforce split: prod.split sum.split)

lemma ends_wrap: "ends ws m P \<Longrightarrow> ends ws (tx_wrap operation m) P"
  unfolding ends_def tx_wrap_def by fastforce

lemma ends_read: "smooth e \<Longrightarrow> P (f ws) \<Longrightarrow> ends ws (tx_read e f) P"
  by (auto simp: ends_def smooth_def tx_read_def tx_write_def others_def Let_def)

lemma ends_lock: "smooth e \<Longrightarrow> TrimSpace key \<noteq> [] \<Longrightarrow> P () \<Longrightarrow> ends ws (conversations_Lock e key) P"
  unfolding conversations_Lock_def tx_lock_def by (auto intro!: ends_wrap ends_bind [where P = "\<lambda>_. True"] ends_read) (simp add: ends_def)

lemma ends_lookup:
  assumes "smooth e" "first_row [scanActor u m. (u, m) \<leftarrow> space_users ws, ac_id u = i] = Some a" "i \<noteq> []" "TrimSpace i = i" "actor_Kind a = ''human''"
    "TrimSpace (actor_Role a) \<noteq> []" "P a"
  shows "ends ws (conversations_lookupActor e i) P"
proof -
  have "actor_ID a = i" using first_actor_in [OF assms(2)] by (rule actor_in_ID)
  then show ?thesis unfolding conversations_lookupActor_def conversations_LookupActor_def
    using assms by (intro ends_bind [where P = "\<lambda>r. r = Some a"] ends_wrap ends_read) (auto intro: ends_return)
qed

text \<open>The projection of a conversation without messages.\<close>

lemma ends_project:
  assumes "smooth e" "live_messages (cd_ID r) ws = []" "cf_collate cfg [] = []"
  shows "ends ws (projectConversation cfg e actor r) (\<lambda>c. cv_ID c = cd_ID r)"
  unfolding projectConversation_def ListConversationMembers_def ListLatestMessages_def hydrateMessageRecords_def lift_result_def
  by (intro ends_bind [where P = "\<lambda>_. True"] ends_bind [where P = "\<lambda>l. l = []"] ends_wrap ends_read assms(1))
    (auto simp: assms(2,3) newest_first_def order_desc_def message_ids_def conversation_view_def Let_def intro: ends_return)

lemma leads_conversation_tx:
  assumes "smooth e" "i = TrimSpace actorID" "first_row [scanActor u m. (u, m) \<leftarrow> space_users ws, ac_id u = i] = Some a" "i \<noteq> []" "TrimSpace i = i" "actor_Kind a = ''human''"
    "TrimSpace (actor_Role a) \<noteq> []" "leads ws (fn a (conversations_now e)) ws1 (\<lambda>r. \<exists>x. r = Inr x)"
  shows "\<exists>x. conversation_tx e actorID meta fn ws = (Inr x, ws1)"
proof -
  have guard: "ends v (tx_guard e operation) (\<lambda>_. True)" for v operation unfolding tx_guard_def by (intro ends_wrap ends_read assms(1)) simp
  have body: "leads ws (conversation_body e i (Safe meta) fn) ws1 (\<lambda>r. \<exists>x. r = Inr x)"
    unfolding conversation_body_def Let_def
  proof (rule leads_bind)
    show "leads ws (conversations_lookupActor e i) ws (\<lambda>b. b = a)" unfolding ends_leads [symmetric] by (rule ends_lookup [OF assms(1,3-7)]) simp
    show "leads ws (io_bind (fn b (conversations_now e)) (\<lambda>r. case r of Inl rej \<Rightarrow>
        io_bind (tx_wrap ''write conversation rejection audit'' (conversation_audit e b (Safe meta) (cj_Action rej) (cj_TargetType rej) (cj_TargetID rej)
          ''rejected'' (cj_Reason rej) (conversations_now e))) (\<lambda>_. io_return (Inl (cj_err rej)))
        | Inr x \<Rightarrow> io_return (Inr x))) ws1 (\<lambda>r. \<exists>x. r = Inr x)" if "b = a" for b
      unfolding that by (rule leads_bind [OF assms(8)]) (auto simp: ends_leads [symmetric] intro!: ends_return)
  qed
  have "leads ws (io_bind (tx_guard e b) (\<lambda>_. io_bind (conversation_body e i (Safe meta) fn) (\<lambda>x. io_bind (tx_guard e c) (\<lambda>_. io_return x)))) ws1 (\<lambda>r. \<exists>x. r = Inr x)" for b c
    by (intro leads_bind [OF guard [unfolded ends_leads]] leads_bind [OF body] ends_return [unfolded ends_leads]) assumption
  then obtain x s1 where "io_bind (tx_guard e ''begin conversation transaction'') (\<lambda>_. io_bind (conversation_body e i (Safe meta) fn)
      (\<lambda>x. io_bind (tx_guard e ''commit conversation transaction'') (\<lambda>_. io_return x))) (tx_start ws) = (Inr (Inr x), s1)" "tx_view s1 = ws1"
    unfolding leads_def by (metis tx_start_simps(1))
  then show ?thesis
    using assms(4) by (simp add: conversation_tx_def WithTx_def Autocommit_def committed_def conversations_normalized_def assms(2) [symmetric])
qed

lemmas ends_conversation_tx = leads_conversation_tx [where ?ws1.0 = ws and ws = ws for ws, folded ends_leads]

lemma demo_smooth [simp]: "smooth (demo_env t ids)"
  by (simp add: smooth_def)

lemma demo_trim: "TrimSpace ''g1'' = ''g1''" "TrimSpace ''u1'' = ''u1''" "TrimSpace ''u2'' = ''u2''" "TrimSpace ''direct'' = ''direct''"
  by code_simp+


lemma ends_read_step: "smooth e \<Longrightarrow> ends ws (f (g ws)) Q \<Longrightarrow> ends ws (io_bind (tx_wrap operation (tx_read e g)) f) Q"
  by (rule ends_bind [where P = "\<lambda>x. x = g ws"]) (auto intro: ends_wrap ends_read)

lemma ends_lock_step: "smooth e \<Longrightarrow> TrimSpace key \<noteq> [] \<Longrightarrow> ends ws (f ()) Q \<Longrightarrow> ends ws (io_bind (conversations_Lock e key) f) Q"
  by (rule ends_bind [where P = "\<lambda>_. True"]) (auto intro: ends_lock)

lemma ends_branch:
  "b \<Longrightarrow> ends ws m Q \<Longrightarrow> ends ws (if b then m else m2) Q" "\<not> b \<Longrightarrow> ends ws m2 Q \<Longrightarrow> ends ws (if b then m else m2) Q"
  "x = None \<Longrightarrow> ends ws m Q \<Longrightarrow> ends ws (case x of None \<Rightarrow> m | Some y \<Rightarrow> g y) Q" "x = Some y \<Longrightarrow> ends ws (g y) Q \<Longrightarrow> ends ws (case x of None \<Rightarrow> m | Some y \<Rightarrow> g y) Q"
  by simp_all

text \<open>A group and a direct conversation of two members, without messages.\<close>

definition tea_ws :: workspace where
  "tea_ws = team_ws\<lparr>ws_rest := (ws_rest team_ws)
     \<lparr>conversations := [demo_group, demo_group\<lparr>c_id := ''d1'', c_type := ''direct'', c_direct_key := Some (directKey ''u1'' ''u2'')\<rparr>],
      conversation_members := [demo_participant ''u1'', demo_participant ''u2'', (demo_participant ''u1'')\<lparr>cm_conversation_id := ''d1''\<rparr>,
        (demo_participant ''u2'')\<lparr>cm_conversation_id := ''d1''\<rparr>]\<rparr>\<rparr>"

abbreviation demo_actor :: AuthActor where
  "demo_actor \<equiv> scanActor demo_user demo_member"

lemma tea_actor: "first_row [scanActor u m. (u, m) \<leftarrow> space_users tea_ws, ac_id u = ''u1''] = Some demo_actor" "actor_Kind demo_actor = ''human''"
  "TrimSpace (actor_Role demo_actor) \<noteq> []" "conversations_hasCapability (actor_Role demo_actor) ''conversation.member.manage''"
  "conversations_hasCapability (actor_Role demo_actor) ''conversation.create_direct''" "actor_ID demo_actor = ''u1''"
  by code_simp+

lemma tea_lookup: "ends tea_ws (f demo_actor) Q \<Longrightarrow> ends tea_ws (io_bind (conversations_lookupActor team_env ''u1'') f) Q"
  by (rule ends_bind [where P = "\<lambda>a. a = demo_actor"], rule ends_lookup [OF _ tea_actor(1)]) (simp_all add: tea_actor demo_trim del: scanActor_simps)

lemma tea_conversation: "map_option scanBaseConversationRecord (conversation_of ''g1'' tea_ws) = Some (scanBaseConversationRecord demo_group)"
  "cd_Type (scanBaseConversationRecord demo_group) = ''group''" "is_participant ''g1'' ''u2'' tea_ws" "live_messages j tea_ws = []"
  by (code_simp, code_simp, code_simp, simp add: live_messages_def tea_ws_def team_ws_def empty_ws_def)

lemma tea_visible:
  assumes "j \<in> {''g1'', ''d1''}"
  shows "\<exists>r. first_row [scanConversationRecord tea_ws c cm. (c, cm) \<leftarrow> conversation_rows ''u1'' tea_ws, c_id c = j] = Some r \<and> cd_ID r = j"
proof -
  have "map_option cd_ID (first_row [scanConversationRecord tea_ws c cm. (c, cm) \<leftarrow> conversation_rows ''u1'' tea_ws, c_id c = j]) = Some j"
    using assms by (elim insertE emptyE; hypsubst) code_simp+
  then show ?thesis by (auto simp del: first_row_None)
qed

lemma tea_member: "\<exists>m. first_row [joined_record [] tea_ws u m (mb_joined_at m). (u, m) \<leftarrow> space_users tea_ws, ac_id u = ''u2''] = Some m \<and>
   canJoinGroup m \<and> conversations_canStartDirect m \<and> mr_SearchDiscoverable m = False"
proof -
  have "map_option (\<lambda>m. (canJoinGroup m, conversations_canStartDirect m, mr_SearchDiscoverable m))
    (first_row [joined_record [] tea_ws u m (mb_joined_at m). (u, m) \<leftarrow> space_users tea_ws, ac_id u = ''u2'']) = Some (True, True, False)" by code_simp
  then show ?thesis by (auto simp del: first_row_None)
qed

lemma tea_project: "cd_ID r = j \<Longrightarrow> ends tea_ws (io_bind (projectConversation demo_config team_env actor r) (\<lambda>x. io_return (Inr x))) (\<lambda>x. \<exists>c. x = Inr c)"
  by (rule ends_bind [OF ends_project]) (auto simp: tea_conversation demo_config_def intro!: ends_return)

theorem group_membership_witness:
  "\<exists>c. AddMember demo_config team_env ''u1'' ''g1'' ''u2'' no_meta tea_ws = (Inr c, tea_ws) \<and> joined ''g1'' ''u2'' tea_ws tea_ws \<and>
     ''u1'' \<in> members_of ''g1'' tea_ws \<and> manages ''u1'' tea_ws"
proof -
  obtain m where m: "first_row [joined_record [] tea_ws u m (mb_joined_at m). (u, m) \<leftarrow> space_users tea_ws, ac_id u = ''u2''] = Some m" "canJoinGroup m"
    using tea_member by blast
  obtain r where r: "first_row [scanConversationRecord tea_ws c cm. (c, cm) \<leftarrow> conversation_rows ''u1'' tea_ws, c_id c = ''g1''] = Some r" "cd_ID r = ''g1''"
    using tea_visible [of "''g1''"] by blast
  have locks: "TrimSpace (''workspace-members:'' @ DefaultSpaceID) \<noteq> []" "TrimSpace (''conversation:'' @ ''g1'') \<noteq> []" by code_simp+
  have "\<exists>c. AddMember demo_config team_env ''u1'' ''g1'' ''u2'' no_meta tea_ws = (Inr c, tea_ws)"
    unfolding AddMember_def Let_def demo_trim
  proof (rule ends_conversation_tx [OF demo_smooth demo_trim(2) [symmetric] tea_actor(1)])
    show "ends tea_ws (manage_group team_env ''conversation.member_add'' ''conversation.member.manage''
        (utf8 [0x53EA, 0x6709, 0x7FA4, 0x804A, 0x53EF, 0x4EE5, 0x7BA1, 0x7406, 0x6210, 0x5458]) None ''g1''
        (add_to_group demo_config team_env no_meta ''g1'' ''u2'' (conversations_now team_env)) demo_actor) (\<lambda>r. \<exists>x. r = Inr x)"
      unfolding manage_group_def with_members_lock_def add_to_group_def Let_def FindConversation_def FindMember_def ConversationMemberActive_def
        GetVisibleConversationRecord_def tea_actor(6)
      by (intro ends_lock_step [OF demo_smooth locks(1)] ends_lock_step [OF demo_smooth locks(2)] tea_lookup ends_read_step [OF demo_smooth]
          ends_branch(4) [OF tea_conversation(1)] ends_branch(4) [OF m(1)] ends_branch(4) [OF r(1) [folded tea_actor(6)]] ends_branch(3) [OF refl]
          ends_branch(1) [OF tea_conversation(3)] ends_branch(2) tea_project [OF r(2)])
        (simp_all only: tea_actor tea_conversation m(2) list.distinct not_True_eq_False not_False_eq_True)
  qed (simp_all add: tea_actor demo_trim del: scanActor_simps)
  then obtain c where run: "AddMember demo_config team_env ''u1'' ''g1'' ''u2'' no_meta tea_ws = (Inr c, tea_ws)" by blast
  have "participant_keys tea_ws" by (simp add: participant_keys_def tea_ws_def demo_participant_def)
  from group_membership_changes [where j = "''g1''" and i = "''u1''" and u = "''u2''" and conversationID = "''g1''" and actorID = "''u1''" and userID = "''u2''",
      OF _ this demo_trim(1-3) [symmetric], of team_env demo_config no_meta c tea_ws]
  show ?thesis using run by (metis demo_env_simps(6))
qed

theorem conversation_access_witness:
  "reader_in ''g1'' ''u1'' pinned_ws \<and> is_ok (fst (Unpin team_env ''u1'' ''g1'' ''m1'' no_meta pinned_ws))"
proof -
  define input where "input = \<lparr>ug_ActorID = ''u1'', ug_ConversationID = ''g1'', ug_Title = None, ug_AvatarEmoji = None, ug_AvatarEmojiSet = False,
    ug_TitleSet = False, ug_Meta = no_meta\<rparr>"
  have ok: "is_ok (fst (Unpin team_env ''u1'' ''g1'' ''m1'' no_meta pinned_ws))" using pinned_ws_unpin by blast
  have "reader_in ''g1'' ''u1'' pinned_ws"
    by (rule conversation_access [where conversationID = "''g1''" and actorID = "''u1''" and input = input and e = team_env and k = "''m1''" and meta = no_meta])
      (simp_all only: demo_trim input_def ok UpdateGroupInput.select_convs demo_env_simps(6) simp_thms)
  then show ?thesis using ok by blast
qed

definition demo_direct :: CreateConversationInput where
  "demo_direct = \<lparr>cc_ActorID = ''u1'', cc_Type = ''direct'', cc_TargetUserID = ''u2'', cc_Title = [], cc_MemberIDs = [], cc_AvatarEmoji = None, cc_Meta = no_meta\<rparr>"

theorem direct_conversation_witness:
  "\<exists>c. CreateConversation demo_config team_env demo_direct tea_ws = (Inr c, tea_ws) \<and> direct_id (directKey ''u2'' ''u1'') tea_ws = Some (cv_ID c) \<and>
     ''u1'' \<in> members_of (cv_ID c) tea_ws"
proof -
  obtain m where m: "first_row [joined_record [] tea_ws u m (mb_joined_at m). (u, m) \<leftarrow> space_users tea_ws, ac_id u = ''u2''] = Some m" "conversations_canStartDirect m"
    using tea_member by blast
  obtain r where r: "first_row [scanConversationRecord tea_ws c cm. (c, cm) \<leftarrow> conversation_rows ''u1'' tea_ws, c_id c = ''d1''] = Some r" "cd_ID r = ''d1''"
    using tea_visible [of "''d1''"] by blast
  obtain d where d: "map_option scanBaseConversationRecord (first_row (filter (\<lambda>c. c_space_id c = DefaultSpaceID \<and> c_direct_key c = Some (directKey ''u1'' ''u2'')) (conversations (ws_rest tea_ws)))) = Some d"
    "cd_ID d = ''d1''"
  proof -
    have "map_option cd_ID (map_option scanBaseConversationRecord (first_row (filter (\<lambda>c. c_space_id c = DefaultSpaceID \<and> c_direct_key c = Some (directKey ''u1'' ''u2''))
      (conversations (ws_rest tea_ws))))) = Some ''d1''" by code_simp
    then show ?thesis using that by (auto simp del: first_row_None)
  qed
  have locks: "TrimSpace (''workspace-members:'' @ DefaultSpaceID) \<noteq> []" "TrimSpace (''conversation:direct:'' @ directKey ''u1'' ''u2'') \<noteq> []" by code_simp+
  have type: "TrimSpace (cc_Type demo_direct) = ''direct''" "TrimSpace (cc_TargetUserID demo_direct) = ''u2''" "TrimSpace (cc_ActorID demo_direct) = ''u1''"
    by (simp_all add: demo_direct_def demo_trim)
  have "mr_ID m = ''u2''" using m(1) by (auto simp: joined_record_def dest!: first_row_in)
  moreover have "member_visible ''u1'' ''u2'' tea_ws" by code_simp
  ultimately have visible: "member_visible ''u1'' (mr_ID m) tea_ws" by simp
  have unequal: "(''direct'' = ''group'') = False" "(''u2'' = ''u1'') = False" "(''u2'' = []) = False" by simp_all
  have reach: "ends tea_ws (reach_member team_env (actor_ID demo_actor) m) (\<lambda>x. x)"
    unfolding reach_member_def MemberVisible_def tea_actor(6)
    by (rule ends_read_step [OF demo_smooth]) (simp add: visible ends_return)
  have "\<exists>c. CreateConversation demo_config team_env demo_direct tea_ws = (Inr c, tea_ws)"
    unfolding CreateConversation_def
  proof (rule ends_conversation_tx [OF demo_smooth type(3) [symmetric] tea_actor(1)])
    show "ends tea_ws (create_op demo_config team_env demo_direct demo_actor (conversations_now team_env)) (\<lambda>r. \<exists>x. r = Inr x)"
      unfolding create_op_def createDirect_def with_members_lock_def Let_def FindMember_def FindDirectConversation_def GetVisibleConversationRecord_def type tea_actor(6)
      by (intro ends_lock_step [OF demo_smooth locks(1)] ends_lock_step [OF demo_smooth locks(2) [folded tea_actor(6)]] tea_lookup ends_read_step [OF demo_smooth]
          ends_branch(4) [OF m(1)] ends_branch(4) [OF r(1) [folded d(2) tea_actor(6)]] ends_branch(4) [OF d(1) [folded tea_actor(6)]]
          ends_bind [OF reach] ends_branch(1) [OF refl] ends_branch(2) tea_project [OF r(2)])
        (simp_all only: unequal simp_thms if_False tea_actor m(2))
  qed (simp_all add: tea_actor demo_trim del: scanActor_simps)
  then obtain c where run: "CreateConversation demo_config team_env demo_direct tea_ws = (Inr c, tea_ws)" by blast
  note once = direct_conversation_once [OF demo_env_simps(6) type(1) type(3,2) [symmetric] run]
  show ?thesis
  proof (intro exI conjI)
    show "CreateConversation demo_config team_env demo_direct tea_ws = (Inr c, tea_ws)" by (rule run)
    show "direct_id (directKey ''u2'' ''u1'') tea_ws = Some (cv_ID c)" using once unfolding directKey_commute [of "''u2''"] by blast
    show "''u1'' \<in> members_of (cv_ID c) tea_ws" using once by blast
  qed
qed


end
