(* ===== verification/Conversations_Reading.thy ===== *)
theory Conversations_Reading
  imports Conversations_Groups "HOL-Library.Multiset"
begin

text \<open>
  What a conversation keeps and how it is marked read: the retention of messages and the reading mark of a member.
\<close>

section \<open>Retention\<close>

text \<open>An order of strings that loses none.\<close>

definition arranges :: "(string list \<Rightarrow> string list) \<Rightarrow> bool" where
  "arranges collate \<longleftrightarrow> (\<forall>ks. distinct ks \<longrightarrow> distinct (collate ks) \<and> set (collate ks) = set ks)"

lemma ordered_multiset:
  assumes "arranges collate"
  shows "mset (order_asc collate key rows) = mset rows" "mset (order_desc collate key rows) = mset rows"
proof -
  have "mset (concat (map (\<lambda>k. filter (\<lambda>r. key r = k) rows) ks)) = filter_mset (\<lambda>r. key r \<in> set ks) (mset rows)" if "distinct ks" for ks
    using that
  proof (induction ks)
    case (Cons k ks)
    have "filter_mset (\<lambda>r. key r \<in> set (k # ks)) M = filter_mset (\<lambda>r. key r = k) M + filter_mset (\<lambda>r. key r \<in> set ks) M" for M
      using Cons.prems by (induction M) auto
    then show ?case using Cons by simp
  qed simp
  moreover have "filter_mset (\<lambda>r. key r \<in> key ` set rows) (mset rows) = mset rows" by (simp add: filter_mset_eq_conv)
  ultimately show "mset (order_asc collate key rows) = mset rows" "mset (order_desc collate key rows) = mset rows"
    using assms unfolding order_asc_def order_desc_def arranges_def by simp_all
qed

lemma newest_first_props:
  assumes "arranges collate"
  shows "mset (newest_first collate rows) = mset rows" "sorted (map (\<lambda>m. - ms_created_at m) (newest_first collate rows))"
  unfolding newest_first_def by (simp_all add: ordered_multiset [OF assms])

definition pinned :: "workspace \<Rightarrow> message_row \<Rightarrow> bool" where
  "pinned ws m \<longleftrightarrow> (\<exists>p \<in> set (ws_pins ws). pn_message_id p = ms_id m)"

definition message_keys :: "workspace \<Rightarrow> bool" where
  "message_keys ws \<longleftrightarrow> distinct (map ms_id (ws_messages ws))"

lemma distinct_live: "message_keys ws \<Longrightarrow> distinct (map ms_id (live_messages j ws))"
  unfolding message_keys_def live_messages_def by (rule distinct_map_filter)

lemma filter_deleted:
  "filter (\<lambda>m. ms_space_id m = sp \<and> ms_conversation_id m = j \<and> ms_topic_id m = None \<and> ms_deleted_at m = None)
     (update_where (\<lambda>m. ms_id m \<in> V) (\<lambda>m. m\<lparr>ms_deleted_at := Some (case ms_deleted_at m of None \<Rightarrow> t | Some t \<Rightarrow> t)\<rparr>) ms) =
   filter (\<lambda>m. ms_id m \<notin> V) (filter (\<lambda>m. ms_space_id m = sp \<and> ms_conversation_id m = j \<and> ms_topic_id m = None \<and> ms_deleted_at m = None) ms)"
  by (induction ms) (auto simp: update_where_def)

lemma enforced_live:
  "live_messages j (enforce_retention collate i n t ws) = filter (\<lambda>m. ms_id m \<notin> set (retention_victims collate i n ws)) (live_messages j ws)"
  unfolding live_messages_def enforce_retention_def Let_def using filter_deleted by simp

lemma filter_take:
  assumes "distinct (map f xs)"
  shows "filter (\<lambda>x. f x \<notin> f ` set (drop n xs)) xs = take n xs"
proof -
  have "distinct (map f (take n xs @ drop n xs))" using assms by simp
  then have "f ` set (take n xs) \<inter> f ` set (drop n xs) = {}" by (simp only: map_append distinct_append set_map)
  then have "filter (\<lambda>x. f x \<notin> f ` set (drop n xs)) (take n xs @ drop n xs) = take n xs @ []"
    unfolding filter_append by (intro arg_cong2 [where f = "(@)"]) (auto simp: filter_id_conv filter_empty_conv)
  then show ?thesis by simp
qed

text \<open>The messages of other conversations have other ids.\<close>

lemma foreign_ids:
  assumes "message_keys ws" "i \<noteq> j" "X \<subseteq> set (live_messages j ws)" "m \<in> set (live_messages i ws)"
  shows "ms_id m \<notin> ms_id ` X"
proof
  assume "ms_id m \<in> ms_id ` X"
  then obtain x where x: "x \<in> set (live_messages j ws)" "ms_id x = ms_id m" using assms(3) by (metis imageE subsetD)
  then have rows: "x \<in> set (ws_messages ws)" "ms_conversation_id x = j" "m \<in> set (ws_messages ws)" "ms_conversation_id m = i"
    using assms(4) by (auto simp: live_messages_def)
  moreover have "inj_on ms_id (set (ws_messages ws))" using assms(1) by (simp add: message_keys_def distinct_map)
  ultimately have "x = m" using inj_onD [of ms_id "set (ws_messages ws)" x m] x(2) by blast
  then show False using rows assms(2) by simp
qed

text \<open>
  C21 (conversations/pg\_repository.go: CreateSystemMessage, enforceRetention). Of the messages of a conversation
  that are not pinned the newest stay, as many as its retention allows, and the others are
  marked deleted; no pinned message and no message of another conversation is.
\<close>

theorem retention_keeps_newest:
  assumes "arranges collate" "message_keys ws" "ws' = enforce_retention collate j n t ws" "0 < n"
  shows "length (filter (\<lambda>m. \<not> pinned ws m) (live_messages j ws')) \<le> nat n \<and>
    (\<forall>m \<in> set (live_messages j ws). m \<notin> set (live_messages j ws') \<longrightarrow> \<not> pinned ws m \<and>
       nat n = length (filter (\<lambda>m. \<not> pinned ws m) (live_messages j ws')) \<and>
       (\<forall>kept \<in> set (live_messages j ws'). \<not> pinned ws kept \<longrightarrow> ms_created_at m \<le> ms_created_at kept)) \<and>
    (i \<noteq> j \<longrightarrow> live_messages i ws' = live_messages i ws)"
proof -
  let ?free = "filter (\<lambda>m. \<not> pinned ws m) (live_messages j ws)"
  let ?L = "newest_first collate ?free"
  have free: "filter (\<lambda>m. \<not> list_ex (\<lambda>p. pn_message_id p = ms_id m) (ws_pins ws)) (live_messages j ws) = ?free" by (simp add: pinned_def list_ex_iff)
  have victims: "retention_victims collate j n ws = map ms_id (drop (nat n) ?L)" using assms(4) by (simp add: retention_victims_def free)
  note L = newest_first_props [OF assms(1), of ?free]
  have set_L: "set ?L = set ?free" using L(1) by (metis set_mset_mset)
  have dist: "distinct (map ms_id ?L)"
    using distinct_map_filter [OF distinct_live [OF assms(2)], of "\<lambda>m. \<not> pinned ws m" j] L(1) by (metis mset_map mset_eq_imp_distinct_iff)
  have inj: "inj_on ms_id (set (live_messages j ws))" using distinct_live [OF assms(2), of j] by (simp add: distinct_map)
  let ?V = "ms_id ` set (drop (nat n) ?L)"
  have V: "set (retention_victims collate j n ws) = ?V" by (simp add: victims)
  have live: "live_messages k ws' = filter (\<lambda>m. ms_id m \<notin> ?V) (live_messages k ws)" for k unfolding assms(3) enforced_live V ..
  have "mset (filter (\<lambda>m. ms_id m \<notin> ?V) ?free) = mset (filter (\<lambda>m. ms_id m \<notin> ?V) ?L)" by (simp only: mset_filter L(1))
  also have "\<dots> = mset (take (nat n) ?L)" by (simp only: filter_take [OF dist])
  also have "filter (\<lambda>m. ms_id m \<notin> ?V) ?free = filter (\<lambda>m. \<not> pinned ws m) (live_messages j ws')" unfolding live by (simp add: conj_commute)
  finally have kept: "mset (filter (\<lambda>m. \<not> pinned ws m) (live_messages j ws')) = mset (take (nat n) ?L)" .
  then have len: "length (filter (\<lambda>m. \<not> pinned ws m) (live_messages j ws')) = min (nat n) (length ?L)"
    by (metis length_take min.commute size_mset)
  have victim: "m \<in> set (drop (nat n) ?L)" "\<not> pinned ws m" if "m \<in> set (live_messages j ws)" "m \<notin> set (live_messages j ws')" for m
  proof -
    have "ms_id m \<in> ?V" using that by (simp add: live)
    then obtain x where x: "x \<in> set (drop (nat n) ?L)" "ms_id x = ms_id m" by (metis imageE)
    then have "x \<in> set ?free" using set_L by (metis in_set_dropD)
    then show "m \<in> set (drop (nat n) ?L)" "\<not> pinned ws m" using inj_onD [OF inj x(2)] that(1) x(1) by auto
  qed
  have "set (drop (nat n) ?L) \<subseteq> set (live_messages j ws)" using set_L set_drop_subset by fastforce
  then have "i \<noteq> j \<Longrightarrow> live_messages i ws' = live_messages i ws" unfolding live using foreign_ids [OF assms(2)] by (simp add: filter_id_conv)
  moreover have "ms_created_at m \<le> ms_created_at k" if "m \<in> set (drop (nat n) ?L)" "k \<in> set (live_messages j ws')" "\<not> pinned ws k" for m k
  proof -
    have "k \<in> set (filter (\<lambda>m. \<not> pinned ws m) (live_messages j ws'))" using that(2,3) by simp
    then have "k \<in> set (take (nat n) ?L)" using mset_eq_setD [OF kept] by blast
    moreover have "sorted (map (\<lambda>m. - ms_created_at m) (take (nat n) ?L @ drop (nat n) ?L))" using L(2) by simp
    ultimately show ?thesis using that(1) by (fastforce simp: sorted_append simp del: append_take_drop_id)
  qed
  moreover have "nat n \<le> length ?L" if "m \<in> set (drop (nat n) ?L)" for m using that by (metis drop_all empty_iff linear set_empty2)
  ultimately show ?thesis using len victim by (metis min.absorb1 min.cobounded1)
qed

section \<open>Reading marks\<close>

lemma first_sorted:
  assumes "first_row (sort_key f xs) = Some x"
  shows "x \<in> set xs" "\<forall>y \<in> set xs. f x \<le> f y" "first_row (filter (\<lambda>y. f y = f x) xs) = Some x"
proof -
  obtain ys where ys: "sort_key f xs = x # ys" using assms by (auto simp: first_row_Some)
  have set_xs: "set xs = insert x (set ys)" using arg_cong [OF ys, of set] by simp
  then show "x \<in> set xs" by simp
  have "sorted (map f (x # ys))" using sorted_sort_key [of f xs] by (simp only: ys)
  then show "\<forall>y \<in> set xs. f x \<le> f y" unfolding set_xs by simp
  have "filter (\<lambda>y. f y = f x) xs = filter (\<lambda>y. f y = f x) (x # ys)" using sort_key_stable [of f "f x" xs] by (simp only: ys)
  then show "first_row (filter (\<lambda>y. f y = f x) xs) = Some x" by simp
qed

lemma first_sorted_filter:
  assumes "first_row (filter P (sort_key f xs) @ zs) = Some x" "y \<in> set xs" "P y"
  shows "x \<in> set xs \<and> f x \<le> f y"
proof -
  have "y \<in> set (filter P (sort_key f xs))" using assms(2,3) by simp
  then obtain ys where ys: "filter P (sort_key f xs) = x # ys" using assms(1) by (cases "filter P (sort_key f xs)") (auto simp: first_row_Some)
  have "sorted (map f (filter P (sort_key f xs)))" by (rule sorted_filter [OF sorted_sort_key])
  moreover have "y \<in> insert x (set ys)" using arg_cong [OF ys, of set] assms(2,3) by auto
  moreover have "x \<in> set xs" using arg_cong [OF ys, of set] by auto
  ultimately show ?thesis unfolding ys by auto
qed

text \<open>The log numbers the messages of a conversation in the order of their creation.\<close>

definition events_in_order :: "string \<Rightarrow> workspace \<Rightarrow> bool" where
  "events_in_order j ws \<longleftrightarrow> (\<forall>m1 \<in> set (live_messages j ws). \<forall>m2 \<in> set (live_messages j ws).
     \<forall>ev1 \<in> set (workspace_events (ws_rest ws)). \<forall>ev2 \<in> set (workspace_events (ws_rest ws)).
       created_event (ms_id m1) ev1 \<longrightarrow> created_event (ms_id m2) ev2 \<longrightarrow>
         er_ConversationID ev1 = Some j \<and> (ms_created_at m1 < ms_created_at m2 \<longrightarrow> er_Seq ev1 \<le> er_Seq ev2))"

text \<open>Up to the number of the marker all messages are read.\<close>

definition covers :: "string \<Rightarrow> workspace \<Rightarrow> int \<Rightarrow> bool" where
  "covers j ws n \<longleftrightarrow> (\<forall>m \<in> set (live_messages j ws). \<forall>ev \<in> set (workspace_events (ws_rest ws)). created_event (ms_id m) ev \<longrightarrow> er_Seq ev \<le> n)"

lemma max_covers: "covers j ws (case max_seq DefaultSpaceID (ws_rest ws) of None \<Rightarrow> 0 | Some n \<Rightarrow> n)"
proof -
  have le: "fold max xs (s :: int) \<ge> s \<and> (\<forall>x \<in> set xs. x \<le> fold max xs s)" for xs s
    by (induction xs arbitrary: s) (auto intro: order_trans dest: order_trans [OF max.cobounded1] order_trans [OF max.cobounded2])
  have "er_Seq ev \<in> set (map er_Seq (space_log DefaultSpaceID (ws_rest ws)))" if "ev \<in> set (workspace_events (ws_rest ws))" "created_event i ev" for i ev
    using that by (auto simp: space_log_def created_event_def)
  then show ?thesis
    unfolding covers_def max_seq_def using le by (cases "map er_Seq (space_log DefaultSpaceID (ws_rest ws))") fastforce+
qed

lemma newest_covers:
  assumes "arranges collate" "events_in_order j ws" "first_row (marker_rows collate j ws) = Some (m0, Some n0)"
  shows "covers j ws n0"
  unfolding covers_def
proof (intro ballI impI)
  let ?evs = "workspace_events (ws_rest ws)"
  define rows where "rows = concat (map (\<lambda>m. let seqs = map er_Seq (filter (\<lambda>ev. created_event (ms_id m) ev \<and> er_ConversationID ev = Some j) ?evs) in
      if seqs = [] then [(m, None)] else map (\<lambda>n. (m, Some n)) seqs) (order_desc collate ms_id (live_messages j ws)))"
  let ?g = "\<lambda>(m :: message_row, s). case s of None \<Rightarrow> 0 | Some n \<Rightarrow> - n" and ?f = "\<lambda>(m, s :: int option). - ms_created_at m"
  let ?S = "filter (\<lambda>(m, s). s \<noteq> None) rows" and ?N = "filter (\<lambda>(m, s). s = None) rows"
  have first: "first_row (sort_key ?f (sort_key ?g ?S @ ?N)) = Some (m0, Some n0)" using assms(3) by (simp only: marker_rows_def Let_def rows_def)
  have live: "set (order_desc collate ms_id (live_messages j ws)) = set (live_messages j ws)" using ordered_multiset(2) [OF assms(1)] by (metis set_mset_mset)
  have rows: "(m, Some n) \<in> set rows \<longleftrightarrow> m \<in> set (live_messages j ws) \<and> (\<exists>ev \<in> set ?evs. created_event (ms_id m) ev \<and> er_ConversationID ev = Some j \<and> er_Seq ev = n)" for m n
  proof -
    have mem: "(m, Some n) \<in> set (if seqs = [] then [(x, None)] else map (\<lambda>n. (x, Some n)) seqs) \<longleftrightarrow> m = x \<and> n \<in> set seqs" for x :: message_row and seqs
      by (cases seqs) auto
    show ?thesis unfolding rows_def Let_def set_concat set_map live Union_iff bex_simps mem by auto
  qed
  fix m ev assume m: "m \<in> set (live_messages j ws)" and ev: "ev \<in> set ?evs" "created_event (ms_id m) ev"
  have "er_ConversationID ev = Some j" using assms(2) m ev unfolding events_in_order_def by blast
  then have in_rows: "(m, Some (er_Seq ev)) \<in> set rows" using m ev rows by blast
  then have le: "ms_created_at m \<le> ms_created_at m0" using bspec [OF first_sorted(2) [OF first], of "(m, Some (er_Seq ev))"] by simp
  have "(m0, Some n0) \<in> set rows" using first_sorted(1) [OF first] by auto
  then obtain ev0 where ev0: "m0 \<in> set (live_messages j ws)" "ev0 \<in> set ?evs" "created_event (ms_id m0) ev0" "er_Seq ev0 = n0" using rows by blast
  show "er_Seq ev \<le> n0"
  proof (cases "ms_created_at m < ms_created_at m0")
    case True
    then show ?thesis using assms(2) m ev ev0 unfolding events_in_order_def by blast
  next
    case False
    then have same: "ms_created_at m = ms_created_at m0" using le by simp
    have "first_row (filter (\<lambda>y. ?f y = ?f (m0, Some n0)) (sort_key ?g ?S) @ filter (\<lambda>y. ?f y = ?f (m0, Some n0)) ?N) = Some (m0, Some n0)"
      using first_sorted(3) [OF first] by simp
    from first_sorted_filter [OF this, of "(m, Some (er_Seq ev))"] show ?thesis using in_rows same by simp
  qed
qed


definition row_read :: "string \<Rightarrow> string \<Rightarrow> workspace \<Rightarrow> bool" where
  "row_read j i ws \<longleftrightarrow> (\<forall>cm \<in> set (conversation_members (ws_rest ws)). active_in j cm \<and> cm_user_id cm = i \<longrightarrow>
     (\<exists>n. cm_last_read_seq cm = Some n \<and> covers j ws n))"

lemma update_where_in: "x \<in> set (update_where p f xs) \<Longrightarrow> \<exists>y \<in> set xs. x = (if p y then f y else y)"
  unfolding update_where_def by (induction xs) auto

lemma mark_runs:
  assumes "quiet e" "arranges collate" "events_in_order j ws"
  shows "runs (\<lambda>w. w = ws) (MarkConversationRead collate e j i now) (\<lambda>_. row_read j i)"
proof -
  have marker: "runs (\<lambda>w. w = ws) (tx_wrap t (tx_read e (\<lambda>ws. let newest = first_row (marker_rows collate j ws);
          last_seq = (case max_seq DefaultSpaceID (ws_rest ws) of None \<Rightarrow> 0 | Some n \<Rightarrow> n) in
      (case newest of
         None \<Rightarrow> \<lparr>rk_MessageID = None, rk_ReadAt = now, rk_Sequence = last_seq\<rparr>
       | Some (m, s) \<Rightarrow> \<lparr>rk_MessageID = Some (ms_id m), rk_ReadAt = ms_created_at m, rk_Sequence = (case s of None \<Rightarrow> last_seq | Some n \<Rightarrow> n)\<rparr>))))
      (\<lambda>mk w. w = ws \<and> covers j ws (rk_Sequence mk))" for t
    using max_covers [of j ws] newest_covers [OF assms(2,3)]
    by (intro runs_wrap runs_read assms(1)) (auto simp: Let_def simp del: first_row_None split: option.split)
  have mark: "runs (\<lambda>w. w = ws) (tx_wrap t (tx_write e (on_rest (\<lambda>d. Inr ((), d\<lparr>conversation_members := update_where
      (\<lambda>cm. active_in j cm \<and> cm_user_id cm = i \<and> (case cm_last_read_seq cm of None \<Rightarrow> True | Some n \<Rightarrow> n \<le> rk_Sequence mk))
      (\<lambda>cm. cm\<lparr>cm_last_read_message_id := rk_MessageID mk, cm_last_read_at := Some (pg_timestamp (rk_ReadAt mk)),
        cm_last_read_seq := Some (rk_Sequence mk)\<rparr>) (conversation_members d)\<rparr>)))))
      (\<lambda>_. row_read j i)" if c: "covers j ws (rk_Sequence mk)" for t mk
  proof (intro runs_wrap runs_write assms(1), goal_cases)
    case (1 v x v')
    let ?hit = "\<lambda>cm. active_in j cm \<and> cm_user_id cm = i \<and> (case cm_last_read_seq cm of None \<Rightarrow> True | Some n \<Rightarrow> n \<le> rk_Sequence mk)"
    let ?up = "\<lambda>cm. cm\<lparr>cm_last_read_message_id := rk_MessageID mk, cm_last_read_at := Some (pg_timestamp (rk_ReadAt mk)), cm_last_read_seq := Some (rk_Sequence mk)\<rparr>"
    have v': "v' = ws\<lparr>ws_rest := (ws_rest ws)\<lparr>conversation_members := update_where ?hit ?up (conversation_members (ws_rest ws))\<rparr>\<rparr>"
      using 1 by (simp add: on_rest_Inr)
    have rows: "conversation_members (ws_rest v') = update_where ?hit ?up (conversation_members (ws_rest ws))" by (simp add: v')
    have more: "covers j ws n" if "rk_Sequence mk \<le> n" for n using c that unfolding covers_def by fastforce
    show ?case
      unfolding row_read_def
    proof (intro ballI impI)
      fix cm' assume "cm' \<in> set (conversation_members (ws_rest v'))" and mine: "active_in j cm' \<and> cm_user_id cm' = i"
      then have "cm' \<in> set (update_where ?hit ?up (conversation_members (ws_rest ws)))" by (simp only: rows)
      then obtain cm where cm: "cm' = (if ?hit cm then ?up cm else cm)" by (blast dest: update_where_in)
      have "\<exists>n. cm_last_read_seq cm' = Some n \<and> covers j ws n"
      proof (cases "?hit cm")
        case False
        then obtain n where "cm_last_read_seq cm = Some n" "rk_Sequence mk < n" using mine cm by (cases "cm_last_read_seq cm") auto
        then show ?thesis using cm False more by simp
      qed (use cm c in simp)
      then show "\<exists>n. cm_last_read_seq cm' = Some n \<and> covers j v' n" by (simp add: v' covers_def live_messages_def)
    qed
  qed
  show ?thesis
    unfolding MarkConversationRead_def by (intro runs_bind [OF marker] runs_pure runs_bind [OF mark] runs_return) auto
qed

lemma read_counts:
  assumes "row_read j i ws" "(c, cm) \<in> set (conversation_rows i ws)" "c_id c = j"
  shows "cd_UnreadCount (scanConversationRecord ws c cm) = 0"
proof -
  have "cm \<in> set (conversation_members (ws_rest ws))" "active_in j cm" "cm_user_id cm = i" using assms(2,3) by (auto simp: conversation_rows_def)
  then obtain n where n: "cm_last_read_seq cm = Some n" "covers j ws n" using assms(1) unfolding row_read_def by blast
  then have "\<not> unread_message ws cm m" if "m \<in> set (live_messages j ws)" for m
    using that unfolding unread_message_def covers_def by (fastforce simp: list_ex_iff)
  then show ?thesis using assms(3) by (simp add: scanConversationRecord_def Let_def filter_empty_conv)
qed

lemma project_unread: "runs K (projectConversation cfg e actor r) (\<lambda>c _. cv_UnreadCount c = cd_UnreadCount r \<and> cv_ID c = cd_ID r)"
  by (auto simp: runs_def projectConversation_def tx_ok conversation_view_def Let_def)

text \<open>
  C20 (conversations/service.go: MarkRead; conversations/pg\_repository.go: MarkConversationRead, the unread count). Where
  the log numbers the messages of the conversation in the order of their creation, the conversation that marking it
  read returns has no unread message.
\<close>

theorem mark_read_clears:
  assumes "quiet e" "arranges (cf_collate cfg)" "j = TrimSpace conversationID" "events_in_order j ws"
    and "MarkRead cfg e actorID conversationID meta ws = (Inr c, ws')"
  shows "cv_ID c = j \<and> cv_UnreadCount c = 0"
proof -
  have shown: "runs (row_read j (actor_ID a)) (project_after cfg e operation cause a j) (\<lambda>c _. cv_ID c = j \<and> cv_UnreadCount c = 0)" for operation cause a
    unfolding project_after_def
  proof (rule runs_bind)
    show "runs (row_read j (actor_ID a)) (GetVisibleConversationRecord e (actor_ID a) j) (\<lambda>r _. True \<and> (\<forall>x. r = Some x \<longrightarrow> cd_ID x = j \<and> cd_UnreadCount x = 0))"
      unfolding GetVisibleConversationRecord_def
      by (intro runs_wrap runs_read assms(1)) (auto dest!: first_row_in simp: read_counts, simp add: scanConversationRecord_def Let_def)
    show "runs (\<lambda>_. True \<and> (\<forall>x. r = Some x \<longrightarrow> cd_ID x = j \<and> cd_UnreadCount x = 0))
        (case r of None \<Rightarrow> tx_fail (Domain (internalError operation cause)) | Some r \<Rightarrow> projectConversation cfg e a r) (\<lambda>c _. cv_ID c = j \<and> cv_UnreadCount c = 0)" for r
      by (intro runs_pure runs_cases runs_fail runs_weaken [OF project_unread]) auto
  qed
  have marked: "runs (\<lambda>v. v = ws) (io_bind (MarkConversationRead (cf_collate cfg) e j i now) (\<lambda>_. io_return ())) (\<lambda>_. row_read j i)" for i now
    by (rule runs_bind [OF mark_runs [OF assms(1,2,4)]]) (simp add: runs_return)
  have "accepts (\<lambda>v. v = ws) (own_row_op cfg e operation cause j (\<lambda>actor now. io_bind (MarkConversationRead (cf_collate cfg) e j (actor_ID actor) now) (\<lambda>_. io_return ())) a now)
      (\<lambda>c _. cv_ID c = j \<and> cv_UnreadCount c = 0)" for operation cause a now
    unfolding own_row_op_def
    by (intro runs_cases accepts_rejected runs_bind [OF reads_at(1) [OF assms(1)]] runs_bind [OF reads_at(7) [OF assms(1)]] runs_pure
        runs_bind [OF marked] accepts_Inr shown)
  then show ?thesis
    by (rule conversation_tx_runs [OF assms(1) _ assms(5) [unfolded MarkRead_def Let_def, folded assms(3)]])
qed


section \<open>Examples\<close>

text \<open>A group of two where the other has written a message, and one with two messages.\<close>

definition unread_ws :: workspace where
  "unread_ws = group_ws\<lparr>ws_messages := [demo_message\<lparr>ms_author_id := Some ''u2''\<rparr>]\<rparr>"

definition two_messages_ws :: workspace where
  "two_messages_ws = group_ws\<lparr>ws_messages := [demo_message, demo_message\<lparr>ms_id := ''m2'', ms_created_at := 3\<rparr>]\<rparr>"

lemma arranges_sort: "arranges (sort :: string list \<Rightarrow> string list)"
  by (simp add: arranges_def)

lemma retention_witness:
  "length (filter (\<lambda>m. \<not> pinned two_messages_ws m) (live_messages ''g1'' (enforce_retention sort ''g1'' 1 5 two_messages_ws))) \<le> 1 \<and>
   map ms_id (live_messages ''g1'' two_messages_ws) = [''m1'', ''m2''] \<and>
   map ms_id (live_messages ''g1'' (enforce_retention sort ''g1'' 1 5 two_messages_ws)) = [''m2'']"
proof -
  have "message_keys two_messages_ws" by (simp add: message_keys_def two_messages_ws_def demo_message_def system_message_def)
  from retention_keeps_newest [OF arranges_sort this refl, of 1 "''g1''" 5]
  have "length (filter (\<lambda>m. \<not> pinned two_messages_ws m) (live_messages ''g1'' (enforce_retention sort ''g1'' 1 5 two_messages_ws))) \<le> 1" by simp
  moreover have "map ms_id (live_messages ''g1'' two_messages_ws) = [''m1'', ''m2'']" by code_simp
  moreover have "map ms_id (live_messages ''g1'' (enforce_retention sort ''g1'' 1 5 two_messages_ws)) = [''m2'']" by code_simp
  ultimately show ?thesis by blast
qed

text \<open>The content of a message can be read back; then it can be projected.\<close>

definition readable :: "string \<Rightarrow> bool" where
  "readable content \<longleftrightarrow> content = [] \<or> decode_content content \<noteq> None"

lemma project_readable: "readable (cr_ContentJSON r) \<Longrightarrow> \<exists>m. projectMessage md r actor = Inr m"
proof -
  assume "readable (cr_ContentJSON r)"
  then have "\<exists>c. projectContent md (mx_ContentJSON (canonical_record r)) t shares = Inr c" for t shares
    by (auto simp: readable_def projectContent_def canonical_record_def Let_def split: option.splits)
  then have "\<exists>m. ProjectMessageForViewer md (canonical_record r) (cr_Attachments r) (cr_Reactions r) actor = Inr m"
    unfolding ProjectMessageForViewer_def messages_projectMessage_def Let_def by (metis result_bind_simps(2))
  then show ?thesis unfolding projectMessage_def by force
qed

lemma project_all_readable: "list_all (\<lambda>r. readable (cr_ContentJSON r)) rs \<Longrightarrow> \<exists>ms. project_messages md actor rs = Inr ms"
proof (induction rs)
  case (Cons r rs)
  then show ?case using project_readable [of r md actor] by auto
qed simp

lemma ends_project_readable:
  assumes "smooth e" "cf_shares cfg = None" "arranges (cf_collate cfg)" "list_all (\<lambda>m. readable (ms_content_json m)) (live_messages (cd_ID r) ws)"
  shows "ends ws (projectConversation cfg e actor r) (\<lambda>c. cv_ID c = cd_ID r)"
proof -
  let ?ok = "list_all (\<lambda>r. readable (cr_ContentJSON r))"
  let ?sorted = "newest_first (cf_collate cfg) (live_messages (cd_ID r) ws)"
  have "set ?sorted = set (live_messages (cd_ID r) ws)" using newest_first_props(1) [OF assms(3)] by (metis set_mset_mset)
  then have "?ok (rev (map (scanMessageRecord i ws) (take k ?sorted)))" for i k
    using assms(4) by (fastforce simp: list_all_iff scanMessageRecord_def Let_def dest: in_set_takeD)
  then have latest: "ends ws (ListLatestMessages (cf_collate cfg) e (cd_ID r) i k) ?ok" for i k
    unfolding ListLatestMessages_def by (intro ends_wrap ends_read assms(1))
  have hydrated: "ends ws (hydrateMessageRecords cfg e i l) ?ok" if "?ok l" for i l
    unfolding hydrateMessageRecords_def hydrateMessageShares_def ListAttachments_def ListReactions_def ListHidden_def assms(2) option.case
    using that by (cases "message_ids l = []") (auto intro!: ends_return ends_read_step [OF assms(1)] simp: list_all_iff)
  have members: "ends ws (ListConversationMembers (cf_collate cfg) e (cd_ID r) i) (\<lambda>_. True)" for i
    unfolding ListConversationMembers_def by (intro ends_wrap ends_read assms(1)) simp
  have projected: "ends ws (lift_result (project_messages (cf_markdown cfg) (Some actor) l)) (\<lambda>_. True)" if "?ok l" for l
    using project_all_readable [OF that, of "cf_markdown cfg" "Some actor"] by (auto simp: lift_result_def intro: ends_return)
  show ?thesis unfolding projectConversation_def
    by (intro ends_bind [OF members] ends_bind [OF latest] ends_bind [OF hydrated] ends_bind [OF projected] ends_return)
      (simp_all add: conversation_view_def Let_def)
qed

text \<open>Marking read writes the row of the reader; the run is put together from its statements.\<close>

definition read_ws :: workspace where
  "read_ws = unread_ws\<lparr>ws_rest := (ws_rest unread_ws)\<lparr>conversation_members :=
     [(demo_participant ''u1'')\<lparr>cm_last_read_message_id := Some ''m1'', cm_last_read_at := Some 0, cm_last_read_seq := Some 1\<rparr>, demo_participant ''u2'']\<rparr>\<rparr>"

lemma ends_weaken: "ends ws m P \<Longrightarrow> (\<And>x. P x \<Longrightarrow> Q x) \<Longrightarrow> ends ws m Q"
  unfolding ends_def by blast

lemma leads_steps:
  assumes "smooth e"
  shows "leads ws (f (g ws)) w Q \<Longrightarrow> leads ws (io_bind (tx_wrap operation (tx_read e g)) f) w Q"
    "h ws = Inr (x, w1) \<Longrightarrow> leads w1 (k x) w Q \<Longrightarrow> leads ws (io_bind (tx_wrap operation (tx_write e h)) k) w Q"
    "TrimSpace key \<noteq> [] \<Longrightarrow> leads ws (k2 ()) w Q \<Longrightarrow> leads ws (io_bind (conversations_Lock e key) k2) w Q"
proof -
  show "leads ws (f (g ws)) w Q \<Longrightarrow> leads ws (io_bind (tx_wrap operation (tx_read e g)) f) w Q"
    by (rule leads_bind [where P = "\<lambda>x. x = g ws" and ?ws1.0 = ws]) (auto simp: ends_leads [symmetric] intro: ends_wrap ends_read assms)
  show "TrimSpace key \<noteq> [] \<Longrightarrow> leads ws (k2 ()) w Q \<Longrightarrow> leads ws (io_bind (conversations_Lock e key) k2) w Q"
    by (rule leads_bind [where P = "\<lambda>_. True" and ?ws1.0 = ws]) (auto simp: ends_leads [symmetric] intro: ends_lock assms)
  have "h ws = Inr (x, w1) \<Longrightarrow> leads ws (tx_wrap operation (tx_write e h)) w1 (\<lambda>y. y = x)"
    using assms by (auto simp: leads_def smooth_def tx_wrap_def tx_write_def others_def Let_def)
  then show "h ws = Inr (x, w1) \<Longrightarrow> leads w1 (k x) w Q \<Longrightarrow> leads ws (io_bind (tx_wrap operation (tx_write e h)) k) w Q"
    by (rule leads_bind) auto
qed

lemma leads_branch:
  "b \<Longrightarrow> leads ws m w Q \<Longrightarrow> leads ws (if b then m else m2) w Q" "leads ws m2 w Q \<Longrightarrow> \<not> b \<Longrightarrow> leads ws (if b then m else m2) w Q"
  "x = Some y \<Longrightarrow> leads ws (g y) w Q \<Longrightarrow> leads ws (case x of None \<Rightarrow> m | Some y \<Rightarrow> g y) w Q"
  by simp_all

lemma mark_read_runs:
  "leads unread_ws (io_bind (MarkConversationRead sort team_env ''g1'' ''u1'' now) (\<lambda>_. io_return ())) read_ws (\<lambda>_. True)"
proof -
  have newest: "first_row (marker_rows sort ''g1'' unread_ws) = Some (demo_message\<lparr>ms_author_id := Some ''u2''\<rparr>, None)"
    "max_seq DefaultSpaceID (ws_rest unread_ws) = Some 1" by code_simp+
  have message: "ms_id (demo_message\<lparr>ms_author_id := Some ''u2''\<rparr>) = ''m1''" "ms_created_at (demo_message\<lparr>ms_author_id := Some ''u2''\<rparr>) = 0" "pg_timestamp 0 = 0" by code_simp+
  have row: "on_rest (\<lambda>d. Inr ((), d\<lparr>conversation_members := update_where
      (\<lambda>cm. active_in ''g1'' cm \<and> cm_user_id cm = ''u1'' \<and> (case cm_last_read_seq cm of None \<Rightarrow> True | Some n \<Rightarrow> n \<le> 1))
      (\<lambda>cm. cm\<lparr>cm_last_read_message_id := Some ''m1'', cm_last_read_at := Some 0, cm_last_read_seq := Some 1\<rparr>) (conversation_members d)\<rparr>)) unread_ws = Inr ((), read_ws)"
    by (simp add: on_rest_def read_ws_def unread_ws_def group_ws_def demo_participant_def update_where_def active_in_def)
  have "leads unread_ws (MarkConversationRead sort team_env ''g1'' ''u1'' now) read_ws (\<lambda>_. True)"
    unfolding MarkConversationRead_def
    by (rule leads_steps(1) [OF demo_smooth], unfold Let_def newest option.case prod.case ReadMarker.select_convs message, rule leads_steps(2) [OF demo_smooth, where x = "()" and ?w1.0 = read_ws], rule row)
      (simp add: ends_leads [symmetric] ends_return)
  then show ?thesis by (rule leads_bind) (simp add: ends_leads [symmetric] ends_return)
qed

lemma mark_read_facts:
  "first_row [scanActor u m. (u, m) \<leftarrow> space_users unread_ws, ac_id u = ''u1''] = Some demo_actor"
  "conversations_hasCapability (actor_Role demo_actor) ''conversation.read''" "TrimSpace (''conversation:'' @ ''g1'') \<noteq> []"
  "map_option cd_UnreadCount (first_row [scanConversationRecord unread_ws c cm. (c, cm) \<leftarrow> conversation_rows ''u1'' unread_ws, c_id c = ''g1'']) = Some 1"
  "map_option cd_ID (first_row [scanConversationRecord read_ws c cm. (c, cm) \<leftarrow> conversation_rows ''u1'' read_ws, c_id c = ''g1'']) = Some ''g1''"
  "list_all (\<lambda>m. readable (ms_content_json m)) (live_messages ''g1'' read_ws)"
  by code_simp+

lemma mark_read_ends: "\<exists>c. MarkRead demo_config team_env ''u1'' ''g1'' no_meta unread_ws = (Inr c, read_ws)"
  unfolding MarkRead_def Let_def demo_trim
proof (rule leads_conversation_tx [OF demo_smooth demo_trim(2) [symmetric] mark_read_facts(1)])
  obtain r0 where r0: "first_row [scanConversationRecord unread_ws c cm. (c, cm) \<leftarrow> conversation_rows ''u1'' unread_ws, c_id c = ''g1''] = Some r0"
    using mark_read_facts(4) by (auto simp del: first_row_None)
  obtain r1 where r1: "first_row [scanConversationRecord read_ws c cm. (c, cm) \<leftarrow> conversation_rows ''u1'' read_ws, c_id c = ''g1''] = Some r1" "cd_ID r1 = ''g1''"
    using mark_read_facts(5) by (auto simp del: first_row_None)
  have "leads read_ws (projectConversation demo_config team_env demo_actor r1) read_ws (\<lambda>_. True)"
    unfolding ends_leads [symmetric]
    by (rule ends_weaken [OF ends_project_readable]) (use mark_read_facts(6) in \<open>simp_all add: demo_config_def arranges_sort r1(2)\<close>)
  then have shown: "leads read_ws (project_after demo_config team_env operation cause demo_actor ''g1'') read_ws (\<lambda>_. True)" for operation cause
    unfolding project_after_def GetVisibleConversationRecord_def tea_actor(6) by (intro leads_steps(1) [OF demo_smooth]) (simp add: r1)
  have collate: "cf_collate demo_config = sort" by (simp add: demo_config_def)
  show "leads unread_ws (own_row_op demo_config team_env ''project marked conversation read'' ''conversation is not visible after read update'' ''g1''
      (\<lambda>actor now. io_bind (MarkConversationRead (cf_collate demo_config) team_env ''g1'' (actor_ID actor) now) (\<lambda>_. io_return ())) demo_actor (conversations_now team_env))
      read_ws (\<lambda>r. \<exists>x. r = Inr x)"
    unfolding own_row_op_def GetVisibleConversationRecord_def tea_actor(6) collate
    by (intro leads_branch(2) [OF leads_branch(2) [OF leads_steps(3) [OF demo_smooth mark_read_facts(3)]]] leads_steps(1) [OF demo_smooth]
        leads_branch(3) [OF r0] leads_bind [OF mark_read_runs] leads_bind [OF shown])
      (simp_all add: mark_read_facts(2) ends_leads [symmetric] ends_return del: scanActor_simps)
qed (simp_all add: tea_actor demo_trim del: scanActor_simps)

lemma mark_read_witness:
  "\<exists>c ws'. MarkRead demo_config team_env ''u1'' ''g1'' no_meta unread_ws = (Inr c, ws') \<and> cv_ID c = ''g1'' \<and> cv_UnreadCount c = 0 \<and>
     map_option cd_UnreadCount (first_row [scanConversationRecord unread_ws r cm. (r, cm) \<leftarrow> conversation_rows ''u1'' unread_ws, c_id r = ''g1'']) = Some 1"
proof -
  obtain c where run: "MarkRead demo_config team_env ''u1'' ''g1'' no_meta unread_ws = (Inr c, read_ws)" using mark_read_ends by blast
  have order: "events_in_order ''g1'' unread_ws" by code_simp
  have smooth: "quiet team_env" "arranges (cf_collate demo_config)" using demo_smooth [of 0] by (simp_all add: demo_config_def arranges_sort)
  have "cv_ID c = ''g1'' \<and> cv_UnreadCount c = 0" by (rule mark_read_clears [OF smooth demo_trim(1) [symmetric] order run])
  moreover have "map_option cd_UnreadCount (first_row [scanConversationRecord unread_ws r cm. (r, cm) \<leftarrow> conversation_rows ''u1'' unread_ws, c_id r = ''g1'']) = Some 1"
    by code_simp
  ultimately show ?thesis using run by blast
qed

end
