(* ===== verification/Spec2Isabelle.thy ===== *)
theory Spec2Isabelle
  imports Media_Process P2P_Transport Realtime_Hub Realtime_Session Workspace_Access Conversations_Reading
begin

text \<open>
  The backend of duallane (src/apps/backend). The program has two lanes. The private lane
  relays opaque envelopes between the peers of short-lived rooms and keeps everything in
  memory. The workspace lane stores conversations, messages, files and cards in PostgreSQL;
  every change is recorded in a durable event log, and clients follow the log over a
  WebSocket. Uploaded images pass through a media processor. The development models, in the
  order of the code, the parts below; all paths are under src/apps/backend/internal.

  \<^bold>\<open>Language and library.\<close> \<open>Prelude\<close> has Go results as sums, Go maps as association lists behind
  the locale \<open>finite_map\<close>, and the invariant principle \<open>invariant_system\<close>. \<open>Go_Text\<close> (strings, UTF-8,
  package strings), \<open>Go_Bytes\<close> (slices whose out-of-range access is a panic, the locale
  \<open>scanner\<close> for scanning loops), \<open>Go_Json\<close> (encoding/json: parser, printer, struct decoding),
  \<open>Go_Any\<close> (dynamic values and payload schemas), \<open>Go_Time\<close>, \<open>Go_Crypto\<close> (base64, SHA-1, HMAC) hold what
  the source uses of the standard library.

  \<^bold>\<open>Media (platform/media).\<close> \<open>Media_Policy\<close> models policy.go and errors.go, \<open>Media_Inspect\<close> the header
  parsers of inspect.go for JPEG, PNG, GIF, WebP and BMP, \<open>Media_WebP\<close> the removal of WebP
  metadata, \<open>Media_Process\<close> the processor with its BMP decoder. \<open>Media_Safety\<close> shows that no parser
  panics and that what validate accepts is within the pixel budget, by interpreting \<open>scanner\<close>
  on the three parsing loops. \<open>Media_WebP\<close> shows that the WebP rewrite is the reference filter
  on chunks and keeps exactly the image chunks; \<open>Media_Process\<close> that a processed upload satisfies
  the limits of its kind. The image codecs are third-party code and parameters.

  \<^bold>\<open>Private lane (p2p).\<close> \<open>P2P_Envelope\<close> models envelope.go (what a client frame may be, and that a
  relayed envelope is read back unchanged), \<open>P2P_Rooms\<close> rooms.go: state, locked sections, timers,
  and the mutual recursion of leaving and broadcasting. \<open>P2P_Lobby\<close> has the invariant (by
  \<open>invariant_system\<close>, over every interleaving of locked sections) and an abstract lobby;
  \<open>P2P_Properties\<close> has the refinement, termination of every request, and the outcome of each
  operation; \<open>P2P_Transport\<close> models transport.go, ice.go and metrics with the session loop of a
  socket, its clean-up, TURN credentials and base URL.

  \<^bold>\<open>Event log (workspace).\<close> \<open>Cards_Block\<close> models the card reference of cards/registry.go. \<open>Events_Payload\<close>
  models events/model.go and the allowlist projection of events/service.go: whatever a stored
  payload holds, only listed fields of listed types leave the server. \<open>Events_Store\<close> has the
  tables and the WriteEvent functions of twelve repositories; the locale \<open>event_writer\<close> states
  their contract, is interpreted on all twelve, and gives that the log only grows at its end
  with consecutive numbers. \<open>Events_Repository\<close> models events/errors.go and events/pg_repository.go,
  with the visibility decision of an event; a query reads the database at its own moment, so
  other transactions commit between two queries. \<open>Events_Replay\<close> models Replay and GetForActor of
  events/service.go over the repository interface. The locale \<open>event_log\<close> states what the replay
  relies on (a log that only grows, in order, and reads that answer from it); it is
  interpreted as \<open>pg\<close> on the PostgreSQL repository over every history of commits, where the
  invariant of the log discharges the laws. The theorems say that a replay delivers exactly
  the visible part of the log, in order, up to the cursor it leaves.

  \<^bold>\<open>Realtime (workspace/presence, workspace/realtime).\<close> \<open>Presence\<close> models the lease service and its
  SQL; a registered connection is online until its lease ends, and nobody is online for longer
  than the longest lease after the last contact. \<open>Realtime_Hub\<close> models hub.go (a subscriber never
  loses a wake-up) and the reconnect loop of listener.go. \<open>Realtime_Session\<close> models handler.go: a
  WebSocket session as a step function on every input of its select loop, where each write may
  fail. Composed with the replay over the PostgreSQL repository it sends each visible event
  exactly once and in order; a wake-up sends what was in the log; the presence leases of a
  session are all released when it is over.

  \<^bold>\<open>Tables and transactions (workspace).\<close> \<open>Workspace_Store\<close> has the tables of accounts, memberships,
  sessions, invitations, audit entries and of the mobile client, and transactions on them. A
  transaction keeps the committed database and the one it sees; before each statement other
  transactions may commit, a statement may fail, and a failed transaction leaves the
  committed database. The locale \<open>effect\<close> carries a relation between databases over a whole
  transaction from its statements; it is interpreted on four relations: \<open>forward\<close> (no row is lost,
  what is revoked, consumed or bound stays so; \<open>Workspace_History\<close>, where the locale \<open>row_order\<close>
  gives the history of one table and is interpreted on seven), \<open>keeps_owner\<close>, \<open>same_access\<close> and \<open>same_tokens\<close>.
  \<open>valid\<close> is an assertion logic for the parts that hold a lock.

  \<^bold>\<open>Authentication (workspace/auth).\<close> \<open>Go_Sha256\<close> and \<open>Go_Net\<close> have SHA-256 and the address parsing and
  printing of package net; \<open>Go_Net_Text\<close> shows that the printed form of an address is canonical: it parses
  back to the same sixteen bytes. \<open>Auth_Identity\<close> models request\_meta.go and the profile, code and secret functions of
  session.go; \<open>Auth_Sessions\<close> the sessions of session.go and pg\_store.go; \<open>Auth_Login\<close> the
  transaction of AuthenticateGitHub with identity matching and the acceptance of an
  invitation; \<open>Auth_Mobile\<close> PKCE, login codes, refresh and access tokens of mobile.go and
  mobile\_pg.go. The theorems say what a login that succeeds has done and which audit entries
  it has written, that one that fails only adds audit entries, that a token resolves only through a live session, and that codes and
  refresh tokens are good once.

  \<^bold>\<open>Invitations and members (workspace/invites, workspace/members).\<close> \<open>Invites\<close> and \<open>Members\<close> model the
  services with their repositories. \<open>Members_Rules\<close> shows that a space keeps an owner through
  every change, also under interference (the count of owners is taken under the advisory
  lock), that only owners change roles and remove members, that a removed member is locked
  out, and what a projected member shows. \<open>Workspace_Access\<close> puts all operations together:
  over every history of them, each with other operations between its statements, a revoked
  session, a spent secret and an exhausted invitation stay so.

  \<^bold>\<open>Conversations (workspace/conversations) and the message projection (workspace/messages).\<close>
  \<open>Messages_Model\<close> models the content of a message, its JSON, and the projection of a message for
  a viewer of messages/model.go. \<open>Conversations_Store\<close> has the statements of the repository with the
  reads of attachments, reactions and hidden messages; \<open>Conversations\<close> every operation of service.go
  and topic\_pins.go, over a record of what the service is configured with (order of the database,
  Markdown, combining marks, reader of shared collections). A read and the audit of its refusal
  are two transactions, \<open>run_read\<close>. \<open>Conversations_Rules\<close> extends the locale \<open>effect\<close> by what each
  kind of operation writes (\<open>conversation_effect\<close>, \<open>marking_effect\<close>, \<open>joining_effect\<close>, \<open>membership_effect\<close>,
  \<open>pin_effect\<close>), interprets these on \<open>forward\<close> and \<open>keeps_owner\<close>, so that the guarantees above extend to
  conversations, and on \<open>keeps_pins\<close>, and shows under interference that the pin counters are right.
  \<open>Conversations_Groups\<close> has rules for a transaction alone and shows what the group operations do to the members,
  who is let in and that a direct conversation is made once; \<open>Conversations_Reading\<close> retention and reading marks.

  \<^bold>\<open>Fuel and bounds.\<close> \<open>Replay\<close> reads pages while other transactions may add rows, so its loop has
  fuel, one unit per page; a theorem gives the fuel that is enough when the log stays below a
  size. A broadcast removes a peer per failing connection; its recursion has fuel
  shown to be enough for every request. Parsers have the length of the input as fuel, JSON the
  nesting limit of Go. Sequence numbers are int with the 64-bit bound of the column where it
  is enforced, and wrap-around where Go adds.

  \<^bold>\<open>Outside the model.\<close> Nil receivers and missing dependencies, contexts and their timeouts,
  logging, metrics of the workspace lane, HTTP routing, the WebSocket protocol, image codecs,
  the Markdown parser and the Unicode case table (parameters where their answer matters).
  The enrichment of payloads from storage (events/projection.go) is an arbitrary function in
  the replay. The HTTP handlers of auth, the GitHub client and return targets are HTTP and
  net/url; the avatar address, the times of expiry of an invitation and the collation of the
  database are parameters of the definitions that use them. Rows of a table that other
  packages write enter as what other transactions commit. The seed statements (seed/seed.go)
  are not modelled. The services of the other workspace packages (sending, recalling and reacting
  of messages, topics, files, emotes, avatars, cards, interactions, bots, botgateway, echo, email)
  are not modelled; their commits enter as interference.
\<close>

end
